(* ===== verification/Prelude.thy ===== *)
theory Prelude
  imports Complex_Main "HOL-Library.Word" "HOL-Library.Multiset" "HOL-Library.Signed_Division"
begin

section \<open>Prelude: the part of Go that the components share\<close>

text \<open>
  This theory names the model's basic types and collects what every component uses.

  \<^item> A \<open>time.Time\<close> is an integer number of nanoseconds counted from Go's zero
    time, so \<open>t.IsZero()\<close> is \<open>t = 0\<close>, \<open>t.Before(u)\<close> is \<open>t < u\<close> and
    \<open>t.After(u)\<close> is \<open>u < t\<close>; a \<open>time.Duration\<close> is an integer number
    of nanoseconds. \<open>Time.Sub\<close> saturates at the bounds of an \<open>int64\<close>, as the
    library documents. The clock is an argument of every operation that reads it.
  \<^item> A \<open>float64\<close> is a real number: rounding is not modelled.
  \<^item> Account, key and counter values of type \<open>int64\<close> and \<open>int\<close> are unbounded
    integers; round-robin cursors, which wrap, are words.
  \<^item> \<open>sort.SliceStable\<close> is insertion sort with the source's \<open>less\<close> function. The
    locale \<open>go_less\<close> states what a \<open>less\<close> function owes to the sort and proves
    once that the result is an ordered, stable permutation.
  \<^item> The locale \<open>invariant_machine\<close> lifts a one-step invariant to every
    reachable state, and \<open>slot_gate\<close> states the contract shared by the two
    concurrency gates of the program.
\<close>

type_synonym time = int
type_synonym duration = int
type_synonym float64 = real

text \<open>Collections that the component proofs give to the simplifier.\<close>

named_theorems go_defs \<open>definitions of the small Go library functions\<close>
named_theorems sel_simps \<open>which fields an operation leaves alone\<close>

subsection \<open>Optional fields of a request\<close>

text \<open>\<open>if req.X != nil { ... }\<close>\<close>

definition whenSet :: "'v option \<Rightarrow> ('v \<Rightarrow> 's \<Rightarrow> 's) \<Rightarrow> 's \<Rightarrow> 's" where
  "whenSet field f s = (case field of None \<Rightarrow> s | Some v \<Rightarrow> f v s)"

subsection \<open>Time\<close>

definition Second :: duration where [go_defs]: "Second = 1000000000"
definition Millisecond :: duration where [go_defs]: "Millisecond = 1000000"
definition Minute :: duration where [go_defs]: "Minute = 60 * Second"
definition Hour :: duration where [go_defs]: "Hour = 60 * Minute"

definition maxDuration :: duration where "maxDuration = 2 ^ 63 - 1"
definition minDuration :: duration where "minDuration = - (2 ^ 63)"

definition time_Sub :: "time \<Rightarrow> time \<Rightarrow> duration" where
  "time_Sub t u = max minDuration (min maxDuration (t - u))"

lemma time_Sub_less_iff: "d \<le> maxDuration \<Longrightarrow> minDuration < d \<Longrightarrow> time_Sub t u < d \<longleftrightarrow> t - u < d"
  by (auto simp: time_Sub_def max_def min_def)

lemma time_Sub_le_iff: "d < maxDuration \<Longrightarrow> minDuration \<le> d \<Longrightarrow> time_Sub t u \<le> d \<longleftrightarrow> t - u \<le> d"
  by (auto simp: time_Sub_def max_def min_def)

lemma time_Sub_pos_iff [simp]: "0 < time_Sub t u \<longleftrightarrow> u < t"
  by (auto simp: time_Sub_def maxDuration_def minDuration_def max_def min_def)

lemma time_Sub_le_zero_iff [simp]: "time_Sub t u \<le> 0 \<longleftrightarrow> t \<le> u"
  using time_Sub_pos_iff [of t u] by linarith

subsection \<open>Small arithmetic\<close>

text \<open>Reduction of an integer to a two's-complement \<open>int64\<close>, as Go's arithmetic does on overflow.\<close>

definition wrap64 :: "int \<Rightarrow> int" where
  "wrap64 x = (x + 2 ^ 63) mod 2 ^ 64 - 2 ^ 63"

lemma wrap64_id: "- (2 ^ 63) \<le> x \<Longrightarrow> x < 2 ^ 63 \<Longrightarrow> wrap64 x = x"
  by (simp add: wrap64_def)

definition clampInt :: "int \<Rightarrow> int \<Rightarrow> int \<Rightarrow> int" where
  "clampInt value minValue maxValue =
     (if value < minValue then minValue
      else if value > maxValue then maxValue else value)"

lemma clampInt_bounds: "lo \<le> hi \<Longrightarrow> lo \<le> clampInt v lo hi \<and> clampInt v lo hi \<le> hi"
  by (auto simp: clampInt_def)

lemma convex_bounds:
  fixes a x y :: real
  assumes "0 \<le> a" "a \<le> 1" "l \<le> x" "x \<le> u" "l \<le> y" "y \<le> u"
  shows "l \<le> x * a + y * (1 - a)" and "x * a + y * (1 - a) \<le> u"
proof -
  have "l * a + l * (1 - a) \<le> x * a + y * (1 - a)"
    using assms by (intro add_mono mult_right_mono) auto
  then show "l \<le> x * a + y * (1 - a)" by (simp add: algebra_simps)
  have "x * a + y * (1 - a) \<le> u * a + u * (1 - a)"
    using assms by (intro add_mono mult_right_mono) auto
  then show "x * a + y * (1 - a) \<le> u" by (simp add: algebra_simps)
qed

subsection \<open>Stable sorting by a less function\<close>

fun stable_insert :: "('a \<Rightarrow> 'a \<Rightarrow> bool) \<Rightarrow> 'a \<Rightarrow> 'a list \<Rightarrow> 'a list" where
  "stable_insert lt x [] = [x]"
| "stable_insert lt x (y # ys) =
     (if lt y x then y # stable_insert lt x ys else x # y # ys)"

fun stable_sort :: "('a \<Rightarrow> 'a \<Rightarrow> bool) \<Rightarrow> 'a list \<Rightarrow> 'a list" where
  "stable_sort lt [] = []"
| "stable_sort lt (x # xs) = stable_insert lt x (stable_sort lt xs)"

lemma mset_stable_insert [simp]: "mset (stable_insert lt x xs) = add_mset x (mset xs)"
  by (induction xs) auto

lemma mset_stable_sort [simp]: "mset (stable_sort lt xs) = mset xs"
  by (induction xs) auto

lemma set_stable_insert [simp]: "set (stable_insert lt x xs) = insert x (set xs)"
  by (induction xs) auto

lemma set_stable_sort [simp]: "set (stable_sort lt xs) = set xs"
  by (metis mset_stable_sort set_mset_mset)

lemma length_stable_sort [simp]: "length (stable_sort lt xs) = length xs"
  by (metis mset_stable_sort size_mset)

lemma stable_sort_Nil_iff [simp]: "stable_sort lt xs = [] \<longleftrightarrow> xs = []"
  by (metis length_0_conv length_stable_sort)

lemma distinct_map_stable_sort [simp]:
  "distinct (map f (stable_sort lt xs)) = distinct (map f xs)"
  by (metis mset_map mset_stable_sort mset_eq_imp_distinct_iff)

text \<open>
  What a Go \<open>less\<close> function owes to \<open>sort.SliceStable\<close>: a strict weak order.
\<close>

locale go_less =
  fixes lt :: "'a \<Rightarrow> 'a \<Rightarrow> bool"
  assumes lt_asym: "lt x y \<Longrightarrow> \<not> lt y x"
    and lt_split: "lt x z \<Longrightarrow> lt x y \<or> lt y z"
begin

abbreviation ordered :: "'a list \<Rightarrow> bool" where
  "ordered \<equiv> sorted_wrt (\<lambda>x y. \<not> lt y x)"

lemma ordered_insert: "ordered xs \<Longrightarrow> ordered (stable_insert lt x xs)"
proof (induction xs)
  case (Cons y ys)
  have "\<not> lt z x" if "\<not> lt y x" "z \<in> set ys" for z
    using that Cons.prems lt_split [of z x y] by auto
  with Cons show ?case by (auto dest: lt_asym)
qed simp

lemma ordered_sort: "ordered (stable_sort lt xs)"
  by (induction xs) (simp_all add: ordered_insert)

definition tied :: "'a \<Rightarrow> 'a \<Rightarrow> bool" where
  "tied x y \<longleftrightarrow> \<not> lt x y \<and> \<not> lt y x"

lemma filter_insert:
  "filter (tied a) (stable_insert lt x xs) = (if tied a x then x # filter (tied a) xs else filter (tied a) xs)"
proof (induction xs)
  case (Cons y ys)
  have "\<not> (tied a x \<and> tied a y)" if "lt y x"
    using that lt_split unfolding tied_def by blast
  then show ?case using Cons by auto
qed simp

lemma sort_stable: "filter (tied a) (stable_sort lt xs) = filter (tied a) xs"
  by (induction xs) (simp_all add: filter_insert)

lemma sort_head_least: "stable_sort lt xs = y # ys \<Longrightarrow> x \<in> set xs \<Longrightarrow> \<not> lt x y"
proof -
  assume a: "stable_sort lt xs = y # ys" and x: "x \<in> set xs"
  have "ordered (y # ys)" using ordered_sort [of xs] by (simp add: a)
  moreover have "x \<in> set (y # ys)" using x a by (metis set_stable_sort)
  ultimately show "\<not> lt x y" using lt_asym by auto
qed

lemma sort_ordered: "ordered xs \<Longrightarrow> stable_sort lt xs = xs"
proof (induction xs)
  case (Cons x xs)
  then show ?case by (cases xs) auto
qed simp

text \<open>Where the order is total, the sorted list depends only on the elements and not on the order they came in.\<close>

lemma ordered_unique:
  "ordered xs \<Longrightarrow> ordered ys \<Longrightarrow> mset xs = mset ys \<Longrightarrow> (\<And>x y. x \<in> set xs \<Longrightarrow> y \<in> set xs \<Longrightarrow> x \<noteq> y \<Longrightarrow> lt x y \<or> lt y x)
    \<Longrightarrow> xs = ys"
proof (induction xs arbitrary: ys)
  case (Cons x xs)
  then obtain y ys' where ys: "ys = y # ys'" by (cases ys) auto
  have m: "set (x # xs) = set ys" using Cons.prems(3) by (metis set_mset_mset)
  have "x = y"
  proof (rule ccontr)
    assume n: "x \<noteq> y"
    then have y: "y \<in> set xs" "x \<in> set ys'" using m ys by auto
    then have "\<not> lt y x" "\<not> lt x y" using Cons.prems(1,2) ys by auto
    then show False using Cons.prems(4) [of x y] n y by simp
  qed
  moreover have "xs = ys'"
  proof (rule Cons.IH)
    show "ordered xs" "ordered ys'" using Cons.prems(1,2) ys by auto
    show "mset xs = mset ys'" using Cons.prems(3) ys \<open>x = y\<close> by simp
    show "lt a b \<or> lt b a" if "a \<in> set xs" "b \<in> set xs" "a \<noteq> b" for a b using Cons.prems(4) [of a b] that by simp
  qed
  ultimately show ?case using ys by simp
qed simp

lemma sort_perm:
  "mset xs = mset ys \<Longrightarrow> (\<And>x y. x \<in> set xs \<Longrightarrow> y \<in> set xs \<Longrightarrow> x \<noteq> y \<Longrightarrow> lt x y \<or> lt y x) \<Longrightarrow> stable_sort lt xs = stable_sort lt ys"
  by (rule ordered_unique [OF ordered_sort ordered_sort]) auto

end

subsection \<open>Reachable states\<close>

locale invariant_machine =
  fixes step :: "'s \<Rightarrow> 's \<Rightarrow> bool" and inv :: "'s \<Rightarrow> bool"
  assumes step_inv: "step s t \<Longrightarrow> inv s \<Longrightarrow> inv t"
begin

lemma reachable_inv: "step\<^sup>*\<^sup>* s t \<Longrightarrow> inv s \<Longrightarrow> inv t"
  by (induction rule: rtranclp_induct) (auto intro: step_inv)

end

subsection \<open>Concurrency gates\<close>

text \<open>
  A gate with slots: \<open>acquire\<close> with a positive limit is granted exactly while fewer slots than the
  limit are used, and takes one; \<open>release\<close> gives one back.
\<close>

locale slot_gate =
  fixes used :: "'s \<Rightarrow> int"
    and acquire :: "int \<Rightarrow> 's \<Rightarrow> 's option"
    and release :: "'s \<Rightarrow> 's"
  assumes acquire_iff: "0 < limit \<Longrightarrow> acquire limit s \<noteq> None \<longleftrightarrow> used s < limit"
    and acquire_used: "0 < limit \<Longrightarrow> acquire limit s = Some s' \<Longrightarrow> used s' = used s + 1"
    and release_used: "0 < used s \<Longrightarrow> used (release s) = used s - 1"
begin

text \<open>A schedule of the requests that share the gate: an element \<open>Some l\<close> tries to enter with
  limit \<open>l\<close>, \<open>None\<close> leaves. Only a request that was let in leaves, so a leave at a gate in which
  no slot is used does not occur.\<close>

fun gate_run :: "int option list \<Rightarrow> 's \<Rightarrow> 's" where
  "gate_run [] s = s"
| "gate_run (Some l # ops) s = gate_run ops (case acquire l s of None \<Rightarrow> s | Some s' \<Rightarrow> s')"
| "gate_run (None # ops) s = gate_run ops (if 0 < used s then release s else s)"

lemma gate_bounded:
  assumes "0 \<le> used s" "used s \<le> L" "\<forall>l. Some l \<in> set ops \<longrightarrow> 0 < l \<and> l \<le> L"
  shows "0 \<le> used (gate_run ops s) \<and> used (gate_run ops s) \<le> L"
  using assms
proof (induction ops arbitrary: s)
  case (Cons op ops)
  show ?case
  proof (cases op)
    case None
    then show ?thesis using Cons release_used [of s] by (cases "0 < used s") auto
  next
    case (Some l)
    show ?thesis
    proof (cases "acquire l s")
      case None
      then show ?thesis using Cons Some by simp
    next
      case s': (Some s')
      have l: "0 < l" "l \<le> L" using Cons.prems(3) Some by auto
      have "used s < l" "used s' = used s + 1" using acquire_iff [OF l(1), of s] acquire_used [OF l(1) s'] s' by auto
      then show ?thesis using Cons.IH [of s'] Cons.prems Some s' l by simp
    qed
  qed
qed simp

end

end
