(* ===== verification/GoStrings.thy ===== *)
theory GoStrings
  imports Prelude
begin

section \<open>The string functions of Go's standard library that the program uses\<close>

text \<open>
  A Go string is a byte sequence, here a list of \<open>char\<close> (bytes). The functions below
  are those of the package \<open>strings\<close>; \<open>ToLower\<close>, \<open>EqualFold\<close> and \<open>TrimSpace\<close>
  are modelled on ASCII: a byte above 127 is neither a letter with case nor a space.
\<close>

definition is_space :: "char \<Rightarrow> bool" where
  "is_space c \<longleftrightarrow> (let n = (of_char c :: nat) in n = 32 \<or> (9 \<le> n \<and> n \<le> 13))"

definition lower_char :: "char \<Rightarrow> char" where
  "lower_char c = (let n = (of_char c :: nat) in if 65 \<le> n \<and> n \<le> 90 then char_of (n + 32) else c)"

definition TrimSpace :: "string \<Rightarrow> string" where
  "TrimSpace s = rev (dropWhile is_space (rev (dropWhile is_space s)))"

definition ToLower :: "string \<Rightarrow> string" where
  "ToLower s = map lower_char s"

definition EqualFold :: "string \<Rightarrow> string \<Rightarrow> bool" where
  "EqualFold s t \<longleftrightarrow> ToLower s = ToLower t"

definition TrimRight :: "char \<Rightarrow> string \<Rightarrow> string" where
  "TrimRight c s = rev (dropWhile (\<lambda>x. x = c) (rev s))"

definition TrimLeft :: "char \<Rightarrow> string \<Rightarrow> string" where
  "TrimLeft c s = dropWhile (\<lambda>x. x = c) s"

definition HasPrefix :: "string \<Rightarrow> string \<Rightarrow> bool" where
  "HasPrefix s p \<longleftrightarrow> take (length p) s = p"

definition HasSuffix :: "string \<Rightarrow> string \<Rightarrow> bool" where
  "HasSuffix s p \<longleftrightarrow> HasPrefix (rev s) (rev p)"

definition TrimPrefix :: "string \<Rightarrow> string \<Rightarrow> string" where
  "TrimPrefix s p = (if HasPrefix s p then drop (length p) s else s)"

text \<open>\<open>Index\<close> returns the first position of a substring; \<open>-1\<close> is \<open>None\<close>.\<close>

fun Index :: "string \<Rightarrow> string \<Rightarrow> nat option" where
  "Index s p =
     (if HasPrefix s p then Some 0
      else case s of [] \<Rightarrow> None | _ # s' \<Rightarrow> map_option Suc (Index s' p))"

declare Index.simps [simp del]

definition Contains :: "string \<Rightarrow> string \<Rightarrow> bool" where
  "Contains s p \<longleftrightarrow> Index s p \<noteq> None"

fun LastIndex :: "string \<Rightarrow> string \<Rightarrow> nat option" where
  "LastIndex s p =
     (case s of
        [] \<Rightarrow> (if p = [] then Some 0 else None)
      | _ # s' \<Rightarrow> (case LastIndex s' p of
          Some i \<Rightarrow> Some (Suc i)
        | None \<Rightarrow> if HasPrefix s p then Some 0 else None))"

declare LastIndex.simps [simp del]

text \<open>\<open>strings.Split\<close> with a one-byte separator.\<close>

fun Split :: "char \<Rightarrow> string \<Rightarrow> string list" where
  "Split c [] = [[]]"
| "Split c (x # xs) =
     (if x = c then [] # Split c xs
      else case Split c xs of [] \<Rightarrow> [[x]] | p # ps \<Rightarrow> (x # p) # ps)"

subsection \<open>Lemmas\<close>

lemma lower_char_idem [simp]: "lower_char (lower_char c) = lower_char c"
proof -
  have "of_char (char_of n :: char) = (n :: nat)" if "n < 256" for n
    using that by (simp add: of_char_of)
  then show ?thesis by (auto simp: lower_char_def Let_def)
qed

lemma is_space_lower [simp]: "is_space (lower_char c) = is_space c"
proof -
  have "of_char (char_of n :: char) = (n :: nat)" if "n < 256" for n
    using that by (simp add: of_char_of)
  then show ?thesis by (auto simp: lower_char_def is_space_def Let_def)
qed

lemma ToLower_idem [simp]: "ToLower (ToLower s) = ToLower s"
  by (simp add: ToLower_def)

lemma ToLower_Nil_iff [simp]: "ToLower s = [] \<longleftrightarrow> s = []"
  by (simp add: ToLower_def)

lemma dropWhile_space_ToLower: "dropWhile is_space (ToLower s) = ToLower (dropWhile is_space s)"
  by (simp add: ToLower_def dropWhile_map comp_def)

lemma TrimSpace_ToLower: "TrimSpace (ToLower s) = ToLower (TrimSpace s)"
  unfolding TrimSpace_def dropWhile_space_ToLower
  by (simp add: ToLower_def rev_map dropWhile_map comp_def)

lemma dropWhile_dropWhile_rev:
  "dropWhile P (rev (dropWhile P (rev (dropWhile P s)))) = rev (dropWhile P (rev (dropWhile P s)))"
proof (cases "dropWhile P s")
  case (Cons x xs)
  then have "\<not> P x" by (metis hd_dropWhile list.discI list.sel(1))
  then show ?thesis using Cons by (simp add: dropWhile_append)
next
  case Nil
  then show ?thesis by (simp only: rev.simps dropWhile.simps)
qed

lemma TrimSpace_idem [simp]: "TrimSpace (TrimSpace s) = TrimSpace s"
  by (simp add: TrimSpace_def dropWhile_dropWhile_rev)

lemma TrimSpace_Nil [simp]: "TrimSpace [] = []"
  by (simp add: TrimSpace_def)

lemma EqualFold_refl [simp]: "EqualFold s s"
  by (simp add: EqualFold_def)

lemma EqualFold_sym: "EqualFold s t \<Longrightarrow> EqualFold t s"
  by (simp add: EqualFold_def)

lemma EqualFold_trans: "EqualFold s t \<Longrightarrow> EqualFold t u \<Longrightarrow> EqualFold s u"
  by (simp add: EqualFold_def)

lemma HasPrefix_iff: "HasPrefix s p \<longleftrightarrow> (\<exists>t. s = p @ t)"
  unfolding HasPrefix_def by (metis append_eq_conv_conj append_take_drop_id)

lemma HasSuffix_iff: "HasSuffix s p \<longleftrightarrow> (\<exists>t. s = t @ p)"
proof -
  have "(\<exists>t. rev s = rev p @ t) \<longleftrightarrow> (\<exists>t. s = t @ p)"
    by (metis rev_append rev_rev_ident)
  then show ?thesis by (simp add: HasSuffix_def HasPrefix_iff)
qed

lemma Index_SomeD: "Index s p = Some i \<Longrightarrow> \<exists>u v. s = u @ p @ v \<and> length u = i"
proof (induction s p arbitrary: i rule: Index.induct)
  case (1 s p)
  show ?case
  proof (cases "HasPrefix s p")
    case True
    with "1.prems" show ?thesis by (simp add: Index.simps [of s p] HasPrefix_iff)
  next
    case False
    with "1.prems" obtain x s' j where s: "s = x # s'" "Index s' p = Some j" "i = Suc j"
      by (auto simp: Index.simps [of s p] split: list.splits)
    from "1.IH" [OF False s(1) s(2)] obtain u v where "s' = u @ p @ v" "length u = j" by blast
    then have "s = (x # u) @ p @ v \<and> length (x # u) = i" using s by simp
    then show ?thesis by blast
  qed
qed

lemma Index_least: "Index (u @ p @ v) p = Some i \<Longrightarrow> i \<le> length u"
proof (induction u arbitrary: i)
  case Nil
  then show ?case by (subst (asm) Index.simps) (simp add: HasPrefix_def)
next
  case (Cons x u)
  then show ?case
    by (subst (asm) Index.simps) (auto split: if_splits)
qed

lemma Index_occurs: "Index (u @ p @ v) p \<noteq> None"
proof (induction u)
  case Nil
  then show ?case by (subst Index.simps) (simp add: HasPrefix_def)
next
  case (Cons x u)
  then show ?case by (subst Index.simps) simp
qed

lemma Contains_iff: "Contains s p \<longleftrightarrow> (\<exists>u v. s = u @ p @ v)"
  using Index_SomeD Index_occurs unfolding Contains_def by fastforce

lemma Split_not_Nil [simp]: "Split c s \<noteq> []"
  by (induction s) (auto split: list.splits)

subsection \<open>Decimal numbers\<close>

text \<open>The verb \<open>%d\<close> of \<open>fmt.Sprintf\<close>.\<close>

fun showNat :: "nat \<Rightarrow> string" where
  "showNat n = (if n < 10 then [char_of (48 + n)] else showNat (n div 10) @ [char_of (48 + n mod 10)])"

declare showNat.simps [simp del]

definition showInt :: "int \<Rightarrow> string" where
  "showInt i = (if i < 0 then CHR ''-'' # showNat (nat (- i)) else showNat (nat i))"

definition readNat :: "string \<Rightarrow> nat" where
  "readNat s = foldl (\<lambda>acc c. 10 * acc + (of_char c - 48)) 0 s"

lemma readNat_append: "readNat (s @ [c]) = 10 * readNat s + (of_char c - 48)"
  by (simp add: readNat_def)

lemma digit_value: "d < 10 \<Longrightarrow> of_char (char_of (48 + d :: nat)) - 48 = d"
  by (simp add: of_char_of)

lemma readNat_showNat: "readNat (showNat n) = n"
proof (induction n rule: showNat.induct)
  case (1 n)
  show ?case
  proof (cases "n < 10")
    case True
    then show ?thesis using digit_value [OF True] by (simp add: showNat.simps [of n] readNat_def)
  next
    case False
    then show ?thesis
      using 1 digit_value [of "n mod 10"] by (simp add: showNat.simps [of n] readNat_append)
  qed
qed

lemma showNat_chars: "c \<in> set (showNat n) \<Longrightarrow> of_char c \<in> {48..57 :: nat}"
proof (induction n rule: showNat.induct)
  case (1 n)
  have d: "of_char (char_of (48 + k :: nat)) \<in> {48..57 :: nat}" if "k < 10" for k
    using that by (simp add: of_char_of)
  show ?case
  proof (cases "n < 10")
    case True
    then have "c = char_of (48 + n)" using "1.prems" by (simp add: showNat.simps [of n])
    then show ?thesis using d [OF True] by simp
  next
    case False
    then have "c \<in> set (showNat (n div 10)) \<or> c = char_of (48 + n mod 10)"
      using "1.prems" by (auto simp: showNat.simps [of n])
    then show ?thesis using "1.IH" [OF False] d [of "n mod 10"] by auto
  qed
qed

lemma showNat_inj: "showNat m = showNat n \<Longrightarrow> m = n"
  by (metis readNat_showNat)

lemma showNat_not_Nil: "showNat n \<noteq> []"
  by (simp add: showNat.simps)

lemma showInt_chars: "c \<in> set (showInt i) \<Longrightarrow> c \<noteq> CHR '':'' \<and> \<not> is_space c"
proof -
  assume "c \<in> set (showInt i)"
  then have "c = CHR ''-'' \<or> of_char c \<in> {48..57 :: nat}"
    by (auto simp: showInt_def split: if_splits dest: showNat_chars)
  then show ?thesis by (auto simp: is_space_def)
qed

lemma showInt_inj: "showInt i = showInt j \<Longrightarrow> i = j"
proof -
  assume eq: "showInt i = showInt j"
  have d: "CHR ''-'' # showNat m \<noteq> showNat n" for m n
    using showNat_chars [of "CHR ''-''" n] by (cases "showNat n") auto
  consider "i < 0" "j < 0" | "\<not> i < 0" "\<not> j < 0" | "i < 0" "\<not> j < 0" | "\<not> i < 0" "j < 0" by blast
  then show ?thesis
  proof cases
    case 1
    then have "nat (- i) = nat (- j)" using eq by (intro showNat_inj) (simp add: showInt_def)
    then show ?thesis using 1 by simp
  next
    case 2
    then have "nat i = nat j" using eq by (intro showNat_inj) (simp add: showInt_def)
    then show ?thesis using 2 by simp
  next
    case 3
    then show ?thesis using eq d [of "nat (- i)" "nat j"] by (simp add: showInt_def)
  next
    case 4
    then show ?thesis using eq [symmetric] d [of "nat (- j)" "nat i"] by (simp add: showInt_def)
  qed
qed

end
