(* ===== verification/Account.thy ===== *)
theory Account
  imports GoStrings
begin

section \<open>Accounts: health, availability, scheduling score\<close>

text \<open>
  Models the type \<open>Account\<close> of \<open>auth/store.go\<close> and the plan rules of
  \<open>auth/premium_rate_limit.go\<close>: the record of an account, its availability, the
  scheduling score with its penalties and bonuses, the health tier and the dynamic
  concurrency limit, the sliding window of recent results, cooldowns, and the snapshot the
  fast scheduler takes. Methods that lock the account are state transformers; the lock is the
  atomicity of the step. Each operation reads the clock once, as its argument \<open>now\<close>.
\<close>

datatype AccountStatus = StatusReady | StatusCooldown | StatusError

text \<open>The health tier is a string in the source; \<open>TierUnset\<close> is the empty one.\<close>

datatype AccountHealthTier =
  TierUnset | HealthTierHealthy | HealthTierWarm | HealthTierRisky | HealthTierBanned

record ModelCooldown =
  mcModel :: string
  mcReason :: string
  mcResetAt :: time
  mcUpdatedAt :: time
  mcBackoffLevel :: int

record Account =
  DBID :: int
  RefreshToken :: string
  SessionToken :: string
  AccessToken :: string
  ExpiresAt :: time
  AccountID :: string
  Email :: string
  PlanType :: string
  ProxyURL :: string
  UpstreamType :: string
  BaseURL :: string
  APIKey :: string
  Models :: "string list"
  Status :: AccountStatus
  CooldownUtil :: time
  CooldownReason :: string
  ErrorMsg :: string
  UsagePercent7d :: float64
  UsagePercent7dValid :: bool
  Reset7dAt :: time
  UsagePercent5h :: float64
  UsagePercent5hValid :: bool
  Reset5hAt :: time
  UsageUpdatedAt :: time
  usageProbeInFlight :: bool
  recoveryProbeInFlight :: bool
  AutoPause5hThreshold :: float64
  AutoPause7dThreshold :: float64
  AutoPause5hDisabled :: bool
  AutoPause7dDisabled :: bool
  effectiveAutoPause5h :: float64
  effectiveAutoPause7d :: float64
  HealthTier :: AccountHealthTier
  SchedulerScore :: float64
  DispatchScore :: float64
  ScoreBiasEffective :: int
  BaseConcurrencyEffective :: int
  DynamicConcurrencyLimit :: int
  LatencyEWMA :: float64
  SuccessStreak :: int
  FailureStreak :: int
  LastSuccessAt :: time
  LastFailureAt :: time
  LastUnauthorizedAt :: time
  LastRateLimitedAt :: time
  LastTimeoutAt :: time
  LastServerErrorAt :: time
  LastRecoveryProbeAt :: time
  RecentResults :: "nat list"
  RecentResultsIdx :: nat
  RecentResultsCnt :: nat
  ActiveRequests :: int
  TotalRequests :: int
  LastUsedAt :: int
  Disabled :: bool
  AddedAt :: int
  Locked :: bool
  DispatchPaused :: bool
  ScoreBiasOverride :: "int option"
  BaseConcurrencyOverride :: "int option"
  CreditEnabled :: bool
  CreditSkipUsageWindow :: bool
  SkipWarmTier :: bool
  AllowedAPIKeyIDs :: "int list"
  allowedAPIKeySet :: "int set"
  Tags :: "string list"
  GroupIDs :: "int list"
  ModelCooldowns :: "string \<rightharpoonup> ModelCooldown"
  SubscriptionExpiresAt :: time

text \<open>A freshly allocated \<open>&Account{}\<close> with the given database ID: all fields are zero values.\<close>

definition newAccount :: "int \<Rightarrow> Account" where
  "newAccount i = \<lparr>DBID = i, RefreshToken = [], SessionToken = [], AccessToken = [], ExpiresAt = 0,
     AccountID = [], Email = [], PlanType = [], ProxyURL = [], UpstreamType = [], BaseURL = [],
     APIKey = [], Models = [], Status = StatusReady, CooldownUtil = 0, CooldownReason = [],
     ErrorMsg = [], UsagePercent7d = 0, UsagePercent7dValid = False, Reset7dAt = 0,
     UsagePercent5h = 0, UsagePercent5hValid = False, Reset5hAt = 0, UsageUpdatedAt = 0,
     usageProbeInFlight = False, recoveryProbeInFlight = False, AutoPause5hThreshold = 0,
     AutoPause7dThreshold = 0, AutoPause5hDisabled = False, AutoPause7dDisabled = False,
     effectiveAutoPause5h = 0, effectiveAutoPause7d = 0, HealthTier = TierUnset,
     SchedulerScore = 0, DispatchScore = 0, ScoreBiasEffective = 0, BaseConcurrencyEffective = 0,
     DynamicConcurrencyLimit = 0, LatencyEWMA = 0, SuccessStreak = 0, FailureStreak = 0,
     LastSuccessAt = 0, LastFailureAt = 0, LastUnauthorizedAt = 0, LastRateLimitedAt = 0,
     LastTimeoutAt = 0, LastServerErrorAt = 0, LastRecoveryProbeAt = 0,
     RecentResults = replicate 20 0, RecentResultsIdx = 0, RecentResultsCnt = 0,
     ActiveRequests = 0, TotalRequests = 0, LastUsedAt = 0, Disabled = False, AddedAt = 0,
     Locked = False, DispatchPaused = False, ScoreBiasOverride = None,
     BaseConcurrencyOverride = None, CreditEnabled = False, CreditSkipUsageWindow = False,
     SkipWarmTier = False, AllowedAPIKeyIDs = [], allowedAPIKeySet = {}, Tags = [],
     GroupIDs = [], ModelCooldowns = Map.empty, SubscriptionExpiresAt = 0\<rparr>"

subsection \<open>Plans\<close>

definition NormalizePlanType :: "string \<Rightarrow> string" where
  "NormalizePlanType plan =
     (let normalized = ToLower (TrimSpace plan)
      in if normalized = ''prolite'' \<or> normalized = ''pro_lite'' \<or> normalized = ''pro-lite''
         then ''pro'' else normalized)"

definition isPremium5hPlan :: "string \<Rightarrow> bool" where
  "isPremium5hPlan plan \<longleftrightarrow> NormalizePlanType plan \<in> {''plus'', ''pro'', ''team''}"

definition IsPlusOrHigherPlan :: "string \<Rightarrow> bool" where
  "IsPlusOrHigherPlan plan =
     (let normalized = NormalizePlanType plan
      in if normalized = [] \<or> normalized = ''free'' then False
         else if normalized \<in> {''plus'', ''pro'', ''team'', ''teamplus'', ''enterprise'', ''business'', ''edu'', ''education''}
         then True
         else Contains normalized ''plus'' \<or> HasPrefix normalized ''pro'' \<or>
           HasPrefix normalized ''team'' \<or> Contains normalized ''enterprise'' \<or>
           Contains normalized ''business'')"

definition defaultScoreBiasForPlan :: "string \<Rightarrow> int" where
  "defaultScoreBiasForPlan planType =
     (if NormalizePlanType planType \<in> {''pro'', ''plus'', ''team''} then 50 else 0)"

subsection \<open>Credentials\<close>

definition isOpenAIResponsesAPILocked :: "Account \<Rightarrow> bool" where
  "isOpenAIResponsesAPILocked a \<longleftrightarrow>
     EqualFold (TrimSpace (UpstreamType a)) ''openai_responses'' \<and>
     TrimSpace (BaseURL a) \<noteq> [] \<and> TrimSpace (APIKey a) \<noteq> []"

definition hasDispatchCredentialLocked :: "Account \<Rightarrow> bool" where
  "hasDispatchCredentialLocked a \<longleftrightarrow>
     isOpenAIResponsesAPILocked a \<or> TrimSpace (AccessToken a) \<noteq> []"

definition SupportsOpenAIResponsesModel :: "string \<Rightarrow> Account \<Rightarrow> bool" where
  "SupportsOpenAIResponsesModel model0 a =
     (let model = TrimSpace model0
      in if model = [] then False
         else if \<not> isOpenAIResponsesAPILocked a \<or> Models a = [] then False
         else list_ex (\<lambda>candidate. EqualFold (TrimSpace candidate) model) (Models a))"

text \<open>\<open>normalizeModelList\<close>: trimmed, without empty names, the first of each case-insensitive
  class, sorted by lower-case name.\<close>

fun dedupFold :: "string list \<Rightarrow> string list \<Rightarrow> string list" where
  "dedupFold seen [] = []"
| "dedupFold seen (v # vs) =
     (let value = TrimSpace v; key = ToLower value
      in if value = [] \<or> key \<in> set seen then dedupFold seen vs
         else value # dedupFold (key # seen) vs)"

fun lex_less :: "string \<Rightarrow> string \<Rightarrow> bool" where
  "lex_less _ [] = False"
| "lex_less [] (_ # _) = True"
| "lex_less (x # xs) (y # ys) =
     ((of_char x :: nat) < of_char y \<or> (x = y \<and> lex_less xs ys))"

definition normalizeModelList :: "string list \<Rightarrow> string list" where
  "normalizeModelList values =
     stable_sort (\<lambda>x y. lex_less (ToLower x) (ToLower y)) (dedupFold [] values)"

text \<open>\<open>normalizeAllowedAPIKeyIDs\<close> and \<open>normalizeAllowedGroupIDs\<close>: positive, distinct, sorted.\<close>

fun dedupPositive :: "int list \<Rightarrow> int list \<Rightarrow> int list" where
  "dedupPositive seen [] = []"
| "dedupPositive seen (v # vs) =
     (if v \<le> 0 \<or> v \<in> set seen then dedupPositive seen vs else v # dedupPositive (v # seen) vs)"

definition normalizeAllowedAPIKeyIDs :: "int list \<Rightarrow> int list" where
  "normalizeAllowedAPIKeyIDs values = stable_sort (<) (dedupPositive [] values)"

definition setAllowedAPIKeyIDsLocked :: "int list \<Rightarrow> Account \<Rightarrow> Account" where
  "setAllowedAPIKeyIDsLocked values a =
     (let normalized = normalizeAllowedAPIKeyIDs values
      in a\<lparr>AllowedAPIKeyIDs := normalized, allowedAPIKeySet := set normalized\<rparr>)"

definition AllowsAPIKey :: "int \<Rightarrow> Account \<Rightarrow> bool" where
  "AllowsAPIKey apiKeyID a =
     (if AllowedAPIKeyIDs a = [] then True
      else if apiKeyID \<le> 0 then False
      else apiKeyID \<in> allowedAPIKeySet a)"

subsection \<open>Tiers and limits\<close>

definition concurrencyLimitForTier :: "int \<Rightarrow> AccountHealthTier \<Rightarrow> int" where
  "concurrencyLimitForTier baseLimit0 tier =
     (let baseLimit = (if baseLimit0 \<le> 0 then 1 else baseLimit0)
      in case tier of
           HealthTierHealthy \<Rightarrow> baseLimit
         | HealthTierWarm \<Rightarrow> (let half = baseLimit sdiv 2 in if half < 1 then 1 else half)
         | HealthTierRisky \<Rightarrow> 1
         | HealthTierBanned \<Rightarrow> 0
         | TierUnset \<Rightarrow> if baseLimit \<ge> 2 then 2 else 1)"

definition tierPriority :: "AccountHealthTier \<Rightarrow> int" where
  "tierPriority tier =
     (case tier of HealthTierHealthy \<Rightarrow> 3 | HealthTierWarm \<Rightarrow> 2 | HealthTierRisky \<Rightarrow> 1 | _ \<Rightarrow> 0)"

definition healthTierLocked :: "Account \<Rightarrow> AccountHealthTier" where
  "healthTierLocked a =
     (if HealthTier a \<noteq> TierUnset then HealthTier a
      else if hasDispatchCredentialLocked a then HealthTierHealthy else HealthTierWarm)"

definition effectiveBaseConcurrencyLocked :: "int \<Rightarrow> Account \<Rightarrow> int" where
  "effectiveBaseConcurrencyLocked storeBaseLimit a =
     (case BaseConcurrencyOverride a of
        Some n \<Rightarrow> if n > 0 then n else if storeBaseLimit \<le> 0 then 1 else storeBaseLimit
      | None \<Rightarrow> if storeBaseLimit \<le> 0 then 1 else storeBaseLimit)"

subsection \<open>Recent results and latency\<close>

definition recordLatencyLocked :: "duration \<Rightarrow> Account \<Rightarrow> Account" where
  "recordLatencyLocked latency a =
     (if latency \<le> 0 then a
      else let latencyMs = real_of_int (latency sdiv Millisecond)
           in if latencyMs \<le> 0 then a
              else if LatencyEWMA a = 0 then a\<lparr>LatencyEWMA := latencyMs\<rparr>
              else a\<lparr>LatencyEWMA := LatencyEWMA a * 0.8 + latencyMs * 0.2\<rparr>)"

definition recordResultLocked :: "bool \<Rightarrow> Account \<Rightarrow> Account" where
  "recordResultLocked success a =
     a\<lparr>RecentResults := (RecentResults a)[RecentResultsIdx a := (if success then 1 else 0)],
       RecentResultsIdx := (RecentResultsIdx a + 1) mod length (RecentResults a),
       RecentResultsCnt :=
         (if RecentResultsCnt a < length (RecentResults a) then RecentResultsCnt a + 1
          else RecentResultsCnt a)\<rparr>"

definition recentSuccessRateLocked :: "Account \<Rightarrow> float64" where
  "recentSuccessRateLocked a =
     (if RecentResultsCnt a = 0 then 1
      else real (sum_list (take (RecentResultsCnt a) (RecentResults a))) / real (RecentResultsCnt a))"

subsection \<open>Quota windows\<close>

definition premium5hRateLimitedLocked :: "time \<Rightarrow> Account \<Rightarrow> bool" where
  "premium5hRateLimitedLocked now a =
     (if \<not> isPremium5hPlan (PlanType a) then False
      else if \<not> UsagePercent5hValid a \<or> UsagePercent5h a < 100 then False
      else if Reset5hAt a = 0 then False
      else now < Reset5hAt a)"

definition usageExhaustedLocked :: "Account \<Rightarrow> bool" where
  "usageExhaustedLocked a =
     (if CreditEnabled a \<and> CreditSkipUsageWindow a then False
      else UsagePercent7dValid a \<and> EqualFold (PlanType a) ''free'' \<and> UsagePercent7d a \<ge> 100)"

definition normalizeQuotaAutoPauseThreshold :: "float64 \<Rightarrow> float64" where
  "normalizeQuotaAutoPauseThreshold value = (if value \<le> 0 then 0 else if value > 1 then 1 else value)"

definition quotaAutoPausedByWindow :: "float64 \<Rightarrow> bool \<Rightarrow> time \<Rightarrow> float64 \<Rightarrow> bool \<Rightarrow> time \<Rightarrow> bool" where
  "quotaAutoPausedByWindow usage valid resetAt threshold disabled now =
     (if disabled \<or> threshold \<le> 0 \<or> \<not> valid then False
      else if resetAt \<noteq> 0 \<and> \<not> now < resetAt then False
      else usage / 100 \<ge> threshold)"

definition quotaAutoPausedLocked :: "time \<Rightarrow> Account \<Rightarrow> bool" where
  "quotaAutoPausedLocked now a =
     (if quotaAutoPausedByWindow (UsagePercent5h a) (UsagePercent5hValid a) (Reset5hAt a)
           (effectiveAutoPause5h a) (AutoPause5hDisabled a) now then True
      else quotaAutoPausedByWindow (UsagePercent7d a) (UsagePercent7dValid a) (Reset7dAt a)
           (effectiveAutoPause7d a) (AutoPause7dDisabled a) now)"

definition usagePercentForScheduling :: "Account \<Rightarrow> float64" where
  "usagePercentForScheduling a = (if UsagePercent7dValid a then UsagePercent7d a else 0)"

subsection \<open>The scheduling score\<close>

record SchedulerBreakdown =
  UnauthorizedPenalty :: float64
  RateLimitPenalty :: float64
  TimeoutPenalty :: float64
  ServerPenalty :: float64
  FailurePenalty :: float64
  SuccessBonus :: float64
  ProvenBonus :: float64
  UsagePenalty7d :: float64
  UsageUrgencyBonus5h :: float64
  UsageUrgencyBonus7d :: float64
  ExpiryUrgencyBonus :: float64
  LatencyPenalty :: float64
  SuccessRatePenalty :: float64

definition linearDecay :: "float64 \<Rightarrow> duration \<Rightarrow> duration \<Rightarrow> float64" where
  "linearDecay base elapsed window =
     (if elapsed \<ge> window \<or> window \<le> 0 then 0
      else base * (1 - real_of_int elapsed / real_of_int window))"

text \<open>A penalty that decays from the last event of its kind; there is none for a zero time.\<close>

definition decayedPenalty :: "float64 \<Rightarrow> duration \<Rightarrow> time \<Rightarrow> time \<Rightarrow> float64" where
  "decayedPenalty base window lastAt now =
     (if lastAt = 0 then 0 else linearDecay base (time_Sub now lastAt) window)"

definition schedulerBreakdownLocked :: "time \<Rightarrow> Account \<Rightarrow> SchedulerBreakdown" where
  "schedulerBreakdownLocked now a =
     (let premium5hLimited = premium5hRateLimitedLocked now a;
          rate = recentSuccessRateLocked a
      in \<lparr>UnauthorizedPenalty = decayedPenalty 50 (24 * Hour) (LastUnauthorizedAt a) now,
          RateLimitPenalty = decayedPenalty 22 Hour (LastRateLimitedAt a) now,
          TimeoutPenalty = decayedPenalty 18 (15 * Minute) (LastTimeoutAt a) now,
          ServerPenalty = decayedPenalty 12 (15 * Minute) (LastServerErrorAt a) now,
          FailurePenalty = real_of_int (clampInt (FailureStreak a * 6) 0 24),
          SuccessBonus = (if \<not> premium5hLimited then real_of_int (clampInt (SuccessStreak a * 2) 0 12) else 0),
          ProvenBonus = (if \<not> premium5hLimited \<and> TotalRequests a > 10 then 20 else 0),
          UsagePenalty7d =
            (if \<not> (CreditEnabled a \<and> CreditSkipUsageWindow a) \<and> UsagePercent7dValid a \<and>
                EqualFold (PlanType a) ''free''
             then if UsagePercent7d a \<ge> 100 then 40 else if UsagePercent7d a \<ge> 95 then 30
                  else if UsagePercent7d a \<ge> 85 then 18 else if UsagePercent7d a \<ge> 70 then 8 else 0
             else 0),
          UsageUrgencyBonus5h = 0, UsageUrgencyBonus7d = 0, ExpiryUrgencyBonus = 0,
          LatencyPenalty =
            (if LatencyEWMA a \<ge> 20000 then 15 else if LatencyEWMA a \<ge> 10000 then 8
             else if LatencyEWMA a \<ge> 5000 then 4 else 0),
          SuccessRatePenalty =
            (if RecentResultsCnt a \<ge> 5
             then if rate < 0.5 then 15 else if rate < 0.75 then 8 else 0 else 0)\<rparr>)"

text \<open>The capped factor of both urgency bonuses: the remaining quota over its full value.\<close>

definition quotaFactorOf :: "float64 \<Rightarrow> float64 \<Rightarrow> float64" where
  "quotaFactorOf remaining full =
     (let q = remaining / full; q1 = (if q > 1 then 1 else q) in if q1 < 0 then 0 else q1)"

definition premium5hUsageUrgencyBonusLocked :: "time \<Rightarrow> Account \<Rightarrow> float64" where
  "premium5hUsageUrgencyBonusLocked now a =
     (if \<not> isPremium5hPlan (PlanType a) then 0
      else if \<not> UsagePercent5hValid a \<or> Reset5hAt a = 0 then 0
      else if UsagePercent5h a \<ge> 100 \<or> premium5hRateLimitedLocked now a then 0
      else if AccessToken a = [] \<or> Status a = StatusError \<or> HealthTier a = HealthTierBanned then 0
      else if DispatchPaused a then 0
      else if Status a = StatusCooldown \<and> now < CooldownUtil a then 0
      else if usageExhaustedLocked a then 0
      else let timeRemaining = time_Sub (Reset5hAt a) now
           in if timeRemaining \<le> 0 \<or> timeRemaining > 4 * Hour then 0
              else let quotaRemaining = 100 - UsagePercent5h a
                   in if quotaRemaining \<le> 5 then 0
                      else 25 * (1 - real_of_int timeRemaining / real_of_int (4 * Hour))
                           * quotaFactorOf quotaRemaining 50)"

definition premium7dUsageUrgencyBonusLocked :: "time \<Rightarrow> Account \<Rightarrow> float64" where
  "premium7dUsageUrgencyBonusLocked now a =
     (if \<not> IsPlusOrHigherPlan (PlanType a) then 0
      else if \<not> UsagePercent7dValid a \<or> Reset7dAt a = 0 then 0
      else if UsagePercent7d a \<ge> 100 then 0
      else if AccessToken a = [] \<or> Status a = StatusError \<or> HealthTier a = HealthTierBanned then 0
      else if DispatchPaused a then 0
      else if Status a = StatusCooldown \<and> now < CooldownUtil a then 0
      else let timeRemaining = time_Sub (Reset7dAt a) now
           in if timeRemaining \<le> 0 \<or> timeRemaining > 72 * Hour then 0
              else let quotaRemaining = 100 - UsagePercent7d a
                   in if quotaRemaining \<le> 5 then 0
                      else 80 * (1 - real_of_int timeRemaining / real_of_int (72 * Hour))
                           * (0.6 + 0.4 * quotaFactorOf quotaRemaining 70))"

definition expiryUrgencyBonusLocked :: "time \<Rightarrow> Account \<Rightarrow> float64" where
  "expiryUrgencyBonusLocked now a =
     (if SubscriptionExpiresAt a = 0 then 0
      else let plan = ToLower (TrimSpace (PlanType a))
           in if plan = [] \<or> plan = ''free'' \<or> plan = ''api'' then 0
              else let remaining = time_Sub (SubscriptionExpiresAt a) now
                   in if remaining \<le> 0 then 0
                      else let days = real_of_int remaining / real_of_int Hour / 24
                           in if days \<le> 3 then 60 else if days \<le> 7 then 25 else 0)"

definition dispatchBonusEligibleLocked :: "time \<Rightarrow> AccountHealthTier \<Rightarrow> Account \<Rightarrow> bool" where
  "dispatchBonusEligibleLocked now tier a =
     (if tier \<noteq> HealthTierHealthy \<and> tier \<noteq> HealthTierWarm then False
      else if Status a = StatusError then False
      else if Status a = StatusCooldown \<and> now < CooldownUtil a then False
      else if healthTierLocked a = HealthTierBanned then False
      else if usageExhaustedLocked a then False
      else if quotaAutoPausedLocked now a then False
      else hasDispatchCredentialLocked a)"

definition effectiveScoreBiasLocked :: "time \<Rightarrow> AccountHealthTier \<Rightarrow> Account \<Rightarrow> int" where
  "effectiveScoreBiasLocked now tier a =
     (if \<not> dispatchBonusEligibleLocked now tier a then 0
      else case ScoreBiasOverride a of Some b \<Rightarrow> b | None \<Rightarrow> defaultScoreBiasForPlan (PlanType a))"

text \<open>
  \<open>recomputeSchedulerLocked\<close> in three parts: the score, the tier, and the assignment of
  the derived fields.
\<close>

definition baseScore :: "SchedulerBreakdown \<Rightarrow> float64" where
  "baseScore b = 100 - UnauthorizedPenalty b - RateLimitPenalty b - TimeoutPenalty b - ServerPenalty b
     - FailurePenalty b - UsagePenalty7d b - LatencyPenalty b - SuccessRatePenalty b
     + SuccessBonus b + ProvenBonus b"

definition recomputedTier :: "time \<Rightarrow> float64 \<Rightarrow> Account \<Rightarrow> AccountHealthTier" where
  "recomputedTier now score a =
     (let t0 = (if score < 60 then HealthTierRisky else if score < 85 then HealthTierWarm else HealthTierHealthy);
          t1 = (if LastSuccessAt a < LastFailureAt a \<and> LastFailureAt a \<noteq> 0 \<and> t0 = HealthTierHealthy
                then HealthTierWarm else t0);
          t2 = (if LastUnauthorizedAt a \<noteq> 0 \<and> time_Sub now (LastUnauthorizedAt a) < 24 * Hour \<and> t1 = HealthTierHealthy
                then HealthTierWarm else t1);
          t3 = (if \<not> (CreditEnabled a \<and> CreditSkipUsageWindow a) \<and> UsagePercent7dValid a \<and>
                   EqualFold (PlanType a) ''free''
                then if UsagePercent7d a \<ge> 95 then HealthTierRisky
                     else if UsagePercent7d a \<ge> 85 \<and> t2 = HealthTierHealthy then HealthTierWarm else t2
                else t2);
          t4 = (if HealthTier a = HealthTierBanned then HealthTierBanned else t3);
          t5 = (if premium5hRateLimitedLocked now a \<and> t4 \<noteq> HealthTierBanned then HealthTierRisky else t4)
      in if SkipWarmTier a \<and> t5 = HealthTierWarm then HealthTierHealthy else t5)"

definition recomputeSchedulerLocked :: "time \<Rightarrow> int \<Rightarrow> Account \<Rightarrow> Account" where
  "recomputeSchedulerLocked now baseLimit a =
     (let score = baseScore (schedulerBreakdownLocked now a);
          tier = recomputedTier now score a;
          baseConcurrencyEffective = effectiveBaseConcurrencyLocked baseLimit a;
          scoreBiasEffective = effectiveScoreBiasLocked now tier a;
          bonus = (if dispatchBonusEligibleLocked now tier a
                   then premium5hUsageUrgencyBonusLocked now a + premium7dUsageUrgencyBonusLocked now a
                        + expiryUrgencyBonusLocked now a
                   else 0);
          limit = concurrencyLimitForTier baseConcurrencyEffective tier
      in a\<lparr>HealthTier := tier, SchedulerScore := score,
           DispatchScore := score + real_of_int scoreBiasEffective + bonus,
           ScoreBiasEffective := scoreBiasEffective,
           BaseConcurrencyEffective := baseConcurrencyEffective,
           DynamicConcurrencyLimit := (if premium5hRateLimitedLocked now a \<and> limit > 1 then 1 else limit)\<rparr>)"

subsection \<open>Availability\<close>

definition IsAvailable :: "time \<Rightarrow> Account \<Rightarrow> bool" where
  "IsAvailable now a =
     (if Disabled a then False
      else if DispatchPaused a then False
      else if Status a = StatusError then False
      else if healthTierLocked a = HealthTierBanned then False
      else if usageExhaustedLocked a then False
      else if Status a = StatusCooldown \<and> now < CooldownUtil a then False
      else if premium5hRateLimitedLocked now a then False
      else if quotaAutoPausedLocked now a then False
      else hasDispatchCredentialLocked a)"

definition RuntimeStatus :: "time \<Rightarrow> Account \<Rightarrow> string" where
  "RuntimeStatus now a =
     (if healthTierLocked a = HealthTierBanned then ''unauthorized''
      else if usageExhaustedLocked a then ''usage_exhausted''
      else if premium5hRateLimitedLocked now a then ''rate_limited''
      else case Status a of
        StatusError \<Rightarrow> ''error''
      | StatusCooldown \<Rightarrow>
          if now < CooldownUtil a then (if CooldownReason a \<noteq> [] then CooldownReason a else ''cooldown'')
          else if hasDispatchCredentialLocked a then
            (if quotaAutoPausedLocked now a then ''quota_paused'' else ''active'')
          else if RefreshToken a \<noteq> [] then ''refreshing'' else ''error''
      | StatusReady \<Rightarrow>
          if hasDispatchCredentialLocked a \<and> quotaAutoPausedLocked now a then ''quota_paused''
          else if hasDispatchCredentialLocked a then ''active''
          else if RefreshToken a \<noteq> [] \<and> ErrorMsg a = [] then ''refreshing'' else ''error'')"

text \<open>The snapshot of the fast scheduler: the account after a possible recomputation, the
  tier, the score, the limit, whether the account is proven and whether it is available.\<close>

record AccSnapshot =
  snTier :: AccountHealthTier
  snScore :: float64
  snLimit :: int
  snProven :: bool
  snAvailable :: bool

definition refreshesSnapshot :: "Account \<Rightarrow> bool" where
  "refreshesSnapshot a \<longleftrightarrow> (isPremium5hPlan (PlanType a) \<and> UsagePercent5hValid a) \<or>
     (IsPlusOrHigherPlan (PlanType a) \<and> UsagePercent7dValid a)"

definition snapshotView :: "int \<Rightarrow> time \<Rightarrow> Account \<Rightarrow> AccSnapshot" where
  "snapshotView baseLimit now a =
     (let tier = healthTierLocked a;
          s0 = DispatchScore a;
          s1 = (if s0 = 0 \<and> SchedulerScore a \<noteq> 0 then SchedulerScore a else s0);
          s2 = (if s1 = 0 \<and> tier \<noteq> HealthTierBanned \<and> hasDispatchCredentialLocked a \<and> Status a \<noteq> StatusError
                then 100 + real_of_int (effectiveScoreBiasLocked now tier a) else s1);
          limit0 = DynamicConcurrencyLimit a;
          base = (if BaseConcurrencyEffective a \<le> 0 then effectiveBaseConcurrencyLocked baseLimit a
                  else BaseConcurrencyEffective a);
          limit = (if limit0 \<le> 0 then concurrencyLimitForTier base tier else limit0);
          available = (Status a \<noteq> StatusError \<and> tier \<noteq> HealthTierBanned \<and> hasDispatchCredentialLocked a \<and>
             \<not> DispatchPaused a \<and> \<not> (Status a = StatusCooldown \<and> now < CooldownUtil a) \<and>
             \<not> premium5hRateLimitedLocked now a \<and> \<not> quotaAutoPausedLocked now a \<and> \<not> usageExhaustedLocked a)
      in \<lparr>snTier = tier, snScore = s2, snLimit = limit, snProven = (TotalRequests a > 10),
          snAvailable = available\<rparr>)"

definition fastSchedulerSnapshot :: "int \<Rightarrow> time \<Rightarrow> Account \<Rightarrow> Account \<times> AccSnapshot" where
  "fastSchedulerSnapshot baseLimit now a0 =
     (let a = (if refreshesSnapshot a0 then recomputeSchedulerLocked now baseLimit a0 else a0)
      in (a, snapshotView baseLimit now a))"

text \<open>\<open>tryAcquireAccount\<close>: the compare-and-swap loop, which succeeds at its first attempt
  when it runs alone.\<close>

definition tryAcquireAccount :: "time \<Rightarrow> int \<Rightarrow> Account \<Rightarrow> Account option" where
  "tryAcquireAccount now limit acc =
     (if limit \<le> 0 then None
      else if ActiveRequests acc \<ge> limit then None
      else Some (acc\<lparr>ActiveRequests := ActiveRequests acc + 1, TotalRequests := TotalRequests acc + 1,
                     LastUsedAt := now\<rparr>))"

definition releaseAccount :: "Account \<Rightarrow> Account" where
  "releaseAccount acc = acc\<lparr>ActiveRequests := ActiveRequests acc - 1\<rparr>"

subsection \<open>What a recomputation leaves alone\<close>

lemma recompute_sel [sel_simps]:
  "PlanType (recomputeSchedulerLocked now baseLimit a) = PlanType a"
  "UpstreamType (recomputeSchedulerLocked now baseLimit a) = UpstreamType a"
  "BaseURL (recomputeSchedulerLocked now baseLimit a) = BaseURL a"
  "APIKey (recomputeSchedulerLocked now baseLimit a) = APIKey a"
  "AccessToken (recomputeSchedulerLocked now baseLimit a) = AccessToken a"
  "RefreshToken (recomputeSchedulerLocked now baseLimit a) = RefreshToken a"
  "Status (recomputeSchedulerLocked now baseLimit a) = Status a"
  "CooldownUtil (recomputeSchedulerLocked now baseLimit a) = CooldownUtil a"
  "CooldownReason (recomputeSchedulerLocked now baseLimit a) = CooldownReason a"
  "ErrorMsg (recomputeSchedulerLocked now baseLimit a) = ErrorMsg a"
  "UsagePercent7d (recomputeSchedulerLocked now baseLimit a) = UsagePercent7d a"
  "UsagePercent7dValid (recomputeSchedulerLocked now baseLimit a) = UsagePercent7dValid a"
  "Reset7dAt (recomputeSchedulerLocked now baseLimit a) = Reset7dAt a"
  "UsagePercent5h (recomputeSchedulerLocked now baseLimit a) = UsagePercent5h a"
  "UsagePercent5hValid (recomputeSchedulerLocked now baseLimit a) = UsagePercent5hValid a"
  "Reset5hAt (recomputeSchedulerLocked now baseLimit a) = Reset5hAt a"
  "AutoPause5hDisabled (recomputeSchedulerLocked now baseLimit a) = AutoPause5hDisabled a"
  "AutoPause7dDisabled (recomputeSchedulerLocked now baseLimit a) = AutoPause7dDisabled a"
  "effectiveAutoPause5h (recomputeSchedulerLocked now baseLimit a) = effectiveAutoPause5h a"
  "effectiveAutoPause7d (recomputeSchedulerLocked now baseLimit a) = effectiveAutoPause7d a"
  "LatencyEWMA (recomputeSchedulerLocked now baseLimit a) = LatencyEWMA a"
  "SuccessStreak (recomputeSchedulerLocked now baseLimit a) = SuccessStreak a"
  "FailureStreak (recomputeSchedulerLocked now baseLimit a) = FailureStreak a"
  "LastSuccessAt (recomputeSchedulerLocked now baseLimit a) = LastSuccessAt a"
  "LastFailureAt (recomputeSchedulerLocked now baseLimit a) = LastFailureAt a"
  "LastUnauthorizedAt (recomputeSchedulerLocked now baseLimit a) = LastUnauthorizedAt a"
  "LastRateLimitedAt (recomputeSchedulerLocked now baseLimit a) = LastRateLimitedAt a"
  "LastTimeoutAt (recomputeSchedulerLocked now baseLimit a) = LastTimeoutAt a"
  "LastServerErrorAt (recomputeSchedulerLocked now baseLimit a) = LastServerErrorAt a"
  "RecentResults (recomputeSchedulerLocked now baseLimit a) = RecentResults a"
  "RecentResultsIdx (recomputeSchedulerLocked now baseLimit a) = RecentResultsIdx a"
  "RecentResultsCnt (recomputeSchedulerLocked now baseLimit a) = RecentResultsCnt a"
  "ActiveRequests (recomputeSchedulerLocked now baseLimit a) = ActiveRequests a"
  "TotalRequests (recomputeSchedulerLocked now baseLimit a) = TotalRequests a"
  "Disabled (recomputeSchedulerLocked now baseLimit a) = Disabled a"
  "DispatchPaused (recomputeSchedulerLocked now baseLimit a) = DispatchPaused a"
  "ScoreBiasOverride (recomputeSchedulerLocked now baseLimit a) = ScoreBiasOverride a"
  "BaseConcurrencyOverride (recomputeSchedulerLocked now baseLimit a) = BaseConcurrencyOverride a"
  "CreditEnabled (recomputeSchedulerLocked now baseLimit a) = CreditEnabled a"
  "CreditSkipUsageWindow (recomputeSchedulerLocked now baseLimit a) = CreditSkipUsageWindow a"
  "SkipWarmTier (recomputeSchedulerLocked now baseLimit a) = SkipWarmTier a"
  "AllowedAPIKeyIDs (recomputeSchedulerLocked now baseLimit a) = AllowedAPIKeyIDs a"
  "allowedAPIKeySet (recomputeSchedulerLocked now baseLimit a) = allowedAPIKeySet a"
  "GroupIDs (recomputeSchedulerLocked now baseLimit a) = GroupIDs a"
  "ModelCooldowns (recomputeSchedulerLocked now baseLimit a) = ModelCooldowns a"
  "SubscriptionExpiresAt (recomputeSchedulerLocked now baseLimit a) = SubscriptionExpiresAt a"
  "DBID (recomputeSchedulerLocked now baseLimit a) = DBID a"
  by (simp_all add: recomputeSchedulerLocked_def Let_def)

lemma recompute_queries [simp]:
  "isOpenAIResponsesAPILocked (recomputeSchedulerLocked now b a) = isOpenAIResponsesAPILocked a"
  "hasDispatchCredentialLocked (recomputeSchedulerLocked now b a) = hasDispatchCredentialLocked a"
  "premium5hRateLimitedLocked t (recomputeSchedulerLocked now b a) = premium5hRateLimitedLocked t a"
  "usageExhaustedLocked (recomputeSchedulerLocked now b a) = usageExhaustedLocked a"
  "quotaAutoPausedLocked t (recomputeSchedulerLocked now b a) = quotaAutoPausedLocked t a"
  "recentSuccessRateLocked (recomputeSchedulerLocked now b a) = recentSuccessRateLocked a"
  "effectiveBaseConcurrencyLocked n (recomputeSchedulerLocked now b a) = effectiveBaseConcurrencyLocked n a"
  "expiryUrgencyBonusLocked t (recomputeSchedulerLocked now b a) = expiryUrgencyBonusLocked t a"
  "AllowsAPIKey k (recomputeSchedulerLocked now b a) = AllowsAPIKey k a"
  "usagePercentForScheduling (recomputeSchedulerLocked now b a) = usagePercentForScheduling a"
  unfolding isOpenAIResponsesAPILocked_def hasDispatchCredentialLocked_def
      premium5hRateLimitedLocked_def usageExhaustedLocked_def quotaAutoPausedLocked_def
      recentSuccessRateLocked_def effectiveBaseConcurrencyLocked_def expiryUrgencyBonusLocked_def
      AllowsAPIKey_def usagePercentForScheduling_def recompute_sel
  by (rule refl)+

lemma recompute_breakdown [simp]:
  "schedulerBreakdownLocked t (recomputeSchedulerLocked now b a) = schedulerBreakdownLocked t a"
  unfolding schedulerBreakdownLocked_def recompute_sel recompute_queries by (rule refl)

lemma recomputedTier_banned_iff [simp]:
  "recomputedTier now score a = HealthTierBanned \<longleftrightarrow> HealthTier a = HealthTierBanned"
  by (simp add: recomputedTier_def Let_def)

lemma recomputedTier_set [simp]: "recomputedTier now score a \<noteq> TierUnset"
  by (simp add: recomputedTier_def Let_def)

lemma recompute_HealthTier:
  "HealthTier (recomputeSchedulerLocked now b a)
   = recomputedTier now (baseScore (schedulerBreakdownLocked now a)) a"
  by (simp add: recomputeSchedulerLocked_def Let_def)

lemma recompute_banned_iff [simp]:
  "HealthTier (recomputeSchedulerLocked now b a) = HealthTierBanned \<longleftrightarrow> HealthTier a = HealthTierBanned"
  by (simp add: recompute_HealthTier)

lemma healthTierLocked_banned_iff [simp]:
  "healthTierLocked a = HealthTierBanned \<longleftrightarrow> HealthTier a = HealthTierBanned"
  by (simp add: healthTierLocked_def)

lemma healthTierLocked_recompute:
  "healthTierLocked (recomputeSchedulerLocked now b a) = HealthTier (recomputeSchedulerLocked now b a)"
  by (simp add: healthTierLocked_def recompute_HealthTier)

lemma recompute_tier [simp]:
  "recomputedTier t score (recomputeSchedulerLocked now b a) = recomputedTier t score a"
  unfolding recomputedTier_def recompute_sel recompute_queries recompute_banned_iff by (rule refl)

lemma recompute_bonuses [simp]:
  "dispatchBonusEligibleLocked t tier (recomputeSchedulerLocked now b a) = dispatchBonusEligibleLocked t tier a"
  "premium5hUsageUrgencyBonusLocked t (recomputeSchedulerLocked now b a) = premium5hUsageUrgencyBonusLocked t a"
  "premium7dUsageUrgencyBonusLocked t (recomputeSchedulerLocked now b a) = premium7dUsageUrgencyBonusLocked t a"
  unfolding dispatchBonusEligibleLocked_def premium5hUsageUrgencyBonusLocked_def
      premium7dUsageUrgencyBonusLocked_def recompute_sel recompute_queries
      healthTierLocked_banned_iff recompute_banned_iff
  by (rule refl)+

lemma recompute_bias [simp]:
  "effectiveScoreBiasLocked t tier (recomputeSchedulerLocked now b a) = effectiveScoreBiasLocked t tier a"
  unfolding effectiveScoreBiasLocked_def recompute_sel recompute_bonuses by (rule refl)

lemma recompute_idem:
  "recomputeSchedulerLocked now b (recomputeSchedulerLocked now b a) = recomputeSchedulerLocked now b a"
proof -
  let ?r = "recomputeSchedulerLocked now b a"
  have "recomputeSchedulerLocked now b ?r = ?r\<lparr>HealthTier := HealthTier ?r, SchedulerScore := SchedulerScore ?r,
      DispatchScore := DispatchScore ?r, ScoreBiasEffective := ScoreBiasEffective ?r,
      BaseConcurrencyEffective := BaseConcurrencyEffective ?r,
      DynamicConcurrencyLimit := DynamicConcurrencyLimit ?r\<rparr>"
    by (subst recomputeSchedulerLocked_def) (simp add: Let_def, simp add: recomputeSchedulerLocked_def Let_def)
  then show ?thesis by simp
qed

subsection \<open>The snapshot\<close>

lemma refreshesSnapshot_recompute [simp]:
  "refreshesSnapshot (recomputeSchedulerLocked now b a) = refreshesSnapshot a"
  by (simp add: refreshesSnapshot_def sel_simps)

lemma snapshot_account:
  "fst (fastSchedulerSnapshot b now a) = (if refreshesSnapshot a then recomputeSchedulerLocked now b a else a)"
  by (simp add: fastSchedulerSnapshot_def Let_def)

lemma snapshot_idem:
  "fastSchedulerSnapshot b now (fst (fastSchedulerSnapshot b now a)) = fastSchedulerSnapshot b now a"
  by (simp add: fastSchedulerSnapshot_def recompute_idem Let_def)

lemma snapshot_keeps [sel_simps]:
  "DBID (fst (fastSchedulerSnapshot b now a)) = DBID a"
  "ActiveRequests (fst (fastSchedulerSnapshot b now a)) = ActiveRequests a"
  "TotalRequests (fst (fastSchedulerSnapshot b now a)) = TotalRequests a"
  "GroupIDs (fst (fastSchedulerSnapshot b now a)) = GroupIDs a"
  "AllowsAPIKey k (fst (fastSchedulerSnapshot b now a)) = AllowsAPIKey k a"
  "usagePercentForScheduling (fst (fastSchedulerSnapshot b now a)) = usagePercentForScheduling a"
  by (simp_all add: snapshot_account sel_simps)

lemma recompute_available [simp]: "IsAvailable t (recomputeSchedulerLocked now b a) = IsAvailable t a"
  unfolding IsAvailable_def recompute_sel recompute_queries healthTierLocked_banned_iff
    recompute_banned_iff by (rule refl)

lemma queries_Disabled [simp]:
  "premium5hRateLimitedLocked t (a\<lparr>Disabled := d\<rparr>) = premium5hRateLimitedLocked t a"
  "usageExhaustedLocked (a\<lparr>Disabled := d\<rparr>) = usageExhaustedLocked a"
  "quotaAutoPausedLocked t (a\<lparr>Disabled := d\<rparr>) = quotaAutoPausedLocked t a"
  "hasDispatchCredentialLocked (a\<lparr>Disabled := d\<rparr>) = hasDispatchCredentialLocked a"
  by (simp_all add: premium5hRateLimitedLocked_def usageExhaustedLocked_def quotaAutoPausedLocked_def
      hasDispatchCredentialLocked_def isOpenAIResponsesAPILocked_def)

lemma view_available_iff: "snAvailable (snapshotView b now a) \<longleftrightarrow> IsAvailable now (a\<lparr>Disabled := False\<rparr>)"
  by (auto simp: snapshotView_def IsAvailable_def Let_def)

lemma snapshot_available_iff:
  "snAvailable (snd (fastSchedulerSnapshot b now a)) \<longleftrightarrow> IsAvailable now (a\<lparr>Disabled := False\<rparr>)"
proof -
  have "IsAvailable now ((recomputeSchedulerLocked now b a)\<lparr>Disabled := False\<rparr>)
      = IsAvailable now (a\<lparr>Disabled := False\<rparr>)"
    by (simp add: IsAvailable_def sel_simps)
  then show ?thesis by (simp add: fastSchedulerSnapshot_def Let_def view_available_iff)
qed

subsection \<open>Limits, scores and tiers\<close>

lemma concurrencyLimit_bounds:
  "0 \<le> concurrencyLimitForTier n tier \<and> concurrencyLimitForTier n tier \<le> max 1 n"
  by (cases tier) (auto simp: concurrencyLimitForTier_def Let_def signed_divide_int_def)

lemma concurrencyLimit_pos_iff: "0 < concurrencyLimitForTier n tier \<longleftrightarrow> tier \<noteq> HealthTierBanned"
  by (cases tier) (auto simp: concurrencyLimitForTier_def Let_def signed_divide_int_def)

lemma recompute_limit_pos_iff:
  "0 < DynamicConcurrencyLimit (recomputeSchedulerLocked now b a) \<longleftrightarrow> HealthTier a \<noteq> HealthTierBanned"
proof -
  have "0 < (if c \<and> l > 1 then 1 else l) \<longleftrightarrow> 0 < l" for c and l :: int by auto
  then show ?thesis
    by (simp add: recomputeSchedulerLocked_def Let_def concurrencyLimit_pos_iff)
qed

lemma recompute_limit_le_base:
  "DynamicConcurrencyLimit (recomputeSchedulerLocked now b a)
   \<le> BaseConcurrencyEffective (recomputeSchedulerLocked now b a)"
proof -
  have "1 \<le> effectiveBaseConcurrencyLocked b a"
    by (auto simp: effectiveBaseConcurrencyLocked_def split: option.splits)
  then show ?thesis
    using concurrencyLimit_bounds [of "effectiveBaseConcurrencyLocked b a"
        "recomputedTier now (baseScore (schedulerBreakdownLocked now a)) a"]
    by (simp add: recomputeSchedulerLocked_def Let_def)
qed

lemma linearDecay_bounds:
  "0 \<le> base \<Longrightarrow> 0 \<le> elapsed \<Longrightarrow> 0 \<le> linearDecay base elapsed window \<and> linearDecay base elapsed window \<le> base"
  by (auto simp: linearDecay_def intro!: mult_nonneg_nonneg mult_left_le)

lemma decayedPenalty_bounds:
  "0 \<le> base \<Longrightarrow> lastAt \<le> now \<Longrightarrow>
   0 \<le> decayedPenalty base window lastAt now \<and> decayedPenalty base window lastAt now \<le> base"
  using linearDecay_bounds [of base "time_Sub now lastAt" window]
  by (auto simp: decayedPenalty_def time_Sub_def minDuration_def maxDuration_def)

lemma clampInt_real_bounds:
  "lo \<le> hi \<Longrightarrow> real_of_int lo \<le> real_of_int (clampInt v lo hi) \<and> real_of_int (clampInt v lo hi) \<le> real_of_int hi"
  using clampInt_bounds [of lo hi v] by simp

lemma baseScore_bounds:
  assumes "LastUnauthorizedAt a \<le> now" "LastRateLimitedAt a \<le> now" "LastTimeoutAt a \<le> now"
    "LastServerErrorAt a \<le> now"
  shows "- 96 \<le> baseScore (schedulerBreakdownLocked now a)"
    and "baseScore (schedulerBreakdownLocked now a) \<le> 132"
proof -
  let ?b = "schedulerBreakdownLocked now a"
  have *: "0 \<le> UnauthorizedPenalty ?b \<and> UnauthorizedPenalty ?b \<le> 50"
    "0 \<le> RateLimitPenalty ?b \<and> RateLimitPenalty ?b \<le> 22"
    "0 \<le> TimeoutPenalty ?b \<and> TimeoutPenalty ?b \<le> 18"
    "0 \<le> ServerPenalty ?b \<and> ServerPenalty ?b \<le> 12"
    using assms decayedPenalty_bounds by (simp_all add: schedulerBreakdownLocked_def Let_def)
  have **: "0 \<le> FailurePenalty ?b \<and> FailurePenalty ?b \<le> 24" "0 \<le> SuccessBonus ?b \<and> SuccessBonus ?b \<le> 12"
    using clampInt_real_bounds [of 0 24 "FailureStreak a * 6"] clampInt_real_bounds [of 0 12 "SuccessStreak a * 2"]
    by (simp_all add: schedulerBreakdownLocked_def Let_def)
  have ***: "0 \<le> ProvenBonus ?b \<and> ProvenBonus ?b \<le> 20" "0 \<le> UsagePenalty7d ?b \<and> UsagePenalty7d ?b \<le> 40"
    "0 \<le> LatencyPenalty ?b \<and> LatencyPenalty ?b \<le> 15" "0 \<le> SuccessRatePenalty ?b \<and> SuccessRatePenalty ?b \<le> 15"
    by (simp_all add: schedulerBreakdownLocked_def Let_def)
  show "- 96 \<le> baseScore ?b" and "baseScore ?b \<le> 132"
    unfolding baseScore_def using * ** *** by linarith+
qed

subsection \<open>The sliding window of results\<close>

text \<open>The ring buffer after recording a history of results, newest last.\<close>

definition recordResults :: "bool list \<Rightarrow> Account \<Rightarrow> Account" where
  "recordResults hist a = fold recordResultLocked hist a"

text \<open>The buffer represents a history: slot \<open>i mod 20\<close> holds the \<open>i\<close>-th result when that is
  one of the last twenty.\<close>

definition window_repr :: "bool list \<Rightarrow> Account \<Rightarrow> bool" where
  "window_repr hist a \<longleftrightarrow>
     length (RecentResults a) = 20 \<and> RecentResultsIdx a = length hist mod 20 \<and>
     RecentResultsCnt a = min 20 (length hist) \<and>
     (\<forall>i < length hist. length hist \<le> i + 20 \<longrightarrow> RecentResults a ! (i mod 20) = of_bool (hist ! i))"

lemma window_repr_new: "window_repr [] (newAccount i)"
  by (simp add: window_repr_def newAccount_def)

lemma mod_20_inj: "i < n \<Longrightarrow> n < i + 20 \<Longrightarrow> (i::nat) mod 20 \<noteq> n mod 20"
  by (metis add_diff_cancel_left' diff_less_mono less_imp_le_nat mod_eq_dvd_iff_nat nat_dvd_not_less zero_less_diff)

lemma window_repr_step:
  assumes "window_repr hist a"
  shows "window_repr (hist @ [r]) (recordResultLocked r a)"
proof -
  have slots: "((RecentResults a)[length hist mod 20 := of_bool r]) ! (i mod 20) = of_bool ((hist @ [r]) ! i)"
    if "i \<le> length hist" "length hist < i + 20" for i
  proof (cases "i = length hist")
    case True
    then show ?thesis using assms by (simp add: window_repr_def)
  next
    case False
    then show ?thesis
      using assms that mod_20_inj [of i "length hist"] by (simp add: window_repr_def nth_append)
  qed
  have "(length hist mod 20 + 1) mod 20 = Suc (length hist) mod 20"
    by (simp add: mod_Suc_eq)
  moreover have "(if r then 1 else 0) = (of_bool r :: nat)" by simp
  ultimately show ?thesis
    using assms slots unfolding window_repr_def recordResultLocked_def by auto
qed

lemma window_repr_records: "window_repr hist a \<Longrightarrow> window_repr (hist @ rs) (recordResults rs a)"
proof (induction rs arbitrary: hist a)
  case (Cons r rs)
  then show ?case using window_repr_step [of hist a r] by (fastforce simp: recordResults_def)
qed (simp add: recordResults_def)

lemma bij_betw_mod_window: "20 \<le> n \<Longrightarrow> bij_betw (\<lambda>i. i mod 20) {n - 20..<n} {..<20::nat}"
proof -
  assume n: "20 \<le> n"
  have inj: "inj_on (\<lambda>i. i mod 20) {n - 20..<n}"
  proof (rule inj_onI)
    fix i j assume ij: "i \<in> {n - 20..<n}" "j \<in> {n - 20..<n}" "i mod 20 = j mod 20"
    then have "j < i + 20" "i < j + 20" using n by auto
    then show "i = j" using ij(3) mod_20_inj [of i j] mod_20_inj [of j i] by (cases i j rule: linorder_cases) auto
  qed
  moreover have "(\<lambda>i. i mod 20) ` {n - 20..<n} \<subseteq> {..<20}" by auto
  moreover have "card ((\<lambda>i. i mod 20) ` {n - 20..<n}) = card {..<20::nat}"
    using n card_image [OF inj] by simp
  ultimately show ?thesis by (metis bij_betw_def card_subset_eq finite_lessThan)
qed

lemma sum_list_drop_nth:
  "k \<le> length xs \<Longrightarrow> sum_list (drop k xs) = (\<Sum>i\<in>{k..<length xs}. xs ! i)" for xs :: "nat list"
proof -
  assume k: "k \<le> length xs"
  have "sum_list (drop k xs) = (\<Sum>i\<in>{0..<length xs - k}. xs ! (k + i))"
    using k by (simp add: sum_list_sum_nth)
  also have "\<dots> = (\<Sum>i\<in>{k..<length xs}. xs ! i)"
    using k sum.shift_bounds_nat_ivl [of "\<lambda>i. xs ! i" 0 k "length xs - k"] by (simp add: add.commute)
  finally show ?thesis .
qed

lemma sum_list_of_bool: "sum_list (map of_bool bs) = length (filter id bs)"
  by (induction bs) auto

lemma window_sum:
  assumes "window_repr hist a"
  shows "sum_list (take (RecentResultsCnt a) (RecentResults a)) = length (filter id (drop (length hist - 20) hist))"
proof (cases "length hist \<le> 20")
  case True
  then have "take (RecentResultsCnt a) (RecentResults a) = map of_bool hist"
    using assms by (auto simp: window_repr_def intro!: nth_equalityI)
  then show ?thesis using True by (simp add: sum_list_of_bool)
next
  case False
  let ?n = "length hist"
  have "sum_list (take (RecentResultsCnt a) (RecentResults a)) = (\<Sum>j\<in>{..<20}. RecentResults a ! j)"
    using assms False by (simp add: window_repr_def sum_list_sum_nth atLeast0LessThan)
  also have "\<dots> = (\<Sum>i\<in>{?n - 20..<?n}. RecentResults a ! (i mod 20))"
    using False by (intro sum.reindex_bij_betw [symmetric] bij_betw_mod_window) simp
  also have "\<dots> = (\<Sum>i\<in>{?n - 20..<?n}. map of_bool hist ! i)"
    using assms False by (intro sum.cong) (auto simp: window_repr_def)
  also have "\<dots> = sum_list (drop (?n - 20) (map of_bool hist))"
    by (subst sum_list_drop_nth) simp_all
  also have "\<dots> = length (filter id (drop (?n - 20) hist))"
    by (simp add: drop_map sum_list_of_bool)
  finally show ?thesis .
qed

subsection \<open>The gate of an account\<close>

interpretation account_gate: slot_gate ActiveRequests "tryAcquireAccount now" releaseAccount for now
  by unfold_locales (auto simp: tryAcquireAccount_def releaseAccount_def split: if_splits)

subsection \<open>Properties\<close>

text \<open>
  Supplement: an account is never overloaded. However requests enter and leave, as long as every limit
  they enter with is at most \<open>L\<close> and an account starts with no more, the number of its
  active requests stays between 0 and \<open>L\<close>.
\<close>

theorem active_requests_bounded:
  assumes "0 \<le> ActiveRequests a" "ActiveRequests a \<le> L" "\<forall>l. Some l \<in> set ops \<longrightarrow> 0 < l \<and> l \<le> L"
  shows "ActiveRequests (account_gate.gate_run now ops a) \<in> {0..L}"
  using account_gate.gate_bounded [OF assms] by simp

theorem active_requests_bounded_witness:
  "ActiveRequests (account_gate.gate_run 5 [Some 2, Some 2, Some 2, None, Some 1] (newAccount 1)) \<in> {0..2}"
  by (rule active_requests_bounded) (auto simp: newAccount_def)

text \<open>
  C31: the ring buffer of recent results is a sliding window. After any history of recorded
  results on a new account, the success rate is the share of successes among the last twenty of
  them (all of them when there are fewer), and 1 when there is none.
\<close>

theorem success_rate_is_sliding_window:
  "recentSuccessRateLocked (recordResults hist (newAccount i)) =
     (let w = drop (length hist - 20) hist
      in if w = [] then 1 else real (length (filter id w)) / real (length w))"
proof -
  have r: "window_repr hist (recordResults hist (newAccount i))"
    using window_repr_records [OF window_repr_new, of hist i] by simp
  then have c: "RecentResultsCnt (recordResults hist (newAccount i)) = length (drop (length hist - 20) hist)"
    by (simp add: window_repr_def)
  show ?thesis
    unfolding recentSuccessRateLocked_def window_sum [OF r] Let_def unfolding c length_0_conv ..
qed

text \<open>
  Supplement: the scheduling score is bounded. When the last-event times are not in the future, the
  score a recomputation stores lies between -96 and 132, whatever the account's history.
\<close>

theorem scheduler_score_bounds:
  assumes "LastUnauthorizedAt a \<le> now" "LastRateLimitedAt a \<le> now" "LastTimeoutAt a \<le> now"
    "LastServerErrorAt a \<le> now"
  shows "SchedulerScore (recomputeSchedulerLocked now b a) \<in> {- 96..132}"
  using baseScore_bounds [OF assms] by (simp add: recomputeSchedulerLocked_def Let_def)

theorem scheduler_score_bounds_witness:
  "SchedulerScore (recomputeSchedulerLocked 1000 4 (newAccount 1)) \<in> {- 96..132}"
  by (rule scheduler_score_bounds) (simp_all add: newAccount_def)

text \<open>
  Supplement: tier and limit of a recomputed account. A recomputation never lifts and never imposes a
  ban; the dynamic limit is positive exactly for accounts that are not banned and never exceeds
  the effective base concurrency; and while the five-hour window of a premium account is used
  up, the account is risky (or banned) and may run one request at most.
\<close>

theorem recompute_tier_and_limit:
  "(HealthTier (recomputeSchedulerLocked now b a) = HealthTierBanned \<longleftrightarrow> HealthTier a = HealthTierBanned) \<and>
   (0 < DynamicConcurrencyLimit (recomputeSchedulerLocked now b a) \<longleftrightarrow> HealthTier a \<noteq> HealthTierBanned) \<and>
   DynamicConcurrencyLimit (recomputeSchedulerLocked now b a)
     \<le> BaseConcurrencyEffective (recomputeSchedulerLocked now b a) \<and>
   (premium5hRateLimitedLocked now a \<longrightarrow>
      HealthTier (recomputeSchedulerLocked now b a) \<in> {HealthTierRisky, HealthTierBanned} \<and>
      DynamicConcurrencyLimit (recomputeSchedulerLocked now b a) \<le> 1)"
proof -
  have "HealthTier (recomputeSchedulerLocked now b a) \<in> {HealthTierRisky, HealthTierBanned}"
    if "premium5hRateLimitedLocked now a"
    using that by (auto simp: recompute_HealthTier recomputedTier_def Let_def)
  moreover have "DynamicConcurrencyLimit (recomputeSchedulerLocked now b a) \<le> 1"
    if "premium5hRateLimitedLocked now a"
    using that by (simp add: recomputeSchedulerLocked_def Let_def)
  ultimately show ?thesis
    by (simp add: recompute_limit_pos_iff recompute_limit_le_base)
qed

definition exhaustedAccount :: Account where
  "exhaustedAccount = (newAccount 1)\<lparr>PlanType := ''plus'', UsagePercent5h := 100, UsagePercent5hValid := True,
     Reset5hAt := 2000\<rparr>"

theorem recompute_tier_and_limit_witness:
  "HealthTier (recomputeSchedulerLocked 1000 4 exhaustedAccount) \<in> {HealthTierRisky, HealthTierBanned} \<and>
   DynamicConcurrencyLimit (recomputeSchedulerLocked 1000 4 exhaustedAccount) \<le> 1"
proof -
  have "premium5hRateLimitedLocked 1000 exhaustedAccount"
    by (simp add: premium5hRateLimitedLocked_def exhaustedAccount_def newAccount_def) code_simp
  then show ?thesis
    using recompute_tier_and_limit [of 1000 4 exhaustedAccount] by simp
qed

end
