(* ===== verification/GoHeap.thy ===== *)
theory GoHeap
  imports Prelude "HOL-Library.Multiset"
begin

section \<open>Binary heaps as in \<open>container/heap\<close>\<close>

text \<open>
  The functions of Go's \<open>container/heap\<close> that the program calls, over the operations of
  \<open>heap.Interface\<close>: \<open>lessAt\<close> compares two positions of the structure, \<open>swap\<close> exchanges them. The locale
  \<open>heap_interface\<close> states what an implementation of the interface promises in terms of the list of its
  items, and derives that the functions keep the multiset of items and establish the heap order.
\<close>

subsection \<open>The functions\<close>

function heapUp :: "('h \<Rightarrow> nat \<Rightarrow> nat \<Rightarrow> bool) \<Rightarrow> (nat \<Rightarrow> nat \<Rightarrow> 'h \<Rightarrow> 'h) \<Rightarrow> nat \<Rightarrow> 'h \<Rightarrow> 'h" where
  "heapUp lessAt swap j h =
     (let i = (j - 1) div 2
      in if i = j \<or> \<not> lessAt h j i then h else heapUp lessAt swap i (swap i j h))"
  by pat_completeness auto

termination
  by (relation "measure (\<lambda>(lessAt, swap, j, h). j)") auto

text \<open>\<open>down\<close> returns the position at which it stopped; the Go function returns whether it moved.\<close>

function heapDown :: "('h \<Rightarrow> nat \<Rightarrow> nat \<Rightarrow> bool) \<Rightarrow> (nat \<Rightarrow> nat \<Rightarrow> 'h \<Rightarrow> 'h) \<Rightarrow> nat \<Rightarrow> nat \<Rightarrow> 'h \<Rightarrow> 'h \<times> nat" where
  "heapDown lessAt swap i n h =
     (let j1 = 2 * i + 1
      in if j1 \<ge> n then (h, i)
         else let j = (if j1 + 1 < n \<and> lessAt h (j1 + 1) j1 then j1 + 1 else j1)
              in if \<not> lessAt h j i then (h, i) else heapDown lessAt swap j n (swap i j h))"
  by pat_completeness auto

termination
  by (relation "measure (\<lambda>(lessAt, swap, i, n, h). n - i)") (auto split: if_splits)

declare heapUp.simps [simp del] heapDown.simps [simp del]

definition heapRepair :: "('h \<Rightarrow> nat \<Rightarrow> nat \<Rightarrow> bool) \<Rightarrow> (nat \<Rightarrow> nat \<Rightarrow> 'h \<Rightarrow> 'h) \<Rightarrow> nat \<Rightarrow> nat \<Rightarrow> 'h \<Rightarrow> 'h" where
  "heapRepair lessAt swap i n h =
     (let (h', i') = heapDown lessAt swap i n h in if i' > i then h' else heapUp lessAt swap i h')"

subsection \<open>Heap order on lists\<close>

definition parent :: "nat \<Rightarrow> nat" where
  "parent k = (k - 1) div 2"

lemma parent_less: "0 < k \<Longrightarrow> parent k < k"
  by (cases k) (auto simp: parent_def)

lemma parent_eq_iff: "parent k = i \<and> 0 < k \<longleftrightarrow> k = 2 * i + 1 \<or> k = 2 * i + 2"
  by (cases k) (auto simp: parent_def)

context go_less
begin

text \<open>The edge from \<open>k\<close> to its parent is in order.\<close>

definition edge :: "'a list \<Rightarrow> nat \<Rightarrow> bool" where
  "edge xs k \<longleftrightarrow> \<not> lt (xs ! k) (xs ! parent k)"

definition heap_ordered :: "'a list \<Rightarrow> nat \<Rightarrow> bool" where
  "heap_ordered xs n \<longleftrightarrow> (\<forall>k < n. 0 < k \<longrightarrow> edge xs k)"

text \<open>The children of \<open>i\<close> are in order with the parent of \<open>i\<close>.\<close>

definition bridged :: "'a list \<Rightarrow> nat \<Rightarrow> nat \<Rightarrow> bool" where
  "bridged xs n i \<longleftrightarrow> (\<forall>k < n. 0 < k \<longrightarrow> parent k = i \<longrightarrow> 0 < i \<longrightarrow> \<not> lt (xs ! k) (xs ! parent i))"

definition broken_above :: "'a list \<Rightarrow> nat \<Rightarrow> nat \<Rightarrow> bool" where
  "broken_above xs n i \<longleftrightarrow> (\<forall>k < n. 0 < k \<longrightarrow> k \<noteq> i \<longrightarrow> edge xs k) \<and> bridged xs n i"

definition broken_below :: "'a list \<Rightarrow> nat \<Rightarrow> nat \<Rightarrow> bool" where
  "broken_below xs n i \<longleftrightarrow> (\<forall>k < n. 0 < k \<longrightarrow> parent k \<noteq> i \<longrightarrow> edge xs k) \<and> bridged xs n i"

definition broken_at :: "'a list \<Rightarrow> nat \<Rightarrow> nat \<Rightarrow> bool" where
  "broken_at xs n i \<longleftrightarrow> (\<forall>k < n. 0 < k \<longrightarrow> k \<noteq> i \<longrightarrow> parent k \<noteq> i \<longrightarrow> edge xs k) \<and> bridged xs n i"

definition exchanged :: "'a list \<Rightarrow> nat \<Rightarrow> nat \<Rightarrow> 'a list" where
  "exchanged xs i j = xs[i := xs ! j, j := xs ! i]"

lemma exchanged_nth:
  "i < length xs \<Longrightarrow> j < length xs \<Longrightarrow> exchanged xs i j ! k = (if k = j then xs ! i else if k = i then xs ! j else xs ! k)"
  by (auto simp: exchanged_def nth_list_update)

lemma lt_trans: "lt x y \<Longrightarrow> lt y z \<Longrightarrow> lt x z"
  using lt_split [of x y z] lt_asym by blast

lemma nlt_trans: "\<not> lt y x \<Longrightarrow> \<not> lt z y \<Longrightarrow> \<not> lt z x"
  using lt_split [of z x y] by blast

lemma nlt_lt: "\<not> lt y x \<Longrightarrow> lt y z \<Longrightarrow> lt x z"
  using lt_split [of y z x] by blast

lemma nlt_self: "\<not> lt x x"
  using lt_asym by blast

text \<open>The first item of a heap precedes every other or is level with it.\<close>

lemma heap_first: "heap_ordered xs n \<Longrightarrow> k < n \<Longrightarrow> \<not> lt (xs ! k) (xs ! 0)"
proof (induction k rule: less_induct)
  case (less k)
  show ?case
  proof (cases "k = 0")
    case False
    then have "parent k < k" by (simp add: parent_less)
    then have "\<not> lt (xs ! parent k) (xs ! 0)" using less by simp
    moreover have "edge xs k" using less.prems False by (simp add: heap_ordered_def)
    ultimately show ?thesis using nlt_trans by (auto simp: edge_def)
  qed (simp add: nlt_self)
qed

lemma up_step:
  assumes inv: "broken_above xs n j" and j: "j < n" "0 < j" "n \<le> length xs" and bad: "lt (xs ! j) (xs ! parent j)"
  shows "broken_above (exchanged xs (parent j) j) n (parent j)"
proof -
  let ?i = "parent j" and ?ys = "exchanged xs (parent j) j"
  have ij: "?i < j" "?i < length xs" "j < length xs" using j parent_less [of j] by auto
  note nth = exchanged_nth [OF ij(2,3)]
  have edges: "edge xs k" if "k < n" "0 < k" "k \<noteq> j" for k using inv that by (simp add: broken_above_def)
  have br: "\<not> lt (xs ! k) (xs ! ?i)" if "k < n" "0 < k" "parent k = j" for k
    using inv that j(2) by (simp add: broken_above_def bridged_def)
  have "edge ?ys k" if k: "k < n" "0 < k" "k \<noteq> ?i" for k
  proof (cases "k = j")
    case True
    then show ?thesis using bad ij(1) by (simp add: edge_def nth lt_asym)
  next
    case nj: False
    consider "parent k = j" | "parent k = ?i" | "parent k \<noteq> j" "parent k \<noteq> ?i" by blast
    then show ?thesis
    proof cases
      case 1
      then show ?thesis using br [OF k(1,2)] nj k ij(1) by (simp add: edge_def nth)
    next
      case 2
      have "\<not> lt (xs ! k) (xs ! ?i)" using edges [OF k(1,2) nj] 2 by (simp add: edge_def)
      then have "\<not> lt (xs ! k) (xs ! j)" using bad lt_trans by blast
      then show ?thesis using 2 nj k ij(1) by (simp add: edge_def nth)
    next
      case 3
      then show ?thesis using edges [OF k(1,2) nj] nj k by (simp add: edge_def nth)
    qed
  qed
  moreover have "bridged ?ys n ?i"
    unfolding bridged_def
  proof (intro allI impI)
    fix k assume k: "k < n" "0 < k" "parent k = ?i" "0 < ?i"
    have pi: "parent ?i < ?i" using k(4) by (rule parent_less)
    have e: "\<not> lt (xs ! ?i) (xs ! parent ?i)" using edges [of ?i] k(4) ij j by (simp add: edge_def)
    have top: "?ys ! parent ?i = xs ! parent ?i" using pi ij(1) by (simp add: nth)
    show "\<not> lt (?ys ! k) (?ys ! parent ?i)"
    proof (cases "k = j")
      case True
      then show ?thesis using e top by (simp add: nth)
    next
      case False
      then have "\<not> lt (xs ! k) (xs ! ?i)" using edges [OF k(1,2)] k(3) by (simp add: edge_def)
      then have "\<not> lt (xs ! k) (xs ! parent ?i)" using e nlt_trans by blast
      moreover have "k \<noteq> ?i" using k(3) parent_less [OF k(2)] by simp
      ultimately show ?thesis using top False by (simp add: nth)
    qed
  qed
  ultimately show ?thesis by (simp add: broken_above_def)
qed

definition least_child :: "'a list \<Rightarrow> nat \<Rightarrow> nat \<Rightarrow> nat \<Rightarrow> bool" where
  "least_child xs n i j \<longleftrightarrow> j < n \<and> 0 < j \<and> parent j = i \<and> (\<forall>k < n. 0 < k \<longrightarrow> parent k = i \<longrightarrow> \<not> lt (xs ! k) (xs ! j))"

lemma down_step:
  assumes inv: "broken_at xs n i" and c: "least_child xs n i j" and n: "n \<le> length xs" and bad: "lt (xs ! j) (xs ! i)"
  shows "broken_below (exchanged xs i j) n j"
proof -
  let ?ys = "exchanged xs i j"
  have j: "j < n" "0 < j" "parent j = i" and min: "\<And>k. k < n \<Longrightarrow> 0 < k \<Longrightarrow> parent k = i \<Longrightarrow> \<not> lt (xs ! k) (xs ! j)"
    using c by (auto simp: least_child_def)
  have ij: "i < j" "i < length xs" "j < length xs" using j n parent_less [OF j(2)] by auto
  note nth = exchanged_nth [OF ij(2,3)]
  have edges: "edge xs k" if "k < n" "0 < k" "k \<noteq> i" "parent k \<noteq> i" for k using inv that by (simp add: broken_at_def)
  have "edge ?ys k" if k: "k < n" "0 < k" "parent k \<noteq> j" for k
  proof -
    have pk: "parent k < k" using k(2) by (rule parent_less)
    consider "k = j" | "k = i" | "k \<noteq> j" "parent k = i" | "k \<noteq> j" "k \<noteq> i" "parent k \<noteq> i" by blast
    then show ?thesis
    proof cases
      case 1
      then show ?thesis using bad j(3) ij(1) by (simp add: edge_def nth lt_asym)
    next
      case 2
      have "\<not> lt (xs ! j) (xs ! parent i)" using inv j k 2 by (simp add: broken_at_def bridged_def)
      then show ?thesis using 2 pk k(3) ij(1) by (simp add: edge_def nth)
    next
      case 3
      then show ?thesis using min k pk ij(1) by (simp add: edge_def nth)
    next
      case 4
      then show ?thesis using edges [OF k(1,2)] k(3) by (simp add: edge_def nth)
    qed
  qed
  moreover have "bridged ?ys n j"
    unfolding bridged_def
  proof (intro allI impI)
    fix k assume k: "k < n" "0 < k" "parent k = j"
    have "j < k" using parent_less [OF k(2)] k(3) by simp
    then have "edge xs k" using edges [OF k(1,2)] k(3) ij(1) by simp
    then show "\<not> lt (?ys ! k) (?ys ! parent j)" using \<open>j < k\<close> k(3) j(3) ij(1) by (simp add: edge_def nth)
  qed
  ultimately show ?thesis by (simp add: broken_below_def)
qed

lemma down_stop:
  assumes "\<And>k. k < n \<Longrightarrow> 0 < k \<Longrightarrow> parent k = i \<Longrightarrow> \<not> lt (xs ! k) (xs ! i)"
  shows "broken_at xs n i \<Longrightarrow> broken_above xs n i" "broken_below xs n i \<Longrightarrow> heap_ordered xs n"
  using assms by (auto simp: broken_at_def broken_above_def broken_below_def heap_ordered_def edge_def)

lemma up_stop: "broken_above xs n j \<Longrightarrow> j = 0 \<or> \<not> lt (xs ! j) (xs ! parent j) \<Longrightarrow> heap_ordered xs n"
  by (auto simp: broken_above_def heap_ordered_def edge_def)

lemma below_at: "broken_below xs n i \<Longrightarrow> broken_at xs n i"
  by (simp add: broken_below_def broken_at_def)

text \<open>How a heap comes to have one defect.\<close>

lemma heap_append:
  assumes "heap_ordered xs (length xs)"
  shows "broken_above (xs @ [x]) (Suc (length xs)) (length xs)"
proof -
  have "edge (xs @ [x]) k" if "k < length xs" "0 < k" for k
    using assms that parent_less [OF that(2)] by (simp add: heap_ordered_def edge_def nth_append)
  moreover have "parent k \<noteq> length xs" if "k < Suc (length xs)" "0 < k" for k
    using that parent_less [OF that(2)] by simp
  ultimately show ?thesis by (auto simp: broken_above_def bridged_def less_Suc_eq)
qed

lemma heap_update:
  assumes "heap_ordered xs n" "n \<le> length xs"
  shows "broken_at (xs[i := x]) n i"
proof -
  have "edge (xs[i := x]) k" if "k < n" "0 < k" "k \<noteq> i" "parent k \<noteq> i" for k
    using assms that by (simp add: heap_ordered_def edge_def)
  moreover have "\<not> lt (xs[i := x] ! k) (xs[i := x] ! parent i)" if k: "k < n" "0 < k" "parent k = i" "0 < i" for k
  proof -
    have "i < k" "parent i < i" using parent_less k by metis+
    moreover have "edge xs k" "edge xs i" using assms(1) k \<open>i < k\<close> by (simp_all add: heap_ordered_def)
    ultimately show ?thesis using nlt_trans k(3) by (auto simp: edge_def)
  qed
  ultimately show ?thesis by (simp add: broken_at_def bridged_def)
qed

lemma heap_prefix: "heap_ordered xs n \<Longrightarrow> m \<le> n \<Longrightarrow> heap_ordered xs m"
  by (simp add: heap_ordered_def)

lemma heap_cong:
  assumes "\<And>k. k < n \<Longrightarrow> xs ! k = ys ! k"
  shows "heap_ordered xs n = heap_ordered ys n" "broken_at xs n i = broken_at ys n i"
proof -
  have p: "parent k < n" if "k < n" for k using that parent_less [of k] by (cases "k = 0") (auto simp: parent_def)
  have "edge xs k = edge ys k" if "k < n" for k using that p by (simp add: edge_def assms)
  then show "heap_ordered xs n = heap_ordered ys n" by (auto simp: heap_ordered_def)
  have "bridged xs n i = bridged ys n i"
    unfolding bridged_def using assms p by (metis)
  then show "broken_at xs n i = broken_at ys n i" using \<open>\<And>k. k < n \<Longrightarrow> edge xs k = edge ys k\<close> by (auto simp: broken_at_def)
qed

end

subsection \<open>The interface\<close>

locale heap_interface = go_less lt
  for lt :: "'a \<Rightarrow> 'a \<Rightarrow> bool" +
  fixes lessAt :: "'h \<Rightarrow> nat \<Rightarrow> nat \<Rightarrow> bool"
    and swap :: "nat \<Rightarrow> nat \<Rightarrow> 'h \<Rightarrow> 'h"
    and items :: "'h \<Rightarrow> 'a list"
    and sound :: "'h \<Rightarrow> bool"
  assumes lessAt_items: "i < length (items h) \<Longrightarrow> j < length (items h) \<Longrightarrow> lessAt h i j = lt (items h ! i) (items h ! j)"
    and swap_items: "i < length (items h) \<Longrightarrow> j < length (items h) \<Longrightarrow> items (swap i j h) = exchanged (items h) i j"
    and swap_sound: "sound h \<Longrightarrow> i < length (items h) \<Longrightarrow> j < length (items h) \<Longrightarrow> sound (swap i j h)"
begin

text \<open>\<open>h'\<close> has the items of \<open>h\<close>, and those from position \<open>n\<close> on in their places.\<close>

definition rearranged :: "nat \<Rightarrow> 'h \<Rightarrow> 'h \<Rightarrow> bool" where
  "rearranged n h h' \<longleftrightarrow>
     mset (items h') = mset (items h) \<and> drop n (items h') = drop n (items h) \<and> (sound h \<longrightarrow> sound h')"

lemma rearranged_refl [simp]: "rearranged n h h"
  by (simp add: rearranged_def)

lemma rearranged_trans: "rearranged n h h1 \<Longrightarrow> rearranged n h1 h2 \<Longrightarrow> rearranged n h h2"
  by (simp add: rearranged_def)

lemma rearranged_length: "rearranged n h h' \<Longrightarrow> length (items h') = length (items h)"
  by (metis rearranged_def size_mset)

lemma swap_rearranged:
  assumes "i < n" "j < n" "n \<le> length (items h)"
  shows "rearranged n h (swap i j h)"
proof -
  have ij: "i < length (items h)" "j < length (items h)" using assms by simp_all
  have "mset (exchanged (items h) i j) = mset (items h)"
    unfolding exchanged_def using mset_swap [OF ij(2,1)] by (metis list_update_swap list_update_id)
  then show ?thesis
    using assms ij by (auto simp: rearranged_def swap_items swap_sound exchanged_def drop_update_cancel)
qed

lemma heapUp_correct:
  "broken_above (items h) n j \<Longrightarrow> j < n \<Longrightarrow> n \<le> length (items h) \<Longrightarrow>
   heap_ordered (items (heapUp lessAt swap j h)) n \<and> rearranged n h (heapUp lessAt swap j h)"
proof (induction j arbitrary: h rule: less_induct)
  case (less j)
  show ?case
  proof (cases "j = 0 \<or> \<not> lt (items h ! j) (items h ! parent j)")
    case True
    then have "heapUp lessAt swap j h = h"
      using less.prems lessAt_items [of j h "parent j"] parent_less [of j]
      by (subst heapUp.simps) (auto simp: parent_def)
    then show ?thesis using up_stop [OF less.prems(1) True] by simp
  next
    case False
    let ?h = "swap (parent j) j h"
    have p: "parent j < j" using False parent_less by simp
    have up: "heapUp lessAt swap j h = heapUp lessAt swap (parent j) ?h"
      using False p less.prems lessAt_items [of j h "parent j"]
      by (subst heapUp.simps) (simp add: parent_def Let_def)
    have re: "rearranged n h ?h" using p less.prems by (intro swap_rearranged) simp_all
    have "broken_above (items ?h) n (parent j)"
      using up_step [OF less.prems(1,2)] False less.prems p by (simp add: swap_items)
    from less.IH [OF p this] show ?thesis
      unfolding up using re rearranged_length [OF re] less.prems p rearranged_trans by auto
  qed
qed

lemma heapDown_correct:
  "broken_at (items h) n i \<Longrightarrow> i < n \<Longrightarrow> n \<le> length (items h) \<Longrightarrow> heapDown lessAt swap i n h = (h', i') \<Longrightarrow>
   rearranged n h h' \<and> i \<le> i' \<and> i' < n \<and>
   (i' = i \<longrightarrow> h' = h \<and> broken_above (items h) n i) \<and>
   (i < i' \<or> broken_below (items h) n i \<longrightarrow> heap_ordered (items h') n)"
proof (induction "n - i" arbitrary: i h rule: less_induct)
  case less
  let ?j = "if 2 * i + 1 + 1 < n \<and> lessAt h (2 * i + 1 + 1) (2 * i + 1) then 2 * i + 1 + 1 else 2 * i + 1"
  show ?case
  proof (cases "2 * i + 1 \<ge> n")
    case True
    then have "parent k \<noteq> i" if "k < n" "0 < k" for k using that parent_eq_iff [of k i] by auto
    then have none: "\<not> lt (items h ! k) (items h ! i)" if "k < n" "0 < k" "parent k = i" for k using that by blast
    have "h' = h" "i' = i" using less.prems(4) True by (subst (asm) heapDown.simps, simp)+
    then show ?thesis using down_stop [OF none] less.prems(1,2) by simp
  next
    case False
    have least: "least_child (items h) n i ?j"
    proof -
      have "parent ?j = i \<and> 0 < ?j" using parent_eq_iff [of ?j i] by auto
      moreover have "\<not> lt (items h ! k) (items h ! ?j)" if k: "k < n" "0 < k" "parent k = i" for k
      proof -
        have "k = 2 * i + 1 \<or> k = 2 * i + 2" using k parent_eq_iff [of k i] by simp
        then show ?thesis
          using k False less.prems(3) lessAt_items [of "2 * i + 2" h "2 * i + 1"] nlt_self lt_asym by auto
      qed
      ultimately show ?thesis using False by (auto simp: least_child_def)
    qed
    then have j: "?j < n" "i < ?j" and min: "\<And>k. k < n \<Longrightarrow> 0 < k \<Longrightarrow> parent k = i \<Longrightarrow> \<not> lt (items h ! k) (items h ! ?j)"
      by (auto simp: least_child_def)
    have cmp: "lessAt h ?j i = lt (items h ! ?j) (items h ! i)" using j less.prems by (intro lessAt_items) simp_all
    have unf: "heapDown lessAt swap i n h = (if \<not> lt (items h ! ?j) (items h ! i) then (h, i) else heapDown lessAt swap ?j n (swap i ?j h))"
      unfolding heapDown.simps [of lessAt swap i n h] Let_def cmp using False by (simp only: if_False)
    show ?thesis
    proof (cases "lt (items h ! ?j) (items h ! i)")
      case no: False
      then have "\<not> lt (items h ! k) (items h ! i)" if "k < n" "0 < k" "parent k = i" for k
        using min [OF that] nlt_trans by blast
      note stop = down_stop [OF this]
      show ?thesis using no less.prems stop unfolding unf by simp
    next
      case yes: True
      let ?h = "swap i ?j h"
      have re: "rearranged n h ?h" using j less.prems by (intro swap_rearranged) simp_all
      have b: "broken_below (items ?h) n ?j"
        using down_step [OF less.prems(1) least less.prems(3) yes] j less.prems by (simp add: swap_items)
      have "heapDown lessAt swap ?j n ?h = (h', i')" using less.prems(4) yes unf by simp
      from less.hyps [OF _ below_at [OF b] j(1) _ this] j b
      have "rearranged n ?h h' \<and> ?j \<le> i' \<and> i' < n \<and> heap_ordered (items h') n"
        using rearranged_length [OF re] less.prems(3) by auto
      then show ?thesis using j(2) re rearranged_trans by auto
    qed
  qed
qed

lemma heapRepair_correct:
  assumes "broken_at (items h) n i" "i < n" "n \<le> length (items h)"
  shows "heap_ordered (items (heapRepair lessAt swap i n h)) n \<and> rearranged n h (heapRepair lessAt swap i n h)"
proof -
  obtain h' i' where d: "heapDown lessAt swap i n h = (h', i')" by force
  note down = heapDown_correct [OF assms d]
  show ?thesis
  proof (cases "i < i'")
    case False
    then have "h' = h" "broken_above (items h) n i" using down by auto
    then show ?thesis using heapUp_correct [OF _ assms(2,3)] d False by (simp add: heapRepair_def)
  qed (use down d in \<open>simp add: heapRepair_def\<close>)
qed

end

end
