(* ===== verification/RefreshScheduler.thy ===== *)
theory RefreshScheduler
  imports Account GoHeap "HOL-Library.Signed_Division"
begin

section \<open>The refresh scheduler\<close>

text \<open>
  Models \<open>auth/refresh_scheduler.go\<close>: the queue of refresh tasks ordered by priority, on
  \<open>container/heap\<close> (theory \<open>GoHeap\<close>), the passage of due tasks to the execution queue, their execution
  with a bounded number of workers, retries, cancellation and metrics; and from
  \<open>auth/refresh_scheduler_integration.go\<close> the completion of a configuration.

  Tasks are objects: the map by account, the priority queue, the execution queue and the running
  workers hold addresses of them in the memory \<open>rsMem\<close>, where every address has a task and those from
  \<open>rsNext\<close> on are free. Operations run one after the other; \<open>now\<close> is the clock and the numbers \<open>r\<close> are
  the random numbers that the jitter draws, from 0 up to 1. What the refresh itself does to the account,
  and whether it fails, is an argument of the step that finishes a task.
\<close>

type_synonym taskptr = nat

datatype RefreshState =
  RefreshStatePending | RefreshStateRunning | RefreshStateSuccess | RefreshStateFailed | RefreshStateRetrying

record RefreshTask =
  rtAccount :: nat
  rtDBID :: int
  rtScheduledAt :: time
  rtPriority :: int
  rtAttempts :: int
  rtState :: RefreshState
  rtLastError :: "string option"
  rtNextRetryAt :: time
  rtHeapIndex :: int

record RefreshMetrics =
  TotalTasks :: int
  PendingTasks :: int
  RunningTasks :: int
  SuccessCount :: int
  FailedCount :: int
  RetryCount :: int
  AvgDurationMs :: int
  LastRefreshAt :: int

record RefreshConfig =
  cfMaxConcurrency :: int
  cfMinInterval :: duration
  cfPreExpireWindow :: duration
  cfRetryBackoffBase :: duration
  cfRetryMaxAttempts :: int
  cfJitterPercent :: float64
  cfEnableBatchOptimize :: bool
  cfBatchSize :: int

definition DefaultRefreshConfig :: RefreshConfig where
  "DefaultRefreshConfig = \<lparr>cfMaxConcurrency = 10, cfMinInterval = 100 * Millisecond, cfPreExpireWindow = 5 * Minute,
     cfRetryBackoffBase = 1 * Second, cfRetryMaxAttempts = 3, cfJitterPercent = 1 / 10, cfEnableBatchOptimize = True,
     cfBatchSize = 5\<rparr>"

text \<open>The configuration that \<open>EnableRefreshScheduler\<close> makes of the one it is given.\<close>

definition completedConfig :: "RefreshConfig \<Rightarrow> RefreshConfig" where
  "completedConfig c =
     (let d = DefaultRefreshConfig
      in c\<lparr>cfMaxConcurrency := (if cfMaxConcurrency c \<le> 0 then cfMaxConcurrency d else cfMaxConcurrency c),
           cfMinInterval := (if cfMinInterval c \<le> 0 then cfMinInterval d else cfMinInterval c),
           cfPreExpireWindow := (if cfPreExpireWindow c \<le> 0 then cfPreExpireWindow d else cfPreExpireWindow c),
           cfRetryBackoffBase := (if cfRetryBackoffBase c \<le> 0 then cfRetryBackoffBase d else cfRetryBackoffBase c),
           cfRetryMaxAttempts := (if cfRetryMaxAttempts c \<le> 0 then cfRetryMaxAttempts d else cfRetryMaxAttempts c),
           cfBatchSize := (if cfBatchSize c \<le> 0 then cfBatchSize d else cfBatchSize c),
           cfJitterPercent := (if cfJitterPercent c < 0 then cfJitterPercent d else cfJitterPercent c)\<rparr>)"

subsection \<open>The priority queue\<close>

type_synonym pqState = "(taskptr \<Rightarrow> RefreshTask) \<times> taskptr list"

definition pqLess :: "pqState \<Rightarrow> nat \<Rightarrow> nat \<Rightarrow> bool" where
  "pqLess st i j =
     (let a = fst st (snd st ! i); b = fst st (snd st ! j)
      in if rtPriority a \<noteq> rtPriority b then rtPriority a > rtPriority b else rtScheduledAt a < rtScheduledAt b)"

definition setIndex :: "taskptr \<Rightarrow> int \<Rightarrow> (taskptr \<Rightarrow> RefreshTask) \<Rightarrow> taskptr \<Rightarrow> RefreshTask" where
  "setIndex p i m = m(p := (m p)\<lparr>rtHeapIndex := i\<rparr>)"

definition pqSwap :: "nat \<Rightarrow> nat \<Rightarrow> pqState \<Rightarrow> pqState" where
  "pqSwap i j st =
     (let q = (snd st)[i := snd st ! j, j := snd st ! i]
      in (setIndex (q ! j) (int j) (setIndex (q ! i) (int i) (fst st)), q))"

definition pqPush :: "taskptr \<Rightarrow> pqState \<Rightarrow> pqState" where
  "pqPush p st = (setIndex p (int (length (snd st))) (fst st), snd st @ [p])"

definition pqPop :: "pqState \<Rightarrow> pqState \<times> taskptr" where
  "pqPop st = (let x = last (snd st) in ((setIndex x (- 1) (fst st), butlast (snd st)), x))"

text \<open>The functions of \<open>container/heap\<close> on this queue.\<close>

definition heap_Push :: "taskptr \<Rightarrow> pqState \<Rightarrow> pqState" where
  "heap_Push p st = (let st' = pqPush p st in heapUp pqLess pqSwap (length (snd st') - 1) st')"

definition heap_Pop :: "pqState \<Rightarrow> pqState \<times> taskptr" where
  "heap_Pop st = (let n = length (snd st) - 1 in pqPop (fst (heapDown pqLess pqSwap 0 n (pqSwap 0 n st))))"

definition heap_Remove :: "nat \<Rightarrow> pqState \<Rightarrow> pqState \<times> taskptr" where
  "heap_Remove i st =
     (let n = length (snd st) - 1
      in pqPop (if n \<noteq> i then heapRepair pqLess pqSwap i n (pqSwap i n st) else st))"

definition heap_Fix :: "nat \<Rightarrow> pqState \<Rightarrow> pqState" where
  "heap_Fix i st = heapRepair pqLess pqSwap i (length (snd st)) st"

subsection \<open>The scheduler\<close>

record RefreshScheduler =
  rsConfig :: RefreshConfig
  rsMem :: "taskptr \<Rightarrow> RefreshTask"
  rsNext :: taskptr
  rsPQ :: "taskptr list"
  rsTasks :: "int \<rightharpoonup> taskptr"
  rsQueue :: "taskptr list"
  rsInHand :: "taskptr option"
  rsRunning :: "taskptr list"
  rsMetrics :: RefreshMetrics
  rsLastBatch :: time

definition freeTask :: RefreshTask where
  "freeTask = \<lparr>rtAccount = 0, rtDBID = 0, rtScheduledAt = 0, rtPriority = 0, rtAttempts = 0, rtState = RefreshStatePending,
     rtLastError = None, rtNextRetryAt = 0, rtHeapIndex = - 1\<rparr>"

definition zeroMetrics :: RefreshMetrics where
  "zeroMetrics = \<lparr>TotalTasks = 0, PendingTasks = 0, RunningTasks = 0, SuccessCount = 0, FailedCount = 0, RetryCount = 0,
     AvgDurationMs = 0, LastRefreshAt = 0\<rparr>"

definition NewRefreshScheduler :: "time \<Rightarrow> RefreshConfig \<Rightarrow> RefreshScheduler" where
  "NewRefreshScheduler now c =
     \<lparr>rsConfig = c\<lparr>cfMaxConcurrency := (if cfMaxConcurrency c \<le> 0 then 10 else cfMaxConcurrency c),
                  cfBatchSize := (if cfBatchSize c \<le> 0 then 5 else cfBatchSize c)\<rparr>,
      rsMem = (\<lambda>_. freeTask), rsNext = 0, rsPQ = [], rsTasks = Map.empty, rsQueue = [], rsInHand = None, rsRunning = [],
      rsMetrics = zeroMetrics, rsLastBatch = now\<rparr>"

text \<open>The capacity of the channel \<open>queue\<close>.\<close>

definition queueCap :: nat where
  "queueCap = 1000"

definition updTask :: "taskptr \<Rightarrow> (RefreshTask \<Rightarrow> RefreshTask) \<Rightarrow> RefreshScheduler \<Rightarrow> RefreshScheduler" where
  "updTask p f s = s\<lparr>rsMem := (rsMem s)(p := f (rsMem s p))\<rparr>"

definition updMetrics :: "(RefreshMetrics \<Rightarrow> RefreshMetrics) \<Rightarrow> RefreshScheduler \<Rightarrow> RefreshScheduler" where
  "updMetrics f s = s\<lparr>rsMetrics := f (rsMetrics s)\<rparr>"

definition addPending :: "int \<Rightarrow> RefreshScheduler \<Rightarrow> RefreshScheduler" where
  "addPending n = updMetrics (\<lambda>m. m\<lparr>PendingTasks := PendingTasks m + n\<rparr>)"

definition withPQ :: "(pqState \<Rightarrow> pqState) \<Rightarrow> RefreshScheduler \<Rightarrow> RefreshScheduler" where
  "withPQ f s = (let st = f (rsMem s, rsPQ s) in s\<lparr>rsMem := fst st, rsPQ := snd st\<rparr>)"

definition pushToQueue :: "taskptr \<Rightarrow> RefreshScheduler \<Rightarrow> RefreshScheduler" where
  "pushToQueue p s =
     (let idx = rtHeapIndex (rsMem s p)
      in if idx \<ge> 0 \<and> idx < int (length (rsPQ s)) then withPQ (heap_Fix (nat idx)) s
         else withPQ (heap_Push p) (updTask p (\<lambda>t. t\<lparr>rtHeapIndex := - 1\<rparr>) s))"

definition removeFromQueue :: "taskptr \<Rightarrow> RefreshScheduler \<Rightarrow> RefreshScheduler" where
  "removeFromQueue p s =
     (let idx = rtHeapIndex (rsMem s p)
      in if idx \<ge> 0 \<and> idx < int (length (rsPQ s)) then withPQ (\<lambda>st. fst (heap_Remove (nat idx) st)) s else s)"

definition popFromQueue :: "RefreshScheduler \<Rightarrow> RefreshScheduler \<times> taskptr option" where
  "popFromQueue s =
     (if rsPQ s = [] then (s, None)
      else (withPQ (\<lambda>st. fst (heap_Pop st)) s, Some (snd (heap_Pop (rsMem s, rsPQ s)))))"

definition peekQueue :: "RefreshScheduler \<Rightarrow> taskptr option" where
  "peekQueue s = (case rsPQ s of [] \<Rightarrow> None | p # _ \<Rightarrow> Some p)"

subsection \<open>Times and priorities\<close>

text \<open>The conversion of a float to a duration rounds towards zero.\<close>

definition toDuration :: "float64 \<Rightarrow> duration" where
  "toDuration x = (if x \<ge> 0 then \<lfloor>x\<rfloor> else \<lceil>x\<rceil>)"

definition randomJitter :: "RefreshConfig \<Rightarrow> float64 \<Rightarrow> duration \<Rightarrow> duration" where
  "randomJitter c r base =
     (if cfJitterPercent c \<le> 0 then base else base + toDuration (real_of_int base * cfJitterPercent c * (2 * r - 1)))"

definition calculateOptimalTime :: "RefreshConfig \<Rightarrow> time \<Rightarrow> float64 \<times> float64 \<Rightarrow> Account \<Rightarrow> time" where
  "calculateOptimalTime c now r account =
     (let expiresAt = ExpiresAt account;
          target = (if expiresAt = 0 then now + 30 * Second
                    else if time_Sub expiresAt now < cfPreExpireWindow c then now + randomJitter c (fst r) (100 * Millisecond)
                    else expiresAt - cfPreExpireWindow c + randomJitter c (fst r) (cfMinInterval c))
      in if target < now then now + randomJitter c (snd r) (100 * Millisecond) else target)"

definition calculatePriority :: "time \<Rightarrow> Account \<Rightarrow> int" where
  "calculatePriority now account =
     (let base = (case HealthTier account of HealthTierHealthy \<Rightarrow> 30 | HealthTierWarm \<Rightarrow> 20 | HealthTierRisky \<Rightarrow> 10 | _ \<Rightarrow> 0);
          left = time_Sub (ExpiresAt account) now
      in if ExpiresAt account = 0 then base
         else if left < 30 * Second then base + 100
         else if left < 2 * Minute then base + 50
         else if left < 5 * Minute then base + 20
         else base)"

text \<open>The power of two is a float that is converted to a duration, exact up to \<open>2 ^ 62\<close>; the product
  is one of 64-bit integers.\<close>

definition calculateRetryTime :: "RefreshConfig \<Rightarrow> time \<Rightarrow> float64 \<Rightarrow> int \<Rightarrow> time" where
  "calculateRetryTime c now r attempts =
     (let b0 = wrap64 (cfRetryBackoffBase c * 2 ^ nat (attempts - 1));
          backoff = (if b0 > 5 * Minute then 5 * Minute else b0)
      in now + (backoff + randomJitter c r (backoff sdiv 10)))"

definition updateAvgDuration :: "duration \<Rightarrow> RefreshMetrics \<Rightarrow> RefreshMetrics" where
  "updateAvgDuration d m =
     (let current = AvgDurationMs m; newMs = d sdiv Millisecond
      in m\<lparr>AvgDurationMs := (if current = 0 then newMs else (current * 9 + newMs) sdiv 10)\<rparr>)"

definition isNonRetryable :: "string \<Rightarrow> bool" where
  "isNonRetryable err =
     list_ex (Contains (ToLower err))
       [''invalid_grant'', ''invalid_client'', ''unauthorized_client'', ''access_denied'', ''refresh_token_reused'']"

subsection \<open>Scheduling\<close>

text \<open>\<open>account\<close> is the account at address \<open>a\<close>.\<close>

definition Schedule :: "time \<Rightarrow> float64 \<times> float64 \<Rightarrow> nat \<Rightarrow> Account \<Rightarrow> RefreshScheduler \<Rightarrow> RefreshScheduler" where
  "Schedule now r a account s =
     (case rsTasks s (DBID account) of
        Some p \<Rightarrow>
          if rtState (rsMem s p) \<noteq> RefreshStateRunning
          then pushToQueue p (updTask p (\<lambda>t. t\<lparr>rtState := RefreshStatePending,
                 rtScheduledAt := calculateOptimalTime (rsConfig s) now r account,
                 rtPriority := calculatePriority now account, rtAttempts := 0, rtLastError := None\<rparr>) s)
          else s
      | None \<Rightarrow>
          let p = rsNext s;
              task = freeTask\<lparr>rtAccount := a, rtDBID := DBID account,
                rtScheduledAt := calculateOptimalTime (rsConfig s) now r account, rtPriority := calculatePriority now account\<rparr>
          in pushToQueue p (updMetrics (\<lambda>m. m\<lparr>TotalTasks := TotalTasks m + 1, PendingTasks := PendingTasks m + 1\<rparr>)
               (s\<lparr>rsMem := (rsMem s)(p := task), rsNext := p + 1, rsTasks := (rsTasks s)(DBID account \<mapsto> p)\<rparr>)))"

definition ScheduleImmediate :: "time \<Rightarrow> nat \<Rightarrow> Account \<Rightarrow> RefreshScheduler \<Rightarrow> RefreshScheduler" where
  "ScheduleImmediate now a account s =
     (let p = rsNext s;
          task = freeTask\<lparr>rtAccount := a, rtDBID := DBID account, rtScheduledAt := now, rtPriority := 1000\<rparr>;
          s1 = s\<lparr>rsMem := (rsMem s)(p := task), rsNext := p + 1\<rparr>;
          s2 = (case rsTasks s (DBID account) of
                  Some e \<Rightarrow> addPending (- 1) (removeFromQueue e (updTask e (\<lambda>t. t\<lparr>rtState := RefreshStateSuccess\<rparr>) s1))
                | None \<Rightarrow> updMetrics (\<lambda>m. m\<lparr>TotalTasks := TotalTasks m + 1, PendingTasks := PendingTasks m + 1\<rparr>) s1);
          s3 = s2\<lparr>rsTasks := (rsTasks s2)(DBID account \<mapsto> p)\<rparr>
      in if length (rsQueue s3) < queueCap then addPending (- 1) (s3\<lparr>rsQueue := rsQueue s3 @ [p]\<rparr>) else s3)"

definition CancelTask :: "int \<Rightarrow> RefreshScheduler \<Rightarrow> RefreshScheduler \<times> bool" where
  "CancelTask dbID s =
     (case rsTasks s dbID of
        None \<Rightarrow> (s, False)
      | Some p \<Rightarrow>
          if rtState (rsMem s p) = RefreshStatePending \<or> rtState (rsMem s p) = RefreshStateRetrying
          then let s1 = removeFromQueue p (updTask p (\<lambda>t. t\<lparr>rtState := RefreshStateSuccess\<rparr>) s)
               in (s1\<lparr>rsTasks := (rsTasks s1)(dbID := None)\<rparr>, True)
          else (s, False))"

definition GetTaskStatus :: "int \<Rightarrow> RefreshScheduler \<Rightarrow> RefreshState \<times> int \<times> string option" where
  "GetTaskStatus dbID s =
     (case rsTasks s dbID of
        None \<Rightarrow> (RefreshStateSuccess, 0, None)
      | Some p \<Rightarrow> (rtState (rsMem s p), rtAttempts (rsMem s p), rtLastError (rsMem s p)))"

text \<open>The accounts of the first batch are scheduled at once; for the others the function returns the
  timers that it starts, with their delays.\<close>

definition batchDelay :: "RefreshConfig \<Rightarrow> nat \<Rightarrow> duration" where
  "batchDelay c i = (int i sdiv (if cfBatchSize c \<le> 0 then 5 else cfBatchSize c)) * cfMinInterval c"

definition ScheduleBatch ::
  "time \<Rightarrow> (nat \<Rightarrow> float64 \<times> float64) \<Rightarrow> (nat \<times> Account) list \<Rightarrow> RefreshScheduler \<Rightarrow>
   RefreshScheduler \<times> (duration \<times> nat \<times> Account) list" where
  "ScheduleBatch now r accs s =
     fold (\<lambda>(i, a, acc) (s, timers).
         if batchDelay (rsConfig s) i > 0 then (s, timers @ [(batchDelay (rsConfig s) i, a, acc)])
         else (Schedule now (r i) a acc s, timers))
       (enumerate 0 accs) (s, [])"

subsection \<open>Metrics\<close>

record RefreshMetricsSnapshot =
  msTotalTasks :: int
  msPendingTasks :: int
  msRunningTasks :: int
  msSuccessCount :: int
  msFailedCount :: int
  msRetryCount :: int
  msAvgDurationMs :: int
  msLastRefreshAt :: time
  msQueueSize :: nat

definition GetMetrics :: "RefreshScheduler \<Rightarrow> RefreshMetricsSnapshot" where
  "GetMetrics s =
     (let m = rsMetrics s
      in \<lparr>msTotalTasks = TotalTasks m, msPendingTasks = PendingTasks m, msRunningTasks = RunningTasks m,
          msSuccessCount = SuccessCount m, msFailedCount = FailedCount m, msRetryCount = RetryCount m,
          msAvgDurationMs = AvgDurationMs m, msLastRefreshAt = LastRefreshAt m * Second, msQueueSize = length (rsQueue s)\<rparr>)"

subsection \<open>The priority queue is a heap\<close>

type_synonym taskKey = "int \<times> time \<times> taskptr"

definition keyOf :: "(taskptr \<Rightarrow> RefreshTask) \<Rightarrow> taskptr \<Rightarrow> taskKey" where
  "keyOf m p = (rtPriority (m p), rtScheduledAt (m p), p)"

definition keyLess :: "taskKey \<Rightarrow> taskKey \<Rightarrow> bool" where
  "keyLess x y \<longleftrightarrow> fst x > fst y \<or> fst x = fst y \<and> fst (snd x) < fst (snd y)"

definition pqItems :: "pqState \<Rightarrow> taskKey list" where
  "pqItems st = map (keyOf (fst st)) (snd st)"

text \<open>Every queued task knows its position, and the others know that they are not queued.\<close>

definition pqIndexed :: "pqState \<Rightarrow> bool" where
  "pqIndexed st \<longleftrightarrow>
     (\<forall>i < length (snd st). rtHeapIndex (fst st (snd st ! i)) = int i) \<and>
     (\<forall>p. p \<notin> set (snd st) \<longrightarrow> rtHeapIndex (fst st p) = - 1)"

definition sameTasks :: "(taskptr \<Rightarrow> RefreshTask) \<Rightarrow> (taskptr \<Rightarrow> RefreshTask) \<Rightarrow> bool" where
  "sameTasks m m' \<longleftrightarrow> (\<forall>p. m' p = (m p)\<lparr>rtHeapIndex := rtHeapIndex (m' p)\<rparr>)"

lemma sameTasks_refl [simp]: "sameTasks m m"
  by (simp add: sameTasks_def)

lemma sameTasks_trans: "sameTasks m m1 \<Longrightarrow> sameTasks m1 m2 \<Longrightarrow> sameTasks m m2"
  unfolding sameTasks_def by (metis RefreshTask.simps(10) RefreshTask.update_convs(9) RefreshTask.cases_scheme)

lemma sameTasks_setIndex: "sameTasks m m' \<Longrightarrow> sameTasks m (setIndex p i m')"
  unfolding sameTasks_def setIndex_def by (auto, metis RefreshTask.update_convs(9) RefreshTask.surjective)

lemma sameTasks_sel:
  assumes "sameTasks m m'"
  shows "rtPriority (m' p) = rtPriority (m p)" "rtScheduledAt (m' p) = rtScheduledAt (m p)" "rtState (m' p) = rtState (m p)"
    "rtAttempts (m' p) = rtAttempts (m p)" "rtDBID (m' p) = rtDBID (m p)" "rtAccount (m' p) = rtAccount (m p)"
    "rtLastError (m' p) = rtLastError (m p)" "rtNextRetryAt (m' p) = rtNextRetryAt (m p)"
proof -
  have "m' p = (m p)\<lparr>rtHeapIndex := rtHeapIndex (m' p)\<rparr>" using assms by (simp add: sameTasks_def)
  then obtain x where x: "m' p = (m p)\<lparr>rtHeapIndex := x\<rparr>" by blast
  show "rtPriority (m' p) = rtPriority (m p)" "rtScheduledAt (m' p) = rtScheduledAt (m p)" "rtState (m' p) = rtState (m p)"
    "rtAttempts (m' p) = rtAttempts (m p)" "rtDBID (m' p) = rtDBID (m p)" "rtAccount (m' p) = rtAccount (m p)"
    "rtLastError (m' p) = rtLastError (m p)" "rtNextRetryAt (m' p) = rtNextRetryAt (m p)"
    unfolding x by simp_all
qed

lemma keyOf_setIndex [simp]: "keyOf (setIndex p i m) = keyOf m"
  by (rule ext) (simp add: keyOf_def setIndex_def)

lemma setIndex_index: "rtHeapIndex (setIndex p i m r) = (if r = p then i else rtHeapIndex (m r))"
  by (simp add: setIndex_def)

lemma pqIndexed_distinct: "pqIndexed st \<Longrightarrow> distinct (snd st)"
  unfolding pqIndexed_def distinct_conv_nth by (metis of_nat_eq_iff)

lemma pqSwap_queue [simp]: "snd (pqSwap i j st) = (snd st)[i := snd st ! j, j := snd st ! i]"
  by (simp add: pqSwap_def Let_def)

lemma length_pqItems [simp]: "length (pqItems st) = length (snd st)"
  by (simp add: pqItems_def)

lemma pqSwap_items:
  "i < length (pqItems st) \<Longrightarrow> j < length (pqItems st) \<Longrightarrow> pqItems (pqSwap i j st) = (pqItems st)[i := pqItems st ! j, j := pqItems st ! i]"
  by (simp add: pqItems_def pqSwap_def Let_def map_update)

lemma pqSwap_indexed:
  assumes ix: "pqIndexed st" and ij: "i < length (snd st)" "j < length (snd st)"
  shows "pqIndexed (pqSwap i j st)"
proof -
  let ?q = "snd st" let ?q' = "?q[i := ?q ! j, j := ?q ! i]"
  have d: "distinct ?q" by (rule pqIndexed_distinct [OF ix])
  have qi: "?q' ! i = ?q ! j" "?q' ! j = ?q ! i" using ij by (auto simp: nth_list_update)
  have set: "set ?q' = set ?q" using ij by (metis mset_swap set_mset_mset list_update_swap nth_list_update_eq list_update_id)
  have mem: "fst (pqSwap i j st) = setIndex (?q ! i) (int j) (setIndex (?q ! j) (int i) (fst st))"
    by (simp add: pqSwap_def Let_def qi)
  have "rtHeapIndex (fst (pqSwap i j st) (?q' ! k)) = int k" if k: "k < length ?q" for k
  proof -
    consider "k = j" | "k = i" "k \<noteq> j" | "k \<noteq> i" "k \<noteq> j" by blast
    then show ?thesis
    proof cases
      case 3
      then have "?q' ! k = ?q ! k" "?q ! k \<noteq> ?q ! i" "?q ! k \<noteq> ?q ! j" using k ij d by (auto simp: nth_eq_iff_index_eq)
      then show ?thesis using ix k by (simp add: mem setIndex_index pqIndexed_def)
    qed (use qi ij d in \<open>auto simp: mem setIndex_index nth_eq_iff_index_eq\<close>)
  qed
  moreover have "rtHeapIndex (fst (pqSwap i j st) p) = - 1" if "p \<notin> set ?q" for p
    using that ix ij by (auto simp: mem setIndex_index pqIndexed_def)
  ultimately show ?thesis using set by (simp add: pqIndexed_def)
qed

lemma pqSwap_same: "sameTasks m (fst st) \<Longrightarrow> sameTasks m (fst (pqSwap i j st))"
  by (simp add: pqSwap_def Let_def sameTasks_setIndex)

interpretation key_order: go_less keyLess
  by unfold_locales (auto simp: keyLess_def)

lemma pqLess_items:
  "i < length (pqItems st) \<Longrightarrow> j < length (pqItems st) \<Longrightarrow> pqLess st i j = keyLess (pqItems st ! i) (pqItems st ! j)"
  by (auto simp: pqLess_def pqItems_def keyLess_def keyOf_def Let_def)

interpretation task_heap: heap_interface keyLess pqLess pqSwap pqItems "\<lambda>st. pqIndexed st \<and> sameTasks m (fst st)" for m
  by unfold_locales
    (simp_all add: pqLess_items pqSwap_items key_order.exchanged_def pqSwap_same pqSwap_indexed)

text \<open>A queue in order: a heap in which every task knows its position.\<close>

definition pq_ok :: "pqState \<Rightarrow> bool" where
  "pq_ok st \<longleftrightarrow> pqIndexed st \<and> key_order.heap_ordered (pqItems st) (length (snd st))"

lemma pointers_of_items: "mset (snd st) = image_mset (\<lambda>x. snd (snd x)) (mset (pqItems st))"
  by (simp add: pqItems_def keyOf_def image_mset.compositionality comp_def)

text \<open>What the operations of the package do to the queue and to the tasks.\<close>

lemma rearranged_pq:
  assumes "task_heap.rearranged (fst st) n st st'" "pqIndexed st"
  shows "pqIndexed st' \<and> sameTasks (fst st) (fst st') \<and> mset (snd st') = mset (snd st) \<and> length (snd st') = length (snd st)"
proof -
  have "mset (pqItems st') = mset (pqItems st)" using assms(1) by (simp add: task_heap.rearranged_def)
  then have "mset (snd st') = mset (snd st)" by (simp add: pointers_of_items)
  moreover from this have "length (snd st') = length (snd st)" by (metis size_mset)
  ultimately show ?thesis using assms by (simp add: task_heap.rearranged_def)
qed

lemma pqPush_indexed:
  assumes "pqIndexed st" "p \<notin> set (snd st)"
  shows "pqIndexed (pqPush p st)"
proof -
  have "(snd st @ [p]) ! i = p \<longleftrightarrow> i = length (snd st)" if "i < Suc (length (snd st))" for i
    using assms(2) that by (auto simp: nth_append less_Suc_eq)
  then show ?thesis using assms by (auto simp: pqIndexed_def pqPush_def setIndex_index nth_append less_Suc_eq)
qed

lemma heap_Push_ok:
  assumes ok: "pq_ok st" and p: "p \<notin> set (snd st)"
  shows "pq_ok (heap_Push p st) \<and> sameTasks (fst st) (fst (heap_Push p st)) \<and> mset (snd (heap_Push p st)) = add_mset p (mset (snd st))"
proof -
  let ?st = "pqPush p st" and ?n = "Suc (length (snd st))"
  have ix: "pqIndexed ?st" using ok p by (simp add: pq_ok_def pqPush_indexed)
  have items: "pqItems ?st = pqItems st @ [keyOf (fst st) p]" by (simp add: pqItems_def pqPush_def)
  have br: "key_order.broken_above (pqItems ?st) ?n (length (snd st))"
    using key_order.heap_append [of "pqItems st"] ok by (simp add: pq_ok_def items)
  have len: "length (snd ?st) = ?n" by (simp add: pqPush_def)
  have up: "key_order.heap_ordered (pqItems (heap_Push p st)) ?n" "task_heap.rearranged (fst ?st) ?n ?st (heap_Push p st)"
    using task_heap.heapUp_correct [where m = "fst ?st", OF br] len by (simp_all add: heap_Push_def Let_def)
  have re: "pqIndexed (heap_Push p st)" "sameTasks (fst ?st) (fst (heap_Push p st))" "mset (snd (heap_Push p st)) = mset (snd ?st)"
    "length (snd (heap_Push p st)) = length (snd ?st)" using rearranged_pq [OF up(2) ix] by blast+
  have "sameTasks (fst st) (fst ?st)" by (simp add: pqPush_def sameTasks_setIndex)
  then show ?thesis using up(1) re len sameTasks_trans by (auto simp: pq_ok_def pqPush_def)
qed

lemma heap_Fix_ok:
  assumes ix: "pqIndexed st" and br: "key_order.broken_at (pqItems st) (length (snd st)) i" and i: "i < length (snd st)"
  shows "pq_ok (heap_Fix i st) \<and> sameTasks (fst st) (fst (heap_Fix i st)) \<and> mset (snd (heap_Fix i st)) = mset (snd st)"
proof -
  have rep: "key_order.heap_ordered (pqItems (heap_Fix i st)) (length (snd st))"
    "task_heap.rearranged (fst st) (length (snd st)) st (heap_Fix i st)"
    using task_heap.heapRepair_correct [where m = "fst st", OF br i] by (simp_all add: heap_Fix_def)
  show ?thesis using rearranged_pq [OF rep(2) ix] rep(1) by (simp add: pq_ok_def)
qed

text \<open>Taking the last position off.\<close>

lemma pqPop_ok:
  assumes ix: "pqIndexed st" and hp: "key_order.heap_ordered (pqItems st) (length (snd st) - 1)" and ne: "snd st \<noteq> []"
  shows "pq_ok (fst (pqPop st)) \<and> snd (pqPop st) = last (snd st) \<and> sameTasks (fst st) (fst (fst (pqPop st))) \<and>
    snd (fst (pqPop st)) = butlast (snd st)"
proof -
  let ?x = "last (snd st)"
  have q: "snd st = butlast (snd st) @ [?x]" using ne by simp
  have out: "?x \<notin> set (butlast (snd st))" using pqIndexed_distinct [OF ix] q by (metis distinct_append distinct.simps(2) disjoint_insert(1) list.simps(15) not_distinct_conv_prefix)
  have m: "set (snd st) = insert ?x (set (butlast (snd st)))" using q by (metis set_append list.set(1,2) Un_insert_right sup_bot_right)
  have "rtHeapIndex (setIndex ?x (- 1) (fst st) (butlast (snd st) ! i)) = int i" if "i < length (snd st) - 1" for i
  proof -
    have "butlast (snd st) ! i = snd st ! i" using that by (simp add: nth_butlast)
    moreover have "butlast (snd st) ! i \<noteq> ?x" using out that by (metis length_butlast nth_mem)
    ultimately show ?thesis using ix that by (simp add: setIndex_index pqIndexed_def)
  qed
  then have "pqIndexed (fst (pqPop st))"
    using ix m by (auto simp: pqIndexed_def pqPop_def Let_def setIndex_index)
  moreover have "pqItems (fst (pqPop st)) = butlast (pqItems st)" by (simp add: pqItems_def pqPop_def Let_def map_butlast)
  moreover have "key_order.heap_ordered (butlast (pqItems st)) (length (snd st) - 1)"
    using key_order.heap_cong(1) [of "length (snd st) - 1" "butlast (pqItems st)" "pqItems st"] hp by (simp add: nth_butlast)
  ultimately show ?thesis by (simp add: pq_ok_def pqPop_def Let_def sameTasks_setIndex)
qed

lemma pq_delete:
  assumes ok: "pq_ok st" and i: "i < length (snd st)"
  defines "n \<equiv> length (snd st) - 1"
  assumes h: "key_order.heap_ordered (pqItems st') n" "task_heap.rearranged (fst (pqSwap i n st)) n (pqSwap i n st) st'"
  shows "pq_ok (fst (pqPop st')) \<and> snd (pqPop st') = snd st ! i \<and> sameTasks (fst st) (fst (fst (pqPop st'))) \<and>
    mset (snd (fst (pqPop st'))) = mset (snd st) - {#snd st ! i#}"
proof -
  let ?sw = "pqSwap i n st"
  have n: "n < length (snd st)" "length (snd st) = Suc n" using i by (simp_all add: n_def)
  have ix: "pqIndexed ?sw" using ok i n by (simp add: pq_ok_def pqSwap_indexed)
  note re = rearranged_pq [OF h(2) ix]
  have sw: "mset (snd ?sw) = mset (snd st)" using i n mset_swap [of i "snd st" n] by (simp add: list_update_swap) (metis list_update_swap mset_swap)
  have len: "length (snd st') = Suc n" using re n by simp
  then have ne: "snd st' \<noteq> []" by auto
  have drop: "drop n (pqItems st') = drop n (pqItems ?sw)" using h(2) by (simp add: task_heap.rearranged_def)
  have "pqItems st' ! n = pqItems ?sw ! n"
    using drop len n by (metis Cons_nth_drop_Suc length_pqItems length_list_update lessI list.inject pqSwap_queue)
  then have last: "snd st' ! n = snd st ! i"
    using len n i by (simp add: pqItems_def keyOf_def nth_list_update)
  then have l: "last (snd st') = snd st ! i" using ne len by (simp add: last_conv_nth)
  have hp: "key_order.heap_ordered (pqItems st') (length (snd st') - 1)" using h(1) len by simp
  note pop = pqPop_ok [OF conjunct1 [OF re] hp ne]
  have "mset (butlast (snd st')) = mset (snd st) - {#snd st ! i#}"
    using arg_cong [OF append_butlast_last_id [OF ne], of mset] l re sw by simp (metis add_mset_remove_trivial)
  moreover have "sameTasks (fst st) (fst ?sw)" by (simp add: pqSwap_same)
  ultimately show ?thesis using pop l re sameTasks_trans by metis
qed

lemma swap_broken:
  assumes ok: "pq_ok st" and n: "length (snd st) = Suc n" and i: "i < n"
  shows "key_order.broken_at (pqItems (pqSwap i n st)) n i"
proof -
  let ?xs = "pqItems st"
  have "key_order.broken_at (?xs[i := ?xs ! n]) n i"
    by (rule key_order.heap_update) (use ok n in \<open>auto simp: pq_ok_def intro: key_order.heap_prefix\<close>)
  moreover have "pqItems (pqSwap i n st) ! k = ?xs[i := ?xs ! n] ! k" if "k < n" for k
    using that i n by (simp add: pqSwap_items nth_list_update)
  ultimately show ?thesis using key_order.heap_cong(2) by metis
qed

lemma heap_Pop_ok:
  assumes ok: "pq_ok st" and ne: "snd st \<noteq> []"
  shows "pq_ok (fst (heap_Pop st)) \<and> snd (heap_Pop st) = hd (snd st) \<and> sameTasks (fst st) (fst (fst (heap_Pop st))) \<and>
    mset (snd (fst (heap_Pop st))) = mset (snd st) - {#hd (snd st)#}"
proof -
  define n where "n = length (snd st) - 1"
  have n: "length (snd st) = Suc n" using ne by (simp add: n_def)
  let ?sw = "pqSwap 0 n st"
  obtain st' i' where d: "heapDown pqLess pqSwap 0 n ?sw = (st', i')" by (meson surj_pair)
  have pop: "heap_Pop st = pqPop st'" using d by (simp add: heap_Pop_def Let_def n_def)
  have "key_order.heap_ordered (pqItems st') n \<and> task_heap.rearranged (fst ?sw) n ?sw st'"
  proof (cases "n = 0")
    case True
    then have "st' = ?sw" using d by (subst (asm) heapDown.simps) simp
    then show ?thesis using True by (simp add: key_order.heap_ordered_def)
  next
    case False
    have "n \<le> length (pqItems ?sw)" using n by simp
    note down = task_heap.heapDown_correct [where m = "fst ?sw", OF swap_broken [OF ok n] _ this d]
    show ?thesis
    proof (cases "0 < i'")
      case True
      then show ?thesis using down False by simp
    next
      case f: False
      then have "st' = ?sw" "key_order.broken_above (pqItems ?sw) n 0" using down False by auto
      then show ?thesis using key_order.up_stop by auto
    qed
  qed
  then show ?thesis using pq_delete [OF ok, of 0 st'] n ne pop by (simp add: hd_conv_nth)
qed

lemma heap_Remove_ok:
  assumes ok: "pq_ok st" and i: "i < length (snd st)"
  shows "pq_ok (fst (heap_Remove i st)) \<and> snd (heap_Remove i st) = snd st ! i \<and> sameTasks (fst st) (fst (fst (heap_Remove i st))) \<and>
    mset (snd (fst (heap_Remove i st))) = mset (snd st) - {#snd st ! i#}"
proof -
  define n where "n = length (snd st) - 1"
  have n: "length (snd st) = Suc n" using i by (simp add: n_def)
  show ?thesis
  proof (cases "n = i")
    case True
    have q: "snd st ! i = last (snd st)" using True n by (metis last_conv_nth diff_Suc_1 length_0_conv nat.distinct(1))
    have ne: "snd st \<noteq> []" using n by auto
    have "key_order.heap_ordered (pqItems st) (length (snd st) - 1)"
      using ok by (auto simp: pq_ok_def intro: key_order.heap_prefix)
    note pop = pqPop_ok [OF conjunct1 [OF ok [unfolded pq_ok_def]] this ne]
    have "mset (butlast (snd st)) = mset (snd st) - {#last (snd st)#}"
      using arg_cong [OF append_butlast_last_id [OF ne], of mset] by simp (metis add_mset_remove_trivial)
    moreover have "heap_Remove i st = pqPop st" using True by (simp add: heap_Remove_def Let_def n_def)
    ultimately show ?thesis using pop q by simp
  next
    case False
    then have i': "i < n" using i n by simp
    have "n \<le> length (pqItems (pqSwap i n st))" using n by simp
    note rep = task_heap.heapRepair_correct [where m = "fst (pqSwap i n st)", OF swap_broken [OF ok n i'] i' this]
    have "heap_Remove i st = pqPop (heapRepair pqLess pqSwap i n (pqSwap i n st))"
      using False by (simp add: heap_Remove_def Let_def n_def)
    then show ?thesis using pq_delete [OF ok i, of "heapRepair pqLess pqSwap i n (pqSwap i n st)"] rep n by simp
  qed
qed

lemma heapDown_length: "length (snd (fst (heapDown pqLess pqSwap i n st))) = length (snd st)"
proof (induction "n - i" arbitrary: i st rule: less_induct)
  case less
  show ?case by (subst heapDown.simps) (auto simp: Let_def less)
qed

lemma heap_Pop_length: "length (snd (fst (heap_Pop st))) = length (snd st) - 1"
  by (simp add: heap_Pop_def Let_def pqPop_def heapDown_length)

subsection \<open>The loops\<close>

definition shouldBatch :: "time \<Rightarrow> RefreshScheduler \<Rightarrow> bool" where
  "shouldBatch now s \<longleftrightarrow> time_Sub now (rsLastBatch s) < cfMinInterval (rsConfig s)"

text \<open>One run of \<open>processScheduledTasks\<close>: it ends because every pass takes a task off the queue, and a pass
  that puts it back is the last.\<close>

lemma popFromQueue_shorter:
  "rsPQ s \<noteq> [] \<Longrightarrow> length (rsPQ (fst (popFromQueue s))) < length (rsPQ s)"
  by (simp add: popFromQueue_def withPQ_def Let_def heap_Pop_length)

lemma addPending_sel [simp]:
  "rsPQ (addPending n s) = rsPQ s" "rsMem (addPending n s) = rsMem s" "rsNext (addPending n s) = rsNext s"
  "rsTasks (addPending n s) = rsTasks s" "rsQueue (addPending n s) = rsQueue s" "rsInHand (addPending n s) = rsInHand s"
  "rsRunning (addPending n s) = rsRunning s" "rsConfig (addPending n s) = rsConfig s"
  by (simp_all add: addPending_def updMetrics_def)

lemma peek_pop_shorter:
  assumes "peekQueue s = Some p"
  shows "length (rsPQ (fst (popFromQueue s))) < length (rsPQ s)"
    and "(s1, x) = popFromQueue s \<Longrightarrow> length (rsPQ s1) < length (rsPQ s)"
proof -
  have "rsPQ s \<noteq> []" using assms by (auto simp: peekQueue_def split: list.splits)
  then show "length (rsPQ (fst (popFromQueue s))) < length (rsPQ s)" by (rule popFromQueue_shorter)
  then show "(s1, x) = popFromQueue s \<Longrightarrow> length (rsPQ s1) < length (rsPQ s)" by (metis fst_conv)
qed

function processScheduledTasks :: "time \<Rightarrow> RefreshScheduler \<Rightarrow> RefreshScheduler" where
  "processScheduledTasks now s =
     (case peekQueue s of
        None \<Rightarrow> s
      | Some task \<Rightarrow>
          if rtScheduledAt (rsMem s task) > now then s
          else if rtState (rsMem s task) \<noteq> RefreshStatePending then processScheduledTasks now (fst (popFromQueue s))
          else
            case popFromQueue s of
              (s1, None) \<Rightarrow> s1
            | (s1, Some p) \<Rightarrow>
                (let s2 = (if cfEnableBatchOptimize (rsConfig s1) \<and> shouldBatch now s1 then s1\<lparr>rsLastBatch := now\<rparr> else s1)
                 in if length (rsQueue s2) < queueCap
                    then processScheduledTasks now (addPending (- 1) (s2\<lparr>rsQueue := rsQueue s2 @ [p]\<rparr>))
                    else pushToQueue p s2))"
  by pat_completeness auto

termination
  by (relation "measure (\<lambda>(now, s). length (rsPQ s))") (simp_all add: peek_pop_shorter)

declare processScheduledTasks.simps [simp del]

subsection \<open>Execution\<close>

text \<open>The execution loop takes a task off the queue and holds it until a slot of the semaphore is free;
  then a worker runs it.\<close>

definition takeTask :: "RefreshScheduler \<Rightarrow> RefreshScheduler option" where
  "takeTask s =
     (case (rsInHand s, rsQueue s) of
        (None, p # q) \<Rightarrow> Some (s\<lparr>rsQueue := q, rsInHand := Some p\<rparr>)
      | _ \<Rightarrow> None)"

definition startTask :: "RefreshScheduler \<Rightarrow> RefreshScheduler option" where
  "startTask s =
     (case rsInHand s of
        None \<Rightarrow> None
      | Some p \<Rightarrow>
          if int (length (rsRunning s)) < cfMaxConcurrency (rsConfig s)
          then Some (updTask p (\<lambda>t. t\<lparr>rtState := RefreshStateRunning\<rparr>)
                 (updMetrics (\<lambda>m. m\<lparr>RunningTasks := RunningTasks m + 1\<rparr>)
                   (s\<lparr>rsInHand := None, rsRunning := rsRunning s @ [p]\<rparr>)))
          else None)"

text \<open>The task after its refresh ended with \<open>err\<close>.\<close>

definition finishedTask :: "RefreshConfig \<Rightarrow> time \<Rightarrow> float64 \<Rightarrow> string option \<Rightarrow> RefreshTask \<Rightarrow> RefreshTask" where
  "finishedTask c now r err t =
     (case err of
        None \<Rightarrow> t\<lparr>rtState := RefreshStateSuccess\<rparr>
      | Some e \<Rightarrow>
          let t1 = t\<lparr>rtState := RefreshStateFailed, rtLastError := Some e, rtAttempts := rtAttempts t + 1\<rparr>
          in if rtAttempts t1 < cfRetryMaxAttempts c \<and> \<not> isNonRetryable e
             then t1\<lparr>rtState := RefreshStateRetrying, rtNextRetryAt := calculateRetryTime c now r (rtAttempts t1)\<rparr>
             else t1)"

definition finishTask :: "time \<Rightarrow> float64 \<Rightarrow> duration \<Rightarrow> string option \<Rightarrow> taskptr \<Rightarrow> RefreshScheduler \<Rightarrow> RefreshScheduler" where
  "finishTask now r d err p s =
     (let s1 = updMetrics (\<lambda>m. (updateAvgDuration d m)\<lparr>RunningTasks := RunningTasks m - 1, LastRefreshAt := now div Second,
                 SuccessCount := SuccessCount m + (if err = None then 1 else 0),
                 FailedCount := FailedCount m + (if err = None then 0 else 1)\<rparr>) s;
          s2 = updTask p (finishedTask (rsConfig s) now r err) (s1\<lparr>rsRunning := remove1 p (rsRunning s1)\<rparr>);
          t = rsMem s2 p
      in if rtState t = RefreshStateSuccess \<or> rtState t = RefreshStateFailed \<and> rtAttempts t \<ge> cfRetryMaxAttempts (rsConfig s)
         then s2\<lparr>rsTasks := (rsTasks s2)(rtDBID t := None)\<rparr> else s2)"

text \<open>\<open>order\<close> is the order in which the iteration over the map visits its keys.\<close>

definition retryOne :: "time \<Rightarrow> taskptr \<Rightarrow> RefreshScheduler \<Rightarrow> RefreshScheduler" where
  "retryOne now p s =
     pushToQueue p (updMetrics (\<lambda>m. m\<lparr>RetryCount := RetryCount m + 1, PendingTasks := PendingTasks m + 1\<rparr>)
       (updTask p (\<lambda>t. t\<lparr>rtState := RefreshStatePending, rtScheduledAt := now\<rparr>) s))"

definition processRetries :: "time \<Rightarrow> int list \<Rightarrow> RefreshScheduler \<Rightarrow> RefreshScheduler" where
  "processRetries now order s =
     fold (retryOne now)
       (filter (\<lambda>p. rtState (rsMem s p) = RefreshStateRetrying \<and> rtNextRetryAt (rsMem s p) < now)
         (List.map_filter (rsTasks s) order)) s"

subsection \<open>The scheduler of the store\<close>

text \<open>The store has a scheduler or none; without one a refresh is started at once, which the second component
  of the result tells.\<close>

type_synonym storeScheduler = "RefreshScheduler option"

definition EnableRefreshScheduler :: "time \<Rightarrow> RefreshConfig \<Rightarrow> storeScheduler" where
  "EnableRefreshScheduler now c = Some (NewRefreshScheduler now (completedConfig c))"

definition DisableRefreshScheduler :: "storeScheduler \<Rightarrow> storeScheduler" where
  "DisableRefreshScheduler x = (case x of Some s \<Rightarrow> None | None \<Rightarrow> x)"

definition RefreshSchedulerEnabled :: "storeScheduler \<Rightarrow> bool" where
  "RefreshSchedulerEnabled x \<longleftrightarrow> x \<noteq> None"

definition ScheduleAccountRefresh :: "time \<Rightarrow> float64 \<times> float64 \<Rightarrow> nat \<Rightarrow> Account \<Rightarrow> storeScheduler \<Rightarrow> storeScheduler \<times> bool" where
  "ScheduleAccountRefresh now r a acc x =
     (case x of Some s \<Rightarrow> (Some (Schedule now r a acc s), False) | None \<Rightarrow> (x, True))"

definition ScheduleImmediateRefresh :: "time \<Rightarrow> float64 \<times> float64 \<Rightarrow> nat \<Rightarrow> Account \<Rightarrow> storeScheduler \<Rightarrow> storeScheduler \<times> bool" where
  "ScheduleImmediateRefresh now r a acc x =
     (case x of Some s \<Rightarrow> (Some (ScheduleImmediate now a acc s), False) | None \<Rightarrow> ScheduleAccountRefresh now r a acc x)"

definition GetRefreshMetrics :: "storeScheduler \<Rightarrow> RefreshMetricsSnapshot" where
  "GetRefreshMetrics x =
     (case x of
        Some s \<Rightarrow> GetMetrics s
      | None \<Rightarrow> \<lparr>msTotalTasks = 0, msPendingTasks = 0, msRunningTasks = 0, msSuccessCount = 0, msFailedCount = 0, msRetryCount = 0,
                 msAvgDurationMs = 0, msLastRefreshAt = 0, msQueueSize = 0\<rparr>)"

definition GetRefreshTaskStatus :: "int \<Rightarrow> storeScheduler \<Rightarrow> RefreshState \<times> int \<times> string option" where
  "GetRefreshTaskStatus dbID x = (case x of Some s \<Rightarrow> GetTaskStatus dbID s | None \<Rightarrow> (RefreshStateSuccess, 0, None))"

definition CancelRefreshTask :: "int \<Rightarrow> storeScheduler \<Rightarrow> storeScheduler \<times> bool" where
  "CancelRefreshTask dbID x =
     (case x of Some s \<Rightarrow> (let (s', ok) = CancelTask dbID s in (Some s', ok)) | None \<Rightarrow> (x, False))"

end
