(* ===== verification/RefreshInvariant.thy ===== *)
theory RefreshInvariant
  imports RefreshScheduler
begin

section \<open>Properties of the refresh scheduler\<close>

text \<open>
  The invariant \<open>rs_ok\<close> of the refresh scheduler and that every operation keeps it: the priority queue is
  a heap in which tasks know their positions, the map by account is right, the workers are counted and
  bounded, and only tasks with attempts left wait for a retry. Then what the processing of due tasks
  achieves, the priorities and retry times, and the behaviours in which the code differs from its
  intention.
\<close>

definition tasks_ok :: "RefreshScheduler \<Rightarrow> bool" where
  "tasks_ok s \<longleftrightarrow>
     (\<forall>d p. rsTasks s d = Some p \<longrightarrow> p < rsNext s \<and> rtDBID (rsMem s p) = d) \<and>
     (\<forall>p. rtState (rsMem s p) = RefreshStateRetrying \<longrightarrow>
        1 \<le> rtAttempts (rsMem s p) \<and> rtAttempts (rsMem s p) < cfRetryMaxAttempts (rsConfig s)) \<and>
     (\<forall>p. 0 \<le> rtAttempts (rsMem s p))"

definition placed_ok :: "RefreshScheduler \<Rightarrow> bool" where
  "placed_ok s \<longleftrightarrow>
     set (rsPQ s) \<subseteq> {..<rsNext s} \<and> set (rsQueue s) \<subseteq> {..<rsNext s} \<and> set (rsRunning s) \<subseteq> {..<rsNext s} \<and>
     (\<forall>p. rsInHand s = Some p \<longrightarrow> p < rsNext s)"

definition workers_ok :: "RefreshScheduler \<Rightarrow> bool" where
  "workers_ok s \<longleftrightarrow>
     length (rsQueue s) \<le> queueCap \<and> int (length (rsRunning s)) \<le> cfMaxConcurrency (rsConfig s) \<and>
     RunningTasks (rsMetrics s) = int (length (rsRunning s))"

definition rs_ok :: "RefreshScheduler \<Rightarrow> bool" where
  "rs_ok s \<longleftrightarrow> pq_ok (rsMem s, rsPQ s) \<and> tasks_ok s \<and> placed_ok s \<and> workers_ok s"

lemma tasks_ok_same:
  "tasks_ok s \<Longrightarrow> sameTasks (rsMem s) (rsMem s') \<Longrightarrow> rsTasks s' = rsTasks s \<Longrightarrow> rsNext s' = rsNext s \<Longrightarrow> rsConfig s' = rsConfig s \<Longrightarrow>
   tasks_ok s'"
  by (simp add: tasks_ok_def sameTasks_sel)

subsection \<open>The queue operations of the scheduler\<close>

lemma withPQ_sel [simp]:
  "rsMem (withPQ f s) = fst (f (rsMem s, rsPQ s))" "rsPQ (withPQ f s) = snd (f (rsMem s, rsPQ s))"
  "rsConfig (withPQ f s) = rsConfig s" "rsNext (withPQ f s) = rsNext s" "rsTasks (withPQ f s) = rsTasks s"
  "rsQueue (withPQ f s) = rsQueue s" "rsInHand (withPQ f s) = rsInHand s" "rsRunning (withPQ f s) = rsRunning s"
  "rsMetrics (withPQ f s) = rsMetrics s" "rsLastBatch (withPQ f s) = rsLastBatch s"
  by (simp_all add: withPQ_def Let_def)

lemma updTask_sel [simp]:
  "rsMem (updTask p f s) = (rsMem s)(p := f (rsMem s p))" "rsPQ (updTask p f s) = rsPQ s"
  "rsConfig (updTask p f s) = rsConfig s" "rsNext (updTask p f s) = rsNext s" "rsTasks (updTask p f s) = rsTasks s"
  "rsQueue (updTask p f s) = rsQueue s" "rsInHand (updTask p f s) = rsInHand s" "rsRunning (updTask p f s) = rsRunning s"
  "rsMetrics (updTask p f s) = rsMetrics s" "rsLastBatch (updTask p f s) = rsLastBatch s"
  by (simp_all add: updTask_def)

lemma updMetrics_sel [simp]:
  "rsMem (updMetrics f s) = rsMem s" "rsPQ (updMetrics f s) = rsPQ s"
  "rsConfig (updMetrics f s) = rsConfig s" "rsNext (updMetrics f s) = rsNext s" "rsTasks (updMetrics f s) = rsTasks s"
  "rsQueue (updMetrics f s) = rsQueue s" "rsInHand (updMetrics f s) = rsInHand s" "rsRunning (updMetrics f s) = rsRunning s"
  "rsMetrics (updMetrics f s) = f (rsMetrics s)" "rsLastBatch (updMetrics f s) = rsLastBatch s"
  by (simp_all add: updMetrics_def)

lemma updMetrics_id [simp]: "updMetrics (\<lambda>m. m) s = s"
  by (simp add: updMetrics_def)

lemma addPending_running [simp]:
  "RunningTasks (rsMetrics (addPending n s)) = RunningTasks (rsMetrics s)"
  "PendingTasks (rsMetrics (addPending n s)) = PendingTasks (rsMetrics s) + n"
  "rsLastBatch (addPending n s) = rsLastBatch s"
  by (simp_all add: addPending_def)

definition untouched :: "RefreshScheduler \<Rightarrow> RefreshScheduler \<Rightarrow> bool" where
  "untouched s s' \<longleftrightarrow> rsConfig s' = rsConfig s \<and> rsNext s' = rsNext s \<and> rsTasks s' = rsTasks s \<and> rsQueue s' = rsQueue s \<and>
     rsInHand s' = rsInHand s \<and> rsRunning s' = rsRunning s \<and> rsMetrics s' = rsMetrics s \<and> rsLastBatch s' = rsLastBatch s"

lemma queued_index:
  assumes "pqIndexed (m, q)"
  shows "0 \<le> rtHeapIndex (m p) \<and> rtHeapIndex (m p) < int (length q) \<longleftrightarrow> p \<in> set q"
    and "p \<in> set q \<Longrightarrow> nat (rtHeapIndex (m p)) < length q \<and> q ! nat (rtHeapIndex (m p)) = p"
proof -
  have at: "rtHeapIndex (m (q ! i)) = int i" if "i < length q" for i using assms that by (simp add: pqIndexed_def)
  have in_q: "nat (rtHeapIndex (m p)) < length q \<and> q ! nat (rtHeapIndex (m p)) = p" if p: "p \<in> set q" for p
  proof -
    obtain i where "i < length q" "q ! i = p" using p by (metis in_set_conv_nth)
    then show ?thesis using at by auto
  qed
  then show "p \<in> set q \<Longrightarrow> nat (rtHeapIndex (m p)) < length q \<and> q ! nat (rtHeapIndex (m p)) = p" .
  have "rtHeapIndex (m p) = - 1" if "p \<notin> set q" using assms that by (simp add: pqIndexed_def)
  moreover have "0 \<le> rtHeapIndex (m p) \<and> rtHeapIndex (m p) < int (length q)" if p: "p \<in> set q"
    using p at by (metis in_set_conv_nth of_nat_0_le_iff of_nat_less_iff)
  ultimately show "0 \<le> rtHeapIndex (m p) \<and> rtHeapIndex (m p) < int (length q) \<longleftrightarrow> p \<in> set q"
    by (cases "p \<in> set q") simp_all
qed

text \<open>Putting a task into the queue, also one that is queued and whose priority or time was changed.\<close>

lemma pushToQueue_ok:
  fixes p :: taskptr and s :: RefreshScheduler
  assumes ok: "pq_ok (m, rsPQ s)" and m: "rsMem s = m(p := t)" "rtHeapIndex t = rtHeapIndex (m p)"
  defines "s' \<equiv> pushToQueue p s"
  shows "pq_ok (rsMem s', rsPQ s') \<and> sameTasks (rsMem s) (rsMem s') \<and> set (rsPQ s') = insert p (set (rsPQ s)) \<and> untouched s s'"
proof -
  let ?q = "rsPQ s"
  have ix: "pqIndexed (m, ?q)" using ok by (simp add: pq_ok_def)
  have ix': "pqIndexed (rsMem s, ?q)" using ix m by (auto simp: pqIndexed_def)
  note q = queued_index [OF ix, of p]
  show ?thesis
  proof (cases "p \<in> set ?q")
    case True
    define i where "i = nat (rtHeapIndex (m p))"
    have i: "i < length ?q" "?q ! i = p" using q(2) [OF True] by (simp_all add: i_def)
    have d: "distinct ?q" using pqIndexed_distinct [OF ix] by simp
    have "pqItems (rsMem s, ?q) = (pqItems (m, ?q))[i := keyOf (rsMem s) p]"
      by (rule nth_equalityI) (use i d m(1) in \<open>auto simp: pqItems_def keyOf_def nth_list_update nth_eq_iff_index_eq\<close>)
    moreover have "key_order.broken_at ((pqItems (m, ?q))[i := keyOf (rsMem s) p]) (length ?q) i"
      using ok by (intro key_order.heap_update) (simp_all add: pq_ok_def)
    ultimately have br: "key_order.broken_at (pqItems (rsMem s, ?q)) (length (snd (rsMem s, ?q))) i" by simp
    have "rtHeapIndex (rsMem s p) = int i" using q(1) True m by (simp add: i_def)
    then have "s' = withPQ (heap_Fix i) s" using i by (simp add: s'_def pushToQueue_def)
    then show ?thesis
      using heap_Fix_ok [OF ix' br] i True
      by (simp add: untouched_def insert_absorb) (metis set_mset_mset snd_conv)
  next
    case False
    have none: "rtHeapIndex (m p) = - 1" using ix False by (simp add: pqIndexed_def)
    have same: "pqItems (rsMem s, ?q) = pqItems (m, ?q)" using False m(1) by (auto simp: pqItems_def keyOf_def)
    have "pq_ok (rsMem s, ?q)" using ix' ok same by (simp add: pq_ok_def)
    moreover have "updTask p (\<lambda>t. t\<lparr>rtHeapIndex := - 1\<rparr>) s = s"
    proof -
      have "(rsMem s p)\<lparr>rtHeapIndex := - 1\<rparr> = rsMem s p" using m none by simp
      then show ?thesis by (simp add: updTask_def fun_upd_idem)
    qed
    moreover have "\<not> (0 \<le> rtHeapIndex (rsMem s p) \<and> rtHeapIndex (rsMem s p) < int (length ?q))" using m none by simp
    ultimately have "s' = withPQ (heap_Push p) s" by (auto simp: s'_def pushToQueue_def Let_def)
    then show ?thesis
      using heap_Push_ok [OF \<open>pq_ok (rsMem s, ?q)\<close>, of p] False
      by (simp add: untouched_def) (metis set_mset_add_mset_insert set_mset_mset)
  qed
qed

lemma removeFromQueue_ok:
  fixes p :: taskptr and s :: RefreshScheduler
  assumes ok: "pq_ok (rsMem s, rsPQ s)"
  defines "s' \<equiv> removeFromQueue p s"
  shows "pq_ok (rsMem s', rsPQ s') \<and> sameTasks (rsMem s) (rsMem s') \<and> mset (rsPQ s') = mset (rsPQ s) - {#p#} \<and> untouched s s'"
proof -
  let ?q = "rsPQ s"
  have ix: "pqIndexed (rsMem s, ?q)" using ok by (simp add: pq_ok_def)
  note q = queued_index [OF ix, of p]
  show ?thesis
  proof (cases "p \<in> set ?q")
    case True
    then have "s' = withPQ (\<lambda>st. fst (heap_Remove (nat (rtHeapIndex (rsMem s p))) st)) s"
      using q(1) by (simp add: s'_def removeFromQueue_def)
    then show ?thesis using heap_Remove_ok [OF ok] q(2) [OF True] by (simp add: untouched_def)
  next
    case False
    then have "s' = s" using q(1) by (auto simp: s'_def removeFromQueue_def Let_def)
    then show ?thesis using ok False by (simp add: untouched_def diff_single_trivial)
  qed
qed

lemma popFromQueue_ok:
  assumes ok: "pq_ok (rsMem s, rsPQ s)" and q: "rsPQ s = p # ps"
  shows "\<exists>s'. popFromQueue s = (s', Some p) \<and> pq_ok (rsMem s', rsPQ s') \<and> sameTasks (rsMem s) (rsMem s') \<and>
    mset (rsPQ s') = mset ps \<and> untouched s s'"
  using heap_Pop_ok [OF ok] q by (simp add: popFromQueue_def untouched_def)

subsection \<open>Every operation keeps the invariant\<close>

lemmas rs_ok_parts = rs_ok_def tasks_ok_def placed_ok_def workers_ok_def untouched_def

text \<open>A change of a task that leaves its key and its index alone.\<close>

lemma pq_ok_updTask:
  assumes "pq_ok (m, q)" "rtPriority t = rtPriority (m p)" "rtScheduledAt t = rtScheduledAt (m p)" "rtHeapIndex t = rtHeapIndex (m p)"
  shows "pq_ok (m(p := t), q)"
proof -
  have "keyOf (m(p := t)) = keyOf m" using assms by (auto simp: keyOf_def)
  moreover have "pqIndexed (m(p := t), q)" using assms by (auto simp: pq_ok_def pqIndexed_def)
  ultimately show ?thesis using assms(1) by (simp add: pq_ok_def pqItems_def)
qed

lemma rs_ok_push:
  assumes "pq_ok (m, rsPQ s)" "rsMem s = m(p := t)" "rtHeapIndex t = rtHeapIndex (m p)"
    and rest: "tasks_ok s" "placed_ok s" "workers_ok s" "p < rsNext s"
  shows "rs_ok (pushToQueue p s)"
proof -
  note push = pushToQueue_ok [OF assms(1-3)]
  have "tasks_ok (pushToQueue p s)" using rest push tasks_ok_same by (auto simp: untouched_def)
  then show ?thesis using rest push by (auto simp: rs_ok_def placed_ok_def workers_ok_def untouched_def)
qed

text \<open>A task that is changed, with its key, and put into the queue again.\<close>

lemma rs_ok_requeue:
  assumes ok: "rs_ok s" and p: "p < rsNext s"
    and f: "rtHeapIndex (f (rsMem s p)) = rtHeapIndex (rsMem s p)" "rtState (f (rsMem s p)) = RefreshStatePending"
      "rtDBID (f (rsMem s p)) = rtDBID (rsMem s p)" "0 \<le> rtAttempts (f (rsMem s p))"
    and g: "\<And>m. RunningTasks (g m) = RunningTasks m"
  shows "rs_ok (pushToQueue p (updMetrics g (updTask p f s)))" "rsNext (pushToQueue p (updMetrics g (updTask p f s))) = rsNext s"
proof -
  let ?s = "updMetrics g (updTask p f s)"
  have h: "pq_ok (rsMem s, rsPQ ?s)" "rsMem ?s = (rsMem s)(p := f (rsMem s p))" using ok by (simp_all add: rs_ok_def)
  show "rs_ok (pushToQueue p ?s)"
    by (rule rs_ok_push [OF h f(1)]) (use ok p f g in \<open>auto simp: rs_ok_def tasks_ok_def placed_ok_def workers_ok_def\<close>)
  show "rsNext (pushToQueue p ?s) = rsNext s" using pushToQueue_ok [OF h f(1)] by (simp add: untouched_def)
qed

lemma rs_ok_remove:
  assumes ok: "rs_ok s"
  shows "rs_ok (removeFromQueue p s)"
proof -
  have pq: "pq_ok (rsMem s, rsPQ s)" using ok by (simp add: rs_ok_def)
  note rm = removeFromQueue_ok [OF pq, of p]
  have "tasks_ok (removeFromQueue p s)" using ok rm tasks_ok_same by (auto simp: rs_ok_def untouched_def)
  moreover have "set (rsPQ (removeFromQueue p s)) \<subseteq> set (rsPQ s)" using rm by (metis diff_subset_eq_self set_mset_mono set_mset_mset)
  ultimately show ?thesis using ok rm by (auto simp: rs_ok_def placed_ok_def workers_ok_def untouched_def)
qed

lemma rs_ok_addPending [simp]: "rs_ok (addPending n s) = rs_ok s"
  by (simp add: rs_ok_parts)

lemma rs_ok_metrics:
  "rs_ok s \<Longrightarrow> (\<And>m. RunningTasks (f m) = RunningTasks m) \<Longrightarrow> rs_ok (updMetrics f s)"
  by (simp add: rs_ok_parts)

lemma rs_ok_state:
  "rs_ok s \<Longrightarrow> x \<noteq> RefreshStateRetrying \<Longrightarrow> rs_ok (updTask p (\<lambda>t. t\<lparr>rtState := x\<rparr>) s)"
  by (auto simp: rs_ok_parts intro: pq_ok_updTask)

lemma free_unqueued: "rs_ok s \<Longrightarrow> rtHeapIndex (rsMem s (rsNext s)) = - 1"
  by (auto simp: rs_ok_def placed_ok_def pq_ok_def pqIndexed_def)

text \<open>A new task gets a free address.\<close>

lemma rs_ok_alloc:
  assumes ok: "rs_ok s" and t: "rtHeapIndex t = - 1" "rtState t = RefreshStatePending" "rtAttempts t = 0"
  shows "rs_ok (s\<lparr>rsMem := (rsMem s)(rsNext s := t), rsNext := rsNext s + 1\<rparr>)"
proof -
  let ?p = "rsNext s"
  have out: "?p \<notin> set (rsPQ s)" using ok by (auto simp: rs_ok_def placed_ok_def)
  have "pqItems ((rsMem s)(?p := t), rsPQ s) = pqItems (rsMem s, rsPQ s)" using out by (auto simp: pqItems_def keyOf_def)
  moreover have "pqIndexed ((rsMem s)(?p := t), rsPQ s)"
    using ok out t by (auto simp: rs_ok_def pq_ok_def pqIndexed_def)
  ultimately have "pq_ok ((rsMem s)(?p := t), rsPQ s)" using ok by (simp add: rs_ok_def pq_ok_def)
  then show ?thesis using ok t by (auto simp: rs_ok_parts less_Suc_eq)
qed

lemma rs_ok_register:
  "rs_ok s \<Longrightarrow> p < rsNext s \<Longrightarrow> rtDBID (rsMem s p) = d \<Longrightarrow> rs_ok (s\<lparr>rsTasks := (rsTasks s)(d \<mapsto> p)\<rparr>)"
  by (simp add: rs_ok_parts)

lemma rs_ok_unregister: "rs_ok s \<Longrightarrow> rs_ok (s\<lparr>rsTasks := (rsTasks s)(d := None)\<rparr>)"
  by (simp add: rs_ok_parts)

lemma rs_ok_enqueue:
  "rs_ok s \<Longrightarrow> p < rsNext s \<Longrightarrow> length (rsQueue s) < queueCap \<Longrightarrow> rs_ok (s\<lparr>rsQueue := rsQueue s @ [p]\<rparr>)"
  by (auto simp: rs_ok_parts)

lemma Schedule_ok:
  assumes ok: "rs_ok s"
  shows "rs_ok (Schedule now r a account s)"
proof (cases "rsTasks s (DBID account)")
  case (Some p)
  let ?f = "\<lambda>t. t\<lparr>rtState := RefreshStatePending, rtScheduledAt := calculateOptimalTime (rsConfig s) now r account,
    rtPriority := calculatePriority now account, rtAttempts := 0, rtLastError := None\<rparr>"
  have p: "p < rsNext s" using ok Some by (simp add: rs_ok_def tasks_ok_def)
  have "rs_ok (pushToQueue p (updMetrics (\<lambda>m. m) (updTask p ?f s)))" by (rule rs_ok_requeue [OF ok p]) simp_all
  then show ?thesis using ok Some by (simp add: Schedule_def)
next
  case None
  let ?t = "freeTask\<lparr>rtAccount := a, rtDBID := DBID account,
    rtScheduledAt := calculateOptimalTime (rsConfig s) now r account, rtPriority := calculatePriority now account\<rparr>"
  let ?s = "updMetrics (\<lambda>m. m\<lparr>TotalTasks := TotalTasks m + 1, PendingTasks := PendingTasks m + 1\<rparr>)
    (s\<lparr>rsMem := (rsMem s)(rsNext s := ?t), rsNext := rsNext s + 1, rsTasks := (rsTasks s)(DBID account \<mapsto> rsNext s)\<rparr>)"
  have "rs_ok (s\<lparr>rsMem := (rsMem s)(rsNext s := ?t), rsNext := rsNext s + 1\<rparr>)"
    by (rule rs_ok_alloc [OF ok]) (simp_all add: freeTask_def)
  note reg = rs_ok_register [OF this, of "rsNext s" "DBID account"]
  have s: "rs_ok ?s" using rs_ok_metrics [OF reg] by simp
  have "rs_ok (pushToQueue (rsNext s) ?s)"
    by (rule rs_ok_push [where m = "rsMem ?s" and t = "rsMem ?s (rsNext s)"]) (use s in \<open>simp_all add: rs_ok_def\<close>)
  then show ?thesis using None by (simp add: Schedule_def Let_def)
qed

lemma removeFromQueue_sel:
  assumes "rs_ok s"
  shows "untouched s (removeFromQueue p s)" "sameTasks (rsMem s) (rsMem (removeFromQueue p s))"
  using removeFromQueue_ok [of s p] assms by (simp_all add: rs_ok_def)

lemma ScheduleImmediate_ok:
  assumes ok: "rs_ok s"
  shows "rs_ok (ScheduleImmediate now a account s)"
proof -
  let ?t = "freeTask\<lparr>rtAccount := a, rtDBID := DBID account, rtScheduledAt := now, rtPriority := 1000\<rparr>"
  let ?p = "rsNext s"
  let ?s1 = "s\<lparr>rsMem := (rsMem s)(?p := ?t), rsNext := ?p + 1\<rparr>"
  define s2 where "s2 = (case rsTasks s (DBID account) of
      Some e \<Rightarrow> addPending (- 1) (removeFromQueue e (updTask e (\<lambda>t. t\<lparr>rtState := RefreshStateSuccess\<rparr>) ?s1))
    | None \<Rightarrow> updMetrics (\<lambda>m. m\<lparr>TotalTasks := TotalTasks m + 1, PendingTasks := PendingTasks m + 1\<rparr>) ?s1)"
  have s1: "rs_ok ?s1" by (rule rs_ok_alloc [OF ok]) (simp_all add: freeTask_def)
  have s2: "rs_ok s2 \<and> rsNext s2 = ?p + 1 \<and> rtDBID (rsMem s2 ?p) = DBID account"
  proof (cases "rsTasks s (DBID account)")
    case None
    have s2_eq: "s2 = updMetrics (\<lambda>m. m\<lparr>TotalTasks := TotalTasks m + 1, PendingTasks := PendingTasks m + 1\<rparr>) ?s1"
      by (simp add: s2_def None)
    have "rs_ok s2" unfolding s2_eq by (rule rs_ok_metrics [OF s1]) simp
    then show ?thesis by (simp add: s2_eq)
  next
    case (Some e)
    let ?u = "updTask e (\<lambda>t. t\<lparr>rtState := RefreshStateSuccess\<rparr>) ?s1"
    have u: "rs_ok ?u" by (rule rs_ok_state [OF s1]) simp
    have s2_eq: "s2 = addPending (- 1) (removeFromQueue e ?u)" by (simp add: s2_def Some)
    note rm = removeFromQueue_sel [OF u, of e]
    have "rs_ok s2" unfolding s2_eq using rs_ok_remove [OF u] by simp
    moreover have "rsNext s2 = ?p + 1" using rm(1) by (simp add: s2_eq untouched_def)
    moreover have "rtDBID (rsMem s2 ?p) = DBID account" using sameTasks_sel(5) [OF rm(2), of ?p] by (simp add: s2_eq)
    ultimately show ?thesis by blast
  qed
  then have "rs_ok (s2\<lparr>rsTasks := (rsTasks s2)(DBID account \<mapsto> ?p)\<rparr>)" by (simp add: rs_ok_register)
  note this rs_ok_enqueue [OF this, of ?p]
  moreover have "ScheduleImmediate now a account s =
    (let s3 = s2\<lparr>rsTasks := (rsTasks s2)(DBID account \<mapsto> ?p)\<rparr>
     in if length (rsQueue s3) < queueCap then addPending (- 1) (s3\<lparr>rsQueue := rsQueue s3 @ [?p]\<rparr>) else s3)"
    unfolding ScheduleImmediate_def Let_def s2_def by (rule refl)
  ultimately show ?thesis using s2 by (simp add: Let_def)
qed

lemma CancelTask_ok:
  assumes "rs_ok s"
  shows "rs_ok (fst (CancelTask dbID s))"
  using rs_ok_unregister [OF rs_ok_remove [OF rs_ok_state [OF assms, of RefreshStateSuccess]]] assms
  by (simp add: CancelTask_def Let_def split: option.splits)

lemma takeTask_ok: "rs_ok s \<Longrightarrow> takeTask s = Some s' \<Longrightarrow> rs_ok s'"
  by (auto simp: takeTask_def rs_ok_parts split: option.splits list.splits)

lemma startTask_ok: "rs_ok s \<Longrightarrow> startTask s = Some s' \<Longrightarrow> rs_ok s'"
  by (auto simp: startTask_def rs_ok_parts intro!: pq_ok_updTask split: option.splits if_splits)

lemma finishedTask_sel [simp]:
  "rtPriority (finishedTask c now r err t) = rtPriority t" "rtScheduledAt (finishedTask c now r err t) = rtScheduledAt t"
  "rtHeapIndex (finishedTask c now r err t) = rtHeapIndex t" "rtDBID (finishedTask c now r err t) = rtDBID t"
  by (simp_all add: finishedTask_def Let_def split: option.splits)

lemma finishedTask_retrying:
  "rtState (finishedTask c now r err t) = RefreshStateRetrying \<Longrightarrow>
   rtAttempts (finishedTask c now r err t) = rtAttempts t + 1 \<and> rtAttempts t + 1 < cfRetryMaxAttempts c"
  by (auto simp: finishedTask_def Let_def split: option.splits if_splits)

lemma finishedTask_attempts: "rtAttempts t \<le> rtAttempts (finishedTask c now r err t)"
  by (simp add: finishedTask_def Let_def split: option.splits)

lemma finishTask_ok:
  assumes ok: "rs_ok s" and p: "p \<in> set (rsRunning s)"
  shows "rs_ok (finishTask now r d err p s)"
proof -
  let ?m = "\<lambda>m. (updateAvgDuration d m)\<lparr>RunningTasks := RunningTasks m - 1, LastRefreshAt := now div Second,
                 SuccessCount := SuccessCount m + (if err = None then 1 else 0),
                 FailedCount := FailedCount m + (if err = None then 0 else 1)\<rparr>"
  define s2 where "s2 = updTask p (finishedTask (rsConfig s) now r err)
    (updMetrics ?m s\<lparr>rsRunning := remove1 p (rsRunning (updMetrics ?m s))\<rparr>)"
  have pq: "pq_ok (rsMem s2, rsPQ s2)" using ok by (auto simp: s2_def rs_ok_def intro: pq_ok_updTask)
  have tk: "tasks_ok s2"
    using ok finishedTask_retrying [of "rsConfig s" now r err "rsMem s p"]
      finishedTask_attempts [of "rsMem s p" "rsConfig s" now r err]
    by (auto simp: s2_def rs_ok_def tasks_ok_def) (metis dual_order.trans)+
  have len: "int (length (remove1 p (rsRunning s))) = int (length (rsRunning s)) - 1"
  proof -
    have "length (remove1 p (rsRunning s)) = length (rsRunning s) - 1" using p by (simp add: length_remove1)
    then show ?thesis using length_pos_if_in_set [OF p] by linarith
  qed
  have pl: "placed_ok s2" using ok set_remove1_subset [of p "rsRunning s"] by (auto simp: s2_def rs_ok_def placed_ok_def)
  have wk: "workers_ok s2" using ok len by (simp add: s2_def rs_ok_def workers_ok_def)
  have "rs_ok s2" using pq tk pl wk by (simp add: rs_ok_def)
  then have "rs_ok s2" "rs_ok (s2\<lparr>rsTasks := (rsTasks s2)(x := None)\<rparr>)" for x by (simp_all add: rs_ok_unregister)
  then show ?thesis unfolding finishTask_def Let_def s2_def [symmetric] by simp
qed

lemma retryOne_ok:
  assumes ok: "rs_ok s" and p: "p < rsNext s"
  shows "rs_ok (retryOne now p s)" "rsNext (retryOne now p s) = rsNext s"
  unfolding retryOne_def
  by (rule rs_ok_requeue [OF ok p]; use ok in \<open>simp add: rs_ok_def tasks_ok_def\<close>)+

lemma processRetries_ok:
  assumes ok: "rs_ok s"
  shows "rs_ok (processRetries now order s)"
proof -
  have "rs_ok (fold (retryOne now) ps s)" if "rs_ok s" "set ps \<subseteq> {..<rsNext s}" for ps and s
    using that by (induction ps arbitrary: s) (auto simp: retryOne_ok)
  moreover have "set (List.map_filter (rsTasks s) order) \<subseteq> {..<rsNext s}"
    using ok by (auto simp: rs_ok_def tasks_ok_def map_filter_def)
  ultimately show ?thesis using ok unfolding processRetries_def by (metis (no_types, lifting) filter_is_subset order_trans)
qed

text \<open>Processing keeps the invariant, and stops only at an empty queue, at a first task that is not due,
  or when the execution queue is full.\<close>

definition stopped :: "time \<Rightarrow> RefreshScheduler \<Rightarrow> bool" where
  "stopped now s \<longleftrightarrow>
     (case peekQueue s of None \<Rightarrow> True | Some p \<Rightarrow> rtScheduledAt (rsMem s p) > now \<or> length (rsQueue s) = queueCap)"

lemma rs_ok_pop:
  assumes ok: "rs_ok s" and q: "rsPQ s = p # ps"
  obtains s' where "popFromQueue s = (s', Some p)" "rs_ok s'" "mset (rsPQ s') = mset ps" "sameTasks (rsMem s) (rsMem s')" "untouched s s'"
proof -
  obtain s' where s': "popFromQueue s = (s', Some p)" "pq_ok (rsMem s', rsPQ s')" "sameTasks (rsMem s) (rsMem s')"
    "mset (rsPQ s') = mset ps" "untouched s s'"
    using popFromQueue_ok [of s p ps] ok q by (auto simp: rs_ok_def)
  have "tasks_ok s'" using s' ok tasks_ok_same by (auto simp: rs_ok_def untouched_def)
  moreover have "set (rsPQ s') \<subseteq> set (rsPQ s)" using s'(4) q by (metis mset_eq_setD set_subset_Cons)
  ultimately have "rs_ok s'" using ok s' by (auto simp: rs_ok_def placed_ok_def workers_ok_def untouched_def)
  then show ?thesis using that s' by blast
qed

lemma rs_ok_lastBatch [simp]: "rs_ok (s\<lparr>rsLastBatch := t\<rparr>) = rs_ok s"
  by (simp add: rs_ok_parts)

text \<open>The ways in which a pass of the loop goes.\<close>

lemma process_pass:
  assumes ok: "rs_ok s"
  obtains (empty) "rsPQ s = []" "processScheduledTasks now s = s"
  | (wait) p where "peekQueue s = Some p" "rtScheduledAt (rsMem s p) > now" "processScheduledTasks now s = s"
  | (drop) p s1 where "rtState (rsMem s p) \<noteq> RefreshStatePending" "processScheduledTasks now s = processScheduledTasks now s1"
      "rs_ok s1" "mset (rsPQ s) = add_mset p (mset (rsPQ s1))" "sameTasks (rsMem s) (rsMem s1)" "rsQueue s1 = rsQueue s"
  | (hand) p s1 where "rtScheduledAt (rsMem s p) \<le> now \<and> rtState (rsMem s p) = RefreshStatePending" "processScheduledTasks now s = processScheduledTasks now s1"
      "rs_ok s1" "mset (rsPQ s) = add_mset p (mset (rsPQ s1))" "sameTasks (rsMem s) (rsMem s1)" "rsQueue s1 = rsQueue s @ [p]"
  | (full) s1 where "processScheduledTasks now s = s1" "rs_ok s1" "set (rsPQ s1) = set (rsPQ s)" "sameTasks (rsMem s) (rsMem s1)"
      "rsQueue s1 = rsQueue s" "length (rsQueue s) = queueCap"
proof (cases "rsPQ s")
  case Nil
  then show ?thesis using empty by (simp add: processScheduledTasks.simps [of now s] peekQueue_def)
next
  case (Cons p ps)
  then have peek: "peekQueue s = Some p" by (simp add: peekQueue_def)
  obtain s1 where s1: "popFromQueue s = (s1, Some p)" "rs_ok s1" "mset (rsPQ s1) = mset ps" "sameTasks (rsMem s) (rsMem s1)" "untouched s s1"
    using rs_ok_pop [OF ok Cons] by metis
  have ms: "mset (rsPQ s) = add_mset p (mset (rsPQ s1))" using s1(3) Cons by simp
  define s2 where "s2 = (if cfEnableBatchOptimize (rsConfig s1) \<and> shouldBatch now s1 then s1\<lparr>rsLastBatch := now\<rparr> else s1)"
  have s2: "rs_ok s2" "rsPQ s2 = rsPQ s1" "rsMem s2 = rsMem s1" "rsQueue s2 = rsQueue s" "rsNext s2 = rsNext s"
    using s1 by (simp_all add: s2_def untouched_def)
  have p: "p < rsNext s2" using ok Cons s2 by (auto simp: rs_ok_def placed_ok_def)
  have eq: "processScheduledTasks now s =
    (if rtScheduledAt (rsMem s p) > now then s
     else if rtState (rsMem s p) \<noteq> RefreshStatePending then processScheduledTasks now s1
     else if length (rsQueue s2) < queueCap
          then processScheduledTasks now (addPending (- 1) (s2\<lparr>rsQueue := rsQueue s2 @ [p]\<rparr>))
          else pushToQueue p s2)"
    by (subst processScheduledTasks.simps) (simp add: peek s1 s2_def Let_def)
  have pq: "pq_ok (rsMem s2, rsPQ s2)" using s2(1) by (simp add: rs_ok_def)
  note push = pushToQueue_ok [where m = "rsMem s2" and t = "rsMem s2 p" and s = s2 and p = p, OF pq]
  have cap: "length (rsQueue s2) \<le> queueCap" using s2(1) by (simp add: rs_ok_def workers_ok_def)
  consider "rtScheduledAt (rsMem s p) > now"
    | "rtScheduledAt (rsMem s p) \<le> now" "rtState (rsMem s p) \<noteq> RefreshStatePending"
    | "rtScheduledAt (rsMem s p) \<le> now" "rtState (rsMem s p) = RefreshStatePending" "length (rsQueue s2) < queueCap"
    | "rtScheduledAt (rsMem s p) \<le> now" "rtState (rsMem s p) = RefreshStatePending" "length (rsQueue s2) = queueCap"
    using cap by linarith
  then show ?thesis
  proof cases
    case 1
    then show ?thesis using wait peek eq by simp
  next
    case 2
    then show ?thesis using drop [of p s1] eq s1 ms by (simp add: untouched_def)
  next
    case 3
    let ?s3 = "addPending (- 1) (s2\<lparr>rsQueue := rsQueue s2 @ [p]\<rparr>)"
    have "rs_ok ?s3" using rs_ok_enqueue [OF s2(1) p 3(3)] by simp
    then show ?thesis using hand [of p ?s3] 3 eq s1 s2 ms by simp
  next
    case 4
    have "rs_ok (pushToQueue p s2)"
      using rs_ok_push [where m = "rsMem s2" and t = "rsMem s2 p" and s = s2 and p = p, OF pq] s2(1) p by (simp add: rs_ok_def)
    moreover have "set (rsPQ s) = insert p (set (rsPQ s1))" using ms by (metis set_mset_add_mset_insert set_mset_mset)
    ultimately show ?thesis using full [of "pushToQueue p s2"] 4 eq push s1 s2 sameTasks_trans by (simp add: untouched_def)
  qed
qed

lemma pass_shorter: "mset (rsPQ s) = add_mset p (mset (rsPQ s1)) \<Longrightarrow> length (rsPQ s1) < length (rsPQ s)"
  by (metis lessI size_add_mset size_mset)

lemma processScheduledTasks_ok:
  assumes "rs_ok s"
  shows "rs_ok (processScheduledTasks now s) \<and> stopped now (processScheduledTasks now s) \<and>
    (\<exists>xs. rsQueue (processScheduledTasks now s) = rsQueue s @ xs \<and>
       (\<forall>x \<in> set xs. rtScheduledAt (rsMem s x) \<le> now \<and> rtState (rsMem s x) = RefreshStatePending)) \<and>
    (\<forall>q \<in> set (rsPQ s). rtState (rsMem s q) = RefreshStatePending \<longrightarrow>
       q \<in> set (rsPQ (processScheduledTasks now s)) \<union> set (rsQueue (processScheduledTasks now s)))"
  using assms
proof (induction "length (rsPQ s)" arbitrary: s rule: less_induct)
  case less
  from less.prems show ?case
  proof (cases rule: process_pass [where now = now])
    case empty
    then show ?thesis using less.prems by (simp add: stopped_def peekQueue_def)
  next
    case (wait p)
    then show ?thesis using less.prems by (simp add: stopped_def)
  next
    case (drop p s1)
    have "set (rsPQ s) = insert p (set (rsPQ s1))" using drop(4) by (metis set_mset_add_mset_insert set_mset_mset)
    then show ?thesis using less.hyps [OF pass_shorter [OF drop(4)] drop(3)] drop by (auto simp: sameTasks_sel(2,3))
  next
    case (hand p s1)
    have set: "set (rsPQ s) = insert p (set (rsPQ s1))" using hand(4) by (metis set_mset_add_mset_insert set_mset_mset)
    note IH = less.hyps [OF pass_shorter [OF hand(4)] hand(3)]
    then obtain xs where xs: "rsQueue (processScheduledTasks now s1) = rsQueue s1 @ xs"
      "\<forall>x \<in> set xs. rtScheduledAt (rsMem s1 x) \<le> now \<and> rtState (rsMem s1 x) = RefreshStatePending" by blast
    have "rsQueue (processScheduledTasks now s) = rsQueue s @ (p # xs)" using xs(1) hand by simp
    moreover have "\<forall>x \<in> set (p # xs). rtScheduledAt (rsMem s x) \<le> now \<and> rtState (rsMem s x) = RefreshStatePending"
      using xs(2) hand sameTasks_sel(2,3) [OF hand(5)] by auto
    ultimately show ?thesis using IH hand set by (auto simp: sameTasks_sel(3))
  next
    case (full s1)
    then show ?thesis by (auto simp: stopped_def split: option.splits)
  qed
qed

lemma NewRefreshScheduler_ok: "rs_ok (NewRefreshScheduler now c)"
  by (simp add: rs_ok_parts NewRefreshScheduler_def pq_ok_def pqIndexed_def key_order.heap_ordered_def freeTask_def zeroMetrics_def)

lemma ScheduleBatch_ok:
  assumes "rs_ok s"
  shows "rs_ok (fst (ScheduleBatch now r accs s))"
proof -
  have "rs_ok (fst (fold (\<lambda>(i, a, acc) (s, timers).
         if batchDelay (rsConfig s) i > 0 then (s, timers @ [(batchDelay (rsConfig s) i, a, acc)])
         else (Schedule now (r i) a acc s, timers)) xs (s, ts)))" if "rs_ok s" for xs s ts
    using that by (induction xs arbitrary: s ts) (simp_all add: Schedule_ok split_beta)
  then show ?thesis using assms unfolding ScheduleBatch_def by blast
qed

subsection \<open>The machine\<close>

inductive rs_step :: "RefreshScheduler \<Rightarrow> RefreshScheduler \<Rightarrow> bool" where
  schedule: "rs_step s (Schedule now r a account s)"
| immediate: "rs_step s (ScheduleImmediate now a account s)"
| batch: "rs_step s (fst (ScheduleBatch now r accs s))"
| cancel: "rs_step s (fst (CancelTask dbID s))"
| process: "rs_step s (processScheduledTasks now s)"
| retries: "rs_step s (processRetries now order s)"
| take: "takeTask s = Some s' \<Longrightarrow> rs_step s s'"
| start: "startTask s = Some s' \<Longrightarrow> rs_step s s'"
| finish: "p \<in> set (rsRunning s) \<Longrightarrow> rs_step s (finishTask now r d err p s)"

lemma rs_step_ok: "rs_step s t \<Longrightarrow> rs_ok s \<Longrightarrow> rs_ok t"
  by (induction rule: rs_step.induct)
    (use processScheduledTasks_ok in \<open>blast intro: Schedule_ok ScheduleImmediate_ok ScheduleBatch_ok CancelTask_ok processRetries_ok
      takeTask_ok startTask_ok finishTask_ok\<close>)+

interpretation refresh_machine: invariant_machine rs_step rs_ok
  by unfold_locales (rule rs_step_ok)

end
