(* ===== verification/RefreshProps.thy ===== *)
theory RefreshProps
  imports RefreshInvariant
begin

section \<open>What the refresh scheduler guarantees\<close>

text \<open>
  The claims on the refresh scheduler: its reachable states, what one run of \<open>processScheduledTasks\<close>
  achieves, the order of priorities, the times of retries, and the executions in which the code differs
  from what it means to do.
\<close>

lemma first_of_queue:
  assumes ok: "rs_ok s" and p: "peekQueue s = Some p" and q: "q \<in> set (rsPQ s)"
  shows "\<not> keyLess (keyOf (rsMem s) q) (keyOf (rsMem s) p)"
proof -
  obtain ps where ps: "rsPQ s = p # ps" using p by (auto simp: peekQueue_def split: list.splits)
  obtain k where k: "k < length (rsPQ s)" "rsPQ s ! k = q" using q by (metis in_set_conv_nth)
  have "key_order.heap_ordered (pqItems (rsMem s, rsPQ s)) (length (rsPQ s))" using ok by (simp add: rs_ok_def pq_ok_def)
  then have "\<not> keyLess (pqItems (rsMem s, rsPQ s) ! k) (pqItems (rsMem s, rsPQ s) ! 0)"
    using key_order.heap_first k(1) by blast
  moreover have "pqItems (rsMem s, rsPQ s) ! k = keyOf (rsMem s) q" using k by (simp add: pqItems_def)
  moreover have "pqItems (rsMem s, rsPQ s) ! 0 = keyOf (rsMem s) p" by (simp add: pqItems_def ps)
  ultimately show ?thesis by simp
qed

text \<open>Jitter and backoff.\<close>

lemma toDuration_bounds:
  assumes "\<bar>x\<bar> \<le> real_of_int n"
  shows "- n \<le> toDuration x" "toDuration x \<le> n"
  using assms by (auto simp: toDuration_def) linarith+

lemma randomJitter_bounds:
  assumes "0 \<le> base" "0 \<le> cfJitterPercent c" "cfJitterPercent c \<le> 1" "0 \<le> r" "r \<le> 1"
  shows "0 \<le> randomJitter c r base" "randomJitter c r base \<le> 2 * base"
proof -
  let ?x = "real_of_int base * cfJitterPercent c * (2 * r - 1)"
  have "cfJitterPercent c * \<bar>2 * r - 1\<bar> \<le> 1" using assms by (intro mult_le_one) auto
  then have "real_of_int base * (cfJitterPercent c * \<bar>2 * r - 1\<bar>) \<le> real_of_int base" using assms(1) by (simp add: mult_left_le)
  then have "\<bar>?x\<bar> \<le> real_of_int base" using assms by (simp add: abs_mult mult.assoc)
  note toDuration_bounds [OF this]
  then show "0 \<le> randomJitter c r base" "randomJitter c r base \<le> 2 * base" using assms(1) by (simp_all add: randomJitter_def)
qed

lemma calculateRetryTime_bounds:
  assumes "0 < cfRetryBackoffBase c" "cfRetryBackoffBase c * 2 ^ nat (n - 1) < 2 ^ 63"
    and "0 \<le> cfJitterPercent c" "cfJitterPercent c \<le> 1" "0 \<le> r" "r \<le> 1"
  defines "b \<equiv> min (5 * Minute) (cfRetryBackoffBase c * 2 ^ nat (n - 1))"
  shows "calculateRetryTime c now r n \<in> {now + b .. now + b + 2 * (b div 10)}"
proof -
  have pos: "0 < cfRetryBackoffBase c * 2 ^ nat (n - 1)" using assms(1) by simp
  then have "wrap64 (cfRetryBackoffBase c * 2 ^ nat (n - 1)) = cfRetryBackoffBase c * 2 ^ nat (n - 1)"
    using assms(2) by (simp add: wrap64_id)
  then have "calculateRetryTime c now r n = now + (b + randomJitter c r (b sdiv 10))"
    by (simp add: calculateRetryTime_def Let_def b_def min_def)
  moreover have b: "0 \<le> b" using pos by (simp add: b_def Minute_def Second_def Millisecond_def)
  then have "b sdiv 10 = b div 10" by (cases "b = 0") (auto simp: signed_divide_int_def sgn_if)
  ultimately show ?thesis using randomJitter_bounds [of "b div 10" c r] b assms(3-6) by (simp add: div_int_pos_iff)
qed



text \<open>
  Supplement: Retries: in every reachable state a task that waits for a retry has failed at least once and less often than
  \<open>RetryMaxAttempts\<close>, and as long as the exponential does not overflow the retry lies between the backoff and
  six fifths of it after the failure; the backoff is the base doubled with every attempt after the
  first, and at most five minutes.\<close>
theorem retry_waits_within_bounds:
  assumes "rs_step\<^sup>*\<^sup>* (NewRefreshScheduler t c) s" "rtState (rsMem s p) = RefreshStateRetrying"
    and "0 < cfRetryBackoffBase (rsConfig s)" "cfRetryBackoffBase (rsConfig s) * 2 ^ nat (rtAttempts (rsMem s p) - 1) < 2 ^ 63"
    and "0 \<le> cfJitterPercent (rsConfig s)" "cfJitterPercent (rsConfig s) \<le> 1" "0 \<le> r" "r \<le> 1"
  shows "1 \<le> rtAttempts (rsMem s p) \<and> rtAttempts (rsMem s p) < cfRetryMaxAttempts (rsConfig s) \<and>
    (let b = min (5 * Minute) (cfRetryBackoffBase (rsConfig s) * 2 ^ nat (rtAttempts (rsMem s p) - 1))
     in calculateRetryTime (rsConfig s) now r (rtAttempts (rsMem s p)) \<in> {now + b .. now + b + 2 * (b div 10)})"
proof -
  have "rs_ok s" by (rule refresh_machine.reachable_inv [OF assms(1) NewRefreshScheduler_ok])
  then have "1 \<le> rtAttempts (rsMem s p) \<and> rtAttempts (rsMem s p) < cfRetryMaxAttempts (rsConfig s)"
    using assms(2) by (simp add: rs_ok_def tasks_ok_def)
  then show ?thesis using calculateRetryTime_bounds [OF assms(3-)] by simp
qed

text \<open>
  Supplement: An account whose token expires within 30 seconds is refreshed before every account whose token
  does not, or has no expiry, whatever their health tiers.\<close>
theorem urgent_refresh_first:
  assumes "ExpiresAt a \<noteq> 0" "time_Sub (ExpiresAt a) now < 30 * Second"
    and "ExpiresAt b = 0 \<or> 30 * Second \<le> time_Sub (ExpiresAt b) now'"
  shows "calculatePriority now' b < calculatePriority now a"
  using assms by (auto simp: calculatePriority_def Let_def split: AccountHealthTier.splits)

subsection \<open>Executions in which the code differs from its intention\<close>

text \<open>The execution loop takes the next task and a worker starts it.\<close>

abbreviation runNext :: "RefreshScheduler \<Rightarrow> RefreshScheduler" where
  "runNext s \<equiv> the (startTask (the (takeTask s)))"

lemma queue_of_one:
  "heap_Push p (m, []) = (setIndex p 0 m, [p])"
  by (simp add: heap_Push_def pqPush_def Let_def heapUp.simps)

lemma Schedule_fresh:
  assumes "rsPQ s = []" "rsTasks s (DBID acc) = None"
  shows "PendingTasks (rsMetrics (Schedule now r a acc s)) = PendingTasks (rsMetrics s) + 1"
    "rsTasks (Schedule now r a acc s) = (rsTasks s)(DBID acc \<mapsto> rsNext s)" "rsQueue (Schedule now r a acc s) = rsQueue s"
    "rtState (rsMem (Schedule now r a acc s) (rsNext s)) = RefreshStatePending"
  using assms by (simp_all add: Schedule_def Let_def pushToQueue_def freeTask_def queue_of_one setIndex_def)

lemma ScheduleImmediate_again:
  assumes "rs_ok s" "rsTasks s (DBID acc) = Some e" "length (rsQueue s) < queueCap"
  shows "PendingTasks (rsMetrics (ScheduleImmediate now a acc s)) = PendingTasks (rsMetrics s) - 2"
proof -
  let ?t = "freeTask\<lparr>rtAccount := a, rtDBID := DBID acc, rtScheduledAt := now, rtPriority := 1000\<rparr>"
  let ?u = "updTask e (\<lambda>t. t\<lparr>rtState := RefreshStateSuccess\<rparr>) (s\<lparr>rsMem := (rsMem s)(rsNext s := ?t), rsNext := rsNext s + 1\<rparr>)"
  have "rs_ok ?u" by (intro rs_ok_state rs_ok_alloc assms(1)) (simp_all add: freeTask_def)
  note rm = removeFromQueue_sel(1) [OF this, of e]
  then show ?thesis using assms(2,3) by (simp add: ScheduleImmediate_def Let_def untouched_def)
qed

text \<open>
  Supplement: The counter of pending tasks does not count them: an account that is scheduled and then scheduled
  for immediate refresh has one task, in the execution queue, and the metric is minus one.\<close>
theorem pending_counter_negative:
  "PendingTasks (rsMetrics (ScheduleImmediate now2 a acc (Schedule now1 r a acc (NewRefreshScheduler t c)))) = - 1"
proof -
  let ?s = "NewRefreshScheduler t c"
  have n: "rsPQ ?s = []" "rsTasks ?s (DBID acc) = None" "rsQueue ?s = []" "PendingTasks (rsMetrics ?s) = 0"
    by (simp_all add: NewRefreshScheduler_def zeroMetrics_def)
  note f = Schedule_fresh [OF n(1,2), where now = now1 and r = r and a = a]
  have "rs_ok (Schedule now1 r a acc ?s)" by (intro Schedule_ok NewRefreshScheduler_ok)
  then show ?thesis using ScheduleImmediate_again [of "Schedule now1 r a acc ?s" acc "rsNext ?s"] f n by (simp add: queueCap_def)
qed

text \<open>What the steps of an execution do to a scheduler whose priority queue is empty.\<close>

lemma ScheduleImmediate_new:
  fixes now :: time and a :: nat
  assumes "rsTasks s (DBID acc) = None" "length (rsQueue s) < queueCap"
  defines "s' \<equiv> ScheduleImmediate now a acc s"
  shows "rsTasks s' = (rsTasks s)(DBID acc \<mapsto> rsNext s)" "rsQueue s' = rsQueue s @ [rsNext s]" "rsPQ s' = rsPQ s"
    "rsRunning s' = rsRunning s" "rsInHand s' = rsInHand s" "rsConfig s' = rsConfig s" "rsNext s' = rsNext s + 1"
    "rsMem s' = (rsMem s)(rsNext s := freeTask\<lparr>rtAccount := a, rtDBID := DBID acc, rtScheduledAt := now, rtPriority := 1000\<rparr>)"
  using assms by (simp_all add: ScheduleImmediate_def Let_def)

lemma removeFromQueue_empty: "rsPQ s = [] \<Longrightarrow> removeFromQueue p s = s"
  by (auto simp: removeFromQueue_def Let_def)

lemma ScheduleImmediate_replaces:
  fixes now :: time and a :: nat
  assumes "rsTasks s (DBID acc) = Some e" "length (rsQueue s) < queueCap" "rsPQ s = []" "e < rsNext s"
  defines "s' \<equiv> ScheduleImmediate now a acc s"
  shows "rsTasks s' = (rsTasks s)(DBID acc \<mapsto> rsNext s)" "rsQueue s' = rsQueue s @ [rsNext s]" "rsPQ s' = []"
    "rsRunning s' = rsRunning s" "rsInHand s' = rsInHand s" "rsConfig s' = rsConfig s" "rsNext s' = rsNext s + 1"
    "rsMem s' = (rsMem s)(rsNext s := freeTask\<lparr>rtAccount := a, rtDBID := DBID acc, rtScheduledAt := now, rtPriority := 1000\<rparr>,
       e := (rsMem s e)\<lparr>rtState := RefreshStateSuccess\<rparr>)"
  using assms by (auto simp: ScheduleImmediate_def Let_def removeFromQueue_empty)

lemma runNext_sel:
  assumes "rsQueue s = p # q" "rsInHand s = None" "int (length (rsRunning s)) < cfMaxConcurrency (rsConfig s)"
  shows "rsTasks (runNext s) = rsTasks s" "rsQueue (runNext s) = q" "rsPQ (runNext s) = rsPQ s"
    "rsRunning (runNext s) = rsRunning s @ [p]" "rsInHand (runNext s) = None" "rsConfig (runNext s) = rsConfig s" "rsNext (runNext s) = rsNext s"
    "rsMem (runNext s) = (rsMem s)(p := (rsMem s p)\<lparr>rtState := RefreshStateRunning\<rparr>)"
  using assms by (simp_all add: takeTask_def startTask_def)

lemma finishTask_sel:
  fixes s :: RefreshScheduler and p :: taskptr and r :: float64 and err :: "string option" and now d :: int
  defines "s' \<equiv> finishTask now r d err p s" and "t' \<equiv> finishedTask (rsConfig s) now r err (rsMem s p)"
  shows "rsQueue s' = rsQueue s" "rsPQ s' = rsPQ s" "rsRunning s' = remove1 p (rsRunning s)" "rsInHand s' = rsInHand s"
    "rsConfig s' = rsConfig s" "rsNext s' = rsNext s" "rsMem s' = (rsMem s)(p := t')"
    "rsTasks s' = (if rtState t' = RefreshStateSuccess \<or> rtState t' = RefreshStateFailed \<and> rtAttempts t' \<ge> cfRetryMaxAttempts (rsConfig s)
       then (rsTasks s)(rtDBID t' := None) else rsTasks s)"
  by (simp_all add: assms finishTask_def Let_def)

lemma processRetries_empty: "rsTasks s = Map.empty \<Longrightarrow> processRetries now order s = s"
  by (simp add: processRetries_def map_filter_def)

text \<open>
  Supplement: A retry can be lost: when the refresh of an account succeeds while a second one has been requested with
  \<open>ScheduleImmediate\<close>, the completion of the first removes the second from the map of tasks. If the
  second then fails with an error that is worth a retry, it is marked for a retry that never comes,
  because \<open>processRetries\<close> only visits the tasks of the map.\<close>
theorem replaced_task_loses_its_retry:
  "let c = DefaultRefreshConfig; err = ''connection reset'';
       s1 = runNext (ScheduleImmediate now a acc (NewRefreshScheduler t c));
       s2 = finishTask now r d None 0 (ScheduleImmediate now a acc s1);
       s3 = finishTask now r d (Some err) 1 (runNext s2)
   in rtState (rsMem s3 1) = RefreshStateRetrying \<and> rsTasks s3 = Map.empty \<and> rsQueue s3 = [] \<and> rsPQ s3 = [] \<and>
      rsRunning s3 = [] \<and> (\<forall>later order. processRetries later order s3 = s3)"
proof -
  have nr: "\<not> isNonRetryable ''connection reset''" by code_simp
  define s0 where "s0 = NewRefreshScheduler t DefaultRefreshConfig"
  define i1 where "i1 = ScheduleImmediate now a acc s0"
  define s1 where "s1 = runNext i1"
  define i2 where "i2 = ScheduleImmediate now a acc s1"
  define s2 where "s2 = finishTask now r d None 0 i2"
  define u2 where "u2 = runNext s2"
  define s3 where "s3 = finishTask now r d (Some ''connection reset'') 1 u2"
  have e0: "rsTasks s0 = Map.empty" "rsQueue s0 = []" "rsPQ s0 = []" "rsRunning s0 = []" "rsInHand s0 = None"
    "rsConfig s0 = DefaultRefreshConfig" "rsNext s0 = 0"
    by (simp_all add: s0_def NewRefreshScheduler_def DefaultRefreshConfig_def)
  have cap: "0 < queueCap" by (simp add: queueCap_def)
  have c: "cfMaxConcurrency DefaultRefreshConfig = 10" "cfRetryMaxAttempts DefaultRefreshConfig = 3" by (simp_all add: DefaultRefreshConfig_def)
  have h: "rsTasks s0 (DBID acc) = None" "length (rsQueue s0) < queueCap" using e0 cap by simp_all
  note e1 = ScheduleImmediate_new [OF h, of now a, folded i1_def, unfolded e0]
  have h: "rsQueue i1 = 0 # []" "rsInHand i1 = None" "int (length (rsRunning i1)) < cfMaxConcurrency (rsConfig i1)" using e1 c by simp_all
  note e2 = runNext_sel [OF h, folded s1_def, unfolded e1]
  have h: "rsTasks s1 (DBID acc) = Some 0" "length (rsQueue s1) < queueCap" "rsPQ s1 = []" "0 < rsNext s1" using e2 cap by simp_all
  note e3 = ScheduleImmediate_replaces [OF h, of now a, folded i2_def, unfolded e2]
  note e4 = finishTask_sel [of now r d None 0 i2, folded s2_def, unfolded e3]
  have h: "rsQueue s2 = 1 # []" "rsInHand s2 = None" "int (length (rsRunning s2)) < cfMaxConcurrency (rsConfig s2)" using e4 c by simp_all
  note e5 = runNext_sel [OF h, folded u2_def, unfolded e4]
  note e6 = finishTask_sel [of now r d "Some ''connection reset''" 1 u2, folded s3_def, unfolded e5]
  have m: "rsTasks s3 = Map.empty" using e6(8) by (simp add: finishedTask_def freeTask_def Let_def c nr)
  moreover have "rtState (rsMem s3 1) = RefreshStateRetrying" using e6(7) by (simp add: finishedTask_def freeTask_def Let_def c nr)
  moreover have "rsQueue s3 = [] \<and> rsPQ s3 = [] \<and> rsRunning s3 = []" using e6 by simp
  ultimately show ?thesis
    unfolding Let_def s0_def [symmetric] i1_def [symmetric] s1_def [symmetric] i2_def [symmetric] s2_def [symmetric] u2_def [symmetric] s3_def [symmetric]
    by (simp add: processRetries_empty)
qed

text \<open>Scheduling an account that has no task yet.\<close>

lemma Schedule_new:
  fixes now :: time and r :: "float64 \<times> float64" and a :: nat
  assumes ok: "rs_ok s" and none: "rsTasks s (DBID acc) = None"
  defines "s' \<equiv> Schedule now r a acc s"
  shows "rsTasks s' = (rsTasks s)(DBID acc \<mapsto> rsNext s)" "set (rsPQ s') = insert (rsNext s) (set (rsPQ s))" "rsNext s' = rsNext s + 1"
    "rsConfig s' = rsConfig s" "rsQueue s' = rsQueue s"
    "sameTasks ((rsMem s)(rsNext s := freeTask\<lparr>rtAccount := a, rtDBID := DBID acc,
       rtScheduledAt := calculateOptimalTime (rsConfig s) now r acc, rtPriority := calculatePriority now acc\<rparr>)) (rsMem s')"
proof -
  let ?t = "freeTask\<lparr>rtAccount := a, rtDBID := DBID acc,
    rtScheduledAt := calculateOptimalTime (rsConfig s) now r acc, rtPriority := calculatePriority now acc\<rparr>"
  let ?s = "updMetrics (\<lambda>m. m\<lparr>TotalTasks := TotalTasks m + 1, PendingTasks := PendingTasks m + 1\<rparr>)
    (s\<lparr>rsMem := (rsMem s)(rsNext s := ?t), rsNext := rsNext s + 1, rsTasks := (rsTasks s)(DBID acc \<mapsto> rsNext s)\<rparr>)"
  have eq: "s' = pushToQueue (rsNext s) ?s" using none by (simp add: s'_def Schedule_def Let_def)
  have pq: "pq_ok (rsMem s, rsPQ ?s)" using ok by (simp add: rs_ok_def)
  have push: "sameTasks (rsMem ?s) (rsMem s') \<and> set (rsPQ s') = insert (rsNext s) (set (rsPQ ?s)) \<and> untouched ?s s'"
    unfolding eq using pushToQueue_ok [where m = "rsMem s" and t = ?t and s = ?s and p = "rsNext s", OF pq] free_unqueued [OF ok]
    by (simp add: freeTask_def)
  then show "rsTasks s' = (rsTasks s)(DBID acc \<mapsto> rsNext s)" "set (rsPQ s') = insert (rsNext s) (set (rsPQ s))" "rsNext s' = rsNext s + 1"
    "rsConfig s' = rsConfig s" "rsQueue s' = rsQueue s" "sameTasks ((rsMem s)(rsNext s := ?t)) (rsMem s')"
    by (simp_all add: untouched_def)
qed

text \<open>
  Supplement: A task that is due waits behind one that is not, when that one has the higher priority: of two accounts
  that are scheduled one after the other, as long as the account with the higher priority is not due the
  other one is not refreshed, however long it has been due.\<close>
theorem due_task_waits_behind_future_task:
  assumes "DBID acc1 \<noteq> DBID acc2" "calculatePriority t2 acc2 < calculatePriority t1 acc1"
    and "now < calculateOptimalTime DefaultRefreshConfig t1 r1 acc1" "calculateOptimalTime DefaultRefreshConfig t2 r2 acc2 \<le> now"
  shows "let s = Schedule t2 r2 a2 acc2 (Schedule t1 r1 a1 acc1 (NewRefreshScheduler t DefaultRefreshConfig))
    in rtDBID (rsMem s 1) = DBID acc2 \<and> rtScheduledAt (rsMem s 1) \<le> now \<and> rtState (rsMem s 1) = RefreshStatePending \<and>
       processScheduledTasks now s = s \<and> rsQueue s = []"
proof -
  define s0 where "s0 = NewRefreshScheduler t DefaultRefreshConfig"
  define s1 where "s1 = Schedule t1 r1 a1 acc1 s0"
  define s2 where "s2 = Schedule t2 r2 a2 acc2 s1"
  have e0: "rsTasks s0 = Map.empty" "rsNext s0 = 0" "rsPQ s0 = []" "rsQueue s0 = []" "rsConfig s0 = DefaultRefreshConfig"
    by (simp_all add: s0_def NewRefreshScheduler_def DefaultRefreshConfig_def)
  have ok0: "rs_ok s0" unfolding s0_def by (rule NewRefreshScheduler_ok)
  have ok1: "rs_ok s1" unfolding s1_def by (rule Schedule_ok [OF ok0])
  have ok2: "rs_ok s2" unfolding s2_def by (rule Schedule_ok [OF ok1])
  have n0: "rsTasks s0 (DBID acc1) = None" using e0 by simp
  note e1 = Schedule_new [OF ok0 n0, of t1 r1 a1, folded s1_def, unfolded e0]
  have n1: "rsTasks s1 (DBID acc2) = None" using e1 assms(1) by simp
  note e2 = Schedule_new [OF ok1 n1, of t2 r2 a2, folded s2_def, unfolded e1]
  note m1 = sameTasks_sel [OF e1(6)] note m2 = sameTasks_sel [OF e2(6)]
  have first: "rtPriority (rsMem s2 0) = calculatePriority t1 acc1"
    "rtScheduledAt (rsMem s2 0) = calculateOptimalTime DefaultRefreshConfig t1 r1 acc1" using m2(1,2) [of 0] m1(1,2) [of 0] by simp_all
  have second: "rtPriority (rsMem s2 1) = calculatePriority t2 acc2" "rtState (rsMem s2 1) = RefreshStatePending"
    "rtScheduledAt (rsMem s2 1) = calculateOptimalTime DefaultRefreshConfig t2 r2 acc2" "rtDBID (rsMem s2 1) = DBID acc2"
    using m2(1,2,3,5) [of 1] by (simp_all add: freeTask_def)
  have set: "set (rsPQ s2) = {0, 1}" using e2(2) by auto
  then obtain p where p: "peekQueue s2 = Some p" "p \<in> {0, 1}" by (cases "rsPQ s2") (auto simp: peekQueue_def)
  have "keyLess (keyOf (rsMem s2) 0) (keyOf (rsMem s2) 1)" using first(1) second(1) assms(2) by (simp add: keyLess_def keyOf_def)
  then have "p \<noteq> 1" using first_of_queue [OF ok2 p(1), of 0] set by blast
  then have "p = 0" using p(2) by blast
  then have "processScheduledTasks now s2 = s2"
    using p(1) first assms(3) by (subst processScheduledTasks.simps) simp
  moreover have "rsQueue s2 = []" using e2(5) by simp
  ultimately show ?thesis
    unfolding Let_def s0_def [symmetric] s1_def [symmetric] s2_def [symmetric] using second assms(4) by simp
qed

text \<open>
  Supplement: Cancelling a task that has already been handed to the execution queue reports success,
  but the task is executed all the same.\<close>
lemma cancelled_task_still_runs:
  "let s = ScheduleImmediate now a acc (NewRefreshScheduler t c)
   in snd (CancelTask (DBID acc) s) \<and> rsRunning (runNext (fst (CancelTask (DBID acc) s))) = [0]"
proof -
  define s0 where "s0 = NewRefreshScheduler t c"
  have e0: "rsTasks s0 = Map.empty" "rsQueue s0 = []" "rsPQ s0 = []" "rsRunning s0 = []" "rsInHand s0 = None" "rsNext s0 = 0"
    "0 < cfMaxConcurrency (rsConfig s0)"
    by (simp_all add: s0_def NewRefreshScheduler_def)
  define s1 where "s1 = ScheduleImmediate now a acc s0"
  have "rsTasks s0 (DBID acc) = None" "length (rsQueue s0) < queueCap" using e0 by (simp_all add: queueCap_def)
  note e1 = ScheduleImmediate_new [OF this, of now a, folded s1_def, unfolded e0]
  have "CancelTask (DBID acc) s1 = ((updTask 0 (\<lambda>t. t\<lparr>rtState := RefreshStateSuccess\<rparr>) s1)\<lparr>rsTasks := (rsTasks s1)(DBID acc := None)\<rparr>, True)"
    using e1 by (simp add: CancelTask_def Let_def freeTask_def removeFromQueue_empty)
  then obtain u where u: "CancelTask (DBID acc) s1 = (u, True)" "rsQueue u = [0]" "rsInHand u = None" "rsRunning u = []"
    "0 < cfMaxConcurrency (rsConfig u)" using e1 e0(7) by simp
  then have "rsRunning (runNext u) = [0]" using runNext_sel(4) [of u 0 "[]"] by simp
  then show ?thesis unfolding Let_def s0_def [symmetric] s1_def [symmetric] using u(1) by simp
qed

subsection \<open>Witnesses\<close>

abbreviation exampleRun :: RefreshScheduler where
  "exampleRun \<equiv> Schedule 0 (1 / 2, 1 / 2) 7 (newAccount 7) (NewRefreshScheduler 0 DefaultRefreshConfig)"

lemma exampleRun_reachable: "rs_step\<^sup>*\<^sup>* (NewRefreshScheduler 0 DefaultRefreshConfig) exampleRun"
  by (rule r_into_rtranclp) (rule rs_step.schedule)

lemma exampleRun_queue: "rsPQ exampleRun = [0]" "peekQueue exampleRun = Some 0"
proof -
  show "rsPQ exampleRun = [0]"
    by (simp add: Schedule_def NewRefreshScheduler_def Let_def pushToQueue_def freeTask_def queue_of_one)
  then show "peekQueue exampleRun = Some 0" by (simp add: peekQueue_def)
qed



text \<open>A task that failed once.\<close>

abbreviation failedOnce :: RefreshScheduler where
  "failedOnce \<equiv> finishTask 5 (1 / 2) 3 (Some ''connection reset'') 0
     (runNext (ScheduleImmediate 0 7 (newAccount 7) (NewRefreshScheduler 0 DefaultRefreshConfig)))"

lemma failedOnce_sel:
  "rtState (rsMem failedOnce 0) = RefreshStateRetrying" "rtAttempts (rsMem failedOnce 0) = 1" "rsConfig failedOnce = DefaultRefreshConfig"
  "rs_step\<^sup>*\<^sup>* (NewRefreshScheduler 0 DefaultRefreshConfig) failedOnce"
proof -
  define s0 where "s0 = NewRefreshScheduler 0 DefaultRefreshConfig"
  have e0: "rsTasks s0 = Map.empty" "rsQueue s0 = []" "rsPQ s0 = []" "rsRunning s0 = []" "rsInHand s0 = None" "rsNext s0 = 0"
    "rsConfig s0 = DefaultRefreshConfig"
    by (simp_all add: s0_def NewRefreshScheduler_def DefaultRefreshConfig_def)
  define s1 where "s1 = ScheduleImmediate 0 7 (newAccount 7) s0"
  have "rsTasks s0 (DBID (newAccount 7)) = None" "length (rsQueue s0) < queueCap" using e0 by (simp_all add: queueCap_def)
  note e1 = ScheduleImmediate_new [OF this, of 0 7, folded s1_def, unfolded e0]
  have h: "rsQueue s1 = 0 # []" "rsInHand s1 = None" "int (length (rsRunning s1)) < cfMaxConcurrency (rsConfig s1)"
    using e1 by (simp_all add: DefaultRefreshConfig_def)
  note e2 = runNext_sel [OF h, unfolded e1]
  note e3 = finishTask_sel [of 5 "1 / 2" 3 "Some ''connection reset''" 0 "runNext s1", unfolded e2]
  have nr: "\<not> isNonRetryable ''connection reset''" by code_simp
  have st: "finishTask 5 (1 / 2) 3 (Some ''connection reset'') 0 (runNext s1) = failedOnce" by (simp add: s1_def s0_def)
  show "rtState (rsMem failedOnce 0) = RefreshStateRetrying" "rtAttempts (rsMem failedOnce 0) = 1" "rsConfig failedOnce = DefaultRefreshConfig"
    unfolding st [symmetric] using e3 nr by (simp_all add: finishedTask_def Let_def freeTask_def DefaultRefreshConfig_def)
  have take: "takeTask s1 = Some (s1\<lparr>rsQueue := [], rsInHand := Some 0\<rparr>)" using h by (simp add: takeTask_def)
  obtain u where u: "startTask (s1\<lparr>rsQueue := [], rsInHand := Some 0\<rparr>) = Some u" using h by (simp add: startTask_def)
  have "runNext s1 = u" using take u by simp
  then have "rs_step (runNext s1) failedOnce" unfolding st [symmetric] using rs_step.finish [of 0 "runNext s1"] e2 by simp
  moreover have "rs_step\<^sup>*\<^sup>* s0 (runNext s1)"
    using rs_step.immediate [of s0 0 7 "newAccount 7", folded s1_def] rs_step.take [OF take] rs_step.start [OF u] \<open>runNext s1 = u\<close>
    by (meson rtranclp.rtrancl_into_rtrancl rtranclp.rtrancl_refl)
  ultimately show "rs_step\<^sup>*\<^sup>* (NewRefreshScheduler 0 DefaultRefreshConfig) failedOnce" unfolding s0_def [symmetric] by simp
qed

theorem retry_waits_within_bounds_witness:
  "calculateRetryTime DefaultRefreshConfig 5 (1 / 2) 1 \<in> {5 + Second .. 5 + Second + 2 * (Second div 10)}"
proof -
  have c: "cfRetryBackoffBase DefaultRefreshConfig = Second" "cfJitterPercent DefaultRefreshConfig = 1 / 10"
    by (simp_all add: DefaultRefreshConfig_def)
  have "Second < 2 ^ 63" "0 < Second" "min (5 * Minute) Second = Second" by (simp_all add: go_defs)
  then show ?thesis
    using retry_waits_within_bounds [OF failedOnce_sel(4,1), of "1 / 2" 5, unfolded failedOnce_sel(2,3) c] by simp
qed

theorem urgent_refresh_first_witness:
  "calculatePriority 100 (newAccount 2) < calculatePriority 100 ((newAccount 1)\<lparr>ExpiresAt := 200, HealthTier := HealthTierBanned\<rparr>)"
  by (rule urgent_refresh_first) (simp_all add: newAccount_def time_Sub_def minDuration_def maxDuration_def go_defs)

theorem due_task_waits_behind_future_task_witness:
  "let soon = (newAccount 1)\<lparr>ExpiresAt := 60 * Minute, HealthTier := HealthTierHealthy\<rparr>;
       due = (newAccount 2)\<lparr>HealthTier := HealthTierRisky\<rparr>;
       s = Schedule 0 (1 / 2, 1 / 2) 2 due (Schedule 0 (1 / 2, 1 / 2) 1 soon (NewRefreshScheduler 0 DefaultRefreshConfig))
   in processScheduledTasks (50 * Minute) s = s"
proof -
  let ?soon = "(newAccount 1)\<lparr>ExpiresAt := 60 * Minute, HealthTier := HealthTierHealthy\<rparr>"
  let ?due = "(newAccount 2)\<lparr>HealthTier := HealthTierRisky\<rparr>"
  have "calculatePriority 0 ?due < calculatePriority 0 ?soon"
    "50 * Minute < calculateOptimalTime DefaultRefreshConfig 0 (1 / 2, 1 / 2) ?soon"
    "calculateOptimalTime DefaultRefreshConfig 0 (1 / 2, 1 / 2) ?due \<le> 50 * Minute"
    by (simp_all add: calculatePriority_def calculateOptimalTime_def newAccount_def DefaultRefreshConfig_def randomJitter_def toDuration_def
        time_Sub_def minDuration_def maxDuration_def go_defs Let_def)
  then show ?thesis
    using due_task_waits_behind_future_task [of ?soon ?due 0 0 "50 * Minute" "(1 / 2, 1 / 2)" "(1 / 2, 1 / 2)" 2 1 0]
    by (simp add: Let_def newAccount_def)
qed

end
