(* ===== verification/Gjson.thy ===== *)
theory Gjson
  imports GoStrings
begin

section \<open>The JSON reader as a parameter\<close>

text \<open>
  The program reads JSON with the package \<open>gjson\<close>, which is not part of its sources. The definitions that
  use it take its functions as an argument, a record of type \<open>'r gjson\<close>, where \<open>'r\<close> is the type of its
  results; what a claim needs of them is a hypothesis \<open>gjson_reads\<close> or is stated in the claim. The
  datatype \<open>jvalue\<close> with \<open>sampleGjson\<close> is one concrete reader, of already parsed documents, on which the
  hypotheses are shown to hold.
\<close>

datatype gjsonType = GNull | GFalse | GNumber | GString | GTrue | GJSON

record 'r gjson =
  GetBytes :: "string \<Rightarrow> string \<Rightarrow> 'r"
  gjGet :: "'r \<Rightarrow> string \<Rightarrow> 'r"
  gjExists :: "'r \<Rightarrow> bool"
  gjType :: "'r \<Rightarrow> gjsonType"
  gjIsArray :: "'r \<Rightarrow> bool"
  gjIsObject :: "'r \<Rightarrow> bool"
  gjString :: "'r \<Rightarrow> string"
  gjInt :: "'r \<Rightarrow> int"
  gjFloat :: "'r \<Rightarrow> float64"
  gjBool :: "'r \<Rightarrow> bool"
  gjArray :: "'r \<Rightarrow> 'r list"
  gjEntries :: "'r \<Rightarrow> (string \<times> 'r) list"
  gjValid :: "string \<Rightarrow> bool"

text \<open>The string, and the number, at a path of a document.\<close>

definition strAt :: "'r gjson \<Rightarrow> string \<Rightarrow> string \<Rightarrow> string" where
  "strAt g body path = gjString g (GetBytes g body path)"

definition intAt :: "'r gjson \<Rightarrow> string \<Rightarrow> string \<Rightarrow> int" where
  "intAt g body path = gjInt g (GetBytes g body path)"

text \<open>Documented behaviour: a result that does not exist reads as the empty string and zero, an array exists and has type
  \<open>JSON\<close>, and the key \<open>#\<close> of an array is the number of its elements.\<close>

definition gjson_reads :: "'r gjson \<Rightarrow> bool" where
  "gjson_reads g \<longleftrightarrow>
     (\<forall>r. \<not> gjExists g r \<longrightarrow> gjString g r = [] \<and> gjInt g r = 0) \<and>
     (\<forall>r. gjIsArray g r \<longrightarrow> gjExists g r \<and> gjType g r = GJSON) \<and>
     (\<forall>r. gjIsArray g r \<longrightarrow> gjInt g (gjGet g r ''#'') = int (length (gjArray g r)))"

subsection \<open>A concrete reader\<close>

datatype jvalue =
  JNull | JBool bool | JNumber int | JString string | JArray "jvalue list" | JObject "(string \<times> jvalue) list"

fun jstep :: "jvalue option \<Rightarrow> string \<Rightarrow> jvalue option" where
  "jstep (Some (JObject kvs)) k = map_of kvs k"
| "jstep (Some (JArray vs)) k =
     (if k = ''#'' then Some (JNumber (int (length vs)))
      else case find (\<lambda>i. showNat i = k) [0..<length vs] of None \<Rightarrow> None | Some i \<Rightarrow> Some (vs ! i))"
| "jstep _ k = None"

definition jget :: "jvalue option \<Rightarrow> string \<Rightarrow> jvalue option" where
  "jget v path = foldl jstep v (Split (CHR ''.'') path)"

fun jtype :: "jvalue option \<Rightarrow> gjsonType" where
  "jtype (Some (JBool b)) = (if b then GTrue else GFalse)"
| "jtype (Some (JNumber n)) = GNumber"
| "jtype (Some (JString s)) = GString"
| "jtype (Some (JArray vs)) = GJSON"
| "jtype (Some (JObject kvs)) = GJSON"
| "jtype _ = GNull"

fun jstring :: "jvalue option \<Rightarrow> string" where
  "jstring (Some (JString s)) = s"
| "jstring (Some (JNumber n)) = showInt n"
| "jstring (Some (JBool b)) = (if b then ''true'' else ''false'')"
| "jstring _ = []"

fun jint :: "jvalue option \<Rightarrow> int" where
  "jint (Some (JNumber n)) = n"
| "jint (Some (JBool b)) = (if b then 1 else 0)"
| "jint _ = 0"

fun jarray :: "jvalue option \<Rightarrow> jvalue option list" where
  "jarray (Some (JArray vs)) = map Some vs"
| "jarray (Some JNull) = []"
| "jarray None = []"
| "jarray v = [v]"

fun jisArray :: "jvalue option \<Rightarrow> bool" where
  "jisArray (Some (JArray vs)) = True"
| "jisArray _ = False"

fun jisObject :: "jvalue option \<Rightarrow> bool" where
  "jisObject (Some (JObject kvs)) = True"
| "jisObject _ = False"

fun jentries :: "jvalue option \<Rightarrow> (string \<times> jvalue option) list" where
  "jentries (Some (JObject kvs)) = map (\<lambda>(k, v). (k, Some v)) kvs"
| "jentries _ = []"

text \<open>\<open>parse\<close> gives the document of a body.\<close>

definition sampleGjson :: "(string \<Rightarrow> jvalue option) \<Rightarrow> jvalue option gjson" where
  "sampleGjson parse =
     \<lparr>GetBytes = (\<lambda>body path. jget (parse body) path), gjGet = jget, gjExists = (\<lambda>v. v \<noteq> None), gjType = jtype,
      gjIsArray = jisArray, gjIsObject = jisObject, gjString = jstring, gjInt = jint,
      gjFloat = (\<lambda>v. real_of_int (jint v)), gjBool = (\<lambda>v. v = Some (JBool True)), gjArray = jarray,
      gjEntries = jentries, gjValid = (\<lambda>body. parse body \<noteq> None)\<rparr>"

lemma jisArray_iff: "jisArray v \<longleftrightarrow> (\<exists>vs. v = Some (JArray vs))"
  by (cases v rule: jisArray.cases) simp_all

lemma sample_reads: "gjson_reads (sampleGjson parse)"
  by (auto simp: gjson_reads_def sampleGjson_def jisArray_iff jget_def)

end
