(* ===== verification/FastScheduler.thy ===== *)
theory FastScheduler
  imports Account
begin

section \<open>The fast scheduler\<close>

text \<open>
  Models \<open>auth/fast_scheduler.go\<close>: buckets of entries per health tier, an index of positions
  by database ID, round-robin cursors, and the acquisition loop. Accounts are shared objects, so
  they live in a heap: a pointer that the heap does not map is a nil pointer. Every exported
  method holds the scheduler's mutex for its whole body, so it is one step. The cursors are
  64-bit words: the source converts a cursor to a signed integer before taking the remainder, and
  the model keeps the negative index, and the panic, that this can give. The acquisition loop
  restarts whenever it meets an entry whose cached tier or score is out of date; it is modelled
  with fuel, and one unit more than there are entries is shown to be enough.
\<close>

type_synonym ptr = nat
type_synonym account_heap = "ptr \<rightharpoonup> Account"

definition fastSchedulerTierOrder :: "AccountHealthTier list" where
  "fastSchedulerTierOrder = [HealthTierHealthy, HealthTierWarm, HealthTierRisky]"

record fastSchedulerEntry =
  entAcc :: ptr
  entDbID :: int
  entScore :: float64
  entProven :: bool

record fastSchedulerPosition =
  posTier :: AccountHealthTier
  posIndex :: nat

record FastScheduler =
  fsBaseLimit :: int
  fsMode :: string
  fsBuckets :: "AccountHealthTier \<Rightarrow> fastSchedulerEntry list"
  fsPositions :: "int \<rightharpoonup> fastSchedulerPosition"
  fsCursors :: "nat \<Rightarrow> 64 word"
  fsGroupCheck :: "(int \<Rightarrow> Account \<Rightarrow> bool) option"

definition NewFastScheduler :: "int \<Rightarrow> string \<Rightarrow> FastScheduler" where
  "NewFastScheduler baseLimit mode =
     \<lparr>fsBaseLimit = (if baseLimit \<le> 0 then 1 else baseLimit),
      fsMode = (if mode = [] then ''round_robin'' else mode),
      fsBuckets = (\<lambda>_. []), fsPositions = Map.empty, fsCursors = (\<lambda>_. 0), fsGroupCheck = None\<rparr>"

definition SetGroupCheck :: "(int \<Rightarrow> Account \<Rightarrow> bool) option \<Rightarrow> FastScheduler \<Rightarrow> FastScheduler" where
  "SetGroupCheck check s = s\<lparr>fsGroupCheck := check\<rparr>"

definition SetBaseLimit :: "int \<Rightarrow> FastScheduler \<Rightarrow> FastScheduler" where
  "SetBaseLimit baseLimit s = s\<lparr>fsBaseLimit := (if baseLimit \<le> 0 then 1 else baseLimit)\<rparr>"

definition SchedulerMode :: "FastScheduler \<Rightarrow> string" where
  "SchedulerMode s = fsMode s"

definition BucketSizes :: "FastScheduler \<Rightarrow> AccountHealthTier \<rightharpoonup> nat" where
  "BucketSizes s = (\<lambda>t. if t \<in> set fastSchedulerTierOrder then Some (length (fsBuckets s t)) else None)"

subsection \<open>The orders of a bucket\<close>

text \<open>An entry's account is never nil (see the invariant \<open>fs_wf\<close> below).\<close>

definition entUsage :: "account_heap \<Rightarrow> fastSchedulerEntry \<Rightarrow> float64" where
  "entUsage h e = (case h (entAcc e) of Some a \<Rightarrow> usagePercentForScheduling a | None \<Rightarrow> 0)"

definition provenLess :: "fastSchedulerEntry \<Rightarrow> fastSchedulerEntry \<Rightarrow> bool" where
  "provenLess e f = (if entProven e \<noteq> entProven f then entProven e else entDbID e < entDbID f)"

definition scoreLess :: "fastSchedulerEntry \<Rightarrow> fastSchedulerEntry \<Rightarrow> bool" where
  "scoreLess e f = (if entScore e = entScore f then provenLess e f else entScore e > entScore f)"

definition quotaLess :: "account_heap \<Rightarrow> fastSchedulerEntry \<Rightarrow> fastSchedulerEntry \<Rightarrow> bool" where
  "quotaLess h e f = (if entUsage h e = entUsage h f then provenLess e f else entUsage h e < entUsage h f)"

definition roundRobinLess :: "account_heap \<Rightarrow> fastSchedulerEntry \<Rightarrow> fastSchedulerEntry \<Rightarrow> bool" where
  "roundRobinLess h e f =
     (if entUsage h e = entUsage h f then
        (if entScore e \<noteq> entScore f then entScore e > entScore f else provenLess e f)
      else entUsage h e < entUsage h f)"

text \<open>The order of \<open>Rebuild\<close> and \<open>SetSchedulerMode\<close>, and the order of \<open>insertLocked\<close>.\<close>

definition modeLess :: "string \<Rightarrow> account_heap \<Rightarrow> fastSchedulerEntry \<Rightarrow> fastSchedulerEntry \<Rightarrow> bool" where
  "modeLess mode h = (if mode = ''remaining_quota'' then quotaLess h else scoreLess)"

definition insertLess ::
  "string \<Rightarrow> AccountHealthTier \<Rightarrow> account_heap \<Rightarrow> fastSchedulerEntry \<Rightarrow> fastSchedulerEntry \<Rightarrow> bool" where
  "insertLess mode tier h =
     (if mode = ''remaining_quota'' then quotaLess h
      else if mode = ''round_robin'' \<and> tier = HealthTierHealthy then roundRobinLess h
      else scoreLess)"

subsection \<open>Inserting and removing\<close>

definition rebuildPositionsLocked :: "AccountHealthTier \<Rightarrow> FastScheduler \<Rightarrow> FastScheduler" where
  "rebuildPositionsLocked tier s =
     s\<lparr>fsPositions :=
        fold (\<lambda>(idx, entry) m. m(entDbID entry \<mapsto> \<lparr>posTier = tier, posIndex = idx\<rparr>))
          (enumerate 0 (fsBuckets s tier)) (fsPositions s)\<rparr>"

definition removeLocked :: "int \<Rightarrow> FastScheduler \<Rightarrow> FastScheduler" where
  "removeLocked dbID s =
     (case fsPositions s dbID of
        None \<Rightarrow> s
      | Some pos \<Rightarrow>
          let entries = fsBuckets s (posTier pos)
          in if posIndex pos \<ge> length entries then s\<lparr>fsPositions := (fsPositions s)(dbID := None)\<rparr>
             else rebuildPositionsLocked (posTier pos)
               (s\<lparr>fsBuckets := (fsBuckets s)(posTier pos :=
                    take (posIndex pos) entries @ drop (Suc (posIndex pos)) entries),
                  fsPositions := (fsPositions s)(dbID := None)\<rparr>))"

definition snapEntry :: "ptr \<Rightarrow> Account \<Rightarrow> AccSnapshot \<Rightarrow> fastSchedulerEntry" where
  "snapEntry p a v = \<lparr>entAcc = p, entDbID = DBID a, entScore = snScore v, entProven = snProven v\<rparr>"

definition insertLocked :: "time \<Rightarrow> ptr \<Rightarrow> account_heap \<times> FastScheduler \<Rightarrow> account_heap \<times> FastScheduler" where
  "insertLocked now p hs =
     (let h = fst hs; s = snd hs
      in case h p of
           None \<Rightarrow> (h, s)
         | Some acc \<Rightarrow>
             if DBID acc = 0 then (h, s)
             else
               let snap = fastSchedulerSnapshot (fsBaseLimit s) now acc;
                   h' = h(p \<mapsto> fst snap);
                   v = snd snap
               in if \<not> snAvailable v \<or> snLimit v \<le> 0 then (h', s)
                  else if snTier v \<notin> set fastSchedulerTierOrder then (h', s)
                  else (h', rebuildPositionsLocked (snTier v)
                    (s\<lparr>fsBuckets := (fsBuckets s)(snTier v :=
                       stable_sort (insertLess (fsMode s) (snTier v) h')
                         (fsBuckets s (snTier v) @ [snapEntry p acc v]))\<rparr>)))"

definition Update :: "time \<Rightarrow> ptr \<Rightarrow> account_heap \<times> FastScheduler \<Rightarrow> account_heap \<times> FastScheduler" where
  "Update now p hs =
     (case fst hs p of
        None \<Rightarrow> hs
      | Some acc \<Rightarrow> insertLocked now p (fst hs, removeLocked (DBID acc) (snd hs)))"

definition Remove :: "int \<Rightarrow> FastScheduler \<Rightarrow> FastScheduler" where
  "Remove dbID s = (if dbID = 0 then s else removeLocked dbID s)"

subsection \<open>Rebuilding\<close>

definition resortTier :: "account_heap \<Rightarrow> AccountHealthTier \<Rightarrow> FastScheduler \<Rightarrow> FastScheduler" where
  "resortTier h tier s =
     (if fsBuckets s tier = [] then s
      else rebuildPositionsLocked tier
        (s\<lparr>fsBuckets := (fsBuckets s)(tier := stable_sort (modeLess (fsMode s) h) (fsBuckets s tier))\<rparr>))"

definition SetSchedulerMode :: "account_heap \<Rightarrow> string \<Rightarrow> FastScheduler \<Rightarrow> FastScheduler" where
  "SetSchedulerMode h mode s =
     fold (resortTier h) fastSchedulerTierOrder (s\<lparr>fsMode := (if mode = [] then ''round_robin'' else mode)\<rparr>)"

definition collectAccount :: "time \<Rightarrow> ptr \<Rightarrow> account_heap \<times> FastScheduler \<Rightarrow> account_heap \<times> FastScheduler" where
  "collectAccount now p hs =
     (let h = fst hs; s = snd hs
      in case h p of
           None \<Rightarrow> (h, s)
         | Some acc \<Rightarrow>
             if DBID acc = 0 then (h, s)
             else
               let snap = fastSchedulerSnapshot (fsBaseLimit s) now acc;
                   h' = h(p \<mapsto> fst snap);
                   v = snd snap
               in if \<not> snAvailable v \<or> snLimit v \<le> 0 then (h', s)
                  else if snTier v \<notin> set fastSchedulerTierOrder then (h', s)
                  else (h', s\<lparr>fsBuckets := (fsBuckets s)(snTier v := fsBuckets s (snTier v) @ [snapEntry p acc v])\<rparr>))"

definition Rebuild :: "time \<Rightarrow> ptr list \<Rightarrow> account_heap \<times> FastScheduler \<Rightarrow> account_heap \<times> FastScheduler" where
  "Rebuild now accounts hs =
     (let collected = fold (collectAccount now) accounts
            (fst hs, (snd hs)\<lparr>fsBuckets := (\<lambda>_. []), fsPositions := Map.empty\<rparr>)
      in (fst collected, fold (resortTier (fst collected)) fastSchedulerTierOrder (snd collected)))"

subsection \<open>Acquiring\<close>

text \<open>The arguments of one acquisition: the clock, the API key, the excluded account IDs and
  the request's filter.\<close>

record acquireArgs =
  argNow :: time
  argKey :: int
  argExclude :: "int set"
  argFilter :: "(Account \<Rightarrow> bool) option"

datatype scan_result = ScanAcquired ptr | ScanStale | ScanNone | ScanPanic

text \<open>The tests that skip an entry before its snapshot is taken.\<close>

definition admitted :: "acquireArgs \<Rightarrow> (int \<Rightarrow> Account \<Rightarrow> bool) option \<Rightarrow> fastSchedulerEntry \<Rightarrow> Account \<Rightarrow> bool" where
  "admitted q check entry a \<longleftrightarrow>
     entDbID entry \<notin> argExclude q \<and> AllowsAPIKey (argKey q) a \<and>
     (case check of None \<Rightarrow> True | Some g \<Rightarrow> g (argKey q) a) \<and>
     (case argFilter q of None \<Rightarrow> True | Some f \<Rightarrow> f a)"

definition outdated :: "AccountHealthTier \<Rightarrow> fastSchedulerEntry \<Rightarrow> AccSnapshot \<Rightarrow> bool" where
  "outdated tier entry v \<longleftrightarrow>
     snTier v \<noteq> tier \<or> snProven v \<noteq> entProven entry \<or> \<bar>snScore v - entScore entry\<bar> \<ge> 1"

text \<open>One turn of the loop of \<open>scanRangeLocked\<close>; \<open>ScanNone\<close> is its \<open>continue\<close>.\<close>

definition scanEntry ::
  "acquireArgs \<Rightarrow> AccountHealthTier \<Rightarrow> fastSchedulerEntry \<Rightarrow> account_heap \<Rightarrow> FastScheduler \<Rightarrow>
   account_heap \<times> FastScheduler \<times> scan_result" where
  "scanEntry q tier entry h s =
     (case h (entAcc entry) of
        None \<Rightarrow> (h, s, ScanNone)
      | Some a \<Rightarrow>
          if \<not> admitted q (fsGroupCheck s) entry a then (h, s, ScanNone)
          else
            let snap = fastSchedulerSnapshot (fsBaseLimit s) (argNow q) a;
                h' = h(entAcc entry \<mapsto> fst snap);
                v = snd snap
            in if outdated tier entry v then
                 (let hs = (if snAvailable v \<and> snLimit v > 0
                            then insertLocked (argNow q) (entAcc entry) (h', removeLocked (entDbID entry) s)
                            else (h', removeLocked (entDbID entry) s))
                  in (fst hs, snd hs, ScanStale))
               else if \<not> snAvailable v \<or> snLimit v \<le> 0 then (h', s, ScanNone)
               else (case tryAcquireAccount (argNow q) (snLimit v) (fst snap) of
                       None \<Rightarrow> (h', s, ScanNone)
                     | Some a' \<Rightarrow> (h'(entAcc entry \<mapsto> a'), s, ScanAcquired (entAcc entry))))"

fun scanLoop ::
  "acquireArgs \<Rightarrow> AccountHealthTier \<Rightarrow> fastSchedulerEntry list \<Rightarrow> int \<Rightarrow> nat list \<Rightarrow> account_heap \<Rightarrow>
   FastScheduler \<Rightarrow> account_heap \<times> FastScheduler \<times> scan_result" where
  "scanLoop q tier bucket start [] h s = (h, s, ScanNone)"
| "scanLoop q tier bucket start (off # offs) h s =
     (let idx = (start + int off) smod int (length bucket)
      in if idx < 0 then (h, s, ScanPanic)
         else case scanEntry q tier (bucket ! nat idx) h s of
                (h', s', ScanNone) \<Rightarrow> scanLoop q tier bucket start offs h' s'
              | r \<Rightarrow> r)"

text \<open>\<open>cursor\<close> is the value read before the increment; \<open>int(uint64)\<close> is the signed reading.\<close>

definition scanRangeLocked ::
  "acquireArgs \<Rightarrow> AccountHealthTier \<Rightarrow> 64 word \<Rightarrow> account_heap \<Rightarrow> FastScheduler \<Rightarrow>
   account_heap \<times> FastScheduler \<times> scan_result" where
  "scanRangeLocked q tier cursor h s =
     (let bucket = fsBuckets s tier; rangeLen = length bucket
      in if rangeLen = 0 then (h, s, ScanNone)
         else scanLoop q tier bucket (sint cursor smod int rangeLen) [0..<rangeLen] h s)"

text \<open>The inner loop over the tiers. In mode \<open>remaining_quota\<close> the cursor is a local zero;
  otherwise the tier's cursor is advanced.\<close>

fun acquireTiers ::
  "acquireArgs \<Rightarrow> (nat \<times> AccountHealthTier) list \<Rightarrow> account_heap \<Rightarrow> FastScheduler \<Rightarrow>
   account_heap \<times> FastScheduler \<times> scan_result" where
  "acquireTiers q [] h s = (h, s, ScanNone)"
| "acquireTiers q ((tierIdx, tier) # rest) h s =
     (if fsBuckets s tier = [] then acquireTiers q rest h s
      else
        let quota = (fsMode s = ''remaining_quota'');
            cursor = (if quota then 0 else fsCursors s tierIdx);
            s1 = (if quota then s else s\<lparr>fsCursors := (fsCursors s)(tierIdx := cursor + 1)\<rparr>)
        in case scanRangeLocked q tier cursor h s1 of
             (h', s', ScanNone) \<Rightarrow> acquireTiers q rest h' s'
           | r \<Rightarrow> r)"

fun acquireLoop ::
  "nat \<Rightarrow> acquireArgs \<Rightarrow> account_heap \<Rightarrow> FastScheduler \<Rightarrow> (account_heap \<times> FastScheduler \<times> scan_result) option" where
  "acquireLoop 0 q h s = None"
| "acquireLoop (Suc fuel) q h s =
     (case acquireTiers q (enumerate 0 fastSchedulerTierOrder) h s of
        (h', s', ScanStale) \<Rightarrow> acquireLoop fuel q h' s'
      | r \<Rightarrow> Some r)"

definition entryCount :: "FastScheduler \<Rightarrow> nat" where
  "entryCount s = sum_list (map (length \<circ> fsBuckets s) fastSchedulerTierOrder)"

definition AcquireExcludingWithFilter ::
  "acquireArgs \<Rightarrow> account_heap \<Rightarrow> FastScheduler \<Rightarrow> (account_heap \<times> FastScheduler \<times> scan_result) option" where
  "AcquireExcludingWithFilter q h s = acquireLoop (Suc (entryCount s)) q h s"

definition AcquireExcluding ::
  "time \<Rightarrow> int \<Rightarrow> int set \<Rightarrow> account_heap \<Rightarrow> FastScheduler \<Rightarrow> (account_heap \<times> FastScheduler \<times> scan_result) option" where
  "AcquireExcluding now apiKeyID exclude =
     AcquireExcludingWithFilter \<lparr>argNow = now, argKey = apiKeyID, argExclude = exclude, argFilter = None\<rparr>"

definition Acquire :: "time \<Rightarrow> account_heap \<Rightarrow> FastScheduler \<Rightarrow> (account_heap \<times> FastScheduler \<times> scan_result) option" where
  "Acquire now = AcquireExcluding now 0 {}"

definition Release :: "ptr \<Rightarrow> account_heap \<Rightarrow> account_heap" where
  "Release p h = (case h p of None \<Rightarrow> h | Some a \<Rightarrow> h(p \<mapsto> releaseAccount a))"

subsection \<open>The orders are strict weak orders\<close>

lemmas less_defs = scoreLess_def quotaLess_def roundRobinLess_def provenLess_def

interpretation score_order: go_less scoreLess
  by unfold_locales (auto simp: less_defs split: if_splits)

interpretation quota_order: go_less "quotaLess h" for h
  by unfold_locales (auto simp: less_defs split: if_splits)

interpretation round_robin_order: go_less "roundRobinLess h" for h
  by unfold_locales (auto simp: less_defs split: if_splits)

interpretation mode_order: go_less "modeLess mode h" for mode h
  by unfold_locales (auto simp: modeLess_def less_defs split: if_splits)

interpretation insert_order: go_less "insertLess mode tier h" for mode tier h
  by unfold_locales (auto simp: insertLess_def less_defs split: if_splits)

subsection \<open>The index of positions\<close>

text \<open>The entries of all buckets with their tiers, in scanning order.\<close>

definition tagged :: "FastScheduler \<Rightarrow> (AccountHealthTier \<times> fastSchedulerEntry) list" where
  "tagged s = concat (map (\<lambda>t. map (Pair t) (fsBuckets s t)) fastSchedulerTierOrder)"

abbreviation tagID :: "AccountHealthTier \<times> fastSchedulerEntry \<Rightarrow> int" where
  "tagID \<equiv> entDbID \<circ> snd"

definition exact_on :: "AccountHealthTier set \<Rightarrow> FastScheduler \<Rightarrow> bool" where
  "exact_on T s \<longleftrightarrow>
     (\<forall>k t i. fsPositions s k = Some \<lparr>posTier = t, posIndex = i\<rparr> \<longleftrightarrow>
        t \<in> T \<and> i < length (fsBuckets s t) \<and> entDbID (fsBuckets s t ! i) = k)"

definition fs_wf :: "account_heap \<Rightarrow> FastScheduler \<Rightarrow> bool" where
  "fs_wf h s \<longleftrightarrow>
     distinct (map tagID (tagged s)) \<and> exact_on (set fastSchedulerTierOrder) s \<and>
     (\<forall>t. t \<notin> set fastSchedulerTierOrder \<longrightarrow> fsBuckets s t = []) \<and>
     (\<forall>(t, e) \<in> set (tagged s). \<exists>a. h (entAcc e) = Some a \<and> DBID a = entDbID e \<and> entDbID e \<noteq> 0)"

lemma tagged_simps: "tagged s = map (Pair HealthTierHealthy) (fsBuckets s HealthTierHealthy) @
   map (Pair HealthTierWarm) (fsBuckets s HealthTierWarm) @ map (Pair HealthTierRisky) (fsBuckets s HealthTierRisky)"
  by (simp add: tagged_def fastSchedulerTierOrder_def)

lemma tagged_iff: "(t, e) \<in> set (tagged s) \<longleftrightarrow> t \<in> set fastSchedulerTierOrder \<and> e \<in> set (fsBuckets s t)"
  by (auto simp: tagged_def)

lemma tagged_cong [simp]:
  "tagged (rebuildPositionsLocked t s) = tagged s"
  "tagged (s\<lparr>fsPositions := m\<rparr>) = tagged s"
  "tagged (s\<lparr>fsCursors := c\<rparr>) = tagged s"
  "tagged (s\<lparr>fsMode := d\<rparr>) = tagged s"
  "tagged (s\<lparr>fsBaseLimit := b\<rparr>) = tagged s"
  by (simp_all add: tagged_def rebuildPositionsLocked_def)

lemma rebuildPositions_sel [simp]:
  "fsBaseLimit (rebuildPositionsLocked t s) = fsBaseLimit s"
  "fsMode (rebuildPositionsLocked t s) = fsMode s"
  "fsBuckets (rebuildPositionsLocked t s) = fsBuckets s"
  "fsCursors (rebuildPositionsLocked t s) = fsCursors s"
  "fsGroupCheck (rebuildPositionsLocked t s) = fsGroupCheck s"
  by (simp_all add: rebuildPositionsLocked_def)

lemma tagged_update_mset:
  assumes "t \<in> set fastSchedulerTierOrder"
  shows "mset (tagged (s\<lparr>fsBuckets := (fsBuckets s)(t := b)\<rparr>)) + mset (map (Pair t) (fsBuckets s t)) =
         mset (tagged s) + mset (map (Pair t) b)"
  using assms by (auto simp: tagged_simps fastSchedulerTierOrder_def)

lemma bucket_ids_distinct:
  assumes "distinct (map tagID (tagged s))" "t \<in> set fastSchedulerTierOrder"
  shows "distinct (map entDbID (fsBuckets s t))"
  using assms by (auto simp: tagged_simps fastSchedulerTierOrder_def comp_def)

lemma bucket_ids_disjoint:
  assumes "distinct (map tagID (tagged s))" "(t, e) \<in> set (tagged s)" "(u, f) \<in> set (tagged s)"
    "entDbID e = entDbID f"
  shows "t = u \<and> e = f"
  using assms by (metis comp_apply distinct_map inj_onD prod.inject snd_conv)

lemma fold_positions_other:
  "k \<notin> entDbID ` set b \<Longrightarrow>
   fold (\<lambda>(idx, e) m. m(entDbID e \<mapsto> \<lparr>posTier = t, posIndex = idx\<rparr>)) (enumerate n b) m k = m k"
  by (induction b arbitrary: n m) auto

lemma fold_positions_at:
  "distinct (map entDbID b) \<Longrightarrow> i < length b \<Longrightarrow>
   fold (\<lambda>(idx, e) m. m(entDbID e \<mapsto> \<lparr>posTier = t, posIndex = idx\<rparr>)) (enumerate n b) m (entDbID (b ! i))
   = Some \<lparr>posTier = t, posIndex = n + i\<rparr>"
proof (induction b arbitrary: n m i)
  case (Cons e b)
  show ?case
  proof (cases i)
    case 0
    then show ?thesis using Cons.prems by (simp add: fold_positions_other del: fun_upd_apply) simp
  next
    case (Suc j)
    then show ?thesis using Cons.prems Cons.IH [of j "Suc n"] by simp
  qed
qed simp

lemma rebuildPositions_other:
  "k \<notin> entDbID ` set (fsBuckets s t) \<Longrightarrow> fsPositions (rebuildPositionsLocked t s) k = fsPositions s k"
  by (simp add: rebuildPositionsLocked_def fold_positions_other)

lemma rebuildPositions_at:
  "distinct (map entDbID (fsBuckets s t)) \<Longrightarrow> i < length (fsBuckets s t) \<Longrightarrow>
   fsPositions (rebuildPositionsLocked t s) (entDbID (fsBuckets s t ! i)) = Some \<lparr>posTier = t, posIndex = i\<rparr>"
  using fold_positions_at [of "fsBuckets s t" i t 0] by (simp add: rebuildPositionsLocked_def)

text \<open>Rebuilding one tier makes that tier exact, if what was recorded for the other IDs is exact
  on the other tiers.\<close>

lemma exact_on_rebuild:
  assumes d: "distinct (map tagID (tagged s))"
    and t: "t \<in> set fastSchedulerTierOrder" and T: "T \<subseteq> set fastSchedulerTierOrder"
    and m: "\<And>k u i. k \<notin> entDbID ` set (fsBuckets s t) \<Longrightarrow>
      fsPositions s k = Some \<lparr>posTier = u, posIndex = i\<rparr> \<longleftrightarrow>
        u \<in> T \<and> u \<noteq> t \<and> i < length (fsBuckets s u) \<and> entDbID (fsBuckets s u ! i) = k"
  shows "exact_on (insert t T) (rebuildPositionsLocked t s)"
  unfolding exact_on_def
proof (intro allI)
  fix k u i
  let ?P = "\<lambda>u i. i < length (fsBuckets s u) \<and> entDbID (fsBuckets s u ! i) = k"
  have db: "distinct (map entDbID (fsBuckets s t))" using d t by (rule bucket_ids_distinct)
  show "fsPositions (rebuildPositionsLocked t s) k = Some \<lparr>posTier = u, posIndex = i\<rparr> \<longleftrightarrow>
     u \<in> insert t T \<and> i < length (fsBuckets (rebuildPositionsLocked t s) u) \<and>
     entDbID (fsBuckets (rebuildPositionsLocked t s) u ! i) = k"
  proof (cases "k \<in> entDbID ` set (fsBuckets s t)")
    case True
    then obtain j where j: "?P t j" by (auto simp: in_set_conv_nth)
    have "u = t \<and> i = j" if "u \<in> insert t T" "?P u i"
    proof -
      have u: "u \<in> set fastSchedulerTierOrder" using that t T by auto
      have "u = t"
        using bucket_ids_disjoint [OF d, of u "fsBuckets s u ! i" t "fsBuckets s t ! j"] that j t u
        by (simp add: tagged_iff)
      moreover have "i = j"
        using that j db nth_eq_iff_index_eq [of "map entDbID (fsBuckets s t)" i j] \<open>u = t\<close> by simp
      ultimately show ?thesis by simp
    qed
    then show ?thesis using rebuildPositions_at [OF db, of j] j by auto
  next
    case False
    then show ?thesis using m [OF False, of u i] by (auto simp: rebuildPositions_other)
  qed
qed

subsection \<open>Removing, inserting and sorting keep the index exact\<close>

lemma exact_onD:
  "exact_on T s \<Longrightarrow> fsPositions s k = Some pos \<longleftrightarrow>
     posTier pos \<in> T \<and> posIndex pos < length (fsBuckets s (posTier pos)) \<and>
     entDbID (fsBuckets s (posTier pos) ! posIndex pos) = k"
  by (cases pos) (simp add: exact_on_def)

lemma position_of_entry:
  assumes "fs_wf h s" "(t, e) \<in> set (tagged s)"
  obtains i where "fsPositions s (entDbID e) = Some \<lparr>posTier = t, posIndex = i\<rparr>"
    "i < length (fsBuckets s t)" "fsBuckets s t ! i = e"
proof -
  obtain i where i: "i < length (fsBuckets s t)" "fsBuckets s t ! i = e" and t: "t \<in> set fastSchedulerTierOrder"
    using assms(2) unfolding tagged_iff by (meson in_set_conv_nth)
  moreover have "fsPositions s (entDbID e) = Some \<lparr>posTier = t, posIndex = i\<rparr>"
    using assms(1) i t by (simp add: fs_wf_def exact_on_def)
  ultimately show ?thesis using that by blast
qed

lemma position_None_iff:
  assumes "fs_wf h s"
  shows "fsPositions s k = None \<longleftrightarrow> k \<notin> tagID ` set (tagged s)"
proof
  assume "fsPositions s k = None"
  then have "(t, e) \<notin> set (tagged s)" if "entDbID e = k" for t e
    using position_of_entry [OF assms, of t e] that by (metis option.distinct(1))
  then show "k \<notin> tagID ` set (tagged s)" by auto
next
  assume k: "k \<notin> tagID ` set (tagged s)"
  have "fsPositions s k \<noteq> Some pos" for pos
  proof
    assume "fsPositions s k = Some pos"
    then have "(posTier pos, fsBuckets s (posTier pos) ! posIndex pos) \<in> set (tagged s)"
      "entDbID (fsBuckets s (posTier pos) ! posIndex pos) = k"
      using assms exact_onD [of _ s k pos] by (auto simp: fs_wf_def tagged_iff)
    then show False using k by force
  qed
  then show "fsPositions s k = None" by (cases "fsPositions s k") auto
qed

lemma removeLocked_absent: "fs_wf h s \<Longrightarrow> k \<notin> tagID ` set (tagged s) \<Longrightarrow> removeLocked k s = s"
  using position_None_iff [of h s k] by (simp add: removeLocked_def)

lemma removeLocked_sel [simp]:
  "fsBaseLimit (removeLocked k s) = fsBaseLimit s"
  "fsMode (removeLocked k s) = fsMode s"
  "fsCursors (removeLocked k s) = fsCursors s"
  "fsGroupCheck (removeLocked k s) = fsGroupCheck s"
  by (simp_all add: removeLocked_def Let_def split: option.split)

lemma removeLocked_tagged:
  assumes wf: "fs_wf h s" and e: "(t, e) \<in> set (tagged s)"
  shows "mset (tagged s) = add_mset (t, e) (mset (tagged (removeLocked (entDbID e) s)))"
    and "exact_on (set fastSchedulerTierOrder) (removeLocked (entDbID e) s)"
    and "u \<notin> set fastSchedulerTierOrder \<Longrightarrow> fsBuckets (removeLocked (entDbID e) s) u = []"
proof -
  obtain i where i: "fsPositions s (entDbID e) = Some \<lparr>posTier = t, posIndex = i\<rparr>"
    "i < length (fsBuckets s t)" "fsBuckets s t ! i = e" using position_of_entry [OF assms] .
  have t: "t \<in> set fastSchedulerTierOrder" using e by (simp add: tagged_iff)
  let ?b = "take i (fsBuckets s t) @ drop (Suc i) (fsBuckets s t)"
  let ?s = "s\<lparr>fsBuckets := (fsBuckets s)(t := ?b), fsPositions := (fsPositions s)(entDbID e := None)\<rparr>"
  have r: "removeLocked (entDbID e) s = rebuildPositionsLocked t ?s"
    using i by (simp add: removeLocked_def Let_def)
  have b: "fsBuckets s t = take i (fsBuckets s t) @ e # drop (Suc i) (fsBuckets s t)"
    using i(2,3) id_take_nth_drop by blast
  have mb: "mset (fsBuckets s t) = add_mset e (mset ?b)" by (subst b) simp
  then have sb: "set (fsBuckets s t) = insert e (set ?b)" by (metis set_mset_mset set_mset_add_mset_insert)
  have tg: "tagged ?s = tagged (s\<lparr>fsBuckets := (fsBuckets s)(t := ?b)\<rparr>)" by (simp add: tagged_def)
  show 1: "mset (tagged s) = add_mset (t, e) (mset (tagged (removeLocked (entDbID e) s)))"
    using tagged_update_mset [OF t, of s ?b] mb unfolding r by (simp add: tg)
  have d: "distinct (map tagID (tagged s))" using wf by (simp add: fs_wf_def)
  have d': "distinct (map tagID (tagged ?s)) \<and> entDbID e \<notin> tagID ` set (tagged ?s)"
  proof -
    have "mset (map tagID (tagged s)) = mset (entDbID e # map tagID (tagged ?s))"
      using arg_cong [OF 1, of "image_mset tagID"] unfolding r by simp
    then have "distinct (entDbID e # map tagID (tagged ?s))"
      using d mset_eq_imp_distinct_iff by blast
    then show ?thesis by simp
  qed
  have x: "exact_on (set fastSchedulerTierOrder) s" using wf by (simp add: fs_wf_def)
  have "exact_on (insert t (set fastSchedulerTierOrder)) (rebuildPositionsLocked t ?s)"
  proof (rule exact_on_rebuild)
    show "fsPositions ?s k = Some \<lparr>posTier = u, posIndex = j\<rparr> \<longleftrightarrow> u \<in> set fastSchedulerTierOrder \<and> u \<noteq> t \<and>
        j < length (fsBuckets ?s u) \<and> entDbID (fsBuckets ?s u ! j) = k"
      if k: "k \<notin> entDbID ` set (fsBuckets ?s t)" for k u j
    proof (cases "k = entDbID e")
      case True
      have "entDbID (fsBuckets s u ! j) \<noteq> entDbID e"
        if "u \<noteq> t" "j < length (fsBuckets s u)" "u \<in> set fastSchedulerTierOrder"
        using bucket_ids_disjoint [OF d _ e, of u "fsBuckets s u ! j"] that by (auto simp: tagged_iff)
      then show ?thesis using True by auto
    next
      case False
      then have "k \<notin> entDbID ` set (fsBuckets s t)" using k sb by auto
      then have "u \<noteq> t" if "j < length (fsBuckets s u)" "entDbID (fsBuckets s u ! j) = k"
        using that by auto
      then show ?thesis using False x by (auto simp: exact_on_def)
    qed
  qed (use d' t in simp_all)
  then show "exact_on (set fastSchedulerTierOrder) (removeLocked (entDbID e) s)"
    using t by (simp add: r insert_absorb)
  show "fsBuckets (removeLocked (entDbID e) s) u = []" if "u \<notin> set fastSchedulerTierOrder"
    using that t wf by (auto simp: r fs_wf_def)
qed

lemma removeLocked_wf:
  assumes wf: "fs_wf h s"
  shows "fs_wf h (removeLocked k s)" and "k \<notin> tagID ` set (tagged (removeLocked k s))"
    and "set (tagged (removeLocked k s)) \<subseteq> set (tagged s)"
proof -
  have "fs_wf h (removeLocked k s) \<and> k \<notin> tagID ` set (tagged (removeLocked k s)) \<and>
    set (tagged (removeLocked k s)) \<subseteq> set (tagged s)"
  proof (cases "k \<in> tagID ` set (tagged s)")
    case False
    then show ?thesis using removeLocked_absent [OF wf False] wf by simp
  next
    case True
    then obtain t e where e: "(t, e) \<in> set (tagged s)" and k: "k = entDbID e" by auto
    have m: "mset (tagged s) = mset ((t, e) # tagged (removeLocked k s))"
      using removeLocked_tagged(1) [OF wf e] by (simp add: k)
    have "mset (map tagID (tagged s)) = mset (map tagID ((t, e) # tagged (removeLocked k s)))"
      using m by (metis mset_map)
    then have "distinct (map tagID ((t, e) # tagged (removeLocked k s)))"
      using wf mset_eq_imp_distinct_iff unfolding fs_wf_def by blast
    moreover have "set (tagged s) = insert (t, e) (set (tagged (removeLocked k s)))"
      using m by (metis list.set(2) set_mset_mset)
    ultimately show ?thesis
      using wf removeLocked_tagged(2,3) [OF wf e] by (auto simp: fs_wf_def k)
  qed
  then show "fs_wf h (removeLocked k s)" "k \<notin> tagID ` set (tagged (removeLocked k s))"
    "set (tagged (removeLocked k s)) \<subseteq> set (tagged s)" by auto
qed

text \<open>Putting a new entry into a bucket, at any place.\<close>

lemma tagged_add:
  assumes t: "t \<in> set fastSchedulerTierOrder" and b: "mset b = add_mset e (mset (fsBuckets s t))"
  shows "mset (tagged (s\<lparr>fsBuckets := (fsBuckets s)(t := b)\<rparr>)) = add_mset (t, e) (mset (tagged s))"
  using tagged_update_mset [OF t, of s b] b by simp

lemma add_entry_wf:
  assumes wf: "fs_wf h s" and t: "t \<in> set fastSchedulerTierOrder"
    and b: "mset b = add_mset e (mset (fsBuckets s t))"
    and e: "h (entAcc e) = Some a" "DBID a = entDbID e" "entDbID e \<noteq> 0" "entDbID e \<notin> tagID ` set (tagged s)"
  shows "fs_wf h (rebuildPositionsLocked t (s\<lparr>fsBuckets := (fsBuckets s)(t := b)\<rparr>))"
proof -
  let ?s = "s\<lparr>fsBuckets := (fsBuckets s)(t := b)\<rparr>"
  have sb: "set b = insert e (set (fsBuckets s t))" using b by (metis set_mset_add_mset_insert set_mset_mset)
  have m: "mset (tagged ?s) = mset ((t, e) # tagged s)" using tagged_add [OF t b] by simp
  then have st: "set (tagged ?s) = insert (t, e) (set (tagged s))" by (metis list.set(2) set_mset_mset)
  have "distinct (map tagID ((t, e) # tagged s))" using wf e(4) by (auto simp: fs_wf_def)
  then have d: "distinct (map tagID (tagged ?s))" using m mset_eq_imp_distinct_iff by (metis mset_map)
  have "exact_on (insert t (set fastSchedulerTierOrder)) (rebuildPositionsLocked t ?s)"
  proof (rule exact_on_rebuild [OF d t subset_refl])
    show "fsPositions ?s k = Some \<lparr>posTier = u, posIndex = j\<rparr> \<longleftrightarrow> u \<in> set fastSchedulerTierOrder \<and> u \<noteq> t \<and>
        j < length (fsBuckets ?s u) \<and> entDbID (fsBuckets ?s u ! j) = k"
      if k: "k \<notin> entDbID ` set (fsBuckets ?s t)" for k u j
    proof -
      have "u \<noteq> t" if "j < length (fsBuckets s u)" "entDbID (fsBuckets s u ! j) = k"
        using that k sb by auto
      then show ?thesis using wf by (auto simp: fs_wf_def exact_on_def)
    qed
  qed
  then show ?thesis
    using wf d st t e(1-3) by (auto simp: fs_wf_def insert_absorb)
qed

lemma snapEntry_sel [simp]:
  "entAcc (snapEntry p a v) = p" "entDbID (snapEntry p a v) = DBID a"
  "entScore (snapEntry p a v) = snScore v" "entProven (snapEntry p a v) = snProven v"
  by (simp_all add: snapEntry_def)

text \<open>A snapshot refreshes the cached figures of an account and nothing else.\<close>

definition refreshed :: "int \<Rightarrow> time \<Rightarrow> account_heap \<Rightarrow> account_heap \<Rightarrow> bool" where
  "refreshed b now h h' \<longleftrightarrow>
     (\<forall>p. h' p = h p \<or> (\<exists>a. h p = Some a \<and> h' p = Some (fst (fastSchedulerSnapshot b now a))))"

lemma refreshed_refl [simp]: "refreshed b now h h"
  by (simp add: refreshed_def)

lemma refreshed_upd: "h p = Some a \<Longrightarrow> refreshed b now h (h(p \<mapsto> fst (fastSchedulerSnapshot b now a)))"
  by (simp add: refreshed_def)

lemma refreshed_trans [trans]: "refreshed b now h h' \<Longrightarrow> refreshed b now h' h'' \<Longrightarrow> refreshed b now h h''"
  unfolding refreshed_def by (metis option.inject snapshot_idem)

lemma refreshed_SomeD:
  "refreshed b now h h' \<Longrightarrow> h p = Some a \<Longrightarrow> \<exists>a'. h' p = Some a' \<and> (a' = a \<or> a' = fst (fastSchedulerSnapshot b now a))"
  unfolding refreshed_def by (metis option.inject)

lemma refreshed_backD:
  "refreshed b now h h' \<Longrightarrow> h' p = Some a' \<Longrightarrow> \<exists>a. h p = Some a \<and> (a' = a \<or> a' = fst (fastSchedulerSnapshot b now a))"
  unfolding refreshed_def by (metis option.inject)

lemma fs_wf_mono:
  assumes "fs_wf h s" "\<And>p a. h p = Some a \<Longrightarrow> \<exists>a'. h' p = Some a' \<and> DBID a' = DBID a"
  shows "fs_wf h' s"
  using assms unfolding fs_wf_def by fastforce

lemma fs_wf_refreshed: "fs_wf h s \<Longrightarrow> refreshed b now h h' \<Longrightarrow> fs_wf h' s"
  by (erule fs_wf_mono) (auto dest!: refreshed_SomeD simp: sel_simps)

lemma healthTierLocked_set: "healthTierLocked a \<noteq> TierUnset"
  by (simp add: healthTierLocked_def)

lemma tier_order_iff: "t \<in> set fastSchedulerTierOrder \<longleftrightarrow> t \<noteq> TierUnset \<and> t \<noteq> HealthTierBanned"
  by (cases t) (simp_all add: fastSchedulerTierOrder_def)

lemma snTier_cases:
  assumes "snAvailable (snd (fastSchedulerSnapshot b now a))"
  shows "snTier (snd (fastSchedulerSnapshot b now a)) \<in> set fastSchedulerTierOrder"
proof -
  have "snTier (snapshotView b now x) \<noteq> TierUnset" for x
    by (simp add: snapshotView_def Let_def healthTierLocked_set)
  moreover have "snTier (snapshotView b now x) \<noteq> HealthTierBanned" if "snAvailable (snapshotView b now x)" for x
    using that by (simp add: snapshotView_def Let_def)
  ultimately show ?thesis using assms unfolding tier_order_iff fastSchedulerSnapshot_def Let_def snd_conv by blast
qed

lemma insertLocked_sel [simp]:
  "fsBaseLimit (snd (insertLocked now p hs)) = fsBaseLimit (snd hs)"
  "fsMode (snd (insertLocked now p hs)) = fsMode (snd hs)"
  "fsCursors (snd (insertLocked now p hs)) = fsCursors (snd hs)"
  "fsGroupCheck (snd (insertLocked now p hs)) = fsGroupCheck (snd hs)"
  by (simp_all add: insertLocked_def Let_def split: option.split)

lemma insertLocked_heap: "refreshed (fsBaseLimit s) now h (fst (insertLocked now p (h, s)))"
  by (auto simp: insertLocked_def Let_def refreshed_upd split: option.split)

text \<open>\<open>insertLocked\<close> adds the entry of the account's snapshot exactly when the account is
  available with a positive limit.\<close>

lemma insertLocked_tagged:
  assumes "h p = Some a"
  shows "mset (tagged (snd (insertLocked now p (h, s)))) =
     (let v = snd (fastSchedulerSnapshot (fsBaseLimit s) now a)
      in if DBID a \<noteq> 0 \<and> snAvailable v \<and> snLimit v > 0 then add_mset (snTier v, snapEntry p a v) (mset (tagged s))
         else mset (tagged s))"
  using assms snTier_cases [of "fsBaseLimit s" now a] by (auto simp: insertLocked_def Let_def tagged_add)

lemma insertLocked_wf:
  assumes wf: "fs_wf h s" and a: "h p = Some a" "DBID a \<notin> tagID ` set (tagged s)"
  shows "fs_wf (fst (insertLocked now p (h, s))) (snd (insertLocked now p (h, s)))"
proof -
  let ?snap = "fastSchedulerSnapshot (fsBaseLimit s) now a"
  let ?h = "h(p \<mapsto> fst ?snap)" and ?t = "snTier (snd ?snap)" and ?e = "snapEntry p a (snd ?snap)"
  have wf': "fs_wf ?h s" using wf refreshed_upd [of h p a] a(1) fs_wf_refreshed by blast
  have add: "fs_wf ?h (rebuildPositionsLocked ?t (s\<lparr>fsBuckets := (fsBuckets s)(?t := stable_sort L (fsBuckets s ?t @ [?e]))\<rparr>))"
    if "DBID a \<noteq> 0" "?t \<in> set fastSchedulerTierOrder" for L
    by (rule add_entry_wf [OF wf' that(2), where a = "fst ?snap" and e = ?e]) (use that a(2) in \<open>simp_all add: sel_simps\<close>)
  show ?thesis
    using wf wf' a(1) add by (simp add: insertLocked_def Let_def)
qed

lemma Update_wf: "fs_wf h s \<Longrightarrow> fs_wf (fst (Update now p (h, s))) (snd (Update now p (h, s)))"
proof (cases "h p")
  case (Some a)
  assume wf: "fs_wf h s"
  show ?thesis
    using insertLocked_wf [OF removeLocked_wf(1) [OF wf] Some removeLocked_wf(2) [OF wf]]
    by (simp add: Update_def Some)
qed (simp add: Update_def)

lemma Remove_wf: "fs_wf h s \<Longrightarrow> fs_wf h (Remove k s)"
  by (simp add: Remove_def removeLocked_wf)

subsection \<open>Sorting and rebuilding\<close>

lemma resortTier_sel [simp]:
  "fsBaseLimit (resortTier h t s) = fsBaseLimit s" "fsMode (resortTier h t s) = fsMode s"
  "fsCursors (resortTier h t s) = fsCursors s" "fsGroupCheck (resortTier h t s) = fsGroupCheck s"
  by (simp_all add: resortTier_def)

lemma resortTier_bucket:
  "fsBuckets (resortTier h t s) = (fsBuckets s)(t := stable_sort (modeLess (fsMode s) h) (fsBuckets s t))"
  by (simp add: resortTier_def fun_upd_idem)

lemma resortTier_tagged:
  assumes "t \<in> set fastSchedulerTierOrder"
  shows "mset (tagged (resortTier h t s)) = mset (tagged s)"
proof -
  let ?b = "stable_sort (modeLess (fsMode s) h) (fsBuckets s t)"
  have "tagged (resortTier h t s) = tagged (s\<lparr>fsBuckets := (fsBuckets s)(t := ?b)\<rparr>)"
    by (simp add: tagged_def resortTier_bucket)
  then show ?thesis using tagged_update_mset [OF assms, of s ?b] by simp
qed

lemma resortTier_exact:
  assumes d: "distinct (map tagID (tagged s))" and t: "t \<in> set fastSchedulerTierOrder"
    and T: "T \<subseteq> set fastSchedulerTierOrder" and x: "exact_on T s"
  shows "exact_on (insert t T) (resortTier h t s)"
proof (cases "fsBuckets s t = []")
  case True
  then show ?thesis using x by (auto simp: resortTier_def exact_on_def)
next
  case False
  let ?b = "stable_sort (modeLess (fsMode s) h) (fsBuckets s t)"
  let ?s = "s\<lparr>fsBuckets := (fsBuckets s)(t := ?b)\<rparr>"
  have "mset (map tagID (tagged ?s)) = mset (map tagID (tagged s))"
    using tagged_update_mset [OF t, of s ?b] by simp
  then have d': "distinct (map tagID (tagged ?s))" using d mset_eq_imp_distinct_iff by blast
  have "fsPositions ?s k = Some \<lparr>posTier = u, posIndex = j\<rparr> \<longleftrightarrow> u \<in> T \<and> u \<noteq> t \<and>
      j < length (fsBuckets ?s u) \<and> entDbID (fsBuckets ?s u ! j) = k"
    if k: "k \<notin> entDbID ` set (fsBuckets ?s t)" for k u j
  proof -
    have "u \<noteq> t" if "j < length (fsBuckets s u)" "entDbID (fsBuckets s u ! j) = k"
      using that k by auto
    then show ?thesis using x by (auto simp: exact_on_def)
  qed
  from exact_on_rebuild [OF d' t T this] show ?thesis using False by (simp add: resortTier_def)
qed

definition pre_wf :: "account_heap \<Rightarrow> FastScheduler \<Rightarrow> bool" where
  "pre_wf h s \<longleftrightarrow> distinct (map tagID (tagged s)) \<and>
     (\<forall>t. t \<notin> set fastSchedulerTierOrder \<longrightarrow> fsBuckets s t = []) \<and>
     (\<forall>(t, e) \<in> set (tagged s). \<exists>a. h (entAcc e) = Some a \<and> DBID a = entDbID e \<and> entDbID e \<noteq> 0)"

lemma fs_wf_iff: "fs_wf h s \<longleftrightarrow> pre_wf h s \<and> exact_on (set fastSchedulerTierOrder) s"
  by (auto simp: fs_wf_def pre_wf_def)

lemma pre_wf_mset:
  assumes "mset (tagged s') = mset (tagged s)" "\<And>t. t \<notin> set fastSchedulerTierOrder \<Longrightarrow> fsBuckets s' t = fsBuckets s t"
  shows "pre_wf h s' = pre_wf h s"
proof -
  have "mset (map tagID (tagged s')) = mset (map tagID (tagged s))" using assms(1) by (metis mset_map)
  then have "distinct (map tagID (tagged s')) = distinct (map tagID (tagged s))"
    using mset_eq_imp_distinct_iff by blast
  moreover have "set (tagged s') = set (tagged s)" using assms(1) by (metis set_mset_mset)
  ultimately show ?thesis using assms(2) by (simp add: pre_wf_def)
qed

lemma resort_fold:
  assumes "pre_wf h s" "set ts \<subseteq> set fastSchedulerTierOrder" "T \<subseteq> set fastSchedulerTierOrder" "exact_on T s"
  shows "pre_wf h (fold (resortTier g) ts s) \<and> exact_on (T \<union> set ts) (fold (resortTier g) ts s) \<and>
    mset (tagged (fold (resortTier g) ts s)) = mset (tagged s)"
  using assms
proof (induction ts arbitrary: s T)
  case (Cons t ts)
  have t: "t \<in> set fastSchedulerTierOrder" using Cons.prems by simp
  have "pre_wf h (resortTier g t s)"
    using Cons.prems(1) t by (subst pre_wf_mset [of _ s]) (auto simp: resortTier_tagged resortTier_bucket)
  moreover have "exact_on (insert t T) (resortTier g t s)"
    using Cons.prems t by (intro resortTier_exact) (auto simp: pre_wf_def)
  ultimately show ?case
    using Cons.IH [of "resortTier g t s" "insert t T"] Cons.prems t by (simp add: resortTier_tagged)
qed simp

lemma resort_all:
  assumes "pre_wf h s" "exact_on {} s \<or> exact_on (set fastSchedulerTierOrder) s"
  shows "fs_wf h (fold (resortTier g) fastSchedulerTierOrder s)"
    and "mset (tagged (fold (resortTier g) fastSchedulerTierOrder s)) = mset (tagged s)"
  using assms resort_fold [of h s fastSchedulerTierOrder "{}" g]
    resort_fold [of h s fastSchedulerTierOrder "set fastSchedulerTierOrder" g] by (auto simp: fs_wf_iff)

lemma resort_fold_mode [simp]: "fsMode (fold (resortTier g) ts s) = fsMode s"
  by (induction ts arbitrary: s) simp_all

lemma resort_fold_bucket:
  "distinct ts \<Longrightarrow> fsBuckets (fold (resortTier g) ts s) t =
     (if t \<in> set ts then stable_sort (modeLess (fsMode s) g) (fsBuckets s t) else fsBuckets s t)"
  by (induction ts arbitrary: s) (auto simp: resortTier_bucket)

lemma distinct_tier_order [simp]: "distinct fastSchedulerTierOrder"
  by (simp add: fastSchedulerTierOrder_def)

lemma SetSchedulerMode_wf: "fs_wf h s \<Longrightarrow> fs_wf h (SetSchedulerMode g mode s)"
  unfolding SetSchedulerMode_def
  by (rule resort_all) (auto simp: fs_wf_iff pre_wf_def exact_on_def)

text \<open>What one account contributes to the buckets.\<close>

definition contribution :: "int \<Rightarrow> time \<Rightarrow> account_heap \<Rightarrow> ptr \<Rightarrow> (AccountHealthTier \<times> fastSchedulerEntry) list" where
  "contribution b now h p =
     (case h p of
        None \<Rightarrow> []
      | Some a \<Rightarrow>
          let v = snd (fastSchedulerSnapshot b now a)
          in if DBID a \<noteq> 0 \<and> snAvailable v \<and> snLimit v > 0 then [(snTier v, snapEntry p a v)] else [])"

lemma contribution_refreshed: "refreshed b now h h' \<Longrightarrow> contribution b now h' = contribution b now h"
proof
  fix p assume r: "refreshed b now h h'"
  have "h' p = h p \<or> (\<exists>a. h p = Some a \<and> h' p = Some (fst (fastSchedulerSnapshot b now a)))"
    using r by (simp add: refreshed_def)
  then show "contribution b now h' p = contribution b now h p"
    by (auto simp: contribution_def snapshot_idem snapEntry_def sel_simps Let_def)
qed

lemma collectAccount_sel [simp]:
  "fsBaseLimit (snd (collectAccount now p hs)) = fsBaseLimit (snd hs)"
  "fsMode (snd (collectAccount now p hs)) = fsMode (snd hs)"
  "fsPositions (snd (collectAccount now p hs)) = fsPositions (snd hs)"
  by (simp_all add: collectAccount_def Let_def split: option.split)

lemma collectAccount_heap: "refreshed (fsBaseLimit s) now h (fst (collectAccount now p (h, s)))"
  by (auto simp: collectAccount_def Let_def refreshed_upd split: option.split)

lemma collectAccount_tagged:
  "mset (tagged (snd (collectAccount now p (h, s)))) = mset (tagged s) + mset (contribution (fsBaseLimit s) now h p)"
  using snTier_cases [of "fsBaseLimit s" now "the (h p)"]
  by (auto simp: collectAccount_def contribution_def Let_def tagged_add split: option.split)

lemma collectAccount_outside:
  "t \<notin> set fastSchedulerTierOrder \<Longrightarrow> fsBuckets (snd (collectAccount now p (h, s))) t = fsBuckets s t"
  by (auto simp: collectAccount_def Let_def split: option.split)

lemma collect_fold:
  "refreshed (fsBaseLimit s) now h (fst (fold (collectAccount now) ps (h, s))) \<and>
   mset (tagged (snd (fold (collectAccount now) ps (h, s)))) =
     mset (tagged s) + mset (concat (map (contribution (fsBaseLimit s) now h) ps)) \<and>
   fsPositions (snd (fold (collectAccount now) ps (h, s))) = fsPositions s \<and>
   fsMode (snd (fold (collectAccount now) ps (h, s))) = fsMode s \<and>
   (\<forall>t. t \<notin> set fastSchedulerTierOrder \<longrightarrow> fsBuckets (snd (fold (collectAccount now) ps (h, s))) t = fsBuckets s t)"
proof (induction ps arbitrary: h s)
  case (Cons p ps)
  obtain h1 s1 where c: "collectAccount now p (h, s) = (h1, s1)" by force
  have r: "refreshed (fsBaseLimit s) now h h1" using collectAccount_heap [of s now h p] by (simp add: c)
  have b: "fsBaseLimit s1 = fsBaseLimit s" "fsPositions s1 = fsPositions s" "fsMode s1 = fsMode s"
    using collectAccount_sel [of now p "(h, s)"] by (simp_all add: c)
  have m: "mset (tagged s1) = mset (tagged s) + mset (contribution (fsBaseLimit s) now h p)"
    using collectAccount_tagged [of now p h s] by (simp add: c)
  have o: "fsBuckets s1 t = fsBuckets s t" if "t \<notin> set fastSchedulerTierOrder" for t
    using collectAccount_outside [OF that, of now p h s] by (simp add: c)
  show ?case
    using Cons.IH [of s1 h1] refreshed_trans [OF r] o by (simp add: c b m contribution_refreshed [OF r])
qed simp

lemma contribution_cases:
  "contribution b now h p = [] \<or>
   (\<exists>a x. h p = Some a \<and> contribution b now h p = [x] \<and> entAcc (snd x) = p \<and> tagID x = DBID a \<and> DBID a \<noteq> 0)"
  by (auto simp: contribution_def Let_def split: option.split)

lemma contribution_ids:
  assumes "distinct (List.map_filter (\<lambda>p. map_option DBID (h p)) ps)"
  shows "distinct (map tagID (concat (map (contribution b now h) ps))) \<and>
    tagID ` set (concat (map (contribution b now h) ps)) \<subseteq> set (List.map_filter (\<lambda>p. map_option DBID (h p)) ps)"
  using assms
proof (induction ps)
  case (Cons p ps)
  then show ?case
    using contribution_cases [of b now h p]
    by (cases "h p") (auto simp: List.map_filter_simps image_subset_iff, fastforce)
qed simp

lemma contribution_entry:
  "(t, e) \<in> set (contribution b now h p) \<Longrightarrow>
   \<exists>a. h (entAcc e) = Some a \<and> DBID a = entDbID e \<and> entDbID e \<noteq> 0"
  using contribution_cases [of b now h p] by auto

lemma Rebuild_facts:
  fixes now :: time and s :: FastScheduler
  assumes ids: "distinct (List.map_filter (\<lambda>p. map_option DBID (h p)) ps)"
  defines "hs' \<equiv> Rebuild now ps (h, s)"
  shows "refreshed (fsBaseLimit s) now h (fst hs')" and "fs_wf (fst hs') (snd hs')"
    and "mset (tagged (snd hs')) = mset (concat (map (contribution (fsBaseLimit s) now h) ps))"
    and "sorted_wrt (\<lambda>x y. \<not> modeLess (fsMode s) (fst hs') y x) (fsBuckets (snd hs') t)"
proof -
  let ?s0 = "s\<lparr>fsBuckets := (\<lambda>_. []), fsPositions := Map.empty\<rparr>"
  obtain h1 s1 where c: "fold (collectAccount now) ps (h, ?s0) = (h1, s1)" by force
  have "tagged ?s0 = []" by (simp add: tagged_simps)
  with collect_fold [of ?s0 now h ps] have f: "refreshed (fsBaseLimit s) now h h1"
    and m: "mset (tagged s1) = mset (concat (map (contribution (fsBaseLimit s) now h) ps))"
    and p: "fsPositions s1 = Map.empty" and mo: "fsMode s1 = fsMode s"
    and o: "\<And>t. t \<notin> set fastSchedulerTierOrder \<Longrightarrow> fsBuckets s1 t = []"
    by (auto simp: c)
  have hs: "hs' = (h1, fold (resortTier h1) fastSchedulerTierOrder s1)"
    by (simp add: hs'_def Rebuild_def c Let_def)
  have "mset (map tagID (tagged s1)) = mset (map tagID (concat (map (contribution (fsBaseLimit s) now h) ps)))"
    using m by (metis mset_map)
  then have "distinct (map tagID (tagged s1))"
    using contribution_ids [OF ids] mset_eq_imp_distinct_iff by blast
  moreover have "set (tagged s1) = set (concat (map (contribution (fsBaseLimit s) now h) ps))"
    using m by (metis set_mset_mset)
  ultimately have pre: "pre_wf h1 s1"
    using o contribution_entry [of _ _ "fsBaseLimit s" now h1]
    by (auto simp: pre_wf_def contribution_refreshed [OF f])
  have x: "exact_on {} s1" by (simp add: exact_on_def p)
  show "refreshed (fsBaseLimit s) now h (fst hs')" "fs_wf (fst hs') (snd hs')"
    "mset (tagged (snd hs')) = mset (concat (map (contribution (fsBaseLimit s) now h) ps))"
    using resort_all [OF pre] x f m by (simp_all add: hs)
  show "sorted_wrt (\<lambda>x y. \<not> modeLess (fsMode s) (fst hs') y x) (fsBuckets (snd hs') t)"
    using mode_order.ordered_sort [of "fsMode s" h1 "fsBuckets s1 t"] o [of t]
    by (auto simp: hs resort_fold_bucket mo)
qed

subsection \<open>One scan\<close>

fun scanList ::
  "acquireArgs \<Rightarrow> AccountHealthTier \<Rightarrow> fastSchedulerEntry list \<Rightarrow> account_heap \<Rightarrow> FastScheduler \<Rightarrow>
   account_heap \<times> FastScheduler \<times> scan_result" where
  "scanList q tier [] h s = (h, s, ScanNone)"
| "scanList q tier (e # es) h s =
     (case scanEntry q tier e h s of (h', s', ScanNone) \<Rightarrow> scanList q tier es h' s' | r \<Rightarrow> r)"

lemma smod_nonneg: "0 \<le> a \<Longrightarrow> 0 < n \<Longrightarrow> a smod n = a mod n" for a n :: int
  by (cases "a = 0") (simp_all add: signed_modulo_int_def signed_divide_int_def minus_div_mult_eq_mod [symmetric])

lemma scanLoop_list:
  assumes "bucket \<noteq> []"
  shows "scanLoop q t bucket (int k) offs h s =
     scanList q t (map (\<lambda>off. bucket ! ((k + off) mod length bucket)) offs) h s"
proof (induction offs arbitrary: h s)
  case (Cons off offs)
  have "(int k + int off) smod int (length bucket) = int ((k + off) mod length bucket)"
    using assms by (simp add: smod_nonneg of_nat_mod)
  then show ?case using Cons by (simp split: prod.split scan_result.split)
qed simp

lemma sint_small:
  fixes c :: "64 word"
  assumes "unat c < 2 ^ 63"
  shows "sint c = int (unat c)"
proof -
  have u: "uint c = int (unat c)" by simp
  have "uint c < 2 ^ 63" unfolding u using assms by (metis of_nat_less_iff of_nat_numeral of_nat_power)
  moreover have "- (2 ^ 63) \<le> uint c" by (rule order_trans [OF _ uint_nonnegative]) simp
  ultimately have "signed_take_bit 63 (uint c) = uint c" by (intro signed_take_bit_int_eq_self)
  then show ?thesis unfolding sint_uint u by simp
qed

text \<open>A cursor below \<open>2 ^ 63\<close> makes the scan a rotation of the bucket; nothing is skipped.\<close>

lemma scanRange_rotation:
  assumes "unat cursor < 2 ^ 63"
  shows "scanRangeLocked q t cursor h s =
     scanList q t (rotate (unat cursor mod length (fsBuckets s t)) (fsBuckets s t)) h s"
proof (cases "fsBuckets s t = []")
  case False
  let ?b = "fsBuckets s t"
  have "sint cursor = int (unat cursor)" using sint_small [OF assms] .
  then have "sint cursor smod int (length ?b) = int (unat cursor mod length ?b)"
    using False by (simp add: smod_nonneg of_nat_mod)
  moreover have "map (\<lambda>off. ?b ! ((unat cursor mod length ?b + off) mod length ?b)) [0..<length ?b]
      = rotate (unat cursor mod length ?b) ?b"
    by (rule nth_equalityI) (auto simp: nth_rotate)
  ultimately show ?thesis using False by (simp add: scanRangeLocked_def Let_def scanLoop_list)
qed (simp add: scanRangeLocked_def)

text \<open>An entry that the scan can hand out: the account passes the tests, is available and has a
  free slot.\<close>

definition snapOf :: "acquireArgs \<Rightarrow> FastScheduler \<Rightarrow> Account \<Rightarrow> AccSnapshot" where
  "snapOf q s a = snd (fastSchedulerSnapshot (fsBaseLimit s) (argNow q) a)"

definition eligible :: "acquireArgs \<Rightarrow> account_heap \<Rightarrow> FastScheduler \<Rightarrow> fastSchedulerEntry \<Rightarrow> bool" where
  "eligible q h s e \<longleftrightarrow>
     (case h (entAcc e) of
        None \<Rightarrow> False
      | Some a \<Rightarrow> admitted q (fsGroupCheck s) e a \<and> snAvailable (snapOf q s a) \<and>
          0 < snLimit (snapOf q s a) \<and> ActiveRequests a < snLimit (snapOf q s a))"

definition stale :: "acquireArgs \<Rightarrow> account_heap \<Rightarrow> FastScheduler \<Rightarrow> AccountHealthTier \<times> fastSchedulerEntry \<Rightarrow> bool" where
  "stale q h s te \<longleftrightarrow>
     (case h (entAcc (snd te)) of None \<Rightarrow> False | Some a \<Rightarrow> outdated (fst te) (snd te) (snapOf q s a))"

text \<open>The tests of the caller do not read the cached scheduling figures.\<close>

definition ignores_cache :: "(Account \<Rightarrow> bool) \<Rightarrow> bool" where
  "ignores_cache f \<longleftrightarrow> (\<forall>b now a. f (fst (fastSchedulerSnapshot b now a)) = f a)"

definition stable_tests :: "acquireArgs \<Rightarrow> FastScheduler \<Rightarrow> bool" where
  "stable_tests q s \<longleftrightarrow>
     (case argFilter q of None \<Rightarrow> True | Some f \<Rightarrow> ignores_cache f) \<and>
     (case fsGroupCheck s of None \<Rightarrow> True | Some g \<Rightarrow> ignores_cache (g (argKey q)))"

lemma admitted_snapshot:
  "stable_tests q s \<Longrightarrow> admitted q (fsGroupCheck s) e (fst (fastSchedulerSnapshot b now a)) = admitted q (fsGroupCheck s) e a"
  by (auto simp: stable_tests_def admitted_def ignores_cache_def sel_simps split: option.splits)

lemma snapOf_snapshot:
  "snapOf q s (fst (fastSchedulerSnapshot (fsBaseLimit s) (argNow q) a)) = snapOf q s a"
  by (simp add: snapOf_def snapshot_idem)

abbreviation refreshes :: "acquireArgs \<Rightarrow> FastScheduler \<Rightarrow> account_heap \<Rightarrow> account_heap \<Rightarrow> bool" where
  "refreshes q s \<equiv> refreshed (fsBaseLimit s) (argNow q)"

lemma refreshed_cases:
  "refreshed b now h h' \<Longrightarrow> h' p = h p \<or> (\<exists>a. h p = Some a \<and> h' p = Some (fst (fastSchedulerSnapshot b now a)))"
  by (simp add: refreshed_def)

lemma eligible_refreshed:
  "stable_tests q s \<Longrightarrow> refreshes q s h h' \<Longrightarrow> eligible q h' s e = eligible q h s e"
  using refreshed_cases [of "fsBaseLimit s" "argNow q" h h' "entAcc e"]
  by (auto simp: eligible_def admitted_snapshot snapOf_snapshot sel_simps)

lemma stale_refreshed: "refreshes q s h h' \<Longrightarrow> stale q h' s te = stale q h s te"
  using refreshed_cases [of "fsBaseLimit s" "argNow q" h h' "entAcc (snd te)"]
  by (auto simp: stale_def snapOf_snapshot)

definition acquired_at :: "acquireArgs \<Rightarrow> Account \<Rightarrow> Account" where
  "acquired_at q a = a\<lparr>ActiveRequests := ActiveRequests a + 1, TotalRequests := TotalRequests a + 1, LastUsedAt := argNow q\<rparr>"

text \<open>What a scan leaves behind when it gives up on an entry that is out of date: the entry is
  taken out and put back where the account now belongs, if it is still available.\<close>

definition replaceStale ::
  "acquireArgs \<Rightarrow> fastSchedulerEntry \<Rightarrow> account_heap \<Rightarrow> FastScheduler \<Rightarrow> account_heap \<times> FastScheduler" where
  "replaceStale q e h s =
     (case h (entAcc e) of
        None \<Rightarrow> (h, s)
      | Some a \<Rightarrow>
          if snAvailable (snapOf q s a) \<and> snLimit (snapOf q s a) > 0
          then insertLocked (argNow q) (entAcc e) (h, removeLocked (entDbID e) s)
          else (h, removeLocked (entDbID e) s))"

lemma tryAcquire_some_iff:
  "tryAcquireAccount now limit a = Some a' \<longleftrightarrow>
     0 < limit \<and> ActiveRequests a < limit \<and>
     a' = a\<lparr>ActiveRequests := ActiveRequests a + 1, TotalRequests := TotalRequests a + 1, LastUsedAt := now\<rparr>"
  by (auto simp: tryAcquireAccount_def)

lemma scanEntry_cases:
  assumes "scanEntry q t e h s = (h', s', r)"
  shows "(r = ScanNone \<and> s' = s \<and> refreshes q s h h' \<and> \<not> eligible q h s e) \<or>
     (\<exists>h1. r = ScanStale \<and> refreshes q s h h1 \<and> stale q h s (t, e) \<and> (h', s') = replaceStale q e h1 s) \<or>
     (\<exists>h1 a. r = ScanAcquired (entAcc e) \<and> s' = s \<and> refreshes q s h h1 \<and> h1 (entAcc e) = Some a \<and>
        eligible q h s e \<and> \<not> stale q h s (t, e) \<and> h' = h1(entAcc e \<mapsto> acquired_at q a))"
proof (cases "h (entAcc e)")
  case None
  then show ?thesis using assms by (auto simp: scanEntry_def eligible_def)
next
  case (Some a)
  let ?snap = "fastSchedulerSnapshot (fsBaseLimit s) (argNow q) a"
  let ?h = "h(entAcc e \<mapsto> fst ?snap)"
  have r: "refreshes q s h ?h" using Some by (rule refreshed_upd)
  have v: "snd ?snap = snapOf q s a" by (simp add: snapOf_def)
  consider "\<not> admitted q (fsGroupCheck s) e a"
    | (stale) "admitted q (fsGroupCheck s) e a" "outdated t e (snapOf q s a)"
    | (fresh) "admitted q (fsGroupCheck s) e a" "\<not> outdated t e (snapOf q s a)" by blast
  then show ?thesis
  proof cases
    case 1
    then show ?thesis using assms Some by (simp add: scanEntry_def eligible_def)
  next
    case stale
    have "(h', s') = replaceStale q e ?h s \<and> r = ScanStale"
      using assms Some stale
      by (auto simp: scanEntry_def Let_def v replaceStale_def snapOf_snapshot split: if_splits)
    then show ?thesis using r Some stale by (auto simp: stale_def)
  next
    case fresh
    have ar: "ActiveRequests (fst ?snap) = ActiveRequests a" by (simp add: sel_simps)
    show ?thesis
    proof (cases "snAvailable (snapOf q s a) \<and> 0 < snLimit (snapOf q s a) \<and> ActiveRequests a < snLimit (snapOf q s a)")
      case True
      then have "h' = ?h(entAcc e \<mapsto> acquired_at q (fst ?snap)) \<and> s' = s \<and> r = ScanAcquired (entAcc e)"
        using assms Some fresh ar
        by (auto simp: scanEntry_def Let_def v tryAcquireAccount_def acquired_at_def)
      then show ?thesis using r Some fresh True by (fastforce simp: eligible_def stale_def)
    next
      case False
      then have "h' = ?h \<and> s' = s \<and> r = ScanNone"
        using assms Some fresh ar by (auto simp: scanEntry_def Let_def v tryAcquireAccount_def split: if_splits)
      then show ?thesis using r Some False by (auto simp: eligible_def)
    qed
  qed
qed

lemma scanList_cases:
  assumes "scanList q t es h s = (h', s', r)" "stable_tests q s"
  shows "(r = ScanNone \<and> s' = s \<and> refreshes q s h h' \<and> (\<forall>e \<in> set es. \<not> eligible q h s e)) \<or>
     (\<exists>h1 e. r = ScanStale \<and> e \<in> set es \<and> refreshes q s h h1 \<and> stale q h s (t, e) \<and>
        (h', s') = replaceStale q e h1 s) \<or>
     (\<exists>h1 e a. r = ScanAcquired (entAcc e) \<and> s' = s \<and> e \<in> set es \<and> refreshes q s h h1 \<and>
        h1 (entAcc e) = Some a \<and> eligible q h s e \<and> \<not> stale q h s (t, e) \<and>
        h' = h1(entAcc e \<mapsto> acquired_at q a))"
  using assms
proof (induction es arbitrary: h)
  case (Cons e es)
  obtain h1 s1 r1 where e: "scanEntry q t e h s = (h1, s1, r1)" by (metis prod.collapse)
  show ?case
  proof (cases "r1 = ScanNone")
    case True
    with scanEntry_cases [OF e] have s1: "s1 = s" and r: "refreshes q s h h1" and n: "\<not> eligible q h s e" by auto
    have rest: "scanList q t es h1 s = (h', s', r)" using Cons.prems(1) e True s1 by simp
    note el = eligible_refreshed [OF Cons.prems(2) r] and st = stale_refreshed [OF r]
    from Cons.IH [OF rest Cons.prems(2)] n refreshed_trans [OF r] show ?thesis
      unfolding el st by (metis set_ConsD list.set_intros(2))
  next
    case False
    then have "(h', s', r) = (h1, s1, r1)" using Cons.prems(1) e by (auto split: scan_result.splits)
    with scanEntry_cases [OF e] False show ?thesis by (metis Pair_inject list.set_intros(1))
  qed
qed simp

subsection \<open>Replacing a stale entry makes progress\<close>

definition staleCount :: "acquireArgs \<Rightarrow> account_heap \<Rightarrow> FastScheduler \<Rightarrow> nat" where
  "staleCount q h s = size (filter_mset (stale q h s) (mset (tagged s)))"

definition eligible_ptrs :: "acquireArgs \<Rightarrow> account_heap \<Rightarrow> FastScheduler \<Rightarrow> ptr set" where
  "eligible_ptrs q h s = {p. \<exists>te \<in> set (tagged s). entAcc (snd te) = p \<and> eligible q h s (snd te)}"

lemma replaceStale_sel [simp]:
  "fsBaseLimit (snd (replaceStale q e h s)) = fsBaseLimit s"
  "fsMode (snd (replaceStale q e h s)) = fsMode s"
  "fsCursors (snd (replaceStale q e h s)) = fsCursors s"
  "fsGroupCheck (snd (replaceStale q e h s)) = fsGroupCheck s"
  by (simp_all add: replaceStale_def split: option.split)

lemma stale_cong: "fsBaseLimit s' = fsBaseLimit s \<Longrightarrow> stale q h s' = stale q h s"
  by (simp add: fun_eq_iff stale_def snapOf_def split: option.split)

lemma eligible_cong:
  "fsBaseLimit s' = fsBaseLimit s \<Longrightarrow> fsGroupCheck s' = fsGroupCheck s \<Longrightarrow> eligible q h s' = eligible q h s"
  by (simp add: fun_eq_iff eligible_def snapOf_def split: option.split)

lemma replaceStale_heap: "refreshes q s h (fst (replaceStale q e h s))"
  using insertLocked_heap [of "removeLocked (entDbID e) s" "argNow q" h "entAcc e"]
  by (simp add: replaceStale_def split: option.split)

lemma wf_entryD:
  "fs_wf h s \<Longrightarrow> (t, e) \<in> set (tagged s) \<Longrightarrow> \<exists>a. h (entAcc e) = Some a \<and> DBID a = entDbID e \<and> entDbID e \<noteq> 0"
  by (auto simp: fs_wf_def)

lemma replaceStale_wf:
  assumes wf: "fs_wf h s" and e: "(t, e) \<in> set (tagged s)"
  shows "fs_wf (fst (replaceStale q e h s)) (snd (replaceStale q e h s))"
proof -
  obtain a where a: "h (entAcc e) = Some a" "DBID a = entDbID e" using wf_entryD [OF wf e] by blast
  have "DBID a \<notin> tagID ` set (tagged (removeLocked (entDbID e) s))"
    using removeLocked_wf(2) [OF wf, of "entDbID e"] a(2) by simp
  then show ?thesis
    using insertLocked_wf [OF removeLocked_wf(1) [OF wf] a(1)] removeLocked_wf(1) [OF wf] a
    by (simp add: replaceStale_def)
qed

lemma replaceStale_tagged:
  assumes wf: "fs_wf h s" and e: "(t, e) \<in> set (tagged s)" and a: "h (entAcc e) = Some a"
  shows "mset (tagged s) = add_mset (t, e) (mset (tagged (removeLocked (entDbID e) s)))"
    and "mset (tagged (snd (replaceStale q e h s))) =
      (if snAvailable (snapOf q s a) \<and> snLimit (snapOf q s a) > 0
       then add_mset (snTier (snapOf q s a), snapEntry (entAcc e) a (snapOf q s a)) (mset (tagged (removeLocked (entDbID e) s)))
       else mset (tagged (removeLocked (entDbID e) s)))"
  using removeLocked_tagged(1) [OF wf e] wf_entryD [OF wf e] a
    insertLocked_tagged [of h "entAcc e" a "argNow q" "removeLocked (entDbID e) s"]
  by (auto simp: replaceStale_def Let_def snapOf_def)

lemma fresh_entry: "h p = Some a \<Longrightarrow> \<not> stale q h s (snTier (snapOf q s a), snapEntry p a (snapOf q s a))"
  by (simp add: stale_def outdated_def)

lemma replaceStale_progress:
  assumes wf: "fs_wf h s" and e: "(t, e) \<in> set (tagged s)" and st: "stale q h s (t, e)"
  shows "staleCount q (fst (replaceStale q e h s)) (snd (replaceStale q e h s)) < staleCount q h s"
proof -
  obtain a where a: "h (entAcc e) = Some a" using wf_entryD [OF wf e] by blast
  have "stale q (fst (replaceStale q e h s)) (snd (replaceStale q e h s)) = stale q h s"
    using stale_refreshed [OF replaceStale_heap] stale_cong [of "snd (replaceStale q e h s)" s] by (auto simp: fun_eq_iff)
  then show ?thesis
    using replaceStale_tagged(1) [OF wf e a] replaceStale_tagged(2) [OF wf e a, of q] st a fresh_entry [of h "entAcc e" a q s] by (simp add: staleCount_def)
qed

lemma replaceStale_eligible:
  assumes wf: "fs_wf h s" and e: "(t, e) \<in> set (tagged s)" and ts: "stable_tests q s"
  shows "eligible_ptrs q (fst (replaceStale q e h s)) (snd (replaceStale q e h s)) = eligible_ptrs q h s"
proof -
  obtain a where a: "h (entAcc e) = Some a" "DBID a = entDbID e" using wf_entryD [OF wf e] by blast
  let ?rest = "set (tagged (removeLocked (entDbID e) s))"
  let ?new = "snapEntry (entAcc e) a (snapOf q s a)"
  have el: "eligible q (fst (replaceStale q e h s)) (snd (replaceStale q e h s)) = eligible q h s"
    using eligible_refreshed [OF ts replaceStale_heap] eligible_cong [of "snd (replaceStale q e h s)" s]
    by (auto simp: fun_eq_iff)
  have new: "eligible q h s ?new = eligible q h s e"
    using a by (simp add: eligible_def admitted_def)
  have s: "set (tagged s) = insert (t, e) ?rest"
    using replaceStale_tagged(1) [OF wf e a(1)] by (metis set_mset_add_mset_insert set_mset_mset)
  show ?thesis
  proof (cases "snAvailable (snapOf q s a) \<and> snLimit (snapOf q s a) > 0")
    case True
    then have "mset (tagged (snd (replaceStale q e h s))) = add_mset (snTier (snapOf q s a), ?new) (mset (tagged (removeLocked (entDbID e) s)))"
      using replaceStale_tagged(2) [OF wf e a(1), of q] by simp
    then have "set (tagged (snd (replaceStale q e h s))) = insert (snTier (snapOf q s a), ?new) ?rest"
      by (metis set_mset_add_mset_insert set_mset_mset)
    then show ?thesis using new by (auto simp: eligible_ptrs_def el s)
  next
    case False
    then have "set (tagged (snd (replaceStale q e h s))) = ?rest"
      using replaceStale_tagged(2) [OF wf e a(1), of q] by (metis set_mset_mset)
    moreover have "\<not> eligible q h s e" using False a by (auto simp: eligible_def)
    ultimately show ?thesis by (auto simp: eligible_ptrs_def el s)
  qed
qed

subsection \<open>The acquisition loop\<close>

lemma cong_cursors [simp]:
  "eligible q h (s\<lparr>fsCursors := c\<rparr>) = eligible q h s"
  "stale q h (s\<lparr>fsCursors := c\<rparr>) = stale q h s"
  "fs_wf h (s\<lparr>fsCursors := c\<rparr>) = fs_wf h s"
  "stable_tests q (s\<lparr>fsCursors := c\<rparr>) = stable_tests q s"
  by (rule eligible_cong stale_cong; simp)+ (simp_all add: fs_wf_def exact_on_def stable_tests_def)

definition acq_none where
  "acq_none q tiers h s h' s' c \<longleftrightarrow> s' = s\<lparr>fsCursors := c\<rparr> \<and> refreshes q s h h' \<and>
     (\<forall>(i, t) \<in> set tiers. \<forall>e \<in> set (fsBuckets s t). \<not> eligible q h s e)"

definition acq_stale where
  "acq_stale q h s h' s' c \<longleftrightarrow>
     (\<exists>h1 t e. (t, e) \<in> set (tagged s) \<and> refreshes q s h h1 \<and> stale q h s (t, e) \<and>
        (h', s') = replaceStale q e h1 (s\<lparr>fsCursors := c\<rparr>))"

definition acq_got where
  "acq_got q tiers h s h' s' c p \<longleftrightarrow> s' = s\<lparr>fsCursors := c\<rparr> \<and>
     (\<exists>h1 t e a. p = entAcc e \<and> (t, e) \<in> set (tagged s) \<and> refreshes q s h h1 \<and>
        h1 p = Some a \<and> eligible q h s e \<and> \<not> stale q h s (t, e) \<and> h' = h1(p \<mapsto> acquired_at q a) \<and>
        t \<in> snd ` set tiers \<and>
        (\<forall>(i, u) \<in> set (takeWhile (\<lambda>x. snd x \<noteq> t) tiers). \<forall>f \<in> set (fsBuckets s u). \<not> eligible q h s f))"

definition acq_outcome where
  "acq_outcome q tiers h s h' s' r c \<longleftrightarrow>
     (case r of ScanNone \<Rightarrow> acq_none q tiers h s h' s' c
      | ScanStale \<Rightarrow> acq_stale q h s h' s' c
      | ScanAcquired p \<Rightarrow> acq_got q tiers h s h' s' c p
      | ScanPanic \<Rightarrow> False)"

lemma unat_incr_le: "unat (c + 1) \<le> unat c + 1" for c :: "64 word"
proof -
  have "unat (c + 1) = (unat c + 1) mod 2 ^ 64"
    by (simp add: unat_word_ariths)
  then show ?thesis by (metis mod_less_eq_dividend)
qed

text \<open>One tier of the pass.\<close>

lemma acquireTier_outcome:
  assumes scan: "scanRangeLocked q t cursor h s1 = (h1, s1', r)" and s1: "s1 = s\<lparr>fsCursors := c\<rparr>"
    and cur: "unat cursor < 2 ^ 63" and t: "t \<in> set fastSchedulerTierOrder" and ts: "stable_tests q s"
  shows "acq_outcome q [(i, t)] h s h1 s1' r c"
proof -
  have "scanList q t (rotate (unat cursor mod length (fsBuckets s1 t)) (fsBuckets s1 t)) h s1 = (h1, s1', r)"
    using scan scanRange_rotation [OF cur] by simp
  from scanList_cases [OF this] ts t show ?thesis
    unfolding s1 acq_outcome_def acq_none_def acq_stale_def acq_got_def
    by (auto simp: tagged_iff) blast+
qed

lemma acq_outcome_skip:
  assumes out: "acq_outcome q tiers h1 s1 h' s' r c" and s1: "s1 = s\<lparr>fsCursors := d\<rparr>" and r: "refreshes q s h h1"
    and ts: "stable_tests q s" and skip: "\<And>e. e \<in> set (fsBuckets s t) \<Longrightarrow> \<not> eligible q h s e"
  shows "acq_outcome q ((i, t) # tiers) h s h' s' r c"
proof -
  have el: "eligible q h1 s1 = eligible q h s" using eligible_refreshed [OF ts r] by (auto simp: s1 fun_eq_iff)
  have st: "stale q h1 s1 = stale q h s" using stale_refreshed [OF r] by (auto simp: s1 fun_eq_iff)
  have r': "refreshes q s h g" if "refreshes q s1 h1 g" for g using refreshed_trans [OF r, of g] that by (simp add: s1)
  show ?thesis
  proof (cases r)
    case (ScanAcquired p)
    then obtain h2 u e a where o: "p = entAcc e" "(u, e) \<in> set (tagged s1)" "refreshes q s1 h1 h2" "h2 p = Some a"
      "eligible q h1 s1 e" "\<not> stale q h1 s1 (u, e)" "h' = h2(p \<mapsto> acquired_at q a)"
      "\<forall>(i, v) \<in> set (takeWhile (\<lambda>x. snd x \<noteq> u) tiers). \<forall>f \<in> set (fsBuckets s1 v). \<not> eligible q h1 s1 f"
      "s' = s1\<lparr>fsCursors := c\<rparr>" "u \<in> snd ` set tiers"
      using out unfolding acq_outcome_def acq_got_def ScanAcquired scan_result.case by blast
    have "(u, e) \<in> set (tagged s)" using o(2) by (simp add: s1)
    moreover have "\<forall>(i, v) \<in> set (takeWhile (\<lambda>x. snd x \<noteq> u) ((i, t) # tiers)). \<forall>f \<in> set (fsBuckets s v). \<not> eligible q h s f"
      using o(8) skip el by (auto simp: s1)
    moreover have "s' = s\<lparr>fsCursors := c\<rparr>" "u \<in> snd ` set ((i, t) # tiers)" using o(9,10) s1 by simp_all
    moreover have "eligible q h s e" "\<not> stale q h s (u, e)" using o(5,6) el st by simp_all
    ultimately have "acq_got q ((i, t) # tiers) h s h' s' c p"
      using o(1,4,7) r' [OF o(3)] unfolding acq_got_def by blast
    then show ?thesis using ScanAcquired by (simp add: acq_outcome_def)
  next
    case ScanStale
    then show ?thesis
      using out r' by (auto simp: acq_outcome_def acq_stale_def st) (use s1 in auto)
  next
    case ScanNone
    then show ?thesis using out r' skip by (auto simp: acq_outcome_def acq_none_def el) (use s1 in auto)
  next
    case ScanPanic
    then show ?thesis using out by (simp add: acq_outcome_def)
  qed
qed

lemma acquireTiers_head:
  assumes ne: "fsBuckets s t \<noteq> []" and t: "t \<in> set fastSchedulerTierOrder"
    and cur: "unat (fsCursors s i) < 2 ^ 63" and ts: "stable_tests q s"
  obtains h1 s1 r1 d where
    "acquireTiers q ((i, t) # tiers) h s = (case (h1, s1, r1) of (h', s', ScanNone) \<Rightarrow> acquireTiers q tiers h' s' | r \<Rightarrow> r)"
    "acq_outcome q [(i, t)] h s h1 s1 r1 d" "\<And>j. j \<noteq> i \<Longrightarrow> d j = fsCursors s j" "unat (d i) \<le> unat (fsCursors s i) + 1"
proof -
  define cur where "cur = (if fsMode s = ''remaining_quota'' then 0 else fsCursors s i)"
  define d where "d = (if fsMode s = ''remaining_quota'' then fsCursors s else (fsCursors s)(i := cur + 1))"
  obtain h1 s1 r1 where sc: "scanRangeLocked q t cur h (s\<lparr>fsCursors := d\<rparr>) = (h1, s1, r1)"
    by (metis prod.collapse)
  have "acquireTiers q ((i, t) # tiers) h s =
      (case (h1, s1, r1) of (h', s', ScanNone) \<Rightarrow> acquireTiers q tiers h' s' | r \<Rightarrow> r)"
    using ne sc unfolding cur_def d_def by (cases "fsMode s = ''remaining_quota''") (simp_all add: Let_def)
  moreover have "unat cur < 2 ^ 63" using cur by (simp add: cur_def)
  then have "acq_outcome q [(i, t)] h s h1 s1 r1 d" using acquireTier_outcome [OF sc refl _ t ts] by simp
  moreover have "d j = fsCursors s j" if "j \<noteq> i" for j using that by (simp add: d_def)
  moreover have "unat (d i) \<le> unat (fsCursors s i) + 1"
    using unat_incr_le [of "fsCursors s i"] by (simp add: d_def cur_def)
  ultimately show ?thesis by (rule that)
qed

lemma acq_outcome_extend:
  "acq_outcome q [(i, t)] h s h' s' r d \<Longrightarrow> r \<noteq> ScanNone \<Longrightarrow> acq_outcome q ((i, t) # tiers) h s h' s' r d"
  by (cases r) (fastforce simp: acq_outcome_def acq_got_def acq_stale_def)+

abbreviation bumped :: "nat set \<Rightarrow> (nat \<Rightarrow> 64 word) \<Rightarrow> (nat \<Rightarrow> 64 word) \<Rightarrow> bool" where
  "bumped I c d \<equiv> \<forall>i. unat (d i) \<le> unat (c i) + (if i \<in> I then 1 else 0)"

lemma acquireTiers_outcome:
  assumes "acquireTiers q tiers h s = (h', s', r)" "snd ` set tiers \<subseteq> set fastSchedulerTierOrder"
    "distinct (map fst tiers)" "\<forall>i \<in> fst ` set tiers. unat (fsCursors s i) < 2 ^ 63" "stable_tests q s"
  shows "\<exists>c. acq_outcome q tiers h s h' s' r c \<and> bumped (fst ` set tiers) (fsCursors s) c"
  using assms
proof (induction tiers arbitrary: h s)
  case Nil
  then show ?case by (intro exI [of _ "fsCursors s"]) (simp add: acq_outcome_def acq_none_def)
next
  case (Cons x tiers)
  obtain i t where x: "x = (i, t)" by (cases x)
  have t: "t \<in> set fastSchedulerTierOrder" and i: "i \<notin> fst ` set tiers" and ci: "unat (fsCursors s i) < 2 ^ 63"
    using Cons.prems(2,3,4) x by simp_all
  have widen: "bumped (fst ` set (x # tiers)) (fsCursors s) c" if "bumped (fst ` set tiers) (fsCursors s) c" for c
    using that by (auto split: if_splits dest: spec)
  show ?case
  proof (cases "fsBuckets s t = []")
    case True
    then have "acquireTiers q tiers h s = (h', s', r)" using Cons.prems(1) x by simp
    with Cons.IH [of h s] Cons.prems obtain c where c: "acq_outcome q tiers h s h' s' r c"
      "bumped (fst ` set tiers) (fsCursors s) c" by auto
    have "acq_outcome q (x # tiers) h s h' s' r c"
      unfolding x by (rule acq_outcome_skip [OF c(1), where d = "fsCursors s"]) (use True Cons.prems in simp_all)
    then show ?thesis using widen [OF c(2)] by blast
  next
    case False
    obtain h1 s1 r1 d where red: "acquireTiers q (x # tiers) h s =
        (case (h1, s1, r1) of (h', s', ScanNone) \<Rightarrow> acquireTiers q tiers h' s' | r \<Rightarrow> r)"
      and out: "acq_outcome q [(i, t)] h s h1 s1 r1 d"
      and d: "\<And>j. j \<noteq> i \<Longrightarrow> d j = fsCursors s j" "unat (d i) \<le> unat (fsCursors s i) + 1"
      using acquireTiers_head [OF False t ci Cons.prems(5), where tiers = tiers and h = h] unfolding x by blast
    show ?thesis
    proof (cases "r1 = ScanNone")
      case True
      then have s1: "s1 = s\<lparr>fsCursors := d\<rparr>" and rf: "refreshes q s h h1"
        and n: "\<And>e. e \<in> set (fsBuckets s t) \<Longrightarrow> \<not> eligible q h s e"
        using out by (auto simp: acq_outcome_def acq_none_def)
      have "unat (fsCursors s1 j) < 2 ^ 63" if "j \<in> fst ` set tiers" for j
      proof -
        have "j \<noteq> i" using that i by blast
        then show ?thesis using Cons.prems(4) that d(1) [of j] by (auto simp: s1)
      qed
      then obtain c where c: "acq_outcome q tiers h1 s1 h' s' r c" "bumped (fst ` set tiers) (fsCursors s1) c"
        using Cons.IH [of h1 s1] Cons.prems red True s1 by auto
      have "bumped (fst ` set (x # tiers)) (fsCursors s) c"
      proof
        fix j show "unat (c j) \<le> unat (fsCursors s j) + (if j \<in> fst ` set (x # tiers) then 1 else 0)"
          using spec [OF c(2), of j] d i by (cases "j = i") (auto simp: s1 x)
      qed
      moreover have "acq_outcome q (x # tiers) h s h' s' r c"
        unfolding x by (rule acq_outcome_skip [OF c(1) s1 rf Cons.prems(5) n])
      ultimately show ?thesis by blast
    next
      case False
      then have "(h', s', r) = (h1, s1, r1)" using Cons.prems(1) red by (auto split: scan_result.splits)
      then have "acq_outcome q (x # tiers) h s h' s' r d" using acq_outcome_extend [OF out False] by (simp add: x)
      moreover have "bumped (fst ` set (x # tiers)) (fsCursors s) d"
      proof
        fix j show "unat (d j) \<le> unat (fsCursors s j) + (if j \<in> fst ` set (x # tiers) then 1 else 0)"
          using d by (cases "j = i") (auto simp: x)
      qed
      ultimately show ?thesis by blast
    qed
  qed
qed

text \<open>The specification of an acquisition. It returns; the index stays well formed; a nil result
  means that no account in the scheduler could have been handed out; and an account that is handed
  out was eligible, got exactly one more active request, and no eligible account of a better tier
  was left aside.\<close>

definition acquire_spec :: "acquireArgs \<Rightarrow> account_heap \<Rightarrow> FastScheduler \<Rightarrow> account_heap \<Rightarrow> FastScheduler \<Rightarrow> scan_result \<Rightarrow> bool" where
  "acquire_spec q h s h' s' r \<longleftrightarrow> fs_wf h' s' \<and>
     (case r of
        ScanNone \<Rightarrow> eligible_ptrs q h s = {} \<and> refreshes q s h h'
      | ScanAcquired p \<Rightarrow>
          p \<in> eligible_ptrs q h s \<and>
          (\<exists>h1 a. refreshes q s h h1 \<and> h1 p = Some a \<and> h' = h1(p \<mapsto> acquired_at q a)) \<and>
          (\<exists>t e. (t, e) \<in> set (tagged s') \<and> entAcc e = p \<and>
             (\<forall>(u, f) \<in> set (tagged s'). tierPriority t < tierPriority u \<longrightarrow> \<not> eligible q h s f))
      | _ \<Rightarrow> False)"

lemma order_enumerate: "enumerate 0 fastSchedulerTierOrder = [(0, HealthTierHealthy), (1, HealthTierWarm), (2, HealthTierRisky)]"
  by (simp add: fastSchedulerTierOrder_def)

lemma higher_tiers_scanned:
  assumes "t \<in> set fastSchedulerTierOrder" "u \<in> set fastSchedulerTierOrder" "tierPriority t < tierPriority u"
  shows "\<exists>i. (i, u) \<in> set (takeWhile (\<lambda>x. snd x \<noteq> t) (enumerate 0 fastSchedulerTierOrder))"
  unfolding order_enumerate using assms by (auto simp: fastSchedulerTierOrder_def tierPriority_def)

lemma acquired_at_DBID [simp]: "DBID (acquired_at q a) = DBID a"
  by (simp add: acquired_at_def)

lemma acq_none_spec:
  assumes "acq_none q (enumerate 0 fastSchedulerTierOrder) h s h' s' c" "fs_wf h s"
  shows "acquire_spec q h s h' s' ScanNone"
  using assms fs_wf_refreshed [of h s "fsBaseLimit s" "argNow q" h']
  by (auto simp: acquire_spec_def acq_none_def eligible_ptrs_def tagged_iff order_enumerate fastSchedulerTierOrder_def)

lemma acq_got_spec:
  assumes got: "acq_got q (enumerate 0 fastSchedulerTierOrder) h s h' s' c p" and wf: "fs_wf h s"
  shows "acquire_spec q h s h' s' (ScanAcquired p)"
proof -
  obtain h1 t e a where o: "p = entAcc e" "(t, e) \<in> set (tagged s)" "refreshes q s h h1" "h1 p = Some a" "eligible q h s e"
    "h' = h1(p \<mapsto> acquired_at q a)" "s' = s\<lparr>fsCursors := c\<rparr>"
    and up: "\<forall>(i, u) \<in> set (takeWhile (\<lambda>x. snd x \<noteq> t) (enumerate 0 fastSchedulerTierOrder)).
       \<forall>f \<in> set (fsBuckets s u). \<not> eligible q h s f"
    using got unfolding acq_got_def by blast
  have "fs_wf h' s"
    by (rule fs_wf_mono [OF fs_wf_refreshed [OF wf o(3)]]) (use o(4,6) in auto)
  moreover have "p \<in> eligible_ptrs q h s" using o(1,2,5) by (force simp: eligible_ptrs_def)
  moreover have "\<not> eligible q h s f" if "(u, f) \<in> set (tagged s)" "tierPriority t < tierPriority u" for u f
    using higher_tiers_scanned [of t u] up that o(2) by (fastforce simp: tagged_iff)
  ultimately show ?thesis using o(1-4,6,7) by (auto simp: acquire_spec_def)
qed

lemma acquireLoop_spec:
  assumes "staleCount q h s < fuel" "fs_wf h s" "stable_tests q s" "\<forall>i. unat (fsCursors s i) + fuel \<le> 2 ^ 63"
  shows "\<exists>h' s' r. acquireLoop fuel q h s = Some (h', s', r) \<and> acquire_spec q h s h' s' r"
  using assms
proof (induction fuel arbitrary: h s)
  case (Suc fuel)
  obtain h1 s1 r where p: "acquireTiers q (enumerate 0 fastSchedulerTierOrder) h s = (h1, s1, r)" by (metis prod.collapse)
  have cu: "\<forall>i \<in> fst ` set (enumerate 0 fastSchedulerTierOrder). unat (fsCursors s i) < 2 ^ 63"
    using Suc.prems(4) by (metis Suc_le_lessD add_Suc_right le_add1 order_le_less_trans)
  have "snd ` set (enumerate 0 fastSchedulerTierOrder) \<subseteq> set fastSchedulerTierOrder"
    "distinct (map fst (enumerate 0 fastSchedulerTierOrder))"
    by (auto simp: order_enumerate fastSchedulerTierOrder_def)
  from acquireTiers_outcome [OF p this cu Suc.prems(3)]
  obtain c where out: "acq_outcome q (enumerate 0 fastSchedulerTierOrder) h s h1 s1 r c"
    and c: "bumped (fst ` set (enumerate 0 fastSchedulerTierOrder)) (fsCursors s) c" by blast
  show ?case
  proof (cases r)
    case ScanStale
    let ?s = "s\<lparr>fsCursors := c\<rparr>"
    obtain h2 t e where st: "(t, e) \<in> set (tagged s)" "refreshes q s h h2" "stale q h s (t, e)"
      and re: "h1 = fst (replaceStale q e h2 ?s)" "s1 = snd (replaceStale q e h2 ?s)"
      using out by (auto simp: ScanStale acq_outcome_def acq_stale_def dest: prod.inject [THEN iffD1] intro: sym)
        (metis fst_conv snd_conv)
    have wf: "fs_wf h2 ?s" using fs_wf_refreshed [OF Suc.prems(2) st(2)] by simp
    have te: "(t, e) \<in> set (tagged ?s)" using st(1) by simp
    have stc: "stale q h2 ?s = stale q h s" using stale_refreshed [OF st(2)] by (auto simp: fun_eq_iff)
    have "staleCount q h1 s1 < staleCount q h s"
      using replaceStale_progress [OF wf te, of q] stc st(3) unfolding re by (simp add: staleCount_def)
    moreover have "eligible_ptrs q h1 s1 = eligible_ptrs q h s"
      using replaceStale_eligible [OF wf te, of q] Suc.prems(3) eligible_refreshed [OF Suc.prems(3) st(2)]
      unfolding re by (simp add: eligible_ptrs_def)
    moreover have "fs_wf h1 s1" using replaceStale_wf [OF wf te] by (simp add: re)
    moreover have "stable_tests q s1" using Suc.prems(3) by (simp add: re stable_tests_def)
    moreover have "unat (fsCursors s1 i) + fuel \<le> 2 ^ 63" for i
      using spec [OF c, of i] spec [OF Suc.prems(4), of i] by (auto simp: re split: if_splits)
    ultimately obtain h' s' r' where fin: "acquireLoop fuel q h1 s1 = Some (h', s', r')" "acquire_spec q h1 s1 h' s' r'"
      using Suc.IH [of h1 s1] Suc.prems(1) by auto
    have rf: "refreshes q s h h1" using refreshed_trans [OF st(2)] replaceStale_heap [of ?s q h2 e] by (simp add: re)
    have "eligible q h1 s1 = eligible q h s"
      using eligible_cong [of s1 s q h1] eligible_refreshed [OF Suc.prems(3) rf] by (auto simp: re fun_eq_iff)
    then have "acquire_spec q h s h' s' r'"
      using fin(2) refreshed_trans [OF rf] \<open>eligible_ptrs q h1 s1 = eligible_ptrs q h s\<close>
      by (auto simp: acquire_spec_def re split: scan_result.splits)
    then show ?thesis using p fin(1) ScanStale by simp
  next
    case ScanNone
    then show ?thesis using p out acq_none_spec [OF _ Suc.prems(2)] by (auto simp: acq_outcome_def)
  next
    case (ScanAcquired ptr)
    then show ?thesis using p out acq_got_spec [OF _ Suc.prems(2)] by (auto simp: acq_outcome_def)
  next
    case ScanPanic
    then show ?thesis using out by (simp add: acq_outcome_def)
  qed
qed simp

subsection \<open>The invariant of the scheduler\<close>

lemma scanEntry_wf:
  assumes wf: "fs_wf h s" and e: "(t, e) \<in> set (tagged s)" and scan: "scanEntry q t e h s = (h', s', r)"
  shows "fs_wf h' s' \<and> (r = ScanNone \<longrightarrow> s' = s)"
  using scanEntry_cases [OF scan]
proof (elim disjE exE conjE)
  fix h1 assume "refreshes q s h h1" "(h', s') = replaceStale q e h1 s" "r = ScanStale"
  then show ?thesis
    using replaceStale_wf [OF fs_wf_refreshed [OF wf] e] by (metis fst_conv snd_conv scan_result.distinct(7))
next
  fix h1 a assume "s' = s" "refreshes q s h h1" "h1 (entAcc e) = Some a" "h' = h1(entAcc e \<mapsto> acquired_at q a)"
    "r = ScanAcquired (entAcc e)"
  moreover from this have "fs_wf h' s"
    by (intro fs_wf_mono [OF fs_wf_refreshed [OF wf]]) auto
  ultimately show ?thesis by simp
qed (use fs_wf_refreshed [OF wf] in blast)

definition keeps_ids :: "account_heap \<Rightarrow> account_heap \<Rightarrow> bool" where
  "keeps_ids h h' \<longleftrightarrow> (\<forall>p a. h p = Some a \<longrightarrow> (\<exists>a'. h' p = Some a' \<and> DBID a' = DBID a))"

lemma keeps_ids_refl [simp, intro]: "keeps_ids h h"
  by (simp add: keeps_ids_def)

lemma keeps_ids_upd: "h p = Some a \<Longrightarrow> DBID a' = DBID a \<Longrightarrow> keeps_ids h (h(p \<mapsto> a'))"
  by (simp add: keeps_ids_def)

lemma keeps_ids_refreshed: "refreshed b now h h' \<Longrightarrow> keeps_ids h h'"
  by (auto simp: keeps_ids_def snapshot_keeps dest!: refreshed_SomeD)

lemma keeps_ids_trans: "keeps_ids h h1 \<Longrightarrow> keeps_ids h1 h2 \<Longrightarrow> keeps_ids h h2"
  unfolding keeps_ids_def by metis

lemma scanEntry_keeps: "scanEntry q t e h s = (h', s', r) \<Longrightarrow> keeps_ids h h'"
proof -
  assume "scanEntry q t e h s = (h', s', r)"
  from scanEntry_cases [OF this] show ?thesis
  proof (elim disjE exE conjE)
    fix h1 assume "refreshes q s h h1" "(h', s') = replaceStale q e h1 s"
    moreover have "refreshes q s h1 (fst (replaceStale q e h1 s))" by (rule replaceStale_heap)
    ultimately show ?thesis by (metis fst_conv keeps_ids_refreshed keeps_ids_trans)
  next
    fix h1 a assume h: "refreshes q s h h1" "h1 (entAcc e) = Some a" "h' = h1(entAcc e \<mapsto> acquired_at q a)"
    have "keeps_ids h1 h'" using keeps_ids_upd [of h1 "entAcc e" a "acquired_at q a"] h(2,3) by simp
    then show ?thesis using keeps_ids_trans keeps_ids_refreshed [OF h(1)] by blast
  qed (rule keeps_ids_refreshed)
qed

text \<open>What an acquisition hands out passed the caller's tests, whatever the cursors are; the group check
  was asked about an account with the same groups.\<close>

definition handedOut :: "acquireArgs \<Rightarrow> (int \<Rightarrow> Account \<Rightarrow> bool) option \<Rightarrow> account_heap \<Rightarrow> scan_result \<Rightarrow> bool" where
  "handedOut q check h r = (case r of
     ScanAcquired p \<Rightarrow> (\<exists>a a0. h p = Some a \<and> DBID a \<notin> argExclude q \<and> AllowsAPIKey (argKey q) a \<and>
       GroupIDs a0 = GroupIDs a \<and> (case check of None \<Rightarrow> True | Some g \<Rightarrow> g (argKey q) a0))
   | _ \<Rightarrow> True)"

definition acquiredOk ::
  "acquireArgs \<Rightarrow> account_heap \<Rightarrow> FastScheduler \<Rightarrow> account_heap \<Rightarrow> FastScheduler \<Rightarrow> scan_result \<Rightarrow> bool" where
  "acquiredOk q h s h' s' r \<longleftrightarrow>
     fs_wf h' s' \<and> handedOut q (fsGroupCheck s) h' r \<and> keeps_ids h h' \<and> fsGroupCheck s' = fsGroupCheck s"

lemma acquiredOk_trans:
  "acquiredOk q h s h1 s1 ScanNone \<or> acquiredOk q h s h1 s1 ScanStale \<Longrightarrow> acquiredOk q h1 s1 h2 s2 r \<Longrightarrow> acquiredOk q h s h2 s2 r"
  unfolding acquiredOk_def by (metis keeps_ids_trans)

lemma scanEntry_handedOut:
  assumes wf: "fs_wf h s" and e: "(t, e) \<in> set (tagged s)" and scan: "scanEntry q t e h s = (h', s', r)"
  shows "handedOut q (fsGroupCheck s) h' r"
  using scanEntry_cases [OF scan]
proof (elim disjE exE conjE)
  fix h1 a assume h: "refreshes q s h h1" "h1 (entAcc e) = Some a" "h' = h1(entAcc e \<mapsto> acquired_at q a)"
    and el: "eligible q h s e" and r: "r = ScanAcquired (entAcc e)"
  obtain a0 where a0: "h (entAcc e) = Some a0" "a = a0 \<or> a = fst (fastSchedulerSnapshot (fsBaseLimit s) (argNow q) a0)"
    using refreshed_backD [OF h(1,2)] by blast
  have "DBID a0 = entDbID e" using wf_entryD [OF wf e] a0(1) by auto
  moreover have ad: "admitted q (fsGroupCheck s) e a0" using el a0(1) by (simp add: eligible_def)
  ultimately have "DBID a0 \<notin> argExclude q \<and> AllowsAPIKey (argKey q) a0" by (simp add: admitted_def)
  moreover have "DBID (acquired_at q a) = DBID a" "AllowsAPIKey (argKey q) (acquired_at q a) = AllowsAPIKey (argKey q) a"
    "GroupIDs (acquired_at q a) = GroupIDs a"
    by (simp_all add: acquired_at_def AllowsAPIKey_def)
  moreover have "DBID a = DBID a0" "AllowsAPIKey (argKey q) a = AllowsAPIKey (argKey q) a0" "GroupIDs a0 = GroupIDs a"
    using a0(2) by (auto simp: snapshot_keeps)
  ultimately show ?thesis using h(3) r ad by (auto simp: handedOut_def admitted_def)
qed (simp_all add: handedOut_def)

lemma scanEntry_ok:
  assumes wf: "fs_wf h s" and e: "(t, e) \<in> set (tagged s)" and scan: "scanEntry q t e h s = (h', s', r)"
  shows "acquiredOk q h s h' s' r"
proof -
  have "fsGroupCheck s' = fsGroupCheck s"
    using scanEntry_cases [OF scan] replaceStale_sel(4) by (metis snd_conv)
  then show ?thesis
    using scanEntry_wf [OF wf e scan] scanEntry_handedOut [OF wf e scan] scanEntry_keeps [OF scan]
    by (simp add: acquiredOk_def)
qed

lemma smod_less: "0 < n \<Longrightarrow> a smod n < n" for a n :: int
proof -
  assume n: "0 < n"
  then have "abs (a smod n) < abs n" by (simp add: abs_mod_less signed_modulo_int_def signed_divide_int_def abs_mult sgn_if
        minus_div_mult_eq_mod [symmetric] zabs_less_one_iff) (smt (verit) div_mult_mod_eq mult_minus_left pos_mod_bound pos_mod_sign)
  then show ?thesis using n by linarith
qed

lemma scanLoop_wf:
  "fs_wf h s \<Longrightarrow> t \<in> set fastSchedulerTierOrder \<Longrightarrow> bucket = fsBuckets s t \<Longrightarrow> bucket \<noteq> [] \<Longrightarrow>
   scanLoop q t bucket start offs h s = (h', s', r) \<Longrightarrow> acquiredOk q h s h' s' r"
proof (induction offs arbitrary: h)
  case (Cons off offs)
  let ?idx = "(start + int off) smod int (length bucket)"
  obtain h1 s1 r1 where e: "scanEntry q t (bucket ! nat ?idx) h s = (h1, s1, r1)" by (metis prod.collapse)
  show ?case
  proof (cases "?idx < 0")
    case False
    have "?idx < int (length bucket)" using Cons.prems(4) smod_less [of "int (length bucket)"] by simp
    then have "nat ?idx < length bucket" using False by linarith
    then have m: "(t, bucket ! nat ?idx) \<in> set (tagged s)" using Cons.prems(2,3) by (simp add: tagged_iff)
    have w: "acquiredOk q h s h1 s1 r1" "r1 = ScanNone \<Longrightarrow> s1 = s"
      using scanEntry_wf [OF Cons.prems(1) m e] scanEntry_ok [OF Cons.prems(1) m e] by auto
    show ?thesis
    proof (cases "r1 = ScanNone")
      case True
      then have "s1 = s" "acquiredOk q h s h1 s ScanNone" "fs_wf h1 s" using w by (auto simp: acquiredOk_def)
      moreover have "acquiredOk q h1 s h' s' r"
        using Cons.IH [of h1] calculation Cons.prems False e True by (simp add: Let_def)
      ultimately show ?thesis using acquiredOk_trans by blast
    next
      case nn: False
      then have "(h', s', r) = (h1, s1, r1)"
        using Cons.prems(5) False e by (auto simp: Let_def split: scan_result.splits)
      then show ?thesis using w by simp
    qed
  qed (use Cons.prems in \<open>simp add: Let_def handedOut_def acquiredOk_def\<close>)
qed (simp add: handedOut_def acquiredOk_def)

lemma scanRange_wf:
  "fs_wf h s \<Longrightarrow> t \<in> set fastSchedulerTierOrder \<Longrightarrow> scanRangeLocked q t cursor h s = (h', s', r) \<Longrightarrow>
   acquiredOk q h s h' s' r"
  using scanLoop_wf [of h s t "fsBuckets s t" q]
  by (auto simp: scanRangeLocked_def Let_def handedOut_def acquiredOk_def split: if_splits)

lemma acquireTiers_wf:
  "fs_wf h s \<Longrightarrow> snd ` set tiers \<subseteq> set fastSchedulerTierOrder \<Longrightarrow> acquireTiers q tiers h s = (h', s', r) \<Longrightarrow>
   acquiredOk q h s h' s' r"
proof (induction tiers arbitrary: h s)
  case (Cons x tiers)
  obtain i t where x: "x = (i, t)" by (cases x)
  let ?cur = "if fsMode s = ''remaining_quota'' then 0 else fsCursors s i"
  let ?s = "if fsMode s = ''remaining_quota'' then s else s\<lparr>fsCursors := (fsCursors s)(i := ?cur + 1)\<rparr>"
  obtain h1 s1 r1 where e: "scanRangeLocked q t ?cur h ?s = (h1, s1, r1)" by (metis prod.collapse)
  have "fs_wf h ?s" using Cons.prems(1) by simp
  then have "acquiredOk q h ?s h1 s1 r1" using scanRange_wf [OF _ _ e] Cons.prems(2) x by simp
  then have w: "acquiredOk q h s h1 s1 r1" "fs_wf h1 s1" by (auto simp: acquiredOk_def split: if_splits)
  show ?case
  proof (cases "fsBuckets s t = []")
    case True
    then show ?thesis using Cons.IH [of h s] Cons.prems x by simp
  next
    case False
    then have "acquireTiers q (x # tiers) h s = (case (h1, s1, r1) of (h', s', ScanNone) \<Rightarrow> acquireTiers q tiers h' s' | r \<Rightarrow> r)"
      unfolding x acquireTiers.simps Let_def e by simp
    then show ?thesis
      using Cons.IH [OF w(2)] Cons.prems w(1) acquiredOk_trans [of q h s h1 s1 h' s' r] by (cases r1) simp_all
  qed
qed (simp add: handedOut_def acquiredOk_def)

lemma acquireLoop_wf: "fs_wf h s \<Longrightarrow> acquireLoop fuel q h s = Some (h', s', r) \<Longrightarrow> acquiredOk q h s h' s' r"
proof (induction fuel arbitrary: h s)
  case (Suc fuel)
  obtain h1 s1 r1 where e: "acquireTiers q (enumerate 0 fastSchedulerTierOrder) h s = (h1, s1, r1)" by (metis prod.collapse)
  have "snd ` set (enumerate 0 fastSchedulerTierOrder) \<subseteq> set fastSchedulerTierOrder"
    by (auto simp: order_enumerate fastSchedulerTierOrder_def)
  from acquireTiers_wf [OF Suc.prems(1) this e] have w: "acquiredOk q h s h1 s1 r1" "fs_wf h1 s1"
    by (simp_all add: acquiredOk_def)
  show ?case
    using Suc.IH [OF w(2)] Suc.prems(2) e w(1) acquiredOk_trans [of q h s h1 s1 h' s' r] by (cases r1) simp_all
qed simp

text \<open>The steps of the program on a scheduler and its accounts. The rule \<open>mutate\<close> stands for
  every change of an account, which never changes its database ID.\<close>

inductive fs_step :: "account_heap \<times> FastScheduler \<Rightarrow> account_heap \<times> FastScheduler \<Rightarrow> bool" where
  mutate: "h p = Some a \<Longrightarrow> DBID a' = DBID a \<Longrightarrow> fs_step (h, s) (h(p \<mapsto> a'), s)"
| allocate: "h p = None \<Longrightarrow> fs_step (h, s) (h(p \<mapsto> a), s)"
| update: "fs_step (h, s) (Update now p (h, s))"
| remove: "fs_step (h, s) (h, Remove dbID s)"
| rebuild: "distinct (List.map_filter (\<lambda>p. map_option DBID (h p)) ps) \<Longrightarrow> fs_step (h, s) (Rebuild now ps (h, s))"
| set_mode: "fs_step (h, s) (h, SetSchedulerMode h mode s)"
| set_base: "fs_step (h, s) (h, SetBaseLimit n s)"
| set_check: "fs_step (h, s) (h, SetGroupCheck g s)"
| acquire: "AcquireExcludingWithFilter q h s = Some (h', s', r) \<Longrightarrow> fs_step (h, s) (h', s')"
| release: "fs_step (h, s) (Release p h, s)"

lemma fs_wf_new: "fs_wf h (NewFastScheduler n mode)"
  by (simp add: fs_wf_def NewFastScheduler_def tagged_simps exact_on_def)

lemma fs_step_wf: "fs_step x y \<Longrightarrow> fs_wf (fst x) (snd x) \<Longrightarrow> fs_wf (fst y) (snd y)"
proof (induction rule: fs_step.induct)
  case (mutate h p a a' s)
  have "fs_wf (h(p \<mapsto> a')) s" by (rule fs_wf_mono [of h]) (use mutate in auto)
  then show ?case by (simp only: fst_conv snd_conv)
next
  case (allocate h p s a)
  have "fs_wf (h(p \<mapsto> a)) s" by (rule fs_wf_mono [of h]) (use allocate in auto)
  then show ?case by (simp only: fst_conv snd_conv)
next
  case (acquire q h s h' s' r)
  then have "acquiredOk q h s h' s' r" using acquireLoop_wf by (simp add: AcquireExcludingWithFilter_def del: acquireLoop.simps)
  then show ?case by (simp add: acquiredOk_def)
next
  case (release h s p)
  have "fs_wf (Release p h) s"
    by (rule fs_wf_mono [of h]) (use release in \<open>auto simp: Release_def releaseAccount_def split: option.split\<close>)
  then show ?case by simp
qed (simp_all add: Update_wf Remove_wf SetSchedulerMode_wf Rebuild_facts(2) SetBaseLimit_def SetGroupCheck_def,
     (simp add: fs_wf_def exact_on_def tagged_def)+)

interpretation fs_machine: invariant_machine fs_step "\<lambda>x. fs_wf (fst x) (snd x)"
  by unfold_locales (rule fs_step_wf)

subsection \<open>Properties\<close>

lemma entryCount_tagged: "entryCount s = length (tagged s)"
  by (simp add: entryCount_def tagged_def length_concat comp_def)

lemma staleCount_le: "staleCount q h s \<le> entryCount s"
  unfolding staleCount_def entryCount_tagged by (metis size_filter_mset_lesseq size_mset)

lemma Rebuild_keeps:
  "fsCursors (snd (Rebuild now ps hs)) = fsCursors (snd hs)"
  "fsGroupCheck (snd (Rebuild now ps hs)) = fsGroupCheck (snd hs)"
proof -
  have c: "fsCursors (snd (fold (collectAccount now) ps x)) = fsCursors (snd x) \<and>
      fsGroupCheck (snd (fold (collectAccount now) ps x)) = fsGroupCheck (snd x)" for x
    by (induction ps arbitrary: x) (auto simp: collectAccount_def Let_def split: option.split)
  have r: "fsCursors (fold (resortTier g) ts s) = fsCursors s \<and> fsGroupCheck (fold (resortTier g) ts s) = fsGroupCheck s" for g ts s
    by (induction ts arbitrary: s) auto
  show "fsCursors (snd (Rebuild now ps hs)) = fsCursors (snd hs)" "fsGroupCheck (snd (Rebuild now ps hs)) = fsGroupCheck (snd hs)"
    using c r by (simp_all add: Rebuild_def Let_def)
qed

text \<open>
  C2: an acquisition always returns and is right. From a well-formed scheduler whose cursors
  are below \<open>2 ^ 63\<close> by at least the number of entries, the loop ends after at most one pass per
  entry and one more. A nil result means that no account in any bucket passed the caller's tests,
  was available and had a free slot; a returned account did, its request counters grew by one, no
  other account changed beyond its cached figures, and no account of a better tier could have been
  taken instead. The index of positions stays exact.
\<close>

theorem acquire_correct:
  assumes "fs_wf h s" "stable_tests q s" "\<forall>i. unat (fsCursors s i) + entryCount s < 2 ^ 63"
  shows "\<exists>h' s' r. AcquireExcludingWithFilter q h s = Some (h', s', r) \<and> acquire_spec q h s h' s' r"
proof -
  have "staleCount q h s < Suc (entryCount s)" using staleCount_le [of q h s] by simp
  moreover have "\<forall>i. unat (fsCursors s i) + Suc (entryCount s) \<le> 2 ^ 63"
    using assms(3) by (metis Suc_leI add_Suc_right)
  ultimately show ?thesis
    unfolding AcquireExcludingWithFilter_def using acquireLoop_spec assms(1,2) by blast
qed

definition demoAccount :: "int \<Rightarrow> Account" where
  "demoAccount i = (newAccount i)\<lparr>AccessToken := ''token'', HealthTier := HealthTierHealthy,
     DispatchScore := 100, DynamicConcurrencyLimit := 2\<rparr>"

definition demoHeap :: account_heap where
  "demoHeap = [0 \<mapsto> demoAccount 7, 1 \<mapsto> demoAccount 8]"

definition demoArgs :: "int set \<Rightarrow> acquireArgs" where
  "demoArgs ex = \<lparr>argNow = 1000, argKey = 0, argExclude = ex, argFilter = None\<rparr>"

definition demoScheduler :: "account_heap \<times> FastScheduler" where
  "demoScheduler = Rebuild 1000 [0, 1] (demoHeap, NewFastScheduler 2 ''round_robin'')"

lemma demo_wf: "fs_wf (fst demoScheduler) (snd demoScheduler)" "entryCount (snd demoScheduler) \<le> 2"
  "fsCursors (snd demoScheduler) = (\<lambda>_. 0)" "fsGroupCheck (snd demoScheduler) = None"
proof -
  have d: "distinct (List.map_filter (\<lambda>p. map_option DBID (demoHeap p)) [0, 1])"
    by (simp add: demoHeap_def demoAccount_def newAccount_def List.map_filter_simps)
  note f = Rebuild_facts [OF d, where now = 1000 and s = "NewFastScheduler 2 ''round_robin''"]
  show "fs_wf (fst demoScheduler) (snd demoScheduler)" using f(2) by (simp add: demoScheduler_def)
  have l: "length (contribution b n g p) \<le> 1" for b n g p
    using contribution_cases [of b n g p] by auto
  have "length (tagged (snd demoScheduler)) = length (concat (map (contribution (fsBaseLimit (NewFastScheduler 2 ''round_robin'')) 1000 demoHeap) [0, 1]))"
    using f(3) unfolding demoScheduler_def by (metis size_mset)
  also have "\<dots> \<le> 2" using add_mono [OF l [of "fsBaseLimit (NewFastScheduler 2 ''round_robin'')" 1000 demoHeap 0]
      l [of "fsBaseLimit (NewFastScheduler 2 ''round_robin'')" 1000 demoHeap 1]] by simp
  finally show "entryCount (snd demoScheduler) \<le> 2" by (simp add: entryCount_tagged)
  show "fsCursors (snd demoScheduler) = (\<lambda>_. 0)" "fsGroupCheck (snd demoScheduler) = None"
    by (simp_all add: demoScheduler_def Rebuild_keeps NewFastScheduler_def)
qed

theorem acquire_correct_witness:
  "\<exists>h' s' r. AcquireExcludingWithFilter (demoArgs {7}) (fst demoScheduler) (snd demoScheduler) = Some (h', s', r) \<and>
     acquire_spec (demoArgs {7}) (fst demoScheduler) (snd demoScheduler) h' s' r"
proof (rule acquire_correct)
  show "\<forall>i. unat (fsCursors (snd demoScheduler) i) + entryCount (snd demoScheduler) < 2 ^ 63"
    using demo_wf(2) unfolding demo_wf(3) by simp
qed (simp_all add: demo_wf stable_tests_def demoArgs_def)

lemma eligibleD:
  assumes "eligible q h s e" "h (entAcc e) = Some a"
  shows "entDbID e \<notin> argExclude q \<and> AllowsAPIKey (argKey q) a \<and> (\<forall>f. argFilter q = Some f \<longrightarrow> f a) \<and>
    IsAvailable (argNow q) (a\<lparr>Disabled := False\<rparr>) \<and> ActiveRequests a < snLimit (snapOf q s a)"
  using assms by (auto simp: eligible_def admitted_def snapOf_def snapshot_available_iff)

text \<open>
  Supplement: what a caller may rely on about an account it is given. Whatever the state of the index,
  an acquired account was in the heap, is not among the excluded IDs, admits the API key, passed
  the filter, was available at that moment apart from the atomic \<open>Disabled\<close> flag, and its active
  requests after the call are one more than before and within its dynamic limit.
\<close>

theorem acquired_account_sound:
  assumes "fs_wf h s" "stable_tests q s" "\<forall>i. unat (fsCursors s i) + entryCount s < 2 ^ 63"
    and "AcquireExcludingWithFilter q h s = Some (h', s', ScanAcquired p)"
  shows "\<exists>a a'. h p = Some a \<and> h' p = Some a' \<and> DBID a \<notin> argExclude q \<and> AllowsAPIKey (argKey q) a \<and>
     (\<forall>f. argFilter q = Some f \<longrightarrow> f a) \<and> IsAvailable (argNow q) (a\<lparr>Disabled := False\<rparr>) \<and>
     ActiveRequests a' = ActiveRequests a + 1 \<and> ActiveRequests a' \<le> snLimit (snapOf q s a)"
proof -
  have "staleCount q h s < Suc (entryCount s)" using staleCount_le [of q h s] by simp
  moreover have "\<forall>i. unat (fsCursors s i) + Suc (entryCount s) \<le> 2 ^ 63"
    using assms(3) by (metis Suc_leI add_Suc_right)
  ultimately have "acquire_spec q h s h' s' (ScanAcquired p)"
    using acquireLoop_spec [of q h s "Suc (entryCount s)"] assms(1,2,4)
    by (auto simp: AcquireExcludingWithFilter_def simp del: acquireLoop.simps)
  then obtain te h1 a' where te: "te \<in> set (tagged s)" "entAcc (snd te) = p" "eligible q h s (snd te)"
    and h1: "refreshes q s h h1" "h1 p = Some a'" "h' = h1(p \<mapsto> acquired_at q a')"
    by (auto simp: acquire_spec_def eligible_ptrs_def)
  obtain a where a: "h p = Some a" "DBID a = entDbID (snd te)"
    using wf_entryD [OF assms(1), of "fst te" "snd te"] te by auto
  have "ActiveRequests a' = ActiveRequests a"
    using refreshed_SomeD [OF h1(1) a(1)] h1(2) by (auto simp: sel_simps)
  then show ?thesis
    using eligibleD [OF te(3), of a] a te(2) h1(3) by (auto simp: acquired_at_def)
qed

lemma demo_snapshot:
  "fastSchedulerSnapshot 2 1000 ((demoAccount i)\<lparr>Disabled := d\<rparr>) =
     ((demoAccount i)\<lparr>Disabled := d\<rparr>, \<lparr>snTier = HealthTierHealthy, snScore = 100, snLimit = 2, snProven = False, snAvailable = True\<rparr>)"
proof -
  let ?a = "(demoAccount i)\<lparr>Disabled := d\<rparr>"
  have "hasDispatchCredentialLocked ?a"
    by (simp add: demoAccount_def newAccount_def hasDispatchCredentialLocked_def TrimSpace_def is_space_def)
  moreover have "\<not> premium5hRateLimitedLocked 1000 ?a" "\<not> quotaAutoPausedLocked 1000 ?a" "\<not> usageExhaustedLocked ?a"
    "\<not> refreshesSnapshot ?a" "healthTierLocked ?a = HealthTierHealthy" "HealthTier ?a = HealthTierHealthy" "DispatchScore ?a = 100"
    "DynamicConcurrencyLimit ?a = 2" "TotalRequests ?a = 0" "\<not> DispatchPaused ?a" "Status ?a = StatusReady"
    by (simp_all add: demoAccount_def newAccount_def premium5hRateLimitedLocked_def quotaAutoPausedLocked_def
        quotaAutoPausedByWindow_def usageExhaustedLocked_def refreshesSnapshot_def healthTierLocked_def)
  ultimately show ?thesis by (simp add: fastSchedulerSnapshot_def snapshotView_def Let_def)
qed

text \<open>A scheduler with one entry, for the account at address 0.\<close>

definition demoEntry :: fastSchedulerEntry where
  "demoEntry = \<lparr>entAcc = 0, entDbID = 7, entScore = 100, entProven = False\<rparr>"

definition demoOne :: FastScheduler where
  "demoOne = (NewFastScheduler 2 ''round_robin'')\<lparr>fsBuckets := (\<lambda>_. [])(HealthTierHealthy := [demoEntry]),
     fsPositions := [7 \<mapsto> \<lparr>posTier = HealthTierHealthy, posIndex = 0\<rparr>]\<rparr>"

definition demoOneHeap :: "bool \<Rightarrow> account_heap" where
  "demoOneHeap d = [0 \<mapsto> (demoAccount 7)\<lparr>Disabled := d\<rparr>]"

lemma demoOne_wf: "fs_wf (demoOneHeap d) demoOne"
  by (auto simp: fs_wf_def demoOne_def tagged_simps exact_on_def NewFastScheduler_def demoEntry_def demoOneHeap_def
      fastSchedulerTierOrder_def demoAccount_def newAccount_def split: if_splits)

lemma demoOne_acquire:
  "AcquireExcludingWithFilter (demoArgs {}) (demoOneHeap d) demoOne =
     Some ((demoOneHeap d)(0 \<mapsto> acquired_at (demoArgs {}) ((demoAccount 7)\<lparr>Disabled := d\<rparr>)),
           demoOne\<lparr>fsCursors := (\<lambda>_. 0)(0 := 1)\<rparr>, ScanAcquired 0)"
proof -
  have e: "scanEntry (demoArgs {}) HealthTierHealthy demoEntry (demoOneHeap d) (demoOne\<lparr>fsCursors := c\<rparr>) =
      ((demoOneHeap d)(0 \<mapsto> acquired_at (demoArgs {}) ((demoAccount 7)\<lparr>Disabled := d\<rparr>)), demoOne\<lparr>fsCursors := c\<rparr>, ScanAcquired 0)" for c
    using demo_snapshot [where i = 7 and d = d]
    by (simp add: scanEntry_def demoEntry_def demoOneHeap_def demoOne_def NewFastScheduler_def demoArgs_def admitted_def
        AllowsAPIKey_def outdated_def tryAcquireAccount_def acquired_at_def Let_def demoAccount_def newAccount_def)
  have b: "fsBuckets (demoOne\<lparr>fsCursors := c\<rparr>) HealthTierHealthy = [demoEntry]" "fsBuckets demoOne HealthTierHealthy = [demoEntry]"
    "fsMode demoOne = ''round_robin''" "fsCursors demoOne = (\<lambda>_. 0)" "entryCount demoOne = 1" for c
    by (simp_all add: demoOne_def NewFastScheduler_def entryCount_def fastSchedulerTierOrder_def)
  have "scanRangeLocked (demoArgs {}) HealthTierHealthy 0 (demoOneHeap d) (demoOne\<lparr>fsCursors := c\<rparr>) =
      ((demoOneHeap d)(0 \<mapsto> acquired_at (demoArgs {}) ((demoAccount 7)\<lparr>Disabled := d\<rparr>)), demoOne\<lparr>fsCursors := c\<rparr>, ScanAcquired 0)" for c
    using scanRange_rotation [of 0 "demoArgs {}" HealthTierHealthy "demoOneHeap d" "demoOne\<lparr>fsCursors := c\<rparr>"] by (simp add: b e)
  then have "acquireTiers (demoArgs {}) (enumerate 0 fastSchedulerTierOrder) (demoOneHeap d) demoOne =
      ((demoOneHeap d)(0 \<mapsto> acquired_at (demoArgs {}) ((demoAccount 7)\<lparr>Disabled := d\<rparr>)), demoOne\<lparr>fsCursors := (\<lambda>_. 0)(0 := 1)\<rparr>, ScanAcquired 0)"
    unfolding order_enumerate by (simp add: b)
  then show ?thesis by (simp add: AcquireExcludingWithFilter_def)
qed

theorem acquired_account_sound_witness:
  "\<exists>a a'. demoOneHeap False 0 = Some a \<and>
     ((demoOneHeap False)(0 \<mapsto> acquired_at (demoArgs {}) ((demoAccount 7)\<lparr>Disabled := False\<rparr>))) 0 = Some a' \<and>
     DBID a \<notin> argExclude (demoArgs {}) \<and> AllowsAPIKey (argKey (demoArgs {})) a \<and>
     (\<forall>f. argFilter (demoArgs {}) = Some f \<longrightarrow> f a) \<and> IsAvailable (argNow (demoArgs {})) (a\<lparr>Disabled := False\<rparr>) \<and>
     ActiveRequests a' = ActiveRequests a + 1 \<and> ActiveRequests a' \<le> snLimit (snapOf (demoArgs {}) demoOne a)"
proof (rule acquired_account_sound [OF demoOne_wf _ _ demoOne_acquire])
  show "stable_tests (demoArgs {}) demoOne" by (simp add: stable_tests_def demoArgs_def demoOne_def NewFastScheduler_def)
  have "fsCursors demoOne = (\<lambda>_. 0)" "entryCount demoOne = 1"
    by (simp_all add: demoOne_def NewFastScheduler_def entryCount_def fastSchedulerTierOrder_def)
  then show "\<forall>i. unat (fsCursors demoOne i) + entryCount demoOne < 2 ^ 63" by simp
qed

text \<open>
  Supplement: the atomic \<open>Disabled\<close> flag does not stop the fast scheduler. The flag is documented as
  making an account unschedulable at once, and \<open>IsAvailable\<close> honours it; a snapshot does not read
  it, so an account with the flag set is handed out by the scheduler while \<open>IsAvailable\<close> is false
  for it at every time.
\<close>

theorem disabled_account_is_acquired:
  "(\<forall>t. \<not> IsAvailable t (the (demoOneHeap True 0))) \<and>
   (\<exists>h' s'. AcquireExcludingWithFilter (demoArgs {}) (demoOneHeap True) demoOne = Some (h', s', ScanAcquired 0))"
  using demoOne_acquire [of True] by (simp add: IsAvailable_def demoOneHeap_def)

text \<open>
  Supplement: inserting and rebuilding sort the healthy bucket differently. In mode \<open>round_robin\<close>,
  \<open>insertLocked\<close> puts the account with the lower seven-day usage first, whatever the scores, while
  \<open>Rebuild\<close> and \<open>SetSchedulerMode\<close> put the higher score first, whatever the usage: two entries
  whose usage and score disagree are ordered one way by one and the other way by the other.
\<close>

theorem round_robin_orders_disagree:
  assumes "entUsage h e < entUsage h f" "entScore e < entScore f"
  shows "insertLess ''round_robin'' HealthTierHealthy h e f \<and> modeLess ''round_robin'' h f e"
  using assms by (auto simp: insertLess_def modeLess_def less_defs)

theorem round_robin_orders_disagree_witness:
  "let h = [0 \<mapsto> (demoAccount 7)\<lparr>UsagePercent7d := 10, UsagePercent7dValid := True\<rparr>,
            1 \<mapsto> (demoAccount 8)\<lparr>UsagePercent7d := 90, UsagePercent7dValid := True\<rparr>];
       e = \<lparr>entAcc = 0, entDbID = 7, entScore = 80, entProven = False\<rparr>;
       f = \<lparr>entAcc = 1, entDbID = 8, entScore = 90, entProven = False\<rparr>
   in insertLess ''round_robin'' HealthTierHealthy h e f \<and> modeLess ''round_robin'' h f e"
  unfolding Let_def by (rule round_robin_orders_disagree) (simp_all add: entUsage_def usagePercentForScheduling_def)

text \<open>
  Supplement: rebuilding. If the accounts have distinct database IDs, \<open>Rebuild\<close> leaves a well-formed
  index; the buckets together hold exactly one entry for each account that is available with a
  positive limit, in the bucket of its tier, and nothing else; and every bucket is sorted by the
  order of the scheduling mode.
\<close>

theorem rebuild_correct:
  assumes "distinct (List.map_filter (\<lambda>p. map_option DBID (h p)) ps)"
  shows "(case Rebuild now ps (h, s) of (h', s') \<Rightarrow>
     fs_wf h' s' \<and> mset (tagged s') = mset (concat (map (contribution (fsBaseLimit s) now h) ps)) \<and>
     (\<forall>t. sorted_wrt (\<lambda>x y. \<not> modeLess (fsMode s) h' y x) (fsBuckets s' t)))"
  using Rebuild_facts [OF assms, where now = now and s = s] by (simp add: case_prod_beta)

theorem rebuild_correct_witness:
  "(case Rebuild 1000 [0, 1] (demoHeap, NewFastScheduler 2 ''round_robin'') of (h', s') \<Rightarrow>
     fs_wf h' s' \<and> mset (tagged s') = mset (concat (map (contribution (fsBaseLimit (NewFastScheduler 2 ''round_robin'')) 1000 demoHeap) [0, 1])) \<and>
     (\<forall>t. sorted_wrt (\<lambda>x y. \<not> modeLess (fsMode (NewFastScheduler 2 ''round_robin'')) h' y x) (fsBuckets s' t)))"
  by (rule rebuild_correct) (simp add: demoHeap_def demoAccount_def newAccount_def List.map_filter_simps)



end
