(* ===== verification/AccountOps.thy ===== *)
theory AccountOps
  imports Account
begin

section \<open>Operations on accounts: cooldowns, reports, probes\<close>

text \<open>
  The state-changing methods of an account and the critical sections of the \<open>Store\<close> methods
  that run under the lock of one account (\<open>auth/store.go\<close>, \<open>auth/premium_rate_limit.go\<close>).
  What the store does around them (updating the fast scheduler, writing the runtime cache) is in
  theory \<open>Store\<close>. \<open>base\<close> is the store's \<open>maxConcurrency\<close>. The durations of a model
  cooldown are doubled in \<open>int64\<close> arithmetic, written out with \<open>wrap64\<close>.
\<close>

subsection \<open>Account cooldowns\<close>

definition SetCooldownUntil :: "time \<Rightarrow> string \<Rightarrow> Account \<Rightarrow> Account" where
  "SetCooldownUntil until reason a0 =
     (let a = a0\<lparr>Status := StatusCooldown, CooldownUtil := until, CooldownReason := reason\<rparr>
      in if reason = ''unauthorized'' then a\<lparr>HealthTier := HealthTierBanned\<rparr>
         else if reason = ''rate_limited'' then
           (if healthTierLocked a = HealthTierHealthy then a\<lparr>HealthTier := HealthTierWarm\<rparr>
            else a\<lparr>HealthTier := HealthTierRisky\<rparr>)
         else if HealthTier a = TierUnset then a\<lparr>HealthTier := HealthTierWarm\<rparr> else a)"

definition HasActiveCooldown :: "time \<Rightarrow> Account \<Rightarrow> bool" where
  "HasActiveCooldown now a \<longleftrightarrow> Status a = StatusCooldown \<and> now < CooldownUtil a"

definition normalizeAccountErrorMessage :: "string \<Rightarrow> string \<Rightarrow> string" where
  "normalizeAccountErrorMessage errorMsg fallback =
     (let m0 = TrimSpace errorMsg; m1 = (if m0 = [] then TrimSpace fallback else m0)
      in if length m1 > 500 then take 500 m1 else m1)"

text \<open>The account part of \<open>markCooldown\<close>, with the cooldown's end.\<close>

definition markCooldownAccount ::
  "time \<Rightarrow> int \<Rightarrow> duration \<Rightarrow> string \<Rightarrow> string \<Rightarrow> Account \<Rightarrow> Account \<times> time" where
  "markCooldownAccount now base duration0 reason errorMsg0 a =
     (let errorMsg = normalizeAccountErrorMessage errorMsg0 [];
          duration =
            (if reason = ''unauthorized'' then
               (if LastUnauthorizedAt a \<noteq> 0 \<and> time_Sub now (LastUnauthorizedAt a) < 24 * Hour
                then 24 * Hour else 6 * Hour)
             else duration0);
          a1 = (if reason = ''unauthorized'' then
                  a\<lparr>LastUnauthorizedAt := now, LastFailureAt := now, FailureStreak := FailureStreak a + 1,
                    SuccessStreak := 0, HealthTier := HealthTierBanned\<rparr>
                else if reason = ''rate_limited'' then
                  a\<lparr>LastRateLimitedAt := now, LastFailureAt := now, FailureStreak := FailureStreak a + 1,
                    SuccessStreak := 0,
                    HealthTier := (if healthTierLocked a = HealthTierHealthy then HealthTierWarm else HealthTierRisky)\<rparr>
                else a);
          a2 = (if errorMsg \<noteq> [] then a1\<lparr>ErrorMsg := errorMsg\<rparr> else a1);
          a3 = recomputeSchedulerLocked now base a2;
          until = now + duration
      in (SetCooldownUntil until reason a3, until))"

definition MarkErrorAccount :: "time \<Rightarrow> int \<Rightarrow> string \<Rightarrow> string \<Rightarrow> Account \<Rightarrow> Account" where
  "MarkErrorAccount now base fallback errorMsg a =
     recomputeSchedulerLocked now base
       (a\<lparr>Status := StatusError, ErrorMsg := normalizeAccountErrorMessage errorMsg fallback,
          CooldownUtil := 0, CooldownReason := [], LastFailureAt := now,
          FailureStreak := FailureStreak a + 1, SuccessStreak := 0,
          HealthTier := (if HealthTier a \<noteq> HealthTierBanned then HealthTierRisky else HealthTier a)\<rparr>)"

definition ClearCooldownAccount :: "time \<Rightarrow> int \<Rightarrow> Account \<Rightarrow> Account" where
  "ClearCooldownAccount now base a =
     (let wasCooling = (Status a = StatusCooldown); wasError = (Status a = StatusError);
          premium5hLimited = premium5hRateLimitedLocked now a
      in recomputeSchedulerLocked now base
           (a\<lparr>Disabled := False,
              Status := (if Status a = StatusCooldown \<or> Status a = StatusError then StatusReady else Status a),
              ErrorMsg := [], CooldownUtil := 0, CooldownReason := [],
              HealthTier :=
                (if wasCooling \<and> \<not> premium5hLimited then HealthTierWarm
                 else if wasError \<and> HealthTier a \<noteq> HealthTierBanned then HealthTierWarm
                 else HealthTier a)\<rparr>))"

definition RecordManualTestSuccessAccount :: "time \<Rightarrow> int \<Rightarrow> duration \<Rightarrow> Account \<Rightarrow> Account" where
  "RecordManualTestSuccessAccount now base latency a =
     (let wasCooling = (Status a = StatusCooldown); wasError = (Status a = StatusError);
          wasBanned = (HealthTier a = HealthTierBanned);
          premium5hLimited = premium5hRateLimitedLocked now a;
          a1 = recordResultLocked True (recordLatencyLocked latency (a\<lparr>Disabled := False\<rparr>))
      in recomputeSchedulerLocked now base
           (a1\<lparr>Status := (if wasCooling \<or> wasError then StatusReady else Status a1),
               ErrorMsg := [], CooldownUtil := 0, CooldownReason := [], LastSuccessAt := now,
               SuccessStreak := clampInt (SuccessStreak a1 + 1) 0 20, FailureStreak := 0,
               HealthTier :=
                 (if premium5hLimited then HealthTierRisky
                  else if wasBanned \<or> wasCooling \<or> wasError then HealthTierWarm
                  else if HealthTier a1 = TierUnset then HealthTierHealthy else HealthTier a1)\<rparr>))"

subsection \<open>Request reports\<close>

definition ReportRequestSuccessAccount :: "time \<Rightarrow> int \<Rightarrow> duration \<Rightarrow> Account \<Rightarrow> Account" where
  "ReportRequestSuccessAccount now base latency a =
     (let a1 = recordResultLocked True (recordLatencyLocked latency a)
      in recomputeSchedulerLocked now base
           (a1\<lparr>LastSuccessAt := now, SuccessStreak := clampInt (SuccessStreak a1 + 1) 0 20,
               FailureStreak := 0,
               HealthTier := (if HealthTier a1 = TierUnset then HealthTierHealthy else HealthTier a1)\<rparr>))"

definition demote :: "AccountHealthTier \<Rightarrow> AccountHealthTier" where
  "demote tier = (if tier = HealthTierHealthy then HealthTierWarm else HealthTierRisky)"

definition ReportRequestFailureAccount :: "time \<Rightarrow> int \<Rightarrow> string \<Rightarrow> duration \<Rightarrow> Account \<Rightarrow> Account" where
  "ReportRequestFailureAccount now base kind latency a =
     (let a0 = recordResultLocked False (recordLatencyLocked latency a);
          a1 = a0\<lparr>LastFailureAt := now, FailureStreak := clampInt (FailureStreak a0 + 1) 0 20, SuccessStreak := 0\<rparr>;
          a2 = (if kind = ''unauthorized'' then a1\<lparr>LastUnauthorizedAt := now, HealthTier := HealthTierBanned\<rparr>
                else if kind = ''timeout'' then a1\<lparr>LastTimeoutAt := now, HealthTier := demote (HealthTier a1)\<rparr>
                else if kind = ''server'' then a1\<lparr>LastServerErrorAt := now, HealthTier := demote (HealthTier a1)\<rparr>
                else if kind = ''transport'' then a1\<lparr>HealthTier := demote (HealthTier a1)\<rparr>
                else if kind = ''client'' then
                  (if HealthTier a1 = HealthTierHealthy then a1\<lparr>HealthTier := HealthTierWarm\<rparr> else a1)
                else a1)
      in recomputeSchedulerLocked now base a2)"

subsection \<open>Model cooldowns\<close>

definition normalizeModelCooldownKey :: "string \<Rightarrow> string" where
  "normalizeModelCooldownKey model = ToLower (TrimSpace model)"

definition emptyModelCooldown :: ModelCooldown where
  "emptyModelCooldown = \<lparr>mcModel = [], mcReason = [], mcResetAt = 0, mcUpdatedAt = 0, mcBackoffLevel = 0\<rparr>"

definition currentModelCooldown :: "string \<Rightarrow> Account \<Rightarrow> ModelCooldown" where
  "currentModelCooldown key a = (case ModelCooldowns a key of Some c \<Rightarrow> c | None \<Rightarrow> emptyModelCooldown)"

text \<open>The loop \<open>for i := 0; i < level-1; i++ { duration *= 2 }\<close>, in \<open>int64\<close> arithmetic.\<close>

fun doubleTimes :: "nat \<Rightarrow> duration \<Rightarrow> duration" where
  "doubleTimes 0 d = d"
| "doubleTimes (Suc n) d = doubleTimes n (wrap64 (d * 2))"

definition modelCooldownDuration :: "duration \<Rightarrow> int \<Rightarrow> bool \<Rightarrow> duration" where
  "modelCooldownDuration duration0 level active =
     (let d1 = (if duration0 \<le> 0 then 5 * Minute else duration0);
          d2 = (if d1 > 30 * Minute then 30 * Minute else d1)
      in if active then
           (let d3 = doubleTimes (nat (level - 1)) (wrap64 (d2 * 2))
            in if d3 > 30 * Minute then 30 * Minute else d3)
         else d2)"

definition MarkModelCooldownAccount ::
  "time \<Rightarrow> int \<Rightarrow> string \<Rightarrow> duration \<Rightarrow> string \<Rightarrow> Account \<Rightarrow> Account \<times> ModelCooldown" where
  "MarkModelCooldownAccount now base model duration0 reason a =
     (let key = normalizeModelCooldownKey model
      in if key = [] then (a, emptyModelCooldown)
         else let current = currentModelCooldown key a;
                  active = (now < mcResetAt current);
                  level = (if active then mcBackoffLevel current + 1 else mcBackoffLevel current);
                  cooldown = \<lparr>mcModel = key, mcReason = (if reason = [] then ''rate_limited'' else reason),
                    mcResetAt = now + modelCooldownDuration duration0 level active,
                    mcUpdatedAt = now, mcBackoffLevel = level\<rparr>;
                  a1 = a\<lparr>ModelCooldowns := (ModelCooldowns a)(key \<mapsto> cooldown), LastRateLimitedAt := now,
                         LastFailureAt := now, FailureStreak := clampInt (FailureStreak a + 1) 0 20,
                         SuccessStreak := 0,
                         HealthTier := (if healthTierLocked a = HealthTierHealthy then HealthTierWarm
                                        else if HealthTier a \<noteq> HealthTierBanned then HealthTierRisky
                                        else HealthTier a)\<rparr>
              in (recomputeSchedulerLocked now base a1, cooldown))"

definition SetModelCooldownUntil :: "time \<Rightarrow> string \<Rightarrow> string \<Rightarrow> time \<Rightarrow> Account \<Rightarrow> Account \<times> ModelCooldown" where
  "SetModelCooldownUntil now model reason0 resetAt a =
     (let key = normalizeModelCooldownKey model
      in if key = [] \<or> resetAt = 0 then (a, emptyModelCooldown)
         else let reason = (if TrimSpace reason0 = [] then ''rate_limited'' else TrimSpace reason0);
                  current = currentModelCooldown key a;
                  l0 = (if now < mcResetAt current then mcBackoffLevel current + 1 else mcBackoffLevel current);
                  cooldown = \<lparr>mcModel = key, mcReason = reason, mcResetAt = resetAt, mcUpdatedAt = now,
                    mcBackoffLevel = (if l0 < 0 then 0 else l0)\<rparr>
              in (a\<lparr>ModelCooldowns := (ModelCooldowns a)(key \<mapsto> cooldown)\<rparr>, cooldown))"

definition RestoreModelCooldown :: "time \<Rightarrow> string \<Rightarrow> string \<Rightarrow> time \<Rightarrow> time \<Rightarrow> Account \<Rightarrow> Account" where
  "RestoreModelCooldown now model reason0 resetAt updatedAt a =
     (let key = normalizeModelCooldownKey model
      in if key = [] \<or> resetAt = 0 \<or> \<not> now < resetAt then a
         else a\<lparr>ModelCooldowns := (ModelCooldowns a)(key \<mapsto>
           \<lparr>mcModel = key, mcReason = (if TrimSpace reason0 = [] then ''rate_limited'' else TrimSpace reason0),
            mcResetAt = resetAt, mcUpdatedAt = updatedAt, mcBackoffLevel = 0\<rparr>)\<rparr>)"

definition IsModelRateLimited :: "time \<Rightarrow> string \<Rightarrow> Account \<Rightarrow> bool" where
  "IsModelRateLimited now model a =
     (let key = normalizeModelCooldownKey model
      in if key = [] then False
         else case ModelCooldowns a key of Some cooldown \<Rightarrow> now < mcResetAt cooldown | None \<Rightarrow> False)"

definition ModelCooldownRemaining :: "time \<Rightarrow> string \<Rightarrow> Account \<Rightarrow> duration" where
  "ModelCooldownRemaining now model a =
     (let key = normalizeModelCooldownKey model
      in if key = [] then 0
         else case ModelCooldowns a key of
           Some cooldown \<Rightarrow> (let r = time_Sub (mcResetAt cooldown) now in if r \<le> 0 then 0 else r)
         | None \<Rightarrow> 0)"

definition ClearModelCooldownAccount :: "string \<Rightarrow> Account \<Rightarrow> Account \<times> bool" where
  "ClearModelCooldownAccount model a =
     (let key = normalizeModelCooldownKey model
      in if key = [] then (a, False)
         else case ModelCooldowns a key of
           None \<Rightarrow> (a, False)
         | Some _ \<Rightarrow> (a\<lparr>ModelCooldowns := (ModelCooldowns a)(key := None)\<rparr>, True))"

subsection \<open>Usage windows\<close>

definition SetUsageSnapshot :: "float64 \<Rightarrow> time \<Rightarrow> Account \<Rightarrow> Account" where
  "SetUsageSnapshot pct updatedAt a =
     a\<lparr>UsagePercent7d := pct, UsagePercent7dValid := True, UsageUpdatedAt := updatedAt\<rparr>"

definition SetUsageSnapshot5h :: "float64 \<Rightarrow> time \<Rightarrow> Account \<Rightarrow> Account" where
  "SetUsageSnapshot5h pct resetAt a =
     a\<lparr>UsagePercent5h := pct, UsagePercent5hValid := True, Reset5hAt := resetAt\<rparr>"

definition ClearUsageCache :: "Account \<Rightarrow> Account" where
  "ClearUsageCache a =
     a\<lparr>UsagePercent7d := 0, UsagePercent7dValid := False, Reset7dAt := 0, UsagePercent5h := 0,
       UsagePercent5hValid := False, Reset5hAt := 0, UsageUpdatedAt := 0\<rparr>"

definition MarkPremium5hRateLimitedAccount :: "time \<Rightarrow> int \<Rightarrow> time \<Rightarrow> Account \<Rightarrow> Account \<times> time" where
  "MarkPremium5hRateLimitedAccount now base resetAt0 a =
     (let resetAt = (if resetAt0 = 0 \<or> \<not> now < resetAt0 then now + 5 * Hour else resetAt0)
      in (recomputeSchedulerLocked now base
            (a\<lparr>UsagePercent5h := 100, UsagePercent5hValid := True, Reset5hAt := resetAt, UsageUpdatedAt := now,
               LastRateLimitedAt := now, Status := StatusCooldown, CooldownUtil := resetAt,
               CooldownReason := ''rate_limited'',
               HealthTier := (if HealthTier a \<noteq> HealthTierBanned then HealthTierRisky else HealthTier a)\<rparr>), resetAt))"

definition applyRefreshedPlanTypeLocked :: "time \<Rightarrow> string \<Rightarrow> Account \<Rightarrow> Account \<times> string \<times> bool" where
  "applyRefreshedPlanTypeLocked now planType a =
     (let plan = ToLower (TrimSpace planType)
      in if plan = [] then (a, [], False)
         else if plan \<noteq> ''free'' \<and> EqualFold (PlanType a) ''free'' \<and> UsagePercent7dValid a \<and> now < Reset7dAt a
         then (a, plan, False)
         else (a\<lparr>PlanType := plan\<rparr>, plan, True))"

definition ApplyUsageLimitMetadataAccount :: "time \<Rightarrow> int \<Rightarrow> string \<Rightarrow> time \<Rightarrow> Account \<Rightarrow> Account" where
  "ApplyUsageLimitMetadataAccount now base planType resetAt a =
     (let plan = ToLower (TrimSpace planType);
          a1 = (if plan \<noteq> [] then a\<lparr>PlanType := plan\<rparr> else a);
          a2 = (if plan = ''free'' \<and> resetAt \<noteq> 0 \<and> now < resetAt
                then a1\<lparr>UsagePercent7d := 100, UsagePercent7dValid := True, Reset7dAt := resetAt,
                        UsageUpdatedAt := now\<rparr> else a1)
      in recomputeSchedulerLocked now base a2)"

definition UpdateAccountPlanTypeAccount :: "time \<Rightarrow> int \<Rightarrow> string \<Rightarrow> Account \<Rightarrow> Account \<times> bool" where
  "UpdateAccountPlanTypeAccount now base planType a =
     (let plan = ToLower (TrimSpace planType)
      in if plan = [] then (a, False)
         else if PlanType a \<noteq> plan then (recomputeSchedulerLocked now base (a\<lparr>PlanType := plan\<rparr>), True)
         else (a, False))"

subsection \<open>Probes\<close>

definition NeedsUsageProbe :: "time \<Rightarrow> duration \<Rightarrow> Account \<Rightarrow> bool" where
  "NeedsUsageProbe now maxAge a =
     (if usageProbeInFlight a \<or> AccessToken a = [] \<or> Status a = StatusError then False
      else if Status a = StatusCooldown \<and> CooldownReason a = ''unauthorized'' \<and>
              (CooldownUtil a = 0 \<or> now < CooldownUtil a) then False
      else if premium5hRateLimitedLocked now a then False
      else if Status a = StatusCooldown \<and> CooldownReason a = ''rate_limited'' \<and>
              (CooldownUtil a = 0 \<or> now < CooldownUtil a) then False
      else if \<not> UsagePercent7dValid a \<or> UsageUpdatedAt a = 0 then True
      else time_Sub now (UsageUpdatedAt a) > maxAge)"

definition TryBeginUsageProbe :: "Account \<Rightarrow> Account \<times> bool" where
  "TryBeginUsageProbe a =
     (if usageProbeInFlight a then (a, False) else (a\<lparr>usageProbeInFlight := True\<rparr>, True))"

definition FinishUsageProbe :: "Account \<Rightarrow> Account" where
  "FinishUsageProbe a = a\<lparr>usageProbeInFlight := False\<rparr>"

definition NeedsRecoveryProbe :: "time \<Rightarrow> duration \<Rightarrow> Account \<Rightarrow> bool" where
  "NeedsRecoveryProbe now minInterval a =
     (if recoveryProbeInFlight a \<or> healthTierLocked a \<noteq> HealthTierBanned then False
      else if RefreshToken a = [] then False
      else if Status a = StatusCooldown \<and> now < CooldownUtil a then False
      else if LastRecoveryProbeAt a \<noteq> 0 \<and> time_Sub now (LastRecoveryProbeAt a) < minInterval then False
      else True)"

definition TryBeginRecoveryProbe :: "time \<Rightarrow> Account \<Rightarrow> Account \<times> bool" where
  "TryBeginRecoveryProbe now a =
     (if recoveryProbeInFlight a then (a, False)
      else (a\<lparr>recoveryProbeInFlight := True, LastRecoveryProbeAt := now\<rparr>, True))"

definition FinishRecoveryProbe :: "Account \<Rightarrow> Account" where
  "FinishRecoveryProbe a = a\<lparr>recoveryProbeInFlight := False\<rparr>"

definition NeedsRefresh :: "time \<Rightarrow> Account \<Rightarrow> bool" where
  "NeedsRefresh now a \<longleftrightarrow> time_Sub (ExpiresAt a) now < 5 * Minute"

subsection \<open>The account as a state machine\<close>

text \<open>One step of an account: any of its operations, with any arguments, at any time.\<close>

inductive account_step :: "Account \<Rightarrow> Account \<Rightarrow> bool" where
  recompute: "account_step a (recomputeSchedulerLocked now base a)"
| cooldown: "account_step a (SetCooldownUntil until reason a)"
| mark_cooldown: "account_step a (fst (markCooldownAccount now base d reason msg a))"
| mark_error: "account_step a (MarkErrorAccount now base fallback msg a)"
| clear_cooldown: "account_step a (ClearCooldownAccount now base a)"
| manual_success: "account_step a (RecordManualTestSuccessAccount now base latency a)"
| success: "account_step a (ReportRequestSuccessAccount now base latency a)"
| failure: "account_step a (ReportRequestFailureAccount now base kind latency a)"
| model_cooldown: "account_step a (fst (MarkModelCooldownAccount now base model d reason a))"
| clear_model: "account_step a (fst (ClearModelCooldownAccount model a))"
| premium5h: "account_step a (fst (MarkPremium5hRateLimitedAccount now base resetAt a))"
| usage: "account_step a (SetUsageSnapshot pct updatedAt a)"
| usage5h: "account_step a (SetUsageSnapshot5h pct resetAt a)"
| clear_usage: "account_step a (ClearUsageCache a)"
| usage_limit: "account_step a (ApplyUsageLimitMetadataAccount now base plan resetAt a)"
| plan: "account_step a (fst (UpdateAccountPlanTypeAccount now base plan a))"
| snapshot: "account_step a (fst (fastSchedulerSnapshot base now a))"
| acquire: "tryAcquireAccount now limit a = Some a' \<Longrightarrow> account_step a a'"

definition account_wf :: "Account \<Rightarrow> bool" where
  "account_wf a \<longleftrightarrow>
     length (RecentResults a) = 20 \<and> RecentResultsIdx a < 20 \<and> RecentResultsCnt a \<le> 20 \<and>
     (\<forall>x \<in> set (RecentResults a). x \<le> 1) \<and> 0 \<le> LatencyEWMA a \<and>
     0 \<le> SuccessStreak a \<and> SuccessStreak a \<le> 20 \<and> 0 \<le> FailureStreak a"

lemma account_wf_cong:
  assumes "RecentResults b = RecentResults a" "RecentResultsIdx b = RecentResultsIdx a"
    "RecentResultsCnt b = RecentResultsCnt a" "LatencyEWMA b = LatencyEWMA a"
    "0 \<le> SuccessStreak b" "SuccessStreak b \<le> 20" "0 \<le> FailureStreak b" "account_wf a"
  shows "account_wf b"
  using assms by (simp add: account_wf_def)

lemma account_wf_recompute [simp]: "account_wf (recomputeSchedulerLocked now base a) = account_wf a"
  by (simp add: account_wf_def sel_simps)

lemma account_wf_new: "account_wf (newAccount i)"
  by (simp add: account_wf_def newAccount_def)

lemma recordLatency_nonneg: "0 \<le> LatencyEWMA a \<Longrightarrow> 0 \<le> LatencyEWMA (recordLatencyLocked latency a)"
  by (simp add: recordLatencyLocked_def Let_def)

lemma recordLatency_sel [sel_simps]:
  "RecentResults (recordLatencyLocked latency a) = RecentResults a"
  "RecentResultsIdx (recordLatencyLocked latency a) = RecentResultsIdx a"
  "RecentResultsCnt (recordLatencyLocked latency a) = RecentResultsCnt a"
  "SuccessStreak (recordLatencyLocked latency a) = SuccessStreak a"
  "FailureStreak (recordLatencyLocked latency a) = FailureStreak a"
  by (simp_all add: recordLatencyLocked_def Let_def)

lemma account_wf_latency: "account_wf a \<Longrightarrow> account_wf (recordLatencyLocked latency a)"
  by (simp add: account_wf_def sel_simps recordLatency_nonneg)

lemma account_wf_result: "account_wf a \<Longrightarrow> account_wf (recordResultLocked r a)"
  by (auto simp: account_wf_def recordResultLocked_def dest: set_update_subset_insert [THEN subsetD])

lemma account_wf_record:
  "account_wf a \<Longrightarrow> account_wf (recordResultLocked r (recordLatencyLocked latency a))"
  by (rule account_wf_result [OF account_wf_latency])

lemma clampInt_20: "0 \<le> clampInt v 0 20" "clampInt v 0 20 \<le> 20"
  using clampInt_bounds [of 0 20 v] by simp_all

lemma account_wf_streaks:
  "account_wf a \<Longrightarrow> 0 \<le> SuccessStreak a \<and> SuccessStreak a \<le> 20 \<and> 0 \<le> FailureStreak a"
  by (simp add: account_wf_def)

lemma account_step_wf:
  assumes "account_step a a'" and "account_wf a"
  shows "account_wf a'"
  using assms
proof (induction rule: account_step.induct)
  case (manual_success a now base latency)
  have "account_wf (recordResultLocked True (recordLatencyLocked latency (a\<lparr>Disabled := False\<rparr>)))"
    by (rule account_wf_record, rule account_wf_cong [OF _ _ _ _ _ _ _ manual_success])
      (use account_wf_streaks [OF manual_success] in simp_all)
  then show ?case
    unfolding RecordManualTestSuccessAccount_def Let_def account_wf_recompute
    by (rule account_wf_cong [rotated 7]) (simp_all add: clampInt_20)
next
  case (success a now base latency)
  show ?case
    unfolding ReportRequestSuccessAccount_def Let_def account_wf_recompute
    by (rule account_wf_cong [OF _ _ _ _ _ _ _ account_wf_record [OF success]]) (simp_all add: clampInt_20)
next
  case (failure a now base kind latency)
  have *: "account_wf (recordResultLocked False (recordLatencyLocked latency a))" (is "account_wf ?r")
    by (rule account_wf_record [OF failure])
  have "account_wf (?r\<lparr>LastFailureAt := now, FailureStreak := clampInt (FailureStreak ?r + 1) 0 20, SuccessStreak := 0\<rparr>)"
    by (rule account_wf_cong [OF _ _ _ _ _ _ _ *]) (simp_all add: clampInt_20)
  then show ?case
    unfolding ReportRequestFailureAccount_def Let_def account_wf_recompute
    by (simp add: account_wf_def)
qed (simp_all add: SetCooldownUntil_def markCooldownAccount_def MarkErrorAccount_def ClearCooldownAccount_def
    MarkModelCooldownAccount_def ClearModelCooldownAccount_def MarkPremium5hRateLimitedAccount_def
    SetUsageSnapshot_def SetUsageSnapshot5h_def ClearUsageCache_def ApplyUsageLimitMetadataAccount_def
    UpdateAccountPlanTypeAccount_def snapshot_account Let_def account_wf_def sel_simps clampInt_20
    split: option.splits, auto simp: tryAcquireAccount_def split: if_splits)

interpretation account_machine: invariant_machine account_step account_wf
  by unfold_locales (rule account_step_wf)

lemma account_wf_rate: "account_wf a \<Longrightarrow> 0 \<le> recentSuccessRateLocked a \<and> recentSuccessRateLocked a \<le> 1"
proof -
  assume wf: "account_wf a"
  have "sum_list xs \<le> length xs" if "\<forall>x \<in> set xs. x \<le> 1" for xs :: "nat list"
    using that by (induction xs) auto
  then have "sum_list (take (RecentResultsCnt a) (RecentResults a)) \<le> length (take (RecentResultsCnt a) (RecentResults a))"
    using wf by (meson account_wf_def in_set_takeD)
  then have "sum_list (take (RecentResultsCnt a) (RecentResults a)) \<le> RecentResultsCnt a" by simp
  then show ?thesis by (simp add: recentSuccessRateLocked_def divide_le_eq_1)
qed

subsection \<open>A probe runs alone\<close>

locale single_flight =
  fixes try_begin :: "'t \<Rightarrow> 's \<Rightarrow> 's \<times> bool" and finish :: "'s \<Rightarrow> 's" and busy :: "'s \<Rightarrow> bool"
  assumes granted_iff: "snd (try_begin t s) \<longleftrightarrow> \<not> busy s"
    and begin_busy: "busy (fst (try_begin t s))"
    and finish_free: "\<not> busy (finish s)"
begin

lemma begins_stay_busy: "busy s \<Longrightarrow> busy (fold (\<lambda>t s. fst (try_begin t s)) ts s)"
  by (induction ts arbitrary: s) (auto simp: begin_busy)

lemma one_at_a_time:
  "\<not> snd (try_begin t' (fold (\<lambda>t s. fst (try_begin t s)) ts (fst (try_begin t s))))"
  by (simp add: granted_iff begins_stay_busy begin_busy)

lemma again_after_finish: "snd (try_begin t (finish s))"
  by (simp add: granted_iff finish_free)

end

interpretation usage_probe: single_flight "\<lambda>_::unit. TryBeginUsageProbe" FinishUsageProbe usageProbeInFlight
  by unfold_locales (simp_all add: TryBeginUsageProbe_def FinishUsageProbe_def)

interpretation recovery_probe: single_flight TryBeginRecoveryProbe FinishRecoveryProbe recoveryProbeInFlight
  by unfold_locales (simp_all add: TryBeginRecoveryProbe_def FinishRecoveryProbe_def)

subsection \<open>Properties\<close>

lemma SetCooldownUntil_cooling:
  "Status (SetCooldownUntil until reason a) = StatusCooldown \<and> CooldownUtil (SetCooldownUntil until reason a) = until"
  by (simp add: SetCooldownUntil_def Let_def)

lemma cooling_unavailable: "Status a = StatusCooldown \<Longrightarrow> t < CooldownUtil a \<Longrightarrow> \<not> IsAvailable t a"
  by (simp add: IsAvailable_def)

lemma banned_unavailable: "HealthTier a = HealthTierBanned \<Longrightarrow> \<not> IsAvailable t a"
  by (simp add: IsAvailable_def)

lemma SetCooldownUntil_queries [simp]:
  "premium5hRateLimitedLocked t (SetCooldownUntil until reason a) = premium5hRateLimitedLocked t a"
  "usageExhaustedLocked (SetCooldownUntil until reason a) = usageExhaustedLocked a"
  "quotaAutoPausedLocked t (SetCooldownUntil until reason a) = quotaAutoPausedLocked t a"
  "hasDispatchCredentialLocked (SetCooldownUntil until reason a) = hasDispatchCredentialLocked a"
  "Disabled (SetCooldownUntil until reason a) = Disabled a"
  "DispatchPaused (SetCooldownUntil until reason a) = DispatchPaused a"
  by (auto simp: SetCooldownUntil_def Let_def premium5hRateLimitedLocked_def usageExhaustedLocked_def
      quotaAutoPausedLocked_def hasDispatchCredentialLocked_def isOpenAIResponsesAPILocked_def)

lemma SetCooldownUntil_rate_limited_unbans:
  "HealthTier (SetCooldownUntil until ''rate_limited'' a) \<noteq> HealthTierBanned"
  by (simp add: SetCooldownUntil_def Let_def)

lemma markCooldown_queries:
  fixes a now base d reason msg
  defines "a' \<equiv> fst (markCooldownAccount now base d reason msg a)"
  shows "premium5hRateLimitedLocked t a' = premium5hRateLimitedLocked t a"
    "usageExhaustedLocked a' = usageExhaustedLocked a"
    "quotaAutoPausedLocked t a' = quotaAutoPausedLocked t a"
    "hasDispatchCredentialLocked a' = hasDispatchCredentialLocked a"
    "Disabled a' = Disabled a" "DispatchPaused a' = DispatchPaused a"
  unfolding a'_def markCooldownAccount_def Let_def
  by (simp_all add: sel_simps)
    (simp_all add: premium5hRateLimitedLocked_def usageExhaustedLocked_def quotaAutoPausedLocked_def
      hasDispatchCredentialLocked_def isOpenAIResponsesAPILocked_def)

text \<open>
  Supplement: what an account cooldown does to availability. Until the cooldown ends the account is not
  available, for whatever reason it was marked. An unauthorized cooldown makes the account
  unavailable for all time: the ban outlives the cooldown, which lasts six hours the first time
  and twenty-four when the last 401 is less than a day old.
\<close>

theorem cooldown_blocks_dispatch:
  assumes "markCooldownAccount now base d reason msg a = (a', until)"
  shows "(t < until \<longrightarrow> \<not> IsAvailable t a') \<and>
    (reason = ''unauthorized'' \<longrightarrow> \<not> IsAvailable t a' \<and> RuntimeStatus t a' = ''unauthorized'' \<and>
      until = now + (if LastUnauthorizedAt a \<noteq> 0 \<and> time_Sub now (LastUnauthorizedAt a) < 24 * Hour
                     then 24 * Hour else 6 * Hour))"
proof -
  have a': "\<exists>x. a' = SetCooldownUntil until reason x"
    using assms by (auto simp: markCooldownAccount_def Let_def)
  then have "t < until \<longrightarrow> \<not> IsAvailable t a'"
    using SetCooldownUntil_cooling cooling_unavailable by metis
  moreover have "HealthTier a' = HealthTierBanned" if "reason = ''unauthorized''"
    using a' that by (auto simp: SetCooldownUntil_def Let_def)
  moreover have "until = now + (if LastUnauthorizedAt a \<noteq> 0 \<and> time_Sub now (LastUnauthorizedAt a) < 24 * Hour
      then 24 * Hour else 6 * Hour)" if "reason = ''unauthorized''"
    using assms that by (simp add: markCooldownAccount_def Let_def)
  ultimately show ?thesis by (simp add: banned_unavailable RuntimeStatus_def)
qed

theorem cooldown_blocks_dispatch_witness:
  "\<not> IsAvailable 90000 (fst (markCooldownAccount 1000 2 5 ''unauthorized'' [] ((newAccount 1)\<lparr>AccessToken := ''t''\<rparr>)))"
  using cooldown_blocks_dispatch [of 1000 2 5 "''unauthorized''" "[]" "(newAccount 1)\<lparr>AccessToken := ''t''\<rparr>" _ _ 90000,
      OF prod.collapse [symmetric]] by simp

text \<open>
  C28: a rate-limit cooldown ends by itself, and it lifts a ban. Once the cooldown has passed, the
  account is available exactly when it is enabled, has a credential and no usage window blocks
  it; neither a ban nor an error status of before the call matters any more.
\<close>

theorem rate_limit_cooldown_recovers:
  assumes "markCooldownAccount now base d ''rate_limited'' msg a = (a', until)" and "until \<le> t"
  shows "IsAvailable t a' \<longleftrightarrow> \<not> Disabled a \<and> \<not> DispatchPaused a \<and> \<not> usageExhaustedLocked a \<and>
    \<not> premium5hRateLimitedLocked t a \<and> \<not> quotaAutoPausedLocked t a \<and> hasDispatchCredentialLocked a"
proof -
  have a': "\<exists>x. a' = SetCooldownUntil until ''rate_limited'' x"
    using assms by (auto simp: markCooldownAccount_def Let_def)
  then have "Status a' = StatusCooldown" "CooldownUtil a' = until" "HealthTier a' \<noteq> HealthTierBanned"
    using SetCooldownUntil_cooling SetCooldownUntil_rate_limited_unbans by metis+
  moreover note markCooldown_queries [where now = now and base = base and d = d and reason = "''rate_limited''"
      and msg = msg and a = a, unfolded assms(1) fst_conv]
  ultimately show ?thesis using assms(2) by (auto simp: IsAvailable_def)
qed

theorem rate_limit_cooldown_recovers_witness:
  "IsAvailable 2000 (fst (markCooldownAccount 1000 2 5 ''rate_limited'' []
     ((newAccount 1)\<lparr>AccessToken := ''t'', HealthTier := HealthTierBanned\<rparr>)))"
proof -
  let ?a = "(newAccount 1)\<lparr>AccessToken := ''t'', HealthTier := HealthTierBanned\<rparr>"
  have u: "snd (markCooldownAccount 1000 2 5 ''rate_limited'' [] ?a) \<le> 2000"
    by (simp add: markCooldownAccount_def Let_def)
  show ?thesis
    unfolding rate_limit_cooldown_recovers [OF prod.collapse [symmetric] u]
    by (simp add: newAccount_def usageExhaustedLocked_def premium5hRateLimitedLocked_def
        quotaAutoPausedLocked_def quotaAutoPausedByWindow_def hasDispatchCredentialLocked_def
        TrimSpace_def is_space_def)
qed

text \<open>
  Supplement: what every reachable account satisfies. Starting from a new account, after any sequence of
  reports, cooldowns, usage snapshots, recomputations and acquisitions, the ring buffer indices
  are in range, the streaks and the latency average are not negative, the success streak is at
  most twenty, and the success rate lies between 0 and 1.
\<close>

theorem reachable_account_wf:
  assumes "account_step\<^sup>*\<^sup>* (newAccount i) a"
  shows "account_wf a \<and> recentSuccessRateLocked a \<in> {0..1}"
  using account_machine.reachable_inv [OF assms account_wf_new] account_wf_rate by auto

theorem reachable_account_wf_witness:
  "account_wf (ReportRequestFailureAccount 10 2 ''server'' 5 (ReportRequestSuccessAccount 5 2 7 (newAccount 1))) \<and>
   recentSuccessRateLocked (ReportRequestFailureAccount 10 2 ''server'' 5
     (ReportRequestSuccessAccount 5 2 7 (newAccount 1))) \<in> {0..1}"
proof (rule reachable_account_wf)
  have "account_step (newAccount 1) (ReportRequestSuccessAccount 5 2 7 (newAccount 1))"
    by (rule account_step.success)
  moreover have "account_step (ReportRequestSuccessAccount 5 2 7 (newAccount 1))
      (ReportRequestFailureAccount 10 2 ''server'' 5 (ReportRequestSuccessAccount 5 2 7 (newAccount 1)))"
    by (rule account_step.failure)
  ultimately show "account_step\<^sup>*\<^sup>* (newAccount 1)
      (ReportRequestFailureAccount 10 2 ''server'' 5 (ReportRequestSuccessAccount 5 2 7 (newAccount 1)))"
    by (meson converse_rtranclp_into_rtranclp rtranclp.rtrancl_refl)
qed

text \<open>
  Supplement: a probe of an account runs alone. After a usage (or recovery) probe was begun, every further
  attempt is refused, however many came before it; once the probe finishes, the next one is
  granted.
\<close>

theorem probes_run_alone:
  "\<not> snd (TryBeginUsageProbe (((fst \<circ> TryBeginUsageProbe) ^^ n) (fst (TryBeginUsageProbe a)))) \<and>
   snd (TryBeginUsageProbe (FinishUsageProbe a)) \<and>
   \<not> snd (TryBeginRecoveryProbe t (fold (\<lambda>t a. fst (TryBeginRecoveryProbe t a)) ts (fst (TryBeginRecoveryProbe t0 a)))) \<and>
   snd (TryBeginRecoveryProbe t (FinishRecoveryProbe a))"
proof -
  have "((fst \<circ> TryBeginUsageProbe) ^^ n) b = fold (\<lambda>(_::unit) a. fst (TryBeginUsageProbe a)) (replicate n ()) b" for b
    by (simp add: comp_def)
  then show ?thesis
    using usage_probe.one_at_a_time [of "replicate n ()"] usage_probe.again_after_finish
      recovery_probe.one_at_a_time recovery_probe.again_after_finish by simp
qed

lemma doubleTimes_exact: "0 \<le> d \<Longrightarrow> d * 2 ^ n \<le> maxDuration \<Longrightarrow> doubleTimes n d = d * 2 ^ n"
proof (induction n arbitrary: d)
  case (Suc n)
  have "d * 2 \<le> d * 2 * 2 ^ n" using Suc.prems(1) by (simp add: mult_le_cancel_left1)
  then have "d * 2 \<le> maxDuration" using Suc.prems(2) by (simp add: mult.assoc)
  then have "wrap64 (d * 2) = d * 2"
    using Suc.prems(1) by (intro wrap64_id) (simp_all add: maxDuration_def minDuration_def)
  then show ?case using Suc.IH [of "d * 2"] Suc.prems by (simp add: mult.assoc)
qed simp

definition cooldownBase :: "duration \<Rightarrow> duration" where
  "cooldownBase d = min (30 * Minute) (if d \<le> 0 then 5 * Minute else d)"

lemma cooldownBase_range: "0 < cooldownBase d" "cooldownBase d \<le> 1800000000000"
  by (auto simp: cooldownBase_def go_defs)

lemma modelCooldownDuration_active:
  assumes "1 \<le> n"
  shows "modelCooldownDuration d (int n) True = min (30 * Minute) (doubleTimes n (cooldownBase d))"
proof -
  have "doubleTimes (nat (int n - 1)) (wrap64 (x * 2)) = doubleTimes n x" for x
    using assms by (cases n) simp_all
  then show ?thesis by (simp add: modelCooldownDuration_def cooldownBase_def Let_def min_def)
qed

text \<open>
  Supplement: the backoff of a model cooldown. While a cooldown of the model is active, marking it again
  at backoff level \<open>n\<close> gives \<open>min(30 min, d * 2^n)\<close>, where \<open>d\<close> is the requested duration brought
  into range (five minutes when it is not positive, at most thirty), for all levels up to 22.
\<close>

theorem model_cooldown_backoff:
  assumes "1 \<le> n" "n \<le> 22"
  shows "modelCooldownDuration d (int n) True
    = min (30 * Minute) (min (30 * Minute) (if d \<le> 0 then 5 * Minute else d) * 2 ^ n)"
proof -
  have "(2::int) ^ n \<le> 2 ^ 22" using assms(2) by (intro power_increasing) simp_all
  then have "cooldownBase d * 2 ^ n \<le> 1800000000000 * 2 ^ 22"
    using cooldownBase_range [of d] by (intro mult_mono) simp_all
  then have "cooldownBase d * 2 ^ n \<le> maxDuration" by (simp add: maxDuration_def)
  then have "doubleTimes n (cooldownBase d) = cooldownBase d * 2 ^ n"
    using cooldownBase_range [of d] by (intro doubleTimes_exact) simp_all
  then show ?thesis by (simp add: modelCooldownDuration_active [OF assms(1)] cooldownBase_def)
qed

theorem model_cooldown_backoff_witness: "modelCooldownDuration (Second * 60) 3 True = 480 * Second"
  using model_cooldown_backoff [of 3 "Second * 60"] by (simp add: go_defs)

definition hotModel :: Account where
  "hotModel = (newAccount 1)\<lparr>ModelCooldowns := [''m'' \<mapsto> \<lparr>mcModel = ''m'', mcReason = ''rate_limited'',
     mcResetAt = 2000, mcUpdatedAt = 900, mcBackoffLevel = 24\<rparr>]\<rparr>"

lemma normalize_m: "normalizeModelCooldownKey ''m'' = ''m''"
  by code_simp

text \<open>
  Supplement: the backoff overflows. The doubling runs in 64-bit arithmetic before the thirty-minute cap is
  applied, so at level 25 the default duration of five minutes becomes negative: the cooldown
  that is recorded lies in the past and the model of this account counts as free at once.
\<close>

theorem model_cooldown_overflow:
  "modelCooldownDuration (5 * Minute) 25 True < 0 \<and>
   IsModelRateLimited 1000 ''m'' hotModel \<and>
   \<not> IsModelRateLimited 1000 ''m'' (fst (MarkModelCooldownAccount 1000 2 ''m'' (5 * Minute) ''rate_limited'' hotModel))"
proof -
  have d: "modelCooldownDuration (5 * Minute) 25 True = - 8380414473709551616"
    by code_simp
  then show ?thesis
    by (simp add: IsModelRateLimited_def MarkModelCooldownAccount_def currentModelCooldown_def Let_def
        normalize_m hotModel_def sel_simps)
qed

end
