(* ===== verification/MemoryCache.thy ===== *)
theory MemoryCache
  imports GoStrings
begin

section \<open>The in-process token cache\<close>

text \<open>
  Models \<open>cache/memory.go\<close>, the in-process implementation of the interface
  \<open>TokenCache\<close> (\<open>cache/cache.go\<close>): access tokens, refresh locks, session
  affinity, response contexts and short-lived runtime records, each with an expiry.

  The locale \<open>ttl_store\<close> states what a client of the interface relies on: a value
  is returned until its time to live has passed, other keys are not disturbed, and the
  eviction that a read performs cannot be observed later. It is interpreted on each
  of the four keyed stores of the cache. Every operation takes the instant at which it
  reads the clock. The bodies of \<open>json.RawMessage\<close> values are JSON trees, and the empty
  message is \<open>None\<close>.
\<close>

datatype json =
    JInt int
  | JFloat float64
  | JStr string
  | JTime time
  | JObj "(string \<times> json) list"

type_synonym RawMessage = "json option"

record SessionAffinityBinding =
  bindAccountID :: int
  bindProxyURL :: string

text \<open>The four entry structs of the source differ in the type of the payload only.\<close>

record 'v memoryEntry =
  payload :: 'v
  expiresAt :: time

record MemoryTokenCache =
  tokens :: "int \<rightharpoonup> string memoryEntry"
  locks :: "int \<rightharpoonup> time"
  sessions :: "string \<rightharpoonup> SessionAffinityBinding memoryEntry"
  responses :: "string \<rightharpoonup> RawMessage list memoryEntry"
  runtime :: "string \<rightharpoonup> RawMessage memoryEntry"
  poolSize :: int

definition NewMemory :: "int \<Rightarrow> MemoryTokenCache" where
  "NewMemory n = \<lparr>tokens = Map.empty, locks = Map.empty, sessions = Map.empty,
     responses = Map.empty, runtime = Map.empty, poolSize = (if n \<le> 0 then 1 else n)\<rparr>"

definition SetPoolSize :: "int \<Rightarrow> MemoryTokenCache \<Rightarrow> MemoryTokenCache" where
  "SetPoolSize n tc = tc\<lparr>poolSize := (if n \<le> 0 then 1 else n)\<rparr>"

definition expired :: "time \<Rightarrow> 'v memoryEntry \<Rightarrow> bool" where
  "expired now e \<longleftrightarrow> expiresAt e \<noteq> 0 \<and> expiresAt e < now"

subsection \<open>Access tokens\<close>

text \<open>
  A read that finds an expired entry drops the read lock and takes the write lock:
  \<open>evictToken\<close> is that second critical section, which looks at the entry again.
\<close>

definition evictToken :: "time \<Rightarrow> int \<Rightarrow> string memoryEntry \<Rightarrow> MemoryTokenCache \<Rightarrow> MemoryTokenCache" where
  "evictToken now accountID entry tc =
     (case tokens tc accountID of
        Some current \<Rightarrow>
          if current = entry \<and> expired now current
          then tc\<lparr>tokens := (tokens tc)(accountID := None)\<rparr> else tc
      | None \<Rightarrow> tc)"

definition GetAccessToken :: "time \<Rightarrow> int \<Rightarrow> MemoryTokenCache \<Rightarrow> MemoryTokenCache \<times> string" where
  "GetAccessToken now accountID tc =
     (case tokens tc accountID of
        None \<Rightarrow> (tc, [])
      | Some entry \<Rightarrow>
          if expired now entry then (evictToken now accountID entry tc, [])
          else (tc, payload entry))"

definition SetAccessToken :: "time \<Rightarrow> int \<Rightarrow> string \<Rightarrow> duration \<Rightarrow> MemoryTokenCache \<Rightarrow> MemoryTokenCache" where
  "SetAccessToken now accountID token ttl tc =
     (let exp = (if ttl > 0 then now + ttl else if ttl < 0 then now + ttl else 0)
      in tc\<lparr>tokens := (tokens tc)(accountID \<mapsto> \<lparr>payload = token, expiresAt = exp\<rparr>)\<rparr>)"

definition DeleteAccessToken :: "int \<Rightarrow> MemoryTokenCache \<Rightarrow> MemoryTokenCache" where
  "DeleteAccessToken accountID tc = tc\<lparr>tokens := (tokens tc)(accountID := None)\<rparr>"

subsection \<open>Refresh locks\<close>

definition AcquireRefreshLock :: "time \<Rightarrow> int \<Rightarrow> duration \<Rightarrow> MemoryTokenCache \<Rightarrow> MemoryTokenCache \<times> bool" where
  "AcquireRefreshLock now accountID ttl tc =
     (let ttl = (if ttl \<le> 0 then 30 * Second else ttl)
      in case locks tc accountID of
           Some until \<Rightarrow>
             if now < until then (tc, False)
             else (tc\<lparr>locks := (locks tc)(accountID \<mapsto> now + ttl)\<rparr>, True)
         | None \<Rightarrow> (tc\<lparr>locks := (locks tc)(accountID \<mapsto> now + ttl)\<rparr>, True))"

definition ReleaseRefreshLock :: "int \<Rightarrow> MemoryTokenCache \<Rightarrow> MemoryTokenCache" where
  "ReleaseRefreshLock accountID tc = tc\<lparr>locks := (locks tc)(accountID := None)\<rparr>"

text \<open>
  \<open>waitPoll\<close> is one iteration of the polling loop of \<open>WaitForRefreshComplete\<close>; the loop
  runs over the instants at which the poll timer fires, with \<open>env\<close> standing for what the
  other goroutines do to the cache between two polls. \<open>None\<close> is the timeout error.
\<close>

definition waitPoll :: "time \<Rightarrow> int \<Rightarrow> MemoryTokenCache \<Rightarrow> MemoryTokenCache \<times> string option" where
  "waitPoll now accountID tc =
     (let locked0 = locks tc accountID;
          stale = (case locked0 of Some until \<Rightarrow> until < now | None \<Rightarrow> False);
          tc1 = (if stale then tc\<lparr>locks := (locks tc)(accountID := None)\<rparr> else tc);
          locked = (locked0 \<noteq> None \<and> \<not> stale);
          old = (case tokens tc1 accountID of Some e \<Rightarrow> expired now e | None \<Rightarrow> False);
          tc2 = (if old then tc1\<lparr>tokens := (tokens tc1)(accountID := None)\<rparr> else tc1)
      in case tokens tc2 accountID of
           Some e \<Rightarrow> (tc2, if \<not> locked \<and> payload e \<noteq> [] then Some (payload e) else None)
         | None \<Rightarrow> (tc2, None))"

fun WaitForRefreshComplete ::
  "(time \<Rightarrow> MemoryTokenCache \<Rightarrow> MemoryTokenCache) \<Rightarrow> time \<Rightarrow> int \<Rightarrow> time list \<Rightarrow> MemoryTokenCache
    \<Rightarrow> MemoryTokenCache \<times> string option" where
  "WaitForRefreshComplete env deadline accountID [] tc = (tc, None)"
| "WaitForRefreshComplete env deadline accountID (now # polls) tc =
     (if now < deadline then
        (case waitPoll now accountID tc of
           (tc', Some token) \<Rightarrow> (tc', Some token)
         | (tc', None) \<Rightarrow> WaitForRefreshComplete env deadline accountID polls (env now tc'))
      else (tc, None))"

subsection \<open>Session affinity\<close>

text \<open>
  The second critical section of a read of the other stores: the entry is dropped when
  its expiry is still the one that was read.
\<close>

definition evictSame :: "'k \<Rightarrow> 'v memoryEntry \<Rightarrow> ('k \<rightharpoonup> 'v memoryEntry) \<Rightarrow> ('k \<rightharpoonup> 'v memoryEntry)" where
  "evictSame k entry m =
     (case m k of
        Some current \<Rightarrow> if expiresAt current = expiresAt entry then m(k := None) else m
      | None \<Rightarrow> m)"

definition SetSessionAffinity ::
  "time \<Rightarrow> string \<Rightarrow> SessionAffinityBinding \<Rightarrow> duration \<Rightarrow> MemoryTokenCache \<Rightarrow> MemoryTokenCache" where
  "SetSessionAffinity now key0 binding ttl0 tc =
     (let key = TrimSpace key0; ttl = (if ttl0 \<le> 0 then Hour else ttl0)
      in if key = [] \<or> bindAccountID binding = 0 then tc
         else tc\<lparr>sessions := (sessions tc)(key \<mapsto> \<lparr>payload = binding, expiresAt = now + ttl\<rparr>)\<rparr>)"

definition GetSessionAffinity ::
  "time \<Rightarrow> string \<Rightarrow> MemoryTokenCache \<Rightarrow> MemoryTokenCache \<times> SessionAffinityBinding option" where
  "GetSessionAffinity now key0 tc =
     (let key = TrimSpace key0
      in if key = [] then (tc, None)
         else case sessions tc key of
           None \<Rightarrow> (tc, None)
         | Some entry \<Rightarrow>
             if expired now entry then (tc\<lparr>sessions := evictSame key entry (sessions tc)\<rparr>, None)
             else (tc, Some (payload entry)))"

definition DeleteSessionAffinity :: "string \<Rightarrow> int \<Rightarrow> MemoryTokenCache \<Rightarrow> MemoryTokenCache" where
  "DeleteSessionAffinity key0 accountID tc =
     (let key = TrimSpace key0
      in if key = [] \<or> accountID = 0 then tc
         else case sessions tc key of
           Some entry \<Rightarrow>
             if bindAccountID (payload entry) = accountID
             then tc\<lparr>sessions := (sessions tc)(key := None)\<rparr> else tc
         | None \<Rightarrow> tc)"

subsection \<open>Response contexts\<close>

definition SetResponseContext ::
  "time \<Rightarrow> string \<Rightarrow> RawMessage list \<Rightarrow> duration \<Rightarrow> MemoryTokenCache \<Rightarrow> MemoryTokenCache" where
  "SetResponseContext now responseID0 items ttl0 tc =
     (let responseID = TrimSpace responseID0; ttl = (if ttl0 \<le> 0 then 10 * Minute else ttl0)
      in if responseID = [] then tc
         else tc\<lparr>responses := (responses tc)(responseID \<mapsto> \<lparr>payload = items, expiresAt = now + ttl\<rparr>)\<rparr>)"

definition GetResponseContext ::
  "time \<Rightarrow> string \<Rightarrow> MemoryTokenCache \<Rightarrow> MemoryTokenCache \<times> RawMessage list option" where
  "GetResponseContext now responseID0 tc =
     (let responseID = TrimSpace responseID0
      in if responseID = [] then (tc, None)
         else case responses tc responseID of
           None \<Rightarrow> (tc, None)
         | Some entry \<Rightarrow>
             if expired now entry then (tc\<lparr>responses := evictSame responseID entry (responses tc)\<rparr>, None)
             else (tc, Some (payload entry)))"

subsection \<open>Runtime records\<close>

definition runtimeMapKey :: "string \<Rightarrow> string \<Rightarrow> string" where
  "runtimeMapKey namespace0 key0 =
     (let namespace = TrimSpace namespace0; key = TrimSpace key0
      in if namespace = [] \<or> key = [] then [] else namespace @ [CHR 0x00] @ key)"

definition SetRuntime ::
  "time \<Rightarrow> string \<Rightarrow> string \<Rightarrow> RawMessage \<Rightarrow> duration \<Rightarrow> MemoryTokenCache \<Rightarrow> MemoryTokenCache" where
  "SetRuntime now namespace key value ttl0 tc =
     (let mapKey = runtimeMapKey namespace key; ttl = (if ttl0 \<le> 0 then Minute else ttl0)
      in if mapKey = [] \<or> value = None then tc
         else tc\<lparr>runtime := (runtime tc)(mapKey \<mapsto> \<lparr>payload = value, expiresAt = now + ttl\<rparr>)\<rparr>)"

definition GetRuntime ::
  "time \<Rightarrow> string \<Rightarrow> string \<Rightarrow> MemoryTokenCache \<Rightarrow> MemoryTokenCache \<times> RawMessage option" where
  "GetRuntime now namespace key tc =
     (let mapKey = runtimeMapKey namespace key
      in if mapKey = [] then (tc, None)
         else case runtime tc mapKey of
           None \<Rightarrow> (tc, None)
         | Some entry \<Rightarrow>
             if expired now entry then (tc\<lparr>runtime := evictSame mapKey entry (runtime tc)\<rparr>, None)
             else (tc, Some (payload entry)))"

definition DeleteRuntime :: "string \<Rightarrow> string \<Rightarrow> MemoryTokenCache \<Rightarrow> MemoryTokenCache" where
  "DeleteRuntime namespace key tc =
     (let mapKey = runtimeMapKey namespace key
      in if mapKey = [] then tc else tc\<lparr>runtime := (runtime tc)(mapKey := None)\<rparr>)"

subsection \<open>The background cleanup\<close>

definition sweep :: "time \<Rightarrow> ('k \<rightharpoonup> 'v memoryEntry) \<Rightarrow> ('k \<rightharpoonup> 'v memoryEntry)" where
  "sweep now m = (\<lambda>k. case m k of Some e \<Rightarrow> if expired now e then None else Some e | None \<Rightarrow> None)"

text \<open>One tick of \<open>cleanupLoop\<close>.\<close>

definition cleanupTick :: "time \<Rightarrow> MemoryTokenCache \<Rightarrow> MemoryTokenCache" where
  "cleanupTick now tc =
     tc\<lparr>tokens := sweep now (tokens tc),
        locks := (\<lambda>k. case locks tc k of Some until \<Rightarrow> if until < now then None else Some until | None \<Rightarrow> None),
        sessions := sweep now (sessions tc),
        responses := sweep now (responses tc),
        runtime := sweep now (runtime tc)\<rparr>"

text \<open>A schedule of lock operations, as the refreshing goroutines issue them.\<close>

datatype lock_op = LockAcquire time int duration | LockRelease int

fun runLocks :: "lock_op list \<Rightarrow> MemoryTokenCache \<Rightarrow> MemoryTokenCache" where
  "runLocks [] tc = tc"
| "runLocks (LockAcquire now accountID ttl # ops) tc = runLocks ops (fst (AcquireRefreshLock now accountID ttl tc))"
| "runLocks (LockRelease accountID # ops) tc = runLocks ops (ReleaseRefreshLock accountID tc)"

subsection \<open>The contract of a store with expiry\<close>

locale ttl_store =
  fixes get :: "time \<Rightarrow> 'k \<Rightarrow> 's \<Rightarrow> 's \<times> 'v option"
    and set_ttl :: "time \<Rightarrow> 'k \<Rightarrow> 'v \<Rightarrow> duration \<Rightarrow> 's \<Rightarrow> 's"
    and norm :: "'k \<Rightarrow> 'i"
    and valid :: "'k \<Rightarrow> 'v \<Rightarrow> bool"
  assumes get_set: "0 < now \<Longrightarrow> 0 < ttl \<Longrightarrow> valid k v \<Longrightarrow>
      snd (get t k' (set_ttl now k v ttl s)) =
        (if norm k' = norm k then (if t \<le> now + ttl then Some v else None) else snd (get t k' s))"
    and get_get: "t \<le> t' \<Longrightarrow> snd (get t' k' (fst (get t k s))) = snd (get t' k' s)"
    and get_expires: "snd (get t k s) = None \<Longrightarrow> t \<le> t' \<Longrightarrow> snd (get t' k s) = None"
begin

text \<open>Reads, in any number, never change what a later read sees.\<close>

lemma gets_unobservable:
  "\<forall>(t, k) \<in> set qs. t \<le> t' \<Longrightarrow>
   snd (get t' k' (fold (\<lambda>(t, k) s. fst (get t k s)) qs s)) = snd (get t' k' s)"
proof (induction qs arbitrary: s)
  case (Cons q qs)
  then show ?case by (cases q) (auto simp: get_get)
qed simp

text \<open>A written value is served to every read within its time to live, and to none after it.\<close>

lemma set_then_gets:
  assumes "0 < now" "0 < ttl" "valid k v" "\<forall>(t, k) \<in> set qs. t \<le> t'"
  shows "snd (get t' k (fold (\<lambda>(t, k) s. fst (get t k s)) qs (set_ttl now k v ttl s)))
    = (if t' \<le> now + ttl then Some v else None)"
  using assms by (simp add: gets_unobservable get_set)

end

subsubsection \<open>Interpretations on the four stores\<close>

lemma expired_entry [simp]: "0 < now \<Longrightarrow> 0 < ttl \<Longrightarrow>
    expired t \<lparr>payload = v, expiresAt = now + ttl\<rparr> \<longleftrightarrow> \<not> t \<le> now + ttl"
  by (auto simp: expired_def)

lemma expired_mono: "expired t e \<Longrightarrow> t \<le> t' \<Longrightarrow> expired t' e"
  by (auto simp: expired_def)

lemma evictSame_read [simp]: "m k = Some e \<Longrightarrow> evictSame k e m = m(k := None)"
  by (simp add: evictSame_def)

lemma TrimSpace_not_Nil_cong: "TrimSpace k' = TrimSpace k \<Longrightarrow> (TrimSpace k' = []) = (TrimSpace k = [])"
  by simp

lemmas session_defs = SetSessionAffinity_def GetSessionAffinity_def DeleteSessionAffinity_def
lemmas response_defs = SetResponseContext_def GetResponseContext_def
lemmas runtime_defs = SetRuntime_def GetRuntime_def DeleteRuntime_def
lemmas token_defs = SetAccessToken_def GetAccessToken_def DeleteAccessToken_def evictToken_def

definition readToken :: "time \<Rightarrow> int \<Rightarrow> MemoryTokenCache \<Rightarrow> MemoryTokenCache \<times> string option" where
  "readToken now accountID tc =
     (let (tc', s) = GetAccessToken now accountID tc in (tc', if s = [] then None else Some s))"

interpretation token_store: ttl_store readToken SetAccessToken id "\<lambda>k v. v \<noteq> []"
proof (unfold_locales, goal_cases)
  case (1 now ttl k v t k' s)
  then show ?case by (auto simp: readToken_def token_defs Let_def split: option.splits)
next
  case (2 t t' k' k s)
  then show ?case
    by (auto simp: readToken_def token_defs Let_def dest: expired_mono split: option.splits)
next
  case (3 t k s t')
  then show ?case
    by (auto simp: readToken_def token_defs Let_def dest: expired_mono split: option.splits if_splits)
qed

interpretation session_store: ttl_store GetSessionAffinity SetSessionAffinity TrimSpace
  "\<lambda>k b. TrimSpace k \<noteq> [] \<and> bindAccountID b \<noteq> 0"
proof (unfold_locales, goal_cases)
  case (1 now ttl k v t k' s)
  then show ?case by (auto simp: session_defs Let_def split: option.splits)
next
  case (2 t t' k' k s)
  then show ?case
    by (auto simp: session_defs Let_def dest: expired_mono split: option.splits)
next
  case (3 t k s t')
  then show ?case
    by (auto simp: session_defs Let_def dest: expired_mono split: option.splits if_splits)
qed

interpretation response_store: ttl_store GetResponseContext SetResponseContext TrimSpace
  "\<lambda>k _. TrimSpace k \<noteq> []"
proof (unfold_locales, goal_cases)
  case (1 now ttl k v t k' s)
  then show ?case by (auto simp: response_defs Let_def split: option.splits)
next
  case (2 t t' k' k s)
  then show ?case
    by (auto simp: response_defs Let_def dest: expired_mono split: option.splits)
next
  case (3 t k s t')
  then show ?case
    by (auto simp: response_defs Let_def dest: expired_mono split: option.splits if_splits)
qed

interpretation runtime_store: ttl_store
  "\<lambda>now (ns, key). GetRuntime now ns key" "\<lambda>now (ns, key). SetRuntime now ns key"
  "\<lambda>(ns, key). runtimeMapKey ns key" "\<lambda>(ns, key) v. runtimeMapKey ns key \<noteq> [] \<and> v \<noteq> None"
proof (unfold_locales, goal_cases)
  case (1 now ttl k v t k' s)
  then show ?case by (cases k; cases k') (auto simp: runtime_defs Let_def split: option.splits)
next
  case (2 t t' k' k s)
  then show ?case
    by (cases k; cases k') (auto simp: runtime_defs Let_def dest: expired_mono split: option.splits)
next
  case (3 t k s t')
  then show ?case
    by (cases k) (auto simp: runtime_defs Let_def dest: expired_mono split: option.splits if_splits)
qed

subsection \<open>Properties\<close>

lemma acquire_other_lock:
  "locks tc accountID = Some until \<Longrightarrow> k = accountID \<longrightarrow> now < until \<Longrightarrow>
   locks (fst (AcquireRefreshLock now k ttl tc)) accountID = Some until"
  by (auto simp: AcquireRefreshLock_def Let_def split: option.splits)

lemma release_other_lock:
  "k \<noteq> accountID \<Longrightarrow> locks (ReleaseRefreshLock k tc) accountID = locks tc accountID"
  by (simp add: ReleaseRefreshLock_def)

lemma lock_kept:
  assumes "locks tc accountID = Some until"
    and "\<forall>op \<in> set ops. op \<noteq> LockRelease accountID \<and> (\<forall>t d. op = LockAcquire t accountID d \<longrightarrow> t < until)"
  shows "locks (runLocks ops tc) accountID = Some until"
  using assms
  by (induction ops tc rule: runLocks.induct) (auto simp: acquire_other_lock release_other_lock)

text \<open>
  C29: the refresh lock is exclusive. When a goroutine has acquired the lock of an account for a
  positive time to live, every attempt on that account before the time to live has passed is
  refused, whatever other acquisitions and releases of other accounts run in between, unless the
  lock of this account itself is released.
\<close>

theorem refresh_lock_exclusive:
  assumes "AcquireRefreshLock t1 accountID ttl tc = (tc1, True)" and "0 < ttl"
    and "\<forall>op \<in> set ops. op \<noteq> LockRelease accountID \<and> (\<forall>t d. op = LockAcquire t accountID d \<longrightarrow> t < t1 + ttl)"
    and "t2 < t1 + ttl"
  shows "AcquireRefreshLock t2 accountID ttl2 (runLocks ops tc1) = (runLocks ops tc1, False)"
proof -
  have "locks tc1 accountID = Some (t1 + ttl)"
    using assms(1,2) by (auto simp: AcquireRefreshLock_def Let_def split: option.splits if_splits)
  then have "locks (runLocks ops tc1) accountID = Some (t1 + ttl)"
    by (rule lock_kept) (rule assms(3))
  then show ?thesis using assms(4) by (simp add: AcquireRefreshLock_def Let_def)
qed

theorem refresh_lock_exclusive_witness:
  "AcquireRefreshLock 150 7 30
     (runLocks [LockAcquire 120 7 50, LockRelease 8] (fst (AcquireRefreshLock 100 7 60 (NewMemory 1))))
   = (runLocks [LockAcquire 120 7 50, LockRelease 8] (fst (AcquireRefreshLock 100 7 60 (NewMemory 1))), False)"
proof (rule refresh_lock_exclusive)
  show "AcquireRefreshLock 100 7 60 (NewMemory 1) = (fst (AcquireRefreshLock 100 7 60 (NewMemory 1)), True)"
    by (simp add: AcquireRefreshLock_def NewMemory_def)
qed auto

text \<open>
  Supplement: a session binding is served for its time to live. After a binding was stored under a key,
  every read of that key (keys are compared without surrounding blanks) returns exactly that
  binding up to the end of its time to live and nothing afterwards, whatever reads of any keys,
  with their evictions, happen in between.
\<close>

theorem session_affinity_served:
  assumes "0 < now" "0 < ttl" "TrimSpace key \<noteq> []" "bindAccountID binding \<noteq> 0"
    and "\<forall>(t, k) \<in> set reads. t \<le> t'"
  shows "snd (GetSessionAffinity t' key
      (fold (\<lambda>(t, k) tc. fst (GetSessionAffinity t k tc)) reads (SetSessionAffinity now key binding ttl tc)))
    = (if t' \<le> now + ttl then Some binding else None)"
  using session_store.set_then_gets [of now ttl key binding reads t' tc] assms by simp

theorem session_affinity_served_witness:
  "snd (GetSessionAffinity 40 ''s1''
      (fold (\<lambda>(t, k) tc. fst (GetSessionAffinity t k tc)) [(20, ''s2''), (40, ''s1'')]
        (SetSessionAffinity 10 ''s1'' \<lparr>bindAccountID = 3, bindProxyURL = []\<rparr> 30 (NewMemory 1))))
    = Some \<lparr>bindAccountID = 3, bindProxyURL = []\<rparr>"
proof -
  have "TrimSpace ''s1'' \<noteq> []" by code_simp
  then show ?thesis
    using session_affinity_served [of 10 30 "''s1''" "\<lparr>bindAccountID = 3, bindProxyURL = []\<rparr>"
        "[(20, ''s2''), (40, ''s1'')]" 40 "NewMemory 1"] by simp
qed

lemma sweep_lookup:
  "sweep now m k = (case m k of Some e \<Rightarrow> if expired now e then None else Some e | None \<Rightarrow> None)"
  by (simp add: sweep_def)

lemma cleanup_fields [simp]:
  "tokens (cleanupTick now tc) = sweep now (tokens tc)"
  "sessions (cleanupTick now tc) = sweep now (sessions tc)"
  "responses (cleanupTick now tc) = sweep now (responses tc)"
  "runtime (cleanupTick now tc) = sweep now (runtime tc)"
  "locks (cleanupTick now tc) k =
     (case locks tc k of Some until \<Rightarrow> if until < now then None else Some until | None \<Rightarrow> None)"
  by (simp_all add: cleanupTick_def)

text \<open>
  Supplement: the background cleanup is invisible. A tick of the cleanup loop changes no answer of the
  cache from then on: neither what a read of a token, a session binding, a response context or a
  runtime record returns, nor whether a refresh lock is granted.
\<close>

theorem cleanup_unobservable:
  assumes "now \<le> t"
  shows "snd (GetAccessToken t accountID (cleanupTick now tc)) = snd (GetAccessToken t accountID tc) \<and>
    snd (GetSessionAffinity t key (cleanupTick now tc)) = snd (GetSessionAffinity t key tc) \<and>
    snd (GetResponseContext t key (cleanupTick now tc)) = snd (GetResponseContext t key tc) \<and>
    snd (GetRuntime t ns key (cleanupTick now tc)) = snd (GetRuntime t ns key tc) \<and>
    snd (AcquireRefreshLock t accountID ttl (cleanupTick now tc)) = snd (AcquireRefreshLock t accountID ttl tc)"
proof (intro conjI)
  have e: "expired now e \<Longrightarrow> expired t e" for e :: "'v memoryEntry"
    using assms by (rule expired_mono [rotated])
  show "snd (GetAccessToken t accountID (cleanupTick now tc)) = snd (GetAccessToken t accountID tc)"
    using expired_mono [OF _ assms] by (auto simp: token_defs Let_def sweep_lookup split: option.splits)
  show "snd (GetSessionAffinity t key (cleanupTick now tc)) = snd (GetSessionAffinity t key tc)"
    using expired_mono [OF _ assms] by (auto simp: session_defs Let_def sweep_lookup split: option.splits)
  show "snd (GetResponseContext t key (cleanupTick now tc)) = snd (GetResponseContext t key tc)"
    using expired_mono [OF _ assms] by (auto simp: response_defs Let_def sweep_lookup split: option.splits)
  show "snd (GetRuntime t ns key (cleanupTick now tc)) = snd (GetRuntime t ns key tc)"
    using expired_mono [OF _ assms] by (auto simp: runtime_defs Let_def sweep_lookup split: option.splits)
  show "snd (AcquireRefreshLock t accountID ttl (cleanupTick now tc)) = snd (AcquireRefreshLock t accountID ttl tc)"
    using assms by (auto simp: AcquireRefreshLock_def Let_def split: option.splits)
qed

theorem cleanup_unobservable_witness:
  "snd (GetAccessToken 50 1 (cleanupTick 40 (SetAccessToken 10 1 ''tok'' 30 (NewMemory 1))))
   = snd (GetAccessToken 50 1 (SetAccessToken 10 1 ''tok'' 30 (NewMemory 1)))"
  using cleanup_unobservable [of 40 50 1 "SetAccessToken 10 1 ''tok'' 30 (NewMemory 1)"] by simp

end
