(* ===== verification/Store.thy ===== *)
theory Store
  imports FastScheduler AccountOps MemoryCache
begin

section \<open>The account store\<close>

text \<open>
  Models the type \<open>Store\<close> of \<open>auth/store.go\<close> as far as it selects accounts: the list of accounts and
  its index, the runtime cooldown records in the token cache, the selection loops (through the fast
  scheduler, over all accounts, and in lazy mode), session affinity, waiting, sticky proxies, group
  permissions and quota thresholds, and the reports that change one account and keep the scheduler
  and the cache in step.

  Accounts are objects on a heap (\<open>account_heap\<close> of theory \<open>FastScheduler\<close>), since the list, the
  index and the scheduler share them. An operation reads the clock once, as \<open>now\<close>. The random
  tie-break \<open>fastRandN(2)\<close> is an argument, a function of the attempt and the account. The lifetime of
  a binding (\<open>sessionAffinityTTL\<close>, from the environment) is an argument \<open>ttl\<close>. The copies that the
  store writes into the database are not modelled.
\<close>

record sessionAffinity =
  saAccountID :: int
  saProxyURL :: string
  saBoundAt :: time
  saRequestCount :: int
  saExpiresAt :: time

record Store =
  heap :: account_heap
  accounts :: "ptr list"
  accountsByID :: "(int \<rightharpoonup> ptr) option"
  globalProxy :: string
  maxConcurrency :: int
  tokenCache :: "MemoryTokenCache option"
  apiKeyAllowedGroups :: "int \<rightharpoonup> int list"
  apiKeyAllowedGroupSets :: "int \<rightharpoonup> int set"
  lazyMode :: bool
  lazyRefreshInFlight :: "int set"
  proxyPool :: "string list"
  proxyPoolEnabled :: bool
  proxyRoundRobin :: "64 word"
  fastScheduler :: "FastScheduler option"
  fastSchedulerEnabled :: bool
  schedulerMode :: string
  affinityMode :: string
  sessionBindings :: "string \<rightharpoonup> sessionAffinity"
  globalAutoPause5hThreshold :: float64
  globalAutoPause7dThreshold :: float64
  groupAutoPauseThresholds :: "int \<rightharpoonup> float64 \<times> float64"

type_synonym AccountFilter = "(Account \<Rightarrow> bool) option"

definition passes :: "AccountFilter \<Rightarrow> Account \<Rightarrow> bool" where
  "passes filt a = (case filt of None \<Rightarrow> True | Some f \<Rightarrow> f a)"

definition updAccount :: "ptr \<Rightarrow> (Account \<Rightarrow> Account) \<Rightarrow> Store \<Rightarrow> Store" where
  "updAccount p f s = s\<lparr>heap := (heap s)(p := map_option f (heap s p))\<rparr>"

subsection \<open>Groups of API keys\<close>

definition normalizeAllowedGroupIDs :: "int list \<Rightarrow> int list" where
  "normalizeAllowedGroupIDs groupIDs = stable_sort (<) (dedupPositive [] groupIDs)"

definition APIKeyAllowsAccount :: "Store \<Rightarrow> int \<Rightarrow> Account \<Rightarrow> bool" where
  "APIKeyAllowsAccount s apiKeyID acc =
     (if apiKeyID \<le> 0 then True
      else case apiKeyAllowedGroupSets s apiKeyID of
        None \<Rightarrow> True
      | Some allowedSet \<Rightarrow>
          if allowedSet = {} then True else list_ex (\<lambda>i. i \<in> allowedSet) (GroupIDs acc))"

definition accountAllowedForAPIKey :: "Store \<Rightarrow> int \<Rightarrow> Account \<Rightarrow> bool" where
  "accountAllowedForAPIKey s apiKeyID acc \<longleftrightarrow> AllowsAPIKey apiKeyID acc \<and> APIKeyAllowsAccount s apiKeyID acc"

subsection \<open>The fast scheduler of the store\<close>

text \<open>The check that \<open>rebuildFastScheduler\<close> installs is the method value \<open>s.APIKeyAllowsAccount\<close>; it
  reads the groups at the time of the call, so it is taken from the current store.\<close>

definition getFastScheduler :: "Store \<Rightarrow> FastScheduler option" where
  "getFastScheduler s =
     (if \<not> fastSchedulerEnabled s then None
      else map_option (\<lambda>f. f\<lparr>fsGroupCheck := map_option (\<lambda>_. APIKeyAllowsAccount s) (fsGroupCheck f)\<rparr>) (fastScheduler s))"

definition GetSchedulerMode :: "Store \<Rightarrow> string" where
  "GetSchedulerMode s = schedulerMode s"

definition BuildFastScheduler :: "time \<Rightarrow> Store \<Rightarrow> account_heap \<times> FastScheduler" where
  "BuildFastScheduler now s =
     Rebuild now (accounts s) (heap s, NewFastScheduler (maxConcurrency s) (GetSchedulerMode s))"

definition rebuildFastScheduler :: "time \<Rightarrow> Store \<Rightarrow> Store" where
  "rebuildFastScheduler now s =
     (if \<not> fastSchedulerEnabled s then s
      else let hf = BuildFastScheduler now s
           in s\<lparr>heap := fst hf, fastScheduler := Some (SetGroupCheck (Some (APIKeyAllowsAccount s)) (snd hf))\<rparr>)"

definition recomputeAllAccountSchedulerState :: "time \<Rightarrow> Store \<Rightarrow> Store" where
  "recomputeAllAccountSchedulerState now s =
     fold (\<lambda>p. updAccount p (recomputeSchedulerLocked now (maxConcurrency s))) (accounts s) s"

definition fastSchedulerUpdate :: "time \<Rightarrow> ptr \<Rightarrow> Store \<Rightarrow> Store" where
  "fastSchedulerUpdate now p s =
     (case getFastScheduler s of
        None \<Rightarrow> s
      | Some f \<Rightarrow> let hf = Update now p (heap s, f) in s\<lparr>heap := fst hf, fastScheduler := Some (snd hf)\<rparr>)"

definition fastSchedulerRemove :: "int \<Rightarrow> Store \<Rightarrow> Store" where
  "fastSchedulerRemove dbID s =
     (if dbID = 0 then s
      else case getFastScheduler s of None \<Rightarrow> s | Some f \<Rightarrow> s\<lparr>fastScheduler := Some (Remove dbID f)\<rparr>)"

definition SetFastSchedulerEnabled :: "time \<Rightarrow> bool \<Rightarrow> Store \<Rightarrow> Store" where
  "SetFastSchedulerEnabled now enabled s0 =
     (let s = s0\<lparr>fastSchedulerEnabled := enabled\<rparr>
      in if enabled then rebuildFastScheduler now (recomputeAllAccountSchedulerState now s)
         else s\<lparr>fastScheduler := None\<rparr>)"

definition SetMaxConcurrency :: "time \<Rightarrow> int \<Rightarrow> Store \<Rightarrow> Store" where
  "SetMaxConcurrency now n s0 =
     (let s1 = s0\<lparr>maxConcurrency := n\<rparr>;
          s2 = (case getFastScheduler s1 of None \<Rightarrow> s1 | Some f \<Rightarrow> s1\<lparr>fastScheduler := Some (SetBaseLimit n f)\<rparr>)
      in rebuildFastScheduler now (recomputeAllAccountSchedulerState now s2))"

definition StoreSetSchedulerMode :: "string \<Rightarrow> Store \<Rightarrow> Store" where
  "StoreSetSchedulerMode mode0 s =
     (let mode = (if mode0 \<in> {''round_robin'', ''remaining_quota''} then mode0 else ''round_robin'');
          s1 = s\<lparr>schedulerMode := mode\<rparr>
      in case getFastScheduler s1 of
           None \<Rightarrow> s1
         | Some f \<Rightarrow> s1\<lparr>fastScheduler := Some (SetSchedulerMode (heap s1) mode f)\<rparr>)"

definition SetAPIKeyAllowedGroups :: "time \<Rightarrow> int \<Rightarrow> int list \<Rightarrow> Store \<Rightarrow> Store" where
  "SetAPIKeyAllowedGroups now apiKeyID groupIDs s =
     (if apiKeyID \<le> 0 then s
      else let normalized = normalizeAllowedGroupIDs groupIDs
           in rebuildFastScheduler now
                (if normalized = [] then
                   s\<lparr>apiKeyAllowedGroups := (apiKeyAllowedGroups s)(apiKeyID := None),
                     apiKeyAllowedGroupSets := (apiKeyAllowedGroupSets s)(apiKeyID := None)\<rparr>
                 else s\<lparr>apiKeyAllowedGroups := (apiKeyAllowedGroups s)(apiKeyID \<mapsto> normalized),
                        apiKeyAllowedGroupSets := (apiKeyAllowedGroupSets s)(apiKeyID \<mapsto> set normalized)\<rparr>))"

subsection \<open>The list of accounts and its index\<close>

definition rebuildAccountIndex :: "Store \<Rightarrow> Store" where
  "rebuildAccountIndex s =
     s\<lparr>accountsByID := Some (fold (\<lambda>p m. case heap s p of None \<Rightarrow> m | Some acc \<Rightarrow> m(DBID acc \<mapsto> p))
        (accounts s) Map.empty)\<rparr>"

fun findAccount :: "account_heap \<Rightarrow> int \<Rightarrow> ptr list \<Rightarrow> ptr option" where
  "findAccount h dbID [] = None"
| "findAccount h dbID (p # ps) =
     (case h p of
        Some acc \<Rightarrow> if DBID acc = dbID then Some p else findAccount h dbID ps
      | None \<Rightarrow> findAccount h dbID ps)"

definition lookupByIDLocked :: "int \<Rightarrow> Store \<Rightarrow> ptr option" where
  "lookupByIDLocked dbID s =
     (case accountsByID s of Some idx \<Rightarrow> idx dbID | None \<Rightarrow> findAccount (heap s) dbID (accounts s))"

definition FindByID :: "int \<Rightarrow> Store \<Rightarrow> ptr option" where
  "FindByID dbID s = lookupByIDLocked dbID s"

text \<open>\<open>acc\<close> is the object that the caller passes; it goes on the heap at \<open>p\<close>.\<close>

definition AddAccount :: "time \<Rightarrow> ptr \<Rightarrow> Account \<Rightarrow> Store \<Rightarrow> Store" where
  "AddAccount now p acc s =
     (let a1 = (if AddedAt acc = 0 then acc\<lparr>AddedAt := now\<rparr> else acc);
          a2 = recomputeSchedulerLocked now (maxConcurrency s) a1;
          s1 = rebuildAccountIndex (s\<lparr>heap := (heap s)(p \<mapsto> a2), accounts := accounts s @ [p]\<rparr>)
      in fastSchedulerUpdate now p s1)"

text \<open>The task of the account in the refresh scheduler, which the store cancels too, is not part of
  this state.\<close>

fun removeFirst :: "account_heap \<Rightarrow> int \<Rightarrow> ptr list \<Rightarrow> ptr list option" where
  "removeFirst h dbID [] = None"
| "removeFirst h dbID (p # ps) =
     (if map_option DBID (h p) = Some dbID then Some ps else map_option ((#) p) (removeFirst h dbID ps))"

definition RemoveAccount :: "int \<Rightarrow> Store \<Rightarrow> Store" where
  "RemoveAccount dbID s =
     (case removeFirst (heap s) dbID (accounts s) of
        None \<Rightarrow> s
      | Some ps \<Rightarrow> fastSchedulerRemove dbID (rebuildAccountIndex (s\<lparr>accounts := ps\<rparr>)))"

definition inSet :: "account_heap \<Rightarrow> int list \<Rightarrow> ptr \<Rightarrow> bool" where
  "inSet h ids p = (case h p of Some acc \<Rightarrow> DBID acc \<in> set ids | None \<Rightarrow> False)"

definition RemoveAccounts :: "int list \<Rightarrow> Store \<Rightarrow> Store" where
  "RemoveAccounts dbIDs s =
     (if dbIDs = [] then s
      else let gone = filter (inSet (heap s) dbIDs) (accounts s);
               s1 = fold (\<lambda>p s. case heap s p of Some acc \<Rightarrow> fastSchedulerRemove (DBID acc) s | None \<Rightarrow> s) gone s
           in rebuildAccountIndex (s1\<lparr>accounts := filter (\<lambda>p. \<not> inSet (heap s) dbIDs p) (accounts s)\<rparr>))"

subsection \<open>Quota thresholds\<close>

definition getGroupAutoPauseThresholds :: "int \<Rightarrow> Store \<Rightarrow> float64 \<times> float64" where
  "getGroupAutoPauseThresholds groupID s = (case groupAutoPauseThresholds s groupID of Some t \<Rightarrow> t | None \<Rightarrow> (0, 0))"

fun smallestPositive :: "float64 \<Rightarrow> float64 list \<Rightarrow> float64" where
  "smallestPositive best [] = best"
| "smallestPositive best (t # ts) = smallestPositive (if t > 0 \<and> (best = 0 \<or> t < best) then t else best) ts"

definition resolveEffectiveThreshold :: "float64 \<Rightarrow> int list \<Rightarrow> Store \<Rightarrow> bool \<Rightarrow> float64" where
  "resolveEffectiveThreshold accountThreshold groupIDs s is5h =
     (if accountThreshold > 0 then accountThreshold
      else let best = smallestPositive 0 (map (\<lambda>gid.
                 if is5h then fst (getGroupAutoPauseThresholds gid s) else snd (getGroupAutoPauseThresholds gid s)) groupIDs)
           in if best > 0 then best
              else if is5h then globalAutoPause5hThreshold s else globalAutoPause7dThreshold s)"

definition recomputeEffectiveAutoPause :: "Store \<Rightarrow> Account \<Rightarrow> Account" where
  "recomputeEffectiveAutoPause s a =
     a\<lparr>effectiveAutoPause5h := resolveEffectiveThreshold (AutoPause5hThreshold a) (GroupIDs a) s True,
       effectiveAutoPause7d := resolveEffectiveThreshold (AutoPause7dThreshold a) (GroupIDs a) s False\<rparr>"

definition recomputeAllEffectiveAutoPause :: "Store \<Rightarrow> Store" where
  "recomputeAllEffectiveAutoPause s = fold (\<lambda>p. updAccount p (recomputeEffectiveAutoPause s)) (accounts s) s"

definition SetGlobalAutoPauseThresholds :: "float64 \<Rightarrow> float64 \<Rightarrow> Store \<Rightarrow> Store" where
  "SetGlobalAutoPauseThresholds t5h t7d s =
     recomputeAllEffectiveAutoPause
       (s\<lparr>globalAutoPause5hThreshold := normalizeQuotaAutoPauseThreshold t5h,
          globalAutoPause7dThreshold := normalizeQuotaAutoPauseThreshold t7d\<rparr>)"

definition SetGroupAutoPauseThresholds :: "int \<Rightarrow> float64 \<Rightarrow> float64 \<Rightarrow> Store \<Rightarrow> Store" where
  "SetGroupAutoPauseThresholds groupID t5h t7d s =
     recomputeAllEffectiveAutoPause
       (s\<lparr>groupAutoPauseThresholds := (groupAutoPauseThresholds s)(groupID \<mapsto>
          (normalizeQuotaAutoPauseThreshold t5h, normalizeQuotaAutoPauseThreshold t7d))\<rparr>)"

definition DeleteGroupAutoPauseThresholds :: "int \<Rightarrow> Store \<Rightarrow> Store" where
  "DeleteGroupAutoPauseThresholds groupID s =
     s\<lparr>groupAutoPauseThresholds := (groupAutoPauseThresholds s)(groupID := None)\<rparr>"

definition ApplyAccountGroups :: "time \<Rightarrow> int \<Rightarrow> int list \<Rightarrow> Store \<Rightarrow> Store \<times> bool" where
  "ApplyAccountGroups now dbID groupIDs s =
     (case FindByID dbID s of
        None \<Rightarrow> (s, False)
      | Some p \<Rightarrow>
          (fastSchedulerUpdate now p
             (updAccount p (\<lambda>a. recomputeEffectiveAutoPause s (a\<lparr>GroupIDs := groupIDs\<rparr>)) s), True))"

subsection \<open>Proxies\<close>

definition stickyProxyIndex :: "int \<Rightarrow> nat \<Rightarrow> nat" where
  "stickyProxyIndex accountID n =
     (if n \<le> 1 then 0 else if accountID \<le> 0 then 0 else nat ((accountID - 1) mod int n))"

fun firstProxy :: "string list \<Rightarrow> string option" where
  "firstProxy [] = None"
| "firstProxy (u # us) = (if TrimSpace u \<noteq> [] then Some (TrimSpace u) else firstProxy us)"

definition resolveFallbackProxyForAccount :: "int \<Rightarrow> Store \<Rightarrow> string" where
  "resolveFallbackProxyForAccount accountID s =
     (let pool = proxyPool s; start = stickyProxyIndex accountID (length pool)
      in case (if proxyPoolEnabled s \<and> pool \<noteq> []
               then firstProxy (map (\<lambda>i. pool ! ((start + i) mod length pool)) [0..<length pool]) else None) of
           Some proxy \<Rightarrow> proxy
         | None \<Rightarrow> TrimSpace (globalProxy s))"

definition ResolveProxyForAccount :: "ptr option \<Rightarrow> Store \<Rightarrow> string" where
  "ResolveProxyForAccount p s =
     (case p of
        None \<Rightarrow> resolveFallbackProxyForAccount 0 s
      | Some q \<Rightarrow>
          (case heap s q of
             None \<Rightarrow> resolveFallbackProxyForAccount 0 s
           | Some acc \<Rightarrow>
               if TrimSpace (ProxyURL acc) \<noteq> [] then TrimSpace (ProxyURL acc)
               else resolveFallbackProxyForAccount (DBID acc) s))"

definition NextProxy :: "Store \<Rightarrow> Store \<times> string" where
  "NextProxy s =
     (if \<not> proxyPoolEnabled s \<or> proxyPool s = [] then (s, globalProxy s)
      else let idx = proxyRoundRobin s + 1
           in (s\<lparr>proxyRoundRobin := idx\<rparr>, proxyPool s ! (unat idx mod length (proxyPool s))))"

subsection \<open>Cooldown records in the runtime cache\<close>

record runtimeCooldownRecord =
  rcModel :: string
  rcReason :: string
  rcResetAt :: time
  rcUpdatedAt :: time
  rcBackoffLevel :: int

definition emptyCooldownRecord :: runtimeCooldownRecord where
  "emptyCooldownRecord = \<lparr>rcModel = [], rcReason = [], rcResetAt = 0, rcUpdatedAt = 0, rcBackoffLevel = 0\<rparr>"

text \<open>The JSON of a record: \<open>omitempty\<close> leaves out an empty model and a zero level (a time is a struct
  and never left out); reading it sets the fields that are there.\<close>

definition marshalCooldown :: "runtimeCooldownRecord \<Rightarrow> json" where
  "marshalCooldown r = JObj
     ((if rcModel r = [] then [] else [(''model'', JStr (rcModel r))]) @
      [(''reason'', JStr (rcReason r)), (''reset_at'', JTime (rcResetAt r)), (''updated_at'', JTime (rcUpdatedAt r))] @
      (if rcBackoffLevel r = 0 then [] else [(''backoff_level'', JInt (rcBackoffLevel r))]))"

fun setCooldownField :: "string \<times> json \<Rightarrow> runtimeCooldownRecord option \<Rightarrow> runtimeCooldownRecord option" where
  "setCooldownField _ None = None"
| "setCooldownField (name, v) (Some r) =
     (if EqualFold name ''model'' then (case v of JStr x \<Rightarrow> Some (r\<lparr>rcModel := x\<rparr>) | _ \<Rightarrow> None)
      else if EqualFold name ''reason'' then (case v of JStr x \<Rightarrow> Some (r\<lparr>rcReason := x\<rparr>) | _ \<Rightarrow> None)
      else if EqualFold name ''reset_at'' then (case v of JTime x \<Rightarrow> Some (r\<lparr>rcResetAt := x\<rparr>) | _ \<Rightarrow> None)
      else if EqualFold name ''updated_at'' then (case v of JTime x \<Rightarrow> Some (r\<lparr>rcUpdatedAt := x\<rparr>) | _ \<Rightarrow> None)
      else if EqualFold name ''backoff_level'' then (case v of JInt x \<Rightarrow> Some (r\<lparr>rcBackoffLevel := x\<rparr>) | _ \<Rightarrow> None)
      else Some r)"

fun unmarshalCooldown :: "json \<Rightarrow> runtimeCooldownRecord option" where
  "unmarshalCooldown (JObj kvs) = fold setCooldownField kvs (Some emptyCooldownRecord)"
| "unmarshalCooldown _ = None"

definition accountCooldownCacheNamespace :: string where
  "accountCooldownCacheNamespace = ''account-cooldown''"

definition modelCooldownCacheNamespace :: string where
  "modelCooldownCacheNamespace = ''model-cooldown''"

definition accountCooldownRuntimeKey :: "int \<Rightarrow> string" where
  "accountCooldownRuntimeKey accountID = showInt accountID"

definition modelCooldownRuntimeKey :: "int \<Rightarrow> string \<Rightarrow> string" where
  "modelCooldownRuntimeKey accountID model = showInt accountID @ '':'' @ normalizeModelCooldownKey model"

definition normalizeCooldownReason :: "string \<Rightarrow> string" where
  "normalizeCooldownReason reason = (if TrimSpace reason = [] then ''rate_limited'' else TrimSpace reason)"

definition cooldownTTL :: "time \<Rightarrow> time \<Rightarrow> duration option" where
  "cooldownTTL now resetAt =
     (if resetAt = 0 then None else let ttl = time_Sub resetAt now in if ttl \<le> 0 then None else Some ttl)"

definition setCachedAccountCooldown :: "time \<Rightarrow> int \<Rightarrow> string \<Rightarrow> time \<Rightarrow> Store \<Rightarrow> Store" where
  "setCachedAccountCooldown now accountID reason resetAt s =
     (case tokenCache s of
        None \<Rightarrow> s
      | Some tc \<Rightarrow>
          if accountID = 0 then s
          else case cooldownTTL now resetAt of
            None \<Rightarrow> s
          | Some ttl \<Rightarrow>
              s\<lparr>tokenCache := Some (SetRuntime now accountCooldownCacheNamespace (accountCooldownRuntimeKey accountID)
                 (Some (marshalCooldown (emptyCooldownRecord\<lparr>rcReason := normalizeCooldownReason reason,
                    rcResetAt := resetAt, rcUpdatedAt := now\<rparr>))) ttl tc)\<rparr>)"

definition deleteCachedAccountCooldown :: "int \<Rightarrow> Store \<Rightarrow> Store" where
  "deleteCachedAccountCooldown accountID s =
     (case tokenCache s of
        None \<Rightarrow> s
      | Some tc \<Rightarrow>
          if accountID = 0 then s
          else s\<lparr>tokenCache := Some (DeleteRuntime accountCooldownCacheNamespace (accountCooldownRuntimeKey accountID) tc)\<rparr>)"

definition getCachedAccountCooldown :: "time \<Rightarrow> int \<Rightarrow> Store \<Rightarrow> Store \<times> runtimeCooldownRecord option" where
  "getCachedAccountCooldown now accountID s =
     (case tokenCache s of
        None \<Rightarrow> (s, None)
      | Some tc \<Rightarrow>
          if accountID = 0 then (s, None)
          else let g = GetRuntime now accountCooldownCacheNamespace (accountCooldownRuntimeKey accountID) tc;
                   s1 = s\<lparr>tokenCache := Some (fst g)\<rparr>
               in case snd g of
                    Some (Some raw) \<Rightarrow>
                      (case unmarshalCooldown raw of
                         None \<Rightarrow> (deleteCachedAccountCooldown accountID s1, None)
                       | Some r \<Rightarrow>
                           if \<not> now < rcResetAt r then (deleteCachedAccountCooldown accountID s1, None)
                           else (s1, Some (r\<lparr>rcReason := normalizeCooldownReason (rcReason r)\<rparr>)))
                  | _ \<Rightarrow> (s1, None))"

definition cachedCooldownAccount :: "time \<Rightarrow> int \<Rightarrow> runtimeCooldownRecord \<Rightarrow> Account \<Rightarrow> Account" where
  "cachedCooldownAccount now base r a0 =
     (let reason = normalizeCooldownReason (rcReason r);
          a = a0\<lparr>Status := StatusCooldown, CooldownUtil := rcResetAt r, CooldownReason := reason\<rparr>;
          a1 = (if reason = ''unauthorized'' then
                  a\<lparr>LastUnauthorizedAt := now, LastFailureAt := now, HealthTier := HealthTierBanned\<rparr>
                else if reason \<in> {''rate_limited'', ''usage_limited'', ''usage_limit''} then
                  a\<lparr>LastRateLimitedAt := now, LastFailureAt := now,
                    HealthTier := (if healthTierLocked a = HealthTierHealthy then HealthTierWarm
                                   else if HealthTier a \<noteq> HealthTierBanned then HealthTierRisky
                                   else HealthTier a)\<rparr>
                else a)
      in recomputeSchedulerLocked now base a1)"

definition applyCachedAccountCooldown :: "time \<Rightarrow> ptr \<Rightarrow> runtimeCooldownRecord \<Rightarrow> Store \<Rightarrow> Store" where
  "applyCachedAccountCooldown now p r s =
     (if \<not> now < rcResetAt r then s
      else fastSchedulerUpdate now p (updAccount p (cachedCooldownAccount now (maxConcurrency s) r) s))"

definition accountHasCachedCooldown :: "time \<Rightarrow> ptr \<Rightarrow> Store \<Rightarrow> Store \<times> bool" where
  "accountHasCachedCooldown now p s =
     (case heap s p of
        None \<Rightarrow> (s, False)
      | Some acc \<Rightarrow>
          (case getCachedAccountCooldown now (DBID acc) s of
             (s1, None) \<Rightarrow> (s1, False)
           | (s1, Some r) \<Rightarrow> (applyCachedAccountCooldown now p r s1, True)))"

subsubsection \<open>Cooldowns of one model\<close>

definition setCachedModelCooldown :: "time \<Rightarrow> int \<Rightarrow> ModelCooldown \<Rightarrow> Store \<Rightarrow> Store" where
  "setCachedModelCooldown now accountID cooldown s =
     (let key = normalizeModelCooldownKey (mcModel cooldown)
      in case tokenCache s of
           None \<Rightarrow> s
         | Some tc \<Rightarrow>
             if accountID = 0 \<or> key = [] then s
             else case cooldownTTL now (mcResetAt cooldown) of
               None \<Rightarrow> s
             | Some ttl \<Rightarrow>
                 s\<lparr>tokenCache := Some (SetRuntime now modelCooldownCacheNamespace (modelCooldownRuntimeKey accountID key)
                    (Some (marshalCooldown \<lparr>rcModel = key, rcReason = normalizeCooldownReason (mcReason cooldown),
                       rcResetAt = mcResetAt cooldown, rcUpdatedAt = mcUpdatedAt cooldown,
                       rcBackoffLevel = mcBackoffLevel cooldown\<rparr>)) ttl tc)\<rparr>)"

definition deleteCachedModelCooldown :: "int \<Rightarrow> string \<Rightarrow> Store \<Rightarrow> Store" where
  "deleteCachedModelCooldown accountID model s =
     (let key = normalizeModelCooldownKey model
      in case tokenCache s of
           None \<Rightarrow> s
         | Some tc \<Rightarrow>
             if accountID = 0 \<or> key = [] then s
             else s\<lparr>tokenCache := Some (DeleteRuntime modelCooldownCacheNamespace (modelCooldownRuntimeKey accountID key) tc)\<rparr>)"

definition getCachedModelCooldown :: "time \<Rightarrow> int \<Rightarrow> string \<Rightarrow> Store \<Rightarrow> Store \<times> runtimeCooldownRecord option" where
  "getCachedModelCooldown now accountID model s =
     (let key = normalizeModelCooldownKey model
      in case tokenCache s of
           None \<Rightarrow> (s, None)
         | Some tc \<Rightarrow>
             if accountID = 0 \<or> key = [] then (s, None)
             else let g = GetRuntime now modelCooldownCacheNamespace (modelCooldownRuntimeKey accountID key) tc;
                      s1 = s\<lparr>tokenCache := Some (fst g)\<rparr>
                  in case snd g of
                       Some (Some raw) \<Rightarrow>
                         (case unmarshalCooldown raw of
                            None \<Rightarrow> (deleteCachedModelCooldown accountID key s1, None)
                          | Some r \<Rightarrow>
                              if \<not> now < rcResetAt r then (deleteCachedModelCooldown accountID key s1, None)
                              else (s1, Some (r\<lparr>rcModel := key, rcReason := normalizeCooldownReason (rcReason r)\<rparr>)))
                     | _ \<Rightarrow> (s1, None))"

definition applyCachedModelCooldown :: "time \<Rightarrow> string \<Rightarrow> runtimeCooldownRecord \<Rightarrow> Account \<Rightarrow> Account" where
  "applyCachedModelCooldown now model r a =
     (let key0 = normalizeModelCooldownKey model;
          key = (if key0 = [] then normalizeModelCooldownKey (rcModel r) else key0)
      in if \<not> now < rcResetAt r \<or> key = [] then a
         else a\<lparr>ModelCooldowns := (ModelCooldowns a)(key \<mapsto>
           \<lparr>mcModel = key, mcReason = normalizeCooldownReason (rcReason r), mcResetAt = rcResetAt r,
            mcUpdatedAt = (if rcUpdatedAt r = 0 then now else rcUpdatedAt r), mcBackoffLevel = rcBackoffLevel r\<rparr>)\<rparr>)"

definition accountHasCachedModelCooldown :: "time \<Rightarrow> ptr \<Rightarrow> string \<Rightarrow> Store \<Rightarrow> Store \<times> bool" where
  "accountHasCachedModelCooldown now p model s =
     (let key = normalizeModelCooldownKey model
      in case heap s p of
           None \<Rightarrow> (s, False)
         | Some acc \<Rightarrow>
             if key = [] then (s, False)
             else if IsModelRateLimited now key acc then (s, True)
             else case getCachedModelCooldown now (DBID acc) key s of
               (s1, None) \<Rightarrow> (s1, False)
             | (s1, Some r) \<Rightarrow> (updAccount p (applyCachedModelCooldown now key r) s1, True))"

subsection \<open>Reports about one account\<close>

text \<open>Each of them changes the account under its lock, updates the scheduler and then the cache.\<close>

definition onAccount :: "time \<Rightarrow> ptr \<Rightarrow> (Account \<Rightarrow> Account) \<Rightarrow> (Account \<Rightarrow> Store \<Rightarrow> Store) \<Rightarrow> Store \<Rightarrow> Store" where
  "onAccount now p f after s =
     (case heap s p of
        None \<Rightarrow> s
      | Some a \<Rightarrow> after a (fastSchedulerUpdate now p (updAccount p f s)))"

definition markCooldown :: "time \<Rightarrow> ptr \<Rightarrow> duration \<Rightarrow> string \<Rightarrow> string \<Rightarrow> Store \<Rightarrow> Store" where
  "markCooldown now p d reason errorMsg s =
     onAccount now p (\<lambda>a. fst (markCooldownAccount now (maxConcurrency s) d reason errorMsg a))
       (\<lambda>a. setCachedAccountCooldown now (DBID a) reason
          (snd (markCooldownAccount now (maxConcurrency s) d reason errorMsg a))) s"

definition MarkModelCooldown :: "time \<Rightarrow> ptr \<Rightarrow> string \<Rightarrow> duration \<Rightarrow> string \<Rightarrow> Store \<Rightarrow> Store" where
  "MarkModelCooldown now p model d reason s =
     (if normalizeModelCooldownKey model = [] then s
      else onAccount now p (\<lambda>a. fst (MarkModelCooldownAccount now (maxConcurrency s) model d reason a))
        (\<lambda>a. setCachedModelCooldown now (DBID a)
           (snd (MarkModelCooldownAccount now (maxConcurrency s) model d reason a))) s)"

definition ClearModelCooldown :: "time \<Rightarrow> ptr \<Rightarrow> string \<Rightarrow> Store \<Rightarrow> Store" where
  "ClearModelCooldown now p model s =
     (let key = normalizeModelCooldownKey model
      in case heap s p of
           None \<Rightarrow> s
         | Some a \<Rightarrow>
             if key = [] \<or> \<not> snd (ClearModelCooldownAccount key a) then s
             else fastSchedulerUpdate now p
               (deleteCachedModelCooldown (DBID a) key (updAccount p (\<lambda>a. fst (ClearModelCooldownAccount key a)) s)))"

definition MarkError :: "time \<Rightarrow> ptr \<Rightarrow> string \<Rightarrow> string \<Rightarrow> Store \<Rightarrow> Store" where
  "MarkError now p fallback errorMsg s =
     onAccount now p (MarkErrorAccount now (maxConcurrency s) fallback errorMsg)
       (\<lambda>a. deleteCachedAccountCooldown (DBID a)) s"

definition ClearCooldown :: "time \<Rightarrow> ptr \<Rightarrow> Store \<Rightarrow> Store" where
  "ClearCooldown now p s =
     onAccount now p (ClearCooldownAccount now (maxConcurrency s)) (\<lambda>a. deleteCachedAccountCooldown (DBID a)) s"

definition RecordManualTestSuccess :: "time \<Rightarrow> ptr \<Rightarrow> duration \<Rightarrow> Store \<Rightarrow> Store" where
  "RecordManualTestSuccess now p latency s =
     onAccount now p (RecordManualTestSuccessAccount now (maxConcurrency s) latency)
       (\<lambda>a. deleteCachedAccountCooldown (DBID a)) s"

definition ReportRequestSuccess :: "time \<Rightarrow> ptr \<Rightarrow> duration \<Rightarrow> Store \<Rightarrow> Store" where
  "ReportRequestSuccess now p latency s =
     onAccount now p (ReportRequestSuccessAccount now (maxConcurrency s) latency) (\<lambda>_ s. s) s"

definition ReportRequestFailure :: "time \<Rightarrow> ptr \<Rightarrow> string \<Rightarrow> duration \<Rightarrow> Store \<Rightarrow> Store" where
  "ReportRequestFailure now p kind latency s =
     onAccount now p (ReportRequestFailureAccount now (maxConcurrency s) kind latency) (\<lambda>_ s. s) s"

definition MarkPremium5hRateLimited :: "time \<Rightarrow> ptr \<Rightarrow> time \<Rightarrow> Store \<Rightarrow> Store" where
  "MarkPremium5hRateLimited now p resetAt s =
     onAccount now p (\<lambda>a. fst (MarkPremium5hRateLimitedAccount now (maxConcurrency s) resetAt a))
       (\<lambda>a. setCachedAccountCooldown now (DBID a) ''rate_limited''
          (snd (MarkPremium5hRateLimitedAccount now (maxConcurrency s) resetAt a))) s"

definition ApplyAccountEnabled :: "time \<Rightarrow> int \<Rightarrow> bool \<Rightarrow> Store \<Rightarrow> Store \<times> bool" where
  "ApplyAccountEnabled now dbID enabled s =
     (case FindByID dbID s of
        None \<Rightarrow> (s, False)
      | Some p \<Rightarrow> (fastSchedulerUpdate now p (updAccount p (\<lambda>a. a\<lparr>DispatchPaused := \<not> enabled\<rparr>) s), True))"

definition ApplyAccountSchedulerOverrides ::
  "time \<Rightarrow> int \<Rightarrow> int option \<Rightarrow> int option \<Rightarrow> bool option \<Rightarrow> Store \<Rightarrow> Store \<times> bool" where
  "ApplyAccountSchedulerOverrides now dbID scoreBias baseConcurrency skipWarm s =
     (case FindByID dbID s of
        None \<Rightarrow> (s, False)
      | Some p \<Rightarrow>
          (fastSchedulerUpdate now p (updAccount p (\<lambda>a. recomputeSchedulerLocked now (maxConcurrency s)
             (a\<lparr>ScoreBiasOverride := scoreBias, BaseConcurrencyOverride := baseConcurrency,
                SkipWarmTier := (case skipWarm of None \<Rightarrow> SkipWarmTier a | Some b \<Rightarrow> b)\<rparr>)) s), True))"

definition ApplyAccountAllowedAPIKeys :: "time \<Rightarrow> int \<Rightarrow> int list \<Rightarrow> Store \<Rightarrow> Store \<times> bool" where
  "ApplyAccountAllowedAPIKeys now dbID ids s =
     (case FindByID dbID s of
        None \<Rightarrow> (s, False)
      | Some p \<Rightarrow> (fastSchedulerUpdate now p (updAccount p (setAllowedAPIKeyIDsLocked ids) s), True))"

definition ApplyAccountGroupMemberships :: "time \<Rightarrow> (int \<rightharpoonup> int list) \<Rightarrow> Store \<Rightarrow> Store" where
  "ApplyAccountGroupMemberships now memberships s0 =
     fold (\<lambda>p s. fastSchedulerUpdate now p (updAccount p (\<lambda>a. recomputeEffectiveAutoPause s
         (a\<lparr>GroupIDs := (case memberships (DBID a) of None \<Rightarrow> [] | Some gs \<Rightarrow> gs)\<rparr>)) s)) (accounts s0) s0"

subsection \<open>Start-up\<close>

definition SetLazyMode :: "time \<Rightarrow> bool \<Rightarrow> Store \<Rightarrow> Store" where
  "SetLazyMode now enabled s = rebuildFastScheduler now (s\<lparr>lazyMode := enabled\<rparr>)"

text \<open>\<open>keys\<close> is what the database lists, \<open>None\<close> for an error.\<close>

definition LoadAPIKeyAllowedGroups :: "time \<Rightarrow> (int \<times> int list) list option \<Rightarrow> Store \<Rightarrow> Store" where
  "LoadAPIKeyAllowedGroups now keys s =
     (case keys of
        None \<Rightarrow> s
      | Some ks \<Rightarrow>
          let groups = fold (\<lambda>(k, gs) m. let normalized = normalizeAllowedGroupIDs gs
                        in if normalized \<noteq> [] then m(k \<mapsto> normalized) else m) ks Map.empty
          in rebuildFastScheduler now (s\<lparr>apiKeyAllowedGroups := groups,
               apiKeyAllowedGroupSets := (\<lambda>k. map_option set (groups k))\<rparr>))"

text \<open>The settings that the modelled part of the store reads.\<close>

record SystemSettings =
  ssProxyURL :: string
  ssMaxConcurrency :: int
  ssProxyPoolEnabled :: bool
  ssLazyMode :: bool
  ssSchedulerMode :: string
  ssAffinityMode :: string
  ssFastSchedulerEnabled :: bool
  ssAutoPause5hThreshold :: float64
  ssAutoPause7dThreshold :: float64

definition defaultSettings :: SystemSettings where
  "defaultSettings = \<lparr>ssProxyURL = [], ssMaxConcurrency = 2, ssProxyPoolEnabled = False, ssLazyMode = False,
     ssSchedulerMode = ''round_robin'', ssAffinityMode = [], ssFastSchedulerEnabled = False,
     ssAutoPause5hThreshold = 0, ssAutoPause7dThreshold = 0\<rparr>"

text \<open>\<open>fromEnv\<close> is \<open>fastSchedulerEnabledFromEnv()\<close> and \<open>proxies\<close> the URLs of the enabled proxies in the
  database, \<open>None\<close> for an error.\<close>

definition NewStore :: "MemoryTokenCache option \<Rightarrow> SystemSettings option \<Rightarrow> bool \<Rightarrow> string list option \<Rightarrow> Store" where
  "NewStore tc settings fromEnv proxies =
     (let st = (case settings of None \<Rightarrow> defaultSettings | Some x \<Rightarrow> x);
          fastEnabled = fromEnv \<or> ssFastSchedulerEnabled st
      in \<lparr>heap = Map.empty, accounts = [], accountsByID = None, globalProxy = ssProxyURL st,
          maxConcurrency = ssMaxConcurrency st, tokenCache = tc,
          apiKeyAllowedGroups = Map.empty, apiKeyAllowedGroupSets = Map.empty,
          lazyMode = ssLazyMode st, lazyRefreshInFlight = {},
          proxyPool = (if ssProxyPoolEnabled st then (case proxies of None \<Rightarrow> [] | Some us \<Rightarrow> us) else []),
          proxyPoolEnabled = ssProxyPoolEnabled st, proxyRoundRobin = 0,
          fastScheduler = (if fastEnabled then Some (NewFastScheduler (ssMaxConcurrency st) (ssSchedulerMode st)) else None),
          fastSchedulerEnabled = fastEnabled, schedulerMode = ssSchedulerMode st,
          affinityMode = (if ssAffinityMode st \<in> {''bounded'', ''off'', ''strict''} then ssAffinityMode st else ''bounded''),
          sessionBindings = Map.empty,
          globalAutoPause5hThreshold = normalizeQuotaAutoPauseThreshold (ssAutoPause5hThreshold st),
          globalAutoPause7dThreshold = normalizeQuotaAutoPauseThreshold (ssAutoPause7dThreshold st),
          groupAutoPauseThresholds = Map.empty\<rparr>)"

end
