(* ===== verification/Selection.thy ===== *)
theory Selection
  imports Store
begin

section \<open>Selecting an account for a request\<close>

text \<open>
  Models the selection methods of \<open>auth/store.go\<close>: \<open>NextExcludingWithFilter\<close> with its three paths (the
  fast scheduler, the scan over all accounts and the lazy scan), session affinity, waiting for an
  account, and the retry loop of \<open>proxy/retry_exclusions.go\<close>.

  A request filter is a function of the account; \<open>modelCooldownFilter\<close> is the filter that
  \<open>WithModelCooldownFilter\<close> builds. A selection returns \<open>Picked p\<close>, \<open>NoPick\<close> for nil, or
  \<open>Stuck\<close> when the call into the fast scheduler does not return normally (a negative index, which
  needs a cursor of at least \<open>2 ^ 63\<close>).
\<close>

datatype pick = Picked ptr | NoPick | Stuck

record selectArgs =
  seNow :: time
  seKey :: int
  seExclude :: "int set"
  seFilter :: AccountFilter
  seCoin :: "nat \<Rightarrow> ptr \<Rightarrow> nat"

subsection \<open>The scan over all accounts\<close>

record candidate =
  cdAcc :: "ptr option"
  cdPriority :: int
  cdScore :: float64
  cdLoad :: int
  cdLimit :: int

definition maxFloat64 :: float64 where
  "maxFloat64 = (2 - 1 / 2 ^ 52) * 2 ^ 1023"

definition noCandidate :: candidate where
  "noCandidate = \<lparr>cdAcc = None, cdPriority = - 1, cdScore = - maxFloat64, cdLoad = 2 ^ 63 - 1, cdLimit = 0\<rparr>"

definition beats :: "nat \<Rightarrow> int \<Rightarrow> float64 \<Rightarrow> int \<Rightarrow> candidate \<Rightarrow> bool" where
  "beats coin priority score load c \<longleftrightarrow>
     priority > cdPriority c \<or>
     (priority = cdPriority c \<and>
       (score > cdScore c \<or> (score = cdScore c \<and> load < cdLoad c) \<or>
        (score = cdScore c \<and> load = cdLoad c \<and> coin = 0)))"

text \<open>The account behind the tests: its snapshot, which recomputes it, and the comparison with the
  best so far.\<close>

definition weigh :: "selectArgs \<Rightarrow> nat \<Rightarrow> int \<Rightarrow> ptr \<Rightarrow> Account \<Rightarrow> candidate \<Rightarrow> Account \<times> candidate" where
  "weigh q attempt base p acc c =
     (let a = recomputeSchedulerLocked (seNow q) base acc; load = ActiveRequests acc; limit = DynamicConcurrencyLimit a;
          priority = tierPriority (HealthTier a)
      in if limit \<le> 0 \<or> load \<ge> limit then (a, c)
         else if beats (seCoin q attempt p) priority (DispatchScore a) load c
         then (a, \<lparr>cdAcc = Some p, cdPriority = priority, cdScore = DispatchScore a, cdLoad = load, cdLimit = limit\<rparr>)
         else (a, c))"

definition qualifies :: "selectArgs \<Rightarrow> Store \<Rightarrow> Account \<Rightarrow> bool" where
  "qualifies q s acc \<longleftrightarrow> DBID acc \<notin> seExclude q \<and> IsAvailable (seNow q) acc \<and>
     accountAllowedForAPIKey s (seKey q) acc \<and> passes (seFilter q) acc"

definition scanOne :: "selectArgs \<Rightarrow> nat \<Rightarrow> ptr \<Rightarrow> Store \<times> candidate \<Rightarrow> Store \<times> candidate" where
  "scanOne q attempt p sc =
     (let s = fst sc; c = snd sc
      in case heap s p of
           None \<Rightarrow> sc
         | Some acc \<Rightarrow>
             if \<not> qualifies q s acc then sc
             else let ac = weigh q attempt (maxConcurrency s) p acc c
                  in (s\<lparr>heap := (heap s)(p \<mapsto> fst ac)\<rparr>, snd ac))"

definition scanAll :: "selectArgs \<Rightarrow> nat \<Rightarrow> Store \<Rightarrow> Store \<times> candidate" where
  "scanAll q attempt s = fold (scanOne q attempt) (accounts s) (s, noCandidate)"

definition takeSlot :: "time \<Rightarrow> ptr \<Rightarrow> int \<Rightarrow> Store \<Rightarrow> (Store \<times> pick)" where
  "takeSlot now p limit s =
     (case heap s p of
        None \<Rightarrow> (s, NoPick)
      | Some acc \<Rightarrow>
          (case tryAcquireAccount now limit acc of
             None \<Rightarrow> (s, NoPick)
           | Some a \<Rightarrow> (s\<lparr>heap := (heap s)(p \<mapsto> a)\<rparr>, Picked p)))"

text \<open>\<open>n\<close> counts the remaining attempts, of 16.\<close>

fun slowSelect :: "selectArgs \<Rightarrow> nat \<Rightarrow> Store \<Rightarrow> Store \<times> pick" where
  "slowSelect q 0 s = (s, NoPick)"
| "slowSelect q (Suc n) s =
     (let (s1, c) = scanAll q n s
      in case cdAcc c of
           None \<Rightarrow> (s1, NoPick)
         | Some p \<Rightarrow>
             (case accountHasCachedCooldown (seNow q) p s1 of
                (s2, True) \<Rightarrow> slowSelect q n s2
              | (s2, False) \<Rightarrow>
                  (case takeSlot (seNow q) p (cdLimit c) s2 of
                     (s3, Picked p') \<Rightarrow> (s3, Picked p')
                   | (s3, _) \<Rightarrow> slowSelect q n s3)))"

subsection \<open>Through the fast scheduler\<close>

definition acquireFast :: "selectArgs \<Rightarrow> Store \<Rightarrow> Store \<times> pick" where
  "acquireFast q s =
     (case getFastScheduler s of
        None \<Rightarrow> (s, NoPick)
      | Some f \<Rightarrow>
          (case AcquireExcludingWithFilter \<lparr>argNow = seNow q, argKey = seKey q, argExclude = seExclude q,
                  argFilter = seFilter q\<rparr> (heap s) f of
             Some (h, f', ScanAcquired p) \<Rightarrow> (s\<lparr>heap := h, fastScheduler := Some f'\<rparr>, Picked p)
           | Some (h, f', ScanNone) \<Rightarrow> (s\<lparr>heap := h, fastScheduler := Some f'\<rparr>, NoPick)
           | _ \<Rightarrow> (s, Stuck)))"

definition storeRelease :: "ptr \<Rightarrow> Store \<Rightarrow> Store" where
  "storeRelease p s = s\<lparr>heap := Release p (heap s)\<rparr>"

fun fastSelect :: "selectArgs \<Rightarrow> nat \<Rightarrow> Store \<Rightarrow> Store \<times> pick" where
  "fastSelect q 0 s = (s, NoPick)"
| "fastSelect q (Suc n) s =
     (case acquireFast q s of
        (s1, Picked p) \<Rightarrow>
          (case accountHasCachedCooldown (seNow q) p s1 of
             (s2, True) \<Rightarrow> fastSelect q n (storeRelease p s2)
           | (s2, False) \<Rightarrow> (s2, Picked p))
      | r \<Rightarrow> r)"

subsection \<open>Lazy mode\<close>

definition accountLazySelectable :: "time \<Rightarrow> Account \<Rightarrow> bool" where
  "accountLazySelectable now acc =
     (if Disabled acc \<or> DispatchPaused acc then False
      else if Status acc = StatusError then False
      else if healthTierLocked acc = HealthTierBanned then False
      else if usageExhaustedLocked acc then False
      else if Status acc = StatusCooldown \<and> now < CooldownUtil acc then False
      else if premium5hRateLimitedLocked now acc then False
      else if quotaAutoPausedLocked now acc then False
      else if isOpenAIResponsesAPILocked acc then True
      else TrimSpace (AccessToken acc) \<noteq> [] \<or> TrimSpace (RefreshToken acc) \<noteq> [] \<or> TrimSpace (SessionToken acc) \<noteq> [])"

definition lazyNeedsDispatchRefresh :: "time \<Rightarrow> Account \<Rightarrow> bool" where
  "lazyNeedsDispatchRefresh now acc \<longleftrightarrow>
     \<not> isOpenAIResponsesAPILocked acc \<and>
     (TrimSpace (RefreshToken acc) \<noteq> [] \<or> TrimSpace (SessionToken acc) \<noteq> []) \<and> NeedsRefresh now acc"

definition lazyCanRefreshForMetadata :: "Account \<Rightarrow> bool" where
  "lazyCanRefreshForMetadata acc \<longleftrightarrow>
     \<not> isOpenAIResponsesAPILocked acc \<and> AccessToken acc = [] \<and>
     (TrimSpace (RefreshToken acc) \<noteq> [] \<or> TrimSpace (SessionToken acc) \<noteq> []) \<and>
     Status acc \<noteq> StatusError \<and> healthTierLocked acc \<noteq> HealthTierBanned"

text \<open>The refresh itself runs in a goroutine of its own; what stays is that it is in flight.\<close>

definition triggerLazyRefreshAsync :: "Account \<Rightarrow> Store \<Rightarrow> Store" where
  "triggerLazyRefreshAsync acc s =
     (if DBID acc = 0 then s else s\<lparr>lazyRefreshInFlight := insert (DBID acc) (lazyRefreshInFlight s)\<rparr>)"

definition ensureLazyDispatchReady :: "time \<Rightarrow> Account \<Rightarrow> Store \<Rightarrow> Store \<times> bool" where
  "ensureLazyDispatchReady now acc s =
     (if lazyNeedsDispatchRefresh now acc then (triggerLazyRefreshAsync acc s, False)
      else (s, IsAvailable now acc))"

definition acquireLazyCandidate :: "time \<Rightarrow> ptr \<Rightarrow> int \<Rightarrow> Store \<Rightarrow> Store \<times> pick" where
  "acquireLazyCandidate now p base s =
     (case heap s p of
        None \<Rightarrow> (s, NoPick)
      | Some acc \<Rightarrow>
          (case ensureLazyDispatchReady now acc s of
             (s1, False) \<Rightarrow> (s1, NoPick)
           | (s1, True) \<Rightarrow>
               (let a = recomputeSchedulerLocked now base acc; s2 = s1\<lparr>heap := (heap s1)(p \<mapsto> a)\<rparr>
                in if DynamicConcurrencyLimit a \<le> 0 then (s2, NoPick)
                   else takeSlot now p (DynamicConcurrencyLimit a) s2)))"

record lazyScan =
  lzStore :: Store
  lzBest :: candidate
  lzMeta :: "ptr option"

definition lazyScanOne :: "selectArgs \<Rightarrow> nat \<Rightarrow> ptr \<Rightarrow> lazyScan \<Rightarrow> lazyScan" where
  "lazyScanOne q attempt p z =
     (let s = lzStore z
      in case heap s p of
           None \<Rightarrow> z
         | Some acc \<Rightarrow>
             if DBID acc \<in> seExclude q \<or> \<not> accountLazySelectable (seNow q) acc \<or>
                \<not> accountAllowedForAPIKey s (seKey q) acc then z
             else if \<not> passes (seFilter q) acc then
               (if lzMeta z = None \<and> lazyCanRefreshForMetadata acc then z\<lparr>lzMeta := Some p\<rparr> else z)
             else if lazyNeedsDispatchRefresh (seNow q) acc then z\<lparr>lzStore := triggerLazyRefreshAsync acc s\<rparr>
             else let ac = weigh q attempt (maxConcurrency s) p acc (lzBest z)
                  in z\<lparr>lzStore := s\<lparr>heap := (heap s)(p \<mapsto> fst ac)\<rparr>, lzBest := snd ac\<rparr>)"

fun lazySelect :: "selectArgs \<Rightarrow> nat \<Rightarrow> Store \<Rightarrow> Store \<times> pick" where
  "lazySelect q 0 s = (s, NoPick)"
| "lazySelect q (Suc n) s =
     (let z = fold (lazyScanOne q n) (accounts s) \<lparr>lzStore = s, lzBest = noCandidate, lzMeta = None\<rparr>; s1 = lzStore z
      in case cdAcc (lzBest z) of
           None \<Rightarrow>
             (case lzMeta z of
                None \<Rightarrow> (s1, NoPick)
              | Some p \<Rightarrow>
                  (case heap s1 p of
                     None \<Rightarrow> (s1, NoPick)
                   | Some acc \<Rightarrow>
                       (case ensureLazyDispatchReady (seNow q) acc s1 of
                          (s2, True) \<Rightarrow> lazySelect q n s2
                        | (s2, False) \<Rightarrow> (s2, NoPick))))
         | Some p \<Rightarrow>
             (case accountHasCachedCooldown (seNow q) p s1 of
                (s2, True) \<Rightarrow> lazySelect q n s2
              | (s2, False) \<Rightarrow>
                  (case acquireLazyCandidate (seNow q) p (maxConcurrency s) s2 of
                     (s3, Picked p') \<Rightarrow> (s3, Picked p')
                   | (s3, _) \<Rightarrow> lazySelect q n s3)))"

definition NextExcludingWithFilter :: "selectArgs \<Rightarrow> Store \<Rightarrow> Store \<times> pick" where
  "NextExcludingWithFilter q s =
     (if lazyMode s then lazySelect q 16 s
      else case fastSelect q 16 s of
             (s1, NoPick) \<Rightarrow> slowSelect q 16 s1
           | r \<Rightarrow> r)"

subsection \<open>Session affinity\<close>

definition GetAffinityMode :: "Store \<Rightarrow> string" where
  "GetAffinityMode s = (if affinityMode s \<noteq> [] then affinityMode s else ''bounded'')"

definition SetAffinityMode :: "string \<Rightarrow> Store \<Rightarrow> Store" where
  "SetAffinityMode mode s =
     s\<lparr>affinityMode := (if mode \<in> {''bounded'', ''off'', ''strict''} then mode else ''bounded'')\<rparr>"

definition bindSessionAffinity :: "time \<Rightarrow> duration \<Rightarrow> string \<Rightarrow> ptr \<Rightarrow> string \<Rightarrow> Store \<Rightarrow> Store" where
  "bindSessionAffinity now ttl key0 p proxyURL s =
     (let key = TrimSpace key0
      in case heap s p of
           None \<Rightarrow> s
         | Some account \<Rightarrow>
             if key = [] then s
             else
               let fresh = \<lparr>saAccountID = DBID account, saProxyURL = TrimSpace proxyURL, saBoundAt = now,
                            saRequestCount = 0, saExpiresAt = now + ttl\<rparr>;
                   binding = (case sessionBindings s key of
                      Some e \<Rightarrow> if saAccountID e = DBID account
                        then fresh\<lparr>saBoundAt := saBoundAt e, saRequestCount := saRequestCount e\<rparr> else fresh
                    | None \<Rightarrow> fresh)
               in s\<lparr>sessionBindings := (sessionBindings s)(key \<mapsto> binding),
                    tokenCache := map_option (SetSessionAffinity now key
                      \<lparr>bindAccountID = saAccountID binding, bindProxyURL = saProxyURL binding\<rparr> ttl) (tokenCache s)\<rparr>)"

definition dropBinding :: "string \<Rightarrow> int \<Rightarrow> Store \<Rightarrow> Store" where
  "dropBinding key accountID s =
     (case sessionBindings s key of
        Some b \<Rightarrow> if saAccountID b = accountID then s\<lparr>sessionBindings := (sessionBindings s)(key := None)\<rparr> else s
      | None \<Rightarrow> s)"

definition UnbindSessionAffinity :: "string \<Rightarrow> int \<Rightarrow> Store \<Rightarrow> Store" where
  "UnbindSessionAffinity key0 accountID s =
     (let key = TrimSpace key0
      in if accountID = 0 \<or> key = [] then s
         else let s1 = dropBinding key accountID s
              in s1\<lparr>tokenCache := map_option (DeleteSessionAffinity key accountID) (tokenCache s1)\<rparr>)"

definition affinityAccountStillHealthy :: "int \<Rightarrow> Store \<Rightarrow> bool" where
  "affinityAccountStillHealthy accountID s =
     (if accountID = 0 then False
      else case lookupByIDLocked accountID s of
        None \<Rightarrow> False
      | Some p \<Rightarrow>
          (case heap s p of
             None \<Rightarrow> False
           | Some a \<Rightarrow>
               \<not> Disabled a \<and> \<not> DispatchPaused a \<and> Status a \<noteq> StatusError \<and> Status a \<noteq> StatusCooldown \<and>
               healthTierLocked a = HealthTierHealthy))"

definition getCachedSessionAffinity :: "time \<Rightarrow> duration \<Rightarrow> string \<Rightarrow> Store \<Rightarrow> Store \<times> sessionAffinity option" where
  "getCachedSessionAffinity now ttl key s =
     (case tokenCache s of
        None \<Rightarrow> (s, None)
      | Some tc \<Rightarrow>
          (let g = GetSessionAffinity now key tc; s1 = s\<lparr>tokenCache := Some (fst g)\<rparr>
           in case snd g of
                None \<Rightarrow> (s1, None)
              | Some b \<Rightarrow>
                  if bindAccountID b = 0 then (s1, None)
                  else (s1, Some \<lparr>saAccountID = bindAccountID b, saProxyURL = TrimSpace (bindProxyURL b),
                          saBoundAt = 0, saRequestCount = 0, saExpiresAt = now + ttl\<rparr>)))"

definition takeByIDExcluding :: "selectArgs \<Rightarrow> int \<Rightarrow> Store \<Rightarrow> Store \<times> pick" where
  "takeByIDExcluding q i s =
     (if i = 0 \<or> i \<in> seExclude q then (s, NoPick)
      else case lookupByIDLocked i s of
        None \<Rightarrow> (s, NoPick)
      | Some p \<Rightarrow>
          (case heap s p of
             None \<Rightarrow> (s, NoPick)
           | Some acc \<Rightarrow>
               if \<not> (if lazyMode s then accountLazySelectable (seNow q) acc else IsAvailable (seNow q) acc) then (s, NoPick)
               else (case accountHasCachedCooldown (seNow q) p s of
                  (s1, True) \<Rightarrow> (s1, NoPick)
                | (s1, False) \<Rightarrow>
                    if \<not> accountAllowedForAPIKey s1 (seKey q) acc \<or> \<not> passes (seFilter q) acc then (s1, NoPick)
                    else if lazyMode s1 then acquireLazyCandidate (seNow q) p (maxConcurrency s1) s1
                    else let snap = fastSchedulerSnapshot (maxConcurrency s1) (seNow q) acc;
                             s2 = s1\<lparr>heap := (heap s1)(p \<mapsto> fst snap)\<rparr>
                         in if \<not> snAvailable (snd snap) \<or> snLimit (snd snap) \<le> 0 then (s2, NoPick)
                            else takeSlot (seNow q) p (snLimit (snd snap)) s2)))"

definition maxAffinityRequests :: int where "maxAffinityRequests = 50"
definition maxAffinityDuration :: duration where "maxAffinityDuration = 5 * Minute"

definition escapes :: "time \<Rightarrow> string \<Rightarrow> sessionAffinity \<Rightarrow> Store \<Rightarrow> bool" where
  "escapes now mode b s \<longleftrightarrow>
     mode = ''bounded'' \<and>
     (saRequestCount b \<ge> maxAffinityRequests \<or>
      (saBoundAt b \<noteq> 0 \<and> time_Sub now (saBoundAt b) \<ge> maxAffinityDuration) \<or>
      \<not> affinityAccountStillHealthy (saAccountID b) s)"

definition countReuse :: "string \<Rightarrow> int \<Rightarrow> Store \<Rightarrow> Store" where
  "countReuse key accountID s =
     (case sessionBindings s key of
        Some b \<Rightarrow> if saAccountID b = accountID
          then s\<lparr>sessionBindings := (sessionBindings s)(key \<mapsto> b\<lparr>saRequestCount := saRequestCount b + 1\<rparr>)\<rparr> else s
      | None \<Rightarrow> s)"

text \<open>The part that reuses the binding of this process: \<open>Inl\<close> is its result, \<open>Inr\<close> the store with which
  the selection goes on.\<close>

definition useLocalBinding :: "selectArgs \<Rightarrow> string \<Rightarrow> Store \<Rightarrow> (Store \<times> ptr \<times> string) + Store" where
  "useLocalBinding q key s =
     (case sessionBindings s key of
        None \<Rightarrow> Inr s
      | Some b \<Rightarrow>
          if \<not> seNow q < saExpiresAt b \<or> escapes (seNow q) (GetAffinityMode s) b s then Inr (dropBinding key (saAccountID b) s)
          else case takeByIDExcluding q (saAccountID b) s of
            (s1, Picked p) \<Rightarrow> Inl (countReuse key (saAccountID b) s1, p, saProxyURL b)
          | (s1, _) \<Rightarrow> Inr s1)"

definition useCachedBinding :: "selectArgs \<Rightarrow> duration \<Rightarrow> string \<Rightarrow> Store \<Rightarrow> (Store \<times> ptr \<times> string) + Store" where
  "useCachedBinding q ttl key s =
     (case getCachedSessionAffinity (seNow q) ttl key s of
        (s1, None) \<Rightarrow> Inr s1
      | (s1, Some b) \<Rightarrow>
          if GetAffinityMode s1 = ''bounded'' \<and> \<not> affinityAccountStillHealthy (saAccountID b) s1 then Inr s1
          else case takeByIDExcluding q (saAccountID b) s1 of
            (s2, Picked p) \<Rightarrow> Inl (s2\<lparr>sessionBindings := (sessionBindings s2)(key \<mapsto> b)\<rparr>, p, saProxyURL b)
          | (s2, _) \<Rightarrow> Inr s2)"

definition NextForSessionWithFilter :: "selectArgs \<Rightarrow> duration \<Rightarrow> string \<Rightarrow> Store \<Rightarrow> Store \<times> pick \<times> string" where
  "NextForSessionWithFilter q ttl key0 s =
     (let key = TrimSpace key0; plain = (\<lambda>s. let (s', r) = NextExcludingWithFilter q s in (s', r, []))
      in if key = [] \<or> GetAffinityMode s = ''off'' then plain s
         else case useLocalBinding q key s of
           Inl (s', p, proxy) \<Rightarrow> (s', Picked p, proxy)
         | Inr s1 \<Rightarrow>
             (case useCachedBinding q ttl key s1 of
                Inl (s', p, proxy) \<Rightarrow> (s', Picked p, proxy)
              | Inr s2 \<Rightarrow> plain s2))"

subsection \<open>Waiting\<close>

fun hasDispatchCandidate :: "selectArgs \<Rightarrow> ptr list \<Rightarrow> Store \<Rightarrow> Store \<times> bool" where
  "hasDispatchCandidate q [] s = (s, False)"
| "hasDispatchCandidate q (p # ps) s =
     (case heap s p of
        None \<Rightarrow> hasDispatchCandidate q ps s
      | Some acc \<Rightarrow>
          if DBID acc \<in> seExclude q \<or>
             \<not> (if lazyMode s then accountLazySelectable (seNow q) acc else IsAvailable (seNow q) acc)
          then hasDispatchCandidate q ps s
          else case accountHasCachedCooldown (seNow q) p s of
            (s1, True) \<Rightarrow> hasDispatchCandidate q ps s1
          | (s1, False) \<Rightarrow>
              if \<not> accountAllowedForAPIKey s1 (seKey q) acc \<or> \<not> passes (seFilter q) acc
              then hasDispatchCandidate q ps s1
              else let a = recomputeSchedulerLocked (seNow q) (maxConcurrency s1) acc;
                       s2 = s1\<lparr>heap := (heap s1)(p \<mapsto> a)\<rparr>
                   in if DynamicConcurrencyLimit a > 0 then (s2, True) else hasDispatchCandidate q ps s2)"

definition hasDispatchCandidateWithFilter :: "selectArgs \<Rightarrow> Store \<Rightarrow> Store \<times> bool" where
  "hasDispatchCandidateWithFilter q s = hasDispatchCandidate q (accounts s) s"

definition nextBackoff :: "duration \<Rightarrow> duration" where
  "nextBackoff b = (if b < 500 * Millisecond then b * 2 else b)"

text \<open>The rounds of the waiting loop: the instants (with their coins) at which it polls before the
  deadline or the end of the request; other goroutines act on the store between two of them.\<close>

type_synonym round = "(time \<times> (nat \<Rightarrow> ptr \<Rightarrow> nat)) \<times> (Store \<Rightarrow> Store)"

fun waitRounds :: "selectArgs \<Rightarrow> duration \<Rightarrow> string \<Rightarrow> round list \<Rightarrow> Store \<Rightarrow> Store \<times> pick \<times> string" where
  "waitRounds q ttl key [] s = (s, NoPick, [])"
| "waitRounds q ttl key (((now, coin), others) # rs) s =
     (let q' = q\<lparr>seNow := now, seCoin := coin\<rparr>
      in case NextForSessionWithFilter q' ttl key s of
           (s1, NoPick, _) \<Rightarrow>
             (case hasDispatchCandidateWithFilter q' s1 of
                (s2, False) \<Rightarrow> (s2, NoPick, [])
              | (s2, True) \<Rightarrow> waitRounds q ttl key rs (others s2))
         | r \<Rightarrow> r)"

definition WaitForSessionAvailableWithFilter ::
  "selectArgs \<Rightarrow> duration \<Rightarrow> string \<Rightarrow> round list \<Rightarrow> Store \<Rightarrow> Store \<times> pick \<times> string" where
  "WaitForSessionAvailableWithFilter q ttl key rs s =
     (case hasDispatchCandidateWithFilter q s of
        (s1, False) \<Rightarrow> (s1, NoPick, [])
      | (s1, True) \<Rightarrow> waitRounds q ttl key rs s1)"

subsection \<open>Model cooldowns as a filter\<close>

text \<open>The filter as a function of the account, with the cache that it reads. That it also copies the record
  it finds into the account is \<open>accountHasCachedModelCooldown\<close> of theory \<open>Store\<close>; a filter is a
  predicate here, and the copy changes no answer, since the record still is in the cache.\<close>

definition modelCooldownFilter :: "time \<Rightarrow> Store \<Rightarrow> string \<Rightarrow> AccountFilter \<Rightarrow> AccountFilter" where
  "modelCooldownFilter now s model filt =
     (let key = normalizeModelCooldownKey model
      in if key = [] then filt
         else Some (\<lambda>acc. passes filt acc \<and> \<not> IsModelRateLimited now key acc \<and>
                snd (getCachedModelCooldown now (DBID acc) key s) = None))"

subsection \<open>Retries of one request\<close>

record retryAccountExclusions =
  hard :: "int set"
  soft :: "int set"

definition newRetryAccountExclusions :: retryAccountExclusions where
  "newRetryAccountExclusions = \<lparr>hard = {}, soft = {}\<rparr>"

definition MarkHard :: "int \<Rightarrow> retryAccountExclusions \<Rightarrow> retryAccountExclusions" where
  "MarkHard accountID r =
     (if accountID = 0 then r else r\<lparr>hard := insert accountID (hard r), soft := soft r - {accountID}\<rparr>)"

definition MarkSoftFirstTokenTimeout :: "int \<Rightarrow> retryAccountExclusions \<Rightarrow> retryAccountExclusions" where
  "MarkSoftFirstTokenTimeout accountID r =
     (if accountID = 0 \<or> accountID \<in> hard r then r else r\<lparr>soft := insert accountID (soft r)\<rparr>)"

definition ResetSoft :: "retryAccountExclusions \<Rightarrow> retryAccountExclusions \<times> bool" where
  "ResetSoft r = (if soft r = {} then (r, False) else (r\<lparr>soft := {}\<rparr>, True))"

definition ForSelection :: "retryAccountExclusions \<Rightarrow> int set" where
  "ForSelection r = hard r \<union> soft r"

text \<open>\<open>rounds k\<close> is what happens in the \<open>k\<close>-th pass: the instant and the coins of the first selection and
  the rounds of the wait. A pass that is not the last empties the soft exclusions.\<close>

function nextRetryAccountForSession ::
  "selectArgs \<Rightarrow> duration \<Rightarrow> string \<Rightarrow> (nat \<Rightarrow> (time \<times> (nat \<Rightarrow> ptr \<Rightarrow> nat)) \<times> round list) \<Rightarrow> nat \<Rightarrow>
   retryAccountExclusions \<Rightarrow> Store \<Rightarrow> Store \<times> pick \<times> string \<times> retryAccountExclusions" where
  "nextRetryAccountForSession q ttl key rounds k r s =
     (let ((now, coin), rs) = rounds k; q' = q\<lparr>seNow := now, seCoin := coin, seExclude := ForSelection r\<rparr>
      in case NextForSessionWithFilter q' ttl key s of
           (s1, NoPick, _) \<Rightarrow>
             (case WaitForSessionAvailableWithFilter q' ttl key rs s1 of
                (s2, NoPick, _) \<Rightarrow>
                  (if snd (ResetSoft r)
                   then nextRetryAccountForSession q ttl key rounds (Suc k) (fst (ResetSoft r)) s2
                   else (s2, NoPick, [], r))
              | (s2, pk, proxy) \<Rightarrow> (s2, pk, proxy, r))
         | (s1, pk, proxy) \<Rightarrow> (s1, pk, proxy, r))"
  by pat_completeness auto

termination
  by (relation "measure (\<lambda>(q, ttl, key, rounds, k, r, s). if soft r = {} then 0 else 1)")
    (auto simp: ResetSoft_def split: if_splits)

end
