(* ===== verification/Upstream.thy ===== *)
theory Upstream
  imports Gjson Selection
begin

section \<open>Errors of the upstream and what they do to an account\<close>

text \<open>
  Models \<open>proxy/errors.go\<close> and the part of \<open>proxy/handler.go\<close> that judges the outcome of a request to the
  upstream: the classes of transport and HTTP failures, the retry budgets, the reading of a rate-limit
  answer (\<open>classify429RateLimit\<close>) and the cooldown that it puts on the account or on one of its models.

  A Go error is a value of type \<open>goError\<close>: one of the program's own \<open>Error\<close> values, an error that wraps
  another one with a longer text, or a plain text. An HTTP response is its status, its headers (the
  empty string where a header is missing) and its body. The argument \<open>g\<close> is the JSON reader of theory
  \<open>Gjson\<close> and \<open>scanFloat\<close> is \<open>fmt.Sscanf\<close> with the format of a float.
\<close>

subsection \<open>Structured errors\<close>

record Error =
  eCode :: string
  eMessage :: string
  eType :: string
  eRetryable :: bool
  eHTTPStatus :: int

datatype goError = Plain string | Wrap string goError | Structured Error "goError option"

fun errText :: "goError \<Rightarrow> string" where
  "errText (Plain m) = m"
| "errText (Wrap m e) = m"
| "errText (Structured e None) = eCode e @ '': '' @ eMessage e"
| "errText (Structured e (Some c)) = eCode e @ '': '' @ eMessage e @ '' (caused by: '' @ errText c @ '')''"

fun Unwrap :: "goError \<Rightarrow> goError option" where
  "Unwrap (Plain m) = None"
| "Unwrap (Wrap m e) = Some e"
| "Unwrap (Structured e c) = c"

text \<open>\<open>errors.As\<close> with the type of the program's errors.\<close>

fun errorsAs :: "goError \<Rightarrow> Error option" where
  "errorsAs (Plain m) = None"
| "errorsAs (Wrap m e) = errorsAs e"
| "errorsAs (Structured e c) = Some e"

definition mkError :: "string \<Rightarrow> string \<Rightarrow> string \<Rightarrow> bool \<Rightarrow> int \<Rightarrow> Error" where
  "mkError code message typ retryable status =
     \<lparr>eCode = code, eMessage = message, eType = typ, eRetryable = retryable, eHTTPStatus = status\<rparr>"

definition orDefault :: "string \<Rightarrow> string \<Rightarrow> string" where
  "orDefault message fallback = (if message = [] then fallback else message)"

definition ErrMissingAPIKey :: goError where
  "ErrMissingAPIKey = Structured (mkError ''missing_api_key'' ''Missing Authorization header'' ''authentication_error'' False 401) None"

definition ErrInvalidAPIKey :: goError where
  "ErrInvalidAPIKey = Structured (mkError ''invalid_api_key'' ''Invalid API Key'' ''authentication_error'' False 401) None"

definition ErrRateLimited :: "string \<Rightarrow> goError" where
  "ErrRateLimited message =
     Structured (mkError ''rate_limited'' (orDefault message ''Rate limit exceeded'') ''rate_limit_error'' True 429) None"

definition ErrAccountPoolUsageLimit :: "string \<Rightarrow> string \<Rightarrow> int \<Rightarrow> int \<Rightarrow> goError" where
  "ErrAccountPoolUsageLimit message planType resetsAt resetsInSeconds =
     (let m0 = orDefault message ''Account pool quota exhausted, please retry later'';
          m1 = (if planType \<noteq> [] then m0 @ '' (plan: '' @ planType @ '')'' else m0);
          m2 = (if resetsInSeconds > 0 then m1 @ '', resets in '' @ showInt resetsInSeconds @ '' seconds'' else m1)
      in Structured (mkError ''account_pool_usage_limit_reached'' m2 ''server_error'' True 503) None)"

definition ErrUpstream :: "int \<Rightarrow> string \<Rightarrow> goError option \<Rightarrow> goError" where
  "ErrUpstream statusCode message cause =
     Structured (mkError ''upstream_error''
       (orDefault message (''Upstream request failed (status '' @ showInt statusCode @ '')''))
       ''upstream_error'' (statusCode \<in> {429, 503, 500}) statusCode) cause"

definition ErrUpstreamTimeout :: "goError option \<Rightarrow> goError" where
  "ErrUpstreamTimeout cause =
     Structured (mkError ''upstream_timeout'' ''Upstream request timeout'' ''upstream_error'' True 504) cause"

definition ErrUpstreamStreamBreak :: "string \<Rightarrow> goError" where
  "ErrUpstreamStreamBreak message =
     Structured (mkError ''upstream_stream_break'' (orDefault message ''Upstream stream ended prematurely'')
       ''upstream_error'' True 502) None"

definition ErrNoAvailableAccount :: goError where
  "ErrNoAvailableAccount =
     Structured (mkError ''no_available_account'' ''No available account, please retry later'' ''server_error'' True 503) None"

definition ErrInternalError :: "string \<Rightarrow> goError option \<Rightarrow> goError" where
  "ErrInternalError message cause =
     Structured (mkError ''internal_error'' (orDefault message ''Internal server error'') ''server_error'' False 500) cause"

definition ErrBadRequest :: "string \<Rightarrow> goError" where
  "ErrBadRequest message =
     Structured (mkError ''bad_request'' (orDefault message ''Invalid request'') ''invalid_request_error'' False 400) None"

definition ErrMissingModel :: goError where
  "ErrMissingModel = Structured (mkError ''missing_model'' ''model is required'' ''invalid_request_error'' False 400) None"

definition IsRetryableError :: "goError option \<Rightarrow> bool" where
  "IsRetryableError err =
     (case err of
        None \<Rightarrow> False
      | Some x \<Rightarrow> (case errorsAs x of Some e \<Rightarrow> eRetryable e | None \<Rightarrow> False))"

definition StatusCodeFromError :: "goError option \<Rightarrow> int" where
  "StatusCodeFromError err =
     (case err of
        None \<Rightarrow> 200
      | Some x \<Rightarrow> (case errorsAs x of Some e \<Rightarrow> eHTTPStatus e | None \<Rightarrow> 500))"

subsection \<open>Replies\<close>

record usageLimitDetails =
  ulMessage :: string
  ulPlanType :: string
  ulResetsAt :: int
  ulResetsInSeconds :: int

text \<open>What the client gets: an error with status, message, type and code; the answer that no account is
  available for a model; the error of the upstream with its status and body; the answer that the quota of
  the pool is used up; or the response of the upstream.\<close>

datatype reply =
    ErrorReply int string string string
  | NoAccountReply string
  | UpstreamReply int string
  | UsageLimitReply usageLimitDetails
  | PassedThrough nat

fun replyStatus :: "reply \<Rightarrow> int" where
  "replyStatus (ErrorReply status m t c) = status"
| "replyStatus (NoAccountReply model) = 503"
| "replyStatus (UpstreamReply status body) = status"
| "replyStatus (UsageLimitReply d) = 503"
| "replyStatus (PassedThrough n) = 200"

definition ErrorToGinResponse :: "goError \<Rightarrow> reply" where
  "ErrorToGinResponse err =
     (case errorsAs err of
        Some e \<Rightarrow> ErrorReply (eHTTPStatus e) (eMessage e) (eType e) (eCode e)
      | None \<Rightarrow> ErrorReply 500 (errText err) ''server_error'' ''internal_error'')"

subsection \<open>Classes of failures\<close>

definition isWebsocketMessageTooBigError :: "goError option \<Rightarrow> bool" where
  "isWebsocketMessageTooBigError err =
     (case err of
        None \<Rightarrow> False
      | Some e \<Rightarrow> let msg = ToLower (errText e) in Contains msg ''message too big'' \<or> Contains msg ''close 1009'')"

definition classifyTransportFailure :: "goError option \<Rightarrow> string" where
  "classifyTransportFailure err =
     (case err of
        None \<Rightarrow> []
      | Some e \<Rightarrow>
          if isWebsocketMessageTooBigError err then ''message_too_big''
          else let msg = ToLower (errText e)
               in if Contains msg ''timeout'' \<or> Contains msg ''deadline exceeded'' then ''timeout'' else ''transport'')"

definition classifyHTTPFailure :: "int \<Rightarrow> string" where
  "classifyHTTPFailure statusCode =
     (if statusCode = 401 then ''unauthorized''
      else if statusCode = 429 then []
      else if statusCode \<ge> 500 then ''server''
      else if statusCode \<ge> 400 then ''client''
      else [])"

definition isRetryableStatus :: "int \<Rightarrow> bool" where
  "isRetryableStatus code \<longleftrightarrow> code = 503 \<or> code = 401 \<or> code = 500"

text \<open>The retry budgets: the answer and the counters after it.\<close>

definition shouldRetryHTTPStatus :: "int \<Rightarrow> int \<Rightarrow> int \<Rightarrow> int \<Rightarrow> int \<Rightarrow> bool \<times> int \<times> int" where
  "shouldRetryHTTPStatus statusCode generalRetries rateLimitRetries maxGeneralRetries maxRateLimitRetries =
     (if statusCode = 429
      then if rateLimitRetries \<ge> maxRateLimitRetries then (False, generalRetries, rateLimitRetries)
           else (True, generalRetries, rateLimitRetries + 1)
      else if \<not> isRetryableStatus statusCode then (False, generalRetries, rateLimitRetries)
      else if generalRetries \<ge> maxGeneralRetries then (False, generalRetries, rateLimitRetries)
      else (True, generalRetries + 1, rateLimitRetries))"

definition shouldRetryRequestError :: "goError option \<Rightarrow> int \<Rightarrow> int \<Rightarrow> bool \<times> int" where
  "shouldRetryRequestError err generalRetries maxGeneralRetries =
     (if err = None \<or> generalRetries \<ge> maxGeneralRetries then (False, generalRetries)
      else if IsRetryableError err \<or> classifyTransportFailure err \<noteq> [] then (True, generalRetries + 1)
      else (False, generalRetries))"

subsection \<open>Reading the error body\<close>

definition firstGJSONString :: "'r gjson \<Rightarrow> string \<Rightarrow> string list \<Rightarrow> string" where
  "firstGJSONString g body paths =
     (case filter (\<lambda>v. v \<noteq> []) (map (\<lambda>path. TrimSpace (strAt g body path)) paths) of [] \<Rightarrow> [] | v # _ \<Rightarrow> v)"

definition firstGJSONInt :: "'r gjson \<Rightarrow> string \<Rightarrow> string list \<Rightarrow> int" where
  "firstGJSONInt g body paths =
     (case filter (\<lambda>path. gjExists g (GetBytes g body path)) paths of [] \<Rightarrow> 0 | path # _ \<Rightarrow> intAt g body path)"

definition IsUsageLimitReachedError :: "'r gjson \<Rightarrow> string \<Rightarrow> bool" where
  "IsUsageLimitReachedError g body \<longleftrightarrow>
     EqualFold (firstGJSONString g body [''error.type'', ''response.error.type'', ''response.status_details.error.type''])
       ''usage_limit_reached''"

definition parseUsageLimitDetails :: "'r gjson \<Rightarrow> string \<Rightarrow> usageLimitDetails option" where
  "parseUsageLimitDetails g body =
     (if body = [] \<or> \<not> IsUsageLimitReachedError g body then None
      else Some
        \<lparr>ulMessage = firstGJSONString g body [''error.message'', ''response.error.message'', ''response.status_details.error.message''],
         ulPlanType = firstGJSONString g body [''error.plan_type'', ''response.error.plan_type'', ''response.status_details.error.plan_type''],
         ulResetsAt = firstGJSONInt g body [''error.resets_at'', ''response.error.resets_at'', ''response.status_details.error.resets_at''],
         ulResetsInSeconds = firstGJSONInt g body
           [''error.resets_in_seconds'', ''response.error.resets_in_seconds'', ''response.status_details.error.resets_in_seconds'']\<rparr>)"

definition IsDeactivatedWorkspaceError :: "'r gjson \<Rightarrow> string \<Rightarrow> bool" where
  "IsDeactivatedWorkspaceError g body \<longleftrightarrow>
     list_ex (\<lambda>path. ToLower (TrimSpace (strAt g body path)) = ''deactivated_workspace'') [''detail.code'', ''error.code'', ''code''] \<or>
     Contains (ToLower body) ''deactivated_workspace''"

definition isMissingScopeUnauthorized :: "'r gjson \<Rightarrow> string \<Rightarrow> bool" where
  "isMissingScopeUnauthorized g body =
     (if body = [] then False
      else if ToLower (TrimSpace (strAt g body ''error.code'')) \<noteq> ''missing_scope'' then False
      else let msg = ToLower (strAt g body ''error.message'')
           in if Contains msg ''api.responses.write'' then True else Contains msg ''scope'')"

definition parseRetryAfterResetAt :: "'r gjson \<Rightarrow> string \<Rightarrow> time \<Rightarrow> time option" where
  "parseRetryAfterResetAt g body now =
     (if body = [] then None
      else let resetsAt = firstGJSONInt g body [''error.resets_at'', ''response.error.resets_at'', ''response.status_details.error.resets_at''];
               secs = firstGJSONInt g body
                 [''error.resets_in_seconds'', ''response.error.resets_in_seconds'', ''response.status_details.error.resets_in_seconds'']
           in if resetsAt > 0 \<and> resetsAt * Second > now then Some (resetsAt * Second)
              else if secs > 0 then Some (now + wrap64 (secs * Second))
              else None)"

definition parseUsageLimitResetAt :: "'r gjson \<Rightarrow> string \<Rightarrow> time \<Rightarrow> time option" where
  "parseUsageLimitResetAt g body now =
     (if \<not> IsUsageLimitReachedError g body then None else parseRetryAfterResetAt g body now)"

definition isCodexModelCapacityError :: "'r gjson \<Rightarrow> string \<Rightarrow> bool" where
  "isCodexModelCapacityError g body =
     (body \<noteq> [] \<and>
      list_ex (\<lambda>candidate. let lower = ToLower (TrimSpace candidate)
                 in lower \<noteq> [] \<and> (Contains lower ''selected model is at capacity'' \<or>
                      Contains lower ''model is at capacity. please try a different model''))
        [strAt g body ''error.message'', strAt g body ''message'', body])"

subsection \<open>Rate-limit windows in the headers\<close>

record upstreamResponse =
  StatusCode :: int
  Header :: "string \<Rightarrow> string"
  Body :: string

datatype codexRateLimitWindow =
  codexRateLimitWindowUnknown | codexRateLimitWindowShort | codexRateLimitWindow5h | codexRateLimitWindow7d

definition codexWindowType :: "float64 \<Rightarrow> codexRateLimitWindow" where
  "codexWindowType windowMinutes =
     (if windowMinutes \<ge> 1440 then codexRateLimitWindow7d
      else if windowMinutes \<ge> 60 then codexRateLimitWindow5h
      else if windowMinutes > 0 then codexRateLimitWindowShort
      else codexRateLimitWindowUnknown)"

record codexWindowUsage =
  usedPct :: float64
  resetSec :: float64
  windowMin :: float64

definition parseFloat :: "(string \<Rightarrow> float64) \<Rightarrow> string \<Rightarrow> float64" where
  "parseFloat scanFloat s = (if s = [] then 0 else scanFloat s)"

text \<open>\<open>None\<close> is a value that is not valid.\<close>

definition parseCodexWindowUsage :: "(string \<Rightarrow> float64) \<Rightarrow> string \<Rightarrow> string \<Rightarrow> string \<Rightarrow> codexWindowUsage option" where
  "parseCodexWindowUsage scanFloat usedStr windowStr resetStr =
     (if usedStr = [] then None
      else Some \<lparr>usedPct = parseFloat scanFloat usedStr, resetSec = parseFloat scanFloat resetStr,
                 windowMin = parseFloat scanFloat windowStr\<rparr>)"

definition primaryWindow :: "(string \<Rightarrow> float64) \<Rightarrow> upstreamResponse \<Rightarrow> codexWindowUsage option" where
  "primaryWindow scanFloat resp =
     parseCodexWindowUsage scanFloat (Header resp ''x-codex-primary-used-percent'')
       (Header resp ''x-codex-primary-window-minutes'') (Header resp ''x-codex-primary-reset-after-seconds'')"

definition secondaryWindow :: "(string \<Rightarrow> float64) \<Rightarrow> upstreamResponse \<Rightarrow> codexWindowUsage option" where
  "secondaryWindow scanFloat resp =
     parseCodexWindowUsage scanFloat (Header resp ''x-codex-secondary-used-percent'')
       (Header resp ''x-codex-secondary-window-minutes'') (Header resp ''x-codex-secondary-reset-after-seconds'')"

text \<open>The conversion of a float to a number of seconds rounds towards zero.\<close>

definition truncSeconds :: "float64 \<Rightarrow> duration" where
  "truncSeconds x = wrap64 ((if x \<ge> 0 then \<lfloor>x\<rfloor> else \<lceil>x\<rceil>) * Second)"

definition exhaustedWindows :: "(string \<Rightarrow> float64) \<Rightarrow> upstreamResponse \<Rightarrow> codexWindowUsage list" where
  "exhaustedWindows scanFloat resp =
     filter (\<lambda>w. usedPct w \<ge> 100) (List.map_filter id [primaryWindow scanFloat resp, secondaryWindow scanFloat resp])"

definition classifyCodex429Window ::
  "(string \<Rightarrow> float64) \<Rightarrow> upstreamResponse option \<Rightarrow> time \<Rightarrow> codexRateLimitWindow \<times> time option" where
  "classifyCodex429Window scanFloat resp now =
     (case resp of
        None \<Rightarrow> (codexRateLimitWindowUnknown, None)
      | Some rp \<Rightarrow>
          (case exhaustedWindows scanFloat rp of
             [] \<Rightarrow> (codexRateLimitWindowUnknown, None)
           | w # ws \<Rightarrow>
               let chosen = fold (\<lambda>candidate chosen. if windowMin candidate > windowMin chosen then candidate else chosen) ws w
               in (codexWindowType (windowMin chosen),
                   if resetSec chosen > 0 then Some (now + truncSeconds (resetSec chosen)) else None)))"

definition responseHasCodex5hHeaders :: "(string \<Rightarrow> float64) \<Rightarrow> upstreamResponse option \<Rightarrow> bool" where
  "responseHasCodex5hHeaders scanFloat resp =
     (case resp of
        None \<Rightarrow> False
      | Some rp \<Rightarrow>
          list_ex (\<lambda>w. codexWindowType (windowMin w) = codexRateLimitWindow5h)
            (List.map_filter id [primaryWindow scanFloat rp, secondaryWindow scanFloat rp]))"

subsection \<open>The decision on a rate limit\<close>

datatype rateLimitScope = rateLimitScopeNone | rateLimitScopeAccount | rateLimitScopeModel

record codex429Decision =
  dScope :: rateLimitScope
  dReason :: string
  dModel :: string
  dResetAt :: time
  dCooldown :: duration

definition noDecision :: codex429Decision where
  "noDecision = \<lparr>dScope = rateLimitScopeNone, dReason = [], dModel = [], dResetAt = 0, dCooldown = 0\<rparr>"

definition accountDecision :: "string \<Rightarrow> time \<Rightarrow> duration \<Rightarrow> codex429Decision" where
  "accountDecision reason resetAt cooldown =
     \<lparr>dScope = rateLimitScopeAccount, dReason = reason, dModel = [], dResetAt = resetAt, dCooldown = cooldown\<rparr>"

definition usageLimitFallbackCooldown :: "'r gjson \<Rightarrow> Account option \<Rightarrow> string \<Rightarrow> duration" where
  "usageLimitFallbackCooldown g account body =
     (let p0 = (case parseUsageLimitDetails g body of Some d \<Rightarrow> ulPlanType d | None \<Rightarrow> []);
          planType = (if p0 = [] then (case account of Some a \<Rightarrow> PlanType a | None \<Rightarrow> []) else p0)
      in if NormalizePlanType planType = ''free'' then 7 * 24 * Hour else 5 * Hour)"

text \<open>The decision that the window headers give, if they give one.\<close>

definition windowDecision :: "codexRateLimitWindow \<times> time option \<Rightarrow> time \<Rightarrow> codex429Decision option" where
  "windowDecision w now =
     (case fst w of
        codexRateLimitWindow5h \<Rightarrow>
          let resetAt = (case snd w of Some t \<Rightarrow> t | None \<Rightarrow> now + 5 * Hour)
          in Some (accountDecision ''rate_limited_5h'' resetAt (time_Sub resetAt now))
      | codexRateLimitWindow7d \<Rightarrow>
          let resetAt = (case snd w of Some t \<Rightarrow> t | None \<Rightarrow> now + 7 * 24 * Hour)
          in Some (accountDecision ''rate_limited_7d'' resetAt (time_Sub resetAt now))
      | _ \<Rightarrow> None)"

definition classify429RateLimit ::
  "'r gjson \<Rightarrow> (string \<Rightarrow> float64) \<Rightarrow> Account option \<Rightarrow> string \<Rightarrow> upstreamResponse option \<Rightarrow> time \<Rightarrow> string \<Rightarrow> codex429Decision" where
  "classify429RateLimit g scanFloat account body resp now model0 =
     (let byWindow = windowDecision (classifyCodex429Window scanFloat resp now) now
      in if IsUsageLimitReachedError g body then
           (case parseUsageLimitResetAt g body now of
              Some resetAt \<Rightarrow>
                let premium = (case account of Some a \<Rightarrow> isPremium5hPlan (PlanType a) | None \<Rightarrow> False);
                    reason = (if premium \<and> responseHasCodex5hHeaders scanFloat resp then ''rate_limited_5h'' else ''usage_limit'')
                in accountDecision reason resetAt (time_Sub resetAt now)
            | None \<Rightarrow>
                (case byWindow of
                   Some d \<Rightarrow> d
                 | None \<Rightarrow>
                     let cooldown = usageLimitFallbackCooldown g account body
                     in accountDecision ''usage_limit'' (now + cooldown) cooldown))
         else
           (case byWindow of
              Some d \<Rightarrow> d
            | None \<Rightarrow>
                let model = TrimSpace model0
                in if model \<noteq> []
                   then \<lparr>dScope = rateLimitScopeModel,
                         dReason = (if isCodexModelCapacityError g body then ''model_capacity'' else ''rate_limited_model''),
                         dModel = model, dResetAt = 0, dCooldown = 5 * Minute\<rparr>
                   else accountDecision ''rate_limited'' (now + 5 * Minute) (5 * Minute)))"

definition upstreamErrorKind :: "'r gjson \<Rightarrow> int \<Rightarrow> string \<Rightarrow> codex429Decision \<Rightarrow> string" where
  "upstreamErrorKind g statusCode body decision =
     (if IsUsageLimitReachedError g body then (if dReason decision \<noteq> [] then dReason decision else ''usage_limit'')
      else if statusCode = 429 then (if dReason decision \<noteq> [] then dReason decision else ''rate_limited'')
      else if statusCode = 401 then ''unauthorized''
      else if statusCode = 402 \<or> statusCode = 403
      then if IsDeactivatedWorkspaceError g body then ''deactivated_workspace'' else ''payment_required''
      else if statusCode \<in> {503, 500, 502, 504} then ''server''
      else if statusCode \<ge> 400 then ''client''
      else [])"

subsection \<open>Applying it to the account\<close>

definition ApplyUsageLimitMetadata :: "time \<Rightarrow> ptr \<Rightarrow> string \<Rightarrow> time \<Rightarrow> Store \<Rightarrow> Store" where
  "ApplyUsageLimitMetadata now p planType resetAt s =
     onAccount now p (ApplyUsageLimitMetadataAccount now (maxConcurrency s) planType resetAt) (\<lambda>_ s. s) s"

definition Apply429Cooldown ::
  "'r gjson \<Rightarrow> (string \<Rightarrow> float64) \<Rightarrow> time \<Rightarrow> ptr \<Rightarrow> string \<Rightarrow> upstreamResponse option \<Rightarrow> string \<Rightarrow> Store \<Rightarrow>
   Store \<times> codex429Decision" where
  "Apply429Cooldown g scanFloat now p body resp model s =
     (let decision = classify429RateLimit g scanFloat (heap s p) body resp now model
      in if heap s p = None then (s, decision)
         else
           let s1 = (case parseUsageLimitDetails g body of
                       Some d \<Rightarrow> ApplyUsageLimitMetadata now p (ulPlanType d) (dResetAt decision) s
                     | None \<Rightarrow> s)
           in if dScope decision = rateLimitScopeModel
              then let cooldown = snd (MarkModelCooldownAccount now (maxConcurrency s1) (dModel decision) (dCooldown decision)
                                         (dReason decision) (the (heap s1 p)))
                   in (MarkModelCooldown now p (dModel decision) (dCooldown decision) (dReason decision) s1,
                       decision\<lparr>dResetAt := mcResetAt cooldown, dCooldown := time_Sub (mcResetAt cooldown) now\<rparr>)
              else if isPremium5hPlan (PlanType (the (heap s1 p))) \<and> dScope decision = rateLimitScopeAccount \<and>
                      dReason decision = ''rate_limited_5h''
              then (MarkPremium5hRateLimited now p (dResetAt decision) s1, decision)
              else (markCooldown now p (dCooldown decision) ''rate_limited'' [] s1, decision))"

text \<open>\<open>autoClean\<close> is \<open>GetAutoCleanUnauthorized()\<close>, \<open>errorText\<close> is the text of \<open>upstreamAccountErrorMessage\<close>.\<close>

definition setDisabled :: "bool \<Rightarrow> ptr \<Rightarrow> Store \<Rightarrow> Store" where
  "setDisabled b p = updAccount p (\<lambda>a. a\<lparr>Disabled := b\<rparr>)"

definition applyCooldownForModel ::
  "'r gjson \<Rightarrow> (string \<Rightarrow> float64) \<Rightarrow> bool \<Rightarrow> string \<Rightarrow> time \<Rightarrow> ptr \<Rightarrow> int \<Rightarrow> string \<Rightarrow> upstreamResponse option \<Rightarrow> string \<Rightarrow> Store \<Rightarrow>
   Store \<times> codex429Decision" where
  "applyCooldownForModel g scanFloat autoClean errorText now p statusCode body resp model s =
     (if IsUsageLimitReachedError g body then Apply429Cooldown g scanFloat now p body resp model s
      else if statusCode = 429 then Apply429Cooldown g scanFloat now p body resp model s
      else if statusCode = 401 then
        (let s1 = setDisabled True p s
         in if isMissingScopeUnauthorized g body then (setDisabled False p s1, noDecision)
            else if autoClean then (case heap s1 p of None \<Rightarrow> (s1, noDecision) | Some a \<Rightarrow> (RemoveAccount (DBID a) s1, noDecision))
            else (markCooldown now p (5 * Minute) ''unauthorized'' [] s1, noDecision))
      else if statusCode = 402 \<or> statusCode = 403 then
        (if IsDeactivatedWorkspaceError g body then (MarkError now p [] errorText s, noDecision)
         else (markCooldown now p (30 * Minute) ''payment_required'' [] s, noDecision))
      else (s, noDecision))"

definition sendFinalUpstreamError :: "'r gjson \<Rightarrow> int \<Rightarrow> string \<Rightarrow> reply" where
  "sendFinalUpstreamError g statusCode body =
     (case parseUsageLimitDetails g body of
        Some d \<Rightarrow> UsageLimitReply d
      | None \<Rightarrow> UpstreamReply statusCode body)"

end
