(* ===== verification/SelectionSafety.thy ===== *)
theory SelectionSafety
  imports Selection
begin

section \<open>What a selection may return\<close>

text \<open>
  The invariant of the store (its index and its scheduler agree with the accounts on the heap, and
  the scheduler has a group check), that every path of a selection keeps it, and that a selection
  returns only accounts that the request may use: not excluded, and open to the API key by the
  account's own list and by the groups of the key.
\<close>

subsection \<open>The invariant of the store\<close>

text \<open>The scheduler agrees with the accounts on the heap and has a group check; the accounts in the list
  are allocated and have different IDs, and the index, if there is one, is exact.\<close>

definition accountIDs :: "Store \<Rightarrow> int option list" where
  "accountIDs s = map (\<lambda>p. map_option DBID (heap s p)) (accounts s)"

definition indexed :: "account_heap \<Rightarrow> ptr list \<Rightarrow> (int \<rightharpoonup> ptr) \<Rightarrow> bool" where
  "indexed h ps idx \<longleftrightarrow> (\<forall>i p. idx i = Some p \<longleftrightarrow> p \<in> set ps \<and> map_option DBID (h p) = Some i)"

definition store_ok :: "Store \<Rightarrow> bool" where
  "store_ok s \<longleftrightarrow>
     (\<forall>f. fastScheduler s = Some f \<longrightarrow> fs_wf (heap s) f \<and> fsGroupCheck f \<noteq> None) \<and>
     distinct (accountIDs s) \<and> None \<notin> set (accountIDs s) \<and>
     (\<forall>idx. accountsByID s = Some idx \<longrightarrow> indexed (heap s) (accounts s) idx)"

lemma keeps_ids_eq: "keeps_ids h h' \<Longrightarrow> h p \<noteq> None \<Longrightarrow> map_option DBID (h' p) = map_option DBID (h p)"
  unfolding keeps_ids_def by force

lemma indexed_keeps:
  assumes "indexed h ps idx" "keeps_ids h h'" "\<And>p. p \<in> set ps \<Longrightarrow> h p \<noteq> None"
  shows "indexed h' ps idx"
  using assms keeps_ids_eq [OF assms(2)] unfolding indexed_def by metis

lemma store_ok_allocated: "store_ok s \<Longrightarrow> p \<in> set (accounts s) \<Longrightarrow> heap s p \<noteq> None"
  unfolding store_ok_def accountIDs_def by force

lemma store_ok_transfer:
  assumes "store_ok s" "keeps_ids (heap s) (heap s')" "accounts s' = accounts s" "accountsByID s' = accountsByID s"
    and "\<And>f. fastScheduler s' = Some f \<Longrightarrow> fs_wf (heap s') f \<and> fsGroupCheck f \<noteq> None"
  shows "store_ok s'"
proof -
  note al = store_ok_allocated [OF assms(1)]
  have "accountIDs s' = accountIDs s" using keeps_ids_eq [OF assms(2)] al assms(3) by (simp add: accountIDs_def)
  then show ?thesis
    using assms indexed_keeps [OF _ assms(2), of "accounts s"] al unfolding store_ok_def by simp
qed

lemma store_ok_fs: "store_ok s \<Longrightarrow> fastScheduler s = Some f \<Longrightarrow> fs_wf (heap s) f \<and> fsGroupCheck f \<noteq> None"
  by (simp add: store_ok_def)

lemma fs_wf_keeps: "fs_wf h f \<Longrightarrow> keeps_ids h h' \<Longrightarrow> fs_wf h' f"
  by (erule fs_wf_mono) (simp add: keeps_ids_def)

lemma store_ok_heap:
  assumes "store_ok s" "keeps_ids (heap s) (heap s')" "accounts s' = accounts s" "accountsByID s' = accountsByID s"
    "fastScheduler s' = fastScheduler s"
  shows "store_ok s'"
  using assms fs_wf_keeps store_ok_fs by (intro store_ok_transfer [OF assms(1-4)]) metis

lemma store_ok_upd:
  "store_ok s \<Longrightarrow> heap s p = Some a \<Longrightarrow> DBID a' = DBID a \<Longrightarrow> store_ok (s\<lparr>heap := (heap s)(p \<mapsto> a')\<rparr>)"
  by (rule store_ok_heap) (simp_all add: keeps_ids_upd)

lemma updAccount_ok:
  assumes "store_ok s" "\<And>a. DBID (f a) = DBID a"
  shows "store_ok (updAccount p f s)"
  by (rule store_ok_heap [OF assms(1)]) (auto simp: updAccount_def keeps_ids_def assms(2))

lemma fs_wf_check [simp]: "fs_wf h (f\<lparr>fsGroupCheck := g\<rparr>) = fs_wf h f"
  by (simp add: fs_wf_def exact_on_def tagged_def)

lemma getFastScheduler_wf: "store_ok s \<Longrightarrow> getFastScheduler s = Some f \<Longrightarrow> fs_wf (heap s) f"
  by (auto simp: getFastScheduler_def dest: store_ok_fs split: if_splits)

lemma getFastScheduler_check: "store_ok s \<Longrightarrow> getFastScheduler s = Some f \<Longrightarrow> fsGroupCheck f = Some (APIKeyAllowsAccount s)"
  by (auto simp: getFastScheduler_def dest: store_ok_fs split: if_splits)

lemma Update_heap: "keeps_ids h (fst (Update now p (h, f)))"
proof (cases "h p")
  case (Some a)
  then show ?thesis using keeps_ids_refreshed [OF insertLocked_heap] by (simp add: Update_def)
qed (simp add: Update_def)

lemma fastSchedulerUpdate_ok:
  assumes "store_ok s"
  shows "store_ok (fastSchedulerUpdate now p s)"
proof (cases "getFastScheduler s")
  case None
  then show ?thesis using assms by (simp add: fastSchedulerUpdate_def)
next
  case (Some f)
  note wf = Update_wf [OF getFastScheduler_wf [OF assms Some], of now p]
  have "fsGroupCheck (snd (Update now p (heap s, f))) = fsGroupCheck f"
    by (simp add: Update_def split: option.split)
  with getFastScheduler_check [OF assms Some] have "fsGroupCheck (snd (Update now p (heap s, f))) \<noteq> None" by simp
  with wf show ?thesis
    by (intro store_ok_transfer [OF assms]) (use Some in \<open>auto simp: fastSchedulerUpdate_def Let_def Update_heap\<close>)
qed

lemma store_ok_cache [simp]: "store_ok (s\<lparr>tokenCache := c\<rparr>) = store_ok s"
  by (simp add: store_ok_def accountIDs_def)

lemma store_ok_bindings [simp]: "store_ok (s\<lparr>sessionBindings := b\<rparr>) = store_ok s"
  by (simp add: store_ok_def accountIDs_def)

lemma store_ok_lazy [simp]: "store_ok (s\<lparr>lazyRefreshInFlight := b\<rparr>) = store_ok s"
  by (simp add: store_ok_def accountIDs_def)

lemma deleteCached_ok [simp]: "store_ok (deleteCachedAccountCooldown i s) = store_ok s"
  by (simp add: deleteCachedAccountCooldown_def split: option.split)

text \<open>Reading a cooldown record touches the cache only.\<close>

lemma getCached_only_cache:
  "\<exists>c. fst (getCachedAccountCooldown now i s) = s\<lparr>tokenCache := c\<rparr>"
proof -
  have "\<exists>c. s = s\<lparr>tokenCache := c\<rparr>" by (rule exI [of _ "tokenCache s"]) simp
  moreover have "\<exists>c. deleteCachedAccountCooldown i (s\<lparr>tokenCache := d\<rparr>) = s\<lparr>tokenCache := c\<rparr>" for d
    by (auto simp: deleteCachedAccountCooldown_def split: option.split)
  ultimately show ?thesis
    by (auto simp: getCachedAccountCooldown_def Let_def split: option.split)
qed

lemma cachedCooldownAccount_DBID [simp]: "DBID (cachedCooldownAccount now base r a) = DBID a"
  by (simp add: cachedCooldownAccount_def Let_def sel_simps)

lemma hasCached_cases:
  obtains c where "accountHasCachedCooldown now p s = (s\<lparr>tokenCache := c\<rparr>, False)"
  | c r where "accountHasCachedCooldown now p s = (applyCachedAccountCooldown now p r (s\<lparr>tokenCache := c\<rparr>), True)"
proof (cases "heap s p")
  case None
  have "s = s\<lparr>tokenCache := tokenCache s\<rparr>" by simp
  then show ?thesis using None that(1) [of "tokenCache s"] by (simp add: accountHasCachedCooldown_def)
next
  case (Some acc)
  obtain c where c: "fst (getCachedAccountCooldown now (DBID acc) s) = s\<lparr>tokenCache := c\<rparr>"
    using getCached_only_cache by blast
  show ?thesis
  proof (cases "snd (getCachedAccountCooldown now (DBID acc) s)")
    case None
    then show ?thesis using that(1) [of c] Some c
      by (cases "getCachedAccountCooldown now (DBID acc) s") (simp add: accountHasCachedCooldown_def)
  next
    case (Some r)
    then show ?thesis using that(2) [of r c] \<open>heap s p = Some acc\<close> c
      by (cases "getCachedAccountCooldown now (DBID acc) s") (simp add: accountHasCachedCooldown_def)
  qed
qed

lemma hasCached_ok: "store_ok s \<Longrightarrow> store_ok (fst (accountHasCachedCooldown now p s))"
  by (rule hasCached_cases [of now p s])
    (simp_all add: applyCachedAccountCooldown_def fastSchedulerUpdate_ok updAccount_ok)

lemma hasCached_False_heap:
  "accountHasCachedCooldown now p s = (s', False) \<Longrightarrow>
   heap s' = heap s \<and> apiKeyAllowedGroupSets s' = apiKeyAllowedGroupSets s \<and> lazyMode s' = lazyMode s"
  by (rule hasCached_cases [of now p s]) auto

subsection \<open>What a selection may return\<close>

definition permitted :: "selectArgs \<Rightarrow> Store \<Rightarrow> ptr \<Rightarrow> bool" where
  "permitted q s p \<longleftrightarrow> (\<exists>a. heap s p = Some a \<and> DBID a \<notin> seExclude q \<and> accountAllowedForAPIKey s (seKey q) a)"

definition pick_ok :: "selectArgs \<Rightarrow> Store \<times> pick \<Rightarrow> bool" where
  "pick_ok q r \<longleftrightarrow> store_ok (fst r) \<and> (\<forall>p. snd r = Picked p \<longrightarrow> permitted q (fst r) p)"

lemma pick_okI [intro]: "store_ok s \<Longrightarrow> (\<And>p. r = Picked p \<Longrightarrow> permitted q s p) \<Longrightarrow> pick_ok q (s, r)"
  by (simp add: pick_ok_def)

lemma pick_ok_NoPick [simp]: "pick_ok q (s, NoPick) = store_ok s"
  by (simp add: pick_ok_def)

text \<open>The permission of a key reads the account and the groups of the key.\<close>

lemma groups_cong:
  "apiKeyAllowedGroupSets s' = apiKeyAllowedGroupSets s \<Longrightarrow> GroupIDs a' = GroupIDs a \<Longrightarrow>
   APIKeyAllowsAccount s' k a' = APIKeyAllowsAccount s k a"
  unfolding APIKeyAllowsAccount_def by (simp split: option.split)

lemma allowed_cong:
  "apiKeyAllowedGroupSets s' = apiKeyAllowedGroupSets s \<Longrightarrow> AllowsAPIKey k a' = AllowsAPIKey k a \<Longrightarrow> GroupIDs a' = GroupIDs a \<Longrightarrow>
   accountAllowedForAPIKey s' k a' = accountAllowedForAPIKey s k a"
  using groups_cong unfolding accountAllowedForAPIKey_def by metis

lemma allowed_heap [simp]: "accountAllowedForAPIKey (s\<lparr>heap := h\<rparr>) k a = accountAllowedForAPIKey s k a"
  by (rule allowed_cong) simp_all

lemma permitted_heap:
  "heap s' = heap s \<Longrightarrow> apiKeyAllowedGroupSets s' = apiKeyAllowedGroupSets s \<Longrightarrow> permitted q s' p = permitted q s p"
  unfolding permitted_def using allowed_cong by metis

lemma permitted_upd:
  "permitted q s p \<Longrightarrow> heap s r = Some a \<Longrightarrow> DBID a' = DBID a \<Longrightarrow> AllowsAPIKey (seKey q) a' = AllowsAPIKey (seKey q) a \<Longrightarrow>
   GroupIDs a' = GroupIDs a \<Longrightarrow> permitted q (s\<lparr>heap := (heap s)(r \<mapsto> a')\<rparr>) p"
  using allowed_cong [of s s "seKey q" a' a] by (auto simp: permitted_def)

lemma takeSlot_ok:
  assumes "store_ok s" "permitted q s p"
  shows "pick_ok q (takeSlot now p limit s)"
proof -
  obtain a where a: "heap s p = Some a" "DBID a \<notin> seExclude q" "accountAllowedForAPIKey s (seKey q) a"
    using assms(2) by (auto simp: permitted_def)
  show ?thesis
  proof (cases "tryAcquireAccount now limit a")
    case None
    then show ?thesis using a(1) assms(1) by (simp add: takeSlot_def)
  next
    case (Some a')
    then have "DBID a' = DBID a" "AllowsAPIKey (seKey q) a' = AllowsAPIKey (seKey q) a" "GroupIDs a' = GroupIDs a"
      by (auto simp: tryAcquire_some_iff AllowsAPIKey_def)
    moreover from this have "accountAllowedForAPIKey s (seKey q) a'" using allowed_cong a(3) by metis
    ultimately show ?thesis
      using a Some store_ok_upd [OF assms(1) a(1), of a'] by (auto simp: takeSlot_def permitted_def)
  qed
qed

lemma weigh_account: "fst (weigh q k b p acc c) = recomputeSchedulerLocked (seNow q) b acc"
  by (simp add: weigh_def Let_def)

lemma weigh_candidate: "cdAcc (snd (weigh q k b p acc c)) = cdAcc c \<or> cdAcc (snd (weigh q k b p acc c)) = Some p"
  by (simp add: weigh_def Let_def)

lemma recompute_allows [simp]: "AllowsAPIKey k (recomputeSchedulerLocked now b a) = AllowsAPIKey k a"
  by (simp add: AllowsAPIKey_def sel_simps)

lemma weighed_ok:
  fixes k b
  assumes "store_ok s" "heap s p = Some acc" "DBID acc \<notin> seExclude q" "accountAllowedForAPIKey s (seKey q) acc"
    and "\<forall>p. cdAcc c = Some p \<longrightarrow> permitted q s p"
  defines "ac \<equiv> weigh q k b p acc c"
  shows "store_ok (s\<lparr>heap := (heap s)(p \<mapsto> fst ac)\<rparr>) \<and>
    (\<forall>p'. cdAcc (snd ac) = Some p' \<longrightarrow> permitted q (s\<lparr>heap := (heap s)(p \<mapsto> fst ac)\<rparr>) p')"
proof -
  have a: "fst ac = recomputeSchedulerLocked (seNow q) b acc" by (simp add: ac_def weigh_account)
  have up: "permitted q (s\<lparr>heap := (heap s)(p \<mapsto> fst ac)\<rparr>) p'" if "permitted q s p'" for p'
    using permitted_upd [OF that assms(2)] by (simp add: a sel_simps)
  have "permitted q s p" using assms(2-4) by (simp add: permitted_def)
  moreover have "cdAcc (snd ac) = cdAcc c \<or> cdAcc (snd ac) = Some p" by (simp add: ac_def weigh_candidate)
  ultimately show ?thesis
    using up assms(5) store_ok_upd [OF assms(1,2), of "fst ac"] by (auto simp: a sel_simps)
qed

lemma scanOne_ok:
  assumes "store_ok (fst sc)" "\<forall>p. cdAcc (snd sc) = Some p \<longrightarrow> permitted q (fst sc) p"
  shows "store_ok (fst (scanOne q k p sc)) \<and> (\<forall>p'. cdAcc (snd (scanOne q k p sc)) = Some p' \<longrightarrow> permitted q (fst (scanOne q k p sc)) p')"
proof (cases "heap (fst sc) p")
  case None
  then show ?thesis using assms by (simp add: scanOne_def Let_def)
next
  case (Some acc)
  show ?thesis
  proof (cases "qualifies q (fst sc) acc")
    case True
    then show ?thesis
      using Some weighed_ok [OF assms(1) Some _ _ assms(2)]
      by (simp add: scanOne_def Let_def qualifies_def)
  qed (use assms Some in \<open>simp add: scanOne_def Let_def\<close>)
qed

lemma scanAll_ok:
  assumes "store_ok s"
  shows "store_ok (fst (scanAll q k s)) \<and> (\<forall>p. cdAcc (snd (scanAll q k s)) = Some p \<longrightarrow> permitted q (fst (scanAll q k s)) p)"
proof -
  have "store_ok (fst (fold (scanOne q k) ps sc)) \<and>
      (\<forall>p. cdAcc (snd (fold (scanOne q k) ps sc)) = Some p \<longrightarrow> permitted q (fst (fold (scanOne q k) ps sc)) p)"
    if "store_ok (fst sc)" "\<forall>p. cdAcc (snd sc) = Some p \<longrightarrow> permitted q (fst sc) p" for ps sc
    using that
  proof (induction ps arbitrary: sc)
    case (Cons p ps)
    then show ?case using scanOne_ok [OF Cons.prems, of k p] by simp
  qed simp
  then show ?thesis using assms by (simp add: scanAll_def noCandidate_def)
qed

lemma slowSelect_ok: "store_ok s \<Longrightarrow> pick_ok q (slowSelect q n s)"
proof (induction n arbitrary: s)
  case (Suc n)
  obtain s1 c where sc: "scanAll q n s = (s1, c)" by force
  have ok: "store_ok s1" "cdAcc c = Some p \<Longrightarrow> permitted q s1 p" for p
    using scanAll_ok [OF Suc.prems, of q n] sc by auto
  show ?case
  proof (cases "cdAcc c")
    case None
    then show ?thesis using sc ok by simp
  next
    case (Some p)
    obtain s2 b where h: "accountHasCachedCooldown (seNow q) p s1 = (s2, b)" by force
    have ok2: "store_ok s2" using hasCached_ok [OF ok(1), of "seNow q" p] h by simp
    show ?thesis
    proof (cases b)
      case True
      then show ?thesis using sc Some h Suc.IH [OF ok2] by simp
    next
      case False
      then have "heap s2 = heap s1" "apiKeyAllowedGroupSets s2 = apiKeyAllowedGroupSets s1"
        using h hasCached_False_heap by simp_all
      then have "permitted q s2 p" using ok(2) [OF Some] permitted_heap by blast
      from takeSlot_ok [OF ok2 this, of "seNow q" "cdLimit c"]
      obtain s3 r where t: "takeSlot (seNow q) p (cdLimit c) s2 = (s3, r)" "pick_ok q (s3, r)" by (metis surj_pair)
      then have "store_ok s3" by (simp add: pick_ok_def)
      then show ?thesis using sc Some h False t Suc.IH [of s3] by (auto split: pick.splits)
    qed
  qed
qed simp

subsubsection \<open>The fast scheduler\<close>

lemma acquireFast_ok:
  assumes "store_ok s"
  shows "pick_ok q (acquireFast q s)"
proof (cases "getFastScheduler s")
  case None
  then show ?thesis using assms by (simp add: acquireFast_def)
next
  case (Some f)
  let ?q = "\<lparr>argNow = seNow q, argKey = seKey q, argExclude = seExclude q, argFilter = seFilter q\<rparr>"
  note wf = getFastScheduler_wf [OF assms Some]
  show ?thesis
  proof (cases "AcquireExcludingWithFilter ?q (heap s) f")
    case None
    then show ?thesis using Some assms by (auto simp: acquireFast_def pick_ok_def)
  next
    case acq: (Some x)
    obtain h f' r where x: "x = (h, f', r)" by (cases x)
    have "acquiredOk ?q (heap s) f h f' r"
      using acquireLoop_wf [OF wf] acq x by (auto simp: AcquireExcludingWithFilter_def simp del: acquireLoop.simps)
    then have w: "fs_wf h f'" "handedOut ?q (fsGroupCheck f) h r" and k: "keeps_ids (heap s) h" "fsGroupCheck f' = fsGroupCheck f"
      by (simp_all add: acquiredOk_def)
    note gc = getFastScheduler_check [OF assms Some]
    have "store_ok (s\<lparr>heap := h, fastScheduler := Some f'\<rparr>)"
      by (rule store_ok_transfer [OF assms]) (use k w gc in simp_all)
    moreover have "permitted q (s\<lparr>heap := h, fastScheduler := Some f'\<rparr>) p" if rp: "r = ScanAcquired p" for p
    proof -
      let ?s = "s\<lparr>heap := h, fastScheduler := Some f'\<rparr>"
      obtain a a0 where a: "h p = Some a" "DBID a \<notin> seExclude q" "AllowsAPIKey (seKey q) a" "GroupIDs a0 = GroupIDs a"
        "APIKeyAllowsAccount s (seKey q) a0"
        using w(2) gc unfolding rp handedOut_def by auto
      have "APIKeyAllowsAccount ?s (seKey q) a = APIKeyAllowsAccount s (seKey q) a0" using a(4) by (intro groups_cong) simp_all
      then show ?thesis using a by (simp add: permitted_def accountAllowedForAPIKey_def)
    qed
    ultimately show ?thesis
      using Some acq x assms
      by (cases r) (auto simp: acquireFast_def pick_ok_def)
  qed
qed

lemma Release_keeps: "keeps_ids h (Release p h)"
  by (auto simp: keeps_ids_def Release_def releaseAccount_def split: option.split)

lemma storeRelease_ok: "store_ok s \<Longrightarrow> store_ok (storeRelease p s)"
  by (rule store_ok_heap) (simp_all add: storeRelease_def Release_keeps)

lemma permitted_cached:
  "permitted q s p \<Longrightarrow> accountHasCachedCooldown now r s = (s', False) \<Longrightarrow> permitted q s' p"
  using permitted_heap [of s' s q p] by (auto dest!: hasCached_False_heap)

lemma fastSelect_ok: "store_ok s \<Longrightarrow> pick_ok q (fastSelect q n s)"
proof (induction n arbitrary: s)
  case (Suc n)
  obtain s1 r where a: "acquireFast q s = (s1, r)" by force
  have ok: "store_ok s1" "r = Picked p \<Longrightarrow> permitted q s1 p" for p
    using acquireFast_ok [OF Suc.prems, of q] a by (simp_all add: pick_ok_def)
  show ?case
  proof (cases r)
    case (Picked p)
    obtain s2 b where h: "accountHasCachedCooldown (seNow q) p s1 = (s2, b)" by force
    have ok2: "store_ok s2" using hasCached_ok [OF ok(1), of "seNow q" p] h by simp
    show ?thesis
    proof (cases b)
      case True
      then show ?thesis using a Picked h Suc.IH [OF storeRelease_ok [OF ok2]] by simp
    next
      case False
      then show ?thesis using a Picked h ok2 permitted_cached [OF ok(2) [OF Picked]] by (auto simp: pick_ok_def)
    qed
  qed (use a ok in \<open>auto simp: pick_ok_def\<close>)
qed simp

subsubsection \<open>Lazy mode\<close>

lemma triggerLazy_only: "\<exists>b. triggerLazyRefreshAsync acc s = s\<lparr>lazyRefreshInFlight := b\<rparr>"
proof -
  have "s = s\<lparr>lazyRefreshInFlight := lazyRefreshInFlight s\<rparr>" by simp
  then show ?thesis unfolding triggerLazyRefreshAsync_def by metis
qed

lemma permitted_lazy [simp]: "permitted q (s\<lparr>lazyRefreshInFlight := b\<rparr>) p = permitted q s p"
  by (rule permitted_heap) simp_all

lemma ensureLazy_only:
  obtains b where "fst (ensureLazyDispatchReady now acc s) = s\<lparr>lazyRefreshInFlight := b\<rparr>"
proof -
  have "s = s\<lparr>lazyRefreshInFlight := lazyRefreshInFlight s\<rparr>" by simp
  then show ?thesis using that triggerLazy_only [of acc s] unfolding ensureLazyDispatchReady_def by (metis fst_conv)
qed

lemma acquireLazy_ok:
  assumes "store_ok s" "permitted q s p"
  shows "pick_ok q (acquireLazyCandidate now p base s)"
proof -
  obtain a where a: "heap s p = Some a" using assms(2) by (auto simp: permitted_def)
  obtain s1 r where e: "ensureLazyDispatchReady now a s = (s1, r)" by force
  then obtain b where s1: "s1 = s\<lparr>lazyRefreshInFlight := b\<rparr>" by (metis ensureLazy_only fst_conv)
  show ?thesis
  proof (cases r)
    case True
    let ?a = "recomputeSchedulerLocked now base a"
    let ?s = "s1\<lparr>heap := (heap s1)(p \<mapsto> ?a)\<rparr>"
    have ok: "store_ok s1" "heap s1 p = Some a" "permitted q s1 p" using assms a s1 by simp_all
    have "store_ok ?s" "permitted q ?s p"
      using store_ok_upd [OF ok(1,2), of ?a] permitted_upd [OF ok(3,2), of ?a] by (simp_all add: sel_simps)
    then show ?thesis using takeSlot_ok [of ?s q p] a e True by (simp add: acquireLazyCandidate_def Let_def)
  qed (use a e s1 assms in \<open>simp add: acquireLazyCandidate_def\<close>)
qed

definition lazy_ok :: "selectArgs \<Rightarrow> lazyScan \<Rightarrow> bool" where
  "lazy_ok q z \<longleftrightarrow> store_ok (lzStore z) \<and> (\<forall>p. cdAcc (lzBest z) = Some p \<longrightarrow> permitted q (lzStore z) p)"

lemma lazyScanOne_ok:
  assumes "lazy_ok q z"
  shows "lazy_ok q (lazyScanOne q k p z)"
proof (cases "heap (lzStore z) p")
  case (Some acc)
  obtain b where t: "triggerLazyRefreshAsync acc (lzStore z) = (lzStore z)\<lparr>lazyRefreshInFlight := b\<rparr>"
    using triggerLazy_only by blast
  have z: "store_ok (lzStore z)" "\<forall>p. cdAcc (lzBest z) = Some p \<longrightarrow> permitted q (lzStore z) p"
    using assms by (simp_all add: lazy_ok_def)
  show ?thesis
  proof (cases "DBID acc \<in> seExclude q \<or> \<not> accountLazySelectable (seNow q) acc \<or> \<not> accountAllowedForAPIKey (lzStore z) (seKey q) acc")
    case False
    then have "lazy_ok q (z\<lparr>lzStore := (lzStore z)\<lparr>heap := (heap (lzStore z))(p \<mapsto> fst ac)\<rparr>, lzBest := snd ac\<rparr>)"
      if "ac = weigh q k (maxConcurrency (lzStore z)) p acc (lzBest z)" for ac
      using weighed_ok [OF z(1) Some _ _ z(2)] unfolding that by (simp add: lazy_ok_def)
    then show ?thesis using Some False z t by (simp add: lazyScanOne_def Let_def lazy_ok_def)
  qed (use Some assms in \<open>simp add: lazyScanOne_def Let_def\<close>)
qed (use assms in \<open>simp add: lazyScanOne_def Let_def\<close>)

lemma lazyScan_ok: "lazy_ok q z \<Longrightarrow> lazy_ok q (fold (lazyScanOne q k) ps z)"
  by (induction ps arbitrary: z) (simp_all add: lazyScanOne_ok)

lemma lazySelect_ok: "store_ok s \<Longrightarrow> pick_ok q (lazySelect q n s)"
proof (induction n arbitrary: s)
  case (Suc n)
  define z where "z = fold (lazyScanOne q n) (accounts s) \<lparr>lzStore = s, lzBest = noCandidate, lzMeta = None\<rparr>"
  have "lazy_ok q \<lparr>lzStore = s, lzBest = noCandidate, lzMeta = None\<rparr>"
    using Suc.prems by (simp add: lazy_ok_def noCandidate_def)
  then have "lazy_ok q z" unfolding z_def by (rule lazyScan_ok)
  then have ok: "store_ok (lzStore z)" "cdAcc (lzBest z) = Some p \<Longrightarrow> permitted q (lzStore z) p" for p
    by (simp_all add: lazy_ok_def)
  show ?case
  proof (cases "cdAcc (lzBest z)")
    case None
    have "store_ok (fst (ensureLazyDispatchReady (seNow q) acc (lzStore z)))" for acc
      using ok(1) ensureLazy_only store_ok_lazy by metis
    then have "pick_ok q (case ensureLazyDispatchReady (seNow q) acc (lzStore z) of
        (s2, True) \<Rightarrow> lazySelect q n s2 | (s2, False) \<Rightarrow> (s2, NoPick))" for acc
      using Suc.IH by (auto split: prod.split bool.split) (metis fst_conv)+
    then show ?thesis using None ok(1) by (simp add: z_def [symmetric] Let_def split: option.split)
  next
    case (Some p)
    obtain s2 b where h: "accountHasCachedCooldown (seNow q) p (lzStore z) = (s2, b)" by force
    have ok2: "store_ok s2" using hasCached_ok [OF ok(1), of "seNow q" p] h by simp
    show ?thesis
    proof (cases b)
      case True
      then show ?thesis using Some h Suc.IH [OF ok2] by (simp add: z_def [symmetric] Let_def)
    next
      case False
      then have "permitted q s2 p" using permitted_cached [OF ok(2) [OF Some]] h by simp
      from acquireLazy_ok [OF ok2 this, of "seNow q" "maxConcurrency s"]
      obtain s3 r where t: "acquireLazyCandidate (seNow q) p (maxConcurrency s) s2 = (s3, r)" "pick_ok q (s3, r)"
        by (metis surj_pair)
      then have "store_ok s3" by (simp add: pick_ok_def)
      then show ?thesis
        using Some h False t Suc.IH [of s3] by (auto simp: z_def [symmetric] Let_def split: pick.splits)
    qed
  qed
qed simp

lemma NextExcluding_ok:
  assumes "store_ok s"
  shows "pick_ok q (NextExcludingWithFilter q s)"
proof (cases "lazyMode s")
  case False
  obtain s1 r where f: "fastSelect q 16 s = (s1, r)" by force
  then have "pick_ok q (s1, r)" using fastSelect_ok [OF assms, of q 16] by simp
  moreover from this have "pick_ok q (slowSelect q 16 s1)" by (intro slowSelect_ok) (simp add: pick_ok_def)
  ultimately show ?thesis using False f by (auto simp: NextExcludingWithFilter_def split: pick.split)
qed (use lazySelect_ok [OF assms] in \<open>simp add: NextExcludingWithFilter_def\<close>)

subsubsection \<open>Session affinity\<close>

lemma findAccount_DBID: "findAccount h i ps = Some p \<Longrightarrow> \<exists>a. h p = Some a \<and> DBID a = i"
  by (induction ps) (auto split: option.splits if_splits)

lemma findAccount_mem: "findAccount h i ps = Some p \<Longrightarrow> p \<in> set ps"
  by (induction ps) (auto split: option.splits if_splits)

lemma findAccount_iff:
  "distinct (map (\<lambda>p. map_option DBID (h p)) ps) \<Longrightarrow>
   findAccount h i ps = Some p \<longleftrightarrow> p \<in> set ps \<and> map_option DBID (h p) = Some i"
  by (induction ps) (auto simp: image_iff split: option.splits dest: findAccount_mem findAccount_DBID)

text \<open>The index and the linear search give the same answer.\<close>

lemma lookup_iff:
  "store_ok s \<Longrightarrow> lookupByIDLocked i s = Some p \<longleftrightarrow> p \<in> set (accounts s) \<and> map_option DBID (heap s p) = Some i"
  by (auto simp: lookupByIDLocked_def store_ok_def accountIDs_def indexed_def findAccount_iff split: option.splits)

lemma lookup_DBID: "store_ok s \<Longrightarrow> lookupByIDLocked i s = Some p \<Longrightarrow> \<exists>a. heap s p = Some a \<and> DBID a = i"
  by (auto simp: lookup_iff)

lemma takeByID_ok:
  assumes "store_ok s"
  shows "pick_ok q (takeByIDExcluding q i s)"
proof (cases "i = 0 \<or> i \<in> seExclude q \<or> lookupByIDLocked i s = None")
  case False
  then obtain p where p: "lookupByIDLocked i s = Some p" by blast
  from lookup_DBID [OF assms p] obtain a where a: "heap s p = Some a" "DBID a = i" by blast
  obtain s1 b where h: "accountHasCachedCooldown (seNow q) p s = (s1, b)" by force
  have ok: "store_ok s1" using hasCached_ok [OF assms, of "seNow q" p] h by simp
  show ?thesis
  proof (cases "\<not> b \<and> accountAllowedForAPIKey s1 (seKey q) a \<and> passes (seFilter q) a")
    case True
    then have h1: "heap s1 p = Some a" and per: "permitted q s1 p"
      using h a False hasCached_False_heap [of "seNow q" p s s1] by (simp_all add: permitted_def)
    let ?a = "fst (fastSchedulerSnapshot (maxConcurrency s1) (seNow q) a)"
    let ?s = "s1\<lparr>heap := (heap s1)(p \<mapsto> ?a)\<rparr>"
    have up: "store_ok ?s" "permitted q ?s p"
      using store_ok_upd [OF ok h1, of ?a] permitted_upd [OF per h1, of ?a] by (simp_all add: snapshot_keeps)
    show ?thesis
      using False p a h True acquireLazy_ok [OF ok per] takeSlot_ok [OF up] up assms
      by (simp add: takeByIDExcluding_def Let_def)
  qed (use False p a h ok assms in \<open>auto simp: takeByIDExcluding_def split: bool.split\<close>)
qed (use assms in \<open>auto simp: takeByIDExcluding_def\<close>)

lemma permitted_bindings [simp]: "permitted q (s\<lparr>sessionBindings := b\<rparr>) p = permitted q s p"
  by (rule permitted_heap) simp_all

lemma dropBinding_ok [simp]: "store_ok (dropBinding key i s) = store_ok s"
  by (simp add: dropBinding_def split: option.split)

lemma countReuse_ok [simp]:
  "store_ok (countReuse key i s) = store_ok s" "permitted q (countReuse key i s) p = permitted q s p"
  by (simp_all add: countReuse_def split: option.split)

definition bound_ok :: "selectArgs \<Rightarrow> (Store \<times> ptr \<times> string) + Store \<Rightarrow> bool" where
  "bound_ok q r = (case r of Inl (s, p, _) \<Rightarrow> store_ok s \<and> permitted q s p | Inr s \<Rightarrow> store_ok s)"

lemma takeByID_cases:
  assumes "store_ok s"
  obtains s' p where "takeByIDExcluding q i s = (s', Picked p)" "store_ok s'" "permitted q s' p"
  | s' r where "takeByIDExcluding q i s = (s', r)" "store_ok s'" "r = NoPick \<or> r = Stuck"
proof (cases "takeByIDExcluding q i s")
  case (Pair s' r)
  with takeByID_ok [OF assms, of q i] that show ?thesis by (cases r) (auto simp: pick_ok_def)
qed

lemma useLocalBinding_ok: "store_ok s \<Longrightarrow> bound_ok q (useLocalBinding q key s)"
proof -
  assume ok: "store_ok s"
  show ?thesis
  proof (cases "sessionBindings s key")
    case (Some b)
    then show ?thesis
      by (cases rule: takeByID_cases [OF ok, of q "saAccountID b"]) (auto simp: useLocalBinding_def bound_ok_def ok)
  qed (simp add: useLocalBinding_def bound_ok_def ok)
qed

lemma getCachedAffinity_ok [simp]: "store_ok (fst (getCachedSessionAffinity now ttl key s)) = store_ok s"
  by (simp add: getCachedSessionAffinity_def Let_def split: option.split)

lemma useCachedBinding_ok: "store_ok s \<Longrightarrow> bound_ok q (useCachedBinding q ttl key s)"
proof -
  assume ok: "store_ok s"
  obtain s1 b where g: "getCachedSessionAffinity (seNow q) ttl key s = (s1, b)" by force
  then have ok1: "store_ok s1" using ok getCachedAffinity_ok by (metis fst_conv)
  show ?thesis
  proof (cases b)
    case (Some b')
    then show ?thesis
      by (cases rule: takeByID_cases [OF ok1, of q "saAccountID b'"])
        (auto simp: useCachedBinding_def bound_ok_def g ok1)
  qed (simp add: useCachedBinding_def bound_ok_def g ok1)
qed

lemma NextForSession_ok:
  assumes "store_ok s"
  shows "case NextForSessionWithFilter q ttl key s of (s', r, _) \<Rightarrow> pick_ok q (s', r)"
proof -
  have plain: "case (let (s', r) = NextExcludingWithFilter q s1 in (s', r, ([]::string))) of (s', r, _) \<Rightarrow> pick_ok q (s', r)"
    if "store_ok s1" for s1
    using NextExcluding_ok [OF that, of q] by (cases "NextExcludingWithFilter q s1") simp
  have l: "bound_ok q (useLocalBinding q (TrimSpace key) s)" by (rule useLocalBinding_ok [OF assms])
  have c: "bound_ok q (useCachedBinding q ttl (TrimSpace key) s1)" if "store_ok s1" for s1
    by (rule useCachedBinding_ok [OF that])
  show ?thesis
  proof (cases "TrimSpace key = [] \<or> GetAffinityMode s = ''off''")
    case True
    then show ?thesis using plain [OF assms] by (simp add: NextForSessionWithFilter_def Let_def)
  next
    case False
    show ?thesis
    proof (cases "useLocalBinding q (TrimSpace key) s")
      case (Inr s1)
      then have ok1: "store_ok s1" using l by (simp add: bound_ok_def)
      show ?thesis
        using False Inr c [OF ok1] plain
        by (cases "useCachedBinding q ttl (TrimSpace key) s1")
          (auto simp: NextForSessionWithFilter_def Let_def bound_ok_def pick_ok_def)
    qed (use False l in \<open>auto simp: NextForSessionWithFilter_def bound_ok_def pick_ok_def\<close>)
  qed
qed

subsubsection \<open>Waiting and retrying\<close>

lemma hasDispatch_ok: "store_ok s \<Longrightarrow> store_ok (fst (hasDispatchCandidate q ps s))"
proof (induction ps arbitrary: s)
  case (Cons p ps)
  show ?case
  proof (cases "heap s p")
    case (Some acc)
    obtain s1 b where h: "accountHasCachedCooldown (seNow q) p s = (s1, b)" by force
    have ok: "store_ok s1" using hasCached_ok [OF Cons.prems, of "seNow q" p] h by simp
    have "store_ok (s1\<lparr>heap := (heap s1)(p \<mapsto> recomputeSchedulerLocked (seNow q) m acc)\<rparr>)" if "\<not> b" for m
      using that h Some hasCached_False_heap [of "seNow q" p s s1] by (intro store_ok_upd [OF ok, of p acc]) (simp_all add: sel_simps)
    then show ?thesis using Some h ok Cons by (simp add: Let_def split: bool.split)
  qed (use Cons in simp)
qed simp

definition quiet :: "round list \<Rightarrow> bool" where
  "quiet rs \<longleftrightarrow> (\<forall>r \<in> set rs. \<forall>s. store_ok s \<longrightarrow> store_ok (snd r s))"

lemma pick_ok_args: "seExclude q' = seExclude q \<Longrightarrow> seKey q' = seKey q \<Longrightarrow> pick_ok q' r = pick_ok q r"
  by (simp add: pick_ok_def permitted_def)

lemma waitRounds_ok:
  "store_ok s \<Longrightarrow> quiet rs \<Longrightarrow> case waitRounds q ttl key rs s of (s', r, _) \<Rightarrow> pick_ok q (s', r)"
proof (induction rs arbitrary: s)
  case (Cons x rs)
  obtain now coin others where x: "x = ((now, coin), others)" by (metis surj_pair)
  let ?q = "q\<lparr>seNow := now, seCoin := coin\<rparr>"
  obtain s1 r proxy where n: "NextForSessionWithFilter ?q ttl key s = (s1, r, proxy)" by (metis surj_pair)
  have "pick_ok ?q (s1, r)" using NextForSession_ok [OF Cons.prems(1), of ?q ttl key] n by simp
  then have ok: "pick_ok q (s1, r)" using pick_ok_args [of ?q q "(s1, r)"] by simp
  then have ok1: "store_ok s1" by (simp add: pick_ok_def)
  obtain s2 b where h: "hasDispatchCandidateWithFilter ?q s1 = (s2, b)" by force
  have ok2: "store_ok s2" using hasDispatch_ok [OF ok1, of ?q "accounts s1"] h by (simp add: hasDispatchCandidateWithFilter_def)
  have "store_ok (others s2)" "quiet rs" using Cons.prems(2) ok2 x by (auto simp: quiet_def)
  then show ?case
    using Cons.IH [of "others s2"] x n h ok ok1 ok2 by (cases r) (auto split: bool.split)
qed simp

lemma WaitForSession_ok:
  assumes "store_ok s" "quiet rs"
  shows "case WaitForSessionAvailableWithFilter q ttl key rs s of (s', r, _) \<Rightarrow> pick_ok q (s', r)"
proof -
  obtain s1 b where h: "hasDispatchCandidateWithFilter q s = (s1, b)" by force
  have ok: "store_ok s1" using hasDispatch_ok [OF assms(1), of q "accounts s"] h by (simp add: hasDispatchCandidateWithFilter_def)
  show ?thesis
    using waitRounds_ok [OF ok assms(2)] ok h by (auto simp: WaitForSessionAvailableWithFilter_def split: bool.split)
qed

declare nextRetryAccountForSession.simps [simp del]

lemma nextRetry_ok:
  assumes "store_ok s" "\<And>k. quiet (snd (rounds k))"
    and "nextRetryAccountForSession q ttl key rounds k r s = (s', pk, proxy, r')"
  shows "pick_ok (q\<lparr>seExclude := ForSelection r'\<rparr>) (s', pk) \<and> hard r' = hard r \<and> soft r' \<subseteq> soft r"
  using assms
proof (induction q ttl key rounds k r s rule: nextRetryAccountForSession.induct)
  case (1 q ttl key rounds k r s)
  obtain now coin rs where x: "rounds k = ((now, coin), rs)" by (metis surj_pair)
  let ?q = "q\<lparr>seNow := now, seCoin := coin, seExclude := ForSelection r\<rparr>"
  have q: "pick_ok ?q p = pick_ok (q\<lparr>seExclude := ForSelection r\<rparr>) p" for p by (rule pick_ok_args) simp_all
  obtain s1 r1 x1 where n: "NextForSessionWithFilter ?q ttl key s = (s1, r1, x1)" by (metis surj_pair)
  have ok1: "pick_ok ?q (s1, r1)" using NextForSession_ok [OF 1(2), of ?q ttl key] n by simp
  obtain s2 r2 x2 where w: "WaitForSessionAvailableWithFilter ?q ttl key rs s1 = (s2, r2, x2)" by (metis surj_pair)
  have ok2: "pick_ok ?q (s2, r2)"
    using WaitForSession_ok [of s1 rs ?q ttl key] ok1 w 1(3) [of k] x by (simp add: pick_ok_def)
  show ?case
  proof (cases "r1 = NoPick \<and> r2 = NoPick \<and> snd (ResetSoft r)")
    case True
    then have s2: "store_ok s2" using ok2 by (simp add: pick_ok_def)
    have "nextRetryAccountForSession q ttl key rounds (Suc k) (fst (ResetSoft r)) s2 = (s', pk, proxy, r')"
      using 1(4) True x n w nextRetryAccountForSession.simps [of q ttl key rounds k r s] by simp
    from 1(1) [OF refl x [symmetric] refl refl n [symmetric] refl _ w [symmetric] refl _ _ s2 1(3) this] True
    show ?thesis by (auto simp: ResetSoft_def split: if_splits)
  next
    case False
    then have "(s', pk) = (s1, r1) \<and> r1 \<noteq> NoPick \<or> (s', pk) = (s2, r2)" "r' = r"
      using 1(4) x n w nextRetryAccountForSession.simps [of q ttl key rounds k r s]
      by (auto split: pick.splits if_splits)
    then show ?thesis using ok1 ok2 q by auto
  qed
qed

text \<open>At most two passes: the first, and one more when it emptied the soft exclusions.\<close>

lemma nextRetry_last:
  assumes "soft r = {}" "rounds k = rounds' k"
  shows "nextRetryAccountForSession q ttl key rounds k r s = nextRetryAccountForSession q ttl key rounds' k r s"
proof -
  have last: "snd (ResetSoft r) = False" using assms(1) by (simp add: ResetSoft_def)
  show ?thesis
    unfolding nextRetryAccountForSession.simps [of q ttl key rounds k r s]
      nextRetryAccountForSession.simps [of q ttl key rounds' k r s] assms(2) last if_False by (rule refl)
qed

lemma nextRetry_passes:
  assumes "rounds k = rounds' k" "rounds (Suc k) = rounds' (Suc k)"
  shows "nextRetryAccountForSession q ttl key rounds k r s = nextRetryAccountForSession q ttl key rounds' k r s"
proof -
  have "soft (fst (ResetSoft r)) = {}" by (simp add: ResetSoft_def)
  note last = nextRetry_last [where rounds = rounds and rounds' = rounds', OF this assms(2)]
  show ?thesis
    unfolding nextRetryAccountForSession.simps [of q ttl key rounds k r s]
      nextRetryAccountForSession.simps [of q ttl key rounds' k r s] assms(1) last by (rule refl)
qed

end
