(* ===== verification/StoreInvariant.thy ===== *)
theory StoreInvariant
  imports SelectionSafety
begin

section \<open>The invariant of the store\<close>

text \<open>
  Every operation of theories \<open>Store\<close> and \<open>Selection\<close> keeps the invariant \<open>store_ok\<close>: adding and
  removing accounts, the configuration, the reports about one account, and the selections. The step
  relation \<open>store_step\<close> collects them, and the properties are stated about reachable stores.
\<close>

subsection \<open>The account operations keep the ID\<close>

lemma record_DBID [simp]:
  "DBID (recordResultLocked b a) = DBID a" "DBID (recordLatencyLocked d a) = DBID a"
  by (simp_all add: recordResultLocked_def recordLatencyLocked_def Let_def)

lemma account_ops_DBID [simp]:
  "DBID (fst (markCooldownAccount now base d reason msg a)) = DBID a"
  "DBID (MarkErrorAccount now base fallback msg a) = DBID a"
  "DBID (ClearCooldownAccount now base a) = DBID a"
  "DBID (RecordManualTestSuccessAccount now base d a) = DBID a"
  "DBID (ReportRequestSuccessAccount now base d a) = DBID a"
  "DBID (ReportRequestFailureAccount now base kind d a) = DBID a"
  "DBID (fst (MarkModelCooldownAccount now base model d reason a)) = DBID a"
  "DBID (fst (ClearModelCooldownAccount model a)) = DBID a"
  "DBID (fst (MarkPremium5hRateLimitedAccount now base resetAt a)) = DBID a"
  "DBID (setAllowedAPIKeyIDsLocked ids a) = DBID a"
  "DBID (recomputeEffectiveAutoPause s a) = DBID a"
  "DBID (applyCachedModelCooldown now model r a) = DBID a"
  by (simp_all add: markCooldownAccount_def MarkErrorAccount_def ClearCooldownAccount_def RecordManualTestSuccessAccount_def
      SetCooldownUntil_def RecordManualTestSuccessAccount_def
      ReportRequestSuccessAccount_def ReportRequestFailureAccount_def MarkModelCooldownAccount_def
      ClearModelCooldownAccount_def MarkPremium5hRateLimitedAccount_def setAllowedAPIKeyIDsLocked_def
      recomputeEffectiveAutoPause_def applyCachedModelCooldown_def Let_def sel_simps split: option.split)

subsection \<open>The index\<close>

lemma fold_index_other:
  "i \<notin> set (List.map_filter (\<lambda>p. map_option DBID (h p)) ps) \<Longrightarrow>
   fold (\<lambda>p m. case h p of None \<Rightarrow> m | Some acc \<Rightarrow> m(DBID acc \<mapsto> p)) ps m i = m i"
  by (induction ps arbitrary: m) (auto simp: map_filter_simps split: option.splits)

lemma fold_index:
  assumes "distinct (map (\<lambda>p. map_option DBID (h p)) ps)"
  shows "fold (\<lambda>p m. case h p of None \<Rightarrow> m | Some acc \<Rightarrow> m(DBID acc \<mapsto> p)) ps m i = Some p \<longleftrightarrow>
    (p \<in> set ps \<and> map_option DBID (h p) = Some i) \<or>
    (m i = Some p \<and> Some i \<notin> set (map (\<lambda>p. map_option DBID (h p)) ps))"
  using assms
proof (induction ps arbitrary: m)
  case (Cons q ps)
  then show ?case by (cases "h q") (auto simp: image_iff)
qed simp

lemma rebuildIndex_indexed:
  "distinct (accountIDs s) \<Longrightarrow> \<exists>idx. accountsByID (rebuildAccountIndex s) = Some idx \<and> indexed (heap s) (accounts s) idx"
  by (simp add: rebuildAccountIndex_def indexed_def fold_index accountIDs_def)

lemma rebuildIndex_sel [simp]:
  "heap (rebuildAccountIndex s) = heap s" "accounts (rebuildAccountIndex s) = accounts s"
  "fastScheduler (rebuildAccountIndex s) = fastScheduler s" "accountIDs (rebuildAccountIndex s) = accountIDs s"
  by (simp_all add: rebuildAccountIndex_def accountIDs_def)

lemma rebuildIndex_ok:
  assumes "distinct (accountIDs s)" "None \<notin> set (accountIDs s)"
    and "\<And>f. fastScheduler s = Some f \<Longrightarrow> fs_wf (heap s) f \<and> fsGroupCheck f \<noteq> None"
  shows "store_ok (rebuildAccountIndex s)"
  using assms rebuildIndex_indexed [OF assms(1)] by (auto simp: store_ok_def)

subsection \<open>Adding and removing\<close>

lemma AddAccount_ok:
  assumes ok: "store_ok s" and p: "heap s p = None" and fresh: "Some (DBID acc) \<notin> set (accountIDs s)"
  shows "store_ok (AddAccount now p acc s)"
proof -
  let ?a = "recomputeSchedulerLocked now (maxConcurrency s) (if AddedAt acc = 0 then acc\<lparr>AddedAt := now\<rparr> else acc)"
  let ?s = "s\<lparr>heap := (heap s)(p \<mapsto> ?a), accounts := accounts s @ [p]\<rparr>"
  have out: "p \<notin> set (accounts s)" using store_ok_allocated [OF ok] p by blast
  have "map (\<lambda>r. map_option DBID (heap ?s r)) (accounts s) = accountIDs s"
    unfolding accountIDs_def using out by (intro map_cong) auto
  moreover have "map_option DBID (heap ?s p) = Some (DBID acc)" by (simp add: sel_simps)
  ultimately have ids: "accountIDs ?s = accountIDs s @ [Some (DBID acc)]" by (simp add: accountIDs_def)
  have "keeps_ids (heap s) (heap ?s)" using p by (simp add: keeps_ids_def)
  then have "store_ok (rebuildAccountIndex ?s)"
    using ok fresh ids fs_wf_keeps by (intro rebuildIndex_ok) (auto simp: store_ok_def)
  then show ?thesis by (simp add: AddAccount_def Let_def fastSchedulerUpdate_ok)
qed

lemma fastSchedulerRemove_ok:
  assumes "store_ok s"
  shows "store_ok (fastSchedulerRemove i s)"
proof (cases "getFastScheduler s")
  case (Some f)
  have "fsGroupCheck (Remove i f) = fsGroupCheck f" by (simp add: Remove_def)
  then show ?thesis
    using Some Remove_wf [OF getFastScheduler_wf [OF assms Some], of i] getFastScheduler_check [OF assms Some] assms
    by (intro store_ok_transfer [OF assms]) (auto simp: fastSchedulerRemove_def dest: store_ok_fs split: if_splits)
qed (simp add: fastSchedulerRemove_def assms)

lemma removeFirst_filter:
  "distinct (map (\<lambda>p. map_option DBID (h p)) ps) \<Longrightarrow> removeFirst h i ps = Some qs \<Longrightarrow>
   qs = filter (\<lambda>p. map_option DBID (h p) \<noteq> Some i) ps"
proof (induction ps arbitrary: qs)
  case (Cons p ps)
  show ?case
  proof (cases "map_option DBID (h p) = Some i")
    case True
    then have "\<forall>r \<in> set ps. map_option DBID (h r) \<noteq> Some i" using Cons.prems(1) by (auto simp: image_iff)
    then show ?thesis using True Cons.prems(2) by (simp add: filter_id_conv)
  qed (use Cons in \<open>auto simp del: map_option_eq_Some\<close>)
qed simp

lemma removeFirst_None: "removeFirst h i ps = None \<longleftrightarrow> Some i \<notin> set (map (\<lambda>p. map_option DBID (h p)) ps)"
  by (induction ps) (auto simp: eq_commute simp del: map_option_eq_Some split: if_splits)

lemma shrink_ok:
  assumes "store_ok s"
  shows "store_ok (rebuildAccountIndex (s\<lparr>accounts := filter P (accounts s)\<rparr>))"
  using assms by (intro rebuildIndex_ok) (auto simp: store_ok_def accountIDs_def distinct_map_filter)

lemma RemoveAccount_ok:
  assumes "store_ok s"
  shows "store_ok (RemoveAccount i s)"
proof (cases "removeFirst (heap s) i (accounts s)")
  case (Some ps)
  then have "ps = filter (\<lambda>p. map_option DBID (heap s p) \<noteq> Some i) (accounts s)"
    using assms removeFirst_filter by (auto simp: store_ok_def accountIDs_def)
  then show ?thesis using Some fastSchedulerRemove_ok [OF shrink_ok [OF assms]] by (simp add: RemoveAccount_def)
qed (simp add: RemoveAccount_def assms)

lemma fastSchedulerRemove_sel [simp]:
  "heap (fastSchedulerRemove i s) = heap s" "accounts (fastSchedulerRemove i s) = accounts s"
  "accountsByID (fastSchedulerRemove i s) = accountsByID s"
  by (simp_all add: fastSchedulerRemove_def split: option.split)

lemma RemoveAccounts_ok:
  assumes "store_ok s"
  shows "store_ok (RemoveAccounts ids s)"
proof -
  let ?drop = "\<lambda>p s. case heap s p of Some acc \<Rightarrow> fastSchedulerRemove (DBID acc) s | None \<Rightarrow> s"
  have "store_ok (fold ?drop ps s) \<and> accounts (fold ?drop ps s) = accounts s" if "store_ok s" for ps s
    using that by (induction ps arbitrary: s) (auto simp: fastSchedulerRemove_ok split: option.split)
  then have "store_ok (fold ?drop ps s)" "accounts (fold ?drop ps s) = accounts s" for ps using assms by blast+
  then show ?thesis using shrink_ok [of "fold ?drop ps s" for ps] assms by (simp add: RemoveAccounts_def Let_def)
qed

subsection \<open>Configuration\<close>

lemma updAccounts_ok:
  assumes "\<And>s0 a. DBID (f s0 a) = DBID a" "store_ok s"
  shows "store_ok (fold (\<lambda>p. updAccount p (f s0)) ps s)"
  using assms by (induction ps arbitrary: s) (auto intro: updAccount_ok)

lemma recomputeAll_ok: "store_ok s \<Longrightarrow> store_ok (recomputeAllAccountSchedulerState now s)"
  unfolding recomputeAllAccountSchedulerState_def
  by (rule updAccounts_ok [where f = "\<lambda>m. recomputeSchedulerLocked now m"]) (simp_all add: sel_simps)

lemma recomputeAllPause_ok: "store_ok s \<Longrightarrow> store_ok (recomputeAllEffectiveAutoPause s)"
  unfolding recomputeAllEffectiveAutoPause_def by (rule updAccounts_ok) simp_all

lemma distinct_ids_filter:
  "distinct (map (\<lambda>p. map_option DBID (h p)) ps) \<Longrightarrow> distinct (List.map_filter (\<lambda>p. map_option DBID (h p)) ps)"
proof (induction ps)
  case (Cons p ps)
  then show ?case by (cases "h p") (auto simp: map_filter_simps map_filter_def image_iff) 
qed (simp add: map_filter_simps)

text \<open>A rebuild replaces the scheduler, so nothing is asked of the one before.\<close>

lemma rebuildFast_fresh:
  assumes ok: "store_ok (s\<lparr>fastScheduler := None\<rparr>)" and on: "fastSchedulerEnabled s"
  shows "store_ok (rebuildFastScheduler now s)"
proof -
  let ?n = "NewFastScheduler (maxConcurrency s) (GetSchedulerMode s)"
  have d: "distinct (List.map_filter (\<lambda>p. map_option DBID (heap s p)) (accounts s))"
    by (rule distinct_ids_filter) (use ok in \<open>simp add: store_ok_def accountIDs_def\<close>)
  note facts = Rebuild_facts(1,2) [where s = ?n and now = now, OF d]
  show ?thesis
    using facts keeps_ids_refreshed [OF facts(1)] on
    by (intro store_ok_transfer [OF ok])
      (auto simp: rebuildFastScheduler_def Let_def BuildFastScheduler_def SetGroupCheck_def)
qed

lemma store_ok_noFast: "store_ok s \<Longrightarrow> store_ok (s\<lparr>fastScheduler := None\<rparr>)"
  by (rule store_ok_transfer) simp_all

lemma rebuildFast_ok: "store_ok s \<Longrightarrow> store_ok (rebuildFastScheduler now s)"
  by (cases "fastSchedulerEnabled s") (simp_all add: rebuildFast_fresh store_ok_noFast, simp add: rebuildFastScheduler_def)

lemma store_ok_config [simp]:
  "store_ok (s\<lparr>fastSchedulerEnabled := b\<rparr>) = store_ok s"
  "store_ok (s\<lparr>maxConcurrency := n\<rparr>) = store_ok s"
  "store_ok (s\<lparr>schedulerMode := m\<rparr>) = store_ok s"
  "store_ok (s\<lparr>affinityMode := m\<rparr>) = store_ok s"
  "store_ok (s\<lparr>apiKeyAllowedGroups := g, apiKeyAllowedGroupSets := gs\<rparr>) = store_ok s"
  "store_ok (s\<lparr>globalAutoPause5hThreshold := x, globalAutoPause7dThreshold := y\<rparr>) = store_ok s"
  "store_ok (s\<lparr>groupAutoPauseThresholds := t\<rparr>) = store_ok s"
  "store_ok (s\<lparr>proxyRoundRobin := r\<rparr>) = store_ok s"
  "store_ok (s\<lparr>lazyMode := b\<rparr>) = store_ok s"
  by (simp_all add: store_ok_def accountIDs_def)

lemma withFast_ok:
  assumes "store_ok s" "getFastScheduler s = Some f" "\<And>h. fs_wf h f \<Longrightarrow> fs_wf h f'" "fsGroupCheck f' = fsGroupCheck f"
  shows "store_ok (s\<lparr>fastScheduler := Some f'\<rparr>)"
  by (rule store_ok_transfer [OF assms(1)])
    (use assms getFastScheduler_wf [OF assms(1,2)] getFastScheduler_check [OF assms(1,2)] in auto)

lemma SetEnabled_ok: "store_ok s \<Longrightarrow> store_ok (SetFastSchedulerEnabled now b s)"
  by (simp add: SetFastSchedulerEnabled_def Let_def rebuildFast_ok recomputeAll_ok store_ok_noFast)

lemma SetMax_ok: "store_ok s \<Longrightarrow> store_ok (SetMaxConcurrency now n s)"
proof -
  assume ok: "store_ok s"
  let ?s = "s\<lparr>maxConcurrency := n\<rparr>"
  have "store_ok (?s\<lparr>fastScheduler := Some (SetBaseLimit n f)\<rparr>)" if "getFastScheduler ?s = Some f" for f
    by (rule withFast_ok [OF _ that]) (use ok in \<open>simp_all add: SetBaseLimit_def fs_wf_def exact_on_def tagged_def\<close>)
  then show ?thesis
    using ok by (simp add: SetMaxConcurrency_def Let_def rebuildFast_ok recomputeAll_ok split: option.split)
qed

lemma SetMode_check: "fsGroupCheck (SetSchedulerMode h mode f) = fsGroupCheck f"
proof -
  have "fsGroupCheck (fold (resortTier h) ts f) = fsGroupCheck f" for ts f
    by (induction ts arbitrary: f) simp_all
  then show ?thesis by (simp add: SetSchedulerMode_def)
qed

lemma SetMode_ok: "store_ok s \<Longrightarrow> store_ok (StoreSetSchedulerMode mode s)"
proof -
  assume ok: "store_ok s"
  have "store_ok (s1\<lparr>fastScheduler := Some (SetSchedulerMode h m f)\<rparr>)" if "getFastScheduler s1 = Some f" "store_ok s1" for h m f s1
    by (rule withFast_ok [OF that(2,1)]) (simp_all add: SetSchedulerMode_wf SetMode_check)
  then show ?thesis using ok by (auto simp: StoreSetSchedulerMode_def Let_def split: option.split)
qed

lemma SetGroups_ok: "store_ok s \<Longrightarrow> store_ok (SetAPIKeyAllowedGroups now k ids s)"
  by (simp add: SetAPIKeyAllowedGroups_def Let_def rebuildFast_ok)

subsection \<open>Reports, bindings and releases\<close>

lemma cached_ops_ok [simp]:
  "store_ok (setCachedAccountCooldown now i reason t s) = store_ok s"
  "store_ok (setCachedModelCooldown now i c s) = store_ok s"
  "store_ok (deleteCachedModelCooldown i model s) = store_ok s"
  by (simp_all add: setCachedAccountCooldown_def setCachedModelCooldown_def deleteCachedModelCooldown_def Let_def split: option.split)

lemma onAccount_ok:
  assumes "store_ok s" "\<And>a. DBID (f a) = DBID a" "\<And>a s. store_ok s \<Longrightarrow> store_ok (after a s)"
  shows "store_ok (onAccount now p f after s)"
  using assms by (simp add: onAccount_def fastSchedulerUpdate_ok updAccount_ok split: option.split)

lemma reports_ok:
  assumes "store_ok s"
  shows "store_ok (markCooldown now p d reason msg s)" "store_ok (MarkModelCooldown now p model d reason s)"
    "store_ok (ClearModelCooldown now p model s)" "store_ok (MarkError now p fallback msg s)"
    "store_ok (ClearCooldown now p s)" "store_ok (RecordManualTestSuccess now p d s)"
    "store_ok (ReportRequestSuccess now p d s)" "store_ok (ReportRequestFailure now p kind d s)"
    "store_ok (MarkPremium5hRateLimited now p t s)"
  using assms
  by (simp_all add: markCooldown_def MarkModelCooldown_def ClearModelCooldown_def MarkError_def ClearCooldown_def
      RecordManualTestSuccess_def ReportRequestSuccess_def ReportRequestFailure_def MarkPremium5hRateLimited_def
      onAccount_ok fastSchedulerUpdate_ok updAccount_ok Let_def split: option.split)

lemma applies_ok:
  assumes "store_ok s"
  shows "store_ok (fst (ApplyAccountGroups now i gs s))" "store_ok (fst (ApplyAccountEnabled now i b s))"
    "store_ok (fst (ApplyAccountSchedulerOverrides now i bias base skip s))"
    "store_ok (fst (ApplyAccountAllowedAPIKeys now i ids s))"
  using assms
  by (simp_all add: ApplyAccountGroups_def ApplyAccountEnabled_def ApplyAccountSchedulerOverrides_def
      ApplyAccountAllowedAPIKeys_def fastSchedulerUpdate_ok updAccount_ok sel_simps split: option.split)

lemma thresholds_ok:
  assumes "store_ok s"
  shows "store_ok (SetGlobalAutoPauseThresholds x y s)" "store_ok (SetGroupAutoPauseThresholds g x y s)"
    "store_ok (DeleteGroupAutoPauseThresholds g s)"
  using assms
  by (simp_all add: SetGlobalAutoPauseThresholds_def SetGroupAutoPauseThresholds_def DeleteGroupAutoPauseThresholds_def
      recomputeAllPause_ok)

lemma memberships_ok: "store_ok s \<Longrightarrow> store_ok (ApplyAccountGroupMemberships now ms s)"
proof -
  have "store_ok s \<Longrightarrow> store_ok (fold (\<lambda>p s. fastSchedulerUpdate now p (updAccount p (\<lambda>a. recomputeEffectiveAutoPause s
      (a\<lparr>GroupIDs := (case ms (DBID a) of None \<Rightarrow> [] | Some gs \<Rightarrow> gs)\<rparr>)) s)) ps s)" for ps
    by (induction ps arbitrary: s) (simp_all add: fastSchedulerUpdate_ok updAccount_ok)
  then show "store_ok s \<Longrightarrow> ?thesis" by (simp add: ApplyAccountGroupMemberships_def)
qed

lemma LoadGroups_ok: "store_ok s \<Longrightarrow> store_ok (LoadAPIKeyAllowedGroups now keys s)"
  by (simp add: LoadAPIKeyAllowedGroups_def Let_def rebuildFast_ok split: option.split)

text \<open>Start-up: a new store, then the groups of the keys.\<close>

lemma startup_ok: "store_ok (LoadAPIKeyAllowedGroups now (Some keys) (NewStore tc st env proxies))"
proof -
  let ?n = "NewStore tc st env proxies"
  have none: "store_ok (?n\<lparr>fastScheduler := None\<rparr>)" by (simp add: NewStore_def Let_def store_ok_def accountIDs_def)
  have "store_ok (?n\<lparr>apiKeyAllowedGroups := g, apiKeyAllowedGroupSets := gs, fastScheduler := None\<rparr>)" for g gs
    by (simp add: NewStore_def Let_def store_ok_def accountIDs_def)
  then have "store_ok (rebuildFastScheduler now (?n\<lparr>apiKeyAllowedGroups := g, apiKeyAllowedGroupSets := gs\<rparr>))" for g gs
  proof (cases "fastSchedulerEnabled ?n")
    case False
    then have "fastScheduler ?n = None" by (simp add: NewStore_def Let_def)
    then have "?n\<lparr>fastScheduler := None\<rparr> = ?n" by simp
    then show ?thesis using False none by (simp add: rebuildFastScheduler_def)
  qed (simp add: rebuildFast_fresh)
  then show ?thesis by (simp add: LoadAPIKeyAllowedGroups_def Let_def)
qed

lemma bindings_ok:
  assumes "store_ok s"
  shows "store_ok (bindSessionAffinity now ttl key p url s)" "store_ok (UnbindSessionAffinity key i s)"
proof -
  have "store_ok (s\<lparr>sessionBindings := b, tokenCache := c\<rparr>)" for b c using assms by simp
  then show "store_ok (bindSessionAffinity now ttl key p url s)"
    using assms by (simp add: bindSessionAffinity_def Let_def split: option.split)
  show "store_ok (UnbindSessionAffinity key i s)" using assms by (simp add: UnbindSessionAffinity_def Let_def)
qed

subsection \<open>The machine\<close>

inductive store_step :: "Store \<Rightarrow> Store \<Rightarrow> bool" where
  add: "heap s p = None \<Longrightarrow> Some (DBID acc) \<notin> set (accountIDs s) \<Longrightarrow> store_step s (AddAccount now p acc s)"
| remove: "store_step s (RemoveAccount i s)"
| removeMany: "store_step s (RemoveAccounts ids s)"
| setEnabled: "store_step s (SetFastSchedulerEnabled now b s)"
| setMax: "store_step s (SetMaxConcurrency now n s)"
| setMode: "store_step s (StoreSetSchedulerMode mode s)"
| setGroups: "store_step s (SetAPIKeyAllowedGroups now k ids s)"
| setLazy: "store_step s (SetLazyMode now b s)"
| loadGroups: "store_step s (LoadAPIKeyAllowedGroups now keys s)"
| memberships: "store_step s (ApplyAccountGroupMemberships now ms s)"
| setAffinity: "store_step s (SetAffinityMode mode s)"
| globalThresholds: "store_step s (SetGlobalAutoPauseThresholds x y s)"
| groupThresholds: "store_step s (SetGroupAutoPauseThresholds g x y s)"
| deleteThresholds: "store_step s (DeleteGroupAutoPauseThresholds g s)"
| cooldown: "store_step s (markCooldown now p d reason msg s)"
| modelCooldown: "store_step s (MarkModelCooldown now p model d reason s)"
| clearModel: "store_step s (ClearModelCooldown now p model s)"
| error: "store_step s (MarkError now p fallback msg s)"
| clearCooldown: "store_step s (ClearCooldown now p s)"
| testSuccess: "store_step s (RecordManualTestSuccess now p d s)"
| success: "store_step s (ReportRequestSuccess now p d s)"
| failure: "store_step s (ReportRequestFailure now p kind d s)"
| premium: "store_step s (MarkPremium5hRateLimited now p t s)"
| applyGroups: "store_step s (fst (ApplyAccountGroups now i gs s))"
| applyEnabled: "store_step s (fst (ApplyAccountEnabled now i b s))"
| applyOverrides: "store_step s (fst (ApplyAccountSchedulerOverrides now i bias base skip s))"
| applyKeys: "store_step s (fst (ApplyAccountAllowedAPIKeys now i ids s))"
| proxy: "store_step s (fst (NextProxy s))"
| bind: "store_step s (bindSessionAffinity now ttl key p url s)"
| unbind: "store_step s (UnbindSessionAffinity key i s)"
| select: "store_step s (fst (NextForSessionWithFilter q ttl key s))"
| release: "store_step s (storeRelease p s)"

lemma store_step_ok: "store_step s t \<Longrightarrow> store_ok s \<Longrightarrow> store_ok t"
proof (induction rule: store_step.induct)
  case (select s q ttl key)
  then show ?case using NextForSession_ok [OF select, of q ttl key] by (auto simp: pick_ok_def split: prod.splits)
qed (simp_all add: AddAccount_ok RemoveAccount_ok RemoveAccounts_ok SetEnabled_ok SetMax_ok SetMode_ok SetGroups_ok
    SetLazyMode_def LoadGroups_ok memberships_ok rebuildFast_ok
    SetAffinityMode_def thresholds_ok reports_ok applies_ok NextProxy_def Let_def bindings_ok storeRelease_ok)

interpretation store_machine: invariant_machine store_step store_ok
  by unfold_locales (rule store_step_ok)

end
