(* ===== verification/Slots.thy ===== *)
theory Slots
  imports StoreInvariant
begin

section \<open>Slots of accounts\<close>

text \<open>
  The requests that an account is serving are counted in its field \<open>ActiveRequests\<close>, which is all that keeps
  an account below its limit. This theory shows which operations leave all these counters alone, and
  that a selection, on each of its paths, takes exactly one slot of the account it returns and none
  when it returns nothing.
\<close>

definition slots :: "account_heap \<Rightarrow> ptr \<rightharpoonup> int" where
  "slots h = (\<lambda>p. map_option ActiveRequests (h p))"

text \<open>The slots after a selection that returned \<open>r\<close>.\<close>

definition took :: "account_heap \<Rightarrow> account_heap \<Rightarrow> ptr option \<Rightarrow> bool" where
  "took h h' r \<longleftrightarrow>
     (case r of
        None \<Rightarrow> slots h' = slots h
      | Some p \<Rightarrow> (\<exists>n. slots h p = Some n \<and> slots h' = (slots h)(p \<mapsto> n + 1)))"

lemma took_None [simp]: "took h h' None \<longleftrightarrow> slots h' = slots h"
  by (simp add: took_def)

lemma took_trans: "slots h1 = slots h \<Longrightarrow> took h1 h2 r \<Longrightarrow> took h h2 r"
  unfolding took_def by (cases r) simp_all

lemma took_after: "took h h1 r \<Longrightarrow> slots h2 = slots h1 \<Longrightarrow> took h h2 r"
  by (simp add: took_def split: option.splits)

lemma slots_upd: "h p = Some a \<Longrightarrow> ActiveRequests a' = ActiveRequests a \<Longrightarrow> slots (h(p \<mapsto> a')) = slots h"
  by (rule ext) (simp add: slots_def)

lemma slots_take: "h p = Some a \<Longrightarrow> ActiveRequests a' = ActiveRequests a + 1 \<Longrightarrow> took h (h(p \<mapsto> a')) (Some p)"
  by (auto simp: took_def slots_def)

text \<open>A release gives back what a selection took.\<close>

lemma slots_release: "took h h1 (Some p) \<Longrightarrow> slots h2 = slots h1 \<Longrightarrow> slots (Release p h2) = slots h"
proof -
  assume t: "took h h1 (Some p)" and e: "slots h2 = slots h1"
  obtain n where n: "slots h p = Some n" "slots h2 = (slots h)(p \<mapsto> n + 1)" using t e by (auto simp: took_def)
  then obtain a where a: "h2 p = Some a" "ActiveRequests a = n + 1" by (auto simp: slots_def fun_eq_iff split: if_splits)
  have "slots (Release p h2) q = slots h q" for q
  proof (cases "q = p")
    case True
    then show ?thesis using a n(1) by (auto simp: Release_def releaseAccount_def slots_def)
  next
    case False
    then have "slots (Release p h2) q = slots h2 q" using a by (simp add: Release_def slots_def)
    then show ?thesis using n(2) False by simp
  qed
  then show ?thesis by blast
qed

subsection \<open>Operations that leave the slots alone\<close>

lemma slots_refreshed: "refreshed b now h h' \<Longrightarrow> slots h' = slots h"
proof (rule ext)
  fix p assume "refreshed b now h h'"
  then show "slots h' p = slots h p" using refreshed_cases [of b now h h' p] by (auto simp: slots_def sel_simps)
qed

lemma slots_Update: "slots (fst (Update now p (h, f))) = slots h"
proof (cases "h p")
  case (Some a)
  then show ?thesis using slots_refreshed [OF insertLocked_heap] by (simp add: Update_def)
qed (simp add: Update_def)

lemma slots_fastSchedulerUpdate [simp]: "slots (heap (fastSchedulerUpdate now p s)) = slots (heap s)"
  by (simp add: fastSchedulerUpdate_def Let_def slots_Update split: option.split)

lemma slots_updAccount:
  assumes "\<And>a. ActiveRequests (f a) = ActiveRequests a"
  shows "slots (heap (updAccount p f s)) = slots (heap s)"
  by (rule ext) (auto simp: updAccount_def slots_def assms option.map_comp comp_def)

lemma record_active [simp]:
  "ActiveRequests (recordResultLocked b a) = ActiveRequests a" "ActiveRequests (recordLatencyLocked d a) = ActiveRequests a"
  by (simp_all add: recordResultLocked_def recordLatencyLocked_def Let_def)

lemma account_ops_active [simp]:
  "ActiveRequests (fst (markCooldownAccount now base d reason msg a)) = ActiveRequests a"
  "ActiveRequests (MarkErrorAccount now base fallback msg a) = ActiveRequests a"
  "ActiveRequests (ReportRequestSuccessAccount now base d a) = ActiveRequests a"
  "ActiveRequests (ReportRequestFailureAccount now base kind d a) = ActiveRequests a"
  "ActiveRequests (fst (MarkModelCooldownAccount now base model d reason a)) = ActiveRequests a"
  "ActiveRequests (fst (MarkPremium5hRateLimitedAccount now base resetAt a)) = ActiveRequests a"
  "ActiveRequests (ApplyUsageLimitMetadataAccount now base plan resetAt a) = ActiveRequests a"
  "ActiveRequests (cachedCooldownAccount now base r a) = ActiveRequests a"
  by (simp_all add: markCooldownAccount_def MarkErrorAccount_def SetCooldownUntil_def ApplyUsageLimitMetadataAccount_def
      ReportRequestSuccessAccount_def ReportRequestFailureAccount_def MarkModelCooldownAccount_def cachedCooldownAccount_def
      MarkPremium5hRateLimitedAccount_def Let_def sel_simps split: option.split)

lemma heap_cached_cooldowns [simp]:
  "heap (setCachedAccountCooldown now i reason t s) = heap s" "heap (setCachedModelCooldown now i c s) = heap s"
  "heap (deleteCachedAccountCooldown i s) = heap s"
  by (simp_all add: setCachedAccountCooldown_def setCachedModelCooldown_def deleteCachedAccountCooldown_def Let_def
      split: option.split)

lemma slots_onAccount:
  assumes "\<And>a. ActiveRequests (f a) = ActiveRequests a" "\<And>a s. heap (after a s) = heap s"
  shows "slots (heap (onAccount now p f after s)) = slots (heap s)"
  using slots_updAccount [of f, OF assms(1)] by (simp add: onAccount_def assms(2) split: option.split)

lemma slots_reports [simp]:
  "slots (heap (markCooldown now p d reason msg s)) = slots (heap s)"
  "slots (heap (MarkModelCooldown now p model d reason s)) = slots (heap s)"
  "slots (heap (MarkError now p fallback msg s)) = slots (heap s)"
  "slots (heap (ReportRequestSuccess now p d s)) = slots (heap s)"
  "slots (heap (ReportRequestFailure now p kind d s)) = slots (heap s)"
  "slots (heap (MarkPremium5hRateLimited now p t s)) = slots (heap s)"
  by (simp_all add: markCooldown_def MarkModelCooldown_def MarkError_def ReportRequestSuccess_def ReportRequestFailure_def
      MarkPremium5hRateLimited_def slots_onAccount)

lemma slots_bindings [simp]:
  "heap (bindSessionAffinity now ttl key p proxy s) = heap s" "heap (UnbindSessionAffinity key i s) = heap s"
  "heap (dropBinding key i s) = heap s" "heap (countReuse key i s) = heap s" "heap (triggerLazyRefreshAsync acc s) = heap s"
  by (simp_all add: bindSessionAffinity_def UnbindSessionAffinity_def dropBinding_def countReuse_def triggerLazyRefreshAsync_def
      Let_def split: option.split)

lemma slots_hasCached [simp]: "slots (heap (fst (accountHasCachedCooldown now p s))) = slots (heap s)"
  by (rule hasCached_cases [of now p s]) (simp_all add: applyCachedAccountCooldown_def slots_updAccount)

lemma slots_hasCached_eq: "accountHasCachedCooldown now p s = (s', b) \<Longrightarrow> slots (heap s') = slots (heap s)"
  using slots_hasCached [of now p s] by simp

lemma slots_Remove [simp]: "heap (RemoveAccount i s) = heap s"
  by (simp add: RemoveAccount_def fastSchedulerRemove_def rebuildAccountIndex_def Let_def split: option.split)

subsection \<open>A selection takes one slot\<close>

definition resultOf :: "scan_result \<Rightarrow> ptr option" where
  "resultOf r = (case r of ScanAcquired p \<Rightarrow> Some p | _ \<Rightarrow> None)"

lemma scanEntry_took:
  assumes "scanEntry q t e h s = (h', s', r)"
  shows "took h h' (resultOf r)"
  using scanEntry_cases [OF assms]
proof (elim disjE exE conjE)
  fix h1 assume h: "r = ScanStale" "refreshes q s h h1" "(h', s') = replaceStale q e h1 s"
  have "slots h' = slots h1" using slots_refreshed [OF replaceStale_heap, of q e h1 s] h(3) by (metis fst_conv)
  then show ?thesis using slots_refreshed [OF h(2)] h(1) by (simp add: resultOf_def)
next
  fix h1 a assume h: "r = ScanAcquired (entAcc e)" "refreshes q s h h1" "h1 (entAcc e) = Some a" "h' = h1(entAcc e \<mapsto> acquired_at q a)"
  have "took h1 h' (Some (entAcc e))" unfolding h(4) using slots_take [of h1 "entAcc e" a] h(3) by (simp add: acquired_at_def)
  then show ?thesis using took_trans [OF slots_refreshed [OF h(2)]] h(1) by (simp add: resultOf_def)
qed (auto simp: resultOf_def dest: slots_refreshed)

lemma scanLoop_took: "scanLoop q t bucket start offs h s = (h', s', r) \<Longrightarrow> took h h' (resultOf r)"
proof (induction offs arbitrary: h s)
  case (Cons off offs)
  let ?idx = "(start + int off) smod int (length bucket)"
  obtain h1 s1 r1 where e: "scanEntry q t (bucket ! nat ?idx) h s = (h1, s1, r1)" by (metis prod.collapse)
  note t = scanEntry_took [OF e]
  show ?case
  proof (cases "?idx < 0")
    case False
    then show ?thesis using Cons.prems e t Cons.IH [of h1 s1] took_trans [of h1 h h' "resultOf r"]
      by (cases r1) (simp_all add: resultOf_def Let_def)
  qed (use Cons.prems in \<open>simp add: Let_def resultOf_def\<close>)
qed (simp add: resultOf_def)

lemma acquireTiers_took: "acquireTiers q tiers h s = (h', s', r) \<Longrightarrow> took h h' (resultOf r)"
proof (induction tiers arbitrary: h s)
  case (Cons x tiers)
  obtain i t where x: "x = (i, t)" by (cases x)
  let ?cur = "if fsMode s = ''remaining_quota'' then 0 else fsCursors s i"
  let ?s = "if fsMode s = ''remaining_quota'' then s else s\<lparr>fsCursors := (fsCursors s)(i := ?cur + 1)\<rparr>"
  obtain h1 s1 r1 where e: "scanRangeLocked q t ?cur h ?s = (h1, s1, r1)" by (metis prod.collapse)
  have t: "took h h1 (resultOf r1)"
    using e scanLoop_took [of q t _ _ _ h ?s h1 s1 r1] by (auto simp: scanRangeLocked_def Let_def resultOf_def split: if_splits)
  show ?case
  proof (cases "fsBuckets s t = []")
    case True
    then show ?thesis using Cons x by simp
  next
    case False
    then have eq: "acquireTiers q (x # tiers) h s = (case (h1, s1, r1) of (h', s', ScanNone) \<Rightarrow> acquireTiers q tiers h' s' | r \<Rightarrow> r)"
      unfolding x acquireTiers.simps Let_def e by simp
    show ?thesis
    proof (cases "r1 = ScanNone")
      case True
      then have "acquireTiers q tiers h1 s1 = (h', s', r)" using Cons.prems eq by simp
      then have "took h1 h' (resultOf r)" by (rule Cons.IH)
      moreover have "slots h1 = slots h" using t True by (simp add: resultOf_def)
      ultimately show ?thesis by (rule took_trans [rotated])
    next
      case f: False
      then have "(h', s', r) = (h1, s1, r1)" using eq Cons.prems by (cases r1) simp_all
      then show ?thesis using t by simp
    qed
  qed
qed (simp add: resultOf_def)

lemma acquireLoop_took: "acquireLoop fuel q h s = Some (h', s', r) \<Longrightarrow> took h h' (resultOf r)"
proof (induction fuel arbitrary: h s)
  case (Suc fuel)
  obtain h1 s1 r1 where e: "acquireTiers q (enumerate 0 fastSchedulerTierOrder) h s = (h1, s1, r1)" by (metis prod.collapse)
  note t = acquireTiers_took [OF e]
  show ?case
  proof (cases "r1 = ScanStale")
    case True
    then have "acquireLoop fuel q h1 s1 = Some (h', s', r)" using Suc.prems e by simp
    then have "took h1 h' (resultOf r)" by (rule Suc.IH)
    moreover have "slots h1 = slots h" using t True by (simp add: resultOf_def)
    ultimately show ?thesis by (rule took_trans [rotated])
  next
    case False
    then have "(h', s', r) = (h1, s1, r1)" using Suc.prems e by (cases r1) simp_all
    then show ?thesis using t by simp
  qed
qed simp

text \<open>The slots after a selection on the store.\<close>

definition pickOf :: "pick \<Rightarrow> ptr option" where
  "pickOf r = (case r of Picked p \<Rightarrow> Some p | _ \<Rightarrow> None)"

lemma pickOf_simps [simp]: "pickOf (Picked p) = Some p" "pickOf NoPick = None" "pickOf Stuck = None"
  by (simp_all add: pickOf_def)

definition tookSlot :: "Store \<Rightarrow> Store \<times> pick \<Rightarrow> bool" where
  "tookSlot s r \<longleftrightarrow> took (heap s) (heap (fst r)) (pickOf (snd r))"

lemma tookSlot_NoPick [simp]: "tookSlot s (s', NoPick) \<longleftrightarrow> slots (heap s') = slots (heap s)"
  by (simp add: tookSlot_def)

lemma tookSlot_trans: "slots (heap s1) = slots (heap s) \<Longrightarrow> tookSlot s1 r \<Longrightarrow> tookSlot s r"
  unfolding tookSlot_def by (rule took_trans)

lemma takeSlot_took: "tookSlot s (takeSlot now p limit s)"
proof (cases "heap s p")
  case (Some a)
  show ?thesis
  proof (cases "tryAcquireAccount now limit a")
    case t: (Some a')
    then have "ActiveRequests a' = ActiveRequests a + 1" by (auto simp: tryAcquire_some_iff)
    then show ?thesis using Some t slots_take [of "heap s" p a a'] by (simp add: takeSlot_def tookSlot_def)
  qed (use Some in \<open>simp add: takeSlot_def\<close>)
qed (simp add: takeSlot_def)

lemma scanOne_slots: "slots (heap (fst (scanOne q k p sc))) = slots (heap (fst sc))"
  by (auto simp: scanOne_def Let_def weigh_account sel_simps intro!: slots_upd split: option.split)

lemma scanAll_slots: "scanAll q k s = (s1, c) \<Longrightarrow> slots (heap s1) = slots (heap s)"
proof -
  have "slots (heap (fst (fold (scanOne q k) ps sc))) = slots (heap (fst sc))" for ps sc
    by (induction ps arbitrary: sc) (simp_all add: scanOne_slots)
  then show "scanAll q k s = (s1, c) \<Longrightarrow> slots (heap s1) = slots (heap s)" unfolding scanAll_def by (metis fst_conv)
qed

lemma slowSelect_took: "tookSlot s (slowSelect q n s)"
proof (induction n arbitrary: s)
  case (Suc n)
  obtain s1 c where sc: "scanAll q n s = (s1, c)" by force
  note e1 = scanAll_slots [OF sc]
  show ?case
  proof (cases "cdAcc c")
    case None
    then show ?thesis using sc e1 by simp
  next
    case (Some p)
    obtain s2 b where h: "accountHasCachedCooldown (seNow q) p s1 = (s2, b)" by force
    have e2: "slots (heap s2) = slots (heap s)" using slots_hasCached_eq [OF h] e1 by simp
    obtain s3 r where t: "takeSlot (seNow q) p (cdLimit c) s2 = (s3, r)" by force
    have t2: "tookSlot s2 (s3, r)" using takeSlot_took [of s2 "seNow q" p "cdLimit c"] t by simp
    have "tookSlot s3 (slowSelect q n s3)" "tookSlot s2 (slowSelect q n s2)" by (rule Suc.IH)+
    then show ?thesis using sc Some h t t2 e2 tookSlot_trans [OF e2]
      by (cases b; cases r) (auto simp: tookSlot_def intro: took_trans)
  qed
qed simp

lemma acquireFast_took: "tookSlot s (acquireFast q s)"
proof (cases "getFastScheduler s")
  case (Some f)
  let ?q = "\<lparr>argNow = seNow q, argKey = seKey q, argExclude = seExclude q, argFilter = seFilter q\<rparr>"
  show ?thesis
  proof (cases "AcquireExcludingWithFilter ?q (heap s) f")
    case acq: (Some x)
    obtain h f' r where x: "x = (h, f', r)" by (cases x)
    have "took (heap s) h (resultOf r)" using acq x acquireLoop_took unfolding AcquireExcludingWithFilter_def by blast
    then show ?thesis using Some acq x by (cases r) (simp_all add: acquireFast_def tookSlot_def resultOf_def)
  qed (use Some in \<open>simp add: acquireFast_def tookSlot_def\<close>)
qed (simp add: acquireFast_def)

lemma fastSelect_took: "tookSlot s (fastSelect q n s)"
proof (induction n arbitrary: s)
  case (Suc n)
  obtain s1 r where a: "acquireFast q s = (s1, r)" by force
  have t: "tookSlot s (s1, r)" using acquireFast_took [of s q] a by simp
  show ?case
  proof (cases r)
    case (Picked p)
    obtain s2 b where h: "accountHasCachedCooldown (seNow q) p s1 = (s2, b)" by force
    note e2 = slots_hasCached_eq [OF h]
    have tk: "took (heap s) (heap s1) (Some p)" using t Picked by (simp add: tookSlot_def)
    show ?thesis
    proof (cases b)
      case True
      have "slots (heap (storeRelease p s2)) = slots (heap s)"
        using slots_release [OF tk e2] by (simp add: storeRelease_def)
      then have "tookSlot s (fastSelect q n (storeRelease p s2))" using tookSlot_trans Suc.IH by blast
      then show ?thesis using a Picked h True by simp
    next
      case False
      then show ?thesis using a Picked h took_after [OF tk e2] by (simp add: tookSlot_def)
    qed
  qed (use a t in simp_all)
qed simp

lemma ensureLazy_heap: "ensureLazyDispatchReady now acc s = (s1, b) \<Longrightarrow> heap s1 = heap s"
  by (auto simp: ensureLazyDispatchReady_def split: if_splits)

lemma acquireLazy_took: "tookSlot s (acquireLazyCandidate now p base s)"
proof (cases "heap s p")
  case (Some acc)
  obtain s1 b where e: "ensureLazyDispatchReady now acc s = (s1, b)" by force
  let ?a = "recomputeSchedulerLocked now base acc"
  let ?s2 = "s1\<lparr>heap := (heap s1)(p \<mapsto> ?a)\<rparr>"
  have h: "heap s1 = heap s" by (rule ensureLazy_heap [OF e])
  have "slots (heap ?s2) = slots (heap s)" using slots_upd [of "heap s" p acc ?a] Some h by (simp add: sel_simps)
  then show ?thesis
    using Some e h takeSlot_took [of ?s2 now p "DynamicConcurrencyLimit ?a"] tookSlot_trans [of ?s2 s]
    by (cases b) (simp_all add: acquireLazyCandidate_def Let_def)
qed (simp add: acquireLazyCandidate_def)

lemma lazyScanOne_slots: "slots (heap (lzStore (lazyScanOne q k p z))) = slots (heap (lzStore z))"
  by (auto simp: lazyScanOne_def Let_def weigh_account sel_simps intro!: slots_upd split: option.split)

lemma lazyScan_slots: "slots (heap (lzStore (fold (lazyScanOne q k) ps z))) = slots (heap (lzStore z))"
  by (induction ps arbitrary: z) (simp_all add: lazyScanOne_slots)

lemma lazySelect_took: "tookSlot s (lazySelect q n s)"
proof (induction n arbitrary: s)
  case (Suc n)
  let ?z = "fold (lazyScanOne q n) (accounts s) \<lparr>lzStore = s, lzBest = noCandidate, lzMeta = None\<rparr>"
  let ?s1 = "lzStore ?z"
  have e1: "slots (heap ?s1) = slots (heap s)" by (simp add: lazyScan_slots)
  show ?case
  proof (cases "cdAcc (lzBest ?z)")
    case None
    show ?thesis
    proof (cases "lzMeta ?z")
      case m: (Some p)
      show ?thesis
      proof (cases "heap ?s1 p")
        case (Some acc)
        obtain s2 b where e: "ensureLazyDispatchReady (seNow q) acc ?s1 = (s2, b)" by force
        have "slots (heap s2) = slots (heap s)" using ensureLazy_heap [OF e] e1 by simp
        then show ?thesis using None m Some e tookSlot_trans Suc.IH by (cases b) (simp_all add: Let_def)
      qed (use None m e1 in \<open>simp add: Let_def\<close>)
    qed (use None e1 in \<open>simp add: Let_def\<close>)
  next
    case (Some p)
    obtain s2 b where h: "accountHasCachedCooldown (seNow q) p ?s1 = (s2, b)" by force
    have e2: "slots (heap s2) = slots (heap s)" using slots_hasCached_eq [OF h] e1 by simp
    obtain s3 r where t: "acquireLazyCandidate (seNow q) p (maxConcurrency s) s2 = (s3, r)" by force
    have t2: "tookSlot s (s3, r)" using acquireLazy_took [of s2 "seNow q" p "maxConcurrency s"] t tookSlot_trans [OF e2] by simp
    show ?thesis
    proof (cases b)
      case True
      then show ?thesis using Some h tookSlot_trans [OF e2] Suc.IH by (simp add: Let_def)
    next
      case False
      show ?thesis
      proof (cases "\<exists>p'. r = Picked p'")
        case True
        then show ?thesis using Some h False t t2 by (auto simp: Let_def)
      next
        case np: False
        then have "slots (heap s3) = slots (heap s)" using t2 by (cases r) (simp_all add: tookSlot_def)
        then have "tookSlot s (lazySelect q n s3)" using tookSlot_trans Suc.IH by blast
        then show ?thesis using Some h False t np by (cases r) (simp_all add: Let_def)
      qed
    qed
  qed
qed simp

lemma NextExcluding_took: "tookSlot s (NextExcludingWithFilter q s)"
proof (cases "lazyMode s")
  case True
  then show ?thesis using lazySelect_took by (simp add: NextExcludingWithFilter_def)
next
  case False
  obtain s1 r where f: "fastSelect q 16 s = (s1, r)" by force
  have t: "tookSlot s (s1, r)" using fastSelect_took [of s q 16] f by simp
  show ?thesis
  proof (cases "r = NoPick")
    case True
    then have "tookSlot s (slowSelect q 16 s1)" using t tookSlot_trans slowSelect_took by simp
    then show ?thesis using False f True by (simp add: NextExcludingWithFilter_def)
  next
    case np: False
    then have "NextExcludingWithFilter q s = (s1, r)" using False f by (cases r) (simp_all add: NextExcludingWithFilter_def)
    then show ?thesis using t by simp
  qed
qed

lemma takeByID_took: "tookSlot s (takeByIDExcluding q i s)"
proof (cases "i = 0 \<or> i \<in> seExclude q")
  case False
  show ?thesis
  proof (cases "lookupByIDLocked i s")
    case l: (Some p)
    show ?thesis
    proof (cases "heap s p")
      case (Some acc)
      obtain s1 b where h: "accountHasCachedCooldown (seNow q) p s = (s1, b)" by force
      note e1 = slots_hasCached_eq [OF h]
      let ?snap = "fastSchedulerSnapshot (maxConcurrency s1) (seNow q) acc"
      let ?s2 = "s1\<lparr>heap := (heap s1)(p \<mapsto> fst ?snap)\<rparr>"
      have lz: "tookSlot s (acquireLazyCandidate (seNow q) p (maxConcurrency s1) s1)"
        using tookSlot_trans [OF e1] acquireLazy_took by blast
      have e2: "slots (heap ?s2) = slots (heap s)" if "\<not> b"
        using slots_upd [of "heap s1" p acc "fst ?snap"] hasCached_False_heap [of "seNow q" p s s1] h that Some e1 by (simp add: sel_simps)
      have ts: "tookSlot s (takeSlot (seNow q) p (snLimit (snd ?snap)) ?s2)" if "\<not> b"
        using tookSlot_trans [OF e2 [OF that]] takeSlot_took by blast
      have tests: "tookSlot s (takeByIDExcluding q i s) \<longleftrightarrow> tookSlot s
        (if \<not> (if lazyMode s then accountLazySelectable (seNow q) acc else IsAvailable (seNow q) acc) then (s, NoPick)
         else if b then (s1, NoPick)
         else if \<not> accountAllowedForAPIKey s1 (seKey q) acc \<or> \<not> passes (seFilter q) acc then (s1, NoPick)
         else if lazyMode s1 then acquireLazyCandidate (seNow q) p (maxConcurrency s1) s1
         else if \<not> snAvailable (snd ?snap) \<or> snLimit (snd ?snap) \<le> 0 then (?s2, NoPick)
         else takeSlot (seNow q) p (snLimit (snd ?snap)) ?s2)"
        unfolding takeByIDExcluding_def using False l Some h by (cases b) (simp_all add: Let_def)
      show ?thesis unfolding tests using e1 e2 lz ts by (cases b) simp_all
    qed (use False l in \<open>simp add: takeByIDExcluding_def\<close>)
  qed (use False in \<open>simp add: takeByIDExcluding_def\<close>)
qed (simp add: takeByIDExcluding_def)

definition boundTook :: "Store \<Rightarrow> (Store \<times> ptr \<times> string) + Store \<Rightarrow> bool" where
  "boundTook s r \<longleftrightarrow>
     (case r of Inl (s', p, _) \<Rightarrow> took (heap s) (heap s') (Some p) | Inr s' \<Rightarrow> slots (heap s') = slots (heap s))"

lemma takeByID_eq: "takeByIDExcluding q i s = (s1, r) \<Longrightarrow> took (heap s) (heap s1) (pickOf r)"
  using takeByID_took [of s q i] by (simp add: tookSlot_def)

lemma useLocal_took: "boundTook s (useLocalBinding q key s)"
proof (cases "sessionBindings s key")
  case (Some b)
  obtain s1 r where t: "takeByIDExcluding q (saAccountID b) s = (s1, r)" by force
  show ?thesis using Some t takeByID_eq [OF t] by (cases r) (simp_all add: useLocalBinding_def boundTook_def)
qed (simp add: useLocalBinding_def boundTook_def)

lemma getAffinity_heap: "getCachedSessionAffinity now ttl key s = (s1, b) \<Longrightarrow> heap s1 = heap s"
  by (auto simp: getCachedSessionAffinity_def Let_def split: option.splits if_splits)

lemma useCached_took: "boundTook s (useCachedBinding q ttl key s)"
proof -
  obtain s1 ob where g: "getCachedSessionAffinity (seNow q) ttl key s = (s1, ob)" by force
  note h = getAffinity_heap [OF g]
  show ?thesis
  proof (cases ob)
    case (Some b)
    obtain s2 r where t: "takeByIDExcluding q (saAccountID b) s1 = (s2, r)" by force
    show ?thesis using Some g h t takeByID_eq [OF t] by (cases r) (simp_all add: useCachedBinding_def boundTook_def)
  qed (use g h in \<open>simp add: useCachedBinding_def boundTook_def\<close>)
qed

text \<open>The results of the session operations carry the proxy as well.\<close>

definition sessionTook :: "Store \<Rightarrow> Store \<times> pick \<times> 'a \<Rightarrow> bool" where
  "sessionTook s r \<longleftrightarrow> took (heap s) (heap (fst r)) (pickOf (fst (snd r)))"

lemma NextForSession_took: "sessionTook s (NextForSessionWithFilter q ttl key0 s)"
proof -
  define plain where "plain = (\<lambda>s. let (s', r) = NextExcludingWithFilter q s in (s', r, [] :: string))"
  have p: "sessionTook s0 (plain s0)" for s0
    using NextExcluding_took [of s0 q] by (simp add: plain_def sessionTook_def tookSlot_def split_beta Let_def)
  have eq: "NextForSessionWithFilter q ttl key0 s =
    (if TrimSpace key0 = [] \<or> GetAffinityMode s = ''off'' then plain s
     else case useLocalBinding q (TrimSpace key0) s of
       Inl (s', p, proxy) \<Rightarrow> (s', Picked p, proxy)
     | Inr s1 \<Rightarrow> (case useCachedBinding q ttl (TrimSpace key0) s1 of
                   Inl (s', p, proxy) \<Rightarrow> (s', Picked p, proxy)
                 | Inr s2 \<Rightarrow> plain s2))"
    unfolding NextForSessionWithFilter_def plain_def Let_def by (rule refl)
  have l: "boundTook s (useLocalBinding q (TrimSpace key0) s)" by (rule useLocal_took)
  have c: "boundTook s1 (useCachedBinding q ttl (TrimSpace key0) s1)" for s1 by (rule useCached_took)
  have tr: "sessionTook s0 x \<Longrightarrow> slots (heap s0) = slots (heap s) \<Longrightarrow> sessionTook s x" for s0 and x :: "Store \<times> pick \<times> string"
    unfolding sessionTook_def by (rule took_trans)
  show ?thesis
  proof (cases "TrimSpace key0 = [] \<or> GetAffinityMode s = ''off''")
    case True
    then show ?thesis unfolding eq using p by simp
  next
    case False
    show ?thesis
    proof (cases "useLocalBinding q (TrimSpace key0) s")
      case (Inl a)
      then show ?thesis unfolding eq using l False by (cases a) (simp add: boundTook_def sessionTook_def)
    next
      case (Inr s1)
      then have e1: "slots (heap s1) = slots (heap s)" using l by (simp add: boundTook_def)
      show ?thesis
      proof (cases "useCachedBinding q ttl (TrimSpace key0) s1")
        case c1: (Inl a)
        then show ?thesis unfolding eq using c [of s1] False Inr e1
          by (cases a) (auto simp: boundTook_def sessionTook_def intro: took_trans)
      next
        case c2: (Inr s2)
        then have "slots (heap s2) = slots (heap s)" using c [of s1] e1 by (simp add: boundTook_def)
        then show ?thesis unfolding eq using False Inr c2 tr [OF p] by simp
      qed
    qed
  qed
qed

lemma hasDispatch_slots: "slots (heap (fst (hasDispatchCandidate q ps s))) = slots (heap s)"
proof (induction ps arbitrary: s)
  case (Cons p ps)
  show ?case
  proof (cases "heap s p")
    case (Some acc)
    obtain s1 b where h: "accountHasCachedCooldown (seNow q) p s = (s1, b)" by force
    note e1 = slots_hasCached_eq [OF h]
    define a s2 where as: "a = recomputeSchedulerLocked (seNow q) (maxConcurrency s1) acc" "s2 = s1\<lparr>heap := (heap s1)(p \<mapsto> a)\<rparr>"
    have e2: "slots (heap s2) = slots (heap s)" if "\<not> b"
      using slots_upd [of "heap s1" p acc a] hasCached_False_heap [of "seNow q" p s s1] h that Some e1
      by (simp add: as sel_simps)
    have eq: "hasDispatchCandidate q (p # ps) s =
      (if DBID acc \<in> seExclude q \<or> \<not> (if lazyMode s then accountLazySelectable (seNow q) acc else IsAvailable (seNow q) acc)
       then hasDispatchCandidate q ps s
       else if b \<or> \<not> accountAllowedForAPIKey s1 (seKey q) acc \<or> \<not> passes (seFilter q) acc then hasDispatchCandidate q ps s1
       else if DynamicConcurrencyLimit a > 0 then (s2, True) else hasDispatchCandidate q ps s2)"
      using Some h by (cases b) (simp_all add: Let_def as)
    show ?thesis unfolding eq using e1 e2 Cons.IH by simp
  qed (simp add: Cons.IH)
qed simp

text \<open>Rounds of a wait in which the others take and give back as many slots as they found.\<close>

definition neutral :: "round list \<Rightarrow> bool" where
  "neutral rs \<longleftrightarrow> (\<forall>r \<in> set rs. \<forall>s. slots (heap (snd r s)) = slots (heap s))"

lemma waitRounds_took: "neutral rs \<Longrightarrow> sessionTook s (waitRounds q ttl key rs s)"
proof (induction rs arbitrary: s)
  case (Cons x rs)
  obtain now coin others where x: "x = ((now, coin), others)" by (metis surj_pair)
  let ?q = "q\<lparr>seNow := now, seCoin := coin\<rparr>"
  obtain s1 r proxy where n: "NextForSessionWithFilter ?q ttl key s = (s1, r, proxy)" by (metis surj_pair)
  have t: "took (heap s) (heap s1) (pickOf r)" using NextForSession_took [of s ?q ttl key] n by (simp add: sessionTook_def)
  obtain s2 b where h: "hasDispatchCandidateWithFilter ?q s1 = (s2, b)" by force
  have e2: "slots (heap s2) = slots (heap s1)"
    using hasDispatch_slots [of ?q "accounts s1" s1] h by (simp add: hasDispatchCandidateWithFilter_def)
  have e3: "slots (heap (others s2)) = slots (heap s2)" and nr: "neutral rs" using Cons.prems x by (auto simp: neutral_def)
  show ?case
  proof (cases "r = NoPick")
    case True
    then have e: "slots (heap s1) = slots (heap s)" using t by simp
    then have "sessionTook s (waitRounds q ttl key rs (others s2))"
      using Cons.IH [OF nr, of "others s2"] e2 e3 unfolding sessionTook_def by (metis took_trans)
    then show ?thesis using x n h True e e2 by (cases b) (simp_all add: sessionTook_def Let_def)
  next
    case False
    then have "waitRounds q ttl key (x # rs) s = (s1, r, proxy)" using x n by (cases r) simp_all
    then show ?thesis using t by (simp add: sessionTook_def)
  qed
qed (simp add: sessionTook_def)

lemma WaitForSession_took:
  assumes "neutral rs"
  shows "sessionTook s (WaitForSessionAvailableWithFilter q ttl key rs s)"
proof -
  obtain s1 b where h: "hasDispatchCandidateWithFilter q s = (s1, b)" by force
  have e: "slots (heap s1) = slots (heap s)"
    using hasDispatch_slots [of q "accounts s" s] h by (simp add: hasDispatchCandidateWithFilter_def)
  show ?thesis using waitRounds_took [OF assms, of s1 q ttl key] h e took_trans [OF e]
    by (cases b) (simp_all add: WaitForSessionAvailableWithFilter_def sessionTook_def)
qed

lemma nextRetry_took:
  assumes "\<And>k. neutral (snd (rounds k))"
  shows "sessionTook s (nextRetryAccountForSession q ttl key rounds k r s)"
  using assms
proof (induction q ttl key rounds k r s rule: nextRetryAccountForSession.induct)
  case (1 q ttl key rounds k r s)
  obtain now coin rs where x: "rounds k = ((now, coin), rs)" by (metis surj_pair)
  let ?q = "q\<lparr>seNow := now, seCoin := coin, seExclude := ForSelection r\<rparr>"
  obtain s1 r1 x1 where n: "NextForSessionWithFilter ?q ttl key s = (s1, r1, x1)" by (metis surj_pair)
  have t1: "took (heap s) (heap s1) (pickOf r1)" using NextForSession_took [of s ?q ttl key] n by (simp add: sessionTook_def)
  obtain s2 r2 x2 where w: "WaitForSessionAvailableWithFilter ?q ttl key rs s1 = (s2, r2, x2)" by (metis surj_pair)
  have t2: "took (heap s1) (heap s2) (pickOf r2)"
    using WaitForSession_took [of rs s1 ?q ttl key] w "1.prems" [of k] x by (simp add: sessionTook_def)
  note eq = nextRetryAccountForSession.simps [of q ttl key rounds k r s]
  show ?case
  proof (cases "r1 = NoPick \<and> r2 = NoPick \<and> snd (ResetSoft r)")
    case True
    then have e: "slots (heap s2) = slots (heap s)" using t1 t2 by simp
    have "sessionTook s2 (nextRetryAccountForSession q ttl key rounds (Suc k) (fst (ResetSoft r)) s2)"
      using 1(1) [OF refl x [symmetric] refl refl n [symmetric] refl _ w [symmetric] refl _ _ "1.prems"] True by blast
    then have "sessionTook s (nextRetryAccountForSession q ttl key rounds (Suc k) (fst (ResetSoft r)) s2)"
      unfolding sessionTook_def by (rule took_trans [OF e])
    then show ?thesis unfolding eq using True x n w by simp
  next
    case False
    have t2': "took (heap s) (heap s2) (pickOf r2)" if "r1 = NoPick"
      by (rule took_trans [OF _ t2]) (use t1 that in simp)
    have "nextRetryAccountForSession q ttl key rounds k r s = (if r1 \<noteq> NoPick then (s1, r1, x1, r) else (s2, r2, if r2 = NoPick then [] else x2, r))"
      unfolding eq using False x n w by (cases r1; cases r2) simp_all
    then show ?thesis using t1 t2' by (simp add: sessionTook_def)
  qed
qed

end
