(* ===== verification/ChatHandler.thy ===== *)
theory ChatHandler
  imports Upstream Slots
begin

section \<open>The attempts of a chat request\<close>

text \<open>
  Models the loop of \<open>ChatCompletions\<close> in \<open>proxy/handler_chat.go\<close>: an account is selected and asked; a
  failure is reported, the slot is given back, the session is unbound, the account is excluded and put
  on cooldown, and as long as the budgets of retries last the loop goes on with another account.

  What the world does in an attempt is a record \<open>attemptEnv\<close>: the rounds of the selection, the instants at
  its start and end, and the outcome of the request to the upstream, which is an error, or a response
  together with the error that ended the copying of its body and the number of bytes that reached the
  client. The trace of the attempts is kept beside the state. Usage logs are not modelled.
\<close>

record 'r chatConfig =
  ccGjson :: "'r gjson"
  ccScanFloat :: "string \<Rightarrow> float64"
  ccAutoClean :: bool
  ccErrorText :: "int \<Rightarrow> string \<Rightarrow> string"
  ccMaxRetries :: int
  ccMaxRateLimitRetries :: int
  ccTTL :: duration
  ccModel :: string
  ccKeyID :: int
  ccAffinityKey :: string

datatype upstreamOutcome = Failed goError | Answered upstreamResponse "goError option" nat

record attemptEnv =
  atRounds :: "nat \<Rightarrow> (time \<times> (nat \<Rightarrow> ptr \<Rightarrow> nat)) \<times> round list"
  atStart :: time
  atOutcome :: "ptr \<Rightarrow> string \<Rightarrow> upstreamOutcome"
  atEnd :: time

datatype event = TransportError int | HTTPError int int | StreamBroken int | Served int

record chatState =
  csStore :: Store
  csGeneral :: int
  csRateLimit :: int
  csLastStatus :: int
  csLastBody :: string
  csExclusions :: retryAccountExclusions
  csTrace :: "event list"

definition sessionAffinityKey :: "string \<Rightarrow> int \<Rightarrow> string" where
  "sessionAffinityKey sessionID0 apiKeyID =
     (let sessionID = TrimSpace sessionID0
      in if sessionID = [] \<or> apiKeyID \<le> 0 then sessionID else sessionID @ ''::api-key:'' @ showInt apiKeyID)"

definition resolveProxyForAttempt :: "ptr \<Rightarrow> string \<Rightarrow> Store \<Rightarrow> string" where
  "resolveProxyForAttempt p sticky s =
     (if TrimSpace sticky \<noteq> [] then TrimSpace sticky else ResolveProxyForAccount (Some p) s)"

text \<open>The time that an attempt took, in whole milliseconds.\<close>

definition latency :: "attemptEnv \<Rightarrow> duration" where
  "latency e = (time_Sub (atEnd e) (atStart e) sdiv Millisecond) * Millisecond"

text \<open>What every failed attempt does: report, give the slot back, unbind the session.\<close>

definition giveBack :: "'r chatConfig \<Rightarrow> attemptEnv \<Rightarrow> ptr \<Rightarrow> int \<Rightarrow> string \<Rightarrow> Store \<Rightarrow> Store" where
  "giveBack c e p accountID kind s =
     UnbindSessionAffinity (ccAffinityKey c) accountID
       (storeRelease p (if kind \<noteq> [] then ReportRequestFailure (atEnd e) p kind (latency e) s else s))"

text \<open>The three ends of an attempt: the state, and the reply unless the loop goes on.\<close>

definition transportFailed ::
  "'r chatConfig \<Rightarrow> attemptEnv \<Rightarrow> ptr \<Rightarrow> int \<Rightarrow> goError \<Rightarrow> chatState \<Rightarrow> chatState \<times> reply option" where
  "transportFailed c e p accountID err st =
     (let kind = classifyTransportFailure (Some err);
          retryable = IsRetryableError (Some err) \<or> kind \<noteq> [];
          (retry, general) = (if retryable then shouldRetryRequestError (Some err) (csGeneral st) (ccMaxRetries c)
                              else (False, csGeneral st));
          st' = st\<lparr>csStore := giveBack c e p accountID kind (csStore st), csGeneral := general,
                   csExclusions := MarkHard accountID (csExclusions st), csTrace := csTrace st @ [TransportError accountID]\<rparr>
      in if \<not> retryable then (st', Some (ErrorToGinResponse err))
         else if retry then (st', None)
         else (st', Some (ErrorToGinResponse err)))"

definition httpFailed ::
  "'r chatConfig \<Rightarrow> attemptEnv \<Rightarrow> ptr \<Rightarrow> int \<Rightarrow> upstreamResponse \<Rightarrow> chatState \<Rightarrow> chatState \<times> reply option" where
  "httpFailed c e p accountID resp st =
     (let code = StatusCode resp; body = Body resp;
          s1 = giveBack c e p accountID (classifyHTTPFailure code) (csStore st);
          s2 = fst (applyCooldownForModel (ccGjson c) (ccScanFloat c) (ccAutoClean c) (ccErrorText c code body) (atEnd e) p code body
                      (Some resp) (ccModel c) s1);
          (retry, general, rate) =
            shouldRetryHTTPStatus code (csGeneral st) (csRateLimit st) (ccMaxRetries c) (ccMaxRateLimitRetries c);
          st' = st\<lparr>csStore := s2, csGeneral := general, csRateLimit := rate,
                   csExclusions := MarkHard accountID (csExclusions st), csTrace := csTrace st @ [HTTPError accountID code]\<rparr>
      in if retry then (st'\<lparr>csLastStatus := code, csLastBody := body\<rparr>, None)
         else (st', Some (sendFinalUpstreamError (ccGjson c) code body)))"

definition served ::
  "'r chatConfig \<Rightarrow> attemptEnv \<Rightarrow> ptr \<Rightarrow> int \<Rightarrow> string \<Rightarrow> goError option \<Rightarrow> nat \<Rightarrow> chatState \<Rightarrow> chatState \<times> reply option" where
  "served c e p accountID proxyURL streamErr bytesOut st =
     (let (retry, general) = (if streamErr \<noteq> None \<and> bytesOut = 0
                              then shouldRetryRequestError streamErr (csGeneral st) (ccMaxRetries c) else (False, csGeneral st))
      in if retry
         then (st\<lparr>csStore := giveBack c e p accountID ''stream_break'' (csStore st), csGeneral := general,
                  csTrace := csTrace st @ [StreamBroken accountID]\<rparr>, None)
         else (st\<lparr>csStore := storeRelease p (bindSessionAffinity (atEnd e) (ccTTL c) (ccAffinityKey c) p proxyURL
                    (ReportRequestSuccess (atEnd e) p (latency e) (csStore st))), csGeneral := general,
                  csTrace := csTrace st @ [Served accountID]\<rparr>, Some (PassedThrough bytesOut)))"

definition idOf :: "Store \<Rightarrow> ptr \<Rightarrow> int" where
  "idOf s p = (case heap s p of Some a \<Rightarrow> DBID a | None \<Rightarrow> 0)"

definition attempt :: "'r chatConfig \<Rightarrow> attemptEnv \<Rightarrow> ptr \<Rightarrow> string \<Rightarrow> chatState \<Rightarrow> chatState \<times> reply option" where
  "attempt c e p sticky st =
     (let accountID = idOf (csStore st) p;
          proxyURL = resolveProxyForAttempt p sticky (csStore st);
          st1 = st\<lparr>csStore := bindSessionAffinity (atStart e) (ccTTL c) (ccAffinityKey c) p proxyURL (csStore st)\<rparr>
      in case atOutcome e p proxyURL of
           Failed err \<Rightarrow> transportFailed c e p accountID err st1
         | Answered resp streamErr bytesOut \<Rightarrow>
             if StatusCode resp \<noteq> 200 then httpFailed c e p accountID resp st1
             else served c e p accountID proxyURL streamErr bytesOut st1)"

definition noAccount :: "'r chatConfig \<Rightarrow> chatState \<Rightarrow> reply" where
  "noAccount c st =
     (if csLastStatus st = 429 \<and> csLastBody st \<noteq> [] then sendFinalUpstreamError (ccGjson c) (csLastStatus st) (csLastBody st)
      else NoAccountReply (ccModel c))"

text \<open>The selection of one attempt.\<close>

definition select :: "'r chatConfig \<Rightarrow> attemptEnv \<Rightarrow> chatState \<Rightarrow> Store \<times> pick \<times> string \<times> retryAccountExclusions" where
  "select c e st =
     nextRetryAccountForSession
       \<lparr>seNow = atStart e, seKey = ccKeyID c, seExclude = {},
        seFilter = modelCooldownFilter (atStart e) (csStore st) (ccModel c) None, seCoin = (\<lambda>_ _. 0)\<rparr>
       (ccTTL c) (ccAffinityKey c) (atRounds e) 0 (csExclusions st) (csStore st)"

subsection \<open>The loop ends\<close>

text \<open>The retries that are left.\<close>

definition budget :: "'r chatConfig \<Rightarrow> chatState \<Rightarrow> nat" where
  "budget c st = nat (ccMaxRetries c - csGeneral st) + nat (ccMaxRateLimitRetries c - csRateLimit st)"

text \<open>The ways in which an attempt ends.\<close>

lemma attempt_cases:
  obtains (transport) s0 err where "attempt c e p sticky st = transportFailed c e p (idOf (csStore st) p) err (st\<lparr>csStore := s0\<rparr>)"
      "s0 = bindSessionAffinity (atStart e) (ccTTL c) (ccAffinityKey c) p (resolveProxyForAttempt p sticky (csStore st)) (csStore st)"
  | (http) s0 resp where "attempt c e p sticky st = httpFailed c e p (idOf (csStore st) p) resp (st\<lparr>csStore := s0\<rparr>)"
      "s0 = bindSessionAffinity (atStart e) (ccTTL c) (ccAffinityKey c) p (resolveProxyForAttempt p sticky (csStore st)) (csStore st)"
  | (ok) s0 proxyURL err n where "attempt c e p sticky st = served c e p (idOf (csStore st) p) proxyURL err n (st\<lparr>csStore := s0\<rparr>)"
      "s0 = bindSessionAffinity (atStart e) (ccTTL c) (ccAffinityKey c) p (resolveProxyForAttempt p sticky (csStore st)) (csStore st)"
proof (cases "atOutcome e p (resolveProxyForAttempt p sticky (csStore st))")
  case (Failed err)
  then show ?thesis using transport by (simp add: attempt_def Let_def)
next
  case (Answered resp err n)
  then show ?thesis using http ok by (cases "StatusCode resp = 200") (simp_all add: attempt_def Let_def)
qed

lemma attempt_budget:
  assumes "attempt c e p sticky st = (st', None)"
  shows "budget c st' < budget c st"
  using attempt_cases [of c e p sticky st]
proof cases
  case (transport s0 err)
  then show ?thesis using assms
    by (auto simp: transportFailed_def shouldRetryRequestError_def budget_def Let_def split: if_splits prod.splits)
next
  case (http s0 resp)
  then show ?thesis using assms
    by (auto simp: httpFailed_def shouldRetryHTTPStatus_def budget_def Let_def split: if_splits prod.splits)
next
  case (ok s0 proxyURL err n)
  then show ?thesis using assms
    by (auto simp: served_def shouldRetryRequestError_def budget_def Let_def split: if_splits prod.splits)
qed

lemma budget_store [simp]: "budget c (st\<lparr>csStore := x, csExclusions := y\<rparr>) = budget c st"
  by (simp add: budget_def)

lemma attempt_budget_sym:
  "(st', None) = attempt c e p sticky (st\<lparr>csStore := x, csExclusions := y\<rparr>) \<Longrightarrow> budget c st' < budget c st"
  using attempt_budget [of c e p sticky "st\<lparr>csStore := x, csExclusions := y\<rparr>" st'] by simp

text \<open>\<open>None\<close> as the reply is a panic in the selection.\<close>

function chatLoop :: "'r chatConfig \<Rightarrow> (nat \<Rightarrow> attemptEnv) \<Rightarrow> nat \<Rightarrow> chatState \<Rightarrow> chatState \<times> reply option" where
  "chatLoop c env k st =
     (case select c (env k) st of
        (s1, Picked p, sticky, ex) \<Rightarrow>
          (case attempt c (env k) p sticky (st\<lparr>csStore := s1, csExclusions := ex\<rparr>) of
             (st', None) \<Rightarrow> chatLoop c env (Suc k) st'
           | (st', Some r) \<Rightarrow> (st', Some r))
      | (s1, NoPick, _, ex) \<Rightarrow> (st\<lparr>csStore := s1, csExclusions := ex\<rparr>, Some (noAccount c st))
      | (s1, Stuck, _, ex) \<Rightarrow> (st\<lparr>csStore := s1, csExclusions := ex\<rparr>, None))"
  by pat_completeness auto
termination
  by (relation "measure (\<lambda>(c, env, k, st). budget c st)") (simp_all add: attempt_budget_sym)

declare chatLoop.simps [simp del]

definition newChatState :: "Store \<Rightarrow> chatState" where
  "newChatState s =
     \<lparr>csStore = s, csGeneral = 0, csRateLimit = 0, csLastStatus = 0, csLastBody = [], csExclusions = newRetryAccountExclusions,
      csTrace = []\<rparr>"

end
