(* ===== verification/UpstreamProps.thy ===== *)
theory UpstreamProps
  imports Upstream Slots
begin

section \<open>What a rate limit does to an account\<close>

text \<open>
  The claims on the judgement of upstream errors: the decision on a rate limit gives a rest that lies in
  the future, and applying it keeps the account, or the model on it, out of dispatch for that time.
\<close>

subsection \<open>The account after a report\<close>

text \<open>A report changes the account by its operation; the update of the fast scheduler may recompute its score.\<close>

lemma onAccount_heap:
  assumes "heap s p = Some a" "\<And>a s. heap (after a s) = heap s"
  shows "\<exists>a'. heap (onAccount now p f after s) p = Some a' \<and> (a' = f a \<or> (\<exists>b. a' = fst (fastSchedulerSnapshot b now (f a))))"
proof -
  let ?s = "updAccount p f s"
  have u: "heap ?s p = Some (f a)" using assms(1) by (simp add: updAccount_def)
  have "\<exists>a'. heap (fastSchedulerUpdate now p ?s) p = Some a' \<and> (a' = f a \<or> (\<exists>b. a' = fst (fastSchedulerSnapshot b now (f a))))"
  proof (cases "getFastScheduler ?s")
    case (Some fs)
    have "refreshed (fsBaseLimit (removeLocked (DBID (f a)) fs)) now (heap ?s) (fst (Update now p (heap ?s, fs)))"
      using u insertLocked_heap [of "removeLocked (DBID (f a)) fs" now "heap ?s" p] by (simp add: Update_def)
    from spec [OF this [unfolded refreshed_def], of p] show ?thesis
      using u Some by (auto simp: fastSchedulerUpdate_def Let_def)
  qed (use u in \<open>auto simp: fastSchedulerUpdate_def\<close>)
  then show ?thesis using assms by (simp add: onAccount_def)
qed

lemma snapshot_cooling [simp]:
  "Status (fst (fastSchedulerSnapshot b now a)) = Status a" "CooldownUtil (fst (fastSchedulerSnapshot b now a)) = CooldownUtil a"
  "ModelCooldowns (fst (fastSchedulerSnapshot b now a)) = ModelCooldowns a"
  by (simp_all add: snapshot_account sel_simps)

lemma always_same:
  fixes n :: int
  assumes "\<And>t. t < n \<Longrightarrow> \<exists>x. y = Some x \<and> P t x"
  shows "\<exists>x. y = Some x \<and> (\<forall>t < n. P t x)"
  using assms [of "n - 1"] assms by fastforce

lemma markCooldown_blocks:
  assumes "heap s p = Some a" "t < now + d" "reason \<noteq> ''unauthorized''"
  shows "\<exists>a'. heap (markCooldown now p d reason msg s) p = Some a' \<and> \<not> IsAvailable t a'"
proof -
  let ?f = "\<lambda>a. fst (markCooldownAccount now (maxConcurrency s) d reason msg a)"
  have c: "Status (?f a) = StatusCooldown" "CooldownUtil (?f a) = now + d"
    using assms(3) SetCooldownUntil_cooling by (simp_all add: markCooldownAccount_def Let_def)
  have "\<exists>a'. heap (markCooldown now p d reason msg s) p = Some a' \<and> (a' = ?f a \<or> (\<exists>b. a' = fst (fastSchedulerSnapshot b now (?f a))))"
    unfolding markCooldown_def by (rule onAccount_heap [OF assms(1)]) simp
  then obtain a' where a': "heap (markCooldown now p d reason msg s) p = Some a'" "a' = ?f a \<or> (\<exists>b. a' = fst (fastSchedulerSnapshot b now (?f a)))"
    by blast
  then have "Status a' = StatusCooldown" "CooldownUtil a' = now + d" using c by auto
  then show ?thesis using a'(1) assms(2) cooling_unavailable by simp
qed

lemma premium5h_blocks:
  assumes "heap s p = Some a" "0 \<le> now" "t < resetAt \<or> t < now + 5 * Hour \<and> \<not> now < resetAt"
  shows "\<exists>a'. heap (MarkPremium5hRateLimited now p resetAt s) p = Some a' \<and> \<not> IsAvailable t a'"
proof -
  let ?f = "\<lambda>a. fst (MarkPremium5hRateLimitedAccount now (maxConcurrency s) resetAt a)"
  let ?t = "if resetAt = 0 \<or> \<not> now < resetAt then now + 5 * Hour else resetAt"
  have c: "Status (?f a) = StatusCooldown" "CooldownUtil (?f a) = ?t"
    by (simp_all add: MarkPremium5hRateLimitedAccount_def Let_def sel_simps)
  have "\<exists>a'. heap (MarkPremium5hRateLimited now p resetAt s) p = Some a' \<and>
      (a' = ?f a \<or> (\<exists>b. a' = fst (fastSchedulerSnapshot b now (?f a))))"
    unfolding MarkPremium5hRateLimited_def by (rule onAccount_heap [OF assms(1)]) simp
  then obtain a' where a': "heap (MarkPremium5hRateLimited now p resetAt s) p = Some a'"
    "a' = ?f a \<or> (\<exists>b. a' = fst (fastSchedulerSnapshot b now (?f a)))" by blast
  then have "Status a' = StatusCooldown" "CooldownUtil a' = ?t" using c by auto
  then show ?thesis using a'(1) assms(2,3) cooling_unavailable [of a' t] by (auto simp: go_defs split: if_splits)
qed

lemma modelCooldown_blocks:
  assumes "heap s p = Some a" "normalizeModelCooldownKey model \<noteq> []"
    and "t < mcResetAt (snd (MarkModelCooldownAccount now (maxConcurrency s) model d reason a))"
  shows "\<exists>a'. heap (MarkModelCooldown now p model d reason s) p = Some a' \<and> IsModelRateLimited t model a'"
proof -
  let ?f = "\<lambda>a. fst (MarkModelCooldownAccount now (maxConcurrency s) model d reason a)"
  have c: "ModelCooldowns (?f a) (normalizeModelCooldownKey model) = Some (snd (MarkModelCooldownAccount now (maxConcurrency s) model d reason a))"
    using assms(2) by (simp add: MarkModelCooldownAccount_def Let_def sel_simps)
  have "\<exists>a'. heap (MarkModelCooldown now p model d reason s) p = Some a' \<and>
      (a' = ?f a \<or> (\<exists>b. a' = fst (fastSchedulerSnapshot b now (?f a))))"
    unfolding MarkModelCooldown_def if_not_P [OF assms(2)] by (rule onAccount_heap [OF assms(1)]) simp
  then obtain a' where a': "heap (MarkModelCooldown now p model d reason s) p = Some a'"
    "a' = ?f a \<or> (\<exists>b. a' = fst (fastSchedulerSnapshot b now (?f a)))" by blast
  then have "ModelCooldowns a' (normalizeModelCooldownKey model) = Some (snd (MarkModelCooldownAccount now (maxConcurrency s) model d reason a))"
    using c by auto
  then show ?thesis using a'(1) assms(2,3) by (simp add: IsModelRateLimited_def Let_def)
qed


subsection \<open>The decision\<close>

lemma windowDecision_Some:
  "windowDecision w now = Some d \<Longrightarrow>
   \<exists>reason r. d = accountDecision reason r (time_Sub r now) \<and> (snd w = Some r \<or> r = now + 5 * Hour \<or> r = now + 7 * 24 * Hour)"
  by (auto simp: windowDecision_def Let_def split: codexRateLimitWindow.splits option.splits)

lemma classify_cases:
  obtains (body) r reason where "parseUsageLimitResetAt g body now = Some r"
      "classify429RateLimit g f acc body resp now model = accountDecision reason r (time_Sub r now)"
  | (window) r reason where "snd (classifyCodex429Window f resp now) = Some r \<or> r = now + 5 * Hour \<or> r = now + 7 * 24 * Hour"
      "classify429RateLimit g f acc body resp now model = accountDecision reason r (time_Sub r now)"
  | (fallback) d reason where "d \<in> {5 * Minute, 5 * Hour, 7 * 24 * Hour}" "reason \<noteq> ''rate_limited_5h''"
      "classify429RateLimit g f acc body resp now model = accountDecision reason (now + d) d"
  | (model) reason where "TrimSpace model \<noteq> []"
      "classify429RateLimit g f acc body resp now model =
       \<lparr>dScope = rateLimitScopeModel, dReason = reason, dModel = TrimSpace model, dResetAt = 0, dCooldown = 5 * Minute\<rparr>"
proof (cases "IsUsageLimitReachedError g body \<and> parseUsageLimitResetAt g body now \<noteq> None")
  case True
  then show ?thesis using body by (auto simp: classify429RateLimit_def Let_def)
next
  case noBody: False
  show ?thesis
  proof (cases "windowDecision (classifyCodex429Window f resp now) now")
    case None
    show ?thesis
    proof (cases "IsUsageLimitReachedError g body")
      case True
      then show ?thesis
        using noBody None fallback [of "usageLimitFallbackCooldown g acc body" "''usage_limit''"]
        by (simp add: classify429RateLimit_def usageLimitFallbackCooldown_def Let_def)
    next
      case False
      then show ?thesis
        using None model fallback [of "5 * Minute" "''rate_limited''"]
        by (cases "TrimSpace model = []") (simp_all add: classify429RateLimit_def Let_def)
    qed
  next
    case (Some d)
    then have "classify429RateLimit g f acc body resp now model = d"
      using noBody by (auto simp: classify429RateLimit_def Let_def)
    then show ?thesis using windowDecision_Some [OF Some] window by blast
  qed
qed

lemma usageLimit_heap:
  assumes "heap s p = Some a"
  shows "\<exists>a'. heap (ApplyUsageLimitMetadata now p plan t s) p = Some a'"
  unfolding ApplyUsageLimitMetadata_def using onAccount_heap [OF assms, of "\<lambda>_ s. s"] by blast

text \<open>
  C26: After a rate limit an account rests: the decision of \<open>Apply429Cooldown\<close> concerns the account or the requested
  model. In the first case the account is not available before the decided cooldown has passed, in the second
  the model is refused on this account until the decided instant.\<close>
theorem rate_limited_account_rests:
  assumes "heap s p = Some a" "0 \<le> now" "Apply429Cooldown g f now p body resp model s = (s', d)"
  shows "\<exists>a'. heap s' p = Some a' \<and>
    (dScope d = rateLimitScopeAccount \<and> (\<forall>t < now + dCooldown d. \<not> IsAvailable t a') \<or>
     dScope d = rateLimitScopeModel \<and> (\<forall>t < dResetAt d. IsModelRateLimited t model a'))"
proof -
  define c where "c = classify429RateLimit g f (heap s p) body resp now model"
  define s1 where "s1 = (case parseUsageLimitDetails g body of
      Some u \<Rightarrow> ApplyUsageLimitMetadata now p (ulPlanType u) (dResetAt c) s | None \<Rightarrow> s)"
  obtain a1 where a1: "heap s1 p = Some a1"
    using assms(1) usageLimit_heap [OF assms(1)] unfolding s1_def by (cases "parseUsageLimitDetails g body") (simp, fastforce)
  define m where "m = snd (MarkModelCooldownAccount now (maxConcurrency s1) (dModel c) (dCooldown c) (dReason c) a1)"
  have eq: "(s', d) = (if dScope c = rateLimitScopeModel
      then (MarkModelCooldown now p (dModel c) (dCooldown c) (dReason c) s1,
            c\<lparr>dResetAt := mcResetAt m, dCooldown := time_Sub (mcResetAt m) now\<rparr>)
      else if isPremium5hPlan (PlanType a1) \<and> dScope c = rateLimitScopeAccount \<and> dReason c = ''rate_limited_5h''
      then (MarkPremium5hRateLimited now p (dResetAt c) s1, c)
      else (markCooldown now p (dCooldown c) ''rate_limited'' [] s1, c))"
    unfolding assms(3) [symmetric] Apply429Cooldown_def Let_def c_def [symmetric] s1_def [symmetric] m_def
    using assms(1) a1 by simp
  consider (m) "dScope c = rateLimitScopeModel" "TrimSpace model \<noteq> []" "dModel c = TrimSpace model"
    | (p) "dScope c = rateLimitScopeAccount" "isPremium5hPlan (PlanType a1)" "dReason c = ''rate_limited_5h''"
        "dCooldown c = time_Sub (dResetAt c) now"
    | (a) "dScope c = rateLimitScopeAccount" "\<not> (isPremium5hPlan (PlanType a1) \<and> dReason c = ''rate_limited_5h'')"
    by (rule classify_cases [of g body now f "heap s p" resp model, folded c_def]) (auto simp: accountDecision_def)
  then show ?thesis
  proof cases
    case m
    then have k: "normalizeModelCooldownKey (dModel c) = normalizeModelCooldownKey model" "normalizeModelCooldownKey (dModel c) \<noteq> []"
      by (simp_all add: normalizeModelCooldownKey_def)
    have r: "IsModelRateLimited t (dModel c) = IsModelRateLimited t model" for t by (rule ext) (simp add: IsModelRateLimited_def k(1))
    have "s' = MarkModelCooldown now p (dModel c) (dCooldown c) (dReason c) s1" "dScope d = rateLimitScopeModel" "dResetAt d = mcResetAt m"
      using eq m(1) by simp_all
    moreover have "\<exists>a'. heap (MarkModelCooldown now p (dModel c) (dCooldown c) (dReason c) s1) p = Some a' \<and>
        (\<forall>t < mcResetAt m. IsModelRateLimited t model a')"
      using modelCooldown_blocks [OF a1 k(2), of _ now "dCooldown c" "dReason c", folded m_def, unfolded r] by (rule always_same)
    ultimately show ?thesis by simp
  next
    case p
    have t: "t < now + dCooldown c \<Longrightarrow> t < dResetAt c \<or> t < now + 5 * Hour \<and> \<not> now < dResetAt c" for t
      using p(4) by (auto simp: time_Sub_def max_def min_def go_defs minDuration_def maxDuration_def split: if_splits)
    have "s' = MarkPremium5hRateLimited now p (dResetAt c) s1" "d = c" using eq p by simp_all
    then show ?thesis using always_same [OF premium5h_blocks [OF a1 assms(2) t]] p(1) by simp
  next
    case a
    have "s' = markCooldown now p (dCooldown c) ''rate_limited'' [] s1" "d = c" using eq a by auto
    moreover have "\<exists>a'. heap (markCooldown now p (dCooldown c) ''rate_limited'' [] s1) p = Some a' \<and>
        (\<forall>t < now + dCooldown c. \<not> IsAvailable t a')"
      by (rule always_same, rule markCooldown_blocks [OF a1]) simp_all
    ultimately show ?thesis using a(1) by simp
  qed
qed

text \<open>A response whose body is not JSON.\<close>

definition demoReader :: "jvalue option gjson" where
  "demoReader = sampleGjson (\<lambda>_. None)"

lemma jstep_None: "foldl jstep None ks = None"
  by (induction ks) simp_all

lemma demoReader_empty [simp]:
  "strAt demoReader body path = []" "IsUsageLimitReachedError demoReader body = False" "firstGJSONInt demoReader body paths = 0"
proof -
  show s: "strAt demoReader body path = []" for path
    by (simp add: strAt_def demoReader_def sampleGjson_def jget_def jstep_None)
  show "IsUsageLimitReachedError demoReader body = False"
    by (simp add: IsUsageLimitReachedError_def firstGJSONString_def EqualFold_def ToLower_def s)
  show "firstGJSONInt demoReader body paths = 0"
    by (simp add: firstGJSONInt_def demoReader_def sampleGjson_def jget_def jstep_None)
qed

definition limitedStore :: Store where
  "limitedStore = (NewStore None None False None)\<lparr>heap := [0 \<mapsto> newAccount 7], accounts := [0]\<rparr>"

theorem rate_limited_account_rests_witness:
  "\<exists>a'. heap (fst (Apply429Cooldown demoReader (\<lambda>_. 0) 1000 0 ''slow down'' None [] limitedStore)) 0 = Some a' \<and>
     \<not> IsAvailable (1000 + 4 * Minute) a'"
proof -
  let ?r = "Apply429Cooldown demoReader (\<lambda>_. 0) 1000 0 ''slow down'' None [] limitedStore"
  have h: "heap limitedStore 0 = Some (newAccount 7)" by (simp add: limitedStore_def)
  have "isPremium5hPlan (PlanType (newAccount 7)) = False" by code_simp
  then have "dScope (snd ?r) = rateLimitScopeAccount" "dCooldown (snd ?r) = 5 * Minute"
    by (simp_all add: Apply429Cooldown_def classify429RateLimit_def parseUsageLimitDetails_def classifyCodex429Window_def
        windowDecision_def accountDecision_def h Let_def)
  then show ?thesis
    using rate_limited_account_rests [OF h, of 1000 demoReader "\<lambda>_. 0" "''slow down''" None "[]" "fst ?r" "snd ?r"]
    by (auto simp: go_defs)
qed

subsection \<open>The rest lies in the future\<close>

lemma parsed_reset_future:
  assumes "parseUsageLimitResetAt g body now = Some r"
    and "firstGJSONInt g body [''error.resets_in_seconds'', ''response.error.resets_in_seconds'', ''response.status_details.error.resets_in_seconds'']
      \<le> 9223372036"
  shows "now < r"
  using assms by (auto simp: parseUsageLimitResetAt_def parseRetryAfterResetAt_def Let_def go_defs wrap64_id split: if_splits)

definition readable :: "codexWindowUsage \<Rightarrow> bool" where
  "readable w \<longleftrightarrow> resetSec w \<le> 0 \<or> 1 \<le> resetSec w \<and> resetSec w < 9223372036"

lemma seconds_fit: "1 \<le> k \<Longrightarrow> k < 9223372036 \<Longrightarrow> wrap64 (k * Second) = k * Second"
  by (rule wrap64_id) (simp_all add: go_defs)

lemma truncSeconds_pos: "1 \<le> x \<Longrightarrow> x < 9223372036 \<Longrightarrow> 0 < truncSeconds x"
proof -
  assume x: "1 \<le> x" "x < 9223372036"
  then have b: "1 \<le> \<lfloor>x\<rfloor>" "\<lfloor>x\<rfloor> < 9223372036" by linarith+
  then have "wrap64 (\<lfloor>x\<rfloor> * Second) = \<lfloor>x\<rfloor> * Second" by (rule seconds_fit)
  then show ?thesis using x(1) b(1) by (simp add: truncSeconds_def go_defs)
qed

lemma chosen_window:
  "fold (\<lambda>c x. if windowMin c > windowMin x then c else x) ws w \<in> set (w # ws)"
proof (induction ws arbitrary: w)
  case (Cons v ws)
  show ?case using Cons [of "if windowMin v > windowMin w then v else w"] by (auto split: if_splits)
qed simp

lemma window_reset_future:
  assumes "snd (classifyCodex429Window f (Some rp) now) = Some r" "\<forall>w \<in> set (exhaustedWindows f rp). readable w"
  shows "now < r"
proof (cases "exhaustedWindows f rp")
  case (Cons w ws)
  let ?c = "fold (\<lambda>c x. if windowMin c > windowMin x then c else x) ws w"
  have r: "0 < resetSec ?c" "r = now + truncSeconds (resetSec ?c)"
    using assms(1) Cons by (auto simp: classifyCodex429Window_def Let_def split: if_splits)
  have "readable ?c" by (rule bspec [OF assms(2)]) (unfold Cons, rule chosen_window)
  then show ?thesis using r truncSeconds_pos [of "resetSec ?c"] by (auto simp: readable_def)
qed (use assms in \<open>simp add: classifyCodex429Window_def\<close>)

text \<open>
  Supplement: The rest that \<open>classify429RateLimit\<close> decides on lies in the future: if the seconds of the body fit a duration and no
  exhausted window is reset within less than a second or beyond the range of a duration, the cooldown is positive and the
  account's reset is after the present instant. A decision on a model only falls when the body reports no exhausted
  quota and the request names a model.\<close>
theorem rate_limit_rest_positive:
  assumes "firstGJSONInt g body [''error.resets_in_seconds'', ''response.error.resets_in_seconds'', ''response.status_details.error.resets_in_seconds'']
      \<le> 9223372036"
    and "\<And>rp. resp = Some rp \<Longrightarrow> \<forall>w \<in> set (exhaustedWindows f rp). readable w"
  shows "let d = classify429RateLimit g f acc body resp now model
    in 0 < dCooldown d \<and>
       (dScope d = rateLimitScopeAccount \<and> now < dResetAt d \<or>
        dScope d = rateLimitScopeModel \<and> TrimSpace model \<noteq> [] \<and> dCooldown d = 5 * Minute \<and> \<not> IsUsageLimitReachedError g body)"
proof (rule classify_cases [of g body now f acc resp model])
  fix r reason
  assume "parseUsageLimitResetAt g body now = Some r" "classify429RateLimit g f acc body resp now model = accountDecision reason r (time_Sub r now)"
  then show ?thesis using parsed_reset_future [OF _ assms(1)] by (simp add: accountDecision_def)
next
  fix r reason
  assume r: "snd (classifyCodex429Window f resp now) = Some r \<or> r = now + 5 * Hour \<or> r = now + 7 * 24 * Hour"
    and d: "classify429RateLimit g f acc body resp now model = accountDecision reason r (time_Sub r now)"
  have "now < r"
  proof (cases resp)
    case (Some rp)
    then show ?thesis using r window_reset_future [of f rp now r] assms(2) by (auto simp: go_defs)
  qed (use r in \<open>auto simp: classifyCodex429Window_def go_defs\<close>)
  then show ?thesis using d by (simp add: accountDecision_def)
next
  fix d reason
  assume "d \<in> {5 * Minute, 5 * Hour, 7 * 24 * Hour}" "classify429RateLimit g f acc body resp now model = accountDecision reason (now + d) d"
  then show ?thesis by (auto simp: accountDecision_def go_defs)
next
  fix reason
  assume m: "TrimSpace model \<noteq> []" "classify429RateLimit g f acc body resp now model =
    \<lparr>dScope = rateLimitScopeModel, dReason = reason, dModel = TrimSpace model, dResetAt = 0, dCooldown = 5 * Minute\<rparr>"
  have "\<not> IsUsageLimitReachedError g body"
    using m(2) by (auto simp: classify429RateLimit_def accountDecision_def Let_def dest!: windowDecision_Some split: option.splits if_splits)
  then show ?thesis using m by (simp add: go_defs)
qed

definition limitedResponse :: upstreamResponse where
  "limitedResponse = \<lparr>StatusCode = 429, Header = (\<lambda>k. if k = ''x-codex-primary-used-percent'' then ''100''
     else if k = ''x-codex-primary-window-minutes'' then ''300'' else if k = ''x-codex-primary-reset-after-seconds'' then ''60'' else []),
     Body = ''slow down''\<rparr>"

definition limitedScan :: "string \<Rightarrow> float64" where
  "limitedScan s = (if s = ''100'' then 100 else if s = ''300'' then 300 else if s = ''60'' then 60 else 0)"

theorem rate_limit_rest_positive_witness:
  "let d = classify429RateLimit demoReader limitedScan None ''slow down'' (Some limitedResponse) 1000 ''qwen''
   in dScope d = rateLimitScopeAccount \<and> 0 < dCooldown d \<and> 1000 < dResetAt d"
proof -
  have w: "exhaustedWindows limitedScan limitedResponse = [\<lparr>usedPct = 100, resetSec = 60, windowMin = 300\<rparr>]"
    by (simp add: exhaustedWindows_def primaryWindow_def secondaryWindow_def parseCodexWindowUsage_def parseFloat_def
        limitedScan_def limitedResponse_def List.map_filter_simps)
  then have "dScope (classify429RateLimit demoReader limitedScan None ''slow down'' (Some limitedResponse) 1000 ''qwen'') = rateLimitScopeAccount"
    by (simp add: classify429RateLimit_def classifyCodex429Window_def codexWindowType_def windowDecision_def accountDecision_def Let_def)
  then show ?thesis
    using rate_limit_rest_positive [of demoReader "''slow down''" "Some limitedResponse" limitedScan None 1000 "''qwen''"] w
    by (simp add: readable_def Let_def)
qed

end
