(* ===== verification/SelectionProps.thy ===== *)
theory SelectionProps
  imports StoreInvariant
begin

section \<open>Properties of the store and of selections\<close>

text \<open>
  The scan over all accounts picks a best one; the permissions of a selection and of the retry loop;
  the invariant of reachable stores; session affinity, the quota thresholds and the sticky proxies.
\<close>

subsection \<open>The scan picks a best account\<close>

definition ready :: "selectArgs \<Rightarrow> Store \<Rightarrow> ptr \<Rightarrow> bool" where
  "ready q s p = (case heap s p of
     None \<Rightarrow> False
   | Some acc \<Rightarrow> qualifies q s acc \<and>
       ActiveRequests acc < DynamicConcurrencyLimit (recomputeSchedulerLocked (seNow q) (maxConcurrency s) acc) \<and>
       0 < DynamicConcurrencyLimit (recomputeSchedulerLocked (seNow q) (maxConcurrency s) acc))"

definition candOf :: "selectArgs \<Rightarrow> Store \<Rightarrow> ptr \<Rightarrow> candidate" where
  "candOf q s p =
     (let acc = the (heap s p); a = recomputeSchedulerLocked (seNow q) (maxConcurrency s) acc
      in \<lparr>cdAcc = Some p, cdPriority = tierPriority (HealthTier a), cdScore = DispatchScore a,
          cdLoad = ActiveRequests acc, cdLimit = DynamicConcurrencyLimit a\<rparr>)"

text \<open>Strictly better: a higher tier, then a higher score, then fewer active requests.\<close>

definition outranks :: "candidate \<Rightarrow> candidate \<Rightarrow> bool" where
  "outranks c d \<longleftrightarrow>
     cdPriority c > cdPriority d \<or>
     cdPriority c = cdPriority d \<and> (cdScore c > cdScore d \<or> cdScore c = cdScore d \<and> cdLoad c < cdLoad d)"

definition bestAmong :: "selectArgs \<Rightarrow> Store \<Rightarrow> ptr set \<Rightarrow> candidate \<Rightarrow> bool" where
  "bestAmong q s D c = (case cdAcc c of
     None \<Rightarrow> c = noCandidate \<and> (\<forall>p \<in> D. \<not> ready q s p)
   | Some p \<Rightarrow> p \<in> D \<and> ready q s p \<and> c = candOf q s p \<and> (\<forall>r \<in> D. ready q s r \<longrightarrow> \<not> outranks (candOf q s r) c))"

lemma outranks_trans: "outranks c d \<Longrightarrow> \<not> outranks e d \<Longrightarrow> \<not> outranks e c"
  by (auto simp: outranks_def)

lemma beats_outranks:
  "beats coin (cdPriority c) (cdScore c) (cdLoad c) d \<Longrightarrow> \<not> outranks d c"
  "\<not> beats coin (cdPriority c) (cdScore c) (cdLoad c) d \<Longrightarrow> \<not> outranks c d"
  by (auto simp: beats_def outranks_def)

lemma notbetter_trans: "\<not> outranks e d \<Longrightarrow> \<not> outranks d c \<Longrightarrow> \<not> outranks e c"
  by (auto simp: outranks_def)

lemma tierPriority_nonneg: "tierPriority t \<ge> 0"
  by (cases t) (simp_all add: tierPriority_def)

lemma first_beats: "beats coin (tierPriority t) x y noCandidate"
  using tierPriority_nonneg [of t] by (simp add: beats_def noCandidate_def)

text \<open>One more account.\<close>

lemma best_weigh:
  assumes best: "bestAmong q s D c" and acc: "heap s p = Some acc" and ok: "qualifies q s acc" and "p \<notin> D"
  shows "bestAmong q s (insert p D) (snd (weigh q k (maxConcurrency s) p acc c))"
proof (cases "ready q s p")
  case False
  then have "weigh q k (maxConcurrency s) p acc c = (recomputeSchedulerLocked (seNow q) (maxConcurrency s) acc, c)"
    using acc ok by (auto simp: weigh_def Let_def ready_def)
  then show ?thesis using best False by (auto simp: bestAmong_def split: option.splits)
next
  case True
  let ?n = "candOf q s p"
  let ?beats = "beats (seCoin q k p) (cdPriority ?n) (cdScore ?n) (cdLoad ?n) c"
  have w: "snd (weigh q k (maxConcurrency s) p acc c) = (if ?beats then ?n else c)"
    using acc True by (simp add: weigh_def Let_def ready_def candOf_def)
  show ?thesis
  proof (cases ?beats)
    case b: True
    have "\<not> outranks (candOf q s r) ?n" if "r \<in> D" "ready q s r" for r
    proof -
      have "\<not> outranks (candOf q s r) c"
        using best that by (auto simp: bestAmong_def split: option.splits)
      then show ?thesis using notbetter_trans beats_outranks(1) [OF b] by blast
    qed
    moreover have "\<not> outranks ?n ?n" by (simp add: outranks_def)
    moreover have "cdAcc ?n = Some p" by (simp add: candOf_def Let_def)
    ultimately show ?thesis using w b True by (simp add: bestAmong_def)
  next
    case b: False
    have "cdAcc c \<noteq> None"
    proof
      assume "cdAcc c = None"
      then have "c = noCandidate" using best by (simp add: bestAmong_def)
      then show False using b first_beats by (simp add: candOf_def Let_def)
    qed
    then show ?thesis using w b best beats_outranks(2) [OF b] by (auto simp: bestAmong_def split: option.splits)
  qed
qed

lemma best_skip:
  "bestAmong q s D c \<Longrightarrow> \<not> ready q s p \<Longrightarrow> bestAmong q s (insert p D) c"
  by (auto simp: bestAmong_def split: option.splits)

text \<open>The scan so far: the accounts ahead are as they were, and the candidate is the best behind.\<close>

definition scanned :: "selectArgs \<Rightarrow> Store \<Rightarrow> ptr set \<Rightarrow> ptr list \<Rightarrow> Store \<times> candidate \<Rightarrow> bool" where
  "scanned q s D ps sc \<longleftrightarrow>
     (\<exists>h. fst sc = s\<lparr>heap := h\<rparr> \<and> (\<forall>p \<in> set ps. h p = heap s p) \<and>
       (\<forall>p \<in> D. ready q s p \<longrightarrow> h p = map_option (recomputeSchedulerLocked (seNow q) (maxConcurrency s)) (heap s p))) \<and>
     bestAmong q s D (snd sc)"

lemma qualifies_heap [simp]: "qualifies q (s\<lparr>heap := h\<rparr>) acc = qualifies q s acc"
  by (simp add: qualifies_def)

lemma scanned_step:
  assumes sc: "scanned q s D (p # ps) sc" and p: "p \<notin> set ps" "p \<notin> D"
  shows "scanned q s (insert p D) ps (scanOne q k p sc)"
proof -
  obtain h where h: "fst sc = s\<lparr>heap := h\<rparr>" "\<forall>r \<in> set (p # ps). h r = heap s r"
      "\<forall>r \<in> D. ready q s r \<longrightarrow> h r = map_option (recomputeSchedulerLocked (seNow q) (maxConcurrency s)) (heap s r)"
    and best: "bestAmong q s D (snd sc)"
    using sc by (auto simp: scanned_def)
  show ?thesis
  proof (cases "\<exists>acc. heap s p = Some acc \<and> qualifies q s acc")
    case True
    then obtain acc where acc: "heap s p = Some acc" "qualifies q s acc" by blast
    let ?ac = "weigh q k (maxConcurrency s) p acc (snd sc)"
    have one: "scanOne q k p sc = (s\<lparr>heap := h(p \<mapsto> fst ?ac)\<rparr>, snd ?ac)"
      using acc h(1,2) by (simp add: scanOne_def Let_def)
    have "bestAmong q s (insert p D) (snd ?ac)" by (rule best_weigh [OF best acc p(2)])
    then show ?thesis
      unfolding one scanned_def using h(2,3) p acc(1) by (auto simp: weigh_account)
  next
    case False
    then have "\<not> ready q s p" by (auto simp: ready_def split: option.splits)
    moreover have "scanOne q k p sc = sc" using False h(1,2) by (auto simp: scanOne_def Let_def split: option.splits)
    ultimately show ?thesis using h best best_skip p(2) unfolding scanned_def by (metis insert_iff list.set_intros(2))
  qed
qed

lemma scanned_fold:
  "scanned q s D ps sc \<Longrightarrow> distinct ps \<Longrightarrow> set ps \<inter> D = {} \<Longrightarrow> scanned q s (D \<union> set ps) [] (fold (scanOne q k) ps sc)"
proof (induction ps arbitrary: D sc)
  case (Cons p ps)
  then have "scanned q s (insert p D) ps (scanOne q k p sc)" by (intro scanned_step) auto
  from Cons.IH [OF this] show ?case using Cons.prems(2,3) by simp
qed simp

lemma store_ok_distinct: "store_ok s \<Longrightarrow> distinct (accounts s)"
  by (simp add: store_ok_def accountIDs_def distinct_map)

lemma scanAll_best:
  assumes "store_ok s"
  shows "scanned q s (set (accounts s)) [] (scanAll q k s)"
proof -
  have s: "s = s\<lparr>heap := heap s\<rparr>" by simp
  have "bestAmong q s {} noCandidate" by (simp add: bestAmong_def noCandidate_def)
  then have "scanned q s {} (accounts s) (s, noCandidate)"
    unfolding scanned_def by (intro conjI exI [of _ "heap s"]) simp_all
  from scanned_fold [OF this store_ok_distinct [OF assms]] show ?thesis by (simp add: scanAll_def)
qed

lemma getCached_heap: "snd (getCachedAccountCooldown now i (s\<lparr>heap := h\<rparr>)) = snd (getCachedAccountCooldown now i s)"
  by (simp add: getCachedAccountCooldown_def Let_def split: option.split)

definition no_records :: "time \<Rightarrow> Store \<Rightarrow> bool" where
  "no_records now s \<longleftrightarrow> (\<forall>p a. heap s p = Some a \<longrightarrow> snd (getCachedAccountCooldown now (DBID a) s) = None)"

lemma no_record_False:
  "heap s p = Some a \<Longrightarrow> snd (getCachedAccountCooldown now (DBID a) s) = None \<Longrightarrow>
   \<exists>s'. accountHasCachedCooldown now p s = (s', False) \<and> heap s' = heap s"
  by (cases "getCachedAccountCooldown now (DBID a) s")
    (use getCached_only_cache [of now "DBID a" s] in \<open>auto simp: accountHasCachedCooldown_def\<close>)


text \<open>A store with one healthy account, to which a session is bound.\<close>

definition demoBinding :: sessionAffinity where
  "demoBinding = \<lparr>saAccountID = 7, saProxyURL = ''http://p'', saBoundAt = 500, saRequestCount = 3, saExpiresAt = 5000\<rparr>"

definition demoStore :: Store where
  "demoStore = (NewStore None None False None)\<lparr>heap := [0 \<mapsto> demoAccount 7], accounts := [0],
     sessionBindings := [''chat'' \<mapsto> demoBinding]\<rparr>"

definition demoSelect :: selectArgs where
  "demoSelect = \<lparr>seNow = 1000, seKey = 0, seExclude = {8}, seFilter = None, seCoin = (\<lambda>_ _. 0)\<rparr>"

lemma demoStore_ok: "store_ok demoStore"
  by (simp add: demoStore_def NewStore_def Let_def defaultSettings_def store_ok_def accountIDs_def)

lemma demoStore_records: "no_records 1000 demoStore"
  by (simp add: demoStore_def NewStore_def Let_def no_records_def getCachedAccountCooldown_def)


subsection \<open>What a selection hands out\<close>

text \<open>
  C1: a selection hands out only what the request may use, on every path: the session's binding, the
  binding in the shared cache, the fast scheduler, the scan and the lazy scan. The account is on the
  heap, is not among the excluded ones, admits the API key by its own list, and belongs to a group that
  the key is limited to; and the store still satisfies its invariant.
\<close>

theorem selection_permitted:
  assumes "store_ok s" "NextForSessionWithFilter q ttl key s = (s', Picked p, proxy)"
  shows "store_ok s' \<and> (\<exists>a. heap s' p = Some a \<and> DBID a \<notin> seExclude q \<and> AllowsAPIKey (seKey q) a \<and>
    APIKeyAllowsAccount s' (seKey q) a)"
  using NextForSession_ok [OF assms(1), of q ttl key] assms(2)
  by (auto simp: pick_ok_def permitted_def accountAllowedForAPIKey_def)

lemma demo_take:
  assumes "getCachedAccountCooldown 1000 7 s = (s, None)" "lazyMode s = False" "heap s = [0 \<mapsto> demoAccount 7]" "accounts s = [0]"
    "accountsByID s = None" "maxConcurrency s = 2" "7 \<notin> seExclude q" "seKey q = 0" "seFilter q = None" "seNow q = 1000"
  shows "takeByIDExcluding q 7 s = (s\<lparr>heap := [0 \<mapsto> (demoAccount 7)\<lparr>ActiveRequests := 1, TotalRequests := 1, LastUsedAt := 1000\<rparr>]\<rparr>, Picked 0)"
proof -
  have id: "DBID (demoAccount 7) = 7" "ActiveRequests (demoAccount 7) = 0" "TotalRequests (demoAccount 7) = 0"
    "AllowedAPIKeyIDs (demoAccount 7) = []"
    by (simp_all add: demoAccount_def newAccount_def)
  have en: "(demoAccount 7)\<lparr>Disabled := False\<rparr> = demoAccount 7" by (simp add: demoAccount_def newAccount_def)
  note snap = demo_snapshot [where i = 7 and d = False, unfolded en]
  have "IsAvailable 1000 (demoAccount 7)"
    using snap snapshot_available_iff [of 2 1000 "demoAccount 7"] en by simp
  then show ?thesis
    using assms snap id
    by (simp add: takeByIDExcluding_def lookupByIDLocked_def accountHasCachedCooldown_def
        accountAllowedForAPIKey_def AllowsAPIKey_def APIKeyAllowsAccount_def passes_def Let_def takeSlot_def tryAcquireAccount_def)
qed

lemma demo_healthy:
  assumes "heap s = [0 \<mapsto> demoAccount 7]" "accounts s = [0]" "accountsByID s = None"
  shows "affinityAccountStillHealthy 7 s"
  using assms by (simp add: affinityAccountStillHealthy_def lookupByIDLocked_def demoAccount_def newAccount_def healthTierLocked_def)

lemma demo_next:
  assumes "7 \<notin> seExclude q" "seKey q = 0" "seFilter q = None" "seNow q = 1000"
  shows "\<exists>s'. NextForSessionWithFilter q ttl ''chat'' demoStore = (s', Picked 0, ''http://p'')"
proof -
  have t: "takeByIDExcluding q 7 demoStore =
      (demoStore\<lparr>heap := [0 \<mapsto> (demoAccount 7)\<lparr>ActiveRequests := 1, TotalRequests := 1, LastUsedAt := 1000\<rparr>]\<rparr>, Picked 0)"
    by (rule demo_take) (use assms in \<open>simp_all add: demoStore_def NewStore_def Let_def defaultSettings_def getCachedAccountCooldown_def\<close>)
  have "affinityAccountStillHealthy 7 demoStore"
    by (rule demo_healthy) (simp_all add: demoStore_def NewStore_def Let_def)
  then have "\<not> escapes 1000 m demoBinding demoStore" for m
    by (simp add: escapes_def demoBinding_def maxAffinityRequests_def maxAffinityDuration_def time_Sub_def go_defs minDuration_def maxDuration_def)
  moreover have "sessionBindings demoStore ''chat'' = Some demoBinding" "GetAffinityMode demoStore = ''bounded''"
    "TrimSpace ''chat'' = ''chat''"
    by (simp_all add: demoStore_def GetAffinityMode_def NewStore_def Let_def defaultSettings_def TrimSpace_def is_space_def)
  moreover have "saAccountID demoBinding = 7" "saExpiresAt demoBinding = 5000" "saProxyURL demoBinding = ''http://p''"
    by (simp_all add: demoBinding_def)
  ultimately show ?thesis
    using t assms(4) by (simp add: NextForSessionWithFilter_def useLocalBinding_def)
qed

theorem selection_permitted_witness:
  "\<exists>s'. NextForSessionWithFilter demoSelect 100 ''chat'' demoStore = (s', Picked 0, ''http://p'') \<and>
     store_ok s' \<and> (\<exists>a. heap s' 0 = Some a \<and> DBID a \<notin> seExclude demoSelect \<and> AllowsAPIKey (seKey demoSelect) a \<and>
     APIKeyAllowsAccount s' (seKey demoSelect) a)"
  using demo_next [of demoSelect 100] selection_permitted [OF demoStore_ok, of demoSelect 100 "''chat''"]
  by (fastforce simp: demoSelect_def)

text \<open>
  C17: the retry loop never returns to an account that failed for good. Whatever happens to the store
  between two polls (as long as it keeps the invariant), the account that
  \<open>nextRetryAccountForSession\<close> returns is not among the hard exclusions, nor among the soft ones that are left; the hard exclusions are
  unchanged, the soft ones are kept or emptied; and the account is open to the key.
\<close>

theorem retry_respects_exclusions:
  assumes "store_ok s" "\<And>k. quiet (snd (rounds k))"
    and "nextRetryAccountForSession q ttl key rounds k r s = (s', Picked p, proxy, r')"
  shows "\<exists>a. heap s' p = Some a \<and> DBID a \<notin> hard r \<and> DBID a \<notin> soft r' \<and> accountAllowedForAPIKey s' (seKey q) a \<and>
    hard r' = hard r \<and> soft r' \<subseteq> soft r"
  using nextRetry_ok [OF assms] by (auto simp: pick_ok_def permitted_def ForSelection_def)

theorem retry_respects_exclusions_witness:
  "\<exists>s' proxy r'. nextRetryAccountForSession demoSelect 100 ''chat'' (\<lambda>_. ((1000, \<lambda>_ _. 0), [])) 0
      (MarkHard 8 newRetryAccountExclusions) demoStore = (s', Picked 0, proxy, r') \<and>
     (\<exists>a. heap s' 0 = Some a \<and> DBID a \<notin> hard (MarkHard 8 newRetryAccountExclusions) \<and> DBID a \<notin> soft r' \<and>
       accountAllowedForAPIKey s' (seKey demoSelect) a \<and> hard r' = hard (MarkHard 8 newRetryAccountExclusions) \<and>
       soft r' \<subseteq> soft (MarkHard 8 newRetryAccountExclusions))"
proof -
  let ?r = "MarkHard 8 newRetryAccountExclusions"
  let ?q = "demoSelect\<lparr>seNow := 1000, seCoin := \<lambda>_ _. 0, seExclude := ForSelection ?r\<rparr>"
  obtain s' where "NextForSessionWithFilter ?q 100 ''chat'' demoStore = (s', Picked 0, ''http://p'')"
    using demo_next [of ?q 100] by (auto simp: demoSelect_def ForSelection_def MarkHard_def newRetryAccountExclusions_def)
  then have n: "nextRetryAccountForSession demoSelect 100 ''chat'' (\<lambda>_. ((1000, \<lambda>_ _. 0), [])) 0 ?r demoStore =
      (s', Picked 0, ''http://p'', ?r)"
    by (subst nextRetryAccountForSession.simps) simp
  have "quiet (snd ((\<lambda>_. ((1000, \<lambda>_ _. 0), [])) k))" for k :: nat by (simp add: quiet_def)
  from retry_respects_exclusions [OF demoStore_ok this n] n show ?thesis by blast
qed

text \<open>
  Supplement: the retry loop ends after at most two passes: its result is determined by the events of the pass it
  starts with and of the next one, whatever would happen later.
\<close>

theorem retry_ends_after_two_passes:
  assumes "rounds k = rounds' k" "rounds (Suc k) = rounds' (Suc k)"
  shows "nextRetryAccountForSession q ttl key rounds k r s = nextRetryAccountForSession q ttl key rounds' k r s"
  using assms by (rule nextRetry_passes)

theorem retry_ends_after_two_passes_witness:
  "nextRetryAccountForSession demoSelect 100 ''chat'' (\<lambda>k. ((1000, \<lambda>_ _. 0), [])) 0 newRetryAccountExclusions demoStore =
   nextRetryAccountForSession demoSelect 100 ''chat'' (\<lambda>k. if k < 2 then ((1000, \<lambda>_ _. 0), []) else ((9999, \<lambda>_ _. 1), []))
     0 newRetryAccountExclusions demoStore"
  by (rule retry_ends_after_two_passes) simp_all

subsection \<open>Reachable stores\<close>

text \<open>
  C16: the index and the scheduler stay exact. In every store that can be reached from start-up by adding
  and removing accounts, changing the configuration, reporting results, binding sessions, selecting and
  releasing, the listed accounts are distinct, looking an ID up finds precisely the listed account with
  that ID, and the fast scheduler is well formed and asks the group check.
\<close>

theorem reachable_store_exact:
  assumes "store_step\<^sup>*\<^sup>* (LoadAPIKeyAllowedGroups now (Some keys) (NewStore tc st env proxies)) s"
  shows "distinct (accounts s) \<and>
    (FindByID i s = Some p \<longleftrightarrow> p \<in> set (accounts s) \<and> (\<exists>a. heap s p = Some a \<and> DBID a = i)) \<and>
    (\<forall>f. fastScheduler s = Some f \<longrightarrow> fs_wf (heap s) f \<and> fsGroupCheck f \<noteq> None)"
proof -
  have ok: "store_ok s" by (rule store_machine.reachable_inv [OF assms startup_ok])
  then show ?thesis
    using lookup_iff [OF ok, of i p] store_ok_distinct [OF ok] by (auto simp: FindByID_def dest: store_ok_fs)
qed

theorem reachable_store_exact_witness:
  "\<exists>s. store_step\<^sup>*\<^sup>* (LoadAPIKeyAllowedGroups 5 (Some [(1, [2])]) (NewStore None None True None)) s \<and>
     accounts s = [0] \<and> FindByID 7 s = Some 0"
proof -
  define s0 where "s0 = LoadAPIKeyAllowedGroups 5 (Some [(1, [2])]) (NewStore None None True None)"
  have s0: "heap s0 = Map.empty" "accounts s0 = []"
    by (simp_all add: s0_def LoadAPIKeyAllowedGroups_def NewStore_def Let_def rebuildFastScheduler_def BuildFastScheduler_def Rebuild_def)
  define s where "s = AddAccount 6 0 (demoAccount 7) s0"
  have "store_step s0 s" unfolding s_def by (rule store_step.add) (simp_all add: s0 accountIDs_def)
  then have step: "store_step\<^sup>*\<^sup>* s0 s" by (rule r_into_rtranclp)
  let ?a = "recomputeSchedulerLocked 6 (maxConcurrency s0) ((demoAccount 7)\<lparr>AddedAt := 6\<rparr>)"
  let ?s1 = "rebuildAccountIndex (s0\<lparr>heap := (heap s0)(0 \<mapsto> ?a), accounts := accounts s0 @ [0]\<rparr>)"
  have s: "s = fastSchedulerUpdate 6 0 ?s1" by (simp add: s_def AddAccount_def Let_def demoAccount_def newAccount_def)
  have acc: "accounts s = [0]" by (simp add: s fastSchedulerUpdate_def Let_def s0 split: option.split)
  have "keeps_ids (heap ?s1) (heap s)" unfolding s fastSchedulerUpdate_def Let_def by (simp add: Update_heap split: option.split)
  moreover have "heap ?s1 0 = Some ?a" "DBID ?a = 7" by (simp_all add: sel_simps demoAccount_def newAccount_def)
  ultimately have "\<exists>a. heap s 0 = Some a \<and> DBID a = 7" unfolding keeps_ids_def by metis
  then have "FindByID 7 s = Some 0" using reachable_store_exact [OF step [unfolded s0_def], of 7 0] acc by simp
  then show ?thesis using step acc unfolding s0_def by blast
qed

subsection \<open>A removed account comes back\<close>

lemma Update_inserts:
  assumes "h p = Some a" "DBID a \<noteq> 0"
    and "snAvailable (snd (fastSchedulerSnapshot (fsBaseLimit f) now a))" "0 < snLimit (snd (fastSchedulerSnapshot (fsBaseLimit f) now a))"
  shows "\<exists>t e. (t, e) \<in> set (tagged (snd (Update now p (h, f)))) \<and> entDbID e = DBID a \<and> entAcc e = p"
proof -
  let ?v = "snd (fastSchedulerSnapshot (fsBaseLimit f) now a)"
  have "mset (tagged (snd (Update now p (h, f)))) =
      add_mset (snTier ?v, snapEntry p a ?v) (mset (tagged (removeLocked (DBID a) f)))"
    using insertLocked_tagged [of h p a now "removeLocked (DBID a) f"] assms by (simp add: Update_def Let_def)
  then have "(snTier ?v, snapEntry p a ?v) \<in> set (tagged (snd (Update now p (h, f))))"
    by (metis set_mset_mset union_single_eq_member)
  then show ?thesis unfolding snapEntry_def by fastforce
qed

lemma RemoveAccount_keeps:
  "heap (RemoveAccount i s) = heap s" "maxConcurrency (RemoveAccount i s) = maxConcurrency s"
  "fastSchedulerEnabled (RemoveAccount i s) = fastSchedulerEnabled s"
  by (simp_all add: RemoveAccount_def rebuildAccountIndex_def fastSchedulerRemove_def split: option.split)

lemma RemoveAccount_accounts:
  assumes "store_ok s"
  shows "accounts (RemoveAccount i s) = filter (\<lambda>p. map_option DBID (heap s p) \<noteq> Some i) (accounts s)"
proof (cases "removeFirst (heap s) i (accounts s)")
  case None
  then have "\<forall>p \<in> set (accounts s). map_option DBID (heap s p) \<noteq> Some i" by (force simp: removeFirst_None)
  then show ?thesis using None by (simp add: RemoveAccount_def filter_id_conv)
next
  case (Some ps)
  then show ?thesis using removeFirst_filter [OF _ Some] assms by (simp add: RemoveAccount_def store_ok_def accountIDs_def)
qed

lemma removed_gone: "store_ok s \<Longrightarrow> lookupByIDLocked i (RemoveAccount i s) = None"
proof -
  assume ok: "store_ok s"
  have "lookupByIDLocked i (RemoveAccount i s) \<noteq> Some p" for p
    unfolding lookup_iff [OF RemoveAccount_ok [OF ok]] RemoveAccount_accounts [OF ok] RemoveAccount_keeps by auto
  then show ?thesis by blast
qed

lemma getFastScheduler_heap [simp]: "getFastScheduler (s\<lparr>heap := h\<rparr>) = getFastScheduler s"
proof -
  have "APIKeyAllowsAccount (s\<lparr>heap := h\<rparr>) = APIKeyAllowsAccount s" by (intro ext groups_cong) simp_all
  then show ?thesis by (simp add: getFastScheduler_def)
qed

lemma RemoveAccount_fast:
  "getFastScheduler s = Some f \<Longrightarrow> \<exists>f'. getFastScheduler (RemoveAccount i s) = Some f' \<and> fsBaseLimit f' = fsBaseLimit f"
  by (auto simp: RemoveAccount_def rebuildAccountIndex_def fastSchedulerRemove_def getFastScheduler_def Remove_def split: option.split if_splits)

text \<open>
  Supplement: an account that was removed comes back into the fast scheduler. When a request that was running
  on it finishes after \<open>RemoveAccount\<close>, the report about the request updates the scheduler, which inserts
  the account again if it is available: looking it up by its ID finds nothing, but the scheduler holds an
  entry for it.
\<close>

theorem removed_account_returns:
  assumes "store_ok s" "heap s p = Some a" "DBID a \<noteq> 0" "getFastScheduler s = Some f"
    and "b = ReportRequestSuccessAccount now (maxConcurrency s) d a"
    and "snAvailable (snd (fastSchedulerSnapshot (fsBaseLimit f) now b))" "0 < snLimit (snd (fastSchedulerSnapshot (fsBaseLimit f) now b))"
  shows "\<exists>s' f' t e. ReportRequestSuccess now p d (RemoveAccount (DBID a) s) = s' \<and> FindByID (DBID a) s' = None \<and>
    fastScheduler s' = Some f' \<and> (t, e) \<in> set (tagged f') \<and> entDbID e = DBID a \<and> entAcc e = p"
proof -
  let ?r = "RemoveAccount (DBID a) s"
  obtain f1 where f1: "getFastScheduler ?r = Some f1" "fsBaseLimit f1 = fsBaseLimit f"
    using RemoveAccount_fast [OF assms(4)] by blast
  let ?u = "updAccount p (ReportRequestSuccessAccount now (maxConcurrency s) d) ?r"
  have u: "heap ?u p = Some b" "getFastScheduler ?u = Some f1" "accountsByID ?u = accountsByID ?r" "accounts ?u = accounts ?r"
    using assms(2,5) f1(1) by (simp_all add: updAccount_def RemoveAccount_keeps)
  have rep: "ReportRequestSuccess now p d ?r = fastSchedulerUpdate now p ?u"
    using assms(2) by (simp add: ReportRequestSuccess_def onAccount_def RemoveAccount_keeps)
  have ok: "store_ok (ReportRequestSuccess now p d ?r)" by (rule reports_ok(7) [OF RemoveAccount_ok [OF assms(1)]])
  have "DBID b = DBID a" by (simp add: assms(5))
  then have ins: "\<exists>t e. (t, e) \<in> set (tagged (snd (Update now p (heap ?u, f1)))) \<and> entDbID e = DBID a \<and> entAcc e = p"
    using Update_inserts [of "heap ?u" p b f1 now] u(1) assms(3,6,7) f1(2) by simp
  have "accounts (ReportRequestSuccess now p d ?r) = accounts ?r"
    unfolding rep by (simp add: fastSchedulerUpdate_def Let_def u split: option.split)
  moreover have "keeps_ids (heap ?r) (heap (ReportRequestSuccess now p d ?r))"
  proof -
    have "keeps_ids (heap ?r) (heap ?u)" by (auto simp: keeps_ids_def updAccount_def)
    moreover have "keeps_ids (heap ?u) (heap (fastSchedulerUpdate now p ?u))"
      using u(2) by (simp add: fastSchedulerUpdate_def Let_def Update_heap)
    ultimately show ?thesis unfolding rep by (rule keeps_ids_trans)
  qed
  ultimately have "lookupByIDLocked (DBID a) (ReportRequestSuccess now p d ?r) = None"
    using lookup_iff [OF ok, of "DBID a"] lookup_iff [OF RemoveAccount_ok [OF assms(1)], of "DBID a" "DBID a"]
      removed_gone [OF assms(1), of "DBID a"] keeps_ids_eq store_ok_allocated [OF RemoveAccount_ok [OF assms(1)]]
    by (metis not_Some_eq)
  then show ?thesis using ins rep u(2) by (auto simp: FindByID_def fastSchedulerUpdate_def Let_def)
qed

lemma snLimit_pos:
  "0 < DynamicConcurrencyLimit a \<Longrightarrow> HealthTier a \<noteq> HealthTierBanned \<Longrightarrow> 0 < snLimit (snd (fastSchedulerSnapshot b now a))"
  using recompute_limit_pos_iff [of now b a] by (simp add: fastSchedulerSnapshot_def snapshotView_def Let_def)

lemma recompute_available_enabled:
  "IsAvailable now ((recomputeSchedulerLocked now b a)\<lparr>Disabled := False\<rparr>) = IsAvailable now (a\<lparr>Disabled := False\<rparr>)"
  by (simp add: IsAvailable_def sel_simps)

definition demoFastStore :: Store where
  "demoFastStore = demoStore\<lparr>fastSchedulerEnabled := True, fastScheduler := Some (demoOne\<lparr>fsGroupCheck := Some (\<lambda>_ _. True)\<rparr>)\<rparr>"

lemma demo_heap: "[0 \<mapsto> demoAccount 7] = demoOneHeap False"
  by (simp add: demoOneHeap_def demoAccount_def newAccount_def)

lemma demoFastStore_ok: "store_ok demoFastStore"
  using demoStore_ok demoOne_wf [of False] by (simp add: demoFastStore_def store_ok_def accountIDs_def demoStore_def demo_heap)

theorem removed_account_returns_witness:
  "\<exists>s' f' t e. ReportRequestSuccess 1000 0 5 (RemoveAccount 7 demoFastStore) = s' \<and> FindByID 7 s' = None \<and>
    fastScheduler s' = Some f' \<and> (t, e) \<in> set (tagged f') \<and> entDbID e = 7 \<and> entAcc e = 0"
proof -
  let ?x = "(recordResultLocked True (recordLatencyLocked 5 (demoAccount 7)))\<lparr>LastSuccessAt := 1000, SuccessStreak := 1, FailureStreak := 0\<rparr>"
  have "\<exists>r i c. ?x = (demoAccount 7)\<lparr>RecentResults := r, RecentResultsIdx := i, RecentResultsCnt := c, LastSuccessAt := 1000,
      SuccessStreak := 1, FailureStreak := 0\<rparr>"
    by (rule exI)+ (simp add: recordResultLocked_def recordLatencyLocked_def go_defs Let_def)
  then obtain r i c where x: "?x = (demoAccount 7)\<lparr>RecentResults := r, RecentResultsIdx := i, RecentResultsCnt := c, LastSuccessAt := 1000,
      SuccessStreak := 1, FailureStreak := 0\<rparr>" by blast
  have b: "ReportRequestSuccessAccount 1000 2 5 (demoAccount 7) = recomputeSchedulerLocked 1000 2 ?x"
    by (simp add: ReportRequestSuccessAccount_def Let_def recordResultLocked_def recordLatencyLocked_def go_defs
        clampInt_def demoAccount_def newAccount_def)
  have t: "HealthTier ?x = HealthTierHealthy"
    by (simp add: recordResultLocked_def recordLatencyLocked_def go_defs Let_def demoAccount_def newAccount_def)
  have "IsAvailable 1000 (?x\<lparr>Disabled := False\<rparr>)"
    unfolding x by (simp add: IsAvailable_def demoAccount_def newAccount_def healthTierLocked_def usageExhaustedLocked_def
        premium5hRateLimitedLocked_def quotaAutoPausedLocked_def quotaAutoPausedByWindow_def hasDispatchCredentialLocked_def
        TrimSpace_def is_space_def)
  then have av: "IsAvailable 1000 ((recomputeSchedulerLocked 1000 2 ?x)\<lparr>Disabled := False\<rparr>)"
    by (simp only: recompute_available_enabled)
  have fs: "getFastScheduler demoFastStore = Some (demoOne\<lparr>fsGroupCheck := Some (APIKeyAllowsAccount demoFastStore)\<rparr>)"
    "maxConcurrency demoFastStore = 2" "heap demoFastStore 0 = Some (demoAccount 7)" "DBID (demoAccount 7) = 7"
    by (simp_all add: getFastScheduler_def demoFastStore_def demoStore_def NewStore_def Let_def defaultSettings_def demoAccount_def newAccount_def)
  have base: "fsBaseLimit (demoOne\<lparr>fsGroupCheck := g\<rparr>) = 2" for g by (simp add: demoOne_def NewFastScheduler_def)
  have "HealthTier (recomputeSchedulerLocked 1000 2 ?x) \<noteq> HealthTierBanned" using t by (simp add: recompute_banned_iff)
  then show ?thesis
    using removed_account_returns [OF demoFastStore_ok fs(3) _ fs(1) refl, of 1000 5] fs(2,4) b av t base
    by (simp add: snapshot_available_iff snLimit_pos recompute_limit_pos_iff)
qed

subsection \<open>Bounded affinity\<close>

text \<open>
  C40: the bounds of the mode \<open>bounded\<close> do not end a session's stay at a healthy account. When the
  binding of this process has reached its 50 requests or its five minutes, it is deleted, but the copy
  in the shared cache is not: the same call reads it back, takes the same account again, and installs a
  binding that counts from zero and whose start is the zero time, so that the limit of five minutes can
  never end it.
\<close>

theorem bounded_affinity_rebinds:
  assumes "TrimSpace key \<noteq> []" "GetAffinityMode s = ''bounded''"
    and s1_def: "s1 = (dropBinding (TrimSpace key) i s)\<lparr>tokenCache := Some (fst (GetSessionAffinity (seNow q) (TrimSpace key) tc))\<rparr>"
    and b'_def: "b' = \<lparr>saAccountID = i, saProxyURL = TrimSpace (bindProxyURL c), saBoundAt = 0, saRequestCount = 0, saExpiresAt = seNow q + ttl\<rparr>"
    and "sessionBindings s (TrimSpace key) = Some b" "saAccountID b = i"
    and "saRequestCount b \<ge> 50 \<or> saBoundAt b \<noteq> 0 \<and> time_Sub (seNow q) (saBoundAt b) \<ge> 5 * Minute"
    and "tokenCache s = Some tc" "snd (GetSessionAffinity (seNow q) (TrimSpace key) tc) = Some c" "bindAccountID c = i" "i \<noteq> 0"
    and "affinityAccountStillHealthy i s" "takeByIDExcluding q i s1 = (s2, Picked p)"
  shows "NextForSessionWithFilter q ttl key s =
      (s2\<lparr>sessionBindings := (sessionBindings s2)(TrimSpace key \<mapsto> b')\<rparr>, Picked p, saProxyURL b') \<and>
    (\<forall>t s. affinityAccountStillHealthy i s \<longrightarrow> \<not> escapes t ''bounded'' b' s)"
proof -
  have esc: "escapes (seNow q) ''bounded'' b s"
    using assms(7) by (auto simp: escapes_def maxAffinityRequests_def maxAffinityDuration_def)
  have l: "useLocalBinding q (TrimSpace key) s = Inr (dropBinding (TrimSpace key) i s)"
    using assms(2,5,6) esc by (simp add: useLocalBinding_def)
  have same: "tokenCache (dropBinding k j s) = tokenCache s" "GetAffinityMode (dropBinding k j s\<lparr>tokenCache := x\<rparr>) = GetAffinityMode s"
    "affinityAccountStillHealthy j (dropBinding k j s\<lparr>tokenCache := x\<rparr>) = affinityAccountStillHealthy j s" for k j x
    by (simp_all add: dropBinding_def GetAffinityMode_def affinityAccountStillHealthy_def lookupByIDLocked_def split: option.split)
  have g: "getCachedSessionAffinity (seNow q) ttl (TrimSpace key) (dropBinding (TrimSpace key) i s) = (s1, Some b')"
    using assms(8-11) by (simp add: getCachedSessionAffinity_def Let_def same s1_def b'_def)
  have "useCachedBinding q ttl (TrimSpace key) (dropBinding (TrimSpace key) i s) =
      Inl (s2\<lparr>sessionBindings := (sessionBindings s2)(TrimSpace key \<mapsto> b')\<rparr>, p, saProxyURL b')"
    using g assms(2,12,13) by (simp add: useCachedBinding_def s1_def same b'_def)
  then have "NextForSessionWithFilter q ttl key s =
      (s2\<lparr>sessionBindings := (sessionBindings s2)(TrimSpace key \<mapsto> b')\<rparr>, Picked p, saProxyURL b')"
    using assms(1,2) l by (simp add: NextForSessionWithFilter_def)
  then show ?thesis by (simp add: escapes_def b'_def maxAffinityRequests_def)
qed

text \<open>The session of the demonstration store after fifty requests, with its copy in the cache.\<close>

definition demoCache :: MemoryTokenCache where
  "demoCache = SetSessionAffinity 500 ''chat'' \<lparr>bindAccountID = 7, bindProxyURL = ''http://p''\<rparr> 4500 (NewMemory 1)"

definition demoBound :: Store where
  "demoBound = demoStore\<lparr>sessionBindings := [''chat'' \<mapsto> demoBinding\<lparr>saRequestCount := 50\<rparr>], tokenCache := Some demoCache\<rparr>"

theorem bounded_affinity_rebinds_witness:
  "\<exists>s' b'. NextForSessionWithFilter demoSelect 100 ''chat'' demoBound = (s', Picked 0, ''http://p'') \<and>
     sessionBindings s' ''chat'' = Some b' \<and> saAccountID b' = 7 \<and> saBoundAt b' = 0 \<and> saRequestCount b' = 0"
proof -
  have trim: "TrimSpace ''chat'' = ''chat''" "TrimSpace ''http://p'' = ''http://p''" by code_simp+
  have c: "GetSessionAffinity 1000 ''chat'' demoCache = (demoCache, Some \<lparr>bindAccountID = 7, bindProxyURL = ''http://p''\<rparr>)"
    by (simp add: demoCache_def SetSessionAffinity_def GetSessionAffinity_def NewMemory_def expired_def trim)
  have n: "getCachedAccountCooldown 1000 7 (demoStore\<lparr>sessionBindings := m, tokenCache := Some demoCache\<rparr>) =
      (demoStore\<lparr>sessionBindings := m, tokenCache := Some demoCache\<rparr>, None)" for m
    by (simp add: getCachedAccountCooldown_def GetRuntime_def demoCache_def SetSessionAffinity_def NewMemory_def trim Let_def)
  let ?s1 = "(dropBinding ''chat'' 7 demoBound)\<lparr>tokenCache := Some demoCache\<rparr>"
  have s1: "?s1 = demoStore\<lparr>sessionBindings := Map.empty, tokenCache := Some demoCache\<rparr>"
    by (simp add: dropBinding_def demoBound_def demoBinding_def)
  have "takeByIDExcluding demoSelect 7 ?s1 =
      (?s1\<lparr>heap := [0 \<mapsto> (demoAccount 7)\<lparr>ActiveRequests := 1, TotalRequests := 1, LastUsedAt := 1000\<rparr>]\<rparr>, Picked 0)"
    unfolding s1 by (rule demo_take) (use n in \<open>simp_all add: demoSelect_def demoStore_def NewStore_def Let_def defaultSettings_def\<close>)
  moreover have "affinityAccountStillHealthy 7 demoBound"
    by (rule demo_healthy) (simp_all add: demoBound_def demoStore_def NewStore_def Let_def)
  ultimately show ?thesis
    using bounded_affinity_rebinds [where key = "''chat''" and s = demoBound and i = 7 and q = demoSelect and tc = demoCache and ttl = 100
        and c = "\<lparr>bindAccountID = 7, bindProxyURL = ''http://p''\<rparr>" and b = "demoBinding\<lparr>saRequestCount := 50\<rparr>" and p = 0,
        OF _ _ refl refl] c trim
    by (simp add: demoBound_def demoBinding_def demoSelect_def GetAffinityMode_def demoStore_def NewStore_def Let_def defaultSettings_def)
qed

subsection \<open>Thresholds and proxies\<close>

lemma Min_insert_le: "finite A \<Longrightarrow> b \<le> c \<Longrightarrow> Min (insert b (insert c A)) = Min (insert b A)" for b c :: "'a::linorder"
  by (cases "A = {}") (auto simp: min_def)

lemma smallestPositive_min:
  "0 \<le> best \<Longrightarrow> smallestPositive best ts =
     (let P = {t \<in> set (best # ts). t > 0} in if P = {} then 0 else Min P)"
proof (induction ts arbitrary: best)
  case Nil
  have "{t \<in> set [best]. t > 0} = (if best > 0 then {best} else {})" by auto
  then show ?case using Nil by (simp only: Let_def) simp
next
  case (Cons t ts)
  have fin: "finite {x \<in> set ts. x > 0}" by simp
  have sets: "{x \<in> set (b # ts). x > 0} = (if b > 0 then insert b {x \<in> set ts. x > 0} else {x \<in> set ts. x > 0})" for b by auto
  show ?case
  proof (cases "t > 0")
    case True
    let ?b = "if best = 0 \<or> t < best then t else best"
    have b: "?b > 0" "{x \<in> set (best # t # ts). x > 0} = insert ?b (insert (max best t) {x \<in> set ts. x > 0})" "?b \<le> max best t"
      "max best t > 0"
      using True Cons.prems by (auto simp: max_def)
    have "Min (insert ?b (insert (max best t) {x \<in> set ts. x > 0})) = Min (insert ?b {x \<in> set ts. x > 0})"
      by (rule Min_insert_le [OF fin b(3)])
    moreover have "smallestPositive ?b ts = Min (insert ?b {x \<in> set ts. x > 0})"
      using Cons.IH [of ?b] b(1) sets [of ?b] by (simp only: Let_def if_True order_less_imp_le insert_not_empty if_False)
    moreover have "smallestPositive best (t # ts) = smallestPositive ?b ts" using True by simp
    ultimately show ?thesis unfolding b(2) Let_def by simp
  next
    case False
    then have "{x \<in> set (best # t # ts). x > 0} = {x \<in> set (best # ts). x > 0}" by auto
    then show ?thesis using Cons.IH [OF Cons.prems] False by simp
  qed
qed

text \<open>
  Supplement: which threshold pauses an account. An account's own positive threshold wins; otherwise the
  smallest positive threshold among its groups; and the global one when no group has a positive one.
\<close>

theorem effective_threshold:
  "resolveEffectiveThreshold t gids s is5h =
     (let group = (\<lambda>g. if is5h then fst (getGroupAutoPauseThresholds g s) else snd (getGroupAutoPauseThresholds g s));
          P = {x \<in> group ` set gids. x > 0}
      in if t > 0 then t
         else if P = {} then (if is5h then globalAutoPause5hThreshold s else globalAutoPause7dThreshold s)
         else Min P)"
proof -
  let ?group = "\<lambda>g. if is5h then fst (getGroupAutoPauseThresholds g s) else snd (getGroupAutoPauseThresholds g s)"
  let ?P = "{x \<in> ?group ` set gids. x > 0}"
  have "{x \<in> set (0 # map ?group gids). x > 0} = ?P" by auto
  then have best: "smallestPositive 0 (map ?group gids) = (if ?P = {} then 0 else Min ?P)"
    using smallestPositive_min [of 0 "map ?group gids"] by (simp only: Let_def order_refl simp_thms)
  have pos: "?P \<noteq> {} \<Longrightarrow> Min ?P > 0" using Min_in [of ?P] by auto
  show ?thesis
    unfolding resolveEffectiveThreshold_def Let_def best using pos by (cases "?P = {}") (simp_all only: if_True if_False simp_thms less_irrefl)
qed

end
