(* ===== verification/ChatProps.thy ===== *)
theory ChatProps
  imports ChatHandler UpstreamProps SelectionProps
begin

section \<open>What the attempts of a request guarantee\<close>

text \<open>
  The claims on the loop of \<open>ChatCompletions\<close>: it ends within the budget of retries, it gives back every slot that
  it takes, it never asks again an account that failed, and it keeps the invariant of the store; and
  the claims on the judgement of upstream errors.
\<close>

subsection \<open>The slots\<close>

lemma slots_giveBack:
  assumes "took h (heap s) (Some p)"
  shows "slots (heap (giveBack c e p i kind s)) = slots h"
proof -
  let ?s = "if kind \<noteq> [] then ReportRequestFailure (atEnd e) p kind (latency e) s else s"
  have "slots (heap ?s) = slots (heap s)" by simp
  then show ?thesis using slots_release [OF assms] by (simp add: giveBack_def storeRelease_def)
qed

lemma slots_setDisabled [simp]: "slots (heap (setDisabled b p s)) = slots (heap s)"
  unfolding setDisabled_def by (rule slots_updAccount) simp

lemma slots_usageLimit [simp]: "slots (heap (ApplyUsageLimitMetadata now p plan t s)) = slots (heap s)"
  unfolding ApplyUsageLimitMetadata_def by (rule slots_onAccount) simp_all

lemma slots_Apply429 [simp]: "slots (heap (fst (Apply429Cooldown g f now p body resp model s))) = slots (heap s)"
  by (simp add: Apply429Cooldown_def Let_def split: option.split)

lemma slots_cooldown [simp]:
  "slots (heap (fst (applyCooldownForModel g f clean txt now p code body resp model s))) = slots (heap s)"
  by (simp add: applyCooldownForModel_def Let_def split: option.split)

lemma slots_attempt:
  assumes "took h (heap (csStore st)) (Some p)"
  shows "slots (heap (csStore (fst (attempt c e p sticky st)))) = slots h"
  using attempt_cases [of c e p sticky st]
proof cases
  case (transport s0 err)
  then have "took h (heap (csStore (st\<lparr>csStore := s0\<rparr>))) (Some p)" using assms by simp
  then show ?thesis unfolding transport(1) by (simp add: transportFailed_def Let_def slots_giveBack split: prod.split)
next
  case (http s0 resp)
  then have "took h (heap (csStore (st\<lparr>csStore := s0\<rparr>))) (Some p)" using assms by simp
  then show ?thesis unfolding http(1) by (simp add: httpFailed_def Let_def slots_giveBack split: prod.split)
next
  case (ok s0 proxyURL err n)
  then have "took h (heap s0) (Some p)" using assms by simp
  then show ?thesis unfolding ok(1)
    using slots_release [of h "heap s0" p "heap (ReportRequestSuccess (atEnd e) p (latency e) s0)"]
    by (simp add: served_def Let_def slots_giveBack storeRelease_def split: prod.split)
qed

subsection \<open>The passes of the loop\<close>

lemma chatLoop_cases:
  obtains (none) s1 r sticky ex x where "select c (env k) st = (s1, r, sticky, ex)" "pickOf r = None"
      "chatLoop c env k st = (st\<lparr>csStore := s1, csExclusions := ex\<rparr>, x)" "x = None \<or> x = Some (noAccount c st)"
  | (stop) s1 p sticky ex st' r where "select c (env k) st = (s1, Picked p, sticky, ex)"
      "attempt c (env k) p sticky (st\<lparr>csStore := s1, csExclusions := ex\<rparr>) = (st', Some r)" "chatLoop c env k st = (st', Some r)"
  | (again) s1 p sticky ex st' where "select c (env k) st = (s1, Picked p, sticky, ex)"
      "attempt c (env k) p sticky (st\<lparr>csStore := s1, csExclusions := ex\<rparr>) = (st', None)"
      "chatLoop c env k st = chatLoop c env (Suc k) st'" "budget c st' < budget c st"
proof -
  obtain s1 r sticky ex where sel: "select c (env k) st = (s1, r, sticky, ex)" by (metis surj_pair)
  note eq = chatLoop.simps [of c env k st, unfolded sel]
  show ?thesis
  proof (cases r)
    case (Picked p)
    obtain st' x where a: "attempt c (env k) p sticky (st\<lparr>csStore := s1, csExclusions := ex\<rparr>) = (st', x)" by force
    show ?thesis
    proof (cases x)
      case None
      then show ?thesis using again sel Picked a eq attempt_budget [of c "env k" p sticky "st\<lparr>csStore := s1, csExclusions := ex\<rparr>" st'] by simp
    next
      case (Some y)
      then show ?thesis using stop sel Picked a eq by simp
    qed
  next
    case NoPick
    then show ?thesis using none [OF sel] eq by simp
  next
    case Stuck
    then show ?thesis using none [OF sel] eq by simp
  qed
qed

definition neutralEnv :: "(nat \<Rightarrow> attemptEnv) \<Rightarrow> bool" where
  "neutralEnv env \<longleftrightarrow> (\<forall>k j. neutral (snd (atRounds (env k) j)))"

lemma select_took:
  assumes "neutralEnv env" "select c (env k) st = (s1, r, sticky, ex)"
  shows "took (heap (csStore st)) (heap s1) (pickOf r)"
proof -
  let ?q = "\<lparr>seNow = atStart (env k), seKey = ccKeyID c, seExclude = {},
    seFilter = modelCooldownFilter (atStart (env k)) (csStore st) (ccModel c) None, seCoin = (\<lambda>_ _. 0)\<rparr>"
  have "sessionTook (csStore st) (nextRetryAccountForSession ?q (ccTTL c) (ccAffinityKey c) (atRounds (env k)) 0 (csExclusions st) (csStore st))"
    by (rule nextRetry_took) (use assms(1) in \<open>simp add: neutralEnv_def\<close>)
  then show ?thesis using assms(2) by (simp add: select_def sessionTook_def)
qed

lemma chatLoop_slots:
  assumes "neutralEnv env"
  shows "slots (heap (csStore (fst (chatLoop c env k st)))) = slots (heap (csStore st))"
proof (induction "budget c st" arbitrary: k st rule: less_induct)
  case less
  show ?case using chatLoop_cases [of c env k st]
  proof cases
    case (none s1 r sticky ex x)
    then show ?thesis using select_took [OF assms none(1)] by simp
  next
    case (stop s1 p sticky ex st' r)
    then show ?thesis
      using slots_attempt [of "heap (csStore st)" "st\<lparr>csStore := s1, csExclusions := ex\<rparr>" p c "env k" sticky]
        select_took [OF assms stop(1)] by simp
  next
    case (again s1 p sticky ex st')
    then show ?thesis
      using slots_attempt [of "heap (csStore st)" "st\<lparr>csStore := s1, csExclusions := ex\<rparr>" p c "env k" sticky]
        select_took [OF assms again(1)] less [OF again(4), of "Suc k"] by simp
  qed
qed

subsection \<open>The trace\<close>

fun evAccount :: "event \<Rightarrow> int" where
  "evAccount (TransportError i) = i"
| "evAccount (HTTPError i code) = i"
| "evAccount (StreamBroken i) = i"
| "evAccount (Served i) = i"

fun evFailed :: "event \<Rightarrow> bool" where
  "evFailed (TransportError i) = True"
| "evFailed (HTTPError i code) = True"
| "evFailed _ = False"

lemma attempt_trace:
  assumes "attempt c e p sticky st = (st', x)"
  shows "\<exists>ev. csTrace st' = csTrace st @ [ev] \<and> evAccount ev = idOf (csStore st) p \<and> hard (csExclusions st) \<subseteq> hard (csExclusions st') \<and>
    (evFailed ev \<and> evAccount ev \<noteq> 0 \<longrightarrow> evAccount ev \<in> hard (csExclusions st')) \<and>
    (case x of Some (PassedThrough n) \<Rightarrow> ev = Served (idOf (csStore st) p) | _ \<Rightarrow> \<not> (\<exists>i. ev = Served i))"
  using attempt_cases [of c e p sticky st]
proof cases
  case (transport s0 err)
  then show ?thesis using assms
    by (auto simp: transportFailed_def Let_def MarkHard_def ErrorToGinResponse_def split: prod.splits if_splits option.splits)
next
  case (http s0 resp)
  then show ?thesis using assms
    by (auto simp: httpFailed_def Let_def MarkHard_def sendFinalUpstreamError_def split: prod.splits if_splits option.splits)
next
  case (ok s0 proxyURL err n)
  then show ?thesis using assms
    by (auto simp: served_def Let_def split: prod.splits if_splits)
qed

lemma chatLoop_length:
  "length (csTrace (fst (chatLoop c env k st))) \<le> length (csTrace st) + budget c st + 1"
proof (induction "budget c st" arbitrary: k st rule: less_induct)
  case less
  show ?case using chatLoop_cases [of c env k st]
  proof cases
    case (none s1 r sticky ex x)
    then show ?thesis by simp
  next
    case (stop s1 p sticky ex st' r)
    then show ?thesis using attempt_trace [OF stop(2)] by auto
  next
    case (again s1 p sticky ex st')
    then show ?thesis using attempt_trace [OF again(2)] less [OF again(4), of "Suc k"] by auto
  qed
qed

subsection \<open>The invariant of the store\<close>

lemma account_usageLimit_DBID [simp]: "DBID (ApplyUsageLimitMetadataAccount now base plan t a) = DBID a"
  by (simp add: ApplyUsageLimitMetadataAccount_def Let_def sel_simps)

lemma setDisabled_ok: "store_ok s \<Longrightarrow> store_ok (setDisabled b p s)"
  unfolding setDisabled_def by (rule updAccount_ok) simp_all

lemma usageLimit_ok: "store_ok s \<Longrightarrow> store_ok (ApplyUsageLimitMetadata now p plan t s)"
  unfolding ApplyUsageLimitMetadata_def by (rule onAccount_ok) simp_all

lemma Apply429_ok: "store_ok s \<Longrightarrow> store_ok (fst (Apply429Cooldown g f now p body resp model s))"
  by (simp add: Apply429Cooldown_def Let_def reports_ok usageLimit_ok split: option.split)

lemma applyCooldown_ok: "store_ok s \<Longrightarrow> store_ok (fst (applyCooldownForModel g f clean txt now p code body resp model s))"
  by (simp add: applyCooldownForModel_def Let_def reports_ok setDisabled_ok Apply429_ok RemoveAccount_ok split: option.split)

lemma giveBack_ok: "store_ok s \<Longrightarrow> store_ok (giveBack c e p i kind s)"
  by (simp add: giveBack_def bindings_ok storeRelease_ok reports_ok)

lemma attempt_ok:
  assumes "store_ok (csStore st)"
  shows "store_ok (csStore (fst (attempt c e p sticky st)))"
  using attempt_cases [of c e p sticky st]
proof cases
  case (transport s0 err)
  then have "store_ok s0" using assms by (simp add: bindings_ok)
  then show ?thesis unfolding transport(1) by (simp add: transportFailed_def Let_def giveBack_ok split: prod.split)
next
  case (http s0 resp)
  then have "store_ok s0" using assms by (simp add: bindings_ok)
  then show ?thesis unfolding http(1) by (simp add: httpFailed_def Let_def giveBack_ok applyCooldown_ok split: prod.split)
next
  case (ok s0 proxyURL err n)
  then have "store_ok s0" using assms by (simp add: bindings_ok)
  then show ?thesis unfolding ok(1)
    by (simp add: served_def Let_def giveBack_ok storeRelease_ok bindings_ok reports_ok split: prod.split)
qed

definition quietEnv :: "(nat \<Rightarrow> attemptEnv) \<Rightarrow> bool" where
  "quietEnv env \<longleftrightarrow> (\<forall>k j. quiet (snd (atRounds (env k) j)))"

lemma select_ok:
  assumes "quietEnv env" "store_ok (csStore st)" "select c (env k) st = (s1, r, sticky, ex)"
  shows "store_ok s1 \<and> hard ex = hard (csExclusions st) \<and> (\<forall>p. r = Picked p \<longrightarrow> idOf s1 p \<notin> hard (csExclusions st))"
proof -
  let ?q = "\<lparr>seNow = atStart (env k), seKey = ccKeyID c, seExclude = {},
    seFilter = modelCooldownFilter (atStart (env k)) (csStore st) (ccModel c) None, seCoin = (\<lambda>_ _. 0)\<rparr>"
  have "pick_ok (?q\<lparr>seExclude := ForSelection ex\<rparr>) (s1, r) \<and> hard ex = hard (csExclusions st)"
    using nextRetry_ok [OF assms(2), of "atRounds (env k)" ?q "ccTTL c" "ccAffinityKey c" 0 "csExclusions st" s1 r sticky ex]
      assms(1,3) by (simp add: quietEnv_def select_def)
  then show ?thesis by (auto simp: pick_ok_def permitted_def idOf_def ForSelection_def)
qed

text \<open>An account that failed is excluded, and is not asked again.\<close>

definition notAgain :: "event \<Rightarrow> event \<Rightarrow> bool" where
  "notAgain x y \<longleftrightarrow> (evFailed x \<and> evAccount x \<noteq> 0 \<longrightarrow> evAccount y \<noteq> evAccount x)"

definition traceOk :: "chatState \<Rightarrow> bool" where
  "traceOk st \<longleftrightarrow> store_ok (csStore st) \<and> sorted_wrt notAgain (csTrace st) \<and>
     (\<forall>ev \<in> set (csTrace st). evFailed ev \<and> evAccount ev \<noteq> 0 \<longrightarrow> evAccount ev \<in> hard (csExclusions st))"

lemma attempt_traceOk:
  assumes "traceOk st" "store_ok s1" "hard ex = hard (csExclusions st)" "idOf s1 p \<notin> hard (csExclusions st)"
    and "attempt c e p sticky (st\<lparr>csStore := s1, csExclusions := ex\<rparr>) = (st', x)"
  shows "traceOk st'"
proof -
  let ?st = "st\<lparr>csStore := s1, csExclusions := ex\<rparr>"
  obtain ev where ev: "csTrace st' = csTrace st @ [ev]" "evAccount ev = idOf s1 p" "hard (csExclusions st) \<subseteq> hard (csExclusions st')"
    "evFailed ev \<and> evAccount ev \<noteq> 0 \<longrightarrow> evAccount ev \<in> hard (csExclusions st')"
    using attempt_trace [OF assms(5)] assms(3) by auto
  have "store_ok (csStore st')" using attempt_ok [of ?st c e p sticky] assms(2,5) by simp
  then show ?thesis using ev assms(1,4) by (auto simp: traceOk_def sorted_wrt_append notAgain_def)
qed

lemma chatLoop_traceOk:
  assumes "quietEnv env" "traceOk st"
  shows "traceOk (fst (chatLoop c env k st))"
  using assms(2)
proof (induction "budget c st" arbitrary: k st rule: less_induct)
  case less
  then have ok: "store_ok (csStore st)" by (simp add: traceOk_def)
  show ?case using chatLoop_cases [of c env k st]
  proof cases
    case (none s1 r sticky ex x)
    then show ?thesis using select_ok [OF assms(1) ok none(1)] less.prems by (auto simp: traceOk_def)
  next
    case (stop s1 p sticky ex st' r)
    then show ?thesis using select_ok [OF assms(1) ok stop(1)] attempt_traceOk [OF less.prems _ _ _ stop(2)] by simp
  next
    case (again s1 p sticky ex st')
    then have "traceOk st'" using select_ok [OF assms(1) ok again(1)] attempt_traceOk [OF less.prems _ _ _ again(2)] by simp
    then show ?thesis using less.hyps [OF again(4)] again(3) by simp
  qed
qed

subsection \<open>The claims\<close>

text \<open>
  C8: The loop of a chat request ends whatever the upstream does, with at most one request more than the two
  budgets of retries allow together.\<close>
theorem chat_attempts_bounded:
  "length (csTrace (fst (chatLoop c env 0 (newChatState s)))) \<le> nat (ccMaxRetries c) + nat (ccMaxRateLimitRetries c) + 1"
  using chatLoop_length [of c env 0 "newChatState s"] by (simp add: newChatState_def budget_def)

text \<open>
  C3: No slot of an account leaks: however the attempts of a request end, when the loop returns every account has as many
  active requests as before, provided that the others give back what they take while the request waits.\<close>
theorem chat_slots_balanced:
  assumes "neutralEnv env"
  shows "map_option ActiveRequests (heap (csStore (fst (chatLoop c env 0 (newChatState s)))) p) =
    map_option ActiveRequests (heap s p)"
proof -
  have "slots (heap (csStore (fst (chatLoop c env 0 (newChatState s))))) p = slots (heap s) p"
    using chatLoop_slots [OF assms, of c 0 "newChatState s"] by (simp add: newChatState_def)
  then show ?thesis by (simp add: slots_def)
qed

definition demoChat :: "jvalue option chatConfig" where
  "demoChat = \<lparr>ccGjson = demoReader, ccScanFloat = (\<lambda>_. 0), ccAutoClean = False, ccErrorText = (\<lambda>_ _. []), ccMaxRetries = 2,
     ccMaxRateLimitRetries = 1, ccTTL = 100, ccModel = ''qwen'', ccKeyID = 0, ccAffinityKey = ''chat''\<rparr>"

definition demoAttempt :: "upstreamOutcome \<Rightarrow> attemptEnv" where
  "demoAttempt r = \<lparr>atRounds = (\<lambda>_. ((1000, \<lambda>_ _. 0), [])), atStart = 1000, atOutcome = (\<lambda>_ _. r), atEnd = 1000 + Second\<rparr>"

definition refused :: "nat \<Rightarrow> attemptEnv" where
  "refused k = demoAttempt (Failed (Plain ''connection refused''))"

theorem chat_slots_balanced_witness:
  "map_option ActiveRequests (heap (csStore (fst (chatLoop demoChat refused 0 (newChatState demoStore)))) 0) = Some 0"
proof -
  have "neutralEnv refused" by (simp add: neutralEnv_def refused_def demoAttempt_def neutral_def)
  moreover have "map_option ActiveRequests (heap demoStore 0) = Some 0"
    by (simp add: demoStore_def demoAccount_def newAccount_def)
  ultimately show ?thesis using chat_slots_balanced [of refused demoChat demoStore 0] by (simp only:)
qed



subsection \<open>Broken streams and errors that should not be retried\<close>

text \<open>
  Supplement: A response whose body breaks off after some of it was sent, or before anything was sent but with no retry left, is a
  success for the store: the reply keeps the status 200, the session stays bound, and the account is credited with a successful
  request and gets its slot back.\<close>
theorem broken_stream_counts_as_success:
  assumes "atOutcome e p (resolveProxyForAttempt p sticky (csStore st)) = Answered resp (Some err) n" "StatusCode resp = 200"
    and "0 < n \<or> ccMaxRetries c \<le> csGeneral st"
  shows "\<exists>s proxyURL. attempt c e p sticky st =
    (st\<lparr>csStore := storeRelease p (bindSessionAffinity (atEnd e) (ccTTL c) (ccAffinityKey c) p proxyURL
            (ReportRequestSuccess (atEnd e) p (latency e) s)), csTrace := csTrace st @ [Served (idOf (csStore st) p)]\<rparr>,
     Some (PassedThrough n))"
  using assms by (auto simp: attempt_def served_def shouldRetryRequestError_def Let_def split: prod.split)

theorem broken_stream_counts_as_success_witness:
  "snd (attempt demoChat (demoAttempt (Answered \<lparr>StatusCode = 200, Header = (\<lambda>_. []), Body = []\<rparr> (Some (Plain ''EOF'')) 12)) 0 []
     (newChatState demoStore)) = Some (PassedThrough 12)"
  using broken_stream_counts_as_success [of "demoAttempt (Answered \<lparr>StatusCode = 200, Header = (\<lambda>_. []), Body = []\<rparr> (Some (Plain ''EOF'')) 12)"
      0 "[]" "newChatState demoStore" "\<lparr>StatusCode = 200, Header = (\<lambda>_. []), Body = []\<rparr>" "Plain ''EOF''" 12 demoChat]
  by (auto simp: demoAttempt_def)

text \<open>
  Supplement: Every error of the transport is retried with another account as long as retries are left, also one that is marked as
  not retryable: the failure always has a class, so the branch for errors that are not retryable is never taken, and after the
  last retry the client gets the error with its own status.\<close>
theorem every_transport_error_retried:
  assumes "atOutcome e p (resolveProxyForAttempt p sticky (csStore st)) = Failed err"
  shows "snd (attempt c e p sticky st) = (if csGeneral st < ccMaxRetries c then None else Some (ErrorToGinResponse err)) \<and>
    csGeneral (fst (attempt c e p sticky st)) = (if csGeneral st < ccMaxRetries c then csGeneral st + 1 else csGeneral st)"
proof -
  have "classifyTransportFailure (Some err) \<noteq> []" by (simp add: classifyTransportFailure_def Let_def)
  then show ?thesis using assms by (auto simp: attempt_def transportFailed_def shouldRetryRequestError_def Let_def)
qed

theorem every_transport_error_retried_witness:
  "\<not> IsRetryableError (Some (ErrBadRequest [])) \<and>
   snd (attempt demoChat (demoAttempt (Failed (ErrBadRequest []))) 0 [] (newChatState demoStore)) = None"
  using every_transport_error_retried [of "demoAttempt (Failed (ErrBadRequest []))" 0 "[]" "newChatState demoStore" "ErrBadRequest []" demoChat]
  by (simp add: IsRetryableError_def ErrBadRequest_def mkError_def demoAttempt_def newChatState_def demoChat_def)

end
