(* ===== verification/RateLimit.thy ===== *)
theory RateLimit
  imports GoStrings
begin

section \<open>Rate limiting\<close>

text \<open>
  Models \<open>proxy/ratelimit.go\<close>: the token bucket, the cooldown manager with its table of
  back-off durations, the limiter of one level, the limiter with a global, an account and a model
  level, and the path rule of the middleware. Each operation takes the time it reads as its
  argument \<open>now\<close>. A nil bucket is \<open>None\<close>; an operation of a level that would dereference it
  returns \<open>None\<close>, and the invariant \<open>limiter_wf\<close> shows that this never happens.
\<close>

datatype RateLimitLevel = LevelGlobal | LevelAccount | LevelModel

record LimitMetrics =
  lmTotalRequests :: int
  lmAllowedRequests :: int
  lmBlockedRequests :: int
  lmCurrentRPM :: int
  lmLimitRPM :: int
  lmCooldownLevel :: int
  lmNextResetAt :: time
  lmLastUpdatedAt :: time

definition emptyMetrics :: LimitMetrics where
  "emptyMetrics = \<lparr>lmTotalRequests = 0, lmAllowedRequests = 0, lmBlockedRequests = 0, lmCurrentRPM = 0,
     lmLimitRPM = 0, lmCooldownLevel = 0, lmNextResetAt = 0, lmLastUpdatedAt = 0\<rparr>"

record LimitSnapshot =
  lsKey :: string
  lsLevel :: string
  lsCurrentRPM :: int
  lsLimitRPM :: int
  lsBlocked :: bool
  lsBlockedAt :: time
  lsResetAt :: time

subsection \<open>The token bucket\<close>

record tokenBucket =
  tbTokens :: float64
  tbMax :: float64
  tbRate :: float64
  tbLast :: time

definition seconds :: "duration \<Rightarrow> float64" where
  "seconds d = real_of_int d / 1000000000"

definition newTokenBucket :: "time \<Rightarrow> int \<Rightarrow> tokenBucket" where
  "newTokenBucket now rpm =
     \<lparr>tbTokens = real_of_int rpm, tbMax = real_of_int rpm, tbRate = real_of_int rpm / 60, tbLast = now\<rparr>"

definition refill :: "time \<Rightarrow> tokenBucket \<Rightarrow> tokenBucket" where
  "refill now tb =
     (let elapsed = seconds (time_Sub now (tbLast tb));
          tokens = tbTokens tb + elapsed * tbRate tb
      in tb\<lparr>tbTokens := (if tokens > tbMax tb then tbMax tb else tokens), tbLast := now\<rparr>)"

definition bucket_allow :: "time \<Rightarrow> tokenBucket \<Rightarrow> tokenBucket \<times> bool" where
  "bucket_allow now tb0 =
     (let tb = refill now tb0
      in if tbTokens tb \<ge> 1 then (tb\<lparr>tbTokens := tbTokens tb - 1\<rparr>, True) else (tb, False))"

definition bucket_allowN :: "time \<Rightarrow> int \<Rightarrow> tokenBucket \<Rightarrow> tokenBucket \<times> bool" where
  "bucket_allowN now n tb0 =
     (if n \<le> 0 then (tb0, True)
      else let tb = refill now tb0
           in if tbTokens tb \<ge> real_of_int n then (tb\<lparr>tbTokens := tbTokens tb - real_of_int n\<rparr>, True)
              else (tb, False))"

definition getRate :: "tokenBucket \<Rightarrow> float64" where
  "getRate tb = tbRate tb * 60"

definition getTokens :: "time \<Rightarrow> tokenBucket \<Rightarrow> float64" where
  "getTokens now tb =
     (let tokens = tbTokens tb + seconds (time_Sub now (tbLast tb)) * tbRate tb
      in if tokens > tbMax tb then tbMax tb else tokens)"

definition bucket_updateRPM :: "time \<Rightarrow> int \<Rightarrow> tokenBucket \<Rightarrow> tokenBucket" where
  "bucket_updateRPM now rpm tb =
     (let tokens = (if tbMax tb > 0 then tbTokens tb / tbMax tb * real_of_int rpm else real_of_int rpm)
      in tb\<lparr>tbMax := real_of_int rpm, tbRate := real_of_int rpm / 60,
            tbTokens := (if tokens > real_of_int rpm then real_of_int rpm else tokens), tbLast := now\<rparr>)"

subsection \<open>Cooldowns\<close>

record cooldownManager =
  cmLevel :: int
  cmBlockedAt :: time
  cmResetAt :: time
  cmLastBackoff :: duration

definition cooldownDurations :: "duration list" where
  "cooldownDurations = map (\<lambda>n. n * Second) [1, 2, 4, 8, 16, 32, 64, 128, 256, 512, 1024, 1800]"

definition newCooldownManager :: cooldownManager where
  "newCooldownManager = \<lparr>cmLevel = -1, cmBlockedAt = 0, cmResetAt = 0, cmLastBackoff = 0\<rparr>"

definition computeCooldown :: "cooldownManager \<Rightarrow> duration \<times> int" where
  "computeCooldown cm =
     (let newLevel0 = cmLevel cm + 1;
          newLevel = (if newLevel0 \<ge> int (length cooldownDurations) then int (length cooldownDurations) - 1 else newLevel0)
      in (cooldownDurations ! nat newLevel, newLevel))"

definition enterCooldown :: "time \<Rightarrow> cooldownManager \<Rightarrow> cooldownManager" where
  "enterCooldown now cm =
     (let (duration, level) = computeCooldown cm
      in cm\<lparr>cmLevel := level, cmBlockedAt := now, cmResetAt := now + duration, cmLastBackoff := duration\<rparr>)"

definition cooldown_reset :: "cooldownManager \<Rightarrow> cooldownManager" where
  "cooldown_reset cm = cm\<lparr>cmLevel := -1, cmBlockedAt := 0, cmResetAt := 0, cmLastBackoff := 0\<rparr>"

definition isInCooldown :: "time \<Rightarrow> cooldownManager \<Rightarrow> bool" where
  "isInCooldown now cm = (if cmLevel cm < 0 then False else now < cmResetAt cm)"

definition getRemainingCooldown :: "time \<Rightarrow> cooldownManager \<Rightarrow> duration" where
  "getRemainingCooldown now cm =
     (if cmLevel cm < 0 then 0
      else let remaining = time_Sub (cmResetAt cm) now in if remaining < 0 then 0 else remaining)"

definition ComputeCooldown :: "int \<Rightarrow> duration \<times> int" where
  "ComputeCooldown prevLevel0 =
     (let prevLevel = (if prevLevel0 < 0 then -1 else prevLevel0);
          newLevel0 = prevLevel + 1;
          newLevel = (if newLevel0 \<ge> int (length cooldownDurations) then int (length cooldownDurations) - 1 else newLevel0)
      in (cooldownDurations ! nat newLevel, newLevel))"

subsection \<open>The limiter of one level\<close>

record LevelLimiter =
  llKey :: string
  llLevel :: RateLimitLevel
  llBucket :: "tokenBucket option"
  llCooldown :: cooldownManager
  llMetrics :: LimitMetrics
  llEnabled :: bool
  llLastAccess :: time

definition newLevelLimiter :: "time \<Rightarrow> string \<Rightarrow> RateLimitLevel \<Rightarrow> int \<Rightarrow> LevelLimiter" where
  "newLevelLimiter now key level rpm =
     \<lparr>llKey = key, llLevel = level,
      llBucket = (if rpm > 0 then Some (newTokenBucket now rpm) else None),
      llCooldown = newCooldownManager,
      llMetrics = (if rpm > 0 then emptyMetrics\<lparr>lmLimitRPM := rpm\<rparr> else emptyMetrics),
      llEnabled = (rpm > 0), llLastAccess = now\<rparr>"

text \<open>Conversion of a \<open>float64\<close> to an integer truncates towards zero.\<close>

definition truncInt :: "float64 \<Rightarrow> int" where
  "truncInt x = (if x \<ge> 0 then \<lfloor>x\<rfloor> else \<lceil>x\<rceil>)"

definition limiter_enterCooldown :: "time \<Rightarrow> LevelLimiter \<Rightarrow> LevelLimiter" where
  "limiter_enterCooldown now ll =
     (let cd = enterCooldown now (llCooldown ll)
      in ll\<lparr>llCooldown := cd,
            llMetrics := (llMetrics ll)\<lparr>lmCooldownLevel := cmLevel cd, lmNextResetAt := cmResetAt cd\<rparr>\<rparr>)"

definition resetCooldown :: "LevelLimiter \<Rightarrow> LevelLimiter" where
  "resetCooldown ll =
     ll\<lparr>llCooldown := cooldown_reset (llCooldown ll),
        llMetrics := (llMetrics ll)\<lparr>lmCooldownLevel := -1, lmNextResetAt := 0\<rparr>\<rparr>"

definition countBlocked :: "int \<Rightarrow> LevelLimiter \<Rightarrow> LevelLimiter" where
  "countBlocked n ll = ll\<lparr>llMetrics := (llMetrics ll)\<lparr>lmBlockedRequests := lmBlockedRequests (llMetrics ll) + n\<rparr>\<rparr>"

definition limiter_allow :: "time \<Rightarrow> LevelLimiter \<Rightarrow> (LevelLimiter \<times> bool) option" where
  "limiter_allow now ll0 =
     (let ll = ll0\<lparr>llLastAccess := now,
                   llMetrics := (llMetrics ll0)\<lparr>lmTotalRequests := lmTotalRequests (llMetrics ll0) + 1,
                                                lmLastUpdatedAt := now\<rparr>\<rparr>
      in if \<not> llEnabled ll then Some (ll, True)
         else if isInCooldown now (llCooldown ll) then Some (countBlocked 1 ll, False)
         else case llBucket ll of
                None \<Rightarrow> None
              | Some tb \<Rightarrow>
                  (case bucket_allow now tb of
                     (tb', True) \<Rightarrow>
                       Some (ll\<lparr>llBucket := Some tb',
                                llMetrics := (llMetrics ll)\<lparr>lmAllowedRequests := lmAllowedRequests (llMetrics ll) + 1,
                                                            lmCurrentRPM := truncInt (getRate tb')\<rparr>\<rparr>, True)
                   | (tb', False) \<Rightarrow> Some (countBlocked 1 (limiter_enterCooldown now (ll\<lparr>llBucket := Some tb'\<rparr>)), False)))"

definition limiter_allowN :: "time \<Rightarrow> int \<Rightarrow> LevelLimiter \<Rightarrow> (LevelLimiter \<times> bool) option" where
  "limiter_allowN now n ll0 =
     (let ll = ll0\<lparr>llLastAccess := now,
                   llMetrics := (llMetrics ll0)\<lparr>lmTotalRequests := lmTotalRequests (llMetrics ll0) + n,
                                                lmLastUpdatedAt := now\<rparr>\<rparr>
      in if \<not> llEnabled ll then Some (ll, True)
         else if isInCooldown now (llCooldown ll) then Some (countBlocked n ll, False)
         else case llBucket ll of
                None \<Rightarrow> None
              | Some tb \<Rightarrow>
                  (case bucket_allowN now n tb of
                     (tb', True) \<Rightarrow>
                       Some (ll\<lparr>llBucket := Some tb',
                                llMetrics := (llMetrics ll)\<lparr>lmAllowedRequests := lmAllowedRequests (llMetrics ll) + n\<rparr>\<rparr>, True)
                   | (tb', False) \<Rightarrow> Some (countBlocked n (limiter_enterCooldown now (ll\<lparr>llBucket := Some tb'\<rparr>)), False)))"

definition limiter_updateRPM :: "time \<Rightarrow> int \<Rightarrow> LevelLimiter \<Rightarrow> LevelLimiter" where
  "limiter_updateRPM now rpm ll =
     ll\<lparr>llEnabled := (rpm > 0), llMetrics := (llMetrics ll)\<lparr>lmLimitRPM := rpm\<rparr>,
        llBucket := (if rpm > 0 then Some (case llBucket ll of None \<Rightarrow> newTokenBucket now rpm
                                           | Some tb \<Rightarrow> bucket_updateRPM now rpm tb)
                     else None)\<rparr>"

definition getMetrics :: "LevelLimiter \<Rightarrow> LimitMetrics" where
  "getMetrics ll =
     (llMetrics ll)\<lparr>lmCurrentRPM := (case llBucket ll of None \<Rightarrow> lmCurrentRPM (llMetrics ll) | Some tb \<Rightarrow> truncInt (getRate tb)),
                    lmCooldownLevel := cmLevel (llCooldown ll), lmNextResetAt := cmResetAt (llCooldown ll)\<rparr>"

definition levelName :: "RateLimitLevel \<Rightarrow> string" where
  "levelName l = (case l of LevelGlobal \<Rightarrow> ''global'' | LevelAccount \<Rightarrow> ''account'' | LevelModel \<Rightarrow> ''model'')"

definition getSnapshot :: "LevelLimiter \<Rightarrow> LimitSnapshot" where
  "getSnapshot ll =
     \<lparr>lsKey = llKey ll, lsLevel = levelName (llLevel ll), lsCurrentRPM = lmCurrentRPM (llMetrics ll),
      lsLimitRPM = lmLimitRPM (llMetrics ll), lsBlocked = (cmLevel (llCooldown ll) \<ge> 0),
      lsBlockedAt = cmBlockedAt (llCooldown ll), lsResetAt = cmResetAt (llCooldown ll)\<rparr>"

subsection \<open>The limiter with three levels\<close>

record EnhancedRateLimiter =
  erlGlobal :: LevelLimiter
  erlAccounts :: "string \<rightharpoonup> LevelLimiter"
  erlModels :: "string \<rightharpoonup> LevelLimiter"
  erlGlobalRPM :: int
  erlAccountRPM :: int
  erlModelRPM :: int
  erlEnabled :: bool
  erlTotalLimited :: int

definition NewEnhancedRateLimiter :: "time \<Rightarrow> int \<Rightarrow> int \<Rightarrow> int \<Rightarrow> EnhancedRateLimiter" where
  "NewEnhancedRateLimiter now globalRPM accountRPM modelRPM =
     \<lparr>erlGlobal = newLevelLimiter now ''global'' LevelGlobal globalRPM, erlAccounts = Map.empty,
      erlModels = Map.empty, erlGlobalRPM = globalRPM, erlAccountRPM = accountRPM, erlModelRPM = modelRPM,
      erlEnabled = (globalRPM > 0 \<or> accountRPM > 0 \<or> modelRPM > 0), erlTotalLimited = 0\<rparr>"

definition Allow :: "time \<Rightarrow> EnhancedRateLimiter \<Rightarrow> (EnhancedRateLimiter \<times> bool) option" where
  "Allow now erl =
     (if \<not> erlEnabled erl then Some (erl, True)
      else map_option (\<lambda>(ll, ok). (erl\<lparr>erlGlobal := ll\<rparr>, ok)) (limiter_allow now (erlGlobal erl)))"

text \<open>One keyed level of \<open>AllowWithContext\<close>: look the limiter up, create it when it is
  missing, ask it.\<close>

definition allowKeyed ::
  "time \<Rightarrow> RateLimitLevel \<Rightarrow> int \<Rightarrow> string \<Rightarrow> (string \<rightharpoonup> LevelLimiter) \<Rightarrow> ((string \<rightharpoonup> LevelLimiter) \<times> bool) option" where
  "allowKeyed now level rpm key m =
     (let ll = (case m key of None \<Rightarrow> newLevelLimiter now key level rpm | Some l \<Rightarrow> l)
      in map_option (\<lambda>(ll', ok). (m(key \<mapsto> ll'), ok)) (limiter_allow now ll))"

definition AllowWithContext :: "time \<Rightarrow> string \<Rightarrow> string \<Rightarrow> EnhancedRateLimiter \<Rightarrow> (EnhancedRateLimiter \<times> bool) option" where
  "AllowWithContext now accountID model erl =
     (if \<not> erlEnabled erl then Some (erl, True)
      else case limiter_allow now (erlGlobal erl) of
        None \<Rightarrow> None
      | Some (g, False) \<Rightarrow> Some (erl\<lparr>erlGlobal := g, erlTotalLimited := erlTotalLimited erl + 1\<rparr>, False)
      | Some (g, True) \<Rightarrow>
          (let erl1 = erl\<lparr>erlGlobal := g\<rparr>
           in case (if erlAccountRPM erl1 > 0 \<and> accountID \<noteq> []
                    then allowKeyed now LevelAccount (erlAccountRPM erl1) accountID (erlAccounts erl1)
                    else Some (erlAccounts erl1, True)) of
                None \<Rightarrow> None
              | Some (accs, False) \<Rightarrow> Some (erl1\<lparr>erlAccounts := accs, erlTotalLimited := erlTotalLimited erl1 + 1\<rparr>, False)
              | Some (accs, True) \<Rightarrow>
                  (let erl2 = erl1\<lparr>erlAccounts := accs\<rparr>
                   in case (if erlModelRPM erl2 > 0 \<and> model \<noteq> []
                            then allowKeyed now LevelModel (erlModelRPM erl2) model (erlModels erl2)
                            else Some (erlModels erl2, True)) of
                        None \<Rightarrow> None
                      | Some (ms, False) \<Rightarrow> Some (erl2\<lparr>erlModels := ms, erlTotalLimited := erlTotalLimited erl2 + 1\<rparr>, False)
                      | Some (ms, True) \<Rightarrow> Some (erl2\<lparr>erlModels := ms\<rparr>, True))))"

definition UpdateAllRPM :: "time \<Rightarrow> int \<Rightarrow> int \<Rightarrow> int \<Rightarrow> EnhancedRateLimiter \<Rightarrow> EnhancedRateLimiter" where
  "UpdateAllRPM now g a m erl =
     erl\<lparr>erlGlobalRPM := g, erlAccountRPM := a, erlModelRPM := m,
         erlGlobal := limiter_updateRPM now g (erlGlobal erl),
         erlAccounts := map_option (limiter_updateRPM now a) \<circ> erlAccounts erl,
         erlModels := map_option (limiter_updateRPM now m) \<circ> erlModels erl,
         erlEnabled := (g > 0 \<or> a > 0 \<or> m > 0)\<rparr>"

definition UpdateGlobalRPM :: "time \<Rightarrow> int \<Rightarrow> EnhancedRateLimiter \<Rightarrow> EnhancedRateLimiter" where
  "UpdateGlobalRPM now rpm erl =
     erl\<lparr>erlGlobalRPM := rpm, erlGlobal := limiter_updateRPM now rpm (erlGlobal erl),
         erlEnabled := (rpm > 0 \<or> erlAccountRPM erl > 0 \<or> erlModelRPM erl > 0)\<rparr>"

definition UpdateAccountRPM :: "time \<Rightarrow> int \<Rightarrow> EnhancedRateLimiter \<Rightarrow> EnhancedRateLimiter" where
  "UpdateAccountRPM now rpm erl =
     erl\<lparr>erlAccountRPM := rpm, erlAccounts := map_option (limiter_updateRPM now rpm) \<circ> erlAccounts erl,
         erlEnabled := (erlGlobalRPM erl > 0 \<or> rpm > 0 \<or> erlModelRPM erl > 0)\<rparr>"

definition UpdateModelRPM :: "time \<Rightarrow> int \<Rightarrow> EnhancedRateLimiter \<Rightarrow> EnhancedRateLimiter" where
  "UpdateModelRPM now rpm erl =
     erl\<lparr>erlModelRPM := rpm, erlModels := map_option (limiter_updateRPM now rpm) \<circ> erlModels erl,
         erlEnabled := (erlGlobalRPM erl > 0 \<or> erlAccountRPM erl > 0 \<or> rpm > 0)\<rparr>"

definition evictMap :: "time \<Rightarrow> (string \<rightharpoonup> LevelLimiter) \<Rightarrow> string \<rightharpoonup> LevelLimiter" where
  "evictMap cutoff m = (\<lambda>k. case m k of Some l \<Rightarrow> if llLastAccess l < cutoff then None else Some l | None \<Rightarrow> None)"

definition evictStaleLimiters :: "time \<Rightarrow> duration \<Rightarrow> EnhancedRateLimiter \<Rightarrow> EnhancedRateLimiter" where
  "evictStaleLimiters now ttl erl =
     erl\<lparr>erlAccounts := evictMap (now - ttl) (erlAccounts erl), erlModels := evictMap (now - ttl) (erlModels erl)\<rparr>"

definition GetGlobalMetrics :: "EnhancedRateLimiter \<Rightarrow> LimitMetrics" where
  "GetGlobalMetrics erl = getMetrics (erlGlobal erl)"

definition GetAccountMetrics :: "string \<Rightarrow> EnhancedRateLimiter \<Rightarrow> LimitMetrics" where
  "GetAccountMetrics accountID erl = (case erlAccounts erl accountID of None \<Rightarrow> emptyMetrics | Some l \<Rightarrow> getMetrics l)"

definition GetModelMetrics :: "string \<Rightarrow> EnhancedRateLimiter \<Rightarrow> LimitMetrics" where
  "GetModelMetrics model erl = (case erlModels erl model of None \<Rightarrow> emptyMetrics | Some l \<Rightarrow> getMetrics l)"

subsection \<open>The middleware\<close>

definition NewRateLimiter :: "time \<Rightarrow> int \<Rightarrow> EnhancedRateLimiter" where
  "NewRateLimiter now rpm = NewEnhancedRateLimiter now rpm 0 0"

text \<open>Paths of the management interface and the health check are never limited.\<close>

definition exemptPath :: "string \<Rightarrow> bool" where
  "exemptPath path \<longleftrightarrow> path = ''/health'' \<or>
     (length path \<ge> 4 \<and> take 4 path = ''/api'') \<or> (length path \<ge> 6 \<and> take 6 path = ''/admin'')"

datatype middleware_reply = Next | TooManyRequests

definition Middleware :: "time \<Rightarrow> string \<Rightarrow> EnhancedRateLimiter \<Rightarrow> (EnhancedRateLimiter \<times> middleware_reply) option" where
  "Middleware now path erl =
     (if exemptPath path then Some (erl, Next)
      else map_option (\<lambda>(e, ok). (e, if ok then Next else TooManyRequests)) (Allow now erl))"

subsection \<open>The bucket never holds more than its maximum\<close>

definition bucket_wf :: "time \<Rightarrow> tokenBucket \<Rightarrow> bool" where
  "bucket_wf now tb \<longleftrightarrow> 0 \<le> tbTokens tb \<and> tbTokens tb \<le> tbMax tb \<and> 0 < tbMax tb \<and>
     tbRate tb = tbMax tb / 60 \<and> tbLast tb \<le> now"

lemma seconds_sub: "u \<le> t \<Longrightarrow> 0 \<le> seconds (time_Sub t u) \<and> seconds (time_Sub t u) \<le> seconds (t - u)"
  by (auto simp: seconds_def time_Sub_def maxDuration_def minDuration_def divide_right_mono)

lemma seconds_add: "seconds (t - u) + seconds (u - v) = seconds (t - v)"
  by (simp add: seconds_def add_divide_distrib [symmetric])

lemma bucket_wf_mono: "bucket_wf now tb \<Longrightarrow> now \<le> now' \<Longrightarrow> bucket_wf now' tb"
  by (simp add: bucket_wf_def)

lemma bucket_wf_new: "0 < rpm \<Longrightarrow> bucket_wf now (newTokenBucket now rpm)"
  by (simp add: bucket_wf_def newTokenBucket_def)

lemma refill_facts:
  assumes "bucket_wf t tb" "t \<le> now"
  shows "bucket_wf now (refill now tb)"
    and "tbTokens (refill now tb) \<le> tbTokens tb + seconds (now - tbLast tb) * tbRate tb"
    and "tbLast (refill now tb) = now" "tbRate (refill now tb) = tbRate tb" "tbMax (refill now tb) = tbMax tb"
proof -
  have s: "0 \<le> seconds (time_Sub now (tbLast tb))" "seconds (time_Sub now (tbLast tb)) \<le> seconds (now - tbLast tb)"
    using seconds_sub [of "tbLast tb" now] assms by (auto simp: bucket_wf_def)
  have r: "0 \<le> tbRate tb" using assms by (simp add: bucket_wf_def)
  show "bucket_wf now (refill now tb)"
    using assms s(1) r by (auto simp: bucket_wf_def refill_def Let_def)
  show "tbTokens (refill now tb) \<le> tbTokens tb + seconds (now - tbLast tb) * tbRate tb"
    using mult_right_mono [OF s(2) r] by (auto simp: refill_def Let_def)
  show "tbLast (refill now tb) = now" "tbRate (refill now tb) = tbRate tb" "tbMax (refill now tb) = tbMax tb"
    by (simp_all add: refill_def Let_def)
qed

text \<open>Taking tokens: the bucket stays well formed, and what is taken comes out of the tokens
  that were there plus those the elapsed time brought.\<close>

lemma bucket_allow_facts:
  assumes "bucket_wf t tb" "t \<le> now" "bucket_allow now tb = (tb', ok)"
  shows "bucket_wf now tb'" "tbTokens tb' + of_bool ok \<le> tbTokens tb + seconds (now - tbLast tb) * tbRate tb"
    "tbLast tb' = now" "tbRate tb' = tbRate tb" "tbMax tb' = tbMax tb"
  using refill_facts [OF assms(1,2)] assms(3) by (auto simp: bucket_allow_def Let_def bucket_wf_def split: if_splits)

lemma bucket_allowN_facts:
  assumes "bucket_wf t tb" "t \<le> now" "bucket_allowN now n tb = (tb', ok)"
  shows "bucket_wf now tb'"
  using refill_facts [OF assms(1,2)] assms bucket_wf_mono
  by (auto simp: bucket_allowN_def Let_def bucket_wf_def split: if_splits)

lemma bucket_updateRPM_wf: "bucket_wf t tb \<Longrightarrow> 0 < rpm \<Longrightarrow> bucket_wf now (bucket_updateRPM now rpm tb)"
  by (auto simp: bucket_wf_def bucket_updateRPM_def Let_def)

subsection \<open>Cooldown levels\<close>

lemma length_cooldownDurations [simp]: "length cooldownDurations = 12"
  by (simp add: cooldownDurations_def)

definition cooldown_wf :: "cooldownManager \<Rightarrow> bool" where
  "cooldown_wf cm \<longleftrightarrow> -1 \<le> cmLevel cm \<and> cmLevel cm \<le> 11"

lemma computeCooldown_level: "cooldown_wf cm \<Longrightarrow> snd (computeCooldown cm) = min 11 (cmLevel cm + 1)"
  by (simp add: computeCooldown_def Let_def cooldown_wf_def min_def)

lemma enterCooldown_level:
  "cooldown_wf cm \<Longrightarrow> cmLevel (enterCooldown now cm) = min 11 (cmLevel cm + 1)"
  "cooldown_wf cm \<Longrightarrow> cooldown_wf (enterCooldown now cm)"
  using computeCooldown_level [of cm] by (auto simp: enterCooldown_def cooldown_wf_def case_prod_beta)

text \<open>The table is exponential back-off with a cap of half an hour.\<close>

lemma cooldownDurations_nth: "i < 12 \<Longrightarrow> cooldownDurations ! i = min 1800 (2 ^ i) * Second"
proof -
  assume "i < 12"
  then have "i \<in> {0, 1, 2, 3, 4, 5, 6, 7, 8, 9, 10, 11}"
    unfolding insert_iff empty_iff by arith
  then show ?thesis by (elim insertE) (simp_all add: cooldownDurations_def Second_def)
qed

lemma enterCooldown_reset:
  assumes "cooldown_wf cm"
  shows "cmResetAt (enterCooldown now cm) = now + min 1800 (2 ^ nat (min 11 (cmLevel cm + 1))) * Second"
proof -
  have "fst (computeCooldown cm) = cooldownDurations ! nat (snd (computeCooldown cm))"
    by (simp add: computeCooldown_def Let_def)
  moreover have "nat (min 11 (cmLevel cm + 1)) < 12" using assms by (simp add: cooldown_wf_def)
  ultimately show ?thesis
    by (simp add: enterCooldown_def case_prod_beta computeCooldown_level [OF assms] cooldownDurations_nth)
qed

subsection \<open>The limiter of one level\<close>

definition limiter_wf :: "time \<Rightarrow> LevelLimiter \<Rightarrow> bool" where
  "limiter_wf now ll \<longleftrightarrow> (llEnabled ll \<longleftrightarrow> llBucket ll \<noteq> None) \<and>
     (\<forall>tb. llBucket ll = Some tb \<longrightarrow> bucket_wf now tb) \<and> cooldown_wf (llCooldown ll)"

lemma limiter_wf_mono: "limiter_wf now ll \<Longrightarrow> now \<le> now' \<Longrightarrow> limiter_wf now' ll"
  by (auto simp: limiter_wf_def intro: bucket_wf_mono)

lemma limiter_wf_new: "limiter_wf now (newLevelLimiter now key level rpm)"
  by (auto simp: limiter_wf_def newLevelLimiter_def bucket_wf_new cooldown_wf_def newCooldownManager_def split: if_splits)

lemma limiter_updateRPM_wf: "limiter_wf now ll \<Longrightarrow> limiter_wf now (limiter_updateRPM now rpm ll)"
  by (auto simp: limiter_wf_def limiter_updateRPM_def bucket_wf_new bucket_updateRPM_wf split: if_splits option.splits)

lemma countBlocked_sel [simp]:
  "llBucket (countBlocked n ll) = llBucket ll" "llEnabled (countBlocked n ll) = llEnabled ll"
  "llCooldown (countBlocked n ll) = llCooldown ll" "llLastAccess (countBlocked n ll) = llLastAccess ll"
  "lmTotalRequests (llMetrics (countBlocked n ll)) = lmTotalRequests (llMetrics ll)"
  "lmAllowedRequests (llMetrics (countBlocked n ll)) = lmAllowedRequests (llMetrics ll)"
  "lmBlockedRequests (llMetrics (countBlocked n ll)) = lmBlockedRequests (llMetrics ll) + n"
  by (simp_all add: countBlocked_def)

lemma limiter_enterCooldown_sel [simp]:
  "llBucket (limiter_enterCooldown now ll) = llBucket ll" "llEnabled (limiter_enterCooldown now ll) = llEnabled ll"
  "llCooldown (limiter_enterCooldown now ll) = enterCooldown now (llCooldown ll)"
  "lmTotalRequests (llMetrics (limiter_enterCooldown now ll)) = lmTotalRequests (llMetrics ll)"
  "lmAllowedRequests (llMetrics (limiter_enterCooldown now ll)) = lmAllowedRequests (llMetrics ll)"
  "lmBlockedRequests (llMetrics (limiter_enterCooldown now ll)) = lmBlockedRequests (llMetrics ll)"
  by (simp_all add: limiter_enterCooldown_def Let_def)

text \<open>The four outcomes of a request at one level.\<close>

lemma limiter_allow_cases:
  assumes wf: "limiter_wf now ll"
  obtains
    (off) ll' where "\<not> llEnabled ll" "limiter_allow now ll = Some (ll', True)"
      "llBucket ll' = llBucket ll" "llCooldown ll' = llCooldown ll" "llEnabled ll' = llEnabled ll"
  | (cooling) ll' where "llEnabled ll" "isInCooldown now (llCooldown ll)" "limiter_allow now ll = Some (ll', False)"
      "llBucket ll' = llBucket ll" "llCooldown ll' = llCooldown ll" "llEnabled ll' = llEnabled ll"
      "lmBlockedRequests (llMetrics ll') = lmBlockedRequests (llMetrics ll) + 1"
      "lmAllowedRequests (llMetrics ll') = lmAllowedRequests (llMetrics ll)"
      "lmTotalRequests (llMetrics ll') = lmTotalRequests (llMetrics ll) + 1"
  | (pass) ll' tb tb' where "llEnabled ll" "\<not> isInCooldown now (llCooldown ll)" "limiter_allow now ll = Some (ll', True)"
      "llBucket ll = Some tb" "bucket_allow now tb = (tb', True)" "llBucket ll' = Some tb'"
      "llCooldown ll' = llCooldown ll" "llEnabled ll' = llEnabled ll"
      "lmBlockedRequests (llMetrics ll') = lmBlockedRequests (llMetrics ll)"
      "lmAllowedRequests (llMetrics ll') = lmAllowedRequests (llMetrics ll) + 1"
      "lmTotalRequests (llMetrics ll') = lmTotalRequests (llMetrics ll) + 1"
  | (empty) ll' tb tb' where "llEnabled ll" "\<not> isInCooldown now (llCooldown ll)" "limiter_allow now ll = Some (ll', False)"
      "llBucket ll = Some tb" "bucket_allow now tb = (tb', False)" "llBucket ll' = Some tb'"
      "llCooldown ll' = enterCooldown now (llCooldown ll)" "llEnabled ll' = llEnabled ll"
      "lmBlockedRequests (llMetrics ll') = lmBlockedRequests (llMetrics ll) + 1"
      "lmAllowedRequests (llMetrics ll') = lmAllowedRequests (llMetrics ll)"
      "lmTotalRequests (llMetrics ll') = lmTotalRequests (llMetrics ll) + 1"
proof (cases "llEnabled ll")
  case False
  then show ?thesis using off by (simp add: limiter_allow_def Let_def)
next
  case on: True
  then obtain tb where tb: "llBucket ll = Some tb" using wf by (auto simp: limiter_wf_def)
  obtain tb' ok where b: "bucket_allow now tb = (tb', ok)" by force
  show ?thesis
  proof (cases "isInCooldown now (llCooldown ll)")
    case True
    then show ?thesis using on cooling by (simp add: limiter_allow_def Let_def)
  next
    case False
    then show ?thesis using on tb b pass empty by (cases ok) (simp_all add: limiter_allow_def Let_def)
  qed
qed

lemma limiter_allow_wf:
  assumes "limiter_wf t ll" "t \<le> now"
  shows "\<exists>ll' ok. limiter_allow now ll = Some (ll', ok) \<and> limiter_wf now ll' \<and>
    cmLevel (llCooldown ll) \<le> cmLevel (llCooldown ll') \<and> llEnabled ll' = llEnabled ll"
proof -
  have wf: "limiter_wf now ll" using assms by (rule limiter_wf_mono)
  from wf show ?thesis
  proof (cases rule: limiter_allow_cases)
    case (pass ll' tb tb')
    have "bucket_wf now tb'" by (rule bucket_allow_facts(1) [OF _ order_refl pass(5)]) (use wf pass(4) in \<open>simp add: limiter_wf_def\<close>)
    then show ?thesis using pass wf by (auto simp: limiter_wf_def)
  next
    case (empty ll' tb tb')
    have "bucket_wf now tb'" by (rule bucket_allow_facts(1) [OF _ order_refl empty(5)]) (use wf empty(4) in \<open>simp add: limiter_wf_def\<close>)
    then show ?thesis using empty wf enterCooldown_level [of "llCooldown ll" now]
      by (auto simp: limiter_wf_def cooldown_wf_def)
  qed (use wf in \<open>auto simp: limiter_wf_def\<close>)
qed

lemma limiter_allowN_wf:
  assumes "limiter_wf t ll" "t \<le> now"
  shows "\<exists>ll' ok. limiter_allowN now n ll = Some (ll', ok) \<and> limiter_wf now ll' \<and>
    cmLevel (llCooldown ll) \<le> cmLevel (llCooldown ll') \<and> llEnabled ll' = llEnabled ll"
proof -
  have wf: "limiter_wf now ll" using assms by (rule limiter_wf_mono)
  show ?thesis
  proof (cases "llBucket ll")
    case None
    then show ?thesis using wf by (auto simp: limiter_wf_def limiter_allowN_def Let_def)
  next
    case (Some tb)
    obtain tb' ok where b: "bucket_allowN now n tb = (tb', ok)" by force
    have "bucket_wf now tb'"
      by (rule bucket_allowN_facts [OF _ order_refl b]) (use wf Some in \<open>simp add: limiter_wf_def\<close>)
    then show ?thesis using wf Some b enterCooldown_level [of "llCooldown ll" now]
      by (cases ok) (auto simp: limiter_wf_def limiter_allowN_def Let_def cooldown_wf_def)
  qed
qed

subsection \<open>Runs of requests\<close>

text \<open>A sequence of requests at given times, counting those that are let through.\<close>

fun limiter_run :: "time list \<Rightarrow> LevelLimiter \<Rightarrow> (LevelLimiter \<times> nat) option" where
  "limiter_run [] ll = Some (ll, 0)"
| "limiter_run (t # ts) ll =
     (case limiter_allow t ll of
        None \<Rightarrow> None
      | Some (ll', ok) \<Rightarrow> map_option (\<lambda>(l, n). (l, n + of_bool ok)) (limiter_run ts ll'))"

text \<open>What an enabled limiter with a given bucket and counters may become after letting \<open>n\<close> of
  \<open>k\<close> requests through.\<close>

definition run_spec :: "LevelLimiter \<Rightarrow> tokenBucket \<Rightarrow> time \<Rightarrow> nat \<Rightarrow> nat \<Rightarrow> LevelLimiter \<Rightarrow> bool" where
  "run_spec ll tb now k n ll' \<longleftrightarrow> limiter_wf now ll' \<and> llEnabled ll' \<and>
     (\<exists>tb'. llBucket ll' = Some tb' \<and> tbLast tb \<le> tbLast tb' \<and> tbLast tb' \<le> now \<and>
        tbRate tb' = tbRate tb \<and> 0 \<le> tbTokens tb' \<and>
        real n + tbTokens tb' \<le> tbTokens tb + seconds (tbLast tb' - tbLast tb) * tbRate tb) \<and>
     lmTotalRequests (llMetrics ll') = lmTotalRequests (llMetrics ll) + int k \<and>
     lmAllowedRequests (llMetrics ll') = lmAllowedRequests (llMetrics ll) + int n \<and>
     lmBlockedRequests (llMetrics ll') = lmBlockedRequests (llMetrics ll) + int (k - n) \<and> n \<le> k"

lemma run_spec_one:
  assumes wf: "limiter_wf t ll" and now: "t \<le> now" and tb: "llBucket ll = Some tb"
  shows "\<exists>ll' ok. limiter_allow now ll = Some (ll', ok) \<and> run_spec ll tb now 1 (of_bool ok) ll'"
proof -
  have on: "llEnabled ll" and b: "bucket_wf t tb" using wf tb by (auto simp: limiter_wf_def)
  have wf': "limiter_wf now ll'" if "limiter_allow now ll = Some (ll', ok)" for ll' ok
    using limiter_allow_wf [OF wf now] that by auto
  from limiter_wf_mono [OF wf now] show ?thesis
  proof (cases rule: limiter_allow_cases)
    case (off ll')
    then show ?thesis using on by simp
  next
    case (cooling ll')
    then show ?thesis using wf' [OF cooling(3)] tb b now by (auto simp: run_spec_def bucket_wf_def seconds_def)
  next
    case (pass ll' tb1 tb')
    then show ?thesis
      using wf' [OF pass(3)] bucket_allow_facts [OF b now, of tb' True] tb b now
      by (auto simp: run_spec_def bucket_wf_def)
  next
    case (empty ll' tb1 tb')
    then show ?thesis
      using wf' [OF empty(3)] bucket_allow_facts [OF b now, of tb' False] tb b now
      by (auto simp: run_spec_def bucket_wf_def)
  qed
qed

lemma run_spec_trans:
  assumes "run_spec ll tb t 1 (of_bool ok) ll1" "llBucket ll1 = Some tb1" "run_spec ll1 tb1 now k n ll'"
  shows "run_spec ll tb now (Suc k) (n + of_bool ok) ll'"
proof -
  have n: "n \<le> k" using assms(3) by (simp add: run_spec_def)
  obtain tb' where tb': "llBucket ll' = Some tb'" "tbLast tb1 \<le> tbLast tb'" "tbLast tb' \<le> now" "tbRate tb' = tbRate tb1"
    "0 \<le> tbTokens tb'" "real n + tbTokens tb' \<le> tbTokens tb1 + seconds (tbLast tb' - tbLast tb1) * tbRate tb1"
    using assms(3) by (auto simp: run_spec_def)
  have tb1: "tbLast tb \<le> tbLast tb1" "tbRate tb1 = tbRate tb"
    "of_bool ok + tbTokens tb1 \<le> tbTokens tb + seconds (tbLast tb1 - tbLast tb) * tbRate tb"
    using assms(1,2) by (auto simp: run_spec_def)
  have sec: "seconds (tbLast tb' - tbLast tb) * tbRate tb =
      seconds (tbLast tb' - tbLast tb1) * tbRate tb + seconds (tbLast tb1 - tbLast tb) * tbRate tb"
    by (metis distrib_right seconds_add)
  have "real (n + of_bool ok) + tbTokens tb' \<le> tbTokens tb + seconds (tbLast tb' - tbLast tb) * tbRate tb"
    using tb'(6) tb1(3) sec
    by (simp add: tb1(2))
  moreover have "Suc k - (n + of_bool ok) = (k - n) + (1 - of_bool ok)" using n by (cases ok) auto
  ultimately show ?thesis
    using assms(1,3) tb' tb1 n unfolding run_spec_def by (cases ok) auto
qed

lemma limiter_run_spec:
  "limiter_wf t ll \<Longrightarrow> llBucket ll = Some tb \<Longrightarrow> sorted (t # ts) \<Longrightarrow>
   \<exists>ll' n. limiter_run ts ll = Some (ll', n) \<and> run_spec ll tb (last (t # ts)) (length ts) n ll'"
proof (induction ts arbitrary: t ll tb)
  case Nil
  then show ?case by (auto simp: run_spec_def limiter_wf_def bucket_wf_def seconds_def)
next
  case (Cons u ts)
  then have "t \<le> u" by simp
  from run_spec_one [OF Cons.prems(1) this Cons.prems(2)]
  obtain l1 ok where l1: "limiter_allow u ll = Some (l1, ok)" "run_spec ll tb u 1 (of_bool ok) l1" by blast
  obtain tb1 where tb1: "llBucket l1 = Some tb1" and wf1: "limiter_wf u l1" using l1(2) by (auto simp: run_spec_def)
  obtain ll' n where r: "limiter_run ts l1 = Some (ll', n)" "run_spec l1 tb1 (last (u # ts)) (length ts) n ll'"
    using Cons.IH [OF wf1 tb1] Cons.prems(3) by auto
  then show ?case using l1(1) run_spec_trans [OF l1(2) tb1 r(2)] by simp
qed



subsection \<open>The cooldown level\<close>

text \<open>Everything the program does to the limiter of one level, with the clock.\<close>

inductive limiter_step :: "time \<times> LevelLimiter \<Rightarrow> time \<times> LevelLimiter \<Rightarrow> bool" where
  allow: "t \<le> now \<Longrightarrow> limiter_allow now ll = Some (ll', ok) \<Longrightarrow> limiter_step (t, ll) (now, ll')"
| allowN: "t \<le> now \<Longrightarrow> limiter_allowN now n ll = Some (ll', ok) \<Longrightarrow> limiter_step (t, ll) (now, ll')"
| update: "t \<le> now \<Longrightarrow> limiter_step (t, ll) (now, limiter_updateRPM now rpm ll)"

definition level_at_least :: "int \<Rightarrow> time \<times> LevelLimiter \<Rightarrow> bool" where
  "level_at_least k x \<longleftrightarrow> limiter_wf (fst x) (snd x) \<and> k \<le> cmLevel (llCooldown (snd x))"

lemma limiter_step_level: "limiter_step x y \<Longrightarrow> level_at_least k x \<Longrightarrow> level_at_least k y"
proof (induction rule: limiter_step.induct)
  case (allow t now ll ll' ok)
  then show ?case using limiter_allow_wf [of t ll now] by (auto simp: level_at_least_def)
next
  case (allowN t now n ll ll' ok)
  then show ?case using limiter_allowN_wf [of t ll now n] by (auto simp: level_at_least_def)
next
  case (update t now ll rpm)
  then show ?case using limiter_updateRPM_wf [OF limiter_wf_mono [of t ll now]]
    by (auto simp: level_at_least_def) (simp add: limiter_updateRPM_def)
qed

interpretation level_machine: invariant_machine limiter_step "level_at_least k" for k
  by unfold_locales (rule limiter_step_level)

text \<open>
  Supplement: the cooldown level of a limiter never falls. In every state that the requests and the
  changes of the limit can reach from a state with level \<open>k\<close>, however long the limiter was idle in
  between and however many requests it let through, the level is at least \<open>k\<close>; so a request that
  finds the bucket empty starts a cooldown of at least the back-off of the next level, up to half
  an hour. The only operation that would lower the level, \<open>resetCooldown\<close>, has no caller in
  the program.
\<close>

theorem cooldown_level_never_falls:
  assumes "limiter_wf t0 ll0" "limiter_step\<^sup>*\<^sup>* (t0, ll0) (t, ll)"
  shows "cmLevel (llCooldown ll0) \<le> cmLevel (llCooldown ll) \<and>
    cmResetAt (enterCooldown now (llCooldown ll)) \<ge> now + min 1800 (2 ^ nat (min 11 (cmLevel (llCooldown ll0) + 1))) * Second"
proof -
  have l: "level_at_least (cmLevel (llCooldown ll0)) (t, ll)"
    by (rule level_machine.reachable_inv [OF assms(2)]) (simp add: level_at_least_def assms(1))
  then have wf: "cooldown_wf (llCooldown ll)" and le: "cmLevel (llCooldown ll0) \<le> cmLevel (llCooldown ll)"
    by (auto simp: level_at_least_def limiter_wf_def)
  have "(2::int) ^ nat (min 11 (cmLevel (llCooldown ll0) + 1)) \<le> 2 ^ nat (min 11 (cmLevel (llCooldown ll) + 1))"
    using le by (intro power_increasing) auto
  then have "min 1800 (2 ^ nat (min 11 (cmLevel (llCooldown ll0) + 1))) \<le> (min 1800 (2 ^ nat (min 11 (cmLevel (llCooldown ll) + 1))) :: int)"
    by linarith
  then show ?thesis using le enterCooldown_reset [OF wf, of now] by (simp add: Second_def)
qed

definition hotLimiter :: LevelLimiter where
  "hotLimiter = (newLevelLimiter 0 ''global'' LevelGlobal 60)\<lparr>llCooldown := newCooldownManager\<lparr>cmLevel := 11\<rparr>\<rparr>"

theorem cooldown_level_never_falls_witness:
  "cmLevel (llCooldown hotLimiter) \<le> cmLevel (llCooldown (limiter_updateRPM 9 90 hotLimiter)) \<and>
    cmResetAt (enterCooldown 9 (llCooldown (limiter_updateRPM 9 90 hotLimiter)))
      \<ge> 9 + min 1800 (2 ^ nat (min 11 (cmLevel (llCooldown hotLimiter) + 1))) * Second"
proof (rule cooldown_level_never_falls)
  show "limiter_wf 0 hotLimiter"
    using limiter_wf_new [of 0 "''global''" LevelGlobal 60]
    by (simp add: hotLimiter_def limiter_wf_def cooldown_wf_def newCooldownManager_def)
  show "limiter_step\<^sup>*\<^sup>* (0, hotLimiter) (9, limiter_updateRPM 9 90 hotLimiter)"
    by (intro r_into_rtranclp limiter_step.update) simp
qed

text \<open>
  Supplement: a cooldown blocks for its whole length, even when the bucket has refilled meanwhile. Once a
  request of an enabled limiter has found the bucket empty, every request before the end of the
  back-off is refused.
\<close>

theorem cooldown_blocks_requests:
  assumes "limiter_wf t ll" "t \<le> now" "llEnabled ll" "\<not> isInCooldown now (llCooldown ll)"
    and "limiter_allow now ll = Some (ll1, False)"
    and "now \<le> u" "u < now + min 1800 (2 ^ nat (min 11 (cmLevel (llCooldown ll) + 1))) * Second"
  shows "\<exists>ll2. limiter_allow u ll1 = Some (ll2, False)"
proof -
  have wf: "limiter_wf now ll" and wf1: "limiter_wf u ll1"
    using limiter_wf_mono [OF assms(1,2)] limiter_allow_wf [OF assms(1,2)] assms(5) limiter_wf_mono [OF _ assms(6)] by auto
  have cd: "llCooldown ll1 = enterCooldown now (llCooldown ll)" "llEnabled ll1"
    using wf assms(3-5) by (auto elim!: limiter_allow_cases)
  have "cooldown_wf (llCooldown ll)" using wf by (simp add: limiter_wf_def)
  then have "isInCooldown u (llCooldown ll1)"
    using assms(7) enterCooldown_reset [of "llCooldown ll" now] enterCooldown_level(1) [of "llCooldown ll" now]
    unfolding cd by (auto simp: isInCooldown_def cooldown_wf_def)
  then show ?thesis using wf1 cd(2) by (auto elim!: limiter_allow_cases)
qed

definition emptyLimiter :: LevelLimiter where
  "emptyLimiter = (newLevelLimiter 0 ''global'' LevelGlobal 60)\<lparr>llBucket := Some ((newTokenBucket 0 60)\<lparr>tbTokens := 0\<rparr>)\<rparr>"

lemma emptyLimiter_wf: "limiter_wf 0 emptyLimiter"
  using limiter_wf_new [of 0 "''global''" LevelGlobal 60]
  by (auto simp: emptyLimiter_def limiter_wf_def bucket_wf_def newTokenBucket_def newLevelLimiter_def)

lemma emptyLimiter_denies: "\<exists>ll1. limiter_allow 0 emptyLimiter = Some (ll1, False)"
  by (simp add: limiter_allow_def emptyLimiter_def newLevelLimiter_def bucket_allow_def refill_def newTokenBucket_def
      isInCooldown_def newCooldownManager_def time_Sub_def minDuration_def maxDuration_def seconds_def Let_def)

theorem cooldown_blocks_requests_witness:
  "\<exists>ll1 ll2. limiter_allow 0 emptyLimiter = Some (ll1, False) \<and> limiter_allow 999999999 ll1 = Some (ll2, False)"
proof -
  obtain ll1 where l: "limiter_allow 0 emptyLimiter = Some (ll1, False)" using emptyLimiter_denies by blast
  have e: "llEnabled emptyLimiter" "\<not> isInCooldown 0 (llCooldown emptyLimiter)" "cmLevel (llCooldown emptyLimiter) = -1"
    by (simp_all add: emptyLimiter_def newLevelLimiter_def isInCooldown_def newCooldownManager_def)
  have "\<exists>ll2. limiter_allow 999999999 ll1 = Some (ll2, False)"
    by (rule cooldown_blocks_requests [OF emptyLimiter_wf order_refl e(1,2) l]) (simp_all add: e Second_def)
  then show ?thesis using l by blast
qed

subsection \<open>Three levels\<close>

definition erl_wf :: "time \<Rightarrow> EnhancedRateLimiter \<Rightarrow> bool" where
  "erl_wf now erl \<longleftrightarrow> limiter_wf now (erlGlobal erl) \<and>
     (\<forall>k l. erlAccounts erl k = Some l \<longrightarrow> limiter_wf now l) \<and>
     (\<forall>k l. erlModels erl k = Some l \<longrightarrow> limiter_wf now l) \<and>
     (erlEnabled erl \<longleftrightarrow> erlGlobalRPM erl > 0 \<or> erlAccountRPM erl > 0 \<or> erlModelRPM erl > 0)"

lemma erl_wf_mono: "erl_wf t erl \<Longrightarrow> t \<le> now \<Longrightarrow> erl_wf now erl"
  unfolding erl_wf_def using limiter_wf_mono by blast

lemma erl_wf_new: "erl_wf now (NewEnhancedRateLimiter now g a m)"
  by (simp add: erl_wf_def NewEnhancedRateLimiter_def limiter_wf_new)

lemma limiter_allow_ok:
  "limiter_wf now ll \<Longrightarrow> \<exists>ll' ok. limiter_allow now ll = Some (ll', ok) \<and> limiter_wf now ll'"
  using limiter_allow_wf [of now ll now] by auto

lemma allowKeyed_ok:
  assumes "\<forall>k l. m k = Some l \<longrightarrow> limiter_wf now l"
  shows "\<exists>m' ok. allowKeyed now level rpm key m = Some (m', ok) \<and> (\<forall>k l. m' k = Some l \<longrightarrow> limiter_wf now l)"
proof -
  let ?l = "case m key of None \<Rightarrow> newLevelLimiter now key level rpm | Some l \<Rightarrow> l"
  have "limiter_wf now ?l" using assms limiter_wf_new by (cases "m key") auto
  then show ?thesis using limiter_allow_ok [of now ?l] assms by (auto simp: allowKeyed_def)
qed

lemma allowKeyed_optional:
  assumes "\<forall>k l. m k = Some l \<longrightarrow> limiter_wf now l"
  obtains m' ok where "(if c then allowKeyed now level rpm key m else Some (m, True)) = Some (m', ok)"
    "\<forall>k l. m' k = Some l \<longrightarrow> limiter_wf now l"
  using allowKeyed_ok [OF assms, of level rpm key] assms by (cases c) auto

text \<open>Only the limiters and the counter of refused requests change.\<close>

lemma AllowWithContext_ok:
  assumes "erl_wf now erl"
  shows "\<exists>erl' ok. AllowWithContext now acc model erl = Some (erl', ok) \<and> erl_wf now erl' \<and>
    erlTotalLimited erl' = erlTotalLimited erl + of_bool (\<not> ok)"
proof (cases "erlEnabled erl")
  case True
  obtain g okg where g: "limiter_allow now (erlGlobal erl) = Some (g, okg)" "limiter_wf now g"
    using limiter_allow_ok [of now "erlGlobal erl"] assms by (auto simp: erl_wf_def)
  have w: "\<forall>k l. erlAccounts erl k = Some l \<longrightarrow> limiter_wf now l" "\<forall>k l. erlModels erl k = Some l \<longrightarrow> limiter_wf now l"
    using assms by (simp_all add: erl_wf_def)
  obtain as oka where a: "(if erlAccountRPM erl > 0 \<and> acc \<noteq> [] then allowKeyed now LevelAccount (erlAccountRPM erl) acc (erlAccounts erl)
      else Some (erlAccounts erl, True)) = Some (as, oka)" "\<forall>k l. as k = Some l \<longrightarrow> limiter_wf now l"
    by (rule allowKeyed_optional [OF w(1)]) (rule that)
  obtain ms okm where m: "(if erlModelRPM erl > 0 \<and> model \<noteq> [] then allowKeyed now LevelModel (erlModelRPM erl) model (erlModels erl)
      else Some (erlModels erl, True)) = Some (ms, okm)" "\<forall>k l. ms k = Some l \<longrightarrow> limiter_wf now l"
    by (rule allowKeyed_optional [OF w(2)]) (rule that)
  have "AllowWithContext now acc model erl = Some
      (if \<not> okg then (erl\<lparr>erlGlobal := g, erlTotalLimited := erlTotalLimited erl + 1\<rparr>, False)
       else if \<not> oka then (erl\<lparr>erlGlobal := g, erlAccounts := as, erlTotalLimited := erlTotalLimited erl + 1\<rparr>, False)
       else if \<not> okm then (erl\<lparr>erlGlobal := g, erlAccounts := as, erlModels := ms, erlTotalLimited := erlTotalLimited erl + 1\<rparr>, False)
       else (erl\<lparr>erlGlobal := g, erlAccounts := as, erlModels := ms\<rparr>, True))"
    using True by (cases okg; cases oka; cases okm)
      (simp_all add: AllowWithContext_def Let_def g(1) a(1) m(1) split del: if_split cong: if_cong)
  then show ?thesis using assms g(2) a(2) m(2) by (auto simp: erl_wf_def)
qed (use assms in \<open>auto simp: AllowWithContext_def\<close>)

inductive erl_step :: "time \<times> EnhancedRateLimiter \<Rightarrow> time \<times> EnhancedRateLimiter \<Rightarrow> bool" where
  tick: "t \<le> now \<Longrightarrow> erl_step (t, erl) (now, erl)"
| allow: "t \<le> now \<Longrightarrow> Allow now erl = Some (erl', ok) \<Longrightarrow> erl_step (t, erl) (now, erl')"
| allow_context: "t \<le> now \<Longrightarrow> AllowWithContext now acc model erl = Some (erl', ok) \<Longrightarrow> erl_step (t, erl) (now, erl')"
| update_global: "t \<le> now \<Longrightarrow> erl_step (t, erl) (now, UpdateGlobalRPM now rpm erl)"
| update_account: "t \<le> now \<Longrightarrow> erl_step (t, erl) (now, UpdateAccountRPM now rpm erl)"
| update_model: "t \<le> now \<Longrightarrow> erl_step (t, erl) (now, UpdateModelRPM now rpm erl)"
| update_all: "t \<le> now \<Longrightarrow> erl_step (t, erl) (now, UpdateAllRPM now g a m erl)"
| evict: "t \<le> now \<Longrightarrow> erl_step (t, erl) (now, evictStaleLimiters now ttl erl)"

lemma Allow_ok: "erl_wf now erl \<Longrightarrow> \<exists>erl' ok. Allow now erl = Some (erl', ok) \<and> erl_wf now erl'"
  using limiter_allow_ok [of now "erlGlobal erl"] by (auto simp: Allow_def erl_wf_def)

lemma erl_updates_wf:
  assumes "erl_wf now erl"
  shows "erl_wf now (UpdateGlobalRPM now rpm erl)" "erl_wf now (UpdateAccountRPM now rpm erl)"
    "erl_wf now (UpdateModelRPM now rpm erl)" "erl_wf now (UpdateAllRPM now g a m erl)"
  using assms by (auto simp: erl_wf_def UpdateGlobalRPM_def UpdateAccountRPM_def UpdateModelRPM_def UpdateAllRPM_def
      limiter_updateRPM_wf)

lemma erl_step_wf: "erl_step x y \<Longrightarrow> erl_wf (fst x) (snd x) \<Longrightarrow> erl_wf (fst y) (snd y)"
proof (induction rule: erl_step.induct)
  case (allow t now erl erl' ok)
  then show ?case using Allow_ok [OF erl_wf_mono [of t erl now]] by auto
next
  case (allow_context t now acc model erl erl' ok)
  then show ?case using AllowWithContext_ok [OF erl_wf_mono [of t erl now], of acc model] by auto
next
  case (evict t now erl ttl)
  then show ?case using erl_wf_mono [of t erl now]
    by (auto simp: erl_wf_def evictStaleLimiters_def evictMap_def split: option.splits if_splits)
qed (auto intro!: erl_updates_wf intro: erl_wf_mono)

interpretation erl_machine: invariant_machine erl_step "\<lambda>x. erl_wf (fst x) (snd x)"
  by unfold_locales (rule erl_step_wf)

text \<open>
  Supplement: the limiter answers every request in every reachable state. From a new limiter, through any
  sequence of requests, changes of the limits and evictions of idle limiters, no request finds an
  enabled level without its bucket (which would be a nil dereference), and the counter of limited
  requests grows by one exactly when a request is refused.
\<close>

theorem rate_limiter_never_panics:
  assumes "erl_step\<^sup>*\<^sup>* (t0, NewEnhancedRateLimiter t0 g a m) (t, erl)" "t \<le> now"
  shows "\<exists>erl' ok. AllowWithContext now acc model erl = Some (erl', ok) \<and>
     erlTotalLimited erl' = erlTotalLimited erl + of_bool (\<not> ok)"
proof -
  have "erl_wf t erl" using erl_machine.reachable_inv [OF assms(1)] erl_wf_new by simp
  then show ?thesis using AllowWithContext_ok [OF erl_wf_mono [OF _ assms(2)]] by blast
qed

theorem rate_limiter_never_panics_witness:
  "\<exists>erl' ok. AllowWithContext 7 ''acc'' ''gpt'' (UpdateGlobalRPM 6 0 (NewEnhancedRateLimiter 5 10 2 0)) = Some (erl', ok) \<and>
     erlTotalLimited erl' = erlTotalLimited (UpdateGlobalRPM 6 0 (NewEnhancedRateLimiter 5 10 2 0)) + of_bool (\<not> ok)"
  by (rule rate_limiter_never_panics [where ?t0.0 = 5 and t = 6 and g = 10 and a = 2 and m = 0])
    (intro r_into_rtranclp erl_step.update_global, simp_all)

text \<open>
  Supplement: the exported \<open>ComputeCooldown\<close> is the back-off of the limiter. For the levels a limiter can
  have it gives the duration and the next level that \<open>enterCooldown\<close> uses, and that duration is
  \<open>2 ^ level\<close> seconds capped at thirty minutes.
\<close>

theorem ComputeCooldown_agrees:
  assumes "cooldown_wf cm"
  shows "ComputeCooldown (cmLevel cm) = computeCooldown cm \<and>
    ComputeCooldown (cmLevel cm) = (min 1800 (2 ^ nat (min 11 (cmLevel cm + 1))) * Second, min 11 (cmLevel cm + 1))"
proof -
  have eq: "ComputeCooldown (cmLevel cm) = computeCooldown cm"
    using assms by (auto simp: ComputeCooldown_def computeCooldown_def Let_def cooldown_wf_def)
  have "fst (computeCooldown cm) = cooldownDurations ! nat (snd (computeCooldown cm))"
    by (simp add: computeCooldown_def Let_def)
  moreover have "nat (min 11 (cmLevel cm + 1)) < 12" using assms by (simp add: cooldown_wf_def)
  ultimately show ?thesis
    unfolding eq by (simp add: prod_eq_iff computeCooldown_level [OF assms] cooldownDurations_nth)
qed

theorem ComputeCooldown_agrees_witness:
  "ComputeCooldown (cmLevel newCooldownManager) = computeCooldown newCooldownManager \<and>
    ComputeCooldown (cmLevel newCooldownManager) =
      (min 1800 (2 ^ nat (min 11 (cmLevel newCooldownManager + 1))) * Second, min 11 (cmLevel newCooldownManager + 1))"
  by (rule ComputeCooldown_agrees) (simp add: cooldown_wf_def newCooldownManager_def)

end
