(* ===== verification/ProxyPool.thy ===== *)
theory ProxyPool
  imports GoStrings
begin

section \<open>The outbound proxy pool\<close>

text \<open>
  Models \<open>auth/proxy_pool.go\<close>: the list of proxies, the derived list of healthy ones, the three
  selection strategies, the bookkeeping of successes, failures and connections, isolation, and the
  processing of health-check results. The pool holds pointers to its entries; since URLs are
  distinct (an invariant proved below), the healthy list is kept as a list of URLs that name the
  entries. A probe itself (\<open>checkProxy\<close>) is network input: its result is the argument of
  \<open>processHealthCheckResult\<close>. The random number of the weighted choice is an argument with the
  range that \<open>rand.Int63n\<close> documents. Callbacks and logging are left out.
\<close>

datatype ProxyHealthStatus = ProxyStatusHealthy | ProxyStatusUnhealthy | ProxyStatusIsolated

datatype ProxySelectionStrategy = StrategyRoundRobin | StrategyWeighted | StrategyLeastConnections

record ProxyEntry =
  peURL :: string
  peHealthy :: bool
  peLastCheck :: time
  peLatency :: duration
  peSuccessRate :: float64
  peWeight :: int
  peActiveConns :: int
  peTotalRequests :: int
  peFailedRequests :: int
  peStatus :: ProxyHealthStatus
  peIsolatedAt :: time
  peConsecutiveFailures :: int

record ProxyStats =
  psURL :: string
  psHealthy :: bool
  psLastCheck :: time
  psLatency :: duration
  psLatencyMs :: float64
  psSuccessRate :: float64
  psWeight :: int
  psActiveConns :: int
  psTotalRequests :: int
  psFailedRequests :: int
  psStatus :: string
  psConsecutiveFailures :: int

record HealthCheckResult =
  hcURL :: string
  hcHealthy :: bool
  hcLatency :: duration
  hcTimestamp :: time

record ProxyPool =
  ppProxies :: "ProxyEntry list"
  ppStats :: "string \<rightharpoonup> ProxyStats"
  ppHealthy :: "string list"
  ppStrategy :: ProxySelectionStrategy
  ppRoundRobinIdx :: "64 word"
  ppCheckInterval :: duration
  ppTimeout :: duration
  ppIsolationThreshold :: int
  ppIsolationDuration :: duration
  ppHealthCheckURL :: string

record ProxyPoolConfig =
  cfgStrategy :: ProxySelectionStrategy
  cfgCheckInterval :: duration
  cfgTimeout :: duration
  cfgIsolationThreshold :: int
  cfgIsolationDuration :: duration
  cfgHealthCheckURL :: string

definition DefaultProxyPoolConfig :: ProxyPoolConfig where
  "DefaultProxyPoolConfig =
     \<lparr>cfgStrategy = StrategyRoundRobin, cfgCheckInterval = 30 * Second, cfgTimeout = 10 * Second,
      cfgIsolationThreshold = 3, cfgIsolationDuration = 5 * Minute,
      cfgHealthCheckURL = ''http://www.google.com/generate_204''\<rparr>"

definition NewProxyPool :: "ProxyPoolConfig option \<Rightarrow> ProxyPool" where
  "NewProxyPool config0 =
     (let config = (case config0 of None \<Rightarrow> DefaultProxyPoolConfig | Some c \<Rightarrow> c)
      in \<lparr>ppProxies = [], ppStats = Map.empty, ppHealthy = [], ppStrategy = cfgStrategy config,
          ppRoundRobinIdx = 0, ppCheckInterval = cfgCheckInterval config, ppTimeout = cfgTimeout config,
          ppIsolationThreshold = cfgIsolationThreshold config,
          ppIsolationDuration = cfgIsolationDuration config, ppHealthCheckURL = cfgHealthCheckURL config\<rparr>)"

subsection \<open>Entries\<close>

fun findEntry :: "string \<Rightarrow> ProxyEntry list \<Rightarrow> ProxyEntry option" where
  "findEntry url [] = None"
| "findEntry url (e # es) = (if peURL e = url then Some e else findEntry url es)"

text \<open>Assignment through the pointer that \<open>findEntry\<close> returns.\<close>

fun updateEntry :: "string \<Rightarrow> (ProxyEntry \<Rightarrow> ProxyEntry) \<Rightarrow> ProxyEntry list \<Rightarrow> ProxyEntry list" where
  "updateEntry url f [] = []"
| "updateEntry url f (e # es) = (if peURL e = url then f e # es else e # updateEntry url f es)"

fun removeEntry :: "string \<Rightarrow> ProxyEntry list \<Rightarrow> ProxyEntry list" where
  "removeEntry url [] = []"
| "removeEntry url (e # es) = (if peURL e = url then es else e # removeEntry url es)"

definition selectable :: "ProxyEntry \<Rightarrow> bool" where
  "selectable e \<longleftrightarrow> peHealthy e \<and> peStatus e = ProxyStatusHealthy"

definition rebuildHealthyList :: "ProxyPool \<Rightarrow> ProxyPool" where
  "rebuildHealthyList p = p\<lparr>ppHealthy := map peURL (filter selectable (ppProxies p))\<rparr>"

definition statusString :: "ProxyHealthStatus \<Rightarrow> string" where
  "statusString s = (case s of ProxyStatusHealthy \<Rightarrow> ''healthy'' | ProxyStatusUnhealthy \<Rightarrow> ''unhealthy''
     | ProxyStatusIsolated \<Rightarrow> ''isolated'')"

definition newProxyEntry :: "string \<Rightarrow> int \<Rightarrow> ProxyEntry" where
  "newProxyEntry url weight =
     \<lparr>peURL = url, peHealthy = True, peLastCheck = 0, peLatency = 0, peSuccessRate = 1, peWeight = weight,
      peActiveConns = 0, peTotalRequests = 0, peFailedRequests = 0, peStatus = ProxyStatusHealthy,
      peIsolatedAt = 0, peConsecutiveFailures = 0\<rparr>"

definition newProxyStats :: "string \<Rightarrow> int \<Rightarrow> ProxyStats" where
  "newProxyStats url weight =
     \<lparr>psURL = url, psHealthy = True, psLastCheck = 0, psLatency = 0, psLatencyMs = 0, psSuccessRate = 0,
      psWeight = weight, psActiveConns = 0, psTotalRequests = 0, psFailedRequests = 0,
      psStatus = ''healthy'', psConsecutiveFailures = 0\<rparr>"

subsection \<open>Membership\<close>

definition AddProxy :: "string \<Rightarrow> int \<Rightarrow> ProxyPool \<Rightarrow> ProxyPool" where
  "AddProxy url weight p =
     (if url = [] then p
      else if url \<in> set (map peURL (ppProxies p)) then p
      else rebuildHealthyList
        (p\<lparr>ppProxies := ppProxies p @ [newProxyEntry url weight],
           ppStats := (ppStats p)(url \<mapsto> newProxyStats url weight)\<rparr>))"

definition RemoveProxy :: "string \<Rightarrow> ProxyPool \<Rightarrow> ProxyPool" where
  "RemoveProxy url p =
     (if url \<in> set (map peURL (ppProxies p))
      then rebuildHealthyList
        (p\<lparr>ppProxies := removeEntry url (ppProxies p), ppStats := (ppStats p)(url := None)\<rparr>)
      else p)"

definition UpdateProxyWeight :: "string \<Rightarrow> int \<Rightarrow> ProxyPool \<Rightarrow> ProxyPool" where
  "UpdateProxyWeight url weight p =
     (if url \<in> set (map peURL (ppProxies p))
      then p\<lparr>ppProxies := updateEntry url (\<lambda>e. e\<lparr>peWeight := weight\<rparr>) (ppProxies p),
             ppStats := (case ppStats p url of None \<Rightarrow> ppStats p
                         | Some st \<Rightarrow> (ppStats p)(url \<mapsto> st\<lparr>psWeight := weight\<rparr>))\<rparr>
      else p)"

definition LoadProxiesFromURLs :: "string list \<Rightarrow> int \<Rightarrow> ProxyPool \<Rightarrow> ProxyPool" where
  "LoadProxiesFromURLs urls defaultWeight p =
     fold (\<lambda>url p. if url \<noteq> [] then AddProxy url defaultWeight p else p) urls p"

subsection \<open>Selection\<close>

definition healthyEntries :: "ProxyPool \<Rightarrow> ProxyEntry list" where
  "healthyEntries p = List.map_filter (\<lambda>url. findEntry url (ppProxies p)) (ppHealthy p)"

definition selectRoundRobin :: "ProxyPool \<Rightarrow> ProxyPool \<times> ProxyEntry option" where
  "selectRoundRobin p =
     (let hs = healthyEntries p
      in if hs = [] then (p, None)
         else let idx = ppRoundRobinIdx p + 1
              in (p\<lparr>ppRoundRobinIdx := idx\<rparr>, Some (hs ! (unat idx mod length hs))))"

definition weightOf :: "ProxyEntry \<Rightarrow> int" where
  "weightOf e = (if peWeight e \<le> 0 then 1 else peWeight e)"

definition totalWeight :: "ProxyEntry list \<Rightarrow> int" where
  "totalWeight es = foldl (\<lambda>acc e. wrap64 (acc + weightOf e)) 0 es"

fun weightedScan :: "int \<Rightarrow> int \<Rightarrow> ProxyEntry list \<Rightarrow> ProxyEntry option" where
  "weightedScan r cur [] = None"
| "weightedScan r cur (e # es) =
     (let cur' = wrap64 (cur + weightOf e) in if r < cur' then Some e else weightedScan r cur' es)"

text \<open>\<open>rnd n\<close> is the value of \<open>rand.Int63n(n)\<close>.\<close>

definition selectWeighted :: "(int \<Rightarrow> int) \<Rightarrow> ProxyPool \<Rightarrow> ProxyEntry option" where
  "selectWeighted rnd p =
     (let hs = healthyEntries p
      in if hs = [] then None
         else if totalWeight hs \<le> 0 then Some (hd hs)
         else case weightedScan (rnd (totalWeight hs)) 0 hs of Some e \<Rightarrow> Some e | None \<Rightarrow> Some (last hs))"

definition adjustedConns :: "ProxyEntry \<Rightarrow> int" where
  "adjustedConns e =
     (let rate = (if peSuccessRate e \<le> 0 then 0.1 else peSuccessRate e);
          x = real_of_int (peActiveConns e) / rate
      in if x \<ge> 0 then \<lfloor>x\<rfloor> else \<lceil>x\<rceil>)"

fun leastScan :: "int \<Rightarrow> ProxyEntry option \<Rightarrow> ProxyEntry list \<Rightarrow> ProxyEntry option" where
  "leastScan m best [] = best"
| "leastScan m best (e # es) =
     (if adjustedConns e < m then leastScan (adjustedConns e) (Some e) es else leastScan m best es)"

definition selectLeastConnections :: "ProxyPool \<Rightarrow> ProxyEntry option" where
  "selectLeastConnections p =
     (let hs = healthyEntries p in if hs = [] then None else leastScan maxDuration None hs)"

definition selectByStrategy :: "(int \<Rightarrow> int) \<Rightarrow> ProxySelectionStrategy \<Rightarrow> ProxyPool \<Rightarrow> ProxyPool \<times> ProxyEntry option" where
  "selectByStrategy rnd strategy p =
     (case strategy of
        StrategyWeighted \<Rightarrow> (p, selectWeighted rnd p)
      | StrategyLeastConnections \<Rightarrow> (p, selectLeastConnections p)
      | StrategyRoundRobin \<Rightarrow> selectRoundRobin p)"

definition SelectWithStrategy :: "(int \<Rightarrow> int) \<Rightarrow> ProxySelectionStrategy \<Rightarrow> ProxyPool \<Rightarrow> ProxyPool \<times> ProxyEntry option" where
  "SelectWithStrategy rnd strategy p =
     (if ppHealthy p = [] then (p, None) else selectByStrategy rnd strategy p)"

definition Select :: "(int \<Rightarrow> int) \<Rightarrow> ProxyPool \<Rightarrow> ProxyPool \<times> ProxyEntry option" where
  "Select rnd p = SelectWithStrategy rnd (ppStrategy p) p"

subsection \<open>Outcomes of requests\<close>

definition syncStats :: "ProxyEntry \<Rightarrow> ProxyStats \<Rightarrow> ProxyStats" where
  "syncStats e st =
     st\<lparr>psTotalRequests := peTotalRequests e, psFailedRequests := peFailedRequests e,
        psSuccessRate := peSuccessRate e, psStatus := statusString (peStatus e),
        psConsecutiveFailures := peConsecutiveFailures e\<rparr>"

definition entrySuccess :: "ProxyEntry \<Rightarrow> ProxyEntry" where
  "entrySuccess e0 =
     (let e = e0\<lparr>peTotalRequests := peTotalRequests e0 + 1, peConsecutiveFailures := 0,
                 peSuccessRate := (if peTotalRequests e0 + 1 = 1 then 1 else peSuccessRate e0 * 0.9 + 0.1)\<rparr>
      in if peStatus e = ProxyStatusIsolated
         then e\<lparr>peStatus := ProxyStatusHealthy, peIsolatedAt := 0\<rparr> else e)"

definition entryFailure :: "time \<Rightarrow> int \<Rightarrow> ProxyEntry \<Rightarrow> ProxyEntry" where
  "entryFailure now threshold e0 =
     (let e = e0\<lparr>peTotalRequests := peTotalRequests e0 + 1, peFailedRequests := peFailedRequests e0 + 1,
                 peConsecutiveFailures := peConsecutiveFailures e0 + 1,
                 peSuccessRate := (if peTotalRequests e0 + 1 = 1 then 0 else peSuccessRate e0 * 0.9)\<rparr>
      in if peStatus e \<noteq> ProxyStatusIsolated \<and> peConsecutiveFailures e \<ge> threshold
         then e\<lparr>peStatus := ProxyStatusIsolated, peIsolatedAt := now, peHealthy := False\<rparr> else e)"

text \<open>Change an entry, copy what the operation copies into the statistics, rebuild the list.\<close>

definition touchEntry :: "string \<Rightarrow> (ProxyEntry \<Rightarrow> ProxyEntry) \<Rightarrow> (ProxyEntry \<Rightarrow> ProxyStats \<Rightarrow> ProxyStats) \<Rightarrow> ProxyPool \<Rightarrow> ProxyPool" where
  "touchEntry url f g p =
     (case findEntry url (ppProxies p) of
        None \<Rightarrow> p
      | Some e \<Rightarrow>
          rebuildHealthyList
            (p\<lparr>ppProxies := updateEntry url f (ppProxies p),
               ppStats := (case ppStats p url of None \<Rightarrow> ppStats p
                           | Some st \<Rightarrow> (ppStats p)(url \<mapsto> g (f e) st))\<rparr>))"

definition MarkSuccess :: "string \<Rightarrow> ProxyPool \<Rightarrow> ProxyPool" where
  "MarkSuccess url = touchEntry url entrySuccess syncStats"

definition MarkFailure :: "time \<Rightarrow> string \<Rightarrow> ProxyPool \<Rightarrow> ProxyPool" where
  "MarkFailure now url p = touchEntry url (entryFailure now (ppIsolationThreshold p)) syncStats p"

definition AcquireConnection :: "string \<Rightarrow> ProxyPool \<Rightarrow> ProxyPool \<times> bool" where
  "AcquireConnection url p =
     (case findEntry url (ppProxies p) of
        None \<Rightarrow> (p, False)
      | Some e \<Rightarrow>
          if peStatus e \<noteq> ProxyStatusHealthy then (p, False)
          else (p\<lparr>ppProxies := updateEntry url (\<lambda>e. e\<lparr>peActiveConns := peActiveConns e + 1\<rparr>) (ppProxies p)\<rparr>, True))"

definition ReleaseConnection :: "string \<Rightarrow> ProxyPool \<Rightarrow> ProxyPool" where
  "ReleaseConnection url p =
     (case findEntry url (ppProxies p) of
        None \<Rightarrow> p
      | Some e \<Rightarrow>
          if peActiveConns e > 0
          then p\<lparr>ppProxies := updateEntry url (\<lambda>e. e\<lparr>peActiveConns := peActiveConns e - 1\<rparr>) (ppProxies p)\<rparr>
          else p)"

subsection \<open>Health checks and recovery\<close>

definition entryChecked :: "time \<Rightarrow> int \<Rightarrow> duration \<Rightarrow> HealthCheckResult \<Rightarrow> ProxyEntry \<Rightarrow> ProxyEntry" where
  "entryChecked now threshold isolation result e0 =
     (let e = e0\<lparr>peLastCheck := hcTimestamp result, peLatency := hcLatency result\<rparr>
      in if hcHealthy result then
           (let e1 = e\<lparr>peHealthy := True, peConsecutiveFailures := 0\<rparr>
            in if peStatus e1 = ProxyStatusIsolated \<and> time_Sub now (peIsolatedAt e1) \<ge> isolation
               then e1\<lparr>peStatus := ProxyStatusHealthy, peIsolatedAt := 0\<rparr> else e1)
         else
           (let e1 = e\<lparr>peHealthy := False, peStatus := ProxyStatusUnhealthy,
                       peConsecutiveFailures := peConsecutiveFailures e + 1\<rparr>
            in if peStatus e1 \<noteq> ProxyStatusIsolated \<and> peConsecutiveFailures e1 \<ge> threshold
               then e1\<lparr>peStatus := ProxyStatusIsolated, peIsolatedAt := now\<rparr> else e1))"

definition checkedStats :: "HealthCheckResult \<Rightarrow> ProxyEntry \<Rightarrow> ProxyStats \<Rightarrow> ProxyStats" where
  "checkedStats result e st =
     st\<lparr>psLastCheck := hcTimestamp result, psLatency := hcLatency result,
        psLatencyMs := real_of_int (hcLatency result sdiv Millisecond), psHealthy := hcHealthy result,
        psStatus := statusString (peStatus e), psConsecutiveFailures := peConsecutiveFailures e\<rparr>"

definition processHealthCheckResult :: "time \<Rightarrow> HealthCheckResult \<Rightarrow> ProxyPool \<Rightarrow> ProxyPool" where
  "processHealthCheckResult now result p =
     touchEntry (hcURL result) (entryChecked now (ppIsolationThreshold p) (ppIsolationDuration p) result)
       (checkedStats result) p"

text \<open>A round of health checks: the results are processed in the order in which they arrive.\<close>

definition HealthCheck :: "(time \<times> HealthCheckResult) list \<Rightarrow> ProxyPool \<Rightarrow> ProxyPool" where
  "HealthCheck results p = fold (\<lambda>(now, r). processHealthCheckResult now r) results p"

definition recoverEntry :: "time \<Rightarrow> duration \<Rightarrow> ProxyEntry \<Rightarrow> ProxyEntry" where
  "recoverEntry now isolation e =
     (if peStatus e = ProxyStatusIsolated \<and> peIsolatedAt e \<noteq> 0 \<and> time_Sub now (peIsolatedAt e) \<ge> isolation
      then e\<lparr>peStatus := ProxyStatusHealthy, peIsolatedAt := 0, peHealthy := True, peConsecutiveFailures := 0\<rparr>
      else e)"

definition RecoverIsolatedProxies :: "time \<Rightarrow> ProxyPool \<Rightarrow> ProxyPool" where
  "RecoverIsolatedProxies now p =
     rebuildHealthyList (p\<lparr>ppProxies := map (recoverEntry now (ppIsolationDuration p)) (ppProxies p)\<rparr>)"

subsection \<open>Reading the pool\<close>

definition SetStrategy :: "ProxySelectionStrategy \<Rightarrow> ProxyPool \<Rightarrow> ProxyPool" where
  "SetStrategy strategy p = p\<lparr>ppStrategy := strategy\<rparr>"

definition strategyString :: "ProxySelectionStrategy \<Rightarrow> string" where
  "strategyString s = (case s of StrategyRoundRobin \<Rightarrow> ''round_robin'' | StrategyWeighted \<Rightarrow> ''weighted''
     | StrategyLeastConnections \<Rightarrow> ''least_connections'')"

definition ParseStrategy :: "string \<Rightarrow> ProxySelectionStrategy" where
  "ParseStrategy s = (if s = ''weighted'' then StrategyWeighted
     else if s = ''least_connections'' then StrategyLeastConnections else StrategyRoundRobin)"

definition IsHealthy :: "string \<Rightarrow> ProxyPool \<Rightarrow> bool" where
  "IsHealthy url p \<longleftrightarrow> url \<in> set (ppHealthy p)"

definition GetStats :: "ProxyPool \<Rightarrow> string \<rightharpoonup> ProxyStats" where
  "GetStats p = (\<lambda>url. case ppStats p url of
     None \<Rightarrow> None
   | Some st \<Rightarrow> (case findEntry url (ppProxies p) of
       None \<Rightarrow> Some st
     | Some e \<Rightarrow> Some \<lparr>psURL = psURL st, psHealthy = peHealthy e, psLastCheck = peLastCheck e, psLatency = peLatency e,
         psLatencyMs = real_of_int (peLatency e sdiv Millisecond), psSuccessRate = peSuccessRate e,
         psWeight = peWeight e, psActiveConns = peActiveConns e, psTotalRequests = peTotalRequests e,
         psFailedRequests = peFailedRequests e, psStatus = statusString (peStatus e),
         psConsecutiveFailures = peConsecutiveFailures e\<rparr>))"

record ProxyPoolStatus =
  pstTotal :: int
  pstHealthy :: int
  pstUnhealthy :: int
  pstIsolated :: int
  pstStrategy :: string
  pstCheckInterval :: duration
  pstLastUpdated :: time

definition GetPoolStatus :: "time \<Rightarrow> ProxyPool \<Rightarrow> ProxyPoolStatus" where
  "GetPoolStatus now p =
     (let total = int (length (ppProxies p)); healthy = int (length (ppHealthy p));
          isolated = int (length (filter (\<lambda>e. peStatus e = ProxyStatusIsolated) (ppProxies p)))
      in \<lparr>pstTotal = total, pstHealthy = healthy, pstUnhealthy = total - healthy - isolated, pstIsolated = isolated,
          pstStrategy = strategyString (ppStrategy p), pstCheckInterval = ppCheckInterval p, pstLastUpdated = now\<rparr>)"

subsection \<open>The invariant\<close>

definition entry_wf :: "ProxyEntry \<Rightarrow> bool" where
  "entry_wf e \<longleftrightarrow> 0 \<le> peSuccessRate e \<and> peSuccessRate e \<le> 1 \<and> 0 \<le> peActiveConns e \<and>
     0 \<le> peFailedRequests e \<and> peFailedRequests e \<le> peTotalRequests e"

definition pool_wf :: "ProxyPool \<Rightarrow> bool" where
  "pool_wf p \<longleftrightarrow> distinct (map peURL (ppProxies p)) \<and> [] \<notin> peURL ` set (ppProxies p) \<and>
     ppHealthy p = map peURL (filter selectable (ppProxies p)) \<and>
     dom (ppStats p) = peURL ` set (ppProxies p) \<and> (\<forall>e \<in> set (ppProxies p). entry_wf e)"

lemma findEntry_SomeD: "findEntry url es = Some e \<Longrightarrow> e \<in> set es \<and> peURL e = url"
  by (induction es) (auto split: if_splits)

lemma findEntry_distinct: "distinct (map peURL es) \<Longrightarrow> e \<in> set es \<Longrightarrow> findEntry (peURL e) es = Some e"
  by (induction es) auto

lemma findEntry_None_iff: "findEntry url es = None \<longleftrightarrow> url \<notin> peURL ` set es"
  by (induction es) auto

lemma updateEntry_urls: "(\<And>e. peURL (f e) = peURL e) \<Longrightarrow> map peURL (updateEntry url f es) = map peURL es"
  by (induction es) auto

lemma updateEntry_map:
  "distinct (map peURL es) \<Longrightarrow> updateEntry url f es = map (\<lambda>e. if peURL e = url then f e else e) es"
proof (induction es)
  case (Cons e es)
  then show ?case
  proof (cases "peURL e = url")
    case True
    then have "peURL x \<noteq> url" if "x \<in> set es" for x using Cons.prems that by (metis distinct.simps(2) image_eqI list.map(2) list.set_map)
    then have "map (\<lambda>e. if peURL e = url then f e else e) es = es" by (intro map_idI) simp
    then show ?thesis using True by simp
  qed simp
qed simp

lemma updateEntry_set:
  "distinct (map peURL es) \<Longrightarrow> x \<in> set (updateEntry url f es) \<Longrightarrow> \<exists>e \<in> set es. x = e \<or> x = f e"
  by (auto simp: updateEntry_map split: if_splits)

lemma removeEntry_filter: "distinct (map peURL es) \<Longrightarrow> removeEntry url es = filter (\<lambda>e. peURL e \<noteq> url) es"
proof (induction es)
  case (Cons e es)
  then show ?case
  proof (cases "peURL e = url")
    case True
    then have "peURL x \<noteq> url" if "x \<in> set es" for x using Cons.prems that by (metis distinct.simps(2) image_eqI list.map(2) list.set_map)
    then have "filter (\<lambda>e. peURL e \<noteq> url) es = es" by (intro filter_True) simp
    then show ?thesis using True by simp
  qed simp
qed simp

lemma healthyEntries_wf: "pool_wf p \<Longrightarrow> healthyEntries p = filter selectable (ppProxies p)"
proof -
  assume wf: "pool_wf p"
  have "List.map_filter (\<lambda>url. findEntry url (ppProxies p)) (map peURL es) = es" if "set es \<subseteq> set (ppProxies p)" for es
    using that wf by (induction es) (auto simp: List.map_filter_simps findEntry_distinct pool_wf_def)
  then show ?thesis using wf by (simp add: healthyEntries_def pool_wf_def)
qed

text \<open>The operations on one entry keep its figures in range.\<close>

lemma entry_ops_wf:
  assumes "entry_wf e"
  shows "entry_wf (entrySuccess e)" "entry_wf (entryFailure now k e)" "entry_wf (entryChecked now k d r e)"
    "entry_wf (recoverEntry now d e)"
  using assms by (auto simp: entry_wf_def entrySuccess_def entryFailure_def entryChecked_def recoverEntry_def Let_def)

lemma entry_ops_url [simp]:
  "peURL (entrySuccess e) = peURL e" "peURL (entryFailure now k e) = peURL e"
  "peURL (entryChecked now k d r e) = peURL e" "peURL (recoverEntry now d e) = peURL e"
  by (simp_all add: entrySuccess_def entryFailure_def entryChecked_def recoverEntry_def Let_def)

lemma rebuild_sel [simp]:
  "ppProxies (rebuildHealthyList p) = ppProxies p" "ppStats (rebuildHealthyList p) = ppStats p"
  "ppIsolationThreshold (rebuildHealthyList p) = ppIsolationThreshold p"
  "ppIsolationDuration (rebuildHealthyList p) = ppIsolationDuration p"
  "ppHealthy (rebuildHealthyList p) = map peURL (filter selectable (ppProxies p))"
  by (simp_all add: rebuildHealthyList_def)

lemma updateEntry_wf:
  assumes wf: "pool_wf p" and f: "\<And>e. peURL (f e) = peURL e" "\<And>e. entry_wf e \<Longrightarrow> entry_wf (f e)"
  shows "distinct (map peURL (updateEntry url f (ppProxies p)))"
    "peURL ` set (updateEntry url f (ppProxies p)) = peURL ` set (ppProxies p)"
    "\<forall>e \<in> set (updateEntry url f (ppProxies p)). entry_wf e"
proof -
  have u: "map peURL (updateEntry url f (ppProxies p)) = map peURL (ppProxies p)" by (rule updateEntry_urls [OF f(1)])
  show "distinct (map peURL (updateEntry url f (ppProxies p)))" using wf unfolding u by (simp add: pool_wf_def)
  show "peURL ` set (updateEntry url f (ppProxies p)) = peURL ` set (ppProxies p)" using u by (metis set_map)
  show "\<forall>e \<in> set (updateEntry url f (ppProxies p)). entry_wf e"
    using wf updateEntry_set [of "ppProxies p" _ url f] f(2) unfolding pool_wf_def by metis
qed

lemma touchEntry_wf:
  assumes wf: "pool_wf p" and f: "\<And>e. peURL (f e) = peURL e" "\<And>e. entry_wf e \<Longrightarrow> entry_wf (f e)"
  shows "pool_wf (touchEntry url f g p)"
proof (cases "findEntry url (ppProxies p)")
  case (Some e)
  have "url \<in> dom (ppStats p)"
    using wf findEntry_SomeD [OF Some] by (auto simp: pool_wf_def)
  then obtain st where st: "ppStats p url = Some st" by auto
  have "insert url (peURL ` set (ppProxies p)) = peURL ` set (ppProxies p)"
    using findEntry_SomeD [OF Some] by auto
  then show ?thesis
    using wf Some st updateEntry_wf [OF wf f, of url] by (auto simp: pool_wf_def touchEntry_def)
qed (use wf in \<open>simp add: touchEntry_def\<close>)

lemma map_recover_wf: "pool_wf p \<Longrightarrow> pool_wf (RecoverIsolatedProxies now p)"
  by (auto simp: pool_wf_def RecoverIsolatedProxies_def comp_def image_image entry_ops_wf)

lemma AddProxy_wf: "pool_wf p \<Longrightarrow> pool_wf (AddProxy url w p)"
  by (auto simp: pool_wf_def AddProxy_def newProxyEntry_def entry_wf_def)

lemma RemoveProxy_wf: "pool_wf p \<Longrightarrow> pool_wf (RemoveProxy url p)"
  by (auto simp: pool_wf_def RemoveProxy_def removeEntry_filter distinct_map_filter)

inductive pool_step :: "ProxyPool \<Rightarrow> ProxyPool \<Rightarrow> bool" where
  "pool_step p (AddProxy url w p)"
| "pool_step p (RemoveProxy url p)"
| "pool_step p (UpdateProxyWeight url w p)"
| "pool_step p (fst (Select rnd p))"
| "pool_step p (fst (SelectWithStrategy rnd strategy p))"
| "pool_step p (MarkSuccess url p)"
| "pool_step p (MarkFailure now url p)"
| "pool_step p (fst (AcquireConnection url p))"
| "pool_step p (ReleaseConnection url p)"
| "pool_step p (processHealthCheckResult now r p)"
| "pool_step p (RecoverIsolatedProxies now p)"
| "pool_step p (SetStrategy strategy p)"

lemma Select_pool:
  "fst (SelectWithStrategy rnd strategy p) = p \<or>
   fst (SelectWithStrategy rnd strategy p) = p\<lparr>ppRoundRobinIdx := ppRoundRobinIdx p + 1\<rparr>"
  by (auto simp: SelectWithStrategy_def selectByStrategy_def selectRoundRobin_def Let_def split: ProxySelectionStrategy.split)

lemma pool_wf_idx [simp]: "pool_wf (p\<lparr>ppRoundRobinIdx := i\<rparr>) = pool_wf p" "pool_wf (p\<lparr>ppStrategy := st\<rparr>) = pool_wf p"
  by (simp_all add: pool_wf_def)

text \<open>An update that keeps URL and health flags leaves the healthy list as it is.\<close>

lemma updateEntry_pool_wf:
  assumes wf: "pool_wf p" and f: "\<And>e. peURL (f e) = peURL e" "\<And>e. entry_wf e \<Longrightarrow> entry_wf (f e)"
    and sel: "\<And>e. selectable (f e) = selectable e"
  shows "pool_wf (p\<lparr>ppProxies := updateEntry url f (ppProxies p)\<rparr>)"
proof -
  have "map peURL (filter selectable (updateEntry url f es)) = map peURL (filter selectable es)" for es
    using f(1) sel by (induction es) auto
  then show ?thesis using wf updateEntry_wf [OF wf f, of url] by (auto simp: pool_wf_def)
qed

lemma UpdateProxyWeight_wf:
  assumes wf: "pool_wf p"
  shows "pool_wf (UpdateProxyWeight url w p)"
proof -
  have u: "pool_wf (p\<lparr>ppProxies := updateEntry url (\<lambda>e. e\<lparr>peWeight := w\<rparr>) (ppProxies p)\<rparr>)"
    by (rule updateEntry_pool_wf [OF wf]) (simp_all add: entry_wf_def selectable_def)
  have "insert url (dom (ppStats p)) = dom (ppStats p)" if "ppStats p url = Some st" for st using that by auto
  then show ?thesis using u wf by (auto simp: UpdateProxyWeight_def pool_wf_def split: option.splits)
qed

lemma Acquire_wf: assumes wf: "pool_wf p" shows "pool_wf (fst (AcquireConnection url p))"
proof -
  have "pool_wf (p\<lparr>ppProxies := updateEntry url (\<lambda>e. e\<lparr>peActiveConns := peActiveConns e + 1\<rparr>) (ppProxies p)\<rparr>)"
    by (rule updateEntry_pool_wf [OF wf]) (simp_all add: entry_wf_def selectable_def)
  then show ?thesis using wf by (simp add: AcquireConnection_def split: option.split)
qed

lemma Release_wf: assumes wf: "pool_wf p" shows "pool_wf (ReleaseConnection url p)"
proof (cases "findEntry url (ppProxies p)")
  case (Some e)
  let ?f = "\<lambda>x. if x = e \<and> peActiveConns e > 0 then e\<lparr>peActiveConns := peActiveConns e - 1\<rparr> else x"
  let ?g = "\<lambda>e. e\<lparr>peActiveConns := peActiveConns e - 1\<rparr>"
  have d: "distinct (map peURL (ppProxies p))" using wf by (simp add: pool_wf_def)
  have "x = e" if "x \<in> set (ppProxies p)" "peURL x = url" for x
    using findEntry_distinct [OF d that(1)] Some that(2) by simp
  then have eq: "updateEntry url ?g (ppProxies p) = updateEntry url ?f (ppProxies p)" if "peActiveConns e > 0"
    using that by (auto simp: updateEntry_map [OF d])
  have w: "pool_wf (p\<lparr>ppProxies := updateEntry url ?f (ppProxies p)\<rparr>)"
    by (rule updateEntry_pool_wf [OF wf]) (auto simp: entry_wf_def selectable_def)
  have "pool_wf (p\<lparr>ppProxies := updateEntry url ?g (ppProxies p)\<rparr>)" if pos: "peActiveConns e > 0"
    unfolding eq [OF pos] by (rule w)
  then show ?thesis using wf Some by (simp add: ReleaseConnection_def)
qed (use wf in \<open>simp add: ReleaseConnection_def\<close>)

lemma pool_step_wf: "pool_step p q \<Longrightarrow> pool_wf p \<Longrightarrow> pool_wf q"
proof (induction rule: pool_step.induct)
  case (4 p rnd)
  then show ?case using Select_pool [of rnd "ppStrategy p" p] by (auto simp: Select_def)
next
  case (5 p rnd strategy)
  then show ?case using Select_pool [of rnd strategy p] by auto
qed (simp_all add: AddProxy_wf RemoveProxy_wf UpdateProxyWeight_wf Acquire_wf Release_wf map_recover_wf MarkSuccess_def
    MarkFailure_def processHealthCheckResult_def SetStrategy_def touchEntry_wf entry_ops_wf)

interpretation pool_machine: invariant_machine pool_step pool_wf
  by unfold_locales (rule pool_step_wf)

lemma pool_wf_new: "pool_wf (NewProxyPool cfg)"
  by (simp add: pool_wf_def NewProxyPool_def Let_def)

subsection \<open>Looking an entry up after an operation\<close>

lemma findEntry_update:
  "(\<And>e. peURL (f e) = peURL e) \<Longrightarrow>
   findEntry url (updateEntry u f es) = (if u = url then map_option f (findEntry url es) else findEntry url es)"
  by (induction es) auto

lemma touchEntry_find:
  assumes "\<And>e. peURL (f e) = peURL e"
  shows "findEntry url (ppProxies (touchEntry u f g p)) =
    (if u = url then map_option f (findEntry url (ppProxies p)) else findEntry url (ppProxies p))"
  using findEntry_update [OF assms, of url u "ppProxies p"]
  by (auto simp: touchEntry_def split: option.splits)

lemma touchEntry_sel [simp]:
  "ppIsolationThreshold (touchEntry u f g p) = ppIsolationThreshold p"
  "ppIsolationDuration (touchEntry u f g p) = ppIsolationDuration p"
  by (simp_all add: touchEntry_def split: option.split)

lemma IsHealthy_wf:
  assumes "pool_wf p" "findEntry url (ppProxies p) = Some e"
  shows "IsHealthy url p \<longleftrightarrow> selectable e"
proof -
  have "x = e" if "x \<in> set (ppProxies p)" "peURL x = url" for x
    using findEntry_distinct [of "ppProxies p" x] assms that by (simp add: pool_wf_def)
  then show ?thesis
    using assms(1) findEntry_SomeD [OF assms(2)] by (auto simp: IsHealthy_def pool_wf_def)
qed

subsection \<open>Selection\<close>

lemma weightOf_pos: "0 < weightOf e"
  by (simp add: weightOf_def)

abbreviation weightSum :: "ProxyEntry list \<Rightarrow> int" where
  "weightSum es \<equiv> sum_list (map weightOf es)"

lemma weightSum_nonneg: "0 \<le> weightSum es"
  using weightOf_pos by (auto intro!: sum_list_nonneg simp: less_imp_le)

lemma weightSum_pos: "es \<noteq> [] \<Longrightarrow> 0 < weightSum es"
  using weightOf_pos [of "hd es"] weightSum_nonneg [of "tl es"] by (cases es) auto

lemma totalWeight_sum:
  assumes "weightSum es < 2 ^ 63"
  shows "totalWeight es = weightSum es"
proof -
  have "foldl (\<lambda>acc e. wrap64 (acc + weightOf e)) acc es = acc + weightSum es"
    if "0 \<le> acc" "acc + weightSum es < 2 ^ 63" for acc
    using that
  proof (induction es arbitrary: acc)
    case (Cons e es)
    have "wrap64 (acc + weightOf e) = acc + weightOf e"
      using Cons.prems weightOf_pos [of e] weightSum_nonneg [of es] by (intro wrap64_id) auto
    then show ?case using Cons weightOf_pos [of e] by simp
  qed simp
  from this [of 0] assms show ?thesis by (simp add: totalWeight_def)
qed

lemma weightedScan_Some:
  "cur \<le> r \<Longrightarrow> 0 \<le> cur \<Longrightarrow> cur + weightSum es < 2 ^ 63 \<Longrightarrow> r < cur + weightSum es \<Longrightarrow>
   \<exists>e \<in> set es. weightedScan r cur es = Some e"
proof (induction es arbitrary: cur)
  case (Cons e es)
  have w: "wrap64 (cur + weightOf e) = cur + weightOf e"
    using Cons.prems weightOf_pos [of e] weightSum_nonneg [of es] by (intro wrap64_id) auto
  show ?case using Cons.IH [of "cur + weightOf e"] Cons.prems weightOf_pos [of e] by (auto simp: w Let_def)
qed simp

text \<open>The share of the random numbers that select an entry is its weight.\<close>

lemma weightedScan_card:
  "0 \<le> cur \<Longrightarrow> cur + weightSum es < 2 ^ 63 \<Longrightarrow> distinct es \<Longrightarrow> e \<in> set es \<Longrightarrow>
   card {r \<in> {cur..<cur + weightSum es}. weightedScan r cur es = Some e} = nat (weightOf e)"
proof (induction es arbitrary: cur)
  case (Cons x es)
  let ?c = "cur + weightOf x"
  have pos: "0 < weightOf x" "0 \<le> weightSum es" by (rule weightOf_pos weightSum_nonneg)+
  have w: "wrap64 ?c = ?c" using Cons.prems pos by (intro wrap64_id) auto
  have notin: "weightedScan r c es \<noteq> Some y" if "y \<notin> set es" for r c y
    using that by (induction es arbitrary: c) (auto simp: Let_def)
  show ?case
  proof (cases "e = x")
    case True
    have "{r \<in> {cur..<cur + weightSum (x # es)}. weightedScan r cur (x # es) = Some e} = {cur..<?c}"
      using notin [of x] Cons.prems(3) pos by (auto simp: w True Let_def split: if_splits)
    then show ?thesis by (simp add: True)
  next
    case False
    have "{r \<in> {cur..<cur + weightSum (x # es)}. weightedScan r cur (x # es) = Some e} =
        {r \<in> {?c..<?c + weightSum es}. weightedScan r ?c es = Some e}"
      using False pos by (auto simp: w Let_def split: if_splits)
    moreover have "card {r \<in> {?c..<?c + weightSum es}. weightedScan r ?c es = Some e} = nat (weightOf e)"
      using Cons.prems False pos by (intro Cons.IH) (auto simp: add.assoc)
    ultimately show ?thesis by simp
  qed
qed simp

text \<open>Least connections: the minimum of the adjusted counts.\<close>

lemma leastScan_cases:
  "(leastScan m best es = best \<and> (\<forall>e \<in> set es. m \<le> adjustedConns e)) \<or>
   (\<exists>b \<in> set es. leastScan m best es = Some b \<and> adjustedConns b < m \<and> (\<forall>e \<in> set es. adjustedConns b \<le> adjustedConns e))"
proof (induction es arbitrary: m best)
  case (Cons e es)
  show ?case
  proof (cases "adjustedConns e < m")
    case True
    then show ?thesis using Cons [of "adjustedConns e" "Some e"] by fastforce
  next
    case False
    then show ?thesis using Cons [of m best] by fastforce
  qed
qed simp

subsection \<open>Properties\<close>

text \<open>
  C34: the pool's invariant holds in every reachable state: URLs are distinct and not empty, the
  healthy list names exactly the entries that are healthy and not isolated, in pool order, the
  statistics cover exactly the proxies of the pool, success rates stay between 0 and 1, connection
  counts never become negative, and no more requests failed than were made.
\<close>

theorem proxy_pool_invariant:
  assumes "pool_step\<^sup>*\<^sup>* (NewProxyPool cfg) p"
  shows "pool_wf p"
  using pool_machine.reachable_inv [OF assms pool_wf_new] .

theorem proxy_pool_invariant_witness:
  "pool_wf (MarkFailure 9 ''http://a'' (AddProxy ''http://a'' 1 (NewProxyPool None)))"
  by (rule proxy_pool_invariant [of None]) (meson pool_step.intros rtranclp.rtrancl_into_rtrancl rtranclp.rtrancl_refl)

text \<open>A number of successive round-robin selections from an otherwise unchanged pool.\<close>

fun roundRobinRun :: "nat \<Rightarrow> ProxyPool \<Rightarrow> ProxyEntry option list" where
  "roundRobinRun 0 p = []"
| "roundRobinRun (Suc n) p = (case selectRoundRobin p of (q, e) \<Rightarrow> e # roundRobinRun n q)"

lemma unat_incr: "unat i + 1 < 2 ^ 64 \<Longrightarrow> unat (i + 1) = unat i + 1" for i :: "64 word"
  by (simp add: unat_word_ariths)

lemma roundRobinRun_map:
  assumes "pool_wf p" "hs = filter selectable (ppProxies p)" "hs \<noteq> []" "unat (ppRoundRobinIdx p) + n < 2 ^ 64"
  shows "roundRobinRun n p = map (\<lambda>k. Some (hs ! ((unat (ppRoundRobinIdx p) + k) mod length hs))) [1..<Suc n]"
  using assms
proof (induction n arbitrary: p)
  case (Suc n)
  let ?q = "p\<lparr>ppRoundRobinIdx := ppRoundRobinIdx p + 1\<rparr>"
  have u: "unat (ppRoundRobinIdx p + 1) = unat (ppRoundRobinIdx p) + 1" using Suc.prems(4) by (intro unat_incr) simp
  have "selectRoundRobin p = (?q, Some (hs ! ((unat (ppRoundRobinIdx p) + 1) mod length hs)))"
    using Suc.prems u by (simp add: selectRoundRobin_def healthyEntries_wf Let_def)
  moreover have "roundRobinRun n ?q = map (\<lambda>k. Some (hs ! ((unat (ppRoundRobinIdx ?q) + k) mod length hs))) [1..<Suc n]"
    using Suc.prems u by (intro Suc.IH) auto
  moreover have "[1..<Suc (Suc n)] = 1 # map Suc [1..<Suc n]" by (simp only: map_Suc_upt) (simp add: upt_rec)
  ultimately show ?case by (simp add: u comp_def)
qed simp

lemma mset_rotate_eq: "mset (rotate n xs) = mset xs"
  unfolding rotate_drop_take mset_append by (metis add.commute append_take_drop_id mset_append)

lemma rotation_mset:
  assumes "hs \<noteq> []"
  shows "mset (map (\<lambda>k. hs ! ((c + k) mod length hs)) [1..<Suc (length hs)]) = mset hs"
proof -
  have "map (\<lambda>k. hs ! ((c + k) mod length hs)) [1..<Suc (length hs)] = rotate (c + 1) hs"
    by (rule nth_equalityI) (auto simp: nth_rotate ac_simps simp del: upt_Suc rotate_Suc)
  then show ?thesis by (simp only: mset_rotate_eq)
qed

text \<open>
  Supplement: round-robin selection is fair. In as many successive selections as there are selectable
  proxies, every selectable proxy is chosen exactly once, unless the 64-bit counter wraps in
  between.
\<close>

theorem round_robin_fair:
  assumes "pool_wf p" "filter selectable (ppProxies p) \<noteq> []"
    and "unat (ppRoundRobinIdx p) + length (filter selectable (ppProxies p)) < 2 ^ 64"
  shows "mset (roundRobinRun (length (filter selectable (ppProxies p))) p) = mset (map Some (filter selectable (ppProxies p)))"
proof -
  let ?hs = "filter selectable (ppProxies p)"
  have "roundRobinRun (length ?hs) p = map Some (map (\<lambda>k. ?hs ! ((unat (ppRoundRobinIdx p) + k) mod length ?hs)) [1..<Suc (length ?hs)])"
    using roundRobinRun_map [OF assms(1) refl assms(2,3)] by (simp add: comp_def del: upt_Suc)
  then show ?thesis using rotation_mset [OF assms(2)] by (metis mset_map)
qed

definition demoPool :: ProxyPool where
  "demoPool = AddProxy ''http://b'' 3 (AddProxy ''http://a'' 1 (NewProxyPool None))"

lemma newProxyEntry_simps [simp]:
  "selectable (newProxyEntry u w)" "weightOf (newProxyEntry u w) = (if w \<le> 0 then 1 else w)"
  by (simp_all add: newProxyEntry_def selectable_def weightOf_def)

lemma demoPool_wf: "pool_wf demoPool"
  by (simp add: demoPool_def AddProxy_wf pool_wf_new)

lemma demoPool_entries:
  "ppProxies demoPool = [newProxyEntry ''http://a'' 1, newProxyEntry ''http://b'' 3]"
  "filter selectable (ppProxies demoPool) = [newProxyEntry ''http://a'' 1, newProxyEntry ''http://b'' 3]"
  "ppRoundRobinIdx demoPool = 0"
proof -
  show 1: "ppProxies demoPool = [newProxyEntry ''http://a'' 1, newProxyEntry ''http://b'' 3]" "ppRoundRobinIdx demoPool = 0"
    by (simp_all add: demoPool_def AddProxy_def NewProxyPool_def rebuildHealthyList_def Let_def) (simp add: newProxyEntry_def)
  show "filter selectable (ppProxies demoPool) = [newProxyEntry ''http://a'' 1, newProxyEntry ''http://b'' 3]"
    by (simp add: 1)
qed

theorem round_robin_fair_witness:
  "mset (roundRobinRun (length (filter selectable (ppProxies demoPool))) demoPool) = mset (map Some (filter selectable (ppProxies demoPool)))"
  by (rule round_robin_fair [OF demoPool_wf]) (simp_all add: demoPool_entries)

text \<open>
  Supplement: weighted selection follows the weights exactly. While the weights sum to less than
  \<open>2 ^ 63\<close>, the number of random values in the range drawn that select a given selectable proxy is
  its weight (one for a weight that is not positive).
\<close>

theorem weighted_selection_distribution:
  assumes "pool_wf p" "weightSum (filter selectable (ppProxies p)) < 2 ^ 63" "e \<in> set (ppProxies p)" "selectable e"
  shows "card {r \<in> {0..<totalWeight (healthyEntries p)}. selectWeighted (\<lambda>_. r) p = Some e} = nat (weightOf e)"
proof -
  let ?hs = "filter selectable (ppProxies p)"
  have hs: "healthyEntries p = ?hs" "totalWeight ?hs = weightSum ?hs" "?hs \<noteq> []" "distinct ?hs" "e \<in> set ?hs"
    using assms healthyEntries_wf totalWeight_sum by (auto simp: pool_wf_def distinct_map filter_empty_conv)
  have t: "0 < weightSum ?hs" by (rule weightSum_pos [OF hs(3)])
  have "selectWeighted (\<lambda>_. r) p = Some e \<longleftrightarrow> weightedScan r 0 ?hs = Some e" if "r \<in> {0..<weightSum ?hs}" for r
    using weightedScan_Some [of 0 r ?hs] that assms(2) hs t by (auto simp: selectWeighted_def Let_def)
  then have "{r \<in> {0..<totalWeight (healthyEntries p)}. selectWeighted (\<lambda>_. r) p = Some e} =
      {r \<in> {0..<0 + weightSum ?hs}. weightedScan r 0 ?hs = Some e}" using hs by auto
  then show ?thesis using weightedScan_card [of 0 ?hs e] assms(2) hs by simp
qed

theorem weighted_selection_distribution_witness:
  "card {r \<in> {0..<totalWeight (healthyEntries demoPool)}. selectWeighted (\<lambda>_. r) demoPool = Some (newProxyEntry ''http://b'' 3)} = 3"
  using weighted_selection_distribution [OF demoPool_wf, of "newProxyEntry ''http://b'' 3"]
  by (simp add: demoPool_entries)

text \<open>
  Supplement: what a selection returns. With any strategy, a proxy that is returned belongs to the pool, is
  healthy and is not isolated; with least connections no selectable proxy has a smaller adjusted
  connection count. No proxy is returned only when none is selectable, or, with least
  connections, when every selectable one has an adjusted count of at least \<open>2 ^ 63 - 1\<close>.
\<close>

theorem selection_sound:
  assumes "pool_wf p" "weightSum (filter selectable (ppProxies p)) < 2 ^ 63" "\<forall>n > 0. 0 \<le> rnd n \<and> rnd n < n"
  shows "case snd (SelectWithStrategy rnd strategy p) of
      Some e \<Rightarrow> e \<in> set (ppProxies p) \<and> selectable e \<and>
        (strategy = StrategyLeastConnections \<longrightarrow>
           (\<forall>f \<in> set (ppProxies p). selectable f \<longrightarrow> adjustedConns e \<le> adjustedConns f))
    | None \<Rightarrow> \<forall>e \<in> set (ppProxies p). selectable e \<longrightarrow>
        strategy = StrategyLeastConnections \<and> maxDuration \<le> adjustedConns e"
proof -
  let ?hs = "filter selectable (ppProxies p)"
  have hs: "healthyEntries p = ?hs" "ppHealthy p = map peURL ?hs"
    using assms(1) healthyEntries_wf by (auto simp: pool_wf_def)
  show ?thesis
  proof (cases "?hs = []")
    case True
    then show ?thesis using hs by (auto simp: SelectWithStrategy_def filter_empty_conv)
  next
    case ne: False
    have t: "totalWeight ?hs = weightSum ?hs" "0 < weightSum ?hs"
      using totalWeight_sum [OF assms(2)] weightSum_pos [OF ne] by auto
    show ?thesis
    proof (cases strategy)
      case StrategyRoundRobin
      have "unat (ppRoundRobinIdx p + 1) mod length ?hs < length ?hs" using ne by simp
      then have "?hs ! (unat (ppRoundRobinIdx p + 1) mod length ?hs) \<in> set ?hs" by (rule nth_mem)
      then show ?thesis
        using StrategyRoundRobin ne hs by (auto simp: SelectWithStrategy_def selectByStrategy_def selectRoundRobin_def Let_def)
    next
      case StrategyWeighted
      obtain e where "e \<in> set ?hs" "weightedScan (rnd (weightSum ?hs)) 0 ?hs = Some e"
        using weightedScan_Some [of 0 "rnd (weightSum ?hs)" ?hs] assms(2,3) t by auto
      then show ?thesis
        using StrategyWeighted ne hs t by (auto simp: SelectWithStrategy_def selectByStrategy_def selectWeighted_def Let_def)
    next
      case StrategyLeastConnections
      then show ?thesis
        using leastScan_cases [of maxDuration None ?hs] ne hs
        by (auto simp: SelectWithStrategy_def selectByStrategy_def selectLeastConnections_def Let_def)
    qed
  qed
qed

theorem selection_sound_witness:
  "case snd (SelectWithStrategy (\<lambda>_. 0) StrategyWeighted demoPool) of
      Some e \<Rightarrow> e \<in> set (ppProxies demoPool) \<and> selectable e \<and>
        (StrategyWeighted = StrategyLeastConnections \<longrightarrow>
           (\<forall>f \<in> set (ppProxies demoPool). selectable f \<longrightarrow> adjustedConns e \<le> adjustedConns f))
    | None \<Rightarrow> \<forall>e \<in> set (ppProxies demoPool). selectable e \<longrightarrow>
        StrategyWeighted = StrategyLeastConnections \<and> maxDuration \<le> adjustedConns e"
  by (rule selection_sound [OF demoPool_wf]) (simp_all add: demoPool_entries)

subsection \<open>A proxy that failed one health check\<close>

lemma entryChecked_unhealthy:
  "hcHealthy r \<Longrightarrow> peStatus e = ProxyStatusUnhealthy \<Longrightarrow> peStatus (entryChecked now k d r e) = ProxyStatusUnhealthy"
  by (simp add: entryChecked_def Let_def)

lemma process_wf: "pool_wf p \<Longrightarrow> pool_wf (processHealthCheckResult now r p)"
  by (simp add: processHealthCheckResult_def touchEntry_wf entry_ops_wf)

lemma process_find:
  "findEntry url (ppProxies (processHealthCheckResult now r p)) =
    (if hcURL r = url then map_option (entryChecked now (ppIsolationThreshold p) (ppIsolationDuration p) r) (findEntry url (ppProxies p))
     else findEntry url (ppProxies p))"
  by (simp add: processHealthCheckResult_def touchEntry_find)

lemma HealthCheck_stays_unhealthy:
  "pool_wf p \<Longrightarrow> findEntry url (ppProxies p) = Some e \<Longrightarrow> peStatus e = ProxyStatusUnhealthy \<Longrightarrow>
   list_all (\<lambda>(now, r). hcHealthy r) rs \<Longrightarrow>
   pool_wf (HealthCheck rs p) \<and>
   (\<exists>e'. findEntry url (ppProxies (HealthCheck rs p)) = Some e' \<and> peStatus e' = ProxyStatusUnhealthy)"
proof (induction rs arbitrary: p e)
  case (Cons x rs)
  obtain now r where x: "x = (now, r)" by (cases x)
  let ?q = "processHealthCheckResult now r p"
  obtain e1 where e1: "findEntry url (ppProxies ?q) = Some e1" "peStatus e1 = ProxyStatusUnhealthy"
    using Cons.prems x entryChecked_unhealthy [of r e] by (cases "hcURL r = url") (auto simp: process_find)
  from Cons.IH [OF process_wf [OF Cons.prems(1)] e1] Cons.prems(4) show ?case by (simp add: HealthCheck_def x)
qed (simp add: HealthCheck_def)

text \<open>
  Supplement: one failed health check takes a proxy out for good. If a check fails while the proxy is still
  below the isolation threshold, no number of later successful checks makes it selectable again or
  lets it be acquired: a success restores the flag \<open>Healthy\<close> but never the status
  \<open>ProxyStatusUnhealthy\<close>, and both are required. Only further failures, up to isolation and
  recovery from it, bring the proxy back.
\<close>

theorem failed_check_is_permanent:
  assumes "pool_wf p" "findEntry (hcURL r) (ppProxies p) = Some e" "\<not> hcHealthy r"
    and "peConsecutiveFailures e + 1 < ppIsolationThreshold p" "list_all (\<lambda>(now, r'). hcHealthy r') rs"
  shows "\<not> IsHealthy (hcURL r) (HealthCheck rs (processHealthCheckResult now r p)) \<and>
    \<not> snd (AcquireConnection (hcURL r) (HealthCheck rs (processHealthCheckResult now r p)))"
proof -
  let ?e = "entryChecked now (ppIsolationThreshold p) (ppIsolationDuration p) r e"
  have e: "findEntry (hcURL r) (ppProxies (processHealthCheckResult now r p)) = Some ?e" "peStatus ?e = ProxyStatusUnhealthy"
    using assms(2-4) by (auto simp: process_find entryChecked_def Let_def)
  then show ?thesis
    using HealthCheck_stays_unhealthy [OF process_wf [OF assms(1)] e assms(5)] IsHealthy_wf
    by (auto simp: AcquireConnection_def selectable_def)
qed

definition demoResult :: "bool \<Rightarrow> HealthCheckResult" where
  "demoResult ok = \<lparr>hcURL = ''http://a'', hcHealthy = ok, hcLatency = 5, hcTimestamp = 100\<rparr>"

theorem failed_check_is_permanent_witness:
  "\<not> IsHealthy ''http://a'' (HealthCheck [(200, demoResult True), (300, demoResult True)] (processHealthCheckResult 100 (demoResult False) demoPool))"
  using failed_check_is_permanent [OF demoPool_wf, of "demoResult False" "newProxyEntry ''http://a'' 1" "[(200, demoResult True), (300, demoResult True)]" 100]
  by (simp add: demoPool_entries demoResult_def)
    (simp add: newProxyEntry_def demoPool_def AddProxy_def NewProxyPool_def rebuildHealthyList_def DefaultProxyPoolConfig_def Let_def)

subsection \<open>Isolation\<close>

lemma MarkFailure_find:
  "findEntry url (ppProxies (MarkFailure now url p)) = map_option (entryFailure now (ppIsolationThreshold p)) (findEntry url (ppProxies p))"
  by (simp add: MarkFailure_def touchEntry_find)

lemma MarkFailure_wf: "pool_wf p \<Longrightarrow> pool_wf (MarkFailure now url p)"
  by (simp add: MarkFailure_def touchEntry_wf entry_ops_wf)

text \<open>An entry is isolated, or its failures still have some way to go.\<close>

lemma failures_isolate:
  "pool_wf p \<Longrightarrow> findEntry url (ppProxies p) = Some e \<Longrightarrow> 0 \<le> peConsecutiveFailures e \<Longrightarrow>
   (peStatus e = ProxyStatusIsolated \<longrightarrow> \<not> peHealthy e) \<Longrightarrow>
   \<exists>e'. pool_wf (fold (\<lambda>t. MarkFailure t url) ts p) \<and>
     findEntry url (ppProxies (fold (\<lambda>t. MarkFailure t url) ts p)) = Some e' \<and> 0 \<le> peConsecutiveFailures e' \<and>
     (peStatus e' = ProxyStatusIsolated \<longrightarrow> \<not> peHealthy e') \<and>
     (peStatus e' = ProxyStatusIsolated \<or>
      (ts = [] \<and> e' = e \<or> peConsecutiveFailures e + int (length ts) < ppIsolationThreshold p \<and>
         peConsecutiveFailures e' = peConsecutiveFailures e + int (length ts)))"
proof (induction ts arbitrary: p e)
  case (Cons t ts)
  let ?e = "entryFailure t (ppIsolationThreshold p) e"
  have f: "findEntry url (ppProxies (MarkFailure t url p)) = Some ?e" using Cons.prems(2) by (simp add: MarkFailure_find)
  have th: "ppIsolationThreshold (MarkFailure t url p) = ppIsolationThreshold p" by (simp add: MarkFailure_def)
  have ne: "0 \<le> peConsecutiveFailures ?e" "peStatus ?e = ProxyStatusIsolated \<longrightarrow> \<not> peHealthy ?e"
    using Cons.prems(3,4) by (auto simp: entryFailure_def Let_def)
  have st: "peStatus ?e = ProxyStatusIsolated \<or>
      peConsecutiveFailures e + 1 < ppIsolationThreshold p \<and> peConsecutiveFailures ?e = peConsecutiveFailures e + 1"
    by (auto simp: entryFailure_def Let_def)
  have iso: "peStatus (entryFailure t' k x) = ProxyStatusIsolated" if "peStatus x = ProxyStatusIsolated" for t' k x
    using that by (simp add: entryFailure_def Let_def)
  have stay: "peStatus y = ProxyStatusIsolated"
    if "findEntry url (ppProxies q) = Some x" "peStatus x = ProxyStatusIsolated"
      "findEntry url (ppProxies (fold (\<lambda>t. MarkFailure t url) us q)) = Some y" for q x y us
    using that
  proof (induction us arbitrary: q x)
    case (Cons u us)
    from Cons.IH [of "MarkFailure u url q" "entryFailure u (ppIsolationThreshold q) x"] Cons.prems iso
    show ?case by (simp add: MarkFailure_find)
  qed simp
  from Cons.IH [OF MarkFailure_wf [OF Cons.prems(1)] f ne]
  show ?case using stay [OF f] st by (fastforce simp: th)
qed simp

text \<open>
  Supplement: repeated failures isolate a proxy. After as many consecutive failures as the (positive)
  threshold, whatever the times, the proxy is isolated, cannot be selected and cannot be acquired.
\<close>

theorem repeated_failures_isolate:
  assumes "pool_wf p" "findEntry url (ppProxies p) = Some e" "0 \<le> peConsecutiveFailures e"
    and "peStatus e \<noteq> ProxyStatusIsolated" "ts \<noteq> []" "ppIsolationThreshold p \<le> int (length ts)"
  shows "let q = fold (\<lambda>t. MarkFailure t url) ts p
     in \<not> IsHealthy url q \<and> \<not> snd (AcquireConnection url q) \<and>
        (\<exists>e'. findEntry url (ppProxies q) = Some e' \<and> peStatus e' = ProxyStatusIsolated)"
proof -
  obtain e' where e': "pool_wf (fold (\<lambda>t. MarkFailure t url) ts p)"
    "findEntry url (ppProxies (fold (\<lambda>t. MarkFailure t url) ts p)) = Some e'" "peStatus e' = ProxyStatusIsolated"
    using failures_isolate [OF assms(1-3), of ts] assms(3-6) by auto
  then show ?thesis
    using IsHealthy_wf [OF e'(1,2)] by (simp add: Let_def AcquireConnection_def selectable_def)
qed

theorem repeated_failures_isolate_witness:
  "let q = fold (\<lambda>t. MarkFailure t ''http://a'') [10, 20, 30] demoPool
   in \<not> IsHealthy ''http://a'' q \<and> \<not> snd (AcquireConnection ''http://a'' q) \<and>
      (\<exists>e'. findEntry ''http://a'' (ppProxies q) = Some e' \<and> peStatus e' = ProxyStatusIsolated)"
proof (rule repeated_failures_isolate [OF demoPool_wf])
  show "findEntry ''http://a'' (ppProxies demoPool) = Some (newProxyEntry ''http://a'' 1)"
    unfolding demoPool_entries by (simp add: newProxyEntry_def)
  show "ppIsolationThreshold demoPool \<le> int (length [10, 20, 30::time])"
    by (simp add: demoPool_def AddProxy_def NewProxyPool_def rebuildHealthyList_def DefaultProxyPoolConfig_def Let_def)
qed (simp_all add: newProxyEntry_def)

text \<open>
  Supplement: a reported success ends an isolation only halfway. An isolated proxy (whose flag
  \<open>Healthy\<close> is off) gets the status healthy back, so that its connections can be acquired and its
  status reads healthy, but it stays out of the list from which proxies are selected.
\<close>

theorem success_half_recovers:
  assumes "pool_wf p" "findEntry url (ppProxies p) = Some e" "peStatus e = ProxyStatusIsolated" "\<not> peHealthy e"
  shows "\<not> IsHealthy url (MarkSuccess url p) \<and> snd (AcquireConnection url (MarkSuccess url p)) \<and>
    map_option psStatus (GetStats (MarkSuccess url p) url) = Some ''healthy''"
proof -
  let ?q = "MarkSuccess url p"
  have wf: "pool_wf ?q" using assms(1) by (simp add: MarkSuccess_def touchEntry_wf entry_ops_wf)
  have f: "findEntry url (ppProxies ?q) = Some (entrySuccess e)" using assms(2) by (simp add: MarkSuccess_def touchEntry_find)
  have s: "peStatus (entrySuccess e) = ProxyStatusHealthy" "\<not> peHealthy (entrySuccess e)"
    using assms(3,4) by (simp_all add: entrySuccess_def Let_def)
  have "url \<in> dom (ppStats ?q)" using wf findEntry_None_iff [of url "ppProxies ?q"] f by (auto simp: pool_wf_def)
  then show ?thesis
    using IsHealthy_wf [OF wf f] f s by (auto simp: AcquireConnection_def selectable_def GetStats_def statusString_def)
qed

theorem success_half_recovers_witness:
  "let p = fold (\<lambda>t. MarkFailure t ''http://a'') [10, 20, 30] demoPool in
    \<not> IsHealthy ''http://a'' (MarkSuccess ''http://a'' p) \<and> snd (AcquireConnection ''http://a'' (MarkSuccess ''http://a'' p)) \<and>
    map_option psStatus (GetStats (MarkSuccess ''http://a'' p) ''http://a'') = Some ''healthy''"
proof -
  let ?p = "fold (\<lambda>t. MarkFailure t ''http://a'') [10, 20, 30] demoPool"
  have a: "findEntry ''http://a'' (ppProxies demoPool) = Some (newProxyEntry ''http://a'' 1)"
    unfolding demoPool_entries by (simp add: newProxyEntry_def)
  have t: "ppIsolationThreshold demoPool = 3"
    by (simp add: demoPool_def AddProxy_def NewProxyPool_def rebuildHealthyList_def DefaultProxyPoolConfig_def Let_def)
  obtain e' where e: "pool_wf ?p" "findEntry ''http://a'' (ppProxies ?p) = Some e'" "peStatus e' = ProxyStatusIsolated" "\<not> peHealthy e'"
    using failures_isolate [OF demoPool_wf a, of "[10, 20, 30]"] by (auto simp: t newProxyEntry_def)
  show ?thesis unfolding Let_def using success_half_recovers [OF e] .
qed

end
