(* ===== verification/Billing.thy ===== *)
theory Billing
  imports GoStrings
begin

section \<open>Prices and the cost of a request\<close>

text \<open>
  Models \<open>database/billing.go\<close>: the price table, the normalisation of model names, the lookup of
  a price by model family, alias and longest rule, and the cost of a request with its long-context
  and service-tier rules. Prices are per million tokens; a price of 0 means that there is none.
\<close>

definition longContextThreshold :: int where
  "longContextThreshold = 272000"

record ModelPricing =
  InputPrice :: float64
  InputPricePriority :: float64
  OutputPrice :: float64
  OutputPricePriority :: float64
  CacheReadPrice :: float64
  CacheReadPricePriority :: float64
  LongInputPrice :: float64
  LongInputPricePriority :: float64
  LongOutputPrice :: float64
  LongOutputPricePriority :: float64
  LongCacheReadPrice :: float64
  LongCacheReadPricePriority :: float64

record CostBreakdown =
  cbInputCost :: float64
  cbOutputCost :: float64
  cbCacheReadCost :: float64
  cbTotalCost :: float64
  cbInputPrice :: float64
  cbOutputPrice :: float64
  cbCacheReadPrice :: float64
  cbTierMultiplier :: float64
  cbLongContext :: bool
  cbLongContextThreshold :: int

text \<open>A price entry that sets only the input and the output price.\<close>

definition flatPricing :: "float64 \<Rightarrow> float64 \<Rightarrow> ModelPricing" where
  "flatPricing i out =
     \<lparr>InputPrice = i, InputPricePriority = 0, OutputPrice = out, OutputPricePriority = 0, CacheReadPrice = 0,
      CacheReadPricePriority = 0, LongInputPrice = 0, LongInputPricePriority = 0, LongOutputPrice = 0,
      LongOutputPricePriority = 0, LongCacheReadPrice = 0, LongCacheReadPricePriority = 0\<rparr>"

definition defaultModelPricing :: ModelPricing where
  "defaultModelPricing = flatPricing 1 2"

definition modelPricingRules :: "(string \<times> ModelPricing) list" where
  "modelPricingRules =
     [
(''gpt-5.5'', (flatPricing 5 30)\<lparr>InputPricePriority := 12.5, OutputPricePriority := 75, CacheReadPrice := 0.5, CacheReadPricePriority := 1.25, LongInputPrice := 10, LongInputPricePriority := 25, LongOutputPrice := 45, LongOutputPricePriority := 112.5, LongCacheReadPrice := 1, LongCacheReadPricePriority := 2.5\<rparr>),
      (''gpt-5.5-pro'', (flatPricing 30 180)\<lparr>InputPricePriority := 75, OutputPricePriority := 450, LongInputPrice := 60, LongInputPricePriority := 150, LongOutputPrice := 270, LongOutputPricePriority := 675\<rparr>),
      (''gpt-5.4-mini'', (flatPricing 0.75 4.5)\<lparr>CacheReadPrice := 0.075\<rparr>),
      (''gpt-5.4-nano'', (flatPricing 0.2 1.25)\<lparr>CacheReadPrice := 0.02\<rparr>),
      (''gpt-5.4'', (flatPricing 2.5 15)\<lparr>InputPricePriority := 5, OutputPricePriority := 30, CacheReadPrice := 0.25, CacheReadPricePriority := 0.5, LongInputPrice := 5, LongInputPricePriority := 10, LongOutputPrice := 22.5, LongOutputPricePriority := 45, LongCacheReadPrice := 0.5, LongCacheReadPricePriority := 1\<rparr>),
      (''gpt-5.4-pro'', (flatPricing 30 180)\<lparr>InputPricePriority := 75, OutputPricePriority := 450, LongInputPrice := 60, LongInputPricePriority := 150, LongOutputPrice := 270, LongOutputPricePriority := 675\<rparr>),
      (''gpt-5.3-codex-spark'', (flatPricing 1.25 10)\<lparr>InputPricePriority := 2.5, OutputPricePriority := 20, CacheReadPrice := 0.125, CacheReadPricePriority := 0.25\<rparr>),
      (''gpt-5.3-codex'', (flatPricing 1.75 14)\<lparr>InputPricePriority := 3.5, OutputPricePriority := 28, CacheReadPrice := 0.175, CacheReadPricePriority := 0.35\<rparr>),
      (''gpt-5.2'', (flatPricing 1.75 14)\<lparr>InputPricePriority := 3.5, OutputPricePriority := 28, CacheReadPrice := 0.175, CacheReadPricePriority := 0.35\<rparr>),
      (''gpt-4o-mini'', flatPricing 0.15 0.6),
      (''gpt-4o'', flatPricing 2.5 10),
      (''gpt-4-turbo'', flatPricing 10 30),
      (''gpt-4'', flatPricing 30 60),
      (''gpt-3.5-turbo'', flatPricing 0.5 1.5)
     ]"

subsection \<open>Names\<close>

definition cutAfterLast :: "string \<Rightarrow> string \<Rightarrow> string option" where
  "cutAfterLast s sep = map_option (\<lambda>idx. drop (idx + length sep) s) (LastIndex s sep)"

definition normalizeBillingModelName :: "string \<Rightarrow> string" where
  "normalizeBillingModelName model0 =
     (let m1 = TrimLeft (CHR ''/'') (ToLower (TrimSpace model0));
          m2 = TrimPrefix m1 ''models/'';
          m3 = TrimPrefix m2 ''publishers/google/models/'';
          m4 = (case cutAfterLast m3 ''/publishers/google/models/'' of Some m \<Rightarrow> m | None \<Rightarrow> m3);
          m5 = (case cutAfterLast m4 ''/models/'' of Some m \<Rightarrow> m
                | None \<Rightarrow> (case cutAfterLast m4 ''/'' of Some m \<Rightarrow> m | None \<Rightarrow> m4))
      in TrimLeft (CHR ''/'') m5)"

definition compactName :: "string \<Rightarrow> string" where
  "compactName model = map (\<lambda>c. if c = CHR '' '' \<or> c = CHR ''_'' then CHR ''-'' else c) (ToLower model)"

text \<open>The cases of \<open>normalizeCodexBillingModel\<close>, in their order: the substrings that are looked
  for, and the model they stand for.\<close>

definition codexAliases :: "(string list \<times> string) list" where
  "codexAliases =
     [
([''gpt-5.5-pro'', ''gpt5-5-pro'', ''gpt5.5-pro''], ''gpt-5.5-pro''),
      ([''gpt-5.5'', ''gpt5-5'', ''gpt5.5''], ''gpt-5.5''),
      ([''gpt-5.4-mini'', ''gpt5-4-mini'', ''gpt5.4-mini''], ''gpt-5.4-mini''),
      ([''gpt-5.4-nano'', ''gpt5-4-nano'', ''gpt5.4-nano''], ''gpt-5.4-nano''),
      ([''gpt-5.4-pro'', ''gpt5-4-pro'', ''gpt5.4-pro''], ''gpt-5.4-pro''),
      ([''gpt-5.4'', ''gpt5-4'', ''gpt5.4''], ''gpt-5.4''),
      ([''gpt-5.2'', ''gpt5-2'', ''gpt5.2''], ''gpt-5.2''),
      ([''gpt-5.3-codex-spark'', ''gpt5-3-codex-spark'', ''gpt5.3-codex-spark''], ''gpt-5.3-codex-spark''),
      ([''gpt-5.3-codex'', ''gpt5-3-codex'', ''gpt5.3-codex''], ''gpt-5.3-codex''),
      ([''gpt-5.3'', ''gpt5-3'', ''gpt5.3''], ''gpt-5.3-codex''),
      ([''codex-auto-review''], ''gpt-5.4''),
      ([''codex''], ''gpt-5.3-codex''),
      ([''gpt-5'', ''gpt5''], ''gpt-5.4'')
     ]"

fun firstAlias :: "string \<Rightarrow> (string list \<times> string) list \<Rightarrow> string option" where
  "firstAlias name [] = None"
| "firstAlias name ((subs, model) # rest) =
     (if list_ex (Contains name) subs then Some model else firstAlias name rest)"

definition normalizeCodexBillingModel :: "string \<Rightarrow> string option" where
  "normalizeCodexBillingModel model = firstAlias (compactName model) codexAliases"

definition modelMatchesRule :: "string \<Rightarrow> string \<Rightarrow> bool" where
  "modelMatchesRule model rule =
     (if model = rule then True
      else if \<not> HasPrefix model rule then False
      else if length model = length rule then True
      else model ! length rule \<in> {CHR ''-'', CHR ''.'', CHR '':''})"

fun bestRule :: "string \<Rightarrow> int \<Rightarrow> (string \<times> ModelPricing) option \<Rightarrow> (string \<times> ModelPricing) list \<Rightarrow> (string \<times> ModelPricing) option" where
  "bestRule model bestLen best [] = best"
| "bestRule model bestLen best (rule # rules) =
     (if modelMatchesRule model (fst rule) \<and> int (length (fst rule)) > bestLen
      then bestRule model (int (length (fst rule))) (Some rule) rules
      else bestRule model bestLen best rules)"

definition modelRulePricing :: "string \<Rightarrow> ModelPricing option" where
  "modelRulePricing model = map_option snd (bestRule model (- 1) None modelPricingRules)"

definition claudeFamilyPricing :: "string \<Rightarrow> ModelPricing option" where
  "claudeFamilyPricing model =
     (if Contains model ''opus'' then
        (if Contains model ''4.7'' \<or> Contains model ''4-7'' \<or> Contains model ''4.6'' \<or> Contains model ''4-6'' \<or>
            Contains model ''4.5'' \<or> Contains model ''4-5''
         then Some (flatPricing 5 25) else Some (flatPricing 15 75))
      else if Contains model ''sonnet'' then Some (flatPricing 3 15)
      else if Contains model ''haiku'' then
        (if Contains model ''3-5'' \<or> Contains model ''3.5'' then Some (flatPricing 1 5) else Some (flatPricing 0.25 1.25))
      else if Contains model ''claude'' then Some (flatPricing 3 15)
      else None)"

definition geminiFamilyPricing :: "string \<Rightarrow> ModelPricing option" where
  "geminiFamilyPricing model =
     (if Contains model ''gemini-3.1-pro'' \<or> Contains model ''gemini-3-1-pro'' then Some (flatPricing 2 12) else None)"

definition GetModelPricing :: "string \<Rightarrow> ModelPricing" where
  "GetModelPricing model =
     (let normalized = normalizeBillingModelName model
      in case claudeFamilyPricing normalized of
           Some p \<Rightarrow> p
         | None \<Rightarrow> (case geminiFamilyPricing normalized of
             Some p \<Rightarrow> p
           | None \<Rightarrow>
               let name = (case normalizeCodexBillingModel normalized of Some c \<Rightarrow> c | None \<Rightarrow> normalized)
               in case modelRulePricing name of Some p \<Rightarrow> p | None \<Rightarrow> defaultModelPricing))"

subsection \<open>Cost\<close>

definition normalizeServiceTier :: "string \<Rightarrow> string" where
  "normalizeServiceTier tier = ToLower (TrimSpace tier)"

definition serviceTierCostMultiplier :: "string \<Rightarrow> float64" where
  "serviceTierCostMultiplier tier =
     (let t = normalizeServiceTier tier
      in if t = ''priority'' \<or> t = ''fast'' then 2 else if t = ''flex'' then 1 / 2 else 1)"

definition usePriorityPricing :: "string \<Rightarrow> ModelPricing \<Rightarrow> bool" where
  "usePriorityPricing tier p =
     (let t = normalizeServiceTier tier
      in if t \<noteq> ''priority'' \<and> t \<noteq> ''fast'' then False
         else InputPricePriority p > 0 \<or> OutputPricePriority p > 0 \<or> CacheReadPricePriority p > 0)"

text \<open>The three prices of a request, after the long-context and the priority rules, and the
  multiplier that is left.\<close>

definition effectivePrices :: "bool \<Rightarrow> string \<Rightarrow> ModelPricing \<Rightarrow> float64 \<times> float64 \<times> float64 \<times> float64" where
  "effectivePrices isLong tier p =
     (let longApplied = isLong \<and> LongInputPrice p > 0;
          i0 = (if longApplied then LongInputPrice p else InputPrice p);
          o0 = (if longApplied then LongOutputPrice p else OutputPrice p);
          c0 = (if longApplied \<and> LongCacheReadPrice p > 0 then LongCacheReadPrice p else CacheReadPrice p)
      in if usePriorityPricing tier p then
           ((if isLong \<and> LongInputPricePriority p > 0 then LongInputPricePriority p
             else if InputPricePriority p > 0 then InputPricePriority p else i0),
            (if isLong \<and> LongOutputPricePriority p > 0 then LongOutputPricePriority p
             else if OutputPricePriority p > 0 then OutputPricePriority p else o0),
            (if isLong \<and> LongCacheReadPricePriority p > 0 then LongCacheReadPricePriority p
             else if CacheReadPricePriority p > 0 then CacheReadPricePriority p else c0), 1)
         else (i0, o0, c0, serviceTierCostMultiplier tier))"

definition CalculateCostBreakdown :: "int \<Rightarrow> int \<Rightarrow> int \<Rightarrow> string \<Rightarrow> string \<Rightarrow> CostBreakdown" where
  "CalculateCostBreakdown inputTokens outputTokens cachedTokens0 model serviceTier =
     (let pricing = GetModelPricing model;
          isLong = inputTokens > longContextThreshold;
          (inputPrice, outputPrice, cacheReadPrice, mult) = effectivePrices isLong serviceTier pricing;
          cached1 = (if cachedTokens0 < 0 then 0 else cachedTokens0);
          cachedTokens = (if cached1 > inputTokens then inputTokens else cached1);
          uncached = (if cacheReadPrice > 0 then inputTokens - cachedTokens else inputTokens);
          inputCost = real_of_int uncached / 1000000 * inputPrice;
          cacheReadCost = real_of_int cachedTokens / 1000000 * cacheReadPrice;
          outputCost = real_of_int outputTokens / 1000000 * outputPrice
      in \<lparr>cbInputCost = inputCost * mult, cbOutputCost = outputCost * mult, cbCacheReadCost = cacheReadCost * mult,
          cbTotalCost = (inputCost + cacheReadCost + outputCost) * mult, cbInputPrice = inputPrice * mult,
          cbOutputPrice = outputPrice * mult, cbCacheReadPrice = cacheReadPrice * mult, cbTierMultiplier = mult,
          cbLongContext = (isLong \<and> LongInputPrice pricing > 0), cbLongContextThreshold = longContextThreshold\<rparr>)"

definition CalculateCost :: "int \<Rightarrow> int \<Rightarrow> int \<Rightarrow> string \<Rightarrow> string \<Rightarrow> float64" where
  "CalculateCost inputTokens outputTokens cachedTokens model serviceTier =
     cbTotalCost (CalculateCostBreakdown inputTokens outputTokens cachedTokens model serviceTier)"

subsection \<open>Every model has a price\<close>

text \<open>What holds of every entry of the price tables.\<close>

definition pricing_ok :: "ModelPricing \<Rightarrow> bool" where
  "pricing_ok p \<longleftrightarrow> 0 < InputPrice p \<and> 0 < OutputPrice p \<and> 0 \<le> CacheReadPrice p \<and> CacheReadPrice p \<le> InputPrice p \<and>
     0 \<le> InputPricePriority p \<and> 0 \<le> OutputPricePriority p \<and>
     0 \<le> CacheReadPricePriority p \<and> CacheReadPricePriority p \<le> InputPricePriority p \<and>
     (InputPricePriority p = 0 \<longrightarrow> OutputPricePriority p = 0) \<and>
     0 \<le> LongInputPrice p \<and> (0 < LongInputPrice p \<longrightarrow> InputPrice p \<le> LongInputPrice p \<and> OutputPrice p \<le> LongOutputPrice p) \<and>
     0 \<le> LongCacheReadPrice p \<and> LongCacheReadPrice p \<le> LongInputPrice p \<and>
     0 \<le> LongInputPricePriority p \<and> 0 \<le> LongOutputPricePriority p \<and> 0 \<le> LongCacheReadPricePriority p \<and>
     LongCacheReadPricePriority p \<le> LongInputPricePriority p \<and>
     (0 < LongInputPricePriority p \<longrightarrow> CacheReadPricePriority p \<le> LongInputPricePriority p) \<and>
     (CacheReadPricePriority p = 0 \<longrightarrow> 0 < InputPricePriority p \<longrightarrow> CacheReadPrice p = 0 \<and> LongCacheReadPrice p = 0)"

lemma flat_ok: "0 < i \<Longrightarrow> 0 < out \<Longrightarrow> pricing_ok (flatPricing i out)"
  by (simp add: pricing_ok_def flatPricing_def)

lemma rules_ok: "rule \<in> set modelPricingRules \<Longrightarrow> pricing_ok (snd rule)"
  unfolding modelPricingRules_def list.set(2) list.set(1) insert_iff empty_iff
  by (elim disjE) (simp_all add: pricing_ok_def flatPricing_def)

lemma bestRule_cases:
  "bestRule model n best rules = best \<or> (\<exists>r \<in> set rules. bestRule model n best rules = Some r \<and> modelMatchesRule model (fst r))"
proof (induction rules arbitrary: n best)
  case (Cons x rules)
  show ?case
    using Cons [of "int (length (fst x))" "Some x"] Cons [of n best]
    by (cases "modelMatchesRule model (fst x) \<and> int (length (fst x)) > n") fastforce+
qed simp

lemma modelRulePricing_ok: "modelRulePricing model = Some p \<Longrightarrow> pricing_ok p"
  using bestRule_cases [of model "-1" None modelPricingRules] rules_ok by (auto simp: modelRulePricing_def)

lemma GetModelPricing_ok: "pricing_ok (GetModelPricing model)"
proof -
  have "pricing_ok p" if "claudeFamilyPricing m = Some p" for m p
    using that by (auto simp: claudeFamilyPricing_def flat_ok split: if_splits)
  moreover have "pricing_ok p" if "geminiFamilyPricing m = Some p" for m p
    using that by (auto simp: geminiFamilyPricing_def flat_ok split: if_splits)
  moreover have "pricing_ok defaultModelPricing" by (simp add: defaultModelPricing_def flat_ok)
  ultimately show ?thesis
    unfolding GetModelPricing_def Let_def by (auto split: option.splits dest: modelRulePricing_ok)
qed

lemma effectivePrices_ok:
  assumes "pricing_ok p" "effectivePrices isLong tier p = (i, out, c, m)"
  shows "0 < i \<and> 0 < out \<and> 0 \<le> c \<and> c \<le> i \<and> 0 < m"
proof (cases "usePriorityPricing tier p")
  case True
  then have "0 < InputPricePriority p"
    using assms(1) by (auto simp: usePriorityPricing_def pricing_ok_def Let_def split: if_splits)
  then show ?thesis
    using assms True by (auto simp: effectivePrices_def pricing_ok_def Let_def split: if_splits)
next
  case False
  then show ?thesis
    using assms by (auto simp: effectivePrices_def pricing_ok_def serviceTierCostMultiplier_def Let_def split: if_splits)
qed



text \<open>
  Supplement: reporting cached tokens never raises a bill. For a given request, the total is largest when
  no token was served from the cache, and it falls as the number of cached tokens grows.
\<close>

theorem cached_tokens_reduce_cost:
  assumes "0 \<le> inputTokens" "cachedTokens \<le> cachedTokens'"
  shows "CalculateCost inputTokens outputTokens cachedTokens' model tier
     \<le> CalculateCost inputTokens outputTokens cachedTokens model tier"
proof -
  obtain i out c m where e: "effectivePrices (inputTokens > longContextThreshold) tier (GetModelPricing model) = (i, out, c, m)"
    by (metis prod.collapse)
  have p: "0 < i" "0 \<le> c" "c \<le> i" "0 < m" using effectivePrices_ok [OF GetModelPricing_ok e] by auto
  let ?k = "\<lambda>n. if (if n < 0 then 0 else n) > inputTokens then inputTokens else (if n < 0 then 0 else n)"
  let ?x = "real_of_int (?k cachedTokens)" and ?y = "real_of_int (?k cachedTokens')"
  let ?cost = "\<lambda>k. (if c > 0 then real_of_int inputTokens - k else real_of_int inputTokens) / 1000000 * i + k / 1000000 * c"
  have le: "?x \<le> ?y" using assms by auto
  have "?cost ?y \<le> ?cost ?x"
  proof (cases "c > 0")
    case True
    have "(i - c) * ?x \<le> (i - c) * ?y" using le p(3) by (intro mult_left_mono) auto
    then show ?thesis using True by (simp add: field_simps del: of_int_le_iff)
  next
    case False
    then show ?thesis using p(2) by simp
  qed
  then have "(?cost ?y + real_of_int outputTokens / 1000000 * out) * m \<le> (?cost ?x + real_of_int outputTokens / 1000000 * out) * m"
    using p(4) by (intro mult_right_mono) auto
  then show ?thesis by (simp add: CalculateCost_def CalculateCostBreakdown_def e Let_def if_distrib [of real_of_int] cong: if_cong)
qed

theorem cached_tokens_reduce_cost_witness:
  "CalculateCost 1000 10 600 ''claude-opus-4.5'' ''flex'' \<le> CalculateCost 1000 10 0 ''claude-opus-4.5'' ''flex''"
  by (rule cached_tokens_reduce_cost) simp_all

subsection \<open>Rules and aliases\<close>

lemma bestRule_longest:
  "(bestRule model n best rules = best \<and> (\<forall>r \<in> set rules. modelMatchesRule model (fst r) \<longrightarrow> int (length (fst r)) \<le> n)) \<or>
    (\<exists>b \<in> set rules. bestRule model n best rules = Some b \<and> modelMatchesRule model (fst b) \<and> n < int (length (fst b)) \<and>
       (\<forall>r \<in> set rules. modelMatchesRule model (fst r) \<longrightarrow> length (fst r) \<le> length (fst b)))"
proof (induction rules arbitrary: n best)
  case (Cons x rules)
  show ?case
  proof (cases "modelMatchesRule model (fst x) \<and> int (length (fst x)) > n")
    case True
    from Cons.IH [of "int (length (fst x))" "Some x"]
    consider "bestRule model (int (length (fst x))) (Some x) rules = Some x"
        "\<forall>r \<in> set rules. modelMatchesRule model (fst r) \<longrightarrow> length (fst r) \<le> length (fst x)"
      | b where "b \<in> set rules" "bestRule model (int (length (fst x))) (Some x) rules = Some b" "modelMatchesRule model (fst b)"
        "length (fst x) < length (fst b)" "\<forall>r \<in> set rules. modelMatchesRule model (fst r) \<longrightarrow> length (fst r) \<le> length (fst b)"
      by auto
    then show ?thesis
    proof cases
      case 1
      then show ?thesis using True by (intro disjI2 bexI [of _ x]) auto
    next
      case (2 b)
      then show ?thesis using True by (intro disjI2 bexI [of _ b]) auto
    qed
  next
    case False
    then have x: "bestRule model n best (x # rules) = bestRule model n best rules"
      "modelMatchesRule model (fst x) \<Longrightarrow> int (length (fst x)) \<le> n" by auto
    from Cons.IH [of n best] show ?thesis
    proof (elim disjE)
      assume "\<exists>b \<in> set rules. bestRule model n best rules = Some b \<and> modelMatchesRule model (fst b) \<and> n < int (length (fst b)) \<and>
        (\<forall>r \<in> set rules. modelMatchesRule model (fst r) \<longrightarrow> length (fst r) \<le> length (fst b))"
      then obtain b where "b \<in> set rules" "bestRule model n best rules = Some b" "modelMatchesRule model (fst b)"
        "n < int (length (fst b))" "\<forall>r \<in> set rules. modelMatchesRule model (fst r) \<longrightarrow> length (fst r) \<le> length (fst b)" by blast
      then show ?thesis using x by (intro disjI2 bexI [of _ b]) auto
    qed (use x in auto)
  qed
qed simp

text \<open>
  Supplement: the price of a model is that of the longest matching rule. If a rule of the table matches the
  name, \<open>modelRulePricing\<close> returns the price of a matching rule that no matching rule exceeds in
  length; if none matches, it returns none.
\<close>

theorem longest_rule_wins:
  "case modelRulePricing model of
     None \<Rightarrow> \<not> (\<exists>r \<in> set modelPricingRules. modelMatchesRule model (fst r))
   | Some p \<Rightarrow> \<exists>b \<in> set modelPricingRules. snd b = p \<and> modelMatchesRule model (fst b) \<and>
       \<not> (\<exists>r \<in> set modelPricingRules. modelMatchesRule model (fst r) \<and> length (fst b) < length (fst r))"
  using bestRule_longest [of model "-1" None modelPricingRules]
  by (force simp: modelRulePricing_def not_less)

lemma firstAlias_mem: "firstAlias name as = Some m \<Longrightarrow> m \<in> snd ` set as"
  by (induction as) (auto split: if_splits)

lemma modelMatchesRule_prefix: "modelMatchesRule model r \<Longrightarrow> take (length r) model = r"
  by (auto simp: modelMatchesRule_def HasPrefix_def split: if_splits)

text \<open>A model that the table names is priced by its own rule.\<close>

lemma exact_rule:
  assumes "model \<in> fst ` set modelPricingRules"
  shows "\<exists>p. modelRulePricing model = Some p \<and> (model, p) \<in> set modelPricingRules"
proof -
  obtain p where p: "(model, p) \<in> set modelPricingRules" using assms by auto
  have m: "modelMatchesRule model model" by (simp add: modelMatchesRule_def)
  obtain b where b: "b \<in> set modelPricingRules" "bestRule model (- 1) None modelPricingRules = Some b"
    "modelMatchesRule model (fst b)" "length model \<le> length (fst b)"
    using bestRule_longest [of model "-1" None modelPricingRules] p m by fastforce
  have "fst b = model" using modelMatchesRule_prefix [OF b(3)] b(4) by simp
  then show ?thesis using b by (auto simp: modelRulePricing_def)
qed

lemma rule_names:
  "map fst modelPricingRules = [''gpt-5.5'', ''gpt-5.5-pro'', ''gpt-5.4-mini'', ''gpt-5.4-nano'', ''gpt-5.4'', ''gpt-5.4-pro'',
     ''gpt-5.3-codex-spark'', ''gpt-5.3-codex'', ''gpt-5.2'', ''gpt-4o-mini'', ''gpt-4o'', ''gpt-4-turbo'', ''gpt-4'', ''gpt-3.5-turbo'']"
  by (simp add: modelPricingRules_def)

lemma alias_targets: "snd ` set codexAliases \<subseteq> fst ` set modelPricingRules"
proof -
  have "list_all (\<lambda>m. m \<in> set (map fst modelPricingRules)) (map snd codexAliases)"
    unfolding rule_names by (simp add: codexAliases_def)
  then show ?thesis by (auto simp: list_all_iff)
qed

text \<open>
  Supplement: every alias of a model resolves to a rule of the price table. Whenever
  \<open>normalizeCodexBillingModel\<close> recognises a name, the model it stands for has a price of its own,
  so the default price is never used for it.
\<close>

theorem aliases_are_priced:
  assumes "normalizeCodexBillingModel model = Some m"
  shows "\<exists>p. modelRulePricing m = Some p \<and> (m, p) \<in> set modelPricingRules"
  using assms firstAlias_mem alias_targets by (intro exact_rule) (auto simp: normalizeCodexBillingModel_def)

theorem aliases_are_priced_witness:
  "\<exists>p. modelRulePricing ''gpt-5.3-codex'' = Some p \<and> (''gpt-5.3-codex'', p) \<in> set modelPricingRules"
  by (rule aliases_are_priced [of "''my codex''"]) code_simp

end
