(* ===== verification/ModelMapping.thy ===== *)
theory ModelMapping
  imports GoStrings
begin

section \<open>Mapping of requested models\<close>

text \<open>
  Models \<open>proxy/model_mapping.go\<close>, \<open>proxy/reasoning_effort_models.go\<close> and
  \<open>canonicalizeCodexModel\<close> of \<open>proxy/qoder_compat.go\<close>: the parsing of the mapping rules, the
  wildcard match, the choice of the most specific rule, and the aliases that select a reasoning
  effort. The JSON decoder of the standard library is an argument: for a mapping it gives the
  members of the object in order, with \<open>None\<close> for a value that is not a string, and nothing when
  the text is malformed; for the effort models it gives the model and effort of each element.

  The wildcard match of the source is greedy. The function \<open>glob\<close> says what a pattern means, and
  the two are shown to agree.
\<close>

definition canonicalizeCodexModel :: "string \<Rightarrow> string list \<Rightarrow> string" where
  "canonicalizeCodexModel model supportedModels =
     (let trimmed = TrimSpace model
      in if trimmed = [] then []
         else case List.find (\<lambda>supported. EqualFold trimmed supported) supportedModels of
                Some supported \<Rightarrow> supported | None \<Rightarrow> trimmed)"

subsection \<open>Rules\<close>

record modelMappingRule =
  mmFrom :: string
  mmTo :: string
  mmIndex :: int
  mmWildcard :: bool
  mmLiteralLen :: nat
  mmStarCount :: nat

definition countStars :: "string \<Rightarrow> nat" where
  "countStars s = length (filter (\<lambda>c. c = CHR ''*'') s)"

definition newModelMappingRule :: "int \<Rightarrow> string \<Rightarrow> string \<Rightarrow> modelMappingRule" where
  "newModelMappingRule index from to =
     \<lparr>mmFrom = from, mmTo = to, mmIndex = index, mmWildcard = (countStars from > 0),
      mmLiteralLen = length (filter (\<lambda>c. c \<noteq> CHR ''*'') from), mmStarCount = countStars from\<rparr>"

fun collectRules :: "int \<Rightarrow> (string \<times> string option) list \<Rightarrow> modelMappingRule list" where
  "collectRules index [] = []"
| "collectRules index ((key, value) # members) =
     (case value of
        None \<Rightarrow> collectRules index members
      | Some v \<Rightarrow>
          let from = TrimSpace key; to = TrimSpace v
          in if from = [] \<or> to = [] then collectRules index members
             else newModelMappingRule index from to # collectRules (index + 1) members)"

definition parseModelMappingRules ::
  "(string \<Rightarrow> (string \<times> string option) list option) \<Rightarrow> string \<Rightarrow> modelMappingRule list" where
  "parseModelMappingRules decodeObject mappingJSON0 =
     (let mappingJSON = TrimSpace mappingJSON0
      in if mappingJSON = [] \<or> mappingJSON = ''{}'' then []
         else case decodeObject mappingJSON of None \<Rightarrow> [] | Some members \<Rightarrow> collectRules 0 members)"

subsection \<open>The wildcard match\<close>

text \<open>The loop over the parts after the first: the position behind the last part that was
  found.\<close>

fun scanParts :: "string \<Rightarrow> nat \<Rightarrow> string list \<Rightarrow> nat option" where
  "scanParts model position [] = Some position"
| "scanParts model position (part # parts) =
     (if part = [] then scanParts model position parts
      else case Index (drop position model) part of
             None \<Rightarrow> None
           | Some idx \<Rightarrow> scanParts model (position + idx + length part) parts)"

definition wildcardModelPatternMatch :: "string \<Rightarrow> string \<Rightarrow> bool" where
  "wildcardModelPatternMatch pattern0 model0 =
     (let pattern = ToLower (TrimSpace pattern0); model = ToLower (TrimSpace model0)
      in if pattern = [] then model = []
         else if \<not> Contains pattern ''*'' then pattern = model
         else
           let parts = Split (CHR ''*'') pattern; first = hd parts
           in if first \<noteq> [] \<and> \<not> HasPrefix model first then False
              else case scanParts model (length first) (tl parts) of
                     None \<Rightarrow> False
                   | Some _ \<Rightarrow> if last parts \<noteq> [] then HasSuffix model (last parts) else True)"

subsection \<open>Choosing a rule\<close>

definition isMoreSpecificModelMapping :: "modelMappingRule \<Rightarrow> modelMappingRule \<Rightarrow> bool" where
  "isMoreSpecificModelMapping candidate current =
     (if mmLiteralLen candidate \<noteq> mmLiteralLen current then mmLiteralLen candidate > mmLiteralLen current
      else if mmStarCount candidate \<noteq> mmStarCount current then mmStarCount candidate < mmStarCount current
      else mmIndex candidate < mmIndex current)"

fun bestMapping :: "string \<Rightarrow> modelMappingRule option \<Rightarrow> modelMappingRule list \<Rightarrow> modelMappingRule option" where
  "bestMapping model best [] = best"
| "bestMapping model best (rule # rules) =
     (if \<not> mmWildcard rule \<or> \<not> wildcardModelPatternMatch (mmFrom rule) model then bestMapping model best rules
      else case best of
             None \<Rightarrow> bestMapping model (Some rule) rules
           | Some b \<Rightarrow> bestMapping model (if isMoreSpecificModelMapping rule b then Some rule else best) rules)"

definition resolveModelMapping :: "string \<Rightarrow> modelMappingRule list \<Rightarrow> string list \<Rightarrow> string \<times> bool" where
  "resolveModelMapping model0 rules supportedModels =
     (let model = TrimSpace model0
      in if model = [] then ([], False)
         else if rules = [] then (model, False)
         else case List.find (\<lambda>rule. \<not> mmWildcard rule \<and> EqualFold (mmFrom rule) model) rules of
                Some rule \<Rightarrow> (canonicalizeCodexModel (mmTo rule) supportedModels, True)
              | None \<Rightarrow> (case bestMapping model None rules of
                  Some best \<Rightarrow> (canonicalizeCodexModel (mmTo best) supportedModels, True)
                | None \<Rightarrow> (model, False)))"

definition resolveConfiguredModelMapping ::
  "(string \<Rightarrow> (string \<times> string option) list option) \<Rightarrow> string \<Rightarrow> string \<Rightarrow> string list \<Rightarrow> string \<times> bool" where
  "resolveConfiguredModelMapping decodeObject model mappingJSON =
     resolveModelMapping model (parseModelMappingRules decodeObject mappingJSON)"

definition usageEffectiveModelForMapping :: "string \<Rightarrow> string \<Rightarrow> bool \<Rightarrow> string" where
  "usageEffectiveModelForMapping originalModel0 effectiveModel0 mapped =
     (if \<not> mapped then []
      else let originalModel = TrimSpace originalModel0; effectiveModel = TrimSpace effectiveModel0
           in if originalModel = [] \<or> effectiveModel = [] \<or> EqualFold originalModel effectiveModel then []
              else effectiveModel)"

subsection \<open>Reasoning-effort aliases\<close>

record ReasoningEffortModel =
  reModel :: string
  reEffort :: string

definition normalizeConfiguredReasoningEffort :: "string \<Rightarrow> string" where
  "normalizeConfiguredReasoningEffort effort =
     (let e = ToLower (TrimSpace effort)
      in if e \<in> {''low'', ''medium'', ''high'', ''xhigh''} then e
         else if e = ''max'' then ''xhigh'' else [])"

definition ReasoningEffortModelAlias :: "string \<Rightarrow> string \<Rightarrow> string" where
  "ReasoningEffortModelAlias model0 effort0 =
     (let model = TrimSpace model0; effort = normalizeConfiguredReasoningEffort effort0
      in if model = [] \<or> effort = [] then [] else model @ ''('' @ effort @ '')'')"

text \<open>\<open>ValidateModelName\<close>: at most \<open>MaxModelLength\<close> characters of the class
  \<open>[a-zA-Z0-9._-]\<close>; the empty name is valid.\<close>

definition MaxModelLength :: nat where "MaxModelLength = 100"

definition modelNameChar :: "char \<Rightarrow> bool" where
  "modelNameChar c \<longleftrightarrow>
     (let n = (of_char c :: nat)
      in 97 \<le> n \<and> n \<le> 122 \<or> 65 \<le> n \<and> n \<le> 90 \<or> 48 \<le> n \<and> n \<le> 57) \<or> c \<in> {CHR ''.'', CHR ''_'', CHR ''-''}"

definition ValidateModelName :: "string \<Rightarrow> bool" where
  "ValidateModelName model = (if model = [] then True else length model \<le> MaxModelLength \<and> list_all modelNameChar model)"

definition normalizeReasoningEffortBaseModel :: "string \<Rightarrow> string list \<Rightarrow> string" where
  "normalizeReasoningEffortBaseModel model0 supportedModels =
     (let model = TrimSpace model0
      in if model = [] then []
         else let canonical = canonicalizeCodexModel model supportedModels
              in if \<not> ValidateModelName canonical then []
                 else if canonical \<noteq> [] then canonical else ToLower model)"

text \<open>The loop over the decoded entries; with \<open>strict\<close>, an invalid entry is an error.\<close>

fun collectEffortModels ::
  "string list \<Rightarrow> bool \<Rightarrow> string list \<Rightarrow> (string \<times> string) list \<Rightarrow> ReasoningEffortModel list option" where
  "collectEffortModels supportedModels strict seen [] = Some []"
| "collectEffortModels supportedModels strict seen ((m, e) # raw) =
     (let model = normalizeReasoningEffortBaseModel m supportedModels;
          effort = normalizeConfiguredReasoningEffort e
      in if model = [] \<or> effort = [] then
           (if strict then None else collectEffortModels supportedModels strict seen raw)
         else
           let key = ToLower (ReasoningEffortModelAlias model effort)
           in if key \<in> set seen then collectEffortModels supportedModels strict seen raw
              else map_option (Cons \<lparr>reModel = model, reEffort = effort\<rparr>)
                (collectEffortModels supportedModels strict (key # seen) raw))"

definition parseReasoningEffortModelEntries ::
  "(string \<Rightarrow> (string \<times> string) list option) \<Rightarrow> string \<Rightarrow> string list \<Rightarrow> bool \<Rightarrow> ReasoningEffortModel list option" where
  "parseReasoningEffortModelEntries decodeArray value0 supportedModels strict =
     (let value = TrimSpace value0
      in if value = [] \<or> value = ''[]'' then Some []
         else case decodeArray value of
                None \<Rightarrow> if strict then None else Some []
              | Some raw \<Rightarrow> collectEffortModels supportedModels strict [] raw)"

definition resolveReasoningEffortModelAlias ::
  "(string \<Rightarrow> (string \<times> string) list option) \<Rightarrow> string \<Rightarrow> string \<Rightarrow> string list \<Rightarrow> ReasoningEffortModel option" where
  "resolveReasoningEffortModelAlias decodeArray model0 settingsJSON supportedModels =
     (let model = TrimSpace model0
      in if model = [] then None
         else case parseReasoningEffortModelEntries decodeArray settingsJSON supportedModels False of
                None \<Rightarrow> None
              | Some entries \<Rightarrow>
                  List.find (\<lambda>entry. EqualFold model (ReasoningEffortModelAlias (reModel entry) (reEffort entry))) entries)"

text \<open>\<open>resolveConfiguredRequestModel\<close>: the alias first, then the mapping.\<close>

definition resolveConfiguredRequestModel ::
  "(string \<Rightarrow> (string \<times> string) list option) \<Rightarrow> (string \<Rightarrow> (string \<times> string option) list option) \<Rightarrow>
   string \<Rightarrow> string \<Rightarrow> string \<Rightarrow> string list \<Rightarrow> string \<times> bool" where
  "resolveConfiguredRequestModel decodeArray decodeObject effortModels mapping model0 supportedModels =
     (let model1 = TrimSpace model0
      in if model1 = [] then (model1, False)
         else
           let (model, resolved) = (case resolveReasoningEffortModelAlias decodeArray model1 effortModels supportedModels of
                 Some entry \<Rightarrow> (reModel entry, True) | None \<Rightarrow> (model1, False));
               (mapped, ok) = resolveConfiguredModelMapping decodeObject model mapping supportedModels
           in if \<not> ok \<or> mapped = [] \<or> mapped = model then (model, resolved) else (mapped, True))"

subsection \<open>What a pattern means\<close>

function glob :: "string \<Rightarrow> string \<Rightarrow> bool" where
  "glob [] s = (s = [])"
| "glob (c # p) s =
     (if c = CHR ''*'' then glob p s \<or> (case s of [] \<Rightarrow> False | _ # s' \<Rightarrow> glob (c # p) s')
      else case s of [] \<Rightarrow> False | x # s' \<Rightarrow> x = c \<and> glob p s')"
  by pat_completeness auto
termination by (relation "measure (\<lambda>(p, s). length p + length s)") auto

declare glob.simps(2) [simp del]

fun parts_match :: "string list \<Rightarrow> string \<Rightarrow> bool" where
  "parts_match [] s = False"
| "parts_match [q] s = (s = q)"
| "parts_match (q # r # qs) s = (\<exists>u v. s = q @ u @ v \<and> parts_match (r # qs) v)"

definition tail_match :: "string list \<Rightarrow> string \<Rightarrow> bool" where
  "tail_match qs r \<longleftrightarrow> (\<exists>u v. r = u @ v \<and> parts_match qs v)"

lemma glob_star: "glob (CHR ''*'' # p) s \<longleftrightarrow> (\<exists>u v. s = u @ v \<and> glob p v)"
proof (induction s)
  case Nil
  then show ?case by (simp add: glob.simps(2))
next
  case (Cons x s)
  have "(\<exists>u v. x # s = u @ v \<and> glob p v) \<longleftrightarrow> glob p (x # s) \<or> (\<exists>u v. s = u @ v \<and> glob p v)"
    by (metis append_Cons append_Nil append_eq_Cons_conv)
  then show ?case using Cons by (simp add: glob.simps(2))
qed

lemma glob_char: "c \<noteq> CHR ''*'' \<Longrightarrow> glob (c # p) s \<longleftrightarrow> (\<exists>s'. s = c # s' \<and> glob p s')"
  by (auto simp: glob.simps(2) split: list.splits)

lemma parts_match_Cons: "qs \<noteq> [] \<Longrightarrow> parts_match (q # qs) s \<longleftrightarrow> (\<exists>r. s = q @ r \<and> tail_match qs r)"
  by (cases qs) (auto simp: tail_match_def)

lemma glob_parts: "glob p s \<longleftrightarrow> parts_match (Split (CHR ''*'') p) s"
proof (induction p arbitrary: s)
  case (Cons c p)
  show ?case
  proof (cases "c = CHR ''*''")
    case True
    then show ?thesis using Cons by (simp add: glob_star parts_match_Cons tail_match_def)
  next
    case False
    obtain q qs where q: "Split (CHR ''*'') p = q # qs" by (metis Split_not_Nil list.exhaust)
    have "parts_match ((c # q) # qs) s \<longleftrightarrow> (\<exists>s'. s = c # s' \<and> parts_match (q # qs) s')"
      by (cases qs) auto
    then show ?thesis using Cons False q by (simp add: glob_char)
  qed
qed simp

subsection \<open>The greedy scan finds a match when there is one\<close>

text \<open>The scan on what is left of the model.\<close>

fun greedy :: "string list \<Rightarrow> string \<Rightarrow> string option" where
  "greedy [] r = Some r"
| "greedy (q # qs) r =
     (if q = [] then greedy qs r
      else case Index r q of None \<Rightarrow> None | Some i \<Rightarrow> greedy qs (drop (i + length q) r))"

lemma scanParts_greedy: "map_option (\<lambda>n. drop n model) (scanParts model n qs) = greedy qs (drop n model)"
proof (induction qs arbitrary: n)
  case (Cons q qs)
  then show ?case by (auto simp: add.assoc add.commute [of n] split: option.split)
qed simp

lemma greedy_last_fits: "greedy qs r \<noteq> None \<Longrightarrow> qs \<noteq> [] \<Longrightarrow> length (last qs) \<le> length r"
proof (induction qs arbitrary: r)
  case (Cons q qs)
  show ?case
  proof (cases "q = []")
    case True
    then show ?thesis using Cons by (cases qs) auto
  next
    case False
    then obtain i where i: "Index r q = Some i" "greedy qs (drop (i + length q) r) \<noteq> None"
      using Cons.prems by (auto split: option.splits)
    obtain u v where r: "r = u @ q @ v" using Index_SomeD [OF i(1)] by blast
    then show ?thesis using Cons.IH [OF i(2)] by (cases qs) auto
  qed
qed simp

lemma tail_match_extend: "tail_match qs t \<Longrightarrow> tail_match qs (x @ t)"
  unfolding tail_match_def by (metis append.assoc)

lemma tail_match_Cons: "qs \<noteq> [] \<Longrightarrow> tail_match (q # qs) r \<longleftrightarrow> (\<exists>u t. r = u @ q @ t \<and> tail_match qs t)"
  unfolding tail_match_def [of "q # qs"] by (auto simp: parts_match_Cons)

lemma tail_match_first:
  assumes "qs \<noteq> []" "Index r q = Some i"
  shows "tail_match (q # qs) r \<longleftrightarrow> tail_match qs (drop (i + length q) r)"
proof -
  obtain u0 t0 where r: "r = u0 @ q @ t0" "length u0 = i" using Index_SomeD [OF assms(2)] by blast
  have "tail_match qs t0" if "r = u @ q @ t" "tail_match qs t" for u t
  proof -
    have "length u0 \<le> length u" using Index_least [of u q t i] assms(2) that(1) r(2) by simp
    then have "length t \<le> length t0" using that(1) r(1) by (metis append.assoc length_append nat_add_left_cancel_le
          add_le_imp_le_left add.commute add_mono_thms_linordered_semiring(1) le_antisym linorder_le_cases)
    moreover have "(u0 @ q) @ t0 = (u @ q) @ t" using that(1) r(1) by simp
    ultimately obtain x where "t0 = x @ t" using append_eq_append_conv2 [of "u0 @ q" t0 "u @ q" t] by fastforce
    then show ?thesis using tail_match_extend [OF that(2)] by simp
  qed
  then have "tail_match (q # qs) r \<longleftrightarrow> tail_match qs t0"
    using r(1) unfolding tail_match_Cons [OF assms(1)] by blast
  then show ?thesis using r by simp
qed

lemma tail_match_skip: "qs \<noteq> [] \<Longrightarrow> tail_match ([] # qs) r \<longleftrightarrow> tail_match qs r"
  by (auto simp: tail_match_Cons tail_match_extend)

lemma HasSuffix_append: "length q \<le> length t \<Longrightarrow> HasSuffix (u @ t) q \<longleftrightarrow> HasSuffix t q"
  unfolding HasSuffix_def HasPrefix_def by simp

lemma greedy_complete:
  "qs \<noteq> [] \<Longrightarrow> tail_match qs r \<longleftrightarrow> greedy qs r \<noteq> None \<and> (last qs = [] \<or> HasSuffix r (last qs))"
proof (induction qs arbitrary: r)
  case (Cons q qs)
  show ?case
  proof (cases "qs = []")
    case True
    have "HasSuffix r q \<Longrightarrow> Index r q \<noteq> None" using Index_occurs [of _ q "[]"] by (auto simp: HasSuffix_iff)
    then show ?thesis using True by (auto simp: tail_match_def HasSuffix_iff split: option.split)
  next
    case ne: False
    show ?thesis
    proof (cases "q = []")
      case True
      then show ?thesis using Cons.IH [OF ne] ne by (simp add: tail_match_skip)
    next
      case q: False
      show ?thesis
      proof (cases "Index r q")
        case None
        then have "\<not> tail_match (q # qs) r" using Index_occurs [of _ q] unfolding tail_match_Cons [OF ne] by metis
        then show ?thesis using None q by simp
      next
        case (Some i)
        let ?t = "drop (i + length q) r"
        have "tail_match (q # qs) r \<longleftrightarrow> greedy qs ?t \<noteq> None \<and> (last qs = [] \<or> HasSuffix ?t (last qs))"
          using tail_match_first [OF ne Some] Cons.IH [OF ne] by simp
        moreover have "HasSuffix r (last qs) \<longleftrightarrow> HasSuffix ?t (last qs)" if "greedy qs ?t \<noteq> None"
          using HasSuffix_append [OF greedy_last_fits [OF that ne], of "take (i + length q) r"] by simp
        ultimately show ?thesis using Some q ne by auto
      qed
    qed
  qed
qed simp

lemma Contains_star: "Contains p ''*'' \<longleftrightarrow> CHR ''*'' \<in> set p"
  unfolding Contains_iff by (auto simp: in_set_conv_decomp)

lemma Split_tl_Nil: "tl (Split c p) = [] \<longleftrightarrow> c \<notin> set p"
proof (induction p)
  case (Cons x p)
  obtain q qs where "Split c p = q # qs" by (metis Split_not_Nil list.exhaust)
  then show ?case using Cons by auto
qed simp

lemma Split_single: "c \<notin> set p \<Longrightarrow> Split c p = [p]"
  by (induction p) auto

text \<open>
  C30: the wildcard match is right. For every pattern and model, the greedy scan of the source
  accepts exactly when the model, trimmed and in lower case, can be obtained from the pattern by
  putting some string, possibly empty, in the place of each star.
\<close>

theorem wildcard_match_correct:
  "wildcardModelPatternMatch pattern model \<longleftrightarrow> glob (ToLower (TrimSpace pattern)) (ToLower (TrimSpace model))"
proof -
  define p where "p = ToLower (TrimSpace pattern)"
  define m where "m = ToLower (TrimSpace model)"
  obtain q qs where q: "Split (CHR ''*'') p = q # qs" by (metis Split_not_Nil list.exhaust)
  show ?thesis
  proof (cases "CHR ''*'' \<in> set p")
    case False
    then have "wildcardModelPatternMatch pattern model \<longleftrightarrow> p = m"
      by (auto simp: wildcardModelPatternMatch_def Let_def Contains_star p_def [symmetric] m_def [symmetric])
    then show ?thesis using Split_single [OF False] by (auto simp: glob_parts p_def [symmetric] m_def [symmetric])
  next
    case True
    then have ne: "qs \<noteq> []" "p \<noteq> []" using Split_tl_Nil [of "CHR ''*''" p] q by auto
    have l: "last (q # qs) = last qs" using ne by simp
    have s: "scanParts m n qs = None \<longleftrightarrow> greedy qs (drop n m) = None" for n
      using scanParts_greedy [of m n qs] by (metis option.map_disc_iff)
    have "wildcardModelPatternMatch pattern model \<longleftrightarrow>
        (q \<noteq> [] \<longrightarrow> HasPrefix m q) \<and> greedy qs (drop (length q) m) \<noteq> None \<and> (last qs = [] \<or> HasSuffix m (last qs))"
      using True ne q s [of "length q"] l
      by (auto simp: wildcardModelPatternMatch_def Let_def Contains_star p_def [symmetric] m_def [symmetric] split: option.split)
    also have "\<dots> \<longleftrightarrow> HasPrefix m q \<and> greedy qs (drop (length q) m) \<noteq> None \<and> (last qs = [] \<or> HasSuffix m (last qs))"
      by (auto simp: HasPrefix_def)
    also have "\<dots> \<longleftrightarrow> (\<exists>r. m = q @ r \<and> tail_match qs r)"
    proof -
      have "HasSuffix (q @ r) (last qs) = HasSuffix r (last qs)" if "greedy qs r = Some y" for r y
        using HasSuffix_append [OF greedy_last_fits [of qs r]] that ne(1) by simp
      then show ?thesis unfolding HasPrefix_iff greedy_complete [OF ne(1)] by auto
    qed
    also have "\<dots> \<longleftrightarrow> glob p m" by (simp add: glob_parts q parts_match_Cons [OF ne(1)])
    finally show ?thesis by (simp add: p_def m_def)
  qed
qed

subsection \<open>The most specific rule\<close>

interpretation specific_order: go_less isMoreSpecificModelMapping
  by unfold_locales (auto simp: isMoreSpecificModelMapping_def split: if_splits)

abbreviation wildcardMatch :: "string \<Rightarrow> modelMappingRule \<Rightarrow> bool" where
  "wildcardMatch model rule \<equiv> mmWildcard rule \<and> wildcardModelPatternMatch (mmFrom rule) model"

lemma bestMapping_least:
  assumes "bestMapping model best rules = Some b"
  shows "(best = Some b \<or> b \<in> set rules \<and> wildcardMatch model b) \<and>
    (\<forall>r \<in> set rules. wildcardMatch model r \<longrightarrow> \<not> isMoreSpecificModelMapping r b) \<and>
    (\<forall>c. best = Some c \<longrightarrow> \<not> isMoreSpecificModelMapping c b)"
  using assms
proof (induction rules arbitrary: best)
  case Nil
  then show ?case using specific_order.lt_asym by (auto simp: isMoreSpecificModelMapping_def)
next
  case (Cons x rules)
  show ?case
  proof (cases "wildcardMatch model x")
    case False
    then show ?thesis using Cons.IH [of best] Cons.prems by auto
  next
    case True
    show ?thesis
    proof (cases best)
      case None
      then show ?thesis using Cons.IH [of "Some x"] Cons.prems True by auto
    next
      case (Some c)
      define d where "d = (if isMoreSpecificModelMapping x c then x else c)"
      have "bestMapping model (Some d) rules = Some b" using Cons.prems True Some by (auto simp: d_def split: if_splits)
      from Cons.IH [OF this] have ih: "d = b \<or> b \<in> set rules \<and> wildcardMatch model b"
        "\<forall>r \<in> set rules. wildcardMatch model r \<longrightarrow> \<not> isMoreSpecificModelMapping r b" "\<not> isMoreSpecificModelMapping d b" by auto
      have "\<not> isMoreSpecificModelMapping x b" "\<not> isMoreSpecificModelMapping c b"
        using ih(3) specific_order.lt_split [of x b c] specific_order.lt_split [of c b x] specific_order.lt_asym [of x c]
        by (auto simp: d_def split: if_splits)
      then show ?thesis using ih True Some by (auto simp: d_def split: if_splits)
    qed
  qed
qed

lemma bestMapping_None: "bestMapping model None rules = None \<longleftrightarrow> \<not> (\<exists>r \<in> set rules. wildcardMatch model r)"
proof -
  have "bestMapping model (Some b) rules \<noteq> None" for b rules
    by (induction rules arbitrary: b) auto
  then show ?thesis by (induction rules) auto
qed

text \<open>
  Supplement: which rule a mapping applies. For a model name and the parsed rules: a rule without stars
  that equals the name, ignoring case, decides, the first of them; otherwise the target is that of
  a matching wildcard rule such that no matching rule has more literal characters, or as many
  with fewer stars, or the same of both and an earlier place; and if no rule matches, the
  trimmed name is returned unchanged.
\<close>

theorem mapping_most_specific:
  assumes "TrimSpace model \<noteq> []"
  shows "case List.find (\<lambda>r. \<not> mmWildcard r \<and> EqualFold (mmFrom r) (TrimSpace model)) rules of
     Some r \<Rightarrow> resolveModelMapping model rules supported = (canonicalizeCodexModel (mmTo r) supported, True)
   | None \<Rightarrow>
       if \<exists>r \<in> set rules. wildcardMatch (TrimSpace model) r
       then \<exists>b \<in> set rules. wildcardMatch (TrimSpace model) b \<and>
              (\<forall>r \<in> set rules. wildcardMatch (TrimSpace model) r \<longrightarrow> \<not> isMoreSpecificModelMapping r b) \<and>
              resolveModelMapping model rules supported = (canonicalizeCodexModel (mmTo b) supported, True)
       else resolveModelMapping model rules supported = (TrimSpace model, False)"
proof (cases "List.find (\<lambda>r. \<not> mmWildcard r \<and> EqualFold (mmFrom r) (TrimSpace model)) rules")
  case None
  show ?thesis
  proof (cases "bestMapping (TrimSpace model) None rules")
    case bn: None
    then show ?thesis
      using None assms bestMapping_None [of "TrimSpace model" rules] by (auto simp: resolveModelMapping_def Let_def)
  next
    case (Some b)
    have "rules \<noteq> []" using Some by auto
    then show ?thesis
      using None Some assms bestMapping_least [OF Some] by (auto simp: resolveModelMapping_def Let_def)
  qed
next
  case (Some r)
  then have "rules \<noteq> []" by auto
  then show ?thesis using Some assms by (simp add: resolveModelMapping_def Let_def)
qed

definition demoRules :: "modelMappingRule list" where
  "demoRules = collectRules 0 [(''gpt-*'', Some ''a''), (''gpt-5*'', Some ''b''), (''skip'', None)]"

theorem mapping_most_specific_witness:
  "case List.find (\<lambda>r. \<not> mmWildcard r \<and> EqualFold (mmFrom r) (TrimSpace ''gpt-5.4'')) demoRules of
     Some r \<Rightarrow> resolveModelMapping ''gpt-5.4'' demoRules [] = (canonicalizeCodexModel (mmTo r) [], True)
   | None \<Rightarrow>
       if \<exists>r \<in> set demoRules. wildcardMatch (TrimSpace ''gpt-5.4'') r
       then \<exists>b \<in> set demoRules. wildcardMatch (TrimSpace ''gpt-5.4'') b \<and>
              (\<forall>r \<in> set demoRules. wildcardMatch (TrimSpace ''gpt-5.4'') r \<longrightarrow> \<not> isMoreSpecificModelMapping r b) \<and>
              resolveModelMapping ''gpt-5.4'' demoRules [] = (canonicalizeCodexModel (mmTo b) [], True)
       else resolveModelMapping ''gpt-5.4'' demoRules [] = (TrimSpace ''gpt-5.4'', False)"
  by (rule mapping_most_specific) code_simp

end
