(* ===== verification/ApiKeyLimits.thy ===== *)
theory ApiKeyLimits
  imports MemoryCache
begin

section \<open>Limits of an API key\<close>

text \<open>
  Models \<open>proxy/apikey_limits.go\<close> (model lists, request, cost and token windows), the query of
  \<open>database/api_key_usage.go\<close>, the types \<open>APIKeyLimits\<close> and \<open>APIKeyRow\<close> of
  \<open>database/postgres.go\<close>, and the per-key concurrency gate of
  \<open>proxy/apikey_concurrency.go\<close>.

  The database is a parameter: \<open>db window\<close> is the content of the table \<open>usage_logs\<close> that the query
  for this window sees, or \<open>None\<close> when the query fails (the connection, or the two-second timeout).
  The runtime cache of the handler is the in-process cache of theory \<open>MemoryCache\<close>, or \<open>None\<close> when
  the handler has no cache. A refusal is a value of \<open>limit_error\<close>, one constructor per message
  of the source with the values the message prints. A request reads the clock once.
\<close>

subsection \<open>Limits and rows\<close>

record APIKeyLimits =
  ModelAllow :: "string list"
  ModelDeny :: "string list"
  RPM :: int
  RPD :: int
  MaxConcurrency :: int
  CostLimit5h :: float64
  CostLimit7d :: float64
  TokenLimit5h :: int
  TokenLimit7d :: int

definition IsZero :: "APIKeyLimits \<Rightarrow> bool" where
  "IsZero l \<longleftrightarrow> ModelAllow l = [] \<and> ModelDeny l = [] \<and> RPM l = 0 \<and> RPD l = 0 \<and> MaxConcurrency l = 0 \<and>
     CostLimit5h l = 0 \<and> CostLimit7d l = 0 \<and> TokenLimit5h l = 0 \<and> TokenLimit7d l = 0"

record APIKeyRow =
  rowID :: int
  rowName :: string
  rowKey :: string
  QuotaLimit :: float64
  QuotaUsed :: float64
  rowExpiresAt :: "time option"
  AllowedGroupIDs :: "int list"
  Limits :: APIKeyLimits
  rowCreatedAt :: time

subsection \<open>The usage of a window\<close>

record APIKeyWindowUsage =
  Requests :: int
  Tokens :: int
  UserBilled :: float64

text \<open>The columns of \<open>usage_logs\<close> that the query reads.\<close>

record usage_row =
  api_key_id :: int
  created_at :: time
  status_code :: int
  total_tokens :: int
  user_billed :: float64

type_synonym usage_db = "duration \<Rightarrow> usage_row list option"

definition zeroUsage :: APIKeyWindowUsage where
  "zeroUsage = \<lparr>Requests = 0, Tokens = 0, UserBilled = 0\<rparr>"

definition inWindow :: "int \<Rightarrow> time \<Rightarrow> usage_row \<Rightarrow> bool" where
  "inWindow apiKeyID since r \<longleftrightarrow> api_key_id r = apiKeyID \<and> created_at r \<ge> since \<and> status_code r \<noteq> 499"

definition GetAPIKeyWindowUsage :: "usage_db \<Rightarrow> time \<Rightarrow> int \<Rightarrow> duration \<Rightarrow> APIKeyWindowUsage option" where
  "GetAPIKeyWindowUsage db now apiKeyID window =
     (if apiKeyID \<le> 0 \<or> window \<le> 0 then Some zeroUsage
      else case db window of
        None \<Rightarrow> None
      | Some logs \<Rightarrow>
          (let rows = filter (inWindow apiKeyID (now - window)) logs
           in Some \<lparr>Requests = int (length rows), Tokens = sum_list (map total_tokens rows),
                UserBilled = sum_list (map user_billed rows)\<rparr>))"

text \<open>The JSON of a usage, as \<open>encoding/json\<close> writes it from the field tags and reads it back: a
  field is found by its name up to letter case, a field of another type is an error, an unknown
  field is skipped.\<close>

definition marshalUsage :: "APIKeyWindowUsage \<Rightarrow> json" where
  "marshalUsage u = JObj [(''requests'', JInt (Requests u)), (''tokens'', JInt (Tokens u)),
     (''user_billed'', JFloat (UserBilled u))]"

fun setUsageField :: "string \<times> json \<Rightarrow> APIKeyWindowUsage option \<Rightarrow> APIKeyWindowUsage option" where
  "setUsageField _ None = None"
| "setUsageField (name, v) (Some u) =
     (if EqualFold name ''requests'' then (case v of JInt i \<Rightarrow> Some (u\<lparr>Requests := i\<rparr>) | _ \<Rightarrow> None)
      else if EqualFold name ''tokens'' then (case v of JInt i \<Rightarrow> Some (u\<lparr>Tokens := i\<rparr>) | _ \<Rightarrow> None)
      else if EqualFold name ''user_billed'' then
        (case v of JFloat f \<Rightarrow> Some (u\<lparr>UserBilled := f\<rparr>) | JInt i \<Rightarrow> Some (u\<lparr>UserBilled := of_int i\<rparr>) | _ \<Rightarrow> None)
      else Some u)"

fun unmarshalUsage :: "json \<Rightarrow> APIKeyWindowUsage option" where
  "unmarshalUsage (JObj kvs) = fold setUsageField kvs (Some zeroUsage)"
| "unmarshalUsage _ = None"

subsection \<open>The cached windows\<close>

definition apiKeyLimitsCacheNamespace :: string where
  "apiKeyLimitsCacheNamespace = ''api-key-limits''"

definition apiKeyLimitsCacheTTL :: duration where
  "apiKeyLimitsCacheTTL = 60 * Second"

definition apiKeyLimitsCacheKey :: "int \<Rightarrow> string \<Rightarrow> string \<Rightarrow> string" where
  "apiKeyLimitsCacheKey apiKeyID kind label = showInt apiKeyID @ '':'' @ kind @ '':'' @ label"

definition readAPIKeyLimitCache ::
  "time \<Rightarrow> string \<Rightarrow> MemoryTokenCache option \<Rightarrow> MemoryTokenCache option \<times> APIKeyWindowUsage option" where
  "readAPIKeyLimitCache now key cache =
     (case cache of
        None \<Rightarrow> (None, None)
      | Some tc \<Rightarrow>
          (case GetRuntime now apiKeyLimitsCacheNamespace key tc of
             (tc', Some (Some raw)) \<Rightarrow> (Some tc', unmarshalUsage raw)
           | (tc', _) \<Rightarrow> (Some tc', None)))"

definition writeAPIKeyLimitCache ::
  "time \<Rightarrow> string \<Rightarrow> APIKeyWindowUsage \<Rightarrow> MemoryTokenCache option \<Rightarrow> MemoryTokenCache option" where
  "writeAPIKeyLimitCache now key usage cache =
     map_option (SetRuntime now apiKeyLimitsCacheNamespace key (Some (marshalUsage usage)) apiKeyLimitsCacheTTL) cache"

text \<open>\<open>apiKeyWindowUsage\<close> and \<open>apiKeyWindowRequests\<close> differ in the kind in the cache key and in
  what they return; \<open>cachedWindow\<close> is what they share.\<close>

definition cachedWindow ::
  "usage_db \<Rightarrow> time \<Rightarrow> string \<Rightarrow> int \<Rightarrow> duration \<Rightarrow> MemoryTokenCache option
    \<Rightarrow> MemoryTokenCache option \<times> APIKeyWindowUsage option" where
  "cachedWindow db now cacheKey apiKeyID window cache =
     (case readAPIKeyLimitCache now cacheKey cache of
        (cache1, Some v) \<Rightarrow> (cache1, Some v)
      | (cache1, None) \<Rightarrow>
          (case GetAPIKeyWindowUsage db now apiKeyID window of
             None \<Rightarrow> (cache1, None)
           | Some usage \<Rightarrow> (writeAPIKeyLimitCache now cacheKey usage cache1, Some usage)))"

definition apiKeyWindowRequests ::
  "usage_db \<Rightarrow> time \<Rightarrow> int \<Rightarrow> string \<Rightarrow> duration \<Rightarrow> MemoryTokenCache option
    \<Rightarrow> MemoryTokenCache option \<times> int option" where
  "apiKeyWindowRequests db now apiKeyID label window cache =
     (let (cache', usage) = cachedWindow db now (apiKeyLimitsCacheKey apiKeyID ''req'' label) apiKeyID window cache
      in (cache', map_option Requests usage))"

definition apiKeyWindowUsage ::
  "usage_db \<Rightarrow> time \<Rightarrow> int \<Rightarrow> string \<Rightarrow> duration \<Rightarrow> MemoryTokenCache option
    \<Rightarrow> MemoryTokenCache option \<times> APIKeyWindowUsage option" where
  "apiKeyWindowUsage db now apiKeyID label window cache =
     cachedWindow db now (apiKeyLimitsCacheKey apiKeyID ''usage'' label) apiKeyID window cache"

subsection \<open>Enforcement\<close>

datatype limit_error =
    ModelNotAllowed string
  | ModelDenied string
  | RequestsPerMinute int
  | RequestsPerDay int
  | CostExceeded float64 float64 string
  | TokensExceeded int int string

definition httpStatus :: "limit_error \<Rightarrow> int" where
  "httpStatus e = (case e of ModelNotAllowed _ \<Rightarrow> 403 | ModelDenied _ \<Rightarrow> 403 | _ \<Rightarrow> 429)"

definition normModel :: "string \<Rightarrow> string" where
  "normModel m = ToLower (TrimSpace m)"

definition checkAPIKeyModel :: "string \<Rightarrow> APIKeyLimits \<Rightarrow> limit_error option" where
  "checkAPIKeyModel model limits =
     (let m = normModel model
      in if ModelAllow limits \<noteq> [] then
           (if list_ex (\<lambda>x. normModel x = m) (ModelAllow limits) then None else Some (ModelNotAllowed m))
         else if list_ex (\<lambda>x. normModel x = m) (ModelDeny limits) then Some (ModelDenied m)
         else None)"

text \<open>A check returns the state and, when the limit is hit, the error with which the handler
  returns early; \<open>andThen\<close> runs the next check only after a pass.\<close>

definition andThen :: "'s \<times> 'e option \<Rightarrow> ('s \<Rightarrow> 's \<times> 'e option) \<Rightarrow> 's \<times> 'e option" where
  "andThen r f = (case r of (s, None) \<Rightarrow> f s | (s, Some e) \<Rightarrow> (s, Some e))"

definition requestsCheck ::
  "usage_db \<Rightarrow> time \<Rightarrow> int \<Rightarrow> int \<Rightarrow> string \<Rightarrow> duration \<Rightarrow> limit_error \<Rightarrow> MemoryTokenCache option
    \<Rightarrow> MemoryTokenCache option \<times> limit_error option" where
  "requestsCheck db now apiKeyID limit label window err cache =
     (if limit > 0 then
        (case apiKeyWindowRequests db now apiKeyID label window cache of
           (cache', Some n) \<Rightarrow> (cache', if n \<ge> limit then Some err else None)
         | (cache', None) \<Rightarrow> (cache', None))
      else (cache, None))"

definition usageCheck ::
  "usage_db \<Rightarrow> time \<Rightarrow> int \<Rightarrow> float64 \<Rightarrow> int \<Rightarrow> string \<Rightarrow> duration \<Rightarrow> MemoryTokenCache option
    \<Rightarrow> MemoryTokenCache option \<times> limit_error option" where
  "usageCheck db now apiKeyID costLimit tokenLimit label window cache =
     (if costLimit > 0 \<or> tokenLimit > 0 then
        (case apiKeyWindowUsage db now apiKeyID label window cache of
           (cache', Some usage) \<Rightarrow>
             (cache',
              if costLimit > 0 \<and> UserBilled usage \<ge> costLimit then Some (CostExceeded (UserBilled usage) costLimit label)
              else if tokenLimit > 0 \<and> Tokens usage \<ge> tokenLimit then Some (TokensExceeded (Tokens usage) tokenLimit label)
              else None)
         | (cache', None) \<Rightarrow> (cache', None))
      else (cache, None))"

definition enforceAPIKeyLimits ::
  "usage_db \<Rightarrow> time \<Rightarrow> APIKeyRow option \<Rightarrow> string \<Rightarrow> MemoryTokenCache option
    \<Rightarrow> MemoryTokenCache option \<times> limit_error option" where
  "enforceAPIKeyLimits db now row model cache =
     (case row of
        None \<Rightarrow> (cache, None)
      | Some r \<Rightarrow>
          (let l = Limits r; i = rowID r
           in if IsZero l then (cache, None)
              else andThen (cache, if model \<noteq> [] then checkAPIKeyModel model l else None) (\<lambda>c.
                   andThen (requestsCheck db now i (RPM l) ''rpm'' Minute (RequestsPerMinute (RPM l)) c) (\<lambda>c.
                   andThen (requestsCheck db now i (RPD l) ''rpd'' (24 * Hour) (RequestsPerDay (RPD l)) c) (\<lambda>c.
                   andThen (usageCheck db now i (CostLimit5h l) (TokenLimit5h l) ''5h'' (5 * Hour) c) (\<lambda>c.
                   usageCheck db now i (CostLimit7d l) (TokenLimit7d l) ''7d'' (7 * 24 * Hour) c))))))"

text \<open>What \<open>enforceAPIKeyLimitsAndReply\<close> answers: nothing, or an error reply with its status, type
  and code.\<close>

record error_reply =
  replyStatus :: int
  replyType :: string
  replyCode :: string

definition enforceAPIKeyLimitsAndReply ::
  "usage_db \<Rightarrow> time \<Rightarrow> APIKeyRow option \<Rightarrow> string \<Rightarrow> MemoryTokenCache option
    \<Rightarrow> MemoryTokenCache option \<times> error_reply option" where
  "enforceAPIKeyLimitsAndReply db now row model cache =
     (let (cache', e) = enforceAPIKeyLimits db now row model cache
      in (cache', map_option (\<lambda>e.
           if httpStatus e = 403 then \<lparr>replyStatus = 403, replyType = ''permission_error'', replyCode = ''invalid_request''\<rparr>
           else \<lparr>replyStatus = httpStatus e, replyType = ''rate_limit_error'', replyCode = ''rate_limit_reached''\<rparr>) e))"

subsection \<open>The concurrency gate\<close>

text \<open>
  The counter object of a key is created on the first acquisition and never replaced, so the counter
  of a key is found under the key. The closure that an acquisition returns holds a counter and a
  flag \<open>released\<close>; \<open>tickets\<close> lists the closures handed out, and calling the \<open>n\<close>-th one is
  \<open>callRelease n\<close>.
\<close>

record ticket =
  ticketKey :: int
  released :: bool

record apiKeyConcurrencyLimiter =
  counters :: "int \<rightharpoonup> int"
  tickets :: "ticket list"

definition newAPIKeyConcurrencyLimiter :: apiKeyConcurrencyLimiter where
  "newAPIKeyConcurrencyLimiter = \<lparr>counters = Map.empty, tickets = []\<rparr>"

definition inflight :: "int \<Rightarrow> apiKeyConcurrencyLimiter \<Rightarrow> int" where
  "inflight apiKeyID l = (case counters l apiKeyID of Some n \<Rightarrow> n | None \<Rightarrow> 0)"

datatype acquire_result =
    NoLimit
  | Acquired nat int
  | Refused int

definition acquire :: "int \<Rightarrow> int \<Rightarrow> apiKeyConcurrencyLimiter \<Rightarrow> apiKeyConcurrencyLimiter \<times> acquire_result" where
  "acquire apiKeyID limit l =
     (if apiKeyID \<le> 0 \<or> limit \<le> 0 then (l, NoLimit)
      else let current = inflight apiKeyID l
           in if current \<ge> limit then (l\<lparr>counters := (counters l)(apiKeyID \<mapsto> current)\<rparr>, Refused current)
              else (l\<lparr>counters := (counters l)(apiKeyID \<mapsto> current + 1),
                      tickets := tickets l @ [\<lparr>ticketKey = apiKeyID, released = False\<rparr>]\<rparr>,
                    Acquired (length (tickets l)) (current + 1)))"

definition release :: "int \<Rightarrow> apiKeyConcurrencyLimiter \<Rightarrow> apiKeyConcurrencyLimiter" where
  "release apiKeyID l =
     (let current = inflight apiKeyID l - 1
      in l\<lparr>counters := (counters l)(apiKeyID \<mapsto> (if current < 0 then 0 else current))\<rparr>)"

definition callRelease :: "nat \<Rightarrow> apiKeyConcurrencyLimiter \<Rightarrow> apiKeyConcurrencyLimiter" where
  "callRelease n l =
     (if n < length (tickets l) \<and> \<not> released (tickets l ! n)
      then release (ticketKey (tickets l ! n)) (l\<lparr>tickets := (tickets l)[n := (tickets l ! n)\<lparr>released := True\<rparr>]\<rparr>)
      else l)"

text \<open>\<open>acquireAPIKeyConcurrency\<close>: \<open>Inl\<close> is the error reply, \<open>Inr\<close> the closure to call, if any.\<close>

definition acquireAPIKeyConcurrency ::
  "APIKeyRow option \<Rightarrow> apiKeyConcurrencyLimiter \<Rightarrow> apiKeyConcurrencyLimiter \<times> (int \<times> int + nat option)" where
  "acquireAPIKeyConcurrency row l =
     (case row of
        None \<Rightarrow> (l, Inr None)
      | Some r \<Rightarrow>
          if rowID r \<le> 0 \<or> MaxConcurrency (Limits r) \<le> 0 then (l, Inr None)
          else case acquire (rowID r) (MaxConcurrency (Limits r)) l of
            (l', Acquired n _) \<Rightarrow> (l', Inr (Some n))
          | (l', NoLimit) \<Rightarrow> (l', Inr None)
          | (l', Refused current) \<Rightarrow> (l', Inl (current, MaxConcurrency (Limits r))))"

subsection \<open>Lemmas: cache keys\<close>

lemma cacheKey_inj:
  assumes "apiKeyLimitsCacheKey i kind label = apiKeyLimitsCacheKey j kind' label'"
    and "CHR '':'' \<notin> set kind" "CHR '':'' \<notin> set kind'"
  shows "i = j \<and> kind = kind' \<and> label = label'"
proof -
  have cut: "a = b \<and> x = y" if "a @ CHR '':'' # x = b @ CHR '':'' # y" "CHR '':'' \<notin> set a" "CHR '':'' \<notin> set b"
    for a b x y :: string
  proof -
    have "takeWhile (\<lambda>c. c \<noteq> CHR '':'') (a @ CHR '':'' # x) = a"
      "takeWhile (\<lambda>c. c \<noteq> CHR '':'') (b @ CHR '':'' # y) = b"
      using that(2,3) by (auto simp: takeWhile_append takeWhile_eq_all_conv)
    then show ?thesis using that(1) by simp
  qed
  have c: "CHR '':'' \<notin> set (showInt k)" for k using showInt_chars by blast
  have "showInt i = showInt j \<and> kind @ CHR '':'' # label = kind' @ CHR '':'' # label'"
    using assms(1) c by (intro cut) (simp_all add: apiKeyLimitsCacheKey_def)
  then show ?thesis using cut [of kind label kind' label'] assms(2,3) showInt_inj by blast
qed

subsection \<open>Lemmas: windows\<close>

lemma unmarshal_marshal [simp]: "unmarshalUsage (marshalUsage u) = Some u"
proof -
  have "\<not> EqualFold ''tokens'' ''requests''" "\<not> EqualFold ''user_billed'' ''requests''"
    "\<not> EqualFold ''user_billed'' ''tokens''"
    by code_simp+
  then show ?thesis by (cases u) (simp add: marshalUsage_def zeroUsage_def)
qed

lemma cachedWindow_no_cache:
  "cachedWindow db now key i window None = (None, GetAPIKeyWindowUsage db now i window)"
  by (simp add: cachedWindow_def readAPIKeyLimitCache_def writeAPIKeyLimitCache_def split: option.splits)

lemma andThen_None: "snd (andThen r f) = None \<longleftrightarrow> snd r = None \<and> snd (f (fst r)) = None"
  by (auto simp: andThen_def split: prod.splits option.splits)

lemma andThen_fst: "snd r = None \<Longrightarrow> fst (andThen r f) = fst (f (fst r))"
  by (auto simp: andThen_def split: prod.splits)

definition satisfies :: "'a option \<Rightarrow> ('a \<Rightarrow> bool) \<Rightarrow> bool" where
  "satisfies u P = (case u of None \<Rightarrow> True | Some x \<Rightarrow> P x)"

lemma requestsCheck_no_cache:
  "fst (requestsCheck db now i limit label window err None) = None"
  "snd (requestsCheck db now i limit label window err None) = None \<longleftrightarrow>
     limit \<le> 0 \<or> satisfies (GetAPIKeyWindowUsage db now i window) (\<lambda>u. Requests u < limit)"
  by (auto simp: requestsCheck_def apiKeyWindowRequests_def cachedWindow_no_cache satisfies_def Let_def
      split: option.splits)

lemma usageCheck_no_cache:
  "fst (usageCheck db now i cost toks label window None) = None"
  "snd (usageCheck db now i cost toks label window None) = None \<longleftrightarrow>
     (cost \<le> 0 \<or> satisfies (GetAPIKeyWindowUsage db now i window) (\<lambda>u. UserBilled u < cost)) \<and>
     (toks \<le> 0 \<or> satisfies (GetAPIKeyWindowUsage db now i window) (\<lambda>u. Tokens u < toks))"
  by (auto simp: usageCheck_def apiKeyWindowUsage_def cachedWindow_no_cache satisfies_def split: option.splits)

definition modelAdmitted :: "string \<Rightarrow> APIKeyLimits \<Rightarrow> bool" where
  "modelAdmitted model l \<longleftrightarrow>
     (if ModelAllow l = [] then normModel model \<notin> normModel ` set (ModelDeny l)
      else normModel model \<in> normModel ` set (ModelAllow l))"

lemma checkAPIKeyModel_None: "checkAPIKeyModel model l = None \<longleftrightarrow> modelAdmitted model l"
proof -
  have "list_ex (\<lambda>x. normModel x = normModel model) xs \<longleftrightarrow> normModel model \<in> normModel ` set xs" for xs
    by (auto simp: list_ex_iff image_iff) metis
  then show ?thesis by (simp add: checkAPIKeyModel_def modelAdmitted_def Let_def)
qed

lemma IsZero_admits:
  "IsZero l \<Longrightarrow> modelAdmitted m l \<and> RPM l \<le> 0 \<and> RPD l \<le> 0 \<and> CostLimit5h l \<le> 0 \<and> TokenLimit5h l \<le> 0 \<and>
     CostLimit7d l \<le> 0 \<and> TokenLimit7d l \<le> 0"
  by (simp add: IsZero_def modelAdmitted_def)

subsection \<open>Properties of the limits\<close>

text \<open>
  C33: what the limits of a key decide, when nothing is cached. A request passes exactly when its
  model is admitted (an allow list decides alone, the deny list counts only without one, compared
  without case and blanks; a request without a model is not checked), and every configured limit is
  above the usage of its window; a window whose query fails lets the request pass.
\<close>

theorem limits_decide:
  "snd (enforceAPIKeyLimits db now (Some r) model None) = None \<longleftrightarrow>
     (model = [] \<or> modelAdmitted model (Limits r)) \<and>
     (RPM (Limits r) \<le> 0 \<or>
       satisfies (GetAPIKeyWindowUsage db now (rowID r) Minute) (\<lambda>u. Requests u < RPM (Limits r))) \<and>
     (RPD (Limits r) \<le> 0 \<or>
       satisfies (GetAPIKeyWindowUsage db now (rowID r) (24 * Hour)) (\<lambda>u. Requests u < RPD (Limits r))) \<and>
     (CostLimit5h (Limits r) \<le> 0 \<or>
       satisfies (GetAPIKeyWindowUsage db now (rowID r) (5 * Hour)) (\<lambda>u. UserBilled u < CostLimit5h (Limits r))) \<and>
     (TokenLimit5h (Limits r) \<le> 0 \<or>
       satisfies (GetAPIKeyWindowUsage db now (rowID r) (5 * Hour)) (\<lambda>u. Tokens u < TokenLimit5h (Limits r))) \<and>
     (CostLimit7d (Limits r) \<le> 0 \<or>
       satisfies (GetAPIKeyWindowUsage db now (rowID r) (7 * 24 * Hour)) (\<lambda>u. UserBilled u < CostLimit7d (Limits r))) \<and>
     (TokenLimit7d (Limits r) \<le> 0 \<or>
       satisfies (GetAPIKeyWindowUsage db now (rowID r) (7 * 24 * Hour)) (\<lambda>u. Tokens u < TokenLimit7d (Limits r)))"
proof (cases "IsZero (Limits r)")
  case True
  then show ?thesis using IsZero_admits [OF True] by (simp add: enforceAPIKeyLimits_def)
next
  case False
  then show ?thesis
    by (simp add: enforceAPIKeyLimits_def Let_def andThen_None requestsCheck_no_cache usageCheck_no_cache
        checkAPIKeyModel_None)
qed

lemma trimmed_key:
  assumes "label \<noteq> []" "\<not> is_space (last label)"
  shows "TrimSpace (apiKeyLimitsCacheKey i kind label) = apiKeyLimitsCacheKey i kind label"
proof -
  have first: "showInt i = c # cs \<Longrightarrow> \<not> is_space c" for c cs
    using showInt_chars [of c i] by simp
  obtain c cs where c: "showInt i = c # cs"
    by (cases "showInt i") (auto simp: showInt_def showNat_not_Nil split: if_splits)
  obtain xs x where l: "label = xs @ [x]" using assms(1) by (cases label rule: rev_cases) auto
  have "dropWhile is_space (apiKeyLimitsCacheKey i kind label) = apiKeyLimitsCacheKey i kind label"
    by (simp add: apiKeyLimitsCacheKey_def c first [OF c])
  moreover have "dropWhile is_space (rev (apiKeyLimitsCacheKey i kind label)) = rev (apiKeyLimitsCacheKey i kind label)"
    using assms(2) by (simp add: apiKeyLimitsCacheKey_def l)
  ultimately show ?thesis by (simp add: TrimSpace_def)
qed

lemma limit_map_key:
  assumes "label \<noteq> []" "\<not> is_space (last label)"
  shows "runtimeMapKey apiKeyLimitsCacheNamespace (apiKeyLimitsCacheKey i kind label)
    = apiKeyLimitsCacheNamespace @ [CHR 0x00] @ apiKeyLimitsCacheKey i kind label"
proof -
  have "TrimSpace apiKeyLimitsCacheNamespace = apiKeyLimitsCacheNamespace" "apiKeyLimitsCacheNamespace \<noteq> []"
    by code_simp+
  then show ?thesis
    using trimmed_key [OF assms, of i kind] by (simp add: runtimeMapKey_def Let_def apiKeyLimitsCacheKey_def)
qed

abbreviation windowLabels :: "string set" where
  "windowLabels \<equiv> {''rpm'', ''rpd'', ''5h'', ''7d''}"

abbreviation windowKinds :: "string set" where
  "windowKinds \<equiv> {''req'', ''usage''}"

lemma windowLabel_ok: "label \<in> windowLabels \<Longrightarrow> label \<noteq> [] \<and> \<not> is_space (last label)"
  by (auto simp: is_space_def)

text \<open>
  Supplement: the cached windows do not mix. A window that was cached for one key is served for a minute to
  the same key, kind and window; every other lookup is as if nothing had been cached.
\<close>

theorem cached_windows_isolated:
  assumes "0 < now" "label \<in> windowLabels" "label' \<in> windowLabels" "kind \<in> windowKinds" "kind' \<in> windowKinds"
  shows "snd (readAPIKeyLimitCache t (apiKeyLimitsCacheKey j kind' label')
      (writeAPIKeyLimitCache now (apiKeyLimitsCacheKey i kind label) u (Some tc)))
    = (if (j, kind', label') = (i, kind, label)
       then (if t \<le> now + 60 * Second then Some u else None)
       else snd (readAPIKeyLimitCache t (apiKeyLimitsCacheKey j kind' label') (Some tc)))"
proof -
  let ?k = "(apiKeyLimitsCacheNamespace, apiKeyLimitsCacheKey i kind label)"
  let ?k' = "(apiKeyLimitsCacheNamespace, apiKeyLimitsCacheKey j kind' label')"
  have m: "runtimeMapKey (fst ?k) (snd ?k) = apiKeyLimitsCacheNamespace @ [CHR 0x00] @ snd ?k"
    "runtimeMapKey (fst ?k') (snd ?k') = apiKeyLimitsCacheNamespace @ [CHR 0x00] @ snd ?k'"
    using limit_map_key windowLabel_ok [OF assms(2)] windowLabel_ok [OF assms(3)] by simp_all
  have "CHR '':'' \<notin> set kind" "CHR '':'' \<notin> set kind'" using assms(4,5) by auto
  then have inj: "apiKeyLimitsCacheKey j kind' label' = apiKeyLimitsCacheKey i kind label \<longleftrightarrow>
      (j, kind', label') = (i, kind, label)"
    using cacheKey_inj [of j kind' label' i kind label] by blast
  have same: "runtimeMapKey (fst ?k') (snd ?k') = runtimeMapKey (fst ?k) (snd ?k) \<longleftrightarrow> (j, kind', label') = (i, kind, label)"
    unfolding m using inj by simp
  have v: "runtimeMapKey (fst ?k) (snd ?k) \<noteq> []" unfolding m by simp
  have ttl: "0 < apiKeyLimitsCacheTTL" by (simp add: apiKeyLimitsCacheTTL_def go_defs)
  have g: "snd (GetRuntime t (fst ?k') (snd ?k')
        (SetRuntime now (fst ?k) (snd ?k) (Some (marshalUsage u)) apiKeyLimitsCacheTTL tc)) =
      (if (j, kind', label') = (i, kind, label)
       then (if t \<le> now + apiKeyLimitsCacheTTL then Some (Some (marshalUsage u)) else None)
       else snd (GetRuntime t (fst ?k') (snd ?k') tc))"
    using runtime_store.get_set [OF assms(1) ttl, of ?k "Some (marshalUsage u)" t ?k' tc] v
    unfolding split_beta same by simp
  have r: "snd (readAPIKeyLimitCache t key (Some tc')) =
      (case snd (GetRuntime t apiKeyLimitsCacheNamespace key tc') of Some (Some raw) \<Rightarrow> unmarshalUsage raw | _ \<Rightarrow> None)"
    for key tc'
    by (auto simp: readAPIKeyLimitCache_def split: prod.splits option.splits)
  show ?thesis
    using g unfolding fst_conv snd_conv by (simp add: writeAPIKeyLimitCache_def r apiKeyLimitsCacheTTL_def)
qed

theorem cached_windows_isolated_witness:
  "snd (readAPIKeyLimitCache 60000000000 (apiKeyLimitsCacheKey 12 ''req'' ''rpm'')
      (writeAPIKeyLimitCache 5 (apiKeyLimitsCacheKey 12 ''req'' ''rpm'') \<lparr>Requests = 3, Tokens = 9, UserBilled = 0\<rparr>
        (Some (NewMemory 1)))) = Some \<lparr>Requests = 3, Tokens = 9, UserBilled = 0\<rparr>"
  using cached_windows_isolated [of 5 "''rpm''" "''rpm''" "''req''" "''req''" 60000000000 12 12
      "\<lparr>Requests = 3, Tokens = 9, UserBilled = 0\<rparr>" "NewMemory 1"]
  by (simp add: Second_def)

text \<open>A run of requests of one key against the limits: each with its instant, its model and what the
  database would answer.\<close>

fun enforceRun ::
  "APIKeyRow \<Rightarrow> (time \<times> string \<times> usage_db) list \<Rightarrow> MemoryTokenCache option
    \<Rightarrow> MemoryTokenCache option \<times> limit_error option list" where
  "enforceRun row [] cache = (cache, [])"
| "enforceRun row ((now, model, db) # rs) cache =
     (let (cache1, e) = enforceAPIKeyLimits db now (Some row) model cache;
          (cache2, es) = enforceRun row rs cache1
      in (cache2, e # es))"

definition rpmOnly :: "int \<Rightarrow> APIKeyLimits \<Rightarrow> bool" where
  "rpmOnly r l \<longleftrightarrow> l = \<lparr>ModelAllow = [], ModelDeny = [], RPM = r, RPD = 0, MaxConcurrency = 0, CostLimit5h = 0,
     CostLimit7d = 0, TokenLimit5h = 0, TokenLimit7d = 0\<rparr>"

lemma rpmOnly_enforce:
  assumes "rpmOnly r (Limits row)" "0 < r"
  shows "enforceAPIKeyLimits db now (Some row) model cache =
    requestsCheck db now (rowID row) r ''rpm'' Minute (RequestsPerMinute r) cache"
proof -
  obtain c e where "requestsCheck db now (rowID row) r ''rpm'' Minute (RequestsPerMinute r) cache = (c, e)" by force
  then show ?thesis
    using assms by (cases e) (simp_all add: rpmOnly_def enforceAPIKeyLimits_def IsZero_def andThen_def
        checkAPIKeyModel_def usageCheck_def requestsCheck_def [of _ _ _ 0])
qed

lemma GetRuntime_hit: "snd (GetRuntime now ns key tc) = Some v \<Longrightarrow> fst (GetRuntime now ns key tc) = tc"
  by (auto simp: GetRuntime_def Let_def split: option.splits if_splits)

lemma cache_hit:
  assumes "snd (readAPIKeyLimitCache now key (Some tc)) = Some u"
  shows "cachedWindow db now key i window (Some tc) = (Some tc, Some u)"
proof -
  obtain raw where g: "snd (GetRuntime now apiKeyLimitsCacheNamespace key tc) = Some (Some raw)" "unmarshalUsage raw = Some u"
    using assms by (auto simp: readAPIKeyLimitCache_def split: prod.splits option.splits)
  then have "GetRuntime now apiKeyLimitsCacheNamespace key tc = (tc, Some (Some raw))"
    using GetRuntime_hit [OF g(1)] by (metis prod.collapse)
  then show ?thesis using g(2) by (simp add: cachedWindow_def readAPIKeyLimitCache_def)
qed

lemma rpm_window_written:
  assumes "0 < now" "t \<le> now + 60 * Second"
  shows "snd (readAPIKeyLimitCache t (apiKeyLimitsCacheKey i ''req'' ''rpm'')
    (writeAPIKeyLimitCache now (apiKeyLimitsCacheKey i ''req'' ''rpm'') u (Some tc))) = Some u"
proof -
  have k: "runtimeMapKey apiKeyLimitsCacheNamespace (apiKeyLimitsCacheKey i ''req'' ''rpm'') \<noteq> []"
    using limit_map_key [of "''rpm''" i "''req''"] by (simp add: is_space_def)
  have "0 < apiKeyLimitsCacheTTL" by (simp add: apiKeyLimitsCacheTTL_def go_defs)
  then have "snd (GetRuntime t apiKeyLimitsCacheNamespace (apiKeyLimitsCacheKey i ''req'' ''rpm'')
      (SetRuntime now apiKeyLimitsCacheNamespace (apiKeyLimitsCacheKey i ''req'' ''rpm'') (Some (marshalUsage u))
        apiKeyLimitsCacheTTL tc)) = Some (Some (marshalUsage u))"
    using runtime_store.get_set [OF assms(1), of apiKeyLimitsCacheTTL
        "(apiKeyLimitsCacheNamespace, apiKeyLimitsCacheKey i ''req'' ''rpm'')" "Some (marshalUsage u)" t
        "(apiKeyLimitsCacheNamespace, apiKeyLimitsCacheKey i ''req'' ''rpm'')" tc] k assms(2)
    by (simp add: apiKeyLimitsCacheTTL_def)
  then show ?thesis
    by (auto simp: writeAPIKeyLimitCache_def readAPIKeyLimitCache_def split: prod.splits)
qed

lemma rpm_hits_pass:
  assumes "rpmOnly r (Limits row)" "Requests u < r" "0 < r"
    and "\<And>t. t \<le> limit \<Longrightarrow> snd (readAPIKeyLimitCache t (apiKeyLimitsCacheKey (rowID row) ''req'' ''rpm'') (Some tc)) = Some u"
    and "\<forall>(t, _) \<in> set rs. t \<le> limit"
  shows "enforceRun row rs (Some tc) = (Some tc, replicate (length rs) None)"
  using assms(5)
proof (induction rs)
  case (Cons req rs)
  obtain t m db where req: "req = (t, m, db)" by (cases req)
  have "enforceAPIKeyLimits db t (Some row) m (Some tc) = (Some tc, None)"
    using assms(2,3) Cons.prems cache_hit [OF assms(4)]
    by (simp add: rpmOnly_enforce [OF assms(1,3)] requestsCheck_def apiKeyWindowRequests_def req)
  then show ?case using Cons req by simp
qed simp

text \<open>
  Supplement: within a minute of a count the request rate is not limited. When a key may send \<open>r\<close> requests
  per minute, no cached window, and the database counts fewer than \<open>r\<close> requests, then this
  request and every further request of the next sixty seconds pass, however many there are and
  whatever the database would answer for them: the count of the first request is served from the
  cache and no request increments it.
\<close>

theorem rpm_not_enforced_while_cached:
  assumes "rpmOnly r (Limits row)" "0 < r" "0 < now"
    and "snd (readAPIKeyLimitCache now (apiKeyLimitsCacheKey (rowID row) ''req'' ''rpm'') (Some tc)) = None"
    and "GetAPIKeyWindowUsage db now (rowID row) Minute = Some u" "Requests u < r"
    and "\<forall>(t, _) \<in> set rs. t \<le> now + 60 * Second"
  shows "snd (enforceRun row ((now, model, db) # rs) (Some tc)) = replicate (Suc (length rs)) None"
proof -
  let ?key = "apiKeyLimitsCacheKey (rowID row) ''req'' ''rpm''"
  obtain tc1 where r: "readAPIKeyLimitCache now ?key (Some tc) = (Some tc1, None)"
    using assms(4) by (auto simp: readAPIKeyLimitCache_def split: prod.splits option.splits)
  obtain tc2 where w: "writeAPIKeyLimitCache now ?key u (Some tc1) = Some tc2"
    by (simp add: writeAPIKeyLimitCache_def)
  have "enforceAPIKeyLimits db now (Some row) model (Some tc) = (Some tc2, None)"
    using assms(2,5,6) r w
    by (simp add: rpmOnly_enforce [OF assms(1,2)] requestsCheck_def apiKeyWindowRequests_def cachedWindow_def)
  moreover have "enforceRun row rs (Some tc2) = (Some tc2, replicate (length rs) None)"
  proof (rule rpm_hits_pass [OF assms(1,6,2) _ assms(7)])
    show "snd (readAPIKeyLimitCache t ?key (Some tc2)) = Some u" if "t \<le> now + 60 * Second" for t
      using rpm_window_written [OF assms(3) that, of "rowID row" u tc1] w by simp
  qed
  ultimately show ?thesis by simp
qed

definition demoRow :: APIKeyRow where
  "demoRow = \<lparr>rowID = 7, rowName = ''k'', rowKey = ''sk'', QuotaLimit = 0, QuotaUsed = 0, rowExpiresAt = None,
     AllowedGroupIDs = [], Limits = \<lparr>ModelAllow = [], ModelDeny = [], RPM = 1, RPD = 0, MaxConcurrency = 0,
     CostLimit5h = 0, CostLimit7d = 0, TokenLimit5h = 0, TokenLimit7d = 0\<rparr>, rowCreatedAt = 1\<rparr>"

theorem rpm_not_enforced_while_cached_witness:
  "snd (enforceRun demoRow [(5, ''m'', \<lambda>_. Some []), (6, ''m'', \<lambda>_. Some [\<lparr>api_key_id = 7, created_at = 5,
      status_code = 200, total_tokens = 3, user_billed = 0\<rparr>]), (7, ''m'', \<lambda>_. None)] (Some (NewMemory 1)))
   = [None, None, None]"
proof -
  have "snd (readAPIKeyLimitCache 5 k (Some (NewMemory 1))) = None" for k
    by (auto simp: readAPIKeyLimitCache_def GetRuntime_def NewMemory_def Let_def)
  then have "snd (enforceRun demoRow ((5, ''m'', \<lambda>_. Some []) # [(6, ''m'', \<lambda>_. Some [\<lparr>api_key_id = 7, created_at = 5,
      status_code = 200, total_tokens = 3, user_billed = 0\<rparr>]), (7, ''m'', \<lambda>_. None)]) (Some (NewMemory 1)))
    = replicate (Suc (length [(6, ''m'', \<lambda>_. Some [\<lparr>api_key_id = 7, created_at = 5,
      status_code = 200, total_tokens = 3, user_billed = 0\<rparr>]), (7::int, ''m'', \<lambda>_::int. None)])) None"
    by (intro rpm_not_enforced_while_cached [where r = 1 and u = "\<lparr>Requests = 0, Tokens = 0, UserBilled = 0\<rparr>"])
      (simp_all add: rpmOnly_def demoRow_def GetAPIKeyWindowUsage_def go_defs)
  then show ?thesis by (simp add: eval_nat_numeral)
qed

subsection \<open>Properties of the concurrency gate\<close>

definition openTickets :: "int \<Rightarrow> ticket list \<Rightarrow> nat" where
  "openTickets apiKeyID ts = length (filter (\<lambda>t. ticketKey t = apiKeyID \<and> \<not> released t) ts)"

definition gate_ok :: "(int \<Rightarrow> int) \<Rightarrow> apiKeyConcurrencyLimiter \<Rightarrow> bool" where
  "gate_ok maxLim l \<longleftrightarrow> (\<forall>i. inflight i l = int (openTickets i (tickets l)) \<and> inflight i l \<le> max 0 (maxLim i))"

text \<open>A step of the gate: a request of some key arrives with a limit not above \<open>maxLim\<close> (the limit of a
  key may be changed while it is in use), or some closure is called, possibly again.\<close>

inductive gate_step :: "(int \<Rightarrow> int) \<Rightarrow> apiKeyConcurrencyLimiter \<Rightarrow> apiKeyConcurrencyLimiter \<Rightarrow> bool" for maxLim where
  enter: "limit \<le> maxLim i \<Longrightarrow> gate_step maxLim l (fst (acquire i limit l))"
| leave: "gate_step maxLim l (callRelease n l)"

lemma inflight_upd: "counters l' = (counters l)(j \<mapsto> x) \<Longrightarrow> inflight i l' = (if i = j then x else inflight i l)"
  by (simp add: inflight_def)

lemma inflight_same: "counters l' = counters l \<Longrightarrow> inflight i l' = inflight i l"
  by (simp add: inflight_def)

lemma gate_okI:
  "(\<And>i. inflight i l = int (openTickets i (tickets l))) \<Longrightarrow> (\<And>i. inflight i l \<le> max 0 (maxLim i)) \<Longrightarrow> gate_ok maxLim l"
  by (simp add: gate_ok_def)

lemma gate_okD: "gate_ok maxLim l \<Longrightarrow> inflight i l = int (openTickets i (tickets l)) \<and> int (openTickets i (tickets l)) \<le> max 0 (maxLim i)"
  unfolding gate_ok_def by metis

lemma openTickets_close:
  assumes "n < length ts" "\<not> released (ts ! n)"
  shows "openTickets i (ts[n := (ts ! n)\<lparr>released := True\<rparr>]) + (if ticketKey (ts ! n) = i then 1 else 0) = openTickets i ts"
  using assms
proof (induction ts arbitrary: n)
  case (Cons t ts)
  have cons: "openTickets i (x # xs) = (if ticketKey x = i \<and> \<not> released x then 1 else 0) + openTickets i xs" for x xs
    by (simp add: openTickets_def)
  show ?case
  proof (cases n)
    case 0
    then show ?thesis using Cons.prems by (simp add: cons)
  next
    case (Suc m)
    then show ?thesis using Cons.IH [of m] Cons.prems by (simp add: cons)
  qed
qed simp

lemma acquire_cases:
  obtains "fst (acquire i limit l) = l"
  | "counters (fst (acquire i limit l)) = (counters l)(i \<mapsto> inflight i l)" "tickets (fst (acquire i limit l)) = tickets l"
  | "counters (fst (acquire i limit l)) = (counters l)(i \<mapsto> inflight i l + 1)" "inflight i l < limit"
    "tickets (fst (acquire i limit l)) = tickets l @ [\<lparr>ticketKey = i, released = False\<rparr>]"
proof (cases "i \<le> 0 \<or> limit \<le> 0")
  case True
  then show ?thesis using that(1) by (simp add: acquire_def)
next
  case False
  then show ?thesis using that(2,3) by (cases "inflight i l \<ge> limit") (simp_all add: acquire_def Let_def)
qed

lemma gate_ok_acquire:
  assumes "gate_ok maxLim l" "limit \<le> maxLim i"
  shows "gate_ok maxLim (fst (acquire i limit l))"
proof (cases rule: acquire_cases [of i limit l])
  case 1
  then show ?thesis using assms(1) by simp
next
  case 2
  have "inflight j (fst (acquire i limit l)) = inflight j l" for j
    using inflight_upd [OF 2(1), of j] by simp
  then show ?thesis using gate_okD [OF assms(1)] 2(2) by (intro gate_okI) simp_all
next
  case 3
  have n: "inflight j (fst (acquire i limit l)) = (if j = i then inflight i l + 1 else inflight j l)" for j
    by (rule inflight_upd [OF 3(1)])
  have o: "openTickets j (tickets (fst (acquire i limit l))) = openTickets j (tickets l) + (if j = i then 1 else 0)" for j
    by (simp add: 3(3) openTickets_def)
  show ?thesis
    using gate_okD [OF assms(1)] 3(2) assms(2) by (intro gate_okI) (auto simp: n o)
qed

lemma gate_ok_release:
  assumes "gate_ok maxLim l"
  shows "gate_ok maxLim (callRelease n l)"
proof (cases "n < length (tickets l) \<and> \<not> released (tickets l ! n)")
  case True
  let ?k = "ticketKey (tickets l ! n)" and ?ts = "(tickets l)[n := (tickets l ! n)\<lparr>released := True\<rparr>]"
  have close: "openTickets i ?ts + (if ?k = i then 1 else 0) = openTickets i (tickets l)" for i
    using True by (intro openTickets_close) simp_all
  have "0 < inflight ?k l"
    using gate_okD [OF assms, of ?k] close [of ?k] by simp
  then have c: "counters (callRelease n l) = (counters l)(?k \<mapsto> inflight ?k l - 1)" "tickets (callRelease n l) = ?ts"
    using True inflight_same [of "l\<lparr>tickets := ?ts\<rparr>" l ?k] by (simp_all add: callRelease_def release_def Let_def)
  have "inflight i (callRelease n l) = inflight i l - (if ?k = i then 1 else 0)" for i
    using inflight_upd [OF c(1), of i] by simp
  moreover have "int (openTickets i ?ts) = int (openTickets i (tickets l)) - (if ?k = i then 1 else 0)" for i
    using close [of i] by (simp split: if_splits)
  moreover have "inflight i l - (if ?k = i then 1 else 0) \<le> max 0 (maxLim i)" for i
    using gate_okD [OF assms, of i] by auto
  ultimately show ?thesis
    using gate_okD [OF assms] c(2) by (intro gate_okI) simp_all
next
  case False
  then show ?thesis using assms by (auto simp: callRelease_def)
qed

interpretation key_gate_machine: invariant_machine "gate_step maxLim" "gate_ok maxLim" for maxLim
  by unfold_locales (auto elim!: gate_step.cases simp: gate_ok_acquire gate_ok_release)

text \<open>The counter of one key is a gate with slots.\<close>

definition enterKey :: "int \<Rightarrow> int \<Rightarrow> apiKeyConcurrencyLimiter \<Rightarrow> apiKeyConcurrencyLimiter option" where
  "enterKey i limit l = (case acquire i limit l of (l', Acquired _ _) \<Rightarrow> Some l' | _ \<Rightarrow> None)"

interpretation key_gate: slot_gate "inflight (int (Suc n))" "enterKey (int (Suc n))" "release (int (Suc n))" for n
  by unfold_locales
    (auto simp: enterKey_def acquire_def release_def Let_def inflight_def split: if_splits option.splits)

text \<open>
  C25: the concurrency gate counts exactly the requests in flight. Whatever requests enter and
  whatever closures are called, repeatedly or not, the counter of every key is the number of its
  closures not yet called, and never above the largest limit in force for it. In particular a
  closure that is called twice gives back one slot only.
\<close>

theorem concurrency_gate_exact:
  assumes "(gate_step maxLim)\<^sup>*\<^sup>* newAPIKeyConcurrencyLimiter l"
  shows "inflight i l = int (openTickets i (tickets l)) \<and> inflight i l \<le> max 0 (maxLim i)"
proof -
  have "gate_ok maxLim newAPIKeyConcurrencyLimiter"
    by (simp add: gate_ok_def newAPIKeyConcurrencyLimiter_def inflight_def openTickets_def)
  then have "gate_ok maxLim l" by (rule key_gate_machine.reachable_inv [OF assms])
  then show ?thesis unfolding gate_ok_def by blast
qed

theorem concurrency_gate_exact_witness:
  "inflight 3 (callRelease 0 (callRelease 0 (fst (acquire 3 2 (fst (acquire 3 2 newAPIKeyConcurrencyLimiter))))))
   = int (openTickets 3 (tickets (callRelease 0 (callRelease 0
       (fst (acquire 3 2 (fst (acquire 3 2 newAPIKeyConcurrencyLimiter))))))))"
proof -
  have e: "gate_step (\<lambda>_. 2) l (fst (acquire 3 2 l))" for l by (rule gate_step.enter) simp
  have "(gate_step (\<lambda>_. 2))\<^sup>*\<^sup>* newAPIKeyConcurrencyLimiter (fst (acquire 3 2 newAPIKeyConcurrencyLimiter))"
    by (rule r_into_rtranclp) (rule e)
  from this e have "(gate_step (\<lambda>_. 2))\<^sup>*\<^sup>* newAPIKeyConcurrencyLimiter
      (fst (acquire 3 2 (fst (acquire 3 2 newAPIKeyConcurrencyLimiter))))" (is "(_\<^sup>*\<^sup>*) _ ?l")
    by (rule rtranclp.rtrancl_into_rtrancl)
  from this gate_step.leave have "(gate_step (\<lambda>_. 2))\<^sup>*\<^sup>* newAPIKeyConcurrencyLimiter (callRelease 0 ?l)"
    by (rule rtranclp.rtrancl_into_rtrancl)
  from this gate_step.leave have "(gate_step (\<lambda>_. 2))\<^sup>*\<^sup>* newAPIKeyConcurrencyLimiter (callRelease 0 (callRelease 0 ?l))"
    by (rule rtranclp.rtrancl_into_rtrancl)
  then show ?thesis by (rule concurrency_gate_exact [THEN conjunct1])
qed

end
