(* ===== verification/Validation.thy ===== *)
theory Validation
  imports Gjson "HOL-Library.Multiset"
begin

section \<open>API errors and the validation of requests\<close>

text \<open>
  Models \<open>api/errors.go\<close> and \<open>api/validation.go\<close>. A rule is a function of the value at a path; the rules of a
  request are a table from paths to lists of rules. Go visits the table in an arbitrary order, so the
  table is an association list and the claims are about every order of it.

  The argument \<open>g\<close> is the JSON reader of theory \<open>Gjson\<close>. The numeric bounds of the rules are integers, as
  in the tables, so that their text in a message is their decimal notation; \<open>matches\<close> and \<open>validJSON\<close> stand for a
  compiled regular expression and for the acceptance by \<open>json.Unmarshal\<close>. The reading of the body and
  the writing of the reply in the middleware are its argument and its result.
\<close>

subsection \<open>Errors\<close>

type_synonym ErrorCode = string

datatype ErrorDetail = ErrorDetail (dtField: string) (dtValue: string) (dtMessage: string)

record ValidationError =
  veField :: string
  veMessage :: string
  veCode :: string

text \<open>The dynamic types that the code stores in \<open>Details\<close>.\<close>

datatype errorDetails = NoDetails | FieldDetail ErrorDetail | OneValidation ValidationError | ManyValidations "ValidationError list"

record APIError =
  apiCode :: ErrorCode
  apiMessage :: string
  apiType :: string
  apiDetails :: errorDetails

definition NewAPIError :: "ErrorCode \<Rightarrow> string \<Rightarrow> string \<Rightarrow> APIError" where
  "NewAPIError code message errType = \<lparr>apiCode = code, apiMessage = message, apiType = errType, apiDetails = NoDetails\<rparr>"

definition NewAPIErrorWithDetails :: "ErrorCode \<Rightarrow> string \<Rightarrow> string \<Rightarrow> errorDetails \<Rightarrow> APIError" where
  "NewAPIErrorWithDetails code message errType details =
     \<lparr>apiCode = code, apiMessage = message, apiType = errType, apiDetails = details\<rparr>"

definition APIErrorText :: "APIError \<Rightarrow> string" where
  "APIErrorText e = ''['' @ apiType e @ ''] '' @ apiCode e @ '': '' @ apiMessage e"

definition apiErrMissingAPIKey :: APIError where
  "apiErrMissingAPIKey = NewAPIError ''missing_api_key'' ''Missing Authorization header'' ''authentication_error''"

definition apiErrInvalidAPIKey :: APIError where
  "apiErrInvalidAPIKey = NewAPIError ''invalid_api_key'' ''Invalid API key provided'' ''authentication_error''"

definition HTTPStatusCode :: "ErrorCode \<Rightarrow> int" where
  "HTTPStatusCode code =
     (if code \<in> {''missing_api_key'', ''invalid_api_key'', ''invalid_auth'', ''insufficient_scope''} then 401
      else if code = ''rate_limit_reached'' then 429
      else if code = ''resource_not_found'' then 404
      else if code = ''resource_conflict'' then 409
      else if code \<in> {''invalid_request'', ''invalid_parameter'', ''missing_field'', ''invalid_field_type'',
                       ''invalid_field_format'', ''context_length_exceeded'', ''unsupported_model''} then 400
      else if code = ''service_unavailable'' then 503
      else 500)"

text \<open>What \<open>SendError\<close> writes: the status and the error.\<close>

definition SendError :: "APIError \<Rightarrow> int \<times> APIError" where
  "SendError err = (HTTPStatusCode (apiCode err), err)"

definition SendValidationError :: "string \<Rightarrow> string \<Rightarrow> int \<times> APIError" where
  "SendValidationError field message =
     SendError (NewAPIErrorWithDetails ''invalid_parameter'' ''Request validation failed'' ''invalid_request_error''
       (FieldDetail (ErrorDetail field [] message)))"

definition quoted :: "string \<Rightarrow> string" where
  "quoted s = CHR 0x27 # s @ [CHR 0x27]"

definition SendMissingFieldError :: "string \<Rightarrow> int \<times> APIError" where
  "SendMissingFieldError field =
     SendError (NewAPIErrorWithDetails ''missing_field'' ''Required field is missing'' ''invalid_request_error''
       (FieldDetail (ErrorDetail field [] (''Field '' @ quoted field @ '' is required''))))"

definition ErrorCodeToLegacy :: "ErrorCode \<Rightarrow> string" where
  "ErrorCodeToLegacy code =
     (if code = ''missing_api_key'' then ''missing_api_key''
      else if code = ''invalid_api_key'' then ''invalid_api_key''
      else if code = ''invalid_request'' then ''invalid_request_error''
      else if code = ''server_error'' then ''server_error''
      else if code = ''upstream_error'' then ''upstream_error''
      else code)"

definition LegacyErrorToAPIError :: "string \<Rightarrow> string \<Rightarrow> string \<Rightarrow> APIError" where
  "LegacyErrorToAPIError message errType code = NewAPIError code message errType"

subsection \<open>Rules\<close>

type_synonym 'r ValidationRule = "'r gjson \<Rightarrow> 'r \<Rightarrow> string \<Rightarrow> ValidationError option"

text \<open>The error of a rule: the message is the quoted path with a text behind it.\<close>

definition fieldError :: "string \<Rightarrow> string \<Rightarrow> string \<Rightarrow> ValidationError option" where
  "fieldError path txt code = Some \<lparr>veField = path, veMessage = ''Field '' @ quoted path @ txt, veCode = code\<rparr>"

definition Required :: "'r ValidationRule" where
  "Required g v path =
     (if \<not> gjExists g v then fieldError path '' is required'' ''required''
      else if gjType g v = GNull then fieldError path '' cannot be null'' ''null_not_allowed''
      else if gjType g v = GString \<and> TrimSpace (gjString g v) = [] then fieldError path '' cannot be empty'' ''empty_not_allowed''
      else None)"

definition TypeString :: "'r ValidationRule" where
  "TypeString g v path =
     (if \<not> gjExists g v then None
      else if gjType g v \<noteq> GString then fieldError path '' must be a string'' ''type_error''
      else None)"

definition TypeNumber :: "'r ValidationRule" where
  "TypeNumber g v path =
     (if \<not> gjExists g v then None
      else if gjType g v \<noteq> GNumber then fieldError path '' must be a number'' ''type_error''
      else None)"

definition TypeBoolean :: "'r ValidationRule" where
  "TypeBoolean g v path =
     (if \<not> gjExists g v then None
      else if gjType g v \<noteq> GTrue \<and> gjType g v \<noteq> GFalse then fieldError path '' must be a boolean'' ''type_error''
      else None)"

definition TypeArray :: "'r ValidationRule" where
  "TypeArray g v path =
     (if \<not> gjExists g v then None
      else if gjType g v \<noteq> GJSON \<or> \<not> gjIsArray g v then fieldError path '' must be an array'' ''type_error''
      else None)"

definition TypeObject :: "'r ValidationRule" where
  "TypeObject g v path =
     (if \<not> gjExists g v then None
      else if gjType g v \<noteq> GJSON \<or> gjIsArray g v then fieldError path '' must be an object'' ''type_error''
      else None)"

definition TypeStringOrObject :: "'r ValidationRule" where
  "TypeStringOrObject g v path =
     (if \<not> gjExists g v then None
      else if gjType g v = GString then None
      else if gjType g v = GJSON \<and> \<not> gjIsArray g v then None
      else fieldError path '' must be a string or object'' ''type_error'')"

definition MinLength :: "int \<Rightarrow> 'r ValidationRule" where
  "MinLength n g v path =
     (if \<not> gjExists g v \<or> gjType g v \<noteq> GString then None
      else if int (length (gjString g v)) < n then fieldError path ('' must be at least '' @ showInt n @ '' characters'') ''min_length''
      else None)"

definition MaxLength :: "int \<Rightarrow> 'r ValidationRule" where
  "MaxLength n g v path =
     (if \<not> gjExists g v \<or> gjType g v \<noteq> GString then None
      else if int (length (gjString g v)) > n then fieldError path ('' must be at most '' @ showInt n @ '' characters'') ''max_length''
      else None)"

definition MinValue :: "int \<Rightarrow> 'r ValidationRule" where
  "MinValue n g v path =
     (if \<not> gjExists g v \<or> gjType g v \<noteq> GNumber then None
      else if gjFloat g v < of_int n then fieldError path ('' must be at least '' @ showInt n) ''min_value''
      else None)"

definition MaxValue :: "int \<Rightarrow> 'r ValidationRule" where
  "MaxValue n g v path =
     (if \<not> gjExists g v \<or> gjType g v \<noteq> GNumber then None
      else if gjFloat g v > of_int n then fieldError path ('' must be at most '' @ showInt n) ''max_value''
      else None)"

definition Range :: "int \<Rightarrow> int \<Rightarrow> 'r ValidationRule" where
  "Range lo hi g v path =
     (if \<not> gjExists g v \<or> gjType g v \<noteq> GNumber then None
      else let x = gjFloat g v
           in if x < of_int lo \<or> x > of_int hi
              then fieldError path ('' must be between '' @ showInt lo @ '' and '' @ showInt hi) ''out_of_range''
              else None)"

fun Join :: "string list \<Rightarrow> string \<Rightarrow> string" where
  "Join [] sep = []"
| "Join [s] sep = s"
| "Join (s # t # ss) sep = s @ sep @ Join (t # ss) sep"

definition Enum :: "string list \<Rightarrow> 'r ValidationRule" where
  "Enum values g v path =
     (if \<not> gjExists g v then None
      else if gjString g v \<notin> set values then fieldError path ('' must be one of: '' @ Join values '', '') ''invalid_enum_value''
      else None)"

definition Pattern :: "(string \<Rightarrow> bool) \<Rightarrow> string \<Rightarrow> 'r ValidationRule" where
  "Pattern matches description g v path =
     (if \<not> gjExists g v \<or> gjType g v \<noteq> GString then None
      else if \<not> matches (gjString g v) then fieldError path ('' '' @ description) ''pattern_mismatch''
      else None)"

text \<open>The number of elements of an array.\<close>

definition itemCount :: "'r gjson \<Rightarrow> 'r \<Rightarrow> int" where
  "itemCount g v = gjInt g (gjGet g v ''#'')"

definition MinItems :: "int \<Rightarrow> 'r ValidationRule" where
  "MinItems n g v path =
     (if \<not> gjExists g v \<or> \<not> gjIsArray g v then None
      else if itemCount g v < n then fieldError path ('' must have at least '' @ showInt n @ '' items'') ''min_items''
      else None)"

definition MaxItems :: "int \<Rightarrow> 'r ValidationRule" where
  "MaxItems n g v path =
     (if \<not> gjExists g v \<or> \<not> gjIsArray g v then None
      else if itemCount g v > n then fieldError path ('' must have at most '' @ showInt n @ '' items'') ''max_items''
      else None)"

definition ModelValidator :: "string list \<Rightarrow> 'r ValidationRule" where
  "ModelValidator supportedModels g v path =
     (if \<not> gjExists g v \<or> gjType g v \<noteq> GString then None
      else let model = gjString g v
           in if model \<notin> set supportedModels
              then Some \<lparr>veField = path, veMessage = ''Model '' @ quoted model @ '' is not supported'', veCode = ''unsupported_model''\<rparr>
              else None)"

definition ValidateModel :: "'r gjson \<Rightarrow> string \<Rightarrow> string list \<Rightarrow> string \<Rightarrow> ValidationError option" where
  "ValidateModel g body supportedModels path =
     (let v = GetBytes g body path
      in if \<not> gjExists g v \<or> gjType g v \<noteq> GString then None
         else let model = gjString g v
              in if model \<notin> set supportedModels
                 then Some \<lparr>veField = path, veMessage = ''Model '' @ quoted model @ '' is not supported'', veCode = ''unsupported_model''\<rparr>
                 else None)"

definition ValidateJSONField :: "(string \<Rightarrow> bool) \<Rightarrow> 'r ValidationRule" where
  "ValidateJSONField validJSON g v path =
     (if \<not> gjExists g v \<or> gjType g v \<noteq> GString then None
      else if \<not> validJSON (gjString g v) then fieldError path '' must be valid JSON'' ''invalid_json''
      else None)"

subsection \<open>The structured fields\<close>

text \<open>A loop over the indices of an array that returns at the first error.\<close>

fun firstError :: "(nat \<Rightarrow> ValidationError option) \<Rightarrow> nat list \<Rightarrow> ValidationError option" where
  "firstError f [] = None"
| "firstError f (i # is) = (case f i of Some e \<Rightarrow> Some e | None \<Rightarrow> firstError f is)"

definition validRoles :: "string set" where
  "validRoles = {''system'', ''developer'', ''user'', ''assistant'', ''tool''}"

definition itemField :: "'r gjson \<Rightarrow> 'r \<Rightarrow> nat \<Rightarrow> string \<Rightarrow> 'r" where
  "itemField g v i field = gjGet g v (showNat i @ ''.'' @ field)"

definition validateMessage :: "'r gjson \<Rightarrow> 'r \<Rightarrow> string \<Rightarrow> nat \<Rightarrow> ValidationError option" where
  "validateMessage g v path i =
     (let msgPath = path @ ''.'' @ showNat i;
          role = gjString g (itemField g v i ''role'')
      in if role = []
         then Some \<lparr>veField = msgPath @ ''.role'',
                    veMessage = ''Message at index '' @ showNat i @ '' is missing '' @ quoted ''role'' @ '' field'',
                    veCode = ''missing_message_role''\<rparr>
         else if role \<notin> validRoles
         then Some \<lparr>veField = msgPath @ ''.role'', veMessage = ''Invalid role '' @ quoted role @ '' at message index '' @ showNat i,
                    veCode = ''invalid_message_role''\<rparr>
         else let content = itemField g v i ''content''; toolCalls = itemField g v i ''tool_calls''
              in if \<not> gjExists g content \<and> role \<noteq> ''tool'' \<and> \<not> (role = ''assistant'' \<and> gjExists g toolCalls)
                 then Some \<lparr>veField = msgPath @ ''.content'',
                            veMessage = ''Message at index '' @ showNat i @ '' is missing '' @ quoted ''content'' @ '' field'',
                            veCode = ''missing_message_content''\<rparr>
                 else None)"

definition ValidateMessages :: "'r ValidationRule" where
  "ValidateMessages g v path =
     (if \<not> gjExists g v \<or> \<not> gjIsArray g v then None
      else firstError (validateMessage g v path) [0..<nat (itemCount g v)])"

definition validInputTypes :: "string set" where
  "validInputTypes =
     {''message'', ''reasoning'', ''function_call'', ''function_call_output'', ''tool_call'', ''local_shell_call'',
      ''local_shell_call_output'', ''tool_search_call'', ''tool_search_output'', ''custom_tool_call'', ''custom_tool_call_output'',
      ''mcp_tool_call'', ''mcp_tool_call_output'', ''item_reference'', ''image_generation_call'', ''web_search_call'', ''compaction'',
      ''compaction_trigger'', ''context_compaction'', ''input_text'', ''input_image'', ''output_text'', ''refusal'', ''input_file'',
      ''computer_screenshot'', ''summary_text'', ''file'', ''image''}"

definition validateInputItem :: "'r gjson \<Rightarrow> 'r \<Rightarrow> string \<Rightarrow> nat \<Rightarrow> ValidationError option" where
  "validateInputItem g v path i =
     (let itemType = gjString g (itemField g v i ''type'')
      in if itemType = [] then None
         else if itemType \<notin> validInputTypes
         then Some \<lparr>veField = path @ ''.'' @ showNat i @ ''.type'',
                    veMessage = ''Invalid input type '' @ quoted itemType @ '' at index '' @ showNat i, veCode = ''invalid_input_type''\<rparr>
         else None)"

definition ValidateInput :: "'r ValidationRule" where
  "ValidateInput g v path =
     (if \<not> gjExists g v \<or> \<not> gjIsArray g v then None
      else if itemCount g v = 0 then Some \<lparr>veField = path, veMessage = ''Input array cannot be empty'', veCode = ''empty_input''\<rparr>
      else firstError (validateInputItem g v path) [0..<nat (itemCount g v)])"

subsection \<open>Tables of rules\<close>

type_synonym 'r ruleTable = "(string \<times> 'r ValidationRule list) list"

record Validator =
  vBody :: string
  vErrors :: "ValidationError list"

record ValidationResult =
  vrValid :: bool
  vrErrors :: "ValidationError list"

definition NewValidator :: "string \<Rightarrow> Validator" where
  "NewValidator body = \<lparr>vBody = body, vErrors = []\<rparr>"

definition applyRules :: "'r gjson \<Rightarrow> string \<Rightarrow> string \<Rightarrow> 'r ValidationRule list \<Rightarrow> ValidationError list" where
  "applyRules g body path ruleList = List.map_filter (\<lambda>rule. rule g (GetBytes g body path) path) ruleList"

definition ValidateRequest :: "'r gjson \<Rightarrow> 'r ruleTable \<Rightarrow> Validator \<Rightarrow> Validator \<times> ValidationResult" where
  "ValidateRequest g rules v =
     (let errs = fold (\<lambda>(path, ruleList) errs. errs @ applyRules g (vBody v) path ruleList) rules (vErrors v)
      in (v\<lparr>vErrors := errs\<rparr>, \<lparr>vrValid = (errs = []), vrErrors = errs\<rparr>))"

definition HasErrors :: "Validator \<Rightarrow> bool" where
  "HasErrors v \<longleftrightarrow> vErrors v \<noteq> []"

definition ToAPIError :: "Validator \<Rightarrow> APIError option" where
  "ToAPIError v =
     (case vErrors v of
        [] \<Rightarrow> None
      | [e] \<Rightarrow> Some (NewAPIErrorWithDetails ''invalid_parameter'' (veMessage e) ''invalid_request_error'' (OneValidation e))
      | es \<Rightarrow> Some (NewAPIErrorWithDetails ''invalid_request'' ''Multiple validation errors occurred'' ''invalid_request_error''
                  (ManyValidations es)))"

definition ChatCompletionValidationRules :: "'r ruleTable" where
  "ChatCompletionValidationRules =
     [(''model'', [Required, TypeString, MaxLength 64]),
      (''messages'', [Required, TypeArray, MinItems 1, MaxItems 4096, ValidateMessages]),
      (''max_tokens'', [TypeNumber, MinValue 1, MaxValue 65536]),
      (''temperature'', [TypeNumber, Range 0 2]),
      (''top_p'', [TypeNumber, Range 0 1]),
      (''n'', [TypeNumber, MinValue 1, MaxValue 1]),
      (''stream'', [TypeBoolean]),
      (''presence_penalty'', [TypeNumber, Range (- 2) 2]),
      (''frequency_penalty'', [TypeNumber, Range (- 2) 2]),
      (''user'', [TypeString, MaxLength 256]),
      (''reasoning_effort'', [TypeString, MaxLength 64]),
      (''service_tier'', [TypeString, MaxLength 64]),
      (''tools'', [TypeArray])]"

definition ResponsesMaxOutputTokensForModel :: "string \<Rightarrow> int" where
  "ResponsesMaxOutputTokensForModel m = 128000"

definition ResponsesAPIValidationRulesForModel :: "string \<Rightarrow> 'r ruleTable" where
  "ResponsesAPIValidationRulesForModel m =
     [(''model'', [Required, TypeString, MaxLength 64]),
      (''max_output_tokens'', [TypeNumber, MinValue 1, MaxValue (ResponsesMaxOutputTokensForModel m)]),
      (''temperature'', [TypeNumber, Range 0 2]),
      (''top_p'', [TypeNumber, Range 0 1]),
      (''stream'', [TypeBoolean]),
      (''stop'', [TypeString, MaxLength 256]),
      (''user'', [TypeString, MaxLength 256]),
      (''reasoning.effort'', [TypeString, MaxLength 64]),
      (''service_tier'', [TypeString, MaxLength 64]),
      (''store'', [TypeBoolean]),
      (''truncation'', [TypeString, Enum [''auto'', ''disabled'']]),
      (''tools'', [TypeArray]),
      (''tool_choice'', [TypeStringOrObject, MaxLength 64]),
      (''input'', [ValidateInput])]"

definition ResponsesAPIValidationRules :: "'r ruleTable" where
  "ResponsesAPIValidationRules = ResponsesAPIValidationRulesForModel []"

text \<open>\<open>rules[path] = append(rules[path], rule)\<close> where the path is in the table.\<close>

definition appendRule :: "string \<Rightarrow> 'r ValidationRule \<Rightarrow> 'r ruleTable \<Rightarrow> 'r ruleTable" where
  "appendRule path rule rules = map (\<lambda>(p, rs). if p = path then (p, rs @ [rule]) else (p, rs)) rules"

text \<open>\<open>visit\<close> is the order in which the table is visited.\<close>

definition ValidateChatCompletionsRequest ::
  "'r gjson \<Rightarrow> ('r ruleTable \<Rightarrow> 'r ruleTable) \<Rightarrow> string \<Rightarrow> string list \<Rightarrow> ValidationResult" where
  "ValidateChatCompletionsRequest g visit body supportedModels =
     snd (ValidateRequest g (visit (appendRule ''model'' (ModelValidator supportedModels) ChatCompletionValidationRules)) (NewValidator body))"

definition ValidateResponsesAPIRequest ::
  "'r gjson \<Rightarrow> ('r ruleTable \<Rightarrow> 'r ruleTable) \<Rightarrow> string \<Rightarrow> string list \<Rightarrow> ValidationResult" where
  "ValidateResponsesAPIRequest g visit body supportedModels =
     snd (ValidateRequest g (visit (appendRule ''model'' (ModelValidator supportedModels)
       (ResponsesAPIValidationRulesForModel (strAt g body ''model'')))) (NewValidator body))"

text \<open>The middleware: \<open>Inl\<close> is the error reply, \<open>Inr\<close> the body with which the chain goes on, if it was read.\<close>

definition ValidationMiddleware :: "'r gjson \<Rightarrow> 'r ruleTable \<Rightarrow> string \<Rightarrow> string option \<Rightarrow> int \<times> APIError + string option" where
  "ValidationMiddleware g rules httpMethod rawData =
     (if httpMethod \<notin> {''POST'', ''PUT'', ''PATCH''} then Inr None
      else case rawData of
        None \<Rightarrow> Inl (SendError (NewAPIError ''invalid_request'' ''Failed to read request body'' ''invalid_request_error''))
      | Some body \<Rightarrow>
          (case ValidateRequest g rules (NewValidator body) of
             (v, r) \<Rightarrow> if vrValid r then Inr (Some body)
                       else Inl (SendError (the (ToAPIError v)))))"

subsection \<open>When a request passes\<close>

lemma fold_append: "fold (\<lambda>(path, ruleList) errs. errs @ f path ruleList) rules es = es @ concat (map (\<lambda>(path, ruleList). f path ruleList) rules)"
  by (induction rules arbitrary: es) auto

lemma validate_errors:
  "vrErrors (snd (ValidateRequest g rules (NewValidator body))) = concat (map (\<lambda>(path, ruleList). applyRules g body path ruleList) rules)"
  by (simp add: ValidateRequest_def NewValidator_def fold_append Let_def)

lemma validate_valid:
  "vrValid (snd (ValidateRequest g rules (NewValidator body))) \<longleftrightarrow>
   (\<forall>(path, ruleList) \<in> set rules. \<forall>rule \<in> set ruleList. rule g (GetBytes g body path) path = None)"
  by (auto simp: ValidateRequest_def NewValidator_def fold_append Let_def applyRules_def List.map_filter_def filter_empty_conv)

lemma firstError_None: "firstError f is = None \<longleftrightarrow> (\<forall>i \<in> set is. f i = None)"
  by (induction "is") (auto split: option.split)

definition messageOk :: "'r gjson \<Rightarrow> 'r \<Rightarrow> nat \<Rightarrow> bool" where
  "messageOk g v i \<longleftrightarrow>
     (let role = gjString g (itemField g v i ''role'')
      in role \<in> validRoles \<and>
         (gjExists g (itemField g v i ''content'') \<or> role = ''tool'' \<or> role = ''assistant'' \<and> gjExists g (itemField g v i ''tool_calls'')))"

lemma validateMessage_None: "validateMessage g v path i = None \<longleftrightarrow> messageOk g v i"
  by (auto simp: validateMessage_def messageOk_def Let_def validRoles_def)

text \<open>What a field that may be missing has to be: a number of an interval, a string of bounded length.\<close>

definition numberIn :: "int \<Rightarrow> int \<Rightarrow> 'r gjson \<Rightarrow> string \<Rightarrow> string \<Rightarrow> bool" where
  "numberIn lo hi g body path \<longleftrightarrow>
     (let v = GetBytes g body path in gjExists g v \<longrightarrow> gjType g v = GNumber \<and> of_int lo \<le> gjFloat g v \<and> gjFloat g v \<le> of_int hi)"

definition stringUpTo :: "int \<Rightarrow> 'r gjson \<Rightarrow> string \<Rightarrow> string \<Rightarrow> bool" where
  "stringUpTo n g body path \<longleftrightarrow>
     (let v = GetBytes g body path in gjExists g v \<longrightarrow> gjType g v = GString \<and> int (length (gjString g v)) \<le> n)"

definition chatRequestOk :: "'r gjson \<Rightarrow> string \<Rightarrow> string list \<Rightarrow> bool" where
  "chatRequestOk g body models \<longleftrightarrow>
     (let m = GetBytes g body ''model''
      in gjExists g m \<and> gjType g m = GString \<and> TrimSpace (gjString g m) \<noteq> [] \<and> length (gjString g m) \<le> 64 \<and> gjString g m \<in> set models) \<and>
     (let v = GetBytes g body ''messages''
      in gjIsArray g v \<and> gjArray g v \<noteq> [] \<and> length (gjArray g v) \<le> 4096 \<and> (\<forall>i < length (gjArray g v). messageOk g v i)) \<and>
     numberIn 1 65536 g body ''max_tokens'' \<and> numberIn 0 2 g body ''temperature'' \<and> numberIn 0 1 g body ''top_p'' \<and>
     numberIn 1 1 g body ''n'' \<and> numberIn (- 2) 2 g body ''presence_penalty'' \<and> numberIn (- 2) 2 g body ''frequency_penalty'' \<and>
     stringUpTo 256 g body ''user'' \<and> stringUpTo 64 g body ''reasoning_effort'' \<and> stringUpTo 64 g body ''service_tier'' \<and>
     (let v = GetBytes g body ''stream'' in gjExists g v \<longrightarrow> gjType g v \<in> {GTrue, GFalse}) \<and>
     (let v = GetBytes g body ''tools'' in gjExists g v \<longrightarrow> gjIsArray g v)"

lemma number_rules:
  "(\<forall>rule \<in> set [TypeNumber, Range lo hi]. rule g (GetBytes g body path) path = None) \<longleftrightarrow> numberIn lo hi g body path"
  "(\<forall>rule \<in> set [TypeNumber, MinValue lo, MaxValue hi]. rule g (GetBytes g body path) path = None) \<longleftrightarrow> numberIn lo hi g body path"
  by (auto simp: numberIn_def TypeNumber_def Range_def MinValue_def MaxValue_def fieldError_def Let_def)

lemma string_rules:
  "(\<forall>rule \<in> set [TypeString, MaxLength n]. rule g (GetBytes g body path) path = None) \<longleftrightarrow> stringUpTo n g body path"
  by (auto simp: stringUpTo_def TypeString_def MaxLength_def fieldError_def Let_def)

lemma boolean_rules:
  "(\<forall>rule \<in> set [TypeBoolean]. rule g v path = None) \<longleftrightarrow> (gjExists g v \<longrightarrow> gjType g v \<in> {GTrue, GFalse})"
  by (auto simp: TypeBoolean_def fieldError_def)

lemma model_rules:
  "(\<forall>rule \<in> set ([Required, TypeString, MaxLength 64] @ [ModelValidator models]). rule g m path = None) \<longleftrightarrow>
   gjExists g m \<and> gjType g m = GString \<and> TrimSpace (gjString g m) \<noteq> [] \<and> length (gjString g m) \<le> 64 \<and> gjString g m \<in> set models"
  by (auto simp: Required_def TypeString_def MaxLength_def ModelValidator_def fieldError_def Let_def)

lemma array_rules:
  assumes "gjson_reads g"
  shows "(\<forall>rule \<in> set [TypeArray]. rule g v path = None) \<longleftrightarrow> (gjExists g v \<longrightarrow> gjIsArray g v)"
  using assms by (auto simp: TypeArray_def fieldError_def gjson_reads_def)

lemma message_rules:
  assumes "gjson_reads g"
  shows "(\<forall>rule \<in> set [Required, TypeArray, MinItems 1, MaxItems 4096, ValidateMessages]. rule g v path = None) \<longleftrightarrow>
    gjIsArray g v \<and> gjArray g v \<noteq> [] \<and> length (gjArray g v) \<le> 4096 \<and> (\<forall>i < length (gjArray g v). messageOk g v i)"
proof (cases "gjIsArray g v")
  case True
  then have v: "gjExists g v" "gjType g v = GJSON" "itemCount g v = int (length (gjArray g v))"
    using assms by (simp_all add: gjson_reads_def itemCount_def)
  have "1 \<le> int (length (gjArray g v)) \<longleftrightarrow> gjArray g v \<noteq> []" by (cases "gjArray g v") simp_all
  then show ?thesis using True v
    by (auto simp: Required_def TypeArray_def MinItems_def MaxItems_def ValidateMessages_def fieldError_def firstError_None validateMessage_None
        split: if_splits)
next
  case False
  then show ?thesis by (auto simp: Required_def TypeArray_def fieldError_def split: if_splits)
qed

lemma rule_table:
  "(\<forall>(path, rs) \<in> set (appendRule ''model'' (ModelValidator models) ChatCompletionValidationRules). P path rs) \<longleftrightarrow>
   P ''model'' ([Required, TypeString, MaxLength 64] @ [ModelValidator models]) \<and>
   P ''messages'' [Required, TypeArray, MinItems 1, MaxItems 4096, ValidateMessages] \<and>
   P ''max_tokens'' [TypeNumber, MinValue 1, MaxValue 65536] \<and> P ''temperature'' [TypeNumber, Range 0 2] \<and>
   P ''top_p'' [TypeNumber, Range 0 1] \<and> P ''n'' [TypeNumber, MinValue 1, MaxValue 1] \<and>
   P ''presence_penalty'' [TypeNumber, Range (- 2) 2] \<and> P ''frequency_penalty'' [TypeNumber, Range (- 2) 2] \<and>
   P ''user'' [TypeString, MaxLength 256] \<and> P ''reasoning_effort'' [TypeString, MaxLength 64] \<and>
   P ''service_tier'' [TypeString, MaxLength 64] \<and> P ''stream'' [TypeBoolean] \<and> P ''tools'' [TypeArray]"
  by (simp add: appendRule_def ChatCompletionValidationRules_def) blast

text \<open>
  C20: The rules of a chat request decide what they are meant to decide, in whatever order the table is visited: a request passes exactly
  when its model is a supported name of 1 to 64 bytes that is not blank, its messages are 1 to 4096 with a known role and a content each
  (tool messages and assistant messages with tool calls may omit it), and every other field that is present has its type and range.\<close>
theorem chat_validation_decides:
  assumes "gjson_reads g" "\<And>t. mset (visit t) = mset t"
  shows "vrValid (ValidateChatCompletionsRequest g visit body models) \<longleftrightarrow> chatRequestOk g body models"
proof -
  let ?t = "appendRule ''model'' (ModelValidator models) ChatCompletionValidationRules :: 'a ruleTable"
  have "set (visit ?t) = set ?t" using mset_eq_setD [OF assms(2)] .
  then have "vrValid (ValidateChatCompletionsRequest g visit body models) \<longleftrightarrow>
      (\<forall>(path, ruleList) \<in> set ?t. \<forall>rule \<in> set ruleList. rule g (GetBytes g body path) path = None)"
    by (simp only: ValidateChatCompletionsRequest_def validate_valid)
  then show ?thesis
    unfolding rule_table number_rules string_rules boolean_rules model_rules message_rules [OF assms(1)] array_rules [OF assms(1)]
      chatRequestOk_def Let_def .
qed

definition demoDocument :: jvalue where
  "demoDocument = JObject [(''model'', JString ''qwen3-coder''),
     (''messages'', JArray [JObject [(''role'', JString ''user''), (''content'', JString ''hi'')],
                             JObject [(''role'', JString ''assistant''), (''tool_calls'', JArray [])]]),
     (''temperature'', JNumber 1), (''stream'', JBool True)]"

definition demoDocReader :: "jvalue option gjson" where
  "demoDocReader = sampleGjson (\<lambda>_. Some demoDocument)"

theorem chat_validation_decides_witness:
  "vrValid (ValidateChatCompletionsRequest demoDocReader rev ''body'' [''qwen3-coder'']) \<and>
   \<not> vrValid (ValidateChatCompletionsRequest demoDocReader rev ''body'' [''other''])"
proof -
  have reads: "gjson_reads demoDocReader" unfolding demoDocReader_def by (rule sample_reads)
  have "chatRequestOk demoDocReader ''body'' [''qwen3-coder'']" "\<not> chatRequestOk demoDocReader ''body'' [''other'']" by code_simp+
  then show ?thesis using chat_validation_decides [OF reads, of rev] by simp
qed

lemma mset_concat_map: "mset (concat (map f xs)) = (\<Sum>x \<in># mset xs. mset (f x))"
  by (induction xs) simp_all

text \<open>
  Supplement: A request that fails the validation is answered with status 400 and the errors found; the errors themselves do not depend on the
  order in which the rules are visited, only their order does. A single error is reported with its own message.\<close>
theorem invalid_request_answered:
  assumes "mset rules' = mset rules"
  shows "mset (vrErrors (snd (ValidateRequest g rules' (NewValidator body)))) = mset (vrErrors (snd (ValidateRequest g rules (NewValidator body)))) \<and>
    (case ToAPIError (fst (ValidateRequest g rules' (NewValidator body))) of
       None \<Rightarrow> vrValid (snd (ValidateRequest g rules (NewValidator body)))
     | Some e \<Rightarrow> \<not> vrValid (snd (ValidateRequest g rules (NewValidator body))) \<and> fst (SendError e) = 400 \<and>
         (case vrErrors (snd (ValidateRequest g rules (NewValidator body))) of [x] \<Rightarrow> apiMessage e = veMessage x | _ \<Rightarrow> True))"
proof -
  let ?f = "\<lambda>(path, ruleList). applyRules g body path ruleList"
  define es es' where "es = concat (map ?f rules)" and "es' = concat (map ?f rules')"
  have m: "mset es' = mset es" using assms by (simp add: es_def es'_def mset_concat_map)
  have v: "vErrors (fst (ValidateRequest g rules' (NewValidator body))) = es'"
    "vrErrors (snd (ValidateRequest g rules' (NewValidator body))) = es'"
    "vrErrors (snd (ValidateRequest g rules (NewValidator body))) = es"
    "vrValid (snd (ValidateRequest g rules (NewValidator body))) \<longleftrightarrow> es = []"
    unfolding ValidateRequest_def NewValidator_def fold_append Let_def es_def es'_def by simp_all
  have single: "es' = [x] \<longleftrightarrow> es = [x]" for x using m by (metis mset_single_iff)
  show ?thesis
  proof (cases es')
    case Nil
    then show ?thesis using m by (simp add: v ToAPIError_def)
  next
    case (Cons x xs)
    then show ?thesis using m single [of x] unfolding v ToAPIError_def
      by (cases xs) (auto simp: SendError_def HTTPStatusCode_def NewAPIErrorWithDetails_def split: list.splits)
  qed
qed

theorem invalid_request_answered_witness:
  "fst (SendError (the (ToAPIError (fst (ValidateRequest demoDocReader [(''stop'', [Required]), (''model'', [MaxLength 3])] (NewValidator ''body'')))))) = 400"
proof -
  let ?r = "[(''model'', [MaxLength 3]), (''stop'', [Required])] :: jvalue option ruleTable"
  have "\<not> vrValid (snd (ValidateRequest demoDocReader ?r (NewValidator ''body'')))" by code_simp
  then show ?thesis
    using invalid_request_answered [of "rev ?r" ?r demoDocReader "''body''"] by (auto split: option.splits)
qed

end
