(* ===== verification/SecurityText.thy ===== *)
theory SecurityText
  imports GoStrings
begin

section \<open>Validation, cleaning and masking of texts\<close>

text \<open>
  Models \<open>security/validator.go\<close> apart from the regular expressions. A Go string is a byte list; a rune
  is a byte that is not a continuation byte (\<open>0x80\<close> to \<open>0xBF\<close>) together with the continuation bytes behind it, which
  is how \<open>utf8\<close> counts them in well-formed text. \<open>ValidateModelName\<close> is in theory \<open>ModelMapping\<close>.
\<close>

definition byteOf :: "char \<Rightarrow> nat" where
  "byteOf c = of_char c"

definition startsRune :: "char \<Rightarrow> bool" where
  "startsRune c \<longleftrightarrow> byteOf c < 128 \<or> 192 \<le> byteOf c"

definition RuneCountInString :: "string \<Rightarrow> nat" where
  "RuneCountInString s = length (filter startsRune s)"

fun takeRunes :: "nat \<Rightarrow> string \<Rightarrow> string" where
  "takeRunes n [] = []"
| "takeRunes n (c # s) =
     (if startsRune c then (case n of 0 \<Rightarrow> [] | Suc m \<Rightarrow> c # takeRunes m s) else c # takeRunes n s)"

record ValidationErr =
  errField :: string
  errMessage :: string

definition ValidationErrText :: "ValidationErr \<Rightarrow> string" where
  "ValidationErrText e = errField e @ '': '' @ errMessage e"

definition endpointChar :: "char \<Rightarrow> bool" where
  "endpointChar c \<longleftrightarrow>
     (let n = byteOf c in (97 \<le> n \<and> n \<le> 122) \<or> (65 \<le> n \<and> n \<le> 90) \<or> (48 \<le> n \<and> n \<le> 57) \<or> c = CHR ''/'' \<or> c = CHR ''_'' \<or> c = CHR ''-'')"

definition ValidateEndpoint :: "string \<Rightarrow> ValidationErr option" where
  "ValidateEndpoint endpoint =
     (if endpoint = [] then None
      else if RuneCountInString endpoint > 200 then Some \<lparr>errField = ''endpoint'', errMessage = ''endpoint too long''\<rparr>
      else if \<not> list_all endpointChar endpoint then Some \<lparr>errField = ''endpoint'', errMessage = ''invalid endpoint format''\<rparr>
      else None)"

definition ValidateEmail :: "string \<Rightarrow> ValidationErr option" where
  "ValidateEmail email =
     (if email = [] then None
      else if RuneCountInString email > 255 then Some \<lparr>errField = ''email'', errMessage = ''email too long''\<rparr>
      else if \<not> Contains email ''@'' then Some \<lparr>errField = ''email'', errMessage = ''invalid email format: missing @''\<rparr>
      else let parts = Split (CHR ''@'') email
           in if length parts \<noteq> 2 \<or> parts ! 0 = [] \<or> parts ! 1 = []
              then Some \<lparr>errField = ''email'', errMessage = ''invalid email format''\<rparr>
              else None)"

definition ValidateProxyURL :: "string \<Rightarrow> ValidationErr option" where
  "ValidateProxyURL url =
     (if url = [] then None
      else if RuneCountInString url > 500 then Some \<lparr>errField = ''proxy_url'', errMessage = ''proxy URL too long''\<rparr>
      else None)"

text \<open>The bytes that \<open>SanitizeInput\<close> keeps; those above 127 belong to runes above 127.\<close>

definition keptByte :: "char \<Rightarrow> bool" where
  "keptByte c \<longleftrightarrow> (let n = byteOf c in n = 10 \<or> n = 13 \<or> n = 9 \<or> (32 \<le> n \<and> n < 127) \<or> n > 127)"

definition SanitizeInput :: "string \<Rightarrow> string" where
  "SanitizeInput input = filter keptByte (filter (\<lambda>c. c \<noteq> CHR 0x00) input)"

definition MaskAPIKey :: "string \<Rightarrow> string" where
  "MaskAPIKey key =
     (if length key \<le> 8 then ''****''
      else take 4 key @ ''****...****'' @ drop (length key - 4) key)"

definition MaskToken :: "string \<Rightarrow> string" where
  "MaskToken token = (if token = [] then [] else ''[TOKEN-MASKED]'')"

definition MaskEmail :: "string \<Rightarrow> string" where
  "MaskEmail email =
     (if email = [] then []
      else case Index email ''@'' of
        None \<Rightarrow> ''****''
      | Some i \<Rightarrow> if i < 2 then ''****'' else take 2 email @ ''****@'' @ drop (i + 1) email)"

definition SafeTruncate :: "string \<Rightarrow> int \<Rightarrow> string" where
  "SafeTruncate s maxLen =
     (if maxLen \<le> 0 then []
      else if int (RuneCountInString s) \<le> maxLen then s
      else takeRunes (nat maxLen) s)"

subsection \<open>Lemmas\<close>

lemma SanitizeInput_idem [simp]: "SanitizeInput (SanitizeInput s) = SanitizeInput s"
  by (auto simp: SanitizeInput_def intro: filter_cong)

lemma SanitizeInput_kept: "list_all keptByte s \<Longrightarrow> SanitizeInput s = s"
proof -
  assume "list_all keptByte s"
  moreover have "\<not> keptByte (CHR 0x00)" by code_simp
  ultimately have "\<forall>c \<in> set s. keptByte c \<and> c \<noteq> CHR 0x00" by (auto simp: list_all_iff)
  then show ?thesis by (simp add: SanitizeInput_def filter_id_conv)
qed

lemma takeRunes_prefix: "\<exists>t. s = takeRunes n s @ t"
  by (induction n s rule: takeRunes.induct) (auto split: nat.split)

lemma takeRunes_count: "RuneCountInString (takeRunes n s) \<le> n"
  by (induction n s rule: takeRunes.induct) (auto simp: RuneCountInString_def split: nat.split)

text \<open>
  Supplement: Masked values reveal little: a masked key has a fixed length and shows at most the first and the last four bytes, and of a key of
  up to eight bytes nothing; a cleaned text has no control bytes and cleaning it again changes nothing; a truncated text is a prefix
  within the bound.\<close>
theorem masking_reveals_little:
  "length (MaskAPIKey key) \<le> 19 \<and>
   (take 4 key = take 4 key' \<and> drop (length key - 4) key = drop (length key' - 4) key' \<and> 8 < length key \<and> 8 < length key' \<longrightarrow>
      MaskAPIKey key = MaskAPIKey key') \<and>
   list_all keptByte (SanitizeInput s) \<and> SanitizeInput (SanitizeInput s) = SanitizeInput s \<and>
   (\<exists>t. s = SafeTruncate s n @ t) \<and> int (RuneCountInString (SafeTruncate s n)) \<le> max 0 n"
proof -
  have "list_all keptByte (SanitizeInput s)" by (simp add: SanitizeInput_def list_all_iff)
  moreover have "int (RuneCountInString (SafeTruncate s n)) \<le> max 0 n"
    using takeRunes_count [of "nat n" s] by (auto simp: SafeTruncate_def RuneCountInString_def)
  moreover have "\<exists>t. s = SafeTruncate s n @ t" using takeRunes_prefix [of s "nat n"] by (auto simp: SafeTruncate_def)
  ultimately show ?thesis by (auto simp: MaskAPIKey_def)
qed

end
