(* ===== verification/ApiKeyAuth.thy ===== *)
theory ApiKeyAuth
  imports ApiKeyLimits Store Validation SecurityText
begin

section \<open>API keys: table, cached lookups and authentication\<close>

text \<open>
  Models the table of API keys in \<open>database/postgres.go\<close>, the lookup of a key with its caches and the middleware that
  authenticates a request in \<open>proxy/handler.go\<close>, and the administration of keys in \<open>admin/handler.go\<close>.

  The table is the list of its rows; a statement that fails in the engine answers \<open>DBError\<close>, which the
  argument \<open>up\<close> decides. The runtime cache is the token cache of the store, the instance that \<open>main.go\<close> hands
  to the store and to both handlers. \<open>containsXSS\<close> stands for the regular expressions of \<open>ContainsXSS\<close>, and the
  fields of a request arrive decoded.
\<close>

subsection \<open>The table\<close>

datatype 'a dbResult = DBError | ErrNoRows | DBOk 'a

record apiKeyTable =
  keyRows :: "APIKeyRow list"
  nextKeyID :: int

record APIKeyInput =
  inName :: string
  inKey :: string
  inQuotaLimit :: float64
  inQuotaUsed :: float64
  inExpiresAt :: "time option"
  inAllowedGroupIDs :: "int list"
  inLimits :: APIKeyLimits

text \<open>A field of an update is \<open>None\<close> where its \<open>Set\<close> flag is false.\<close>

record APIKeyUpdate =
  upName :: "string option"
  upQuotaLimit :: "float64 option"
  upExpiresAt :: "time option option"
  upAllowedGroupIDs :: "int list option"
  upLimits :: "APIKeyLimits option"

definition ListAPIKeys :: "bool \<Rightarrow> apiKeyTable \<Rightarrow> APIKeyRow list dbResult" where
  "ListAPIKeys up d = (if up then DBOk (sort_key rowID (keyRows d)) else DBError)"

definition CountAPIKeys :: "bool \<Rightarrow> apiKeyTable \<Rightarrow> int dbResult" where
  "CountAPIKeys up d = (if up then DBOk (int (length (keyRows d))) else DBError)"

definition firstRow :: "bool \<Rightarrow> APIKeyRow option \<Rightarrow> APIKeyRow dbResult" where
  "firstRow up r = (if \<not> up then DBError else case r of None \<Rightarrow> ErrNoRows | Some row \<Rightarrow> DBOk row)"

definition GetAPIKeyByValue :: "bool \<Rightarrow> string \<Rightarrow> apiKeyTable \<Rightarrow> APIKeyRow dbResult" where
  "GetAPIKeyByValue up key d = firstRow up (find (\<lambda>r. rowKey r = key) (keyRows d))"

definition GetAPIKeyByID :: "bool \<Rightarrow> int \<Rightarrow> apiKeyTable \<Rightarrow> APIKeyRow dbResult" where
  "GetAPIKeyByID up i d = firstRow up (find (\<lambda>r. rowID r = i) (keyRows d))"

definition atLeast0 :: "float64 \<Rightarrow> float64" where
  "atLeast0 x = (if x < 0 then 0 else x)"

text \<open>The column \<open>key\<close> is unique: inserting a value twice is an error of the engine.\<close>

definition InsertAPIKeyWithOptions :: "bool \<Rightarrow> time \<Rightarrow> APIKeyInput \<Rightarrow> apiKeyTable \<Rightarrow> apiKeyTable \<times> int dbResult" where
  "InsertAPIKeyWithOptions up now i d =
     (if \<not> up \<or> list_ex (\<lambda>r. rowKey r = inKey i) (keyRows d) then (d, DBError)
      else (d\<lparr>keyRows := keyRows d @
               [\<lparr>rowID = nextKeyID d, rowName = inName i, rowKey = inKey i, QuotaLimit = atLeast0 (inQuotaLimit i),
                 QuotaUsed = atLeast0 (inQuotaUsed i), rowExpiresAt = inExpiresAt i, AllowedGroupIDs = inAllowedGroupIDs i,
                 Limits = inLimits i, rowCreatedAt = now\<rparr>],
               nextKeyID := nextKeyID d + 1\<rparr>, DBOk (nextKeyID d)))"

definition updateRows :: "bool \<Rightarrow> int \<Rightarrow> (APIKeyRow \<Rightarrow> APIKeyRow) \<Rightarrow> apiKeyTable \<Rightarrow> apiKeyTable \<times> unit dbResult" where
  "updateRows up i f d =
     (if \<not> up then (d, DBError)
      else (d\<lparr>keyRows := map (\<lambda>r. if rowID r = i then f r else r) (keyRows d)\<rparr>,
            if list_ex (\<lambda>r. rowID r = i) (keyRows d) then DBOk () else ErrNoRows))"

definition UpdateAPIKeyName :: "bool \<Rightarrow> int \<Rightarrow> string \<Rightarrow> apiKeyTable \<Rightarrow> apiKeyTable \<times> unit dbResult" where
  "UpdateAPIKeyName up i name = updateRows up i (\<lambda>r. r\<lparr>rowName := name\<rparr>)"

definition UpdateAPIKeyQuotaLimit :: "bool \<Rightarrow> int \<Rightarrow> float64 \<Rightarrow> apiKeyTable \<Rightarrow> apiKeyTable \<times> unit dbResult" where
  "UpdateAPIKeyQuotaLimit up i quotaLimit = updateRows up i (\<lambda>r. r\<lparr>QuotaLimit := atLeast0 quotaLimit\<rparr>)"

definition UpdateAPIKeyExpiresAt :: "bool \<Rightarrow> int \<Rightarrow> time option \<Rightarrow> apiKeyTable \<Rightarrow> apiKeyTable \<times> unit dbResult" where
  "UpdateAPIKeyExpiresAt up i expiry = updateRows up i (\<lambda>r. r\<lparr>rowExpiresAt := expiry\<rparr>)"

definition UpdateAPIKeyAllowedGroups :: "bool \<Rightarrow> int \<Rightarrow> int list \<Rightarrow> apiKeyTable \<Rightarrow> apiKeyTable \<times> unit dbResult" where
  "UpdateAPIKeyAllowedGroups up i groupIDs = updateRows up i (\<lambda>r. r\<lparr>AllowedGroupIDs := groupIDs\<rparr>)"

definition UpdateAPIKeyLimits :: "bool \<Rightarrow> int \<Rightarrow> APIKeyLimits \<Rightarrow> apiKeyTable \<Rightarrow> apiKeyTable \<times> unit dbResult" where
  "UpdateAPIKeyLimits up i limits = updateRows up i (\<lambda>r. r\<lparr>Limits := limits\<rparr>)"

definition orKeep :: "'a option \<Rightarrow> 'a \<Rightarrow> 'a" where
  "orKeep x old = (case x of None \<Rightarrow> old | Some v \<Rightarrow> v)"

definition applyUpdate :: "APIKeyUpdate \<Rightarrow> APIKeyRow \<Rightarrow> APIKeyRow" where
  "applyUpdate u r =
     r\<lparr>rowName := orKeep (upName u) (rowName r), QuotaLimit := orKeep (map_option atLeast0 (upQuotaLimit u)) (QuotaLimit r),
       rowExpiresAt := orKeep (upExpiresAt u) (rowExpiresAt r), AllowedGroupIDs := orKeep (upAllowedGroupIDs u) (AllowedGroupIDs r),
       Limits := orKeep (upLimits u) (Limits r)\<rparr>"

definition UpdateAPIKey :: "bool \<Rightarrow> int \<Rightarrow> APIKeyUpdate \<Rightarrow> apiKeyTable \<Rightarrow> apiKeyTable \<times> unit dbResult" where
  "UpdateAPIKey up i u d =
     (if upName u = None \<and> upQuotaLimit u = None \<and> upExpiresAt u = None \<and> upAllowedGroupIDs u = None \<and> upLimits u = None
      then (d, DBOk ())
      else updateRows up i (applyUpdate u) d)"

definition dbDeleteAPIKey :: "bool \<Rightarrow> int \<Rightarrow> apiKeyTable \<Rightarrow> apiKeyTable \<times> unit dbResult" where
  "dbDeleteAPIKey up i d =
     (if \<not> up then (d, DBError) else (d\<lparr>keyRows := filter (\<lambda>r. rowID r \<noteq> i) (keyRows d)\<rparr>, DBOk ()))"

definition GetAllAPIKeyValues :: "bool \<Rightarrow> apiKeyTable \<Rightarrow> string list dbResult" where
  "GetAllAPIKeyValues up d = (if up then DBOk (map rowKey (keyRows d)) else DBError)"

text \<open>The flush of usage logs adds what a key was billed; the batch lists key, amount and status.\<close>

definition quotaCounts :: "int \<times> float64 \<times> int \<Rightarrow> bool" where
  "quotaCounts e = (case e of (i, billed, status) \<Rightarrow> \<not> (i \<le> 0 \<or> billed \<le> 0 \<or> status = 499))"

definition usageOfKey :: "(int \<times> float64 \<times> int) list \<Rightarrow> int \<Rightarrow> float64" where
  "usageOfKey batch i = sum_list (map (\<lambda>e. fst (snd e)) (filter (\<lambda>e. quotaCounts e \<and> fst e = i) batch))"

definition applyAPIKeyQuotaUsage :: "(int \<times> float64 \<times> int) list \<Rightarrow> apiKeyTable \<Rightarrow> apiKeyTable" where
  "applyAPIKeyQuotaUsage batch d =
     d\<lparr>keyRows := map (\<lambda>r. let amount = usageOfKey batch (rowID r)
         in if amount \<le> 0 then r else r\<lparr>QuotaUsed := QuotaUsed r + amount\<rparr>) (keyRows d)\<rparr>"

subsection \<open>Rows\<close>

definition IsExpired :: "time \<Rightarrow> APIKeyRow \<Rightarrow> bool" where
  "IsExpired now r = (case rowExpiresAt r of None \<Rightarrow> False | Some t \<Rightarrow> t \<le> now)"

definition IsQuotaExhausted :: "APIKeyRow \<Rightarrow> bool" where
  "IsQuotaExhausted r \<longleftrightarrow> QuotaLimit r > 0 \<and> QuotaUsed r \<ge> QuotaLimit r"

definition HasAccessConstraints :: "APIKeyRow \<Rightarrow> bool" where
  "HasAccessConstraints r \<longleftrightarrow> QuotaLimit r > 0 \<or> rowExpiresAt r \<noteq> None \<or> AllowedGroupIDs r \<noteq> [] \<or> \<not> IsZero (Limits r)"

definition noLimits :: APIKeyLimits where
  "noLimits = \<lparr>ModelAllow = [], ModelDeny = [], RPM = 0, RPD = 0, MaxConcurrency = 0, CostLimit5h = 0, CostLimit7d = 0,
     TokenLimit5h = 0, TokenLimit7d = 0\<rparr>"

text \<open>A row with the given identity and the zero value in every other field.\<close>

definition plainRow :: "int \<Rightarrow> string \<Rightarrow> string \<Rightarrow> time \<Rightarrow> APIKeyRow" where
  "plainRow i name key createdAt =
     \<lparr>rowID = i, rowName = name, rowKey = key, QuotaLimit = 0, QuotaUsed = 0, rowExpiresAt = None, AllowedGroupIDs = [],
      Limits = noLimits, rowCreatedAt = createdAt\<rparr>"

subsection \<open>Cached lookups\<close>

record apiKeyRuntimeRecord =
  recID :: int
  recName :: string
  recCreatedAt :: time

definition marshalKey :: "apiKeyRuntimeRecord \<Rightarrow> json" where
  "marshalKey r = JObj [(''id'', JInt (recID r)), (''name'', JStr (recName r)), (''created_at'', JTime (recCreatedAt r))]"

fun setKeyField :: "string \<times> json \<Rightarrow> apiKeyRuntimeRecord option \<Rightarrow> apiKeyRuntimeRecord option" where
  "setKeyField _ None = None"
| "setKeyField (name, v) (Some r) =
     (if EqualFold name ''id'' then (case v of JInt x \<Rightarrow> Some (r\<lparr>recID := x\<rparr>) | _ \<Rightarrow> None)
      else if EqualFold name ''name'' then (case v of JStr x \<Rightarrow> Some (r\<lparr>recName := x\<rparr>) | _ \<Rightarrow> None)
      else if EqualFold name ''created_at'' then (case v of JTime x \<Rightarrow> Some (r\<lparr>recCreatedAt := x\<rparr>) | _ \<Rightarrow> None)
      else Some r)"

fun unmarshalKey :: "json \<Rightarrow> apiKeyRuntimeRecord option" where
  "unmarshalKey (JObj kvs) = fold setKeyField kvs (Some \<lparr>recID = 0, recName = [], recCreatedAt = 0\<rparr>)"
| "unmarshalKey _ = None"

definition marshalCount :: "int \<Rightarrow> json" where
  "marshalCount n = JObj [(''count'', JInt n)]"

fun setCountField :: "string \<times> json \<Rightarrow> int option \<Rightarrow> int option" where
  "setCountField _ None = None"
| "setCountField (name, v) (Some n) = (if EqualFold name ''count'' then (case v of JInt x \<Rightarrow> Some x | _ \<Rightarrow> None) else Some n)"

fun unmarshalCount :: "json \<Rightarrow> int option" where
  "unmarshalCount (JObj kvs) = fold setCountField kvs (Some 0)"
| "unmarshalCount _ = None"

definition apiKeyCacheNamespace :: string where
  "apiKeyCacheNamespace = ''api-key''"

definition apiKeyCountCacheNamespace :: string where
  "apiKeyCountCacheNamespace = ''api-key-count''"

definition apiKeyCacheTTL :: duration where
  "apiKeyCacheTTL = 5 * Minute"

definition apiKeyCountCacheTTL :: duration where
  "apiKeyCountCacheTTL = 30 * Second"

text \<open>Reading and writing the runtime cache of the store; a store without a cache finds nothing.\<close>

definition readRuntime :: "time \<Rightarrow> string \<Rightarrow> string \<Rightarrow> Store \<Rightarrow> Store \<times> RawMessage option" where
  "readRuntime now namespace key s =
     (case tokenCache s of
        None \<Rightarrow> (s, None)
      | Some tc \<Rightarrow> (case GetRuntime now namespace key tc of (tc', raw) \<Rightarrow> (s\<lparr>tokenCache := Some tc'\<rparr>, raw)))"

definition writeRuntime :: "time \<Rightarrow> string \<Rightarrow> string \<Rightarrow> json \<Rightarrow> duration \<Rightarrow> Store \<Rightarrow> Store" where
  "writeRuntime now namespace key val ttl s =
     s\<lparr>tokenCache := map_option (SetRuntime now namespace key (Some val) ttl) (tokenCache s)\<rparr>"

definition deleteRuntimeCache :: "string \<Rightarrow> string \<Rightarrow> Store \<Rightarrow> Store" where
  "deleteRuntimeCache namespace key s = s\<lparr>tokenCache := map_option (DeleteRuntime namespace key) (tokenCache s)\<rparr>"

definition resolveAPIKeyFromRuntimeCache :: "time \<Rightarrow> string \<Rightarrow> Store \<Rightarrow> Store \<times> APIKeyRow option" where
  "resolveAPIKeyFromRuntimeCache now key s =
     (case readRuntime now apiKeyCacheNamespace key s of
        (s', Some (Some raw)) \<Rightarrow>
          (case unmarshalKey raw of
             None \<Rightarrow> (s', None)
           | Some r \<Rightarrow> if recID r \<le> 0 then (s', None) else (s', Some (plainRow (recID r) (recName r) key (recCreatedAt r))))
      | (s', _) \<Rightarrow> (s', None))"

definition setAPIKeyRuntimeCache :: "time \<Rightarrow> APIKeyRow \<Rightarrow> Store \<Rightarrow> Store" where
  "setAPIKeyRuntimeCache now row s =
     (if TrimSpace (rowKey row) = [] \<or> rowID row \<le> 0 then s
      else if HasAccessConstraints row then s
      else writeRuntime now apiKeyCacheNamespace (rowKey row)
             (marshalKey \<lparr>recID = rowID row, recName = rowName row, recCreatedAt = rowCreatedAt row\<rparr>) apiKeyCacheTTL s)"

definition syncAPIKeyAllowedGroups :: "time \<Rightarrow> APIKeyRow \<Rightarrow> Store \<Rightarrow> Store" where
  "syncAPIKeyAllowedGroups now row s =
     (if rowID row \<le> 0 then s else SetAPIKeyAllowedGroups now (rowID row) (AllowedGroupIDs row) s)"

text \<open>\<open>resolveAPIKey\<close> in the two parts between which another request may run: up to the query, and what follows it.\<close>

definition finishResolve :: "time \<Rightarrow> APIKeyRow dbResult \<Rightarrow> Store \<Rightarrow> Store \<times> APIKeyRow option" where
  "finishResolve now answer s =
     (case answer of
        DBOk row \<Rightarrow> (syncAPIKeyAllowedGroups now row (setAPIKeyRuntimeCache now row s), Some row)
      | _ \<Rightarrow> (s, None))"

definition resolveAPIKey :: "string set \<Rightarrow> time \<Rightarrow> bool \<Rightarrow> apiKeyTable \<Rightarrow> string \<Rightarrow> Store \<Rightarrow> Store \<times> APIKeyRow option" where
  "resolveAPIKey configKeys now up d key0 s =
     (let key = TrimSpace key0
      in if key = [] then (s, None)
         else if key \<in> configKeys then (s, Some (plainRow 0 ''config'' key 0))
         else case resolveAPIKeyFromRuntimeCache now key s of
           (s1, Some row) \<Rightarrow> (syncAPIKeyAllowedGroups now row s1, Some row)
         | (s1, None) \<Rightarrow> finishResolve now (GetAPIKeyByValue up key d) s1)"

definition hasAnyKeys :: "string set \<Rightarrow> time \<Rightarrow> bool \<Rightarrow> apiKeyTable \<Rightarrow> Store \<Rightarrow> Store \<times> bool" where
  "hasAnyKeys configKeys now up d s =
     (if configKeys \<noteq> {} then (s, True)
      else let fromTable = (\<lambda>s1. case CountAPIKeys up d of
                   DBOk n \<Rightarrow> (writeRuntime now apiKeyCountCacheNamespace ''all'' (marshalCount n) apiKeyCountCacheTTL s1, n > 0)
                 | _ \<Rightarrow> (s1, False))
           in case readRuntime now apiKeyCountCacheNamespace ''all'' s of
                (s1, Some (Some raw)) \<Rightarrow> (case unmarshalCount raw of Some n \<Rightarrow> (s1, n > 0) | None \<Rightarrow> fromTable s1)
              | (s1, _) \<Rightarrow> fromTable s1)"

subsection \<open>The middleware\<close>

datatype authOutcome = Anonymous | Rejected int APIError | Authenticated APIKeyRow string

definition reject :: "APIError \<Rightarrow> authOutcome" where
  "reject e = Rejected (fst (SendError e)) e"

text \<open>The header that carries the key: \<open>Authorization\<close>, or else \<open>x-api-key\<close> or \<open>anthropic-auth-token\<close>.\<close>

definition authHeaderOf :: "(string \<Rightarrow> string) \<Rightarrow> string" where
  "authHeaderOf hdr =
     (if hdr ''Authorization'' \<noteq> [] then hdr ''Authorization''
      else case filter (\<lambda>v. v \<noteq> []) (map (\<lambda>h. TrimSpace (hdr h)) [''x-api-key'', ''anthropic-auth-token'']) of
             [] \<Rightarrow> [] | v # _ \<Rightarrow> ''Bearer '' @ v)"

definition presentedKey :: "string \<Rightarrow> string" where
  "presentedKey authHeader = TrimSpace (TrimPrefix (SanitizeInput authHeader) ''Bearer '')"

definition authMiddleware ::
  "bool \<Rightarrow> string set \<Rightarrow> time \<Rightarrow> bool \<Rightarrow> apiKeyTable \<Rightarrow> (string \<Rightarrow> string) \<Rightarrow> Store \<Rightarrow> Store \<times> authOutcome" where
  "authMiddleware allowAnonymous configKeys now up d hdr s =
     (case hasAnyKeys configKeys now up d s of
        (s1, False) \<Rightarrow>
          if allowAnonymous then (s1, Anonymous)
          else (s1, reject (NewAPIError ''service_unavailable''
            ''Service is not configured: no API key has been created yet. Please add at least one API key in the admin dashboard, or set CODEX_ALLOW_ANONYMOUS=true to disable this check.''
            ''server_error''))
      | (s1, True) \<Rightarrow>
          let authHeader = authHeaderOf hdr
          in if authHeader = [] then (s1, reject apiErrMissingAPIKey)
             else let key = presentedKey authHeader
                  in case resolveAPIKey configKeys now up d key s1 of
                       (s2, None) \<Rightarrow> (s2, reject apiErrInvalidAPIKey)
                     | (s2, Some row) \<Rightarrow>
                         if IsExpired now row
                         then (s2, reject (NewAPIError ''invalid_auth'' ''API key has expired'' ''authentication_error''))
                         else if IsQuotaExhausted row
                         then (s2, reject (NewAPIError ''rate_limit_reached'' ''API key quota exhausted'' ''rate_limit_error''))
                         else (s2, Authenticated row key))"

subsection \<open>Administration\<close>

definition invalidateAPIKeyRuntimeCaches :: "string \<Rightarrow> Store \<Rightarrow> Store" where
  "invalidateAPIKeyRuntimeCaches apiKey s =
     (let s1 = deleteRuntimeCache apiKeyCountCacheNamespace ''all'' s
      in if TrimSpace apiKey \<noteq> [] then deleteRuntimeCache apiKeyCacheNamespace apiKey s1 else s1)"

definition cleanModels :: "string list \<Rightarrow> string list" where
  "cleanModels items = dedupFold [] items"

definition sanitizeAPIKeyLimits :: "APIKeyLimits \<Rightarrow> APIKeyLimits" where
  "sanitizeAPIKeyLimits l =
     \<lparr>ModelAllow = cleanModels (ModelAllow l), ModelDeny = cleanModels (ModelDeny l), RPM = max (RPM l) 0, RPD = max (RPD l) 0,
      MaxConcurrency = max (MaxConcurrency l) 0, CostLimit5h = max (CostLimit5h l) 0, CostLimit7d = max (CostLimit7d l) 0,
      TokenLimit5h = max (TokenLimit5h l) 0, TokenLimit7d = max (TokenLimit7d l) 0\<rparr>"

text \<open>Why a request of the administrator is refused; the texts of the replies are not modelled.\<close>

datatype adminProblem =
    NameTooLong | NameForbidden | NameEmpty | QuotaNegative | QuotaTooLarge | QuotaNotANumber
  | DaysNegative | DaysTooMany | TimeInPast | TimeFormat | NotIntegers | NotPositive | UnknownGroups "int list" | KeyFormat

datatype adminReply =
    BadRequest adminProblem
  | NotFound
  | InternalError
  | CreatedKey int string
  | Done

text \<open>An optional field of a decoded request: missing, \<open>null\<close>, a value, or something of another type.\<close>

datatype 'a jsonField = Missing | Null | Value 'a | IllTyped

text \<open>\<open>None\<close> in a result is a field that is not set.\<close>

definition parseOptionalIntegerSliceField :: "int list jsonField \<Rightarrow> adminProblem + int list option" where
  "parseOptionalIntegerSliceField raw =
     (case raw of
        Missing \<Rightarrow> Inr None
      | Null \<Rightarrow> Inr (Some [])
      | IllTyped \<Rightarrow> Inl NotIntegers
      | Value vs \<Rightarrow> if list_ex (\<lambda>v. v \<le> 0) vs then Inl NotPositive else Inr (Some (stable_sort (<) (dedupPositive [] vs))))"

definition parseOptionalAPIKeyQuota :: "float64 jsonField \<Rightarrow> float64 jsonField \<Rightarrow> adminProblem + float64 option" where
  "parseOptionalAPIKeyQuota quotaLimitRaw quotaRaw =
     (case (if quotaLimitRaw = Missing then quotaRaw else quotaLimitRaw) of
        Missing \<Rightarrow> Inr None
      | Null \<Rightarrow> Inr (Some 0)
      | IllTyped \<Rightarrow> Inl QuotaNotANumber
      | Value v \<Rightarrow> if v < 0 then Inl QuotaNegative else Inr (Some v))"

text \<open>\<open>parse\<close> is \<open>time.Parse\<close> with a layout, \<open>addDays\<close> is \<open>AddDate\<close> with a number of days.\<close>

definition expiryLayouts :: "string list" where
  "expiryLayouts = [''2006-01-02T15:04:05Z07:00'', ''2006-01-02T15:04'', ''2006-01-02 15:04'', ''2006-01-02'']"

fun parseLayouts :: "(string \<Rightarrow> string \<Rightarrow> time option) \<Rightarrow> time \<Rightarrow> string \<Rightarrow> string list \<Rightarrow> adminProblem + time option" where
  "parseLayouts parse now raw [] = Inl TimeFormat"
| "parseLayouts parse now raw (layout # layouts) =
     (case parse layout raw of
        None \<Rightarrow> parseLayouts parse now raw layouts
      | Some t0 \<Rightarrow>
          let t = (if layout = ''2006-01-02'' then t0 + (24 * Hour - 1) else t0)
          in if t \<le> now then Inl TimeInPast else Inr (Some t))"

definition parseAPIKeyExpiresAt ::
  "(string \<Rightarrow> string \<Rightarrow> time option) \<Rightarrow> (time \<Rightarrow> int \<Rightarrow> time) \<Rightarrow> time \<Rightarrow> string \<Rightarrow> int option \<Rightarrow> adminProblem + time option" where
  "parseAPIKeyExpiresAt parse addDays now raw0 expiresInDays =
     (let fromText = (let raw = TrimSpace raw0 in if raw = [] then Inr None else parseLayouts parse now raw expiryLayouts)
      in case expiresInDays of
           None \<Rightarrow> fromText
         | Some n \<Rightarrow>
             if n < 0 then Inl DaysNegative
             else if n > 0 then (if n > 3650 then Inl DaysTooMany else Inr (Some (addDays now n)))
             else fromText)"

definition parseOptionalAPIKeyExpiration ::
  "(string \<Rightarrow> string \<Rightarrow> time option) \<Rightarrow> (time \<Rightarrow> int \<Rightarrow> time) \<Rightarrow> time \<Rightarrow> string jsonField \<Rightarrow> int option
    \<Rightarrow> adminProblem + time option option" where
  "parseOptionalAPIKeyExpiration parse addDays now raw expiresInDays =
     (if expiresInDays \<noteq> None
      then (case parseAPIKeyExpiresAt parse addDays now [] expiresInDays of Inl e \<Rightarrow> Inl e | Inr t \<Rightarrow> Inr (Some t))
      else case raw of
        Missing \<Rightarrow> Inr None
      | Null \<Rightarrow> Inr (Some None)
      | IllTyped \<Rightarrow> Inl TimeFormat
      | Value v \<Rightarrow> (case parseAPIKeyExpiresAt parse addDays now v None of Inl e \<Rightarrow> Inl e | Inr t \<Rightarrow> Inr (Some t)))"

definition VerifyAccountGroupIDs :: "bool \<Rightarrow> int set \<Rightarrow> int list \<Rightarrow> int list dbResult" where
  "VerifyAccountGroupIDs up groups ids0 =
     (let ids = dedupPositive [] ids0
      in if ids = [] then DBOk [] else if \<not> up then DBError else DBOk (filter (\<lambda>i. i \<notin> groups) ids))"

record createKeyReq =
  crName :: string
  crKey :: string
  crQuotaLimit :: "float64 option"
  crQuota :: "float64 option"
  crExpiresAt :: string
  crExpiresInDays :: "int option"
  crAllowedGroupIDs :: "int list jsonField"
  crLimits :: "APIKeyLimits option"

record adminEnv =
  aeNow :: time
  aeUp :: bool
  aeParse :: "string \<Rightarrow> string \<Rightarrow> time option"
  aeAddDays :: "time \<Rightarrow> int \<Rightarrow> time"
  aeXSS :: "string \<Rightarrow> bool"
  aeGroups :: "int set"
  aeFreshKey :: string

text \<open>The checks of the groups that both handlers share: go on with the groups, or reply.\<close>

definition checkGroups :: "adminEnv \<Rightarrow> int list option \<Rightarrow> adminReply option" where
  "checkGroups e gs =
     (case gs of
        None \<Rightarrow> None
      | Some ids \<Rightarrow>
          (case VerifyAccountGroupIDs (aeUp e) (aeGroups e) ids of
             DBOk missing \<Rightarrow> if missing \<noteq> [] then Some (BadRequest (UnknownGroups missing)) else None
           | _ \<Rightarrow> Some InternalError))"

definition setGroupsIf :: "time \<Rightarrow> int \<Rightarrow> int list option \<Rightarrow> Store \<Rightarrow> Store" where
  "setGroupsIf now i gs s =
     (case gs of None \<Rightarrow> s | Some ids \<Rightarrow> SetAPIKeyAllowedGroups now i (dedupPositive [] ids) s)"

definition insertKey ::
  "adminEnv \<Rightarrow> createKeyReq \<Rightarrow> string \<Rightarrow> string \<Rightarrow> float64 \<Rightarrow> time option \<Rightarrow> int list option \<Rightarrow> apiKeyTable \<times> Store
    \<Rightarrow> (apiKeyTable \<times> Store) \<times> adminReply" where
  "insertKey e req name key quotaLimit expiry gs ds =
     (let limits = (case crLimits req of None \<Rightarrow> noLimits | Some l \<Rightarrow> sanitizeAPIKeyLimits l)
      in case InsertAPIKeyWithOptions (aeUp e) (aeNow e)
                \<lparr>inName = name, inKey = key, inQuotaLimit = quotaLimit, inQuotaUsed = 0, inExpiresAt = expiry,
                 inAllowedGroupIDs = orKeep gs [], inLimits = limits\<rparr> (fst ds) of
           (d', DBOk i) \<Rightarrow>
             ((d', invalidateAPIKeyRuntimeCaches key (setGroupsIf (aeNow e) i gs (snd ds))), CreatedKey i key)
         | (d', _) \<Rightarrow> ((d', snd ds), InternalError))"

definition CreateAPIKey :: "adminEnv \<Rightarrow> createKeyReq \<Rightarrow> apiKeyTable \<times> Store \<Rightarrow> (apiKeyTable \<times> Store) \<times> adminReply" where
  "CreateAPIKey e req ds =
     (let name0 = SanitizeInput (crName req);
          name = (if name0 = [] then ''default'' else name0);
          quotaLimit = (case crQuotaLimit req of Some q \<Rightarrow> q | None \<Rightarrow> (case crQuota req of Some q \<Rightarrow> q | None \<Rightarrow> 0))
      in if RuneCountInString name > 100 then (ds, BadRequest NameTooLong)
         else if aeXSS e name then (ds, BadRequest NameForbidden)
         else if quotaLimit < 0 then (ds, BadRequest QuotaNegative)
         else if quotaLimit > 1000000000 then (ds, BadRequest QuotaTooLarge)
         else case parseAPIKeyExpiresAt (aeParse e) (aeAddDays e) (aeNow e) (crExpiresAt req) (crExpiresInDays req) of
           Inl p \<Rightarrow> (ds, BadRequest p)
         | Inr expiry \<Rightarrow>
             (case parseOptionalIntegerSliceField (crAllowedGroupIDs req) of
                Inl p \<Rightarrow> (ds, BadRequest p)
              | Inr gs \<Rightarrow>
                  let key = (if crKey req = [] then aeFreshKey e else SanitizeInput (crKey req))
                  in if crKey req \<noteq> [] \<and> (\<not> HasPrefix key ''sk-'' \<or> length key < 20) then (ds, BadRequest KeyFormat)
                     else case checkGroups e gs of
                       Some r \<Rightarrow> (ds, r)
                     | None \<Rightarrow> insertKey e req name key quotaLimit expiry gs ds))"

record updateAPIKeyReq =
  urName :: "string option"
  urQuotaLimit :: "float64 jsonField"
  urQuota :: "float64 jsonField"
  urExpiresAt :: "string jsonField"
  urExpiresInDays :: "int option"
  urAllowedGroupIDs :: "int list jsonField"
  urLimits :: "APIKeyLimits option"

definition checkName :: "adminEnv \<Rightarrow> string option \<Rightarrow> adminProblem option" where
  "checkName e nm =
     (case nm of
        None \<Rightarrow> None
      | Some n \<Rightarrow>
          let name = SanitizeInput n
          in if TrimSpace name = [] then Some NameEmpty
             else if RuneCountInString name > 100 then Some NameTooLong
             else if aeXSS e name then Some NameForbidden
             else None)"

definition storeUpdate ::
  "adminEnv \<Rightarrow> int \<Rightarrow> APIKeyRow \<Rightarrow> APIKeyUpdate \<Rightarrow> int list option \<Rightarrow> apiKeyTable \<times> Store \<Rightarrow> (apiKeyTable \<times> Store) \<times> adminReply" where
  "storeUpdate e i row u gs ds =
     (case UpdateAPIKey (aeUp e) i u (fst ds) of
        (d', DBOk _) \<Rightarrow> ((d', invalidateAPIKeyRuntimeCaches (rowKey row) (setGroupsIf (aeNow e) i gs (snd ds))), Done)
      | (d', _) \<Rightarrow> ((d', snd ds), InternalError))"

definition updateAPIKeyHandler ::
  "adminEnv \<Rightarrow> int \<Rightarrow> updateAPIKeyReq \<Rightarrow> apiKeyTable \<times> Store \<Rightarrow> (apiKeyTable \<times> Store) \<times> adminReply" where
  "updateAPIKeyHandler e i req ds =
     (case parseOptionalIntegerSliceField (urAllowedGroupIDs req) of
        Inl p \<Rightarrow> (ds, BadRequest p)
      | Inr gs \<Rightarrow>
     (case parseOptionalAPIKeyQuota (urQuotaLimit req) (urQuota req) of
        Inl p \<Rightarrow> (ds, BadRequest p)
      | Inr quotaLimit \<Rightarrow>
     (case parseOptionalAPIKeyExpiration (aeParse e) (aeAddDays e) (aeNow e) (urExpiresAt req) (urExpiresInDays req) of
        Inl p \<Rightarrow> (ds, BadRequest p)
      | Inr expiry \<Rightarrow>
     (case GetAPIKeyByID (aeUp e) i (fst ds) of
        ErrNoRows \<Rightarrow> (ds, NotFound)
      | DBError \<Rightarrow> (ds, InternalError)
      | DBOk row \<Rightarrow>
     (case checkName e (urName req) of
        Some p \<Rightarrow> (ds, BadRequest p)
      | None \<Rightarrow>
          if (case quotaLimit of Some q \<Rightarrow> q > 1000000000 | None \<Rightarrow> False) then (ds, BadRequest QuotaTooLarge)
          else case checkGroups e gs of
            Some r \<Rightarrow> (ds, r)
          | None \<Rightarrow>
              storeUpdate e i row
                \<lparr>upName = map_option SanitizeInput (urName req), upQuotaLimit = quotaLimit, upExpiresAt = expiry,
                 upAllowedGroupIDs = map_option (dedupPositive []) gs, upLimits = map_option sanitizeAPIKeyLimits (urLimits req)\<rparr> gs ds)))))"

definition DeleteAPIKey :: "adminEnv \<Rightarrow> int \<Rightarrow> apiKeyTable \<times> Store \<Rightarrow> (apiKeyTable \<times> Store) \<times> adminReply" where
  "DeleteAPIKey e i ds =
     (let keyToInvalidate = (case GetAPIKeyByID (aeUp e) i (fst ds) of DBOk row \<Rightarrow> rowKey row | _ \<Rightarrow> [])
      in case dbDeleteAPIKey (aeUp e) i (fst ds) of
           (d', DBOk _) \<Rightarrow> ((d', invalidateAPIKeyRuntimeCaches keyToInvalidate (SetAPIKeyAllowedGroups (aeNow e) i [] (snd ds))), Done)
         | (d', _) \<Rightarrow> ((d', snd ds), InternalError))"

end
