(* ===== verification/ApiKeyAuthProps.thy ===== *)
theory ApiKeyAuthProps
  imports ApiKeyAuth
begin

section \<open>Authentication decides by the table\<close>

text \<open>
  The cached lookups of a key are invisible: as long as every operation runs as a whole, what the cache holds agrees with
  the table, so the middleware decides as if it read the table. The invariant \<open>keys_ok\<close> says so; it is kept by
  requests, by the administration of keys, by the flush of usage and by everything else that happens to the store.
  Two requests that interleave can break it: \<open>constraint_bypassed_after_race\<close>.
\<close>

subsection \<open>Entries of the two namespaces\<close>

definition entryAt :: "string \<Rightarrow> string \<Rightarrow> Store \<Rightarrow> RawMessage memoryEntry option" where
  "entryAt namespace key s =
     (case tokenCache s of None \<Rightarrow> None | Some tc \<Rightarrow> if runtimeMapKey namespace key = [] then None else runtime tc (runtimeMapKey namespace key))"

abbreviation keyEntry :: "string \<Rightarrow> Store \<Rightarrow> RawMessage memoryEntry option" where
  "keyEntry \<equiv> entryAt apiKeyCacheNamespace"

abbreviation countEntry :: "Store \<Rightarrow> RawMessage memoryEntry option" where
  "countEntry \<equiv> entryAt apiKeyCountCacheNamespace ''all''"

lemma mapKeys:
  "runtimeMapKey apiKeyCacheNamespace k = (if TrimSpace k = [] then [] else ''api-key'' @ CHR 0x00 # TrimSpace k)"
  "runtimeMapKey apiKeyCountCacheNamespace ''all'' = ''api-key-count'' @ CHR 0x00 # ''all''"
proof -
  have "TrimSpace apiKeyCacheNamespace = ''api-key''" "TrimSpace apiKeyCountCacheNamespace = ''api-key-count''" "TrimSpace ''all'' = ''all''"
    by code_simp+
  then show "runtimeMapKey apiKeyCacheNamespace k = (if TrimSpace k = [] then [] else ''api-key'' @ CHR 0x00 # TrimSpace k)"
    "runtimeMapKey apiKeyCountCacheNamespace ''all'' = ''api-key-count'' @ CHR 0x00 # ''all''"
    by (simp_all add: runtimeMapKey_def)
qed

lemma entry_write:
  assumes "ttl > 0" "TrimSpace k \<noteq> []"
  shows "keyEntry k' (writeRuntime now apiKeyCacheNamespace k v ttl s) =
      (if TrimSpace k' = TrimSpace k \<and> tokenCache s \<noteq> None then Some \<lparr>payload = Some v, expiresAt = now + ttl\<rparr> else keyEntry k' s)"
    "countEntry (writeRuntime now apiKeyCacheNamespace k v ttl s) = countEntry s"
  using assms by (auto simp: entryAt_def writeRuntime_def SetRuntime_def mapKeys Let_def split: option.split)

lemma entry_write_count:
  assumes "ttl > 0"
  shows "keyEntry k (writeRuntime now apiKeyCountCacheNamespace ''all'' v ttl s) = keyEntry k s"
    "countEntry (writeRuntime now apiKeyCountCacheNamespace ''all'' v ttl s) =
      (if tokenCache s \<noteq> None then Some \<lparr>payload = Some v, expiresAt = now + ttl\<rparr> else None)"
  using assms by (auto simp: entryAt_def writeRuntime_def SetRuntime_def mapKeys Let_def split: option.split)

lemma entry_invalidate:
  "keyEntry k' (invalidateAPIKeyRuntimeCaches k s) = (if TrimSpace k' = TrimSpace k then None else keyEntry k' s)"
  "countEntry (invalidateAPIKeyRuntimeCaches k s) = None"
  by (auto simp: entryAt_def invalidateAPIKeyRuntimeCaches_def deleteRuntimeCache_def DeleteRuntime_def mapKeys Let_def split: option.split)

text \<open>A read returns what is stored, unless it has expired; it may evict, and changes nothing else.\<close>

definition evicts :: "Store \<Rightarrow> Store \<Rightarrow> bool" where
  "evicts s s' \<longleftrightarrow> (\<forall>k. keyEntry k s' = keyEntry k s \<or> keyEntry k s' = None) \<and> (countEntry s' = countEntry s \<or> countEntry s' = None)"

lemma readRuntime_cases:
  assumes "readRuntime now ns k s = (s', raw)"
  shows "evicts s s' \<and> (\<forall>x. raw = Some x \<longrightarrow> (\<exists>e. entryAt ns k s = Some e \<and> payload e = x \<and> \<not> expired now e)) \<and>
    (tokenCache s' = None \<longleftrightarrow> tokenCache s = None) \<and> (\<exists>c. s' = s\<lparr>tokenCache := c\<rparr>)"
proof (cases "tokenCache s")
  case None
  then show ?thesis using assms by (auto simp: readRuntime_def evicts_def intro: exI [of _ "tokenCache s"])
next
  case (Some tc)
  obtain tc' where g: "GetRuntime now ns k tc = (tc', raw)" "s' = s\<lparr>tokenCache := Some tc'\<rparr>"
    using assms Some by (auto simp: readRuntime_def split: prod.splits)
  have r: "runtime tc' j = runtime tc j \<or> runtime tc' j = None" for j
    using g(1) by (auto simp: GetRuntime_def Let_def evictSame_def split: if_splits option.splits)
  have "raw = Some x \<Longrightarrow> \<exists>e. entryAt ns k s = Some e \<and> payload e = x \<and> \<not> expired now e" for x
    using g(1) Some by (auto simp: GetRuntime_def entryAt_def Let_def split: if_splits option.splits)
  then show ?thesis using r g(2) Some by (auto simp: evicts_def entryAt_def)
qed

lemma evicts_trans: "evicts s t \<Longrightarrow> evicts t u \<Longrightarrow> evicts s u"
  unfolding evicts_def by metis

lemma tokenCache_groups [simp]: "tokenCache (SetAPIKeyAllowedGroups now i gs s) = tokenCache s"
  by (simp add: SetAPIKeyAllowedGroups_def rebuildFastScheduler_def Let_def split: option.split prod.split)

lemma entry_groups [simp]:
  "entryAt ns k (SetAPIKeyAllowedGroups now i gs s) = entryAt ns k s" "entryAt ns k (syncAPIKeyAllowedGroups now r s) = entryAt ns k s"
  "entryAt ns k (setGroupsIf now i gso s) = entryAt ns k s"
  by (simp_all add: entryAt_def syncAPIKeyAllowedGroups_def setGroupsIf_def split: option.split)

lemma unmarshal_marshalKey [simp]: "unmarshalKey (marshalKey r) = Some r"
proof -
  have "\<not> EqualFold ''name'' ''id''" "\<not> EqualFold ''created_at'' ''id''" "\<not> EqualFold ''created_at'' ''name''" by code_simp+
  then show ?thesis by (cases r) (simp add: marshalKey_def)
qed

lemma unmarshal_marshalCount [simp]: "unmarshalCount (marshalCount n) = Some n"
  by (simp add: marshalCount_def)

subsection \<open>The invariant\<close>

definition recordOf :: "APIKeyRow \<Rightarrow> apiKeyRuntimeRecord" where
  "recordOf r = \<lparr>recID = rowID r, recName = rowName r, recCreatedAt = rowCreatedAt r\<rparr>"

definition table_ok :: "apiKeyTable \<Rightarrow> bool" where
  "table_ok d \<longleftrightarrow> distinct (map rowKey (keyRows d)) \<and> distinct (map rowID (keyRows d)) \<and> 0 < nextKeyID d \<and>
     (\<forall>r \<in> set (keyRows d). 0 < rowID r \<and> rowID r < nextKeyID d \<and> 0 \<le> QuotaLimit r)"

text \<open>The row of the table that an entry of the key \<open>k\<close> repeats.\<close>

definition backed :: "apiKeyTable \<Rightarrow> string \<Rightarrow> RawMessage memoryEntry \<Rightarrow> bool" where
  "backed d k e \<longleftrightarrow>
     (\<exists>r \<in> set (keyRows d). rowKey r = TrimSpace k \<and> \<not> HasAccessConstraints r \<and> payload e = Some (marshalKey (recordOf r)))"

definition keys_ok :: "apiKeyTable \<times> Store \<Rightarrow> bool" where
  "keys_ok ds \<longleftrightarrow> table_ok (fst ds) \<and> (\<forall>k e. keyEntry k (snd ds) = Some e \<longrightarrow> backed (fst ds) k e) \<and>
     (\<forall>e. countEntry (snd ds) = Some e \<longrightarrow> payload e = Some (marshalCount (int (length (keyRows (fst ds))))))"

lemma keys_ok_backed: "keys_ok (d, s) \<Longrightarrow> keyEntry k s = Some e \<Longrightarrow> backed d k e"
  by (simp add: keys_ok_def)

lemma backed_mono:
  "backed d k e \<Longrightarrow> (\<And>r. r \<in> set (keyRows d) \<Longrightarrow> rowKey r = TrimSpace k \<Longrightarrow> r \<in> set (keyRows d')) \<Longrightarrow> backed d' k e"
  by (auto simp: backed_def)

lemma evicts_ok: "keys_ok (d, s) \<Longrightarrow> evicts s s' \<Longrightarrow> keys_ok (d, s')"
  unfolding keys_ok_def evicts_def fst_conv snd_conv by (metis option.distinct(1))

lemma entries_ok:
  assumes "keys_ok (d, s)" "\<And>k. keyEntry k s' = keyEntry k s" "countEntry s' = countEntry s"
  shows "keys_ok (d, s')"
  using assms by (simp add: keys_ok_def)

lemma sync_ok [simp]: "keys_ok (d, syncAPIKeyAllowedGroups now r s) = keys_ok (d, s)"
  by (simp add: keys_ok_def)

lemma setCache_ok:
  assumes "keys_ok (d, s)" "r \<in> set (keyRows d)" "TrimSpace (rowKey r) = rowKey r"
  shows "keys_ok (d, setAPIKeyRuntimeCache now r s)"
proof (cases "TrimSpace (rowKey r) = [] \<or> rowID r \<le> 0 \<or> HasAccessConstraints r")
  case False
  have "keyEntry k (setAPIKeyRuntimeCache now r s) = Some e \<Longrightarrow> keyEntry k s = Some e \<or> backed d k e" for k e
    using False assms(2,3)
    by (auto simp: setAPIKeyRuntimeCache_def entry_write apiKeyCacheTTL_def go_defs recordOf_def backed_def split: if_splits)
  moreover have "countEntry (setAPIKeyRuntimeCache now r s) = countEntry s"
    using False by (simp add: setAPIKeyRuntimeCache_def entry_write apiKeyCacheTTL_def go_defs)
  ultimately show ?thesis using assms(1) unfolding keys_ok_def fst_conv snd_conv by (metis (no_types))
qed (use assms in \<open>auto simp: setAPIKeyRuntimeCache_def\<close>)

lemma byValue_Some: "GetAPIKeyByValue up k d = DBOk r \<Longrightarrow> r \<in> set (keyRows d) \<and> rowKey r = k"
  by (auto simp: GetAPIKeyByValue_def firstRow_def find_Some_iff in_set_conv_nth split: option.splits if_splits)

lemma fromCache_cases:
  assumes "resolveAPIKeyFromRuntimeCache now k s = (s', ro)"
  shows "evicts s s' \<and> (ro \<noteq> None \<longrightarrow> (\<exists>e raw rec. keyEntry k s = Some e \<and> payload e = Some raw \<and> unmarshalKey raw = Some rec \<and>
    ro = Some (plainRow (recID rec) (recName rec) k (recCreatedAt rec))))"
proof -
  obtain s1 raw where r: "readRuntime now apiKeyCacheNamespace k s = (s1, raw)" by force
  show ?thesis using readRuntime_cases [OF r] assms
    by (auto simp: resolveAPIKeyFromRuntimeCache_def r split: option.splits if_splits)
qed

lemma resolve_ok:
  assumes "keys_ok (d, s)"
  shows "keys_ok (d, fst (resolveAPIKey {} now up d k s))"
proof (cases "TrimSpace k = []")
  case False
  obtain s1 ro where c: "resolveAPIKeyFromRuntimeCache now (TrimSpace k) s = (s1, ro)" by force
  have ok: "keys_ok (d, s1)" using evicts_ok [OF assms] fromCache_cases [OF c] by blast
  have "keys_ok (d, fst (finishResolve now (GetAPIKeyByValue up (TrimSpace k) d) s1))"
  proof (cases "GetAPIKeyByValue up (TrimSpace k) d")
    case (DBOk r)
    then have "r \<in> set (keyRows d)" "TrimSpace (rowKey r) = rowKey r" using byValue_Some [OF DBOk] by simp_all
    then show ?thesis using setCache_ok [OF ok] DBOk by (simp add: finishResolve_def)
  qed (use ok in \<open>simp_all add: finishResolve_def\<close>)
  then show ?thesis using ok c False by (simp add: resolveAPIKey_def Let_def split: option.split)
qed (use assms in \<open>simp add: resolveAPIKey_def\<close>)

lemma countFromTable_ok:
  assumes "keys_ok (d, s)"
  shows "keys_ok (d, fst (case CountAPIKeys up d of
     DBOk n \<Rightarrow> (writeRuntime now apiKeyCountCacheNamespace ''all'' (marshalCount n) apiKeyCountCacheTTL s, n > 0) | _ \<Rightarrow> (s, False)))"
  using assms by (auto simp: CountAPIKeys_def keys_ok_def entry_write_count apiKeyCountCacheTTL_def go_defs split: if_splits)

lemma hasAnyKeys_ok:
  assumes "keys_ok (d, s)"
  shows "keys_ok (d, fst (hasAnyKeys {} now up d s))"
proof -
  obtain s1 raw where r: "readRuntime now apiKeyCountCacheNamespace ''all'' s = (s1, raw)" by force
  then have "keys_ok (d, s1)" using evicts_ok [OF assms] readRuntime_cases [OF r] by blast
  then show ?thesis using countFromTable_ok [of d s1] r by (simp add: hasAnyKeys_def Let_def split: option.split)
qed

lemma auth_ok:
  assumes "keys_ok (d, s)"
  shows "keys_ok (d, fst (authMiddleware anon {} now up d hdr s))"
proof -
  obtain s1 b where h: "hasAnyKeys {} now up d s = (s1, b)" by force
  then have ok: "keys_ok (d, s1)" using hasAnyKeys_ok [OF assms, of now up] by simp
  obtain s2 ro where r: "resolveAPIKey {} now up d (presentedKey (authHeaderOf hdr)) s1 = (s2, ro)" by force
  then have "keys_ok (d, s2)" using resolve_ok [OF ok, of now up] by (metis fst_conv)
  then show ?thesis using ok by (simp add: authMiddleware_def h r Let_def split: bool.split option.split)
qed

subsection \<open>Administration keeps it\<close>

lemma insert_ok:
  assumes "keys_ok (d, s)" "InsertAPIKeyWithOptions up now i d = (d', DBOk j)"
  shows "keys_ok (d', invalidateAPIKeyRuntimeCaches k (setGroupsIf t j gs s))"
proof -
  have new: "\<forall>r \<in> set (keyRows d). rowKey r \<noteq> inKey i" and d': "keyRows d' = keyRows d @ [last (keyRows d')]"
    "rowID (last (keyRows d')) = nextKeyID d" "rowKey (last (keyRows d')) = inKey i" "0 \<le> QuotaLimit (last (keyRows d'))" "nextKeyID d' = nextKeyID d + 1"
    using assms(2) by (auto simp: InsertAPIKeyWithOptions_def list_ex_iff atLeast0_def split: if_splits)
  have t: "table_ok d" using assms(1) by (simp add: keys_ok_def)
  have "table_ok d'" unfolding table_ok_def by (subst (1 2 3) d'(1)) (use t new d'(2-5) in \<open>force simp: table_ok_def\<close>)
  moreover have "backed d k e \<Longrightarrow> backed d' k e" for k e by (erule backed_mono) (subst d'(1), simp)
  ultimately show ?thesis using assms(1) by (simp add: keys_ok_def entry_invalidate)
qed

lemma create_ok:
  assumes "keys_ok ds"
  shows "keys_ok (fst (CreateAPIKey e req ds))"
proof -
  have "keys_ok (fst (insertKey e req name key q x gs ds))" for name key q x gs
  proof -
    obtain d' a where i: "InsertAPIKeyWithOptions (aeUp e) (aeNow e) \<lparr>inName = name, inKey = key, inQuotaLimit = q, inQuotaUsed = 0, inExpiresAt = x,
        inAllowedGroupIDs = orKeep gs [], inLimits = (case crLimits req of None \<Rightarrow> noLimits | Some l \<Rightarrow> sanitizeAPIKeyLimits l)\<rparr> (fst ds) = (d', a)" by force
    then have "a = DBError \<and> d' = fst ds \<or> (\<exists>j. a = DBOk j)" by (auto simp: InsertAPIKeyWithOptions_def split: if_splits)
    then show ?thesis using i insert_ok [of "fst ds" "snd ds"] assms by (auto simp: insertKey_def)
  qed
  then show ?thesis using assms unfolding CreateAPIKey_def Let_def by (auto split: sum.split option.split)
qed

text \<open>Changing or removing the row of one key, whose entries are dropped.\<close>

lemma change_ok:
  assumes "keys_ok (d, s)" "table_ok d'" "\<And>r. r \<in> set (keyRows d) \<Longrightarrow> rowID r \<noteq> i \<Longrightarrow> r \<in> set (keyRows d')"
    and "\<And>r. r \<in> set (keyRows d) \<Longrightarrow> rowID r = i \<Longrightarrow> rowKey r = k"
  shows "keys_ok (d', invalidateAPIKeyRuntimeCaches k (setGroupsIf t i gs s))"
proof -
  have "backed d' k' e" if e: "keyEntry k' s = Some e" "TrimSpace k' \<noteq> TrimSpace k" for k' e
  proof (rule backed_mono [of d])
    show "backed d k' e" using assms(1) e(1) by (simp add: keys_ok_def)
    show "\<And>r. r \<in> set (keyRows d) \<Longrightarrow> rowKey r = TrimSpace k' \<Longrightarrow> r \<in> set (keyRows d')"
      using assms(3,4) e(2) by (metis TrimSpace_idem)
  qed
  then show ?thesis using assms(2) by (simp add: keys_ok_def entry_invalidate)
qed

lemma row_by_id:
  assumes "table_ok d" "GetAPIKeyByID up i d = DBOk row" "r \<in> set (keyRows d)" "rowID r = i"
  shows "rowKey r = rowKey row"
proof -
  have "row \<in> set (keyRows d)" "rowID row = i"
    using assms(2) by (auto simp: GetAPIKeyByID_def firstRow_def find_Some_iff in_set_conv_nth split: option.splits if_splits)
  then show ?thesis using assms(1,3,4) inj_onD [of rowID "set (keyRows d)" r row] by (simp add: table_ok_def distinct_map)
qed

lemma table_update:
  assumes "table_ok d" "\<And>r. rowID (f r) = rowID r \<and> rowKey (f r) = rowKey r \<and> (0 \<le> QuotaLimit r \<longrightarrow> 0 \<le> QuotaLimit (f r))"
  shows "table_ok (d\<lparr>keyRows := map f (keyRows d)\<rparr>)"
  using assms by (auto simp: table_ok_def comp_def)

lemma update_table:
  assumes "table_ok d" "UpdateAPIKey up i u d = (d', DBOk x)"
  shows "table_ok d' \<and> (\<forall>r \<in> set (keyRows d). rowID r \<noteq> i \<longrightarrow> r \<in> set (keyRows d'))"
proof -
  let ?f = "\<lambda>r. if rowID r = i then applyUpdate u r else r"
  have "rowID (?f r) = rowID r \<and> rowKey (?f r) = rowKey r \<and> (0 \<le> QuotaLimit r \<longrightarrow> 0 \<le> QuotaLimit (?f r))" for r
    by (simp add: applyUpdate_def orKeep_def atLeast0_def split: option.split)
  then have "table_ok (d\<lparr>keyRows := map ?f (keyRows d)\<rparr>)" by (rule table_update [OF assms(1)])
  then show ?thesis using assms by (force simp: UpdateAPIKey_def updateRows_def split: if_splits)
qed

lemma update_ok:
  assumes "keys_ok ds"
  shows "keys_ok (fst (updateAPIKeyHandler e i req ds))"
proof -
  have "keys_ok (fst (storeUpdate e i row u gs ds))" if g: "GetAPIKeyByID (aeUp e) i (fst ds) = DBOk row" for row u gs
  proof -
    obtain d' a where u: "UpdateAPIKey (aeUp e) i u (fst ds) = (d', a)" by force
    have "a = ErrNoRows \<or> a = DBError \<Longrightarrow> d' = fst ds"
      using u g by (auto simp: UpdateAPIKey_def updateRows_def GetAPIKeyByID_def firstRow_def find_Some_iff list_ex_iff split: if_splits option.splits)
    moreover have "keys_ok (d', invalidateAPIKeyRuntimeCaches (rowKey row) (setGroupsIf (aeNow e) i gs (snd ds)))" if "a = DBOk x" for x
    proof (rule change_ok [of "fst ds"])
      show "keys_ok (fst ds, snd ds)" using assms by simp
      then have t: "table_ok (fst ds)" by (simp add: keys_ok_def)
      show "table_ok d'" "\<And>r. r \<in> set (keyRows (fst ds)) \<Longrightarrow> rowID r \<noteq> i \<Longrightarrow> r \<in> set (keyRows d')"
        using update_table [OF t] u that by auto
      show "\<And>r. r \<in> set (keyRows (fst ds)) \<Longrightarrow> rowID r = i \<Longrightarrow> rowKey r = rowKey row" using row_by_id [OF t g] .
    qed
    ultimately show ?thesis using u assms by (cases a) (auto simp: storeUpdate_def)
  qed
  then show ?thesis using assms unfolding updateAPIKeyHandler_def by (auto split: sum.split option.split dbResult.split)
qed

lemma delete_ok:
  assumes "keys_ok ds"
  shows "keys_ok (fst (DeleteAPIKey e i ds))"
proof (cases "aeUp e")
  case True
  let ?k = "case GetAPIKeyByID (aeUp e) i (fst ds) of DBOk row \<Rightarrow> rowKey row | _ \<Rightarrow> []"
  let ?d = "(fst ds)\<lparr>keyRows := filter (\<lambda>r. rowID r \<noteq> i) (keyRows (fst ds))\<rparr>"
  have t: "table_ok (fst ds)" using assms by (cases ds) (simp add: keys_ok_def)
  have "rowKey r = ?k" if "r \<in> set (keyRows (fst ds))" "rowID r = i" for r
  proof (cases "GetAPIKeyByID (aeUp e) i (fst ds)")
    case (DBOk row)
    then show ?thesis using row_by_id [OF t DBOk that] by simp
  qed (use that True in \<open>auto simp: GetAPIKeyByID_def firstRow_def find_None_iff split: option.splits if_splits\<close>)
  moreover have "table_ok ?d" using t by (auto simp: table_ok_def distinct_map_filter)
  ultimately have "keys_ok (?d, invalidateAPIKeyRuntimeCaches ?k (setGroupsIf (aeNow e) i (Some []) (snd ds)))"
    using assms by (intro change_ok [of "fst ds"]) simp_all
  then show ?thesis using True by (simp add: DeleteAPIKey_def dbDeleteAPIKey_def setGroupsIf_def Let_def)
next
  case False
  then show ?thesis using assms by (simp add: DeleteAPIKey_def dbDeleteAPIKey_def Let_def)
qed

lemma usage_ok:
  assumes "keys_ok (d, s)"
  shows "keys_ok (applyAPIKeyQuotaUsage batch d, s)"
proof -
  let ?f = "\<lambda>r. let amount = usageOfKey batch (rowID r) in if amount \<le> 0 then r else r\<lparr>QuotaUsed := QuotaUsed r + amount\<rparr>"
  have f: "rowID (?f r) = rowID r \<and> rowKey (?f r) = rowKey r \<and> (0 \<le> QuotaLimit r \<longrightarrow> 0 \<le> QuotaLimit (?f r))"
    "HasAccessConstraints (?f r) = HasAccessConstraints r" "recordOf (?f r) = recordOf r" for r
    by (simp_all add: Let_def HasAccessConstraints_def recordOf_def)
  have "table_ok (d\<lparr>keyRows := map ?f (keyRows d)\<rparr>)" using assms f(1) by (intro table_update) (simp_all add: keys_ok_def)
  moreover have "backed d k e \<Longrightarrow> backed (d\<lparr>keyRows := map ?f (keyRows d)\<rparr>) k e" for k e
    unfolding backed_def using f by fastforce
  ultimately show ?thesis using assms by (simp add: keys_ok_def applyAPIKeyQuotaUsage_def)
qed

subsection \<open>Everything that happens to keys\<close>

text \<open>A step is a request, an operation of the administrator, a flush of usage, or anything else that happens to the store, which may
  evict entries of the two namespaces and writes none.\<close>

inductive key_step :: "apiKeyTable \<times> Store \<Rightarrow> apiKeyTable \<times> Store \<Rightarrow> bool" where
  request: "key_step (d, s) (d, fst (authMiddleware anon {} now up d hdr s))"
| create: "key_step ds (fst (CreateAPIKey e creq ds))"
| update: "key_step ds (fst (updateAPIKeyHandler e i ureq ds))"
| delete: "key_step ds (fst (DeleteAPIKey e i ds))"
| usage: "key_step (d, s) (applyAPIKeyQuotaUsage batch d, s)"
| other: "evicts s s' \<Longrightarrow> key_step (d, s) (d, s')"

interpretation key_machine: invariant_machine key_step keys_ok
  by unfold_locales (auto elim!: key_step.cases intro: auth_ok create_ok update_ok delete_ok usage_ok evicts_ok)

subsection \<open>The decision\<close>

definition tableRow :: "string \<Rightarrow> apiKeyTable \<Rightarrow> APIKeyRow option" where
  "tableRow key d = find (\<lambda>r. rowKey r = key) (keyRows d)"

lemma tableRow_iff:
  assumes "table_ok d"
  shows "tableRow k d = Some r \<longleftrightarrow> r \<in> set (keyRows d) \<and> rowKey r = k"
proof
  assume "r \<in> set (keyRows d) \<and> rowKey r = k"
  then have "tableRow k d \<noteq> None" by (auto simp: tableRow_def find_None_iff)
  then obtain r' where r': "tableRow k d = Some r'" by blast
  then have "r' \<in> set (keyRows d)" "rowKey r' = k" by (auto simp: tableRow_def find_Some_iff)
  then have "r' = r" using assms \<open>r \<in> _ \<and> _\<close> inj_onD [of rowKey "set (keyRows d)" r' r] by (simp add: table_ok_def distinct_map)
  then show "tableRow k d = Some r" using r' by simp
qed (auto simp: tableRow_def find_Some_iff)

lemma unconstrained_row:
  assumes "\<not> HasAccessConstraints r" "0 \<le> QuotaLimit r"
  shows "plainRow (rowID r) (rowName r) (rowKey r) (rowCreatedAt r) = r\<lparr>QuotaUsed := 0\<rparr>"
  using assms by (cases r) (auto simp: HasAccessConstraints_def plainRow_def noLimits_def IsZero_def intro: APIKeyLimits.equality)

text \<open>What a lookup returns for a row of the table: the row itself or, from the cache, the row without its usage.\<close>

definition sameRow :: "APIKeyRow \<Rightarrow> APIKeyRow \<Rightarrow> bool" where
  "sameRow row r \<longleftrightarrow> row = r \<or> \<not> HasAccessConstraints r \<and> row = r\<lparr>QuotaUsed := 0\<rparr>"

lemma sameRow_tests: "sameRow row r \<Longrightarrow> IsExpired now row = IsExpired now r \<and> IsQuotaExhausted row = IsQuotaExhausted r"
  by (auto simp: sameRow_def IsExpired_def IsQuotaExhausted_def HasAccessConstraints_def)

lemma resolve_decides:
  assumes "keys_ok (d, s)" "resolveAPIKey {} now True d k s = (s', ro)" "TrimSpace k = k"
  shows "case ro of None \<Rightarrow> k = [] \<or> tableRow k d = None | Some row \<Rightarrow> (\<exists>r. tableRow k d = Some r \<and> sameRow row r)"
proof (cases "k = []")
  case True
  then show ?thesis using assms(2) by (auto simp: resolveAPIKey_def)
next
  case False
  have t: "table_ok d" using assms(1) by (simp add: keys_ok_def)
  obtain s1 rc where c: "resolveAPIKeyFromRuntimeCache now k s = (s1, rc)" by force
  show ?thesis
  proof (cases rc)
    case None
    then have "finishResolve now (GetAPIKeyByValue True k d) s1 = (s', ro)" using assms(2,3) False c by (simp add: resolveAPIKey_def)
    then show ?thesis
      by (auto simp: finishResolve_def GetAPIKeyByValue_def firstRow_def tableRow_def sameRow_def split: option.splits)
  next
    case (Some row)
    then obtain e raw rec where e: "keyEntry k s = Some e" "payload e = Some raw" "unmarshalKey raw = Some rec"
      "row = plainRow (recID rec) (recName rec) k (recCreatedAt rec)" using fromCache_cases [OF c] by auto
    obtain r where r: "r \<in> set (keyRows d)" "rowKey r = k" "\<not> HasAccessConstraints r" "payload e = Some (marshalKey (recordOf r))"
      using keys_ok_backed [OF assms(1) e(1)] assms(3) by (auto simp: backed_def)
    then have "row = r\<lparr>QuotaUsed := 0\<rparr>"
      using e unconstrained_row [of r] t by (auto simp: recordOf_def table_ok_def)
    then show ?thesis
      using assms(2,3) False c Some r tableRow_iff [OF t, of k r] by (auto simp: resolveAPIKey_def sameRow_def)
  qed
qed

lemma hasAnyKeys_decides:
  assumes "keys_ok (d, s)" "hasAnyKeys {} now True d s = (s', b)"
  shows "b \<longleftrightarrow> keyRows d \<noteq> []"
proof -
  obtain s1 raw where r: "readRuntime now apiKeyCountCacheNamespace ''all'' s = (s1, raw)" by force
  have "raw = Some (Some x) \<Longrightarrow> x = marshalCount (int (length (keyRows d)))" for x
    using readRuntime_cases [OF r] assms(1) by (auto simp: keys_ok_def)
  then show ?thesis using assms(2) r by (auto simp: hasAnyKeys_def CountAPIKeys_def Let_def split: option.splits)
qed

lemma presentedKey_trimmed: "TrimSpace (presentedKey h) = presentedKey h"
  by (simp add: presentedKey_def)

lemma groups_after_sync:
  "0 < rowID r \<Longrightarrow> apiKeyAllowedGroupSets (syncAPIKeyAllowedGroups now r s) (rowID r) =
     (let gs = normalizeAllowedGroupIDs (AllowedGroupIDs r) in if gs = [] then None else Some (set gs))"
  by (simp add: syncAPIKeyAllowedGroups_def SetAPIKeyAllowedGroups_def rebuildFastScheduler_def Let_def split: option.split prod.split)

lemma groups_after_resolve:
  assumes "resolveAPIKey {} now up d k s = (s', Some row)" "0 < rowID row"
  shows "apiKeyAllowedGroupSets s' (rowID row) =
     (let gs = normalizeAllowedGroupIDs (AllowedGroupIDs row) in if gs = [] then None else Some (set gs))"
proof -
  have "\<exists>s1. s' = syncAPIKeyAllowedGroups now row s1"
    using assms(1) by (auto simp: resolveAPIKey_def finishResolve_def Let_def split: if_splits prod.splits option.splits dbResult.splits)
  then show ?thesis using groups_after_sync [OF assms(2)] by auto
qed


definition demoKeys :: apiKeyTable where
  "demoKeys = \<lparr>keyRows = [plainRow 1 ''team'' ''sk-0123456789abcdef'' 500], nextKeyID = 2\<rparr>"

definition demoHeaders :: "string \<Rightarrow> string" where
  "demoHeaders h = (if h = ''Authorization'' then ''Bearer sk-0123456789abcdef'' else [])"

definition demoKeyStore :: Store where
  "demoKeyStore = NewStore (Some (NewMemory 1)) None False None"

lemma demo_presented: "presentedKey (authHeaderOf demoHeaders) = ''sk-0123456789abcdef''" "authHeaderOf demoHeaders \<noteq> []"
  by code_simp+

lemma demoKeyStore_empty: "entryAt ns k demoKeyStore = None"
  by (simp add: demoKeyStore_def NewStore_def NewMemory_def entryAt_def Let_def)

lemma demoKeys_ok: "table_ok demoKeys"
  by (simp add: demoKeys_def table_ok_def plainRow_def)


subsection \<open>Two flaws\<close>

text \<open>
  C38: A lookup that overlaps a change of the key defeats the change for five minutes. If a request has read the row of an unconstrained key
  and the administrator then limits, restricts or deletes the key, the request still writes the old row to the cache; every
  later request within the time to live is authenticated by it, whatever the table says, without limits, and with the groups of the key lifted at the store.\<close>
theorem constraint_bypassed_after_race:
  assumes "GetAPIKeyByValue True k d = DBOk r" "TrimSpace k = k" "k \<noteq> []" "0 < rowID r" "\<not> HasAccessConstraints r"
    and "tokenCache s \<noteq> None" "0 < now" "now \<le> t" "t \<le> now + 5 * Minute"
  defines "s1 \<equiv> fst (finishResolve now (GetAPIKeyByValue True k d) s)"
  shows "\<exists>row. snd (resolveAPIKey {} t up d' k s1) = Some row \<and> rowID row = rowID r \<and> \<not> HasAccessConstraints row \<and> \<not> IsExpired t row \<and>
    apiKeyAllowedGroupSets (fst (resolveAPIKey {} t up d' k s1)) (rowID r) = None"
proof -
  have k: "rowKey r = k" using byValue_Some [OF assms(1)] by simp
  have s1: "s1 = syncAPIKeyAllowedGroups now r (writeRuntime now apiKeyCacheNamespace k (marshalKey (recordOf r)) apiKeyCacheTTL s)"
    using assms(1-5) k by (simp add: s1_def finishResolve_def setAPIKeyRuntimeCache_def recordOf_def)
  have e: "keyEntry k s1 = Some \<lparr>payload = Some (marshalKey (recordOf r)), expiresAt = now + 5 * Minute\<rparr>"
    using assms(2,3,6) unfolding s1 by (simp add: entry_write apiKeyCacheTTL_def go_defs)
  obtain tc where tc: "tokenCache s1 = Some tc" using e by (auto simp: entryAt_def split: option.splits)
  have "readRuntime t apiKeyCacheNamespace k s1 = (s1, Some (Some (marshalKey (recordOf r))))"
    using e tc assms(7-9) by (auto simp: readRuntime_def GetRuntime_def entryAt_def expired_def Let_def split: if_splits)
  then have "resolveAPIKey {} t up d' k s1 =
      (syncAPIKeyAllowedGroups t (plainRow (rowID r) (rowName r) k (rowCreatedAt r)) s1, Some (plainRow (rowID r) (rowName r) k (rowCreatedAt r)))"
    using assms(2-4) by (simp add: resolveAPIKey_def resolveAPIKeyFromRuntimeCache_def recordOf_def)
  moreover have "\<not> HasAccessConstraints (plainRow (rowID r) (rowName r) k (rowCreatedAt r))"
    by (simp add: HasAccessConstraints_def plainRow_def noLimits_def IsZero_def)
  ultimately show ?thesis
    using groups_after_sync [of "plainRow (rowID r) (rowName r) k (rowCreatedAt r)" t s1] assms(4)
    by (simp add: plainRow_def IsExpired_def normalizeAllowedGroupIDs_def)
qed

text \<open>The key of the table is deleted while its lookup is under way.\<close>

theorem constraint_bypassed_after_race_witness:
  "\<exists>row. snd (resolveAPIKey {} 2000 True \<lparr>keyRows = [], nextKeyID = 2\<rparr> ''sk-0123456789abcdef''
     (fst (finishResolve 1000 (GetAPIKeyByValue True ''sk-0123456789abcdef'' demoKeys) demoKeyStore))) = Some row \<and> rowID row = 1"
proof -
  have g: "GetAPIKeyByValue True ''sk-0123456789abcdef'' demoKeys = DBOk (plainRow 1 ''team'' ''sk-0123456789abcdef'' 500)"
    by (simp add: GetAPIKeyByValue_def firstRow_def demoKeys_def plainRow_def)
  have "TrimSpace ''sk-0123456789abcdef'' = ''sk-0123456789abcdef''" by code_simp
  moreover have "tokenCache demoKeyStore \<noteq> None" by (simp add: demoKeyStore_def NewStore_def Let_def)
  ultimately show ?thesis
    using constraint_bypassed_after_race [OF g, of demoKeyStore 1000 2000 True "\<lparr>keyRows = [], nextKeyID = 2\<rparr>"] g
    by (auto simp: plainRow_def HasAccessConstraints_def noLimits_def IsZero_def go_defs)
qed

text \<open>
  Supplement: When anonymous access is allowed and the number of keys can neither be read from the cache nor counted, every request goes through
  without a key, although keys exist.\<close>
theorem anonymous_when_count_fails:
  assumes "countEntry s = None"
  shows "snd (authMiddleware True {} now False d hdr s) = Anonymous"
proof -
  obtain s1 raw where r: "readRuntime now apiKeyCountCacheNamespace ''all'' s = (s1, raw)" by force
  then have "raw = None" using readRuntime_cases [OF r] assms by (cases raw) auto
  then show ?thesis using r by (simp add: authMiddleware_def hasAnyKeys_def CountAPIKeys_def Let_def)
qed

theorem anonymous_when_count_fails_witness:
  "keyRows demoKeys \<noteq> [] \<and> snd (authMiddleware True {} 1000 False demoKeys (\<lambda>_. []) demoKeyStore) = Anonymous"
  using anonymous_when_count_fails [OF demoKeyStore_empty, of 1000 demoKeys "\<lambda>_. []"] by (simp add: demoKeys_def)

text \<open>
  Supplement: A key that the administrator chose with white space at its end is stored as it is but can never authenticate a request, because
  the presented key is trimmed before it is looked up.\<close>
theorem padded_key_never_accepted:
  assumes "keys_ok (d, s)" "r \<in> set (keyRows d)" "TrimSpace (rowKey r) \<noteq> rowKey r"
    and "authMiddleware anon {} now True d hdr s = (s', Authenticated row k)"
  shows "rowKey row \<noteq> rowKey r"
proof -
  obtain s1 b where h: "hasAnyKeys {} now True d s = (s1, b)" by force
  have ok1: "keys_ok (d, s1)" using hasAnyKeys_ok [OF assms(1), of now True] h by simp
  let ?k = "presentedKey (authHeaderOf hdr)"
  obtain s2 ro where res: "resolveAPIKey {} now True d ?k s1 = (s2, ro)" by force
  have "ro = Some row" using assms(4) h res by (auto simp: authMiddleware_def reject_def Let_def split: bool.splits if_splits option.splits)
  then obtain x where "tableRow ?k d = Some x" "sameRow row x" using resolve_decides [OF ok1 res presentedKey_trimmed] by auto
  then have "rowKey row = ?k" using tableRow_iff [of d ?k x] ok1 by (auto simp: sameRow_def keys_ok_def)
  then show ?thesis using assms(3) presentedKey_trimmed [of "authHeaderOf hdr"] by metis
qed

end
