(* ===== verification/PromptFilter.thy ===== *)
theory PromptFilter
  imports Gjson Account SecurityText Validation "HOL-Library.AList"
begin

section \<open>The prompt filter\<close>

text \<open>
  Models \<open>security/promptfilter/filter.go\<close> and the decision of \<open>proxy/prompt_filter.go\<close>: a text is cut to a head and a tail,
  normalised, searched for sensitive words and patterns, and the weights of what was found decide with the
  thresholds and the mode of the configuration.

  \<open>compile\<close> stands for \<open>regexp.Compile\<close> and yields the test of a pattern; the tables of \<open>patterns.go\<close> are the arguments
  \<open>builtins\<close> and \<open>defensive\<close>, the latter with its patterns compiled. Letters and control characters are those of ASCII, as in theory
  \<open>GoStrings\<close>. The decoding and encoding of the configuration as JSON is not modelled.
\<close>

subsection \<open>Configuration\<close>

record PatternConfig =
  pcName :: string
  pcPattern :: string
  pcWeight :: int
  pcCategory :: string
  pcStrict :: bool
  pcEnabled :: "bool option"

record Config =
  cfEnabled :: bool
  cfMode :: string
  cfThreshold :: int
  cfStrictThreshold :: int
  cfLogMatches :: bool
  cfMaxTextLength :: int
  cfSensitiveWords :: string
  cfCustomPatterns :: "PatternConfig list"
  cfDisabledPatterns :: "string list"

record Match =
  mtName :: string
  mtWeight :: int
  mtCategory :: string
  mtStrict :: bool

record Verdict =
  vdEnabled :: bool
  vdMode :: string
  vdAction :: string
  vdScore :: int
  vdRawScore :: int
  vdThreshold :: int
  vdStrictHit :: bool
  vdMatched :: "Match list"
  vdReason :: string
  vdTextPreview :: string
  vdExtractedChars :: int

definition DefaultMaxTextLength :: int where
  "DefaultMaxTextLength = 80 * 1024"

definition DefaultConfig :: Config where
  "DefaultConfig = \<lparr>cfEnabled = False, cfMode = ''monitor'', cfThreshold = 50, cfStrictThreshold = 90, cfLogMatches = True,
     cfMaxTextLength = DefaultMaxTextLength, cfSensitiveWords = [], cfCustomPatterns = [], cfDisabledPatterns = []\<rparr>"

definition normalizePatternNames :: "string list \<Rightarrow> string list" where
  "normalizePatternNames names = stable_sort (\<lambda>x y. lex_less (ToLower x) (ToLower y)) (dedupFold [] names)"

definition normalizeMode :: "string \<Rightarrow> string" where
  "normalizeMode mode0 =
     (let mode = ToLower (TrimSpace (if TrimSpace mode0 = [] then cfMode DefaultConfig else mode0))
      in if mode = ''block'' then ''block'' else if mode = ''warn'' then ''warn'' else ''monitor'')"

definition NormalizeConfig :: "Config \<Rightarrow> Config" where
  "NormalizeConfig cfg =
     (let t1 = (if cfThreshold cfg \<le> 0 then cfThreshold DefaultConfig else cfThreshold cfg);
          t2 = (if t1 > 500 then 500 else t1);
          s1 = (if cfStrictThreshold cfg \<le> 0 then cfStrictThreshold DefaultConfig else cfStrictThreshold cfg);
          s2 = (if s1 < t2 then t2 else s1);
          s3 = (if s2 > 1000 then 1000 else s2);
          m1 = (if cfMaxTextLength cfg \<le> 0 then cfMaxTextLength DefaultConfig else cfMaxTextLength cfg);
          m2 = (if m1 > 1024 * 1024 then 1024 * 1024 else m1)
      in cfg\<lparr>cfMode := normalizeMode (cfMode cfg), cfThreshold := t2, cfStrictThreshold := s3, cfMaxTextLength := m2,
             cfDisabledPatterns := normalizePatternNames (cfDisabledPatterns cfg)\<rparr>)"

subsection \<open>Texts\<close>

definition isControl :: "char \<Rightarrow> bool" where
  "isControl c \<longleftrightarrow> byteOf c < 32 \<or> byteOf c = 127"

fun Fields :: "string \<Rightarrow> string \<Rightarrow> string list" where
  "Fields cur [] = (if cur = [] then [] else [rev cur])"
| "Fields cur (c # s) =
     (if is_space c then (if cur = [] then Fields [] s else rev cur # Fields [] s) else Fields (c # cur) s)"

function ReplaceFences :: "string \<Rightarrow> string" where
  "ReplaceFences [] = []"
| "ReplaceFences (c # s) = (if HasPrefix (c # s) [CHR 0x60, CHR 0x60, CHR 0x60] then CHR '' '' # ReplaceFences (drop 3 (c # s)) else c # ReplaceFences s)"
  by pat_completeness auto
termination
  by (relation "measure length") auto

definition normalizeForScan :: "string \<Rightarrow> string" where
  "normalizeForScan text =
     (let mapped = map (\<lambda>c. if isControl c \<and> byteOf c \<notin> {10, 13, 9} then CHR '' '' else lower_char c) (ReplaceFences text)
      in Join (Fields [] mapped) '' '')"

definition limitScanText :: "string \<Rightarrow> int \<Rightarrow> string" where
  "limitScanText text maxLen0 =
     (let maxLen = (if maxLen0 \<le> 0 then DefaultMaxTextLength else maxLen0); n = int (length text)
      in if n \<le> maxLen then text
         else let h0 = 64 * 1024; t0 = 16 * 1024;
                  h1 = (if maxLen < h0 + t0 then maxLen * 4 div 5 else h0);
                  t1 = (if maxLen < h0 + t0 then maxLen - h1 else t0);
                  h2 = (if h1 > n then n else h1);
                  t2 = (if t1 > n - h2 then n - h2 else t1)
              in take (nat h2) text @ [CHR 0x0A] @ drop (nat (n - t2)) text)"

definition Preview :: "string \<Rightarrow> int \<Rightarrow> string" where
  "Preview text0 maxRunes =
     (let text = Join (Fields [] (TrimSpace text0)) '' ''
      in if maxRunes \<le> 0 then []
         else if int (RuneCountInString text) \<le> maxRunes then text
         else takeRunes (nat maxRunes) text @ ''...'')"

fun dedupStrings :: "string list \<Rightarrow> string list \<Rightarrow> string list" where
  "dedupStrings seen [] = []"
| "dedupStrings seen (x # xs) =
     (if x = [] \<or> x \<in> set seen then dedupStrings seen xs else x # dedupStrings (x # seen) xs)"

definition parseSensitiveWords :: "string \<Rightarrow> string list" where
  "parseSensitiveWords raw = dedupStrings [] (map (\<lambda>line. normalizeForScan (TrimSpace line)) (Split (CHR 0x0A) raw))"

subsection \<open>The engine\<close>

record Engine =
  egConfig :: Config
  egPatterns :: "(PatternConfig \<times> (string \<Rightarrow> bool)) list"
  egSensitiveWords :: "string list"

definition trimPattern :: "PatternConfig \<Rightarrow> PatternConfig" where
  "trimPattern p = p\<lparr>pcName := TrimSpace (pcName p), pcPattern := TrimSpace (pcPattern p), pcCategory := TrimSpace (pcCategory p)\<rparr>"

definition skipped :: "string set \<Rightarrow> PatternConfig \<Rightarrow> bool" where
  "skipped disabled p \<longleftrightarrow> pcName p = [] \<or> pcPattern p = [] \<or> pcWeight p \<le> 0 \<or> ToLower (pcName p) \<in> disabled \<or> pcEnabled p = Some False"

definition disabledPatternSet :: "string list \<Rightarrow> string set" where
  "disabledPatternSet names = set (map (\<lambda>n. ToLower (TrimSpace n)) (filter (\<lambda>n. TrimSpace n \<noteq> []) names))"

text \<open>\<open>Inl\<close> is the name of the pattern that does not compile.\<close>

fun compileAll ::
  "(string \<Rightarrow> (string \<Rightarrow> bool) option) \<Rightarrow> string set \<Rightarrow> PatternConfig list \<Rightarrow> string + (PatternConfig \<times> (string \<Rightarrow> bool)) list" where
  "compileAll compile disabled [] = Inr []"
| "compileAll compile disabled (p0 # ps) =
     (let p = trimPattern p0
      in if skipped disabled p then compileAll compile disabled ps
         else case compile (pcPattern p) of
           None \<Rightarrow> Inl (pcName p)
         | Some re \<Rightarrow> (case compileAll compile disabled ps of Inl e \<Rightarrow> Inl e | Inr qs \<Rightarrow> Inr ((p, re) # qs)))"

definition NewEngine :: "(string \<Rightarrow> (string \<Rightarrow> bool) option) \<Rightarrow> PatternConfig list \<Rightarrow> Config \<Rightarrow> string + Engine" where
  "NewEngine compile builtins cfg0 =
     (let cfg = NormalizeConfig cfg0
      in case compileAll compile (disabledPatternSet (cfDisabledPatterns cfg)) (builtins @ cfCustomPatterns cfg) of
           Inl e \<Rightarrow> Inl e
         | Inr ps \<Rightarrow> Inr \<lparr>egConfig = cfg, egPatterns = ps, egSensitiveWords = parseSensitiveWords (cfSensitiveWords cfg)\<rparr>)"

definition wordMatch :: "string \<Rightarrow> Match" where
  "wordMatch word = \<lparr>mtName = ''sensitive_word:'' @ word, mtWeight = 100, mtCategory = ''sensitive_word'', mtStrict = True\<rparr>"

definition patternMatch :: "PatternConfig \<Rightarrow> Match" where
  "patternMatch p = \<lparr>mtName = pcName p, mtWeight = pcWeight p, mtCategory = pcCategory p, mtStrict = pcStrict p\<rparr>"

text \<open>The matches by name: a later match replaces an earlier one of the same name.\<close>

definition found :: "Engine \<Rightarrow> string \<Rightarrow> Match list" where
  "found e scanText =
     map wordMatch (filter (\<lambda>w. w \<noteq> [] \<and> Contains scanText w) (egSensitiveWords e)) @
     map (\<lambda>(p, re). patternMatch p) (filter (\<lambda>(p, re). re scanText) (egPatterns e))"

definition matchesByName :: "Engine \<Rightarrow> string \<Rightarrow> (string \<times> Match) list" where
  "matchesByName e scanText = fold (\<lambda>m al. AList.update (mtName m) m al) (found e scanText) []"

definition matchBefore :: "Match \<Rightarrow> Match \<Rightarrow> bool" where
  "matchBefore x y \<longleftrightarrow> (if mtWeight x = mtWeight y then lex_less (mtName x) (mtName y) else mtWeight x > mtWeight y)"

definition defensiveContextDiscount :: "(string \<Rightarrow> bool) list \<Rightarrow> string \<Rightarrow> int" where
  "defensiveContextDiscount defensive text =
     (let discount = 15 * int (length (filter (\<lambda>re. re text) defensive)) in if discount > 45 then 45 else discount)"

definition reasonForVerdict :: "string \<Rightarrow> int \<Rightarrow> int \<Rightarrow> Match list \<Rightarrow> string" where
  "reasonForVerdict action score threshold matches =
     (if matches = [] then []
      else let names = Join (map mtName (take 3 matches)) '', ''
           in if action = ''block'' then ''prompt blocked: score '' @ showInt score @ '' >= '' @ showInt threshold @ '' ('' @ names @ '')''
              else if action = ''warn'' then ''prompt warning: score '' @ showInt score @ '' >= '' @ showInt threshold @ '' ('' @ names @ '')''
              else ''prompt matched: score '' @ showInt score @ '' ('' @ names @ '')'')"

definition noVerdict :: "Config \<Rightarrow> string \<Rightarrow> Verdict" where
  "noVerdict cfg text =
     \<lparr>vdEnabled = cfEnabled cfg, vdMode = cfMode cfg, vdAction = ''allow'', vdScore = 0, vdRawScore = 0, vdThreshold = cfThreshold cfg,
      vdStrictHit = False, vdMatched = [], vdReason = [], vdTextPreview = Preview text 500, vdExtractedChars = int (RuneCountInString text)\<rparr>"

definition decideAction :: "Config \<Rightarrow> int \<Rightarrow> bool \<Rightarrow> string" where
  "decideAction cfg score strictHit =
     (if score \<ge> cfThreshold cfg \<or> strictHit
      then if cfMode cfg = ''block'' then ''block'' else if cfMode cfg = ''warn'' then ''warn'' else ''allow''
      else ''allow'')"

text \<open>\<open>ms\<close> lists the values of the map \<open>matchesByName\<close>, whose iteration order Go leaves open.\<close>

definition scoreMatches :: "(string \<Rightarrow> bool) list \<Rightarrow> Config \<Rightarrow> string \<Rightarrow> Match list \<Rightarrow> Verdict \<Rightarrow> Verdict" where
  "scoreMatches defensive cfg scanText ms verdict =
     (let rawScore = sum_list (map mtWeight ms);
          strictScore = sum_list (map mtWeight (filter mtStrict ms));
          matches = stable_sort matchBefore ms;
          score = (if rawScore > 0 then max 0 (rawScore - defensiveContextDiscount defensive scanText) else rawScore);
          strictHit = (strictScore \<ge> cfStrictThreshold cfg);
          action = decideAction cfg score strictHit
      in verdict\<lparr>vdAction := action, vdScore := score, vdRawScore := rawScore, vdStrictHit := strictHit, vdMatched := matches,
           vdReason := (if matches \<noteq> [] then reasonForVerdict action score (cfThreshold cfg) matches else vdReason verdict)\<rparr>)"

definition engineInspectText :: "(string \<Rightarrow> bool) list \<Rightarrow> Engine \<Rightarrow> string \<Rightarrow> Verdict" where
  "engineInspectText defensive e text =
     (let cfg = egConfig e; verdict = noVerdict cfg text
      in if \<not> cfEnabled cfg \<or> TrimSpace text = [] then verdict
         else let scanText = normalizeForScan (limitScanText text (cfMaxTextLength cfg))
              in if RuneCountInString scanText < 3 then verdict
                 else scoreMatches defensive cfg scanText (map snd (matchesByName e scanText)) verdict)"

definition InspectText ::
  "(string \<Rightarrow> (string \<Rightarrow> bool) option) \<Rightarrow> PatternConfig list \<Rightarrow> (string \<Rightarrow> bool) list \<Rightarrow> string \<Rightarrow> Config \<Rightarrow> Verdict" where
  "InspectText compile builtins defensive text cfg0 =
     (let cfg = NormalizeConfig cfg0; verdict = noVerdict cfg text
      in if \<not> cfEnabled cfg \<or> TrimSpace text = [] then verdict
         else case NewEngine compile builtins cfg of
           Inl name \<Rightarrow> verdict\<lparr>vdReason := ''compile pattern '' @ quoted name\<rparr>
         | Inr e \<Rightarrow> engineInspectText defensive e text)"

subsection \<open>The text of a request\<close>

text \<open>\<open>fuel\<close> bounds the nesting of the document, which is less than the length of its text.\<close>

fun collectGJSONText :: "nat \<Rightarrow> 'r gjson \<Rightarrow> 'r \<Rightarrow> string list" where
  "collectGJSONText 0 g r = []"
| "collectGJSONText (Suc fuel) g r =
     (if \<not> gjExists g r \<or> gjType g r = GNull then []
      else if gjIsArray g r then concat (map (collectGJSONText fuel g) (gjArray g r))
      else if gjIsObject g r then
        filter (\<lambda>t. t \<noteq> []) [TrimSpace (gjString g (gjGet g r ''text'')), TrimSpace (gjString g (gjGet g r ''content''))] @
        concat (map (\<lambda>(k, v). if k \<in> {''image_url'', ''file_id'', ''result''} then [] else collectGJSONText fuel g v) (gjEntries g r))
      else if gjType g r = GString \<and> TrimSpace (gjString g r) \<noteq> [] then [TrimSpace (gjString g r)]
      else [])"

definition extractPaths :: "string \<Rightarrow> string list" where
  "extractPaths endpoint0 =
     (let endpoint = ToLower (TrimSpace endpoint0)
      in if endpoint \<in> {''chat'', ''chat_completions'', ''/v1/chat/completions''} then [''messages'']
         else if endpoint \<in> {''messages'', ''anthropic'', ''/v1/messages''} then [''system'', ''messages'']
         else if endpoint \<in> {''image'', ''images'', ''images_generations'', ''images_edits'', ''/v1/images/generations'', ''/v1/images/edits''}
         then [''prompt'', ''style'']
         else [''instructions'', ''input'', ''prompt'', ''messages''])"

definition ExtractText :: "'r gjson \<Rightarrow> string \<Rightarrow> string \<Rightarrow> int \<Rightarrow> string" where
  "ExtractText g body endpoint maxLen =
     (if body = [] \<or> \<not> gjValid g body then []
      else limitScanText (Join (concat (map (\<lambda>path. collectGJSONText (length body) g (GetBytes g body path)) (extractPaths endpoint))) [CHR 0x0A]) maxLen)"

definition Inspect ::
  "'r gjson \<Rightarrow> (string \<Rightarrow> (string \<Rightarrow> bool) option) \<Rightarrow> PatternConfig list \<Rightarrow> (string \<Rightarrow> bool) list \<Rightarrow> string \<Rightarrow> string \<Rightarrow> Config \<Rightarrow> Verdict" where
  "Inspect g compile builtins defensive body endpoint cfg =
     InspectText compile builtins defensive (ExtractText g body endpoint (cfMaxTextLength (NormalizeConfig cfg))) cfg"

subsection \<open>Requests\<close>

text \<open>What the handlers know of a request: the client and the API key that the authentication left in the context.\<close>

record PromptFilterCaller =
  pfClientIP :: string
  pfAPIKeyID :: int
  pfAPIKeyName :: string
  pfAPIKeyMasked :: string

record PromptFilterLogInput =
  liSource :: string
  liEndpoint :: string
  liModel :: string
  liAction :: string
  liMode :: string
  liScore :: int
  liThreshold :: int
  liMatched :: "Match list"
  liTextPreview :: string
  liCaller :: PromptFilterCaller
  liErrorCode :: string

text \<open>The row that is inserted, if any; its matches are stored as JSON.\<close>

definition logPromptFilterVerdict ::
  "Config \<Rightarrow> PromptFilterCaller \<Rightarrow> string \<Rightarrow> string \<Rightarrow> string \<Rightarrow> string \<Rightarrow> Verdict \<Rightarrow> PromptFilterLogInput option" where
  "logPromptFilterVerdict cfg caller endpoint model source errorCode verdict =
     (if \<not> vdEnabled verdict then None
      else if source = ''local_filter'' \<and> vdMatched verdict = [] then None
      else if source = ''local_filter'' \<and> \<not> cfLogMatches cfg then None
      else Some \<lparr>liSource = source, liEndpoint = endpoint, liModel = model, liAction = vdAction verdict, liMode = vdMode verdict,
             liScore = vdScore verdict, liThreshold = vdThreshold verdict, liMatched = vdMatched verdict,
             liTextPreview = vdTextPreview verdict, liCaller = caller, liErrorCode = errorCode\<rparr>)"

text \<open>The logged row, the text of the warning header and the reply that blocks the request.\<close>

record PromptFilterOutcome =
  poLog :: "PromptFilterLogInput option"
  poWarning :: "string option"
  poReply :: "(int \<times> APIError) option"

definition promptOutcome :: "Config \<Rightarrow> PromptFilterCaller \<Rightarrow> string \<Rightarrow> string \<Rightarrow> Verdict \<Rightarrow> PromptFilterOutcome" where
  "promptOutcome cfg caller endpoint model verdict =
     \<lparr>poLog = logPromptFilterVerdict cfg caller endpoint model ''local_filter'' [] verdict,
      poWarning = (if vdAction verdict = ''warn'' then Some (vdReason verdict) else None),
      poReply = (if vdAction verdict \<noteq> ''block'' then None
                 else Some (400, NewAPIError ''prompt_blocked'' ''Request contains content blocked by prompt filter'' ''invalid_request_error''))\<rparr>"

definition inspectPromptFilterOpenAI ::
  "'r gjson \<Rightarrow> (string \<Rightarrow> (string \<Rightarrow> bool) option) \<Rightarrow> PatternConfig list \<Rightarrow> (string \<Rightarrow> bool) list \<Rightarrow> Config \<Rightarrow> PromptFilterCaller
    \<Rightarrow> string \<Rightarrow> string \<Rightarrow> string \<Rightarrow> PromptFilterOutcome" where
  "inspectPromptFilterOpenAI g compile builtins defensive cfg caller rawBody endpoint model =
     promptOutcome cfg caller endpoint model (Inspect g compile builtins defensive rawBody endpoint cfg)"

definition inspectPromptFilterTextOpenAI ::
  "(string \<Rightarrow> (string \<Rightarrow> bool) option) \<Rightarrow> PatternConfig list \<Rightarrow> (string \<Rightarrow> bool) list \<Rightarrow> Config \<Rightarrow> PromptFilterCaller
    \<Rightarrow> string \<Rightarrow> string \<Rightarrow> string \<Rightarrow> PromptFilterOutcome" where
  "inspectPromptFilterTextOpenAI compile builtins defensive cfg caller text endpoint model =
     promptOutcome cfg caller endpoint model (InspectText compile builtins defensive text cfg)"

definition upstreamCyberPolicyCode :: "'r gjson \<Rightarrow> string \<Rightarrow> string" where
  "upstreamCyberPolicyCode g body =
     (if body = [] then []
      else if list_ex (\<lambda>path. EqualFold (TrimSpace (strAt g body path)) ''cyber_policy'')
                [''codex_error_info'', ''error.codex_error_info'', ''error.code'', ''code''] then ''cyber_policy''
      else if Contains (ToLower body) ''cyber_policy'' \<or> Contains (ToLower body) ''cyber security risk'' then ''cyber_policy''
      else [])"

definition logUpstreamCyberPolicy ::
  "'r gjson \<Rightarrow> Config \<Rightarrow> PromptFilterCaller \<Rightarrow> string \<Rightarrow> string \<Rightarrow> string \<Rightarrow> PromptFilterLogInput option" where
  "logUpstreamCyberPolicy g cfg caller endpoint model body =
     (let errorCode = upstreamCyberPolicyCode g body
      in if errorCode = [] then None
         else logPromptFilterVerdict cfg caller endpoint model ''upstream_cyber_policy'' errorCode
                \<lparr>vdEnabled = True, vdMode = cfMode cfg, vdAction = ''block'', vdScore = 0, vdRawScore = 0, vdThreshold = cfThreshold cfg,
                 vdStrictHit = False, vdMatched = [], vdReason = ''upstream returned cyber policy'', vdTextPreview = [], vdExtractedChars = 0\<rparr>)"

end
