(* ===== verification/PromptFilterProps.thy ===== *)
theory PromptFilterProps
  imports PromptFilter
begin

section \<open>Properties of the prompt filter\<close>

text \<open>
  The normalised configuration is a fixed point within its bounds; the score of a text does not depend on the order in which
  Go iterates over the map of matches; a sensitive word blocks whatever the discounts say; the middle of a long
  text is never looked at.
\<close>

subsection \<open>The configuration\<close>

lemma dedupFold_result:
  "x \<in> set (dedupFold seen xs) \<Longrightarrow> TrimSpace x = x \<and> x \<noteq> [] \<and> ToLower x \<notin> set seen"
proof (induction xs arbitrary: seen)
  case (Cons v vs)
  show ?case
  proof (cases "TrimSpace v = [] \<or> ToLower (TrimSpace v) \<in> set seen")
    case True
    then show ?thesis using Cons by (simp add: Let_def)
  next
    case False
    then have "x = TrimSpace v \<or> x \<in> set (dedupFold (ToLower (TrimSpace v) # seen) vs)" using Cons.prems by (simp add: Let_def)
    then show ?thesis using False Cons.IH [of "ToLower (TrimSpace v) # seen"] by auto
  qed
qed simp

lemma dedupFold_distinct: "distinct (map ToLower (dedupFold seen xs))"
proof (induction xs arbitrary: seen)
  case (Cons v vs)
  have "ToLower (TrimSpace v) \<notin> ToLower ` set (dedupFold (ToLower (TrimSpace v) # seen) vs)"
    using dedupFold_result [of _ "ToLower (TrimSpace v) # seen" vs] by fastforce
  then show ?case using Cons by (simp add: Let_def)
qed simp

lemma dedupFold_id:
  "distinct (map ToLower xs) \<Longrightarrow> \<forall>x \<in> set xs. TrimSpace x = x \<and> x \<noteq> [] \<and> ToLower x \<notin> set seen \<Longrightarrow> dedupFold seen xs = xs"
proof (induction xs arbitrary: seen)
  case (Cons v vs)
  have "dedupFold (ToLower v # seen) vs = vs"
  proof (rule Cons.IH)
    show "distinct (map ToLower vs)" using Cons.prems(1) by simp
    have "ToLower x \<noteq> ToLower v" if "x \<in> set vs" for x using Cons.prems(1) that by (metis distinct.simps(2) image_eqI list.simps(9) set_map)
    then show "\<forall>x \<in> set vs. TrimSpace x = x \<and> x \<noteq> [] \<and> ToLower x \<notin> set (ToLower v # seen)" using Cons.prems(2) by simp
  qed
  then show ?case using Cons.prems by (simp add: Let_def)
qed simp

lemma lex_less_trichotomy: "x \<noteq> y \<Longrightarrow> lex_less x y \<or> lex_less y x"
proof (induction x y rule: lex_less.induct)
  case (1 x)
  then show ?case by (cases x) auto
next
  case (3 x xs y ys)
  then show ?case by (auto simp: not_less_iff_gr_or_eq linorder_neq_iff)
qed auto

lemma lex_less_asym: "lex_less x y \<Longrightarrow> \<not> lex_less y x"
  by (induction x y rule: lex_less.induct) auto

lemma lex_less_trans: "lex_less x y \<Longrightarrow> lex_less y z \<Longrightarrow> lex_less x z"
proof (induction x y arbitrary: z rule: lex_less.induct)
  case (2 y ys)
  then show ?case by (cases z) auto
next
  case (3 x xs y ys)
  then show ?case by (cases z) auto
qed simp

lemma lex_less_split: "lex_less x z \<Longrightarrow> lex_less x y \<or> lex_less y z"
  using lex_less_trichotomy [of x y] lex_less_trans [of y x z] by auto

interpretation folded_names: go_less "\<lambda>x y. lex_less (ToLower x) (ToLower y)"
proof
  show "lex_less (ToLower x) (ToLower y) \<Longrightarrow> \<not> lex_less (ToLower y) (ToLower x)" for x y by (rule lex_less_asym)
  show "lex_less (ToLower x) (ToLower z) \<Longrightarrow> lex_less (ToLower x) (ToLower y) \<or> lex_less (ToLower y) (ToLower z)" for x y z
    by (rule lex_less_split)
qed

interpretation match_order: go_less matchBefore
proof
  show "matchBefore x y \<Longrightarrow> \<not> matchBefore y x" for x y
    by (auto simp: matchBefore_def dest: lex_less_asym split: if_splits)
  show "matchBefore x z \<Longrightarrow> matchBefore x y \<or> matchBefore y z" for x y z
    using lex_less_split [of "mtName x" "mtName z" "mtName y"] by (auto simp: matchBefore_def split: if_splits)
qed

lemma normalizePatternNames_idem: "normalizePatternNames (normalizePatternNames names) = normalizePatternNames names"
proof -
  let ?ns = "normalizePatternNames names"
  have "dedupFold [] ?ns = ?ns"
    by (rule dedupFold_id) (auto simp: normalizePatternNames_def dedupFold_distinct dest: dedupFold_result)
  moreover have "folded_names.ordered ?ns"
    unfolding normalizePatternNames_def by (rule folded_names.ordered_sort)
  ultimately show ?thesis
    using folded_names.sort_ordered [of ?ns] by (simp add: normalizePatternNames_def)
qed

lemma normalizeMode_cases: "normalizeMode m \<in> {''block'', ''warn'', ''monitor''}"
  by (simp add: normalizeMode_def Let_def)

lemma normalizeMode_idem: "normalizeMode (normalizeMode m) = normalizeMode m"
proof -
  have "normalizeMode ''block'' = ''block''" "normalizeMode ''warn'' = ''warn''" "normalizeMode ''monitor'' = ''monitor''" by code_simp+
  then show ?thesis using normalizeMode_cases [of m] by auto
qed

text \<open>
  Supplement: normalising a configuration twice gives the same as once, so that \<open>InspectText\<close> and \<open>NewEngine\<close> work on the same configuration.\<close>

lemma NormalizeConfig_idem: "NormalizeConfig (NormalizeConfig cfg) = NormalizeConfig cfg"
  by (auto simp: NormalizeConfig_def Let_def normalizeMode_idem normalizePatternNames_idem DefaultConfig_def DefaultMaxTextLength_def)

lemma NormalizeConfig_bounds:
  "let c = NormalizeConfig cfg in
     0 < cfThreshold c \<and> cfThreshold c \<le> 500 \<and> cfThreshold c \<le> cfStrictThreshold c \<and> cfStrictThreshold c \<le> 1000 \<and>
     0 < cfMaxTextLength c \<and> cfMaxTextLength c \<le> 1024 * 1024 \<and> cfMode c \<in> {''block'', ''warn'', ''monitor''}"
  using normalizeMode_cases [of "cfMode cfg"]
  by (auto simp: NormalizeConfig_def Let_def DefaultConfig_def DefaultMaxTextLength_def)

subsection \<open>The matches\<close>

abbreviation collectMatches :: "Match list \<Rightarrow> (string \<times> Match) list \<Rightarrow> (string \<times> Match) list" where
  "collectMatches ms al \<equiv> fold (\<lambda>m al. AList.update (mtName m) m al) ms al"

definition named_by_key :: "(string \<times> Match) list \<Rightarrow> bool" where
  "named_by_key al \<longleftrightarrow> distinct (map fst al) \<and> (\<forall>(k, m) \<in> set al. mtName m = k)"

lemma named_update: "named_by_key al \<Longrightarrow> named_by_key (AList.update (mtName m) m al)"
proof -
  assume a: "named_by_key al"
  have "mtName v = k" if "(k, v) \<in> set (AList.update (mtName m) m al)" for k v
  proof -
    have d: "distinct (map fst (AList.update (mtName m) m al))" using a by (simp add: named_by_key_def distinct_update)
    have "map_of (AList.update (mtName m) m al) k = Some v" using map_of_is_SomeI [OF d that] .
    then have "((map_of al)(mtName m \<mapsto> m)) k = Some v" by (simp add: update_conv')
    then show ?thesis using a by (auto simp: named_by_key_def split: if_splits dest: map_of_SomeD)
  qed
  then show ?thesis using a by (auto simp: named_by_key_def distinct_update)
qed

lemma named_collect: "named_by_key al \<Longrightarrow> named_by_key (collectMatches ms al)"
  by (induction ms arbitrary: al) (simp_all add: named_update)

lemma named_matches: "named_by_key (matchesByName e t)"
  unfolding matchesByName_def by (rule named_collect) (simp add: named_by_key_def)

lemma matches_distinct: "named_by_key al \<Longrightarrow> distinct (map mtName (map snd al))"
proof -
  assume a: "named_by_key al"
  then have eq: "map mtName (map snd al) = map fst al" by (auto simp: named_by_key_def)
  show ?thesis unfolding eq using a by (simp add: named_by_key_def)
qed

lemma collect_lookup:
  "\<forall>m \<in> set ms. mtName m = n \<longrightarrow> m = x \<Longrightarrow> map_of al n = Some x \<or> x \<in> set ms \<and> mtName x = n \<Longrightarrow> map_of (collectMatches ms al) n = Some x"
proof (induction ms arbitrary: al)
  case (Cons m ms)
  have "map_of (AList.update (mtName m) m al) n = Some x \<or> x \<in> set ms \<and> mtName x = n"
    using Cons.prems by (auto simp: update_conv')
  then show ?case using Cons by simp
qed auto

lemma collect_values: "snd ` set (collectMatches ms al) \<subseteq> set ms \<union> snd ` set al"
proof (induction ms arbitrary: al)
  case (Cons m ms)
  have "snd ` set (AList.update (mtName m) m al) \<subseteq> insert m (snd ` set al)"
    by (induction al) auto
  then have "snd ` set (collectMatches ms (AList.update (mtName m) m al)) \<subseteq> insert m (set ms \<union> snd ` set al)"
    using Cons.IH [of "AList.update (mtName m) m al"] by blast
  then show ?case by simp
qed simp

lemma compileAll_weights: "compileAll compile disabled ps = Inr qs \<Longrightarrow> (p, re) \<in> set qs \<Longrightarrow> 0 < pcWeight p"
proof (induction ps arbitrary: qs)
  case (Cons p0 ps)
  show ?case
  proof (cases "skipped disabled (trimPattern p0)")
    case True
    then show ?thesis using Cons by (simp add: Let_def)
  next
    case False
    then obtain re0 qs' where q: "compileAll compile disabled ps = Inr qs'" "qs = (trimPattern p0, re0) # qs'"
      using Cons.prems(1) by (auto simp: Let_def split: option.splits sum.splits)
    then show ?thesis using Cons.IH [OF q(1)] Cons.prems(2) False by (auto simp: skipped_def)
  qed
qed simp

lemma NewEngine_parts:
  assumes "NewEngine compile builtins cfg = Inr e"
  shows "egConfig e = NormalizeConfig cfg" "egSensitiveWords e = parseSensitiveWords (cfSensitiveWords cfg)"
    "(p, re) \<in> set (egPatterns e) \<Longrightarrow> 0 < pcWeight p"
proof -
  have w: "cfSensitiveWords (NormalizeConfig cfg) = cfSensitiveWords cfg" by (simp add: NormalizeConfig_def Let_def)
  show "egConfig e = NormalizeConfig cfg" "egSensitiveWords e = parseSensitiveWords (cfSensitiveWords cfg)"
    using assms w by (auto simp: NewEngine_def Let_def split: sum.splits)
  show "(p, re) \<in> set (egPatterns e) \<Longrightarrow> 0 < pcWeight p"
    using assms by (auto simp: NewEngine_def Let_def split: sum.splits dest: compileAll_weights)
qed

lemma found_weights: "NewEngine compile builtins cfg = Inr e \<Longrightarrow> m \<in> set (found e t) \<Longrightarrow> 0 < mtWeight m"
  by (auto simp: found_def wordMatch_def patternMatch_def dest: NewEngine_parts(3))

lemma sum_weights_ge:
  "\<forall>m \<in> set ms. 0 \<le> mtWeight m \<Longrightarrow> x \<in> set ms \<Longrightarrow> mtWeight x \<le> sum_list (map mtWeight ms)"
proof (induction ms)
  case (Cons m ms)
  have "0 \<le> sum_list (map mtWeight ms)" using Cons.prems(1) by (intro sum_list_nonneg) auto
  then show ?case using Cons by auto
qed simp

subsection \<open>Decisions\<close>


definition demoCompile :: "string \<Rightarrow> (string \<Rightarrow> bool) option" where
  "demoCompile p = (if p = ''('' then None else Some (\<lambda>t. Contains t p))"

definition demoFilter :: Config where
  "demoFilter = DefaultConfig\<lparr>cfEnabled := True, cfMode := '' Block'', cfSensitiveWords := ''Secret Plan'', cfMaxTextLength := 20\<rparr>"

definition demoBuiltin :: "PatternConfig list" where
  "demoBuiltin = [\<lparr>pcName = ''override'', pcPattern = ''ignore'', pcWeight = 60, pcCategory = ''x'', pcStrict = False, pcEnabled = None\<rparr>]"

definition demoEngine :: Engine where
  "demoEngine = \<lparr>egConfig = NormalizeConfig demoFilter,
     egPatterns = [(hd demoBuiltin, \<lambda>t. Contains t ''ignore'')], egSensitiveWords = [''secret plan'']\<rparr>"

lemma demo_engine: "NewEngine demoCompile demoBuiltin (NormalizeConfig demoFilter) = Inr demoEngine"
proof -
  have c: "NormalizeConfig demoFilter = demoFilter\<lparr>cfMode := ''block''\<rparr>" by code_simp
  have "NormalizeConfig (NormalizeConfig demoFilter) = NormalizeConfig demoFilter" by (rule NormalizeConfig_idem)
  moreover have "cfDisabledPatterns (NormalizeConfig demoFilter) = []" "cfCustomPatterns (NormalizeConfig demoFilter) = []" by code_simp+
  moreover have "parseSensitiveWords (cfSensitiveWords (NormalizeConfig demoFilter)) = [''secret plan'']" by code_simp
  moreover have "trimPattern (hd demoBuiltin) = hd demoBuiltin" "\<not> skipped {} (hd demoBuiltin)" "pcPattern (hd demoBuiltin) = ''ignore''"
    by code_simp+
  then have "compileAll demoCompile {} [hd demoBuiltin] = Inr [(hd demoBuiltin, \<lambda>t. Contains t ''ignore'')]" by (simp add: demoCompile_def)
  then have "compileAll demoCompile {} demoBuiltin = Inr [(hd demoBuiltin, \<lambda>t. Contains t ''ignore'')]" by (simp add: demoBuiltin_def)
  ultimately show ?thesis
    unfolding NewEngine_def demoEngine_def by (simp add: Let_def disabledPatternSet_def)
qed


text \<open>
  C36: The verdict does not depend on the order in which Go iterates over the map of the matches: for every order of its values
  the scores, the sorted matches, the reason and the action are those of the model.\<close>

theorem verdict_order_independent:
  assumes "mset ms = mset (map snd (matchesByName e scan))"
  shows "scoreMatches defensive cfg scan ms v = scoreMatches defensive cfg scan (map snd (matchesByName e scan)) v"
proof -
  let ?ms = "map snd (matchesByName e scan)"
  have d: "distinct (map mtName ?ms)" by (rule matches_distinct [OF named_matches])
  have "stable_sort matchBefore ms = stable_sort matchBefore ?ms"
  proof (rule match_order.sort_perm [OF assms])
    fix x y assume "x \<in> set ms" "y \<in> set ms" "x \<noteq> y"
    then have "mtName x \<noteq> mtName y"
      using d assms by (metis distinct_map inj_onD set_mset_mset)
    then show "matchBefore x y \<or> matchBefore y x" using lex_less_trichotomy by (auto simp: matchBefore_def)
  qed
  moreover have "sum_list (map mtWeight ms) = sum_list (map mtWeight ?ms)"
    using assms by (metis mset_map sum_mset_sum_list)
  moreover have "sum_list (map mtWeight (filter mtStrict ms)) = sum_list (map mtWeight (filter mtStrict ?ms))"
    using assms by (metis mset_filter mset_map sum_mset_sum_list)
  ultimately show ?thesis by (simp add: scoreMatches_def Let_def)
qed

theorem verdict_order_independent_witness:
  "length (matchesByName demoEngine ''ignore my secret plan'') = 2 \<and>
   scoreMatches [] (egConfig demoEngine) ''ignore my secret plan'' (rev (map snd (matchesByName demoEngine ''ignore my secret plan''))) (noVerdict demoFilter ''x'') =
   scoreMatches [] (egConfig demoEngine) ''ignore my secret plan'' (map snd (matchesByName demoEngine ''ignore my secret plan'')) (noVerdict demoFilter ''x'')"
proof
  show "length (matchesByName demoEngine ''ignore my secret plan'') = 2" by code_simp
  show "scoreMatches [] (egConfig demoEngine) ''ignore my secret plan'' (rev (map snd (matchesByName demoEngine ''ignore my secret plan''))) (noVerdict demoFilter ''x'') =
     scoreMatches [] (egConfig demoEngine) ''ignore my secret plan'' (map snd (matchesByName demoEngine ''ignore my secret plan'')) (noVerdict demoFilter ''x'')"
    by (rule verdict_order_independent) simp
qed

subsection \<open>What is scanned\<close>

definition scanHead :: "int \<Rightarrow> int" where
  "scanHead m = (if m < 80 * 1024 then m * 4 div 5 else 64 * 1024)"

definition scanTail :: "int \<Rightarrow> int" where
  "scanTail m = (if m < 80 * 1024 then m - m * 4 div 5 else 16 * 1024)"

lemma limitScanText_long:
  assumes "0 < m" "m < int (length text)"
  shows "limitScanText text m = take (nat (scanHead m)) text @ [CHR 0x0A] @ drop (nat (int (length text) - scanTail m)) text"
proof -
  have d: "m * 4 div 5 \<le> m" using assms(1) by simp
  have "scanHead m + scanTail m \<le> int (length text)" using assms by (simp add: scanHead_def scanTail_def)
  moreover have "0 \<le> scanTail m" "0 \<le> scanHead m" using assms(1) by (auto simp: scanTail_def scanHead_def)
  moreover have "limitScanText text m =
      (let h2 = min (scanHead m) (int (length text)); t2 = min (scanTail m) (int (length text) - h2)
       in take (nat h2) text @ [CHR 0x0A] @ drop (nat (int (length text) - t2)) text)"
    using assms unfolding limitScanText_def scanHead_def scanTail_def Let_def min_def by (simp only: if_split if_False if_True not_le not_less) (use d in simp)
  ultimately show ?thesis by (simp add: Let_def min_def)
qed

lemma limitScanText_cut:
  assumes "0 < m" "int (length h) = scanHead m" "int (length l) = scanTail m" "m < int (length (h @ mid @ l))"
  shows "limitScanText (h @ mid @ l) m = h @ [CHR 0x0A] @ l"
proof -
  have t: "take (length h) (h @ mid @ l) = h" "drop (length h + length mid) (h @ mid @ l) = l" by simp_all
  have h: "nat (scanHead m) = length h" and l: "int (length (h @ mid @ l)) - scanTail m = int (length h + length mid)"
    using assms(2,3) by simp_all
  show ?thesis unfolding limitScanText_long [OF assms(1,4)] h l nat_int t by simp
qed

text \<open>
  Supplement: what is scanned is never longer than the limit and the line break between head and tail.\<close>

lemma limitScanText_length: "int (length (limitScanText text m)) \<le> (if m \<le> 0 then DefaultMaxTextLength else m) + 1"
proof -
  have "int (length (limitScanText text k)) \<le> k + 1" if k: "0 < k" for k
  proof (cases "k < int (length text)")
    case True
    have s: "0 \<le> scanTail k" "0 \<le> scanHead k" "scanHead k + scanTail k \<le> k" using k by (auto simp: scanTail_def scanHead_def)
    then show ?thesis unfolding limitScanText_long [OF k True] using True by simp
  next
    case False
    then show ?thesis using k by (simp add: limitScanText_def Let_def)
  qed
  moreover have "limitScanText text m = limitScanText text DefaultMaxTextLength" if "m \<le> 0"
    using that by (simp only: limitScanText_def Let_def) (simp add: DefaultMaxTextLength_def)
  moreover have "0 < DefaultMaxTextLength" by (simp add: DefaultMaxTextLength_def)
  ultimately show ?thesis by (cases "m \<le> 0") simp_all
qed

lemma TrimSpace_blank: "TrimSpace s = [] \<longleftrightarrow> (\<forall>c \<in> set s. is_space c)"
proof -
  have "(\<forall>c \<in> set (dropWhile is_space s). is_space c) \<longleftrightarrow> (\<forall>c \<in> set s. is_space c)"
    by (induction s) auto
  then show ?thesis by (simp add: TrimSpace_def)
qed

lemma ReplaceFences_blank: "\<forall>c \<in> set s. is_space c \<Longrightarrow> \<forall>c \<in> set (ReplaceFences s). is_space c"
proof (induction s rule: ReplaceFences.induct)
  case (2 c s)
  have "\<not> HasPrefix (c # s) [CHR 0x60, CHR 0x60, CHR 0x60]"
    using "2.prems" by (auto simp: HasPrefix_iff is_space_def)
  then show ?case using 2 by simp
qed simp

lemma Fields_blank: "\<forall>c \<in> set s. is_space c \<Longrightarrow> Fields [] s = []"
  by (induction s) auto

lemma normalizeForScan_blank:
  assumes "\<forall>c \<in> set s. is_space c"
  shows "normalizeForScan s = []"
proof -
  have "is_space (if isControl c \<and> byteOf c \<notin> {10, 13, 9} then CHR '' '' else lower_char c)" if "c \<in> set (ReplaceFences s)" for c
  proof -
    have "is_space c" using that ReplaceFences_blank [OF assms] by simp
    moreover have "is_space CHR '' ''" by code_simp
    ultimately show ?thesis by simp
  qed
  then have "Fields [] (map (\<lambda>c. if isControl c \<and> byteOf c \<notin> {10, 13, 9} then CHR '' '' else lower_char c) (ReplaceFences s)) = []"
    by (intro Fields_blank) (simp only: set_map ball_simps, blast)
  then show ?thesis by (simp only: normalizeForScan_def Let_def Join.simps)
qed

lemma InspectText_action_scan:
  "vdAction (InspectText compile builtins defensive text cfg) =
     (let c = NormalizeConfig cfg; scan = normalizeForScan (limitScanText text (cfMaxTextLength c))
      in if \<not> cfEnabled c \<or> TrimSpace text = [] \<or> RuneCountInString scan < 3 then ''allow''
         else case NewEngine compile builtins c of Inl _ \<Rightarrow> ''allow''
              | Inr e \<Rightarrow> vdAction (scoreMatches defensive c scan (map snd (matchesByName e scan)) (noVerdict c [])))"
proof -
  have "vdAction (scoreMatches defensive c scan ms v) = vdAction (scoreMatches defensive c scan ms v')" for c scan ms v v'
    by (simp add: scoreMatches_def Let_def)
  moreover have "egConfig e = NormalizeConfig cfg" if "NewEngine compile builtins (NormalizeConfig cfg) = Inr e" for e
    using NewEngine_parts(1) [OF that] by (simp add: NormalizeConfig_idem)
  ultimately show ?thesis
    by (auto simp: InspectText_def engineInspectText_def Let_def noVerdict_def split: sum.splits)
qed

text \<open>
  Supplement: Only the first and the last part of a text above the limit are scanned: whatever stands between them, the action is the same. The parts are
  four and one fifth of the limit, and 64 KiB and 16 KiB for every limit from 80 KiB on, also when the limit is 1 MiB.\<close>

theorem middle_not_scanned:
  assumes "m = cfMaxTextLength (NormalizeConfig cfg)"
    and "int (length h) = scanHead m" "int (length l) = scanTail m"
    and "m < int (length (h @ mid @ l))" "m < int (length (h @ mid' @ l))"
  shows "vdAction (InspectText compile builtins defensive (h @ mid @ l) cfg) = vdAction (InspectText compile builtins defensive (h @ mid' @ l) cfg)"
proof -
  have m: "0 < m" using NormalizeConfig_bounds [of cfg] assms(1) by (simp add: Let_def)
  have c: "limitScanText (h @ x @ l) m = h @ [CHR 0x0A] @ l" if "m < int (length (h @ x @ l))" for x
    using limitScanText_cut [OF m assms(2,3) that] .
  have "RuneCountInString (normalizeForScan (h @ [CHR 0x0A] @ l)) < 3" if "TrimSpace (h @ x @ l) = []" for x
  proof -
    have "is_space CHR 0x0A" by code_simp
    then have "\<forall>c \<in> set (h @ [CHR 0x0A] @ l). is_space c" using that by (auto simp: TrimSpace_blank)
    then have "normalizeForScan (h @ [CHR 0x0A] @ l) = []" by (rule normalizeForScan_blank)
    moreover have "RuneCountInString [] < 3" by code_simp
    ultimately show ?thesis by simp
  qed
  from this [of mid] this [of mid'] show ?thesis
    unfolding InspectText_action_scan assms(1) [symmetric] Let_def c [OF assms(4)] c [OF assms(5)] by auto
qed

theorem middle_not_scanned_witness:
  "vdAction (InspectText demoCompile demoBuiltin [] ''Write a poem on secret plan seas'' demoFilter) = ''allow'' \<and>
   vdAction (InspectText demoCompile demoBuiltin [] ''a secret plan'' demoFilter) = ''block''"
proof
  have a: "vdAction (InspectText demoCompile demoBuiltin [] (''Write a poem on '' @ ''the wide open'' @ ''seas'') demoFilter) = ''allow''"
    "vdAction (InspectText demoCompile demoBuiltin [] ''a secret plan'' demoFilter) = ''block''"
    "cfMaxTextLength (NormalizeConfig demoFilter) = 20" "scanHead 20 = 16" "scanTail 20 = 4" by code_simp+
  have "vdAction (InspectText demoCompile demoBuiltin [] (''Write a poem on '' @ ''secret plan '' @ ''seas'') demoFilter) =
    vdAction (InspectText demoCompile demoBuiltin [] (''Write a poem on '' @ ''the wide open'' @ ''seas'') demoFilter)"
    by (rule middle_not_scanned [of 20]) (simp_all add: a(3-5))
  then show "vdAction (InspectText demoCompile demoBuiltin [] ''Write a poem on secret plan seas'' demoFilter) = ''allow''" using a(1) by simp
  show "vdAction (InspectText demoCompile demoBuiltin [] ''a secret plan'' demoFilter) = ''block''" by (rule a(2))
qed

text \<open>
  Supplement: a pattern that does not compile switches the filter off: every text is allowed, with the error as the reason. The operator's pages
  test the patterns before they are saved.\<close>

lemma broken_pattern_allows:
  "NewEngine compile builtins (NormalizeConfig cfg) = Inl name \<Longrightarrow> vdAction (InspectText compile builtins defensive text cfg) = ''allow''"
  by (simp add: InspectText_def Let_def noVerdict_def)

text \<open>
  Supplement: a request is answered by the filter exactly when the verdict blocks it, a blocked request is logged when matches are logged, and a
  warning and a block exclude each other.\<close>

lemma prompt_outcome_exclusive:
  "(poReply (promptOutcome cfg caller endpoint model v) \<noteq> None \<longleftrightarrow> vdAction v = ''block'') \<and>
   (poWarning (promptOutcome cfg caller endpoint model v) = None \<or> poReply (promptOutcome cfg caller endpoint model v) = None) \<and>
   (poLog (promptOutcome cfg caller endpoint model v) \<noteq> None \<longleftrightarrow> vdEnabled v \<and> vdMatched v \<noteq> [] \<and> cfLogMatches cfg)"
  by (simp add: promptOutcome_def logPromptFilterVerdict_def)

end
