(* ===== verification/Cleanup.thy ===== *)
theory Cleanup
  imports SelectionProps
begin

section \<open>Cleaning the pool\<close>

text \<open>
  Models the sweeps of \<open>auth/store.go\<close> that delete accounts by runtime status, by use and by age. A sweep goes through
  a copy of the list of accounts; an account that due is deleted softly in the database and, when that succeeds, removed from the pool.

  \<open>softDelete\<close> says for which accounts the database accepts the deletion; \<open>at\<close> is the clock at the \<open>i\<close>-th account of the list.
  The state adds to the store what the database was told: the deleted accounts and the events, in order.
\<close>

record CleanState =
  csStore :: Store
  csDeleted :: "int list"
  csEvents :: "(int \<times> string) list"

definition deleteOne :: "string \<Rightarrow> int \<Rightarrow> CleanState \<Rightarrow> CleanState" where
  "deleteOne event dbID c =
     c\<lparr>csStore := RemoveAccount dbID (csStore c), csDeleted := csDeleted c @ [dbID], csEvents := csEvents c @ [(dbID, event)]\<rparr>"

text \<open>The loop that the sweeps share: \<open>due i acc\<close> is the condition of the sweep at the \<open>i\<close>-th account.\<close>

fun sweepLoop ::
  "(nat \<Rightarrow> Account \<Rightarrow> bool) \<Rightarrow> (int \<Rightarrow> bool) \<Rightarrow> string \<Rightarrow> nat \<Rightarrow> ptr list \<Rightarrow> CleanState \<Rightarrow> CleanState \<times> int" where
  "sweepLoop due softDelete event i [] c = (c, 0)"
| "sweepLoop due softDelete event i (p # ps) c =
     (case heap (csStore c) p of
        None \<Rightarrow> sweepLoop due softDelete event (Suc i) ps c
      | Some acc \<Rightarrow>
          if due i acc \<and> softDelete (DBID acc)
          then let (c', cleaned) = sweepLoop due softDelete event (Suc i) ps (deleteOne event (DBID acc) c) in (c', cleaned + 1)
          else sweepLoop due softDelete event (Suc i) ps c)"

definition statusQualifies :: "string \<Rightarrow> (nat \<Rightarrow> time) \<Rightarrow> nat \<Rightarrow> Account \<Rightarrow> bool" where
  "statusQualifies targetStatus clk i acc \<longleftrightarrow>
     RuntimeStatus (clk i) acc = targetStatus \<and>
     \<not> (targetStatus = ''rate_limited'' \<and> premium5hRateLimitedLocked (clk i) acc) \<and> \<not> Locked acc"

definition CleanByRuntimeStatus :: "(nat \<Rightarrow> time) \<Rightarrow> (int \<Rightarrow> bool) \<Rightarrow> string \<Rightarrow> CleanState \<Rightarrow> CleanState \<times> int" where
  "CleanByRuntimeStatus clk softDelete targetStatus c =
     sweepLoop (statusQualifies targetStatus clk) softDelete ''auto_clean'' 0 (accounts (csStore c)) c"

definition limitedQualifies :: "(nat \<Rightarrow> time) \<Rightarrow> nat \<Rightarrow> Account \<Rightarrow> bool" where
  "limitedQualifies clk i acc \<longleftrightarrow> RuntimeStatus (clk i) acc \<in> {''rate_limited'', ''usage_exhausted''} \<and> \<not> Locked acc"

definition CleanRateLimitedManual :: "(nat \<Rightarrow> time) \<Rightarrow> (int \<Rightarrow> bool) \<Rightarrow> CleanState \<Rightarrow> CleanState \<times> int" where
  "CleanRateLimitedManual clk softDelete c =
     sweepLoop (limitedQualifies clk) softDelete ''manual_clean'' 0 (accounts (csStore c)) c"

definition fullQualifies :: "nat \<Rightarrow> Account \<Rightarrow> bool" where
  "fullQualifies i acc \<longleftrightarrow> \<not> Locked acc \<and> \<not> ActiveRequests acc > 0 \<and> UsagePercent7dValid acc \<and> \<not> UsagePercent7d acc < 100"

definition CleanFullUsageAccounts :: "(int \<Rightarrow> bool) \<Rightarrow> CleanState \<Rightarrow> CleanState \<times> int" where
  "CleanFullUsageAccounts softDelete c = sweepLoop fullQualifies softDelete ''clean_full_usage'' 0 (accounts (csStore c)) c"

text \<open>The three automatic sweeps run one after another, each on the list as the one before left it.\<close>

definition runAutoCleanupSweep ::
  "(nat \<Rightarrow> time) \<Rightarrow> (nat \<Rightarrow> time) \<Rightarrow> (nat \<Rightarrow> time) \<Rightarrow> (int \<Rightarrow> bool) \<Rightarrow> bool \<Rightarrow> bool \<Rightarrow> bool \<Rightarrow> CleanState \<Rightarrow> CleanState" where
  "runAutoCleanupSweep clk1 clk2 clk3 softDelete unauthorized rateLimited errors c =
     (let c1 = (if unauthorized then fst (CleanByRuntimeStatus clk1 softDelete ''unauthorized'' c) else c);
          c2 = (if rateLimited then fst (CleanByRuntimeStatus clk2 softDelete ''rate_limited'' c1) else c1)
      in if errors then fst (CleanByRuntimeStatus clk3 softDelete ''error'' c2) else c2)"

definition expiredQualifies :: "time \<Rightarrow> Account \<Rightarrow> bool" where
  "expiredQualifies cutoff acc \<longleftrightarrow>
     \<not> Locked acc \<and> AddedAt acc \<noteq> 0 \<and> \<not> AddedAt acc > cutoff \<and> \<not> ActiveRequests acc > 0 \<and> \<not> TotalRequests acc > 10"

definition expiredIDs :: "time \<Rightarrow> Store \<Rightarrow> int list" where
  "expiredIDs cutoff s =
     map DBID (filter (expiredQualifies cutoff) (map the (filter (\<lambda>a. a \<noteq> None) (map (heap s) (accounts s)))))"

fun cleanExpiredFallback :: "(int \<Rightarrow> bool) \<Rightarrow> int list \<Rightarrow> CleanState \<Rightarrow> CleanState \<times> int" where
  "cleanExpiredFallback softDelete [] c = (c, 0)"
| "cleanExpiredFallback softDelete (dbID # ids) c =
     (if softDelete dbID
      then let (c', cleaned) = cleanExpiredFallback softDelete ids (deleteOne ''clean_expired'' dbID c) in (c', cleaned + 1)
      else cleanExpiredFallback softDelete ids c)"

text \<open>\<open>batchOK\<close>: the database accepted the deletion of all accounts at once.\<close>

definition CleanExpiredAccounts :: "time \<Rightarrow> duration \<Rightarrow> bool \<Rightarrow> (int \<Rightarrow> bool) \<Rightarrow> CleanState \<Rightarrow> CleanState \<times> int" where
  "CleanExpiredAccounts now maxAge batchOK softDelete c =
     (let ids = expiredIDs (now - maxAge) (csStore c)
      in if ids = [] then (c, 0)
         else if \<not> batchOK then cleanExpiredFallback softDelete ids c
         else (c\<lparr>csStore := RemoveAccounts ids (csStore c), csDeleted := csDeleted c @ ids,
                 csEvents := csEvents c @ map (\<lambda>i. (i, ''clean_expired'')) ids\<rparr>, int (length ids)))"

definition CleanExpiredNow :: "time \<Rightarrow> bool \<Rightarrow> (int \<Rightarrow> bool) \<Rightarrow> CleanState \<Rightarrow> CleanState \<times> int" where
  "CleanExpiredNow now batchOK softDelete c = CleanExpiredAccounts now (30 * Minute) batchOK softDelete c"

subsection \<open>What a sweep does\<close>

text \<open>The accounts that a sweep deletes, decided on the accounts as they were at the start.\<close>

fun swept :: "(nat \<Rightarrow> Account \<Rightarrow> bool) \<Rightarrow> (int \<Rightarrow> bool) \<Rightarrow> account_heap \<Rightarrow> nat \<Rightarrow> ptr list \<Rightarrow> ptr list" where
  "swept due softDelete h i [] = []"
| "swept due softDelete h i (p # ps) =
     (case h p of
        None \<Rightarrow> swept due softDelete h (Suc i) ps
      | Some acc \<Rightarrow> if due i acc \<and> softDelete (DBID acc) then p # swept due softDelete h (Suc i) ps
                    else swept due softDelete h (Suc i) ps)"

definition idOf :: "account_heap \<Rightarrow> ptr \<Rightarrow> int" where
  "idOf h p = DBID (the (h p))"

lemma swept_iff:
  "p \<in> set (swept due softDelete h i ps) \<longleftrightarrow>
     (\<exists>j < length ps. \<exists>acc. ps ! j = p \<and> h p = Some acc \<and> due (i + j) acc \<and> softDelete (DBID acc))"
proof (induction ps arbitrary: i)
  case (Cons q ps)
  have e: "(\<exists>j < length (q # ps). \<exists>acc. (q # ps) ! j = p \<and> h p = Some acc \<and> due (i + j) acc \<and> softDelete (DBID acc)) \<longleftrightarrow>
      (q = p \<and> (\<exists>acc. h p = Some acc \<and> due i acc \<and> softDelete (DBID acc))) \<or>
      (\<exists>j < length ps. \<exists>acc. ps ! j = p \<and> h p = Some acc \<and> due (Suc i + j) acc \<and> softDelete (DBID acc))"
    unfolding length_Cons Ex_less_Suc2 by auto
  show ?case unfolding e Cons.IH [symmetric] by (auto split: option.splits)
qed simp

lemma swept_set: "set (swept due softDelete h i ps) \<subseteq> set ps"
  by (auto simp: swept_iff)

lemma ids_inj: "store_ok s \<Longrightarrow> inj_on (\<lambda>p. map_option DBID (heap s p)) (set (accounts s))"
  unfolding store_ok_def accountIDs_def distinct_map by simp

lemma remove_listed:
  assumes "store_ok s" "p \<in> set (accounts s)" "heap s p = Some acc"
  shows "accounts (RemoveAccount (DBID acc) s) = filter (\<lambda>q. q \<noteq> p) (accounts s)"
proof -
  have "map_option DBID (heap s q) = Some (DBID acc) \<longleftrightarrow> q = p" if "q \<in> set (accounts s)" for q
    using inj_on_eq_iff [OF ids_inj [OF assms(1)] that assms(2)] assms(3) by simp
  then show ?thesis unfolding RemoveAccount_accounts [OF assms(1)] by (intro filter_cong refl) blast
qed

definition clean_after :: "string \<Rightarrow> ptr list \<Rightarrow> CleanState \<Rightarrow> CleanState \<Rightarrow> bool" where
  "clean_after event D c c' \<longleftrightarrow>
     store_ok (csStore c') \<and> heap (csStore c') = heap (csStore c) \<and>
     accounts (csStore c') = filter (\<lambda>p. p \<notin> set D) (accounts (csStore c)) \<and>
     csDeleted c' = csDeleted c @ map (idOf (heap (csStore c))) D \<and>
     csEvents c' = csEvents c @ map (\<lambda>p. (idOf (heap (csStore c)) p, event)) D"

lemma clean_after_step:
  assumes "store_ok (csStore c)" "p \<in> set (accounts (csStore c))" "heap (csStore c) p = Some acc"
    and "clean_after event D (deleteOne event (DBID acc) c) c'"
  shows "clean_after event (p # D) c c'"
  using assms by (auto simp: clean_after_def deleteOne_def RemoveAccount_keeps remove_listed idOf_def intro: filter_cong)

lemma sweep_exact:
  assumes "store_ok (csStore c)" "distinct ps" "set ps \<subseteq> set (accounts (csStore c))"
  shows "clean_after event (swept due softDelete (heap (csStore c)) i ps) c (fst (sweepLoop due softDelete event i ps c)) \<and>
    snd (sweepLoop due softDelete event i ps c) = int (length (swept due softDelete (heap (csStore c)) i ps))"
  using assms
proof (induction ps arbitrary: i c)
  case Nil
  then show ?case by (simp add: clean_after_def)
next
  case (Cons p ps)
  show ?case
  proof (cases "heap (csStore c) p")
    case None
    then show ?thesis using Cons by simp
  next
    case (Some acc)
    show ?thesis
    proof (cases "due i acc \<and> softDelete (DBID acc)")
      case True
      let ?c = "deleteOne event (DBID acc) c"
      have p: "p \<in> set (accounts (csStore c))" using Cons.prems by simp
      have h: "heap (csStore ?c) = heap (csStore c)" by (simp add: deleteOne_def RemoveAccount_keeps)
      have "store_ok (csStore ?c)" using Cons.prems(1) by (simp add: deleteOne_def RemoveAccount_ok)
      moreover have "set ps \<subseteq> set (accounts (csStore ?c))"
        using Cons.prems remove_listed [OF Cons.prems(1) p Some] by (auto simp: deleteOne_def)
      ultimately have "clean_after event (swept due softDelete (heap (csStore c)) (Suc i) ps) ?c (fst (sweepLoop due softDelete event (Suc i) ps ?c)) \<and>
          snd (sweepLoop due softDelete event (Suc i) ps ?c) = int (length (swept due softDelete (heap (csStore c)) (Suc i) ps))"
        using Cons.IH [of ?c "Suc i"] Cons.prems(2) h by simp
      then show ?thesis
        using clean_after_step [OF Cons.prems(1) p Some] True Some by (simp add: split_beta)
    next
      case False
      then show ?thesis using Cons Some by auto
    qed
  qed
qed

text \<open>
  C22: A sweep by status, by use or by hand deletes exactly the accounts that meet its condition when their turn comes and whose deletion the
  database accepts: the others stay in the pool in their order, the database is told of the deleted accounts and of nothing else, their number is
  returned, and the pool keeps its invariant.\<close>

theorem sweep_deletes_exactly:
  assumes ok: "store_ok (csStore c)"
    and run: "(due, (c', n)) \<in> {(statusQualifies target clk, CleanByRuntimeStatus clk softDelete target c),
      (limitedQualifies clk, CleanRateLimitedManual clk softDelete c), (fullQualifies, CleanFullUsageAccounts softDelete c)}"
    and j: "j < length (accounts (csStore c))" "heap (csStore c) (accounts (csStore c) ! j) = Some acc"
  shows "(accounts (csStore c) ! j \<in> set (accounts (csStore c')) \<longleftrightarrow> \<not> (due j acc \<and> softDelete (DBID acc))) \<and>
    (DBID acc \<in> set (drop (length (csDeleted c)) (csDeleted c')) \<longleftrightarrow> due j acc \<and> softDelete (DBID acc)) \<and>
    n = int (length (csDeleted c')) - int (length (csDeleted c)) \<and>
    (\<exists>P. accounts (csStore c') = filter P (accounts (csStore c))) \<and> store_ok (csStore c')"
proof -
  let ?s = "csStore c"
  let ?p = "accounts ?s ! j" and ?D = "swept due softDelete (heap ?s) 0 (accounts ?s)"
  note d = store_ok_distinct [OF ok]
  obtain event where run': "sweepLoop due softDelete event 0 (accounts ?s) c = (c', n)"
    using run by (auto simp: CleanByRuntimeStatus_def CleanRateLimitedManual_def CleanFullUsageAccounts_def)
  have a: "clean_after event ?D c c'" "n = int (length ?D)" using sweep_exact [OF ok d subset_refl, of event due softDelete 0] run' by simp_all
  have sel: "?p \<in> set ?D \<longleftrightarrow> due j acc \<and> softDelete (DBID acc)"
    unfolding swept_iff using j d nth_eq_iff_index_eq [OF d] by auto
  have inj: "idOf (heap ?s) q = DBID acc \<longleftrightarrow> q = ?p" if "q \<in> set (accounts ?s)" for q
  proof -
    obtain b where b: "heap ?s q = Some b" using store_ok_allocated [OF ok] \<open>q \<in> set (accounts ?s)\<close> by blast
    have "map_option DBID (heap ?s q) = map_option DBID (heap ?s ?p) \<longleftrightarrow> q = ?p"
      by (rule inj_on_eq_iff [OF ids_inj [OF ok] \<open>q \<in> set (accounts ?s)\<close> nth_mem [OF j(1)]])
    then show ?thesis using b j(2) by (simp add: idOf_def)
  qed
  have "DBID acc \<in> set (map (idOf (heap ?s)) ?D) \<longleftrightarrow> ?p \<in> set ?D"
  proof
    assume "DBID acc \<in> set (map (idOf (heap ?s)) ?D)"
    then obtain q where q: "q \<in> set ?D" "idOf (heap ?s) q = DBID acc" unfolding set_map by (metis imageE)
    then have "q = ?p" using inj [of q] swept_set by blast
    then show "?p \<in> set ?D" using q(1) by simp
  next
    assume "?p \<in> set ?D"
    then have "idOf (heap ?s) ?p \<in> set (map (idOf (heap ?s)) ?D)" unfolding set_map by (rule imageI)
    then show "DBID acc \<in> set (map (idOf (heap ?s)) ?D)" using j(2) by (simp add: idOf_def)
  qed
  then have "DBID acc \<in> set (drop (length (csDeleted c)) (csDeleted c')) \<longleftrightarrow> due j acc \<and> softDelete (DBID acc)"
    using a sel by (simp add: clean_after_def)
  moreover have "?p \<in> set (accounts (csStore c')) \<longleftrightarrow> \<not> (due j acc \<and> softDelete (DBID acc))"
    using a sel j by (simp add: clean_after_def)
  moreover have "\<exists>P. accounts (csStore c') = filter P (accounts ?s)" using a(1) by (auto simp: clean_after_def)
  ultimately show ?thesis
    using a by (simp add: clean_after_def)
qed

lemma RemoveAccounts_sel:
  "heap (RemoveAccounts ids s) = heap s"
  "ids \<noteq> [] \<Longrightarrow> accounts (RemoveAccounts ids s) = filter (\<lambda>p. \<not> inSet (heap s) ids p) (accounts s)"
proof -
  have "heap (fold (\<lambda>p s. case heap s p of Some acc \<Rightarrow> fastSchedulerRemove (DBID acc) s | None \<Rightarrow> s) ps s) = heap s" for ps s
    by (induction ps arbitrary: s) (auto split: option.split)
  then show "heap (RemoveAccounts ids s) = heap s" by (simp add: RemoveAccounts_def Let_def rebuildAccountIndex_def)
  show "ids \<noteq> [] \<Longrightarrow> accounts (RemoveAccounts ids s) = filter (\<lambda>p. \<not> inSet (heap s) ids p) (accounts s)"
    by (simp add: RemoveAccounts_def Let_def rebuildAccountIndex_def)
qed

lemma expired_exact:
  assumes ok: "store_ok (csStore c)"
    and c'_def: "c' = fst (CleanExpiredAccounts now maxAge batchOK softDelete c)"
  shows "accounts (csStore c') = filter (\<lambda>p. case heap (csStore c) p of None \<Rightarrow> True
      | Some acc \<Rightarrow> \<not> (expiredQualifies (now - maxAge) acc \<and> (batchOK \<or> softDelete (DBID acc)))) (accounts (csStore c)) \<and>
    store_ok (csStore c') \<and> heap (csStore c') = heap (csStore c)"
proof -
  let ?s = "csStore c" and ?ids = "expiredIDs (now - maxAge) (csStore c)"
  have fb: "accounts (csStore (fst (cleanExpiredFallback softDelete ids d))) =
      filter (\<lambda>p. \<forall>i \<in> set ids. softDelete i \<longrightarrow> map_option DBID (heap (csStore d) p) \<noteq> Some i) (accounts (csStore d)) \<and>
      store_ok (csStore (fst (cleanExpiredFallback softDelete ids d))) \<and>
      heap (csStore (fst (cleanExpiredFallback softDelete ids d))) = heap (csStore d)" if "store_ok (csStore d)" for ids d
    using that
  proof (induction ids arbitrary: d)
    case (Cons i ids)
    have "store_ok (csStore (deleteOne ''clean_expired'' i d))" using Cons.prems by (simp add: deleteOne_def RemoveAccount_ok)
    from Cons.IH [OF this] Cons.IH [OF Cons.prems] show ?case
      using RemoveAccount_accounts [OF Cons.prems, of i]
      by (auto simp: split_beta deleteOne_def RemoveAccount_keeps intro: filter_cong)
  qed simp
  have mem: "DBID acc \<in> set ?ids \<longleftrightarrow> expiredQualifies (now - maxAge) acc"
    if p: "p \<in> set (accounts ?s)" "heap ?s p = Some acc" for p acc
  proof -
    have "acc = b" if b: "q \<in> set (accounts ?s)" "heap ?s q = Some b" "DBID b = DBID acc" for q b
      using inj_on_eq_iff [OF ids_inj [OF ok] b(1) p(1)] b p by simp
    then show ?thesis using p unfolding expiredIDs_def by (fastforce simp: image_iff)
  qed
  have al: "heap ?s p \<noteq> None" if "p \<in> set (accounts ?s)" for p using store_ok_allocated [OF ok that] .
  let ?keep = "\<lambda>p. case heap ?s p of None \<Rightarrow> True | Some acc \<Rightarrow> \<not> (expiredQualifies (now - maxAge) acc \<and> (batchOK \<or> softDelete (DBID acc)))"
  consider "?ids = []" "c' = c" | "?ids \<noteq> []" "\<not> batchOK" "c' = fst (cleanExpiredFallback softDelete ?ids c)"
    | "?ids \<noteq> []" batchOK "csStore c' = RemoveAccounts ?ids ?s"
    unfolding c'_def by (cases "?ids = []"; cases batchOK) (auto simp: CleanExpiredAccounts_def Let_def)
  then show ?thesis
  proof cases
    case 1
    have "?keep p" if "p \<in> set (accounts ?s)" for p using mem [OF that] 1(1) by (auto split: option.split)
    then show ?thesis using 1(2) ok by (simp add: filter_id_conv)
  next
    case 2
    have "(\<forall>i \<in> set ?ids. softDelete i \<longrightarrow> map_option DBID (heap ?s p) \<noteq> Some i) \<longleftrightarrow> ?keep p" if "p \<in> set (accounts ?s)" for p
      using mem [OF that] al [OF that] 2(2) by (auto split: option.split)
    then have "filter (\<lambda>p. \<forall>i \<in> set ?ids. softDelete i \<longrightarrow> map_option DBID (heap ?s p) \<noteq> Some i) (accounts ?s) = filter ?keep (accounts ?s)"
      by (rule filter_cong [OF refl])
    then show ?thesis using fb [OF ok, of ?ids] 2(3) by simp
  next
    case 3
    have "\<not> inSet (heap ?s) ?ids p \<longleftrightarrow> ?keep p" if "p \<in> set (accounts ?s)" for p
      using mem [OF that] al [OF that] 3(2) by (auto simp: inSet_def split: option.split)
    then have "filter (\<lambda>p. \<not> inSet (heap ?s) ?ids p) (accounts ?s) = filter ?keep (accounts ?s)" by (rule filter_cong [OF refl])
    then show ?thesis using 3(1,3) RemoveAccounts_ok [OF ok] RemoveAccounts_sel [of ?ids ?s] by simp
  qed
qed

text \<open>
  Supplement: The sweep by age removes exactly the accounts that are older than the limit and neither locked, busy nor proven by more than ten
  requests, as far as the database accepts the deletion: all of them when the batch succeeds, and one by one otherwise. With a database that
  accepts every deletion both ways leave the same pool.\<close>

theorem expired_sweep_exact:
  assumes "store_ok (csStore c)" "CleanExpiredAccounts now maxAge batchOK softDelete c = (c', n)"
  shows "accounts (csStore c') = filter (\<lambda>p. case heap (csStore c) p of None \<Rightarrow> True
      | Some acc \<Rightarrow> \<not> (expiredQualifies (now - maxAge) acc \<and> (batchOK \<or> softDelete (DBID acc)))) (accounts (csStore c)) \<and>
    store_ok (csStore c') \<and> heap (csStore c') = heap (csStore c)"
  using expired_exact [OF assms(1), of c' now maxAge batchOK softDelete] assms(2) by simp

subsection \<open>Locked and busy accounts\<close>

definition keeps :: "ptr \<Rightarrow> CleanState \<Rightarrow> CleanState \<Rightarrow> bool" where
  "keeps p c c' \<longleftrightarrow> store_ok (csStore c) \<and> p \<in> set (accounts (csStore c)) \<longrightarrow>
     store_ok (csStore c') \<and> p \<in> set (accounts (csStore c')) \<and> heap (csStore c') = heap (csStore c)"

lemma keeps_trans: "keeps p c d \<Longrightarrow> keeps p d e \<Longrightarrow> keeps p c e"
  unfolding keeps_def by auto

lemma sweep_keeps:
  assumes "heap (csStore c) p = Some acc" "\<And>i. \<not> due i acc"
  shows "keeps p c (fst (sweepLoop due softDelete event 0 (accounts (csStore c)) c))"
  unfolding keeps_def
proof
  assume a: "store_ok (csStore c) \<and> p \<in> set (accounts (csStore c))"
  have "p \<notin> set (swept due softDelete (heap (csStore c)) 0 (accounts (csStore c)))" using assms by (simp add: swept_iff)
  then show "store_ok (csStore (fst (sweepLoop due softDelete event 0 (accounts (csStore c)) c))) \<and>
      p \<in> set (accounts (csStore (fst (sweepLoop due softDelete event 0 (accounts (csStore c)) c)))) \<and>
      heap (csStore (fst (sweepLoop due softDelete event 0 (accounts (csStore c)) c))) = heap (csStore c)"
    using sweep_exact [OF conjunct1 [OF a] store_ok_distinct [OF conjunct1 [OF a]] subset_refl, of event due softDelete 0] a
    by (simp add: clean_after_def)
qed

lemma status_keeps: "heap (csStore c) p = Some acc \<Longrightarrow> Locked acc \<Longrightarrow> keeps p c (fst (CleanByRuntimeStatus clk softDelete t c))"
  unfolding CleanByRuntimeStatus_def by (rule sweep_keeps [of _ _ acc]) (auto simp: statusQualifies_def)

lemma keeps_if: "keeps p c d \<Longrightarrow> keeps p c (if b then d else c)"
  by (simp add: keeps_def)

text \<open>
  C23: No sweep removes a locked account: not the automatic ones in any combination, not the one by hand, not those by use and by age,
  whatever the clock and the database do.\<close>

theorem locked_account_survives:
  assumes ok: "store_ok (csStore c)" and p: "p \<in> set (accounts (csStore c))" "heap (csStore c) p = Some acc" "Locked acc"
    and run: "c' \<in> {runAutoCleanupSweep clk1 clk2 clk3 softDelete u r e c, fst (CleanRateLimitedManual clk1 softDelete c),
      fst (CleanFullUsageAccounts softDelete c), fst (CleanExpiredAccounts now maxAge batchOK softDelete c)}"
  shows "p \<in> set (accounts (csStore c')) \<and> store_ok (csStore c')"
proof -
  have "keeps p c (runAutoCleanupSweep clk1 clk2 clk3 softDelete u r e c)"
  proof -
    let ?c1 = "if u then fst (CleanByRuntimeStatus clk1 softDelete ''unauthorized'' c) else c"
    let ?c2 = "if r then fst (CleanByRuntimeStatus clk2 softDelete ''rate_limited'' ?c1) else ?c1"
    have 1: "keeps p c ?c1" using status_keeps [OF p(2,3)] by (rule keeps_if)
    then have h1: "heap (csStore ?c1) p = Some acc" using ok p by (simp add: keeps_def split: if_splits)
    have 2: "keeps p c ?c2" using keeps_trans [OF 1 keeps_if [OF status_keeps [OF h1 p(3)]]] .
    then have h2: "heap (csStore ?c2) p = Some acc" using ok p by (simp add: keeps_def split: if_splits)
    show ?thesis
      unfolding runAutoCleanupSweep_def Let_def using keeps_trans [OF 2 keeps_if [OF status_keeps [OF h2 p(3)]]] .
  qed
  moreover have "keeps p c (fst (CleanRateLimitedManual clk1 softDelete c))" "keeps p c (fst (CleanFullUsageAccounts softDelete c))"
    unfolding CleanRateLimitedManual_def CleanFullUsageAccounts_def
    by (rule sweep_keeps [OF p(2)], simp add: p(3) limitedQualifies_def fullQualifies_def)+
  moreover have "keeps p c (fst (CleanExpiredAccounts now maxAge batchOK softDelete c))"
    using expired_exact [OF ok refl, of now maxAge batchOK softDelete] p by (auto simp: keeps_def expiredQualifies_def)
  ultimately show ?thesis using run ok p(1) by (auto simp: keeps_def)
qed

text \<open>A pool of two accounts, the second one locked.\<close>

definition demoPool :: CleanState where
  "demoPool = \<lparr>csStore = (NewStore None None False None)\<lparr>heap := [0 \<mapsto> (demoAccount 7)\<lparr>AddedAt := 1, ActiveRequests := 1\<rparr>, 1 \<mapsto> (demoAccount 8)\<lparr>AddedAt := 1, Locked := True\<rparr>], accounts := [0, 1]\<rparr>,
     csDeleted = [], csEvents = []\<rparr>"

lemma demoPool_ok: "store_ok (csStore demoPool)"
  by (simp add: demoPool_def NewStore_def Let_def defaultSettings_def store_ok_def accountIDs_def demoAccount_def newAccount_def)

theorem locked_account_survives_witness:
  "1 \<in> set (accounts (csStore (runAutoCleanupSweep (\<lambda>_. 5) (\<lambda>_. 6) (\<lambda>_. 7) (\<lambda>_. True) True True True demoPool)))"
  using locked_account_survives [OF demoPool_ok, of 1 "(demoAccount 8)\<lparr>AddedAt := 1, Locked := True\<rparr>"
      "runAutoCleanupSweep (\<lambda>_. 5) (\<lambda>_. 6) (\<lambda>_. 7) (\<lambda>_. True) True True True demoPool" "\<lambda>_. 5" "\<lambda>_. 6" "\<lambda>_. 7" "\<lambda>_. True" True True True 0 0 True]
  by (simp add: demoPool_def NewStore_def Let_def)

theorem sweep_deletes_exactly_witness:
  "RuntimeStatus 5 ((demoAccount 7)\<lparr>AddedAt := 1, ActiveRequests := 1\<rparr>) = ''active'' \<and>
   0 \<notin> set (accounts (csStore (fst (CleanByRuntimeStatus (\<lambda>_. 5) (\<lambda>_. True) ''active'' demoPool))))"
proof -
  let ?a = "(demoAccount 7)\<lparr>AddedAt := 1, ActiveRequests := 1\<rparr>"
  let ?r = "CleanByRuntimeStatus (\<lambda>_. 5) (\<lambda>_. True) ''active'' demoPool"
  have st: "RuntimeStatus 5 ?a = ''active''" by code_simp
  have "statusQualifies ''active'' (\<lambda>_. 5) 0 ?a" using st by (simp add: statusQualifies_def demoAccount_def newAccount_def)
  moreover have "accounts (csStore demoPool) = [0, 1]" "heap (csStore demoPool) 0 = Some ?a" by (simp_all add: demoPool_def)
  ultimately have "0 \<notin> set (accounts (csStore (fst ?r)))"
    using sweep_deletes_exactly [OF demoPool_ok, of "statusQualifies ''active'' (\<lambda>_. 5)" "fst ?r" "snd ?r" "''active''" "\<lambda>_. 5" "\<lambda>_. True" 0 ?a] by simp
  then show ?thesis using st by simp
qed

theorem expired_sweep_exact_witness:
  "accounts (csStore (fst (CleanExpiredAccounts 100 50 False (\<lambda>_. True) demoPool))) = [0, 1]"
proof -
  let ?r = "CleanExpiredAccounts 100 50 False (\<lambda>_. True) demoPool"
  have "\<not> expiredQualifies 50 ((demoAccount 7)\<lparr>AddedAt := 1, ActiveRequests := 1\<rparr>)" "\<not> expiredQualifies 50 ((demoAccount 8)\<lparr>AddedAt := 1, Locked := True\<rparr>)"
    by (simp_all add: expiredQualifies_def)
  then show ?thesis
    using expired_sweep_exact [OF demoPool_ok, of 100 50 False "\<lambda>_. True" "fst ?r" "snd ?r"] by (simp add: demoPool_def)
qed

end
