(* ===== verification/SettingsTable.thy ===== *)
theory SettingsTable
  imports Store SecurityText
begin

section \<open>The table of settings\<close>

text \<open>
  Models the table \<open>system_settings\<close> of \<open>database/postgres.go\<close>, which has at most one row, with its reading, writing and
  normalisation, and \<open>proxy/runtime_config.go\<close>, the settings of the proxy that are kept in an atomic variable.

  A row holds the values after the defaults of the query are filled in. A failing query is not an absent row: it returns a row of zero values
  next to the error.
\<close>

record SettingsRow = SystemSettings +
  ssSiteName :: string
  ssSiteLogo :: string
  ssBackgroundConfig :: string
  ssGlobalRPM :: int
  ssTestModel :: string
  ssTestConcurrency :: int
  ssPgMaxConns :: int
  ssRedisPoolSize :: int
  ssAutoCleanUnauthorized :: bool
  ssAutoCleanRateLimited :: bool
  ssAdminSecret :: string
  ssAutoCleanFullUsage :: bool
  ssAutoCleanError :: bool
  ssAutoCleanExpired :: bool
  ssMaxRetries :: int
  ssMaxRateLimitRetries :: int
  ssAllowRemoteMigration :: bool
  ssModelMapping :: string
  ssCodexModelMapping :: string
  ssReasoningEffortModels :: string
  ssBackgroundRefreshIntervalMinutes :: int
  ssUsageProbeMaxAgeMinutes :: int
  ssUsageProbeConcurrency :: int
  ssUsageProbeResponsesFallbackEnabled :: bool
  ssRecoveryProbeIntervalMinutes :: int
  ssResinURL :: string
  ssResinPlatformName :: string
  ssPromptFilterEnabled :: bool
  ssPromptFilterMode :: string
  ssPromptFilterThreshold :: int
  ssPromptFilterStrictThreshold :: int
  ssPromptFilterLogMatches :: bool
  ssPromptFilterMaxTextLength :: int
  ssPromptFilterSensitiveWords :: string
  ssPromptFilterCustomPatterns :: string
  ssPromptFilterDisabledPatterns :: string
  ssClientCompatMode :: string
  ssCodexMinCLIVersion :: string
  ssUsageLogMode :: string
  ssUsageLogBatchSize :: int
  ssUsageLogFlushIntervalSeconds :: int
  ssStreamFlushPolicy :: string
  ssStreamFlushIntervalMS :: int
  ssFirstTokenMode :: string
  ssFirstTokenTimeoutSeconds :: int
  ssBillingTierPolicy :: string
  ssImageStorageConfig :: string
  ssShowFullUsageNumbers :: bool
  ssCodexForceWebsocket :: bool
  ssCodexWSKeepaliveEnabled :: bool
  ssCodexWSKeepaliveIntervalSec :: int
  ssCodexWSHideUpstreamErrors :: bool
  ssCodexWSSilentRetryEnabled :: bool
  ssCodexWSSilentMaxRetries :: int

definition zeroRow :: SettingsRow where
  "zeroRow =
     \<lparr>ssProxyURL = [], ssMaxConcurrency = 0, ssProxyPoolEnabled = False, ssLazyMode = False, ssSchedulerMode = [],
      ssAffinityMode = [], ssFastSchedulerEnabled = False, ssAutoPause5hThreshold = 0, ssAutoPause7dThreshold = 0,
     ssSiteName = [], ssSiteLogo = [], ssBackgroundConfig = [], ssGlobalRPM = 0, ssTestModel = [], ssTestConcurrency = 0, ssPgMaxConns = 0,
     ssRedisPoolSize = 0, ssAutoCleanUnauthorized = False, ssAutoCleanRateLimited = False, ssAdminSecret = [], ssAutoCleanFullUsage = False,
     ssAutoCleanError = False, ssAutoCleanExpired = False, ssMaxRetries = 0, ssMaxRateLimitRetries = 0, ssAllowRemoteMigration = False,
     ssModelMapping = [], ssCodexModelMapping = [], ssReasoningEffortModels = [], ssBackgroundRefreshIntervalMinutes = 0,
     ssUsageProbeMaxAgeMinutes = 0, ssUsageProbeConcurrency = 0, ssUsageProbeResponsesFallbackEnabled = False,
     ssRecoveryProbeIntervalMinutes = 0, ssResinURL = [], ssResinPlatformName = [], ssPromptFilterEnabled = False, ssPromptFilterMode = [],
     ssPromptFilterThreshold = 0, ssPromptFilterStrictThreshold = 0, ssPromptFilterLogMatches = False, ssPromptFilterMaxTextLength = 0,
     ssPromptFilterSensitiveWords = [], ssPromptFilterCustomPatterns = [], ssPromptFilterDisabledPatterns = [], ssClientCompatMode = [],
     ssCodexMinCLIVersion = [], ssUsageLogMode = [], ssUsageLogBatchSize = 0, ssUsageLogFlushIntervalSeconds = 0, ssStreamFlushPolicy = [],
     ssStreamFlushIntervalMS = 0, ssFirstTokenMode = [], ssFirstTokenTimeoutSeconds = 0, ssBillingTierPolicy = [], ssImageStorageConfig =
     [], ssShowFullUsageNumbers = False, ssCodexForceWebsocket = False, ssCodexWSKeepaliveEnabled = False, ssCodexWSKeepaliveIntervalSec =
     0, ssCodexWSHideUpstreamErrors = False, ssCodexWSSilentRetryEnabled = False, ssCodexWSSilentMaxRetries = 0\<rparr>"

definition DefaultSiteName :: string where
  "DefaultSiteName = ''CodexProxy''"

definition NormalizeSiteName :: "string \<Rightarrow> string" where
  "NormalizeSiteName value0 =
     (let value = TrimSpace value0
      in if value = [] then DefaultSiteName
         else if RuneCountInString value > 80 then takeRunes 80 value else value)"

definition normalizeBillingTierPolicy :: "string \<Rightarrow> string" where
  "normalizeBillingTierPolicy policy = (if ToLower (TrimSpace policy) = ''requested'' then ''requested'' else ''actual'')"

definition normalizeFirstTokenMode :: "string \<Rightarrow> string" where
  "normalizeFirstTokenMode mode = (if ToLower (TrimSpace mode) = ''loose'' then ''loose'' else ''strict'')"

definition normalizeAffinityMode :: "string \<Rightarrow> string" where
  "normalizeAffinityMode mode = (if TrimSpace mode \<in> {''bounded'', ''off'', ''strict''} then TrimSpace mode else ''bounded'')"

definition normalizeCodexWSKeepaliveInterval :: "int \<Rightarrow> int" where
  "normalizeCodexWSKeepaliveInterval sec = (if sec \<le> 0 then 60 else sec)"

definition normalizeCodexWSSilentMaxRetries :: "int \<Rightarrow> int" where
  "normalizeCodexWSSilentMaxRetries retries = (if retries < 0 then 0 else if retries > 10 then 10 else retries)"

definition scannedRow :: "SettingsRow \<Rightarrow> SettingsRow" where
  "scannedRow r =
     r\<lparr>ssSiteName := NormalizeSiteName (ssSiteName r), ssSiteLogo := TrimSpace (ssSiteLogo r),
       ssReasoningEffortModels := (if TrimSpace (ssReasoningEffortModels r) = [] then ''[]'' else ssReasoningEffortModels r),
       ssFirstTokenMode := normalizeFirstTokenMode (ssFirstTokenMode r),
       ssBillingTierPolicy := normalizeBillingTierPolicy (ssBillingTierPolicy r)\<rparr>"

text \<open>The second component tells whether the query failed.\<close>

definition GetSystemSettings :: "bool \<Rightarrow> SettingsRow option \<Rightarrow> SettingsRow option \<times> bool" where
  "GetSystemSettings readOK table =
     (if readOK then (map_option scannedRow table, False) else (Some (scannedRow zeroRow), True))"

text \<open>The table after the statement, and whether it failed.\<close>

definition UpdateSystemSettings :: "bool \<Rightarrow> SettingsRow \<Rightarrow> SettingsRow option \<Rightarrow> SettingsRow option \<times> bool" where
  "UpdateSystemSettings writeOK r table =
     (if \<not> writeOK then (table, True)
      else (Some (r\<lparr>ssSiteName := NormalizeSiteName (ssSiteName r), ssSiteLogo := TrimSpace (ssSiteLogo r),
                    ssFirstTokenMode := normalizeFirstTokenMode (ssFirstTokenMode r),
                    ssBillingTierPolicy := normalizeBillingTierPolicy (ssBillingTierPolicy r),
                    ssAffinityMode := normalizeAffinityMode (ssAffinityMode r),
                    ssReasoningEffortModels := (let t = TrimSpace (ssReasoningEffortModels r) in if t = [] then ''[]'' else t),
                    ssCodexWSKeepaliveIntervalSec := normalizeCodexWSKeepaliveInterval (ssCodexWSKeepaliveIntervalSec r),
                    ssCodexWSSilentMaxRetries := normalizeCodexWSSilentMaxRetries (ssCodexWSSilentMaxRetries r)\<rparr>), False))"

subsection \<open>Runtime settings of the proxy\<close>

record RuntimeSettings =
  rsClientCompatMode :: string
  rsCodexMinCLIVersion :: string
  rsStreamFlushPolicy :: string
  rsStreamFlushIntervalMS :: int
  rsFirstTokenMode :: string
  rsFirstTokenTimeoutSec :: int
  rsBillingTierPolicy :: string
  rsCodexForceWebsocket :: bool
  rsCodexWSHideErrors :: bool
  rsCodexWSSilentRetry :: bool
  rsCodexWSSilentRetries :: int

definition DefaultRuntimeSettings :: RuntimeSettings where
  "DefaultRuntimeSettings =
     \<lparr>rsClientCompatMode = ''preserve'', rsCodexMinCLIVersion = ''0.118.0'', rsStreamFlushPolicy = ''immediate'', rsStreamFlushIntervalMS = 20,
      rsFirstTokenMode = ''strict'', rsFirstTokenTimeoutSec = 0, rsBillingTierPolicy = ''actual'', rsCodexForceWebsocket = False,
      rsCodexWSHideErrors = True, rsCodexWSSilentRetry = True, rsCodexWSSilentRetries = 2\<rparr>"

definition NormalizeClientCompatMode :: "string \<Rightarrow> string" where
  "NormalizeClientCompatMode mode =
     (let m = ToLower (TrimSpace mode)
      in if m = [] \<or> m = ''preserve'' then ''preserve'' else if m = ''auto'' then ''auto'' else if m = ''force'' then ''force'' else ''preserve'')"

definition NormalizeStreamFlushPolicy :: "string \<Rightarrow> string" where
  "NormalizeStreamFlushPolicy policy =
     (let p = ToLower (TrimSpace policy)
      in if p = [] \<or> p = ''immediate'' then ''immediate'' else if p = ''coalesce'' then ''coalesce'' else ''immediate'')"

definition NormalizeFirstTokenMode :: "string \<Rightarrow> string" where
  "NormalizeFirstTokenMode mode =
     (let m = ToLower (TrimSpace mode)
      in if m = [] \<or> m = ''strict'' then ''strict'' else if m = ''loose'' then ''loose'' else ''strict'')"

definition NormalizeBillingTierPolicy :: "string \<Rightarrow> string" where
  "NormalizeBillingTierPolicy policy =
     (let p = ToLower (TrimSpace policy)
      in if p = [] \<or> p = ''actual'' then ''actual'' else if p = ''requested'' then ''requested'' else ''actual'')"

definition NormalizeRuntimeSettings :: "RuntimeSettings \<Rightarrow> RuntimeSettings" where
  "NormalizeRuntimeSettings s =
     (let v = TrimSpace (rsCodexMinCLIVersion s);
          f1 = (if rsStreamFlushIntervalMS s < 1 then 20 else rsStreamFlushIntervalMS s);
          f2 = (if f1 > 1000 then 1000 else f1);
          t1 = (if rsFirstTokenTimeoutSec s < 0 then 0 else rsFirstTokenTimeoutSec s);
          t2 = (if t1 > 600 then 600 else t1);
          r1 = (if rsCodexWSSilentRetries s < 0 then 0 else rsCodexWSSilentRetries s);
          r2 = (if r1 > 10 then 10 else r1)
      in s\<lparr>rsClientCompatMode := NormalizeClientCompatMode (rsClientCompatMode s),
           rsStreamFlushPolicy := NormalizeStreamFlushPolicy (rsStreamFlushPolicy s),
           rsFirstTokenMode := NormalizeFirstTokenMode (rsFirstTokenMode s),
           rsBillingTierPolicy := NormalizeBillingTierPolicy (rsBillingTierPolicy s),
           rsCodexMinCLIVersion := (if v = [] then rsCodexMinCLIVersion DefaultRuntimeSettings else v),
           rsStreamFlushIntervalMS := f2, rsFirstTokenTimeoutSec := t2, rsCodexWSSilentRetries := r2\<rparr>)"

text \<open>The functions that store settings return what the variable holds afterwards.\<close>

definition ApplyRuntimeSettings :: "RuntimeSettings \<Rightarrow> RuntimeSettings" where
  "ApplyRuntimeSettings s = NormalizeRuntimeSettings s"

definition runtimeOfRow :: "SettingsRow \<Rightarrow> RuntimeSettings" where
  "runtimeOfRow r =
     \<lparr>rsClientCompatMode = ssClientCompatMode r, rsCodexMinCLIVersion = ssCodexMinCLIVersion r, rsStreamFlushPolicy = ssStreamFlushPolicy r,
      rsStreamFlushIntervalMS = ssStreamFlushIntervalMS r, rsFirstTokenMode = ssFirstTokenMode r,
      rsFirstTokenTimeoutSec = ssFirstTokenTimeoutSeconds r, rsBillingTierPolicy = ssBillingTierPolicy r,
      rsCodexForceWebsocket = ssCodexForceWebsocket r, rsCodexWSHideErrors = ssCodexWSHideUpstreamErrors r,
      rsCodexWSSilentRetry = ssCodexWSSilentRetryEnabled r, rsCodexWSSilentRetries = ssCodexWSSilentMaxRetries r\<rparr>"

definition ApplyRuntimeSettingsFromSystem :: "SettingsRow option \<Rightarrow> RuntimeSettings" where
  "ApplyRuntimeSettingsFromSystem settings =
     NormalizeRuntimeSettings (case settings of None \<Rightarrow> DefaultRuntimeSettings | Some r \<Rightarrow> runtimeOfRow r)"

definition CurrentRuntimeSettings :: "RuntimeSettings \<Rightarrow> RuntimeSettings" where
  "CurrentRuntimeSettings stored = NormalizeRuntimeSettings stored"

definition currentStreamFlushInterval :: "RuntimeSettings \<Rightarrow> duration" where
  "currentStreamFlushInterval stored =
     (let ms = rsStreamFlushIntervalMS (CurrentRuntimeSettings stored) in (if ms < 1 then 20 else ms) * Millisecond)"

definition currentFirstTokenTimeout :: "RuntimeSettings \<Rightarrow> duration" where
  "currentFirstTokenTimeout stored =
     (let seconds = rsFirstTokenTimeoutSec (CurrentRuntimeSettings stored) in if seconds \<le> 0 then 0 else seconds * Second)"

definition currentFirstTokenMode :: "RuntimeSettings \<Rightarrow> string" where
  "currentFirstTokenMode stored = rsFirstTokenMode (CurrentRuntimeSettings stored)"

subsection \<open>Settings of the usage log\<close>

record UsageLogConfig =
  ulMode :: string
  ulBatchSize :: int
  ulFlushSeconds :: int

definition NormalizeUsageLogMode :: "string \<Rightarrow> string" where
  "NormalizeUsageLogMode mode =
     (let m = ToLower (TrimSpace mode)
      in if m = [] \<or> m = ''full'' then ''full'' else if m = ''errors'' then ''errors'' else if m = ''off'' then ''off'' else ''full'')"

definition NormalizeUsageLogBatchSize :: "int \<Rightarrow> int" where
  "NormalizeUsageLogBatchSize n = (if n < 1 then 200 else if n > 10000 then 10000 else n)"

definition NormalizeUsageLogFlushIntervalSeconds :: "int \<Rightarrow> int" where
  "NormalizeUsageLogFlushIntervalSeconds n = (if n < 1 then 5 else if n > 300 then 300 else n)"

definition SetUsageLogConfig :: "string \<Rightarrow> int \<Rightarrow> int \<Rightarrow> UsageLogConfig" where
  "SetUsageLogConfig mode batchSize seconds =
     \<lparr>ulMode = NormalizeUsageLogMode mode, ulBatchSize = NormalizeUsageLogBatchSize batchSize,
      ulFlushSeconds = NormalizeUsageLogFlushIntervalSeconds seconds\<rparr>"

end
