(* ===== verification/AdminAuth.thy ===== *)
theory AdminAuth
  imports SettingsTable "HOL-Library.Word"
begin

section \<open>Access to the management interface\<close>

text \<open>
  Models the authentication of \<open>admin/handler.go\<close>, the first initialisation of \<open>admin/bootstrap.go\<close>, and of
  \<open>security/middleware.go\<close> the constant-time comparison, the body limit, the test of the content type and the limiter per address.

  The secret comes from the environment or from the row of settings. \<open>readOK\<close> and \<open>writeOK\<close> say whether the database answers.
  Addresses are parsed by the package \<open>net\<close>: \<open>parseIP\<close>, \<open>loopback\<close> and \<open>inCIDR\<close> (false for text that is no network) are arguments.
\<close>

unbundle bit_operations_syntax

subsection \<open>Comparison\<close>

definition byteWord :: "char \<Rightarrow> 8 word" where
  "byteWord c = of_nat (of_char c)"

definition SecureCompare :: "string \<Rightarrow> string \<Rightarrow> bool" where
  "SecureCompare a b =
     (if length a \<noteq> length b then False
      else fold (\<lambda>(x, y) result. result OR (byteWord x XOR byteWord y)) (zip a b) 0 = 0)"

definition IsSensitiveEndpoint :: "string \<Rightarrow> bool" where
  "IsSensitiveEndpoint path \<longleftrightarrow>
     list_ex (HasPrefix path) [''/api/admin/accounts'', ''/api/admin/keys'', ''/api/admin/settings'', ''/api/admin/proxies'']"

subsection \<open>Administrator\<close>

record AdminAccess =
  aaSecretEnv :: string
  aaTable :: "SettingsRow option"

definition resolveAdminSecret :: "bool \<Rightarrow> AdminAccess \<Rightarrow> string \<times> string" where
  "resolveAdminSecret readOK h =
     (if aaSecretEnv h \<noteq> [] then (aaSecretEnv h, ''env'')
      else case GetSystemSettings readOK (aaTable h) of
        (_, True) \<Rightarrow> ([], ''disabled'')
      | (None, False) \<Rightarrow> ([], ''disabled'')
      | (Some r, False) \<Rightarrow> if ssAdminSecret r = [] then ([], ''disabled'') else (ssAdminSecret r, ''database''))"

definition hasConfiguredAdminSecret :: "bool \<Rightarrow> AdminAccess \<Rightarrow> bool" where
  "hasConfiguredAdminSecret readOK h \<longleftrightarrow> TrimSpace (fst (resolveAdminSecret readOK h)) \<noteq> []"

datatype adminOutcome = AdminNext bool | AdminReply int

text \<open>\<open>AdminNext\<close> passes the request on and says whether the access is written to the audit log.\<close>

definition adminKeyOf :: "string \<Rightarrow> string \<Rightarrow> string" where
  "adminKeyOf keyHeader authHeader =
     SanitizeInput (if keyHeader \<noteq> [] then keyHeader
       else if HasPrefix authHeader ''Bearer '' then TrimPrefix authHeader ''Bearer '' else [])"

definition adminAuthMiddleware :: "bool \<Rightarrow> AdminAccess \<Rightarrow> string \<Rightarrow> string \<Rightarrow> string \<Rightarrow> adminOutcome" where
  "adminAuthMiddleware readOK h keyHeader authHeader path =
     (let adminSecret = fst (resolveAdminSecret readOK h)
      in if adminSecret = [] then AdminReply 503
         else if \<not> SecureCompare (adminKeyOf keyHeader authHeader) adminSecret then AdminReply 401
         else AdminNext (IsSensitiveEndpoint path))"

subsection \<open>First initialisation\<close>

definition defaultBootstrapSettings :: SettingsRow where
  "defaultBootstrapSettings = zeroRow
     \<lparr>ssSiteName := DefaultSiteName, ssMaxConcurrency := 2, ssGlobalRPM := 0, ssTestModel := ''gpt-5.4'', ssTestConcurrency := 50,
      ssBackgroundRefreshIntervalMinutes := 2, ssUsageProbeMaxAgeMinutes := 10, ssRecoveryProbeIntervalMinutes := 30, ssLazyMode := False,
      ssPgMaxConns := 50, ssRedisPoolSize := 30, ssPromptFilterMode := ''monitor'', ssPromptFilterThreshold := 50,
      ssPromptFilterStrictThreshold := 90, ssPromptFilterLogMatches := True, ssPromptFilterMaxTextLength := 81920,
      ssPromptFilterCustomPatterns := ''[]'', ssPromptFilterDisabledPatterns := ''[]'', ssClientCompatMode := ''preserve'',
      ssCodexMinCLIVersion := ''0.118.0'', ssUsageLogMode := ''full'', ssUsageLogBatchSize := 200, ssUsageLogFlushIntervalSeconds := 5,
      ssStreamFlushPolicy := ''immediate'', ssStreamFlushIntervalMS := 20, ssFirstTokenMode := ''strict'', ssFirstTokenTimeoutSeconds := 0,
      ssBillingTierPolicy := ''actual'', ssAffinityMode := ''bounded'', ssCodexWSHideUpstreamErrors := True,
      ssCodexWSSilentRetryEnabled := True, ssCodexWSSilentMaxRetries := 2\<rparr>"

definition bootstrapAllowClientIP :: "(string \<Rightarrow> 'ip option) \<Rightarrow> ('ip \<Rightarrow> bool) \<Rightarrow> (string \<Rightarrow> 'ip \<Rightarrow> bool) \<Rightarrow> string \<Rightarrow> string \<Rightarrow> bool" where
  "bootstrapAllowClientIP parseIP loopback inCIDR allowedCIDR clientIP =
     (case parseIP (TrimSpace clientIP) of
        None \<Rightarrow> False
      | Some ip \<Rightarrow> if loopback ip then True
          else list_ex (\<lambda>cidr. TrimSpace cidr \<noteq> [] \<and> inCIDR (TrimSpace cidr) ip) (Split CHR '','' allowedCIDR))"

text \<open>The fixed window in one uninterrupted run; its single steps are below.\<close>

record bootstrapState =
  bsWindowStart :: int
  bsCount :: int

definition bootstrapAllowRate :: "int \<Rightarrow> bootstrapState \<Rightarrow> bootstrapState \<times> bool" where
  "bootstrapAllowRate now b =
     (let b1 = (if now - bsWindowStart b < 60 then b else b\<lparr>bsWindowStart := now, bsCount := 0\<rparr>);
          n = bsCount b1 + 1
      in (b1\<lparr>bsCount := n\<rparr>, n \<le> 20))"

definition firstForwardedHeaderValue :: "string \<Rightarrow> string" where
  "firstForwardedHeaderValue value0 =
     (let value = TrimSpace value0
      in if value = [] then []
         else TrimSpace (case Index value '','' of Some i \<Rightarrow> take i value | None \<Rightarrow> value))"

definition bootstrapPublicBaseURL :: "string \<Rightarrow> string \<Rightarrow> bool \<Rightarrow> string \<Rightarrow> string" where
  "bootstrapPublicBaseURL forwardedProto forwardedHost tls host0 =
     (let proto0 = firstForwardedHeaderValue forwardedProto;
          proto = (if proto0 = [] then (if tls then ''https'' else ''http'') else proto0);
          host1 = firstForwardedHeaderValue forwardedHost;
          host = (if host1 = [] then TrimSpace host0 else host1)
      in if host = [] then [] else TrimRight CHR ''/'' (proto @ ''://'' @ host))"

definition bootstrapDatabaseLocation :: "string \<Rightarrow> (string \<Rightarrow> string) \<Rightarrow> string" where
  "bootstrapDatabaseLocation driver getenv =
     (if EqualFold driver ''sqlite'' then TrimSpace (getenv ''DATABASE_PATH'')
      else let host = TrimSpace (getenv ''DATABASE_HOST''); name = TrimSpace (getenv ''DATABASE_NAME''); port = TrimSpace (getenv ''DATABASE_PORT'')
           in if host = [] \<or> name = [] then []
              else (if port \<noteq> [] then host @ '':'' @ port else host) @ ''/'' @ name)"

datatype bootstrapStatus = NeedsBootstrap | Configured string | StatusUnavailable

definition GetBootstrapStatus :: "bool \<Rightarrow> AdminAccess \<Rightarrow> bootstrapStatus" where
  "GetBootstrapStatus readOK h =
     (if TrimSpace (aaSecretEnv h) \<noteq> [] then Configured ''env''
      else case GetSystemSettings readOK (aaTable h) of
        (_, True) \<Rightarrow> StatusUnavailable
      | (None, False) \<Rightarrow> NeedsBootstrap
      | (Some r, False) \<Rightarrow> if TrimSpace (ssAdminSecret r) \<noteq> [] then Configured ''database'' else NeedsBootstrap)"

text \<open>\<open>body\<close> is the field \<open>admin_secret\<close> of the request, \<open>None\<close> when the body is no JSON object of that shape.\<close>

definition writeSecret :: "bool \<Rightarrow> bool \<Rightarrow> string \<Rightarrow> AdminAccess \<Rightarrow> AdminAccess \<times> int" where
  "writeSecret readOK writeOK secret h =
     (case GetSystemSettings readOK (aaTable h) of
        (_, True) \<Rightarrow> (h, 500)
      | (settings, False) \<Rightarrow>
          if (case settings of Some r \<Rightarrow> TrimSpace (ssAdminSecret r) \<noteq> [] | None \<Rightarrow> False) then (h, 409)
          else let r = (case settings of None \<Rightarrow> defaultBootstrapSettings | Some r \<Rightarrow> r);
                   (table, failed) = UpdateSystemSettings writeOK (r\<lparr>ssAdminSecret := secret\<rparr>) (aaTable h)
               in if failed then (h, 500) else (h\<lparr>aaTable := table\<rparr>, 200))"

definition PostBootstrap ::
  "bool \<Rightarrow> int \<Rightarrow> bool \<Rightarrow> bool \<Rightarrow> string option \<Rightarrow> AdminAccess \<times> bootstrapState \<Rightarrow> (AdminAccess \<times> bootstrapState) \<times> int" where
  "PostBootstrap allowedIP now readOK writeOK body hb =
     (let (h, b) = hb
      in if \<not> allowedIP then (hb, 403)
         else let (b', ok) = bootstrapAllowRate now b
              in if \<not> ok then ((h, b'), 429)
                 else if TrimSpace (aaSecretEnv h) \<noteq> [] then ((h, b'), 409)
                 else case body of
                   None \<Rightarrow> ((h, b'), 400)
                 | Some field \<Rightarrow>
                     let secret = TrimSpace field
                     in if secret = [] \<or> RuneCountInString secret < 8 \<or> length secret > 256 then ((h, b'), 400)
                        else let (h', code) = writeSecret readOK writeOK secret h in ((h', b'), code))"

subsection \<open>The limiter of the initialisation, step by step\<close>

text \<open>
  The atomic steps of \<open>bootstrapAllowRate\<close>: a request reads the clock, loads the start of the window, replaces it by compare-and-swap when the window is over,
  then resets the counter in a step of its own, and finally adds one to the counter. \<open>rwAdmitted\<close> counts the admitted requests since the
  last change of the window and \<open>rwResets\<close> all resets of the counter; neither is read by the code.
\<close>

datatype ratePC = AtLoad int | AtCAS int int | AtReset | AtAdd

record rateWorld =
  rwWindowStart :: int
  rwCount :: int
  rwThreads :: "nat \<rightharpoonup> ratePC"
  rwAdmitted :: int
  rwTotal :: int
  rwResets :: int

definition setPC :: "nat \<Rightarrow> ratePC option \<Rightarrow> rateWorld \<Rightarrow> rateWorld" where
  "setPC t pc w = w\<lparr>rwThreads := (rwThreads w)(t := pc)\<rparr>"

inductive rate_step :: "rateWorld \<Rightarrow> rateWorld \<Rightarrow> bool" where
  enter: "rwThreads w t = None \<Longrightarrow> rate_step w (setPC t (Some (AtLoad now)) w)"
| fresh: "rwThreads w t = Some (AtLoad now) \<Longrightarrow> now - rwWindowStart w < 60 \<Longrightarrow> rate_step w (setPC t (Some AtAdd) w)"
| stale: "rwThreads w t = Some (AtLoad now) \<Longrightarrow> \<not> now - rwWindowStart w < 60 \<Longrightarrow>
    rate_step w (setPC t (Some (AtCAS now (rwWindowStart w))) w)"
| swap: "rwThreads w t = Some (AtCAS now start) \<Longrightarrow> rwWindowStart w = start \<Longrightarrow>
    rate_step w (setPC t (Some AtReset) (w\<lparr>rwWindowStart := now, rwAdmitted := 0\<rparr>))"
| lost: "rwThreads w t = Some (AtCAS now start) \<Longrightarrow> rwWindowStart w \<noteq> start \<Longrightarrow> rate_step w (setPC t (Some (AtLoad now)) w)"
| reset: "rwThreads w t = Some AtReset \<Longrightarrow> rate_step w (setPC t (Some AtAdd) (w\<lparr>rwCount := 0, rwResets := rwResets w + 1\<rparr>))"
| add: "rwThreads w t = Some AtAdd \<Longrightarrow>
    rate_step w (setPC t None (w\<lparr>rwCount := rwCount w + 1,
      rwAdmitted := rwAdmitted w + (if rwCount w + 1 \<le> 20 then 1 else 0), rwTotal := rwTotal w + (if rwCount w + 1 \<le> 20 then 1 else 0)\<rparr>))"

definition rateStart :: rateWorld where
  "rateStart = \<lparr>rwWindowStart = 0, rwCount = 0, rwThreads = Map.empty, rwAdmitted = 0, rwTotal = 0, rwResets = 0\<rparr>"

subsection \<open>Other guards of requests\<close>

definition RequestSizeLimiter :: "nat \<Rightarrow> string option \<Rightarrow> int + string" where
  "RequestSizeLimiter maxSize stream =
     (case stream of
        None \<Rightarrow> Inl 400
      | Some bytes \<Rightarrow> let body = take (maxSize + 1) bytes in if length body > maxSize then Inl 413 else Inr body)"

definition ValidateContentType :: "string list \<Rightarrow> string \<Rightarrow> string \<Rightarrow> bool" where
  "ValidateContentType allowedTypes meth contentType \<longleftrightarrow>
     meth \<in> {''GET'', ''HEAD'', ''OPTIONS''} \<or> contentType = [] \<or> list_ex (HasPrefix contentType) allowedTypes"

record visitor =
  vTokens :: int
  vLastSeen :: time

record IPRateLimiter =
  ipVisitors :: "string \<rightharpoonup> visitor"
  ipRequests :: int
  ipWindow :: duration

definition NewIPRateLimiter :: "int \<Rightarrow> duration \<Rightarrow> IPRateLimiter" where
  "NewIPRateLimiter requests window = \<lparr>ipVisitors = Map.empty, ipRequests = requests, ipWindow = window\<rparr>"

definition AllowIP :: "time \<Rightarrow> string \<Rightarrow> IPRateLimiter \<Rightarrow> IPRateLimiter \<times> bool" where
  "AllowIP now ip l =
     (let set = (\<lambda>v. l\<lparr>ipVisitors := (ipVisitors l)(ip \<mapsto> v)\<rparr>);
          fresh = \<lparr>vTokens = ipRequests l - 1, vLastSeen = now\<rparr>
      in case ipVisitors l ip of
           None \<Rightarrow> (set fresh, True)
         | Some v \<Rightarrow>
             if now - vLastSeen v > ipWindow l then (set fresh, True)
             else if vTokens v > 0 then (set \<lparr>vTokens = vTokens v - 1, vLastSeen = now\<rparr>, True)
             else (set (v\<lparr>vLastSeen := now\<rparr>), False))"

definition cleanupVisitors :: "time \<Rightarrow> IPRateLimiter \<Rightarrow> IPRateLimiter" where
  "cleanupVisitors now l =
     l\<lparr>ipVisitors := (\<lambda>ip. case ipVisitors l ip of Some v \<Rightarrow> if now - vLastSeen v > ipWindow l * 2 then None else Some v | None \<Rightarrow> None)\<rparr>"

end
