(* ===== verification/AdminAuthProps.thy ===== *)
theory AdminAuthProps
  imports AdminAuth
begin

section \<open>Properties of the access to the management interface\<close>

text \<open>
  The comparison of secrets is equality; a request passes exactly with the configured secret; the first initialisation succeeds once; the
  limiter in front of it admits more than its limit when a reset is delayed, and not more than its limit per reset.
\<close>

subsection \<open>Comparison and login\<close>

lemma byteWord_inj: "byteWord x = byteWord y \<longleftrightarrow> x = y"
proof
  assume "byteWord x = byteWord y"
  then have "unat (byteWord x) = unat (byteWord y)" by simp
  moreover have "unat (byteWord c) = of_char c" for c
  proof -
    have "unat (byteWord c) = of_char c mod 2 ^ 8" unfolding byteWord_def by (simp add: unat_of_nat)
    then show ?thesis by simp
  qed
  ultimately show "x = y" by (simp add: of_char_eq_iff)
qed simp

lemma or_zero_iff: "(x :: 8 word) OR y = 0 \<longleftrightarrow> x = 0 \<and> y = 0"
  by (auto simp: or_eq_0_iff)

lemma compare_fold:
  "fold (\<lambda>(x, y) result. result OR (byteWord x XOR byteWord y)) ps r = 0 \<longleftrightarrow> r = 0 \<and> (\<forall>(x, y) \<in> set ps. x = y)"
proof (induction ps arbitrary: r)
  case (Cons p ps)
  obtain x y where p: "p = (x, y)" by force
  have "byteWord x XOR byteWord y = 0 \<longleftrightarrow> x = y"
    using byteWord_inj by (metis xor.right_neutral xor_self_eq xor.left_neutral xor.assoc)
  then show ?case using Cons.IH by (auto simp: p or_zero_iff)
qed simp

lemma SecureCompare_iff: "SecureCompare a b \<longleftrightarrow> a = b"
proof -
  have "(\<forall>(x, y) \<in> set (zip a b). x = y) \<longleftrightarrow> a = b" if "length a = length b"
    using that by (induction a b rule: list_induct2) auto
  then show ?thesis by (auto simp: SecureCompare_def compare_fold)
qed

definition adminSecret :: "bool \<Rightarrow> AdminAccess \<Rightarrow> string" where
  "adminSecret readOK h =
     (if aaSecretEnv h \<noteq> [] then aaSecretEnv h
      else if readOK then (case aaTable h of Some r \<Rightarrow> ssAdminSecret r | None \<Rightarrow> []) else [])"

lemma scannedRow_secret [simp]: "ssAdminSecret (scannedRow r) = ssAdminSecret r"
  by (simp add: scannedRow_def)

lemma resolve_secret: "fst (resolveAdminSecret readOK h) = adminSecret readOK h"
  by (auto simp: resolveAdminSecret_def adminSecret_def GetSystemSettings_def split: option.split)

lemma admin_access_eq:
  "adminAuthMiddleware readOK h keyHeader authHeader path =
     (if adminSecret readOK h = [] then AdminReply 503
      else if adminKeyOf keyHeader authHeader = adminSecret readOK h then AdminNext (IsSensitiveEndpoint path)
      else AdminReply 401)"
  by (simp add: adminAuthMiddleware_def Let_def resolve_secret SecureCompare_iff)

text \<open>
  C10: A request reaches the management interface exactly when a secret is configured, in the environment or, if the database
  answers, in the settings, and the key it presents is that secret once control characters are taken out of it. Without a secret every request is
  refused with 503, with a wrong key with 401.\<close>

theorem admin_access_decides:
  "adminAuthMiddleware readOK h keyHeader authHeader path =
     (if adminSecret readOK h = [] then AdminReply 503
      else if adminKeyOf keyHeader authHeader = adminSecret readOK h then AdminNext (IsSensitiveEndpoint path)
      else AdminReply 401)"
  by (rule admin_access_eq)

subsection \<open>First initialisation\<close>

lemma PostBootstrap_200:
  assumes "PostBootstrap allowedIP now readOK writeOK body (h, b) = ((h', b'), 200)"
  shows "\<exists>field. body = Some field \<and> allowedIP \<and> snd (bootstrapAllowRate now b) \<and> TrimSpace (aaSecretEnv h) = [] \<and> aaSecretEnv h' = aaSecretEnv h \<and>
    8 \<le> RuneCountInString (TrimSpace field) \<and> length (TrimSpace field) \<le> 256 \<and> TrimSpace field \<noteq> [] \<and>
    (\<exists>r. aaTable h' = Some r \<and> ssAdminSecret r = TrimSpace field) \<and>
    (case aaTable h of Some r \<Rightarrow> TrimSpace (ssAdminSecret r) = [] | None \<Rightarrow> True)"
  using assms
  by (auto simp: PostBootstrap_def Let_def split_beta writeSecret_def GetSystemSettings_def UpdateSystemSettings_def
      split: if_splits option.splits prod.splits)

text \<open>
  Supplement: After a successful initialisation the administrator logs in with the chosen secret exactly when it has no control characters: the
  login removes them from the presented key, the initialisation does not, so a secret that has one is never accepted.\<close>

theorem bootstrap_then_login:
  assumes "PostBootstrap allowedIP now True writeOK (Some field) (h, b) = ((h', b'), 200)"
    and env: "TrimSpace (aaSecretEnv h) = aaSecretEnv h"
  shows "(adminAuthMiddleware True h' (TrimSpace field) authHeader path \<noteq> AdminReply 401 \<longleftrightarrow> list_all keptByte (TrimSpace field)) \<and>
    (\<not> list_all keptByte (TrimSpace field) \<longrightarrow> (\<forall>k a. adminAuthMiddleware True h' k a path = AdminReply 401))"
proof -
  let ?w = "TrimSpace field"
  from PostBootstrap_200 [OF assms(1)] obtain r where r: "aaTable h' = Some r" "ssAdminSecret r = ?w" "?w \<noteq> []"
    and e: "TrimSpace (aaSecretEnv h) = []" "aaSecretEnv h' = aaSecretEnv h" by auto
  have s: "adminSecret True h' = ?w" using r e env by (simp add: adminSecret_def)
  have kept: "list_all keptByte (SanitizeInput x)" for x by (simp add: SanitizeInput_def list_all_iff)
  have "SanitizeInput ?w = ?w \<longleftrightarrow> list_all keptByte ?w" using kept [of ?w] SanitizeInput_kept by metis
  moreover have "adminKeyOf k a = ?w \<longrightarrow> list_all keptByte ?w" for k a using kept unfolding adminKeyOf_def by metis
  moreover have "adminKeyOf ?w a = SanitizeInput ?w" for a using r(3) by (simp add: adminKeyOf_def)
  ultimately show ?thesis unfolding admin_access_eq s using r(3) by auto
qed


definition demoAccess :: AdminAccess where
  "demoAccess = \<lparr>aaSecretEnv = [], aaTable = None\<rparr>"

definition demoBoot :: bootstrapState where
  "demoBoot = \<lparr>bsWindowStart = 0, bsCount = 0\<rparr>"

lemma demo_bootstrap:
  "snd (PostBootstrap True 100 True True (Some ''  correct horse '') (demoAccess, demoBoot)) = 200"
  by code_simp

theorem bootstrap_then_login_witness:
  "adminAuthMiddleware True (fst (fst (PostBootstrap True 100 True True (Some ''  correct horse '') (demoAccess, demoBoot)))) ''correct horse'' [] ''/api/admin/keys'' \<noteq> AdminReply 401"
proof -
  let ?r = "PostBootstrap True 100 True True (Some ''  correct horse '') (demoAccess, demoBoot)"
  have "?r = ((fst (fst ?r), snd (fst ?r)), 200)" using demo_bootstrap by (metis prod.collapse)
  moreover have "TrimSpace ''  correct horse '' = ''correct horse''" "list_all keptByte ''correct horse''"
    "TrimSpace (aaSecretEnv demoAccess) = aaSecretEnv demoAccess" by code_simp+
  ultimately show ?thesis
    using bootstrap_then_login [of True 100 True "''  correct horse ''" demoAccess demoBoot "fst (fst ?r)" "snd (fst ?r)" "[]" "''/api/admin/keys''"] by simp
qed

text \<open>What any number of further attempts can do.\<close>

inductive boot_step :: "AdminAccess \<times> bootstrapState \<Rightarrow> AdminAccess \<times> bootstrapState \<Rightarrow> bool" where
  attempt: "boot_step hb (fst (PostBootstrap allowedIP now readOK writeOK body hb))"

definition initialised :: "SettingsRow \<Rightarrow> AdminAccess \<times> bootstrapState \<Rightarrow> bool" where
  "initialised r hb \<longleftrightarrow> aaTable (fst hb) = Some r \<and> TrimSpace (ssAdminSecret r) \<noteq> []"

lemma initialised_refused:
  assumes "initialised r hb"
  shows "initialised r (fst (PostBootstrap allowedIP now readOK writeOK body hb))"
    "snd (PostBootstrap allowedIP now readOK writeOK body hb) \<in> {400, 403, 409, 429, 500}"
  using assms
  by (auto simp: initialised_def PostBootstrap_def writeSecret_def GetSystemSettings_def Let_def split_beta
      split: if_splits option.splits prod.splits)

interpretation boot_machine: invariant_machine boot_step "initialised r" for r
  by unfold_locales (auto elim!: boot_step.cases intro: initialised_refused)

text \<open>
  C24: The first initialisation succeeds at most once: after a success no number of further attempts, from any address, at any time and with any
  behaviour of the database, changes the stored row again, and each of them is refused.\<close>

theorem bootstrap_succeeds_once:
  assumes "PostBootstrap allowedIP now readOK writeOK body hb = (hb', 200)" "boot_step\<^sup>*\<^sup>* hb' hb''"
  shows "aaTable (fst hb'') = aaTable (fst hb') \<and> snd (PostBootstrap allowedIP2 now2 readOK2 writeOK2 body2 hb'') \<noteq> 200"
proof -
  obtain h b h' b' where e: "hb = (h, b)" "hb' = (h', b')" by (metis surj_pair)
  from PostBootstrap_200 [OF assms(1) [unfolded e]] obtain r field where
    "aaTable h' = Some r" "ssAdminSecret r = TrimSpace field" "TrimSpace field \<noteq> []" by auto
  then have "initialised r hb'" by (simp add: initialised_def e)
  then have i: "initialised r hb''" using boot_machine.reachable_inv [OF assms(2)] by blast
  have "snd (PostBootstrap allowedIP2 now2 readOK2 writeOK2 body2 hb'') \<in> {400, 403, 409, 429, 500}" by (rule initialised_refused(2) [OF i])
  then have "snd (PostBootstrap allowedIP2 now2 readOK2 writeOK2 body2 hb'') \<noteq> 200" by auto
  then show ?thesis using i \<open>initialised r hb'\<close> by (simp add: initialised_def)
qed

theorem bootstrap_succeeds_once_witness:
  "snd (PostBootstrap True 101 True True (Some ''another secret'') (fst (PostBootstrap True 100 True True (Some ''  correct horse '') (demoAccess, demoBoot)))) \<noteq> 200"
proof -
  let ?r = "PostBootstrap True 100 True True (Some ''  correct horse '') (demoAccess, demoBoot)"
  have "?r = (fst ?r, 200)" using demo_bootstrap by (metis prod.collapse)
  then show ?thesis using bootstrap_succeeds_once [of _ _ _ _ _ _ "fst ?r" "fst ?r"] by blast
qed


subsection \<open>The limiter of the initialisation under interleaving\<close>

definition rate_inv :: "rateWorld \<Rightarrow> bool" where
  "rate_inv w \<longleftrightarrow> 0 \<le> rwCount w \<and> 0 \<le> rwResets w \<and> rwTotal w \<le> 20 * rwResets w + min 20 (rwCount w)"

lemma rate_step_inv: "rate_step w w' \<Longrightarrow> rate_inv w \<Longrightarrow> rate_inv w'"
  by (induction rule: rate_step.induct) (auto simp: rate_inv_def setPC_def)

interpretation rate_machine: invariant_machine rate_step rate_inv
  by unfold_locales (rule rate_step_inv)

text \<open>One request that finds the window open.\<close>

lemma admit_one:
  assumes "rwThreads w t = None" "now - rwWindowStart w < 60" "rwCount w < 20"
  shows "rate_step\<^sup>*\<^sup>* w (w\<lparr>rwCount := rwCount w + 1, rwAdmitted := rwAdmitted w + 1, rwTotal := rwTotal w + 1\<rparr>)"
proof -
  let ?w1 = "setPC t (Some (AtLoad now)) w" and ?w2 = "setPC t (Some AtAdd) (setPC t (Some (AtLoad now)) w)"
  let ?w3 = "setPC t None (?w2\<lparr>rwCount := rwCount ?w2 + 1, rwAdmitted := rwAdmitted ?w2 + (if rwCount ?w2 + 1 \<le> 20 then 1 else 0),
      rwTotal := rwTotal ?w2 + (if rwCount ?w2 + 1 \<le> 20 then 1 else 0)\<rparr>)"
  have "rate_step w ?w1" using assms(1) by (rule rate_step.enter)
  moreover have "rate_step ?w1 ?w2" by (rule rate_step.fresh) (use assms(2) in \<open>simp_all add: setPC_def\<close>)
  moreover have "rate_step ?w2 ?w3" by (rule rate_step.add) (simp add: setPC_def)
  moreover have "?w3 = w\<lparr>rwCount := rwCount w + 1, rwAdmitted := rwAdmitted w + 1, rwTotal := rwTotal w + 1\<rparr>"
  proof -
    have "(rwThreads w)(t := None) = rwThreads w" using assms(1) by auto
    then show ?thesis using assms(3) by (simp add: setPC_def)
  qed
  ultimately show ?thesis by (metis converse_rtranclp_into_rtranclp rtranclp.rtrancl_refl)
qed

lemma admit_many:
  assumes "rwThreads w t = None" "now - rwWindowStart w < 60" "rwCount w + int n \<le> 20"
  shows "rate_step\<^sup>*\<^sup>* w (w\<lparr>rwCount := rwCount w + int n, rwAdmitted := rwAdmitted w + int n, rwTotal := rwTotal w + int n\<rparr>)"
  using assms
proof (induction n)
  case (Suc n)
  let ?w = "w\<lparr>rwCount := rwCount w + int n, rwAdmitted := rwAdmitted w + int n, rwTotal := rwTotal w + int n\<rparr>"
  have "rate_step\<^sup>*\<^sup>* w ?w" using Suc by simp
  moreover have "rate_step\<^sup>*\<^sup>* ?w (?w\<lparr>rwCount := rwCount ?w + 1, rwAdmitted := rwAdmitted ?w + 1, rwTotal := rwTotal ?w + 1\<rparr>)"
    by (rule admit_one [of _ t now]) (use Suc.prems in simp_all)
  ultimately have "rate_step\<^sup>*\<^sup>* w (?w\<lparr>rwCount := rwCount ?w + 1, rwAdmitted := rwAdmitted ?w + 1, rwTotal := rwTotal ?w + 1\<rparr>)"
    by (rule rtranclp_trans)
  then show ?case by (simp add: algebra_simps)
qed simp

text \<open>
  Supplement: The limiter in front of the initialisation promises at most twenty requests per minute under concurrency. Under any interleaving the
  number of admitted requests is at most twenty more than twenty for each reset of the counter; but the start of the window and the counter
  change in separate steps, and when the winner of the swap is delayed before its reset, forty requests are admitted in one window.\<close>

theorem bootstrap_limit_exceeded:
  "(\<forall>w. rate_step\<^sup>*\<^sup>* rateStart w \<longrightarrow> rwTotal w \<le> 20 * rwResets w + 20) \<and>
   (\<exists>w. rate_step\<^sup>*\<^sup>* rateStart w \<and> rwWindowStart w = 100 \<and> rwAdmitted w = 40)"
proof
  have "rate_inv rateStart" by (simp add: rate_inv_def rateStart_def)
  then show "\<forall>w. rate_step\<^sup>*\<^sup>* rateStart w \<longrightarrow> rwTotal w \<le> 20 * rwResets w + 20"
    using rate_machine.reachable_inv unfolding rate_inv_def by fastforce
  let ?w1 = "setPC 0 (Some (AtLoad 100)) rateStart"
  let ?w2 = "setPC 0 (Some (AtCAS 100 0)) rateStart"
  let ?w3 = "setPC 0 (Some AtReset) (rateStart\<lparr>rwWindowStart := 100, rwAdmitted := 0\<rparr>)"
  let ?w4 = "?w3\<lparr>rwCount := 20, rwAdmitted := 20, rwTotal := 20\<rparr>"
  let ?w5 = "setPC 0 (Some AtAdd) (?w4\<lparr>rwCount := 0, rwResets := 1\<rparr>)"
  let ?w6 = "?w5\<lparr>rwCount := 20, rwAdmitted := 40, rwTotal := 40\<rparr>"
  have "rate_step rateStart ?w1" by (rule rate_step.enter) (simp add: rateStart_def)
  moreover have "rate_step ?w1 ?w2" using rate_step.stale [of ?w1 0 100] by (simp add: setPC_def rateStart_def)
  moreover have "rate_step ?w2 ?w3" using rate_step.swap [of ?w2 0 100 0] by (simp add: setPC_def rateStart_def)
  moreover have "rate_step\<^sup>*\<^sup>* ?w3 ?w4" using admit_many [of ?w3 1 100 20] by (simp add: setPC_def rateStart_def)
  moreover have "rate_step ?w4 ?w5" using rate_step.reset [of ?w4 0] by (simp add: setPC_def rateStart_def)
  moreover have "rate_step\<^sup>*\<^sup>* ?w5 ?w6" using admit_many [of ?w5 1 100 20] by (simp add: setPC_def rateStart_def)
  ultimately have "rate_step\<^sup>*\<^sup>* rateStart ?w6" by (meson converse_rtranclp_into_rtranclp rtranclp_trans)
  moreover have "rwWindowStart ?w6 = 100" "rwAdmitted ?w6 = 40" by (simp_all add: setPC_def rateStart_def)
  ultimately show "\<exists>w. rate_step\<^sup>*\<^sup>* rateStart w \<and> rwWindowStart w = 100 \<and> rwAdmitted w = 40" by blast
qed

theorem bootstrap_limit_exceeded_witness:
  "\<exists>w. rate_step\<^sup>*\<^sup>* rateStart w \<and> rwAdmitted w = 40 \<and> rwTotal w \<le> 20 * rwResets w + 20"
  using bootstrap_limit_exceeded by blast

subsection \<open>The limiter per address\<close>

text \<open>
  Supplement: the periodic removal of old visitors changes no later answer: a visitor that is removed would have had a full bucket anyway.\<close>

lemma cleanup_visitors_unobservable:
  assumes "0 \<le> ipWindow l" "now \<le> now'"
  shows "snd (AllowIP now' ip (cleanupVisitors now l)) = snd (AllowIP now' ip l) \<and>
    ipVisitors (fst (AllowIP now' ip (cleanupVisitors now l))) ip = ipVisitors (fst (AllowIP now' ip l)) ip"
proof (cases "ipVisitors l ip")
  case (Some v)
  have "now' - vLastSeen v > ipWindow l" if "now - vLastSeen v > ipWindow l * 2" using that assms by linarith
  then show ?thesis using Some by (auto simp: AllowIP_def cleanupVisitors_def Let_def)
qed (simp add: AllowIP_def cleanupVisitors_def Let_def)

text \<open>The answers to the requests of one address at the given times.\<close>

fun allowRun :: "string \<Rightarrow> time list \<Rightarrow> IPRateLimiter \<Rightarrow> bool list" where
  "allowRun ip [] l = []"
| "allowRun ip (t # ts) l = (let (l', ok) = AllowIP t ip l in ok # allowRun ip ts l')"

text \<open>
  Supplement: every request renews the time of the last sight, also a refused one: a client whose bucket is empty and that keeps asking at least
  once per window is refused for as long as it does.\<close>

lemma steady_client_locked_out:
  assumes "ipVisitors l ip = Some v" "vTokens v \<le> 0"
    and "successively (\<lambda>x y. y - x \<le> ipWindow l) (vLastSeen v # ts)"
  shows "list_all Not (allowRun ip ts l)"
  using assms
proof (induction ts arbitrary: l v)
  case (Cons t ts)
  let ?l = "l\<lparr>ipVisitors := (ipVisitors l)(ip \<mapsto> v\<lparr>vLastSeen := t\<rparr>)\<rparr>"
  have "AllowIP t ip l = (?l, False)" using Cons.prems by (simp add: AllowIP_def Let_def)
  moreover have "list_all Not (allowRun ip ts ?l)"
    by (rule Cons.IH [of ?l "v\<lparr>vLastSeen := t\<rparr>"]) (use Cons.prems in \<open>simp_all add: successively_Cons\<close>)
  ultimately show ?case by (simp add: Let_def)
qed simp

end
