(* ===== verification/Branding.thy ===== *)
theory Branding
  imports SettingsTable
begin

section \<open>Site logo, background and image store\<close>

text \<open>
  Models of \<open>admin/handler.go\<close> the normalisation of the site logo and of the background, and of \<open>internal/imagestore\<close> the configuration of
  the image store. \<open>unmarshal\<close> and \<open>marshal\<close> stand for \<open>encoding/json\<close> on the type at hand: \<open>unmarshal raw cfg\<close> fills \<open>cfg\<close> from
  \<open>raw\<close> and is \<open>None\<close> for an error.
\<close>

subsection \<open>Base64\<close>

text \<open>The length of what \<open>base64.StdEncoding.DecodeString\<close> yields: line breaks are skipped, padding ends the text.\<close>

definition base64Char :: "char \<Rightarrow> bool" where
  "base64Char c \<longleftrightarrow>
     (let n = byteOf c in 65 \<le> n \<and> n \<le> 90 \<or> 97 \<le> n \<and> n \<le> 122 \<or> 48 \<le> n \<and> n \<le> 57 \<or> c = CHR ''+'' \<or> c = CHR ''/'')"

fun base64Quads :: "string \<Rightarrow> nat option" where
  "base64Quads [] = Some 0"
| "base64Quads [a, b, c, d] =
     (if \<not> (base64Char a \<and> base64Char b) then None
      else if c = CHR ''='' \<and> d = CHR ''='' then Some 1
      else if base64Char c \<and> d = CHR ''='' then Some 2
      else if base64Char c \<and> base64Char d then Some 3 else None)"
| "base64Quads (a # b # c # d # s) =
     (if list_all base64Char [a, b, c, d] then map_option (\<lambda>n. n + 3) (base64Quads s) else None)"
| "base64Quads _ = None"

definition base64DecodedLen :: "string \<Rightarrow> nat option" where
  "base64DecodedLen s = base64Quads (filter (\<lambda>c. byteOf c \<noteq> 10 \<and> byteOf c \<noteq> 13) s)"

subsection \<open>Logo and background\<close>

text \<open>\<open>Inl\<close> is an error, which is answered with 400.\<close>

datatype mediaError = BadDataURL | BadBase64 | MediaTooLarge | URLTooLong | UnsupportedMedia

definition checkDataURL :: "nat \<Rightarrow> string \<Rightarrow> mediaError + string" where
  "checkDataURL maxBytes value =
     (case Index value '','' of
        None \<Rightarrow> Inl BadDataURL
      | Some i \<Rightarrow> (case base64DecodedLen (TrimSpace (drop (i + 1) value)) of
          None \<Rightarrow> Inl BadBase64
        | Some n \<Rightarrow> if n > maxBytes then Inl MediaTooLarge else Inr value))"

definition checkURL :: "nat \<Rightarrow> string \<Rightarrow> mediaError + string" where
  "checkURL maxChars value = (if length value > maxChars then Inl URLTooLong else Inr value)"

definition sitePath :: "string \<Rightarrow> bool" where
  "sitePath value \<longleftrightarrow> HasPrefix value ''/'' \<and> \<not> HasPrefix value ''//''"

definition normalizeSiteLogo :: "string \<Rightarrow> mediaError + string" where
  "normalizeSiteLogo value0 =
     (let value = TrimSpace value0; lower = ToLower value
      in if value = [] then Inr []
         else if HasPrefix lower ''data:image/'' \<and> Contains lower '';base64,'' then checkDataURL (600 * 1024) value
         else if HasPrefix lower ''https://'' \<or> HasPrefix lower ''http://'' then checkURL 4096 value
         else if sitePath value then checkURL 4096 value
         else Inl UnsupportedMedia)"

definition normalizeBackgroundImage :: "string \<Rightarrow> mediaError + string" where
  "normalizeBackgroundImage value0 =
     (let value = TrimSpace value0; lower = ToLower value
      in if value = [] then Inr []
         else if HasPrefix lower ''data:image/'' \<and> Contains lower '';base64,'' then checkDataURL (2 * 1024 * 1024) value
         else if HasPrefix lower ''data:video/mp4'' \<and> Contains lower '';base64,'' then checkDataURL (40 * 1024 * 1024) value
         else if HasPrefix lower ''https://'' \<or> HasPrefix lower ''http://'' then checkURL 20000 value
         else if sitePath value then checkURL 20000 value
         else Inl UnsupportedMedia)"

definition clampTo :: "int \<Rightarrow> int \<Rightarrow> int \<Rightarrow> int" where
  "clampTo lo hi v = (if v < lo then lo else if v > hi then hi else v)"

definition normalizeBackgroundOpacity :: "int \<Rightarrow> int" where
  "normalizeBackgroundOpacity v = clampTo 0 100 v"

definition normalizeBackgroundBlur :: "int \<Rightarrow> int" where
  "normalizeBackgroundBlur v = clampTo 0 24 v"

definition normalizeBackgroundGlassOpacity :: "int \<Rightarrow> int" where
  "normalizeBackgroundGlassOpacity v = clampTo 0 100 v"

definition normalizeBackgroundGlassBlur :: "int \<Rightarrow> int" where
  "normalizeBackgroundGlassBlur v = clampTo 0 20 v"

record brandingBackgroundConfig =
  bgImage :: string
  bgOpacity :: int
  bgBlur :: int
  bgGlassOpacity :: int
  bgGlassBlur :: int

definition normalizeBackgroundConfig :: "brandingBackgroundConfig \<Rightarrow> brandingBackgroundConfig" where
  "normalizeBackgroundConfig cfg =
     \<lparr>bgImage = (case normalizeBackgroundImage (bgImage cfg) of Inl _ \<Rightarrow> [] | Inr v \<Rightarrow> v),
      bgOpacity = normalizeBackgroundOpacity (bgOpacity cfg), bgBlur = normalizeBackgroundBlur (bgBlur cfg),
      bgGlassOpacity = normalizeBackgroundGlassOpacity (bgGlassOpacity cfg), bgGlassBlur = normalizeBackgroundGlassBlur (bgGlassBlur cfg)\<rparr>"

definition defaultBackgroundConfig :: brandingBackgroundConfig where
  "defaultBackgroundConfig = \<lparr>bgImage = [], bgOpacity = 18, bgBlur = 0, bgGlassOpacity = 58, bgGlassBlur = 5\<rparr>"

definition decodeBackgroundConfig ::
  "(string \<Rightarrow> brandingBackgroundConfig \<Rightarrow> brandingBackgroundConfig option) \<Rightarrow> string \<Rightarrow> brandingBackgroundConfig" where
  "decodeBackgroundConfig unmarshal raw0 =
     (let raw = TrimSpace raw0
      in if raw = [] then defaultBackgroundConfig
         else case unmarshal raw defaultBackgroundConfig of
           None \<Rightarrow> defaultBackgroundConfig
         | Some cfg \<Rightarrow> normalizeBackgroundConfig cfg)"

definition encodeBackgroundConfig :: "(brandingBackgroundConfig \<Rightarrow> string) \<Rightarrow> brandingBackgroundConfig \<Rightarrow> string" where
  "encodeBackgroundConfig marshal cfg = marshal (normalizeBackgroundConfig cfg)"

record brandingResponse =
  brSiteName :: string
  brSiteLogo :: string
  brBackground :: brandingBackgroundConfig

definition brandingFromSettings ::
  "(string \<Rightarrow> brandingBackgroundConfig \<Rightarrow> brandingBackgroundConfig option) \<Rightarrow> SettingsRow option \<Rightarrow> brandingResponse" where
  "brandingFromSettings unmarshal settings =
     (case settings of
        None \<Rightarrow> \<lparr>brSiteName = DefaultSiteName, brSiteLogo = [], brBackground = defaultBackgroundConfig\<rparr>
      | Some r \<Rightarrow> \<lparr>brSiteName = NormalizeSiteName (ssSiteName r), brSiteLogo = TrimSpace (ssSiteLogo r),
                   brBackground = decodeBackgroundConfig unmarshal (ssBackgroundConfig r)\<rparr>)"

definition GetBranding ::
  "(string \<Rightarrow> brandingBackgroundConfig \<Rightarrow> brandingBackgroundConfig option) \<Rightarrow> bool \<Rightarrow> SettingsRow option \<Rightarrow> brandingResponse" where
  "GetBranding unmarshal readOK table =
     (case GetSystemSettings readOK table of
        (_, True) \<Rightarrow> brandingFromSettings unmarshal None
      | (settings, False) \<Rightarrow> brandingFromSettings unmarshal settings)"

subsection \<open>The image store\<close>

record ImageConfig =
  icBackend :: string
  icEndpoint :: string
  icRegion :: string
  icBucket :: string
  icAccessKey :: string
  icSecretKey :: string
  icPrefix :: string
  icForcePathStyle :: bool
  icLocalDir :: string

definition localConfig :: "string \<Rightarrow> ImageConfig" where
  "localConfig dir =
     \<lparr>icBackend = ''local'', icEndpoint = [], icRegion = [], icBucket = [], icAccessKey = [], icSecretKey = [], icPrefix = [],
      icForcePathStyle = False, icLocalDir = dir\<rparr>"

definition TrimSlashes :: "string \<Rightarrow> string" where
  "TrimSlashes s = TrimRight CHR ''/'' (TrimLeft CHR ''/'' s)"

definition imageNormalize :: "ImageConfig \<Rightarrow> ImageConfig" where
  "imageNormalize c =
     (let backend = ToLower (TrimSpace (icBackend c)); prefix = TrimSpace (icPrefix c)
      in c\<lparr>icBackend := (if backend = [] then ''local'' else backend), icEndpoint := TrimSpace (icEndpoint c),
           icRegion := TrimSpace (icRegion c), icBucket := TrimSpace (icBucket c), icAccessKey := TrimSpace (icAccessKey c),
           icSecretKey := TrimSpace (icSecretKey c), icPrefix := (if prefix \<noteq> [] then TrimSlashes prefix @ ''/'' else prefix),
           icLocalDir := TrimSpace (icLocalDir c)\<rparr>)"

definition imageValidate :: "ImageConfig \<Rightarrow> bool" where
  "imageValidate c0 =
     (let c = imageNormalize c0
      in if icBackend c = ''local'' then True
         else if icBackend c \<noteq> ''s3'' then False
         else icBucket c \<noteq> [] \<and> icAccessKey c \<noteq> [] \<and> icSecretKey c \<noteq> [])"

text \<open>\<open>dirOK\<close> says whether the directory can be made and \<open>s3OK\<close> whether the client library accepts the configuration;
  \<open>None\<close> leaves the configuration in force.\<close>

definition ConfigureImages :: "(string \<Rightarrow> bool) \<Rightarrow> (ImageConfig \<Rightarrow> bool) \<Rightarrow> ImageConfig \<Rightarrow> ImageConfig option" where
  "ConfigureImages dirOK s3OK cfg0 =
     (let cfg = imageNormalize cfg0
      in if \<not> imageValidate cfg then None
         else if icLocalDir cfg \<noteq> [] \<and> \<not> dirOK (icLocalDir cfg) then None
         else if icBackend cfg = ''s3'' \<and> \<not> s3OK cfg then None
         else Some cfg)"

definition CurrentConfig :: "ImageConfig option \<Rightarrow> ImageConfig" where
  "CurrentConfig current = (case current of Some c \<Rightarrow> c | None \<Rightarrow> localConfig [])"

text \<open>What is written as JSON: all fields but the directory, of a local store the backend only.\<close>

definition TrimSuffixSlash :: "string \<Rightarrow> string" where
  "TrimSuffixSlash s = (if HasSuffix s ''/'' then butlast s else s)"

definition imageJSONOf :: "ImageConfig \<Rightarrow> ImageConfig" where
  "imageJSONOf cfg0 =
     (let cfg = imageNormalize cfg0
      in if icBackend cfg = ''local'' then localConfig [] else cfg\<lparr>icPrefix := TrimSuffixSlash (icPrefix cfg), icLocalDir := []\<rparr>)"

definition EncodeConfigJSON :: "(ImageConfig \<Rightarrow> string option) \<Rightarrow> ImageConfig \<Rightarrow> string option" where
  "EncodeConfigJSON marshal cfg = marshal (imageJSONOf cfg)"

definition ParseConfigJSON :: "(string \<Rightarrow> ImageConfig option) \<Rightarrow> string \<Rightarrow> ImageConfig option" where
  "ParseConfigJSON unmarshal raw0 =
     (let raw = TrimSpace raw0
      in if raw = [] \<or> raw = ''{}'' then Some (localConfig [])
         else map_option imageNormalize (unmarshal raw))"

text \<open>The state after start-up: a broken configuration falls back to the local store.\<close>

definition ApplyFromJSON ::
  "(string \<Rightarrow> ImageConfig option) \<Rightarrow> (string \<Rightarrow> bool) \<Rightarrow> (ImageConfig \<Rightarrow> bool) \<Rightarrow> string \<Rightarrow> string \<Rightarrow> ImageConfig option" where
  "ApplyFromJSON unmarshal dirOK s3OK raw localDir =
     (let fallback = ConfigureImages dirOK s3OK (localConfig localDir)
      in case ParseConfigJSON unmarshal raw of
           None \<Rightarrow> fallback
         | Some cfg \<Rightarrow> (case ConfigureImages dirOK s3OK (cfg\<lparr>icLocalDir := localDir\<rparr>) of None \<Rightarrow> fallback | Some c \<Rightarrow> Some c))"

definition IsS3Ref :: "string \<Rightarrow> bool" where
  "IsS3Ref ref = HasPrefix (TrimSpace ref) ''s3://''"

end
