(* ===== verification/Settings.thy ===== *)
theory Settings
  imports Branding AdminAuth PromptFilter ModelMapping RateLimit Cleanup
begin

section \<open>Reading and changing the settings\<close>

text \<open>
  Models \<open>UpdateSettings\<close> of \<open>admin/handler.go\<close> with the setters and getters of \<open>auth/store.go\<close> that it uses, and the
  loading of the settings at start-up (\<open>main.go\<close> and the rest of \<open>NewStore\<close>). The handler changes the running program field by field and writes
  all of it to the table at the end; a field that is refused ends the request in between.

  The fields of the store that theory \<open>Store\<close> does not have are those of \<open>StoreConf\<close>. What comes from outside is in \<open>SettingsEnv\<close>: the clock, the answers of
  the database and of the file system, the regular expressions, and \<open>encoding/json\<close> on the types at hand.
\<close>

subsection \<open>The request\<close>

record updateSettingsReq =
  rqSiteName :: "string option"
  rqSiteLogo :: "string option"
  rqBackgroundImage :: "string option"
  rqBackgroundOpacity :: "int option"
  rqBackgroundBlur :: "int option"
  rqBackgroundGlassOpacity :: "int option"
  rqBackgroundGlassBlur :: "int option"
  rqMaxConcurrency :: "int option"
  rqGlobalRPM :: "int option"
  rqTestModel :: "string option"
  rqTestConcurrency :: "int option"
  rqBackgroundRefreshIntervalMinutes :: "int option"
  rqUsageProbeMaxAgeMinutes :: "int option"
  rqUsageProbeConcurrency :: "int option"
  rqUsageProbeResponsesFallbackEnabled :: "bool option"
  rqRecoveryProbeIntervalMinutes :: "int option"
  rqLazyMode :: "bool option"
  rqProxyURL :: "string option"
  rqPgMaxConns :: "int option"
  rqRedisPoolSize :: "int option"
  rqAutoCleanUnauthorized :: "bool option"
  rqAutoCleanRateLimited :: "bool option"
  rqAdminSecret :: "string option"
  rqAutoCleanFullUsage :: "bool option"
  rqAutoCleanError :: "bool option"
  rqAutoCleanExpired :: "bool option"
  rqProxyPoolEnabled :: "bool option"
  rqFastSchedulerEnabled :: "bool option"
  rqCodexForceWebsocket :: "bool option"
  rqCodexWSKeepaliveEnabled :: "bool option"
  rqCodexWSKeepaliveIntervalSec :: "int option"
  rqCodexWSHideUpstreamErrors :: "bool option"
  rqCodexWSSilentRetryEnabled :: "bool option"
  rqCodexWSSilentMaxRetries :: "int option"
  rqSchedulerMode :: "string option"
  rqAffinityMode :: "string option"
  rqMaxRetries :: "int option"
  rqMaxRateLimitRetries :: "int option"
  rqAllowRemoteMigration :: "bool option"
  rqModelMapping :: "string option"
  rqCodexModelMapping :: "string option"
  rqReasoningEffortModels :: "string option"
  rqResinURL :: "string option"
  rqResinPlatformName :: "string option"
  rqPromptFilterEnabled :: "bool option"
  rqPromptFilterMode :: "string option"
  rqPromptFilterThreshold :: "int option"
  rqPromptFilterStrictThreshold :: "int option"
  rqPromptFilterLogMatches :: "bool option"
  rqPromptFilterMaxTextLength :: "int option"
  rqPromptFilterSensitiveWords :: "string option"
  rqPromptFilterCustomPatterns :: "string option"
  rqPromptFilterDisabledPatterns :: "string option"
  rqClientCompatMode :: "string option"
  rqCodexMinCLIVersion :: "string option"
  rqUsageLogMode :: "string option"
  rqUsageLogBatchSize :: "int option"
  rqUsageLogFlushIntervalSeconds :: "int option"
  rqStreamFlushPolicy :: "string option"
  rqStreamFlushIntervalMS :: "int option"
  rqFirstTokenMode :: "string option"
  rqFirstTokenTimeoutSeconds :: "int option"
  rqBillingTierPolicy :: "string option"
  rqShowFullUsageNumbers :: "bool option"
  rqImageStorageBackend :: "string option"
  rqImageS3Endpoint :: "string option"
  rqImageS3Region :: "string option"
  rqImageS3Bucket :: "string option"
  rqImageS3AccessKey :: "string option"
  rqImageS3SecretKey :: "string option"
  rqImageS3Prefix :: "string option"
  rqImageS3ForcePathStyle :: "bool option"
  rqAutoPause5hThreshold :: "float64 option"
  rqAutoPause7dThreshold :: "float64 option"

definition emptyReq :: updateSettingsReq where
  "emptyReq =
     \<lparr>rqSiteName = None, rqSiteLogo = None, rqBackgroundImage = None, rqBackgroundOpacity = None, rqBackgroundBlur = None,
     rqBackgroundGlassOpacity = None, rqBackgroundGlassBlur = None, rqMaxConcurrency = None, rqGlobalRPM = None, rqTestModel = None,
     rqTestConcurrency = None, rqBackgroundRefreshIntervalMinutes = None, rqUsageProbeMaxAgeMinutes = None, rqUsageProbeConcurrency = None,
     rqUsageProbeResponsesFallbackEnabled = None, rqRecoveryProbeIntervalMinutes = None, rqLazyMode = None, rqProxyURL = None, rqPgMaxConns
     = None, rqRedisPoolSize = None, rqAutoCleanUnauthorized = None, rqAutoCleanRateLimited = None, rqAdminSecret = None,
     rqAutoCleanFullUsage = None, rqAutoCleanError = None, rqAutoCleanExpired = None, rqProxyPoolEnabled = None, rqFastSchedulerEnabled =
     None, rqCodexForceWebsocket = None, rqCodexWSKeepaliveEnabled = None, rqCodexWSKeepaliveIntervalSec = None, rqCodexWSHideUpstreamErrors
     = None, rqCodexWSSilentRetryEnabled = None, rqCodexWSSilentMaxRetries = None, rqSchedulerMode = None, rqAffinityMode = None,
     rqMaxRetries = None, rqMaxRateLimitRetries = None, rqAllowRemoteMigration = None, rqModelMapping = None, rqCodexModelMapping = None,
     rqReasoningEffortModels = None, rqResinURL = None, rqResinPlatformName = None, rqPromptFilterEnabled = None, rqPromptFilterMode = None,
     rqPromptFilterThreshold = None, rqPromptFilterStrictThreshold = None, rqPromptFilterLogMatches = None, rqPromptFilterMaxTextLength =
     None, rqPromptFilterSensitiveWords = None, rqPromptFilterCustomPatterns = None, rqPromptFilterDisabledPatterns = None,
     rqClientCompatMode = None, rqCodexMinCLIVersion = None, rqUsageLogMode = None, rqUsageLogBatchSize = None,
     rqUsageLogFlushIntervalSeconds = None, rqStreamFlushPolicy = None, rqStreamFlushIntervalMS = None, rqFirstTokenMode = None,
     rqFirstTokenTimeoutSeconds = None, rqBillingTierPolicy = None, rqShowFullUsageNumbers = None, rqImageStorageBackend = None,
     rqImageS3Endpoint = None, rqImageS3Region = None, rqImageS3Bucket = None, rqImageS3AccessKey = None, rqImageS3SecretKey = None,
     rqImageS3Prefix = None, rqImageS3ForcePathStyle = None, rqAutoPause5hThreshold = None, rqAutoPause7dThreshold = None\<rparr>"

subsection \<open>The program that is configured\<close>

record StoreConf =
  scTestModel :: string
  scTestConcurrency :: int
  scBackgroundRefreshInterval :: duration
  scUsageProbeMaxAge :: duration
  scUsageProbeConcurrency :: int
  scUsageProbeFallback :: bool
  scRecoveryProbeInterval :: duration
  scAutoCleanUnauthorized :: bool
  scAutoCleanRateLimited :: bool
  scAutoCleanFullUsage :: bool
  scAutoCleanError :: bool
  scAutoCleanExpired :: bool
  scMaxRetries :: int
  scMaxRateLimitRetries :: int
  scAllowRemoteMigration :: bool
  scModelMapping :: string
  scCodexModelMapping :: string
  scReasoningEffortModels :: string
  scPromptFilter :: Config
  scCodexForceWebsocket :: bool
  scCodexWSKeepaliveEnabled :: bool
  scCodexWSKeepaliveIntervalSec :: int
  scCodexWSHideUpstreamErrors :: bool
  scCodexWSSilentRetryEnabled :: bool
  scCodexWSSilentMaxRetries :: int

record AdminHandler =
  hdPool :: CleanState
  hdConf :: StoreConf
  hdLimiter :: EnhancedRateLimiter
  hdAccess :: AdminAccess
  hdMaxOpenConns :: int
  hdPgMaxConns :: int
  hdRedisPoolSize :: int
  hdUsageLog :: UsageLogConfig
  hdRuntime :: RuntimeSettings
  hdResin :: "(string \<times> string) option"
  hdResinDecorator :: bool
  hdImages :: "ImageConfig option"

record SettingsEnv =
  evNow :: time
  evReadOK :: bool
  evWriteOK :: bool
  evProxies :: "string list option"
  evBatchOK :: bool
  evSoftDelete :: "int \<Rightarrow> bool"
  evSupportedModels :: "string list"
  evImageDir :: string
  evDirOK :: "string \<Rightarrow> bool"
  evS3OK :: "ImageConfig \<Rightarrow> bool"
  evBackgroundIn :: "string \<Rightarrow> brandingBackgroundConfig \<Rightarrow> brandingBackgroundConfig option"
  evBackgroundOut :: "brandingBackgroundConfig \<Rightarrow> string"
  evEffortsIn :: "string \<Rightarrow> (string \<times> string) list option"
  evEffortsOut :: "ReasoningEffortModel list \<Rightarrow> string"
  evPatternsIn :: "string \<Rightarrow> PatternConfig list option"
  evPatternsOut :: "PatternConfig list \<Rightarrow> string"
  evNamesIn :: "string \<Rightarrow> string list option"
  evNamesOut :: "string list \<Rightarrow> string"
  evImageIn :: "string \<Rightarrow> ImageConfig option"
  evImageOut :: "ImageConfig \<Rightarrow> string option"
  evCompile :: "string \<Rightarrow> (string \<Rightarrow> bool) option"
  evBuiltins :: "PatternConfig list"

abbreviation hdStore :: "AdminHandler \<Rightarrow> Store" where
  "hdStore h \<equiv> csStore (hdPool h)"

definition onStore :: "(Store \<Rightarrow> Store) \<Rightarrow> AdminHandler \<Rightarrow> AdminHandler" where
  "onStore f h = h\<lparr>hdPool := (hdPool h)\<lparr>csStore := f (hdStore h)\<rparr>\<rparr>"

definition onConf :: "(StoreConf \<Rightarrow> StoreConf) \<Rightarrow> AdminHandler \<Rightarrow> AdminHandler" where
  "onConf f h = h\<lparr>hdConf := f (hdConf h)\<rparr>"

subsection \<open>Setters and getters of the store\<close>

definition SetBackgroundRefreshInterval :: "duration \<Rightarrow> StoreConf \<Rightarrow> StoreConf" where
  "SetBackgroundRefreshInterval d c = c\<lparr>scBackgroundRefreshInterval := (if d \<le> 0 then 2 * Minute else d)\<rparr>"

definition GetBackgroundRefreshInterval :: "StoreConf \<Rightarrow> duration" where
  "GetBackgroundRefreshInterval c = (let d = scBackgroundRefreshInterval c in if d \<le> 0 then 2 * Minute else d)"

definition GetBackgroundRefreshIntervalMinutes :: "StoreConf \<Rightarrow> int" where
  "GetBackgroundRefreshIntervalMinutes c = GetBackgroundRefreshInterval c div Minute"

definition SetUsageProbeMaxAge :: "duration \<Rightarrow> StoreConf \<Rightarrow> StoreConf" where
  "SetUsageProbeMaxAge d c = c\<lparr>scUsageProbeMaxAge := (if d \<le> 0 then 10 * Minute else d)\<rparr>"

definition GetUsageProbeMaxAge :: "StoreConf \<Rightarrow> duration" where
  "GetUsageProbeMaxAge c = (let d = scUsageProbeMaxAge c in if d \<le> 0 then 10 * Minute else d)"

definition GetUsageProbeMaxAgeMinutes :: "StoreConf \<Rightarrow> int" where
  "GetUsageProbeMaxAgeMinutes c = GetUsageProbeMaxAge c div Minute"

definition SetUsageProbeConcurrency :: "int \<Rightarrow> StoreConf \<Rightarrow> StoreConf" where
  "SetUsageProbeConcurrency n c =
     (let n1 = (if n \<le> 0 then 16 else n) in c\<lparr>scUsageProbeConcurrency := (if n1 > 128 then 128 else n1)\<rparr>)"

definition GetUsageProbeConcurrency :: "StoreConf \<Rightarrow> int" where
  "GetUsageProbeConcurrency c = (let n = scUsageProbeConcurrency c in if n \<le> 0 then 16 else n)"

definition SetRecoveryProbeInterval :: "duration \<Rightarrow> StoreConf \<Rightarrow> StoreConf" where
  "SetRecoveryProbeInterval d c = c\<lparr>scRecoveryProbeInterval := (if d \<le> 0 then 30 * Minute else d)\<rparr>"

definition GetRecoveryProbeInterval :: "StoreConf \<Rightarrow> duration" where
  "GetRecoveryProbeInterval c = (let d = scRecoveryProbeInterval c in if d \<le> 0 then 30 * Minute else d)"

definition GetRecoveryProbeIntervalMinutes :: "StoreConf \<Rightarrow> int" where
  "GetRecoveryProbeIntervalMinutes c = GetRecoveryProbeInterval c div Minute"

definition SetMaxRetries :: "int \<Rightarrow> StoreConf \<Rightarrow> StoreConf" where
  "SetMaxRetries n c = c\<lparr>scMaxRetries := (if n < 0 then 0 else n)\<rparr>"

definition SetMaxRateLimitRetries :: "int \<Rightarrow> StoreConf \<Rightarrow> StoreConf" where
  "SetMaxRateLimitRetries n c = c\<lparr>scMaxRateLimitRetries := (if n < 0 then 0 else n)\<rparr>"

definition GetTestModel :: "StoreConf \<Rightarrow> string" where
  "GetTestModel c = (if scTestModel c \<noteq> [] then scTestModel c else ''gpt-5.4'')"

definition GetModelMapping :: "StoreConf \<Rightarrow> string" where
  "GetModelMapping c = (if scModelMapping c \<noteq> [] then scModelMapping c else ''{}'')"

definition GetCodexModelMapping :: "StoreConf \<Rightarrow> string" where
  "GetCodexModelMapping c = (if scCodexModelMapping c \<noteq> [] then scCodexModelMapping c else ''{}'')"

definition GetReasoningEffortModels :: "StoreConf \<Rightarrow> string" where
  "GetReasoningEffortModels c = (if scReasoningEffortModels c \<noteq> [] then scReasoningEffortModels c else ''[]'')"

definition SetPromptFilterConfig :: "Config \<Rightarrow> StoreConf \<Rightarrow> StoreConf" where
  "SetPromptFilterConfig cfg c = c\<lparr>scPromptFilter := NormalizeConfig cfg\<rparr>"

definition GetPromptFilterConfig :: "StoreConf \<Rightarrow> Config" where
  "GetPromptFilterConfig c = NormalizeConfig (scPromptFilter c)"

definition normalizeWSKeepaliveInterval :: "int \<Rightarrow> int" where
  "normalizeWSKeepaliveInterval sec = (if sec \<le> 0 then 60 else sec)"

definition normalizeWSSilentMaxRetries :: "int \<Rightarrow> int" where
  "normalizeWSSilentMaxRetries retries = (if retries < 0 then 0 else if retries > 10 then 10 else retries)"

definition SetCodexWSKeepaliveIntervalSec :: "int \<Rightarrow> StoreConf \<Rightarrow> StoreConf" where
  "SetCodexWSKeepaliveIntervalSec sec c = c\<lparr>scCodexWSKeepaliveIntervalSec := normalizeWSKeepaliveInterval sec\<rparr>"

definition CodexWSKeepaliveIntervalSec :: "StoreConf \<Rightarrow> int" where
  "CodexWSKeepaliveIntervalSec c = (let v = scCodexWSKeepaliveIntervalSec c in if v \<le> 0 then 60 else v)"

definition SetCodexWSSilentMaxRetries :: "int \<Rightarrow> StoreConf \<Rightarrow> StoreConf" where
  "SetCodexWSSilentMaxRetries retries c = c\<lparr>scCodexWSSilentMaxRetries := normalizeWSSilentMaxRetries retries\<rparr>"

definition ReloadProxyPool :: "string list option \<Rightarrow> Store \<Rightarrow> Store option" where
  "ReloadProxyPool proxies s = (case proxies of None \<Rightarrow> None | Some urls \<Rightarrow> Some (s\<lparr>proxyPool := urls\<rparr>))"

subsection \<open>Changing the settings\<close>

definition validateAutoPauseThreshold :: "float64 \<Rightarrow> bool" where
  "validateAutoPauseThreshold v \<longleftrightarrow> \<not> (v < 0 \<or> v > 1)"

record SettingsLocals =
  lcAdminSecret :: string
  lcSiteName :: string
  lcSiteLogo :: string
  lcBackground :: brandingBackgroundConfig
  lcShowFull :: bool
  lcResinURL :: string
  lcResinPlatform :: string

text \<open>The local variables that start from the stored row; the error of the query is dropped, so after a failing query they start from the zero row.\<close>

definition startLocals :: "SettingsEnv \<Rightarrow> AdminHandler \<Rightarrow> SettingsLocals" where
  "startLocals e h =
     (case fst (GetSystemSettings (evReadOK e) (aaTable (hdAccess h))) of
        None \<Rightarrow> \<lparr>lcAdminSecret = [], lcSiteName = DefaultSiteName, lcSiteLogo = [], lcBackground = defaultBackgroundConfig, lcShowFull = False,
                 lcResinURL = [], lcResinPlatform = []\<rparr>
      | Some r \<Rightarrow> \<lparr>lcAdminSecret = ssAdminSecret r, lcSiteName = NormalizeSiteName (ssSiteName r), lcSiteLogo = TrimSpace (ssSiteLogo r),
                   lcBackground = decodeBackgroundConfig (evBackgroundIn e) (ssBackgroundConfig r), lcShowFull = ssShowFullUsageNumbers r,
                   lcResinURL = ssResinURL r, lcResinPlatform = ssResinPlatformName r\<rparr>)"

definition setMedia :: "(string \<Rightarrow> mediaError + string) \<Rightarrow> string option \<Rightarrow> (string \<Rightarrow> SettingsLocals \<Rightarrow> SettingsLocals) \<Rightarrow> SettingsLocals \<Rightarrow> SettingsLocals option" where
  "setMedia check field f l =
     (case field of None \<Rightarrow> Some l | Some v \<Rightarrow> (case check v of Inl _ \<Rightarrow> None | Inr n \<Rightarrow> Some (f n l)))"

definition onBackground :: "(brandingBackgroundConfig \<Rightarrow> brandingBackgroundConfig) \<Rightarrow> SettingsLocals \<Rightarrow> SettingsLocals" where
  "onBackground f l = l\<lparr>lcBackground := f (lcBackground l)\<rparr>"

definition requestedLocals :: "SettingsEnv \<Rightarrow> updateSettingsReq \<Rightarrow> AdminHandler \<Rightarrow> SettingsLocals option" where
  "requestedLocals e req h =
     (let l0 = startLocals e h;
          l1 = whenSet (rqAdminSecret req) (\<lambda>v l. if aaSecretEnv (hdAccess h) = [] then l\<lparr>lcAdminSecret := v\<rparr> else l) l0;
          l2 = whenSet (rqSiteName req) (\<lambda>v l. l\<lparr>lcSiteName := NormalizeSiteName v\<rparr>) l1
      in case setMedia normalizeSiteLogo (rqSiteLogo req) (\<lambda>v l. l\<lparr>lcSiteLogo := v\<rparr>) l2 of
           None \<Rightarrow> None
         | Some l3 \<Rightarrow>
             (case setMedia normalizeBackgroundImage (rqBackgroundImage req) (\<lambda>v. onBackground (\<lambda>b. b\<lparr>bgImage := v\<rparr>)) l3 of
                None \<Rightarrow> None
              | Some l4 \<Rightarrow> Some
                  (whenSet (rqResinPlatformName req) (\<lambda>v l. l\<lparr>lcResinPlatform := v\<rparr>)
                  (whenSet (rqResinURL req) (\<lambda>v l. l\<lparr>lcResinURL := v\<rparr>)
                  (whenSet (rqShowFullUsageNumbers req) (\<lambda>v l. l\<lparr>lcShowFull := v\<rparr>)
                  (whenSet (rqBackgroundGlassBlur req) (\<lambda>v. onBackground (\<lambda>b. b\<lparr>bgGlassBlur := normalizeBackgroundGlassBlur v\<rparr>))
                  (whenSet (rqBackgroundGlassOpacity req) (\<lambda>v. onBackground (\<lambda>b. b\<lparr>bgGlassOpacity := normalizeBackgroundGlassOpacity v\<rparr>))
                  (whenSet (rqBackgroundBlur req) (\<lambda>v. onBackground (\<lambda>b. b\<lparr>bgBlur := normalizeBackgroundBlur v\<rparr>))
                  (whenSet (rqBackgroundOpacity req) (\<lambda>v. onBackground (\<lambda>b. b\<lparr>bgOpacity := normalizeBackgroundOpacity v\<rparr>)) l4)))))))))"

definition applyLimits :: "SettingsEnv \<Rightarrow> updateSettingsReq \<Rightarrow> AdminHandler \<Rightarrow> AdminHandler" where
  "applyLimits e req h =
     whenSet (rqRedisPoolSize req) (\<lambda>v h. (onStore (\<lambda>s. s\<lparr>tokenCache := map_option (SetPoolSize (clampTo 5 500 v)) (tokenCache s)\<rparr>) h)\<lparr>hdRedisPoolSize := clampTo 5 500 v\<rparr>)
    (whenSet (rqPgMaxConns req) (\<lambda>v h. h\<lparr>hdMaxOpenConns := clampTo 5 500 v, hdPgMaxConns := clampTo 5 500 v\<rparr>)
    (whenSet (rqProxyURL req) (\<lambda>v. onStore (\<lambda>s. s\<lparr>globalProxy := v\<rparr>))
    (whenSet (rqLazyMode req) (\<lambda>v. onStore (SetLazyMode (evNow e) v))
    (whenSet (rqRecoveryProbeIntervalMinutes req) (\<lambda>v. onConf (SetRecoveryProbeInterval (clampTo 1 10080 v * Minute)))
    (whenSet (rqUsageProbeResponsesFallbackEnabled req) (\<lambda>v. onConf (\<lambda>c. c\<lparr>scUsageProbeFallback := v\<rparr>))
    (whenSet (rqUsageProbeConcurrency req) (\<lambda>v. onConf (SetUsageProbeConcurrency (clampTo 1 128 v)))
    (whenSet (rqUsageProbeMaxAgeMinutes req) (\<lambda>v. onConf (SetUsageProbeMaxAge (clampTo 1 10080 v * Minute)))
    (whenSet (rqBackgroundRefreshIntervalMinutes req) (\<lambda>v. onConf (SetBackgroundRefreshInterval (clampTo 1 1440 v * Minute)))
    (whenSet (rqTestConcurrency req) (\<lambda>v. onConf (\<lambda>c. c\<lparr>scTestConcurrency := clampTo 1 200 v\<rparr>))
    (whenSet (rqTestModel req) (\<lambda>v. if v = [] then id else onConf (\<lambda>c. c\<lparr>scTestModel := v\<rparr>))
    (whenSet (rqGlobalRPM req) (\<lambda>v h. h\<lparr>hdLimiter := UpdateGlobalRPM (evNow e) (if v < 0 then 0 else v) (hdLimiter h)\<rparr>)
    (whenSet (rqMaxConcurrency req) (\<lambda>v. onStore (SetMaxConcurrency (evNow e) (clampTo 1 50 v))) h))))))))))))"

definition applyAutoClean :: "SettingsEnv \<Rightarrow> updateSettingsReq \<Rightarrow> AdminHandler \<Rightarrow> AdminHandler" where
  "applyAutoClean e req h =
     whenSet (rqAutoCleanExpired req) (\<lambda>v h. let h1 = onConf (\<lambda>c. c\<lparr>scAutoCleanExpired := v\<rparr>) h
        in if v then h1\<lparr>hdPool := fst (CleanExpiredNow (evNow e) (evBatchOK e) (evSoftDelete e) (hdPool h1))\<rparr> else h1)
    (whenSet (rqAutoCleanError req) (\<lambda>v. onConf (\<lambda>c. c\<lparr>scAutoCleanError := v\<rparr>))
    (whenSet (rqAutoCleanFullUsage req) (\<lambda>v. onConf (\<lambda>c. c\<lparr>scAutoCleanFullUsage := v\<rparr>))
    (whenSet (rqAutoCleanRateLimited req) (\<lambda>v. onConf (\<lambda>c. c\<lparr>scAutoCleanRateLimited := v\<rparr>))
    (whenSet (rqAutoCleanUnauthorized req) (\<lambda>v. onConf (\<lambda>c. c\<lparr>scAutoCleanUnauthorized := v\<rparr>)) h))))"

definition applyProxyPool :: "SettingsEnv \<Rightarrow> updateSettingsReq \<Rightarrow> AdminHandler \<Rightarrow> AdminHandler option" where
  "applyProxyPool e req h =
     (case rqProxyPoolEnabled req of
        None \<Rightarrow> Some h
      | Some False \<Rightarrow> Some (onStore (\<lambda>s. s\<lparr>proxyPoolEnabled := False\<rparr>) h)
      | Some True \<Rightarrow> (case ReloadProxyPool (evProxies e) (hdStore h) of
            None \<Rightarrow> None
          | Some s \<Rightarrow> Some (onStore (\<lambda>_. s\<lparr>proxyPoolEnabled := True\<rparr>) h)))"

definition applyScheduler :: "SettingsEnv \<Rightarrow> updateSettingsReq \<Rightarrow> AdminHandler \<Rightarrow> AdminHandler" where
  "applyScheduler e req h =
     whenSet (rqMaxRateLimitRetries req) (\<lambda>v. onConf (SetMaxRateLimitRetries (clampTo 0 10 v)))
    (whenSet (rqMaxRetries req) (\<lambda>v. onConf (SetMaxRetries (clampTo 0 10 v)))
    (whenSet (rqAffinityMode req) (\<lambda>v. onStore (SetAffinityMode v))
    (whenSet (rqSchedulerMode req) (\<lambda>v. onStore (StoreSetSchedulerMode v))
    (whenSet (rqCodexWSSilentMaxRetries req) (\<lambda>v. onConf (SetCodexWSSilentMaxRetries (clampTo 0 10 v)))
    (whenSet (rqCodexWSSilentRetryEnabled req) (\<lambda>v. onConf (\<lambda>c. c\<lparr>scCodexWSSilentRetryEnabled := v\<rparr>))
    (whenSet (rqCodexWSHideUpstreamErrors req) (\<lambda>v. onConf (\<lambda>c. c\<lparr>scCodexWSHideUpstreamErrors := v\<rparr>))
    (whenSet (rqCodexWSKeepaliveIntervalSec req) (\<lambda>v. onConf (SetCodexWSKeepaliveIntervalSec v))
    (whenSet (rqCodexWSKeepaliveEnabled req) (\<lambda>v. onConf (\<lambda>c. c\<lparr>scCodexWSKeepaliveEnabled := v\<rparr>))
    (whenSet (rqCodexForceWebsocket req) (\<lambda>v. onConf (\<lambda>c. c\<lparr>scCodexForceWebsocket := v\<rparr>))
    (whenSet (rqFastSchedulerEnabled req) (\<lambda>v. onStore (SetFastSchedulerEnabled (evNow e) v)) h))))))))))"

definition hasAdminSecret :: "SettingsLocals \<Rightarrow> AdminHandler \<Rightarrow> bool" where
  "hasAdminSecret l h \<longleftrightarrow> TrimSpace (lcAdminSecret l) \<noteq> [] \<or> TrimSpace (aaSecretEnv (hdAccess h)) \<noteq> []"

definition applyMigration :: "updateSettingsReq \<Rightarrow> bool \<Rightarrow> AdminHandler \<Rightarrow> AdminHandler option" where
  "applyMigration req hasSecret h =
     (case rqAllowRemoteMigration req of
        Some v \<Rightarrow> if v \<and> \<not> hasSecret then None else Some (onConf (\<lambda>c. c\<lparr>scAllowRemoteMigration := v\<rparr>) h)
      | None \<Rightarrow> if \<not> hasSecret then Some (onConf (\<lambda>c. c\<lparr>scAllowRemoteMigration := False\<rparr>) h) else Some h)"

definition applyMappings :: "updateSettingsReq \<Rightarrow> AdminHandler \<Rightarrow> AdminHandler" where
  "applyMappings req h =
     whenSet (rqCodexModelMapping req) (\<lambda>v. onConf (\<lambda>c. c\<lparr>scCodexModelMapping := v\<rparr>))
    (whenSet (rqModelMapping req) (\<lambda>v. onConf (\<lambda>c. c\<lparr>scModelMapping := v\<rparr>)) h)"

definition NormalizeReasoningEffortModelsJSON :: "SettingsEnv \<Rightarrow> string \<Rightarrow> string option" where
  "NormalizeReasoningEffortModelsJSON e value =
     map_option (\<lambda>entries. if entries = [] then ''[]'' else evEffortsOut e entries)
       (parseReasoningEffortModelEntries (evEffortsIn e) value (evSupportedModels e) True)"

definition applyEfforts :: "SettingsEnv \<Rightarrow> updateSettingsReq \<Rightarrow> AdminHandler \<Rightarrow> AdminHandler option" where
  "applyEfforts e req h =
     (case rqReasoningEffortModels req of
        None \<Rightarrow> Some h
      | Some v \<Rightarrow> map_option (\<lambda>n. onConf (\<lambda>c. c\<lparr>scReasoningEffortModels := n\<rparr>) h) (NormalizeReasoningEffortModelsJSON e v))"

definition requestedRuntime :: "updateSettingsReq \<Rightarrow> RuntimeSettings \<Rightarrow> RuntimeSettings" where
  "requestedRuntime req r =
     whenSet (rqBillingTierPolicy req) (\<lambda>v r. r\<lparr>rsBillingTierPolicy := NormalizeBillingTierPolicy v\<rparr>)
    (whenSet (rqFirstTokenTimeoutSeconds req) (\<lambda>v r. r\<lparr>rsFirstTokenTimeoutSec := v\<rparr>)
    (whenSet (rqFirstTokenMode req) (\<lambda>v r. r\<lparr>rsFirstTokenMode := NormalizeFirstTokenMode v\<rparr>)
    (whenSet (rqStreamFlushIntervalMS req) (\<lambda>v r. r\<lparr>rsStreamFlushIntervalMS := v\<rparr>)
    (whenSet (rqStreamFlushPolicy req) (\<lambda>v r. r\<lparr>rsStreamFlushPolicy := NormalizeStreamFlushPolicy v\<rparr>)
    (whenSet (rqCodexMinCLIVersion req) (\<lambda>v r. r\<lparr>rsCodexMinCLIVersion := TrimSpace v\<rparr>)
    (whenSet (rqClientCompatMode req) (\<lambda>v r. r\<lparr>rsClientCompatMode := NormalizeClientCompatMode v\<rparr>)
    (whenSet (rqCodexWSSilentMaxRetries req) (\<lambda>v r. r\<lparr>rsCodexWSSilentRetries := clampTo 0 10 v\<rparr>)
    (whenSet (rqCodexWSSilentRetryEnabled req) (\<lambda>v r. r\<lparr>rsCodexWSSilentRetry := v\<rparr>)
    (whenSet (rqCodexWSHideUpstreamErrors req) (\<lambda>v r. r\<lparr>rsCodexWSHideErrors := v\<rparr>)
    (whenSet (rqCodexForceWebsocket req) (\<lambda>v r. r\<lparr>rsCodexForceWebsocket := v\<rparr>) r))))))))))"

definition applyThresholds :: "updateSettingsReq \<Rightarrow> AdminHandler \<Rightarrow> AdminHandler" where
  "applyThresholds req h =
     (if rqAutoPause5hThreshold req = None \<and> rqAutoPause7dThreshold req = None then h
      else onStore (\<lambda>s. SetGlobalAutoPauseThresholds
             (case rqAutoPause5hThreshold req of Some t \<Rightarrow> t | None \<Rightarrow> globalAutoPause5hThreshold s)
             (case rqAutoPause7dThreshold req of Some t \<Rightarrow> t | None \<Rightarrow> globalAutoPause7dThreshold s) s) h)"

definition applyRuntime :: "updateSettingsReq \<Rightarrow> AdminHandler \<Rightarrow> AdminHandler" where
  "applyRuntime req h = h\<lparr>hdRuntime := ApplyRuntimeSettings (requestedRuntime req (CurrentRuntimeSettings (hdRuntime h)))\<rparr>"

definition applyUsageLog :: "updateSettingsReq \<Rightarrow> AdminHandler \<Rightarrow> AdminHandler" where
  "applyUsageLog req h =
     (if rqUsageLogMode req = None \<and> rqUsageLogBatchSize req = None \<and> rqUsageLogFlushIntervalSeconds req = None then h
      else h\<lparr>hdUsageLog := SetUsageLogConfig
              (case rqUsageLogMode req of Some v \<Rightarrow> NormalizeUsageLogMode v | None \<Rightarrow> ulMode (hdUsageLog h))
              (case rqUsageLogBatchSize req of Some v \<Rightarrow> NormalizeUsageLogBatchSize v | None \<Rightarrow> ulBatchSize (hdUsageLog h))
              (case rqUsageLogFlushIntervalSeconds req of Some v \<Rightarrow> NormalizeUsageLogFlushIntervalSeconds v | None \<Rightarrow> ulFlushSeconds (hdUsageLog h))\<rparr>)"

definition ParseCustomPatterns :: "SettingsEnv \<Rightarrow> string \<Rightarrow> PatternConfig list option" where
  "ParseCustomPatterns e raw0 = (let raw = TrimSpace raw0 in if raw = [] then Some [] else evPatternsIn e raw)"

definition MarshalCustomPatterns :: "SettingsEnv \<Rightarrow> PatternConfig list \<Rightarrow> string" where
  "MarshalCustomPatterns e ps = (if ps = [] then ''[]'' else evPatternsOut e ps)"

definition ParseDisabledPatterns :: "SettingsEnv \<Rightarrow> string \<Rightarrow> string list option" where
  "ParseDisabledPatterns e raw0 =
     (let raw = TrimSpace raw0 in if raw = [] then Some [] else map_option normalizePatternNames (evNamesIn e raw))"

definition MarshalDisabledPatterns :: "SettingsEnv \<Rightarrow> string list \<Rightarrow> string" where
  "MarshalDisabledPatterns e names =
     (let ns = normalizePatternNames names in if ns = [] then ''[]'' else evNamesOut e ns)"

definition promptFilterTouched :: "updateSettingsReq \<Rightarrow> bool" where
  "promptFilterTouched req \<longleftrightarrow>
     rqPromptFilterEnabled req \<noteq> None \<or> rqPromptFilterMode req \<noteq> None \<or> rqPromptFilterThreshold req \<noteq> None \<or>
     rqPromptFilterStrictThreshold req \<noteq> None \<or> rqPromptFilterLogMatches req \<noteq> None \<or> rqPromptFilterMaxTextLength req \<noteq> None \<or>
     rqPromptFilterSensitiveWords req \<noteq> None \<or> rqPromptFilterCustomPatterns req \<noteq> None \<or> rqPromptFilterDisabledPatterns req \<noteq> None"

definition setParsed :: "'v option \<Rightarrow> ('v \<Rightarrow> 'w option) \<Rightarrow> ('w \<Rightarrow> 's \<Rightarrow> 's) \<Rightarrow> 's \<Rightarrow> 's option" where
  "setParsed field parse f s =
     (case field of None \<Rightarrow> Some s | Some v \<Rightarrow> (case parse v of None \<Rightarrow> None | Some w \<Rightarrow> Some (f w s)))"

definition requestedPromptFilter :: "SettingsEnv \<Rightarrow> updateSettingsReq \<Rightarrow> Config \<Rightarrow> Config option" where
  "requestedPromptFilter e req c0 =
     (let c = whenSet (rqPromptFilterSensitiveWords req) (\<lambda>v c. c\<lparr>cfSensitiveWords := v\<rparr>)
             (whenSet (rqPromptFilterMaxTextLength req) (\<lambda>v c. c\<lparr>cfMaxTextLength := v\<rparr>)
             (whenSet (rqPromptFilterLogMatches req) (\<lambda>v c. c\<lparr>cfLogMatches := v\<rparr>)
             (whenSet (rqPromptFilterStrictThreshold req) (\<lambda>v c. c\<lparr>cfStrictThreshold := v\<rparr>)
             (whenSet (rqPromptFilterThreshold req) (\<lambda>v c. c\<lparr>cfThreshold := v\<rparr>)
             (whenSet (rqPromptFilterMode req) (\<lambda>v c. c\<lparr>cfMode := v\<rparr>)
             (whenSet (rqPromptFilterEnabled req) (\<lambda>v c. c\<lparr>cfEnabled := v\<rparr>) c0))))))
      in case setParsed (rqPromptFilterCustomPatterns req) (ParseCustomPatterns e) (\<lambda>ps c. c\<lparr>cfCustomPatterns := ps\<rparr>) c of
           None \<Rightarrow> None
         | Some c1 \<Rightarrow> setParsed (rqPromptFilterDisabledPatterns req) (ParseDisabledPatterns e) (\<lambda>ns c. c\<lparr>cfDisabledPatterns := ns\<rparr>) c1)"

definition applyPromptFilter :: "SettingsEnv \<Rightarrow> updateSettingsReq \<Rightarrow> AdminHandler \<Rightarrow> AdminHandler option" where
  "applyPromptFilter e req h =
     (case requestedPromptFilter e req (GetPromptFilterConfig (hdConf h)) of
        None \<Rightarrow> None
      | Some c \<Rightarrow>
          if \<not> promptFilterTouched req then Some h
          else case NewEngine (evCompile e) (evBuiltins e) (NormalizeConfig c) of
            Inl _ \<Rightarrow> None
          | Inr _ \<Rightarrow> Some (onConf (SetPromptFilterConfig (NormalizeConfig c)) h))"

definition SetResinConfig :: "string \<Rightarrow> string \<Rightarrow> (string \<times> string) option" where
  "SetResinConfig baseURL platformName =
     (if TrimSpace baseURL \<noteq> [] \<and> TrimSpace platformName \<noteq> [] then Some (baseURL, platformName) else None)"

definition applyResin :: "updateSettingsReq \<Rightarrow> SettingsLocals \<Rightarrow> AdminHandler \<Rightarrow> AdminHandler" where
  "applyResin req l h =
     (if rqResinURL req = None \<and> rqResinPlatformName req = None then h
      else h\<lparr>hdResin := SetResinConfig (lcResinURL l) (lcResinPlatform l),
             hdResinDecorator := (TrimSpace (lcResinURL l) \<noteq> [] \<and> TrimSpace (lcResinPlatform l) \<noteq> [])\<rparr>)"

definition imagesTouched :: "updateSettingsReq \<Rightarrow> bool" where
  "imagesTouched req \<longleftrightarrow>
     rqImageStorageBackend req \<noteq> None \<or> rqImageS3Endpoint req \<noteq> None \<or> rqImageS3Region req \<noteq> None \<or> rqImageS3Bucket req \<noteq> None \<or>
     rqImageS3AccessKey req \<noteq> None \<or> rqImageS3SecretKey req \<noteq> None \<or> rqImageS3Prefix req \<noteq> None \<or> rqImageS3ForcePathStyle req \<noteq> None"

definition requestedImages :: "SettingsEnv \<Rightarrow> updateSettingsReq \<Rightarrow> ImageConfig \<Rightarrow> ImageConfig" where
  "requestedImages e req c =
     (whenSet (rqImageS3ForcePathStyle req) (\<lambda>v c. c\<lparr>icForcePathStyle := v\<rparr>)
     (whenSet (rqImageS3Prefix req) (\<lambda>v c. c\<lparr>icPrefix := v\<rparr>)
     (whenSet (rqImageS3SecretKey req) (\<lambda>v c. c\<lparr>icSecretKey := v\<rparr>)
     (whenSet (rqImageS3AccessKey req) (\<lambda>v c. c\<lparr>icAccessKey := v\<rparr>)
     (whenSet (rqImageS3Bucket req) (\<lambda>v c. c\<lparr>icBucket := v\<rparr>)
     (whenSet (rqImageS3Region req) (\<lambda>v c. c\<lparr>icRegion := v\<rparr>)
     (whenSet (rqImageS3Endpoint req) (\<lambda>v c. c\<lparr>icEndpoint := v\<rparr>)
     (whenSet (rqImageStorageBackend req) (\<lambda>v c. c\<lparr>icBackend := v\<rparr>) c))))))))\<lparr>icLocalDir := evImageDir e\<rparr>"

definition applyImages :: "SettingsEnv \<Rightarrow> updateSettingsReq \<Rightarrow> AdminHandler \<Rightarrow> AdminHandler option" where
  "applyImages e req h =
     (if \<not> imagesTouched req then Some h
      else case ConfigureImages (evDirOK e) (evS3OK e) (requestedImages e req (CurrentConfig (hdImages h))) of
        None \<Rightarrow> None
      | Some c \<Rightarrow> Some (h\<lparr>hdImages := Some c\<rparr>))"

text \<open>The row that is written: the running values, read back through the getters.\<close>

definition savedRow :: "SettingsEnv \<Rightarrow> SettingsLocals \<Rightarrow> AdminHandler \<Rightarrow> SettingsRow" where
  "savedRow e l h =
     (let s = hdStore h; c = hdConf h; rt = hdRuntime h; pf = GetPromptFilterConfig c
      in zeroRow\<lparr>ssSiteName := lcSiteName l, ssSiteLogo := lcSiteLogo l, ssMaxConcurrency := maxConcurrency s,
           ssGlobalRPM := erlGlobalRPM (hdLimiter h), ssTestModel := GetTestModel c, ssTestConcurrency := scTestConcurrency c,
           ssBackgroundRefreshIntervalMinutes := GetBackgroundRefreshIntervalMinutes c,
           ssUsageProbeMaxAgeMinutes := GetUsageProbeMaxAgeMinutes c, ssUsageProbeConcurrency := GetUsageProbeConcurrency c,
           ssUsageProbeResponsesFallbackEnabled := scUsageProbeFallback c,
           ssRecoveryProbeIntervalMinutes := GetRecoveryProbeIntervalMinutes c, ssLazyMode := lazyMode s, ssProxyURL := globalProxy s,
           ssPgMaxConns := hdPgMaxConns h, ssRedisPoolSize := hdRedisPoolSize h, ssAutoCleanUnauthorized := scAutoCleanUnauthorized c,
           ssAutoCleanRateLimited := scAutoCleanRateLimited c, ssAdminSecret := lcAdminSecret l, ssAutoCleanFullUsage := scAutoCleanFullUsage c,
           ssAutoCleanError := scAutoCleanError c, ssAutoCleanExpired := scAutoCleanExpired c, ssProxyPoolEnabled := proxyPoolEnabled s,
           ssFastSchedulerEnabled := fastSchedulerEnabled s, ssCodexForceWebsocket := scCodexForceWebsocket c,
           ssCodexWSKeepaliveEnabled := scCodexWSKeepaliveEnabled c, ssCodexWSKeepaliveIntervalSec := CodexWSKeepaliveIntervalSec c,
           ssCodexWSHideUpstreamErrors := scCodexWSHideUpstreamErrors c, ssCodexWSSilentRetryEnabled := scCodexWSSilentRetryEnabled c,
           ssCodexWSSilentMaxRetries := scCodexWSSilentMaxRetries c, ssSchedulerMode := GetSchedulerMode s, ssAffinityMode := GetAffinityMode s,
           ssMaxRetries := scMaxRetries c, ssMaxRateLimitRetries := scMaxRateLimitRetries c,
           ssAllowRemoteMigration := (scAllowRemoteMigration c \<and> hasAdminSecret l h),
           ssModelMapping := GetModelMapping c, ssCodexModelMapping := GetCodexModelMapping c, ssReasoningEffortModels := GetReasoningEffortModels c,
           ssResinURL := lcResinURL l, ssResinPlatformName := lcResinPlatform l,
           ssPromptFilterEnabled := cfEnabled pf, ssPromptFilterMode := cfMode pf, ssPromptFilterThreshold := cfThreshold pf,
           ssPromptFilterStrictThreshold := cfStrictThreshold pf, ssPromptFilterLogMatches := cfLogMatches pf,
           ssPromptFilterMaxTextLength := cfMaxTextLength pf, ssPromptFilterSensitiveWords := cfSensitiveWords pf,
           ssPromptFilterCustomPatterns := MarshalCustomPatterns e (cfCustomPatterns pf),
           ssPromptFilterDisabledPatterns := MarshalDisabledPatterns e (cfDisabledPatterns pf),
           ssClientCompatMode := rsClientCompatMode rt, ssCodexMinCLIVersion := rsCodexMinCLIVersion rt,
           ssUsageLogMode := ulMode (hdUsageLog h), ssUsageLogBatchSize := ulBatchSize (hdUsageLog h),
           ssUsageLogFlushIntervalSeconds := ulFlushSeconds (hdUsageLog h), ssStreamFlushPolicy := rsStreamFlushPolicy rt,
           ssStreamFlushIntervalMS := rsStreamFlushIntervalMS rt, ssFirstTokenMode := rsFirstTokenMode rt,
           ssFirstTokenTimeoutSeconds := rsFirstTokenTimeoutSec rt, ssBillingTierPolicy := rsBillingTierPolicy rt,
           ssShowFullUsageNumbers := lcShowFull l,
           ssImageStorageConfig := (case EncodeConfigJSON (evImageOut e) ((CurrentConfig (hdImages h))\<lparr>icLocalDir := evImageDir e\<rparr>) of
              Some t \<Rightarrow> t | None \<Rightarrow> ''{}''),
           ssBackgroundConfig := encodeBackgroundConfig (evBackgroundOut e) (lcBackground l),
           ssAutoPause5hThreshold := globalAutoPause5hThreshold s, ssAutoPause7dThreshold := globalAutoPause7dThreshold s\<rparr>)"

text \<open>An error of the write is only logged.\<close>

definition persistSettings :: "SettingsEnv \<Rightarrow> SettingsLocals \<Rightarrow> AdminHandler \<Rightarrow> AdminHandler" where
  "persistSettings e l h =
     h\<lparr>hdAccess := (hdAccess h)\<lparr>aaTable := fst (UpdateSystemSettings (evWriteOK e) (savedRow e l h) (aaTable (hdAccess h)))\<rparr>\<rparr>"

text \<open>The phases after the local variables; \<open>Inl\<close> is the state and the status of a request that is refused in between.\<close>

definition applyAll :: "SettingsEnv \<Rightarrow> updateSettingsReq \<Rightarrow> SettingsLocals \<Rightarrow> AdminHandler \<Rightarrow> (AdminHandler \<times> int) + AdminHandler" where
  "applyAll e req l h =
     (let h1 = applyAutoClean e req (applyLimits e req h)
      in case applyProxyPool e req h1 of
           None \<Rightarrow> Inl (h1, 500)
         | Some h2 \<Rightarrow>
             (let h3 = applyScheduler e req h2
              in case applyMigration req (hasAdminSecret l h) h3 of
                   None \<Rightarrow> Inl (h3, 400)
                 | Some h4 \<Rightarrow>
                     (let h5 = applyMappings req h4
                      in case applyEfforts e req h5 of
                           None \<Rightarrow> Inl (h5, 400)
                         | Some h6 \<Rightarrow>
                             (let h7 = applyUsageLog req (applyRuntime req (applyThresholds req h6))
                              in case applyPromptFilter e req h7 of
                                   None \<Rightarrow> Inl (h7, 400)
                                 | Some h8 \<Rightarrow>
                                     (let h9 = applyResin req l h8
                                      in case applyImages e req h9 of
                                           None \<Rightarrow> Inl (h9, 400)
                                         | Some h10 \<Rightarrow> Inr h10)))))"

definition UpdateSettings :: "SettingsEnv \<Rightarrow> updateSettingsReq option \<Rightarrow> AdminHandler \<Rightarrow> AdminHandler \<times> int" where
  "UpdateSettings e body h =
     (case body of
        None \<Rightarrow> (h, 400)
      | Some req \<Rightarrow>
          if (case rqAutoPause5hThreshold req of Some t \<Rightarrow> \<not> validateAutoPauseThreshold t | None \<Rightarrow> False) then (h, 400)
          else if (case rqAutoPause7dThreshold req of Some t \<Rightarrow> \<not> validateAutoPauseThreshold t | None \<Rightarrow> False) then (h, 400)
          else (case requestedLocals e req h of
            None \<Rightarrow> (h, 400)
          | Some l \<Rightarrow> (case applyAll e req l h of
              Inl refused \<Rightarrow> refused
            | Inr h' \<Rightarrow> (persistSettings e l h', 200))))"

subsection \<open>Start-up\<close>

text \<open>The settings that are used, and written, when the table has no row, and used when it cannot be read.\<close>

definition firstRunSettings :: "string \<Rightarrow> SettingsRow" where
  "firstRunSettings envPolicy = zeroRow
     \<lparr>ssSiteName := DefaultSiteName, ssMaxConcurrency := 2, ssGlobalRPM := 0, ssTestModel := ''gpt-5.4'', ssTestConcurrency := 50,
      ssMaxRateLimitRetries := 1, ssBackgroundRefreshIntervalMinutes := 2, ssUsageProbeMaxAgeMinutes := 10, ssUsageProbeConcurrency := 16,
      ssRecoveryProbeIntervalMinutes := 30, ssLazyMode := False, ssProxyURL := [], ssPgMaxConns := 50, ssRedisPoolSize := 30,
      ssAutoCleanUnauthorized := False, ssAutoCleanRateLimited := False, ssPromptFilterMode := ''monitor'', ssPromptFilterThreshold := 50,
      ssPromptFilterStrictThreshold := 90, ssPromptFilterLogMatches := True, ssPromptFilterMaxTextLength := 81920,
      ssPromptFilterCustomPatterns := ''[]'', ssPromptFilterDisabledPatterns := ''[]'', ssClientCompatMode := ''preserve'',
      ssCodexMinCLIVersion := ''0.118.0'', ssUsageLogMode := ''full'', ssUsageLogBatchSize := 200, ssUsageLogFlushIntervalSeconds := 5,
      ssStreamFlushPolicy := ''immediate'', ssStreamFlushIntervalMS := 20, ssFirstTokenMode := ''strict'', ssFirstTokenTimeoutSeconds := 0,
      ssBillingTierPolicy := NormalizeBillingTierPolicy envPolicy, ssImageStorageConfig := ''{}'', ssCodexWSHideUpstreamErrors := True,
      ssCodexWSSilentRetryEnabled := True, ssCodexWSSilentMaxRetries := 2\<rparr>"

definition promptFilterConfigFromSettings :: "SettingsEnv \<Rightarrow> SettingsRow \<Rightarrow> Config" where
  "promptFilterConfigFromSettings e r =
     NormalizeConfig
       \<lparr>cfEnabled = ssPromptFilterEnabled r, cfMode = ssPromptFilterMode r, cfThreshold = ssPromptFilterThreshold r,
        cfStrictThreshold = ssPromptFilterStrictThreshold r, cfLogMatches = ssPromptFilterLogMatches r,
        cfMaxTextLength = ssPromptFilterMaxTextLength r, cfSensitiveWords = ssPromptFilterSensitiveWords r,
        cfCustomPatterns = (case ParseCustomPatterns e (ssPromptFilterCustomPatterns r) of Some ps \<Rightarrow> ps | None \<Rightarrow> []),
        cfDisabledPatterns = (case ParseDisabledPatterns e (ssPromptFilterDisabledPatterns r) of Some ns \<Rightarrow> ns | None \<Rightarrow> [])\<rparr>"

text \<open>The part of \<open>NewStore\<close> that fills the fields of \<open>StoreConf\<close>.\<close>

definition confOfRow :: "SettingsEnv \<Rightarrow> SettingsRow \<Rightarrow> StoreConf" where
  "confOfRow e r =
     SetRecoveryProbeInterval (ssRecoveryProbeIntervalMinutes r * Minute)
    (SetUsageProbeConcurrency (ssUsageProbeConcurrency r)
    (SetUsageProbeMaxAge (ssUsageProbeMaxAgeMinutes r * Minute)
    (SetBackgroundRefreshInterval (ssBackgroundRefreshIntervalMinutes r * Minute)
       \<lparr>scTestModel = ssTestModel r, scTestConcurrency = ssTestConcurrency r, scBackgroundRefreshInterval = 0, scUsageProbeMaxAge = 0,
        scUsageProbeConcurrency = 0, scUsageProbeFallback = ssUsageProbeResponsesFallbackEnabled r, scRecoveryProbeInterval = 0,
        scAutoCleanUnauthorized = ssAutoCleanUnauthorized r, scAutoCleanRateLimited = ssAutoCleanRateLimited r,
        scAutoCleanFullUsage = ssAutoCleanFullUsage r, scAutoCleanError = ssAutoCleanError r, scAutoCleanExpired = ssAutoCleanExpired r,
        scMaxRetries = (if ssMaxRetries r \<le> 0 then 2 else ssMaxRetries r),
        scMaxRateLimitRetries = (if ssMaxRateLimitRetries r < 0 then 0 else ssMaxRateLimitRetries r),
        scAllowRemoteMigration = ssAllowRemoteMigration r, scModelMapping = ssModelMapping r, scCodexModelMapping = ssCodexModelMapping r,
        scReasoningEffortModels = ssReasoningEffortModels r, scPromptFilter = promptFilterConfigFromSettings e r,
        scCodexForceWebsocket = ssCodexForceWebsocket r, scCodexWSKeepaliveEnabled = ssCodexWSKeepaliveEnabled r,
        scCodexWSKeepaliveIntervalSec = normalizeWSKeepaliveInterval (ssCodexWSKeepaliveIntervalSec r),
        scCodexWSHideUpstreamErrors = ssCodexWSHideUpstreamErrors r, scCodexWSSilentRetryEnabled = ssCodexWSSilentRetryEnabled r,
        scCodexWSSilentMaxRetries = normalizeWSSilentMaxRetries (ssCodexWSSilentMaxRetries r)\<rparr>)))"

text \<open>
  \<open>envPolicy\<close> and \<open>fastEnv\<close> are the environment's billing policy and switch of the fast scheduler, \<open>openConns\<close> the limit that the
  connection has when it is opened. The accounts are loaded afterwards.\<close>

definition loadedSettings :: "SettingsEnv \<Rightarrow> string \<Rightarrow> SettingsRow option \<Rightarrow> SettingsRow \<times> SettingsRow option" where
  "loadedSettings e envPolicy table =
     (let (st, table') =
        (case GetSystemSettings (evReadOK e) table of
           (_, True) \<Rightarrow> (firstRunSettings envPolicy, table)
         | (None, False) \<Rightarrow> (firstRunSettings envPolicy, fst (UpdateSystemSettings (evWriteOK e) (firstRunSettings envPolicy) table))
         | (Some r, False) \<Rightarrow> (r, table))
      in (if TrimSpace envPolicy \<noteq> [] then st\<lparr>ssBillingTierPolicy := NormalizeBillingTierPolicy (TrimSpace envPolicy)\<rparr> else st, table'))"

definition startUp :: "SettingsEnv \<Rightarrow> string \<Rightarrow> bool \<Rightarrow> string \<Rightarrow> int \<Rightarrow> SettingsRow option \<Rightarrow> AdminHandler" where
  "startUp e envPolicy fastEnv adminSecretEnv openConns table =
     (let (st, table') = loadedSettings e envPolicy table;
          redisPoolSize = (if ssRedisPoolSize st > 0 then ssRedisPoolSize st else 30)
      in \<lparr>hdPool = \<lparr>csStore = NewStore (Some (NewMemory redisPoolSize)) (Some (SystemSettings.truncate st)) fastEnv (evProxies e),
                    csDeleted = [], csEvents = []\<rparr>,
          hdConf = confOfRow e st, hdLimiter = NewRateLimiter (evNow e) (ssGlobalRPM st),
          hdAccess = \<lparr>aaSecretEnv = adminSecretEnv, aaTable = table'\<rparr>,
          hdMaxOpenConns = (if ssPgMaxConns st > 0 then ssPgMaxConns st else openConns),
          hdPgMaxConns = ssPgMaxConns st, hdRedisPoolSize = ssRedisPoolSize st,
          hdUsageLog = SetUsageLogConfig (ssUsageLogMode st) (ssUsageLogBatchSize st) (ssUsageLogFlushIntervalSeconds st),
          hdRuntime = ApplyRuntimeSettingsFromSystem (Some st),
          hdResin = (if ssResinURL st \<noteq> [] \<and> ssResinPlatformName st \<noteq> [] then SetResinConfig (ssResinURL st) (ssResinPlatformName st) else None),
          hdResinDecorator = (ssResinURL st \<noteq> [] \<and> ssResinPlatformName st \<noteq> []),
          hdImages = ApplyFromJSON (evImageIn e) (evDirOK e) (evS3OK e) (ssImageStorageConfig st) (evImageDir e)\<rparr>)"

end
