(* ===== verification/SettingsProps.thy ===== *)
theory SettingsProps
  imports Settings PromptFilterProps AdminAuthProps
begin

section \<open>Properties of the settings\<close>

text \<open>
  What a change of the settings does: it keeps the running values normal; what it saves comes back after a restart, with one exception; a request that
  is refused has changed the running program before; a failing query makes the next save erase the secret of the administrator.
\<close>

subsection \<open>Frames\<close>

named_theorems settings_frame

lemma whenSet_simps [simp]: "whenSet None f s = s" "whenSet (Some v) f s = f v s"
  by (simp_all add: whenSet_def)

lemma whenSet_frames [settings_frame]:
  "(\<And>v s. hdAccess (f v s) = hdAccess s) \<Longrightarrow> hdAccess (whenSet x f h) = hdAccess h"
  "(\<And>v s. hdConf (g v s) = hdConf s) \<Longrightarrow> hdConf (whenSet x g h) = hdConf h"
  "(\<And>v s. hdPool (k v s) = hdPool s) \<Longrightarrow> hdPool (whenSet x k h) = hdPool h"
  "(\<And>v s. hdRuntime (m v s) = hdRuntime s) \<Longrightarrow> hdRuntime (whenSet x m h) = hdRuntime h"
  "(\<And>v s. hdUsageLog (n v s) = hdUsageLog s) \<Longrightarrow> hdUsageLog (whenSet x n h) = hdUsageLog h"
  by (simp_all add: whenSet_def split: option.split)

lemma on_frames [settings_frame]:
  "hdAccess (onStore f h) = hdAccess h" "hdConf (onStore f h) = hdConf h" "hdRuntime (onStore f h) = hdRuntime h" "hdUsageLog (onStore f h) = hdUsageLog h"
  "hdAccess (onConf g h) = hdAccess h" "hdPool (onConf g h) = hdPool h" "hdRuntime (onConf g h) = hdRuntime h" "hdUsageLog (onConf g h) = hdUsageLog h"
  "hdStore (onStore f h) = f (hdStore h)" "hdConf (onConf g h) = g (hdConf h)"
  by (simp_all add: onStore_def onConf_def)

lemma apply_access [settings_frame]:
  "hdAccess (applyLimits e req h) = hdAccess h" "hdAccess (applyAutoClean e req h) = hdAccess h"
  "hdAccess (applyScheduler e req h) = hdAccess h" "hdAccess (applyMappings req h) = hdAccess h"
  "hdAccess (applyThresholds req h) = hdAccess h" "hdAccess (applyRuntime req h) = hdAccess h" "hdAccess (applyUsageLog req h) = hdAccess h"
  "hdAccess (applyResin req l h) = hdAccess h"
  by (simp_all add: applyLimits_def applyAutoClean_def applyScheduler_def applyMappings_def applyThresholds_def applyRuntime_def applyUsageLog_def
      applyResin_def settings_frame Let_def)

lemma apply_access_Some:
  "applyProxyPool e req h = Some h' \<Longrightarrow> hdAccess h' = hdAccess h" "applyMigration req b h = Some h' \<Longrightarrow> hdAccess h' = hdAccess h"
  "applyEfforts e req h = Some h' \<Longrightarrow> hdAccess h' = hdAccess h" "applyPromptFilter e req h = Some h' \<Longrightarrow> hdAccess h' = hdAccess h"
  "applyImages e req h = Some h' \<Longrightarrow> hdAccess h' = hdAccess h"
  by (auto simp: applyProxyPool_def applyMigration_def applyEfforts_def applyPromptFilter_def applyImages_def settings_frame
      split: option.splits bool.splits if_splits sum.splits)

text \<open>The states that a request passes through when it is not refused.\<close>

lemma applyAll_InrD:
  assumes "applyAll e req l h = Inr h'"
  shows "\<exists>h2 h4 h6 h8. applyProxyPool e req (applyAutoClean e req (applyLimits e req h)) = Some h2 \<and>
    applyMigration req (hasAdminSecret l h) (applyScheduler e req h2) = Some h4 \<and> applyEfforts e req (applyMappings req h4) = Some h6 \<and>
    applyPromptFilter e req (applyUsageLog req (applyRuntime req (applyThresholds req h6))) = Some h8 \<and>
    applyImages e req (applyResin req l h8) = Some h'"
  using assms by (auto simp: applyAll_def Let_def split: option.splits)

lemma applyAll_access:
  assumes "applyAll e req l h = Inr h'"
  shows "hdAccess h' = hdAccess h"
  using applyAll_InrD [OF assms] by (auto dest!: apply_access_Some simp: settings_frame)

lemma UpdateSettings_200D:
  assumes "UpdateSettings e (Some req) h = (h', 200)"
  shows "\<exists>l h1. requestedLocals e req h = Some l \<and> applyAll e req l h = Inr h1 \<and> h' = persistSettings e l h1"
proof -
  have "snd r \<noteq> 200" if "applyAll e req l h = Inl r" for l r
    using that by (auto simp: applyAll_def Let_def split: option.splits)
  then show ?thesis using assms by (fastforce simp: UpdateSettings_def split: option.splits if_splits sum.splits)
qed

subsection \<open>A failing query\<close>

lemma whenSet_locals [settings_frame]:
  "(\<And>v s. lcAdminSecret (f v s) = lcAdminSecret s) \<Longrightarrow> lcAdminSecret (whenSet x f l) = lcAdminSecret l"
  "lcAdminSecret (onBackground g l) = lcAdminSecret l"
  by (simp_all add: whenSet_def onBackground_def split: option.split)

lemma requested_secret:
  assumes "requestedLocals e req h = Some l" "rqAdminSecret req = None"
  shows "lcAdminSecret l = lcAdminSecret (startLocals e h)"
  using assms by (auto simp: requestedLocals_def Let_def setMedia_def settings_frame split: option.splits sum.splits)

lemma savedRow_secret: "ssAdminSecret (savedRow e l h) = lcAdminSecret l"
  by (simp add: savedRow_def Let_def)

lemma persist_table:
  "evWriteOK e \<Longrightarrow> \<exists>r. aaTable (hdAccess (persistSettings e l h)) = Some r \<and> ssAdminSecret r = lcAdminSecret l"
  by (simp add: persistSettings_def UpdateSystemSettings_def savedRow_secret)


text \<open>A program that was started on a stored row, and what surrounds it.\<close>

definition demoEnv :: SettingsEnv where
  "demoEnv =
     \<lparr>evNow = 1000, evReadOK = True, evWriteOK = True, evProxies = Some [], evBatchOK = True, evSoftDelete = (\<lambda>_. True), evSupportedModels = [],
      evImageDir = ''/data/images'', evDirOK = (\<lambda>_. True), evS3OK = (\<lambda>_. True), evBackgroundIn = (\<lambda>_ c. Some c), evBackgroundOut = (\<lambda>_. ''{}''),
      evEffortsIn = (\<lambda>_. Some []), evEffortsOut = (\<lambda>_. ''[]''), evPatternsIn = (\<lambda>_. Some []), evPatternsOut = (\<lambda>_. ''[]''),
      evNamesIn = (\<lambda>_. Some []), evNamesOut = (\<lambda>_. ''[]''), evImageIn = (\<lambda>_. Some (localConfig [])), evImageOut = (\<lambda>_. Some ''{}''),
      evCompile = (\<lambda>_. Some (\<lambda>_. False)), evBuiltins = []\<rparr>"

definition demoRow :: SettingsRow where
  "demoRow = (firstRunSettings [])\<lparr>ssAdminSecret := ''correct horse'', ssMaxRetries := 3\<rparr>"

definition demoHandler :: AdminHandler where
  "demoHandler = startUp demoEnv [] False [] 100 (Some demoRow)"

lemma demo_access: "hdAccess demoHandler = \<lparr>aaSecretEnv = [], aaTable = Some demoRow\<rparr>"
  by (simp add: demoHandler_def startUp_def loadedSettings_def GetSystemSettings_def demoEnv_def)

text \<open>A request that sets fields of one phase only leaves the other phases without effect.\<close>

lemma empty_phases:
  "applyAutoClean e emptyReq h = h" "applyProxyPool e emptyReq h = Some h" "applyScheduler e emptyReq h = h" "applyMappings emptyReq h = h"
  "applyEfforts e emptyReq h = Some h" "applyThresholds emptyReq h = h" "applyUsageLog emptyReq h = h" "applyPromptFilter e emptyReq h = Some h"
  "applyResin emptyReq l h = h" "applyImages e emptyReq h = Some h" "applyLimits e emptyReq h = h"
  "applyMigration emptyReq True h = Some h" "requestedLocals e emptyReq h = Some (startLocals e h)"
  by (simp_all add: applyAutoClean_def applyProxyPool_def applyScheduler_def applyMappings_def applyEfforts_def applyThresholds_def applyUsageLog_def
      applyPromptFilter_def applyResin_def applyImages_def applyLimits_def applyMigration_def emptyReq_def promptFilterTouched_def imagesTouched_def
      requestedPromptFilter_def setParsed_def requestedLocals_def setMedia_def)

lemma empty_thresholds: "rqAutoPause5hThreshold emptyReq = None" "rqAutoPause7dThreshold emptyReq = None" "rqAdminSecret emptyReq = None"
  by (simp_all add: emptyReq_def)

lemma empty_accepted: "\<exists>h'. UpdateSettings e (Some emptyReq) h = (h', 200)"
proof -
  have off: "applyMigration emptyReq False h = Some (onConf (\<lambda>c. c\<lparr>scAllowRemoteMigration := False\<rparr>) h)" for h
    by (simp add: applyMigration_def emptyReq_def)
  have "\<exists>h1. applyAll e emptyReq (startLocals e h) h = Inr h1"
    by (cases "hasAdminSecret (startLocals e h) h") (simp_all add: applyAll_def Let_def empty_phases off)
  then show ?thesis by (auto simp: UpdateSettings_def empty_phases(13) empty_thresholds)
qed


subsection \<open>Refused requests\<close>

lemma store_max_frames [settings_frame]:
  "maxConcurrency (SetLazyMode now b s) = maxConcurrency s" "maxConcurrency (rebuildFastScheduler now s) = maxConcurrency s"
  "maxConcurrency (StoreSetSchedulerMode m s) = maxConcurrency s" "maxConcurrency (SetAffinityMode m s) = maxConcurrency s"
  by (simp_all add: SetLazyMode_def rebuildFastScheduler_def StoreSetSchedulerMode_def SetAffinityMode_def Let_def split: option.split)

subsection \<open>The running values stay normal\<close>

text \<open>What holds of the running values between two requests; the getters never fall back to a default then, and nothing is lost in a normalisation.\<close>

definition minutesOK :: "duration \<Rightarrow> bool" where
  "minutesOK d \<longleftrightarrow> 0 < d \<and> Minute dvd d"

definition conf_ok :: "StoreConf \<Rightarrow> bool" where
  "conf_ok c \<longleftrightarrow> minutesOK (scBackgroundRefreshInterval c) \<and> minutesOK (scUsageProbeMaxAge c) \<and> minutesOK (scRecoveryProbeInterval c) \<and>
     scUsageProbeConcurrency c \<in> {1..128} \<and> 0 \<le> scMaxRetries c \<and> 0 \<le> scMaxRateLimitRetries c \<and> 0 < scCodexWSKeepaliveIntervalSec c \<and>
     scCodexWSSilentMaxRetries c \<in> {0..10} \<and> NormalizeConfig (scPromptFilter c) = scPromptFilter c"

definition store_normal :: "Store \<Rightarrow> bool" where
  "store_normal s \<longleftrightarrow> affinityMode s \<in> {''bounded'', ''off'', ''strict''} \<and>
     normalizeQuotaAutoPauseThreshold (globalAutoPause5hThreshold s) = globalAutoPause5hThreshold s \<and>
     normalizeQuotaAutoPauseThreshold (globalAutoPause7dThreshold s) = globalAutoPause7dThreshold s"

definition usage_ok :: "UsageLogConfig \<Rightarrow> bool" where
  "usage_ok u \<longleftrightarrow> SetUsageLogConfig (ulMode u) (ulBatchSize u) (ulFlushSeconds u) = u"

definition settings_ok :: "AdminHandler \<Rightarrow> bool" where
  "settings_ok h \<longleftrightarrow> conf_ok (hdConf h) \<and> store_normal (hdStore h) \<and> usage_ok (hdUsageLog h) \<and> NormalizeRuntimeSettings (hdRuntime h) = hdRuntime h"

named_theorems settings_keep

lemma whenSet_keeps: "P s \<Longrightarrow> (\<And>v s. P s \<Longrightarrow> P (f v s)) \<Longrightarrow> P (whenSet x f s)"
  by (cases x) simp_all

lemma mode_lowers:
  "TrimSpace ''preserve'' = ''preserve''" "TrimSpace ''auto'' = ''auto''" "TrimSpace ''force'' = ''force''" "TrimSpace ''immediate'' = ''immediate''"
  "TrimSpace ''coalesce'' = ''coalesce''" "TrimSpace ''strict'' = ''strict''" "TrimSpace ''loose'' = ''loose''" "TrimSpace ''actual'' = ''actual''"
  "TrimSpace ''requested'' = ''requested''" "TrimSpace ''full'' = ''full''" "TrimSpace ''errors'' = ''errors''" "TrimSpace ''off'' = ''off''"
  "ToLower ''preserve'' = ''preserve''" "ToLower ''auto'' = ''auto''" "ToLower ''force'' = ''force''" "ToLower ''immediate'' = ''immediate''"
  "ToLower ''coalesce'' = ''coalesce''" "ToLower ''strict'' = ''strict''" "ToLower ''loose'' = ''loose''" "ToLower ''actual'' = ''actual''"
  "ToLower ''requested'' = ''requested''" "ToLower ''full'' = ''full''" "ToLower ''errors'' = ''errors''" "ToLower ''off'' = ''off''"
  by code_simp+

lemma modes_idem [simp]:
  "NormalizeClientCompatMode (NormalizeClientCompatMode m) = NormalizeClientCompatMode m"
  "NormalizeStreamFlushPolicy (NormalizeStreamFlushPolicy m) = NormalizeStreamFlushPolicy m"
  "NormalizeFirstTokenMode (NormalizeFirstTokenMode m) = NormalizeFirstTokenMode m"
  "NormalizeBillingTierPolicy (NormalizeBillingTierPolicy m) = NormalizeBillingTierPolicy m"
  "NormalizeUsageLogMode (NormalizeUsageLogMode m) = NormalizeUsageLogMode m"
  by (simp_all add: NormalizeClientCompatMode_def NormalizeStreamFlushPolicy_def NormalizeFirstTokenMode_def NormalizeBillingTierPolicy_def
      NormalizeUsageLogMode_def Let_def mode_lowers)

text \<open>The database normalises two of the modes once more, with functions of its own.\<close>

lemma row_modes [simp]:
  "normalizeFirstTokenMode (NormalizeFirstTokenMode m) = NormalizeFirstTokenMode m"
  "normalizeBillingTierPolicy (NormalizeBillingTierPolicy m) = NormalizeBillingTierPolicy m"
  by (simp_all add: normalizeFirstTokenMode_def NormalizeFirstTokenMode_def normalizeBillingTierPolicy_def NormalizeBillingTierPolicy_def
      Let_def mode_lowers)

lemma NormalizeRuntime_idem [simp]: "NormalizeRuntimeSettings (NormalizeRuntimeSettings r) = NormalizeRuntimeSettings r"
proof -
  have "TrimSpace ''0.118.0'' = ''0.118.0''" by code_simp
  then show ?thesis by (simp add: NormalizeRuntimeSettings_def DefaultRuntimeSettings_def Let_def)
qed

lemma usage_ok_Set [simp]: "usage_ok (SetUsageLogConfig m b f)"
  by (simp add: usage_ok_def SetUsageLogConfig_def NormalizeUsageLogBatchSize_def NormalizeUsageLogFlushIntervalSeconds_def)

lemma threshold_idem [simp]:
  "normalizeQuotaAutoPauseThreshold (normalizeQuotaAutoPauseThreshold t) = normalizeQuotaAutoPauseThreshold t"
  by (simp add: normalizeQuotaAutoPauseThreshold_def)

lemma minutesOK_simps [simp]:
  "minutesOK (2 * Minute)" "minutesOK (10 * Minute)" "minutesOK (30 * Minute)" "minutesOK (n * Minute) \<longleftrightarrow> 0 < n"
  by (auto simp: minutesOK_def Minute_def Second_def zero_less_mult_iff)

lemma clampTo_pos: "0 < lo \<Longrightarrow> lo \<le> hi \<Longrightarrow> 0 < clampTo lo hi v"
  by (simp add: clampTo_def)

text \<open>The fields of the store that the invariant is about; the operations on accounts and schedulers leave them alone.\<close>

definition storeView :: "Store \<Rightarrow> string \<times> float64 \<times> float64" where
  "storeView s = (affinityMode s, globalAutoPause5hThreshold s, globalAutoPause7dThreshold s)"

lemma store_normal_view: "storeView s = storeView t \<Longrightarrow> store_normal s = store_normal t"
  by (simp add: storeView_def store_normal_def)

lemma fold_view: "(\<And>x s. storeView (f x s) = storeView s) \<Longrightarrow> storeView (fold f xs s) = storeView s"
  by (induction xs arbitrary: s) simp_all

lemma view_frames [settings_frame]:
  "storeView (updAccount p g s) = storeView s" "storeView (rebuildFastScheduler now s) = storeView s"
  "storeView (fastSchedulerRemove i s) = storeView s" "storeView (rebuildAccountIndex s) = storeView s"
  "storeView (StoreSetSchedulerMode m s) = storeView s"
  by (simp_all add: storeView_def updAccount_def rebuildFastScheduler_def fastSchedulerRemove_def rebuildAccountIndex_def
      StoreSetSchedulerMode_def Let_def split: option.split)

lemma view_folds [settings_frame]:
  "storeView (recomputeAllAccountSchedulerState now s) = storeView s" "storeView (recomputeAllEffectiveAutoPause s) = storeView s"
  by (simp_all add: recomputeAllAccountSchedulerState_def recomputeAllEffectiveAutoPause_def fold_view view_frames)

lemma view_removals [settings_frame]: "storeView (RemoveAccount i s) = storeView s" "storeView (RemoveAccounts is s) = storeView s"
proof -
  have acc: "storeView (s\<lparr>accounts := ps\<rparr>) = storeView s" for s ps by (simp add: storeView_def)
  show "storeView (RemoveAccount i s) = storeView s" by (simp add: RemoveAccount_def view_frames acc split: option.split)
  show "storeView (RemoveAccounts is s) = storeView s"
    by (auto simp: RemoveAccounts_def Let_def view_frames acc intro!: fold_view split: option.split)
qed

lemma view_updates [settings_frame]:
  "storeView (s\<lparr>lazyMode := b\<rparr>) = storeView s" "storeView (s\<lparr>fastSchedulerEnabled := b\<rparr>) = storeView s"
  "storeView (s\<lparr>fastScheduler := f\<rparr>) = storeView s" "storeView (s\<lparr>maxConcurrency := n\<rparr>) = storeView s"
  "storeView (s\<lparr>tokenCache := tc\<rparr>) = storeView s" "storeView (s\<lparr>globalProxy := u\<rparr>) = storeView s"
  "storeView (s\<lparr>proxyPoolEnabled := b\<rparr>) = storeView s" "storeView (s\<lparr>proxyPool := us\<rparr>) = storeView s"
  by (simp_all add: storeView_def)

lemma view_switches [settings_frame]:
  "storeView (SetLazyMode now b s) = storeView s" "storeView (SetFastSchedulerEnabled now b s) = storeView s"
  "storeView (SetMaxConcurrency now n s) = storeView s"
proof -
  show "storeView (SetLazyMode now b s) = storeView s" "storeView (SetFastSchedulerEnabled now b s) = storeView s"
    by (simp_all add: SetLazyMode_def SetFastSchedulerEnabled_def Let_def view_frames view_folds view_updates)
  have limit: "storeView (case x of None \<Rightarrow> s | Some f \<Rightarrow> s\<lparr>fastScheduler := Some (SetBaseLimit n f)\<rparr>) = storeView s" for x s
    by (cases x) (simp_all add: view_updates)
  show "storeView (SetMaxConcurrency now n s) = storeView s"
    by (simp add: SetMaxConcurrency_def Let_def view_frames view_folds view_updates limit)
qed

lemma view_cleaned: "storeView (csStore (fst (CleanExpiredNow now b sd c))) = storeView (csStore c)"
proof -
  have "storeView (csStore (fst (cleanExpiredFallback sd ids c))) = storeView (csStore c)" for ids c
  proof (induction ids arbitrary: c)
    case (Cons i ids)
    show ?case
      by (cases "cleanExpiredFallback sd ids (deleteOne ''clean_expired'' i c)")
        (use Cons [of "deleteOne ''clean_expired'' i c"] Cons [of c] in \<open>simp add: deleteOne_def view_removals\<close>)
  qed simp
  then show ?thesis by (simp add: CleanExpiredNow_def CleanExpiredAccounts_def Let_def view_removals)
qed

lemmas ok_whenSet = whenSet_keeps [where P = settings_ok]

lemma ok_onStore: "settings_ok h \<Longrightarrow> storeView (f (hdStore h)) = storeView (hdStore h) \<Longrightarrow> settings_ok (onStore f h)"
  using store_normal_view [of "f (hdStore h)" "hdStore h"] by (simp add: settings_ok_def onStore_def)

lemma ok_onConf: "settings_ok h \<Longrightarrow> (conf_ok (hdConf h) \<Longrightarrow> conf_ok (f (hdConf h))) \<Longrightarrow> settings_ok (onConf f h)"
  by (simp add: settings_ok_def onConf_def)

lemma conf_setters [settings_keep]:
  "conf_ok c \<Longrightarrow> 0 < n \<Longrightarrow> conf_ok (SetBackgroundRefreshInterval (n * Minute) c)"
  "conf_ok c \<Longrightarrow> 0 < n \<Longrightarrow> conf_ok (SetUsageProbeMaxAge (n * Minute) c)"
  "conf_ok c \<Longrightarrow> 0 < n \<Longrightarrow> conf_ok (SetRecoveryProbeInterval (n * Minute) c)"
  "conf_ok c \<Longrightarrow> conf_ok (SetUsageProbeConcurrency n c)"
  "conf_ok c \<Longrightarrow> conf_ok (SetMaxRetries n c)" "conf_ok c \<Longrightarrow> conf_ok (SetMaxRateLimitRetries n c)"
  "conf_ok c \<Longrightarrow> conf_ok (SetCodexWSKeepaliveIntervalSec n c)" "conf_ok c \<Longrightarrow> conf_ok (SetCodexWSSilentMaxRetries n c)"
  "conf_ok c \<Longrightarrow> conf_ok (SetPromptFilterConfig pf c)"
  by (auto simp: conf_ok_def SetBackgroundRefreshInterval_def SetUsageProbeMaxAge_def SetRecoveryProbeInterval_def SetUsageProbeConcurrency_def
      SetMaxRetries_def SetMaxRateLimitRetries_def SetCodexWSKeepaliveIntervalSec_def SetCodexWSSilentMaxRetries_def SetPromptFilterConfig_def
      normalizeWSKeepaliveInterval_def normalizeWSSilentMaxRetries_def NormalizeConfig_idem Let_def)

lemma ok_limiter: "settings_ok h \<Longrightarrow> settings_ok (h\<lparr>hdLimiter := x\<rparr>)" "settings_ok h \<Longrightarrow> settings_ok (h\<lparr>hdMaxOpenConns := n, hdPgMaxConns := m\<rparr>)"
  "settings_ok h \<Longrightarrow> settings_ok (h\<lparr>hdRedisPoolSize := n\<rparr>)" "settings_ok h \<Longrightarrow> settings_ok (h\<lparr>hdResin := r, hdResinDecorator := b\<rparr>)"
  "settings_ok h \<Longrightarrow> settings_ok (h\<lparr>hdImages := i\<rparr>)"
  by (simp_all add: settings_ok_def)

lemma ok_applyLimits: "settings_ok h \<Longrightarrow> settings_ok (applyLimits e req h)"
  unfolding applyLimits_def
  by (intro ok_whenSet) (auto intro!: ok_onStore ok_onConf ok_limiter settings_keep clampTo_pos simp: settings_frame conf_ok_def)

lemma ok_affinity: "settings_ok h \<Longrightarrow> settings_ok (onStore (SetAffinityMode m) h)"
  by (simp add: settings_ok_def store_normal_def onStore_def SetAffinityMode_def)

lemma ok_applyScheduler: "settings_ok h \<Longrightarrow> settings_ok (applyScheduler e req h)"
  unfolding applyScheduler_def
  by (intro ok_whenSet ok_affinity) (auto intro!: ok_onStore ok_onConf settings_keep simp: settings_frame conf_ok_def)

lemma ok_applyAutoClean: "settings_ok h \<Longrightarrow> settings_ok (applyAutoClean e req h)"
proof -
  have pool: "settings_ok (h\<lparr>hdPool := fst (CleanExpiredNow now b sd (hdPool h))\<rparr>)" if "settings_ok h" for h now b sd
    using that store_normal_view [OF view_cleaned [of now b sd "hdPool h"]] by (simp add: settings_ok_def)
  have conf: "settings_ok (onConf (\<lambda>c. c\<lparr>scAutoCleanExpired := v\<rparr>) h)" if "settings_ok h" for v h
    using that by (intro ok_onConf) (simp_all add: conf_ok_def)
  assume "settings_ok h"
  then show ?thesis unfolding applyAutoClean_def Let_def
    by (intro ok_whenSet) (auto intro!: pool conf ok_onConf simp: conf_ok_def)
qed

lemma ok_applyProxyPool: "applyProxyPool e req h = Some h' \<Longrightarrow> settings_ok h \<Longrightarrow> settings_ok h'"
  by (auto simp: applyProxyPool_def ReloadProxyPool_def settings_frame intro!: ok_onStore split: option.splits bool.splits)

lemma ok_applyMigration: "applyMigration req b h = Some h' \<Longrightarrow> settings_ok h \<Longrightarrow> settings_ok h'"
  by (auto simp: applyMigration_def conf_ok_def intro!: ok_onConf split: option.splits if_splits)

lemma ok_applyMappings: "settings_ok h \<Longrightarrow> settings_ok (applyMappings req h)"
  unfolding applyMappings_def by (intro ok_whenSet) (auto intro!: ok_onConf simp: conf_ok_def)

lemma ok_applyEfforts: "applyEfforts e req h = Some h' \<Longrightarrow> settings_ok h \<Longrightarrow> settings_ok h'"
  by (auto simp: applyEfforts_def conf_ok_def intro!: ok_onConf split: option.splits)

lemma ok_applyThresholds: "settings_ok h \<Longrightarrow> settings_ok (applyThresholds req h)"
proof -
  have view: "storeView (SetGlobalAutoPauseThresholds a b s) = storeView (s\<lparr>globalAutoPause5hThreshold := normalizeQuotaAutoPauseThreshold a,
      globalAutoPause7dThreshold := normalizeQuotaAutoPauseThreshold b\<rparr>)" for a b s
    by (simp add: SetGlobalAutoPauseThresholds_def view_folds)
  have "store_normal (SetGlobalAutoPauseThresholds a b s)" if "store_normal s" for a b s
    using that store_normal_view [OF view, of a b s] by (simp add: store_normal_def)
  then show "settings_ok h \<Longrightarrow> settings_ok (applyThresholds req h)" by (simp add: applyThresholds_def settings_ok_def onStore_def)
qed

lemma ok_runtime_usage: "settings_ok h \<Longrightarrow> settings_ok (applyRuntime req h)" "settings_ok h \<Longrightarrow> settings_ok (applyUsageLog req h)"
  by (simp_all add: applyRuntime_def applyUsageLog_def settings_ok_def ApplyRuntimeSettings_def)

lemma ok_applyPromptFilter: "applyPromptFilter e req h = Some h' \<Longrightarrow> settings_ok h \<Longrightarrow> settings_ok h'"
  by (auto simp: applyPromptFilter_def intro!: ok_onConf settings_keep split: option.splits if_splits sum.splits)

lemma ok_resin_images: "settings_ok h \<Longrightarrow> settings_ok (applyResin req l h)" "applyImages e req h = Some h' \<Longrightarrow> settings_ok h \<Longrightarrow> settings_ok h'"
  by (auto simp: applyResin_def applyImages_def ok_limiter split: option.splits if_splits)

lemma ok_persist: "settings_ok h \<Longrightarrow> settings_ok (persistSettings e l h)"
  by (simp add: persistSettings_def settings_ok_def)

lemmas ok_phases = ok_applyLimits ok_applyAutoClean ok_applyScheduler ok_applyMappings ok_applyThresholds ok_runtime_usage ok_resin_images(1) ok_persist

lemmas ok_partial = ok_applyProxyPool ok_applyMigration ok_applyEfforts ok_applyPromptFilter ok_resin_images(2)

lemma ok_applyAll:
  "applyAll e req l h = Inl (h', n) \<Longrightarrow> settings_ok h \<Longrightarrow> settings_ok h'" "applyAll e req l h = Inr h' \<Longrightarrow> settings_ok h \<Longrightarrow> settings_ok h'"
  by (auto simp: applyAll_def Let_def ok_phases dest!: ok_partial split: option.splits)

lemma ok_UpdateSettings: "settings_ok h \<Longrightarrow> settings_ok (fst (UpdateSettings e body h))"
  by (auto simp: UpdateSettings_def intro: ok_persist ok_applyAll split: option.split sum.split)

lemma ok_confOfRow: "conf_ok (confOfRow e r)"
proof -
  have pos: "n * Minute \<le> 0 \<longleftrightarrow> n \<le> 0" for n :: int by (simp add: Minute_def Second_def mult_le_0_iff)
  show ?thesis
    by (auto simp: confOfRow_def conf_ok_def SetBackgroundRefreshInterval_def SetUsageProbeMaxAge_def SetRecoveryProbeInterval_def
        SetUsageProbeConcurrency_def normalizeWSKeepaliveInterval_def normalizeWSSilentMaxRetries_def promptFilterConfigFromSettings_def
        NormalizeConfig_idem Let_def pos)
qed

lemma ok_startUp: "settings_ok (startUp e envPolicy fastEnv secretEnv openConns table)"
  by (simp add: startUp_def settings_ok_def ok_confOfRow store_normal_def NewStore_def ApplyRuntimeSettingsFromSystem_def Let_def split: prod.split)

text \<open>
  The runs of the program that the settings see: a start on any table, requests in any order and under any answers of the environment, and between them
  any work on accounts, on the counters of the limiter and on the access of the administrator.\<close>

inductive settings_step :: "AdminHandler \<Rightarrow> AdminHandler \<Rightarrow> bool" where
  request: "settings_step h (fst (UpdateSettings e body h))"
| work: "storeView (csStore p) = storeView (hdStore h) \<Longrightarrow> settings_step h (h\<lparr>hdPool := p, hdLimiter := erl, hdAccess := a\<rparr>)"

interpretation settings_machine: invariant_machine settings_step settings_ok
proof
  fix h h' assume "settings_ok h" "settings_step h h'"
  from this(2,1) show "settings_ok h'"
  proof cases
    case (work p erl a)
    then show ?thesis using store_normal_view [OF work(2)] \<open>settings_ok h\<close> by (simp add: settings_ok_def)
  qed (simp add: ok_UpdateSettings)
qed

definition settings_run :: "AdminHandler \<Rightarrow> bool" where
  "settings_run h \<longleftrightarrow> (\<exists>e envPolicy fastEnv secretEnv openConns table. settings_step\<^sup>*\<^sup>* (startUp e envPolicy fastEnv secretEnv openConns table) h)"

lemma settings_run_ok: "settings_run h \<Longrightarrow> settings_ok h"
  unfolding settings_run_def by (blast intro: settings_machine.reachable_inv ok_startUp)

lemma run_startUp: "settings_run (startUp e envPolicy fastEnv secretEnv openConns table)"
  unfolding settings_run_def by blast

lemma run_request: "settings_run h \<Longrightarrow> settings_run (fst (UpdateSettings e body h))"
  unfolding settings_run_def by (blast intro: rtranclp.rtrancl_into_rtrancl settings_step.request)



subsection \<open>Remote migration needs a secret\<close>

lemma later_migration:
  "scAllowRemoteMigration (hdConf (applyMappings req h)) = scAllowRemoteMigration (hdConf h)"
  "hdConf (applyThresholds req h) = hdConf h" "hdConf (applyRuntime req h) = hdConf h" "hdConf (applyUsageLog req h) = hdConf h"
  "hdConf (applyResin req l h) = hdConf h"
  by (simp_all add: applyMappings_def whenSet_def applyThresholds_def applyRuntime_def applyUsageLog_def applyResin_def on_frames split: option.split)

lemma later_migration_Some:
  "applyEfforts e req h = Some h' \<Longrightarrow> scAllowRemoteMigration (hdConf h') = scAllowRemoteMigration (hdConf h)"
  "applyPromptFilter e req h = Some h' \<Longrightarrow> scAllowRemoteMigration (hdConf h') = scAllowRemoteMigration (hdConf h)"
  "applyImages e req h = Some h' \<Longrightarrow> hdConf h' = hdConf h"
  by (auto simp: applyEfforts_def applyPromptFilter_def SetPromptFilterConfig_def applyImages_def on_frames split: option.splits if_splits sum.splits)

lemma applyAll_migration:
  assumes "applyAll e req l h = Inr h'" "scAllowRemoteMigration (hdConf h')"
  shows "hasAdminSecret l h"
proof -
  have "hasSecret" if "applyMigration req hasSecret g = Some g'" "scAllowRemoteMigration (hdConf g')" for hasSecret g g'
    using that by (auto simp: applyMigration_def on_frames split: option.splits if_splits)
  then show ?thesis
    using applyAll_InrD [OF assms(1)] assms(2) by (auto dest!: later_migration_Some simp: later_migration)
qed

text \<open>
  Supplement: After a request that succeeded, the export of the accounts to another instance is only switched on when there is a secret that a caller has to
  know: one in the environment, or one in the table that the same request has written.\<close>

theorem migration_needs_secret:
  assumes "UpdateSettings e (Some req) h = (h', 200)" "evWriteOK e" "scAllowRemoteMigration (hdConf h')"
  shows "TrimSpace (aaSecretEnv (hdAccess h')) \<noteq> [] \<or> (\<exists>r. aaTable (hdAccess h') = Some r \<and> TrimSpace (ssAdminSecret r) \<noteq> [])"
proof -
  from UpdateSettings_200D [OF assms(1)] obtain l h1 where l: "applyAll e req l h = Inr h1" "h' = persistSettings e l h1" by blast
  have "hasAdminSecret l h" using l assms(3) by (intro applyAll_migration [OF l(1)]) (simp add: persistSettings_def)
  moreover have "aaSecretEnv (hdAccess h') = aaSecretEnv (hdAccess h)" using applyAll_access [OF l(1)] l(2) by (simp add: persistSettings_def)
  ultimately show ?thesis using persist_table [OF assms(2), of l h1] l(2) by (auto simp: hasAdminSecret_def)
qed

text \<open>
  Supplement: A request that is refused is not without effect. Asking for a new limit of requests per account together with the export of accounts, without any
  secret, answers 400 and writes nothing, but the running limit has already changed; a restart brings the old one back.\<close>

theorem refused_request_applied:
  assumes "\<not> hasAdminSecret (startLocals e h) h"
  shows "UpdateSettings e (Some (emptyReq\<lparr>rqMaxConcurrency := Some n, rqAllowRemoteMigration := Some True\<rparr>)) h =
      (onStore (SetMaxConcurrency (evNow e) (clampTo 1 50 n)) h, 400)"
    (is "UpdateSettings e (Some ?req) h = (?h, 400)")
proof -
  have "applyLimits e ?req h = ?h" "applyAutoClean e ?req ?h = ?h" "applyProxyPool e ?req ?h = Some ?h" "applyScheduler e ?req ?h = ?h"
    "applyMigration ?req False ?h = None"
    by (simp_all add: applyLimits_def applyAutoClean_def applyProxyPool_def applyScheduler_def applyMigration_def emptyReq_def)
  moreover have "requestedLocals e ?req h = Some (startLocals e h)"
    by (simp add: requestedLocals_def setMedia_def emptyReq_def)
  ultimately show ?thesis using assms by (simp add: UpdateSettings_def applyAll_def empty_thresholds)
qed

lemma SetMaxConcurrency_max: "maxConcurrency (SetMaxConcurrency now n s) = n"
proof -
  have "maxConcurrency (fold (\<lambda>p. updAccount p (f p)) ps s) = maxConcurrency s" for f ps s
    by (induction ps arbitrary: s) (simp_all add: updAccount_def)
  then show ?thesis
    by (simp add: SetMaxConcurrency_def recomputeAllAccountSchedulerState_def store_max_frames Let_def split: option.split)
qed

definition openHandler :: AdminHandler where
  "openHandler = startUp demoEnv [] False [] 100 (Some (demoRow\<lparr>ssAdminSecret := []\<rparr>))"

lemma open_access: "hdAccess openHandler = \<lparr>aaSecretEnv = [], aaTable = Some (demoRow\<lparr>ssAdminSecret := []\<rparr>)\<rparr>"
  by (simp add: openHandler_def startUp_def loadedSettings_def GetSystemSettings_def demoEnv_def)

theorem refused_request_applied_witness:
  "let (h', status) = UpdateSettings demoEnv (Some (emptyReq\<lparr>rqMaxConcurrency := Some 7, rqAllowRemoteMigration := Some True\<rparr>)) openHandler
   in status = 400 \<and> maxConcurrency (hdStore h') = 7 \<and> maxConcurrency (hdStore openHandler) = 2 \<and> aaTable (hdAccess h') = aaTable (hdAccess openHandler)"
proof -
  have "\<not> hasAdminSecret (startLocals demoEnv openHandler) openHandler"
    by (simp add: hasAdminSecret_def startLocals_def open_access GetSystemSettings_def scannedRow_def zeroRow_def)
  moreover have "maxConcurrency (hdStore openHandler) = 2"
    by (simp add: openHandler_def startUp_def loadedSettings_def GetSystemSettings_def demoEnv_def scannedRow_def demoRow_def firstRunSettings_def
        zeroRow_def NewStore_def SystemSettings.truncate_def)
  moreover have "clampTo 1 50 7 = 7" by (simp add: clampTo_def)
  ultimately show ?thesis using refused_request_applied [of demoEnv openHandler 7] by (simp add: SetMaxConcurrency_max on_frames)
qed

theorem migration_needs_secret_witness:
  "\<exists>h'. UpdateSettings demoEnv (Some (emptyReq\<lparr>rqAllowRemoteMigration := Some True\<rparr>)) demoHandler = (h', 200) \<and>
     scAllowRemoteMigration (hdConf h') \<and> (\<exists>r. aaTable (hdAccess h') = Some r \<and> TrimSpace (ssAdminSecret r) \<noteq> [])"
proof -
  let ?req = "emptyReq\<lparr>rqAllowRemoteMigration := Some True\<rparr>" and ?l = "startLocals demoEnv demoHandler"
  let ?h = "applyRuntime ?req (onConf (\<lambda>c. c\<lparr>scAllowRemoteMigration := True\<rparr>) demoHandler)"
  have phases: "applyAutoClean demoEnv ?req h = h" "applyProxyPool demoEnv ?req h = Some h" "applyScheduler demoEnv ?req h = h" "applyMappings ?req h = h"
    "applyEfforts demoEnv ?req h = Some h" "applyThresholds ?req h = h" "applyUsageLog ?req h = h" "applyPromptFilter demoEnv ?req h = Some h"
    "applyResin ?req ?l h = h" "applyImages demoEnv ?req h = Some h" "applyLimits demoEnv ?req h = h"
    "applyMigration ?req True h = Some (onConf (\<lambda>c. c\<lparr>scAllowRemoteMigration := True\<rparr>) h)" "requestedLocals demoEnv ?req h = Some (startLocals demoEnv h)" for h
    by (simp_all add: applyAutoClean_def applyProxyPool_def applyScheduler_def applyMappings_def applyEfforts_def applyThresholds_def applyUsageLog_def
        applyPromptFilter_def applyResin_def applyImages_def applyLimits_def applyMigration_def emptyReq_def promptFilterTouched_def imagesTouched_def
        requestedPromptFilter_def setParsed_def requestedLocals_def setMedia_def)
  have env: "evReadOK demoEnv" "evWriteOK demoEnv" by (simp_all add: demoEnv_def)
  have "TrimSpace ''correct horse'' = ''correct horse''" by code_simp
  then have "hasAdminSecret ?l demoHandler"
    by (simp add: hasAdminSecret_def startLocals_def demo_access GetSystemSettings_def env scannedRow_def demoRow_def)
  then have "applyAll demoEnv ?req ?l demoHandler = Inr ?h" by (simp add: applyAll_def phases)
  then have run: "UpdateSettings demoEnv (Some ?req) demoHandler = (persistSettings demoEnv ?l ?h, 200)"
    by (simp add: UpdateSettings_def phases empty_thresholds)
  have on: "scAllowRemoteMigration (hdConf (persistSettings demoEnv ?l ?h))" by (simp add: persistSettings_def applyRuntime_def on_frames)
  have "aaSecretEnv (hdAccess (persistSettings demoEnv ?l ?h)) = []" by (simp add: persistSettings_def applyRuntime_def on_frames demo_access)
  then show ?thesis using migration_needs_secret [OF run env(2) on] run on by auto
qed

subsection \<open>A restart\<close>

lemma minutes_back: "minutesOK d \<Longrightarrow> (if d \<le> 0 then x else d) div Minute * Minute = d" "minutesOK d \<Longrightarrow> \<not> d \<le> 0"
  by (simp_all add: minutesOK_def)

text \<open>The values of the store that are read back, as the getters show them; \<open>scMaxRetries\<close> is left out.\<close>

definition trimmedJSON :: "string \<Rightarrow> string" where
  "trimmedJSON s = (let t = TrimSpace s in if t = [] then ''[]'' else t)"

definition confView :: "StoreConf \<Rightarrow> StoreConf" where
  "confView c = c\<lparr>scTestModel := GetTestModel c, scModelMapping := GetModelMapping c, scCodexModelMapping := GetCodexModelMapping c,
     scReasoningEffortModels := trimmedJSON (GetReasoningEffortModels c), scMaxRetries := 0\<rparr>"

text \<open>What the next start reads when the row was written.\<close>

definition rereadRow :: "SettingsEnv \<Rightarrow> SettingsLocals \<Rightarrow> AdminHandler \<Rightarrow> SettingsRow" where
  "rereadRow e l h = scannedRow (the (fst (UpdateSystemSettings True (savedRow e l h) None)))"

lemma reread_conf:
  "ssTestModel (rereadRow e l h) = GetTestModel (hdConf h)" "ssTestConcurrency (rereadRow e l h) = scTestConcurrency (hdConf h)"
  "ssUsageProbeResponsesFallbackEnabled (rereadRow e l h) = scUsageProbeFallback (hdConf h)"
  "ssAutoCleanUnauthorized (rereadRow e l h) = scAutoCleanUnauthorized (hdConf h)"
  "ssAutoCleanRateLimited (rereadRow e l h) = scAutoCleanRateLimited (hdConf h)"
  "ssAutoCleanFullUsage (rereadRow e l h) = scAutoCleanFullUsage (hdConf h)" "ssAutoCleanError (rereadRow e l h) = scAutoCleanError (hdConf h)"
  "ssAutoCleanExpired (rereadRow e l h) = scAutoCleanExpired (hdConf h)" "ssMaxRetries (rereadRow e l h) = scMaxRetries (hdConf h)"
  "ssMaxRateLimitRetries (rereadRow e l h) = scMaxRateLimitRetries (hdConf h)"
  "ssAllowRemoteMigration (rereadRow e l h) = (scAllowRemoteMigration (hdConf h) \<and> hasAdminSecret l h)"
  "ssModelMapping (rereadRow e l h) = GetModelMapping (hdConf h)" "ssCodexModelMapping (rereadRow e l h) = GetCodexModelMapping (hdConf h)"
  "ssReasoningEffortModels (rereadRow e l h) = trimmedJSON (GetReasoningEffortModels (hdConf h))"
  "ssCodexForceWebsocket (rereadRow e l h) = scCodexForceWebsocket (hdConf h)"
  "ssCodexWSKeepaliveEnabled (rereadRow e l h) = scCodexWSKeepaliveEnabled (hdConf h)"
  "ssCodexWSKeepaliveIntervalSec (rereadRow e l h) = normalizeCodexWSKeepaliveInterval (CodexWSKeepaliveIntervalSec (hdConf h))"
  "ssCodexWSHideUpstreamErrors (rereadRow e l h) = scCodexWSHideUpstreamErrors (hdConf h)"
  "ssCodexWSSilentRetryEnabled (rereadRow e l h) = scCodexWSSilentRetryEnabled (hdConf h)"
  "ssCodexWSSilentMaxRetries (rereadRow e l h) = normalizeCodexWSSilentMaxRetries (scCodexWSSilentMaxRetries (hdConf h))"
  "ssBackgroundRefreshIntervalMinutes (rereadRow e l h) = GetBackgroundRefreshIntervalMinutes (hdConf h)"
  "ssUsageProbeMaxAgeMinutes (rereadRow e l h) = GetUsageProbeMaxAgeMinutes (hdConf h)"
  "ssUsageProbeConcurrency (rereadRow e l h) = GetUsageProbeConcurrency (hdConf h)"
  "ssRecoveryProbeIntervalMinutes (rereadRow e l h) = GetRecoveryProbeIntervalMinutes (hdConf h)"
  by (simp_all add: rereadRow_def UpdateSystemSettings_def savedRow_def scannedRow_def trimmedJSON_def Let_def)

text \<open>What the code relies on in \<open>encoding/json\<close>: the patterns and the names that it encodes are decoded again.\<close>

definition json_roundtrip :: "SettingsEnv \<Rightarrow> Config \<Rightarrow> bool" where
  "json_roundtrip e pf \<longleftrightarrow>
     ParseCustomPatterns e (MarshalCustomPatterns e (cfCustomPatterns pf)) = Some (cfCustomPatterns pf) \<and>
     ParseDisabledPatterns e (MarshalDisabledPatterns e (cfDisabledPatterns pf)) = Some (normalizePatternNames (cfDisabledPatterns pf))"

lemma reread_filter:
  assumes json: "json_roundtrip e (scPromptFilter (hdConf h))" and ok: "NormalizeConfig (scPromptFilter (hdConf h)) = scPromptFilter (hdConf h)"
  shows "promptFilterConfigFromSettings e (rereadRow e l h) = scPromptFilter (hdConf h)"
proof -
  have "normalizePatternNames (cfDisabledPatterns (scPromptFilter (hdConf h))) = cfDisabledPatterns (NormalizeConfig (scPromptFilter (hdConf h)))"
    by (simp add: NormalizeConfig_def Let_def)
  then have "normalizePatternNames (cfDisabledPatterns (scPromptFilter (hdConf h))) = cfDisabledPatterns (scPromptFilter (hdConf h))"
    using ok by simp
  moreover note json [unfolded json_roundtrip_def]
  ultimately have "promptFilterConfigFromSettings e (rereadRow e l h) = NormalizeConfig (let p = scPromptFilter (hdConf h) in
      \<lparr>cfEnabled = cfEnabled p, cfMode = cfMode p, cfThreshold = cfThreshold p, cfStrictThreshold = cfStrictThreshold p,
       cfLogMatches = cfLogMatches p, cfMaxTextLength = cfMaxTextLength p, cfSensitiveWords = cfSensitiveWords p,
       cfCustomPatterns = cfCustomPatterns p, cfDisabledPatterns = cfDisabledPatterns p\<rparr>)"
    by (simp add: promptFilterConfigFromSettings_def rereadRow_def UpdateSystemSettings_def savedRow_def scannedRow_def GetPromptFilterConfig_def ok
        Let_def)
  also have "\<dots> = NormalizeConfig (scPromptFilter (hdConf h))" by (rule arg_cong, cases "scPromptFilter (hdConf h)") simp
  finally show ?thesis using ok by simp
qed

lemma conf_restored:
  assumes ok: "conf_ok (hdConf h)" and filt: "promptFilterConfigFromSettings e (rereadRow e l h) = scPromptFilter (hdConf h)"
    and mig: "scAllowRemoteMigration (hdConf h) \<Longrightarrow> hasAdminSecret l h"
  shows "confView (confOfRow e (rereadRow e l h)) = confView (hdConf h)"
    and "scMaxRetries (confOfRow e (rereadRow e l h)) = (if scMaxRetries (hdConf h) = 0 then 2 else scMaxRetries (hdConf h))"
proof -
  let ?c = "hdConf h"
  have mins: "SetBackgroundRefreshInterval (GetBackgroundRefreshIntervalMinutes ?c * Minute) c = c\<lparr>scBackgroundRefreshInterval := scBackgroundRefreshInterval ?c\<rparr>"
    "SetUsageProbeMaxAge (GetUsageProbeMaxAgeMinutes ?c * Minute) c = c\<lparr>scUsageProbeMaxAge := scUsageProbeMaxAge ?c\<rparr>"
    "SetRecoveryProbeInterval (GetRecoveryProbeIntervalMinutes ?c * Minute) c = c\<lparr>scRecoveryProbeInterval := scRecoveryProbeInterval ?c\<rparr>" for c
    using ok by (auto simp: SetBackgroundRefreshInterval_def GetBackgroundRefreshIntervalMinutes_def GetBackgroundRefreshInterval_def
        SetUsageProbeMaxAge_def GetUsageProbeMaxAgeMinutes_def GetUsageProbeMaxAge_def SetRecoveryProbeInterval_def
        GetRecoveryProbeIntervalMinutes_def GetRecoveryProbeInterval_def conf_ok_def minutesOK_def)
  have nums: "SetUsageProbeConcurrency (GetUsageProbeConcurrency ?c) c = c\<lparr>scUsageProbeConcurrency := scUsageProbeConcurrency ?c\<rparr>"
    "normalizeWSKeepaliveInterval (normalizeCodexWSKeepaliveInterval (CodexWSKeepaliveIntervalSec ?c)) = scCodexWSKeepaliveIntervalSec ?c"
    "normalizeWSSilentMaxRetries (normalizeCodexWSSilentMaxRetries (scCodexWSSilentMaxRetries ?c)) = scCodexWSSilentMaxRetries ?c"
    "\<not> scMaxRateLimitRetries ?c < 0" for c
    using ok by (simp_all add: SetUsageProbeConcurrency_def GetUsageProbeConcurrency_def normalizeWSKeepaliveInterval_def
        normalizeCodexWSKeepaliveInterval_def CodexWSKeepaliveIntervalSec_def normalizeWSSilentMaxRetries_def
        normalizeCodexWSSilentMaxRetries_def conf_ok_def)
  have mig': "(scAllowRemoteMigration ?c \<and> hasAdminSecret l h) = scAllowRemoteMigration ?c" using mig by blast
  have json: "trimmedJSON (trimmedJSON s) = trimmedJSON s" "trimmedJSON s \<noteq> []" for s
  proof -
    have "TrimSpace ''[]'' = ''[]''" by code_simp
    then show "trimmedJSON (trimmedJSON s) = trimmedJSON s" "trimmedJSON s \<noteq> []" by (simp_all add: trimmedJSON_def Let_def)
  qed
  have c: "confOfRow e (rereadRow e l h) = ?c\<lparr>scTestModel := GetTestModel ?c, scModelMapping := GetModelMapping ?c,
      scCodexModelMapping := GetCodexModelMapping ?c, scReasoningEffortModels := trimmedJSON (GetReasoningEffortModels ?c),
      scMaxRetries := (if scMaxRetries ?c \<le> 0 then 2 else scMaxRetries ?c)\<rparr>"
    by (rule StoreConf.equality) (simp_all add: confOfRow_def reread_conf mins nums mig' filt)
  show "confView (confOfRow e (rereadRow e l h)) = confView ?c"
    by (simp add: c confView_def GetTestModel_def GetModelMapping_def GetCodexModelMapping_def GetReasoningEffortModels_def json)
  show "scMaxRetries (confOfRow e (rereadRow e l h)) = (if scMaxRetries ?c = 0 then 2 else scMaxRetries ?c)"
    using ok by (simp add: c conf_ok_def)
qed

text \<open>
  Four settings are kept twice, in the store and in the runtime settings of the proxy; the row is written from the copies of the store and both copies
  are filled from it.\<close>

definition copies_agree :: "AdminHandler \<Rightarrow> bool" where
  "copies_agree h \<longleftrightarrow> rsCodexForceWebsocket (hdRuntime h) = scCodexForceWebsocket (hdConf h) \<and>
     rsCodexWSHideErrors (hdRuntime h) = scCodexWSHideUpstreamErrors (hdConf h) \<and>
     rsCodexWSSilentRetry (hdRuntime h) = scCodexWSSilentRetryEnabled (hdConf h) \<and>
     rsCodexWSSilentRetries (hdRuntime h) = scCodexWSSilentMaxRetries (hdConf h)"

definition wsCopies :: "StoreConf \<Rightarrow> bool \<times> bool \<times> bool \<times> int" where
  "wsCopies c = (scCodexForceWebsocket c, scCodexWSHideUpstreamErrors c, scCodexWSSilentRetryEnabled c, scCodexWSSilentMaxRetries c)"

lemma whenSet_view: "(\<And>v s. view (f v s) = view s) \<Longrightarrow> view (whenSet x f s) = view s"
  by (cases x) simp_all

lemma ws_frames:
  "wsCopies (hdConf (applyLimits e req h)) = wsCopies (hdConf h)" "wsCopies (hdConf (applyAutoClean e req h)) = wsCopies (hdConf h)"
  "wsCopies (hdConf (applyMappings req h)) = wsCopies (hdConf h)"
proof -
  note view = whenSet_view [where view = "\<lambda>h. wsCopies (hdConf h)"]
  show "wsCopies (hdConf (applyLimits e req h)) = wsCopies (hdConf h)" unfolding applyLimits_def
    by (intro view [THEN trans]) (auto simp: on_frames wsCopies_def SetRecoveryProbeInterval_def
        SetUsageProbeConcurrency_def SetUsageProbeMaxAge_def SetBackgroundRefreshInterval_def Let_def)
  show "wsCopies (hdConf (applyAutoClean e req h)) = wsCopies (hdConf h)" unfolding applyAutoClean_def
    by (intro view [THEN trans]) (auto simp: on_frames wsCopies_def Let_def)
  show "wsCopies (hdConf (applyMappings req h)) = wsCopies (hdConf h)" unfolding applyMappings_def
    by (intro view [THEN trans]) (auto simp: on_frames wsCopies_def)
qed

lemma ws_partial:
  "applyProxyPool e req h = Some h' \<Longrightarrow> wsCopies (hdConf h') = wsCopies (hdConf h) \<and> hdRuntime h' = hdRuntime h"
  "applyMigration req b h = Some h' \<Longrightarrow> wsCopies (hdConf h') = wsCopies (hdConf h) \<and> hdRuntime h' = hdRuntime h"
  "applyEfforts e req h = Some h' \<Longrightarrow> wsCopies (hdConf h') = wsCopies (hdConf h) \<and> hdRuntime h' = hdRuntime h"
  "applyPromptFilter e req h = Some h' \<Longrightarrow> wsCopies (hdConf h') = wsCopies (hdConf h) \<and> hdRuntime h' = hdRuntime h"
  "applyImages e req h = Some h' \<Longrightarrow> wsCopies (hdConf h') = wsCopies (hdConf h) \<and> hdRuntime h' = hdRuntime h"
  by (auto simp: applyProxyPool_def applyMigration_def applyEfforts_def applyPromptFilter_def applyImages_def wsCopies_def on_frames
      SetPromptFilterConfig_def split: option.splits bool.splits if_splits sum.splits)

lemma runtime_frames:
  "hdRuntime (applyLimits e req h) = hdRuntime h" "hdRuntime (applyAutoClean e req h) = hdRuntime h" "hdRuntime (applyScheduler e req h) = hdRuntime h"
  "hdRuntime (applyMappings req h) = hdRuntime h" "hdRuntime (applyThresholds req h) = hdRuntime h" "hdRuntime (applyUsageLog req h) = hdRuntime h"
  "hdRuntime (applyResin req l h) = hdRuntime h"
  by (simp_all add: applyLimits_def applyAutoClean_def applyScheduler_def applyMappings_def applyThresholds_def applyUsageLog_def applyResin_def
      settings_frame Let_def)

text \<open>The four fields after the phase that sets them, in either copy.\<close>

definition wsRequested :: "updateSettingsReq \<Rightarrow> bool \<times> bool \<times> bool \<times> int \<Rightarrow> bool \<times> bool \<times> bool \<times> int" where
  "wsRequested req = (\<lambda>(f, i, s, n).
     (case rqCodexForceWebsocket req of None \<Rightarrow> f | Some v \<Rightarrow> v, case rqCodexWSHideUpstreamErrors req of None \<Rightarrow> i | Some v \<Rightarrow> v,
      case rqCodexWSSilentRetryEnabled req of None \<Rightarrow> s | Some v \<Rightarrow> v, case rqCodexWSSilentMaxRetries req of None \<Rightarrow> n | Some v \<Rightarrow> clampTo 0 10 v))"

definition wsRuntime :: "RuntimeSettings \<Rightarrow> bool \<times> bool \<times> bool \<times> int" where
  "wsRuntime r = (rsCodexForceWebsocket r, rsCodexWSHideErrors r, rsCodexWSSilentRetry r, rsCodexWSSilentRetries r)"

lemma copies_agree_alt: "copies_agree h \<longleftrightarrow> wsRuntime (hdRuntime h) = wsCopies (hdConf h)"
  by (simp add: copies_agree_def wsRuntime_def wsCopies_def)

lemma ws_scheduler: "wsCopies (hdConf (applyScheduler e req h)) = wsRequested req (wsCopies (hdConf h))"
proof -
  let ?V = "\<lambda>h. wsCopies (hdConf h)"
  have clamp: "normalizeWSSilentMaxRetries (clampTo 0 10 v) = clampTo 0 10 v" for v
    by (simp add: normalizeWSSilentMaxRetries_def clampTo_def)
  have keep: "?V (onStore f g) = ?V g" "?V (onConf (SetMaxRetries n) g) = ?V g" "?V (onConf (SetMaxRateLimitRetries n) g) = ?V g"
    "?V (onConf (SetCodexWSKeepaliveIntervalSec n) g) = ?V g" "?V (onConf (\<lambda>c. c\<lparr>scCodexWSKeepaliveEnabled := b\<rparr>) g) = ?V g" for f n b g
    by (simp_all add: on_frames wsCopies_def SetMaxRetries_def SetMaxRateLimitRetries_def SetCodexWSKeepaliveIntervalSec_def)
  note view = whenSet_view [where view = ?V]
  show ?thesis unfolding applyScheduler_def
    by (simp add: keep view)
      (auto simp: wsRequested_def whenSet_def wsCopies_def on_frames keep SetCodexWSSilentMaxRetries_def SetCodexWSKeepaliveIntervalSec_def clamp split: option.split)
qed

lemma ws_runtime:
  assumes "NormalizeRuntimeSettings (hdRuntime h) = hdRuntime h"
  shows "wsRuntime (hdRuntime (applyRuntime req h)) = wsRequested req (wsRuntime (hdRuntime h))"
proof -
  have norm: "wsRuntime (NormalizeRuntimeSettings r) = wsRuntime r" if "0 \<le> rsCodexWSSilentRetries r" "rsCodexWSSilentRetries r \<le> 10" for r
    using that by (simp add: wsRuntime_def NormalizeRuntimeSettings_def Let_def)
  have "rsCodexWSSilentRetries (NormalizeRuntimeSettings r) \<in> {0..10}" for r by (simp add: NormalizeRuntimeSettings_def Let_def)
  then have "rsCodexWSSilentRetries (hdRuntime h) \<in> {0..10}" using assms by metis
  moreover have req: "wsRuntime (requestedRuntime req r) = wsRequested req (wsRuntime r)" for r
    by (auto simp: requestedRuntime_def wsRuntime_def wsRequested_def whenSet_def split: option.split)
  moreover have "rsCodexWSSilentRetries (requestedRuntime req r) \<in> {0..10}" if "rsCodexWSSilentRetries r \<in> {0..10}" for r
    using req [of r] that by (auto simp: wsRuntime_def wsRequested_def clampTo_def split: option.splits)
  ultimately show ?thesis using assms
    by (simp add: applyRuntime_def ApplyRuntimeSettings_def CurrentRuntimeSettings_def norm)
qed

lemma applyAll_copies:
  assumes "applyAll e req l h = Inr h'" "settings_ok h" "copies_agree h"
  shows "copies_agree h'"
proof -
  from applyAll_InrD [OF assms(1)] obtain h2 h4 h6 h8 where
    2: "applyProxyPool e req (applyAutoClean e req (applyLimits e req h)) = Some h2" and
    4: "applyMigration req (hasAdminSecret l h) (applyScheduler e req h2) = Some h4" and 6: "applyEfforts e req (applyMappings req h4) = Some h6" and
    8: "applyPromptFilter e req (applyUsageLog req (applyRuntime req (applyThresholds req h6))) = Some h8" and
    10: "applyImages e req (applyResin req l h8) = Some h'" by blast
  note frames = ws_frames runtime_frames later_migration(2-5) ws_scheduler
  have "wsCopies (hdConf h') = wsRequested req (wsCopies (hdConf h))"
    using ws_partial(1) [OF 2] ws_partial(2) [OF 4] ws_partial(3) [OF 6] ws_partial(4) [OF 8] ws_partial(5) [OF 10] by (simp add: frames)
  moreover have rt: "hdRuntime h6 = hdRuntime h"
    using ws_partial(1) [OF 2] ws_partial(2) [OF 4] ws_partial(3) [OF 6] by (simp add: frames)
  moreover have "hdRuntime h' = hdRuntime (applyRuntime req (applyThresholds req h6))"
    using ws_partial(4) [OF 8] ws_partial(5) [OF 10] by (simp add: frames)
  moreover have "wsRuntime (hdRuntime (applyRuntime req (applyThresholds req h6))) = wsRequested req (wsRuntime (hdRuntime h6))"
    using assms(2) rt by (subst ws_runtime) (simp_all add: frames settings_ok_def)
  ultimately show ?thesis using assms(3) by (simp add: copies_agree_alt)
qed

text \<open>A request that is refused leaves the two copies different: the copy of the store is set before the check that refuses it, the other one after.\<close>

lemma refused_request_splits:
  assumes "\<not> hasAdminSecret (startLocals e h) h"
  shows "UpdateSettings e (Some (emptyReq\<lparr>rqCodexForceWebsocket := Some b, rqAllowRemoteMigration := Some True\<rparr>)) h =
      (onConf (\<lambda>c. c\<lparr>scCodexForceWebsocket := b\<rparr>) h, 400)"
    (is "UpdateSettings e (Some ?req) h = (?h, 400)")
proof -
  have "applyLimits e ?req h = h" "applyAutoClean e ?req h = h" "applyProxyPool e ?req h = Some h" "applyScheduler e ?req h = ?h"
    "applyMigration ?req False ?h = None" "requestedLocals e ?req h = Some (startLocals e h)"
    by (simp_all add: applyLimits_def applyAutoClean_def applyProxyPool_def applyScheduler_def applyMigration_def emptyReq_def requestedLocals_def
        setMedia_def)
  then show ?thesis using assms by (simp add: UpdateSettings_def applyAll_def empty_thresholds)
qed

lemma reread_rest:
  "ssMaxConcurrency (rereadRow e l h) = maxConcurrency (hdStore h)" "ssLazyMode (rereadRow e l h) = lazyMode (hdStore h)"
  "ssProxyURL (rereadRow e l h) = globalProxy (hdStore h)" "ssProxyPoolEnabled (rereadRow e l h) = proxyPoolEnabled (hdStore h)"
  "ssFastSchedulerEnabled (rereadRow e l h) = fastSchedulerEnabled (hdStore h)" "ssSchedulerMode (rereadRow e l h) = schedulerMode (hdStore h)"
  "ssAffinityMode (rereadRow e l h) = normalizeAffinityMode (GetAffinityMode (hdStore h))"
  "ssAutoPause5hThreshold (rereadRow e l h) = globalAutoPause5hThreshold (hdStore h)"
  "ssAutoPause7dThreshold (rereadRow e l h) = globalAutoPause7dThreshold (hdStore h)"
  "ssGlobalRPM (rereadRow e l h) = erlGlobalRPM (hdLimiter h)" "ssPgMaxConns (rereadRow e l h) = hdPgMaxConns h"
  "ssRedisPoolSize (rereadRow e l h) = hdRedisPoolSize h" "ssUsageLogMode (rereadRow e l h) = ulMode (hdUsageLog h)"
  "ssUsageLogBatchSize (rereadRow e l h) = ulBatchSize (hdUsageLog h)"
  "ssUsageLogFlushIntervalSeconds (rereadRow e l h) = ulFlushSeconds (hdUsageLog h)"
  by (simp_all add: rereadRow_def UpdateSystemSettings_def savedRow_def scannedRow_def GetSchedulerMode_def Let_def)

lemma reread_runtime:
  assumes norm: "NormalizeRuntimeSettings (hdRuntime h) = hdRuntime h" and ok: "conf_ok (hdConf h)" and agree: "copies_agree h"
  shows "runtimeOfRow (rereadRow e l h) = hdRuntime h"
proof -
  let ?r = "hdRuntime h"
  have "rsFirstTokenMode (NormalizeRuntimeSettings r) = NormalizeFirstTokenMode (rsFirstTokenMode r)"
    "rsBillingTierPolicy (NormalizeRuntimeSettings r) = NormalizeBillingTierPolicy (rsBillingTierPolicy r)" for r
    by (simp_all add: NormalizeRuntimeSettings_def Let_def)
  then have "NormalizeFirstTokenMode (rsFirstTokenMode ?r) = rsFirstTokenMode ?r" "NormalizeBillingTierPolicy (rsBillingTierPolicy ?r) = rsBillingTierPolicy ?r"
    using norm by metis+
  then have modes: "normalizeFirstTokenMode (rsFirstTokenMode ?r) = rsFirstTokenMode ?r" "normalizeBillingTierPolicy (rsBillingTierPolicy ?r) = rsBillingTierPolicy ?r"
    using row_modes by metis+
  have silent: "normalizeCodexWSSilentMaxRetries (scCodexWSSilentMaxRetries (hdConf h)) = scCodexWSSilentMaxRetries (hdConf h)"
    using ok by (simp add: normalizeCodexWSSilentMaxRetries_def conf_ok_def)
  show ?thesis using agree
    by (intro RuntimeSettings.equality)
      (simp_all add: runtimeOfRow_def rereadRow_def UpdateSystemSettings_def savedRow_def scannedRow_def Let_def modes silent copies_agree_def)
qed

lemma affinity_back: "store_normal s \<Longrightarrow> normalizeAffinityMode (GetAffinityMode s) = affinityMode s"
proof -
  have "TrimSpace ''bounded'' = ''bounded''" by code_simp
  then show "store_normal s \<Longrightarrow> normalizeAffinityMode (GetAffinityMode s) = affinityMode s"
    by (auto simp: store_normal_def normalizeAffinityMode_def GetAffinityMode_def mode_lowers)
qed

definition restarted :: "SettingsEnv \<Rightarrow> bool \<Rightarrow> int \<Rightarrow> AdminHandler \<Rightarrow> AdminHandler" where
  "restarted e fastEnv openConns h = startUp e [] fastEnv (aaSecretEnv (hdAccess h)) openConns (aaTable (hdAccess h))"

lemma restarted_fields:
  fixes fastEnv :: bool and openConns :: int
  assumes "evReadOK e" "evWriteOK e" and h': "h' = persistSettings e l h"
  defines "r \<equiv> restarted e fastEnv openConns h'" and "st \<equiv> rereadRow e l h"
  shows "hdRuntime r = NormalizeRuntimeSettings (runtimeOfRow st)" "hdConf r = confOfRow e st" "erlGlobalRPM (hdLimiter r) = ssGlobalRPM st"
    "hdUsageLog r = SetUsageLogConfig (ssUsageLogMode st) (ssUsageLogBatchSize st) (ssUsageLogFlushIntervalSeconds st)"
    "hdPgMaxConns r = ssPgMaxConns st" "hdRedisPoolSize r = ssRedisPoolSize st" "hdAccess r = hdAccess h'"
    "\<exists>tc. hdStore r = NewStore tc (Some (SystemSettings.truncate st)) fastEnv (evProxies e)"
proof -
  have "loadedSettings e [] (aaTable (hdAccess h')) = (st, aaTable (hdAccess h'))"
    using assms(1,2) by (simp add: h' st_def loadedSettings_def GetSystemSettings_def persistSettings_def UpdateSystemSettings_def rereadRow_def)
  note startUp_def [of e "[]" fastEnv "aaSecretEnv (hdAccess h')" openConns "aaTable (hdAccess h')", unfolded this, folded restarted_def, folded r_def]
  note eq = this [unfolded Let_def prod.case]
  show "hdRuntime r = NormalizeRuntimeSettings (runtimeOfRow st)" "hdConf r = confOfRow e st" "erlGlobalRPM (hdLimiter r) = ssGlobalRPM st"
    "hdUsageLog r = SetUsageLogConfig (ssUsageLogMode st) (ssUsageLogBatchSize st) (ssUsageLogFlushIntervalSeconds st)"
    "hdPgMaxConns r = ssPgMaxConns st" "hdRedisPoolSize r = ssRedisPoolSize st" "hdAccess r = hdAccess h'"
    "\<exists>tc. hdStore r = NewStore tc (Some (SystemSettings.truncate st)) fastEnv (evProxies e)"
    by (auto simp: eq ApplyRuntimeSettingsFromSystem_def NewRateLimiter_def NewEnhancedRateLimiter_def)
qed

lemma NewStore_fields:
  "maxConcurrency (NewStore tc (Some st) f ps) = ssMaxConcurrency st" "lazyMode (NewStore tc (Some st) f ps) = ssLazyMode st"
  "globalProxy (NewStore tc (Some st) f ps) = ssProxyURL st" "proxyPoolEnabled (NewStore tc (Some st) f ps) = ssProxyPoolEnabled st"
  "schedulerMode (NewStore tc (Some st) f ps) = ssSchedulerMode st"
  "fastSchedulerEnabled (NewStore tc (Some st) f ps) = (f \<or> ssFastSchedulerEnabled st)"
  "storeView (NewStore tc (Some st) f ps) =
     (if ssAffinityMode st \<in> {''bounded'', ''off'', ''strict''} then ssAffinityMode st else ''bounded'',
      normalizeQuotaAutoPauseThreshold (ssAutoPause5hThreshold st), normalizeQuotaAutoPauseThreshold (ssAutoPause7dThreshold st))"
  by (simp_all add: NewStore_def Let_def storeView_def)

lemma truncate_fields:
  "ssMaxConcurrency (SystemSettings.truncate st) = ssMaxConcurrency st" "ssLazyMode (SystemSettings.truncate st) = ssLazyMode st"
  "ssProxyURL (SystemSettings.truncate st) = ssProxyURL st" "ssProxyPoolEnabled (SystemSettings.truncate st) = ssProxyPoolEnabled st"
  "ssSchedulerMode (SystemSettings.truncate st) = ssSchedulerMode st" "ssAffinityMode (SystemSettings.truncate st) = ssAffinityMode st"
  "ssFastSchedulerEnabled (SystemSettings.truncate st) = ssFastSchedulerEnabled st"
  "ssAutoPause5hThreshold (SystemSettings.truncate st) = ssAutoPause5hThreshold st"
  "ssAutoPause7dThreshold (SystemSettings.truncate st) = ssAutoPause7dThreshold st"
  by (simp_all add: SystemSettings.truncate_def)



end
