(* ===== verification/AccountTable.thy ===== *)
theory AccountTable
  imports ApiKeyAuth
begin

section \<open>The table of accounts\<close>

text \<open>
  Models the statements of \<open>database/postgres.go\<close> on accounts and on the cooldowns of their models, the accessors of
  credentials (\<open>database/credentials_accessors.go\<close>, \<open>database/helpers.go\<close>), and of \<open>auth/store.go\<close> the construction of an
  account from its row and the loading of the pool.

  A row holds the credentials as decoded JSON. \<open>up\<close> says whether the engine executes a statement. \<open>strconv.ParseFloat\<close>, the printing of a
  number and the parsing of RFC 3339 are arguments (record \<open>rowCodec\<close>). The identifiers of the Qoder protocol are not part of the record of
  an account and are left out.
\<close>

subsection \<open>Credentials\<close>

datatype credential = CrNull | CrString string | CrNumber float64 | CrBool bool | CrArray "credential list" | CrObject

type_synonym credentials = "string \<rightharpoonup> credential"

record rowCodec =
  rcParseFloat :: "string \<Rightarrow> float64 option"
  rcShowFloat :: "float64 \<Rightarrow> string"
  rcParseTime :: "string \<Rightarrow> time option"

definition mergeCredentialMaps :: "credentials \<Rightarrow> credentials \<Rightarrow> credentials" where
  "mergeCredentialMaps base updates = base ++ updates"

record AccountRow =
  arID :: int
  arName :: string
  arPlatform :: string
  arType :: string
  arCredentials :: credentials
  arProxyURL :: string
  arStatus :: string
  arCooldownReason :: string
  arCooldownUntil :: "time option"
  arErrorMessage :: string
  arEnabled :: bool
  arLocked :: bool
  arCreditEnabled :: bool
  arCreditSkipUsageWindow :: bool
  arSkipWarmTier :: bool
  arScoreBiasOverride :: "int option"
  arBaseConcurrencyOverride :: "int option"
  arTags :: "string list"
  arCreatedAt :: time
  arUpdatedAt :: time
  arDeletedAt :: "time option"

definition GetCredential :: "rowCodec \<Rightarrow> AccountRow \<Rightarrow> string \<Rightarrow> string" where
  "GetCredential e r key =
     (case arCredentials r key of Some (CrString s) \<Rightarrow> s | Some (CrNumber x) \<Rightarrow> rcShowFloat e x | _ \<Rightarrow> [])"

definition int64FromJSONValue :: "credential \<Rightarrow> int option" where
  "int64FromJSONValue v = (case v of CrNumber x \<Rightarrow> if real_of_int \<lfloor>x\<rfloor> = x \<and> - (2 ^ 63) \<le> x \<and> x < 2 ^ 63 then Some \<lfloor>x\<rfloor> else None | _ \<Rightarrow> None)"

definition normalizePositiveInt64Slice :: "int list \<Rightarrow> int list" where
  "normalizePositiveInt64Slice values = stable_sort (<) (dedupPositive [] values)"

definition int64SliceFromValue :: "credential \<Rightarrow> int list" where
  "int64SliceFromValue v =
     (case v of CrArray items \<Rightarrow> normalizePositiveInt64Slice (List.map_filter int64FromJSONValue items) | _ \<Rightarrow> [])"

definition GetCredentialInt64Slice :: "AccountRow \<Rightarrow> string \<Rightarrow> int list" where
  "GetCredentialInt64Slice r key = (case arCredentials r key of None \<Rightarrow> [] | Some v \<Rightarrow> int64SliceFromValue v)"

definition isSeparator :: "char \<Rightarrow> bool" where
  "isSeparator c \<longleftrightarrow> c = CHR '','' \<or> byteOf c \<in> {9, 10, 13}"

fun FieldsFunc :: "string \<Rightarrow> string \<Rightarrow> string list" where
  "FieldsFunc cur [] = (if cur = [] then [] else [rev cur])"
| "FieldsFunc cur (c # s) =
     (if isSeparator c then (if cur = [] then FieldsFunc [] s else rev cur # FieldsFunc [] s) else FieldsFunc (c # cur) s)"

text \<open>The helper \<open>add\<close>: trimmed, not empty, without regard to case only once.\<close>

definition stringItems :: "string list \<Rightarrow> string list" where
  "stringItems items = dedupFold [] items"

definition stringSliceFromValue :: "credential \<Rightarrow> string list" where
  "stringSliceFromValue v =
     (case v of
        CrArray items \<Rightarrow> stringItems (List.map_filter (\<lambda>x. case x of CrString s \<Rightarrow> Some s | _ \<Rightarrow> None) items)
      | CrString s \<Rightarrow> stringItems (FieldsFunc [] s)
      | _ \<Rightarrow> [])"

definition GetCredentialStringSlice :: "AccountRow \<Rightarrow> string \<Rightarrow> string list" where
  "GetCredentialStringSlice r key = (case arCredentials r key of None \<Rightarrow> [] | Some v \<Rightarrow> stringSliceFromValue v)"

definition GetCredentialFloat64 :: "rowCodec \<Rightarrow> AccountRow \<Rightarrow> string \<Rightarrow> float64 option" where
  "GetCredentialFloat64 e r key =
     (case arCredentials r key of Some (CrNumber x) \<Rightarrow> Some x | Some (CrString s) \<Rightarrow> rcParseFloat e s | _ \<Rightarrow> None)"

definition ParseBool :: "string \<Rightarrow> bool option" where
  "ParseBool s =
     (if s \<in> {''1'', ''t'', ''T'', ''TRUE'', ''true'', ''True''} then Some True
      else if s \<in> {''0'', ''f'', ''F'', ''FALSE'', ''false'', ''False''} then Some False else None)"

definition GetCredentialBool :: "AccountRow \<Rightarrow> string \<Rightarrow> bool" where
  "GetCredentialBool r key =
     (case arCredentials r key of Some (CrBool b) \<Rightarrow> b | Some (CrString s) \<Rightarrow> ParseBool s = Some True | _ \<Rightarrow> False)"

subsection \<open>Statements\<close>

record modelCooldownRow =
  mrAccountID :: int
  mrModel :: string
  mrReason :: string
  mrResetAt :: time
  mrUpdatedAt :: time

record AccountGroup =
  grID :: int
  grName :: string
  grDescription :: string
  grColor :: string
  grSortOrder :: int
  grThreshold5h :: float64
  grThreshold7d :: float64

record AccountDB =
  adRows :: "AccountRow list"
  adNextID :: int
  adCooldowns :: "modelCooldownRow list"
  adGroups :: "AccountGroup list"
  adNextGroupID :: int
  adMembers :: "(int \<times> int) list"

text \<open>\<open>status = 'deleted' OR COALESCE(error_message, '') = 'deleted'\<close>\<close>

definition isDeleted :: "AccountRow \<Rightarrow> bool" where
  "isDeleted r \<longleftrightarrow> arStatus r = ''deleted'' \<or> arErrorMessage r = ''deleted''"

definition updateWhere :: "(AccountRow \<Rightarrow> bool) \<Rightarrow> (AccountRow \<Rightarrow> AccountRow) \<Rightarrow> AccountDB \<Rightarrow> AccountDB" where
  "updateWhere c f d = d\<lparr>adRows := map (\<lambda>r. if c r then f r else r) (adRows d)\<rparr>"

definition affectedRows :: "(AccountRow \<Rightarrow> bool) \<Rightarrow> AccountDB \<Rightarrow> bool" where
  "affectedRows c d \<longleftrightarrow> list_ex c (adRows d)"

text \<open>An update that reports \<open>sql.ErrNoRows\<close> when it affects no row, and one that does not.\<close>

definition updateCounted :: "bool \<Rightarrow> (AccountRow \<Rightarrow> bool) \<Rightarrow> (AccountRow \<Rightarrow> AccountRow) \<Rightarrow> AccountDB \<Rightarrow> AccountDB \<times> unit dbResult" where
  "updateCounted up c f d =
     (if \<not> up then (d, DBError) else if affectedRows c d then (updateWhere c f d, DBOk ()) else (d, ErrNoRows))"

definition updateSilent :: "bool \<Rightarrow> (AccountRow \<Rightarrow> bool) \<Rightarrow> (AccountRow \<Rightarrow> AccountRow) \<Rightarrow> AccountDB \<Rightarrow> AccountDB \<times> unit dbResult" where
  "updateSilent up c f d = (if \<not> up then (d, DBError) else (updateWhere c f d, DBOk ()))"

definition ListActive :: "bool \<Rightarrow> AccountDB \<Rightarrow> AccountRow list dbResult" where
  "ListActive up d = (if up then DBOk (sort_key arID (filter (\<lambda>r. \<not> isDeleted r) (adRows d))) else DBError)"

definition getAccountByID :: "bool \<Rightarrow> bool \<Rightarrow> int \<Rightarrow> AccountDB \<Rightarrow> AccountRow dbResult" where
  "getAccountByID up includeDeleted i d =
     (if \<not> up then DBError
      else case find (\<lambda>r. arID r = i \<and> (includeDeleted \<or> \<not> isDeleted r)) (adRows d) of None \<Rightarrow> ErrNoRows | Some r \<Rightarrow> DBOk r)"

definition softDeleted :: "time \<Rightarrow> AccountRow \<Rightarrow> AccountRow" where
  "softDeleted now r =
     r\<lparr>arStatus := ''deleted'', arErrorMessage := [], arCooldownReason := [], arCooldownUntil := None, arDeletedAt := Some now, arUpdatedAt := now\<rparr>"

text \<open>One transaction: the row is marked and the memberships are deleted.\<close>

definition SoftDeleteAccount :: "bool \<Rightarrow> time \<Rightarrow> int \<Rightarrow> AccountDB \<Rightarrow> AccountDB \<times> unit dbResult" where
  "SoftDeleteAccount up now i d =
     (case updateCounted up (\<lambda>r. arID r = i \<and> arStatus r \<noteq> ''deleted'') (softDeleted now) d of
        (d', DBOk _) \<Rightarrow> (d'\<lparr>adMembers := filter (\<lambda>m. fst m \<noteq> i) (adMembers d')\<rparr>, DBOk ())
      | (_, e) \<Rightarrow> (d, e))"

fun chunks :: "nat \<Rightarrow> 'a list \<Rightarrow> 'a list list" where
  "chunks n [] = []"
| "chunks n (x # xs) = (if n = 0 then [] else take n (x # xs) # chunks n (drop n (x # xs)))"

text \<open>Batches of 500 in statements of their own: \<open>ups\<close> has one entry per batch, and a failing batch leaves the batches before it deleted.\<close>

fun softDeleteBatches :: "time \<Rightarrow> bool list \<Rightarrow> int list list \<Rightarrow> AccountDB \<Rightarrow> AccountDB \<times> bool" where
  "softDeleteBatches now ups [] d = (d, True)"
| "softDeleteBatches now ups (b # bs) d =
     (if ups \<noteq> [] \<and> hd ups
      then softDeleteBatches now (tl ups) bs (updateWhere (\<lambda>r. arStatus r \<noteq> ''deleted'' \<and> arID r \<in> set b) (softDeleted now) d)
      else (d, False))"

definition BatchSoftDeleteAccounts :: "time \<Rightarrow> bool list \<Rightarrow> int list \<Rightarrow> AccountDB \<Rightarrow> AccountDB \<times> bool" where
  "BatchSoftDeleteAccounts now ups ids d = softDeleteBatches now ups (chunks 500 ids) d"

definition dbRestoreAccount :: "bool \<Rightarrow> time \<Rightarrow> int \<Rightarrow> AccountDB \<Rightarrow> AccountDB \<times> unit dbResult" where
  "dbRestoreAccount up now i d =
     updateCounted up (\<lambda>r. arID r = i \<and> isDeleted r)
       (\<lambda>r. r\<lparr>arStatus := ''active'', arErrorMessage := [], arCooldownReason := [], arCooldownUntil := None, arDeletedAt := None, arUpdatedAt := now\<rparr>) d"

definition dbPurgeAccount :: "bool \<Rightarrow> int \<Rightarrow> AccountDB \<Rightarrow> AccountDB \<times> unit dbResult" where
  "dbPurgeAccount up i d =
     (if \<not> up then (d, DBError)
      else if affectedRows (\<lambda>r. arID r = i \<and> isDeleted r) d
      then (d\<lparr>adRows := filter (\<lambda>r. \<not> (arID r = i \<and> isDeleted r)) (adRows d)\<rparr>, DBOk ()) else (d, ErrNoRows))"

definition PurgeDeletedAccounts :: "bool \<Rightarrow> AccountDB \<Rightarrow> AccountDB \<times> int dbResult" where
  "PurgeDeletedAccounts up d =
     (if \<not> up then (d, DBError)
      else (d\<lparr>adRows := filter (\<lambda>r. \<not> isDeleted r) (adRows d)\<rparr>, DBOk (int (length (filter isDeleted (adRows d))))))"

definition SetError :: "bool \<Rightarrow> time \<Rightarrow> int \<Rightarrow> string \<Rightarrow> AccountDB \<Rightarrow> AccountDB \<times> unit dbResult" where
  "SetError up now i errorMsg d =
     updateSilent up (\<lambda>r. arID r = i)
       (\<lambda>r. r\<lparr>arStatus := ''error'', arErrorMessage := errorMsg, arCooldownReason := [], arCooldownUntil := None, arUpdatedAt := now\<rparr>) d"

definition ClearError :: "bool \<Rightarrow> time \<Rightarrow> int \<Rightarrow> AccountDB \<Rightarrow> AccountDB \<times> unit dbResult" where
  "ClearError up now i d =
     updateSilent up (\<lambda>r. arID r = i)
       (\<lambda>r. r\<lparr>arStatus := ''active'', arErrorMessage := [], arCooldownReason := [], arCooldownUntil := None, arUpdatedAt := now\<rparr>) d"

definition SetCooldown :: "bool \<Rightarrow> time \<Rightarrow> int \<Rightarrow> string \<Rightarrow> time \<Rightarrow> AccountDB \<Rightarrow> AccountDB \<times> unit dbResult" where
  "SetCooldown up now i reason until d =
     updateSilent up (\<lambda>r. arID r = i) (\<lambda>r. r\<lparr>arCooldownReason := reason, arCooldownUntil := Some until, arUpdatedAt := now\<rparr>) d"

definition SetCooldownWithError :: "bool \<Rightarrow> time \<Rightarrow> int \<Rightarrow> string \<Rightarrow> time \<Rightarrow> string \<Rightarrow> AccountDB \<Rightarrow> AccountDB \<times> unit dbResult" where
  "SetCooldownWithError up now i reason until errorMsg d =
     updateSilent up (\<lambda>r. arID r = i)
       (\<lambda>r. r\<lparr>arCooldownReason := reason, arCooldownUntil := Some until, arErrorMessage := errorMsg, arUpdatedAt := now\<rparr>) d"

definition dbClearCooldown :: "bool \<Rightarrow> time \<Rightarrow> int \<Rightarrow> AccountDB \<Rightarrow> AccountDB \<times> unit dbResult" where
  "dbClearCooldown up now i d =
     updateSilent up (\<lambda>r. arID r = i) (\<lambda>r. r\<lparr>arCooldownReason := [], arCooldownUntil := None, arUpdatedAt := now\<rparr>) d"

definition SetAccountEnabled :: "bool \<Rightarrow> time \<Rightarrow> int \<Rightarrow> bool \<Rightarrow> AccountDB \<Rightarrow> AccountDB \<times> unit dbResult" where
  "SetAccountEnabled up now i enabled d = updateCounted up (\<lambda>r. arID r = i) (\<lambda>r. r\<lparr>arEnabled := enabled, arUpdatedAt := now\<rparr>) d"

definition SetAccountLocked :: "bool \<Rightarrow> int \<Rightarrow> bool \<Rightarrow> AccountDB \<Rightarrow> AccountDB \<times> unit dbResult" where
  "SetAccountLocked up i locked d = updateSilent up (\<lambda>r. arID r = i) (\<lambda>r. r\<lparr>arLocked := locked\<rparr>) d"

definition dbUpdateAccountCredit :: "bool \<Rightarrow> time \<Rightarrow> int \<Rightarrow> bool option \<Rightarrow> bool option \<Rightarrow> AccountDB \<Rightarrow> AccountDB \<times> unit dbResult" where
  "dbUpdateAccountCredit up now i credit skip d =
     (if credit = None \<and> skip = None then (d, DBOk ())
      else updateCounted up (\<lambda>r. arID r = i)
        (\<lambda>r. r\<lparr>arCreditEnabled := orKeep credit (arCreditEnabled r), arCreditSkipUsageWindow := orKeep skip (arCreditSkipUsageWindow r), arUpdatedAt := now\<rparr>) d)"

definition UpdateCredentials :: "bool \<Rightarrow> time \<Rightarrow> int \<Rightarrow> credentials \<Rightarrow> AccountDB \<Rightarrow> AccountDB \<times> unit dbResult" where
  "UpdateCredentials up now i updates d =
     updateCounted up (\<lambda>r. arID r = i) (\<lambda>r. r\<lparr>arCredentials := mergeCredentialMaps (arCredentials r) updates, arUpdatedAt := now\<rparr>) d"

text \<open>The columns that an insertion does not name have the defaults of the table.\<close>

definition InsertAccountWithCredentials ::
  "bool \<Rightarrow> time \<Rightarrow> string \<Rightarrow> credentials \<Rightarrow> string \<Rightarrow> AccountDB \<Rightarrow> AccountDB \<times> int dbResult" where
  "InsertAccountWithCredentials up now name creds proxyURL d =
     (if \<not> up then (d, DBError)
      else (d\<lparr>adRows := adRows d @
                [\<lparr>arID = adNextID d, arName = name, arPlatform = ''openai'', arType = ''oauth'', arCredentials = creds, arProxyURL = proxyURL,
                  arStatus = ''active'', arCooldownReason = [], arCooldownUntil = None, arErrorMessage = [], arEnabled = True, arLocked = False,
                  arCreditEnabled = False, arCreditSkipUsageWindow = False, arSkipWarmTier = False, arScoreBiasOverride = None,
                  arBaseConcurrencyOverride = None, arTags = [], arCreatedAt = now, arUpdatedAt = now, arDeletedAt = None\<rparr>],
              adNextID := adNextID d + 1\<rparr>, DBOk (adNextID d)))"

text \<open>Cooldowns of models, one row per account and model.\<close>

definition SetModelCooldown :: "bool \<Rightarrow> time \<Rightarrow> int \<Rightarrow> string \<Rightarrow> string \<Rightarrow> time \<Rightarrow> AccountDB \<Rightarrow> AccountDB \<times> unit dbResult" where
  "SetModelCooldown up now i model0 reason0 resetAt d =
     (let model = TrimSpace model0; reason1 = TrimSpace reason0; reason = (if reason1 = [] then ''rate_limited'' else reason1)
      in if i = 0 \<or> model = [] \<or> resetAt = 0 then (d, DBOk ())
         else if \<not> up then (d, DBError)
         else (d\<lparr>adCooldowns := filter (\<lambda>m. \<not> (mrAccountID m = i \<and> mrModel m = model)) (adCooldowns d) @
                 [\<lparr>mrAccountID = i, mrModel = model, mrReason = reason, mrResetAt = resetAt, mrUpdatedAt = now\<rparr>]\<rparr>, DBOk ()))"

definition dbClearModelCooldown :: "bool \<Rightarrow> int \<Rightarrow> string \<Rightarrow> AccountDB \<Rightarrow> AccountDB \<times> unit dbResult" where
  "dbClearModelCooldown up i model0 d =
     (let model = TrimSpace model0
      in if i = 0 \<or> model = [] then (d, DBOk ())
         else if \<not> up then (d, DBError)
         else (d\<lparr>adCooldowns := filter (\<lambda>m. \<not> (mrAccountID m = i \<and> mrModel m = model)) (adCooldowns d)\<rparr>, DBOk ()))"

definition ClearExpiredModelCooldowns :: "bool \<Rightarrow> time \<Rightarrow> AccountDB \<Rightarrow> AccountDB \<times> unit dbResult" where
  "ClearExpiredModelCooldowns up now d =
     (if \<not> up then (d, DBError) else (d\<lparr>adCooldowns := filter (\<lambda>m. \<not> mrResetAt m \<le> now) (adCooldowns d)\<rparr>, DBOk ()))"

definition ListActiveModelCooldowns :: "bool \<Rightarrow> time \<Rightarrow> AccountDB \<Rightarrow> modelCooldownRow list dbResult" where
  "ListActiveModelCooldowns up now d = (if up then DBOk (filter (\<lambda>m. mrResetAt m > now) (adCooldowns d)) else DBError)"

subsection \<open>From a row to an account\<close>

definition isResponsesRow :: "rowCodec \<Rightarrow> AccountRow \<Rightarrow> bool" where
  "isResponsesRow e r \<longleftrightarrow> EqualFold (TrimSpace (GetCredential e r ''upstream_type'')) ''openai_responses'' \<and>
     TrimSpace (GetCredential e r ''base_url'') \<noteq> [] \<and> TrimSpace (GetCredential e r ''api_key'') \<noteq> []"

definition isQoderRow :: "rowCodec \<Rightarrow> AccountRow \<Rightarrow> bool" where
  "isQoderRow e r \<longleftrightarrow> EqualFold (TrimSpace (GetCredential e r ''upstream_type'')) ''qoder''"

definition usableRow :: "rowCodec \<Rightarrow> AccountRow \<Rightarrow> bool" where
  "usableRow e r \<longleftrightarrow>
     \<not> (GetCredential e r ''refresh_token'' = [] \<and> GetCredential e r ''session_token'' = [] \<and> GetCredential e r ''access_token'' = [] \<and> \<not> isResponsesRow e r)"

text \<open>The phases of \<open>buildAccountFromRow\<close>: identity and flags, tokens, cooldown, usage windows, thresholds.\<close>

definition rowIdentity :: "rowCodec \<Rightarrow> AccountRow \<Rightarrow> Account" where
  "rowIdentity e r =
     (let a0 = (newAccount (arID r))\<lparr>RefreshToken := GetCredential e r ''refresh_token'', SessionToken := GetCredential e r ''session_token'',
            ProxyURL := TrimSpace (arProxyURL r), HealthTier := HealthTierWarm, AddedAt := arCreatedAt r,
            UpstreamType := GetCredential e r ''upstream_type'', BaseURL := TrimRight CHR ''/'' (TrimSpace (GetCredential e r ''base_url'')),
            APIKey := TrimSpace (GetCredential e r ''api_key''), Models := normalizeModelList (GetCredentialStringSlice r ''models'')\<rparr>;
          a1 = (if isResponsesRow e r then a0\<lparr>HealthTier := HealthTierHealthy, PlanType := ''api''\<rparr> else a0);
          a2 = (setAllowedAPIKeyIDsLocked (GetCredentialInt64Slice r ''allowed_api_key_ids'')
                 (a1\<lparr>ScoreBiasOverride := arScoreBiasOverride r, BaseConcurrencyOverride := arBaseConcurrencyOverride r\<rparr>))
               \<lparr>Tags := arTags r, Locked := arLocked r, DispatchPaused := \<not> arEnabled r, CreditEnabled := arCreditEnabled r,
                CreditSkipUsageWindow := arCreditSkipUsageWindow r, SkipWarmTier := arSkipWarmTier r\<rparr>
      in if arStatus r = ''error'' then a2\<lparr>Status := StatusError, ErrorMsg := arErrorMessage r, HealthTier := HealthTierRisky\<rparr> else a2)"

definition rowTokens :: "rowCodec \<Rightarrow> AccountRow \<Rightarrow> Account \<Rightarrow> Account" where
  "rowTokens e r a0 =
     (let accessToken = GetCredential e r ''access_token'';
          a1 = (if accessToken = [] then a0
                else let b = a0\<lparr>AccessToken := accessToken, AccountID := GetCredential e r ''account_id'', Email := GetCredential e r ''email'',
                           PlanType := GetCredential e r ''plan_type'',
                           HealthTier := (if Status a0 \<noteq> StatusError then HealthTierHealthy else HealthTier a0)\<rparr>;
                         expiry = GetCredential e r ''expires_at''
                     in (case (if expiry = [] then None else rcParseTime e expiry) of Some t \<Rightarrow> b\<lparr>ExpiresAt := t\<rparr> | None \<Rightarrow> b));
          sub = GetCredential e r ''subscription_expires_at'';
          a2 = (case (if sub = [] then None else rcParseTime e sub) of Some t \<Rightarrow> a1\<lparr>SubscriptionExpiresAt := t\<rparr> | None \<Rightarrow> a1)
      in if isQoderRow e r
         then let q = TrimSpace (GetCredential e r ''qoder_base_url'');
                  a3 = (if q \<noteq> [] then a2\<lparr>BaseURL := TrimRight CHR ''/'' q\<rparr> else a2)
              in if AccessToken a3 \<noteq> [] \<and> Status a3 \<noteq> StatusError then a3\<lparr>HealthTier := HealthTierHealthy\<rparr> else a3
         else a2)"

definition rowUsage :: "rowCodec \<Rightarrow> AccountRow \<Rightarrow> Account \<Rightarrow> Account" where
  "rowUsage e r a0 =
     (let timeAt = (\<lambda>key. if GetCredential e r key = [] then None else rcParseTime e (GetCredential e r key));
          numAt = (\<lambda>key. if GetCredential e r key = [] then None else rcParseFloat e (GetCredential e r key));
          a1 = (case numAt ''codex_7d_used_percent'' of
                  None \<Rightarrow> a0
                | Some pct \<Rightarrow>
                    let b = SetUsageSnapshot pct (orKeep (timeAt ''codex_usage_updated_at'') 0) a0
                    in (case timeAt ''codex_7d_reset_at'' of Some t \<Rightarrow> b\<lparr>Reset7dAt := t\<rparr> | None \<Rightarrow> b))
      in case numAt ''codex_5h_used_percent'' of
           None \<Rightarrow> a1
         | Some pct \<Rightarrow> SetUsageSnapshot5h pct (orKeep (timeAt ''codex_5h_reset_at'') 0) a1)"

definition rowThresholds :: "rowCodec \<Rightarrow> AccountRow \<Rightarrow> Account \<Rightarrow> Account" where
  "rowThresholds e r a =
     a\<lparr>AutoPause5hThreshold := (case GetCredentialFloat64 e r ''auto_pause_5h_threshold'' of Some t \<Rightarrow> normalizeQuotaAutoPauseThreshold t | None \<Rightarrow> AutoPause5hThreshold a),
       AutoPause7dThreshold := (case GetCredentialFloat64 e r ''auto_pause_7d_threshold'' of Some t \<Rightarrow> normalizeQuotaAutoPauseThreshold t | None \<Rightarrow> AutoPause7dThreshold a),
       AutoPause5hDisabled := GetCredentialBool r ''auto_pause_5h_disabled'', AutoPause7dDisabled := GetCredentialBool r ''auto_pause_7d_disabled''\<rparr>"

text \<open>
  \<open>cooldowns\<close> are the rows of this account. The record of a past cooldown is cleared in the table by a statement of its own; its failure is logged.
\<close>

definition expiredCooldown :: "time \<Rightarrow> AccountRow \<Rightarrow> bool" where
  "expiredCooldown now r \<longleftrightarrow> (case arCooldownUntil r of None \<Rightarrow> False | Some t \<Rightarrow> \<not> now < t \<and> arCooldownReason r \<noteq> [])"

definition buildAccountFromRow :: "rowCodec \<Rightarrow> time \<Rightarrow> Store \<Rightarrow> modelCooldownRow list \<Rightarrow> AccountRow \<Rightarrow> Account option" where
  "buildAccountFromRow e now s cooldowns r =
     (if \<not> usableRow e r then None
      else let a1 = rowTokens e r (rowIdentity e r);
               a2 = (case arCooldownUntil r of Some t \<Rightarrow> if now < t then SetCooldownUntil t (arCooldownReason r) a1 else a1 | None \<Rightarrow> a1);
               a3 = recomputeEffectiveAutoPause s (rowThresholds e r (rowUsage e r a2));
               a4 = fold (\<lambda>m. RestoreModelCooldown now (mrModel m) (mrReason m) (mrResetAt m) (mrUpdatedAt m)) cooldowns a3
           in Some (recomputeSchedulerLocked now (maxConcurrency s) a4))"

definition clearExpiredCooldown :: "bool \<Rightarrow> time \<Rightarrow> AccountRow \<Rightarrow> AccountDB \<Rightarrow> AccountDB" where
  "clearExpiredCooldown up now r d = (if expiredCooldown now r then fst (dbClearCooldown up now (arID r) d) else d)"

subsection \<open>Loading\<close>

text \<open>New accounts get the addresses of the list \<open>ps\<close>, which has one for each row and none that is in use.\<close>

fun loadRows :: "rowCodec \<Rightarrow> bool \<Rightarrow> time \<Rightarrow> (int \<Rightarrow> modelCooldownRow list) \<Rightarrow> (ptr \<times> AccountRow) list \<Rightarrow> AccountDB \<times> Store \<Rightarrow> AccountDB \<times> Store" where
  "loadRows e up now cooldowns [] ds = ds"
| "loadRows e up now cooldowns ((p, r) # rs) (d, s) =
     (case buildAccountFromRow e now s (cooldowns (arID r)) r of
        None \<Rightarrow> loadRows e up now cooldowns rs (d, s)
      | Some a \<Rightarrow> loadRows e up now cooldowns rs (clearExpiredCooldown up now r d, s\<lparr>heap := (heap s)(p \<mapsto> a), accounts := accounts s @ [p]\<rparr>))"

definition ListAccountGroupMemberships :: "AccountDB \<Rightarrow> int \<Rightarrow> int list" where
  "ListAccountGroupMemberships d i = sort (map snd (filter (\<lambda>m. fst m = i) (adMembers d)))"

definition loadGroupThresholds :: "AccountGroup list \<Rightarrow> Store \<Rightarrow> Store" where
  "loadGroupThresholds groups s =
     fold (\<lambda>g s. if grThreshold5h g > 0 \<or> grThreshold7d g > 0
                 then s\<lparr>groupAutoPauseThresholds := (groupAutoPauseThresholds s)(grID g \<mapsto> (grThreshold5h g, grThreshold7d g))\<rparr> else s) groups s"

text \<open>\<open>up\<close> holds for all statements of the load; a failing first query ends the start-up.\<close>

definition loadFromDB :: "rowCodec \<Rightarrow> bool \<Rightarrow> time \<Rightarrow> ptr list \<Rightarrow> apiKeyTable \<Rightarrow> AccountDB \<times> Store \<Rightarrow> (AccountDB \<times> Store) option" where
  "loadFromDB e up now ps keys ds =
     (case ListActive up (fst ds) of
        DBOk rows \<Rightarrow>
          let cds = (case ListActiveModelCooldowns up now (fst ds) of DBOk ms \<Rightarrow> ms | _ \<Rightarrow> []);
              d1 = fst (ClearExpiredModelCooldowns up now (fst ds));
              (d2, s2) = loadRows e up now (\<lambda>i. filter (\<lambda>m. mrAccountID m = i) cds) (zip ps rows) (d1, snd ds);
              s3 = loadGroupThresholds (adGroups d2) (rebuildAccountIndex s2);
              s4 = ApplyAccountGroupMemberships now (\<lambda>i. Some (ListAccountGroupMemberships d2 i)) s3
          in Some (d2, LoadAPIKeyAllowedGroups now
               (case ListAPIKeys up keys of DBOk ks \<Rightarrow> Some (map (\<lambda>k. (rowID k, AllowedGroupIDs k)) ks) | _ \<Rightarrow> None) s4)
      | _ \<Rightarrow> None)"

definition LoadAccountByID :: "rowCodec \<Rightarrow> bool \<Rightarrow> time \<Rightarrow> ptr \<Rightarrow> int \<Rightarrow> AccountDB \<times> Store \<Rightarrow> (AccountDB \<times> Store) \<times> bool" where
  "LoadAccountByID e up now p i ds =
     (let (d, s) = ds
      in if FindByID i s \<noteq> None then (ds, True)
         else case getAccountByID up False i d of
           DBOk r \<Rightarrow>
             (case buildAccountFromRow e now s [] r of
                None \<Rightarrow> (ds, False)
              | Some a \<Rightarrow> ((clearExpiredCooldown up now r d, AddAccount now p a s), True))
         | _ \<Rightarrow> (ds, False))"

subsection \<open>Reports that reach the table\<close>

text \<open>
  The reports about an account change the account of theory \<open>Store\<close>, then its row. The account is the one the caller holds, which may have left the pool
  meanwhile. A failing statement is logged.
\<close>

definition rowOf :: "ptr \<Rightarrow> Store \<Rightarrow> (int \<Rightarrow> AccountDB \<Rightarrow> AccountDB \<times> unit dbResult) \<Rightarrow> AccountDB \<Rightarrow> AccountDB" where
  "rowOf p s stmt d = (case heap s p of None \<Rightarrow> d | Some acc \<Rightarrow> fst (stmt (DBID acc) d))"

definition MarkErrorPersisted :: "bool \<Rightarrow> time \<Rightarrow> ptr \<Rightarrow> string \<Rightarrow> string \<Rightarrow> AccountDB \<times> Store \<Rightarrow> AccountDB \<times> Store" where
  "MarkErrorPersisted up now p fallback errorMsg ds =
     (rowOf p (snd ds) (\<lambda>i. SetError up now i (normalizeAccountErrorMessage errorMsg fallback)) (fst ds), MarkError now p fallback errorMsg (snd ds))"

definition ClearCooldownPersisted :: "bool \<Rightarrow> time \<Rightarrow> ptr \<Rightarrow> AccountDB \<times> Store \<Rightarrow> AccountDB \<times> Store" where
  "ClearCooldownPersisted up now p ds = (rowOf p (snd ds) (ClearError up now) (fst ds), ClearCooldown now p (snd ds))"

definition RecordManualTestSuccessPersisted :: "bool \<Rightarrow> time \<Rightarrow> ptr \<Rightarrow> duration \<Rightarrow> AccountDB \<times> Store \<Rightarrow> AccountDB \<times> Store" where
  "RecordManualTestSuccessPersisted up now p latency ds = (rowOf p (snd ds) (ClearError up now) (fst ds), RecordManualTestSuccess now p latency (snd ds))"

definition markCooldownPersisted :: "bool \<Rightarrow> time \<Rightarrow> ptr \<Rightarrow> duration \<Rightarrow> string \<Rightarrow> string \<Rightarrow> AccountDB \<times> Store \<Rightarrow> AccountDB \<times> Store" where
  "markCooldownPersisted up now p d reason errorMsg0 ds =
     (case heap (snd ds) p of
        None \<Rightarrow> ds
      | Some acc \<Rightarrow>
          let errorMsg = normalizeAccountErrorMessage errorMsg0 [];
              until = snd (markCooldownAccount now (maxConcurrency (snd ds)) d reason errorMsg0 acc)
          in (fst (if errorMsg \<noteq> [] then SetCooldownWithError up now (DBID acc) reason until errorMsg (fst ds)
                   else SetCooldown up now (DBID acc) reason until (fst ds)),
              markCooldown now p d reason errorMsg0 (snd ds)))"

end
