(* ===== verification/AccountAdmin.thy ===== *)
theory AccountAdmin
  imports AccountTable "HOL-Library.Monad_Syntax"
begin

section \<open>Administration of accounts and groups\<close>

text \<open>
  Models the groups of accounts (\<open>admin/account_groups.go\<close>, \<open>database/account_groups.go\<close>) and of \<open>admin/handler.go\<close> the scheduling
  options of an account, its switches and the recycle bin. A handler changes the tables, then the store that serves requests.

  \<open>opUp\<close> tells whether the statement of a handler is executed and \<open>opKeysUp\<close> whether the list of keys can be read. A reply is its HTTP status. Fields of requests
  arrive decoded as in theory \<open>ApiKeyAuth\<close>; \<open>opParseURL\<close> and \<open>opBareURL\<close> stand for \<open>net/url\<close>: scheme and host of a URL, and
  its text without query, fragment and slashes at the end.
\<close>

record opEnv =
  opNow :: time
  opUp :: bool
  opKeysUp :: bool
  opPtr :: ptr
  opCodec :: rowCodec
  opParseURL :: "string \<Rightarrow> (string \<times> string) option"
  opBareURL :: "string \<Rightarrow> string"

record AdminWorld =
  awDB :: AccountDB
  awKeys :: apiKeyTable
  awStore :: Store
  awEvents :: "(int \<times> string \<times> string) list"

definition onWorldStore :: "(Store \<Rightarrow> Store) \<Rightarrow> AdminWorld \<Rightarrow> AdminWorld" where
  "onWorldStore f w = w\<lparr>awStore := f (awStore w)\<rparr>"

definition statusOf :: "'a dbResult \<Rightarrow> int" where
  "statusOf r = (case r of DBOk _ \<Rightarrow> 200 | ErrNoRows \<Rightarrow> 404 | DBError \<Rightarrow> 500)"

subsection \<open>Groups in the database\<close>

datatype groupError = DuplicateGroupName | GroupNotEmpty | GroupNoRows | GroupDBError

definition dbCreateAccountGroup ::
  "bool \<Rightarrow> string \<Rightarrow> string \<Rightarrow> string \<Rightarrow> float64 \<Rightarrow> float64 \<Rightarrow> int \<Rightarrow> AccountDB \<Rightarrow> AccountDB \<times> (groupError + int)" where
  "dbCreateAccountGroup up name0 description color t5h t7d order d =
     (let name = TrimSpace name0
      in if name = [] \<or> \<not> up then (d, Inl GroupDBError)
         else if list_ex (\<lambda>g. grName g = name) (adGroups d) then (d, Inl DuplicateGroupName)
         else (d\<lparr>adGroups := adGroups d @ [\<lparr>grID = adNextGroupID d, grName = name, grDescription = description, grColor = color,
                    grSortOrder = order, grThreshold5h = t5h, grThreshold7d = t7d\<rparr>],
                 adNextGroupID := adNextGroupID d + 1\<rparr>, Inr (adNextGroupID d)))"

record updateGroupArgs =
  ugName :: "string option"
  ugDescription :: "string option"
  ugColor :: "string option"
  ugSortOrder :: "int option"
  ugThreshold5h :: "float64 option"
  ugThreshold7d :: "float64 option"

definition updatedGroup :: "updateGroupArgs \<Rightarrow> AccountGroup \<Rightarrow> AccountGroup" where
  "updatedGroup u g =
     g\<lparr>grName := (case ugName u of Some n \<Rightarrow> TrimSpace n | None \<Rightarrow> grName g), grDescription := orKeep (ugDescription u) (grDescription g),
       grColor := orKeep (ugColor u) (grColor g), grSortOrder := orKeep (ugSortOrder u) (grSortOrder g),
       grThreshold5h := orKeep (ugThreshold5h u) (grThreshold5h g), grThreshold7d := orKeep (ugThreshold7d u) (grThreshold7d g)\<rparr>"

definition dbUpdateAccountGroup :: "bool \<Rightarrow> int \<Rightarrow> updateGroupArgs \<Rightarrow> AccountDB \<Rightarrow> AccountDB \<times> (groupError + unit)" where
  "dbUpdateAccountGroup up i u d =
     (if (case ugName u of Some n \<Rightarrow> TrimSpace n = [] | None \<Rightarrow> False) then (d, Inl GroupDBError)
      else if ugName u = None \<and> ugDescription u = None \<and> ugColor u = None \<and> ugSortOrder u = None \<and> ugThreshold5h u = None \<and> ugThreshold7d u = None
      then (d, Inr ())
      else if \<not> up then (d, Inl GroupDBError)
      else if \<not> list_ex (\<lambda>g. grID g = i) (adGroups d) then (d, Inl GroupNoRows)
      else if (case ugName u of Some n \<Rightarrow> list_ex (\<lambda>g. grID g \<noteq> i \<and> grName g = TrimSpace n) (adGroups d) | None \<Rightarrow> False)
      then (d, Inl DuplicateGroupName)
      else (d\<lparr>adGroups := map (\<lambda>g. if grID g = i then updatedGroup u g else g) (adGroups d)\<rparr>, Inr ()))"

definition removeInt64 :: "int list \<Rightarrow> int \<Rightarrow> int list" where
  "removeInt64 xs target = filter (\<lambda>v. v \<noteq> target) xs"

definition prunedGroups :: "int \<Rightarrow> int list \<Rightarrow> int list" where
  "prunedGroups groupID groups =
     (if groupID \<notin> set groups then groups
      else let next = removeInt64 groups groupID in if next = [] \<and> groups \<noteq> [] then groups else next)"

definition pruneDeletedGroupFromAPIKeyScopes :: "int \<Rightarrow> apiKeyTable \<Rightarrow> apiKeyTable" where
  "pruneDeletedGroupFromAPIKeyScopes groupID k =
     k\<lparr>keyRows := map (\<lambda>r. r\<lparr>AllowedGroupIDs := prunedGroups groupID (AllowedGroupIDs r)\<rparr>) (keyRows k)\<rparr>"

definition memberCount :: "int \<Rightarrow> AccountDB \<Rightarrow> nat" where
  "memberCount i d = length (filter (\<lambda>m. snd m = i \<and> list_ex (\<lambda>r. arID r = fst m \<and> \<not> isDeleted r) (adRows d)) (adMembers d))"

text \<open>One transaction on both tables: an error leaves everything as it was.\<close>

definition dbDeleteAccountGroup :: "bool \<Rightarrow> int \<Rightarrow> bool \<Rightarrow> AccountDB \<times> apiKeyTable \<Rightarrow> (AccountDB \<times> apiKeyTable) \<times> (groupError + unit)" where
  "dbDeleteAccountGroup up i force dk =
     (let (d, k) = dk
      in if \<not> up then (dk, Inl GroupDBError)
         else if memberCount i d > 0 \<and> \<not> force then (dk, Inl GroupNotEmpty)
         else if \<not> list_ex (\<lambda>g. grID g = i) (adGroups d) then (dk, Inl GroupNoRows)
         else ((d\<lparr>adMembers := filter (\<lambda>m. snd m \<noteq> i) (adMembers d), adGroups := filter (\<lambda>g. grID g \<noteq> i) (adGroups d)\<rparr>,
                pruneDeletedGroupFromAPIKeyScopes i k), Inr ()))"

definition SetAccountGroups :: "int \<Rightarrow> int list \<Rightarrow> AccountDB \<Rightarrow> AccountDB" where
  "SetAccountGroups i groupIDs d =
     d\<lparr>adMembers := filter (\<lambda>m. fst m \<noteq> i) (adMembers d) @ map (\<lambda>g. (i, g)) (dedupPositive [] groupIDs)\<rparr>"

subsection \<open>Handlers of groups\<close>

definition sanitizeAccountGroupName :: "string \<Rightarrow> string option" where
  "sanitizeAccountGroupName raw =
     (let name = TrimSpace raw
      in if name = [] \<or> RuneCountInString name > 80 \<or> list_ex (\<lambda>c. byteOf c < 32 \<or> byteOf c = 127) name then None else Some name)"

definition ratioOK :: "float64 \<Rightarrow> bool" where
  "ratioOK v \<longleftrightarrow> \<not> (v < 0 \<or> v > 1)"

record createAccountGroupReq =
  cgName :: string
  cgDescription :: string
  cgColor :: string
  cgSortOrder :: "int option"
  cgThreshold5h :: float64
  cgThreshold7d :: float64

definition CreateAccountGroup :: "opEnv \<Rightarrow> createAccountGroupReq option \<Rightarrow> AdminWorld \<Rightarrow> AdminWorld \<times> int" where
  "CreateAccountGroup e body w =
     (case body of
        None \<Rightarrow> (w, 400)
      | Some req \<Rightarrow>
          (case sanitizeAccountGroupName (cgName req) of
             None \<Rightarrow> (w, 400)
           | Some name \<Rightarrow>
               let description = TrimSpace (cgDescription req); color = TrimSpace (cgColor req)
               in if RuneCountInString description > 240 \<or> RuneCountInString color > 20 then (w, 400)
                  else if \<not> ratioOK (cgThreshold5h req) \<or> \<not> ratioOK (cgThreshold7d req) then (w, 400)
                  else if \<not> opUp e then (w, 500)
                  else if length (adGroups (awDB w)) \<ge> 64 then (w, 400)
                  else case dbCreateAccountGroup (opUp e) name description color (cgThreshold5h req) (cgThreshold7d req) (orKeep (cgSortOrder req) 0) (awDB w) of
                    (d, Inr i) \<Rightarrow>
                      (let w' = w\<lparr>awDB := d\<rparr>
                       in (if cgThreshold5h req > 0 \<or> cgThreshold7d req > 0
                           then onWorldStore (SetGroupAutoPauseThresholds i (cgThreshold5h req) (cgThreshold7d req)) w' else w', 200))
                  | (_, Inl DuplicateGroupName) \<Rightarrow> (w, 409)
                  | (_, Inl _) \<Rightarrow> (w, 500)))"

definition sanitizedArgs :: "updateGroupArgs \<Rightarrow> updateGroupArgs option" where
  "sanitizedArgs u =
     (case (case ugName u of None \<Rightarrow> Some None | Some n \<Rightarrow> map_option Some (sanitizeAccountGroupName n)) of
        None \<Rightarrow> None
      | Some name \<Rightarrow>
          if (case ugDescription u of Some t \<Rightarrow> RuneCountInString (TrimSpace t) > 240 | None \<Rightarrow> False) \<or>
             (case ugColor u of Some t \<Rightarrow> RuneCountInString (TrimSpace t) > 20 | None \<Rightarrow> False) \<or>
             (case ugThreshold5h u of Some t \<Rightarrow> \<not> ratioOK t | None \<Rightarrow> False) \<or> (case ugThreshold7d u of Some t \<Rightarrow> \<not> ratioOK t | None \<Rightarrow> False)
          then None
          else Some (u\<lparr>ugName := name, ugDescription := map_option TrimSpace (ugDescription u), ugColor := map_option TrimSpace (ugColor u)\<rparr>))"

definition UpdateAccountGroup :: "opEnv \<Rightarrow> int \<Rightarrow> updateGroupArgs option \<Rightarrow> AdminWorld \<Rightarrow> AdminWorld \<times> int" where
  "UpdateAccountGroup e i body w =
     (case Option.bind body sanitizedArgs of
        None \<Rightarrow> (w, 400)
      | Some u \<Rightarrow>
          (case dbUpdateAccountGroup (opUp e) i u (awDB w) of
             (_, Inl GroupNoRows) \<Rightarrow> (w, 404)
           | (_, Inl DuplicateGroupName) \<Rightarrow> (w, 409)
           | (_, Inl _) \<Rightarrow> (w, 500)
           | (d, Inr _) \<Rightarrow>
               (let w' = w\<lparr>awDB := d\<rparr>; (t5h, t7d) = getGroupAutoPauseThresholds i (awStore w)
                in (if ugThreshold5h u = None \<and> ugThreshold7d u = None then w'
                    else onWorldStore (SetGroupAutoPauseThresholds i (orKeep (ugThreshold5h u) t5h) (orKeep (ugThreshold7d u) t7d)) w', 200))))"

definition dropGroupFromAccounts :: "time \<Rightarrow> int \<Rightarrow> Store \<Rightarrow> Store" where
  "dropGroupFromAccounts now i s0 =
     fold (\<lambda>p s. case heap s p of None \<Rightarrow> s | Some acc \<Rightarrow> fst (ApplyAccountGroups now (DBID acc) (removeInt64 (GroupIDs acc) i) s)) (accounts s0) s0"

definition refreshAPIKeyAllowedGroupsAfterGroupDelete :: "time \<Rightarrow> bool \<Rightarrow> int \<Rightarrow> apiKeyTable \<Rightarrow> Store \<Rightarrow> Store" where
  "refreshAPIKeyAllowedGroupsAfterGroupDelete now up groupID k s =
     (if groupID \<le> 0 then s
      else case ListAPIKeys up k of
        DBOk keys \<Rightarrow> fold (\<lambda>r s. invalidateAPIKeyRuntimeCaches (rowKey r) (SetAPIKeyAllowedGroups now (rowID r) (AllowedGroupIDs r) s)) keys s
      | _ \<Rightarrow> s)"

definition DeleteAccountGroup :: "opEnv \<Rightarrow> int \<Rightarrow> string \<Rightarrow> AdminWorld \<Rightarrow> AdminWorld \<times> int" where
  "DeleteAccountGroup e i forceParam w =
     (case dbDeleteAccountGroup (opUp e) i (EqualFold forceParam ''true'') (awDB w, awKeys w) of
        (_, Inl GroupNoRows) \<Rightarrow> (w, 404)
      | (_, Inl GroupNotEmpty) \<Rightarrow> (w, 409)
      | (_, Inl _) \<Rightarrow> (w, 500)
      | ((d, k), Inr _) \<Rightarrow>
          (w\<lparr>awDB := d, awKeys := k,
             awStore := refreshAPIKeyAllowedGroupsAfterGroupDelete (opNow e) (opKeysUp e) i k
               (dropGroupFromAccounts (opNow e) i (DeleteGroupAutoPauseThresholds i (awStore w)))\<rparr>, 200))"

subsection \<open>The recycle bin\<close>

definition deleteAccountByID :: "opEnv \<Rightarrow> int \<Rightarrow> AdminWorld \<Rightarrow> AdminWorld \<times> unit dbResult" where
  "deleteAccountByID e i w =
     (case SoftDeleteAccount (opUp e) (opNow e) i (awDB w) of
        (d, DBOk _) \<Rightarrow> (w\<lparr>awDB := d, awStore := RemoveAccount i (awStore w), awEvents := awEvents w @ [(i, ''deleted'', ''manual'')]\<rparr>, DBOk ())
      | (_, r) \<Rightarrow> (w, r))"

definition DeleteAccount :: "opEnv \<Rightarrow> int \<Rightarrow> AdminWorld \<Rightarrow> AdminWorld \<times> int" where
  "DeleteAccount e i w = (let (w', r) = deleteAccountByID e i w in (w', statusOf r))"

text \<open>\<open>cancelled n\<close>: the client has gone before the \<open>n\<close>-th deletion.\<close>

fun runBatchDeleteAccounts :: "(nat \<Rightarrow> opEnv) \<Rightarrow> (nat \<Rightarrow> bool) \<Rightarrow> nat \<Rightarrow> int list \<Rightarrow> AdminWorld \<Rightarrow> AdminWorld \<times> int \<times> int" where
  "runBatchDeleteAccounts e cancelled n [] w = (w, 0, 0)"
| "runBatchDeleteAccounts e cancelled n (i # ids) w =
     (if cancelled n then (w, 0, int (length (i # ids)))
      else case deleteAccountByID (e n) i w of
        (w', DBOk _) \<Rightarrow> (let (w'', s, f) = runBatchDeleteAccounts e cancelled (Suc n) ids w' in (w'', s + 1, f))
      | (w', _) \<Rightarrow> (let (w'', s, f) = runBatchDeleteAccounts e cancelled (Suc n) ids w' in (w'', s, f + 1)))"

definition uniqueAccountIDs :: "int list \<Rightarrow> int list" where
  "uniqueAccountIDs ids = dedupPositive [] ids"

text \<open>An account that cannot be loaded stays restored in the table; the failure is only logged.\<close>

definition restoreAccountByID :: "opEnv \<Rightarrow> int \<Rightarrow> AdminWorld \<Rightarrow> AdminWorld \<times> unit dbResult" where
  "restoreAccountByID e i w =
     (case dbRestoreAccount (opUp e) (opNow e) i (awDB w) of
        (d, DBOk _) \<Rightarrow>
          (let (d', s) = fst (LoadAccountByID (opCodec e) (opUp e) (opNow e) (opPtr e) i (d, awStore w))
           in (w\<lparr>awDB := d', awStore := s, awEvents := awEvents w @ [(i, ''restored'', ''recycle_bin'')]\<rparr>, DBOk ()))
      | (_, r) \<Rightarrow> (w, r))"

definition RestoreAccount :: "opEnv \<Rightarrow> int \<Rightarrow> AdminWorld \<Rightarrow> AdminWorld \<times> int" where
  "RestoreAccount e i w = (let (w', r) = restoreAccountByID e i w in (w', statusOf r))"

definition PurgeAccount :: "opEnv \<Rightarrow> int \<Rightarrow> AdminWorld \<Rightarrow> AdminWorld \<times> int" where
  "PurgeAccount e i w =
     (case dbPurgeAccount (opUp e) i (awDB w) of
        (d, DBOk _) \<Rightarrow> (w\<lparr>awDB := d, awStore := RemoveAccount i (awStore w)\<rparr>, 200)
      | (_, r) \<Rightarrow> (w, statusOf r))"

text \<open>\<open>confirm\<close> is the field of the body, \<open>None\<close> for a body that is no JSON of this form; an absent body is an empty field.\<close>

definition EmptyRecycleBin :: "opEnv \<Rightarrow> string option \<Rightarrow> AdminWorld \<Rightarrow> AdminWorld \<times> int" where
  "EmptyRecycleBin e confirm w =
     (case confirm of
        None \<Rightarrow> (w, 400)
      | Some t \<Rightarrow>
          if TrimSpace t \<noteq> ''EMPTY-RECYCLE-BIN'' then (w, 400)
          else case PurgeDeletedAccounts (opUp e) (awDB w) of
            (d, DBOk _) \<Rightarrow> (w\<lparr>awDB := d\<rparr>, 200)
          | (_, _) \<Rightarrow> (w, 500))"

subsection \<open>Switches of an account\<close>

definition ToggleAccountEnabled :: "opEnv \<Rightarrow> int \<Rightarrow> bool option \<Rightarrow> AdminWorld \<Rightarrow> AdminWorld \<times> int" where
  "ToggleAccountEnabled e i body w =
     (case body of
        None \<Rightarrow> (w, 400)
      | Some enabled \<Rightarrow>
          (case SetAccountEnabled (opUp e) (opNow e) i enabled (awDB w) of
             (d, DBOk _) \<Rightarrow> (onWorldStore (\<lambda>s. fst (ApplyAccountEnabled (opNow e) i enabled s)) (w\<lparr>awDB := d\<rparr>), 200)
           | (_, r) \<Rightarrow> (w, statusOf r)))"

definition ToggleAccountLock :: "opEnv \<Rightarrow> int \<Rightarrow> bool option \<Rightarrow> AdminWorld \<Rightarrow> AdminWorld \<times> int" where
  "ToggleAccountLock e i body w =
     (case body of
        None \<Rightarrow> (w, 400)
      | Some locked \<Rightarrow>
          (case SetAccountLocked (opUp e) i locked (awDB w) of
             (d, DBOk _) \<Rightarrow>
               (onWorldStore (\<lambda>s. case FindByID i s of None \<Rightarrow> s | Some p \<Rightarrow> updAccount p (\<lambda>a. a\<lparr>Locked := locked\<rparr>) s) (w\<lparr>awDB := d\<rparr>), 200)
           | (_, _) \<Rightarrow> (w, 500)))"

definition storeUpdateAccountCredit :: "time \<Rightarrow> int \<Rightarrow> bool option \<Rightarrow> bool option \<Rightarrow> Store \<Rightarrow> Store" where
  "storeUpdateAccountCredit now i credit skip s =
     (case FindByID i s of
        None \<Rightarrow> s
      | Some p \<Rightarrow> fastSchedulerUpdate now p (updAccount p (\<lambda>a. recomputeSchedulerLocked now (maxConcurrency s)
          (a\<lparr>CreditEnabled := orKeep credit (CreditEnabled a), CreditSkipUsageWindow := orKeep skip (CreditSkipUsageWindow a)\<rparr>)) s))"

definition UpdateAccountCredit :: "opEnv \<Rightarrow> int \<Rightarrow> (bool option \<times> bool option) option \<Rightarrow> AdminWorld \<Rightarrow> AdminWorld \<times> int" where
  "UpdateAccountCredit e i body w =
     (case body of
        None \<Rightarrow> (w, 400)
      | Some (credit, skip) \<Rightarrow>
          if FindByID i (awStore w) = None then (w, 404)
          else (case dbUpdateAccountCredit (opUp e) (opNow e) i credit skip (awDB w) of
            (d, DBOk _) \<Rightarrow> (onWorldStore (storeUpdateAccountCredit (opNow e) i credit skip) (w\<lparr>awDB := d\<rparr>), 200)
          | (_, _) \<Rightarrow> (w, 500)))"

subsection \<open>Scheduling options\<close>

record updateAccountSchedulerReq =
  usScoreBiasOverride :: "int jsonField"
  usBaseConcurrencyOverride :: "int jsonField"
  usSkipWarmTier :: "bool jsonField"
  usAllowedAPIKeyIDs :: "int list jsonField"
  usTags :: "string list jsonField"
  usGroupIDs :: "int list jsonField"
  usAutoPause5hThreshold :: "float64 jsonField"
  usAutoPause7dThreshold :: "float64 jsonField"
  usAutoPause5hDisabled :: "bool jsonField"
  usAutoPause7dDisabled :: "bool jsonField"
  usProxyURL :: "string option"
  usBaseURL :: "string option"
  usQoderBaseURL :: "string option"

text \<open>
  The outer option of a parsed field is the error, the next one tells whether the field is set; an integer that is set may be null. All errors
  of a field are answered with 400.
\<close>

definition parseOptionalIntegerField :: "int \<Rightarrow> int \<Rightarrow> int jsonField \<Rightarrow> int option option option" where
  "parseOptionalIntegerField minValue maxValue raw =
     (case raw of
        Missing \<Rightarrow> Some None
      | Null \<Rightarrow> Some (Some None)
      | IllTyped \<Rightarrow> None
      | Value v \<Rightarrow> if v < minValue \<or> v > maxValue then None else Some (Some (Some v)))"

definition parseOptionalBoolField :: "bool jsonField \<Rightarrow> bool option option" where
  "parseOptionalBoolField raw = (case raw of Missing \<Rightarrow> Some None | Null \<Rightarrow> Some (Some False) | IllTyped \<Rightarrow> None | Value b \<Rightarrow> Some (Some b))"

definition parseOptionalRatioField :: "float64 jsonField \<Rightarrow> float64 option option" where
  "parseOptionalRatioField raw =
     (case raw of
        Missing \<Rightarrow> Some None
      | Null \<Rightarrow> Some (Some 0)
      | IllTyped \<Rightarrow> None
      | Value v \<Rightarrow> if v < 0 \<or> v > 1 then None else Some (Some v))"

definition parseOptionalStringSliceField :: "string list jsonField \<Rightarrow> string list option option" where
  "parseOptionalStringSliceField raw =
     (case raw of
        Missing \<Rightarrow> Some None
      | Null \<Rightarrow> Some (Some [])
      | IllTyped \<Rightarrow> None
      | Value vs \<Rightarrow>
          if list_ex (\<lambda>v. RuneCountInString (TrimSpace v) > 40) vs then None
          else let out = dedupFold [] vs in if length out > 32 then None else Some (Some out))"

definition integersOf :: "int list jsonField \<Rightarrow> int list option option" where
  "integersOf raw = (case parseOptionalIntegerSliceField raw of Inl _ \<Rightarrow> None | Inr v \<Rightarrow> Some v)"

record schedulerUpdate =
  suScoreBias :: "int option option"
  suBaseConcurrency :: "int option option"
  suSkipWarm :: "bool option"
  suAllowedKeys :: "int list option"
  suTags :: "string list option"
  suGroupIDs :: "int list option"
  suThreshold5h :: "float64 option"
  suThreshold7d :: "float64 option"
  suDisabled5h :: "bool option"
  suDisabled7d :: "bool option"

definition parseSchedulerReq :: "updateAccountSchedulerReq \<Rightarrow> schedulerUpdate option" where
  "parseSchedulerReq req =
     do { score \<leftarrow> parseOptionalIntegerField (-200) 200 (usScoreBiasOverride req);
          concurrency \<leftarrow> parseOptionalIntegerField 1 50 (usBaseConcurrencyOverride req);
          skipWarm \<leftarrow> parseOptionalBoolField (usSkipWarmTier req);
          keys \<leftarrow> integersOf (usAllowedAPIKeyIDs req);
          tags \<leftarrow> parseOptionalStringSliceField (usTags req);
          groups \<leftarrow> integersOf (usGroupIDs req);
          t5h \<leftarrow> parseOptionalRatioField (usAutoPause5hThreshold req);
          t7d \<leftarrow> parseOptionalRatioField (usAutoPause7dThreshold req);
          d5h \<leftarrow> parseOptionalBoolField (usAutoPause5hDisabled req);
          d7d \<leftarrow> parseOptionalBoolField (usAutoPause7dDisabled req);
          Some \<lparr>suScoreBias = score, suBaseConcurrency = concurrency, suSkipWarm = skipWarm, suAllowedKeys = keys, suTags = tags,
            suGroupIDs = groups, suThreshold5h = t5h, suThreshold7d = t7d, suDisabled5h = d5h, suDisabled7d = d7d\<rparr> }"

definition findMissingAPIKeyIDs :: "bool \<Rightarrow> int list \<Rightarrow> apiKeyTable \<Rightarrow> int list dbResult" where
  "findMissingAPIKeyIDs up ids k =
     (if ids = [] then DBOk []
      else case ListAPIKeys up k of
        DBOk keys \<Rightarrow> DBOk (filter (\<lambda>i. i \<notin> set (map rowID keys)) ids)
      | _ \<Rightarrow> DBError)"

definition NormalizeQoderBaseURL :: "opEnv \<Rightarrow> string \<Rightarrow> string option" where
  "NormalizeQoderBaseURL e raw0 =
     (let raw = TrimSpace raw0
      in if raw = [] then Some []
         else case opParseURL e raw of
           None \<Rightarrow> None
         | Some (scheme, host) \<Rightarrow>
             if scheme = [] \<or> host = [] then None
             else if ToLower scheme \<in> {''http'', ''https''} then Some (opBareURL e raw) else None)"

fun normalizeOptionalQoderBaseURLPtr :: "opEnv \<Rightarrow> string option list \<Rightarrow> string option" where
  "normalizeOptionalQoderBaseURLPtr e [] = Some []"
| "normalizeOptionalQoderBaseURLPtr e (None # vs) = normalizeOptionalQoderBaseURLPtr e vs"
| "normalizeOptionalQoderBaseURLPtr e (Some v # vs) =
     (if TrimSpace v = [] then normalizeOptionalQoderBaseURLPtr e vs else NormalizeQoderBaseURL e v)"

definition setCredential :: "string \<Rightarrow> credential option \<Rightarrow> credentials \<Rightarrow> credentials" where
  "setCredential key v m = (case v of None \<Rightarrow> m | Some c \<Rightarrow> m(key \<mapsto> c))"

definition credentialUpdates :: "schedulerUpdate \<Rightarrow> string option \<Rightarrow> credentials" where
  "credentialUpdates u baseURL =
     setCredential ''base_url'' (map_option CrString baseURL)
       (setCredential ''auto_pause_7d_disabled'' (map_option CrBool (suDisabled7d u))
         (setCredential ''auto_pause_5h_disabled'' (map_option CrBool (suDisabled5h u))
           (setCredential ''auto_pause_7d_threshold'' (map_option CrNumber (suThreshold7d u))
             (setCredential ''auto_pause_5h_threshold'' (map_option CrNumber (suThreshold5h u)) Map.empty))))"

definition numbers :: "int list \<Rightarrow> credential" where
  "numbers vs = CrArray (map (\<lambda>v. CrNumber (real_of_int v)) vs)"

definition updatedRow :: "time \<Rightarrow> schedulerUpdate \<Rightarrow> string option \<Rightarrow> credentials \<Rightarrow> AccountRow \<Rightarrow> AccountRow" where
  "updatedRow now u proxyURL creds0 r =
     (let creds = setCredential ''allowed_api_key_ids'' (map_option (\<lambda>vs. numbers (normalizePositiveInt64Slice vs)) (suAllowedKeys u)) creds0
      in if suScoreBias u = None \<and> suBaseConcurrency u = None \<and> suSkipWarm u = None \<and> suTags u = None \<and> proxyURL = None \<and> creds = Map.empty
         then r
         else r\<lparr>arScoreBiasOverride := orKeep (suScoreBias u) (arScoreBiasOverride r),
                arBaseConcurrencyOverride := orKeep (suBaseConcurrency u) (arBaseConcurrencyOverride r),
                arSkipWarmTier := orKeep (suSkipWarm u) (arSkipWarmTier r), arTags := orKeep (suTags u) (arTags r),
                arProxyURL := (case proxyURL of None \<Rightarrow> arProxyURL r | Some t \<Rightarrow> TrimSpace t),
                arCredentials := mergeCredentialMaps (arCredentials r) creds, arUpdatedAt := now\<rparr>)"

text \<open>One transaction: the row, then the memberships.\<close>

definition UpdateAccountSchedulerMetadata ::
  "bool \<Rightarrow> time \<Rightarrow> int \<Rightarrow> schedulerUpdate \<Rightarrow> string option \<Rightarrow> credentials \<Rightarrow> AccountDB \<Rightarrow> AccountDB \<times> unit dbResult" where
  "UpdateAccountSchedulerMetadata up now i u proxyURL creds d =
     (if \<not> up then (d, DBError)
      else if \<not> affectedRows (\<lambda>r. arID r = i \<and> \<not> isDeleted r) d then (d, ErrNoRows)
      else let d1 = updateWhere (\<lambda>r. arID r = i) (updatedRow now u proxyURL creds) d
           in (case suGroupIDs u of None \<Rightarrow> d1 | Some gs \<Rightarrow> SetAccountGroups i gs d1, DBOk ()))"

text \<open>The store, after the transaction.\<close>

definition accountByID :: "int \<Rightarrow> Store \<Rightarrow> Account option" where
  "accountByID i s = Option.bind (FindByID i s) (heap s)"

definition applyOverrides :: "time \<Rightarrow> int \<Rightarrow> schedulerUpdate \<Rightarrow> Store \<Rightarrow> Store" where
  "applyOverrides now i u s =
     (if suScoreBias u = None \<and> suBaseConcurrency u = None \<and> suSkipWarm u = None then s
      else let current = accountByID i s;
               score = orKeep (suScoreBias u) (Option.bind current ScoreBiasOverride);
               concurrency = orKeep (suBaseConcurrency u) (Option.bind current BaseConcurrencyOverride);
               skipWarm = (case suSkipWarm u of Some b \<Rightarrow> Some b | None \<Rightarrow> map_option SkipWarmTier current)
           in fst (ApplyAccountSchedulerOverrides now i score concurrency skipWarm s))"

definition ApplyAccountQuotaAutoPauseConfig ::
  "time \<Rightarrow> int \<Rightarrow> float64 option \<Rightarrow> float64 option \<Rightarrow> bool option \<Rightarrow> bool option \<Rightarrow> Store \<Rightarrow> Store" where
  "ApplyAccountQuotaAutoPauseConfig now i threshold5h threshold7d disabled5h disabled7d s =
     (case FindByID i s of
        None \<Rightarrow> s
      | Some p \<Rightarrow>
          fastSchedulerUpdate now p (updAccount p (\<lambda>a. recomputeSchedulerLocked now (maxConcurrency s) (recomputeEffectiveAutoPause s
            (a\<lparr>AutoPause5hThreshold := orKeep (map_option normalizeQuotaAutoPauseThreshold threshold5h) (AutoPause5hThreshold a),
               AutoPause7dThreshold := orKeep (map_option normalizeQuotaAutoPauseThreshold threshold7d) (AutoPause7dThreshold a),
               AutoPause5hDisabled := orKeep disabled5h (AutoPause5hDisabled a), AutoPause7dDisabled := orKeep disabled7d (AutoPause7dDisabled a)\<rparr>))) s))"

definition onAccountID :: "int \<Rightarrow> (Account \<Rightarrow> Account) \<Rightarrow> Store \<Rightarrow> Store" where
  "onAccountID i f s = (case FindByID i s of None \<Rightarrow> s | Some p \<Rightarrow> updAccount p f s)"

definition ApplyAccountTags :: "int \<Rightarrow> string list \<Rightarrow> Store \<Rightarrow> Store" where
  "ApplyAccountTags i tags = onAccountID i (\<lambda>a. a\<lparr>Tags := tags\<rparr>)"

definition ApplyAccountProxyURL :: "int \<Rightarrow> string \<Rightarrow> Store \<Rightarrow> Store" where
  "ApplyAccountProxyURL i proxyURL = onAccountID i (\<lambda>a. a\<lparr>ProxyURL := TrimSpace proxyURL\<rparr>)"

definition ApplyAccountBaseURL :: "int \<Rightarrow> string \<Rightarrow> Store \<Rightarrow> Store" where
  "ApplyAccountBaseURL i baseURL = onAccountID i (\<lambda>a. a\<lparr>BaseURL := TrimRight CHR ''/'' (TrimSpace baseURL)\<rparr>)"

definition applyQuotaConfig :: "time \<Rightarrow> int \<Rightarrow> schedulerUpdate \<Rightarrow> Store \<Rightarrow> Store" where
  "applyQuotaConfig now i u s =
     (if suThreshold5h u = None \<and> suThreshold7d u = None \<and> suDisabled5h u = None \<and> suDisabled7d u = None then s
      else ApplyAccountQuotaAutoPauseConfig now i (suThreshold5h u) (suThreshold7d u) (suDisabled5h u) (suDisabled7d u) s)"

definition applySchedulerUpdate :: "time \<Rightarrow> int \<Rightarrow> schedulerUpdate \<Rightarrow> string option \<Rightarrow> string option \<Rightarrow> Store \<Rightarrow> Store" where
  "applySchedulerUpdate now i u proxyURL baseURL s =
     whenSet baseURL (ApplyAccountBaseURL i)
       (whenSet proxyURL (ApplyAccountProxyURL i)
         (whenSet (suGroupIDs u) (\<lambda>gs s. fst (ApplyAccountGroups now i gs s))
           (whenSet (suTags u) (ApplyAccountTags i)
             (applyQuotaConfig now i u
               (whenSet (suAllowedKeys u) (\<lambda>ids s. fst (ApplyAccountAllowedAPIKeys now i ids s)) (applyOverrides now i u s))))))"

definition referencesExist :: "opEnv \<Rightarrow> schedulerUpdate \<Rightarrow> AdminWorld \<Rightarrow> int" where
  "referencesExist e u w =
     (case (case suAllowedKeys u of None \<Rightarrow> DBOk [] | Some ids \<Rightarrow> findMissingAPIKeyIDs (opKeysUp e) ids (awKeys w)) of
        DBOk [] \<Rightarrow>
          (case (case suGroupIDs u of None \<Rightarrow> DBOk [] | Some ids \<Rightarrow> VerifyAccountGroupIDs (opUp e) (grID ` set (adGroups (awDB w))) ids) of
             DBOk [] \<Rightarrow> 200
           | DBOk _ \<Rightarrow> 400
           | _ \<Rightarrow> 500)
      | DBOk _ \<Rightarrow> 400
      | _ \<Rightarrow> 500)"

definition requestedBaseURL :: "opEnv \<Rightarrow> updateAccountSchedulerReq \<Rightarrow> string option option" where
  "requestedBaseURL e req =
     (if usBaseURL req = None \<and> usQoderBaseURL req = None then Some None
      else map_option Some (normalizeOptionalQoderBaseURLPtr e [usBaseURL req, usQoderBaseURL req]))"

definition UpdateAccountScheduler :: "opEnv \<Rightarrow> int \<Rightarrow> updateAccountSchedulerReq option \<Rightarrow> AdminWorld \<Rightarrow> AdminWorld \<times> int" where
  "UpdateAccountScheduler e i body w =
     (case body of
        None \<Rightarrow> (w, 400)
      | Some req \<Rightarrow>
          (case parseSchedulerReq req of
             None \<Rightarrow> (w, 400)
           | Some u \<Rightarrow>
               if referencesExist e u w \<noteq> 200 then (w, referencesExist e u w)
               else case requestedBaseURL e req of
                 None \<Rightarrow> (w, 400)
               | Some baseURL \<Rightarrow>
                   (case UpdateAccountSchedulerMetadata (opUp e) (opNow e) i u (usProxyURL req) (credentialUpdates u baseURL) (awDB w) of
                      (d, DBOk _) \<Rightarrow>
                        (w\<lparr>awDB := d, awStore := applySchedulerUpdate (opNow e) i u (usProxyURL req) baseURL (awStore w)\<rparr>, 200)
                    | (_, r) \<Rightarrow> (w, statusOf r))))"

subsection \<open>Batches and the list of the recycle bin\<close>

text \<open>The reply is the status with the numbers of deleted accounts and of failures; the stream of progress events is left out.\<close>

definition BatchDeleteAccounts :: "(nat \<Rightarrow> opEnv) \<Rightarrow> (nat \<Rightarrow> bool) \<Rightarrow> int list option \<Rightarrow> AdminWorld \<Rightarrow> AdminWorld \<times> int \<times> int \<times> int" where
  "BatchDeleteAccounts e cancelled body w =
     (case body of
        None \<Rightarrow> (w, 400, 0, 0)
      | Some req \<Rightarrow>
          let ids = uniqueAccountIDs req
          in if ids = [] then (w, 400, 0, 0)
             else let (w', success, fail) = runBatchDeleteAccounts e cancelled 0 ids w in (w', 200, success, fail))"

record recycleBinAccountResponse =
  rbID :: int
  rbName :: string
  rbEmail :: string
  rbPlanType :: string
  rbATOnly :: bool
  rbOpenAIResponsesAPI :: bool
  rbBaseURL :: string
  rbModels :: "string list"
  rbCreatedAt :: time
  rbDeletedAt :: "time option"
  rbLastTestStatus :: string
  rbLastTestAt :: string

definition accountBaseURLCredential :: "rowCodec \<Rightarrow> AccountRow \<Rightarrow> string" where
  "accountBaseURLCredential e r =
     (let value = TrimSpace (GetCredential e r ''base_url'')
      in if value \<noteq> [] then value else TrimSpace (GetCredential e r ''qoder_base_url''))"

definition recycleBinResponse :: "rowCodec \<Rightarrow> AccountRow \<Rightarrow> recycleBinAccountResponse" where
  "recycleBinResponse e r =
     (let responses = EqualFold (TrimSpace (GetCredential e r ''upstream_type'')) ''openai_responses'';
          email = GetCredential e r ''email''; planType = GetCredential e r ''plan_type''; baseURL = accountBaseURLCredential e r
      in \<lparr>rbID = arID r, rbName = arName r, rbEmail = (if responses \<and> email = [] then baseURL else email),
          rbPlanType = (if responses \<and> planType = [] then ''api'' else planType),
          rbATOnly = (\<not> responses \<and> GetCredential e r ''refresh_token'' = [] \<and> GetCredential e r ''access_token'' \<noteq> []),
          rbOpenAIResponsesAPI = responses, rbBaseURL = baseURL, rbModels = GetCredentialStringSlice r ''models'', rbCreatedAt = arCreatedAt r,
          rbDeletedAt = (case arDeletedAt r of Some t \<Rightarrow> Some t | None \<Rightarrow> if arUpdatedAt r \<noteq> 0 then Some (arUpdatedAt r) else None),
          rbLastTestStatus = GetCredential e r ''recycle_last_test_status'', rbLastTestAt = GetCredential e r ''recycle_last_test_at''\<rparr>)"

text \<open>\<open>ORDER BY deleted_at DESC, id DESC\<close>; where the engine puts rows without a time of deletion is an argument.\<close>

definition ListDeleted :: "bool \<Rightarrow> (time option \<Rightarrow> time) \<Rightarrow> AccountDB \<Rightarrow> AccountRow list dbResult" where
  "ListDeleted up nulls d =
     (if up then DBOk (sort_key (\<lambda>r. - nulls (arDeletedAt r)) (sort_key (\<lambda>r. - arID r) (filter isDeleted (adRows d)))) else DBError)"

definition ListRecycleBinAccounts :: "opEnv \<Rightarrow> (time option \<Rightarrow> time) \<Rightarrow> AdminWorld \<Rightarrow> recycleBinAccountResponse list option" where
  "ListRecycleBinAccounts e nulls w =
     (case ListDeleted (opUp e) nulls (awDB w) of DBOk rows \<Rightarrow> Some (map (recycleBinResponse (opCodec e)) rows) | _ \<Rightarrow> None)"

end
