(* ===== verification/AccountConfig.thy ===== *)
theory AccountConfig
  imports AccountAdmin StoreInvariant
begin

section \<open>The configuration of an account\<close>

text \<open>
  What an administrator has configured of an account exists twice: in the tables and in the pool that serves requests. This theory
  abstracts both to maps from account IDs to configurations, \<open>tableConfig\<close> and \<open>memConfig\<close>, and gives for each statement and each
  operation of the store its effect on the map. Theory \<open>AccountAdminProps\<close> combines the effects.
\<close>

record accountConfig =
  cfID :: int
  cfScoreBias :: "int option"
  cfBaseConcurrency :: "int option"
  cfSkipWarm :: bool
  cfTags :: "string list"
  cfGroups :: "int list"
  cfKeys :: "int list"
  cfKeySet :: "int set"
  cfThreshold5h :: float64
  cfThreshold7d :: float64
  cfDisabled5h :: bool
  cfDisabled7d :: bool
  cfProxyURL :: string
  cfBaseURL :: string
  cfLocked :: bool
  cfPaused :: bool
  cfCredit :: bool
  cfCreditSkip :: bool

definition account_config :: "Account \<Rightarrow> accountConfig" where
  "account_config a =
     \<lparr>cfID = DBID a, cfScoreBias = ScoreBiasOverride a, cfBaseConcurrency = BaseConcurrencyOverride a, cfSkipWarm = SkipWarmTier a,
      cfTags = Tags a, cfGroups = GroupIDs a, cfKeys = AllowedAPIKeyIDs a, cfKeySet = allowedAPIKeySet a,
      cfThreshold5h = AutoPause5hThreshold a, cfThreshold7d = AutoPause7dThreshold a, cfDisabled5h = AutoPause5hDisabled a,
      cfDisabled7d = AutoPause7dDisabled a, cfProxyURL = ProxyURL a, cfBaseURL = BaseURL a, cfLocked = Locked a, cfPaused = DispatchPaused a,
      cfCredit = CreditEnabled a, cfCreditSkip = CreditSkipUsageWindow a\<rparr>"

definition memConfig :: "Store \<Rightarrow> int \<rightharpoonup> accountConfig" where
  "memConfig s i = map_option account_config (accountByID i s)"

definition rowThreshold :: "rowCodec \<Rightarrow> AccountRow \<Rightarrow> string \<Rightarrow> float64" where
  "rowThreshold e r key = (case GetCredentialFloat64 e r key of Some t \<Rightarrow> normalizeQuotaAutoPauseThreshold t | None \<Rightarrow> 0)"

definition rowBaseURL :: "rowCodec \<Rightarrow> AccountRow \<Rightarrow> string" where
  "rowBaseURL e r =
     (let q = TrimSpace (GetCredential e r ''qoder_base_url'')
      in TrimRight CHR ''/'' (if isQoderRow e r \<and> q \<noteq> [] then q else TrimSpace (GetCredential e r ''base_url'')))"

definition rowConfig :: "rowCodec \<Rightarrow> int list \<Rightarrow> AccountRow \<Rightarrow> accountConfig" where
  "rowConfig e groups r =
     (let keys = normalizeAllowedAPIKeyIDs (GetCredentialInt64Slice r ''allowed_api_key_ids'')
      in \<lparr>cfID = arID r, cfScoreBias = arScoreBiasOverride r, cfBaseConcurrency = arBaseConcurrencyOverride r, cfSkipWarm = arSkipWarmTier r,
          cfTags = arTags r, cfGroups = groups, cfKeys = keys, cfKeySet = set keys,
          cfThreshold5h = rowThreshold e r ''auto_pause_5h_threshold'', cfThreshold7d = rowThreshold e r ''auto_pause_7d_threshold'',
          cfDisabled5h = GetCredentialBool r ''auto_pause_5h_disabled'', cfDisabled7d = GetCredentialBool r ''auto_pause_7d_disabled'',
          cfProxyURL = TrimSpace (arProxyURL r), cfBaseURL = rowBaseURL e r, cfLocked = arLocked r, cfPaused = (\<not> arEnabled r),
          cfCredit = arCreditEnabled r, cfCreditSkip = arCreditSkipUsageWindow r\<rparr>)"

definition activeRow :: "AccountDB \<Rightarrow> int \<rightharpoonup> AccountRow" where
  "activeRow d i = find (\<lambda>r. arID r = i \<and> \<not> isDeleted r) (adRows d)"

definition tableConfig :: "rowCodec \<Rightarrow> AccountDB \<Rightarrow> int \<rightharpoonup> accountConfig" where
  "tableConfig e d i = map_option (rowConfig e (ListAccountGroupMemberships d i)) (activeRow d i)"

definition modAt :: "'a \<Rightarrow> ('b \<Rightarrow> 'b) \<Rightarrow> ('a \<rightharpoonup> 'b) \<Rightarrow> ('a \<rightharpoonup> 'b)" where
  "modAt i g m = m(i := map_option g (m i))"

lemma modAt_id [simp]: "modAt i (\<lambda>c. c) m = m"
  by (auto simp: modAt_def option.map_ident)

lemma modAt_comp: "modAt i g (modAt i f m) = modAt i (\<lambda>c. g (f c)) m"
  by (auto simp: modAt_def option.map_comp comp_def)

lemma modAt_mono: "m \<subseteq>\<^sub>m t \<Longrightarrow> modAt i g m \<subseteq>\<^sub>m modAt i g t"
  by (auto simp: modAt_def map_le_def dom_def)

lemma drop_mono: "m \<subseteq>\<^sub>m t \<Longrightarrow> m(i := None) \<subseteq>\<^sub>m t(i := None)"
  by (auto simp: map_le_def dom_def)

lemma comp_mono: "m \<subseteq>\<^sub>m t \<Longrightarrow> (\<lambda>i. map_option g (m i)) \<subseteq>\<^sub>m (\<lambda>i. map_option g (t i))"
  by (auto simp: map_le_def dom_def)

subsection \<open>What a change of the pool does\<close>

named_theorems config_simps \<open>the configuration after an operation on an account\<close>

lemma config_recompute [config_simps]: "account_config (recomputeSchedulerLocked now b a) = account_config a"
  by (simp add: account_config_def recomputeSchedulerLocked_def Let_def)

lemma config_pause [config_simps]: "account_config (recomputeEffectiveAutoPause s a) = account_config a"
  by (simp add: account_config_def recomputeEffectiveAutoPause_def)

lemma config_snapshot [config_simps]: "account_config (fst (fastSchedulerSnapshot b now a)) = account_config a"
  by (simp add: snapshot_account config_recompute)

lemma cfID_config [simp]: "cfID (account_config a) = DBID a"
  by (simp add: account_config_def)

definition keeps_config :: "account_heap \<Rightarrow> account_heap \<Rightarrow> bool" where
  "keeps_config h h' \<longleftrightarrow> (\<forall>p. map_option account_config (h' p) = map_option account_config (h p))"

lemma keeps_config_refl [simp]: "keeps_config h h"
  by (simp add: keeps_config_def)

lemma keeps_config_trans: "keeps_config h h' \<Longrightarrow> keeps_config h' h'' \<Longrightarrow> keeps_config h h''"
  by (simp add: keeps_config_def)

lemma keeps_config_refreshed: "refreshed b now h h' \<Longrightarrow> keeps_config h h'"
  unfolding keeps_config_def
proof
  fix p assume "refreshed b now h h'"
  from refreshed_cases [OF this, of p] show "map_option account_config (h' p) = map_option account_config (h p)"
    by (auto simp: config_snapshot)
qed

lemma keeps_config_ids:
  assumes "keeps_config h h'"
  shows "map_option DBID (h' p) = map_option DBID (h p)"
proof -
  have "map_option DBID (g p) = map_option cfID (map_option account_config (g p))" for g :: account_heap
    by (simp add: option.map_comp comp_def)
  then show ?thesis using assms by (simp add: keeps_config_def)
qed

text \<open>A store whose list of accounts has distinct IDs and an index that fits it.\<close>

definition ids_ok :: "Store \<Rightarrow> bool" where
  "ids_ok s \<longleftrightarrow> distinct (accountIDs s) \<and> (\<forall>idx. accountsByID s = Some idx \<longrightarrow> indexed (heap s) (accounts s) idx)"

lemma store_ids_ok: "store_ok s \<Longrightarrow> ids_ok s"
  by (simp add: store_ok_def ids_ok_def)

lemma FindByID_iff: "ids_ok s \<Longrightarrow> FindByID i s = Some p \<longleftrightarrow> p \<in> set (accounts s) \<and> map_option DBID (heap s p) = Some i"
  by (auto simp: FindByID_def lookupByIDLocked_def ids_ok_def accountIDs_def indexed_def findAccount_iff split: option.splits)

lemma FindByID_None:
  assumes "ids_ok s"
  shows "FindByID i s = None \<longleftrightarrow> Some i \<notin> set (accountIDs s)"
proof
  assume none: "FindByID i s = None"
  show "Some i \<notin> set (accountIDs s)"
  proof
    assume "Some i \<in> set (accountIDs s)"
    then obtain p where "Some i = map_option DBID (heap s p)" "p \<in> set (accounts s)" unfolding accountIDs_def set_map by (rule imageE)
    then have "FindByID i s = Some p" by (metis FindByID_iff [OF assms])
    with none show False by simp
  qed
next
  assume "Some i \<notin> set (accountIDs s)"
  then have "FindByID i s \<noteq> Some p" for p
    unfolding FindByID_iff [OF assms] accountIDs_def set_map by (metis imageI)
  then show "FindByID i s = None" by blast
qed

lemma memConfig_iff:
  assumes "ids_ok s"
  shows "memConfig s i = Some c \<longleftrightarrow> cfID c = i \<and> (\<exists>p \<in> set (accounts s). map_option account_config (heap s p) = Some c)"
    (is "_ = ?r")
proof -
  have "memConfig s i = Some c \<longleftrightarrow> (\<exists>p a. FindByID i s = Some p \<and> heap s p = Some a \<and> account_config a = c)"
    unfolding memConfig_def accountByID_def by (cases "FindByID i s") (auto split: option.splits)
  then show ?thesis by (auto simp: FindByID_iff [OF assms])
qed

lemma option_eqI: "(\<And>c. x = Some c \<longleftrightarrow> y = Some c) \<Longrightarrow> x = y"
  by (cases x) (auto, metis option.exhaust)

lemma same_pool:
  assumes "ids_ok s" "keeps_config (heap s) (heap s')" "accounts s' = accounts s" "accountsByID s' = accountsByID s"
  shows "ids_ok s'" "memConfig s' = memConfig s"
proof -
  note ids = keeps_config_ids [OF assms(2)]
  show ok: "ids_ok s'" using assms(1) ids by (simp add: ids_ok_def accountIDs_def indexed_def assms(3,4))
  show "memConfig s' = memConfig s"
    using assms by (intro ext option_eqI) (simp add: memConfig_iff ok keeps_config_def)
qed

text \<open>Changing one account, with or without telling the fast scheduler.\<close>

lemma sameIndex [simp]:
  "accounts (updAccount p f s) = accounts s" "accountsByID (updAccount p f s) = accountsByID s"
  "accounts (fastSchedulerUpdate now p s) = accounts s" "accountsByID (fastSchedulerUpdate now p s) = accountsByID s"
  "accounts (rebuildFastScheduler now s) = accounts s" "accountsByID (rebuildFastScheduler now s) = accountsByID s"
  by (simp_all add: updAccount_def fastSchedulerUpdate_def rebuildFastScheduler_def Let_def split: option.split)

lemma upd_heap: "heap (updAccount p f s) = (heap s)(p := map_option f (heap s p))"
  by (simp add: updAccount_def)

lemma fastUpdate_keeps: "keeps_config (heap s) (heap (fastSchedulerUpdate now p s))"
proof -
  have "keeps_config h (fst (Update now p (h, f)))" for h f
  proof (cases "h p")
    case (Some a)
    then show ?thesis using keeps_config_refreshed [OF insertLocked_heap] by (simp add: Update_def)
  qed (simp add: Update_def)
  then show ?thesis by (simp add: fastSchedulerUpdate_def Let_def split: option.split)
qed

lemma rebuildFast_keeps: "keeps_config (heap s) (heap (rebuildFastScheduler now s))"
proof -
  have "keeps_config h (fst (Rebuild now ps (h, f)))" for h f ps
    using conjunct1 [OF collect_fold] by (simp add: Rebuild_def Let_def keeps_config_refreshed [OF conjunct1 [OF collect_fold]])
  then show ?thesis by (simp add: rebuildFastScheduler_def BuildFastScheduler_def Let_def)
qed

lemma upd_config:
  assumes ok: "ids_ok s" and p: "FindByID i s = Some p"
    and f: "\<And>a. account_config (f a) = g (account_config a)" and g: "\<And>c. cfID (g c) = cfID c"
  shows "ids_ok (updAccount p f s)" "memConfig (updAccount p f s) = modAt i g (memConfig s)"
proof -
  let ?s = "updAccount p f s"
  have id: "DBID (f a) = DBID a" for a using f [of a] g [of "account_config a"] by (metis cfID_config)
  have ids: "map_option DBID (heap ?s q) = map_option DBID (heap s q)" for q
    by (simp add: upd_heap option.map_comp comp_def id)
  show ok': "ids_ok ?s" using ok ids by (simp add: ids_ok_def accountIDs_def indexed_def)
  have find: "FindByID j ?s = FindByID j s" for j
    by (rule option_eqI) (simp add: FindByID_iff ok ok' ids)
  have "memConfig ?s j = modAt i g (memConfig s) j" for j
  proof (cases "j = i")
    case True
    then show ?thesis by (simp add: memConfig_def accountByID_def find p upd_heap modAt_def option.map_comp comp_def f)
  next
    case False
    then have "FindByID j s \<noteq> Some p" using p by (auto simp: FindByID_iff [OF ok])
    then have "Option.bind (FindByID j s) (heap ?s) = Option.bind (FindByID j s) (heap s)"
      by (cases "FindByID j s") (auto simp: upd_heap)
    then show ?thesis using False by (simp add: memConfig_def accountByID_def find modAt_def)
  qed
  then show "memConfig ?s = modAt i g (memConfig s)" by blast
qed

lemma memConfig_None: "FindByID i s = None \<Longrightarrow> memConfig s i = None"
  by (simp add: memConfig_def accountByID_def)

lemma modAt_None: "m i = None \<Longrightarrow> modAt i g m = m"
  by (auto simp: modAt_def)

lemma onID_upd:
  assumes "ids_ok s" "\<And>a. account_config (f a) = g (account_config a)" "\<And>c. cfID (g c) = cfID c"
  shows "memConfig (case FindByID i s of None \<Rightarrow> s | Some p \<Rightarrow> updAccount p f s) = modAt i g (memConfig s)"
  using upd_config [OF assms(1) _ assms(2,3)] by (cases "FindByID i s") (simp_all add: modAt_None memConfig_None)

lemma onID_fast:
  assumes "ids_ok s" "\<And>a. account_config (f a) = g (account_config a)" "\<And>c. cfID (g c) = cfID c"
  shows "memConfig (case FindByID i s of None \<Rightarrow> s | Some p \<Rightarrow> fastSchedulerUpdate now p (updAccount p f s)) = modAt i g (memConfig s)"
proof (cases "FindByID i s")
  case (Some p)
  note u = upd_config [OF assms(1) Some assms(2,3)]
  show ?thesis using Some u same_pool(2) [OF u(1) fastUpdate_keeps] by simp
qed (simp add: modAt_None memConfig_None)

lemma fst_case: "fst (case x of None \<Rightarrow> (s, False) | Some p \<Rightarrow> (f p, True)) = (case x of None \<Rightarrow> s | Some p \<Rightarrow> f p)"
  by (cases x) simp_all

lemma ids_ok_frame: "ids_ok (s\<lparr>groupAutoPauseThresholds := t\<rparr>) = ids_ok s"
  "ids_ok (s\<lparr>apiKeyAllowedGroups := x, apiKeyAllowedGroupSets := y\<rparr>) = ids_ok s"
  by (simp_all add: ids_ok_def accountIDs_def)

lemma memConfig_frame:
  "memConfig (s\<lparr>groupAutoPauseThresholds := t\<rparr>) = memConfig s"
  "memConfig (s\<lparr>apiKeyAllowedGroups := x, apiKeyAllowedGroupSets := y\<rparr>) = memConfig s"
  "memConfig (s\<lparr>tokenCache := c\<rparr>) = memConfig s"
  by (simp_all add: fun_eq_iff memConfig_def accountByID_def FindByID_def lookupByIDLocked_def split: option.split)

lemma ApplyAccountGroups_config:
  assumes "ids_ok s"
  shows "memConfig (fst (ApplyAccountGroups now i gs s)) = modAt i (\<lambda>c. c\<lparr>cfGroups := gs\<rparr>) (memConfig s)"
  unfolding ApplyAccountGroups_def fst_case
  by (rule onID_fast) (use assms in \<open>simp_all add: config_simps, simp add: account_config_def\<close>)

lemma ApplyAccountEnabled_config:
  assumes "ids_ok s"
  shows "memConfig (fst (ApplyAccountEnabled now i b s)) = modAt i (\<lambda>c. c\<lparr>cfPaused := \<not> b\<rparr>) (memConfig s)"
  unfolding ApplyAccountEnabled_def fst_case
  by (rule onID_fast) (use assms in \<open>simp_all add: account_config_def\<close>)

lemma ApplyOverrides_config:
  assumes "ids_ok s"
  shows "memConfig (fst (ApplyAccountSchedulerOverrides now i score base skip s)) =
    modAt i (\<lambda>c. c\<lparr>cfScoreBias := score, cfBaseConcurrency := base, cfSkipWarm := orKeep skip (cfSkipWarm c)\<rparr>) (memConfig s)"
  unfolding ApplyAccountSchedulerOverrides_def fst_case
  by (rule onID_fast) (use assms in \<open>simp_all add: config_simps, simp add: account_config_def orKeep_def\<close>)

lemma ApplyKeys_config:
  assumes "ids_ok s"
  shows "memConfig (fst (ApplyAccountAllowedAPIKeys now i ids s)) =
    modAt i (\<lambda>c. c\<lparr>cfKeys := normalizeAllowedAPIKeyIDs ids, cfKeySet := set (normalizeAllowedAPIKeyIDs ids)\<rparr>) (memConfig s)"
  unfolding ApplyAccountAllowedAPIKeys_def fst_case
  by (rule onID_fast) (use assms in \<open>simp_all add: account_config_def setAllowedAPIKeyIDsLocked_def Let_def\<close>)

lemma ApplyQuota_config:
  assumes "ids_ok s"
  shows "memConfig (ApplyAccountQuotaAutoPauseConfig now i t5h t7d d5h d7d s) =
    modAt i (\<lambda>c. c\<lparr>cfThreshold5h := orKeep (map_option normalizeQuotaAutoPauseThreshold t5h) (cfThreshold5h c),
      cfThreshold7d := orKeep (map_option normalizeQuotaAutoPauseThreshold t7d) (cfThreshold7d c),
      cfDisabled5h := orKeep d5h (cfDisabled5h c), cfDisabled7d := orKeep d7d (cfDisabled7d c)\<rparr>) (memConfig s)"
  unfolding ApplyAccountQuotaAutoPauseConfig_def
  by (rule onID_fast) (use assms in \<open>simp_all add: config_simps, simp add: account_config_def\<close>)

lemma ApplyStrings_config:
  assumes "ids_ok s"
  shows "memConfig (ApplyAccountTags i tags s) = modAt i (\<lambda>c. c\<lparr>cfTags := tags\<rparr>) (memConfig s)"
    "memConfig (ApplyAccountProxyURL i u s) = modAt i (\<lambda>c. c\<lparr>cfProxyURL := TrimSpace u\<rparr>) (memConfig s)"
    "memConfig (ApplyAccountBaseURL i u s) = modAt i (\<lambda>c. c\<lparr>cfBaseURL := TrimRight CHR ''/'' (TrimSpace u)\<rparr>) (memConfig s)"
    "memConfig (onAccountID i (\<lambda>a. a\<lparr>Locked := b\<rparr>) s) = modAt i (\<lambda>c. c\<lparr>cfLocked := b\<rparr>) (memConfig s)"
  unfolding ApplyAccountTags_def ApplyAccountProxyURL_def ApplyAccountBaseURL_def onAccountID_def
  by (rule onID_upd [OF assms]; simp add: account_config_def)+

lemma Credit_config:
  assumes "ids_ok s"
  shows "memConfig (storeUpdateAccountCredit now i credit skip s) =
    modAt i (\<lambda>c. c\<lparr>cfCredit := orKeep credit (cfCredit c), cfCreditSkip := orKeep skip (cfCreditSkip c)\<rparr>) (memConfig s)"
  unfolding storeUpdateAccountCredit_def
  by (rule onID_fast) (use assms in \<open>simp_all add: config_simps, simp add: account_config_def\<close>)

lemma fold_same_pool:
  assumes "\<And>x s. ids_ok s \<Longrightarrow> ids_ok (f x s) \<and> memConfig (f x s) = memConfig s" "ids_ok s"
  shows "ids_ok (fold f xs s) \<and> memConfig (fold f xs s) = memConfig s"
  using assms by (induction xs arbitrary: s) auto

lemma upd_same:
  assumes "ids_ok s" "\<And>a. account_config (f a) = account_config a"
  shows "ids_ok (updAccount p f s) \<and> memConfig (updAccount p f s) = memConfig s"
proof -
  have "keeps_config (heap s) (heap (updAccount p f s))"
    by (simp add: keeps_config_def upd_heap option.map_comp comp_def assms(2))
  from same_pool [OF assms(1) this] show ?thesis by simp
qed

lemma thresholds_config:
  assumes "ids_ok s"
  shows "ids_ok (SetGroupAutoPauseThresholds g x y s) \<and> memConfig (SetGroupAutoPauseThresholds g x y s) = memConfig s"
  unfolding SetGroupAutoPauseThresholds_def recomputeAllEffectiveAutoPause_def
  using assms fold_same_pool [of "\<lambda>p. updAccount p (recomputeEffectiveAutoPause t)" for t] upd_same [where f = "recomputeEffectiveAutoPause t" for t]
  by (simp add: config_simps ids_ok_frame memConfig_frame)

lemma rebuildFast_config:
  assumes "ids_ok s"
  shows "ids_ok (rebuildFastScheduler now s) \<and> memConfig (rebuildFastScheduler now s) = memConfig s"
  using same_pool [OF assms rebuildFast_keeps] by simp

lemma SetKeyGroups_config:
  assumes "ids_ok s"
  shows "ids_ok (SetAPIKeyAllowedGroups now k ids s) \<and> memConfig (SetAPIKeyAllowedGroups now k ids s) = memConfig s"
  using assms rebuildFast_config by (simp add: SetAPIKeyAllowedGroups_def Let_def ids_ok_frame memConfig_frame)

lemma RemoveAccount_config:
  assumes "store_ok s"
  shows "memConfig (RemoveAccount i s) = (memConfig s)(i := None)"
proof (cases "removeFirst (heap s) i (accounts s)")
  case None
  then have "FindByID i s = None"
    by (simp add: FindByID_None [OF store_ids_ok [OF assms]] removeFirst_None accountIDs_def del: set_map)
  then have "memConfig s i = None" by (rule memConfig_None)
  then show ?thesis using None by (auto simp: RemoveAccount_def)
next
  case (Some ps)
  then have ps: "ps = filter (\<lambda>p. map_option DBID (heap s p) \<noteq> Some i) (accounts s)"
    using assms removeFirst_filter by (auto simp: store_ok_def accountIDs_def)
  note ok = store_ids_ok [OF RemoveAccount_ok [OF assms, of i]] store_ids_ok [OF assms]
  have "heap (RemoveAccount i s) = heap s" "accounts (RemoveAccount i s) = ps" using Some by (simp_all add: RemoveAccount_def)
  then have "memConfig (RemoveAccount i s) j = Some c \<longleftrightarrow> ((memConfig s)(i := None)) j = Some c" for j c
    using ok by (auto simp: memConfig_iff ps)
  then show ?thesis by (intro ext option_eqI)
qed

lemma AddAccount_config:
  assumes "store_ok s" "heap s p = None" "FindByID (DBID a) s = None"
  shows "store_ok (AddAccount now p a s)" "memConfig (AddAccount now p a s) = (memConfig s)(DBID a \<mapsto> account_config a)"
proof -
  note ids = store_ids_ok [OF assms(1)]
  let ?a = "recomputeSchedulerLocked now (maxConcurrency s) (if AddedAt a = 0 then a\<lparr>AddedAt := now\<rparr> else a)"
  let ?s = "rebuildAccountIndex (s\<lparr>heap := (heap s)(p \<mapsto> ?a), accounts := accounts s @ [p]\<rparr>)"
  have fresh: "Some (DBID a) \<notin> set (accountIDs s)"
    using assms(3) by (simp add: FindByID_None [OF ids])
  show ok: "store_ok (AddAccount now p a s)" by (rule AddAccount_ok [OF assms(1,2) fresh])
  have out: "p \<notin> set (accounts s)" using store_ok_allocated [OF assms(1)] assms(2) by blast
  have c: "account_config ?a = account_config a" by (simp add: config_simps, simp add: account_config_def)
  have add: "AddAccount now p a s = fastSchedulerUpdate now p ?s" by (simp only: AddAccount_def Let_def)
  have "keeps_config (heap ?s) (heap (AddAccount now p a s))" unfolding add by (rule fastUpdate_keeps)
  then have h: "map_option account_config (heap (AddAccount now p a s) q) = (if q = p then Some (account_config a) else map_option account_config (heap s q))" for q
    using c by (simp add: keeps_config_def)
  have acc: "accounts (AddAccount now p a s) = accounts s @ [p]" by (simp add: AddAccount_def Let_def)
  have other: "DBID z \<noteq> DBID a" if "q \<in> set (accounts s)" "heap s q = Some z" for q z
    using fresh that unfolding accountIDs_def set_map by (metis imageI option.simps(9))
  have "(\<exists>q \<in> set (accounts s). map_option account_config (heap (AddAccount now p a s) q) = Some x) \<longleftrightarrow>
      (\<exists>q \<in> set (accounts s). map_option account_config (heap s q) = Some x)" for x
    using out by (intro bex_cong refl) (auto simp: h)
  then have "memConfig (AddAccount now p a s) j = Some x \<longleftrightarrow> ((memConfig s)(DBID a \<mapsto> account_config a)) j = Some x" for j x
    using other by (auto simp: memConfig_iff [OF store_ids_ok [OF ok]] memConfig_iff [OF ids] acc h)
  then show "memConfig (AddAccount now p a s) = (memConfig s)(DBID a \<mapsto> account_config a)" by (intro ext option_eqI)
qed

text \<open>One pass over all accounts: a step for each, which changes the configuration of that account and does no more when it is repeated.\<close>

locale account_pass =
  fixes step :: "ptr \<Rightarrow> Store \<Rightarrow> Store" and g :: "accountConfig \<Rightarrow> accountConfig"
  assumes step_ids: "ids_ok s \<Longrightarrow> ids_ok (step p s)"
    and step_accounts: "accounts (step p s) = accounts s"
    and step_DBID: "ids_ok s \<Longrightarrow> map_option DBID (heap (step p s) q) = map_option DBID (heap s q)"
    and step_effect: "ids_ok s \<Longrightarrow> p \<in> set (accounts s) \<Longrightarrow> heap s p = Some acc \<Longrightarrow> memConfig (step p s) = modAt (DBID acc) g (memConfig s)"
    and step_nothing: "ids_ok s \<Longrightarrow> heap s p = None \<Longrightarrow> memConfig (step p s) = memConfig s"
    and idem: "g (g c) = g c"
begin

lemma steps:
  assumes "ids_ok s" "set ps \<subseteq> set (accounts s)"
  shows "ids_ok (fold step ps s) \<and> memConfig (fold step ps s) j =
    (if \<exists>p \<in> set ps. map_option DBID (heap s p) = Some j then map_option g (memConfig s j) else memConfig s j)"
  using assms
proof (induction ps arbitrary: s)
  case (Cons p ps)
  have ps: "set ps \<subseteq> set (accounts (step p s))" using Cons.prems(2) by (simp add: step_accounts)
  note IH = Cons.IH [OF step_ids [OF Cons.prems(1)] ps, unfolded step_DBID [OF Cons.prems(1)]]
  show ?case
  proof (cases "heap s p")
    case None
    then show ?thesis using IH step_nothing [OF Cons.prems(1) None] by auto
  next
    case (Some acc)
    have "p \<in> set (accounts s)" using Cons.prems(2) by simp
    note c = step_effect [OF Cons.prems(1) this Some]
    show ?thesis using IH Some unfolding c
      by (cases "DBID acc = j") (auto simp: modAt_def option.map_comp comp_def idem)
  qed
qed simp

lemma pass:
  assumes "ids_ok s"
  shows "ids_ok (fold step (accounts s) s)" "memConfig (fold step (accounts s) s) = (\<lambda>i. map_option g (memConfig s i))"
proof -
  note d = steps [OF assms subset_refl]
  have "memConfig s j = None" if "\<not> (\<exists>p \<in> set (accounts s). map_option DBID (heap s p) = Some j)" for j
  proof -
    have "FindByID j s \<noteq> Some p" for p using that by (auto simp: FindByID_iff [OF assms])
    then show ?thesis by (intro memConfig_None) blast
  qed
  then show "memConfig (fold step (accounts s) s) = (\<lambda>i. map_option g (memConfig s i))" using d by auto
  show "ids_ok (fold step (accounts s) s)" using d by blast
qed

end

text \<open>Taking a group from all accounts.\<close>

lemma ApplyGroups_frame:
  fixes now :: time and i :: int and gs :: "int list"
  assumes "ids_ok s"
  defines "t \<equiv> fst (ApplyAccountGroups now i gs s)"
  shows "ids_ok t" "accounts t = accounts s" "map_option DBID (heap t q) = map_option DBID (heap s q)"
proof -
  let ?f = "\<lambda>a. recomputeEffectiveAutoPause s (a\<lparr>GroupIDs := gs\<rparr>)"
  have f: "account_config (?f a) = (account_config a)\<lparr>cfGroups := gs\<rparr>" for a by (simp add: config_simps, simp add: account_config_def)
  have "ids_ok t \<and> accounts t = accounts s \<and> (\<forall>q. map_option DBID (heap t q) = map_option DBID (heap s q))"
  proof (cases "FindByID i s")
    case (Some p)
    have t: "t = fastSchedulerUpdate now p (updAccount p ?f s)" by (simp add: t_def ApplyAccountGroups_def Some)
    note u = upd_config(1) [OF assms(1) Some, of ?f "\<lambda>c. c\<lparr>cfGroups := gs\<rparr>", OF f]
    have "ids_ok t" unfolding t by (rule same_pool(1) [OF u fastUpdate_keeps]) simp_all
    moreover have "map_option DBID (heap t q) = map_option DBID (heap s q)" for q
      unfolding t keeps_config_ids [OF fastUpdate_keeps] by (simp add: upd_heap option.map_comp comp_def)
    ultimately show ?thesis by (simp add: t)
  qed (simp add: t_def ApplyAccountGroups_def assms(1))
  then show "ids_ok t" "accounts t = accounts s" "map_option DBID (heap t q) = map_option DBID (heap s q)" by blast+
qed

abbreviation withoutGroup :: "int \<Rightarrow> accountConfig \<Rightarrow> accountConfig" where
  "withoutGroup g c \<equiv> c\<lparr>cfGroups := removeInt64 (cfGroups c) g\<rparr>"

lemma removeInt64_idem [simp]: "removeInt64 (removeInt64 gs g) g = removeInt64 gs g"
  by (simp add: removeInt64_def)

definition dropStep :: "time \<Rightarrow> int \<Rightarrow> ptr \<Rightarrow> Store \<Rightarrow> Store" where
  "dropStep now g p s = (case heap s p of None \<Rightarrow> s | Some acc \<Rightarrow> fst (ApplyAccountGroups now (DBID acc) (removeInt64 (GroupIDs acc) g) s))"

lemma dropStep_config:
  assumes "ids_ok s" "p \<in> set (accounts s)" "heap s p = Some acc"
  shows "memConfig (dropStep now g p s) = modAt (DBID acc) (withoutGroup g) (memConfig s)"
proof -
  have "FindByID (DBID acc) s = Some p" using assms by (simp add: FindByID_iff)
  then have "memConfig s (DBID acc) = Some (account_config acc)" using assms(3) by (simp add: memConfig_def accountByID_def)
  then show ?thesis
    using assms by (simp add: dropStep_def ApplyAccountGroups_config modAt_def, simp add: account_config_def)
qed

lemma dropStep_frame:
  assumes "ids_ok s"
  shows "ids_ok (dropStep now g p s)" "accounts (dropStep now g p s) = accounts s"
    "map_option DBID (heap (dropStep now g p s) q) = map_option DBID (heap s q)"
  using assms ApplyGroups_frame by (simp_all add: dropStep_def split: option.split)

interpretation drop: account_pass "dropStep now g" "withoutGroup g" for now g
  by unfold_locales (simp_all add: dropStep_frame dropStep_config, simp_all add: dropStep_def ApplyAccountGroups_def split: option.split)

lemma dropGroup_config:
  assumes "ids_ok s"
  shows "ids_ok (dropGroupFromAccounts now g s)" "memConfig (dropGroupFromAccounts now g s) = (\<lambda>i. map_option (withoutGroup g) (memConfig s i))"
  using drop.pass [OF assms] by (simp_all add: dropGroupFromAccounts_def dropStep_def [abs_def])

text \<open>Reading the memberships at the start.\<close>

definition memberStep :: "time \<Rightarrow> (int \<Rightarrow> int list) \<Rightarrow> ptr \<Rightarrow> Store \<Rightarrow> Store" where
  "memberStep now ms p s = fastSchedulerUpdate now p (updAccount p (\<lambda>a. recomputeEffectiveAutoPause s (a\<lparr>GroupIDs := ms (DBID a)\<rparr>)) s)"

lemma memberStep_frame:
  assumes "ids_ok s"
  shows "ids_ok (memberStep now ms p s)" "map_option DBID (heap (memberStep now ms p s) q) = map_option DBID (heap s q)"
proof -
  let ?u = "updAccount p (\<lambda>a. recomputeEffectiveAutoPause s (a\<lparr>GroupIDs := ms (DBID a)\<rparr>)) s"
  have ids: "map_option DBID (heap ?u q) = map_option DBID (heap s q)" for q by (simp add: upd_heap option.map_comp comp_def)
  then have "ids_ok ?u" using assms by (simp add: ids_ok_def accountIDs_def indexed_def)
  from same_pool(1) [OF this fastUpdate_keeps] show "ids_ok (memberStep now ms p s)" by (simp add: memberStep_def)
  show "map_option DBID (heap (memberStep now ms p s) q) = map_option DBID (heap s q)"
    unfolding memberStep_def keeps_config_ids [OF fastUpdate_keeps] by (rule ids)
qed

lemma memberStep_config:
  assumes "ids_ok s" "p \<in> set (accounts s)" "heap s p = Some acc"
  shows "memConfig (memberStep now ms p s) = modAt (DBID acc) (\<lambda>c. c\<lparr>cfGroups := ms (cfID c)\<rparr>) (memConfig s)"
proof -
  let ?f = "\<lambda>a. recomputeEffectiveAutoPause s (a\<lparr>GroupIDs := ms (DBID a)\<rparr>)"
  have p: "FindByID (DBID acc) s = Some p" using assms by (simp add: FindByID_iff)
  have f: "account_config (?f a) = (account_config a)\<lparr>cfGroups := ms (cfID (account_config a))\<rparr>" for a
    by (simp only: config_simps cfID_config) (simp add: account_config_def)
  note u = upd_config [OF assms(1) p, of ?f "\<lambda>c. c\<lparr>cfGroups := ms (cfID c)\<rparr>", OF f]
  have "ids_ok (updAccount p ?f s)" "memConfig (updAccount p ?f s) = modAt (DBID acc) (\<lambda>c. c\<lparr>cfGroups := ms (cfID c)\<rparr>) (memConfig s)" using u by simp_all
  then show ?thesis using same_pool(2) [OF _ fastUpdate_keeps, of "updAccount p ?f s"] by (simp add: memberStep_def)
qed

lemma memberStep_nothing: "ids_ok s \<Longrightarrow> heap s p = None \<Longrightarrow> memConfig (memberStep now ms p s) = memConfig s"
proof -
  assume ok: "ids_ok s" and none: "heap s p = None"
  have "updAccount p f s = s" for f using none by (simp add: updAccount_def fun_upd_idem)
  then show ?thesis using same_pool(2) [OF ok fastUpdate_keeps] by (simp add: memberStep_def)
qed

interpretation join: account_pass "memberStep now ms" "\<lambda>c. c\<lparr>cfGroups := ms (cfID c)\<rparr>" for now ms
  by unfold_locales (simp_all add: memberStep_frame memberStep_config memberStep_nothing, simp add: memberStep_def)

lemma memberships_config:
  assumes "ids_ok s"
  shows "ids_ok (ApplyAccountGroupMemberships now (\<lambda>i. Some (ms i)) s)"
    "memConfig (ApplyAccountGroupMemberships now (\<lambda>i. Some (ms i)) s) = (\<lambda>i. map_option (\<lambda>c. c\<lparr>cfGroups := ms (cfID c)\<rparr>) (memConfig s i))"
  using join.pass [OF assms] by (simp_all add: ApplyAccountGroupMemberships_def memberStep_def [abs_def])

end
