(* ===== verification/AccountTableProps.thy ===== *)
theory AccountTableProps
  imports AccountConfig
begin

section \<open>The effect of a statement on the configurations\<close>

text \<open>
  The table side of the abstraction of theory \<open>AccountConfig\<close>: what each statement on accounts and groups does to \<open>tableConfig\<close>, and the
  configuration that \<open>buildAccountFromRow\<close> reads from a row.
\<close>

subsection \<open>Lists of identifiers\<close>

lemma stable_insert_insort: "stable_insert (<) x xs = insort x (xs :: 'a :: linorder list)"
  by (induction xs) auto

lemma stable_sort_sort [simp]: "stable_sort (<) xs = sort (xs :: 'a :: linorder list)"
proof (induction xs)
  case (Cons x xs)
  then show ?case by (simp only: stable_sort.simps stable_insert_insort sort_key_simps)
qed simp

lemma set_dedupPositive: "set (dedupPositive seen vs) = {v \<in> set vs. 0 < v \<and> v \<notin> set seen}"
  by (induction vs arbitrary: seen) auto

lemma distinct_dedupPositive [simp]: "distinct (dedupPositive seen vs)"
  by (induction vs arbitrary: seen) (auto simp: set_dedupPositive)

lemma dedupPositive_id: "distinct vs \<Longrightarrow> \<forall>v \<in> set vs. 0 < v \<and> v \<notin> set seen \<Longrightarrow> dedupPositive seen vs = vs"
proof (induction vs arbitrary: seen)
  case (Cons v vs)
  then have "dedupPositive (v # seen) vs = vs" by (intro Cons.IH) auto
  then show ?case using Cons.prems by simp
qed simp

text \<open>A list of identifiers as the parsers leave it: positive, distinct, ascending.\<close>

definition normal_ids :: "int list \<Rightarrow> bool" where
  "normal_ids vs \<longleftrightarrow> distinct vs \<and> sorted vs \<and> (\<forall>v \<in> set vs. 0 < v)"

lemma normal_ids_sort [simp]: "normal_ids (sort (dedupPositive [] vs))"
  by (simp add: normal_ids_def set_dedupPositive)

lemma normal_ids_fix: "normal_ids vs \<Longrightarrow> dedupPositive [] vs = vs" "normal_ids vs \<Longrightarrow> sort vs = vs"
  by (simp_all add: normal_ids_def dedupPositive_id sort_key_id_if_sorted)

lemma normalize_fix: "normal_ids vs \<Longrightarrow> normalizeAllowedAPIKeyIDs vs = vs" "normal_ids vs \<Longrightarrow> normalizePositiveInt64Slice vs = vs"
  by (simp_all add: normalizeAllowedAPIKeyIDs_def normalizePositiveInt64Slice_def normal_ids_fix)

lemma integersOf_normal: "integersOf raw = Some (Some vs) \<Longrightarrow> normal_ids vs"
proof (cases raw)
  case Null
  then show "integersOf raw = Some (Some vs) \<Longrightarrow> normal_ids vs" by (simp add: integersOf_def parseOptionalIntegerSliceField_def normal_ids_def)
qed (auto simp: integersOf_def parseOptionalIntegerSliceField_def split: if_splits)

text \<open>Numbers survive the JSON of the credentials as long as they are 64-bit integers.\<close>

lemma int64_numbers: "\<forall>v \<in> set vs. 0 < v \<and> v < 2 ^ 63 \<Longrightarrow> normal_ids vs \<Longrightarrow> int64SliceFromValue (numbers vs) = vs"
proof -
  assume b: "\<forall>v \<in> set vs. 0 < v \<and> v < 2 ^ 63" and n: "normal_ids vs"
  have "int64FromJSONValue (CrNumber (real_of_int v)) = Some v" if "v \<in> set vs" for v
  proof -
    have v: "0 < v" "v < 2 ^ 63" using b that by auto
    then have "real_of_int v < real_of_int (2 ^ 63)" by (simp only: of_int_less_iff)
    then show ?thesis using v by (simp add: int64FromJSONValue_def)
  qed
  then have "List.map_filter int64FromJSONValue (map (\<lambda>v. CrNumber (real_of_int v)) vs) = vs"
    by (simp add: map_filter_def comp_def cong: map_cong filter_cong)
  then show ?thesis by (simp add: int64SliceFromValue_def numbers_def normalize_fix n)
qed

subsection \<open>Rows\<close>

lemma find_map: "(\<And>r. P (f r) = P r) \<Longrightarrow> find P (map f rs) = map_option f (find P rs)"
  by (induction rs) auto

lemma activeRow_SomeD: "activeRow d i = Some r \<Longrightarrow> r \<in> set (adRows d) \<and> arID r = i \<and> \<not> isDeleted r"
  by (auto simp: activeRow_def find_Some_iff)

lemma activeRow_update:
  assumes "\<And>r. c r \<Longrightarrow> arID (f r) = arID r" "\<And>r. c r \<Longrightarrow> isDeleted (f r) = isDeleted r"
  shows "activeRow (updateWhere c f d) i = map_option (\<lambda>r. if c r then f r else r) (activeRow d i)"
  unfolding activeRow_def updateWhere_def by (simp, rule find_map) (auto simp: assms)

lemma members_update [simp]: "ListAccountGroupMemberships (updateWhere c f d) i = ListAccountGroupMemberships d i"
  by (simp add: ListAccountGroupMemberships_def updateWhere_def)

lemma tableConfig_update:
  assumes "\<And>r. arID (f r) = arID r" "\<And>r. isDeleted (f r) = isDeleted r"
    and f: "\<And>r gs. r \<in> set (adRows d) \<Longrightarrow> rowConfig e gs (f r) = g (rowConfig e gs r)"
  shows "tableConfig e (updateWhere (\<lambda>r. arID r = i) f d) = modAt i g (tableConfig e d)"
proof
  fix j
  show "tableConfig e (updateWhere (\<lambda>r. arID r = i) f d) j = modAt i g (tableConfig e d) j"
  proof (cases "activeRow d j")
    case (Some r)
    from activeRow_SomeD [OF this] have "r \<in> set (adRows d)" "arID r = j" by auto
    then show ?thesis using Some by (auto simp: tableConfig_def activeRow_update assms(1,2) modAt_def f)
  qed (auto simp: tableConfig_def activeRow_update assms(1,2) modAt_def)
qed

lemma tableConfig_rows: "adRows d' = adRows d \<Longrightarrow> adMembers d' = adMembers d \<Longrightarrow> tableConfig e d' = tableConfig e d"
  by (simp add: fun_eq_iff tableConfig_def activeRow_def ListAccountGroupMemberships_def)

lemma find_filter: "(\<And>r. P r \<Longrightarrow> Q r) \<Longrightarrow> find P (filter Q rs) = find P rs"
  by (induction rs) auto

lemma tableConfig_shrink:
  assumes "adRows d' = filter Q (adRows d)" "\<And>r. \<not> isDeleted r \<Longrightarrow> Q r" "adMembers d' = adMembers d"
  shows "tableConfig e d' = tableConfig e d"
proof -
  have "activeRow d' i = activeRow d i" for i
    unfolding activeRow_def assms(1) by (rule find_filter) (simp add: assms(2))
  then show ?thesis by (simp add: fun_eq_iff tableConfig_def ListAccountGroupMemberships_def assms(3))
qed

text \<open>A change of columns that leaves the credentials alone.\<close>

lemma accessors_cong:
  assumes "arCredentials r' = arCredentials r"
  shows "GetCredential e r' = GetCredential e r" "GetCredentialFloat64 e r' = GetCredentialFloat64 e r" "GetCredentialBool r' = GetCredentialBool r"
    "GetCredentialInt64Slice r' = GetCredentialInt64Slice r" "GetCredentialStringSlice r' = GetCredentialStringSlice r"
  using assms by (simp_all add: fun_eq_iff GetCredential_def GetCredentialFloat64_def GetCredentialBool_def GetCredentialInt64Slice_def GetCredentialStringSlice_def)

lemma rowConfig_columns:
  assumes "arCredentials r' = arCredentials r"
  shows "rowConfig e gs r' = (rowConfig e gs r)\<lparr>cfID := arID r', cfScoreBias := arScoreBiasOverride r', cfBaseConcurrency := arBaseConcurrencyOverride r',
    cfSkipWarm := arSkipWarmTier r', cfTags := arTags r', cfProxyURL := TrimSpace (arProxyURL r'), cfLocked := arLocked r', cfPaused := \<not> arEnabled r',
    cfCredit := arCreditEnabled r', cfCreditSkip := arCreditSkipUsageWindow r'\<rparr>"
  by (simp add: rowConfig_def rowBaseURL_def rowThreshold_def isQoderRow_def accessors_cong [OF assms] Let_def)

lemma rowConfig_sel [simp]:
  "cfID (rowConfig e gs r) = arID r" "cfScoreBias (rowConfig e gs r) = arScoreBiasOverride r" "cfBaseConcurrency (rowConfig e gs r) = arBaseConcurrencyOverride r"
  "cfSkipWarm (rowConfig e gs r) = arSkipWarmTier r" "cfTags (rowConfig e gs r) = arTags r" "cfGroups (rowConfig e gs r) = gs"
  "cfKeys (rowConfig e gs r) = normalizeAllowedAPIKeyIDs (GetCredentialInt64Slice r ''allowed_api_key_ids'')"
  "cfThreshold5h (rowConfig e gs r) = rowThreshold e r ''auto_pause_5h_threshold''" "cfThreshold7d (rowConfig e gs r) = rowThreshold e r ''auto_pause_7d_threshold''"
  "cfDisabled5h (rowConfig e gs r) = GetCredentialBool r ''auto_pause_5h_disabled''" "cfDisabled7d (rowConfig e gs r) = GetCredentialBool r ''auto_pause_7d_disabled''"
  "cfProxyURL (rowConfig e gs r) = TrimSpace (arProxyURL r)" "cfBaseURL (rowConfig e gs r) = rowBaseURL e r" "cfLocked (rowConfig e gs r) = arLocked r"
  "cfPaused (rowConfig e gs r) = (\<not> arEnabled r)" "cfCredit (rowConfig e gs r) = arCreditEnabled r" "cfCreditSkip (rowConfig e gs r) = arCreditSkipUsageWindow r"
  by (simp_all add: rowConfig_def Let_def)

lemma tableConfig_columns:
  assumes "\<And>r. arID (f r) = arID r" "\<And>r. isDeleted (f r) = isDeleted r" "\<And>r. arCredentials (f r) = arCredentials r"
    and "\<And>r gs. (rowConfig e gs r)\<lparr>cfID := arID (f r), cfScoreBias := arScoreBiasOverride (f r), cfBaseConcurrency := arBaseConcurrencyOverride (f r),
      cfSkipWarm := arSkipWarmTier (f r), cfTags := arTags (f r), cfProxyURL := TrimSpace (arProxyURL (f r)), cfLocked := arLocked (f r),
      cfPaused := \<not> arEnabled (f r), cfCredit := arCreditEnabled (f r), cfCreditSkip := arCreditSkipUsageWindow (f r)\<rparr> = g (rowConfig e gs r)"
  shows "tableConfig e (updateWhere (\<lambda>r. arID r = i) f d) = modAt i g (tableConfig e d)"
  using assms(1,2) by (rule tableConfig_update) (simp only: rowConfig_columns [OF assms(3)] assms(4))

lemma enabled_config:
  "tableConfig e (updateWhere (\<lambda>r. arID r = i) (\<lambda>r. r\<lparr>arEnabled := b, arUpdatedAt := t\<rparr>) d) = modAt i (\<lambda>c. c\<lparr>cfPaused := \<not> b\<rparr>) (tableConfig e d)"
  by (rule tableConfig_columns) (simp_all add: isDeleted_def rowConfig_def Let_def)

lemma locked_config:
  "tableConfig e (updateWhere (\<lambda>r. arID r = i) (\<lambda>r. r\<lparr>arLocked := b\<rparr>) d) = modAt i (\<lambda>c. c\<lparr>cfLocked := b\<rparr>) (tableConfig e d)"
  by (rule tableConfig_columns) (simp_all add: isDeleted_def rowConfig_def Let_def)

lemma credit_config:
  "tableConfig e (updateWhere (\<lambda>r. arID r = i) (\<lambda>r. r\<lparr>arCreditEnabled := orKeep credit (arCreditEnabled r),
     arCreditSkipUsageWindow := orKeep skip (arCreditSkipUsageWindow r), arUpdatedAt := t\<rparr>) d) =
   modAt i (\<lambda>c. c\<lparr>cfCredit := orKeep credit (cfCredit c), cfCreditSkip := orKeep skip (cfCreditSkip c)\<rparr>) (tableConfig e d)"
  by (rule tableConfig_columns) (simp_all add: isDeleted_def rowConfig_def Let_def)

lemma cooldown_config: "tableConfig e (clearExpiredCooldown up now r d) = tableConfig e d"
proof -
  have "tableConfig e (updateWhere (\<lambda>x. arID x = i) (\<lambda>x. x\<lparr>arCooldownReason := [], arCooldownUntil := None, arUpdatedAt := now\<rparr>) d) = tableConfig e d" for i
    by (subst tableConfig_columns [where g = "\<lambda>c. c"]) (simp_all add: isDeleted_def rowConfig_def Let_def)
  then show ?thesis by (simp add: clearExpiredCooldown_def dbClearCooldown_def updateSilent_def)
qed

subsection \<open>Deletion and restoration\<close>

lemma softDelete_active:
  "activeRow (updateWhere (\<lambda>r. arID r = i \<and> arStatus r \<noteq> ''deleted'') (softDeleted now) d) = (activeRow d)(i := None)"
proof
  fix j
  have "find (\<lambda>r. arID r = j \<and> \<not> isDeleted r) (map (\<lambda>r. if arID r = i \<and> arStatus r \<noteq> ''deleted'' then softDeleted now r else r) rs) =
      (if j = i then None else find (\<lambda>r. arID r = j \<and> \<not> isDeleted r) rs)" for rs
    by (induction rs) (auto simp: softDeleted_def isDeleted_def)
  then show "activeRow (updateWhere (\<lambda>r. arID r = i \<and> arStatus r \<noteq> ''deleted'') (softDeleted now) d) j = ((activeRow d)(i := None)) j"
    by (simp add: activeRow_def updateWhere_def)
qed

lemma SoftDelete_config:
  assumes "SoftDeleteAccount up now i d = (d', DBOk ())"
  shows "tableConfig e d' = (tableConfig e d)(i := None)"
    "d' = (updateWhere (\<lambda>r. arID r = i \<and> arStatus r \<noteq> ''deleted'') (softDeleted now) d)\<lparr>adMembers := filter (\<lambda>m. fst m \<noteq> i) (adMembers d)\<rparr>"
proof -
  show d': "d' = (updateWhere (\<lambda>r. arID r = i \<and> arStatus r \<noteq> ''deleted'') (softDeleted now) d)\<lparr>adMembers := filter (\<lambda>m. fst m \<noteq> i) (adMembers d)\<rparr>"
    using assms by (auto simp: SoftDeleteAccount_def updateCounted_def updateWhere_def split: if_splits)
  have "activeRow d' = (activeRow d)(i := None)"
    using softDelete_active [of i now d] by (simp add: d' activeRow_def [abs_def])
  moreover have "ListAccountGroupMemberships d' j = ListAccountGroupMemberships d j" if "j \<noteq> i" for j
    using that by (simp add: d' ListAccountGroupMemberships_def conj_commute) (metis (mono_tags, lifting))
  ultimately show "tableConfig e d' = (tableConfig e d)(i := None)" by (auto simp: tableConfig_def)
qed

lemma Restore_active:
  assumes "distinct (map arID (adRows d))" "dbRestoreAccount up now i d = (d', DBOk ())"
  defines "restored \<equiv> \<lambda>r. r\<lparr>arStatus := ''active'', arErrorMessage := [], arCooldownReason := [], arCooldownUntil := None, arDeletedAt := None, arUpdatedAt := now\<rparr>"
  obtains r where "r \<in> set (adRows d)" "arID r = i" "isDeleted r" "activeRow d i = None" "activeRow d' = (activeRow d)(i \<mapsto> restored r)"
    "adMembers d' = adMembers d" "adRows d' = map (\<lambda>r. if arID r = i \<and> isDeleted r then restored r else r) (adRows d)"
proof -
  let ?c = "\<lambda>r. arID r = i \<and> isDeleted r"
  have d': "d' = updateWhere ?c restored d" and ex: "list_ex ?c (adRows d)"
    using assms(2) by (auto simp: dbRestoreAccount_def updateCounted_def affectedRows_def restored_def split: if_splits)
  from ex obtain r where r: "r \<in> set (adRows d)" "arID r = i" "isDeleted r" by (auto simp: list_ex_iff)
  have uniq: "x = r" if "x \<in> set (adRows d)" "arID x = i" for x
    using assms(1) r that by (auto simp: distinct_map inj_on_def)
  have none: "activeRow d i = None" using uniq r(3) by (auto simp: activeRow_def find_None_iff)
  have find: "find (\<lambda>r. arID r = j \<and> \<not> isDeleted r) (map (\<lambda>r. if ?c r then restored r else r) rs) =
      (if j = i then map_option restored (find (\<lambda>r. arID r = i) rs) else find (\<lambda>r. arID r = j \<and> \<not> isDeleted r) rs)"
    if "\<forall>x \<in> set rs. arID x = i \<longrightarrow> isDeleted x" for j rs
    using that by (induction rs) (auto simp: restored_def isDeleted_def)
  have "\<forall>x \<in> set (adRows d). arID x = i \<longrightarrow> isDeleted x" using uniq r(3) by blast
  note move = find [OF this]
  have first: "find (\<lambda>r. arID r = i) (adRows d) = Some r"
  proof (cases "find (\<lambda>r. arID r = i) (adRows d)")
    case None
    then show ?thesis using r by (simp add: find_None_iff)
  next
    case (Some x)
    then have "x \<in> set (adRows d)" "arID x = i" by (auto simp: find_Some_iff)
    then show ?thesis using Some uniq by simp
  qed
  have "activeRow d' j = ((activeRow d)(i \<mapsto> restored r)) j" for j
    using first by (simp add: d' activeRow_def updateWhere_def move)
  then have "activeRow d' = (activeRow d)(i \<mapsto> restored r)" by blast
  then show thesis using r none by (intro that) (simp_all add: d' updateWhere_def)
qed

subsection \<open>Memberships\<close>

lemma members_set:
  "ListAccountGroupMemberships (SetAccountGroups i gs d) j =
    (if j = i then sort (dedupPositive [] gs) else ListAccountGroupMemberships d j)"
proof (cases "j = i")
  case True
  have "filter (\<lambda>m. fst m = i) (filter (\<lambda>m. fst m \<noteq> i) (adMembers d)) = []" by simp
  then show ?thesis using True by (simp add: ListAccountGroupMemberships_def SetAccountGroups_def filter_map comp_def)
next
  case False
  then have "filter (\<lambda>m. fst m = j) (filter (\<lambda>m. fst m \<noteq> i) (adMembers d)) = filter (\<lambda>m. fst m = j) (adMembers d)"
    by (induction "adMembers d") (auto simp: filter_filter intro: filter_cong)
  then show ?thesis using False by (simp add: ListAccountGroupMemberships_def SetAccountGroups_def filter_map comp_def)
qed

lemma rowConfig_groups: "(rowConfig e gs r)\<lparr>cfGroups := gs'\<rparr> = rowConfig e gs' r"
  by (simp add: rowConfig_def Let_def)

lemma deleteGroup_config:
  assumes "adRows d' = adRows d" "adMembers d' = filter (\<lambda>m. snd m \<noteq> g) (adMembers d)"
  shows "tableConfig e d' = (\<lambda>i. map_option (withoutGroup g) (tableConfig e d i))"
proof -
  have "ListAccountGroupMemberships d' i = removeInt64 (ListAccountGroupMemberships d i) g" for i
  proof -
    have "map snd (filter (\<lambda>m. fst m = i) (filter (\<lambda>m. snd m \<noteq> g) ms)) = filter (\<lambda>v. v \<noteq> g) (map snd (filter (\<lambda>m. fst m = i) ms))"
      for ms :: "(int \<times> int) list" by (induction ms) auto
    then show ?thesis by (simp add: ListAccountGroupMemberships_def assms(2) removeInt64_def filter_sort del: filter_filter)
  qed
  then show ?thesis
    by (simp add: fun_eq_iff tableConfig_def activeRow_def assms(1) option.map_comp comp_def rowConfig_groups)
qed

subsection \<open>From a row to an account\<close>

lemma config_restoreCooldown [config_simps]: "account_config (RestoreModelCooldown now model reason resetAt updatedAt a) = account_config a"
  by (simp add: RestoreModelCooldown_def account_config_def Let_def)

lemma config_restoreCooldowns [config_simps]:
  "account_config (fold (\<lambda>m. RestoreModelCooldown now (mrModel m) (mrReason m) (mrResetAt m) (mrUpdatedAt m)) ms a) = account_config a"
  by (induction ms arbitrary: a) (simp_all add: config_simps)

lemma config_setCooldown [config_simps]: "account_config (SetCooldownUntil t reason a) = account_config a"
  by (simp add: SetCooldownUntil_def account_config_def Let_def)

lemma config_usage [config_simps]: "account_config (rowUsage e r a) = account_config a"
proof -
  have s: "account_config (SetUsageSnapshot x t b) = account_config b" "account_config (SetUsageSnapshot5h x t b) = account_config b"
    "account_config (b\<lparr>Reset7dAt := t\<rparr>) = account_config b" for x t b
    by (simp_all add: SetUsageSnapshot_def SetUsageSnapshot5h_def account_config_def)
  show ?thesis by (simp add: rowUsage_def Let_def s split: option.split)
qed

lemma config_dates:
  "account_config (case x of Some t \<Rightarrow> a\<lparr>ExpiresAt := t\<rparr> | None \<Rightarrow> a) = account_config a"
  "account_config (case x of Some t \<Rightarrow> a\<lparr>SubscriptionExpiresAt := t\<rparr> | None \<Rightarrow> a) = account_config a"
  by (cases x; simp add: account_config_def)+

lemma config_tokens:
  "account_config (rowTokens e r a) = (account_config a)\<lparr>cfBaseURL :=
     (let q = TrimSpace (GetCredential e r ''qoder_base_url'') in if isQoderRow e r \<and> q \<noteq> [] then TrimRight CHR ''/'' q else cfBaseURL (account_config a))\<rparr>"
proof -
  let ?q = "TrimSpace (GetCredential e r ''qoder_base_url'')"
  define b where "b = a\<lparr>AccessToken := GetCredential e r ''access_token'', AccountID := GetCredential e r ''account_id'', Email := GetCredential e r ''email'',
    PlanType := GetCredential e r ''plan_type'', HealthTier := (if Status a \<noteq> StatusError then HealthTierHealthy else HealthTier a)\<rparr>"
  define a1 where "a1 = (if GetCredential e r ''access_token'' = [] then a else
     (case (if GetCredential e r ''expires_at'' = [] then None else rcParseTime e (GetCredential e r ''expires_at'')) of Some t \<Rightarrow> b\<lparr>ExpiresAt := t\<rparr> | None \<Rightarrow> b))"
  define a2 where "a2 = (case (if GetCredential e r ''subscription_expires_at'' = [] then None
     else rcParseTime e (GetCredential e r ''subscription_expires_at'')) of Some t \<Rightarrow> a1\<lparr>SubscriptionExpiresAt := t\<rparr> | None \<Rightarrow> a1)"
  define a3 where "a3 = (if ?q \<noteq> [] then a2\<lparr>BaseURL := TrimRight CHR ''/'' ?q\<rparr> else a2)"
  have f: "rowTokens e r a = (if isQoderRow e r then if AccessToken a3 \<noteq> [] \<and> Status a3 \<noteq> StatusError then a3\<lparr>HealthTier := HealthTierHealthy\<rparr> else a3 else a2)"
    by (simp only: rowTokens_def Let_def a3_def a2_def a1_def b_def)
  have "account_config b = account_config a" by (simp add: b_def account_config_def)
  then have "account_config a1 = account_config a" by (simp only: a1_def config_dates split: if_split) simp
  then have 2: "account_config a2 = account_config a" by (simp only: a2_def config_dates)
  have "account_config (x\<lparr>HealthTier := h\<rparr>) = account_config x" "account_config (x\<lparr>BaseURL := u\<rparr>) = (account_config x)\<lparr>cfBaseURL := u\<rparr>" for x h u
    by (simp_all add: account_config_def)
  then show ?thesis by (simp add: f a3_def 2 Let_def)
qed

lemma config_identity:
  "account_config (rowIdentity e r) = (rowConfig e [] r)\<lparr>cfThreshold5h := 0, cfThreshold7d := 0, cfDisabled5h := False, cfDisabled7d := False,
     cfBaseURL := TrimRight CHR ''/'' (TrimSpace (GetCredential e r ''base_url''))\<rparr>"
  by (simp add: rowIdentity_def account_config_def rowConfig_def newAccount_def setAllowedAPIKeyIDsLocked_def Let_def)

lemma config_thresholds:
  assumes "account_config a = c" "cfThreshold5h c = 0" "cfThreshold7d c = 0"
  shows "account_config (rowThresholds e r a) = c\<lparr>cfThreshold5h := rowThreshold e r ''auto_pause_5h_threshold'',
     cfThreshold7d := rowThreshold e r ''auto_pause_7d_threshold'', cfDisabled5h := GetCredentialBool r ''auto_pause_5h_disabled'',
     cfDisabled7d := GetCredentialBool r ''auto_pause_7d_disabled''\<rparr>"
proof -
  have "AutoPause5hThreshold a = 0" "AutoPause7dThreshold a = 0" using assms(2,3) by (simp_all add: assms(1) [symmetric] account_config_def)
  then show ?thesis by (simp add: assms(1) [symmetric] rowThresholds_def rowThreshold_def account_config_def split: option.split)
qed

lemma build_config:
  assumes "buildAccountFromRow e now s cds r = Some a"
  shows "account_config a = rowConfig e [] r"
proof -
  let ?a1 = "rowTokens e r (rowIdentity e r)"
  define a2 where "a2 = (case arCooldownUntil r of Some t \<Rightarrow> if now < t then SetCooldownUntil t (arCooldownReason r) ?a1 else ?a1 | None \<Rightarrow> ?a1)"
  define a3 where "a3 = rowThresholds e r (rowUsage e r a2)"
  have "account_config ?a1 = (rowConfig e [] r)\<lparr>cfThreshold5h := 0, cfThreshold7d := 0, cfDisabled5h := False, cfDisabled7d := False\<rparr>"
    unfolding config_tokens config_identity by (simp add: rowConfig_def rowBaseURL_def Let_def)
  then have "account_config (rowUsage e r a2) = (rowConfig e [] r)\<lparr>cfThreshold5h := 0, cfThreshold7d := 0, cfDisabled5h := False, cfDisabled7d := False\<rparr>"
    by (simp add: a2_def config_simps split: option.split)
  from config_thresholds [OF this] have "account_config a3 = rowConfig e [] r" unfolding a3_def by (simp add: rowConfig_def Let_def)
  moreover have "account_config a = account_config a3"
    using assms by (auto simp: buildAccountFromRow_def Let_def a3_def a2_def config_simps split: if_splits)
  ultimately show ?thesis by simp
qed

lemma build_DBID: "buildAccountFromRow e now s cds r = Some a \<Longrightarrow> DBID a = arID r"
  using build_config [of e now s cds r a] by (metis cfID_config rowConfig_sel(1))

subsection \<open>Scheduling options\<close>

definition schedulerConfig :: "schedulerUpdate \<Rightarrow> string option \<Rightarrow> string option \<Rightarrow> accountConfig \<Rightarrow> accountConfig" where
  "schedulerConfig u proxyURL baseURL c =
     c\<lparr>cfScoreBias := orKeep (suScoreBias u) (cfScoreBias c), cfBaseConcurrency := orKeep (suBaseConcurrency u) (cfBaseConcurrency c),
       cfSkipWarm := orKeep (suSkipWarm u) (cfSkipWarm c),
       cfKeys := orKeep (suAllowedKeys u) (cfKeys c), cfKeySet := orKeep (map_option set (suAllowedKeys u)) (cfKeySet c),
       cfThreshold5h := orKeep (map_option normalizeQuotaAutoPauseThreshold (suThreshold5h u)) (cfThreshold5h c),
       cfThreshold7d := orKeep (map_option normalizeQuotaAutoPauseThreshold (suThreshold7d u)) (cfThreshold7d c),
       cfDisabled5h := orKeep (suDisabled5h u) (cfDisabled5h c), cfDisabled7d := orKeep (suDisabled7d u) (cfDisabled7d c),
       cfTags := orKeep (suTags u) (cfTags c), cfGroups := orKeep (suGroupIDs u) (cfGroups c),
       cfProxyURL := orKeep (map_option TrimSpace proxyURL) (cfProxyURL c),
       cfBaseURL := orKeep (map_option (\<lambda>b. TrimRight CHR ''/'' (TrimSpace b)) baseURL) (cfBaseURL c)\<rparr>"

lemma orKeep_simps [simp]: "orKeep None x = x" "orKeep (Some v) x = v"
  by (simp_all add: orKeep_def)

lemma schedulerConfig_groups:
  "suGroupIDs u = None \<Longrightarrow> (schedulerConfig u p b c)\<lparr>cfGroups := cfGroups c\<rparr> = schedulerConfig u p b c"
  "suGroupIDs u = Some gs \<Longrightarrow> (schedulerConfig u p b c)\<lparr>cfGroups := gs\<rparr> = schedulerConfig u p b c"
  by (cases c; simp add: schedulerConfig_def)+

lemma setCredential_at: "setCredential k v m j = (if j = k \<and> v \<noteq> None then v else m j)"
  by (cases v) (auto simp: setCredential_def)

definition newCredentials :: "schedulerUpdate \<Rightarrow> string option \<Rightarrow> credentials" where
  "newCredentials u baseURL =
     setCredential ''allowed_api_key_ids'' (map_option (\<lambda>vs. numbers (normalizePositiveInt64Slice vs)) (suAllowedKeys u)) (credentialUpdates u baseURL)"

lemma newCredentials_at:
  "newCredentials u b ''allowed_api_key_ids'' = map_option (\<lambda>vs. numbers (normalizePositiveInt64Slice vs)) (suAllowedKeys u)"
  "newCredentials u b ''auto_pause_5h_threshold'' = map_option CrNumber (suThreshold5h u)"
  "newCredentials u b ''auto_pause_7d_threshold'' = map_option CrNumber (suThreshold7d u)"
  "newCredentials u b ''auto_pause_5h_disabled'' = map_option CrBool (suDisabled5h u)"
  "newCredentials u b ''auto_pause_7d_disabled'' = map_option CrBool (suDisabled7d u)"
  "newCredentials u b ''base_url'' = map_option CrString b"
  "newCredentials u b ''qoder_base_url'' = None" "newCredentials u b ''upstream_type'' = None"
  by (simp_all add: newCredentials_def credentialUpdates_def setCredential_at)

definition fullUpdate :: "time \<Rightarrow> schedulerUpdate \<Rightarrow> string option \<Rightarrow> string option \<Rightarrow> AccountRow \<Rightarrow> AccountRow" where
  "fullUpdate now u proxyURL baseURL r =
     r\<lparr>arScoreBiasOverride := orKeep (suScoreBias u) (arScoreBiasOverride r),
       arBaseConcurrencyOverride := orKeep (suBaseConcurrency u) (arBaseConcurrencyOverride r),
       arSkipWarmTier := orKeep (suSkipWarm u) (arSkipWarmTier r), arTags := orKeep (suTags u) (arTags r),
       arProxyURL := (case proxyURL of None \<Rightarrow> arProxyURL r | Some t \<Rightarrow> TrimSpace t),
       arCredentials := arCredentials r ++ newCredentials u baseURL, arUpdatedAt := now\<rparr>"

lemma updatedRow_full:
  "rowConfig e gs (updatedRow now u proxyURL (credentialUpdates u baseURL) r) = rowConfig e gs (fullUpdate now u proxyURL baseURL r)"
proof (cases "suScoreBias u = None \<and> suBaseConcurrency u = None \<and> suSkipWarm u = None \<and> suTags u = None \<and> proxyURL = None \<and> newCredentials u baseURL = Map.empty")
  case True
  then have "updatedRow now u proxyURL (credentialUpdates u baseURL) r = r" by (simp add: updatedRow_def newCredentials_def Let_def)
  moreover have "rowConfig e gs (fullUpdate now u proxyURL baseURL r) = rowConfig e gs r"
    using True by (subst rowConfig_columns [where r = r]) (simp_all add: fullUpdate_def orKeep_def rowConfig_def Let_def)
  ultimately show ?thesis by simp
qed (auto simp: updatedRow_def fullUpdate_def newCredentials_def mergeCredentialMaps_def Let_def)

lemma fullUpdate_config:
  assumes "arCredentials r ''qoder_base_url'' = None"
    and keys: "\<And>vs. suAllowedKeys u = Some vs \<Longrightarrow> normal_ids vs \<and> (\<forall>v \<in> set vs. v < 2 ^ 63)"
  shows "rowConfig e gs (fullUpdate now u proxyURL baseURL r) = (schedulerConfig u proxyURL baseURL (rowConfig e gs r))\<lparr>cfGroups := gs\<rparr>"
proof -
  let ?r = "fullUpdate now u proxyURL baseURL r"
  have c: "arCredentials ?r k = (case newCredentials u baseURL k of None \<Rightarrow> arCredentials r k | Some x \<Rightarrow> Some x)" for k
    by (simp add: fullUpdate_def map_add_def)
  have t: "rowThreshold e ?r ''auto_pause_5h_threshold'' = orKeep (map_option normalizeQuotaAutoPauseThreshold (suThreshold5h u)) (rowThreshold e r ''auto_pause_5h_threshold'')"
    "rowThreshold e ?r ''auto_pause_7d_threshold'' = orKeep (map_option normalizeQuotaAutoPauseThreshold (suThreshold7d u)) (rowThreshold e r ''auto_pause_7d_threshold'')"
    by (cases "suThreshold5h u"; simp add: rowThreshold_def GetCredentialFloat64_def c newCredentials_at orKeep_def)
      (cases "suThreshold7d u"; simp add: rowThreshold_def GetCredentialFloat64_def c newCredentials_at orKeep_def)
  have b: "GetCredentialBool ?r ''auto_pause_5h_disabled'' = orKeep (suDisabled5h u) (GetCredentialBool r ''auto_pause_5h_disabled'')"
    "GetCredentialBool ?r ''auto_pause_7d_disabled'' = orKeep (suDisabled7d u) (GetCredentialBool r ''auto_pause_7d_disabled'')"
    by (cases "suDisabled5h u"; simp add: GetCredentialBool_def c newCredentials_at orKeep_def)
      (cases "suDisabled7d u"; simp add: GetCredentialBool_def c newCredentials_at orKeep_def)
  have q: "GetCredential e ?r ''qoder_base_url'' = []" "GetCredential e r ''qoder_base_url'' = []"
    by (simp_all add: GetCredential_def c newCredentials_at assms(1))
  have bu: "GetCredential e ?r ''base_url'' = orKeep baseURL (GetCredential e r ''base_url'')"
    unfolding GetCredential_def c newCredentials_at by (cases baseURL; simp add: orKeep_def)
  have url: "rowBaseURL e ?r = orKeep (map_option (\<lambda>b. TrimRight CHR ''/'' (TrimSpace b)) baseURL) (rowBaseURL e r)"
    unfolding rowBaseURL_def q bu by (cases baseURL; simp add: orKeep_def)
  have k: "normalizeAllowedAPIKeyIDs (GetCredentialInt64Slice ?r ''allowed_api_key_ids'') =
      orKeep (suAllowedKeys u) (normalizeAllowedAPIKeyIDs (GetCredentialInt64Slice r ''allowed_api_key_ids''))"
  proof (cases "suAllowedKeys u")
    case (Some vs)
    have n: "normal_ids vs" "\<forall>v \<in> set vs. 0 < v \<and> v < 2 ^ 63" using keys [OF Some] by (auto simp: normal_ids_def)
    show ?thesis using Some by (simp add: GetCredentialInt64Slice_def c newCredentials_at orKeep_def normalize_fix n(1) int64_numbers [OF n(2,1)])
  qed (simp add: GetCredentialInt64Slice_def c newCredentials_at orKeep_def)
  have p: "TrimSpace (arProxyURL ?r) = orKeep (map_option TrimSpace proxyURL) (TrimSpace (arProxyURL r))"
    by (cases proxyURL; simp add: fullUpdate_def orKeep_def)
  have s: "set (orKeep (suAllowedKeys u) x) = orKeep (map_option set (suAllowedKeys u)) (set x)" for x by (cases "suAllowedKeys u"; simp add: orKeep_def)
  have o: "arScoreBiasOverride ?r = orKeep (suScoreBias u) (arScoreBiasOverride r)" "arBaseConcurrencyOverride ?r = orKeep (suBaseConcurrency u) (arBaseConcurrencyOverride r)"
    "arSkipWarmTier ?r = orKeep (suSkipWarm u) (arSkipWarmTier r)" "arTags ?r = orKeep (suTags u) (arTags r)" "arID ?r = arID r" "arLocked ?r = arLocked r"
    "arEnabled ?r = arEnabled r" "arCreditEnabled ?r = arCreditEnabled r" "arCreditSkipUsageWindow ?r = arCreditSkipUsageWindow r"
    by (simp_all add: fullUpdate_def)
  show ?thesis unfolding rowConfig_def Let_def t b url k p o schedulerConfig_def by (simp add: s)
qed

lemma updatedRow_frame [simp]:
  "arID (updatedRow now u p c r) = arID r" "isDeleted (updatedRow now u p c r) = isDeleted r"
  by (simp_all add: updatedRow_def isDeleted_def Let_def)

lemma SetAccountGroups_config: "normal_ids gs \<Longrightarrow> tableConfig e (SetAccountGroups i gs d) = modAt i (\<lambda>c. c\<lparr>cfGroups := gs\<rparr>) (tableConfig e d)"
proof
  fix j assume n: "normal_ids gs"
  have a: "activeRow (SetAccountGroups i gs d) x = activeRow d x" for x by (simp add: activeRow_def SetAccountGroups_def)
  show "tableConfig e (SetAccountGroups i gs d) j = modAt i (\<lambda>c. c\<lparr>cfGroups := gs\<rparr>) (tableConfig e d) j"
    by (cases "j = i") (simp_all add: tableConfig_def a members_set modAt_def option.map_comp comp_def rowConfig_groups normal_ids_fix n)
qed

lemma metadata_config:
  assumes ok: "UpdateAccountSchedulerMetadata up now i u proxyURL (credentialUpdates u baseURL) d = (d', DBOk ())"
    and url: "\<And>r. r \<in> set (adRows d) \<Longrightarrow> arCredentials r ''qoder_base_url'' = None"
    and keys: "\<And>vs. suAllowedKeys u = Some vs \<Longrightarrow> normal_ids vs \<and> (\<forall>v \<in> set vs. v < 2 ^ 63)"
    and groups: "\<And>gs. suGroupIDs u = Some gs \<Longrightarrow> normal_ids gs"
  shows "tableConfig e d' = modAt i (schedulerConfig u proxyURL baseURL) (tableConfig e d)"
proof -
  let ?d = "updateWhere (\<lambda>r. arID r = i) (updatedRow now u proxyURL (credentialUpdates u baseURL)) d"
  have d': "d' = (case suGroupIDs u of None \<Rightarrow> ?d | Some gs \<Rightarrow> SetAccountGroups i gs ?d)"
    using ok by (auto simp: UpdateAccountSchedulerMetadata_def Let_def split: if_splits)
  have g: "rowConfig e gs (updatedRow now u proxyURL (credentialUpdates u baseURL) r) =
      (schedulerConfig u proxyURL baseURL (rowConfig e gs r))\<lparr>cfGroups := cfGroups (rowConfig e gs r)\<rparr>" if "r \<in> set (adRows d)" for r gs
    using fullUpdate_config [where u = u, OF url [OF that] keys] by (simp add: updatedRow_full)
  have 1: "tableConfig e ?d = modAt i (\<lambda>c. (schedulerConfig u proxyURL baseURL c)\<lparr>cfGroups := cfGroups c\<rparr>) (tableConfig e d)"
    by (rule tableConfig_update [OF _ _ g]) simp_all
  show ?thesis
  proof (cases "suGroupIDs u")
    case None
    then show ?thesis unfolding d' by (simp add: 1 schedulerConfig_groups)
  next
    case (Some gs)
    then show ?thesis unfolding d' by (simp add: SetAccountGroups_config groups 1 modAt_comp schedulerConfig_groups)
  qed
qed

subsection \<open>Well-formed tables\<close>

text \<open>
  Identifiers are unique, no row has the address of an earlier release, and no account in the recycle bin has a group.
\<close>

definition accounts_ok :: "AccountDB \<Rightarrow> bool" where
  "accounts_ok d \<longleftrightarrow> distinct (map arID (adRows d)) \<and> (\<forall>r \<in> set (adRows d). arCredentials r ''qoder_base_url'' = None) \<and>
     (\<forall>r \<in> set (adRows d). isDeleted r \<longrightarrow> arID r \<notin> fst ` set (adMembers d))"

lemma accounts_ok_update:
  assumes "accounts_ok d" "\<And>r. c r \<Longrightarrow> arID (f r) = arID r" "\<And>r. c r \<Longrightarrow> isDeleted (f r) \<Longrightarrow> isDeleted r"
    and "\<And>r. c r \<Longrightarrow> arCredentials r ''qoder_base_url'' = None \<Longrightarrow> arCredentials (f r) ''qoder_base_url'' = None"
  shows "accounts_ok (updateWhere c f d)"
proof -
  let ?d = "updateWhere c f d"
  have "map arID (adRows ?d) = map arID (adRows d)" by (simp add: updateWhere_def assms(2))
  moreover have "\<exists>x \<in> set (adRows d). arID r = arID x \<and> (isDeleted r \<longrightarrow> isDeleted x) \<and>
      (arCredentials x ''qoder_base_url'' = None \<longrightarrow> arCredentials r ''qoder_base_url'' = None)" if r: "r \<in> set (adRows ?d)" for r
  proof -
    from r obtain x where "x \<in> set (adRows d)" "r = (if c x then f x else x)" by (auto simp: updateWhere_def)
    then show ?thesis using assms(2-4) by (intro bexI [of _ x]) auto
  qed
  moreover have "adMembers ?d = adMembers d" by (simp add: updateWhere_def)
  ultimately show ?thesis using assms(1) unfolding accounts_ok_def by metis
qed

lemma unique_row: "accounts_ok d \<Longrightarrow> x \<in> set (adRows d) \<Longrightarrow> y \<in> set (adRows d) \<Longrightarrow> arID x = arID y \<Longrightarrow> x = y"
  unfolding accounts_ok_def distinct_map by (blast dest: inj_onD)

lemma accounts_ok_cong: "accounts_ok d' \<Longrightarrow> adRows d = adRows d' \<Longrightarrow> adMembers d = adMembers d' \<Longrightarrow> accounts_ok d"
  by (simp add: accounts_ok_def)

lemma accounts_ok_members: "accounts_ok d \<Longrightarrow> set ms \<subseteq> set (adMembers d) \<Longrightarrow> accounts_ok (d\<lparr>adMembers := ms\<rparr>)"
  by (auto simp: accounts_ok_def)

lemma accounts_ok_groups: "accounts_ok (d\<lparr>adGroups := x\<rparr>) = accounts_ok d" "accounts_ok (d\<lparr>adNextGroupID := n\<rparr>) = accounts_ok d"
  by (simp_all add: accounts_ok_def)

lemma accounts_ok_shrink: "accounts_ok d \<Longrightarrow> accounts_ok (d\<lparr>adRows := filter Q (adRows d)\<rparr>)"
  by (auto simp: accounts_ok_def distinct_map_filter)

lemma accounts_ok_set:
  assumes "accounts_ok d" and live: "\<And>r. r \<in> set (adRows d) \<Longrightarrow> arID r = i \<Longrightarrow> \<not> isDeleted r"
  shows "accounts_ok (SetAccountGroups i gs d)"
proof -
  have sub: "fst ` set (adMembers (SetAccountGroups i gs d)) \<subseteq> insert i (fst ` set (adMembers d))" by (auto simp: SetAccountGroups_def)
  have rows: "adRows (SetAccountGroups i gs d) = adRows d" by (simp add: SetAccountGroups_def)
  have "arID r \<notin> fst ` set (adMembers (SetAccountGroups i gs d))" if r: "r \<in> set (adRows d)" "isDeleted r" for r
  proof -
    have "arID r \<noteq> i" using live r by blast
    moreover have "arID r \<notin> fst ` set (adMembers d)" using assms(1) r by (simp add: accounts_ok_def)
    ultimately show ?thesis using sub by blast
  qed
  then show ?thesis using assms(1) by (simp add: accounts_ok_def rows)
qed

lemma accounts_ok_metadata:
  assumes "accounts_ok d" "UpdateAccountSchedulerMetadata up now i u proxyURL (credentialUpdates u baseURL) d = (d', DBOk ())"
  shows "accounts_ok d'"
proof -
  let ?d = "updateWhere (\<lambda>r. arID r = i) (updatedRow now u proxyURL (credentialUpdates u baseURL)) d"
  have d': "d' = (case suGroupIDs u of None \<Rightarrow> ?d | Some gs \<Rightarrow> SetAccountGroups i gs ?d)" and act: "list_ex (\<lambda>r. arID r = i \<and> \<not> isDeleted r) (adRows d)"
    using assms(2) by (auto simp: UpdateAccountSchedulerMetadata_def affectedRows_def Let_def split: if_splits)
  have "arCredentials (updatedRow now u proxyURL (credentialUpdates u baseURL) r) ''qoder_base_url'' = arCredentials r ''qoder_base_url''" for r
    using newCredentials_at(7) [of u baseURL] by (simp add: updatedRow_def mergeCredentialMaps_def Let_def newCredentials_def [symmetric] map_add_def)
  then have ok: "accounts_ok ?d" by (intro accounts_ok_update [OF assms(1)]) simp_all
  from act obtain a where a: "a \<in> set (adRows d)" "arID a = i" "\<not> isDeleted a" by (auto simp: list_ex_iff)
  have live: "\<not> isDeleted r" if "r \<in> set (adRows d)" "arID r = i" for r
    using unique_row [OF assms(1) a(1) that(1)] a(2,3) that(2) by simp
  have live': "\<not> isDeleted r" if r: "r \<in> set (adRows ?d)" "arID r = i" for r
  proof -
    from r(1) obtain x where x: "x \<in> set (adRows d)" "r = (if arID x = i then updatedRow now u proxyURL (credentialUpdates u baseURL) x else x)"
      unfolding updateWhere_def by auto
    have "arID x = i" "isDeleted r = isDeleted x" using r(2) unfolding x(2) by (simp_all split: if_splits)
    then show ?thesis using live [OF x(1)] by simp
  qed
  show ?thesis using ok accounts_ok_set [OF ok live'] unfolding d' by (simp split: option.split)
qed

end
