(* ===== verification/AccountAdminProps.thy ===== *)
theory AccountAdminProps
  imports AccountTableProps
begin

section \<open>Administration of accounts: properties\<close>

text \<open>
  The pool and the tables agree about the configuration of every account, whatever the administrator does, so that a restart changes nothing; and what
  deletion, restoration and the groups do.
\<close>

subsection \<open>The store\<close>

lemma quota_ok: "store_ok s \<Longrightarrow> store_ok (ApplyAccountQuotaAutoPauseConfig now i a b c d s)"
  by (simp add: ApplyAccountQuotaAutoPauseConfig_def fastSchedulerUpdate_ok updAccount_ok sel_simps split: option.split)

lemma onAccountID_ok: "store_ok s \<Longrightarrow> (\<And>a. DBID (f a) = DBID a) \<Longrightarrow> store_ok (onAccountID i f s)"
  by (simp add: onAccountID_def updAccount_ok split: option.split)

lemma strings_ok:
  assumes "store_ok s"
  shows "store_ok (ApplyAccountTags i tags s)" "store_ok (ApplyAccountProxyURL i u s)" "store_ok (ApplyAccountBaseURL i u s)"
  using assms by (simp_all add: ApplyAccountTags_def ApplyAccountProxyURL_def ApplyAccountBaseURL_def onAccountID_ok)

lemma credit_ok: "store_ok s \<Longrightarrow> store_ok (storeUpdateAccountCredit now i credit skip s)"
  by (simp add: storeUpdateAccountCredit_def fastSchedulerUpdate_ok updAccount_ok sel_simps split: option.split)

text \<open>One step of \<open>applySchedulerUpdate\<close> after the other: each keeps the invariant and changes the configuration of one account.\<close>

definition changes :: "int \<Rightarrow> (accountConfig \<Rightarrow> accountConfig) \<Rightarrow> Store \<Rightarrow> Store \<Rightarrow> bool" where
  "changes i g s t \<longleftrightarrow> store_ok s \<longrightarrow> store_ok t \<and> memConfig t = modAt i g (memConfig s)"

lemma changes_refl: "changes i (\<lambda>c. c) s s"
  by (simp add: changes_def)

lemma changes_trans: "changes i f s t \<Longrightarrow> changes i g t r \<Longrightarrow> changes i (\<lambda>c. g (f c)) s r"
  by (simp add: changes_def modAt_comp)

lemma modAt_cong: "(\<And>c. m i = Some c \<Longrightarrow> f c = g c) \<Longrightarrow> modAt i f m = modAt i g m"
  by (cases "m i") (auto simp: modAt_def)

lemma overrides_changes:
  "changes i (\<lambda>c. c\<lparr>cfScoreBias := orKeep (suScoreBias u) (cfScoreBias c), cfBaseConcurrency := orKeep (suBaseConcurrency u) (cfBaseConcurrency c),
     cfSkipWarm := orKeep (suSkipWarm u) (cfSkipWarm c)\<rparr>) s (applyOverrides now i u s)"
proof (cases "suScoreBias u = None \<and> suBaseConcurrency u = None \<and> suSkipWarm u = None")
  case True
  then show ?thesis using changes_refl by (simp add: applyOverrides_def)
next
  case False
  let ?c = "accountByID i s"
  let ?b = "case suSkipWarm u of Some b \<Rightarrow> Some b | None \<Rightarrow> map_option SkipWarmTier ?c"
  have f: "applyOverrides now i u s = fst (ApplyAccountSchedulerOverrides now i (orKeep (suScoreBias u) (Option.bind ?c ScoreBiasOverride))
      (orKeep (suBaseConcurrency u) (Option.bind ?c BaseConcurrencyOverride)) ?b s)"
    using False by (auto simp: applyOverrides_def Let_def)
  have "c\<lparr>cfScoreBias := orKeep (suScoreBias u) (Option.bind ?c ScoreBiasOverride), cfBaseConcurrency := orKeep (suBaseConcurrency u) (Option.bind ?c BaseConcurrencyOverride),
      cfSkipWarm := orKeep ?b (cfSkipWarm c)\<rparr> =
    c\<lparr>cfScoreBias := orKeep (suScoreBias u) (cfScoreBias c), cfBaseConcurrency := orKeep (suBaseConcurrency u) (cfBaseConcurrency c),
      cfSkipWarm := orKeep (suSkipWarm u) (cfSkipWarm c)\<rparr>" if "memConfig s i = Some c" for c
  proof -
    from that obtain a where "?c = Some a" "c = account_config a" by (auto simp: memConfig_def)
    then show ?thesis by (cases "suSkipWarm u") (simp_all add: account_config_def)
  qed
  then show ?thesis unfolding changes_def f
    by (simp add: applies_ok ApplyOverrides_config [OF store_ids_ok] cong: modAt_cong)
qed

lemma whenSet_changes:
  assumes "\<And>x. v = Some x \<Longrightarrow> changes i (g x) s (f x s)"
  shows "changes i (\<lambda>c. whenSet v g c) s (whenSet v f s)"
  using assms changes_refl by (cases v) (simp_all add: whenSet_def)

lemma quotaConfig_changes:
  "changes i (\<lambda>c. c\<lparr>cfThreshold5h := orKeep (map_option normalizeQuotaAutoPauseThreshold (suThreshold5h u)) (cfThreshold5h c),
      cfThreshold7d := orKeep (map_option normalizeQuotaAutoPauseThreshold (suThreshold7d u)) (cfThreshold7d c),
      cfDisabled5h := orKeep (suDisabled5h u) (cfDisabled5h c), cfDisabled7d := orKeep (suDisabled7d u) (cfDisabled7d c)\<rparr>) s (applyQuotaConfig now i u s)"
  using changes_refl by (simp add: applyQuotaConfig_def changes_def quota_ok ApplyQuota_config [OF store_ids_ok])

text \<open>A field that is set only if the request has it.\<close>

lemma whenSet_fields:
  "whenSet v (\<lambda>x c. c\<lparr>cfTags := x\<rparr>) c = c\<lparr>cfTags := orKeep v (cfTags c)\<rparr>"
  "whenSet v' (\<lambda>x c. c\<lparr>cfGroups := x\<rparr>) c = c\<lparr>cfGroups := orKeep v' (cfGroups c)\<rparr>"
  "whenSet v'' (\<lambda>x c. c\<lparr>cfProxyURL := TrimSpace x\<rparr>) c = c\<lparr>cfProxyURL := orKeep (map_option TrimSpace v'') (cfProxyURL c)\<rparr>"
  "whenSet v'' (\<lambda>x c. c\<lparr>cfBaseURL := TrimRight CHR ''/'' (TrimSpace x)\<rparr>) c =
     c\<lparr>cfBaseURL := orKeep (map_option (\<lambda>b. TrimRight CHR ''/'' (TrimSpace b)) v'') (cfBaseURL c)\<rparr>"
  "whenSet v' (\<lambda>x c. c\<lparr>cfKeys := x, cfKeySet := set x\<rparr>) c = c\<lparr>cfKeys := orKeep v' (cfKeys c), cfKeySet := orKeep (map_option set v') (cfKeySet c)\<rparr>"
  by (cases v; cases v'; cases v''; simp add: whenSet_def)+

lemma schedulerUpdate_changes:
  assumes "\<And>vs. suAllowedKeys u = Some vs \<Longrightarrow> normal_ids vs"
  shows "changes i (schedulerConfig u proxyURL baseURL) s (applySchedulerUpdate now i u proxyURL baseURL s)"
proof -
  note c = changes_def store_ids_ok
  define s1 where "s1 = applyOverrides now i u s"
  define s2 where "s2 = whenSet (suAllowedKeys u) (\<lambda>ids s. fst (ApplyAccountAllowedAPIKeys now i ids s)) s1"
  define s3 where "s3 = applyQuotaConfig now i u s2"
  define s4 where "s4 = whenSet (suTags u) (ApplyAccountTags i) s3"
  define s5 where "s5 = whenSet (suGroupIDs u) (\<lambda>gs s. fst (ApplyAccountGroups now i gs s)) s4"
  define s6 where "s6 = whenSet proxyURL (ApplyAccountProxyURL i) s5"
  have 2: "changes i (whenSet (suAllowedKeys u) (\<lambda>x c. c\<lparr>cfKeys := x, cfKeySet := set x\<rparr>)) s1 s2" unfolding s2_def
    by (rule whenSet_changes) (simp add: c applies_ok ApplyKeys_config normalize_fix assms)
  have 4: "changes i (whenSet (suTags u) (\<lambda>x c. c\<lparr>cfTags := x\<rparr>)) s3 s4" unfolding s4_def
    by (rule whenSet_changes) (simp add: c strings_ok ApplyStrings_config)
  have 5: "changes i (whenSet (suGroupIDs u) (\<lambda>x c. c\<lparr>cfGroups := x\<rparr>)) s4 s5" unfolding s5_def
    by (rule whenSet_changes) (simp add: c applies_ok ApplyAccountGroups_config)
  have 6: "changes i (whenSet proxyURL (\<lambda>x c. c\<lparr>cfProxyURL := TrimSpace x\<rparr>)) s5 s6" unfolding s6_def
    by (rule whenSet_changes) (simp add: c strings_ok ApplyStrings_config)
  have 7: "changes i (whenSet baseURL (\<lambda>x c. c\<lparr>cfBaseURL := TrimRight CHR ''/'' (TrimSpace x)\<rparr>)) s6 (whenSet baseURL (ApplyAccountBaseURL i) s6)"
    by (rule whenSet_changes) (simp add: c strings_ok ApplyStrings_config)
  note changes_trans [OF changes_trans [OF changes_trans [OF changes_trans [OF changes_trans [OF changes_trans [OF overrides_changes [of i u s now, folded s1_def]
    2] quotaConfig_changes [of i u s2 now, folded s3_def]] 4] 5] 6] 7]
  moreover have "applySchedulerUpdate now i u proxyURL baseURL s = whenSet baseURL (ApplyAccountBaseURL i) s6"
    by (simp only: applySchedulerUpdate_def s6_def s5_def s4_def s3_def s2_def s1_def)
  ultimately show ?thesis by (simp add: whenSet_fields schedulerConfig_def [abs_def])
qed

subsection \<open>Agreement\<close>

definition world_ok :: "rowCodec \<Rightarrow> AdminWorld \<Rightarrow> bool" where
  "world_ok e w \<longleftrightarrow> store_ok (awStore w) \<and> accounts_ok (awDB w) \<and> (\<forall>k \<in> set (keyRows (awKeys w)). rowID k < 2 ^ 63) \<and>
     memConfig (awStore w) \<subseteq>\<^sub>m tableConfig e (awDB w)"

lemma world_okD:
  assumes "world_ok e w"
  shows "store_ok (awStore w)" "ids_ok (awStore w)" "accounts_ok (awDB w)" "memConfig (awStore w) \<subseteq>\<^sub>m tableConfig e (awDB w)"
  using assms store_ids_ok by (auto simp: world_ok_def)

lemma agree:
  assumes "world_ok e w" "memConfig (awStore w) i = Some c"
  obtains r where "activeRow (awDB w) i = Some r" "c = rowConfig e (ListAccountGroupMemberships (awDB w) i) r"
proof -
  have "tableConfig e (awDB w) i = Some c" using world_okD(4) [OF assms(1)] assms(2) by (metis domI map_le_def)
  then show thesis by (auto simp: tableConfig_def intro: that)
qed

text \<open>A handler that changes one account in the table and in the pool.\<close>

lemma world_ok_changes:
  assumes ok: "world_ok e w" and s: "changes i g (awStore w) t" and d: "accounts_ok d" "tableConfig e d = modAt i g (tableConfig e (awDB w))"
  shows "world_ok e (w\<lparr>awDB := d, awStore := t\<rparr>)"
  using ok s d modAt_mono [of "memConfig (awStore w)"] by (simp add: world_ok_def changes_def)

lemma counted_ok: "updateCounted up c f d = (d', DBOk ()) \<Longrightarrow> d' = updateWhere c f d"
  by (auto simp: updateCounted_def split: if_splits)

lemma ToggleAccountEnabled_ok:
  assumes "world_ok e w"
  shows "world_ok e (fst (ToggleAccountEnabled op i body w))"
proof (cases body)
  case (Some b)
  obtain d r where u: "SetAccountEnabled (opUp op) (opNow op) i b (awDB w) = (d, r)" by force
  show ?thesis
  proof (cases r)
    case (DBOk x)
    then have d: "d = updateWhere (\<lambda>r. arID r = i) (\<lambda>r. r\<lparr>arEnabled := b, arUpdatedAt := opNow op\<rparr>) (awDB w)"
      using u counted_ok by (simp add: SetAccountEnabled_def)
    have "world_ok e (w\<lparr>awDB := d, awStore := fst (ApplyAccountEnabled (opNow op) i b (awStore w))\<rparr>)"
    proof (rule world_ok_changes [OF assms])
      show "changes i (\<lambda>c. c\<lparr>cfPaused := \<not> b\<rparr>) (awStore w) (fst (ApplyAccountEnabled (opNow op) i b (awStore w)))"
        by (simp add: changes_def applies_ok ApplyAccountEnabled_config [OF store_ids_ok])
      show "accounts_ok d" unfolding d by (rule accounts_ok_update [OF world_okD(3) [OF assms]]) (simp_all add: isDeleted_def)
      show "tableConfig e d = modAt i (\<lambda>c. c\<lparr>cfPaused := \<not> b\<rparr>) (tableConfig e (awDB w))" unfolding d by (rule enabled_config)
    qed
    then show ?thesis using Some u DBOk by (simp add: ToggleAccountEnabled_def onWorldStore_def)
  qed (use assms Some u in \<open>simp_all add: ToggleAccountEnabled_def\<close>)
qed (simp add: ToggleAccountEnabled_def assms)

lemma ToggleAccountLock_ok:
  assumes "world_ok e w"
  shows "world_ok e (fst (ToggleAccountLock op i body w))"
proof (cases body)
  case (Some b)
  let ?d = "updateWhere (\<lambda>r. arID r = i) (\<lambda>r. r\<lparr>arLocked := b\<rparr>) (awDB w)"
  have "world_ok e (w\<lparr>awDB := ?d, awStore := onAccountID i (\<lambda>a. a\<lparr>Locked := b\<rparr>) (awStore w)\<rparr>)"
  proof (rule world_ok_changes [OF assms])
    show "changes i (\<lambda>c. c\<lparr>cfLocked := b\<rparr>) (awStore w) (onAccountID i (\<lambda>a. a\<lparr>Locked := b\<rparr>) (awStore w))"
      by (simp add: changes_def onAccountID_ok ApplyStrings_config [OF store_ids_ok])
    show "accounts_ok ?d" by (rule accounts_ok_update [OF world_okD(3) [OF assms]]) (simp_all add: isDeleted_def)
  qed (rule locked_config)
  then show ?thesis
    using Some assms by (cases "FindByID i (awStore w)") (simp_all add: ToggleAccountLock_def SetAccountLocked_def updateSilent_def onWorldStore_def onAccountID_def)
qed (simp add: ToggleAccountLock_def assms)

lemma UpdateAccountCredit_ok:
  assumes "world_ok e w"
  shows "world_ok e (fst (UpdateAccountCredit op i body w))"
proof (cases "body = None \<or> FindByID i (awStore w) = None")
  case False
  then obtain credit skip where body: "body = Some (credit, skip)" by auto
  obtain d r where u: "dbUpdateAccountCredit (opUp op) (opNow op) i credit skip (awDB w) = (d, r)" by force
  let ?g = "\<lambda>c. c\<lparr>cfCredit := orKeep credit (cfCredit c), cfCreditSkip := orKeep skip (cfCreditSkip c)\<rparr>"
  show ?thesis
  proof (cases r)
    case (DBOk x)
    have t: "accounts_ok d \<and> tableConfig e d = modAt i ?g (tableConfig e (awDB w))"
    proof (cases "credit = None \<and> skip = None")
      case True
      then have "d = awDB w" using u by (simp add: dbUpdateAccountCredit_def)
      then show ?thesis using True world_okD(3) [OF assms] by simp
    next
      case False
      then have d: "d = updateWhere (\<lambda>r. arID r = i) (\<lambda>r. r\<lparr>arCreditEnabled := orKeep credit (arCreditEnabled r),
          arCreditSkipUsageWindow := orKeep skip (arCreditSkipUsageWindow r), arUpdatedAt := opNow op\<rparr>) (awDB w)"
        using u DBOk counted_ok by (simp add: dbUpdateAccountCredit_def split: if_splits)
      have "accounts_ok d" unfolding d by (rule accounts_ok_update [OF world_okD(3) [OF assms]]) (simp_all add: isDeleted_def)
      then show ?thesis unfolding d by (simp add: credit_config)
    qed
    have "changes i ?g (awStore w) (storeUpdateAccountCredit (opNow op) i credit skip (awStore w))"
      by (simp add: changes_def credit_ok Credit_config [OF store_ids_ok])
    from world_ok_changes [OF assms this conjunct1 [OF t] conjunct2 [OF t]] show ?thesis using False body u DBOk assms by (simp add: UpdateAccountCredit_def onWorldStore_def)
  qed (use assms False body u in \<open>simp_all add: UpdateAccountCredit_def\<close>)
qed (auto simp: UpdateAccountCredit_def assms split: option.split)

lemma parse_normal:
  assumes "parseSchedulerReq req = Some u"
  shows "suAllowedKeys u = Some vs \<Longrightarrow> normal_ids vs" "suGroupIDs u = Some gs \<Longrightarrow> normal_ids gs"
  using assms integersOf_normal by (auto simp: parseSchedulerReq_def bind_eq_Some_conv)

lemma references_bound:
  assumes "referencesExist op u w = 200" "suAllowedKeys u = Some vs" "\<forall>k \<in> set (keyRows (awKeys w)). rowID k < 2 ^ 63"
  shows "\<forall>v \<in> set vs. v < 2 ^ 63"
proof (cases "vs = []")
  case False
  then have "findMissingAPIKeyIDs (opKeysUp op) vs (awKeys w) = DBOk []"
    using assms(1,2) by (auto simp: referencesExist_def split: dbResult.splits list.splits)
  then have "\<forall>v \<in> set vs. v \<in> rowID ` set (keyRows (awKeys w))"
    using False by (auto simp: findMissingAPIKeyIDs_def ListAPIKeys_def filter_empty_conv split: dbResult.splits if_splits)
  then show ?thesis using assms(3) by auto
qed simp

lemma UpdateAccountScheduler_ok:
  assumes "world_ok e w"
  shows "world_ok e (fst (UpdateAccountScheduler op i body w))"
proof (cases "\<exists>req u baseURL d. body = Some req \<and> parseSchedulerReq req = Some u \<and> referencesExist op u w = 200 \<and> requestedBaseURL op req = Some baseURL \<and>
    UpdateAccountSchedulerMetadata (opUp op) (opNow op) i u (usProxyURL req) (credentialUpdates u baseURL) (awDB w) = (d, DBOk ())")
  case True
  then obtain req u baseURL d where c: "body = Some req" "parseSchedulerReq req = Some u" "referencesExist op u w = 200" "requestedBaseURL op req = Some baseURL"
    and d: "UpdateAccountSchedulerMetadata (opUp op) (opNow op) i u (usProxyURL req) (credentialUpdates u baseURL) (awDB w) = (d, DBOk ())" by blast
  note n = parse_normal [OF c(2)]
  note t = world_okD(3) [OF assms]
  have "world_ok e (w\<lparr>awDB := d, awStore := applySchedulerUpdate (opNow op) i u (usProxyURL req) baseURL (awStore w)\<rparr>)"
  proof (rule world_ok_changes [OF assms schedulerUpdate_changes])
    show "normal_ids vs" if "suAllowedKeys u = Some vs" for vs using n(1) that .
    show "accounts_ok d" by (rule accounts_ok_metadata [OF t d])
    show "tableConfig e d = modAt i (schedulerConfig u (usProxyURL req) baseURL) (tableConfig e (awDB w))"
    proof (rule metadata_config [OF d])
      show "arCredentials r ''qoder_base_url'' = None" if "r \<in> set (adRows (awDB w))" for r using t that by (simp add: accounts_ok_def)
      show "normal_ids vs \<and> (\<forall>v \<in> set vs. v < 2 ^ 63)" if "suAllowedKeys u = Some vs" for vs
        using n(1) [OF that] references_bound [OF c(3) that] assms by (simp add: world_ok_def)
      show "normal_ids gs" if "suGroupIDs u = Some gs" for gs using n(2) that .
    qed
  qed
  then show ?thesis using c d by (simp add: UpdateAccountScheduler_def)
next
  case False
  have "fst (UpdateAccountScheduler op i body w) = w"
  proof (cases body)
    case (Some req)
    show ?thesis
    proof (cases "parseSchedulerReq req")
      case u: (Some u)
      show ?thesis
      proof (cases "requestedBaseURL op req")
        case b: (Some b)
        obtain d r where d: "UpdateAccountSchedulerMetadata (opUp op) (opNow op) i u (usProxyURL req) (credentialUpdates u b) (awDB w) = (d, r)" by force
        show ?thesis using False Some u b d by (cases r) (auto simp: UpdateAccountScheduler_def)
      qed (simp add: UpdateAccountScheduler_def Some u)
    qed (simp add: UpdateAccountScheduler_def Some)
  qed (simp add: UpdateAccountScheduler_def)
  then show ?thesis using assms by simp
qed

text \<open>Groups.\<close>

lemma world_ok_frame:
  assumes "world_ok e w" "store_ok t" "memConfig t = memConfig (awStore w)" "adRows d = adRows (awDB w)" "adMembers d = adMembers (awDB w)"
  shows "world_ok e (w\<lparr>awDB := d, awStore := t\<rparr>)"
  using assms tableConfig_rows [OF assms(4,5)] by (simp add: world_ok_def accounts_ok_def)

lemma CreateAccountGroup_ok:
  assumes "world_ok e w"
  shows "world_ok e (fst (CreateAccountGroup op body w))"
proof (cases "\<exists>req name d i. body = Some req \<and> sanitizeAccountGroupName (cgName req) = Some name \<and> dbCreateAccountGroup (opUp op) name (TrimSpace (cgDescription req))
    (TrimSpace (cgColor req)) (cgThreshold5h req) (cgThreshold7d req) (orKeep (cgSortOrder req) 0) (awDB w) = (d, Inr i)")
  case True
  then obtain req name d i where c: "body = Some req" "sanitizeAccountGroupName (cgName req) = Some name" and d: "dbCreateAccountGroup (opUp op) name (TrimSpace (cgDescription req))
    (TrimSpace (cgColor req)) (cgThreshold5h req) (cgThreshold7d req) (orKeep (cgSortOrder req) 0) (awDB w) = (d, Inr i)" by blast
  have rows: "adRows d = adRows (awDB w)" "adMembers d = adMembers (awDB w)" using d by (auto simp: dbCreateAccountGroup_def Let_def split: if_splits)
  let ?t = "SetGroupAutoPauseThresholds i (cgThreshold5h req) (cgThreshold7d req) (awStore w)"
  have "world_ok e (w\<lparr>awDB := d, awStore := ?t\<rparr>)" "world_ok e (w\<lparr>awDB := d, awStore := awStore w\<rparr>)"
    by (rule world_ok_frame [OF assms]; simp add: rows thresholds_ok world_okD(1) [OF assms] thresholds_config [OF world_okD(2) [OF assms]])+
  then show ?thesis using assms c d by (cases "opUp op") (simp_all add: CreateAccountGroup_def onWorldStore_def Let_def)
next
  case False
  have "fst (CreateAccountGroup op body w) = w"
    using False by (auto simp: CreateAccountGroup_def Let_def split: option.split sum.split groupError.split prod.split)
  then show ?thesis using assms by simp
qed

lemma UpdateAccountGroup_ok:
  assumes "world_ok e w"
  shows "world_ok e (fst (UpdateAccountGroup op i body w))"
proof (cases "Option.bind body sanitizedArgs")
  case (Some u)
  obtain d r where d: "dbUpdateAccountGroup (opUp op) i u (awDB w) = (d, r)" by force
  have rows: "adRows d = adRows (awDB w)" "adMembers d = adMembers (awDB w)" using d by (auto simp: dbUpdateAccountGroup_def split: if_splits)
  have "world_ok e (w\<lparr>awDB := d, awStore := SetGroupAutoPauseThresholds i x y (awStore w)\<rparr>)" "world_ok e (w\<lparr>awDB := d, awStore := awStore w\<rparr>)" for x y
    by (rule world_ok_frame [OF assms]; simp add: rows thresholds_ok world_okD(1) [OF assms] thresholds_config [OF world_okD(2) [OF assms]])+
  then show ?thesis using assms Some d
    by (auto simp: UpdateAccountGroup_def onWorldStore_def Let_def split: sum.split groupError.split prod.split)
qed (simp add: UpdateAccountGroup_def assms)

lemma invalidate_config:
  "store_ok (invalidateAPIKeyRuntimeCaches k s) = store_ok s" "memConfig (invalidateAPIKeyRuntimeCaches k s) = memConfig s"
  by (simp_all add: invalidateAPIKeyRuntimeCaches_def deleteRuntimeCache_def memConfig_frame Let_def)

lemma refreshKeys_config:
  assumes "store_ok s"
  shows "store_ok (refreshAPIKeyAllowedGroupsAfterGroupDelete now up g k s) \<and> memConfig (refreshAPIKeyAllowedGroupsAfterGroupDelete now up g k s) = memConfig s"
proof -
  let ?f = "\<lambda>r s. invalidateAPIKeyRuntimeCaches (rowKey r) (SetAPIKeyAllowedGroups now (rowID r) (AllowedGroupIDs r) s)"
  have "store_ok (fold ?f rs s) \<and> memConfig (fold ?f rs s) = memConfig s" for rs
    using assms by (induction rs arbitrary: s) (auto simp: invalidate_config SetGroups_ok SetKeyGroups_config store_ids_ok)
  then show ?thesis using assms by (cases "ListAPIKeys up k") (auto simp: refreshAPIKeyAllowedGroupsAfterGroupDelete_def)
qed

lemma dropGroup_ok: "store_ok s \<Longrightarrow> store_ok (dropGroupFromAccounts now g s)"
proof -
  have "store_ok s \<Longrightarrow> store_ok (fold (dropStep now g) ps s)" for ps
    by (induction ps arbitrary: s) (auto simp: dropStep_def applies_ok split: option.split)
  then show "store_ok s \<Longrightarrow> ?thesis" by (simp add: dropGroupFromAccounts_def dropStep_def [abs_def])
qed

lemma DeleteAccountGroup_ok:
  assumes "world_ok e w"
  shows "world_ok e (fst (DeleteAccountGroup op i force w))"
proof -
  obtain d k r where c: "dbDeleteAccountGroup (opUp op) i (EqualFold force ''true'') (awDB w, awKeys w) = ((d, k), r)" by (metis prod.exhaust)
  show ?thesis
  proof (cases r)
    case (Inr x)
    have d: "d = (awDB w)\<lparr>adMembers := filter (\<lambda>m. snd m \<noteq> i) (adMembers (awDB w)), adGroups := filter (\<lambda>g. grID g \<noteq> i) (adGroups (awDB w))\<rparr>"
      and k: "k = pruneDeletedGroupFromAPIKeyScopes i (awKeys w)"
      using c Inr by (auto simp: dbDeleteAccountGroup_def Let_def split: if_splits)
    let ?t = "dropGroupFromAccounts (opNow op) i (DeleteGroupAutoPauseThresholds i (awStore w))"
    note s = thresholds_ok(3) [OF world_okD(1) [OF assms], of i]
    have "memConfig ?t = (\<lambda>j. map_option (withoutGroup i) (memConfig (awStore w) j))"
      by (simp add: dropGroup_config(2) [OF store_ids_ok [OF s]]) (simp add: DeleteGroupAutoPauseThresholds_def memConfig_frame)
    moreover have "tableConfig e d = (\<lambda>j. map_option (withoutGroup i) (tableConfig e (awDB w) j))"
      by (rule deleteGroup_config) (simp_all add: d)
    moreover have "accounts_ok d" using world_okD(3) [OF assms] by (auto simp: d accounts_ok_def)
    moreover have "\<forall>r \<in> set (keyRows k). rowID r < 2 ^ 63" using assms by (auto simp: k pruneDeletedGroupFromAPIKeyScopes_def world_ok_def)
    ultimately show ?thesis
      using c Inr comp_mono [OF world_okD(4) [OF assms]] refreshKeys_config [OF dropGroup_ok [OF s]]
      by (simp add: DeleteAccountGroup_def world_ok_def)
  qed (use assms c in \<open>auto simp: DeleteAccountGroup_def split: groupError.split\<close>)
qed

text \<open>The recycle bin.\<close>

lemma SoftDelete_table:
  assumes "accounts_ok d" "SoftDeleteAccount up now i d = (d', DBOk ())"
  shows "accounts_ok d'"
proof -
  let ?d = "d\<lparr>adMembers := filter (\<lambda>m. fst m \<noteq> i) (adMembers d)\<rparr>"
  let ?f = "\<lambda>r. if arID r = i \<and> arStatus r \<noteq> ''deleted'' then softDeleted now r else r"
  have d': "adRows d' = map ?f (adRows d)" "adMembers d' = filter (\<lambda>m. fst m \<noteq> i) (adMembers d)"
    using SoftDelete_config(2) [OF assms(2)] by (simp_all add: updateWhere_def)
  have f: "arID (?f r) = arID r" "arCredentials (?f r) = arCredentials r" "arID r \<noteq> i \<Longrightarrow> isDeleted (?f r) = isDeleted r" for r
    by (simp_all add: softDeleted_def)
  have ids: "map arID (adRows d') = map arID (adRows d)" unfolding d' map_map by (simp only: comp_def f)
  have row: "arCredentials (?f r) ''qoder_base_url'' = None \<and> (isDeleted (?f r) \<longrightarrow> arID (?f r) \<notin> fst ` set (adMembers d'))" if "r \<in> set (adRows d)" for r
    using assms(1) that f [of r] unfolding accounts_ok_def d'(2) by (cases "arID r = i") auto
  have "arCredentials r ''qoder_base_url'' = None \<and> (isDeleted r \<longrightarrow> arID r \<notin> fst ` set (adMembers d'))" if r: "r \<in> set (adRows d')" for r
  proof -
    from r obtain x where x: "r = ?f x" "x \<in> set (adRows d)" unfolding d'(1) set_map by (rule imageE)
    show ?thesis unfolding x(1) by (rule row [OF x(2)])
  qed
  moreover have "distinct (map arID (adRows d'))" unfolding ids using assms(1) by (simp add: accounts_ok_def)
  ultimately show ?thesis by (simp add: accounts_ok_def)
qed

lemma deleteAccountByID_ok:
  assumes "world_ok e w"
  shows "world_ok e (fst (deleteAccountByID op i w))"
proof -
  obtain d r where d: "SoftDeleteAccount (opUp op) (opNow op) i (awDB w) = (d, r)" by force
  show ?thesis
  proof (cases r)
    case (DBOk x)
    then have d': "SoftDeleteAccount (opUp op) (opNow op) i (awDB w) = (d, DBOk ())" using d by simp
    show ?thesis
      using assms d DBOk SoftDelete_table [OF world_okD(3) [OF assms] d'] SoftDelete_config(1) [OF d', of e]
        drop_mono [OF world_okD(4) [OF assms], of i] RemoveAccount_config [OF world_okD(1) [OF assms], of i] RemoveAccount_ok [OF world_okD(1) [OF assms], of i]
      by (simp add: deleteAccountByID_def world_ok_def)
  qed (use assms d in \<open>simp_all add: deleteAccountByID_def\<close>)
qed

lemma runBatchDelete_ok: "world_ok e w \<Longrightarrow> world_ok e (fst (runBatchDeleteAccounts op cancelled n ids w))"
proof (induction ids arbitrary: n w)
  case (Cons i ids)
  note d = deleteAccountByID_ok [OF Cons.prems, of "op n" i]
  obtain w' r where r: "deleteAccountByID (op n) i w = (w', r)" by force
  show ?case using Cons.IH [of w' "Suc n"] Cons.prems d r by (cases r) (auto simp: case_prod_beta)
qed simp

lemma build_iff: "buildAccountFromRow e now s cds r = None \<longleftrightarrow> \<not> usableRow e r"
  by (simp add: buildAccountFromRow_def Let_def)

lemma usable_cong:
  assumes "arCredentials r' = arCredentials r"
  shows "usableRow e r' = usableRow e r"
  by (simp add: usableRow_def isResponsesRow_def accessors_cong [OF assms])

text \<open>A restored account comes back with the configuration of its row, without groups.\<close>

lemma Restore_effect:
  assumes ok: "world_ok e w" and p: "heap (awStore w) (opPtr op) = None" and e: "opCodec op = e"
    and r: "restoreAccountByID op i w = (w', DBOk ())"
  obtains q where "q \<in> set (adRows (awDB w))" "arID q = i" "world_ok e w'"
    "memConfig (awStore w') = (if usableRow e q then (memConfig (awStore w))(i \<mapsto> rowConfig e [] q) else memConfig (awStore w))"
proof -
  obtain d where d: "dbRestoreAccount (opUp op) (opNow op) i (awDB w) = (d, DBOk ())"
    using r by (auto simp: restoreAccountByID_def split: prod.splits dbResult.splits)
  let ?f = "\<lambda>r. r\<lparr>arStatus := ''active'', arErrorMessage := [], arCooldownReason := [], arCooldownUntil := None, arDeletedAt := None, arUpdatedAt := opNow op\<rparr>"
  have dist: "distinct (map arID (adRows (awDB w)))" using world_okD(3) [OF ok] by (simp add: accounts_ok_def)
  obtain q where q: "q \<in> set (adRows (awDB w))" "arID q = i" "isDeleted q"
    and none: "activeRow (awDB w) i = None" and act: "activeRow d = (activeRow (awDB w))(i \<mapsto> ?f q)" and mem: "adMembers d = adMembers (awDB w)"
    and rows: "adRows d = map (\<lambda>r. if arID r = i \<and> isDeleted r then ?f r else r) (adRows (awDB w))" by (rule Restore_active [OF dist d])
  have "accounts_ok (updateWhere (\<lambda>r. arID r = i \<and> isDeleted r) ?f (awDB w))" by (rule accounts_ok_update [OF world_okD(3) [OF ok]]) (simp_all add: isDeleted_def)
  then have td: "accounts_ok d" by (rule accounts_ok_cong) (simp_all add: mem rows updateWhere_def)
  have rc: "rowConfig e [] (?f q) = rowConfig e [] q"
    by (subst rowConfig_columns [where r = q]) (simp_all add: rowConfig_def Let_def)
  have tc: "tableConfig e d = (tableConfig e (awDB w))(i \<mapsto> rowConfig e [] q)"
  proof -
    have "i \<notin> fst ` set (adMembers (awDB w))" using world_okD(3) [OF ok] q by (auto simp: accounts_ok_def)
    then have "filter (\<lambda>m. fst m = i) (adMembers (awDB w)) = []" by (auto simp: filter_empty_conv)
    then have "ListAccountGroupMemberships d i = []" by (simp add: ListAccountGroupMemberships_def mem)
    moreover have "ListAccountGroupMemberships d j = ListAccountGroupMemberships (awDB w) j" for j by (simp add: ListAccountGroupMemberships_def mem)
    ultimately show ?thesis using rc by (auto simp: tableConfig_def act)
  qed
  have "tableConfig e (awDB w) i = None" by (simp add: tableConfig_def none)
  then have m: "memConfig (awStore w) i = None" using world_okD(4) [OF ok] by (metis domIff map_le_def)
  have find: "FindByID i (awStore w) = None"
  proof (rule ccontr)
    assume "FindByID i (awStore w) \<noteq> None"
    then obtain p' where "FindByID i (awStore w) = Some p'" by blast
    moreover from this have "heap (awStore w) p' \<noteq> None" using FindByID_iff [OF world_okD(2) [OF ok]] by (metis None_eq_map_option_iff option.distinct(1))
    ultimately have "memConfig (awStore w) i \<noteq> None" by (simp add: memConfig_def accountByID_def)
    with m show False by simp
  qed
  have up: "opUp op" using d by (auto simp: dbRestoreAccount_def updateCounted_def split: if_splits)
  have le: "memConfig (awStore w) \<subseteq>\<^sub>m tableConfig e d" using world_okD(4) [OF ok] m by (auto simp: tc map_le_def dom_def)
  have get: "getAccountByID True False i d = DBOk (?f q)" using act by (simp add: getAccountByID_def activeRow_def [abs_def] fun_eq_iff)
  have uf: "usableRow e (?f q) = usableRow e q" by (rule usable_cong) simp
  show thesis
  proof (cases "buildAccountFromRow e (opNow op) (awStore w) [] (?f q)")
    case None
    then have "w' = w\<lparr>awDB := d, awEvents := awEvents w @ [(i, ''restored'', ''recycle_bin'')]\<rparr>"
      using r d up find get e by (simp add: restoreAccountByID_def LoadAccountByID_def)
    moreover have "\<not> usableRow e q" using None uf by (simp add: build_iff)
    ultimately show thesis using ok td le by (intro that [OF q(1,2)]) (simp_all add: world_ok_def)
  next
    case (Some a)
    have id: "DBID a = i" using build_DBID [OF Some] q(2) by simp
    have c: "clearExpiredCooldown True (opNow op) (?f q) d = d" by (simp add: clearExpiredCooldown_def expiredCooldown_def)
    note add = AddAccount_config [OF world_okD(1) [OF ok] p, of a "opNow op", unfolded id, OF find]
    have w': "w' = w\<lparr>awDB := d, awStore := AddAccount (opNow op) (opPtr op) a (awStore w), awEvents := awEvents w @ [(i, ''restored'', ''recycle_bin'')]\<rparr>"
      using r Some d up find get e c by (simp add: restoreAccountByID_def LoadAccountByID_def)
    have mc: "memConfig (AddAccount (opNow op) (opPtr op) a (awStore w)) = (memConfig (awStore w))(i \<mapsto> rowConfig e [] q)"
      unfolding add(2) build_config [OF Some] rc by (rule refl)
    have "memConfig (AddAccount (opNow op) (opPtr op) a (awStore w)) \<subseteq>\<^sub>m tableConfig e d"
      using world_okD(4) [OF ok] m unfolding mc tc by (auto simp: map_le_def dom_def)
    moreover have "usableRow e q" using Some uf build_iff [of e "opNow op" "awStore w" "[]" "?f q"] by simp
    ultimately show thesis using ok td add(1) mc by (intro that [OF q(1,2)]) (simp_all add: w' world_ok_def)
  qed
qed

lemma Restore_ok:
  assumes ok: "world_ok e w" and p: "heap (awStore w) (opPtr op) = None" and e: "opCodec op = e"
  shows "world_ok e (fst (restoreAccountByID op i w))"
proof (cases "snd (restoreAccountByID op i w)")
  case (DBOk x)
  then have "restoreAccountByID op i w = (fst (restoreAccountByID op i w), DBOk ())" by (metis old.unit.exhaust prod.collapse)
  from Restore_effect [OF ok p e this] show ?thesis by blast
qed (use ok in \<open>auto simp: restoreAccountByID_def case_prod_beta split: prod.splits dbResult.splits\<close>)

lemma PurgeAccount_ok:
  assumes "world_ok e w"
  shows "world_ok e (fst (PurgeAccount op i w))"
proof -
  let ?Q = "\<lambda>r. \<not> (arID r = i \<and> isDeleted r)"
  let ?d = "(awDB w)\<lparr>adRows := filter ?Q (adRows (awDB w))\<rparr>"
  have t: "accounts_ok ?d" by (rule accounts_ok_shrink [OF world_okD(3) [OF assms]])
  have c: "tableConfig e ?d = tableConfig e (awDB w)" by (rule tableConfig_shrink [where Q = ?Q]) simp_all
  have "(memConfig (awStore w))(i := None) \<subseteq>\<^sub>m memConfig (awStore w)" by (auto simp: map_le_def)
  then have "memConfig (RemoveAccount i (awStore w)) \<subseteq>\<^sub>m tableConfig e ?d"
    unfolding RemoveAccount_config [OF world_okD(1) [OF assms]] c using world_okD(4) [OF assms] by (rule map_le_trans)
  then show ?thesis using assms t RemoveAccount_ok [OF world_okD(1) [OF assms], of i]
    by (auto simp: PurgeAccount_def dbPurgeAccount_def world_ok_def)
qed

lemma EmptyRecycleBin_ok:
  assumes "world_ok e w"
  shows "world_ok e (fst (EmptyRecycleBin op confirm w))"
proof -
  let ?d = "(awDB w)\<lparr>adRows := filter (\<lambda>r. \<not> isDeleted r) (adRows (awDB w))\<rparr>"
  have "accounts_ok ?d" by (rule accounts_ok_shrink [OF world_okD(3) [OF assms]])
  moreover have "tableConfig e ?d = tableConfig e (awDB w)" by (rule tableConfig_shrink [where Q = "\<lambda>r. \<not> isDeleted r"]) simp_all
  ultimately show ?thesis using assms
    by (simp add: EmptyRecycleBin_def PurgeDeletedAccounts_def world_ok_def split: option.split)
qed

text \<open>Whatever the administrator does. A restored account gets an unused address.\<close>

inductive admin_step :: "rowCodec \<Rightarrow> AdminWorld \<Rightarrow> AdminWorld \<Rightarrow> bool" for e where
  createGroup: "admin_step e w (fst (CreateAccountGroup op body w))"
| updateGroup: "admin_step e w (fst (UpdateAccountGroup op i gbody w))"
| deleteGroup: "admin_step e w (fst (DeleteAccountGroup op i force w))"
| delete: "admin_step e w (fst (DeleteAccount op i w))"
| batchDelete: "admin_step e w (fst (BatchDeleteAccounts ops cancelled ids w))"
| restore: "opCodec op = e \<Longrightarrow> heap (awStore w) (opPtr op) = None \<Longrightarrow> admin_step e w (fst (RestoreAccount op i w))"
| purge: "admin_step e w (fst (PurgeAccount op i w))"
| emptyBin: "admin_step e w (fst (EmptyRecycleBin op confirm w))"
| enabled: "admin_step e w (fst (ToggleAccountEnabled op i b w))"
| locked: "admin_step e w (fst (ToggleAccountLock op i b w))"
| credit: "admin_step e w (fst (UpdateAccountCredit op i cbody w))"
| scheduler: "admin_step e w (fst (UpdateAccountScheduler op i sbody w))"

lemma handlers_ok:
  assumes "world_ok e w"
  shows "world_ok e (fst (DeleteAccount op i w))" "world_ok e (fst (BatchDeleteAccounts ops cancelled ids w))"
    "opCodec op = e \<Longrightarrow> heap (awStore w) (opPtr op) = None \<Longrightarrow> world_ok e (fst (RestoreAccount op i w))"
  using assms deleteAccountByID_ok runBatchDelete_ok Restore_ok
  by (auto simp: DeleteAccount_def BatchDeleteAccounts_def RestoreAccount_def case_prod_beta Let_def split: option.split)

lemma admin_step_ok: "admin_step e w w' \<Longrightarrow> world_ok e w \<Longrightarrow> world_ok e w'"
  by (induction rule: admin_step.induct)
    (simp_all add: handlers_ok CreateAccountGroup_ok UpdateAccountGroup_ok DeleteAccountGroup_ok PurgeAccount_ok EmptyRecycleBin_ok
      ToggleAccountEnabled_ok ToggleAccountLock_ok UpdateAccountCredit_ok UpdateAccountScheduler_ok)

interpretation admin_machine: invariant_machine "admin_step e" "world_ok e" for e
  by unfold_locales (rule admin_step_ok)

subsection \<open>Start-up\<close>

lemma clearExpired_frame: "adMembers (clearExpiredCooldown up now r d) = adMembers d" "adGroups (clearExpiredCooldown up now r d) = adGroups d"
  by (simp_all add: clearExpiredCooldown_def dbClearCooldown_def updateSilent_def updateWhere_def)

lemma clearExpired_table: "accounts_ok d \<Longrightarrow> accounts_ok (clearExpiredCooldown up now r d)"
  unfolding clearExpiredCooldown_def dbClearCooldown_def updateSilent_def
  using accounts_ok_update [of d "\<lambda>x. arID x = arID r" "\<lambda>r. r\<lparr>arCooldownReason := [], arCooldownUntil := None, arUpdatedAt := now\<rparr>"] by (simp add: isDeleted_def)

lemma loadRows_facts:
  assumes "loadRows e up now cds prs (d, s) = (d', s')" "distinct (map fst prs)" "accounts_ok d"
  shows "accounts s' = accounts s @ map fst (filter (\<lambda>x. usableRow e (snd x)) prs) \<and>
    (\<forall>(p, r) \<in> set prs. usableRow e r \<longrightarrow> map_option account_config (heap s' p) = Some (rowConfig e [] r)) \<and>
    (\<forall>p. p \<notin> fst ` set prs \<longrightarrow> heap s' p = heap s p) \<and> fastScheduler s' = fastScheduler s \<and>
    accounts_ok d' \<and> tableConfig e d' = tableConfig e d \<and> adMembers d' = adMembers d"
  using assms
proof (induction prs arbitrary: d s)
  case (Cons x prs)
  obtain p r where x: "x = (p, r)" by force
  show ?case
  proof (cases "buildAccountFromRow e now s (cds (arID r)) r")
    case None
    then have "\<not> usableRow e r" by (simp add: build_iff)
    moreover have "heap s' p = heap s p \<or> p \<in> fst ` set prs" using Cons.IH [of d s] Cons.prems None x by auto
    ultimately show ?thesis using Cons.IH [of d s] Cons.prems None x by auto
  next
    case (Some a)
    let ?d = "clearExpiredCooldown up now r d"
    let ?s = "s\<lparr>heap := (heap s)(p \<mapsto> a), accounts := accounts s @ [p]\<rparr>"
    have u: "usableRow e r" using Some build_iff [of e now s "cds (arID r)" r] by auto
    have load: "loadRows e up now cds prs (?d, ?s) = (d', s')" using Cons.prems(1) Some x by simp
    have dist: "distinct (map fst prs)" "p \<notin> fst ` set prs" using Cons.prems(2) x by auto
    note IH = Cons.IH [OF load dist(1) clearExpired_table [OF Cons.prems(3)]]
    have "heap s' p = Some a" using IH dist(2) by simp
    then have "map_option account_config (heap s' p) = Some (rowConfig e [] r)" using build_config [OF Some] by simp
    then show ?thesis using IH x u by (auto simp: cooldown_config clearExpired_frame)
  qed
qed simp

lemma thresholds_frame: "ids_ok s \<Longrightarrow> ids_ok (loadGroupThresholds gs s) \<and> memConfig (loadGroupThresholds gs s) = memConfig s"
proof -
  have "ids_ok s \<Longrightarrow> ids_ok (fold (\<lambda>g s. if grThreshold5h g > 0 \<or> grThreshold7d g > 0
      then s\<lparr>groupAutoPauseThresholds := (groupAutoPauseThresholds s)(grID g \<mapsto> (grThreshold5h g, grThreshold7d g))\<rparr> else s) gs s) \<and>
    memConfig (fold (\<lambda>g s. if grThreshold5h g > 0 \<or> grThreshold7d g > 0
      then s\<lparr>groupAutoPauseThresholds := (groupAutoPauseThresholds s)(grID g \<mapsto> (grThreshold5h g, grThreshold7d g))\<rparr> else s) gs s) = memConfig s"
    by (rule fold_same_pool) (simp_all add: ids_ok_frame memConfig_frame)
  then show "ids_ok s \<Longrightarrow> ?thesis" by (simp add: loadGroupThresholds_def)
qed

lemma loadKeys_frame: "ids_ok s \<Longrightarrow> memConfig (LoadAPIKeyAllowedGroups now keys s) = memConfig s"
  using rebuildFast_config by (simp add: LoadAPIKeyAllowedGroups_def Let_def ids_ok_frame memConfig_frame split: option.split)

lemma activeRow_mem: "accounts_ok d \<Longrightarrow> activeRow d i = Some r \<longleftrightarrow> r \<in> set (adRows d) \<and> arID r = i \<and> \<not> isDeleted r"
proof
  assume t: "accounts_ok d" and r: "r \<in> set (adRows d) \<and> arID r = i \<and> \<not> isDeleted r"
  show "activeRow d i = Some r"
  proof (cases "activeRow d i")
    case None
    then show ?thesis using r by (auto simp: activeRow_def find_None_iff)
  next
    case (Some x)
    then show ?thesis using unique_row [OF t] r activeRow_SomeD [OF Some] by simp
  qed
qed (rule activeRow_SomeD)

text \<open>The configuration of every account that can be used is the one of its row.\<close>

definition loadedConfig :: "rowCodec \<Rightarrow> AccountDB \<Rightarrow> int \<rightharpoonup> accountConfig" where
  "loadedConfig e d i = Option.bind (activeRow d i) (\<lambda>r. if usableRow e r then Some (rowConfig e (ListAccountGroupMemberships d i) r) else None)"

lemma loaded_pool:
  assumes ok: "accounts_ok d" and ps: "distinct ps" "length (adRows d) \<le> length ps" and rows: "rows = sort_key arID (filter (\<lambda>r. \<not> isDeleted r) (adRows d))"
    and acc: "accounts s = map fst (filter (\<lambda>x. usableRow e (snd x)) (zip ps rows))"
    and heap: "\<forall>(p, r) \<in> set (zip ps rows). usableRow e r \<longrightarrow> map_option account_config (heap s p) = Some (rowConfig e [] r)"
  shows "ids_ok (rebuildAccountIndex s)"
    "memConfig (rebuildAccountIndex s) i = Option.bind (activeRow d i) (\<lambda>r. if usableRow e r then Some (rowConfig e [] r) else None)"
proof -
  let ?z = "filter (\<lambda>x. usableRow e (snd x)) (zip ps rows)"
  have set: "set rows = {r \<in> set (adRows d). \<not> isDeleted r}" by (auto simp: rows)
  have len: "length rows \<le> length ps" using ps(2) by (simp add: rows) (meson length_filter_le order_trans)
  have "distinct (map arID (filter (\<lambda>r. \<not> isDeleted r) (adRows d)))" using ok by (simp add: accounts_ok_def distinct_map_filter)
  then have drows: "distinct (map arID rows)" unfolding rows by (simp add: distinct_map)
  have zip: "map snd (zip ps rows) = rows" using len by (simp only: map_snd_zip_take min.absorb2 take_all order_refl)
  then have "map (\<lambda>x. arID (snd x)) (zip ps rows) = map arID rows" by (metis (no_types, lifting) comp_def map_eq_conv map_map)
  then have dist: "distinct (map (\<lambda>x. arID (snd x)) ?z)" using drows by (intro distinct_map_filter) (simp only:)
  have conf: "map_option account_config (heap s (fst x)) = Some (rowConfig e [] (snd x))" if "x \<in> set ?z" for x using heap that by auto
  have id: "map_option DBID (heap s (fst x)) = Some (arID (snd x))" if "x \<in> set ?z" for x
  proof -
    from conf [OF that] obtain a where "heap s (fst x) = Some a" "account_config a = rowConfig e [] (snd x)" by auto
    then show ?thesis using cfID_config [of a] by simp
  qed
  have "accountIDs s = map Some (map (\<lambda>x. arID (snd x)) ?z)" unfolding accountIDs_def acc map_map comp_def using id by (intro map_cong refl)
  moreover have "distinct (map Some xs) = distinct xs" for xs :: "int list" by (simp add: distinct_map)
  ultimately have "distinct (accountIDs s)" using dist by (simp only:)
  then show idx: "ids_ok (rebuildAccountIndex s)"
    using rebuildIndex_indexed [of s] by (auto simp: ids_ok_def)
  have mem: "(\<exists>p. (p, r) \<in> set (zip ps rows)) \<longleftrightarrow> r \<in> set rows" for r
  proof -
    have "set rows = snd ` set (zip ps rows)" by (metis zip set_map)
    then show ?thesis by (simp add: image_iff split_paired_Ex) force
  qed
  have "memConfig (rebuildAccountIndex s) i = Some c \<longleftrightarrow> (\<exists>r. activeRow d i = Some r \<and> usableRow e r \<and> c = rowConfig e [] r)" for c
  proof -
    have "memConfig (rebuildAccountIndex s) i = Some c \<longleftrightarrow> cfID c = i \<and> (\<exists>x \<in> set ?z. map_option account_config (heap s (fst x)) = Some c)"
      unfolding memConfig_iff [OF idx] by (simp add: acc)
    also have "\<dots> \<longleftrightarrow> cfID c = i \<and> (\<exists>x \<in> set ?z. c = rowConfig e [] (snd x))" 
    proof -
      have "map_option account_config (heap s (fst x)) = Some c \<longleftrightarrow> c = rowConfig e [] (snd x)" if "x \<in> set ?z" for x
        unfolding conf [OF that] by (metis option.inject)
      then show ?thesis by (metis (no_types, lifting))
    qed
    also have "\<dots> \<longleftrightarrow> (\<exists>r. (\<exists>p. (p, r) \<in> set (zip ps rows)) \<and> arID r = i \<and> usableRow e r \<and> c = rowConfig e [] r)" by auto
    finally show ?thesis unfolding mem by (auto simp: activeRow_mem [OF ok] set)
  qed
  then show "memConfig (rebuildAccountIndex s) i = Option.bind (activeRow d i) (\<lambda>r. if usableRow e r then Some (rowConfig e [] r) else None)"
    by (intro option_eqI) (auto simp: bind_eq_Some_conv split: if_splits)
qed

lemma loadRows_enabled: "loadRows e up now cds prs (d, s) = (d', s') \<Longrightarrow> fastSchedulerEnabled s' = fastSchedulerEnabled s"
proof (induction prs arbitrary: d s)
  case (Cons x prs)
  show ?case
  proof (cases "buildAccountFromRow e now s (cds (arID (snd x))) (snd x)")
    case None
    then show ?thesis using Cons.IH [of d s] Cons.prems by (cases x) auto
  next
    case (Some a)
    then show ?thesis using Cons.prems by (cases x) (auto dest: Cons.IH)
  qed
qed simp

text \<open>The stages of the start: rows, index and thresholds, memberships, groups of the keys.\<close>

lemma load_stages:
  assumes ok: "accounts_ok d" and ps: "distinct ps" and s: "accounts s = []"
    and load: "loadFromDB e True now ps keys (d, s) = Some (d', s')"
  obtains rows s2 ks where "rows = sort_key arID (filter (\<lambda>r. \<not> isDeleted r) (adRows d))"
    "accounts s2 = map fst (filter (\<lambda>x. usableRow e (snd x)) (zip ps rows))"
    "\<forall>(p, r) \<in> set (zip ps rows). usableRow e r \<longrightarrow> map_option account_config (heap s2 p) = Some (rowConfig e [] r)"
    "fastScheduler s2 = fastScheduler s" "fastSchedulerEnabled s2 = fastSchedulerEnabled s"
    "s' = LoadAPIKeyAllowedGroups now (Some ks) (ApplyAccountGroupMemberships now (\<lambda>i. Some (ListAccountGroupMemberships d i))
       (loadGroupThresholds (adGroups d') (rebuildAccountIndex s2)))"
    "accounts_ok d'" "tableConfig e d' = tableConfig e d" "\<forall>p. p \<notin> set ps \<longrightarrow> heap s2 p = heap s p"
proof -
  define rows where "rows = sort_key arID (filter (\<lambda>r. \<not> isDeleted r) (adRows d))"
  define cds where "cds = filter (\<lambda>m. mrResetAt m > now) (adCooldowns d)"
  define d1 where "d1 = fst (ClearExpiredModelCooldowns True now d)"
  obtain d2 s2 where l: "loadRows e True now (\<lambda>i. filter (\<lambda>m. mrAccountID m = i) cds) (zip ps rows) (d1, s) = (d2, s2)" by force
  have s': "s' = LoadAPIKeyAllowedGroups now (Some (map (\<lambda>k. (rowID k, AllowedGroupIDs k)) (sort_key rowID (keyRows keys))))
      (ApplyAccountGroupMemberships now (\<lambda>i. Some (ListAccountGroupMemberships d2 i)) (loadGroupThresholds (adGroups d2) (rebuildAccountIndex s2)))" and d': "d' = d2"
    using load l by (auto simp: loadFromDB_def ListActive_def ListActiveModelCooldowns_def ListAPIKeys_def rows_def [symmetric] cds_def [symmetric]
      d1_def [symmetric] Let_def)
  have d1: "adRows d1 = adRows d" "adMembers d1 = adMembers d" by (simp_all add: d1_def ClearExpiredModelCooldowns_def)
  have "distinct (map fst (zip ps rows))" using ps(1) by (simp add: map_fst_zip_take)
  note f = loadRows_facts [OF l this accounts_ok_cong [OF ok d1]]
  have mem: "ListAccountGroupMemberships d2 = ListAccountGroupMemberships d" using f d1 by (simp add: fun_eq_iff ListAccountGroupMemberships_def)
  have "tableConfig e d2 = tableConfig e d" using f tableConfig_rows [OF d1] by simp
  moreover have "\<forall>p. p \<notin> set ps \<longrightarrow> p \<notin> fst ` set (zip ps rows)" by (auto dest: set_zip_leftD)
  ultimately show thesis
    using f s loadRows_enabled [OF l] by (intro that [OF rows_def _ _ _ _ s' [unfolded mem, folded d']]) (simp_all add: d')
qed

lemma load_config:
  assumes ok: "accounts_ok d" and ps: "distinct ps" "length (adRows d) \<le> length ps" and s: "accounts s = []"
    and load: "loadFromDB e True now ps keys (d, s) = Some (d', s')"
  shows "memConfig s' = loadedConfig e d"
proof -
  obtain rows s2 ks where r: "rows = sort_key arID (filter (\<lambda>r. \<not> isDeleted r) (adRows d))"
    "accounts s2 = map fst (filter (\<lambda>x. usableRow e (snd x)) (zip ps rows))"
    "\<forall>(p, r) \<in> set (zip ps rows). usableRow e r \<longrightarrow> map_option account_config (heap s2 p) = Some (rowConfig e [] r)"
    and f: "fastScheduler s2 = fastScheduler s" "fastSchedulerEnabled s2 = fastSchedulerEnabled s"
    and s': "s' = LoadAPIKeyAllowedGroups now (Some ks) (ApplyAccountGroupMemberships now (\<lambda>i. Some (ListAccountGroupMemberships d i))
       (loadGroupThresholds (adGroups d') (rebuildAccountIndex s2)))" and d': "accounts_ok d'" "tableConfig e d' = tableConfig e d" "\<forall>p. p \<notin> set ps \<longrightarrow> heap s2 p = heap s p"
    by (rule load_stages [OF ok ps(1) s load])
  note pool = loaded_pool [OF ok ps r]
  have s3: "ids_ok (loadGroupThresholds gs (rebuildAccountIndex s2))" "memConfig (loadGroupThresholds gs (rebuildAccountIndex s2)) = memConfig (rebuildAccountIndex s2)" for gs
    using thresholds_frame [OF pool(1)] by simp_all
  note m = memberships_config [OF s3(1), of now "ListAccountGroupMemberships d"]
  have "memConfig s' i = loadedConfig e d i" for i
  proof -
    have "memConfig s' i = map_option (\<lambda>c. c\<lparr>cfGroups := ListAccountGroupMemberships d (cfID c)\<rparr>)
        (Option.bind (activeRow d i) (\<lambda>r. if usableRow e r then Some (rowConfig e [] r) else None))"
      unfolding s' loadKeys_frame [OF m(1)] m(2) s3(2) pool(2) by (rule refl)
    then show ?thesis by (cases "activeRow d i") (auto simp: loadedConfig_def rowConfig_groups dest: activeRow_SomeD)
  qed
  then show ?thesis by blast
qed

end
