(* ===== verification/AccountLifecycle.thy ===== *)
theory AccountLifecycle
  imports AccountAdminProps
begin

section \<open>The life of an account\<close>

text \<open>
  Properties of the administration of accounts over time: what a restart, a deletion, a restoration and the deletion of a group leave behind.
\<close>

subsection \<open>The store after the start\<close>

text \<open>A scheduler exists only while it is switched on; \<open>rebuildFastScheduler\<close> replaces whatever was there.\<close>

definition fast_only_on :: "Store \<Rightarrow> bool" where
  "fast_only_on s \<longleftrightarrow> (fastScheduler s \<noteq> None \<longrightarrow> fastSchedulerEnabled s)"

lemma rebuilt_ok:
  assumes "ids_ok s" "None \<notin> set (accountIDs s)" "fast_only_on s"
  shows "store_ok (rebuildFastScheduler now s)"
proof (cases "fastSchedulerEnabled s")
  case True
  have "store_ok (s\<lparr>fastScheduler := None\<rparr>)" using assms by (simp add: store_ok_def ids_ok_def accountIDs_def)
  then show ?thesis by (rule rebuildFast_fresh) (rule True)
next
  case False
  then have "fastScheduler s = None" using assms(3) by (simp add: fast_only_on_def)
  then show ?thesis using False assms by (simp add: rebuildFastScheduler_def store_ok_def ids_ok_def)
qed

lemma memberStep_fast: "fast_only_on s \<Longrightarrow> fast_only_on (memberStep now ms p s)"
  by (auto simp: fast_only_on_def memberStep_def fastSchedulerUpdate_def updAccount_def getFastScheduler_def Let_def split: option.split)

lemma memberSteps_frame:
  assumes "ids_ok s" "fast_only_on s"
  shows "fast_only_on (fold (memberStep now ms) ps s)" "accountIDs (fold (memberStep now ms) ps s) = accountIDs s"
    "map_option DBID (heap (fold (memberStep now ms) ps s) q) = map_option DBID (heap s q)"
proof -
  have "accountIDs (memberStep now ms p s) = accountIDs s" if "ids_ok s" for p s
    using memberStep_frame(2) [OF that] by (simp add: accountIDs_def memberStep_def [abs_def])
  then have "fast_only_on (fold (memberStep now ms) ps s) \<and> accountIDs (fold (memberStep now ms) ps s) = accountIDs s \<and>
      map_option DBID (heap (fold (memberStep now ms) ps s) q) = map_option DBID (heap s q)"
    using assms by (induction ps arbitrary: s) (simp_all add: memberStep_fast memberStep_frame)
  then show "fast_only_on (fold (memberStep now ms) ps s)" "accountIDs (fold (memberStep now ms) ps s) = accountIDs s"
    "map_option DBID (heap (fold (memberStep now ms) ps s) q) = map_option DBID (heap s q)" by auto
qed

lemma loadThresholds_sel:
  "fastScheduler (loadGroupThresholds gs s) = fastScheduler s" "fastSchedulerEnabled (loadGroupThresholds gs s) = fastSchedulerEnabled s"
  "accountIDs (loadGroupThresholds gs s) = accountIDs s" "heap (loadGroupThresholds gs s) = heap s"
proof -
  have "fastScheduler (loadGroupThresholds gs s) = fastScheduler s \<and> fastSchedulerEnabled (loadGroupThresholds gs s) = fastSchedulerEnabled s \<and>
      heap (loadGroupThresholds gs s) = heap s \<and> accounts (loadGroupThresholds gs s) = accounts s"
    unfolding loadGroupThresholds_def by (induction gs arbitrary: s) auto
  then show "fastScheduler (loadGroupThresholds gs s) = fastScheduler s" "fastSchedulerEnabled (loadGroupThresholds gs s) = fastSchedulerEnabled s"
    "accountIDs (loadGroupThresholds gs s) = accountIDs s" "heap (loadGroupThresholds gs s) = heap s" by (simp_all add: accountIDs_def)
qed

lemma load_world_ok:
  assumes ok: "accounts_ok d" and ps: "distinct ps" "length (adRows d) \<le> length ps" and s: "accounts s = []" "fast_only_on s"
    and load: "loadFromDB e True now ps keys (d, s) = Some (d', s')" and keys: "\<forall>k \<in> set (keyRows keys). rowID k < 2 ^ 63"
  shows "world_ok e \<lparr>awDB = d', awKeys = keys, awStore = s', awEvents = ev\<rparr>" "p \<notin> set ps \<Longrightarrow> heap s p = None \<Longrightarrow> heap s' p = None"
proof -
  obtain rows s2 ks where r: "rows = sort_key arID (filter (\<lambda>r. \<not> isDeleted r) (adRows d))"
    "accounts s2 = map fst (filter (\<lambda>x. usableRow e (snd x)) (zip ps rows))"
    "\<forall>(p, r) \<in> set (zip ps rows). usableRow e r \<longrightarrow> map_option account_config (heap s2 p) = Some (rowConfig e [] r)"
    and f: "fastScheduler s2 = fastScheduler s" "fastSchedulerEnabled s2 = fastSchedulerEnabled s"
    and s': "s' = LoadAPIKeyAllowedGroups now (Some ks) (ApplyAccountGroupMemberships now (\<lambda>i. Some (ListAccountGroupMemberships d i))
       (loadGroupThresholds (adGroups d') (rebuildAccountIndex s2)))" and d': "accounts_ok d'" "tableConfig e d' = tableConfig e d" "\<forall>p. p \<notin> set ps \<longrightarrow> heap s2 p = heap s p"
    by (rule load_stages [OF ok ps(1) s(1) load])
  let ?s3 = "loadGroupThresholds (adGroups d') (rebuildAccountIndex s2)"
  let ?s4 = "fold (memberStep now (ListAccountGroupMemberships d)) (accounts ?s3) ?s3"
  have s4: "ApplyAccountGroupMemberships now (\<lambda>i. Some (ListAccountGroupMemberships d i)) ?s3 = ?s4"
    by (simp add: ApplyAccountGroupMemberships_def memberStep_def [abs_def])
  note pool = loaded_pool(1) [OF ok ps r]
  have s3: "ids_ok ?s3" "fast_only_on ?s3" using thresholds_frame [OF pool] s(2) f by (simp_all add: fast_only_on_def loadThresholds_sel rebuildAccountIndex_def)
  have "\<forall>p \<in> set (accounts s2). heap s2 p \<noteq> None" using r(2,3) by auto
  then have "None \<notin> set (accountIDs s2)" by (auto simp: accountIDs_def)
  then have "None \<notin> set (accountIDs ?s3)" by (simp only: loadThresholds_sel rebuildIndex_sel not_False_eq_True)
  then have "ids_ok ?s4" "fast_only_on ?s4" "None \<notin> set (accountIDs ?s4)"
    using join.pass(1) [OF s3(1)] memberSteps_frame [OF s3] by simp_all
  then have "store_ok s'" unfolding s' s4 LoadAPIKeyAllowedGroups_def
    by (simp add: Let_def, intro rebuilt_ok) (simp_all add: ids_ok_frame accountIDs_def fast_only_on_def)
  moreover have "loadedConfig e d \<subseteq>\<^sub>m tableConfig e d"
    by (auto simp: map_le_def loadedConfig_def tableConfig_def bind_eq_Some_conv split: if_splits option.splits)
  ultimately show "world_ok e \<lparr>awDB = d', awKeys = keys, awStore = s', awEvents = ev\<rparr>"
    using d' keys load_config [OF ok ps s(1) load] by (simp add: world_ok_def)
  show "heap s' p = None" if p: "p \<notin> set ps" "heap s p = None"
  proof -
    have "heap ?s3 p = None" using d'(3) p by (simp add: loadThresholds_sel)
    then have "map_option DBID (heap ?s4 p) = None" by (simp add: memberSteps_frame(3) [OF s3])
    then have "heap ?s4 p = None" by simp
    moreover have "keeps_config (heap ?s4) (heap s')"
      unfolding s' s4 LoadAPIKeyAllowedGroups_def using rebuildFast_keeps [of "?s4\<lparr>apiKeyAllowedGroups := a, apiKeyAllowedGroupSets := b\<rparr>" now for a b]
      by (simp add: Let_def)
    ultimately show ?thesis by (metis keeps_config_def option.map_disc_iff)
  qed
qed

lemma newStore_start: "accounts (NewStore tc st env proxies) = []" "fast_only_on (NewStore tc st env proxies)"
  by (simp_all add: NewStore_def fast_only_on_def Let_def)

lemma load_total: "\<exists>r. loadFromDB e True now ps keys ds = Some r"
  by (simp add: loadFromDB_def ListActive_def Let_def case_prod_beta)

subsection \<open>A restart\<close>


definition exampleRow :: AccountRow where
  "exampleRow =
     \<lparr>arID = 1, arName = ''a'', arPlatform = ''openai'', arType = ''oauth'', arCredentials = [''access_token'' \<mapsto> CrString ''t''], arProxyURL = [],
      arStatus = ''active'', arCooldownReason = [], arCooldownUntil = None, arErrorMessage = [], arEnabled = True, arLocked = False,
      arCreditEnabled = False, arCreditSkipUsageWindow = False, arSkipWarmTier = False, arScoreBiasOverride = None,
      arBaseConcurrencyOverride = None, arTags = [], arCreatedAt = 1, arUpdatedAt = 1, arDeletedAt = None\<rparr>"

definition exampleDB :: AccountDB where
  "exampleDB = \<lparr>adRows = [exampleRow], adNextID = 2, adCooldowns = [], adGroups = [], adNextGroupID = 1, adMembers = []\<rparr>"

definition exampleCodec :: rowCodec where
  "exampleCodec = \<lparr>rcParseFloat = (\<lambda>_. None), rcShowFloat = (\<lambda>_. []), rcParseTime = (\<lambda>_. None)\<rparr>"

definition exampleOp :: opEnv where
  "exampleOp = \<lparr>opNow = 6, opUp = True, opKeysUp = True, opPtr = 8, opCodec = exampleCodec, opParseURL = (\<lambda>u. Some (''https'', u)), opBareURL = (\<lambda>u. u)\<rparr>"

definition exampleKeys :: apiKeyTable where
  "exampleKeys = \<lparr>keyRows = [], nextKeyID = 1\<rparr>"

definition exampleStart :: "AccountDB \<times> Store" where
  "exampleStart = the (loadFromDB exampleCodec True 5 [7] exampleKeys (exampleDB, NewStore None None False None))"

definition exampleWorld :: AdminWorld where
  "exampleWorld = \<lparr>awDB = fst exampleStart, awKeys = exampleKeys, awStore = snd exampleStart, awEvents = []\<rparr>"

lemma example_table: "accounts_ok exampleDB"
  by (simp add: accounts_ok_def exampleDB_def exampleRow_def isDeleted_def)

lemma example_load: "loadFromDB exampleCodec True 5 [7] exampleKeys (exampleDB, NewStore None None False None) = Some (fst exampleStart, snd exampleStart)"
  using load_total [of exampleCodec 5 "[7]" exampleKeys "(exampleDB, NewStore None None False None)"] by (auto simp: exampleStart_def)

lemma example_usable: "usableRow exampleCodec exampleRow"
  by (simp add: usableRow_def GetCredential_def exampleRow_def)

lemma example_active: "activeRow exampleDB i = (if i = 1 then Some exampleRow else None)"
  by (simp add: activeRow_def exampleDB_def exampleRow_def isDeleted_def)

lemma example_start_db: "fst exampleStart = exampleDB"
proof -
  have x: "\<not> expiredCooldown 5 exampleRow" by (simp add: expiredCooldown_def exampleRow_def)
  have rows: "sort_key arID (filter (\<lambda>r. \<not> isDeleted r) (adRows exampleDB)) = [exampleRow]" by (simp add: exampleDB_def exampleRow_def isDeleted_def)
  have load: "fst (loadRows exampleCodec True 5 cds [(7, exampleRow)] (exampleDB, s)) = exampleDB" for cds s
    using x by (cases "buildAccountFromRow exampleCodec 5 s (cds (arID exampleRow)) exampleRow") (simp_all add: clearExpiredCooldown_def)
  have e: "exampleDB\<lparr>adCooldowns := filter P (adCooldowns exampleDB)\<rparr> = exampleDB" for P by (simp add: exampleDB_def)
  show ?thesis
    by (simp add: exampleStart_def loadFromDB_def ListActive_def ListActiveModelCooldowns_def ClearExpiredModelCooldowns_def rows e load Let_def case_prod_beta
      del: loadRows.simps)
qed

lemma example_world: "world_ok exampleCodec exampleWorld"
  unfolding exampleWorld_def
  by (rule load_world_ok(1) [OF example_table _ _ newStore_start example_load]) (simp_all add: exampleDB_def exampleKeys_def)

lemma example_config: "memConfig (awStore exampleWorld) 1 = Some (rowConfig exampleCodec [] exampleRow)"
proof -
  have "memConfig (snd exampleStart) = loadedConfig exampleCodec exampleDB"
    by (rule load_config [OF example_table _ _ newStore_start(1) example_load]) (simp_all add: exampleDB_def)
  then show ?thesis by (simp add: exampleWorld_def loadedConfig_def example_active example_usable, simp add: ListAccountGroupMemberships_def exampleDB_def)
qed

text \<open>The witness switches an account off and restarts.\<close>

abbreviation exampleOff :: AdminWorld where
  "exampleOff \<equiv> fst (ToggleAccountEnabled exampleOp 1 (Some False) exampleWorld)"

lemma example_off:
  "awDB exampleOff = exampleDB\<lparr>adRows := [exampleRow\<lparr>arEnabled := False, arUpdatedAt := 6\<rparr>]\<rparr>" "awKeys exampleOff = exampleKeys"
  "memConfig (awStore exampleOff) 1 = Some ((rowConfig exampleCodec [] exampleRow)\<lparr>cfPaused := True\<rparr>)"
proof -
  have id: "arID exampleRow = 1" by (simp add: exampleRow_def)
  have u: "SetAccountEnabled True 6 1 False exampleDB = (exampleDB\<lparr>adRows := [exampleRow\<lparr>arEnabled := False, arUpdatedAt := 6\<rparr>]\<rparr>, DBOk ())"
    by (simp add: SetAccountEnabled_def updateCounted_def affectedRows_def updateWhere_def exampleDB_def id)
  then show "awDB exampleOff = exampleDB\<lparr>adRows := [exampleRow\<lparr>arEnabled := False, arUpdatedAt := 6\<rparr>]\<rparr>" "awKeys exampleOff = exampleKeys"
    by (simp_all add: ToggleAccountEnabled_def exampleOp_def exampleWorld_def example_start_db onWorldStore_def)
  have "awStore exampleOff = fst (ApplyAccountEnabled 6 1 False (awStore exampleWorld))"
    using u by (simp add: ToggleAccountEnabled_def exampleOp_def exampleWorld_def example_start_db onWorldStore_def)
  then show "memConfig (awStore exampleOff) 1 = Some ((rowConfig exampleCodec [] exampleRow)\<lparr>cfPaused := True\<rparr>)"
    using example_config by (simp add: ApplyAccountEnabled_config [OF world_okD(2) [OF example_world]] modAt_def)
qed


subsection \<open>Deletion\<close>

text \<open>
  C14: A deleted account is neither in the pool nor among the accounts that a start loads, and it is in no group; the other accounts keep their configuration.
\<close>

theorem deleted_account_is_gone:
  assumes "world_ok e w" "DeleteAccount op i w = (w', 200)"
  shows "FindByID i (awStore w') = None \<and> loadedConfig e (awDB w') i = None \<and> ListAccountGroupMemberships (awDB w') i = [] \<and>
    (\<forall>j. j \<noteq> i \<longrightarrow> memConfig (awStore w') j = memConfig (awStore w) j)"
proof -
  obtain d r where d: "SoftDeleteAccount (opUp op) (opNow op) i (awDB w) = (d, r)" by force
  have r: "r = DBOk ()" using assms(2) d by (cases r) (auto simp: DeleteAccount_def deleteAccountByID_def statusOf_def)
  have w': "awStore w' = RemoveAccount i (awStore w)" "awDB w' = d" using assms(2) d r by (auto simp: DeleteAccount_def deleteAccountByID_def)
  note c = SoftDelete_config [OF d [unfolded r]]
  note m = RemoveAccount_config [OF world_okD(1) [OF assms(1)], of i]
  have ok: "ids_ok (awStore w')" "\<forall>p \<in> set (accounts (awStore w')). heap (awStore w') p \<noteq> None"
    using RemoveAccount_ok [OF world_okD(1) [OF assms(1)], of i] store_ids_ok store_ok_allocated by (auto simp: w')
  have "FindByID i (awStore w') = None"
  proof (rule ccontr)
    assume "FindByID i (awStore w') \<noteq> None"
    then obtain p where p: "FindByID i (awStore w') = Some p" by blast
    then have "heap (awStore w') p \<noteq> None" using ok FindByID_iff [OF ok(1)] by blast
    then have "memConfig (awStore w') i \<noteq> None" using p by (simp add: memConfig_def accountByID_def)
    then show False by (simp add: w' m)
  qed
  moreover have "activeRow d i = None" using fun_cong [OF c(1) [of undefined], of i] by (simp add: tableConfig_def)
  moreover have "filter (\<lambda>x. fst x = i) (adMembers d) = []" by (simp add: c(2))
  ultimately show ?thesis by (simp add: w' m loadedConfig_def ListAccountGroupMemberships_def)
qed

theorem deleted_account_is_gone_witness:
  "snd (DeleteAccount exampleOp 1 exampleWorld) = 200 \<and> FindByID 1 (awStore (fst (DeleteAccount exampleOp 1 exampleWorld))) = None"
proof -
  have "snd (DeleteAccount exampleOp 1 exampleWorld) = 200"
    by (simp add: DeleteAccount_def deleteAccountByID_def SoftDeleteAccount_def updateCounted_def affectedRows_def exampleOp_def exampleWorld_def example_start_db
        statusOf_def) (simp add: exampleDB_def exampleRow_def)
  then show ?thesis using deleted_account_is_gone [OF example_world, of exampleOp 1 "fst (DeleteAccount exampleOp 1 exampleWorld)"] by (metis prod.collapse)
qed

lemma find_revived:
  assumes "r \<in> set rs" "arID r = i" "\<And>x. arID (f x) = arID x" "\<And>x. \<not> isDeleted (f x)"
  shows "\<exists>x \<in> set rs. arID x = i \<and> find (\<lambda>r. arID r = i \<and> \<not> isDeleted r) (map (\<lambda>r. if arID r = i then f r else r) rs) = Some (f x)"
  using assms by (induction rs) auto

lemma revived_row:
  assumes "r \<in> set (adRows d)" "arID r = i" "\<And>x. arID (f x) = arID x" "\<And>x. \<not> isDeleted (f x)" "\<And>x. arCredentials (f x) = arCredentials x"
    and u: "\<forall>x \<in> set (adRows d). arID x = i \<longrightarrow> usableRow e x"
  shows "loadedConfig e (updateWhere (\<lambda>r. arID r = i) f d) i \<noteq> None"
proof -
  from find_revived [OF assms(1-4)] obtain x where x: "x \<in> set (adRows d)" "arID x = i"
    "activeRow (updateWhere (\<lambda>r. arID r = i) f d) i = Some (f x)" by (auto simp: activeRow_def updateWhere_def)
  have "usableRow e (f x)" using u x(1,2) by (simp add: usable_cong [OF assms(5)])
  then show ?thesis using x(3) by (simp add: loadedConfig_def)
qed



subsection \<open>The recycle bin\<close>


abbreviation exampleDeleted :: AdminWorld where
  "exampleDeleted \<equiv> fst (DeleteAccount exampleOp 1 exampleWorld)"

lemma example_deleted: "DeleteAccount exampleOp 1 exampleWorld = (exampleDeleted, 200)"
  "awDB exampleDeleted = exampleDB\<lparr>adRows := [softDeleted 6 exampleRow], adMembers := []\<rparr>"
  "awStore exampleDeleted = RemoveAccount 1 (awStore exampleWorld)"
proof -
  have d: "SoftDeleteAccount True 6 1 exampleDB = (exampleDB\<lparr>adRows := [softDeleted 6 exampleRow], adMembers := []\<rparr>, DBOk ())"
    by (simp add: SoftDeleteAccount_def updateCounted_def affectedRows_def updateWhere_def, simp add: exampleDB_def exampleRow_def)
  then show "DeleteAccount exampleOp 1 exampleWorld = (exampleDeleted, 200)" "awDB exampleDeleted = exampleDB\<lparr>adRows := [softDeleted 6 exampleRow], adMembers := []\<rparr>"
    "awStore exampleDeleted = RemoveAccount 1 (awStore exampleWorld)"
    by (simp_all add: DeleteAccount_def deleteAccountByID_def exampleOp_def exampleWorld_def example_start_db statusOf_def)
qed

lemma example_free: "heap (awStore exampleDeleted) 8 = None"
proof -
  have "heap (snd exampleStart) 8 = None"
    by (rule load_world_ok(2) [OF example_table _ _ newStore_start example_load]) (simp_all add: exampleDB_def exampleKeys_def NewStore_def Let_def)
  then show ?thesis unfolding example_deleted(3) by (simp add: exampleWorld_def RemoveAccount_def split: option.split)
qed


subsection \<open>Groups of keys\<close>

lemma setGroups_at:
  assumes "0 < k"
  shows "apiKeyAllowedGroupSets (SetAPIKeyAllowedGroups now k ids s) j =
    (if j = k then (if normalizeAllowedGroupIDs ids = [] then None else Some (set (normalizeAllowedGroupIDs ids))) else apiKeyAllowedGroupSets s j)"
  using assms by (simp add: SetAPIKeyAllowedGroups_def rebuildFastScheduler_def Let_def)

lemma setGroups_other: "j \<noteq> k \<Longrightarrow> apiKeyAllowedGroupSets (SetAPIKeyAllowedGroups now k ids s) j = apiKeyAllowedGroupSets s j"
  by (simp add: SetAPIKeyAllowedGroups_def rebuildFastScheduler_def Let_def)

lemma invalidate_groups: "apiKeyAllowedGroupSets (invalidateAPIKeyRuntimeCaches key s) = apiKeyAllowedGroupSets s"
  by (simp add: invalidateAPIKeyRuntimeCaches_def deleteRuntimeCache_def Let_def)

lemma refreshed_groups:
  assumes "distinct (map rowID rs)" "k \<in> set rs" "0 < rowID k"
  shows "apiKeyAllowedGroupSets (fold (\<lambda>r s. invalidateAPIKeyRuntimeCaches (rowKey r) (SetAPIKeyAllowedGroups now (rowID r) (AllowedGroupIDs r) s)) rs s) (rowID k) =
    (if normalizeAllowedGroupIDs (AllowedGroupIDs k) = [] then None else Some (set (normalizeAllowedGroupIDs (AllowedGroupIDs k))))"
proof -
  let ?f = "\<lambda>r s. invalidateAPIKeyRuntimeCaches (rowKey r) (SetAPIKeyAllowedGroups now (rowID r) (AllowedGroupIDs r) s)"
  have other: "rowID k \<notin> rowID ` set xs \<Longrightarrow> apiKeyAllowedGroupSets (fold ?f xs s) (rowID k) = apiKeyAllowedGroupSets s (rowID k)" for xs s
    by (induction xs arbitrary: s) (auto simp: invalidate_groups setGroups_other)
  show ?thesis using assms
  proof (induction rs arbitrary: s)
    case (Cons r rs)
    show ?case
    proof (cases "r = k")
      case True
      then have "rowID k \<notin> rowID ` set rs" using Cons.prems(1) by auto
      then show ?thesis using True Cons.prems(3) by (simp add: other invalidate_groups setGroups_at)
    qed (use Cons in auto)
  qed simp
qed

lemma prunedGroups_safe: "gs \<noteq> [] \<Longrightarrow> prunedGroups g gs \<noteq> [] \<and> set (prunedGroups g gs) \<subseteq> set gs"
  by (auto simp: prunedGroups_def removeInt64_def Let_def)

lemma normalizeGroups_set: "\<forall>x \<in> set gs. 0 < x \<Longrightarrow> set (normalizeAllowedGroupIDs gs) = set gs"
  by (auto simp: normalizeAllowedGroupIDs_def set_dedupPositive)


definition exampleKey :: APIKeyRow where
  "exampleKey = \<lparr>rowID = 3, rowName = ''k'', rowKey = ''sk'', QuotaLimit = 0, QuotaUsed = 0, rowExpiresAt = None, AllowedGroupIDs = [4],
     Limits = \<lparr>ModelAllow = [], ModelDeny = [], RPM = 0, RPD = 0, MaxConcurrency = 0, CostLimit5h = 0, CostLimit7d = 0, TokenLimit5h = 0, TokenLimit7d = 0\<rparr>,
     rowCreatedAt = 1\<rparr>"

definition exampleGroups :: AdminWorld where
  "exampleGroups =
     \<lparr>awDB = exampleDB\<lparr>adGroups := [\<lparr>grID = 4, grName = ''g'', grDescription = [], grColor = [], grSortOrder = 0, grThreshold5h = 0, grThreshold7d = 0\<rparr>],
        adMembers := [(1, 4)]\<rparr>, awKeys = \<lparr>keyRows = [exampleKey], nextKeyID = 4\<rparr>, awStore = NewStore None None False None, awEvents = []\<rparr>"


end
