(* ===== verification/AccountOptions.thy ===== *)
theory AccountOptions
  imports AccountLifecycle
begin

section \<open>The options of an account\<close>

text \<open>
  The type of the data that the administration keeps: the ranges of the scheduling options, the tags and the references from memberships to groups. The parsers of
  requests enforce it, every handler keeps it, and it holds of the accounts in the pool.
\<close>

definition option_in :: "int \<Rightarrow> int \<Rightarrow> int option \<Rightarrow> bool" where
  "option_in lo hi v \<longleftrightarrow> (case v of None \<Rightarrow> True | Some x \<Rightarrow> lo \<le> x \<and> x \<le> hi)"

definition tags_typed :: "string list \<Rightarrow> bool" where
  "tags_typed ts \<longleftrightarrow> length ts \<le> 32 \<and> distinct (map ToLower ts) \<and> (\<forall>t \<in> set ts. t \<noteq> [] \<and> RuneCountInString t \<le> 40)"

definition row_typed :: "AccountRow \<Rightarrow> bool" where
  "row_typed r \<longleftrightarrow> option_in (-200) 200 (arScoreBiasOverride r) \<and> option_in 1 50 (arBaseConcurrencyOverride r) \<and> tags_typed (arTags r)"

definition options_ok :: "AccountDB \<Rightarrow> bool" where
  "options_ok d \<longleftrightarrow> (\<forall>r \<in> set (adRows d). row_typed r) \<and> snd ` set (adMembers d) \<subseteq> grID ` set (adGroups d)"

subsection \<open>What the parsers accept\<close>

lemma dedupFold_facts:
  "distinct (map ToLower (dedupFold seen vs)) \<and> (\<forall>t \<in> set (dedupFold seen vs). t \<noteq> [] \<and> ToLower t \<notin> set seen \<and> t \<in> TrimSpace ` set vs)"
proof (induction vs arbitrary: seen)
  case (Cons v vs)
  show ?case
  proof (cases "TrimSpace v = [] \<or> ToLower (TrimSpace v) \<in> set seen")
    case True
    then have "dedupFold seen (v # vs) = dedupFold seen vs" by (auto simp: Let_def)
    then show ?thesis using Cons [of seen] by auto
  next
    case False
    then have "dedupFold seen (v # vs) = TrimSpace v # dedupFold (ToLower (TrimSpace v) # seen) vs" by (auto simp: Let_def)
    then show ?thesis using Cons [of "ToLower (TrimSpace v) # seen"] False by auto
  qed
qed simp

lemma parsed_tags: "parseOptionalStringSliceField raw = Some (Some ts) \<Longrightarrow> tags_typed ts"
  using dedupFold_facts by (fastforce simp: parseOptionalStringSliceField_def tags_typed_def Let_def list_ex_iff split: jsonField.splits if_splits)

lemma parsed_integer: "parseOptionalIntegerField lo hi raw = Some (Some v) \<Longrightarrow> option_in lo hi v"
  by (auto simp: parseOptionalIntegerField_def option_in_def split: jsonField.splits if_splits)

lemma parsed_update:
  assumes "parseSchedulerReq req = Some u"
  shows "suScoreBias u = Some b \<Longrightarrow> option_in (-200) 200 b" "suBaseConcurrency u = Some c \<Longrightarrow> option_in 1 50 c" "suTags u = Some ts \<Longrightarrow> tags_typed ts"
  using assms parsed_integer parsed_tags by (auto simp: parseSchedulerReq_def bind_eq_Some_conv)

lemma updatedRow_typed:
  assumes "parseSchedulerReq req = Some u" "row_typed r"
  shows "row_typed (updatedRow now u proxyURL creds r)"
  using assms(2) parsed_update [OF assms(1)]
  by (cases "suScoreBias u"; cases "suBaseConcurrency u"; cases "suTags u") (auto simp: updatedRow_def row_typed_def orKeep_def Let_def)

subsection \<open>Statements keep the type\<close>

lemma options_update: "options_ok d \<Longrightarrow> (\<And>r. row_typed r \<Longrightarrow> row_typed (f r)) \<Longrightarrow> options_ok (updateWhere c f d)"
  by (auto simp: options_ok_def updateWhere_def)

lemma options_counted: "options_ok d \<Longrightarrow> (\<And>r. row_typed r \<Longrightarrow> row_typed (f r)) \<Longrightarrow> options_ok (fst (updateCounted up c f d))"
  by (simp add: updateCounted_def options_update)

lemma options_silent: "options_ok d \<Longrightarrow> (\<And>r. row_typed r \<Longrightarrow> row_typed (f r)) \<Longrightarrow> options_ok (fst (updateSilent up c f d))"
  by (simp add: updateSilent_def options_update)

lemma options_members: "options_ok d \<Longrightarrow> options_ok (d\<lparr>adMembers := filter P (adMembers d)\<rparr>)"
  by (auto simp: options_ok_def)

lemma options_purge: "options_ok d \<Longrightarrow> options_ok (d\<lparr>adRows := filter P (adRows d)\<rparr>)"
  by (auto simp: options_ok_def)

lemma options_softDelete: "options_ok d \<Longrightarrow> options_ok (fst (SoftDeleteAccount up now i d))"
  using options_counted [of d "softDeleted now" up "\<lambda>r. arID r = i \<and> arStatus r \<noteq> ''deleted''"] options_members
  by (auto simp: SoftDeleteAccount_def row_typed_def softDeleted_def split: prod.split dbResult.split)

lemma options_updates:
  assumes "options_ok d"
  shows "options_ok (fst (dbRestoreAccount up now i d))" "options_ok (fst (SetAccountEnabled up now i b d))" "options_ok (fst (SetAccountLocked up i b d))"
    "options_ok (fst (dbClearCooldown up now i d))"
  unfolding dbRestoreAccount_def SetAccountEnabled_def SetAccountLocked_def dbClearCooldown_def
  by (rule options_counted [OF assms] options_silent [OF assms], simp add: row_typed_def)+

lemma options_credit:
  assumes "options_ok d"
  shows "options_ok (fst (dbUpdateAccountCredit up now i credit skip d))"
proof (cases "credit = None \<and> skip = None")
  case False
  then have "dbUpdateAccountCredit up now i credit skip d = updateCounted up (\<lambda>r. arID r = i) (\<lambda>r. r\<lparr>arCreditEnabled := orKeep credit (arCreditEnabled r),
      arCreditSkipUsageWindow := orKeep skip (arCreditSkipUsageWindow r), arUpdatedAt := now\<rparr>) d" by (auto simp: dbUpdateAccountCredit_def)
  then show ?thesis by (simp only:) (rule options_counted [OF assms], simp add: row_typed_def)
qed (simp add: assms dbUpdateAccountCredit_def)

lemma options_statements:
  assumes "options_ok d"
  shows "options_ok (fst (dbPurgeAccount up i d))" "options_ok (fst (PurgeDeletedAccounts up d))" "options_ok (clearExpiredCooldown up now r d)"
  using assms by (simp_all add: dbPurgeAccount_def PurgeDeletedAccounts_def clearExpiredCooldown_def options_purge options_updates)

lemma options_load: "options_ok d \<Longrightarrow> options_ok (fst (fst (LoadAccountByID e up now p i (d, s))))"
  by (auto simp: LoadAccountByID_def options_statements split: dbResult.split option.split)

lemma options_loadRows: "options_ok (fst ds) \<Longrightarrow> options_ok (fst (loadRows e up now cds prs ds))"
  by (induction e up now cds prs ds rule: loadRows.induct) (auto simp: options_statements split: option.split)

lemma options_loadFromDB:
  assumes "options_ok d" "loadFromDB e up now ps keys (d, s) = Some (d', s')"
  shows "options_ok d'"
proof -
  have "options_ok (fst (ClearExpiredModelCooldowns up now d))" using assms(1) by (simp add: ClearExpiredModelCooldowns_def options_ok_def)
  then have "options_ok (fst (loadRows e up now cds prs (fst (ClearExpiredModelCooldowns up now d), s)))" for cds prs by (simp add: options_loadRows)
  then show ?thesis using assms(2) by (cases "ListActive up d") (auto simp add: loadFromDB_def case_prod_beta Let_def)
qed

lemma options_setGroups:
  assumes "options_ok d" "VerifyAccountGroupIDs up (grID ` set (adGroups d)) gs = DBOk []"
  shows "options_ok (SetAccountGroups i gs d)"
proof -
  have "\<forall>g \<in> set (dedupPositive [] gs). g \<in> set (map grID (adGroups d))"
    using assms(2) by (auto simp: VerifyAccountGroupIDs_def Let_def filter_empty_conv split: if_splits)
  then show ?thesis using assms(1) by (fastforce simp: options_ok_def SetAccountGroups_def)
qed

subsection \<open>Handlers keep the type\<close>

lemma deleteAccountByID_options: "options_ok (awDB w) \<Longrightarrow> options_ok (awDB (fst (deleteAccountByID op i w)))"
  using options_softDelete [of "awDB w" "opUp op" "opNow op" i] by (auto simp: deleteAccountByID_def split: prod.split dbResult.split)

lemma runBatchDelete_options: "options_ok (awDB w) \<Longrightarrow> options_ok (awDB (fst (runBatchDeleteAccounts ops cancelled n ids w)))"
proof (induction ops cancelled n ids w rule: runBatchDeleteAccounts.induct)
  case (2 ops cancelled n i ids w)
  obtain w' r where "deleteAccountByID (ops n) i w = (w', r)" by force
  then show ?case using 2 deleteAccountByID_options [OF 2(4), of "ops n" i] by (auto simp: case_prod_beta split: dbResult.split)
qed simp

lemma restore_options: "options_ok (awDB w) \<Longrightarrow> options_ok (awDB (fst (RestoreAccount op i w)))"
  using options_updates(1) [of "awDB w" "opUp op" "opNow op" i] options_load
  by (auto simp: RestoreAccount_def restoreAccountByID_def case_prod_beta Let_def split: dbResult.split)

lemma switches_options:
  assumes "options_ok (awDB w)"
  shows "options_ok (awDB (fst (ToggleAccountEnabled op i b w)))" "options_ok (awDB (fst (ToggleAccountLock op i b w)))"
    "options_ok (awDB (fst (UpdateAccountCredit op i cbody w)))" "options_ok (awDB (fst (PurgeAccount op i w)))" "options_ok (awDB (fst (EmptyRecycleBin op confirm w)))"
  using options_statements [OF assms] options_updates [OF assms] options_credit [OF assms] assms
  by (auto simp: ToggleAccountEnabled_def ToggleAccountLock_def UpdateAccountCredit_def PurgeAccount_def EmptyRecycleBin_def onWorldStore_def
    case_prod_beta split: option.split dbResult.split)

lemma groups_options:
  assumes "options_ok (awDB w)"
  shows "options_ok (awDB (fst (CreateAccountGroup op body w)))" "options_ok (awDB (fst (UpdateAccountGroup op i gbody w)))"
    "options_ok (awDB (fst (DeleteAccountGroup op i force w)))"
proof -
  have "options_ok (fst (dbCreateAccountGroup up n ds c a b k (awDB w)))" for up n ds c a b k
    using assms by (auto simp: dbCreateAccountGroup_def options_ok_def Let_def)
  then show "options_ok (awDB (fst (CreateAccountGroup op body w)))"
    using assms by (auto simp: CreateAccountGroup_def onWorldStore_def case_prod_beta Let_def split: option.split sum.split groupError.split)
next
  have groupIDs: "grID ` set (map (\<lambda>g. if grID g = i then updatedGroup u g else g) gs) = grID ` set gs" for u gs
    unfolding set_map image_image by (rule image_cong) (simp_all add: updatedGroup_def)
  have "options_ok (fst (dbUpdateAccountGroup up i u (awDB w)))" for up u
    using assms groupIDs by (auto simp: dbUpdateAccountGroup_def options_ok_def)
  then show "options_ok (awDB (fst (UpdateAccountGroup op i gbody w)))"
    using assms by (auto simp: UpdateAccountGroup_def onWorldStore_def case_prod_beta Let_def split: option.split sum.split groupError.split)
next
  have "options_ok (fst (fst (dbDeleteAccountGroup up i f (awDB w, awKeys w))))" for up f
    using assms by (fastforce simp: dbDeleteAccountGroup_def options_ok_def)
  then show "options_ok (awDB (fst (DeleteAccountGroup op i force w)))"
    using assms by (auto simp: DeleteAccountGroup_def case_prod_beta split: sum.split groupError.split)
qed

lemma scheduler_options:
  assumes "options_ok (awDB w)"
  shows "options_ok (awDB (fst (UpdateAccountScheduler op i body w)))"
proof (cases "Option.bind body parseSchedulerReq")
  case (Some u)
  then obtain req where req: "body = Some req" "parseSchedulerReq req = Some u" by (auto simp: bind_eq_Some_conv)
  have "options_ok (fst (UpdateAccountSchedulerMetadata (opUp op) now i u proxyURL creds (awDB w)))" if "referencesExist op u w = 200" for now proxyURL creds
  proof -
    let ?d = "updateWhere (\<lambda>r. arID r = i) (updatedRow now u proxyURL creds) (awDB w)"
    have d: "options_ok ?d" using options_update [OF assms updatedRow_typed [OF req(2)]] by simp
    have "options_ok (SetAccountGroups i gs ?d)" if gs: "suGroupIDs u = Some gs" for gs
    proof (rule options_setGroups [OF d])
      show "VerifyAccountGroupIDs (opUp op) (grID ` set (adGroups ?d)) gs = DBOk []" using gs \<open>referencesExist op u w = 200\<close>
        by (auto simp: referencesExist_def updateWhere_def split: dbResult.splits list.splits)
    qed
    then show ?thesis using d assms by (auto simp: UpdateAccountSchedulerMetadata_def Let_def split: option.split)
  qed
  then show ?thesis using assms req by (auto simp: UpdateAccountScheduler_def case_prod_beta split: option.split dbResult.split)
qed (use assms in \<open>auto simp: UpdateAccountScheduler_def split: option.split\<close>)

lemma admin_step_options: "admin_step e w w' \<Longrightarrow> options_ok (awDB w) \<Longrightarrow> options_ok (awDB w')"
proof (induction rule: admin_step.induct)
  case (delete w op i)
  then show ?case using deleteAccountByID_options by (simp add: DeleteAccount_def case_prod_beta)
next
  case (batchDelete w ops cancelled ids)
  then show ?case using runBatchDelete_options by (auto simp: BatchDeleteAccounts_def case_prod_beta Let_def split: option.split)
qed (simp_all add: groups_options restore_options switches_options scheduler_options)

interpretation options_machine: invariant_machine "admin_step e" "\<lambda>w. options_ok (awDB w)" for e
  by unfold_locales (rule admin_step_options)

subsection \<open>Reachable accounts\<close>

lemma normalThreshold_range: "0 \<le> normalizeQuotaAutoPauseThreshold t \<and> normalizeQuotaAutoPauseThreshold t \<le> 1"
  by (simp add: normalizeQuotaAutoPauseThreshold_def)

lemma rowConfig_typed:
  assumes "row_typed r"
  shows "option_in (-200) 200 (cfScoreBias (rowConfig e gs r))" "option_in 1 50 (cfBaseConcurrency (rowConfig e gs r))" "tags_typed (cfTags (rowConfig e gs r))"
    "0 \<le> cfThreshold5h (rowConfig e gs r) \<and> cfThreshold5h (rowConfig e gs r) \<le> 1" "0 \<le> cfThreshold7d (rowConfig e gs r) \<and> cfThreshold7d (rowConfig e gs r) \<le> 1"
  using assms normalThreshold_range by (auto simp: rowConfig_def row_typed_def rowThreshold_def Let_def split: option.split)

text \<open>
  C12: The options of every account in the pool are well typed whatever the administrator sends: the score bias is between -200 and 200, the base concurrency
  between 1 and 50, both thresholds are ratios, there are at most 32 tags, none empty, none longer than 40 characters and no two equal up to case, and all
  groups of the account exist.
\<close>

theorem account_options_typed:
  assumes "accounts_ok d" "options_ok d" "\<forall>k \<in> set (keyRows keys). rowID k < 2 ^ 63" "distinct ps" "length (adRows d) \<le> length ps"
    and "loadFromDB e True now ps keys (d, NewStore tc st env proxies) = Some (d1, s1)"
    and "(admin_step e)\<^sup>*\<^sup>* \<lparr>awDB = d1, awKeys = keys, awStore = s1, awEvents = []\<rparr> w" "memConfig (awStore w) i = Some c"
  shows "option_in (-200) 200 (cfScoreBias c) \<and> option_in 1 50 (cfBaseConcurrency c) \<and> 0 \<le> cfThreshold5h c \<and> cfThreshold5h c \<le> 1 \<and>
    0 \<le> cfThreshold7d c \<and> cfThreshold7d c \<le> 1 \<and> tags_typed (cfTags c) \<and> set (cfGroups c) \<subseteq> grID ` set (adGroups (awDB w))"
proof -
  have "world_ok e \<lparr>awDB = d1, awKeys = keys, awStore = s1, awEvents = []\<rparr>"
    by (rule load_world_ok(1) [OF assms(1,4,5) newStore_start assms(6,3)])
  then have w: "world_ok e w" by (rule admin_machine.reachable_inv [OF assms(7)])
  have "options_ok (awDB w)" by (rule options_machine.reachable_inv [OF assms(7)]) (simp add: options_loadFromDB [OF assms(2,6)])
  then have o: "\<forall>r \<in> set (adRows (awDB w)). row_typed r" "snd ` set (adMembers (awDB w)) \<subseteq> grID ` set (adGroups (awDB w))" by (auto simp: options_ok_def)
  obtain r where r: "activeRow (awDB w) i = Some r" "c = rowConfig e (ListAccountGroupMemberships (awDB w) i) r" by (rule agree [OF w assms(8)])
  have "row_typed r" using activeRow_SomeD [OF r(1)] o(1) by blast
  note t = rowConfig_typed [OF this, of e "ListAccountGroupMemberships (awDB w) i", folded r(2)]
  have "cfGroups c = ListAccountGroupMemberships (awDB w) i" by (simp add: r(2) rowConfig_def Let_def)
  then have "set (cfGroups c) \<subseteq> grID ` set (adGroups (awDB w))" using o(2) by (auto simp: ListAccountGroupMemberships_def)
  then show ?thesis using t by blast
qed

lemma example_options: "options_ok exampleDB"
  by (simp add: options_ok_def exampleDB_def exampleRow_def row_typed_def option_in_def tags_typed_def)

theorem account_options_typed_witness:
  "\<exists>c. memConfig (awStore exampleOff) 1 = Some c \<and> tags_typed (cfTags c) \<and> option_in 1 50 (cfBaseConcurrency c)"
proof -
  have step: "(admin_step exampleCodec)\<^sup>*\<^sup>* \<lparr>awDB = fst exampleStart, awKeys = exampleKeys, awStore = snd exampleStart, awEvents = []\<rparr> exampleOff"
    using admin_step.enabled [of exampleCodec exampleWorld exampleOp 1 "Some False"] by (simp add: exampleWorld_def)
  have n: "\<forall>k \<in> set (keyRows exampleKeys). rowID k < 2 ^ 63" "distinct [7::ptr]" "length (adRows exampleDB) \<le> length [7::ptr]"
    by (simp_all add: exampleKeys_def exampleDB_def)
  show ?thesis using account_options_typed [OF example_table example_options n example_load step example_off(3)] example_off(3) by blast
qed

subsection \<open>An address that is cleared\<close>

lemma cleared_row_unusable:
  assumes "GetCredential e r ''refresh_token'' = []" "GetCredential e r ''session_token'' = []" "GetCredential e r ''access_token'' = []"
  shows "\<not> usableRow e (updatedRow now u proxyURL (credentialUpdates u (Some [])) r)"
proof -
  let ?r = "updatedRow now u proxyURL (credentialUpdates u (Some [])) r"
  have c: "arCredentials ?r = arCredentials r ++ newCredentials u (Some [])"
    by (auto simp: updatedRow_def mergeCredentialMaps_def newCredentials_def Let_def)
  have "newCredentials u (Some []) key = None" if "key \<in> {''refresh_token'', ''session_token'', ''access_token''}" for key
    using that by (auto simp: newCredentials_def credentialUpdates_def setCredential_at)
  then have "GetCredential e ?r key = GetCredential e r key" if "key \<in> {''refresh_token'', ''session_token'', ''access_token''}" for key
    using that unfolding GetCredential_def c map_add_def by simp
  moreover have "GetCredential e ?r ''base_url'' = []" by (simp add: GetCredential_def c newCredentials_at)
  moreover have "TrimSpace [] = []" by code_simp
  ultimately show ?thesis using assms by (simp add: usableRow_def isResponsesRow_def)
qed

text \<open>
  Supplement: Clearing the address of an account that has no tokens is accepted: the account stays in the running pool with an empty address, and the next start does not load it.
\<close>

theorem cleared_address_is_lost:
  assumes w: "world_ok e w" and pool: "memConfig (awStore w) i = Some c" and row: "activeRow (awDB w) i = Some r"
    and tokens: "GetCredential e r ''refresh_token'' = []" "GetCredential e r ''session_token'' = []" "GetCredential e r ''access_token'' = []"
    and req: "parseSchedulerReq req = Some u" "referencesExist op u w = 200" "usBaseURL req = Some []" "usQoderBaseURL req = None" "opUp op"
  shows "\<exists>w'. UpdateAccountScheduler op i (Some req) w = (w', 200) \<and> map_option cfBaseURL (memConfig (awStore w') i) = Some [] \<and> loadedConfig e (awDB w') i = None"
proof -
  have t: "TrimSpace [] = []" "TrimRight CHR ''/'' [] = []" by code_simp+
  have url: "requestedBaseURL op req = Some (Some [])" using req(3,4) t by (simp add: requestedBaseURL_def)
  let ?f = "updatedRow (opNow op) u (usProxyURL req) (credentialUpdates u (Some []))"
  let ?d = "updateWhere (\<lambda>r. arID r = i) ?f (awDB w)"
  let ?d' = "case suGroupIDs u of None \<Rightarrow> ?d | Some gs \<Rightarrow> SetAccountGroups i gs ?d"
  have "affectedRows (\<lambda>r. arID r = i \<and> \<not> isDeleted r) (awDB w)" using activeRow_SomeD [OF row] by (auto simp: affectedRows_def list_ex_iff)
  then have d: "UpdateAccountSchedulerMetadata (opUp op) (opNow op) i u (usProxyURL req) (credentialUpdates u (Some [])) (awDB w) = (?d', DBOk ())"
    using req(5) by (simp add: UpdateAccountSchedulerMetadata_def Let_def)
  have "activeRow ?d i = Some (?f r)" using activeRow_SomeD [OF row] by (simp add: activeRow_update row)
  then have "activeRow ?d' i = Some (?f r)" by (simp add: activeRow_def SetAccountGroups_def split: option.split)
  then have lost: "loadedConfig e ?d' i = None" using cleared_row_unusable [OF tokens] by (simp add: loadedConfig_def)
  let ?s = "applySchedulerUpdate (opNow op) i u (usProxyURL req) (Some []) (awStore w)"
  have "changes i (schedulerConfig u (usProxyURL req) (Some [])) (awStore w) ?s" by (rule schedulerUpdate_changes) (use parse_normal [OF req(1)] in blast)
  then have "memConfig ?s i = Some (schedulerConfig u (usProxyURL req) (Some []) c)" using world_okD(1) [OF w] pool by (simp add: changes_def modAt_def)
  then have "map_option cfBaseURL (memConfig ?s i) = Some []" using t by (simp add: schedulerConfig_def)
  then show ?thesis using lost d url req(1,2) by (simp add: UpdateAccountScheduler_def)
qed

end
