(* ===== verification/Spec2Isabelle.thy ===== *)
theory Spec2Isabelle
  imports RefreshProps ChatProps RateLimit ProxyPool Billing ModelMapping ApiKeyAuthProps PromptFilterProps Cleanup AdminAuthProps SettingsProps AccountOptions
begin

text \<open>
  A verification of Qoder2API (the Go program under \<open>src/\<close>), a gateway that turns a pool of upstream accounts into one
  OpenAI-compatible interface.

  \<^bold>\<open>The program.\<close> A request to \<open>/v1/chat/completions\<close> passes the API key middleware (\<open>proxy/handler.go\<close>), the validation of its body
  (\<open>api/validation.go\<close>), the prompt filter (\<open>security/promptfilter\<close>), the limits of its key (\<open>proxy/apikey_limits.go\<close>,
  \<open>proxy/apikey_concurrency.go\<close>) and the global rate limiter (\<open>proxy/ratelimit.go\<close>). The handler (\<open>proxy/handler_chat.go\<close>) then asks the account
  store (\<open>auth/store.go\<close>) for an account, through the fast scheduler (\<open>auth/fast_scheduler.go\<close>), a scan over all accounts or the lazy scan,
  and with the binding of the session where there is one. The outcome of each attempt is reported to the store, which moves the account between
  tiers and cooldowns; failed attempts are repeated with other accounts within two budgets. Beside the requests run the refresh of tokens
  (\<open>auth/refresh_scheduler.go\<close>), the checks of the proxy pool (\<open>auth/proxy_pool.go\<close>), the sweeps that delete dead accounts, and the
  management interface (\<open>admin/\<close>), which changes settings, keys and accounts while requests are served. Bindings, locks and cooldowns are shared through a
  token cache (\<open>cache/memory.go\<close>); costs are computed by \<open>database/billing.go\<close>.

  \<^bold>\<open>Theories.\<close> A component has its state as a record, one definition per operation with the name of the Go function, and its lemmas; the claims
  \<open>C1\<close> to \<open>C40\<close> stand in the theories of the components they are about.
  \<^item> \<open>Prelude\<close>: time, durations and \<open>int64\<close> arithmetic written out, Go's stable sorts, generic lemmas on lists and folds.
    \<open>GoStrings\<close>: \<open>strings\<close> and \<open>strconv\<close> as far as the program uses them. \<open>GoHeap\<close>: \<open>container/heap\<close>. \<open>Gjson\<close>: the JSON reader as a parameter.
  \<^item> \<open>MemoryCache\<close> (\<open>cache/memory.go\<close>): tokens, refresh locks, cooldown records, runtime entries and session bindings with expiry.
  \<^item> \<open>Account\<close>, \<open>AccountOps\<close> (\<open>auth/store.go\<close>, \<open>auth/premium_rate_limit.go\<close>): one account; score, tier, availability, ring buffer of results, slots, cooldowns
    of the account and of its models, usage snapshots.
  \<^item> \<open>FastScheduler\<close> (\<open>auth/fast_scheduler.go\<close>): buckets by tier with a position index; the accounts live in a heap of pointers that the scheduler and
    the store share.
  \<^item> \<open>Store\<close>, \<open>Selection\<close>, \<open>SelectionSafety\<close>, \<open>StoreInvariant\<close>, \<open>SelectionProps\<close> (\<open>auth/store.go\<close>, \<open>proxy/retry_exclusions.go\<close>): the list of accounts
    with its index, groups, thresholds, reports; selection on its three paths, affinity, waiting and retries.
  \<^item> \<open>Cleanup\<close> (\<open>auth/store.go\<close>): the sweeps.
  \<^item> \<open>RefreshScheduler\<close>, \<open>RefreshInvariant\<close>, \<open>RefreshProps\<close> (\<open>auth/refresh_scheduler.go\<close> and its integration): a step relation over scheduling, cancellation,
    hand-over, execution by a bounded number of workers, and retries.
  \<^item> \<open>Upstream\<close>, \<open>Slots\<close>, \<open>ChatHandler\<close>, \<open>UpstreamProps\<close>, \<open>ChatProps\<close> (\<open>proxy/errors.go\<close>, \<open>proxy/handler.go\<close>, \<open>proxy/handler_chat.go\<close>): the classes of failures,
    the reading of rate-limit answers, and the loop of a chat request.
  \<^item> \<open>Validation\<close> (\<open>api/errors.go\<close>, \<open>api/validation.go\<close>), \<open>SecurityText\<close> (\<open>security/validator.go\<close>), \<open>PromptFilter\<close>, \<open>PromptFilterProps\<close>
    (\<open>security/promptfilter/filter.go\<close>, \<open>proxy/prompt_filter.go\<close>).
  \<^item> \<open>ApiKeyAuth\<close>, \<open>ApiKeyAuthProps\<close> (\<open>proxy/handler.go\<close>, \<open>admin/handler.go\<close>, \<open>database/postgres.go\<close>): the table of keys, the caches in front of it, the middleware
    and the handlers that change keys. \<open>ApiKeyLimits\<close>: windows and the concurrency gate of a key.
  \<^item> \<open>RateLimit\<close> (\<open>proxy/ratelimit.go\<close>), \<open>ProxyPool\<close> (\<open>auth/proxy_pool.go\<close>), \<open>Billing\<close> (\<open>database/billing.go\<close>), \<open>ModelMapping\<close>
    (\<open>proxy/model_mapping.go\<close>, \<open>proxy/reasoning_effort_models.go\<close>).
  \<^item> \<open>SettingsTable\<close> (\<open>database/postgres.go\<close>, \<open>proxy/runtime_config.go\<close>), \<open>AdminAuth\<close>, \<open>AdminAuthProps\<close> (\<open>admin/bootstrap.go\<close>, \<open>admin/handler.go\<close>,
    \<open>security/middleware.go\<close>), \<open>Branding\<close> (\<open>admin/handler.go\<close>, \<open>internal/imagestore\<close>), \<open>Settings\<close>, \<open>SettingsProps\<close> (\<open>UpdateSettings\<close> of
    \<open>admin/handler.go\<close>, the setters of \<open>auth/store.go\<close>, start-up in \<open>main.go\<close>).
  \<^item> \<open>AccountTable\<close> (\<open>database/postgres.go\<close>, \<open>database/credentials_accessors.go\<close>, \<open>auth/store.go\<close>): the rows of accounts with their statements, and the pool that
    a start builds from them. \<open>AccountAdmin\<close> (\<open>admin/account_groups.go\<close>, \<open>database/account_groups.go\<close>, \<open>admin/handler.go\<close>): the handlers of groups, of the recycle
    bin, of the switches and of the scheduling options, each with its statement and its effect on the pool. \<open>AccountConfig\<close>, \<open>AccountTableProps\<close>,
    \<open>AccountAdminProps\<close>: the configuration of an account as an abstraction of both the row and the account in memory, what every statement and every
    operation of the store does to it, and the invariant that the two agree. \<open>AccountLifecycle\<close>, \<open>AccountOptions\<close>: restart, deletion, restoration,
    deletion of groups, and the type of the options.

  \<^bold>\<open>What is shown.\<close> A selection returns only accounts that the request may use and keeps the store exact; the fast scheduler finds an account
  whenever one is eligible; the loop of a chat request ends within its budgets, gives every slot back and asks no failed account again; the
  caches in front of the key table cannot be seen; the refresh queue is in order and hands over what is due; limiters keep to their bounds; the
  sweeps delete exactly what they should; the settings stay within their bounds in every run and survive a restart; the first initialisation succeeds once; the configuration of an account in the pool
  is that of its row after every change of the administrator, so a restart changes nothing; options of accounts keep to their ranges; and deleting a group widens no key.
  The claims of kind \<open>error\<close> are about behaviour that differs from a comment or from the evident intention, each on
  states that the program can reach.

  \<^bold>\<open>Conventions.\<close> Stateful code is state passing; code whose interleavings matter (refresh scheduler, key changes during a lookup, the limiter of the
  initialisation, slots) is a step relation with an invariant by rule induction. Mutexes make an operation one step; where the code gives up
  the lock in between, the model has several steps. Interfaces that several parts rely on are locales, interpreted on the model's own definitions:
  the strict orders behind Go's sorts (\<open>go_less\<close>), the methods behind \<open>container/heap\<close> (\<open>heap_interface\<close>), maps with expiry (\<open>ttl_store\<close>), counters that gate
  requests (\<open>slot_gate\<close>), work that must not overlap (\<open>single_flight\<close>), passes over the pool that change one account after the other (\<open>account_pass\<close>) and transition systems with an invariant (\<open>invariant_machine\<close>).
  Times and durations are integers in nanoseconds; \<open>float64\<close> is a real number, without rounding; \<open>int64\<close> overflow is written out where the code can
  reach it (model cooldowns, rate-limit durations), and bytes are 8-bit words in the comparison of secrets. Strings are lists of bytes;
  runes are counted where the code counts them.

  \<^bold>\<open>Loops.\<close> All definitions are total. The acquisition loop of the fast scheduler has as fuel one more than the number of entries, and is shown not to
  run out of it; a selection makes 16 attempts, as the code does; the retry loop passes at most twice over the soft exclusions; the hand-over of due tasks is
  measured by the length of the queue; the loop of a chat request by the two retry budgets; the collection of texts from JSON has the length of the body as fuel.

  \<^bold>\<open>Parameters.\<close> What is not under \<open>src/\<close> is an argument: the JSON reader \<open>gjson\<close> and the codecs of \<open>encoding/json\<close>, regular expressions, parsing of numbers and of
  network addresses, random numbers, the clock, whether the database accepts a statement, the outcome of an HTTP request. Claims that need something of
  them say so in a hypothesis, and their witnesses have a concrete instance.

  \<^bold>\<open>Not modelled.\<close> Token refresh and OAuth, the redis cache, request signing and transport, because they are exchanges with external servers; SQL beyond the statements
  named above; HTTP plumbing, texts of replies and logs; the account import, export and statistics of the management interface; media uploads; the
  image studio; the user interface; the composition of the guards of a request in front of the chat loop, which the router of the HTTP framework does. The rows
  that the database holds are the decoded ones: the encodings of the two engines and the migrations of the schema are left out.
\<close>

end
